(* ===== verification/YPrelude.thy ===== *)
theory YPrelude
  imports Main "HOL-Library.Char_ord" "HOL-Library.List_Lexorder" "HOL-Library.AList"
begin

text \<open>
  Shared ground of the development: what the Python sources use of the language.
  \<^item> \<open>exn\<close>: the exceptions the sources raise, catch or let pass;
  \<^item> \<open>py\<close>: a Python call as a function from the state it runs in to its outcome (\<open>Inl\<close> an
    exception, \<open>Inr\<close> a result) and the state it leaves, so that an exception keeps the effects
    made before it; \<open>py_bind\<close>, \<open>py_try\<close>, \<open>py_for\<close> and \<open>py_fold\<close> compose calls, and
    \<open>wp\<close> is the weakest precondition the component proofs compute with;
  \<^item> the string methods (\<open>startswith\<close>, \<open>endswith\<close>, \<open>lower\<close>, \<open>replace\<close> of a character by
    nothing, \<open>split\<close>, \<open>partition\<close>, \<open>rpartition\<close>, \<open>strip\<close>, \<open>join\<close>), decimal printing and
    Python's \<open>int\<close> on text.
  A string is a list of characters; sorting is by code point.
\<close>

named_theorems wp_simps "equations that compute weakest preconditions"

section \<open>Exceptions and effects\<close>

datatype exn =
    KeyError string
  | TypeError
  | ValueError string
  | AttributeError
  | RuntimeError string
  | IndexError
  | JSONDecodeError
  | ConnectionError
  | OSError
  | ClientError string
  | CalledProcessError int
  | SystemExit int

type_synonym ('w, 'a) py = "'w \<Rightarrow> (exn + 'a) \<times> 'w"

definition py_return :: "'a \<Rightarrow> ('w, 'a) py" where
  "py_return x = (\<lambda>w. (Inr x, w))"

definition py_raise :: "exn \<Rightarrow> ('w, 'a) py" where
  "py_raise e = (\<lambda>w. (Inl e, w))"

definition py_bind :: "('w, 'a) py \<Rightarrow> ('a \<Rightarrow> ('w, 'b) py) \<Rightarrow> ('w, 'b) py" where
  "py_bind m f = (\<lambda>w. case m w of (Inl e, w') \<Rightarrow> (Inl e, w') | (Inr x, w') \<Rightarrow> f x w')"

definition py_seq :: "('w, 'a) py \<Rightarrow> ('w, 'b) py \<Rightarrow> ('w, 'b) py" where
  "py_seq m n = py_bind m (\<lambda>_. n)"

definition py_try :: "('w, 'a) py \<Rightarrow> (exn \<Rightarrow> ('w, 'a) py) \<Rightarrow> ('w, 'a) py" where
  "py_try m h = (\<lambda>w. case m w of (Inl e, w') \<Rightarrow> h e w' | (Inr x, w') \<Rightarrow> (Inr x, w'))"

definition py_finally :: "('w, 'a) py \<Rightarrow> ('w, unit) py \<Rightarrow> ('w, 'a) py" where
  "py_finally m c = (\<lambda>w. case m w of (r, w') \<Rightarrow> (case c w' of (Inl e, w'') \<Rightarrow> (Inl e, w'') | (Inr _, w'') \<Rightarrow> (r, w'')))"

definition py_ignore :: "('w, 'a) py \<Rightarrow> ('w, unit) py" where
  "py_ignore m = py_try (py_seq m (py_return ())) (\<lambda>_. py_return ())"

definition py_lift :: "exn + 'a \<Rightarrow> ('w, 'a) py" where
  "py_lift r = (\<lambda>w. (r, w))"

definition py_get :: "('w \<Rightarrow> 'a) \<Rightarrow> ('w, 'a) py" where
  "py_get f = (\<lambda>w. (Inr (f w), w))"

definition py_modify :: "('w \<Rightarrow> 'w) \<Rightarrow> ('w, unit) py" where
  "py_modify f = (\<lambda>w. (Inr (), f w))"

definition py_zoom :: "('w \<Rightarrow> 's) \<Rightarrow> ('s \<Rightarrow> 'w \<Rightarrow> 'w) \<Rightarrow> ('s, 'a) py \<Rightarrow> ('w, 'a) py" where
  "py_zoom g p m = (\<lambda>w. case m (g w) of (r, s) \<Rightarrow> (r, p s w))"

definition py_when :: "bool \<Rightarrow> ('w, unit) py \<Rightarrow> ('w, unit) py" where
  "py_when b m = (if b then m else py_return ())"

primrec py_for :: "'a list \<Rightarrow> ('a \<Rightarrow> ('w, unit) py) \<Rightarrow> ('w, unit) py" where
  "py_for [] f = py_return ()"
| "py_for (x # xs) f = py_seq (f x) (py_for xs f)"

primrec py_fold :: "('a \<Rightarrow> 'b \<Rightarrow> ('w, 'b) py) \<Rightarrow> 'a list \<Rightarrow> 'b \<Rightarrow> ('w, 'b) py" where
  "py_fold f [] b = py_return b"
| "py_fold f (x # xs) b = py_bind (f x b) (py_fold f xs)"

definition wp :: "('w, 'a) py \<Rightarrow> ('a \<Rightarrow> 'w \<Rightarrow> bool) \<Rightarrow> (exn \<Rightarrow> 'w \<Rightarrow> bool) \<Rightarrow> 'w \<Rightarrow> bool" where
  "wp m Q E w = (case m w of (Inl e, w') \<Rightarrow> E e w' | (Inr x, w') \<Rightarrow> Q x w')"

lemmas py_defs = py_return_def py_raise_def py_bind_def py_seq_def py_try_def py_lift_def
  py_get_def py_modify_def py_zoom_def py_when_def

lemma py_bind_lift: "py_bind (py_lift (Inr x)) f = f x" "py_bind (py_lift (Inl y)) f = py_lift (Inl y)"
  by (simp_all add: py_defs)

text \<open>The equations are between predicates on states, so they also rewrite continuations.\<close>

lemma wp_return [wp_simps]: "wp (py_return x) Q E = Q x"
  by (simp add: fun_eq_iff wp_def py_defs)

lemma wp_raise [wp_simps]: "wp (py_raise e) Q E = E e"
  by (simp add: fun_eq_iff wp_def py_defs)

lemma wp_bind [wp_simps]: "wp (py_bind m f) Q E = wp m (\<lambda>x. wp (f x) Q E) E"
  by (simp add: fun_eq_iff wp_def py_defs split: prod.splits sum.splits)

lemma wp_seq [wp_simps]: "wp (py_seq m n) Q E = wp m (\<lambda>_. wp n Q E) E"
  by (simp add: py_seq_def wp_bind)

lemma wp_try [wp_simps]: "wp (py_try m h) Q E = wp m Q (\<lambda>e. wp (h e) Q E)"
  by (simp add: fun_eq_iff wp_def py_defs split: prod.splits sum.splits)

lemma wp_finally [wp_simps]: "wp (py_finally m c) Q E = wp m (\<lambda>x. wp c (\<lambda>_. Q x) E) (\<lambda>e. wp c (\<lambda>_. E e) E)"
  by (simp add: fun_eq_iff wp_def py_finally_def split: prod.splits sum.splits)

lemma wp_ignore [wp_simps]: "wp (py_ignore m) Q E = wp m (\<lambda>_. Q ()) (\<lambda>_. Q ())"
  by (simp add: py_ignore_def wp_try wp_seq wp_return)

lemma wp_lift [wp_simps]: "wp (py_lift r) Q E = (\<lambda>w. case r of Inl e \<Rightarrow> E e w | Inr x \<Rightarrow> Q x w)"
  by (simp add: fun_eq_iff wp_def py_defs split: sum.splits)

lemma wp_get [wp_simps]: "wp (py_get f) Q E = (\<lambda>w. Q (f w) w)"
  by (simp add: fun_eq_iff wp_def py_defs)

lemma wp_modify [wp_simps]: "wp (py_modify f) Q E = (\<lambda>w. Q () (f w))"
  by (simp add: fun_eq_iff wp_def py_defs)

lemma wp_zoom [wp_simps]:
  "wp (py_zoom g p m) Q E = (\<lambda>w. wp m (\<lambda>x s. Q x (p s w)) (\<lambda>e s. E e (p s w)) (g w))"
  by (simp add: fun_eq_iff wp_def py_defs split: prod.splits sum.splits)

lemma wp_when [wp_simps]: "wp (py_when b m) Q E = (\<lambda>w. if b then wp m Q E w else Q () w)"
  by (simp add: fun_eq_iff py_when_def wp_return)

lemma wp_if [wp_simps]: "wp (if b then m else n) Q E = (\<lambda>w. if b then wp m Q E w else wp n Q E w)"
  by simp

lemma wp_for_Nil [wp_simps]: "wp (py_for [] f) Q E = Q ()"
  by (simp add: wp_return)

lemma wp_for_Cons [wp_simps]: "wp (py_for (x # xs) f) Q E = wp (f x) (\<lambda>_. wp (py_for xs f) Q E) E"
  by (simp add: wp_seq)

lemma wp_fold_Nil [wp_simps]: "wp (py_fold f [] b) Q E = Q b"
  by (simp add: wp_return)

lemma wp_fold_Cons [wp_simps]:
  "wp (py_fold f (x # xs) b) Q E = wp (f x b) (\<lambda>b'. wp (py_fold f xs b') Q E) E"
  by (simp add: wp_bind)

lemma wp_mono:
  assumes "wp m Q E w" and "\<And>x w'. Q x w' \<Longrightarrow> Q' x w'" and "\<And>e w'. E e w' \<Longrightarrow> E' e w'"
  shows "wp m Q' E' w"
  using assms by (auto simp: wp_def split: prod.splits sum.splits)

lemma wp_conj: "wp m Q E w \<Longrightarrow> wp m Q' E' w \<Longrightarrow> wp m (\<lambda>x w. Q x w \<and> Q' x w) (\<lambda>e w. E e w \<and> E' e w) w"
  by (auto simp: wp_def split: prod.splits sum.splits)

lemma wp_Inr: "wp m Q E w \<Longrightarrow> m w = (Inr x, w') \<Longrightarrow> Q x w'"
  by (simp add: wp_def)

lemma wp_Inl: "wp m Q E w \<Longrightarrow> m w = (Inl e, w') \<Longrightarrow> E e w'"
  by (simp add: wp_def)

text \<open>A property of the state that every element's body keeps is kept by the loop.\<close>

lemma wp_for_invariant:
  assumes "\<And>x w. x \<in> set xs \<Longrightarrow> I w \<Longrightarrow> wp (f x) (\<lambda>_. I) (\<lambda>_. I) w" and "I w"
  shows "wp (py_for xs f) (\<lambda>_. I) (\<lambda>_. I) w"
  using assms
proof (induction xs arbitrary: w)
  case Nil
  then show ?case by (simp add: wp_simps)
next
  case (Cons x xs)
  have "wp (f x) (\<lambda>_. I) (\<lambda>_. I) w" using Cons.prems by simp
  then have "wp (f x) (\<lambda>_. wp (py_for xs f) (\<lambda>_. I) (\<lambda>_. I)) (\<lambda>_. I) w"
    by (rule wp_mono) (use Cons in auto)
  then show ?case by (simp add: wp_simps)
qed

lemma wp_fold_invariant:
  assumes "\<And>x b w. x \<in> set xs \<Longrightarrow> I w \<Longrightarrow> wp (f x b) (\<lambda>_. I) (\<lambda>_. I) w" and "I w"
  shows "wp (py_fold f xs b) (\<lambda>_. I) (\<lambda>_. I) w"
  using assms
proof (induction xs arbitrary: w b)
  case Nil
  then show ?case by (simp add: wp_simps)
next
  case (Cons x xs)
  have "wp (f x b) (\<lambda>_. I) (\<lambda>_. I) w" using Cons.prems by simp
  then have "wp (f x b) (\<lambda>b'. wp (py_fold f xs b') (\<lambda>_. I) (\<lambda>_. I)) (\<lambda>_. I) w"
    by (rule wp_mono) (use Cons in auto)
  then show ?case by (simp add: wp_simps)
qed

text \<open>\<open>keeps I m\<close>: the call keeps \<open>I\<close>, whether it returns or raises.\<close>

definition keeps :: "('w \<Rightarrow> bool) \<Rightarrow> ('w, 'a) py \<Rightarrow> bool" where
  "keeps I m = (\<forall>w. I w \<longrightarrow> wp m (\<lambda>_. I) (\<lambda>_. I) w)"

lemma keepsI: "(\<And>w. I w \<Longrightarrow> wp m (\<lambda>_. I) (\<lambda>_. I) w) \<Longrightarrow> keeps I m"
  by (simp add: keeps_def)

lemma keepsD: "keeps I m \<Longrightarrow> I w \<Longrightarrow> wp m (\<lambda>_. I) (\<lambda>_. I) w"
  by (simp add: keeps_def)

lemma keeps_run: "keeps I m \<Longrightarrow> I w \<Longrightarrow> m w = (r, w') \<Longrightarrow> I w'"
  by (auto simp: keeps_def wp_def split: sum.splits)

lemma keeps_bind: "keeps I m \<Longrightarrow> (\<And>x. keeps I (f x)) \<Longrightarrow> keeps I (py_bind m f)"
  by (auto simp: keeps_def wp_bind intro: wp_mono)

lemma keeps_seq: "keeps I m \<Longrightarrow> keeps I n \<Longrightarrow> keeps I (py_seq m n)"
  by (simp add: py_seq_def keeps_bind)

lemma keeps_try: "keeps I m \<Longrightarrow> (\<And>x. keeps I (h x)) \<Longrightarrow> keeps I (py_try m h)"
  by (auto simp: keeps_def wp_try intro: wp_mono)

lemma keeps_simple [simp]:
  "keeps I (py_return x)" "keeps I (py_raise e)" "keeps I (py_lift r)" "keeps I (py_get f)"
  by (auto simp: keeps_def wp_simps split: sum.splits)

lemma keeps_modify: "(\<And>w. I w \<Longrightarrow> I (f w)) \<Longrightarrow> keeps I (py_modify f)"
  by (simp add: keeps_def wp_modify)

lemma keeps_zoom: "(\<And>s w. I w \<Longrightarrow> I (p s w)) \<Longrightarrow> keeps I (py_zoom g p m)"
  by (auto simp: keeps_def wp_def py_zoom_def split: prod.splits sum.splits)

lemma keeps_zoomI:
  assumes "keeps J m" and "\<And>w. I w \<Longrightarrow> J (g w)" and "\<And>s w. I w \<Longrightarrow> J s \<Longrightarrow> I (p s w)"
  shows "keeps I (py_zoom g p m)"
proof (rule keepsI)
  fix w assume w: "I w"
  from keepsD [OF assms(1) assms(2) [OF w]] show "wp (py_zoom g p m) (\<lambda>_. I) (\<lambda>_. I) w"
    unfolding wp_zoom by (rule wp_mono) (use w assms(3) in auto)
qed

lemma keeps_when: "keeps I m \<Longrightarrow> keeps I (py_when b m)"
  by (simp add: py_when_def)

lemma keeps_for: "(\<And>x. x \<in> set xs \<Longrightarrow> keeps I (f x)) \<Longrightarrow> keeps I (py_for xs f)"
  by (auto intro!: keepsI wp_for_invariant dest: keepsD)

lemma keeps_fold: "(\<And>x b. x \<in> set xs \<Longrightarrow> keeps I (f x b)) \<Longrightarrow> keeps I (py_fold f xs b)"
  by (auto intro!: keepsI wp_fold_invariant dest: keepsD)

lemmas keeps_intros = keeps_bind keeps_seq keeps_try keeps_modify keeps_zoom keeps_when keeps_for keeps_fold

lemma keeps_finally:
  assumes "keeps I m" and "keeps I c" shows "keeps I (py_finally m c)"
proof (rule keepsI)
  fix w assume "I w"
  from keepsD [OF assms(1) this] show "wp (py_finally m c) (\<lambda>_. I) (\<lambda>_. I) w"
    unfolding wp_finally by (rule wp_mono) (use keepsD [OF assms(2)] in blast)+
qed

lemma keeps_ignore: "keeps I m \<Longrightarrow> keeps I (py_ignore m)"
  by (auto simp: keeps_def wp_ignore intro: wp_mono)

text \<open>\<open>leaves f m\<close>: the call does not change what \<open>f\<close> sees of the state.\<close>

definition leaves :: "('w \<Rightarrow> 'o) \<Rightarrow> ('w, 'a) py \<Rightarrow> bool" where
  "leaves f m = (\<forall>s. f (snd (m s)) = f s)"

lemma leavesD: "leaves f m \<Longrightarrow> m s = (r, s') \<Longrightarrow> f s' = f s"
  by (simp add: leaves_def) (metis snd_conv)

lemma wp_leaves: "leaves f m \<Longrightarrow> (\<And>x s'. f s' = f s \<Longrightarrow> m s = (Inr x, s') \<Longrightarrow> Q x s') \<Longrightarrow> (\<And>x s'. f s' = f s \<Longrightarrow> E x s') \<Longrightarrow> wp m Q E s"
  by (cases "m s"; cases "fst (m s)") (auto simp: leaves_def wp_def dest: spec [of _ s])

section \<open>Strings\<close>

definition startswith :: "string \<Rightarrow> string \<Rightarrow> bool" where
  "startswith s p = (take (length p) s = p)"

definition endswith :: "string \<Rightarrow> string \<Rightarrow> bool" where
  "endswith s p = (length p \<le> length s \<and> drop (length s - length p) s = p)"

definition ascii_lower :: "char \<Rightarrow> char" where
  "ascii_lower c = (let n = of_char c :: nat in if 65 \<le> n \<and> n \<le> 90 then char_of (n + 32) else c)"

definition lower :: "string \<Rightarrow> string" where
  "lower s = map ascii_lower s"

definition remove_char :: "char \<Rightarrow> string \<Rightarrow> string" where
  "remove_char c s = filter (\<lambda>x. x \<noteq> c) s"

text \<open>\<open>s.split(c)\<close> for a separator of one character: never empty.\<close>

fun split_on :: "char \<Rightarrow> string \<Rightarrow> string list" where
  "split_on c [] = [[]]"
| "split_on c (x # xs) =
     (if x = c then [] # split_on c xs
      else (case split_on c xs of [] \<Rightarrow> [[x]] | y # ys \<Rightarrow> (x # y) # ys))"

text \<open>\<open>s.partition(c)\<close> and \<open>s.rpartition(c)\<close>: the part before, whether the separator was
  there, the part after.\<close>

definition partition_on :: "char \<Rightarrow> string \<Rightarrow> string \<times> bool \<times> string" where
  "partition_on c s =
     (case dropWhile (\<lambda>x. x \<noteq> c) s of
        [] \<Rightarrow> (s, False, [])
      | _ # rest \<Rightarrow> (takeWhile (\<lambda>x. x \<noteq> c) s, True, rest))"

definition rpartition_on :: "char \<Rightarrow> string \<Rightarrow> string \<times> bool \<times> string" where
  "rpartition_on c s =
     (case dropWhile (\<lambda>x. x \<noteq> c) (rev s) of
        [] \<Rightarrow> ([], False, s)
      | _ # rest \<Rightarrow> (rev rest, True, rev (takeWhile (\<lambda>x. x \<noteq> c) (rev s))))"

definition is_space :: "char \<Rightarrow> bool" where
  "is_space c = (let n = of_char c :: nat in
     9 \<le> n \<and> n \<le> 13 \<or> 28 \<le> n \<and> n \<le> 32 \<or> n = 133 \<or> n = 160)"

definition strip :: "string \<Rightarrow> string" where
  "strip s = rev (dropWhile is_space (rev (dropWhile is_space s)))"

fun join :: "string \<Rightarrow> string list \<Rightarrow> string" where
  "join sep [] = []"
| "join sep [x] = x"
| "join sep (x # y # ys) = x @ sep @ join sep (y # ys)"

abbreviation nl :: string where
  "nl \<equiv> [CHR 0x0A]"

section \<open>Decimal numbers\<close>

definition is_digit :: "char \<Rightarrow> bool" where
  "is_digit c = (let n = of_char c :: nat in 48 \<le> n \<and> n \<le> 57)"

definition digit_val :: "char \<Rightarrow> nat" where
  "digit_val c = of_char c - 48"

definition digit_char :: "nat \<Rightarrow> char" where
  "digit_char n = char_of (48 + n)"

fun nat_str :: "nat \<Rightarrow> string" where
  "nat_str n = (if n < 10 then [digit_char n] else nat_str (n div 10) @ [digit_char (n mod 10)])"

declare nat_str.simps [simp del]

definition digits_val :: "string \<Rightarrow> nat" where
  "digits_val s = foldl (\<lambda>a c. 10 * a + digit_val c) 0 s"

definition int_str :: "int \<Rightarrow> string" where
  "int_str i = (if i < 0 then CHR ''-'' # nat_str (nat (- i)) else nat_str (nat i))"

text \<open>\<open>s.isdigit()\<close>.\<close>

definition isdigit :: "string \<Rightarrow> bool" where
  "isdigit s = (s \<noteq> [] \<and> list_all is_digit s)"

text \<open>Digits with single underscores between them, as Python's integer literals allow.\<close>

fun us_digits :: "string \<Rightarrow> bool" where
  "us_digits [] = False"
| "us_digits [c] = is_digit c"
| "us_digits (c # d # r) = (is_digit c \<and> (if d = CHR ''_'' then us_digits r else us_digits (d # r)))"

text \<open>\<open>int(s)\<close>: surrounding white space, a sign and underscores between digits are accepted;
  \<open>None\<close> is the \<open>ValueError\<close>.\<close>

definition py_int :: "string \<Rightarrow> int option" where
  "py_int s =
     (let t = strip s;
          neg = (case t of c # _ \<Rightarrow> c = CHR ''-'' | [] \<Rightarrow> False);
          sgd = (case t of c # _ \<Rightarrow> c = CHR ''-'' \<or> c = CHR ''+'' | [] \<Rightarrow> False);
          body = (if sgd then tl t else t)
      in if us_digits body
         then Some ((if neg then -1 else 1) * int (digits_val (remove_char (CHR ''_'') body)))
         else None)"

lemma of_char_char_of_small [simp]: "n < 256 \<Longrightarrow> of_char (char_of (n::nat)) = n"
  by simp

lemma digit_char_digit [simp]: "n < 10 \<Longrightarrow> is_digit (digit_char n)"
  by (simp add: is_digit_def digit_char_def)

lemma digit_val_char [simp]: "n < 10 \<Longrightarrow> digit_val (digit_char n) = n"
  by (simp add: digit_val_def digit_char_def)

lemma nat_str_nonempty [simp]: "nat_str n \<noteq> []"
  by (subst nat_str.simps) simp

lemma nat_str_digits: "list_all is_digit (nat_str n)"
proof (induction n rule: nat_str.induct)
  case (1 n)
  show ?case
    by (cases "n < 10") (use 1 in \<open>auto simp: nat_str.simps [of n]\<close>)
qed

lemma digits_val_snoc: "digits_val (s @ [c]) = 10 * digits_val s + digit_val c"
  by (simp add: digits_val_def)

lemma digits_val_nat_str [simp]: "digits_val (nat_str n) = n"
proof (induction n rule: nat_str.induct)
  case (1 n)
  show ?case
  proof (cases "n < 10")
    case True
    then show ?thesis by (simp add: nat_str.simps [of n] digits_val_def)
  next
    case False
    with 1 have "digits_val (nat_str (n div 10)) = n div 10" by simp
    with False show ?thesis by (simp add: nat_str.simps [of n] digits_val_snoc)
  qed
qed

lemma nat_str_inject [simp]: "nat_str m = nat_str n \<longleftrightarrow> m = n"
  by (metis digits_val_nat_str)

lemma isdigit_nat_str [simp]: "isdigit (nat_str n)"
  by (simp add: isdigit_def nat_str_digits)

lemma digit_not_special:
  assumes "is_digit c"
  shows "\<not> is_space c" and "c \<noteq> CHR ''_''" and "c \<noteq> CHR ''-''" and "c \<noteq> CHR ''+''"
    and "c \<noteq> CHR ''.''" and "c \<noteq> CHR '':''" and "c \<noteq> CHR ''/''" and "c \<noteq> CHR ''a''"
  using assms by (auto simp: is_digit_def is_space_def Let_def)

lemma list_all_digit_us: "s \<noteq> [] \<Longrightarrow> list_all is_digit s \<Longrightarrow> us_digits s"
  by (induction s rule: us_digits.induct) (auto dest: digit_not_special)

lemma dropWhile_space_digit: "list_all is_digit s \<Longrightarrow> dropWhile is_space s = s"
  by (cases s) (auto dest: digit_not_special)

lemma strip_digits: "list_all is_digit s \<Longrightarrow> strip s = s"
  by (simp add: strip_def dropWhile_space_digit list_all_iff)

lemma remove_char_digits: "list_all is_digit s \<Longrightarrow> remove_char (CHR ''_'') s = s"
  by (auto simp: remove_char_def list_all_iff filter_id_conv dest: digit_not_special)

lemma py_int_digits:
  assumes "s \<noteq> []" and "list_all is_digit s"
  shows "py_int s = Some (int (digits_val s))"
proof -
  obtain c r where s: "s = c # r" using assms(1) by (cases s) auto
  with assms have "is_digit c" by simp
  with assms s show ?thesis
    using digit_not_special [of c]
    by (simp add: py_int_def strip_digits list_all_digit_us remove_char_digits Let_def del: us_digits.simps)
qed

lemma py_int_nat_str [simp]: "py_int (nat_str n) = Some (int n)"
  by (simp add: py_int_digits nat_str_digits)

section \<open>Splitting\<close>

lemma split_on_nonempty [simp]: "split_on c s \<noteq> []"
  by (induction s) (auto split: list.splits)

lemma split_on_no_sep: "c \<notin> set s \<Longrightarrow> split_on c s = [s]"
  by (induction s) auto

lemma split_on_append: "c \<notin> set s \<Longrightarrow> split_on c (s @ c # t) = s # split_on c t"
  by (induction s) auto

lemma digits_no_sep: "is_digit c \<noteq> True \<Longrightarrow> c \<notin> set (nat_str n)"
  using nat_str_digits [of n] by (auto simp: list_all_iff)

lemma startswith_append [simp]: "startswith (p @ s) p"
  by (simp add: startswith_def)

lemma startswith_iff: "startswith s p \<longleftrightarrow> (\<exists>t. s = p @ t)"
  by (metis append_take_drop_id startswith_def append_eq_conv_conj)

lemma endswith_iff: "endswith s p \<longleftrightarrow> (\<exists>t. s = t @ p)"
proof
  assume "endswith s p"
  then show "\<exists>t. s = t @ p"
    unfolding endswith_def by (metis append_take_drop_id)
qed (auto simp: endswith_def)

lemma endswith_snoc [simp]: "endswith (s @ [c]) [d] \<longleftrightarrow> c = d"
  by (auto simp: endswith_iff)

section \<open>Association lists in insertion order\<close>

text \<open>A Python dict keeps insertion order: \<open>d[k] = v\<close> is \<open>AList.update\<close> (in place, or at the
  end), \<open>del d[k]\<close> is \<open>AList.delete\<close>, \<open>d.get(k)\<close> is \<open>map_of d\<close>.\<close>

lemma map_of_delete [simp]: "map_of (AList.delete k xs) = (map_of xs)(k := None)"
  by (simp add: delete_conv')

lemma map_of_update [simp]: "map_of (AList.update k v xs) = (map_of xs)(k \<mapsto> v)"
  by (simp add: update_conv')

end
