(* ===== verification/YJson.thy ===== *)
theory YJson
  imports YPrelude
begin

text \<open>
  JSON documents and Python's reading of them. The program keeps its state as JSON text in
  etcd and handles it as dicts; a dict is an association list in insertion order
  (\<open>map_of\<close> is \<open>d.get\<close>, \<open>AList.update\<close> is \<open>d[k] = v\<close>). A stored value is the
  serialisation of a document (\<open>Doc\<close> an object, \<open>DocList\<close> an array, the only two the program
  stores) or other text (\<open>Text\<close>): flags, host names, domains, or bytes that are no JSON.
  Numbers with a fraction do not occur in the documents modelled.
\<close>

datatype json =
    JNull
  | JBool bool
  | JInt int
  | JStr string
  | JList "json list"
  | JObj "(string \<times> json) list"

type_synonym dict = "(string \<times> json) list"

datatype blob = Doc dict | DocList "json list" | Text string

text \<open>Python's truth value of an object.\<close>

fun truthy :: "json \<Rightarrow> bool" where
  "truthy JNull = False"
| "truthy (JBool b) = b"
| "truthy (JInt i) = (i \<noteq> 0)"
| "truthy (JStr s) = (s \<noteq> [])"
| "truthy (JList xs) = (xs \<noteq> [])"
| "truthy (JObj xs) = (xs \<noteq> [])"

definition otruthy :: "json option \<Rightarrow> bool" where
  "otruthy x = (case x of None \<Rightarrow> False | Some j \<Rightarrow> truthy j)"

text \<open>The truth value of bytes: \<open>if value:\<close>.\<close>

fun blob_true :: "blob \<Rightarrow> bool" where
  "blob_true (Text t) = (t \<noteq> [])"
| "blob_true _ = True"

text \<open>\<open>json.loads(value.decode())\<close> where the code goes on to use the result as a dict.\<close>

fun loads_dict :: "blob \<Rightarrow> exn + dict" where
  "loads_dict (Doc d) = Inr d"
| "loads_dict (DocList xs) = Inl AttributeError"
| "loads_dict (Text t) = Inl JSONDecodeError"

text \<open>\<open>d[k]\<close>, \<open>d.get(k)\<close>, \<open>d[k] = v\<close>.\<close>

definition dict_item :: "dict \<Rightarrow> string \<Rightarrow> exn + json" where
  "dict_item d k = (case map_of d k of None \<Rightarrow> Inl (KeyError k) | Some v \<Rightarrow> Inr v)"

abbreviation dict_get :: "dict \<Rightarrow> string \<Rightarrow> json option" where
  "dict_get d k \<equiv> map_of d k"

abbreviation dict_set :: "string \<Rightarrow> json \<Rightarrow> dict \<Rightarrow> dict" where
  "dict_set k v d \<equiv> AList.update k v d"

text \<open>A field used as a string or an integer where the code relies on it being one: another
  type of value raises \<open>TypeError\<close>.\<close>

definition str_item :: "dict \<Rightarrow> string \<Rightarrow> exn + string" where
  "str_item d k =
     (case map_of d k of None \<Rightarrow> Inl (KeyError k) | Some (JStr s) \<Rightarrow> Inr s | Some _ \<Rightarrow> Inl TypeError)"

fun the_str :: "json \<Rightarrow> string option" where
  "the_str (JStr s) = Some s"
| "the_str _ = None"

definition get_str :: "dict \<Rightarrow> string \<Rightarrow> string option" where
  "get_str d k = Option.bind (map_of d k) the_str"

fun the_int :: "json \<Rightarrow> int option" where
  "the_int (JInt i) = Some i"
| "the_int _ = None"

definition get_int :: "dict \<Rightarrow> string \<Rightarrow> int option" where
  "get_int d k = Option.bind (map_of d k) the_int"

lemma str_item_Inr [simp]: "str_item d k = Inr s \<longleftrightarrow> map_of d k = Some (JStr s)"
  by (auto simp: str_item_def split: option.splits json.splits)

lemma dict_item_Inr [simp]: "dict_item d k = Inr j \<longleftrightarrow> map_of d k = Some j"
  by (auto simp: dict_item_def split: option.splits)

lemma get_str_Some [simp]: "get_str d k = Some s \<longleftrightarrow> map_of d k = Some (JStr s)"
proof
  assume "get_str d k = Some s"
  then obtain j where "map_of d k = Some j" and "the_str j = Some s"
    by (auto simp: get_str_def bind_eq_Some_conv)
  then show "map_of d k = Some (JStr s)" by (cases j) auto
qed (simp add: get_str_def)

lemma get_int_Some [simp]: "get_int d k = Some i \<longleftrightarrow> map_of d k = Some (JInt i)"
proof
  assume "get_int d k = Some i"
  then obtain j where "map_of d k = Some j" and "the_int j = Some i"
    by (auto simp: get_int_def bind_eq_Some_conv)
  then show "map_of d k = Some (JInt i)" by (cases j) auto
qed (simp add: get_int_def)

lemma otruthy_simps [simp]: "\<not> otruthy None" "otruthy (Some j) = truthy j"
  by (simp_all add: otruthy_def)

lemma loads_dict_Inr [simp]: "loads_dict b = Inr d \<longleftrightarrow> b = Doc d"
  by (cases b) auto

end
