(* ===== verification/YTime.thy ===== *)
theory YTime
  imports YPrelude "HOL-Library.Monad_Syntax"
begin

text \<open>
  The part of Python's \<open>datetime\<close> the sources use. An instant is a number of microseconds since
  the start of year 1; a datetime is \<open>Naive\<close> (local wall clock, as \<open>datetime.now()\<close>) or
  \<open>Aware\<close> (its UTC instant: aware datetimes are compared, subtracted and converted by
  instant). \<open>fromisoformat\<close> reads the extended calendar format
  \<open>YYYY-MM-DD[sep HH[:MM[:SS[.fff]]][Z|(+|-)HH:MM]]\<close> (also times without colons); week dates
  and compact dates are not modelled. The main results are the round trips of the two
  \<open>isoformat\<close> calls the program stores time stamps with.
\<close>

section \<open>Calendar\<close>

definition is_leap :: "nat \<Rightarrow> bool" where
  "is_leap y = (y mod 4 = 0 \<and> (y mod 100 \<noteq> 0 \<or> y mod 400 = 0))"

definition days_before_year :: "nat \<Rightarrow> nat" where
  "days_before_year y = (let z = y - 1 in z * 365 + z div 4 + z div 400 - z div 100)"

definition days_in_month :: "nat \<Rightarrow> nat \<Rightarrow> nat" where
  "days_in_month y m =
     (if m = 2 then (if is_leap y then 29 else 28)
      else if m = 4 \<or> m = 6 \<or> m = 9 \<or> m = 11 then 30 else 31)"

fun days_before_month :: "nat \<Rightarrow> nat \<Rightarrow> nat" where
  "days_before_month y 0 = 0"
| "days_before_month y (Suc 0) = 0"
| "days_before_month y (Suc (Suc m)) = days_before_month y (Suc m) + days_in_month y (Suc m)"

definition ymd2ord :: "nat \<Rightarrow> nat \<Rightarrow> nat \<Rightarrow> nat" where
  "ymd2ord y m d = days_before_year y + days_before_month y m + d"

definition valid_date :: "nat \<Rightarrow> nat \<Rightarrow> nat \<Rightarrow> bool" where
  "valid_date y m d = (1 \<le> y \<and> y \<le> 9999 \<and> 1 \<le> m \<and> m \<le> 12 \<and> 1 \<le> d \<and> d \<le> days_in_month y m)"

lemma days_before_year_ge: "y \<le> days_before_year (Suc y)"
proof -
  have "y div 100 \<le> y div 4" by (simp add: div_le_mono2)
  then show ?thesis unfolding days_before_year_def Let_def by simp
qed

function year_from :: "nat \<Rightarrow> nat \<Rightarrow> nat" where
  "year_from y n = (if days_before_year (Suc y) < n then year_from (Suc y) n else y)"
  by pat_completeness auto
termination
proof (relation "measure (\<lambda>(y, n). n - y)")
  fix y n :: nat
  assume "days_before_year (Suc y) < n"
  then have "y < n" using days_before_year_ge [of y] by simp
  then show "((Suc y, n), (y, n)) \<in> measure (\<lambda>(y, n). n - y)" by auto
qed simp

declare year_from.simps [simp del]

function month_from :: "nat \<Rightarrow> nat \<Rightarrow> nat \<Rightarrow> nat \<times> nat" where
  "month_from y m r =
     (if m < 12 \<and> days_in_month y m < r then month_from y (Suc m) (r - days_in_month y m) else (m, r))"
  by pat_completeness auto
termination
  by (relation "measure (\<lambda>(y, m, r). 12 - m)") auto

declare month_from.simps [simp del]

text \<open>Year, month and day of a day number: the calendar date with that ordinal.\<close>

definition ord2ymd :: "nat \<Rightarrow> nat \<times> nat \<times> nat" where
  "ord2ymd n =
     (let y = year_from (n div 366 + 1) n; (m, d) = month_from y 1 (n - days_before_year y) in (y, m, d))"

section \<open>Printing and parsing\<close>

datatype pydt = Naive int | Aware int

definition usec_per_day :: int where
  "usec_per_day = 86400000000"

definition pad2 :: "nat \<Rightarrow> string" where
  "pad2 n = [digit_char (n div 10 mod 10), digit_char (n mod 10)]"

definition pad4 :: "nat \<Rightarrow> string" where
  "pad4 n = pad2 (n div 100) @ pad2 (n mod 100)"

definition pad6 :: "nat \<Rightarrow> string" where
  "pad6 n = pad2 (n div 10000) @ pad2 (n div 100 mod 100) @ pad2 (n mod 100)"

definition iso_date :: "int \<Rightarrow> string" where
  "iso_date t =
     (case ord2ymd (nat (t div usec_per_day) + 1) of
        (y, m, d) \<Rightarrow> pad4 y @ ''-'' @ pad2 m @ ''-'' @ pad2 d)"

definition iso_hms :: "int \<Rightarrow> string" where
  "iso_hms t =
     (let s = nat (t mod usec_per_day div 1000000)
      in pad2 (s div 3600) @ '':'' @ pad2 (s div 60 mod 60) @ '':'' @ pad2 (s mod 60))"

text \<open>\<open>datetime.now(timezone.utc).isoformat(timespec="seconds")\<close>.\<close>

definition iso_utc_seconds :: "int \<Rightarrow> string" where
  "iso_utc_seconds t = iso_date t @ ''T'' @ iso_hms t @ ''+00:00''"

definition iso_frac :: "int \<Rightarrow> string" where
  "iso_frac t = (let u = nat (t mod 1000000) in if u = 0 then [] else ''.'' @ pad6 u)"

text \<open>\<open>datetime.now().isoformat()\<close> and \<open>datetime.now(UTC).isoformat()\<close>.\<close>

definition iso_naive :: "int \<Rightarrow> string" where
  "iso_naive t = iso_date t @ ''T'' @ iso_hms t @ iso_frac t"

definition iso_utc :: "int \<Rightarrow> string" where
  "iso_utc t = iso_date t @ ''T'' @ iso_hms t @ iso_frac t @ ''+00:00''"

definition parse_two :: "string \<Rightarrow> (nat \<times> string) option" where
  "parse_two s =
     (case s of
        a # b # r \<Rightarrow> if is_digit a \<and> is_digit b then Some (10 * digit_val a + digit_val b, r) else None
      | _ \<Rightarrow> None)"

definition parse_char :: "char \<Rightarrow> string \<Rightarrow> string option" where
  "parse_char c s = (case s of x # r \<Rightarrow> if x = c then Some r else None | [] \<Rightarrow> None)"

definition parse_date :: "string \<Rightarrow> (nat \<times> string) option" where
  "parse_date s = do {
     (yh, s1) \<leftarrow> parse_two s;
     (yl, s2) \<leftarrow> parse_two s1;
     s3 \<leftarrow> parse_char (CHR ''-'') s2;
     (m, s4) \<leftarrow> parse_two s3;
     s5 \<leftarrow> parse_char (CHR ''-'') s4;
     (d, s6) \<leftarrow> parse_two s5;
     (if valid_date (100 * yh + yl) m d then Some (ymd2ord (100 * yh + yl) m d, s6) else None) }"

definition parse_frac :: "string \<Rightarrow> nat option" where
  "parse_frac s =
     (case s of
        [] \<Rightarrow> Some 0
      | c # ds \<Rightarrow>
          if (c = CHR ''.'' \<or> c = CHR '','') \<and> isdigit ds
          then Some (digits_val (take 6 ds) * 10 ^ (6 - min 6 (length ds))) else None)"

text \<open>Hours, minutes, seconds and microseconds; the colons are all there or all absent.\<close>

definition parse_time :: "string \<Rightarrow> (nat \<times> nat \<times> nat \<times> nat) option" where
  "parse_time s = do {
     (h, r1) \<leftarrow> parse_two s;
     (case r1 of
        [] \<Rightarrow> Some (h, 0, 0, 0)
      | c # r1' \<Rightarrow> do {
          (mi, r2) \<leftarrow> parse_two (if c = CHR '':'' then r1' else r1);
          (case r2 of
             [] \<Rightarrow> Some (h, mi, 0, 0)
           | c2 # r2' \<Rightarrow>
               if c = CHR '':'' \<and> c2 \<noteq> CHR '':'' then None
               else do {
                 (sc, r3) \<leftarrow> parse_two (if c = CHR '':'' then r2' else r2);
                 us \<leftarrow> parse_frac r3;
                 Some (h, mi, sc, us) }) }) }"

definition usec_of :: "nat \<Rightarrow> nat \<Rightarrow> nat \<Rightarrow> nat \<Rightarrow> int" where
  "usec_of h mi sc us = int us + 1000000 * (int sc + 60 * int mi + 3600 * int h)"

definition is_tz_start :: "char \<Rightarrow> bool" where
  "is_tz_start c = (c = CHR ''-'' \<or> c = CHR ''+'' \<or> c = CHR ''Z'')"

text \<open>The time zone part: \<open>None\<close> is an error, \<open>Some None\<close> no zone, \<open>Some (Some off)\<close> an offset.\<close>

definition parse_tz :: "string \<Rightarrow> int option option" where
  "parse_tz s =
     (case s of
        [] \<Rightarrow> Some None
      | c # r \<Rightarrow>
          if c = CHR ''Z'' then (if r = [] then Some (Some 0) else None)
          else if length r = 0 \<or> length r = 1 \<or> length r = 3 then None
          else (case parse_time r of
                  None \<Rightarrow> None
                | Some (h, mi, sc, us) \<Rightarrow>
                    (let off = usec_of h mi sc us
                     in if off < usec_per_day
                        then Some (Some (if c = CHR ''-'' then - off else off)) else None)))"

definition fromisoformat :: "string \<Rightarrow> pydt option" where
  "fromisoformat s = do {
     (n, rest) \<leftarrow> parse_date s;
     (case rest of
        [] \<Rightarrow> Some (Naive (int (n - 1) * usec_per_day))
      | _ # tstr \<Rightarrow> do {
          (h, mi, sc, us) \<leftarrow> parse_time (takeWhile (\<lambda>c. \<not> is_tz_start c) tstr);
          tz \<leftarrow> parse_tz (dropWhile (\<lambda>c. \<not> is_tz_start c) tstr);
          (if h < 24 \<and> mi < 60 \<and> sc < 60
           then (let t = int (n - 1) * usec_per_day + usec_of h mi sc us
                 in Some (case tz of None \<Rightarrow> Naive t | Some off \<Rightarrow> Aware (t - off)))
           else None) }) }"

text \<open>Equations for evaluation: they divide integers, not unary numbers, and their conditions keep the
  simplifier from unfolding the calendar of an instant that is still a variable.\<close>

lemma iso_date_code [code]:
  "iso_date t = (if t < 0 then ''0001-01-01'' else
     (case ord2ymd (nat (t div usec_per_day) + 1) of (y, m, d) \<Rightarrow> pad4 y @ ''-'' @ pad2 m @ ''-'' @ pad2 d))"
proof (cases "t < 0")
  case True
  then have "nat (t div usec_per_day) = 0" by (simp add: usec_per_day_def div_neg_pos_less0)
  moreover have "(case ord2ymd (0 + 1) of (y, m, d) \<Rightarrow> pad4 y @ ''-'' @ pad2 m @ ''-'' @ pad2 d) = ''0001-01-01''"
    by code_simp
  ultimately show ?thesis using True by (simp add: iso_date_def)
qed (simp add: iso_date_def)

lemma iso_hms_code [code]:
  "iso_hms t = (let s = t mod usec_per_day div 1000000 in if s < 0 then [] else
     pad2 (nat (s div 3600)) @ '':'' @ pad2 (nat (s div 60 mod 60)) @ '':'' @ pad2 (nat (s mod 60)))"
proof -
  have "0 \<le> t mod usec_per_day div 1000000" by (simp add: usec_per_day_def pos_imp_zdiv_nonneg_iff)
  then show ?thesis by (simp add: iso_hms_def Let_def nat_div_distrib nat_mod_distrib)
qed

lemma iso_frac_code [code]:
  "iso_frac t = (let u = t mod 1000000 in if u = 0 then []
     else ''.'' @ pad2 (nat (u div 10000)) @ pad2 (nat (u div 100 mod 100)) @ pad2 (nat (u mod 100)))"
proof -
  have "0 \<le> t mod 1000000" by simp
  then have "nat (t mod 1000000) = 0 \<longleftrightarrow> t mod 1000000 = 0" by linarith
  then show ?thesis
    by (simp add: iso_frac_def Let_def pad6_def nat_div_distrib nat_mod_distrib del: nat_0_iff)
qed

section \<open>The calendar is a bijection\<close>


lemma leap_balance:
  fixes A B C a b c z k :: nat
  assumes "A + B + c = a + b + C + k" and "c \<le> a" and "C \<le> A"
  shows "365 + z + A + B - C = z + a + b - c + (365 + k)"
  using assms by arith

lemma days_before_year_Suc:
  assumes "1 \<le> y"
  shows "days_before_year (Suc y) = days_before_year y + (if is_leap y then 366 else 365)"
proof -
  obtain z where y: "y = Suc z" using assms by (cases y) auto
  have le: "k div 100 \<le> k div 4" for k :: nat by (simp add: div_le_mono2)
  have d: "Suc z mod 400 = 0 \<Longrightarrow> Suc z mod 100 = 0" "Suc z mod 100 = 0 \<Longrightarrow> Suc z mod 4 = 0"
    by presburger+
  have ds: "Suc z div k = (if Suc z mod k = 0 then Suc (z div k) else z div k)" for k
    by (rule div_Suc)
  have step: "Suc z div 4 + Suc z div 400 + z div 100
    = z div 4 + z div 400 + Suc z div 100 + (if is_leap (Suc z) then 1 else 0)"
    unfolding is_leap_def ds [of 4] ds [of 100] ds [of 400] using d by auto
  have k: "(if is_leap (Suc z) then 366 else 365) = 365 + (if is_leap (Suc z) then 1 else (0::nat))"
    by simp
  show ?thesis
    using leap_balance [OF step le [of z] le [of "Suc z"], of "z * 365"]
    unfolding y k days_before_year_def Let_def by (simp only: mult_Suc diff_Suc_1)
qed

lemma days_before_year_mono: "1 \<le> a \<Longrightarrow> a \<le> b \<Longrightarrow> days_before_year a \<le> days_before_year b"
proof (induction b)
  case (Suc b)
  then show ?case using days_before_year_Suc [of b] by (cases "a = Suc b") auto
qed simp

lemma year_from_ge: "y \<le> year_from y n"
proof (induction y n rule: year_from.induct)
  case (1 y n)
  then show ?case by (subst year_from.simps) auto
qed

lemma year_from_spec:
  assumes "days_before_year y < n"
  shows "days_before_year (year_from y n) < n \<and> n \<le> days_before_year (Suc (year_from y n))"
  using assms
proof (induction y n rule: year_from.induct)
  case (1 y n)
  then show ?case by (cases "days_before_year (Suc y) < n") (simp_all add: year_from.simps [of y n])
qed

lemma days_before_year_estimate: "days_before_year (n div 366 + 1) < n" if "0 < n"
proof -
  have "days_before_year (n div 366 + 1) \<le> (n div 366) * 365 + n div 366 div 4"
  proof -
    have "n div 366 div 400 \<le> n div 366 div 100" by (simp add: div_le_mono2)
    then have "k + n div 366 div 400 - n div 366 div 100 \<le> k" for k :: nat
      by (meson le_diff_conv add_left_mono)
    then show ?thesis unfolding days_before_year_def Let_def by simp
  qed
  also have "\<dots> < n"
  proof (cases "n div 366 = 0")
    case False
    then have "n div 366 div 4 < n div 366" by simp
    moreover have "n div 366 * 366 \<le> n" by simp
    ultimately show ?thesis by linarith
  qed (use that in simp)
  finally show ?thesis .
qed

lemma year_ord:
  assumes "0 < n"
  shows "days_before_year (year_from (n div 366 + 1) n) < n"
    and "n \<le> days_before_year (Suc (year_from (n div 366 + 1) n))"
    and "1 \<le> year_from (n div 366 + 1) n"
  using year_from_spec [OF days_before_year_estimate [OF assms]]
    order_trans [OF _ year_from_ge [of "n div 366 + 1" n]] by auto

lemma days_in_month_pos [simp]: "0 < days_in_month y m"
  by (simp add: days_in_month_def)

lemma month_from_spec:
  assumes "1 \<le> m" "m \<le> 12" "1 \<le> r" "days_before_month y m + r \<le> days_before_month y 12 + 31"
  shows "case month_from y m r of (m', d) \<Rightarrow>
    1 \<le> m' \<and> m' \<le> 12 \<and> 1 \<le> d \<and> d \<le> days_in_month y m'
      \<and> days_before_month y m' + d = days_before_month y m + r"
  using assms
proof (induction y m r rule: month_from.induct)
  case (1 y m r)
  show ?case
  proof (cases "m < 12 \<and> days_in_month y m < r")
    case True
    have bm: "days_before_month y (Suc m) = days_before_month y m + days_in_month y m"
      using "1.prems"(1) by (cases m) auto
    have "case month_from y (Suc m) (r - days_in_month y m) of (m', d) \<Rightarrow>
      1 \<le> m' \<and> m' \<le> 12 \<and> 1 \<le> d \<and> d \<le> days_in_month y m'
        \<and> days_before_month y m' + d = days_before_month y (Suc m) + (r - days_in_month y m)"
      using True "1.prems" bm by (intro "1.IH") auto
    with True bm show ?thesis by (simp add: month_from.simps [of y m r])
  next
    case False
    show ?thesis
    proof (cases "m = 12")
      case True
      with False "1.prems" show ?thesis by (simp add: month_from.simps [of y 12 r] days_in_month_def)
    next
      case neq: False
      with False "1.prems" show ?thesis by (simp add: month_from.simps [of y m r])
    qed
  qed
qed

lemma days_before_month_12: "days_before_month y 12 + 31 = (if is_leap y then 366 else 365)"
  by (simp add: eval_nat_numeral days_in_month_def)

text \<open>Day numbers and dates correspond: the printed date of a day number is that day.\<close>

lemma ord2ymd_spec:
  assumes "0 < n" and "n \<le> days_before_year 10000"
  shows "case ord2ymd n of (y, m, d) \<Rightarrow> valid_date y m d \<and> ymd2ord y m d = n"
proof -
  let ?y = "year_from (n div 366 + 1) n"
  note y = year_ord [OF assms(1)]
  have "?y \<le> 9999"
  proof (rule ccontr)
    assume "\<not> ?y \<le> 9999"
    then have "days_before_year 10000 \<le> days_before_year ?y"
      by (intro days_before_year_mono) auto
    with y(1) assms(2) show False by simp
  qed
  moreover have "1 + days_before_year ?y \<le> n" and "n - days_before_year ?y \<le> days_before_month ?y 12 + 31"
    using y days_before_year_Suc [OF y(3)] by (auto simp: days_before_month_12)
  then have "case month_from ?y 1 (n - days_before_year ?y) of (m', d) \<Rightarrow>
    1 \<le> m' \<and> m' \<le> 12 \<and> 1 \<le> d \<and> d \<le> days_in_month ?y m'
      \<and> days_before_month ?y m' + d = days_before_month ?y 1 + (n - days_before_year ?y)"
    by (intro month_from_spec) auto
  ultimately show ?thesis
    using y by (auto simp: ord2ymd_def valid_date_def ymd2ord_def Let_def add.assoc split: prod.splits)
qed

section \<open>Round trips\<close>

lemma parse_two_pad2: "n < 100 \<Longrightarrow> parse_two (pad2 n @ r) = Some (n, r)"
  by (simp add: parse_two_def pad2_def)

lemma parse_char_Cons [simp]: "parse_char c (c # r) = Some r"
  by (simp add: parse_char_def)

definition max_instant :: int where
  "max_instant = int (days_before_year 10000) * usec_per_day"

lemma parse_iso_date:
  assumes "0 \<le> t" and "t < max_instant"
  shows "parse_date (iso_date t @ r) = Some (nat (t div usec_per_day) + 1, r)"
proof -
  obtain y m d where ymd: "ord2ymd (nat (t div usec_per_day) + 1) = (y, m, d)"
    by (metis prod_cases3)
  have "t div usec_per_day < int (days_before_year 10000)"
    using assms(2) by (simp add: max_instant_def usec_per_day_def)
  then have "nat (t div usec_per_day) + 1 \<le> days_before_year 10000"
    using assms(1) by (simp add: nat_less_iff Suc_le_eq usec_per_day_def pos_imp_zdiv_nonneg_iff)
  then have v: "valid_date y m d" and o: "ymd2ord y m d = nat (t div usec_per_day) + 1"
    using ord2ymd_spec [of "nat (t div usec_per_day) + 1"] ymd by auto
  from v have "y div 100 < 100" "y mod 100 < 100" "m < 100" "d < 100"
    by (auto simp: valid_date_def days_in_month_def split: if_splits)
  with v o ymd show ?thesis
    by (simp add: iso_date_def pad4_def parse_date_def parse_two_pad2)
qed

lemma hms_parts:
  assumes "s < 86400"
  shows "s div 3600 < 24" and "s div 60 mod 60 < 60" and "s mod 60 < 60"
    and "s mod 60 + 60 * (s div 60 mod 60) + 3600 * (s div 3600) = (s::nat)"
proof -
  show "s div 3600 < 24" using assms by simp
  have "s div 3600 = s div 60 div 60" by (simp add: div_mult2_eq [symmetric])
  then show "s mod 60 + 60 * (s div 60 mod 60) + 3600 * (s div 3600) = s"
    using div_mult_mod_eq [of s 60] div_mult_mod_eq [of "s div 60" 60] by linarith
qed simp_all

lemma parse_time_hms:
  assumes "h < 100" and "mi < 100" and "sc < 100"
  shows "parse_time (pad2 h @ CHR '':'' # pad2 mi @ CHR '':'' # pad2 sc @ r)
    = map_option (\<lambda>us. (h, mi, sc, us)) (parse_frac r)"
  using assms by (simp add: parse_time_def parse_two_pad2 map_conv_bind_option comp_def)

lemma pad2_no_tz: "list_all (\<lambda>c. \<not> is_tz_start c) (pad2 n)"
proof -
  have "\<not> is_tz_start c" if "is_digit c" for c
    using that by (auto simp: is_tz_start_def is_digit_def Let_def)
  then show ?thesis by (simp add: pad2_def)
qed

lemma iso_time_no_tz:
  "list_all (\<lambda>c. \<not> is_tz_start c) (iso_hms t)" "list_all (\<lambda>c. \<not> is_tz_start c) (iso_frac t)"
  using pad2_no_tz by (simp_all add: iso_hms_def iso_frac_def pad6_def Let_def is_tz_start_def)

lemma takeWhile_no_tz:
  assumes "list_all (\<lambda>c. \<not> is_tz_start c) xs"
  shows "takeWhile (\<lambda>c. \<not> is_tz_start c) (xs @ r) = xs @ takeWhile (\<lambda>c. \<not> is_tz_start c) r"
    and "dropWhile (\<lambda>c. \<not> is_tz_start c) (xs @ r) = dropWhile (\<lambda>c. \<not> is_tz_start c) r"
  using assms by (simp_all add: list_all_iff)

lemma pad6_digits:
  assumes "u < 1000000"
  shows "isdigit (pad6 u)" and "digits_val (pad6 u) = u" and "length (pad6 u) = 6"
proof -
  have u: "u = u div 10000 * 10000 + u div 100 mod 100 * 100 + u mod 100"
    using div_mult_mod_eq [of u 100] div_mult_mod_eq [of "u div 100" 100]
    by (simp add: div_mult2_eq [symmetric], linarith)
  have two: "digit_val (digit_char (n div 10 mod 10)) * 10 + digit_val (digit_char (n mod 10)) = n"
    if "n < 100" for n
    using that div_mult_mod_eq [of n 10] by simp
  have "u div 10000 < 100" using assms by simp
  then show "digits_val (pad6 u) = u"
    using u two [of "u div 10000"] two [of "u div 100 mod 100"] two [of "u mod 100"]
    by (simp add: pad6_def pad2_def digits_val_def)
qed (simp_all add: pad6_def pad2_def isdigit_def)

lemma parse_frac_iso:
  assumes "0 \<le> t"
  shows "parse_frac (iso_frac t) = Some (nat (t mod 1000000))"
proof (cases "t mod 1000000 = 0")
  case False
  have "nat (t mod 1000000) < 1000000" by simp
  note p = pad6_digits [OF this]
  from False p show ?thesis
    by (simp add: iso_frac_def parse_frac_def Let_def pos_mod_sign order_less_le)
qed (simp add: iso_frac_def parse_frac_def)

lemma usec_of_iso:
  fixes t :: int
  assumes "s = nat (t mod usec_per_day div 1000000)" and "us < 1000000"
  shows "usec_of (s div 3600) (s div 60 mod 60) (s mod 60) us
    = t mod usec_per_day - t mod usec_per_day mod 1000000 + int us"
    and "s < 86400"
proof -
  have "0 \<le> t mod usec_per_day" and lt: "t mod usec_per_day < usec_per_day"
    by (simp_all add: usec_per_day_def)
  then have s: "int s = t mod usec_per_day div 1000000"
    using assms(1) by (simp add: pos_imp_zdiv_nonneg_iff)
  show "s < 86400" using s lt by (simp add: usec_per_day_def)
  from hms_parts(4) [OF this] have "int (s mod 60) + 60 * int (s div 60 mod 60) + 3600 * int (s div 3600) = int s"
    by (metis of_nat_add of_nat_mult of_nat_numeral)
  then have "usec_of (s div 3600) (s div 60 mod 60) (s mod 60) us = int us + 1000000 * int s"
    by (simp add: usec_of_def)
  also have "1000000 * int s = t mod usec_per_day - t mod usec_per_day mod 1000000"
    unfolding s by (simp add: minus_mod_eq_mult_div)
  finally show "usec_of (s div 3600) (s div 60 mod 60) (s mod 60) us
    = t mod usec_per_day - t mod usec_per_day mod 1000000 + int us" by simp
qed

lemma day_split:
  fixes t :: int
  assumes "0 \<le> t"
  shows "int (nat (t div usec_per_day)) * usec_per_day + t mod usec_per_day = t"
    and "t mod usec_per_day mod 1000000 = t mod 1000000"
  using assms
  by (simp_all add: usec_per_day_def pos_imp_zdiv_nonneg_iff mod_mod_cancel)

text \<open>A time stamp stored with \<open>isoformat(timespec="seconds")\<close> reads back as the same instant cut
  to whole seconds.\<close>

theorem fromisoformat_iso_utc_seconds:
  assumes "0 \<le> t" and "t < max_instant"
  shows "fromisoformat (iso_utc_seconds t) = Some (Aware (t - t mod 1000000))"
proof -
  define s where "s = nat (t mod usec_per_day div 1000000)"
  note u = usec_of_iso [OF s_def, of 0]
  note h = hms_parts [OF u(2)]
  have "parse_time (iso_hms t) = Some (s div 3600, s div 60 mod 60, s mod 60, 0)"
    using parse_time_hms [of "s div 3600" "s div 60 mod 60" "s mod 60" "[]"] h
    by (simp add: iso_hms_def s_def [symmetric] Let_def parse_frac_def)
  moreover have "parse_tz ''+00:00'' = Some (Some 0)"
    by code_simp
  moreover have "is_tz_start (CHR ''+'')" by (simp add: is_tz_start_def)
  ultimately show ?thesis
    using parse_iso_date [OF assms] day_split [OF assms(1)] u h
    by (simp add: fromisoformat_def iso_utc_seconds_def takeWhile_no_tz iso_time_no_tz Let_def algebra_simps)
qed

theorem fromisoformat_iso_naive:
  assumes "0 \<le> t" and "t < max_instant"
  shows "fromisoformat (iso_naive t) = Some (Naive t)"
proof -
  define s where "s = nat (t mod usec_per_day div 1000000)"
  define us where "us = nat (t mod 1000000)"
  have us: "us < 1000000" "int us = t mod 1000000" by (simp_all add: us_def)
  note u = usec_of_iso [OF s_def us(1)]
  note h = hms_parts [OF u(2)]
  have pt: "parse_time (iso_hms t @ iso_frac t) = Some (s div 3600, s div 60 mod 60, s mod 60, us)"
    using parse_time_hms [of "s div 3600" "s div 60 mod 60" "s mod 60" "iso_frac t"] h
      parse_frac_iso [OF assms(1)]
    by (simp add: iso_hms_def s_def [symmetric] us_def Let_def)
  have "\<forall>c \<in> set (iso_frac t). \<not> is_tz_start c"
    using iso_time_no_tz(2) [of t] by (simp add: list_all_iff)
  then have nt: "takeWhile (\<lambda>c. \<not> is_tz_start c) (iso_frac t) = iso_frac t"
    "dropWhile (\<lambda>c. \<not> is_tz_start c) (iso_frac t) = []"
    by auto
  have "usec_of (s div 3600) (s div 60 mod 60) (s mod 60) us = t mod usec_per_day"
    using u us day_split(2) [OF assms(1)] by simp
  then show ?thesis
    using parse_iso_date [OF assms] day_split [OF assms(1)] h pt
    by (simp add: fromisoformat_def iso_naive_def parse_tz_def Let_def takeWhile_no_tz iso_time_no_tz nt)
qed

end
