(* ===== verification/YEtcd.thy ===== *)
theory YEtcd
  imports YPrelude YJson
begin

text \<open>
  The etcd client as the program sees it (\<open>common/etcd_utils.py\<close>, the data-access helpers at the
  head of \<open>utils/vm_manager.py\<close>, and the stand-in client \<open>tests/fake_etcd.py\<close>).

  etcd and its client library are not part of the sources, so they are a parameter: a record
  \<open>etcd3\<close> of the calls the program makes, each of which may raise. What the program relies on
  is stated by two locales. \<open>etcd_env\<close> allows other clients to write between any two calls (the
  relation \<open>rely\<close> on store contents) and any call to fail, before or after taking effect;
  \<open>etcd_seq\<close> is the special case of a single client whose calls succeed. The in-memory client
  \<open>mem_etcd\<close> (the model of \<open>FakeEtcd\<close>, with revisions and transactions added) is an instance.
\<close>

section \<open>The client interface\<close>

datatype ecmp = ModIs string nat | VersionZero string

datatype eop = OpPut string blob | OpDelete string

record 's etcd3 =
  e_client :: "('s, unit) py"
  e_get :: "string \<Rightarrow> ('s, (blob \<times> nat) option) py"
  e_get_prefix :: "string \<Rightarrow> ('s, (string \<times> blob) list) py"
  e_put :: "string \<Rightarrow> blob \<Rightarrow> ('s, unit) py"
  e_delete :: "string \<Rightarrow> ('s, bool) py"
  e_txn :: "ecmp list \<Rightarrow> eop list \<Rightarrow> ('s, bool) py"

text \<open>The content of a store: each key's value and the revision of its last modification.\<close>

type_synonym store = "string \<Rightarrow> (blob \<times> nat) option"

fun cmp_holds :: "store \<Rightarrow> ecmp \<Rightarrow> bool" where
  "cmp_holds c (ModIs k r) = (case c k of None \<Rightarrow> False | Some (v, n) \<Rightarrow> n = r)"
| "cmp_holds c (VersionZero k) = (c k = None)"

fun apply_op :: "nat \<Rightarrow> eop \<Rightarrow> store \<Rightarrow> store" where
  "apply_op n (OpPut k v) c = c(k \<mapsto> (v, n))"
| "apply_op n (OpDelete k) c = c(k := None)"

abbreviation apply_ops :: "nat \<Rightarrow> eop list \<Rightarrow> store \<Rightarrow> store" where
  "apply_ops n ops c \<equiv> fold (apply_op n) ops c"

definition prefix_list :: "store \<Rightarrow> string \<Rightarrow> (string \<times> blob) list \<Rightarrow> bool" where
  "prefix_list c p xs = (sorted (map fst xs) \<and> distinct (map fst xs)
     \<and> set xs = {(k, v). startswith k p \<and> (\<exists>n. c k = Some (v, n))})"

lemma prefix_listD:
  "prefix_list c p xs \<Longrightarrow> (k, v) \<in> set xs \<longleftrightarrow> startswith k p \<and> (\<exists>n. c k = Some (v, n))"
  by (simp add: prefix_list_def)

section \<open>Data-access helpers\<close>

definition get_json :: "'s etcd3 \<Rightarrow> string \<Rightarrow> ('s, dict option) py" where
  "get_json e k =
     py_seq (e_client e) (py_bind (e_get e k) (\<lambda>r.
       case r of
         None \<Rightarrow> py_return None
       | Some (b, _) \<Rightarrow>
           if blob_true b then py_bind (py_lift (loads_dict b)) (\<lambda>d. py_return (Some d))
           else py_return None))"

definition put_json :: "'s etcd3 \<Rightarrow> string \<Rightarrow> dict \<Rightarrow> ('s, unit) py" where
  "put_json e k d = py_seq (e_client e) (e_put e k (Doc d))"

definition delete_key :: "'s etcd3 \<Rightarrow> string \<Rightarrow> ('s, unit) py" where
  "delete_key e k = py_seq (e_client e) (py_seq (e_delete e k) (py_return ()))"

fun collect_json :: "nat \<Rightarrow> (string \<times> blob) list \<Rightarrow> exn + (string \<times> dict) list" where
  "collect_json n [] = Inr []"
| "collect_json n ((k, b) # rest) =
     (let name = drop n k in
      if name = [] \<or> CHR ''/'' \<in> set name then collect_json n rest
      else (case loads_dict b of
              Inl x \<Rightarrow> Inl x
            | Inr d \<Rightarrow> (case collect_json n rest of
                         Inl x \<Rightarrow> Inl x
                       | Inr ds \<Rightarrow> Inr ((name, d) # ds))))"

definition all_json :: "'s etcd3 \<Rightarrow> string \<Rightarrow> ('s, (string \<times> dict) list) py" where
  "all_json e p =
     py_seq (e_client e) (py_bind (e_get_prefix e p) (\<lambda>xs. py_lift (collect_json (length p) xs)))"

section \<open>Finding and caching a connection\<close>

definition get_etcd_hosts :: "(string \<Rightarrow> string option) \<Rightarrow> string list" where
  "get_etcd_hosts env =
     (let listed = (case env ''ETCD_HOSTS'' of
                      None \<Rightarrow> []
                    | Some hs \<Rightarrow> filter (\<lambda>h. h \<noteq> []) (map strip (split_on (CHR '','') hs)))
      in if listed \<noteq> [] then listed
         else (case env ''ETCD_HOST'' of
                 Some h \<Rightarrow> if h \<noteq> [] then [strip h] else [''localhost:2379'']
               | None \<Rightarrow> [''localhost:2379'']))"

definition get_tls_kwargs :: "(string \<Rightarrow> string option) \<Rightarrow> (string \<times> string) list" where
  "get_tls_kwargs env =
     (let arg = (\<lambda>var name. case env var of Some v \<Rightarrow> if v \<noteq> [] then [(name, v)] else [] | None \<Rightarrow> [])
      in arg ''ETCD_CACERT'' ''ca_cert'' @ arg ''ETCD_CERT'' ''cert_cert'' @ arg ''ETCD_KEY'' ''cert_key'')"

text \<open>\<open>host_port.split(':')\<close> into two parts and \<open>int(port)\<close>.\<close>

definition parse_host_port :: "string \<Rightarrow> (string \<times> int) option" where
  "parse_host_port hp =
     (case split_on (CHR '':'') hp of
        [h, p] \<Rightarrow> (case py_int p of None \<Rightarrow> None | Some n \<Rightarrow> Some (h, n))
      | _ \<Rightarrow> None)"

text \<open>One pass over the hosts: \<open>connect\<close> is \<open>etcd3.client(...)\<close> followed by \<open>client.status()\<close>.\<close>

fun try_hosts :: "(string \<Rightarrow> int \<Rightarrow> ('w, 'c) py) \<Rightarrow> string list \<Rightarrow> ('w, 'c option) py" where
  "try_hosts connect [] = py_return None"
| "try_hosts connect (hp # rest) =
     py_try
       (case parse_host_port hp of
          None \<Rightarrow> py_raise (ValueError hp)
        | Some (h, p) \<Rightarrow> py_bind (connect h p) (\<lambda>c. py_return (Some c)))
       (\<lambda>_. try_hosts connect rest)"

fun connect_with_retry ::
  "(string \<Rightarrow> int \<Rightarrow> ('w, 'c) py) \<Rightarrow> string list \<Rightarrow> nat \<Rightarrow> ('w, 'c) py" where
  "connect_with_retry connect hosts 0 = py_raise ConnectionError"
| "connect_with_retry connect hosts (Suc n) =
     py_bind (try_hosts connect hosts) (\<lambda>r.
       case r of Some c \<Rightarrow> py_return c | None \<Rightarrow> connect_with_retry connect hosts n)"

record ('w, 'c) process =
  p_cached :: "'c option"
  p_net :: 'w

definition get_etcd_client ::
  "(string \<Rightarrow> int \<Rightarrow> ('w, 'c) py) \<Rightarrow> string list \<Rightarrow> nat \<Rightarrow> (('w, 'c) process, 'c) py" where
  "get_etcd_client connect hosts max_retries =
     py_bind (py_get p_cached) (\<lambda>cached.
       case cached of
         Some c \<Rightarrow> py_return c
       | None \<Rightarrow>
           py_bind (py_zoom p_net (\<lambda>s w. w\<lparr>p_net := s\<rparr>) (connect_with_retry connect hosts max_retries))
             (\<lambda>c. py_seq (py_modify (\<lambda>w. w\<lparr>p_cached := Some c\<rparr>)) (py_return c)))"

section \<open>The in-memory client\<close>

record mem =
  mem_data :: "(string \<times> blob \<times> nat) list"
  mem_rev :: nat

definition mem_get :: "string \<Rightarrow> (mem, (blob \<times> nat) option) py" where
  "mem_get k s = (Inr (map_of (mem_data s) k), s)"

definition mem_get_prefix :: "string \<Rightarrow> (mem, (string \<times> blob) list) py" where
  "mem_get_prefix p s =
     (Inr (map (\<lambda>k. (k, fst (the (map_of (mem_data s) k))))
             (filter (\<lambda>k. startswith k p) (sort (remdups (map fst (mem_data s)))))), s)"

lemma mem_get_prefix_code [code]:
  "mem_get_prefix p s =
     (Inr (map (\<lambda>k. (k, fst (the (map_of (mem_data s) k))))
             (sort (remdups (filter (\<lambda>k. startswith k p) (map fst (mem_data s)))))), s)"
  by (simp add: mem_get_prefix_def filter_sort remdups_filter)

definition mem_put :: "string \<Rightarrow> blob \<Rightarrow> (mem, unit) py" where
  "mem_put k v s =
     (Inr (), s\<lparr>mem_data := AList.update k (v, Suc (mem_rev s)) (mem_data s), mem_rev := Suc (mem_rev s)\<rparr>)"

definition mem_delete :: "string \<Rightarrow> (mem, bool) py" where
  "mem_delete k s =
     (Inr (map_of (mem_data s) k \<noteq> None), s\<lparr>mem_data := AList.delete k (mem_data s)\<rparr>)"

fun mem_apply :: "nat \<Rightarrow> eop \<Rightarrow> (string \<times> blob \<times> nat) list \<Rightarrow> (string \<times> blob \<times> nat) list" where
  "mem_apply n (OpPut k v) d = AList.update k (v, n) d"
| "mem_apply n (OpDelete k) d = AList.delete k d"

definition mem_txn :: "ecmp list \<Rightarrow> eop list \<Rightarrow> (mem, bool) py" where
  "mem_txn cs ops s =
     (if list_all (cmp_holds (map_of (mem_data s))) cs
      then (Inr True, s\<lparr>mem_data := fold (mem_apply (Suc (mem_rev s))) ops (mem_data s),
                        mem_rev := Suc (mem_rev s)\<rparr>)
      else (Inr False, s))"

definition mem_etcd :: "mem etcd3" where
  "mem_etcd = \<lparr>e_client = py_return (), e_get = mem_get, e_get_prefix = mem_get_prefix,
     e_put = mem_put, e_delete = mem_delete, e_txn = mem_txn\<rparr>"

definition mem_view :: "mem \<Rightarrow> store" where
  "mem_view s = map_of (mem_data s)"

section \<open>What the program relies on\<close>

locale etcd_env =
  fixes e :: "'s etcd3"
    and view :: "'s \<Rightarrow> store"
    and rely :: "store \<Rightarrow> store \<Rightarrow> bool"
  assumes rely_refl: "rely c c"
    and rely_trans: "rely a b \<Longrightarrow> rely b c \<Longrightarrow> rely a c"
    and client_view: "e_client e s = (r0, s') \<Longrightarrow> rely (view s) (view s')"
    and get_view: "e_get e k s = (r1, s') \<Longrightarrow>
      rely (view s) (view s') \<and> (\<forall>x. r1 = Inr x \<longrightarrow> x = view s' k)"
    and prefix_view: "e_get_prefix e p s = (r2, s') \<Longrightarrow>
      rely (view s) (view s') \<and> (\<forall>xs. r2 = Inr xs \<longrightarrow> prefix_list (view s') p xs)"
    and put_view: "e_put e k v s = (r3, s') \<Longrightarrow>
      \<exists>c n. rely (view s) c \<and> (view s' = c(k \<mapsto> (v, n)) \<or> view s' = c \<and> isl r3)"
    and delete_view: "e_delete e k s = (r4, s') \<Longrightarrow>
      \<exists>c. rely (view s) c \<and>
        (view s' = c(k := None) \<and> (\<forall>b. r4 = Inr b \<longrightarrow> b = (c k \<noteq> None)) \<or> view s' = c \<and> isl r4)"
    and txn_view: "e_txn e cs ops s = (r5, s') \<Longrightarrow>
      \<exists>c n. rely (view s) c \<and>
        (list_all (cmp_holds c) cs \<and> view s' = apply_ops n ops c \<and> (r5 = Inr True \<or> isl r5)
         \<or> view s' = c \<and> (r5 = Inr False \<and> \<not> list_all (cmp_holds c) cs \<or> isl r5))"
begin

text \<open>Weakest preconditions of the calls under interference.\<close>

lemma wp_client_env:
  assumes "\<And>s'. rely (view s) (view s') \<Longrightarrow> Q () s'" and "\<And>x s'. rely (view s) (view s') \<Longrightarrow> E x s'"
  shows "wp (e_client e) Q E s"
  using assms client_view by (auto simp: wp_def split: prod.splits sum.splits)

lemma wp_get_env:
  assumes "\<And>s'. rely (view s) (view s') \<Longrightarrow> Q (view s' k) s'"
    and "\<And>x s'. rely (view s) (view s') \<Longrightarrow> E x s'"
  shows "wp (e_get e k) Q E s"
  using assms get_view by (fastforce simp: wp_def split: prod.splits sum.splits)

lemma wp_prefix_env:
  assumes "\<And>xs s'. rely (view s) (view s') \<Longrightarrow> prefix_list (view s') p xs \<Longrightarrow> Q xs s'"
    and "\<And>x s'. rely (view s) (view s') \<Longrightarrow> E x s'"
  shows "wp (e_get_prefix e p) Q E s"
  using assms prefix_view by (fastforce simp: wp_def split: prod.splits sum.splits)

lemma wp_txn_env:
  assumes "\<And>c n s'. rely (view s) c \<Longrightarrow> list_all (cmp_holds c) cs \<Longrightarrow> view s' = apply_ops n ops c
      \<Longrightarrow> Q True s' \<and> (\<forall>x. E x s')"
    and "\<And>s'. rely (view s) (view s') \<Longrightarrow> Q False s' \<and> (\<forall>x. E x s')"
  shows "wp (e_txn e cs ops) Q E s"
proof -
  obtain r s' where run: "e_txn e cs ops s = (r, s')" by (metis surj_pair)
  from txn_view [OF this] obtain c n where c: "rely (view s) c"
    and alt: "list_all (cmp_holds c) cs \<and> view s' = apply_ops n ops c \<and> (r = Inr True \<or> isl r)
      \<or> view s' = c \<and> (r = Inr False \<and> \<not> list_all (cmp_holds c) cs \<or> isl r)" by blast
  from alt show ?thesis
  proof
    assume a: "list_all (cmp_holds c) cs \<and> view s' = apply_ops n ops c \<and> (r = Inr True \<or> isl r)"
    with assms(1) [OF c] run show ?thesis
      by (cases r) (auto simp: wp_def)
  next
    assume a: "view s' = c \<and> (r = Inr False \<and> \<not> list_all (cmp_holds c) cs \<or> isl r)"
    with assms(2) [of s'] c run show ?thesis
      by (cases r) (auto simp: wp_def)
  qed
qed

lemma wp_put_env:
  assumes "\<And>c n s'. rely (view s) c \<Longrightarrow> view s' = c(k \<mapsto> (v, n)) \<Longrightarrow> Q () s' \<and> (\<forall>x. E x s')"
    and "\<And>x s'. rely (view s) (view s') \<Longrightarrow> E x s'"
  shows "wp (e_put e k v) Q E s"
proof -
  obtain r s' where run: "e_put e k v s = (r, s')" by (metis surj_pair)
  from put_view [OF this] obtain c n where "rely (view s) c"
    and "view s' = c(k \<mapsto> (v, n)) \<or> view s' = c \<and> isl r" by blast
  with assms run show ?thesis by (cases r) (auto simp: wp_def)
qed

lemma wp_delete_env:
  assumes "\<And>c b s'. rely (view s) c \<Longrightarrow> view s' = c(k := None) \<Longrightarrow> Q b s' \<and> (\<forall>x. E x s')"
    and "\<And>x s'. rely (view s) (view s') \<Longrightarrow> E x s'"
  shows "wp (e_delete e k) Q E s"
proof -
  obtain r s' where run: "e_delete e k s = (r, s')" by (metis surj_pair)
  from delete_view [OF this] obtain c where "rely (view s) c"
    and "view s' = c(k := None) \<or> view s' = c \<and> isl r" by blast
  with assms run show ?thesis by (cases r) (auto simp: wp_def)
qed

end

text \<open>A single client whose calls succeed.\<close>

locale etcd_seq = etcd_env e view "(=)" for e :: "'s etcd3" and view :: "'s \<Rightarrow> store" +
  assumes client_ok: "\<not> isl (fst (e_client e s))"
    and get_ok: "\<not> isl (fst (e_get e k s))"
    and prefix_ok: "\<not> isl (fst (e_get_prefix e p s))"
    and put_ok: "\<not> isl (fst (e_put e k v s))"
    and delete_ok: "\<not> isl (fst (e_delete e k s))"
    and txn_ok: "\<not> isl (fst (e_txn e cs ops s))"
begin

text \<open>The values of a store, without revisions.\<close>

definition vals :: "'s \<Rightarrow> string \<Rightarrow> blob option" where
  "vals s k = map_option fst (view s k)"

lemma wp_client_seq:
  assumes "\<And>s'. view s' = view s \<Longrightarrow> Q () s'"
  shows "wp (e_client e) Q E s"
  using assms client_view [of s] client_ok [of s]
  by (auto simp: wp_def split: prod.splits sum.splits)

lemma wp_get_seq:
  assumes "\<And>s'. view s' = view s \<Longrightarrow> Q (view s k) s'"
  shows "wp (e_get e k) Q E s"
  using assms get_view [of k s] get_ok [of k s]
  by (auto simp: wp_def split: prod.splits sum.splits)

lemma wp_prefix_seq:
  assumes "\<And>xs s'. view s' = view s \<Longrightarrow> prefix_list (view s) p xs \<Longrightarrow> Q xs s'"
  shows "wp (e_get_prefix e p) Q E s"
  using assms prefix_view [of p s] prefix_ok [of p s]
  by (auto simp: wp_def split: prod.splits sum.splits)

lemma wp_put_seq:
  assumes "\<And>n s'. view s' = (view s)(k \<mapsto> (v, n)) \<Longrightarrow> Q () s'"
  shows "wp (e_put e k v) Q E s"
  using assms put_view [of k v s] put_ok [of k v s]
  by (fastforce simp: wp_def split: prod.splits sum.splits)

lemma wp_delete_seq:
  assumes "\<And>s'. view s' = (view s)(k := None) \<Longrightarrow> Q (view s k \<noteq> None) s'"
  shows "wp (e_delete e k) Q E s"
proof -
  obtain r s' where run: "e_delete e k s = (r, s')" by (metis surj_pair)
  with delete_ok [of k s] obtain b where "r = Inr b" by (cases r) auto
  with delete_view [OF run] assms [of s'] run show ?thesis by (auto simp: wp_def)
qed

lemma wp_txn_seq:
  assumes "\<And>n s'. list_all (cmp_holds (view s)) cs \<Longrightarrow> view s' = apply_ops n ops (view s) \<Longrightarrow> Q True s'"
    and "\<And>s'. \<not> list_all (cmp_holds (view s)) cs \<Longrightarrow> view s' = view s \<Longrightarrow> Q False s'"
  shows "wp (e_txn e cs ops) Q E s"
proof -
  obtain r s' where run: "e_txn e cs ops s = (r, s')" by (metis surj_pair)
  with txn_ok [of cs ops s] obtain b where "r = Inr b" by (cases r) auto
  with txn_view [OF run] assms run show ?thesis by (auto simp: wp_def)
qed

lemmas wp_seq_intros =
  wp_client_seq wp_get_seq wp_prefix_seq wp_put_seq wp_delete_seq wp_txn_seq

lemma wp_get_json_seq:
  assumes "\<And>s'. view s' = view s \<Longrightarrow>
    (case vals s k of
       None \<Rightarrow> Q None s'
     | Some b \<Rightarrow> if blob_true b then (case loads_dict b of Inl x \<Rightarrow> E x s' | Inr d \<Rightarrow> Q (Some d) s')
                else Q None s')"
  shows "wp (get_json e k) Q E s"
  unfolding get_json_def wp_simps
proof (rule wp_client_seq, rule wp_get_seq)
  fix s1 s2 assume "view s1 = view s" "view s2 = view s1"
  with assms [of s2] show "wp (case view s1 k of None \<Rightarrow> py_return None
       | Some (b, _) \<Rightarrow> if blob_true b then py_bind (py_lift (loads_dict b)) (\<lambda>d. py_return (Some d))
           else py_return None) Q E s2"
    by (auto simp: vals_def wp_simps split: option.splits prod.splits sum.splits)
qed

lemma wp_put_json_seq:
  assumes "\<And>n s'. view s' = (view s)(k \<mapsto> (Doc d, n)) \<Longrightarrow> Q () s'"
  shows "wp (put_json e k d) Q E s"
  unfolding put_json_def wp_simps
  by (rule wp_client_seq, rule wp_put_seq) (simp add: assms)

lemma wp_delete_key_seq:
  assumes "\<And>s'. view s' = (view s)(k := None) \<Longrightarrow> Q () s'"
  shows "wp (delete_key e k) Q E s"
  unfolding delete_key_def wp_simps
  by (rule wp_client_seq, rule wp_delete_seq) (simp add: assms)

end

context etcd_seq
begin

lemma keeps_read [intro]:
  "keeps (\<lambda>s. P (view s)) (e_client e)" "keeps (\<lambda>s. P (view s)) (e_get e k)"
  "keeps (\<lambda>s. P (view s)) (e_get_prefix e p)"
  by (auto intro!: keepsI wp_client_seq wp_get_seq wp_prefix_seq)

lemma keeps_put: "(\<And>c n. P c \<Longrightarrow> P (c(k \<mapsto> (v, n)))) \<Longrightarrow> keeps (\<lambda>s. P (view s)) (e_put e k v)"
  by (auto intro!: keepsI wp_put_seq)

lemma keeps_delete: "(\<And>c. P c \<Longrightarrow> P (c(k := None))) \<Longrightarrow> keeps (\<lambda>s. P (view s)) (e_delete e k)"
  by (auto intro!: keepsI wp_delete_seq)

lemma keeps_txn: "(\<And>c n. P c \<Longrightarrow> P (apply_ops n ops c)) \<Longrightarrow> keeps (\<lambda>s. P (view s)) (e_txn e cs ops)"
  by (auto intro!: keepsI wp_txn_seq)

lemma keeps_get_json [intro]: "keeps (\<lambda>s. P (view s)) (get_json e k)"
  by (auto simp: get_json_def intro!: keeps_intros split: option.splits)

lemmas keeps_store = keeps_put keeps_delete keeps_txn

end

lemma mem_prefix_list: "prefix_list (map_of d) p
  (map (\<lambda>k. (k, fst (the (map_of d k)))) (filter (\<lambda>k. startswith k p) (sort (remdups (map fst d)))))"
proof -
  let ?ks = "filter (\<lambda>k. startswith k p) (sort (remdups (map fst d)))"
  have "map fst (map (\<lambda>k. (k, fst (the (map_of d k)))) ?ks) = ?ks"
    by (simp add: comp_def)
  moreover have "sorted ?ks" and "distinct ?ks"
    by (simp_all add: sorted_wrt_filter)
  moreover have "set ?ks = {k. startswith k p \<and> map_of d k \<noteq> None}"
    by (auto simp: map_of_eq_None_iff)
  then have "set (map (\<lambda>k. (k, fst (the (map_of d k)))) ?ks)
    = {(k, v). startswith k p \<and> (\<exists>n. map_of d k = Some (v, n))}"
    unfolding set_map by auto
  ultimately show ?thesis unfolding prefix_list_def by simp
qed

lemma mem_fold_view: "map_of (fold (mem_apply n) ops d) = apply_ops n ops (map_of d)"
proof (induction ops arbitrary: d)
  case (Cons x ops)
  have "map_of (mem_apply n x d) = apply_op n x (map_of d)" by (cases x) auto
  with Cons show ?case by simp
qed simp

interpretation memkv: etcd_seq mem_etcd mem_view
proof
  show "\<And>p s r s'. e_get_prefix mem_etcd p s = (r, s') \<Longrightarrow>
      mem_view s = mem_view s' \<and> (\<forall>xs. r = Inr xs \<longrightarrow> prefix_list (mem_view s') p xs)"
    by (auto simp: mem_etcd_def mem_get_prefix_def mem_view_def mem_prefix_list)
  show "\<And>cs ops s r s'. e_txn mem_etcd cs ops s = (r, s') \<Longrightarrow>
      \<exists>c n. mem_view s = c \<and>
        (list_all (cmp_holds c) cs \<and> mem_view s' = apply_ops n ops c \<and> (r = Inr True \<or> isl r)
         \<or> mem_view s' = c \<and> (r = Inr False \<and> \<not> list_all (cmp_holds c) cs \<or> isl r))"
    by (auto simp: mem_etcd_def mem_txn_def mem_view_def mem_fold_view split: if_splits)
qed (auto simp: mem_etcd_def mem_get_def mem_put_def mem_delete_def mem_txn_def mem_get_prefix_def
    mem_view_def py_return_def)


text \<open>The in-memory client as a part of a larger state, reached by \<open>get\<close> and \<open>put\<close>, is such a client too.\<close>

definition zoom_etcd :: "('w \<Rightarrow> mem) \<Rightarrow> (mem \<Rightarrow> 'w \<Rightarrow> 'w) \<Rightarrow> 'w etcd3" where
  "zoom_etcd get put =
     \<lparr>e_client = py_zoom get put (py_return ()), e_get = (\<lambda>k. py_zoom get put (mem_get k)),
      e_get_prefix = (\<lambda>p. py_zoom get put (mem_get_prefix p)), e_put = (\<lambda>k v. py_zoom get put (mem_put k v)),
      e_delete = (\<lambda>k. py_zoom get put (mem_delete k)), e_txn = (\<lambda>cs ops. py_zoom get put (mem_txn cs ops))\<rparr>"

lemma py_zoom_run: "py_zoom g p m s = (r, s') \<longleftrightarrow> (\<exists>k. m (g s) = (r, k) \<and> s' = p k s)"
  by (auto simp: py_zoom_def split: prod.splits)

lemma fst_py_zoom: "fst (py_zoom g p m s) = fst (m (g s))"
  by (simp add: py_zoom_def split: prod.splits)

lemma leaves_zoom: "(\<And>k w. f (p k w) = f w) \<Longrightarrow> leaves f (py_zoom g p m)"
  by (simp add: leaves_def py_zoom_def split: prod.splits)

lemma leaves_zoom_etcd:
  assumes "\<And>k w. f (put k w) = f w"
  shows "leaves f (e_client (zoom_etcd get put))" "leaves f (e_get (zoom_etcd get put) key)" "leaves f (e_get_prefix (zoom_etcd get put) key)"
    "leaves f (e_put (zoom_etcd get put) key v)" "leaves f (e_delete (zoom_etcd get put) key)" "leaves f (e_txn (zoom_etcd get put) cs ops)"
  by (simp_all add: zoom_etcd_def leaves_zoom assms)

locale mem_part =
  fixes get :: "'w \<Rightarrow> mem"
    and put :: "mem \<Rightarrow> 'w \<Rightarrow> 'w"
  assumes get_put: "get (put k w) = k"

sublocale mem_part \<subseteq> part: etcd_seq "zoom_etcd get put" "\<lambda>w. mem_view (get w)"
proof
  show "\<And>p s r s'. e_get_prefix (zoom_etcd get put) p s = (r, s') \<Longrightarrow>
      mem_view (get s) = mem_view (get s') \<and> (\<forall>xs. r = Inr xs \<longrightarrow> prefix_list (mem_view (get s')) p xs)"
    by (auto simp: zoom_etcd_def py_zoom_run get_put mem_get_prefix_def mem_view_def mem_prefix_list)
  show "\<And>cs ops s r s'. e_txn (zoom_etcd get put) cs ops s = (r, s') \<Longrightarrow>
      \<exists>c n. mem_view (get s) = c \<and>
        (list_all (cmp_holds c) cs \<and> mem_view (get s') = apply_ops n ops c \<and> (r = Inr True \<or> isl r)
         \<or> mem_view (get s') = c \<and> (r = Inr False \<and> \<not> list_all (cmp_holds c) cs \<or> isl r))"
    by (auto simp: zoom_etcd_def py_zoom_run get_put mem_txn_def mem_view_def mem_fold_view split: if_splits)
qed (auto simp: zoom_etcd_def py_zoom_run fst_py_zoom get_put mem_get_def mem_put_def mem_delete_def mem_txn_def mem_get_prefix_def
    mem_view_def py_return_def)

interpretation whole: mem_part "\<lambda>w. w" "\<lambda>k w. k"
  by unfold_locales simp

end
