(* ===== verification/YNaming.thy ===== *)
theory YNaming
  imports YPrelude YJson YEtcd
begin

unbundle bit_operations_syntax

text \<open>
  Host names, addresses and machine types: the pure helpers that the DHCP server
  (\<open>utils/dhcp_server.py\<close>, class \<open>DHCPServer\<close>) and the admin API (\<open>app.py\<close>) keep in two
  copies. A node name is a type prefix and a number; its address is the range's base plus the
  number, in 10.0.0.0/24, or 10.10.10.0/24 for the management interface (suffix \<open>a\<close>), or
  10.0.1.0/24 for a WireGuard peer. The results: names made of a prefix and a number in range
  have distinct addresses, the addresses stay clear of the dynamic range, and the next free name
  is the least one.
\<close>

section \<open>Ranges and addresses\<close>

type_synonym ip_range = "string \<times> int \<times> int"

definition dhcp_IP_RANGES :: "ip_range list" where
  "dhcp_IP_RANGES = [(''s'', 10, 20), (''c'', 50, 20), (''m'', 90, 20), (''nv'', 110, 20),
     (''nas'', 130, 10), (''x'', 150, 49)]"

definition app_IP_RANGES :: "ip_range list" where
  "app_IP_RANGES = [(''s'', 10, 20), (''c'', 50, 20), (''m'', 90, 20), (''nv'', 110, 20),
     (''nas'', 130, 10), (''d'', 200, 30)]"

definition DYNAMIC_IP_START :: int where
  "DYNAMIC_IP_START = 200"

definition DYNAMIC_IP_END :: int where
  "DYNAMIC_IP_END = 249"

definition GATEWAY :: string where
  "GATEWAY = ''10.0.0.254''"

definition storage_vip_ip :: string where
  "storage_vip_ip = ''10.0.0.100''"

text \<open>The loop over the ranges: the first prefix of the name whose rest is a number.\<close>

fun find_range :: "ip_range list \<Rightarrow> string \<Rightarrow> (string \<times> int \<times> int \<times> int) option" where
  "find_range [] h = None"
| "find_range ((p, base, mx) # rest) h =
     (if startswith h p
      then (case py_int (drop (length p) h) of
              Some num \<Rightarrow> Some (p, base, mx, num)
            | None \<Rightarrow> find_range rest h)
      else find_range rest h)"

definition is_amt :: "string \<Rightarrow> bool" where
  "is_amt h = endswith h ''a''"

definition strip_amt :: "string \<Rightarrow> string" where
  "strip_amt h = (if is_amt h then butlast h else h)"

definition dhcp_determine_ip_from_hostname :: "string \<Rightarrow> string option" where
  "dhcp_determine_ip_from_hostname hostname =
     (if hostname = [] then None
      else (case find_range dhcp_IP_RANGES (strip_amt hostname) of
              None \<Rightarrow> None
            | Some (p, base, mx, num) \<Rightarrow>
                if num < 1 \<or> num > mx then None
                else if is_amt hostname then Some (''10.10.10.'' @ int_str (base + num))
                else Some (''10.0.0.'' @ int_str (base + num))))"

definition determine_ip_from_hostname :: "string \<Rightarrow> bool \<Rightarrow> exn + string option" where
  "determine_ip_from_hostname hostname via_wg =
     (if hostname = [] then Inr None
      else (case find_range app_IP_RANGES (strip_amt hostname) of
              None \<Rightarrow> Inr None
            | Some (p, base, mx, num) \<Rightarrow>
                if num < 1 \<or> num > mx then Inl (ValueError ''node number'')
                else if is_amt hostname then Inr (Some (''10.10.10.'' @ int_str (base + num)))
                else if via_wg then Inr (Some (''10.0.1.'' @ int_str (base + num)))
                else Inr (Some (''10.0.0.'' @ int_str (base + num)))))"

section \<open>Machine types\<close>

definition normalize_mac :: "string \<Rightarrow> string" where
  "normalize_mac mac = remove_char (CHR ''-'') (remove_char (CHR '':'') (lower mac))"

definition determine_type_from_mac :: "string \<Rightarrow> string" where
  "determine_type_from_mac mac =
     (if mac = [] then ''compute''
      else if startswith (normalize_mac mac) ''5847ca'' then ''storage'' else ''compute'')"

definition determine_type_from_hostname :: "string \<Rightarrow> string" where
  "determine_type_from_hostname h =
     (case h of
        [] \<Rightarrow> ''compute''
      | c # _ \<Rightarrow>
          if startswith h ''nas'' then ''nas''
          else if startswith h ''nv'' then ''nvidia''
          else (let prefix = ascii_lower c in
                if prefix = CHR ''s'' then ''storage''
                else if prefix = CHR ''c'' then ''compute''
                else if prefix = CHR ''m'' then ''macos''
                else if prefix = CHR ''x'' then ''adhoc''
                else ''compute''))"

definition dhcp_type_prefix :: "string \<Rightarrow> string" where
  "dhcp_type_prefix t =
     (case map_of [(''storage'', ''s''), (''compute'', ''c''), (''macos'', ''m''), (''nvidia'', ''nv''),
        (''nas'', ''nas''), (''adhoc'', ''x'')] t of Some p \<Rightarrow> p | None \<Rightarrow> ''c'')"

definition app_type_prefix :: "string \<Rightarrow> string" where
  "app_type_prefix t =
     (case map_of [(''storage'', ''s''), (''compute'', ''c''), (''macos'', ''m''), (''nvidia'', ''nv''),
        (''nas'', ''nas''), (''dev'', ''d'')] t of Some p \<Rightarrow> p | None \<Rightarrow> ''c'')"

section \<open>The next free host name\<close>

definition BY_HOSTNAME :: string where
  "BY_HOSTNAME = ''/cluster/nodes/by-hostname/''"

definition BY_MAC :: string where
  "BY_MAC = ''/cluster/nodes/by-mac/''"

definition last_part :: "string \<Rightarrow> string" where
  "last_part key = last (split_on (CHR ''/'') key)"

text \<open>The numbers of the names found under the prefix; names that do not parse are skipped.\<close>

fun existing_numbers :: "string \<Rightarrow> (string \<times> blob) list \<Rightarrow> int list" where
  "existing_numbers prefix [] = []"
| "existing_numbers prefix ((key, value) # rest) =
     (if blob_true value
      then (case py_int (drop (length prefix) (last_part key)) of
              Some n \<Rightarrow> n # existing_numbers prefix rest
            | None \<Rightarrow> existing_numbers prefix rest)
      else existing_numbers prefix rest)"

text \<open>The loop over the sorted numbers, started at index \<open>i\<close>: the first gap, or one past the end.\<close>

fun first_gap :: "nat \<Rightarrow> int list \<Rightarrow> nat" where
  "first_gap i [] = i + 1"
| "first_gap i (n # ns) = (if n \<noteq> int (i + 1) then i + 1 else first_gap (i + 1) ns)"

definition next_num :: "int list \<Rightarrow> nat" where
  "next_num ns = (if ns = [] then 1 else first_gap 0 (sort ns))"

definition get_next_hostname :: "'s etcd3 \<Rightarrow> string \<Rightarrow> ('s, string) py" where
  "get_next_hostname e node_type =
     (let prefix = app_type_prefix node_type in
      py_bind (e_get_prefix e (BY_HOSTNAME @ prefix)) (\<lambda>xs.
        py_return (prefix @ nat_str (next_num (existing_numbers prefix xs)))))"

text \<open>The DHCP server's copy starts with its own \<open>get_etcd_client\<close>, which returns \<open>None\<close> instead of
  raising; then the first name is the fallback.\<close>

definition dhcp_get_next_hostname :: "'s etcd3 \<Rightarrow> string \<Rightarrow> ('s, string) py" where
  "dhcp_get_next_hostname e node_type =
     (let prefix = dhcp_type_prefix node_type in
      py_bind (py_try (py_seq (e_client e) (py_return True)) (\<lambda>_. py_return False)) (\<lambda>up.
        if \<not> up then py_return (prefix @ ''1'')
        else py_bind (e_get_prefix e (BY_HOSTNAME @ prefix)) (\<lambda>xs.
               py_return (prefix @ nat_str (next_num (existing_numbers prefix xs))))))"

section \<open>Addresses as numbers\<close>

definition ip_to_int :: "string \<Rightarrow> exn + int" where
  "ip_to_int ip =
     (case split_on (CHR ''.'') ip of
        a # b # c # d # _ \<Rightarrow>
          (case (py_int a, py_int b, py_int c, py_int d) of
             (Some x, Some y, Some z, Some w) \<Rightarrow>
               Inr (push_bit 24 x + push_bit 16 y + push_bit 8 z + w)
           | _ \<Rightarrow> Inl (ValueError ''int''))
      | _ \<Rightarrow> Inl (KeyError ''parts''))"

definition int_to_ip :: "int \<Rightarrow> string" where
  "int_to_ip n = int_str (drop_bit 24 n AND 255) @ ''.'' @ int_str (drop_bit 16 n AND 255) @ ''.''
     @ int_str (drop_bit 8 n AND 255) @ ''.'' @ int_str (n AND 255)"

section \<open>Lemmas on addresses\<close>

lemma int_str_nonneg: "0 \<le> i \<Longrightarrow> int_str i = nat_str (nat i)"
  by (simp add: int_str_def)

lemma int_str_inject [simp]: "0 \<le> i \<Longrightarrow> 0 \<le> j \<Longrightarrow> int_str i = int_str j \<longleftrightarrow> i = j"
  by (simp add: int_str_nonneg eq_nat_nat_iff)

lemma digits_not_amt: "\<not> is_amt (p @ nat_str n)"
proof -
  have "last (nat_str n) \<in> set (nat_str n)" by simp
  then have "is_digit (last (nat_str n))"
    using nat_str_digits [of n] by (auto simp: list_all_iff)
  then have "last (nat_str n) \<noteq> CHR ''a''" by (rule digit_not_special(8))
  moreover have "p @ nat_str n = (p @ butlast (nat_str n)) @ [last (nat_str n)]" by simp
  ultimately show ?thesis unfolding is_amt_def by (metis endswith_snoc)
qed

lemma strip_amt_suffix [simp]: "strip_amt (h @ ''a'') = h" "is_amt (h @ ''a'')"
  by (simp_all add: strip_amt_def is_amt_def)

lemma strip_amt_number [simp]: "strip_amt (p @ nat_str n) = p @ nat_str n"
  by (simp add: strip_amt_def digits_not_amt)

text \<open>A canonical name: a prefix of the table and a number in its range, printed in decimal.\<close>

definition canonical :: "ip_range list \<Rightarrow> string \<Rightarrow> nat \<Rightarrow> bool" where
  "canonical ranges p n = (\<exists>base mx. (p, base, mx) \<in> set ranges \<and> 1 \<le> n \<and> int n \<le> mx)"

lemma find_range_dhcp:
  assumes "(p, base, mx) \<in> set dhcp_IP_RANGES"
  shows "find_range dhcp_IP_RANGES (p @ nat_str n) = Some (p, base, mx, int n)"
  using assms by (auto simp: dhcp_IP_RANGES_def startswith_def)

lemma find_range_app:
  assumes "(p, base, mx) \<in> set app_IP_RANGES"
  shows "find_range app_IP_RANGES (p @ nat_str n) = Some (p, base, mx, int n)"
  using assms by (auto simp: app_IP_RANGES_def startswith_def)

lemma find_range_in:
  "find_range rs h = Some (p, base, mx, num) \<Longrightarrow> (p, base, mx) \<in> set rs \<and> startswith h p"
  by (induction rs h rule: find_range.induct) (auto split: if_splits option.splits)

lemma dhcp_ip_canonical:
  assumes "(p, base, mx) \<in> set dhcp_IP_RANGES" and "1 \<le> n" and "int n \<le> mx"
  shows "dhcp_determine_ip_from_hostname (p @ nat_str n) = Some (''10.0.0.'' @ int_str (base + int n))"
    and "dhcp_determine_ip_from_hostname (p @ nat_str n @ ''a'') = Some (''10.10.10.'' @ int_str (base + int n))"
  using assms find_range_dhcp [OF assms(1), of n] strip_amt_suffix [of "p @ nat_str n"]
  by (simp_all add: dhcp_determine_ip_from_hostname_def digits_not_amt)

lemma app_ip_canonical:
  assumes "(p, base, mx) \<in> set app_IP_RANGES" and "1 \<le> n" and "int n \<le> mx"
  shows "determine_ip_from_hostname (p @ nat_str n) via_wg
    = Inr (Some ((if via_wg then ''10.0.1.'' else ''10.0.0.'') @ int_str (base + int n)))"
    and "determine_ip_from_hostname (p @ nat_str n @ ''a'') via_wg = Inr (Some (''10.10.10.'' @ int_str (base + int n)))"
  using assms find_range_app [OF assms(1), of n] strip_amt_suffix [of "p @ nat_str n"]
  by (simp_all add: determine_ip_from_hostname_def digits_not_amt)

lemma dhcp_ranges_disjoint:
  assumes "(p, base, mx) \<in> set dhcp_IP_RANGES" "(q, base', mx') \<in> set dhcp_IP_RANGES"
    and "1 \<le> (n::int)" "n \<le> mx" "1 \<le> m" "m \<le> mx'" "base + n = base' + m"
  shows "p = q \<and> n = m"
  using assms by (auto simp: dhcp_IP_RANGES_def)

lemma dhcp_ranges_nonneg: "(p, base, mx) \<in> set dhcp_IP_RANGES \<Longrightarrow> 10 \<le> base \<and> base + mx \<le> 199"
  by (auto simp: dhcp_IP_RANGES_def)

lemma sort_positive_first_gap:
  assumes "sorted ns" and "distinct ns" and "\<forall>n \<in> set ns. int (i + 1) \<le> n"
  shows "int (first_gap i ns) \<notin> set ns \<and> i + 1 \<le> first_gap i ns
    \<and> (\<forall>k. i + 1 \<le> k \<and> k < first_gap i ns \<longrightarrow> int k \<in> set ns)"
  using assms
proof (induction i ns rule: first_gap.induct)
  case (1 i)
  then show ?case by simp
next
  case (2 i n ns)
  show ?case
  proof (cases "n = int (i + 1)")
    case True
    have "\<forall>x \<in> set ns. int (i + 1 + 1) \<le> x"
    proof
      fix x assume x: "x \<in> set ns"
      with "2.prems" True have "n \<le> x" and "x \<noteq> n" by auto
      with True show "int (i + 1 + 1) \<le> x" by simp
    qed
    with 2 True have IH: "int (first_gap (i + 1) ns) \<notin> set ns \<and> i + 1 + 1 \<le> first_gap (i + 1) ns
      \<and> (\<forall>k. i + 1 + 1 \<le> k \<and> k < first_gap (i + 1) ns \<longrightarrow> int k \<in> set ns)"
      by simp
    have "int k \<in> set (n # ns)" if "i + 1 \<le> k" "k < first_gap (i + 1) ns" for k
      using IH that True by (cases "k = i + 1") auto
    with IH True show ?thesis by auto
  next
    case False
    with "2.prems" have "int (i + 1) < n" by auto
    with "2.prems" False show ?thesis by auto
  qed
qed

text \<open>With distinct positive numbers in use, the next number is the least positive one not in use.\<close>

lemma next_num_least:
  assumes "distinct ns" and "\<forall>n \<in> set ns. 1 \<le> n"
  shows "int (next_num ns) \<notin> set ns" and "1 \<le> next_num ns"
    and "1 \<le> k \<Longrightarrow> k < next_num ns \<Longrightarrow> int k \<in> set ns"
  using sort_positive_first_gap [of "sort ns" 0] assms
  by (auto simp: next_num_def split: if_splits)

section \<open>Properties\<close>

text \<open>Two node names made of a range prefix and a number in the range have the same address only
  if they are the same name: the deterministic addresses of the DHCP server never clash between
  canonical names, within a range or across ranges.\<close>

theorem canonical_ip_injective:
  assumes "canonical dhcp_IP_RANGES p n" and "canonical dhcp_IP_RANGES q m"
    and "dhcp_determine_ip_from_hostname (p @ nat_str n) = dhcp_determine_ip_from_hostname (q @ nat_str m)"
  shows "p = q \<and> n = m"
proof -
  from assms(1) obtain b x where p: "(p, b, x) \<in> set dhcp_IP_RANGES" "1 \<le> n" "int n \<le> x"
    by (auto simp: canonical_def)
  from assms(2) obtain b' x' where q: "(q, b', x') \<in> set dhcp_IP_RANGES" "1 \<le> m" "int m \<le> x'"
    by (auto simp: canonical_def)
  from assms(3) have "int_str (b + int n) = int_str (b' + int m)"
    by (simp add: dhcp_ip_canonical(1) [OF p] dhcp_ip_canonical(1) [OF q])
  then have "b + int n = b' + int m"
    using dhcp_ranges_nonneg [OF p(1)] dhcp_ranges_nonneg [OF q(1)] by simp
  then show ?thesis
    using dhcp_ranges_disjoint [OF p(1) q(1), of "int n" "int m"] p q by simp
qed

theorem canonical_ip_injective_witness:
  "canonical dhcp_IP_RANGES ''nas'' 3 \<and> canonical dhcp_IP_RANGES ''s'' 3
    \<and> dhcp_determine_ip_from_hostname (''nas'' @ nat_str 3) \<noteq> dhcp_determine_ip_from_hostname (''s'' @ nat_str 3)"
proof -
  have a: "canonical dhcp_IP_RANGES ''nas'' 3" and b: "canonical dhcp_IP_RANGES ''s'' 3"
    by (auto simp: canonical_def dhcp_IP_RANGES_def)
  then show ?thesis using canonical_ip_injective [OF a b] by auto
qed

text \<open>Whatever name a client asks for, the address derived from it lies in 10.0.0.11 to 10.0.0.199
  or 10.10.10.11 to 10.10.10.199: outside the dynamic range 200 to 249 and never the gateway's.\<close>

theorem static_ip_bounds:
  assumes "dhcp_determine_ip_from_hostname h = Some ip"
  shows "\<exists>n. 11 \<le> n \<and> n \<le> 199 \<and> n < DYNAMIC_IP_START \<and> ip \<noteq> GATEWAY
    \<and> (ip = ''10.0.0.'' @ int_str n \<or> ip = ''10.10.10.'' @ int_str n)"
proof -
  from assms obtain p base mx num
    where f: "find_range dhcp_IP_RANGES (strip_amt h) = Some (p, base, mx, num)"
      and n: "1 \<le> num" "num \<le> mx"
      and ip: "ip = ''10.0.0.'' @ int_str (base + num) \<or> ip = ''10.10.10.'' @ int_str (base + num)"
    by (auto simp: dhcp_determine_ip_from_hostname_def split: if_splits option.splits)
  from find_range_in [OF f] have "10 \<le> base \<and> base + mx \<le> 199"
    using dhcp_ranges_nonneg by blast
  with n have b: "11 \<le> base + num" "base + num \<le> 199" by auto
  have "int_str (base + num) \<noteq> int_str 254" using b by (subst int_str_inject) auto
  moreover have "int_str 254 = ''254''" by code_simp
  ultimately have "ip \<noteq> GATEWAY" using ip by (auto simp: GATEWAY_def)
  with b ip show ?thesis unfolding DYNAMIC_IP_START_def by (intro exI [of _ "base + num"]) auto
qed

theorem static_ip_bounds_witness:
  "\<exists>n. 11 \<le> n \<and> n \<le> 199 \<and> n < DYNAMIC_IP_START \<and> ''10.10.10.13'' \<noteq> GATEWAY
    \<and> (''10.10.10.13'' = ''10.0.0.'' @ int_str n \<or> ''10.10.10.13'' = ''10.10.10.'' @ int_str n)"
proof -
  have "dhcp_determine_ip_from_hostname ''s3a'' = Some ''10.10.10.13''" by code_simp
  then show ?thesis by (rule static_ip_bounds)
qed

text \<open>When the numbers of a type in use are distinct and positive, the next host name offered for
  it has the least number not in use, so it names no existing node and leaves no gap.\<close>

theorem next_hostname_least:
  assumes "distinct (existing_numbers p xs)" and "\<forall>n \<in> set (existing_numbers p xs). 1 \<le> n"
  shows "int (next_num (existing_numbers p xs)) \<notin> set (existing_numbers p xs)
    \<and> 1 \<le> next_num (existing_numbers p xs)
    \<and> (\<forall>k. 1 \<le> k \<and> k < next_num (existing_numbers p xs) \<longrightarrow> int k \<in> set (existing_numbers p xs))"
  using next_num_least [OF assms] by auto

theorem next_hostname_least_witness:
  "next_num (existing_numbers ''s'' [(BY_HOSTNAME @ ''s1'', Doc []), (BY_HOSTNAME @ ''s3'', Doc []),
      (BY_HOSTNAME @ ''sx'', Doc [])]) = 2
    \<and> int (next_num (existing_numbers ''s'' [(BY_HOSTNAME @ ''s1'', Doc []), (BY_HOSTNAME @ ''s3'', Doc []),
      (BY_HOSTNAME @ ''sx'', Doc [])])) \<notin> {1, 3}"
proof -
  let ?xs = "[(BY_HOSTNAME @ ''s1'', Doc []), (BY_HOSTNAME @ ''s3'', Doc []), (BY_HOSTNAME @ ''sx'', Doc [])]"
  have e: "existing_numbers ''s'' ?xs = [1, 3]" by code_simp
  then have "distinct (existing_numbers ''s'' ?xs)" and "\<forall>n \<in> set (existing_numbers ''s'' ?xs). 1 \<le> n"
    by simp_all
  from next_hostname_least [OF this] e have "int (next_num (existing_numbers ''s'' ?xs)) \<notin> {1, 3}" by simp
  moreover have "next_num [1, 3] = 2" by code_simp
  ultimately show ?thesis using e by simp
qed

text \<open>The printed form of an address in the 32-bit range reads back as the same number.\<close>

theorem ip_int_roundtrip:
  assumes "0 \<le> n" and "n < 2 ^ 32"
  shows "ip_to_int (int_to_ip n) = Inr n"
proof -
  have oct: "k AND 255 = k mod 256" for k :: int
    using take_bit_eq_mask [of 8 k] by (simp add: take_bit_eq_mod mask_eq_exp_minus_1 and.commute)
  have parts: "split_on (CHR ''.'') (int_to_ip n) =
    [nat_str (nat (n div 2 ^ 24 mod 256)), nat_str (nat (n div 2 ^ 16 mod 256)),
     nat_str (nat (n div 2 ^ 8 mod 256)), nat_str (nat (n mod 256))]"
    using digits_no_sep [of "CHR ''.''"]
    by (simp add: int_to_ip_def oct drop_bit_eq_div int_str_nonneg split_on_append split_on_no_sep is_digit_def)
  define a b c where "a = n div 256" and "b = a div 256" and "c = b div 256"
  have digits: "n = 256 * a + n mod 256" "a = 256 * b + a mod 256" "b = 256 * c + b mod 256"
    by (simp_all add: a_def b_def c_def)
  have div: "n div 2 ^ 16 = b" "n div 2 ^ 24 = c" "n div 2 ^ 8 = a"
    by (simp_all add: a_def b_def c_def flip: zdiv_zmult2_eq)
  have n: "0 \<le> n" "n < 256 * 16777216" using assms by simp_all
  then have "0 \<le> n div 16777216" by (simp only: pos_imp_zdiv_nonneg_iff)
  moreover from n have "n div 16777216 < 256" by linarith
  ultimately have "0 \<le> c" and "c < 256" using div(2) by simp_all
  then have "16777216 * (c mod 256) + 65536 * (b mod 256) + 256 * (a mod 256) + n mod 256 = n"
    using digits by (simp only: mod_pos_pos_trivial)
  then show ?thesis
    by (simp add: ip_to_int_def parts div [simplified] push_bit_eq_mult algebra_simps)
qed

theorem ip_int_roundtrip_witness: "ip_to_int (int_to_ip 167772414) = Inr 167772414 \<and> int_to_ip 167772414 = GATEWAY"
proof -
  have "(0::int) \<le> 167772414" and "(167772414::int) < 2 ^ 32" by simp_all
  from ip_int_roundtrip [OF this] show ?thesis by (simp, code_simp)
qed

text \<open>The storage VIP lies inside the macOS range: the tenth macOS node gets the VIP's address.\<close>

theorem m10_gets_storage_vip:
  "dhcp_determine_ip_from_hostname ''m10'' = Some storage_vip_ip
    \<and> determine_ip_from_hostname ''m10'' False = Inr (Some storage_vip_ip)"
  by code_simp

text \<open>Different spellings of a number are different host names with one address: the names are not
  unique keys of addresses, since \<open>int\<close> accepts leading zeros, signs, spaces and underscores.\<close>

theorem noncanonical_names_share_address:
  "dhcp_determine_ip_from_hostname ''s01'' = dhcp_determine_ip_from_hostname ''s1''
    \<and> dhcp_determine_ip_from_hostname ''s+1'' = dhcp_determine_ip_from_hostname ''s1''
    \<and> dhcp_determine_ip_from_hostname ''s1'' = Some ''10.0.0.11''"
  by code_simp

text \<open>A development node allocated without WireGuard gets an address inside the range the DHCP
  server hands out dynamically.\<close>

theorem dev_node_in_dynamic_range:
  assumes "1 \<le> n" and "n \<le> 30"
  shows "determine_ip_from_hostname (''d'' @ nat_str n) False = Inr (Some (''10.0.0.'' @ int_str (200 + int n)))
    \<and> DYNAMIC_IP_START \<le> 200 + int n \<and> 200 + int n \<le> DYNAMIC_IP_END"
  using app_ip_canonical(1) [of "''d''" 200 30 n False] assms
  by (simp add: app_IP_RANGES_def DYNAMIC_IP_START_def DYNAMIC_IP_END_def)

theorem dev_node_in_dynamic_range_witness:
  "determine_ip_from_hostname ''d1'' False = Inr (Some ''10.0.0.201'')"
proof -
  have "nat_str 1 = ''1''" and "int_str (200 + int 1) = ''201''" by code_simp+
  then show ?thesis using dev_node_in_dynamic_range [of 1] by simp
qed

end
