(* ===== verification/YRegistry.thy ===== *)
theory YRegistry
  imports YNaming YTime
begin

text \<open>
  The node registry in etcd: \<open>/cluster/nodes/by-mac/<mac>\<close> and \<open>/cluster/nodes/by-hostname/<name>\<close>
  hold the same allocation document under both keys. \<open>reg_inv\<close> says so; it makes the registry a
  one-to-one correspondence of MAC addresses and host names. The locale \<open>registry_env\<close> is the
  contract an allocator relies on when others write the registry at the same time: they keep
  \<open>reg_inv\<close>, and a modification revision identifies a value. The lemmas say which writes keep the
  correspondence: the guarded two-key commit of the allocators, the removal of an allocation, the
  update of a document in place.
\<close>

section \<open>The registry and its invariant\<close>

definition doc_has :: "dict \<Rightarrow> string \<Rightarrow> string \<Rightarrow> bool" where
  "doc_has d m h = (map_of d ''mac'' = Some (JStr m) \<and> map_of d ''hostname'' = Some (JStr h))"

text \<open>Documents stored at a key.\<close>

definition holds_doc :: "store \<Rightarrow> string \<Rightarrow> dict \<Rightarrow> bool" where
  "holds_doc c k d = (\<exists>n. c k = Some (Doc d, n))"

definition reg_inv :: "store \<Rightarrow> bool" where
  "reg_inv c =
     ((\<forall>m x. c (BY_MAC @ m) = Some x \<longrightarrow>
         (\<exists>d h. holds_doc c (BY_MAC @ m) d \<and> doc_has d m h \<and> holds_doc c (BY_HOSTNAME @ h) d))
    \<and> (\<forall>h x. c (BY_HOSTNAME @ h) = Some x \<longrightarrow>
         (\<exists>d m. holds_doc c (BY_HOSTNAME @ h) d \<and> doc_has d m h \<and> holds_doc c (BY_MAC @ m) d)))"

lemma reg_keys_neq [simp]: "BY_MAC @ m \<noteq> BY_HOSTNAME @ h" "BY_HOSTNAME @ h \<noteq> BY_MAC @ m"
  by (simp_all add: BY_MAC_def BY_HOSTNAME_def)

lemma doc_has_unique: "doc_has d m h \<Longrightarrow> doc_has d m' h' \<Longrightarrow> m = m' \<and> h = h'"
  by (auto simp: doc_has_def)

lemma holds_doc_unique: "holds_doc c k d \<Longrightarrow> holds_doc c k d' \<Longrightarrow> d = d'"
  by (auto simp: holds_doc_def)

definition doc_at :: "store \<Rightarrow> string \<Rightarrow> dict option" where
  "doc_at c k = (case c k of Some (Doc d, _) \<Rightarrow> Some d | _ \<Rightarrow> None)"

lemma doc_at_Some: "doc_at c k = Some d \<longleftrightarrow> holds_doc c k d"
  by (auto simp: doc_at_def holds_doc_def split: option.splits blob.splits)

context etcd_seq
begin

lemma wp_get_json_doc:
  assumes "view s k = Some (Doc d, n)" and "\<And>s'. view s' = view s \<Longrightarrow> Q (Some d) s'"
  shows "wp (get_json e k) Q E s"
  by (rule wp_get_json_seq) (use assms in \<open>simp add: vals_def\<close>)

lemma wp_get_json_none:
  assumes "view s k = None" and "\<And>s'. view s' = view s \<Longrightarrow> Q None s'"
  shows "wp (get_json e k) Q E s"
  by (rule wp_get_json_seq) (use assms in \<open>simp add: vals_def\<close>)

text \<open>What a read returns, in general: the document there, nothing, or an error.\<close>

lemma wp_get_json_any:
  assumes "\<And>r s'. view s' = view s \<Longrightarrow> (\<And>d. r = Some d \<Longrightarrow> holds_doc (view s) k d) \<Longrightarrow>
      (r = None \<Longrightarrow> \<not> (\<exists>d. holds_doc (view s) k d)) \<Longrightarrow> Q r s'"
    and "\<And>x s'. view s' = view s \<Longrightarrow> E x s'"
  shows "wp (get_json e k) Q E s"
  by (rule wp_get_json_seq)
    (auto simp: vals_def holds_doc_def intro!: assms split: option.splits sum.splits)

end

lemma reg_inv_by_mac:
  assumes "reg_inv c" and "c (BY_MAC @ m) = Some (b, n)"
  obtains d h where "b = Doc d" and "doc_has d m h" and "holds_doc c (BY_HOSTNAME @ h) d"
  using assms unfolding reg_inv_def holds_doc_def by fastforce

lemma reg_inv_by_hostname:
  assumes "reg_inv c" and "c (BY_HOSTNAME @ h) = Some (b, n)"
  obtains d m where "b = Doc d" and "doc_has d m h" and "holds_doc c (BY_MAC @ m) d"
  using assms unfolding reg_inv_def holds_doc_def by fastforce

text \<open>No two MAC addresses hold the same host name.\<close>

lemma reg_inv_host_of_mac:
  assumes inv: "reg_inv c" and d: "holds_doc c (BY_MAC @ m) d" and h: "map_of d ''hostname'' = Some (JStr h)"
  shows "doc_has d m h \<and> holds_doc c (BY_HOSTNAME @ h) d"
proof -
  from d obtain n where "c (BY_MAC @ m) = Some (Doc d, n)" by (auto simp: holds_doc_def)
  from reg_inv_by_mac [OF inv this] obtain h' where "doc_has d m h'" "holds_doc c (BY_HOSTNAME @ h') d"
    by (metis blob.inject(1))
  with h show ?thesis by (auto simp: doc_has_def)
qed

lemma reg_host_unique:
  assumes inv: "reg_inv c" and d: "holds_doc c (BY_MAC @ m) d" "map_of d ''hostname'' = Some (JStr h)"
    and d': "holds_doc c (BY_MAC @ m') d'" "map_of d' ''hostname'' = Some (JStr h)"
  shows "m = m'"
  using reg_inv_host_of_mac [OF inv d] reg_inv_host_of_mac [OF inv d']
  by (metis holds_doc_unique doc_has_unique)

lemma reg_invI:
  assumes "\<And>m x. c (BY_MAC @ m) = Some x \<Longrightarrow>
      \<exists>d h. holds_doc c (BY_MAC @ m) d \<and> doc_has d m h \<and> holds_doc c (BY_HOSTNAME @ h) d"
    and "\<And>h x. c (BY_HOSTNAME @ h) = Some x \<Longrightarrow>
      \<exists>d m. holds_doc c (BY_HOSTNAME @ h) d \<and> doc_has d m h \<and> holds_doc c (BY_MAC @ m) d"
  shows "reg_inv c"
  using assms unfolding reg_inv_def by blast

lemma reg_inv_empty: "reg_inv (\<lambda>_. None)"
  by (simp add: reg_inv_def)

text \<open>Keys outside the registry do not matter.\<close>

lemma reg_inv_cong:
  assumes "\<And>m. c (BY_MAC @ m) = c' (BY_MAC @ m)" and "\<And>h. c (BY_HOSTNAME @ h) = c' (BY_HOSTNAME @ h)"
  shows "reg_inv c \<longleftrightarrow> reg_inv c'"
  using assms by (simp add: reg_inv_def holds_doc_def)

definition outside_registry :: "string \<Rightarrow> bool" where
  "outside_registry k = (\<not> startswith k BY_MAC \<and> \<not> startswith k BY_HOSTNAME)"

lemma reg_inv_outside:
  assumes "outside_registry k"
  shows "reg_inv (c(k := x)) \<longleftrightarrow> reg_inv c"
  using assms by (intro reg_inv_cong) (auto simp: outside_registry_def)

section \<open>Writes that keep the registry\<close>

text \<open>The store after an allocator's commit: the document under both keys, the previous host name of
  the MAC retired.\<close>

definition reg_commit :: "store \<Rightarrow> string \<Rightarrow> string \<Rightarrow> dict \<Rightarrow> nat \<Rightarrow> string option \<Rightarrow> store" where
  "reg_commit c m h d n old =
     (let c1 = c(BY_MAC @ m \<mapsto> (Doc d, n), BY_HOSTNAME @ h \<mapsto> (Doc d, n))
      in case old of Some h0 \<Rightarrow> if h0 \<noteq> h then c1(BY_HOSTNAME @ h0 := None) else c1 | None \<Rightarrow> c1)"

lemma reg_commit_at:
  "reg_commit c m h d n old (BY_MAC @ m') = (if m' = m then Some (Doc d, n) else c (BY_MAC @ m'))"
  "reg_commit c m h d n old (BY_HOSTNAME @ h') =
     (if h' = h then Some (Doc d, n) else if old = Some h' then None else c (BY_HOSTNAME @ h'))"
  by (auto simp: reg_commit_def Let_def split: option.splits)

lemma reg_inv_commit:
  assumes inv: "reg_inv c" and d: "doc_has d m h"
    and mac: "case old of None \<Rightarrow> c (BY_MAC @ m) = None
      | Some h0 \<Rightarrow> (\<exists>d0. holds_doc c (BY_MAC @ m) d0 \<and> doc_has d0 m h0)"
    and host: "c (BY_HOSTNAME @ h) = None \<or> (\<exists>d0. holds_doc c (BY_HOSTNAME @ h) d0 \<and> doc_has d0 m h)"
  shows "reg_inv (reg_commit c m h d n old)"
proof (rule reg_invI)
  let ?c = "reg_commit c m h d n old"
  fix m' x assume x: "?c (BY_MAC @ m') = Some x"
  show "\<exists>d h. holds_doc ?c (BY_MAC @ m') d \<and> doc_has d m' h \<and> holds_doc ?c (BY_HOSTNAME @ h) d"
  proof (cases "m' = m")
    case True
    then show ?thesis using d by (auto simp: holds_doc_def reg_commit_at intro!: exI [of _ d])
  next
    case False
    with x have "c (BY_MAC @ m') = Some x" by (simp add: reg_commit_at)
    moreover obtain b k where "x = (b, k)" by (cases x)
    ultimately obtain d1 h1 where d1: "b = Doc d1" "doc_has d1 m' h1" "holds_doc c (BY_HOSTNAME @ h1) d1"
      using reg_inv_by_mac [OF inv] by blast
    have "h1 \<noteq> h"
    proof
      assume "h1 = h"
      with host d1 obtain d0 where "holds_doc c (BY_HOSTNAME @ h) d0" "doc_has d0 m h"
        by (auto simp: holds_doc_def)
      with d1 \<open>h1 = h\<close> False show False by (metis holds_doc_unique doc_has_unique)
    qed
    moreover have "old \<noteq> Some h1"
    proof
      assume "old = Some h1"
      with mac obtain d0 where d0: "holds_doc c (BY_MAC @ m) d0" "doc_has d0 m h1" by auto
      with inv have "holds_doc c (BY_HOSTNAME @ h1) d0"
        by (metis reg_inv_by_mac blob.inject(1) doc_has_unique holds_doc_def)
      with d1 d0 False show False by (metis holds_doc_unique doc_has_unique)
    qed
    ultimately show ?thesis
      using d1 False \<open>c (BY_MAC @ m') = Some x\<close> \<open>x = (b, k)\<close>
      by (auto simp: holds_doc_def reg_commit_at intro!: exI [of _ d1] exI [of _ h1])
  qed
next
  let ?c = "reg_commit c m h d n old"
  fix h' x assume x: "?c (BY_HOSTNAME @ h') = Some x"
  show "\<exists>d m. holds_doc ?c (BY_HOSTNAME @ h') d \<and> doc_has d m h' \<and> holds_doc ?c (BY_MAC @ m) d"
  proof (cases "h' = h")
    case True
    then show ?thesis using d by (auto simp: holds_doc_def reg_commit_at intro!: exI [of _ d])
  next
    case False
    with x have cx: "c (BY_HOSTNAME @ h') = Some x" and old: "old \<noteq> Some h'"
      by (simp_all add: reg_commit_at split: if_splits)
    obtain b k where bk: "x = (b, k)" by (cases x)
    with cx obtain d1 m1 where d1: "b = Doc d1" "doc_has d1 m1 h'" "holds_doc c (BY_MAC @ m1) d1"
      using reg_inv_by_hostname [OF inv] by blast
    have "m1 \<noteq> m"
    proof
      assume "m1 = m"
      with d1 mac old show False
        by (cases old) (auto simp: holds_doc_def dest: doc_has_unique)
    qed
    then show ?thesis
      using d1 False cx bk old
      by (auto simp: holds_doc_def reg_commit_at intro!: exI [of _ d1] exI [of _ m1])
  qed
qed

text \<open>Removing an allocation under both keys.\<close>

lemma reg_inv_remove:
  assumes inv: "reg_inv c" and d: "holds_doc c (BY_HOSTNAME @ h) d" "doc_has d m h"
  shows "reg_inv (c(BY_HOSTNAME @ h := None, BY_MAC @ m := None))"
proof (rule reg_invI)
  let ?c = "c(BY_HOSTNAME @ h := None, BY_MAC @ m := None)"
  fix m' x assume x: "?c (BY_MAC @ m') = Some x"
  then have m': "m' \<noteq> m" and cx: "c (BY_MAC @ m') = Some x" by (auto split: if_splits)
  obtain b k where bk: "x = (b, k)" by (cases x)
  with cx obtain d1 h1 where d1: "b = Doc d1" "doc_has d1 m' h1" "holds_doc c (BY_HOSTNAME @ h1) d1"
    using reg_inv_by_mac [OF inv] by blast
  have "h1 \<noteq> h" using d d1 m' by (metis holds_doc_unique doc_has_unique)
  with d1 m' cx bk show "\<exists>d h. holds_doc ?c (BY_MAC @ m') d \<and> doc_has d m' h \<and> holds_doc ?c (BY_HOSTNAME @ h) d"
    by (auto simp: holds_doc_def intro!: exI [of _ d1] exI [of _ h1])
next
  let ?c = "c(BY_HOSTNAME @ h := None, BY_MAC @ m := None)"
  fix h' x assume x: "?c (BY_HOSTNAME @ h') = Some x"
  then have h': "h' \<noteq> h" and cx: "c (BY_HOSTNAME @ h') = Some x" by (auto split: if_splits)
  obtain b k where bk: "x = (b, k)" by (cases x)
  with cx obtain d1 m1 where d1: "b = Doc d1" "doc_has d1 m1 h'" "holds_doc c (BY_MAC @ m1) d1"
    using reg_inv_by_hostname [OF inv] by blast
  have "holds_doc c (BY_MAC @ m) d"
    using inv d by (metis reg_inv_by_hostname blob.inject(1) doc_has_unique holds_doc_def)
  with d d1 h' have "m1 \<noteq> m" by (metis holds_doc_unique doc_has_unique)
  with d1 h' cx bk show "\<exists>d m. holds_doc ?c (BY_HOSTNAME @ h') d \<and> doc_has d m h' \<and> holds_doc ?c (BY_MAC @ m) d"
    by (auto simp: holds_doc_def intro!: exI [of _ d1] exI [of _ m1])
qed

lemma reg_inv_alt: "reg_inv c \<longleftrightarrow>
     ((\<forall>m. c (BY_MAC @ m) \<noteq> None \<longrightarrow>
         (\<exists>d h. holds_doc c (BY_MAC @ m) d \<and> doc_has d m h \<and> holds_doc c (BY_HOSTNAME @ h) d))
    \<and> (\<forall>h. c (BY_HOSTNAME @ h) \<noteq> None \<longrightarrow>
         (\<exists>d m. holds_doc c (BY_HOSTNAME @ h) d \<and> doc_has d m h \<and> holds_doc c (BY_MAC @ m) d)))"
  unfolding reg_inv_def not_None_eq by blast

lemma holds_doc_fst: "holds_doc c k d \<longleftrightarrow> map_option fst (c k) = Some (Doc d)"
  by (auto simp: holds_doc_def)

lemma reg_inv_cong_fst:
  assumes "\<And>m. map_option fst (c (BY_MAC @ m)) = map_option fst (c' (BY_MAC @ m))"
    and "\<And>h. map_option fst (c (BY_HOSTNAME @ h)) = map_option fst (c' (BY_HOSTNAME @ h))"
  shows "reg_inv c \<longleftrightarrow> reg_inv c'"
proof -
  have "c (BY_MAC @ m) \<noteq> None \<longleftrightarrow> c' (BY_MAC @ m) \<noteq> None" for m
    using assms(1) [of m] by (metis map_option_is_None)
  moreover have "c (BY_HOSTNAME @ h) \<noteq> None \<longleftrightarrow> c' (BY_HOSTNAME @ h) \<noteq> None" for h
    using assms(2) [of h] by (metis map_option_is_None)
  ultimately show ?thesis unfolding reg_inv_alt holds_doc_fst by (simp only: assms)
qed

text \<open>The document of an allocation, under both keys.\<close>

definition owned :: "store \<Rightarrow> string \<Rightarrow> string \<Rightarrow> bool" where
  "owned c m h = (\<exists>d. doc_has d m h \<and> holds_doc c (BY_MAC @ m) d \<and> holds_doc c (BY_HOSTNAME @ h) d)"

lemma reg_inv_owned:
  assumes "reg_inv c" and "c (BY_MAC @ m) = Some (b, n)"
  shows "\<exists>d h. b = Doc d \<and> doc_has d m h \<and> owned c m h"
proof -
  from reg_inv_by_mac [OF assms] obtain d h
    where "b = Doc d" "doc_has d m h" "holds_doc c (BY_HOSTNAME @ h) d" by blast
  with assms(2) show ?thesis by (auto simp: owned_def holds_doc_def)
qed

text \<open>Rewriting both entries of an allocation in place.\<close>

lemma reg_inv_rewrite:
  assumes inv: "reg_inv c" and own: "owned c m h" and d: "doc_has d m h"
    and c': "\<And>k. map_option fst (c' k) = (if k = BY_MAC @ m \<or> k = BY_HOSTNAME @ h then Some (Doc d) else map_option fst (c k))"
  shows "reg_inv c' \<and> owned c' m h"
proof -
  from own obtain d0 where d0: "doc_has d0 m h" "holds_doc c (BY_MAC @ m) d0" "holds_doc c (BY_HOSTNAME @ h) d0"
    by (auto simp: owned_def)
  have "reg_inv (reg_commit c m h d 0 (Some h))"
    by (rule reg_inv_commit [OF inv d]) (use d0 in auto)
  moreover have "reg_inv c' \<longleftrightarrow> reg_inv (reg_commit c m h d 0 (Some h))"
    by (rule reg_inv_cong_fst) (auto simp: c' reg_commit_at)
  ultimately show ?thesis using d by (auto simp: owned_def holds_doc_fst c')
qed

text \<open>Moving an allocation to a free host name.\<close>

lemma reg_inv_rename:
  assumes inv: "reg_inv c" and own: "owned c m h0" and free: "c (BY_HOSTNAME @ h) = None" and d: "doc_has d m h"
    and c': "\<And>k. map_option fst (c' k) = (if k = BY_MAC @ m \<or> k = BY_HOSTNAME @ h then Some (Doc d)
      else if k = BY_HOSTNAME @ h0 then None else map_option fst (c k))"
  shows "reg_inv c' \<and> owned c' m h"
proof -
  from own obtain d0 where d0: "doc_has d0 m h0" "holds_doc c (BY_MAC @ m) d0" "holds_doc c (BY_HOSTNAME @ h0) d0"
    by (auto simp: owned_def)
  have "reg_inv (reg_commit c m h d 0 (Some h0))"
    by (rule reg_inv_commit [OF inv d]) (use d0 free in auto)
  moreover have "reg_inv c' \<longleftrightarrow> reg_inv (reg_commit c m h d 0 (Some h0))"
    by (rule reg_inv_cong_fst) (auto simp: c' reg_commit_at)
  ultimately show ?thesis using d by (auto simp: owned_def holds_doc_fst c')
qed

section \<open>Concurrent allocators\<close>

text \<open>What one allocator relies on of the others: they keep the registry a correspondence, and etcd
  gives every modification of a key its own revision.\<close>

locale registry_env = etcd_env e view rely
  for e :: "'s etcd3" and view :: "'s \<Rightarrow> store" and rely :: "store \<Rightarrow> store \<Rightarrow> bool" +
  assumes rely_reg: "reg_inv c \<Longrightarrow> rely c c' \<Longrightarrow> reg_inv c'"
    and rely_revision: "rely c c' \<Longrightarrow> c k = Some (v, n) \<Longrightarrow> c' k = Some (v', n) \<Longrightarrow> v = v'"

context registry_env
begin

abbreviation reg_kept :: "'a \<Rightarrow> 's \<Rightarrow> bool" where
  "reg_kept \<equiv> \<lambda>_ s'. reg_inv (view s')"

lemma wp_put_reg:
  assumes "reg_inv (view s)" and "outside_registry k"
  shows "wp (e_put e k v) reg_kept reg_kept s"
  by (rule wp_put_env) (use assms in \<open>auto simp: reg_inv_outside intro: rely_reg\<close>)

lemma wp_delete_reg:
  assumes "reg_inv (view s)" and "outside_registry k"
  shows "wp (e_delete e k) reg_kept reg_kept s"
  by (rule wp_delete_env) (use assms in \<open>auto simp: reg_inv_outside intro: rely_reg\<close>)

end

text \<open>A single client is its own environment.\<close>

sublocale etcd_seq \<subseteq> seq: registry_env e view "(=)"
  by unfold_locales auto

section \<open>A store with other allocators at work\<close>

text \<open>An instance with real interference and failures: before each call of this client, the next
  entry of a script happens. \<open>Foreign m h d\<close> is another allocator's commit of the document \<open>d\<close>
  (applied when both keys are free), \<open>Fault\<close> makes this client's call raise without effect and
  \<open>LostReply\<close> makes it raise after it took effect.\<close>

datatype event = Foreign string string dict | Fault | LostReply | Quiet

record script =
  s_mem :: mem
  s_events :: "event list"

definition script_view :: "script \<Rightarrow> store" where
  "script_view s = mem_view (s_mem s)"

definition foreign_commit :: "string \<Rightarrow> string \<Rightarrow> dict \<Rightarrow> mem \<Rightarrow> mem" where
  "foreign_commit m h d s =
     (if doc_has d m h
      then snd (mem_txn [VersionZero (BY_MAC @ m), VersionZero (BY_HOSTNAME @ h)]
                  [OpPut (BY_MAC @ m) (Doc d), OpPut (BY_HOSTNAME @ h) (Doc d)] s)
      else s)"

definition scripted :: "(mem, 'a) py \<Rightarrow> (script, 'a) py" where
  "scripted f s =
     (case s_events s of
        [] \<Rightarrow> (case f (s_mem s) of (r, m') \<Rightarrow> (r, s\<lparr>s_mem := m'\<rparr>))
      | ev # evs \<Rightarrow>
          (case ev of
             Foreign m h d \<Rightarrow>
               (case f (foreign_commit m h d (s_mem s)) of (r, m') \<Rightarrow> (r, s\<lparr>s_mem := m', s_events := evs\<rparr>))
           | Fault \<Rightarrow> (Inl ConnectionError, s\<lparr>s_events := evs\<rparr>)
           | LostReply \<Rightarrow>
               (case f (s_mem s) of (r, m') \<Rightarrow> (Inl ConnectionError, s\<lparr>s_mem := m', s_events := evs\<rparr>))
           | Quiet \<Rightarrow> (case f (s_mem s) of (r, m') \<Rightarrow> (r, s\<lparr>s_mem := m', s_events := evs\<rparr>))))"

definition script_etcd :: "script etcd3" where
  "script_etcd = \<lparr>e_client = scripted (py_return ()), e_get = \<lambda>k. scripted (mem_get k),
     e_get_prefix = \<lambda>p. scripted (mem_get_prefix p), e_put = \<lambda>k v. scripted (mem_put k v),
     e_delete = \<lambda>k. scripted (mem_delete k), e_txn = \<lambda>cs ops. scripted (mem_txn cs ops)\<rparr>"

text \<open>Other allocators add to the registry, keep it a correspondence, and never reuse a revision.\<close>

definition grows :: "store \<Rightarrow> store \<Rightarrow> bool" where
  "grows c c' = ((reg_inv c \<longrightarrow> reg_inv c') \<and> (\<forall>k v n. c k = Some (v, n) \<longrightarrow> c' k = Some (v, n)))"

lemma grows_refl: "grows c c"
  by (simp add: grows_def)

lemma grows_foreign: "grows (mem_view s) (mem_view (foreign_commit m h d s))"
proof (cases "doc_has d m h \<and> mem_view s (BY_MAC @ m) = None \<and> mem_view s (BY_HOSTNAME @ h) = None")
  case True
  let ?n = "Suc (mem_rev s)"
  have eq: "mem_view (foreign_commit m h d s) = reg_commit (mem_view s) m h d ?n None"
    using True by (simp add: foreign_commit_def mem_txn_def mem_view_def reg_commit_def mem_fold_view
        Let_def fun_upd_twist)
  moreover have "reg_inv (mem_view s) \<Longrightarrow> reg_inv (reg_commit (mem_view s) m h d ?n None)"
    by (rule reg_inv_commit) (use True in auto)
  moreover have "reg_commit (mem_view s) m h d ?n None k = Some (v, n)" if "mem_view s k = Some (v, n)" for k v n
    using that True by (auto simp: reg_commit_def Let_def)
  ultimately show ?thesis by (simp add: grows_def)
next
  case False
  then have "foreign_commit m h d s = s" by (auto simp: foreign_commit_def mem_txn_def mem_view_def)
  then show ?thesis by (simp add: grows_refl)
qed

lemma scripted_cases:
  assumes "scripted f s = (r, s')"
  obtains m1 r1 where "grows (script_view s) (mem_view m1)" and "f m1 = (r1, s_mem s')" and "r = r1 \<or> isl r"
  | "script_view s' = script_view s" and "isl r"
  using assms grows_foreign grows_refl
  by (fastforce simp: scripted_def script_view_def split: list.splits event.splits prod.splits)

lemma scripted_view:
  assumes run: "scripted f s = (r, s')" and f: "\<And>m1 r1 m2. f m1 = (r1, m2) \<Longrightarrow> P (mem_view m1) r1 (mem_view m2)"
  shows "\<exists>c. grows (script_view s) c \<and>
    ((\<exists>r1. P c r1 (script_view s') \<and> (r = r1 \<or> isl r)) \<or> script_view s' = c \<and> isl r)"
  using run
proof (cases rule: scripted_cases)
  case (1 m1 r1)
  then show ?thesis using f [of m1 r1 "s_mem s'"] by (auto simp: script_view_def)
next
  case 2
  then show ?thesis by (auto intro: grows_refl)
qed

interpretation scriptreg: registry_env script_etcd script_view grows
proof
  show "grows c c" for c by (rule grows_refl)
  show "grows a b \<Longrightarrow> grows b c \<Longrightarrow> grows a c" for a b c by (auto simp: grows_def)
  show "reg_inv c \<Longrightarrow> grows c c' \<Longrightarrow> reg_inv c'" for c c' by (simp add: grows_def)
  show "grows c c' \<Longrightarrow> c k = Some (v, n) \<Longrightarrow> c' k = Some (v', n) \<Longrightarrow> v = v'" for c c' k v n v'
    by (auto simp: grows_def)
  show "grows (script_view s) (script_view s')" if "e_client script_etcd s = (r, s')" for s r s'
    using that scripted_view [of "py_return ()" s r s' "\<lambda>c r c'. c' = c"]
    by (auto simp: script_etcd_def py_return_def)
  show "grows (script_view s) (script_view s') \<and> (\<forall>x. r = Inr x \<longrightarrow> x = script_view s' k)"
    if "e_get script_etcd k s = (r, s')" for k s r s'
    using that scripted_view [of "mem_get k" s r s' "\<lambda>c r c'. c' = c \<and> r = Inr (c k)"]
    by (auto simp: script_etcd_def mem_get_def mem_view_def)
  show "grows (script_view s) (script_view s') \<and> (\<forall>xs. r = Inr xs \<longrightarrow> prefix_list (script_view s') p xs)"
    if "e_get_prefix script_etcd p s = (r, s')" for p s r s'
    using that scripted_view [of "mem_get_prefix p" s r s' "\<lambda>c r c'. c' = c \<and> (\<forall>xs. r = Inr xs \<longrightarrow> prefix_list c p xs)"]
    by (auto simp: script_etcd_def mem_get_prefix_def mem_view_def mem_prefix_list)
  show "\<exists>c n. grows (script_view s) c \<and> (script_view s' = c(k \<mapsto> (v, n)) \<or> script_view s' = c \<and> isl r)"
    if "e_put script_etcd k v s = (r, s')" for k v s r s'
    using that scripted_view [of "mem_put k v" s r s' "\<lambda>c r c'. \<exists>n. c' = c(k \<mapsto> (v, n))"]
    by (auto simp: script_etcd_def mem_put_def mem_view_def)
  show "\<exists>c. grows (script_view s) c \<and> (script_view s' = c(k := None) \<and> (\<forall>b. r = Inr b \<longrightarrow> b = (c k \<noteq> None))
      \<or> script_view s' = c \<and> isl r)"
    if "e_delete script_etcd k s = (r, s')" for k s r s'
    using that scripted_view [of "mem_delete k" s r s' "\<lambda>c r c'. c' = c(k := None) \<and> r = Inr (c k \<noteq> None)"]
    by (fastforce simp: script_etcd_def mem_delete_def mem_view_def)
  show "\<exists>c n. grows (script_view s) c \<and>
      (list_all (cmp_holds c) cs \<and> script_view s' = apply_ops n ops c \<and> (r = Inr True \<or> isl r)
       \<or> script_view s' = c \<and> (r = Inr False \<and> \<not> list_all (cmp_holds c) cs \<or> isl r))"
    if "e_txn script_etcd cs ops s = (r, s')" for cs ops s r s'
  proof -
    have "\<exists>c. grows (script_view s) c \<and> ((\<exists>r1. (if list_all (cmp_holds c) cs
        then r1 = Inr True \<and> (\<exists>n. script_view s' = apply_ops n ops c)
        else r1 = Inr False \<and> script_view s' = c) \<and> (r = r1 \<or> isl r)) \<or> script_view s' = c \<and> isl r)"
      by (rule scripted_view [of "mem_txn cs ops" s r s'])
        (use that in \<open>auto simp: script_etcd_def mem_txn_def mem_view_def mem_fold_view split: if_splits\<close>)
    then show ?thesis by (fastforce split: if_splits)
  qed
qed

end
