(* ===== verification/YAlloc.thy ===== *)
theory YAlloc
  imports YRegistry
begin

text \<open>
  The DHCP server's allocator (\<open>DHCPServer.allocate_hostname_and_ip\<close> and what it calls in
  \<open>utils/dhcp_server.py\<close>): an existing allocation of the MAC is returned, otherwise a requested
  host name or an address of the dynamic range is chosen and committed to the registry by a
  compare-and-swap, at most three times. The proofs are made in \<open>registry_env\<close>: other allocators
  may write between any two calls, and any call may fail before or after it took effect. A call
  reads the clock once (\<open>now\<close>).
\<close>

section \<open>Allocation\<close>

text \<open>\<open>DHCPServer.get_etcd_client\<close>: whether a client could be had.\<close>

definition dhcp_client :: "'s etcd3 \<Rightarrow> ('s, bool) py" where
  "dhcp_client e = py_try (py_seq (e_client e) (py_return True)) (\<lambda>_. py_return False)"

definition last_octet :: "dict \<Rightarrow> int option" where
  "last_octet d = (case get_str d ''ip'' of
     None \<Rightarrow> None | Some ip \<Rightarrow> py_int (last (split_on (CHR ''.'') ip)))"

fun alloc_octets :: "(string \<times> blob) list \<Rightarrow> int list" where
  "alloc_octets [] = []"
| "alloc_octets ((k, b) # rest) =
     (case b of
        Doc d \<Rightarrow> (case last_octet d of Some n \<Rightarrow> n # alloc_octets rest | None \<Rightarrow> alloc_octets rest)
      | _ \<Rightarrow> alloc_octets rest)"

definition lease_octets :: "(string \<times> dict) list \<Rightarrow> int list" where
  "lease_octets ls = List.map_filter (\<lambda>(m, d). last_octet d) ls"

definition get_next_dynamic_ip :: "'s etcd3 \<Rightarrow> (string \<times> dict) list \<Rightarrow> ('s, string option) py" where
  "get_next_dynamic_ip e ls =
     py_bind (dhcp_client e) (\<lambda>up.
       if \<not> up then py_raise AttributeError
       else py_bind (e_get_prefix e BY_HOSTNAME) (\<lambda>xs.
         let used = alloc_octets xs @ lease_octets ls
         in py_return (map_option (\<lambda>n. ''10.0.0.'' @ int_str n)
              (List.find (\<lambda>n. n \<notin> set used) [DYNAMIC_IP_START..DYNAMIC_IP_END]))))"

text \<open>A choice of host name: the name, its address and type, and the revision of the by-hostname
  entry that was found to be this client's own.\<close>

record choice =
  c_hostname :: string
  c_ip :: string
  c_type :: string
  c_mod :: "nat option"

definition value_of :: "(blob \<times> nat) option \<Rightarrow> (blob \<times> nat) option" where
  "value_of r = (case r of Some (b, n) \<Rightarrow> if blob_true b then Some (b, n) else None | None \<Rightarrow> None)"

definition choose_requested :: "'s etcd3 \<Rightarrow> string \<Rightarrow> string \<Rightarrow> ('s, choice option) py" where
  "choose_requested e nmac h =
     (case dhcp_determine_ip_from_hostname h of
        None \<Rightarrow> py_return None
      | Some ip \<Rightarrow>
          py_bind (e_get e (BY_HOSTNAME @ h)) (\<lambda>r.
            case value_of r of
              None \<Rightarrow> py_return (Some \<lparr>c_hostname = h, c_ip = ip,
                        c_type = determine_type_from_hostname h, c_mod = None\<rparr>)
            | Some (b, n) \<Rightarrow>
                py_bind (py_lift (loads_dict b)) (\<lambda>d.
                py_bind (py_lift (dict_item d ''mac'')) (\<lambda>m.
                  if m \<noteq> JStr nmac then py_return None
                  else py_return (Some \<lparr>c_hostname = h, c_ip = ip,
                         c_type = determine_type_from_hostname h, c_mod = Some n\<rparr>)))))"

definition choose_dynamic :: "'s etcd3 \<Rightarrow> (string \<times> dict) list \<Rightarrow> string \<Rightarrow> ('s, choice option) py" where
  "choose_dynamic e ls mac =
     py_bind (get_next_dynamic_ip e ls) (\<lambda>r.
       case r of
         None \<Rightarrow> py_return None
       | Some ip \<Rightarrow> py_return (Some \<lparr>c_hostname = ''dhcp-'' @ last (split_on (CHR ''.'') ip), c_ip = ip,
                      c_type = determine_type_from_mac mac, c_mod = None\<rparr>))"

definition choose_host :: "'s etcd3 \<Rightarrow> (string \<times> dict) list \<Rightarrow> string \<Rightarrow> string option \<Rightarrow> ('s, choice option) py" where
  "choose_host e ls mac req =
     (case req of
        None \<Rightarrow> choose_dynamic e ls mac
      | Some h \<Rightarrow> py_bind (choose_requested e (normalize_mac mac) h) (\<lambda>r.
          case r of Some ch \<Rightarrow> py_return (Some ch) | None \<Rightarrow> choose_dynamic e ls mac))"

datatype attempt = Retry | Done "(string \<times> string) option"

definition allocation_doc :: "choice \<Rightarrow> string \<Rightarrow> int \<Rightarrow> dict" where
  "allocation_doc ch nmac now =
     [(''hostname'', JStr (c_hostname ch)), (''type'', JStr (c_type ch)), (''ip'', JStr (c_ip ch)),
      (''mac'', JStr nmac), (''allocated_at'', JStr (iso_utc now))]"

text \<open>The compares and writes of the commit, built from what was read.\<close>

definition commit_compare :: "string \<Rightarrow> (blob \<times> nat) option \<Rightarrow> choice \<Rightarrow> ecmp list" where
  "commit_compare nmac existing ch =
     [case existing of Some (b, n) \<Rightarrow> ModIs (BY_MAC @ nmac) n | None \<Rightarrow> VersionZero (BY_MAC @ nmac),
      case c_mod ch of Some n \<Rightarrow> ModIs (BY_HOSTNAME @ c_hostname ch) n
                     | None \<Rightarrow> VersionZero (BY_HOSTNAME @ c_hostname ch)]"

definition commit_success :: "string \<Rightarrow> string option \<Rightarrow> choice \<Rightarrow> dict \<Rightarrow> eop list" where
  "commit_success nmac old ch d =
     [OpPut (BY_MAC @ nmac) (Doc d), OpPut (BY_HOSTNAME @ c_hostname ch) (Doc d)] @
     (case old of
        Some h \<Rightarrow> if h \<noteq> c_hostname ch then [OpDelete (BY_HOSTNAME @ h)] else []
      | None \<Rightarrow> [])"

definition commit :: "'s etcd3 \<Rightarrow> string \<Rightarrow> (blob \<times> nat) option \<Rightarrow> choice \<Rightarrow> int \<Rightarrow> ('s, attempt) py" where
  "commit e nmac existing ch now =
     py_try
       (py_bind (case existing of
                   None \<Rightarrow> py_return None
                 | Some (b, n) \<Rightarrow> py_bind (py_lift (loads_dict b)) (\<lambda>d0.
                     py_bind (py_lift (str_item d0 ''hostname'')) (\<lambda>h0. py_return (Some h0)))) (\<lambda>old.
        py_bind (e_txn e (commit_compare nmac existing ch)
                   (commit_success nmac old ch (allocation_doc ch nmac now))) (\<lambda>committed.
          if \<not> committed then py_return Retry
          else py_return (Done (Some (c_hostname ch, c_ip ch))))))
       (\<lambda>_. py_return (Done None))"

text \<open>The part of one attempt after the existing allocation was looked at.\<close>

definition allocate_new ::
  "'s etcd3 \<Rightarrow> (string \<times> dict) list \<Rightarrow> int \<Rightarrow> string \<Rightarrow> string option \<Rightarrow> (blob \<times> nat) option
    \<Rightarrow> ('s, attempt) py" where
  "allocate_new e ls now mac req existing =
     py_bind (choose_host e ls mac req) (\<lambda>c.
       case c of
         None \<Rightarrow> py_return (Done None)
       | Some ch \<Rightarrow> commit e (normalize_mac mac) existing ch now)"

definition effective_request :: "string option \<Rightarrow> string option" where
  "effective_request requested =
     (case requested of
        Some h \<Rightarrow> if h = [] \<or> endswith h ''a'' then None else Some h
      | None \<Rightarrow> None)"

definition allocate_existing ::
  "'s etcd3 \<Rightarrow> (string \<times> dict) list \<Rightarrow> int \<Rightarrow> string \<Rightarrow> string option \<Rightarrow> (blob \<times> nat) option
    \<Rightarrow> ('s, attempt) py" where
  "allocate_existing e ls now mac req existing =
     (case existing of
        None \<Rightarrow> allocate_new e ls now mac req existing
      | Some (b, n) \<Rightarrow>
          py_bind (py_lift (loads_dict b)) (\<lambda>d.
          py_bind (py_lift (str_item d ''hostname'')) (\<lambda>h.
            if req = None \<or> req = Some h
            then py_bind (py_lift (str_item d ''ip'')) (\<lambda>ip. py_return (Done (Some (h, ip))))
            else allocate_new e ls now mac req existing)))"

definition allocate_attempt ::
  "'s etcd3 \<Rightarrow> (string \<times> dict) list \<Rightarrow> int \<Rightarrow> string \<Rightarrow> string option \<Rightarrow> ('s, attempt) py" where
  "allocate_attempt e ls now mac requested =
     py_bind (dhcp_client e) (\<lambda>up.
       if \<not> up then py_return (Done None)
       else py_bind (e_get e (BY_MAC @ normalize_mac mac)) (\<lambda>r.
         allocate_existing e ls now mac (effective_request requested) (value_of r)))"

fun allocate_tries ::
  "nat \<Rightarrow> 's etcd3 \<Rightarrow> (string \<times> dict) list \<Rightarrow> int \<Rightarrow> string \<Rightarrow> string option
    \<Rightarrow> ('s, (string \<times> string) option) py" where
  "allocate_tries 0 e ls now mac requested = py_return None"
| "allocate_tries (Suc n) e ls now mac requested =
     py_bind (allocate_attempt e ls now mac requested) (\<lambda>r.
       case r of Done x \<Rightarrow> py_return x | Retry \<Rightarrow> allocate_tries n e ls now mac requested)"

definition allocate_hostname_and_ip ::
  "'s etcd3 \<Rightarrow> (string \<times> dict) list \<Rightarrow> int \<Rightarrow> string \<Rightarrow> string option \<Rightarrow> ('s, (string \<times> string) option) py" where
  "allocate_hostname_and_ip e ls now mac requested = allocate_tries 3 e ls now mac requested"

section \<open>Allocation under interference\<close>

lemma value_of_Some [simp]: "value_of r = Some (b, n) \<longleftrightarrow> r = Some (b, n) \<and> blob_true b"
  by (auto simp: value_of_def split: option.splits)

lemma value_of_doc [simp]: "value_of (Some (Doc d, n)) = Some (Doc d, n)" "value_of None = None"
  by (simp_all add: value_of_def)

lemma value_of_None: "value_of r = None \<longleftrightarrow> (\<forall>b n. r = Some (b, n) \<longrightarrow> \<not> blob_true b)"
  by (auto simp: value_of_def split: option.splits)

lemma commit_success_reg: "apply_ops n (commit_success nmac old ch d) c = reg_commit c nmac (c_hostname ch) d n old"
  by (auto simp: commit_success_def reg_commit_def Let_def split: option.splits)

text \<open>The by-hostname entry a choice is built on, in the store \<open>v\<close> it was read from.\<close>

definition choice_ok :: "string \<Rightarrow> store \<Rightarrow> choice \<Rightarrow> bool" where
  "choice_ok nmac v ch = (case c_mod ch of
     None \<Rightarrow> True
   | Some n \<Rightarrow> (\<exists>d. v (BY_HOSTNAME @ c_hostname ch) = Some (Doc d, n) \<and> map_of d ''mac'' = Some (JStr nmac)))"

definition recorded :: "store \<Rightarrow> string \<Rightarrow> string \<Rightarrow> string \<Rightarrow> bool" where
  "recorded c nmac h ip = (\<exists>d. holds_doc c (BY_MAC @ nmac) d \<and> holds_doc c (BY_HOSTNAME @ h) d
     \<and> doc_has d nmac h \<and> map_of d ''ip'' = Some (JStr ip))"

context registry_env
begin

lemma wp_dhcp_client_env:
  assumes "\<And>up s'. rely (view s) (view s') \<Longrightarrow> Q up s'"
  shows "wp (dhcp_client e) Q E s"
  unfolding dhcp_client_def wp_simps
  by (rule wp_client_env) (simp_all add: wp_simps assms)

lemma wp_next_dynamic_env:
  assumes "\<And>r s'. rely (view s) (view s') \<Longrightarrow> Q r s'" and "\<And>x s'. rely (view s) (view s') \<Longrightarrow> E x s'"
  shows "wp (get_next_dynamic_ip e ls) Q E s"
  unfolding get_next_dynamic_ip_def wp_bind
  by (rule wp_dhcp_client_env)
    (auto simp: wp_simps Let_def intro!: assms wp_prefix_env intro: rely_trans)

lemma wp_choose_dynamic_env:
  assumes "\<And>r s'. rely (view s) (view s') \<Longrightarrow> (\<And>ch. r = Some ch \<Longrightarrow> c_mod ch = None) \<Longrightarrow> Q r s'"
    and "\<And>x s'. rely (view s) (view s') \<Longrightarrow> E x s'"
  shows "wp (choose_dynamic e ls mac) Q E s"
  unfolding choose_dynamic_def wp_bind
  by (rule wp_next_dynamic_env) (auto simp: wp_simps split: option.splits intro!: assms)

lemma wp_choose_requested_env:
  assumes "\<And>r s'. rely (view s) (view s') \<Longrightarrow>
      (\<And>ch. r = Some ch \<Longrightarrow> choice_ok nmac (view s') ch) \<Longrightarrow> Q r s'"
    and "\<And>x s'. rely (view s) (view s') \<Longrightarrow> E x s'"
  shows "wp (choose_requested e nmac h) Q E s"
proof (cases "dhcp_determine_ip_from_hostname h")
  case None
  then show ?thesis by (auto simp: choose_requested_def wp_simps intro!: assms rely_refl)
next
  case (Some ip)
  show ?thesis
    unfolding choose_requested_def Some option.case wp_simps
    by (rule wp_get_env)
      (auto simp: wp_simps choice_ok_def intro!: assms split: option.splits sum.splits)
qed

lemma wp_choose_host_env:
  assumes "\<And>r s'. rely (view s) (view s') \<Longrightarrow>
      (\<And>ch. r = Some ch \<Longrightarrow> \<exists>v. rely (view s) v \<and> rely v (view s') \<and> choice_ok (normalize_mac mac) v ch) \<Longrightarrow> Q r s'"
    and "\<And>x s'. rely (view s) (view s') \<Longrightarrow> E x s'"
  shows "wp (choose_host e ls mac req) Q E s"
proof (cases req)
  case None
  then show ?thesis unfolding choose_host_def
    by (auto intro!: wp_choose_dynamic_env assms simp: choice_ok_def intro: rely_refl)
next
  case (Some h)
  show ?thesis
    unfolding choose_host_def Some option.case wp_simps
  proof (rule wp_choose_requested_env [where nmac = "normalize_mac mac"])
    fix r s1 assume 1: "rely (view s) (view s1)"
      and ok: "\<And>ch. r = Some ch \<Longrightarrow> choice_ok (normalize_mac mac) (view s1) ch"
    show "wp (case r of None \<Rightarrow> choose_dynamic e ls mac | Some ch \<Rightarrow> py_return (Some ch)) Q E s1"
    proof (cases r)
      case None
      with 1 show ?thesis
        by (auto intro!: wp_choose_dynamic_env assms simp: choice_ok_def intro: rely_refl rely_trans)
    next
      case (Some ch)
      with 1 ok show ?thesis by (auto simp: wp_simps intro!: assms intro: rely_refl)
    qed
  qed (rule assms(2))
qed

lemma wp_commit_env:
  assumes inv: "reg_inv v1" and read: "v1 (BY_MAC @ nmac) = r" and r1: "rely v1 v2"
    and r2: "rely v2 (view s)" and ok: "choice_ok nmac v2 ch"
  shows "wp (commit e nmac (value_of r) ch now)
    (\<lambda>a s'. reg_inv (view s') \<and> (\<forall>h ip. a = Done (Some (h, ip)) \<longrightarrow> recorded (view s') nmac h ip))
    E s"
proof -
  define old where "old = (case value_of r of None \<Rightarrow> None
    | Some (b, n) \<Rightarrow> (case b of Doc d \<Rightarrow> get_str d ''hostname'' | _ \<Rightarrow> None))"
  have old: "\<exists>d0 h0. b = Doc d0 \<and> doc_has d0 nmac h0 \<and> old = Some h0" if "value_of r = Some (b, n)" for b n
  proof -
    from that read have "v1 (BY_MAC @ nmac) = Some (b, n)" by simp
    from reg_inv_by_mac [OF inv this] obtain d0 h0 where "b = Doc d0" "doc_has d0 nmac h0" by blast
    with that show ?thesis by (auto simp: old_def doc_has_def get_str_def)
  qed
  define d where "d = allocation_doc ch nmac now"
  have d: "doc_has d nmac (c_hostname ch)" and dip: "map_of d ''ip'' = Some (JStr (c_ip ch))"
    by (simp_all add: d_def allocation_doc_def doc_has_def)
  have keep: "reg_inv (reg_commit c nmac (c_hostname ch) d n old)"
    if rc: "rely (view s) c" and cmp: "list_all (cmp_holds c) (commit_compare nmac (value_of r) ch)" for c n
  proof (rule reg_inv_commit [OF rely_reg [OF inv] d])
    have v1c: "rely v1 c" and v2c: "rely v2 c" using r1 r2 rc by (blast intro: rely_trans)+
    then show "rely v1 c" by simp
    show "case old of None \<Rightarrow> c (BY_MAC @ nmac) = None
      | Some h0 \<Rightarrow> \<exists>d0. holds_doc c (BY_MAC @ nmac) d0 \<and> doc_has d0 nmac h0"
    proof (cases "value_of r")
      case None
      with cmp show ?thesis by (simp add: old_def commit_compare_def)
    next
      case (Some bn)
      then obtain b k where bk: "value_of r = Some (b, k)" by (cases bn) auto
      with cmp obtain v where "c (BY_MAC @ nmac) = Some (v, k)"
        by (auto simp: commit_compare_def split: option.splits)
      with rely_revision [OF v1c, of "BY_MAC @ nmac" b k v] bk read old [OF bk] show ?thesis
        by (auto simp: holds_doc_def)
    qed
    show "c (BY_HOSTNAME @ c_hostname ch) = None \<or>
      (\<exists>d0. holds_doc c (BY_HOSTNAME @ c_hostname ch) d0 \<and> doc_has d0 nmac (c_hostname ch))"
    proof (cases "c_mod ch")
      case None
      with cmp show ?thesis by (simp add: commit_compare_def)
    next
      case (Some k)
      with ok obtain d0 where d0: "v2 (BY_HOSTNAME @ c_hostname ch) = Some (Doc d0, k)"
        "map_of d0 ''mac'' = Some (JStr nmac)" by (auto simp: choice_ok_def)
      from cmp Some obtain v where v: "c (BY_HOSTNAME @ c_hostname ch) = Some (v, k)"
        by (auto simp: commit_compare_def split: option.splits)
      with rely_revision [OF v2c d0(1)] have "v = Doc d0" by simp
      moreover from reg_inv_by_hostname [OF rely_reg [OF inv v1c] v] obtain d1 m1
        where "v = Doc d1" "doc_has d1 m1 (c_hostname ch)" by blast
      ultimately show ?thesis using v d0 by (auto simp: holds_doc_def doc_has_def)
    qed
  qed
  have rec: "recorded (reg_commit c nmac (c_hostname ch) d n old) nmac (c_hostname ch) (c_ip ch)" for c n
    using d dip by (auto simp: recorded_def holds_doc_def reg_commit_at intro!: exI [of _ d])
  have txn: "wp (e_txn e (commit_compare nmac (value_of r) ch) (commit_success nmac old ch d))
     (\<lambda>b s'. reg_inv (view s') \<and> (b \<longrightarrow> recorded (view s') nmac (c_hostname ch) (c_ip ch)))
     (\<lambda>_ s'. reg_inv (view s')) s"
    by (rule wp_txn_env)
      (use keep rec rely_reg [OF inv rely_trans [OF r1 rely_trans [OF r2]]] in
        \<open>auto simp: commit_success_reg\<close>)
  have run: "wp (py_bind (e_txn e (commit_compare nmac (value_of r) ch) (commit_success nmac old ch d)) (\<lambda>committed.
          if \<not> committed then py_return Retry else py_return (Done (Some (c_hostname ch, c_ip ch)))))
    (\<lambda>a s'. reg_inv (view s') \<and> (\<forall>h ip. a = Done (Some (h, ip)) \<longrightarrow> recorded (view s') nmac h ip))
    (\<lambda>x. wp (py_return (Done None))
      (\<lambda>a s'. reg_inv (view s') \<and> (\<forall>h ip. a = Done (Some (h, ip)) \<longrightarrow> recorded (view s') nmac h ip)) E) s"
    unfolding wp_bind by (rule wp_mono [OF txn]) (simp_all add: wp_simps)
  show ?thesis
  proof (cases "value_of r")
    case None
    then show ?thesis
      using run by (simp add: commit_def d_def wp_try old_def wp_bind wp_return)
  next
    case (Some bn)
    then obtain b n where bn: "value_of r = Some (b, n)" by (cases bn) auto
    from old [OF this] obtain d0 h0 where "b = Doc d0" "doc_has d0 nmac h0" "old = Some h0" by blast
    then show ?thesis
      using run bn
      by (simp add: commit_def d_def wp_try wp_bind wp_return wp_lift doc_has_def str_item_def)
  qed
qed

lemma wp_allocate_new_env:
  assumes inv: "reg_inv (view s)"
  shows "wp (allocate_new e ls now mac req (value_of (view s (BY_MAC @ normalize_mac mac))))
    (\<lambda>a s'. reg_inv (view s') \<and> (\<forall>h ip. a = Done (Some (h, ip)) \<longrightarrow> recorded (view s') (normalize_mac mac) h ip))
    (\<lambda>_ s'. reg_inv (view s')) s"
    (is "wp _ ?Q ?E s")
  unfolding allocate_new_def wp_bind
proof (rule wp_choose_host_env)
  fix c s3 assume 3: "rely (view s) (view s3)"
    and ok: "\<And>ch. c = Some ch \<Longrightarrow> \<exists>v. rely (view s) v \<and> rely v (view s3) \<and> choice_ok (normalize_mac mac) v ch"
  show "wp (case c of None \<Rightarrow> py_return (Done None)
    | Some ch \<Rightarrow> commit e (normalize_mac mac) (value_of (view s (BY_MAC @ normalize_mac mac))) ch now) ?Q ?E s3"
  proof (cases c)
    case None
    with 3 inv show ?thesis by (auto simp: wp_simps intro: rely_reg)
  next
    case (Some ch)
    with ok obtain v where "rely (view s) v" "rely v (view s3)" "choice_ok (normalize_mac mac) v ch" by blast
    with wp_commit_env [OF inv refl this] Some show ?thesis by simp
  qed
qed (use inv rely_reg in blast)

lemma wp_allocate_existing_env:
  assumes inv: "reg_inv (view s)"
  shows "wp (allocate_existing e ls now mac req (value_of (view s (BY_MAC @ normalize_mac mac))))
    (\<lambda>a s'. reg_inv (view s') \<and> (\<forall>h ip. a = Done (Some (h, ip)) \<longrightarrow> recorded (view s') (normalize_mac mac) h ip))
    (\<lambda>_ s'. reg_inv (view s')) s"
proof (cases "value_of (view s (BY_MAC @ normalize_mac mac))")
  case None
  with wp_allocate_new_env [OF inv, of ls now mac req] show ?thesis
    by (simp add: allocate_existing_def)
next
  case (Some bn)
  then obtain b n where bn: "view s (BY_MAC @ normalize_mac mac) = Some (b, n)" "bn = (b, n)"
    by (cases bn) auto
  from reg_inv_by_mac [OF inv bn(1)] obtain d h where d: "b = Doc d" "doc_has d (normalize_mac mac) h"
    "holds_doc (view s) (BY_HOSTNAME @ h) d" by blast
  then have "recorded (view s) (normalize_mac mac) h ip" if "map_of d ''ip'' = Some (JStr ip)" for ip
    using that bn by (auto simp: recorded_def holds_doc_def)
  with bn d inv wp_allocate_new_env [OF inv, of ls now mac req] Some show ?thesis
    by (auto simp: allocate_existing_def wp_bind wp_lift wp_return doc_has_def str_item_def [of _ "''hostname''"]
        split: sum.splits)
qed

lemma wp_allocate_attempt_env:
  assumes "reg_inv (view s)"
  shows "wp (allocate_attempt e ls now mac requested)
    (\<lambda>a s'. reg_inv (view s') \<and> (\<forall>h ip. a = Done (Some (h, ip)) \<longrightarrow> recorded (view s') (normalize_mac mac) h ip))
    (\<lambda>_ s'. reg_inv (view s')) s"
  unfolding allocate_attempt_def wp_bind
proof (rule wp_dhcp_client_env)
  fix up s1 assume "rely (view s) (view s1)"
  with assms have inv1: "reg_inv (view s1)" using rely_reg by blast
  have "wp (e_get e (BY_MAC @ normalize_mac mac))
     (\<lambda>r. wp (allocate_existing e ls now mac (effective_request requested) (value_of r))
       (\<lambda>a s'. reg_inv (view s') \<and> (\<forall>h ip. a = Done (Some (h, ip)) \<longrightarrow> recorded (view s') (normalize_mac mac) h ip))
       (\<lambda>_ s'. reg_inv (view s'))) (\<lambda>_ s'. reg_inv (view s')) s1"
    by (rule wp_get_env) (use inv1 in \<open>blast intro: rely_reg wp_allocate_existing_env\<close>)+
  with inv1 show "wp (if \<not> up then py_return (Done None)
      else py_bind (e_get e (BY_MAC @ normalize_mac mac)) (\<lambda>r.
        allocate_existing e ls now mac (effective_request requested) (value_of r)))
     (\<lambda>a s'. reg_inv (view s') \<and> (\<forall>h ip. a = Done (Some (h, ip)) \<longrightarrow> recorded (view s') (normalize_mac mac) h ip))
     (\<lambda>_ s'. reg_inv (view s')) s1"
    by (simp add: wp_bind wp_return)
qed

lemma wp_allocate_tries_env:
  assumes "reg_inv (view s)"
  shows "wp (allocate_tries k e ls now mac requested)
    (\<lambda>a s'. reg_inv (view s') \<and> (\<forall>h ip. a = Some (h, ip) \<longrightarrow> recorded (view s') (normalize_mac mac) h ip))
    (\<lambda>_ s'. reg_inv (view s')) s"
  using assms
proof (induction k arbitrary: s)
  case 0
  then show ?case by (simp add: wp_simps)
next
  case (Suc k)
  show ?case
    unfolding allocate_tries.simps wp_bind
    by (rule wp_mono [OF wp_allocate_attempt_env [OF Suc.prems]])
      (use Suc.IH in \<open>auto simp: wp_simps split: attempt.splits\<close>)
qed

end

section \<open>A single allocator\<close>

text \<open>The last octets in use: of the registry's documents and of the lease table.\<close>

definition used_octet :: "store \<Rightarrow> (string \<times> dict) list \<Rightarrow> int \<Rightarrow> bool" where
  "used_octet c ls n =
     ((\<exists>k d m. startswith k BY_HOSTNAME \<and> c k = Some (Doc d, m) \<and> last_octet d = Some n)
      \<or> (\<exists>(m, d)\<in>set ls. last_octet d = Some n))"

lemma set_alloc_octets: "set (alloc_octets xs) = {n. \<exists>k d. (k, Doc d) \<in> set xs \<and> last_octet d = Some n}"
proof (induction xs rule: alloc_octets.induct)
  case (2 k b rest)
  then show ?case by (cases b) (auto split: option.splits)
qed simp

lemma set_lease_octets: "set (lease_octets ls) = {n. \<exists>(m, d)\<in>set ls. last_octet d = Some n}"
  by (induction ls) (auto simp: lease_octets_def map_filter_simps split: option.splits)

lemma used_octets_list:
  assumes "prefix_list c BY_HOSTNAME xs"
  shows "n \<in> set (alloc_octets xs @ lease_octets ls) \<longleftrightarrow> used_octet c ls n"
  using assms by (auto simp: set_alloc_octets set_lease_octets used_octet_def prefix_list_def)

context etcd_seq
begin

lemma wp_dhcp_client_seq:
  assumes "\<And>s'. view s' = view s \<Longrightarrow> Q True s'"
  shows "wp (dhcp_client e) Q E s"
  unfolding dhcp_client_def wp_simps
  by (rule wp_client_seq) (simp_all add: wp_simps assms)

lemma wp_next_dynamic_seq:
  assumes "\<And>s'. view s' = view s \<Longrightarrow> Q (map_option (\<lambda>n. ''10.0.0.'' @ int_str n)
      (List.find (\<lambda>n. \<not> used_octet (view s) ls n) [DYNAMIC_IP_START..DYNAMIC_IP_END])) s'"
  shows "wp (get_next_dynamic_ip e ls) Q E s"
  unfolding get_next_dynamic_ip_def wp_bind
proof (rule wp_dhcp_client_seq)
  fix s1 assume 1: "view s1 = view s"
  have "wp (e_get_prefix e BY_HOSTNAME) (\<lambda>xs. wp (let used = alloc_octets xs @ lease_octets ls
      in py_return (map_option (\<lambda>n. ''10.0.0.'' @ int_str n)
         (List.find (\<lambda>n. n \<notin> set used) [DYNAMIC_IP_START..DYNAMIC_IP_END]))) Q E) E s1"
  proof (rule wp_prefix_seq)
    fix xs s2 assume "view s2 = view s1" and "prefix_list (view s1) BY_HOSTNAME xs"
    with 1 assms show "wp (let used = alloc_octets xs @ lease_octets ls
      in py_return (map_option (\<lambda>n. ''10.0.0.'' @ int_str n)
         (List.find (\<lambda>n. n \<notin> set used) [DYNAMIC_IP_START..DYNAMIC_IP_END]))) Q E s2"
      unfolding Let_def wp_return by (simp only: used_octets_list)
  qed
  then show "wp (if \<not> True then py_raise AttributeError
      else py_bind (e_get_prefix e BY_HOSTNAME) (\<lambda>xs. let used = alloc_octets xs @ lease_octets ls
        in py_return (map_option (\<lambda>n. ''10.0.0.'' @ int_str n)
           (List.find (\<lambda>n. n \<notin> set used) [DYNAMIC_IP_START..DYNAMIC_IP_END])))) Q E s1"
    by (simp add: wp_bind)
qed

lemma wp_allocate_known_seq:
  assumes known: "view s (BY_MAC @ normalize_mac mac) = Some (Doc d, n)"
    and h: "map_of d ''hostname'' = Some (JStr h)" and ip: "map_of d ''ip'' = Some (JStr ip)"
    and req: "effective_request requested = None \<or> effective_request requested = Some h"
    and Q: "\<And>s'. view s' = view s \<Longrightarrow> Q (Some (h, ip)) s'"
  shows "wp (allocate_hostname_and_ip e ls now mac requested) Q E s"
proof -
  have "wp (allocate_attempt e ls now mac requested) (\<lambda>a s'. a = Done (Some (h, ip)) \<and> view s' = view s) (\<lambda>_ _. False) s"
    unfolding allocate_attempt_def wp_bind
  proof (rule wp_dhcp_client_seq)
    fix s1 assume 1: "view s1 = view s"
    have "wp (e_get e (BY_MAC @ normalize_mac mac))
        (\<lambda>r. wp (allocate_existing e ls now mac (effective_request requested) (value_of r))
          (\<lambda>a s'. a = Done (Some (h, ip)) \<and> view s' = view s) (\<lambda>_ _. False)) (\<lambda>_ _. False) s1"
      by (rule wp_get_seq)
        (use 1 known h ip req in \<open>simp add: allocate_existing_def wp_bind wp_lift wp_return str_item_def\<close>)
    then show "wp (if \<not> True then py_return (Done None)
        else py_bind (e_get e (BY_MAC @ normalize_mac mac)) (\<lambda>r.
          allocate_existing e ls now mac (effective_request requested) (value_of r)))
       (\<lambda>a s'. a = Done (Some (h, ip)) \<and> view s' = view s) (\<lambda>_ _. False) s1"
      by (simp add: wp_bind)
  qed
  then show ?thesis
    unfolding allocate_hostname_and_ip_def numeral_3_eq_3 allocate_tries.simps(2) wp_bind
    by (rule wp_mono) (auto simp: wp_return Q)
qed

end

section \<open>Properties\<close>

text \<open>C1: the allocator keeps the registry a one-to-one correspondence of MAC addresses and host
  names whatever other allocators do between its calls and wherever a call fails, even after its
  transaction took effect; and a pair it returns is recorded under both keys, in one document that
  names this client's MAC, the host name and the address, so no other MAC holds that name.\<close>

theorem dhcp_allocation_exclusive:
  assumes "registry_env e view rely" and "reg_inv (view s)"
    and "allocate_hostname_and_ip e ls now mac requested s = (r, s')"
  shows "reg_inv (view s') \<and>
    (\<forall>h ip. r = Inr (Some (h, ip)) \<longrightarrow> recorded (view s') (normalize_mac mac) h ip \<and>
       (\<forall>m d. holds_doc (view s') (BY_MAC @ m) d \<and> map_of d ''hostname'' = Some (JStr h)
          \<longrightarrow> m = normalize_mac mac))"
proof -
  have run: "wp (allocate_hostname_and_ip e ls now mac requested)
    (\<lambda>a s'. reg_inv (view s') \<and> (\<forall>h ip. a = Some (h, ip) \<longrightarrow> recorded (view s') (normalize_mac mac) h ip))
    (\<lambda>_ s'. reg_inv (view s')) s"
    unfolding allocate_hostname_and_ip_def
    by (rule registry_env.wp_allocate_tries_env [OF assms(1,2)])
  have inv: "reg_inv (view s')" and rec: "\<And>h ip. r = Inr (Some (h, ip)) \<Longrightarrow> recorded (view s') (normalize_mac mac) h ip"
    using run assms(3) by (auto simp: wp_def split: sum.splits)
  moreover have "m = normalize_mac mac" if "r = Inr (Some (h, ip))" "holds_doc (view s') (BY_MAC @ m) d"
    "map_of d ''hostname'' = Some (JStr h)" for h ip m d
    using reg_host_unique [OF inv that(2,3)] rec [OF that(1)] by (auto simp: recorded_def doc_has_def)
  ultimately show ?thesis by blast
qed

text \<open>The hypotheses hold for a run in which another allocator takes the name between the read and
  the commit: the first compare-and-swap is lost and the retry takes the next dynamic address.\<close>

definition rival_doc :: dict where
  "rival_doc = [(''hostname'', JStr ''dhcp-200''), (''type'', JStr ''compute''), (''ip'', JStr ''10.0.0.200''),
     (''mac'', JStr ''bb''), (''allocated_at'', JStr [])]"

definition rival_start :: script where
  "rival_start = \<lparr>s_mem = \<lparr>mem_data = [], mem_rev = 0\<rparr>,
     s_events = [Quiet, Quiet, Quiet, Quiet, Foreign ''bb'' ''dhcp-200'' rival_doc]\<rparr>"

theorem dhcp_allocation_exclusive_witness:
  "reg_inv (script_view (snd (allocate_hostname_and_ip script_etcd [] 0 ''aa'' None rival_start)))
   \<and> recorded (script_view (snd (allocate_hostname_and_ip script_etcd [] 0 ''aa'' None rival_start)))
       ''aa'' ''dhcp-201'' ''10.0.0.201''"
proof -
  have "reg_inv (script_view rival_start)"
    by (simp add: rival_start_def script_view_def mem_view_def reg_inv_empty)
  moreover have "fst (allocate_hostname_and_ip script_etcd [] 0 ''aa'' None rival_start)
      = Inr (Some (''dhcp-201'', ''10.0.0.201''))"
    by code_simp
  moreover have "normalize_mac ''aa'' = ''aa''" by code_simp
  ultimately show ?thesis
    using dhcp_allocation_exclusive [OF scriptreg.registry_env_axioms _ prod.collapse [symmetric],
        of rival_start "[]" 0 "''aa''" None]
    by metis
qed

text \<open>C21: the address picked for an unnamed client lies in the dynamic range and its last octet is
  used by no registry document and no lease; when none is left the answer is that there is none.\<close>

theorem dynamic_ip_fresh:
  assumes "etcd_seq e view" and "get_next_dynamic_ip e ls s = (r, s')"
  shows "view s' = view s \<and>
    (\<exists>n. r = Inr (Some (''10.0.0.'' @ int_str n)) \<and> 200 \<le> n \<and> n \<le> 249 \<and> \<not> used_octet (view s) ls n
     \<or> r = Inr None \<and> (\<forall>n. 200 \<le> n \<and> n \<le> 249 \<longrightarrow> used_octet (view s) ls n))"
proof -
  let ?f = "List.find (\<lambda>n. \<not> used_octet (view s) ls n) [DYNAMIC_IP_START..DYNAMIC_IP_END]"
  have "wp (get_next_dynamic_ip e ls) (\<lambda>x s'. view s' = view s \<and> x = map_option (\<lambda>n. ''10.0.0.'' @ int_str n) ?f)
      (\<lambda>_ _. False) s"
    by (rule etcd_seq.wp_next_dynamic_seq [OF assms(1)]) simp
  with assms(2) have v: "view s' = view s" and r: "r = Inr (map_option (\<lambda>n. ''10.0.0.'' @ int_str n) ?f)"
    by (auto simp: wp_def split: sum.splits)
  have some: "200 \<le> n \<and> n \<le> 249 \<and> \<not> used_octet (view s) ls n" if "?f = Some n" for n
  proof -
    from that have "n \<in> set [DYNAMIC_IP_START..DYNAMIC_IP_END]" "\<not> used_octet (view s) ls n"
      unfolding find_Some_iff by (metis nth_mem, blast)
    then show ?thesis unfolding set_upto DYNAMIC_IP_START_def DYNAMIC_IP_END_def by simp
  qed
  have none: "used_octet (view s) ls n" if "?f = None" "200 \<le> n" "n \<le> 249" for n
  proof -
    have "n \<in> set [DYNAMIC_IP_START..DYNAMIC_IP_END]"
      using that(2,3) unfolding set_upto DYNAMIC_IP_START_def DYNAMIC_IP_END_def by simp
    with that(1) show ?thesis unfolding find_None_iff by blast
  qed
  show ?thesis
  proof (cases ?f)
    case None
    with r have "r = Inr None" by simp
    with v none [OF None] show ?thesis by blast
  next
    case (Some n)
    with r have "r = Inr (Some (''10.0.0.'' @ int_str n))" by simp
    with v some [OF Some] show ?thesis by blast
  qed
qed

theorem dynamic_ip_fresh_witness:
  "mem_view (snd (get_next_dynamic_ip mem_etcd [] \<lparr>mem_data = [], mem_rev = 0\<rparr>)) = mem_view \<lparr>mem_data = [], mem_rev = 0\<rparr>
   \<and> fst (get_next_dynamic_ip mem_etcd [] \<lparr>mem_data = [], mem_rev = 0\<rparr>) = Inr (Some ''10.0.0.200'')"
proof -
  have "fst (get_next_dynamic_ip mem_etcd [] \<lparr>mem_data = [], mem_rev = 0\<rparr>) = Inr (Some ''10.0.0.200'')"
    by code_simp
  with dynamic_ip_fresh [OF memkv.etcd_seq_axioms prod.collapse [symmetric],
      of "[]" "\<lparr>mem_data = [], mem_rev = 0\<rparr>"]
  show ?thesis by blast
qed

text \<open>C23: a client with a recorded allocation that asks for no name, for an AMT name or for its own
  name gets its recorded name and address again, and nothing is written.\<close>

theorem allocation_stable:
  assumes "etcd_seq e view" and "recorded (view s) (normalize_mac mac) h ip"
    and "requested = None \<or> requested = Some [] \<or> (\<exists>n. requested = Some (n @ ''a'')) \<or> requested = Some h"
    and "allocate_hostname_and_ip e ls now mac requested s = (r, s')"
  shows "r = Inr (Some (h, ip)) \<and> view s' = view s"
proof -
  from assms(2) obtain d n where "view s (BY_MAC @ normalize_mac mac) = Some (Doc d, n)"
    "map_of d ''hostname'' = Some (JStr h)" "map_of d ''ip'' = Some (JStr ip)"
    by (auto simp: recorded_def holds_doc_def doc_has_def)
  moreover have "effective_request requested = None \<or> effective_request requested = Some h"
    using assms(3) by (auto simp: effective_request_def endswith_iff split: if_splits)
  ultimately have "wp (allocate_hostname_and_ip e ls now mac requested)
      (\<lambda>a s'. a = Some (h, ip) \<and> view s' = view s) (\<lambda>_ _. False) s"
    by (rule etcd_seq.wp_allocate_known_seq [OF assms(1)]) simp
  with assms(4) show ?thesis by (auto simp: wp_def split: sum.splits)
qed

definition known_start :: mem where
  "known_start = \<lparr>mem_data = [(BY_MAC @ ''bb'', Doc rival_doc, 1), (BY_HOSTNAME @ ''dhcp-200'', Doc rival_doc, 1)], mem_rev = 1\<rparr>"

theorem allocation_stable_witness:
  "fst (allocate_hostname_and_ip mem_etcd [] 0 ''BB'' (Some ''s1a'') known_start) = Inr (Some (''dhcp-200'', ''10.0.0.200''))"
proof -
  have "normalize_mac ''BB'' = ''bb''" by code_simp
  then have "recorded (mem_view known_start) (normalize_mac ''BB'') ''dhcp-200'' ''10.0.0.200''"
    by (simp add: recorded_def holds_doc_def doc_has_def known_start_def mem_view_def rival_doc_def)
  moreover have "\<exists>n. Some ''s1a'' = Some (n @ ''a'')" by (rule exI [of _ "''s1''"]) simp
  ultimately show ?thesis
    using allocation_stable [OF memkv.etcd_seq_axioms, of known_start "''BB''" "''dhcp-200''" "''10.0.0.200''"
      "Some ''s1a''" "[]" 0, OF _ _ prod.collapse [symmetric]]
    by blast
qed

end
