(* ===== verification/YDhcp.thy ===== *)
theory YDhcp
  imports YAlloc
begin

text \<open>
  The DHCP server (\<open>utils/dhcp_server.py\<close>) around its allocator: the lease table, the DISCOVER
  and REQUEST handlers with the replies they send, migration, loading and cleanup of leases, start
  and stop, and the health endpoints. \<open>'s dhcp\<close> is the \<open>DHCPServer\<close> object with the state \<open>kv\<close> of
  its etcd client; a lease is a dict, the table an association list in insertion order. Each
  handler reads the clock once (\<open>now\<close>, microseconds of wall clock). The network interfaces
  (\<open>netifaces\<close> and scapy's \<open>get_if_hwaddr\<close>) are the parameter \<open>nics\<close>. A handler returns the packet
  it sends, if it sends one. Handlers and the cleanup thread are taken one at a time.
\<close>

section \<open>State, packets and replies\<close>

record 's dhcp =
  leases :: "(string \<times> dict) list"
  allocated_ips :: "string set"
  server_ip :: string
  running :: bool
  kv :: 's

text \<open>The options the handlers look at; \<open>OtherOpt\<close> stands for any other option or padding.\<close>

datatype dopt =
    MessageType int
  | RequestedAddr string
  | HostnameOpt string
  | ServerId string
  | OtherOpt string

record bootp =
  ciaddr :: string
  xid :: nat
  chaddr :: string

record packet =
  eth_src :: string
  dhcp_layer :: "dopt list option"
  bootp_layer :: "bootp option"

datatype ropt = RNum string int | RStr string string | REnd

record reply =
  eth_dst :: string
  reply_src :: string
  ip_src :: string
  ip_dst :: string
  ports :: "int \<times> int"
  bootp_op :: int
  hw_type :: int
  hw_len :: int
  reply_xid :: nat
  yiaddr :: "string option"
  siaddr :: "string option"
  reply_chaddr :: string
  r_options :: "ropt list"

record nics =
  ifaces :: "(string \<times> string list) list"
  if_hwaddr :: "string \<Rightarrow> string"

definition LEASE_TIME :: int where
  "LEASE_TIME = 43200"

definition LEASES :: string where
  "LEASES = ''/cluster/dhcp/leases/''"

definition temporary_hostnames :: "string list" where
  "temporary_hostnames = [''ubuntu-server'', ''localhost'', []]"

definition lease_end :: "int \<Rightarrow> int" where
  "lease_end now = now + LEASE_TIME * 1000000"

abbreviation on_kv :: "('s, 'a) py \<Rightarrow> ('s dhcp, 'a) py" where
  "on_kv m \<equiv> py_zoom kv (\<lambda>s w. w\<lparr>kv := s\<rparr>) m"

section \<open>Leases\<close>

text \<open>\<open>datetime.fromisoformat(lease['expires'])\<close>, compared with the naive local time.\<close>

definition expires_of :: "dict \<Rightarrow> exn + int" where
  "expires_of d =
     (case str_item d ''expires'' of
        Inl x \<Rightarrow> Inl x
      | Inr s \<Rightarrow> (case fromisoformat s of
                   None \<Rightarrow> Inl (ValueError s)
                 | Some (Aware t) \<Rightarrow> Inl TypeError
                 | Some (Naive t) \<Rightarrow> Inr t))"

definition lease_hostname :: "dict \<Rightarrow> string" where
  "lease_hostname d = (case get_str d ''hostname'' of Some h \<Rightarrow> h | None \<Rightarrow> [])"

definition lease_doc :: "string \<Rightarrow> string \<Rightarrow> string \<Rightarrow> int \<Rightarrow> dict" where
  "lease_doc mac ip hostname now =
     [(''mac'', JStr mac), (''ip'', JStr ip), (''hostname'', JStr hostname),
      (''expires'', JStr (iso_naive (lease_end now))), (''allocated_at'', JStr (iso_naive now))]"

definition save_lease_to_etcd :: "'s etcd3 \<Rightarrow> string \<Rightarrow> dict \<Rightarrow> ('s, bool) py" where
  "save_lease_to_etcd e mac d =
     py_bind (dhcp_client e) (\<lambda>up.
       if \<not> up then py_return False
       else py_try
         (py_seq (e_put e (LEASES @ normalize_mac mac) (Doc d))
           (py_bind (py_lift (dict_item d ''ip'')) (\<lambda>_. py_return True)))
         (\<lambda>_. py_return False))"

definition drop_lease :: "string \<Rightarrow> string \<Rightarrow> 's dhcp \<Rightarrow> 's dhcp" where
  "drop_lease mac ip w =
     w\<lparr>allocated_ips := allocated_ips w - {ip}, leases := AList.delete mac (leases w)\<rparr>"

definition add_lease :: "string \<Rightarrow> dict \<Rightarrow> string \<Rightarrow> 's dhcp \<Rightarrow> 's dhcp" where
  "add_lease mac d ip w =
     w\<lparr>leases := AList.update mac d (leases w), allocated_ips := insert ip (allocated_ips w)\<rparr>"

text \<open>The second half of \<open>get_or_create_lease\<close>: allocate and record a new lease.\<close>

definition create_lease ::
  "'s etcd3 \<Rightarrow> int \<Rightarrow> string \<Rightarrow> string option \<Rightarrow> ('s dhcp, (string \<times> string) option) py" where
  "create_lease e now mac requested_hostname =
     py_bind (py_get leases) (\<lambda>ls.
     py_bind (on_kv (allocate_hostname_and_ip e ls now mac requested_hostname)) (\<lambda>r.
       case r of
         None \<Rightarrow> py_return None
       | Some (hostname, ip) \<Rightarrow>
           if ip = [] then py_return None
           else (let d = lease_doc mac ip hostname now in
             py_seq (py_modify (add_lease mac d ip))
               (py_seq (on_kv (save_lease_to_etcd e mac d)) (py_return (Some (ip, hostname)))))))"

definition get_or_create_lease ::
  "'s etcd3 \<Rightarrow> int \<Rightarrow> string \<Rightarrow> string option \<Rightarrow> string option \<Rightarrow> ('s dhcp, (string \<times> string) option) py" where
  "get_or_create_lease e now mac requested_ip requested_hostname =
     py_bind (py_get (\<lambda>w. map_of (leases w) mac)) (\<lambda>l.
       case l of
         None \<Rightarrow> create_lease e now mac requested_hostname
       | Some d \<Rightarrow>
           py_bind (py_lift (expires_of d)) (\<lambda>expires.
           py_bind (py_lift (str_item d ''ip'')) (\<lambda>ip.
             if expires > now then
               (case requested_hostname of
                  Some h \<Rightarrow>
                    if h \<noteq> [] \<and> lease_hostname d \<noteq> h \<and> h \<notin> set temporary_hostnames
                    then py_seq (py_modify (drop_lease mac ip)) (create_lease e now mac requested_hostname)
                    else py_return (Some (ip, lease_hostname d))
                | None \<Rightarrow> py_return (Some (ip, lease_hostname d)))
             else py_seq (py_modify (drop_lease mac ip)) (create_lease e now mac requested_hostname))))"

section \<open>Replies\<close>

definition get_interface_for_ip :: "nics \<Rightarrow> string \<Rightarrow> exn + string" where
  "get_interface_for_ip n ip =
     (case List.find (\<lambda>(i, addrs). ip \<in> set addrs) (ifaces n) of
        Some (i, addrs) \<Rightarrow> Inr i
      | None \<Rightarrow> Inl (ValueError ip))"

definition build_dhcp_options :: "string \<Rightarrow> int \<Rightarrow> string \<Rightarrow> ropt list" where
  "build_dhcp_options sip message_type hostname =
     [RNum ''message-type'' message_type, RStr ''server_id'' sip, RNum ''lease_time'' LEASE_TIME,
      RStr ''subnet_mask'' ''255.255.255.0'', RStr ''router'' GATEWAY, RStr ''name_server'' GATEWAY,
      RStr ''NTP_server'' GATEWAY, RStr ''tftp_server_name'' sip]
     @ (if hostname \<noteq> [] then [RStr ''hostname'' hostname] else [])
     @ [RStr ''boot-file-name'' ''EFI/BOOT/grubx64.efi'', REnd]"

text \<open>The layers all three replies share; without a BOOTP layer \<open>packet[BOOTP]\<close> raises.\<close>

definition boot_reply ::
  "nics \<Rightarrow> string \<Rightarrow> packet \<Rightarrow> string option \<Rightarrow> string option \<Rightarrow> ropt list \<Rightarrow> exn + reply" where
  "boot_reply n sip p yi si opts =
     (case get_interface_for_ip n sip of
        Inl x \<Rightarrow> Inl x
      | Inr i \<Rightarrow> (case bootp_layer p of
          None \<Rightarrow> Inl (KeyError ''BOOTP'')
        | Some b \<Rightarrow> Inr
           \<lparr>eth_dst = eth_src p, reply_src = if_hwaddr n i, ip_src = sip, ip_dst = ''255.255.255.255'',
            ports = (67, 68), bootp_op = 2, hw_type = 1, hw_len = 6, reply_xid = xid b, yiaddr = yi,
            siaddr = si, reply_chaddr = chaddr b, r_options = opts\<rparr>))"

definition create_dhcp_offer :: "nics \<Rightarrow> string \<Rightarrow> packet \<Rightarrow> string \<Rightarrow> string \<Rightarrow> exn + reply" where
  "create_dhcp_offer n sip p ip hostname =
     boot_reply n sip p (Some ip) (Some sip) (build_dhcp_options sip 2 hostname)"

definition create_dhcp_ack :: "nics \<Rightarrow> string \<Rightarrow> packet \<Rightarrow> string \<Rightarrow> string \<Rightarrow> exn + reply" where
  "create_dhcp_ack n sip p ip hostname =
     boot_reply n sip p (Some ip) (Some sip) (build_dhcp_options sip 5 hostname)"

definition create_dhcp_nak :: "nics \<Rightarrow> string \<Rightarrow> packet \<Rightarrow> exn + reply" where
  "create_dhcp_nak n sip p =
     boot_reply n sip p None None [RNum ''message-type'' 6, RStr ''server_id'' sip, REnd]"

section \<open>Handlers\<close>

record client_options =
  requested_ip :: "string option"
  requested_name :: "string option"
  server_id :: "string option"

fun read_option :: "dopt \<Rightarrow> client_options \<Rightarrow> client_options" where
  "read_option (RequestedAddr a) o' = o'\<lparr>requested_ip := Some a\<rparr>"
| "read_option (HostnameOpt h) o' = o'\<lparr>requested_name := Some h\<rparr>"
| "read_option (ServerId i) o' = o'\<lparr>server_id := Some i\<rparr>"
| "read_option _ o' = o'"

definition read_options :: "packet \<Rightarrow> client_options" where
  "read_options p =
     (let none = \<lparr>requested_ip = None, requested_name = None, server_id = None\<rparr>
      in case dhcp_layer p of None \<Rightarrow> none | Some opts \<Rightarrow> fold read_option opts none)"

text \<open>Sending: the interface is looked up once more.\<close>

definition sendp :: "nics \<Rightarrow> exn + reply \<Rightarrow> ('s dhcp, reply option) py" where
  "sendp n r =
     py_bind (py_lift r) (\<lambda>x.
     py_bind (py_get server_ip) (\<lambda>sip.
     py_bind (py_lift (get_interface_for_ip n sip)) (\<lambda>_. py_return (Some x))))"

definition handle_dhcp_discover ::
  "'s etcd3 \<Rightarrow> nics \<Rightarrow> int \<Rightarrow> packet \<Rightarrow> ('s dhcp, reply option) py" where
  "handle_dhcp_discover e n now p =
     (let o' = read_options p in
      py_bind (get_or_create_lease e now (eth_src p) (requested_ip o') (requested_name o')) (\<lambda>r.
        case r of
          None \<Rightarrow> py_return None
        | Some (ip, hostname) \<Rightarrow>
            if ip = [] then py_return None
            else py_bind (py_get server_ip) (\<lambda>sip. sendp n (create_dhcp_offer n sip p ip hostname))))"

text \<open>The address a REQUEST asks for: option 50, or \<open>ciaddr\<close> on renewal.\<close>

definition asked_ip :: "packet \<Rightarrow> client_options \<Rightarrow> string option" where
  "asked_ip p o' =
     (let asked = (case requested_ip o' of Some [] \<Rightarrow> None | r \<Rightarrow> r)
      in case asked of
           Some ip \<Rightarrow> Some ip
         | None \<Rightarrow> (case bootp_layer p of
             Some b \<Rightarrow> if ciaddr b \<noteq> [] \<and> ciaddr b \<noteq> ''0.0.0.0'' then Some (ciaddr b) else requested_ip o'
           | None \<Rightarrow> requested_ip o'))"

text \<open>Whether the host name in a REQUEST asks for another allocation than the lease at hand.\<close>

definition wants_other :: "dict \<Rightarrow> string \<Rightarrow> exn + bool" where
  "wants_other d h =
     (if h \<in> set temporary_hostnames then Inr False
      else (case dict_item d ''ip'' of
              Inl x \<Rightarrow> Inl x
            | Inr current_ip \<Rightarrow>
                (let expected_ip = dhcp_determine_ip_from_hostname h
                 in Inr (lease_hostname d \<noteq> h
                      \<or> (case expected_ip of Some x \<Rightarrow> JStr x \<noteq> current_ip | None \<Rightarrow> False)))))"

definition reallocate ::
  "'s etcd3 \<Rightarrow> int \<Rightarrow> string \<Rightarrow> string \<Rightarrow> string option \<Rightarrow> string option \<Rightarrow> ('s dhcp, string option) py" where
  "reallocate e now mac ip asked name =
     py_seq (py_modify (drop_lease mac ip))
       (py_bind (get_or_create_lease e now mac asked name) (\<lambda>r.
         py_return (case r of Some (ip', _) \<Rightarrow> if ip' \<noteq> [] then Some ip' else asked | None \<Rightarrow> asked)))"

text \<open>The reallocation step of \<open>handle_dhcp_request\<close>: the address the reply is checked against.\<close>

definition maybe_reallocate ::
  "'s etcd3 \<Rightarrow> int \<Rightarrow> packet \<Rightarrow> client_options \<Rightarrow> ('s dhcp, string option) py" where
  "maybe_reallocate e now p o' =
     (let mac = eth_src p; asked = asked_ip p o' in
      py_bind (py_get (\<lambda>w. map_of (leases w) mac)) (\<lambda>l.
        case (requested_name o', l) of
          (Some h, Some d) \<Rightarrow>
            if h = [] then py_return asked
            else py_bind (py_lift (wants_other d h)) (\<lambda>other.
              if other
              then py_bind (py_lift (str_item d ''ip'')) (\<lambda>ip. reallocate e now mac ip asked (Some h))
              else py_return asked)
        | _ \<Rightarrow> py_return asked))"

definition answer_request :: "nics \<Rightarrow> packet \<Rightarrow> string option \<Rightarrow> ('s dhcp, reply option) py" where
  "answer_request n p asked =
     py_bind (py_get server_ip) (\<lambda>sip.
     py_bind (py_get (\<lambda>w. map_of (leases w) (eth_src p))) (\<lambda>l.
       case l of
         None \<Rightarrow> sendp n (create_dhcp_nak n sip p)
       | Some d \<Rightarrow>
           py_bind (py_lift (str_item d ''ip'')) (\<lambda>ip.
             if asked = Some ip then sendp n (create_dhcp_ack n sip p ip (lease_hostname d))
             else sendp n (create_dhcp_nak n sip p))))"

definition handle_dhcp_request ::
  "'s etcd3 \<Rightarrow> nics \<Rightarrow> int \<Rightarrow> packet \<Rightarrow> ('s dhcp, reply option) py" where
  "handle_dhcp_request e n now p =
     (let o' = read_options p in
      py_bind (py_get server_ip) (\<lambda>sip.
        if (case server_id o' of Some i \<Rightarrow> i \<noteq> [] \<and> i \<noteq> sip | None \<Rightarrow> False)
        then py_return None
        else py_bind (maybe_reallocate e now p o') (answer_request n p)))"

fun message_type :: "dopt list \<Rightarrow> int option" where
  "message_type [] = None"
| "message_type (MessageType t # rest) = Some t"
| "message_type (_ # rest) = message_type rest"

definition dhcp_packet_handler ::
  "'s etcd3 \<Rightarrow> nics \<Rightarrow> int \<Rightarrow> packet \<Rightarrow> ('s dhcp, reply option) py" where
  "dhcp_packet_handler e n now p =
     (case dhcp_layer p of
        None \<Rightarrow> py_return None
      | Some opts \<Rightarrow>
          (case message_type opts of
             Some t \<Rightarrow> if t = 1 then handle_dhcp_discover e n now p
                       else if t = 3 then handle_dhcp_request e n now p
                       else py_return None
           | None \<Rightarrow> py_return None))"

section \<open>Migration, loading and cleanup\<close>

text \<open>One entry of the migration loop: whether it was moved. Everything raised is logged and skipped.\<close>

definition migrate_entry :: "'s etcd3 \<Rightarrow> string \<times> blob \<Rightarrow> ('s, bool) py" where
  "migrate_entry e kb =
     (case kb of (old_key, b) \<Rightarrow>
        if \<not> blob_true b then py_return False
        else py_try
          (py_bind (py_lift (loads_dict b)) (\<lambda>d.
             if \<not> otruthy (map_of d ''mac'') then py_return False
             else py_bind (py_lift (str_item d ''mac'')) (\<lambda>m.
               let nmac = normalize_mac m; new_key = LEASES @ nmac
               in if last_part old_key = nmac then py_return False
                  else py_seq (e_put e new_key (Doc d))
                    (if old_key \<noteq> new_key then py_seq (e_delete e old_key) (py_return True)
                     else py_return False))))
          (\<lambda>_. py_return False))"

definition migrate_leases_to_normalized_mac :: "'s etcd3 \<Rightarrow> ('s, nat) py" where
  "migrate_leases_to_normalized_mac e =
     py_bind (dhcp_client e) (\<lambda>up.
       if \<not> up then py_return 0
       else py_try
         (py_bind (e_get_prefix e LEASES) (\<lambda>xs.
            py_fold (\<lambda>kb n. py_bind (migrate_entry e kb) (\<lambda>moved. py_return (if moved then Suc n else n))) xs 0))
         (\<lambda>_. py_return 0))"

text \<open>The fields a stored lease may lack.\<close>

definition dict_default :: "string \<Rightarrow> json \<Rightarrow> dict \<Rightarrow> dict" where
  "dict_default k v d = (if map_of d k = None then dict_set k v d else d)"

definition load_entry :: "int \<Rightarrow> string \<times> blob \<Rightarrow> ('s dhcp, unit) py" where
  "load_entry now kb =
     py_bind (py_lift (loads_dict (snd kb))) (\<lambda>d0.
     py_bind (py_lift (str_item d0 ''mac'')) (\<lambda>mac.
       let d = dict_default ''allocated_at'' (JStr (iso_naive now))
                 (dict_default ''hostname'' (JStr [])
                   (dict_default ''expires'' (JStr (iso_naive (lease_end now))) d0))
       in py_seq (py_modify (\<lambda>w. w\<lparr>leases := AList.update mac d (leases w)\<rparr>))
            (py_bind (py_lift (str_item d ''ip'')) (\<lambda>ip.
               py_modify (\<lambda>w. w\<lparr>allocated_ips := insert ip (allocated_ips w)\<rparr>)))))"

definition load_leases_from_etcd :: "'s etcd3 \<Rightarrow> int \<Rightarrow> ('s dhcp, unit) py" where
  "load_leases_from_etcd e now =
     py_bind (on_kv (dhcp_client e)) (\<lambda>up.
       if \<not> up then py_return ()
       else py_try (py_bind (on_kv (e_get_prefix e LEASES)) (\<lambda>xs. py_for xs (load_entry now)))
              (\<lambda>_. py_return ()))"

text \<open>The first loop of a cleanup pass, over the MACs of the table: leases without \<open>expires\<close> are
  completed and saved, the others sorted out by age.\<close>

fun cleanup_scan :: "'s etcd3 \<Rightarrow> int \<Rightarrow> string list \<Rightarrow> ('s dhcp, string list) py" where
  "cleanup_scan e now [] = py_return []"
| "cleanup_scan e now (mac # rest) =
     py_bind (py_get (\<lambda>w. map_of (leases w) mac)) (\<lambda>l.
       case l of
         None \<Rightarrow> cleanup_scan e now rest
       | Some d \<Rightarrow>
           if map_of d ''expires'' = None
           then py_bind (py_lift (dict_item d ''ip'')) (\<lambda>_.
             let d1 = dict_default ''allocated_at'' (JStr (iso_naive now))
                        (dict_default ''hostname'' (JStr [])
                          (dict_set ''expires'' (JStr (iso_naive (lease_end now))) d))
             in py_seq (py_modify (\<lambda>w. w\<lparr>leases := AList.update mac d1 (leases w)\<rparr>))
                  (py_seq (on_kv (save_lease_to_etcd e mac d1)) (cleanup_scan e now rest)))
           else py_bind (py_lift (expires_of d)) (\<lambda>expires.
                py_bind (cleanup_scan e now rest) (\<lambda>ms.
                  py_return (if expires \<le> now then mac # ms else ms))))"

definition expire_lease :: "string \<Rightarrow> ('s dhcp, unit) py" where
  "expire_lease mac =
     py_bind (py_get (\<lambda>w. map_of (leases w) mac)) (\<lambda>l.
       case l of
         None \<Rightarrow> py_raise (KeyError mac)
       | Some d \<Rightarrow> py_bind (py_lift (str_item d ''ip'')) (\<lambda>ip. py_modify (drop_lease mac ip)))"

text \<open>One pass; the result is the number of seconds the thread sleeps after it.\<close>

definition cleanup_pass :: "'s etcd3 \<Rightarrow> int \<Rightarrow> ('s dhcp, int) py" where
  "cleanup_pass e now =
     py_try
       (py_bind (py_get (\<lambda>w. map fst (leases w))) (\<lambda>macs.
        py_bind (cleanup_scan e now macs) (\<lambda>expired.
        py_seq (py_for expired expire_lease) (py_return 300))))
       (\<lambda>_. py_return 60)"

text \<open>The thread: passes at the given times while the server runs.\<close>

primrec cleanup_expired_leases :: "'s etcd3 \<Rightarrow> int list \<Rightarrow> ('s dhcp, unit) py" where
  "cleanup_expired_leases e [] = py_return ()"
| "cleanup_expired_leases e (now # later) =
     py_bind (py_get running) (\<lambda>r.
       if r then py_seq (cleanup_pass e now) (cleanup_expired_leases e later) else py_return ())"

section \<open>Start, stop and health\<close>

text \<open>\<open>get_server_ip\<close>: \<open>netplan\<close> is the outcome of reading the primary interface (its addresses, if
  it has any); the errors of the command and of the parser are caught, others are not.\<close>

definition get_server_ip :: "exn + string list option \<Rightarrow> string \<Rightarrow> exn + string" where
  "get_server_ip netplan hostname =
     (let fallback = (case dhcp_determine_ip_from_hostname hostname of
                        Some ip \<Rightarrow> Inr ip
                      | None \<Rightarrow> Inl (ValueError ''server IP''))
      in case netplan of
           Inr (Some (a # _)) \<Rightarrow> Inr (hd (split_on (CHR ''/'') a))
         | Inr _ \<Rightarrow> fallback
         | Inl (RuntimeError _) \<Rightarrow> fallback
         | Inl x \<Rightarrow> Inl x)"

definition new_server :: "string \<Rightarrow> 's \<Rightarrow> 's dhcp" where
  "new_server ip s = \<lparr>leases = [], allocated_ips = {}, server_ip = ip, running = False, kv = s\<rparr>"

text \<open>\<open>start\<close> up to the packet loop; its result is the interface it listens on.\<close>

definition start :: "'s etcd3 \<Rightarrow> nics \<Rightarrow> int \<Rightarrow> ('s dhcp, string) py" where
  "start e n now =
     py_seq (on_kv (migrate_leases_to_normalized_mac e))
       (py_seq (load_leases_from_etcd e now)
         (py_seq (py_modify (\<lambda>w. w\<lparr>running := True\<rparr>))
           (py_bind (py_get server_ip) (\<lambda>sip. py_lift (get_interface_for_ip n sip)))))"

definition stop :: "('s dhcp, unit) py" where
  "stop = py_modify (\<lambda>w. w\<lparr>running := False\<rparr>)"

definition health_data :: "'s etcd3 \<Rightarrow> int \<Rightarrow> ('s dhcp, int \<times> dict) py" where
  "health_data e now =
     py_bind (on_kv (dhcp_client e)) (\<lambda>up.
     py_bind (py_get (\<lambda>w. w)) (\<lambda>w.
       if running w \<and> up
       then py_return (200, [(''status'', JStr ''healthy''), (''timestamp'', JStr (iso_naive now)),
              (''etcd_connected'', JBool up), (''server_ip'', JStr (server_ip w))])
       else py_return (503, [(''status'', JStr ''unhealthy''), (''timestamp'', JStr (iso_naive now)),
              (''etcd_connected'', JBool up), (''dhcp_running'', JBool (running w))])))"

definition status_data :: "'s etcd3 \<Rightarrow> string list \<Rightarrow> int \<Rightarrow> ('s dhcp, int \<times> dict) py" where
  "status_data e hosts now =
     py_bind (on_kv (dhcp_client e)) (\<lambda>up.
     py_bind (py_get (\<lambda>w. w)) (\<lambda>w.
       py_return (200, [(''status'', JStr (if running w then ''running'' else ''stopped'')),
         (''timestamp'', JStr (iso_naive now)), (''server_ip'', JStr (server_ip w)),
         (''lease_count'', JInt (int (length (leases w)))),
         (''allocated_ips'', JInt (int (card (allocated_ips w)))),
         (''etcd_hosts'', JList (map JStr hosts)), (''etcd_connected'', JBool up)])))"

fun lease_rows :: "(string \<times> dict) list \<Rightarrow> exn + (string \<times> json) list" where
  "lease_rows [] = Inr []"
| "lease_rows ((mac, d) # rest) =
     (case (dict_item d ''ip'', dict_item d ''expires'') of
        (Inr ip, Inr ex) \<Rightarrow>
          (case lease_rows rest of
             Inl x \<Rightarrow> Inl x
           | Inr rows \<Rightarrow> Inr ((mac, JObj [(''ip'', ip),
               (''hostname'', case map_of d ''hostname'' of Some j \<Rightarrow> j | None \<Rightarrow> JStr []),
               (''expires'', ex),
               (''allocated_at'', case map_of d ''allocated_at'' of Some j \<Rightarrow> j | None \<Rightarrow> JStr [])]) # rows))
      | (Inl x, _) \<Rightarrow> Inl x
      | (_, Inl x) \<Rightarrow> Inl x)"

definition leases_data :: "int \<Rightarrow> ('s dhcp, int \<times> dict) py" where
  "leases_data now =
     py_bind (py_get leases) (\<lambda>ls.
     py_bind (py_lift (lease_rows ls)) (\<lambda>rows.
       py_return (200, [(''leases'', JObj rows), (''count'', JInt (int (length rows))),
         (''timestamp'', JStr (iso_naive now))])))"

text \<open>A gauge of the metrics page: help, type and the labelled value.\<close>

definition gauge :: "string \<Rightarrow> string \<Rightarrow> string \<Rightarrow> nat \<Rightarrow> string list" where
  "gauge sip name help v =
     [''# HELP '' @ name @ '' '' @ help, ''# TYPE '' @ name @ '' gauge'',
      name @ ''{server_ip=\"'' @ sip @ ''\"} '' @ nat_str v]"

definition generate_prometheus_metrics :: "'s etcd3 \<Rightarrow> ('s dhcp, string) py" where
  "generate_prometheus_metrics e =
     py_bind (on_kv (dhcp_client e)) (\<lambda>up.
     py_bind (py_get (\<lambda>w. w)) (\<lambda>w.
       let g = gauge (server_ip w); bit = (\<lambda>b. if b then 1 else 0) in
       py_return (join nl
         (g ''dhcp_server_up'' ''DHCP server running status'' (bit (running w))
          @ g ''dhcp_server_etcd_connected'' ''DHCP server etcd connection status'' (bit up)
          @ g ''dhcp_server_leases_total'' ''Total number of DHCP leases'' (length (leases w))
          @ g ''dhcp_server_allocated_ips_total'' ''Total number of allocated IP addresses'' (card (allocated_ips w))
          @ g ''dhcp_server_healthy'' ''Overall DHCP server health status'' (bit (running w \<and> up))) @ nl)))"

text \<open>The health server's routes: a JSON document, the metrics text or nothing found.\<close>

datatype page = JsonPage int dict | MetricsPage string | NotFound

definition do_GET :: "'s etcd3 \<Rightarrow> string list \<Rightarrow> int \<Rightarrow> string \<Rightarrow> ('s dhcp, page) py" where
  "do_GET e hosts now path =
     (if path = ''/metrics'' then py_bind (generate_prometheus_metrics e) (\<lambda>t. py_return (MetricsPage t))
      else if path = ''/health'' then py_bind (health_data e now) (\<lambda>(c, d). py_return (JsonPage c d))
      else if path = ''/status'' then py_bind (status_data e hosts now) (\<lambda>(c, d). py_return (JsonPage c d))
      else if path = ''/leases'' then py_bind (leases_data now) (\<lambda>(c, d). py_return (JsonPage c d))
      else py_return NotFound)"

section \<open>The registry under the whole server\<close>

lemma lease_key_outside [simp]: "outside_registry (LEASES @ k)"
  by (simp add: outside_registry_def startswith_iff LEASES_def BY_MAC_def BY_HOSTNAME_def)

lemma lease_prefix_outside: "startswith k LEASES \<Longrightarrow> outside_registry k"
  by (auto simp: startswith_iff [of k])

context registry_env
begin

abbreviation server_kept :: "'a \<Rightarrow> 's dhcp \<Rightarrow> bool" where
  "server_kept \<equiv> \<lambda>_ w. reg_inv (view (kv w))"

lemma wp_on_kv:
  assumes "wp m (\<lambda>x s'. Q x (w\<lparr>kv := s'\<rparr>)) (\<lambda>x s'. E x (w\<lparr>kv := s'\<rparr>)) (kv w)"
  shows "wp (on_kv m) Q E w"
  using assms by (simp add: wp_zoom)

lemma wp_dhcp_client_reg: "reg_inv (view s) \<Longrightarrow> wp (dhcp_client e) reg_kept reg_kept s"
  by (rule wp_dhcp_client_env) (blast intro: rely_reg)

lemma wp_save_lease_reg:
  assumes "reg_inv (view s)"
  shows "wp (save_lease_to_etcd e mac d) reg_kept reg_kept s"
  unfolding save_lease_to_etcd_def wp_bind
proof (rule wp_mono [OF wp_dhcp_client_reg [OF assms]])
  fix up s1 assume "reg_inv (view s1)"
  then have "wp (e_put e (LEASES @ normalize_mac mac) (Doc d)) reg_kept reg_kept s1"
    by (rule wp_put_reg) simp
  then have "wp (e_put e (LEASES @ normalize_mac mac) (Doc d))
      (\<lambda>_ s2. (case dict_item d ''ip'' of Inl a \<Rightarrow> reg_inv (view s2) | Inr b \<Rightarrow> reg_inv (view s2)))
      reg_kept s1"
    by (rule wp_mono) (auto split: sum.splits)
  then show "wp (if \<not> up then py_return False
      else py_try (py_seq (e_put e (LEASES @ normalize_mac mac) (Doc d))
        (py_bind (py_lift (dict_item d ''ip'')) (\<lambda>_. py_return True))) (\<lambda>_. py_return False)) reg_kept reg_kept s1"
    using \<open>reg_inv (view s1)\<close> by (simp add: wp_simps)
qed

lemma wp_create_lease_reg:
  assumes "reg_inv (view (kv w))"
  shows "wp (create_lease e now mac requested) server_kept server_kept w"
proof -
  have alloc: "wp (allocate_hostname_and_ip e ls now mac requested) reg_kept reg_kept (kv w)" for ls
    unfolding allocate_hostname_and_ip_def
    by (rule wp_mono [OF wp_allocate_tries_env [OF assms]]) auto
  have save: "wp (save_lease_to_etcd e mac d) reg_kept reg_kept s" if "reg_inv (view s)" for s d
    by (rule wp_save_lease_reg [OF that])
  show ?thesis
    unfolding create_lease_def wp_bind wp_get
    by (rule wp_on_kv, rule wp_mono [OF alloc])
      (auto simp: wp_simps Let_def add_lease_def save split: option.splits)
qed

lemma wp_get_or_create_reg:
  assumes "reg_inv (view (kv w))"
  shows "wp (get_or_create_lease e now mac ip requested) server_kept server_kept w"
  using assms wp_create_lease_reg [of "drop_lease mac i w" for i] wp_create_lease_reg [OF assms]
  by (auto simp: get_or_create_lease_def wp_simps drop_lease_def split: option.splits sum.splits)

lemma wp_sendp_reg: "reg_inv (view (kv w)) \<Longrightarrow> wp (sendp n r) server_kept server_kept w"
  by (auto simp: sendp_def wp_simps split: sum.splits)

lemma wp_discover_reg:
  assumes "reg_inv (view (kv w))"
  shows "wp (handle_dhcp_discover e n now p) server_kept server_kept w"
  unfolding handle_dhcp_discover_def Let_def wp_bind
  by (rule wp_mono [OF wp_get_or_create_reg [OF assms]])
    (auto simp: wp_simps wp_sendp_reg split: option.splits)

lemma wp_maybe_reallocate_reg:
  assumes "reg_inv (view (kv w))"
  shows "wp (maybe_reallocate e now p o') server_kept server_kept w"
proof -
  have "wp (reallocate e now mac i asked name) server_kept server_kept w" for mac i asked name
    unfolding reallocate_def wp_simps
    by (rule wp_get_or_create_reg) (simp add: drop_lease_def assms)
  then show ?thesis
    using assms by (auto simp: maybe_reallocate_def Let_def wp_simps split: option.splits sum.splits)
qed

lemma wp_request_reg:
  assumes "reg_inv (view (kv w))"
  shows "wp (handle_dhcp_request e n now p) server_kept server_kept w"
proof -
  have answer: "wp (answer_request n p a) server_kept server_kept w1" if "reg_inv (view (kv w1))" for a w1
    using that by (auto simp: answer_request_def wp_simps wp_sendp_reg split: option.splits sum.splits)
  have "wp (maybe_reallocate e now p (read_options p)) (\<lambda>x. wp (answer_request n p x) server_kept server_kept)
      server_kept w"
    by (rule wp_mono [OF wp_maybe_reallocate_reg [OF assms]]) (auto intro: answer)
  then show ?thesis
    using assms by (simp add: handle_dhcp_request_def Let_def wp_simps)
qed

lemma wp_packet_reg:
  assumes "reg_inv (view (kv w))"
  shows "wp (dhcp_packet_handler e n now p) server_kept server_kept w"
  using assms wp_discover_reg [OF assms] wp_request_reg [OF assms]
  by (auto simp: dhcp_packet_handler_def wp_simps split: option.splits)

lemma wp_cleanup_scan_reg:
  assumes "reg_inv (view (kv w))"
  shows "wp (cleanup_scan e now macs) server_kept server_kept w"
  using assms
proof (induction macs arbitrary: w)
  case Nil
  then show ?case by (simp add: wp_simps)
next
  case (Cons mac rest)
  have save: "wp (save_lease_to_etcd e mac d) (\<lambda>x s. wp (cleanup_scan e now rest) server_kept server_kept (w1\<lparr>kv := s\<rparr>))
      (\<lambda>x s. reg_inv (view s)) (kv w)" for d w1
    by (rule wp_mono [OF wp_save_lease_reg [OF Cons.prems]]) (auto intro: Cons.IH)
  have scan: "wp (cleanup_scan e now rest) server_kept server_kept w" by (rule Cons.IH [OF Cons.prems])
  show ?case
    using Cons.prems save scan
    by (auto simp: wp_simps Let_def split: option.splits sum.splits)
qed

lemma wp_cleanup_reg:
  assumes "reg_inv (view (kv w))"
  shows "wp (cleanup_pass e now) server_kept server_kept w"
proof -
  have expire: "wp (expire_lease m) server_kept server_kept w1" if "reg_inv (view (kv w1))" for m w1
    using that by (auto simp: expire_lease_def wp_simps drop_lease_def split: option.splits sum.splits)
  have "wp (py_for ms expire_lease) server_kept server_kept w1" if "reg_inv (view (kv w1))" for ms w1
    by (rule wp_for_invariant) (auto intro: expire that)
  then have "wp (cleanup_scan e now macs) (\<lambda>ms. wp (py_for ms expire_lease) server_kept server_kept) server_kept w" for macs
    by (intro wp_mono [OF wp_cleanup_scan_reg [OF assms]]) auto
  then show ?thesis by (simp add: cleanup_pass_def wp_simps)
qed

lemma wp_migrate_entry_reg:
  assumes "reg_inv (view s)" and "startswith k LEASES"
  shows "wp (migrate_entry e (k, b)) reg_kept reg_kept s"
proof -
  have "wp (e_delete e k) reg_kept reg_kept s1" if "reg_inv (view s1)" for s1
    by (rule wp_delete_reg [OF that lease_prefix_outside [OF assms(2)]])
  then have "wp (e_put e (LEASES @ m) (Doc d)) (\<lambda>_. wp (e_delete e k) reg_kept reg_kept) reg_kept s" for m d
    by (intro wp_mono [OF wp_put_reg [OF assms(1)]]) auto
  then show ?thesis
    using assms by (auto simp: migrate_entry_def wp_simps Let_def wp_put_reg split: sum.splits)
qed

lemma wp_migrate_reg:
  assumes "reg_inv (view s)"
  shows "wp (migrate_leases_to_normalized_mac e) reg_kept reg_kept s"
  unfolding migrate_leases_to_normalized_mac_def wp_bind
proof (rule wp_mono [OF wp_dhcp_client_reg [OF assms]])
  fix up s1 assume inv: "reg_inv (view s1)"
  let ?step = "\<lambda>kb n. py_bind (migrate_entry e kb) (\<lambda>moved. py_return (if moved then Suc n else n))"
  have "wp (e_get_prefix e LEASES) (\<lambda>xs. wp (py_fold ?step xs 0) reg_kept reg_kept) reg_kept s1"
  proof (rule wp_prefix_env)
    fix xs s2 assume "rely (view s1) (view s2)" and xs: "prefix_list (view s2) LEASES xs"
    then have "reg_inv (view s2)" using inv rely_reg by blast
    moreover have "startswith (fst kb) LEASES" if "kb \<in> set xs" for kb
      using that xs by (auto simp: prefix_list_def)
    ultimately show "wp (py_fold ?step xs 0) reg_kept reg_kept s2"
      by (intro wp_fold_invariant) (auto simp: wp_simps intro: wp_migrate_entry_reg)
  qed (use inv rely_reg in blast)
  with inv show "wp (if \<not> up then py_return 0
      else py_try (py_bind (e_get_prefix e LEASES) (\<lambda>xs. py_fold ?step xs 0)) (\<lambda>_. py_return 0))
      reg_kept reg_kept s1"
    by (simp add: wp_simps)
qed

lemma wp_start_reg:
  assumes "reg_inv (view (kv w))"
  shows "wp (start e n now) server_kept server_kept w"
proof -
  have entry: "wp (load_entry now kb) server_kept server_kept w1" if "reg_inv (view (kv w1))" for kb w1
    using that by (auto simp: load_entry_def wp_simps Let_def split: sum.splits)
  have loop: "wp (py_for xs (load_entry now)) server_kept server_kept w1" if "reg_inv (view (kv w1))" for xs w1
    by (rule wp_for_invariant) (auto intro: entry that)
  have pre: "wp (e_get_prefix e LEASES) (\<lambda>xs s. wp (py_for xs (load_entry now)) server_kept server_kept (w1\<lparr>kv := s\<rparr>))
      (\<lambda>x s. reg_inv (view s)) s1" if "reg_inv (view s1)" for w1 s1
    by (rule wp_prefix_env) (use that rely_reg loop in \<open>auto\<close>)
  have load: "wp (load_leases_from_etcd e now) server_kept server_kept w1" if "reg_inv (view (kv w1))" for w1
    unfolding load_leases_from_etcd_def wp_bind
    by (rule wp_on_kv, rule wp_mono [OF wp_dhcp_client_reg [OF that]]) (auto simp: wp_simps pre)
  have "wp (load_leases_from_etcd e now)
      (\<lambda>_. wp (py_seq (py_modify (\<lambda>w. w\<lparr>running := True\<rparr>))
           (py_bind (py_get server_ip) (\<lambda>sip. py_lift (get_interface_for_ip n sip)))) server_kept server_kept)
      server_kept w1" if "reg_inv (view (kv w1))" for w1
    by (rule wp_mono [OF load [OF that]]) (auto simp: wp_simps split: sum.splits)
  then show ?thesis
    unfolding start_def wp_seq [of "on_kv _"]
    by (intro wp_on_kv wp_mono [OF wp_migrate_reg [OF assms]]) (auto simp: wp_seq)
qed

end

section \<open>The lease table\<close>

text \<open>Keys are unique, and every lease carries the MAC address it is filed under.\<close>

definition lease_inv :: "'s dhcp \<Rightarrow> bool" where
  "lease_inv w = (distinct (map fst (leases w))
     \<and> (\<forall>m d. map_of (leases w) m = Some d \<longrightarrow> map_of d ''mac'' = Some (JStr m)))"

lemma lease_inv_kv [simp]: "lease_inv (w\<lparr>kv := s\<rparr>) = lease_inv w"
  by (simp add: lease_inv_def)

lemma lease_inv_drop: "lease_inv w \<Longrightarrow> lease_inv (drop_lease m i w)"
  by (auto simp: lease_inv_def drop_lease_def distinct_delete split: if_splits)

lemma lease_inv_update:
  "lease_inv w \<Longrightarrow> map_of d ''mac'' = Some (JStr m) \<Longrightarrow> lease_inv (w\<lparr>leases := AList.update m d (leases w)\<rparr>)"
  by (auto simp: lease_inv_def distinct_update split: if_splits)

lemma dict_default_other: "k \<noteq> k' \<Longrightarrow> map_of (dict_default k v d) k' = map_of d k'"
  by (simp add: dict_default_def)

lemma keeps_create_lease: "keeps lease_inv (create_lease e now mac requested)"
proof -
  have "lease_inv (add_lease mac (lease_doc mac ip h now) ip w)" if "lease_inv w" for w :: "'s dhcp" and ip h
    using lease_inv_update [OF that, of "lease_doc mac ip h now" mac]
    by (simp add: add_lease_def lease_doc_def lease_inv_def)
  then show ?thesis
    by (auto simp: create_lease_def Let_def intro!: keeps_intros split: option.splits)
qed

lemma keeps_get_or_create: "keeps lease_inv (get_or_create_lease e now mac ip requested)"
  by (auto simp: get_or_create_lease_def keeps_create_lease lease_inv_drop
      intro!: keeps_intros split: option.splits)

lemma keeps_sendp: "keeps I (sendp n r)"
  by (auto simp: sendp_def intro!: keeps_intros)

lemma keeps_packet: "keeps lease_inv (dhcp_packet_handler e n now p)"
  by (auto simp: dhcp_packet_handler_def handle_dhcp_discover_def handle_dhcp_request_def maybe_reallocate_def
      reallocate_def answer_request_def Let_def keeps_get_or_create keeps_sendp lease_inv_drop
      intro!: keeps_intros split: option.splits)

lemma keeps_load: "keeps lease_inv (load_leases_from_etcd e now)"
proof -
  have "keeps lease_inv (load_entry now kb)" for kb :: "string \<times> blob"
    by (rule keepsI)
      (auto simp: load_entry_def wp_simps Let_def lease_inv_def distinct_update dict_default_other
        split: sum.splits if_splits)
  then show ?thesis
    by (auto simp: load_leases_from_etcd_def intro!: keeps_intros)
qed

lemma keeps_cleanup_scan: "keeps lease_inv (cleanup_scan e now macs)"
proof (induction macs)
  case (Cons mac rest)
  show ?case
  proof (rule keepsI)
    fix w :: "'a dhcp" assume w: "lease_inv w"
    have upd: "lease_inv (w\<lparr>leases := AList.update mac (dict_default ''allocated_at'' a
        (dict_default ''hostname'' b (dict_set ''expires'' c d))) (leases w)\<rparr>)"
      if "map_of (leases w) mac = Some d" for a b c d
      using w that by (intro lease_inv_update) (auto simp: lease_inv_def dict_default_other)
    have save: "wp (save_lease_to_etcd e mac d) (\<lambda>x s. wp (cleanup_scan e now rest) (\<lambda>_. lease_inv) (\<lambda>_. lease_inv) (w1\<lparr>kv := s\<rparr>))
      (\<lambda>x s. lease_inv w1) s0" if "lease_inv w1" for d w1 s0
      using keepsD [OF Cons.IH, of "w1\<lparr>kv := s\<rparr>" for s] that
      by (auto simp: wp_def split: prod.splits sum.splits)
    show "wp (cleanup_scan e now (mac # rest)) (\<lambda>_. lease_inv) (\<lambda>_. lease_inv) w"
      using w keepsD [OF Cons.IH w] upd save
      by (auto simp: wp_simps Let_def split: option.splits sum.splits)
  qed
qed simp

lemma keeps_cleanup: "keeps lease_inv (cleanup_pass e now)"
  by (auto simp: cleanup_pass_def expire_lease_def keeps_cleanup_scan lease_inv_drop
      intro!: keeps_intros split: option.splits)

lemma keeps_start: "keeps lease_inv (start e n now)"
  by (auto simp: start_def keeps_load intro!: keeps_intros) (simp_all add: lease_inv_def)

section \<open>The server as a state machine\<close>

text \<open>What can happen to a server: a packet arrives, the cleanup thread makes a pass, it is stopped,
  or a new process takes over the same store (failover or restart) at some address.\<close>

inductive server_step :: "'s etcd3 \<Rightarrow> nics \<Rightarrow> 's dhcp \<Rightarrow> 's dhcp \<Rightarrow> bool" for e n where
  packet: "dhcp_packet_handler e n now p w = (r, w') \<Longrightarrow> server_step e n w w'"
| cleanup: "cleanup_pass e now w = (c, w') \<Longrightarrow> server_step e n w w'"
| stopped: "stop w = (u, w') \<Longrightarrow> server_step e n w w'"
| restart: "start e n now (new_server ip (kv w)) = (i, w') \<Longrightarrow> server_step e n w w'"

lemma lease_inv_step: "server_step e n w w' \<Longrightarrow> lease_inv w \<Longrightarrow> lease_inv w'"
proof (induction rule: server_step.induct)
  case (packet now p w r w')
  then show ?case by (blast intro: keeps_run [OF keeps_packet])
next
  case (cleanup now w c w')
  then show ?case by (blast intro: keeps_run [OF keeps_cleanup])
next
  case (stopped w u w')
  then show ?case by (auto simp: stop_def py_modify_def lease_inv_def)
next
  case (restart now ip w i w')
  have "lease_inv (new_server ip (kv w))" by (simp add: lease_inv_def new_server_def)
  with restart show ?case by (blast intro: keeps_run [OF keeps_start])
qed

context registry_env
begin

lemma reg_step: "server_step e n w w' \<Longrightarrow> reg_inv (view (kv w)) \<Longrightarrow> reg_inv (view (kv w'))"
proof (induction rule: server_step.induct)
  case (packet now p w r w')
  then show ?case using wp_packet_reg [of w n now p] by (auto simp: wp_def split: sum.splits)
next
  case (cleanup now w c w')
  then show ?case using wp_cleanup_reg [of w now] by (auto simp: wp_def split: sum.splits)
next
  case (stopped w u w')
  then show ?case by (auto simp: stop_def py_modify_def)
next
  case (restart now ip w i w')
  then show ?case using wp_start_reg [of "new_server ip (kv w)" n now]
    by (auto simp: wp_def new_server_def split: sum.splits)
qed

end

section \<open>Replies and leases\<close>

text \<open>A reply is addressed to the client; one with an address carries the address of the client's
  lease, one without is a NAK.\<close>

definition reply_ok :: "packet \<Rightarrow> reply \<Rightarrow> 's dhcp \<Rightarrow> bool" where
  "reply_ok p r w =
     (eth_dst r = eth_src p \<and> ip_src r = server_ip w
      \<and> (case yiaddr r of
           Some ip \<Rightarrow> (\<exists>d. map_of (leases w) (eth_src p) = Some d \<and> map_of d ''ip'' = Some (JStr ip)
                        \<and> (r_options r = build_dhcp_options (server_ip w) 2 (lease_hostname d)
                           \<or> r_options r = build_dhcp_options (server_ip w) 5 (lease_hostname d)))
         | None \<Rightarrow> RNum ''message-type'' 6 \<in> set (r_options r)))"

lemma boot_reply_Inr:
  "boot_reply n sip p yi si opts = Inr r \<Longrightarrow>
     eth_dst r = eth_src p \<and> ip_src r = sip \<and> yiaddr r = yi \<and> r_options r = opts"
  by (auto simp: boot_reply_def split: sum.splits option.splits)

lemma create_lease_post:
  "wp (create_lease e now mac requested)
     (\<lambda>r w'. server_ip w' = server_ip w \<and> (\<forall>ip h. r = Some (ip, h) \<longrightarrow>
        ip \<noteq> [] \<and> map_of (leases w') mac = Some (lease_doc mac ip h now))) (\<lambda>_ _. True) w"
  by (auto simp: wp_def py_defs create_lease_def add_lease_def Let_def
      split: prod.splits sum.splits option.splits)

lemma map_of_lease_doc:
  "map_of (lease_doc mac ip h now) ''ip'' = Some (JStr ip)"
  "map_of (lease_doc mac ip h now) ''mac'' = Some (JStr mac)"
  by (simp_all add: lease_doc_def)

lemma lease_hostname_doc [simp]: "lease_hostname (lease_doc mac ip h now) = h"
  by (simp add: lease_hostname_def lease_doc_def get_str_def)

lemma get_or_create_post:
  "wp (get_or_create_lease e now mac ip requested)
     (\<lambda>r w'. server_ip w' = server_ip w \<and> (\<forall>ip h. r = Some (ip, h) \<longrightarrow>
        (\<exists>d. map_of (leases w') mac = Some d \<and> map_of d ''ip'' = Some (JStr ip) \<and> lease_hostname d = h)))
     (\<lambda>_ _. True) w"
proof -
  have new: "wp (create_lease e now mac requested)
     (\<lambda>r w'. server_ip w' = server_ip w \<and> (\<forall>ip h. r = Some (ip, h) \<longrightarrow>
        (\<exists>d. map_of (leases w') mac = Some d \<and> map_of d ''ip'' = Some (JStr ip) \<and> lease_hostname d = h)))
     (\<lambda>_ _. True) w1" if "server_ip w1 = server_ip w" for w1
    by (rule wp_mono [OF create_lease_post]) (use that in \<open>auto simp: lease_doc_def lease_hostname_def get_str_def\<close>)
  show ?thesis
    using new [of w] new [of "drop_lease mac i w" for i]
    by (auto simp: get_or_create_lease_def wp_simps drop_lease_def split: option.splits sum.splits)
qed

lemma wp_sendp:
  "wp (sendp n r) Q (\<lambda>_ _. True) w" if "\<And>x. r = Inr x \<Longrightarrow> Q (Some x) w"
  using that by (auto simp: sendp_def wp_simps split: sum.splits)

lemma discover_reply:
  "wp (handle_dhcp_discover e n now p) (\<lambda>r w'. \<forall>x. r = Some x \<longrightarrow> reply_ok p x w') (\<lambda>_ _. True) w"
  unfolding handle_dhcp_discover_def Let_def wp_bind
  by (rule wp_mono [OF get_or_create_post])
    (auto simp: wp_simps reply_ok_def create_dhcp_offer_def split: option.splits
      intro!: wp_sendp dest!: boot_reply_Inr)

lemma answer_reply:
  "wp (answer_request n p a) (\<lambda>r w'. \<forall>x. r = Some x \<longrightarrow> reply_ok p x w') (\<lambda>_ _. True) w"
  by (auto simp: answer_request_def wp_simps reply_ok_def create_dhcp_ack_def create_dhcp_nak_def
      split: option.splits sum.splits intro!: wp_sendp dest!: boot_reply_Inr)

lemma wp_any: "wp m (\<lambda>_ _. True) (\<lambda>_ _. True) w"
  by (simp add: wp_def split: prod.splits sum.splits)

lemma request_reply:
  "wp (handle_dhcp_request e n now p) (\<lambda>r w'. \<forall>x. r = Some x \<longrightarrow> reply_ok p x w') (\<lambda>_ _. True) w"
  by (auto simp: handle_dhcp_request_def Let_def wp_simps intro: wp_mono [OF wp_any] answer_reply)

lemma packet_reply:
  "wp (dhcp_packet_handler e n now p) (\<lambda>r w'. \<forall>x. r = Some x \<longrightarrow> reply_ok p x w') (\<lambda>_ _. True) w"
  using discover_reply [of e n now p w] request_reply [of e n now p w]
  by (auto simp: dhcp_packet_handler_def wp_simps split: option.splits)

section \<open>Cleanup\<close>

text \<open>A lease as the server writes it: with an address and a readable expiry.\<close>

definition lease_wf :: "dict \<Rightarrow> bool" where
  "lease_wf d = ((\<exists>ip. map_of d ''ip'' = Some (JStr ip)) \<and> (\<exists>t. expires_of d = Inr t))"

definition expired :: "int \<Rightarrow> dict \<Rightarrow> bool" where
  "expired now d = (\<forall>t. expires_of d = Inr t \<longrightarrow> t \<le> now)"

lemma lease_wf_expires: "lease_wf d \<Longrightarrow> map_of d ''expires'' \<noteq> None"
  by (auto simp: lease_wf_def expires_of_def str_item_def split: option.splits)

lemma cleanup_scan_wf:
  assumes "\<And>m. m \<in> set macs \<Longrightarrow> \<exists>d. map_of (leases w) m = Some d \<and> lease_wf d"
  shows "cleanup_scan e now macs w = (Inr (filter (\<lambda>m. expired now (the (map_of (leases w) m))) macs), w)"
  using assms
proof (induction macs)
  case (Cons m ms)
  from Cons.prems [of m] obtain d where d: "map_of (leases w) m = Some d" "lease_wf d" by auto
  then obtain t where "expires_of d = Inr t" by (auto simp: lease_wf_def)
  with d Cons lease_wf_expires [OF \<open>lease_wf d\<close>] show ?case
    by (auto simp: py_defs expired_def)
qed (simp add: py_defs)

lemma expire_leases:
  assumes "distinct ms" and "\<And>m. m \<in> set ms \<Longrightarrow> \<exists>d. map_of (leases w) m = Some d \<and> lease_wf d"
  shows "\<exists>ips. py_for ms expire_lease w =
    (Inr (), w\<lparr>leases := filter (\<lambda>(m, d). m \<notin> set ms) (leases w), allocated_ips := allocated_ips w - ips\<rparr>)"
  using assms
proof (induction ms arbitrary: w)
  case Nil
  have "w = w\<lparr>leases := leases w, allocated_ips := allocated_ips w - {}\<rparr>" by simp
  then show ?case by (auto simp: py_defs case_prod_beta intro!: exI [of _ "{}"])
next
  case (Cons m ms)
  from Cons.prems(2) [of m] obtain d where "map_of (leases w) m = Some d" "lease_wf d" by auto
  then obtain ip where d: "map_of (leases w) m = Some d" "map_of d ''ip'' = Some (JStr ip)"
    by (auto simp: lease_wf_def)
  have "\<exists>ips. py_for ms expire_lease (drop_lease m ip w) = (Inr (), (drop_lease m ip w)
      \<lparr>leases := filter (\<lambda>(m, d). m \<notin> set ms) (leases (drop_lease m ip w)),
       allocated_ips := allocated_ips (drop_lease m ip w) - ips\<rparr>)"
    by (rule Cons.IH) (use Cons.prems in \<open>auto simp: drop_lease_def\<close>)
  then obtain ips where "py_for ms expire_lease (drop_lease m ip w) = (Inr (), (drop_lease m ip w)
      \<lparr>leases := filter (\<lambda>(m, d). m \<notin> set ms) (leases (drop_lease m ip w)),
       allocated_ips := allocated_ips (drop_lease m ip w) - ips\<rparr>)" by blast
  moreover have "expire_lease m w = (Inr (), drop_lease m ip w)"
    using d by (simp add: py_defs expire_lease_def str_item_def)
  moreover have "filter (\<lambda>(m, d). m \<notin> set ms) (AList.delete m (leases w))
      = filter (\<lambda>(k, d). k \<notin> set (m # ms)) (leases w)"
    by (auto simp: AList.delete_eq filter_filter case_prod_beta intro: filter_cong)
  ultimately show ?case
    by (auto simp: py_seq_def py_bind_def drop_lease_def Diff_insert2 [symmetric] simp del: filter.simps
        intro!: exI [of _ "insert ip ips"])
qed

section \<open>Properties\<close>

text \<open>C3: whatever packets arrive, whenever the cleanup thread runs and however often the process is
  stopped, restarted or replaced on another node, the server keeps the node registry a one-to-one
  correspondence, with other allocators writing at the same time and calls failing anywhere.\<close>

theorem dhcp_server_keeps_registry:
  assumes "registry_env e view rely" and "reg_inv (view (kv w))" and "(server_step e n)\<^sup>*\<^sup>* w w'"
  shows "reg_inv (view (kv w'))"
  using assms(3,2)
  by (induction rule: rtranclp_induct) (blast intro: registry_env.reg_step [OF assms(1)])+

definition sample_nics :: nics where
  "sample_nics = \<lparr>ifaces = [(''lo'', [''127.0.0.1'']), (''eth0'', [''10.0.0.11''])], if_hwaddr = \<lambda>_. ''02:00:00:00:00:11''\<rparr>"

definition sample_packet :: "dopt list \<Rightarrow> packet" where
  "sample_packet opts = \<lparr>eth_src = ''AA:BB'', dhcp_layer = Some opts,
     bootp_layer = Some \<lparr>ciaddr = ''0.0.0.0'', xid = 7, chaddr = ''aabb''\<rparr>\<rparr>"

definition empty_mem :: mem where
  "empty_mem = \<lparr>mem_data = [], mem_rev = 0\<rparr>"

theorem dhcp_server_keeps_registry_witness:
  "reg_inv (script_view (kv (snd (dhcp_packet_handler script_etcd sample_nics 0
      (sample_packet [MessageType 1]) (new_server ''10.0.0.11'' rival_start)))))"
proof -
  have "reg_inv (script_view (kv (new_server ''10.0.0.11'' rival_start)))"
    by (simp add: new_server_def rival_start_def script_view_def mem_view_def reg_inv_empty)
  then show ?thesis
    by (rule dhcp_server_keeps_registry [OF scriptreg.registry_env_axioms])
      (rule r_into_rtranclp, rule server_step.packet, rule prod.collapse [symmetric])
qed

text \<open>In every state a server can reach, the MAC addresses of the lease table are distinct and
  every lease carries the address it is filed under. Nothing is assumed of etcd.\<close>

theorem lease_table_invariant:
  assumes "(server_step e n)\<^sup>*\<^sup>* (new_server ip s) w"
  shows "distinct (map fst (leases w)) \<and>
    (\<forall>m d. map_of (leases w) m = Some d \<longrightarrow> map_of d ''mac'' = Some (JStr m))"
proof -
  have "lease_inv (new_server ip s)" by (simp add: lease_inv_def new_server_def)
  with assms have "lease_inv w"
    by (induction rule: rtranclp_induct) (blast intro: lease_inv_step)+
  then show ?thesis by (simp add: lease_inv_def)
qed

theorem lease_table_invariant_witness:
  "map_of (leases (snd (dhcp_packet_handler mem_etcd sample_nics 0 (sample_packet [MessageType 1])
       (new_server ''10.0.0.11'' empty_mem)))) ''AA:BB'' \<noteq> None \<and>
   distinct (map fst (leases (snd (dhcp_packet_handler mem_etcd sample_nics 0 (sample_packet [MessageType 1])
       (new_server ''10.0.0.11'' empty_mem)))))"
proof
  show "map_of (leases (snd (dhcp_packet_handler mem_etcd sample_nics 0 (sample_packet [MessageType 1])
       (new_server ''10.0.0.11'' empty_mem)))) ''AA:BB'' \<noteq> None" by code_simp
  have "(server_step mem_etcd sample_nics)\<^sup>*\<^sup>* (new_server ''10.0.0.11'' empty_mem)
      (snd (dhcp_packet_handler mem_etcd sample_nics 0 (sample_packet [MessageType 1]) (new_server ''10.0.0.11'' empty_mem)))"
    by (rule r_into_rtranclp, rule server_step.packet, rule prod.collapse [symmetric])
  from lease_table_invariant [OF this]
  show "distinct (map fst (leases (snd (dhcp_packet_handler mem_etcd sample_nics 0 (sample_packet [MessageType 1])
       (new_server ''10.0.0.11'' empty_mem)))))" ..
qed

text \<open>C15: every packet the server sends is addressed to the client that asked; when it carries an
  address, as an OFFER or an ACK, that is the address of the client's lease in the table at that
  moment, and otherwise it is a NAK.\<close>

theorem reply_carries_lease:
  assumes "dhcp_packet_handler e n now p w = (Inr (Some r), w')"
  shows "reply_ok p r w'"
  using wp_Inr [OF packet_reply assms] by simp

theorem reply_carries_lease_witness:
  "\<exists>r. fst (dhcp_packet_handler mem_etcd sample_nics 0 (sample_packet [MessageType 1])
      (new_server ''10.0.0.11'' empty_mem)) = Inr (Some r) \<and> yiaddr r = Some ''10.0.0.200'' \<and>
    reply_ok (sample_packet [MessageType 1]) r (snd (dhcp_packet_handler mem_etcd sample_nics 0
      (sample_packet [MessageType 1]) (new_server ''10.0.0.11'' empty_mem)))"
proof -
  let ?run = "dhcp_packet_handler mem_etcd sample_nics 0 (sample_packet [MessageType 1]) (new_server ''10.0.0.11'' empty_mem)"
  have "(case fst ?run of Inr (Some r) \<Rightarrow> yiaddr r = Some ''10.0.0.200'' | _ \<Rightarrow> False)" by code_simp
  then obtain r where r: "fst ?run = Inr (Some r)" "yiaddr r = Some ''10.0.0.200''"
    by (auto split: sum.splits option.splits)
  then have "?run = (Inr (Some r), snd ?run)" by (metis prod.collapse)
  from reply_carries_lease [OF this] r show ?thesis by blast
qed

text \<open>A client with an unexpired lease that names no other host (no name, its own, or one of the
  installer's temporary names) is offered the lease it has, and the server's state is unchanged.\<close>

theorem valid_lease_is_kept:
  assumes "map_of (leases w) mac = Some d" and "map_of d ''ip'' = Some (JStr ip)"
    and "expires_of d = Inr t" and "now < t"
    and "requested = None \<or> requested = Some (lease_hostname d) \<or> (\<exists>h \<in> set temporary_hostnames. requested = Some h)"
  shows "get_or_create_lease e now mac rip requested w = (Inr (Some (ip, lease_hostname d)), w)"
  using assms by (auto simp: get_or_create_lease_def py_defs str_item_def split: option.splits)

theorem valid_lease_is_kept_witness:
  "get_or_create_lease mem_etcd 1000 ''AA:BB'' None (Some ''ubuntu-server'')
     ((new_server ''10.0.0.11'' empty_mem)\<lparr>leases := [(''AA:BB'', lease_doc ''AA:BB'' ''10.0.0.200'' ''dhcp-200'' 0)]\<rparr>)
   = (Inr (Some (''10.0.0.200'', ''dhcp-200'')),
      (new_server ''10.0.0.11'' empty_mem)\<lparr>leases := [(''AA:BB'', lease_doc ''AA:BB'' ''10.0.0.200'' ''dhcp-200'' 0)]\<rparr>)"
proof -
  have "expires_of (lease_doc ''AA:BB'' ''10.0.0.200'' ''dhcp-200'' 0) = Inr 43200000000" by code_simp
  then show ?thesis
    using valid_lease_is_kept [of "(new_server ''10.0.0.11'' empty_mem)\<lparr>leases :=
        [(''AA:BB'', lease_doc ''AA:BB'' ''10.0.0.200'' ''dhcp-200'' 0)]\<rparr>" "''AA:BB''"
        "lease_doc ''AA:BB'' ''10.0.0.200'' ''dhcp-200'' 0" "''10.0.0.200''" 43200000000 1000
        "Some ''ubuntu-server''" mem_etcd None]
    by (simp add: map_of_lease_doc temporary_hostnames_def)
qed

text \<open>A cleanup pass over well-formed leases drops exactly the expired ones, keeps the order and
  content of the others, and writes nothing to etcd.\<close>

theorem cleanup_removes_expired:
  assumes "distinct (map fst (leases w))" and "\<forall>(m, d) \<in> set (leases w). lease_wf d"
  shows "\<exists>ips. cleanup_pass e now w = (Inr 300, w\<lparr>leases := filter (\<lambda>(m, d). \<not> expired now d) (leases w),
     allocated_ips := allocated_ips w - ips\<rparr>)"
proof -
  let ?macs = "map fst (leases w)"
  let ?ms = "filter (\<lambda>m. expired now (the (map_of (leases w) m))) ?macs"
  have wf: "\<exists>d. map_of (leases w) m = Some d \<and> lease_wf d" if "m \<in> set ?macs" for m
    using that assms by (force simp: map_of_eq_Some_iff)
  have scan: "cleanup_scan e now ?macs w = (Inr ?ms, w)"
    by (rule cleanup_scan_wf) (rule wf)
  have "\<exists>ips. py_for ?ms expire_lease w =
    (Inr (), w\<lparr>leases := filter (\<lambda>(m, d). m \<notin> set ?ms) (leases w), allocated_ips := allocated_ips w - ips\<rparr>)"
    by (rule expire_leases) (use assms(1) wf in auto)
  moreover have "filter (\<lambda>(m, d). m \<notin> set ?ms) (leases w) = filter (\<lambda>(m, d). \<not> expired now d) (leases w)"
  proof (rule filter_cong [OF refl])
    fix x assume x: "x \<in> set (leases w)"
    obtain m d where "x = (m, d)" by (cases x)
    with x assms(1) have "map_of (leases w) m = Some d" by (simp add: map_of_eq_Some_iff)
    with x \<open>x = (m, d)\<close> show "(case x of (m, d) \<Rightarrow> m \<notin> set ?ms) = (case x of (m, d) \<Rightarrow> \<not> expired now d)"
      by (auto intro: image_eqI [of _ fst "(m, d)"])
  qed
  ultimately show ?thesis
    by (auto simp: cleanup_pass_def py_try_def py_bind_def py_get_def scan py_seq_def py_return_def)
qed

theorem cleanup_removes_expired_witness:
  "\<exists>ips. cleanup_pass mem_etcd 43200000000
     ((new_server ''10.0.0.11'' empty_mem)\<lparr>leases := [(''a'', lease_doc ''a'' ''10.0.0.200'' ''dhcp-200'' 0),
        (''b'', lease_doc ''b'' ''10.0.0.201'' ''dhcp-201'' 1)]\<rparr>) =
   (Inr 300, (new_server ''10.0.0.11'' empty_mem)
      \<lparr>leases := [(''b'', lease_doc ''b'' ''10.0.0.201'' ''dhcp-201'' 1)], allocated_ips := {} - ips\<rparr>)"
proof -
  let ?w = "(new_server ''10.0.0.11'' empty_mem)\<lparr>leases := [(''a'', lease_doc ''a'' ''10.0.0.200'' ''dhcp-200'' 0),
        (''b'', lease_doc ''b'' ''10.0.0.201'' ''dhcp-201'' 1)]\<rparr>"
  have ex: "expires_of (lease_doc ''a'' ''10.0.0.200'' ''dhcp-200'' 0) = Inr 43200000000"
    "expires_of (lease_doc ''b'' ''10.0.0.201'' ''dhcp-201'' 1) = Inr 43200000001" by code_simp+
  have "\<forall>(m, d) \<in> set (leases ?w). lease_wf d"
    using ex by (simp add: lease_wf_def map_of_lease_doc)
  moreover have "distinct (map fst (leases ?w))" by simp
  ultimately obtain ips where "cleanup_pass mem_etcd 43200000000 ?w = (Inr 300, ?w\<lparr>leases :=
      filter (\<lambda>(m, d). \<not> expired 43200000000 d) (leases ?w), allocated_ips := allocated_ips ?w - ips\<rparr>)"
    using cleanup_removes_expired [of ?w mem_etcd 43200000000] by blast
  then show ?thesis using ex by (auto simp: expired_def new_server_def)
qed

text \<open>Renewing a lease does not prolong it. A REQUEST without a host name for the leased address is
  acknowledged with a lease time of twelve hours, whatever the clock says, and leaves the table
  as it was, the expiry included: the next cleanup pass after the original expiry drops a lease
  the client holds, and its following renewal is refused.\<close>

theorem renewal_keeps_old_expiry:
  assumes "requested_name (read_options p) = None" and "server_id (read_options p) = None"
    and "map_of (leases w) (eth_src p) = Some d" and "map_of d ''ip'' = Some (JStr ip)"
    and "asked_ip p (read_options p) = Some ip"
    and "get_interface_for_ip n (server_ip w) = Inr i" and "bootp_layer p = Some b"
  shows "\<exists>r. handle_dhcp_request e n now p w = (Inr (Some r), w) \<and> yiaddr r = Some ip
    \<and> RNum ''message-type'' 5 \<in> set (r_options r) \<and> RNum ''lease_time'' 43200 \<in> set (r_options r)"
  using assms
  by (simp add: handle_dhcp_request_def maybe_reallocate_def answer_request_def sendp_def create_dhcp_ack_def
      boot_reply_def Let_def py_defs str_item_def build_dhcp_options_def LEASE_TIME_def)

theorem renewal_keeps_old_expiry_witness:
  "\<exists>r. handle_dhcp_request mem_etcd sample_nics 43200000000 (sample_packet [MessageType 3, RequestedAddr ''10.0.0.200''])
      ((new_server ''10.0.0.11'' empty_mem)\<lparr>leases := [(''AA:BB'', lease_doc ''AA:BB'' ''10.0.0.200'' ''dhcp-200'' 0)]\<rparr>)
    = (Inr (Some r), (new_server ''10.0.0.11'' empty_mem)
        \<lparr>leases := [(''AA:BB'', lease_doc ''AA:BB'' ''10.0.0.200'' ''dhcp-200'' 0)]\<rparr>)
    \<and> yiaddr r = Some ''10.0.0.200''"
proof -
  let ?p = "sample_packet [MessageType 3, RequestedAddr ''10.0.0.200'']"
  let ?w = "(new_server ''10.0.0.11'' empty_mem)\<lparr>leases := [(''AA:BB'', lease_doc ''AA:BB'' ''10.0.0.200'' ''dhcp-200'' 0)]\<rparr>"
  have "\<exists>r. handle_dhcp_request mem_etcd sample_nics 43200000000 ?p ?w = (Inr (Some r), ?w) \<and> yiaddr r = Some ''10.0.0.200''
    \<and> RNum ''message-type'' 5 \<in> set (r_options r) \<and> RNum ''lease_time'' 43200 \<in> set (r_options r)"
    by (rule renewal_keeps_old_expiry [where i = "''eth0''"
          and d = "lease_doc ''AA:BB'' ''10.0.0.200'' ''dhcp-200'' 0"
          and b = "\<lparr>ciaddr = ''0.0.0.0'', xid = 7, chaddr = ''aabb''\<rparr>"])
      (simp_all add: read_options_def sample_packet_def asked_ip_def new_server_def sample_nics_def
        get_interface_for_ip_def map_of_lease_doc)
  then show ?thesis by blast
qed

text \<open>A client that sends a host name the server cannot use never settles. It is offered 10.0.0.200;
  its REQUEST for that address makes the server allocate again, since the lease's name is not the
  one sent, and the acknowledgement carries 10.0.0.201 instead.\<close>

theorem unusable_name_changes_address:
  "(let discovered = dhcp_packet_handler mem_etcd sample_nics 0 (sample_packet [MessageType 1, HostnameOpt ''laptop''])
          (new_server ''10.0.0.11'' empty_mem);
        asked = dhcp_packet_handler mem_etcd sample_nics 0
          (sample_packet [MessageType 3, HostnameOpt ''laptop'', RequestedAddr ''10.0.0.200'']) (snd discovered)
    in map_sum id (map_option yiaddr) (fst discovered) = Inr (Some (Some ''10.0.0.200''))
       \<and> map_sum id (map_option yiaddr) (fst asked) = Inr (Some (Some ''10.0.0.201'')))"
  by code_simp

end
