(* ===== verification/YAdmin.thy ===== *)
theory YAdmin
  imports YDhcp
begin

text \<open>
  The admin API's side of the registry: \<open>get_or_create_allocation\<close> and the endpoints that serve
  allocations (\<open>app.py\<close>), the operator's mutations (\<open>utils/host_state.py\<close>) and the removal of
  allocations and leases (\<open>utils/lease_manager.py\<close>). A request's answer is a status and a
  document; the text of error messages is abstracted to a tag. The path that creates an
  allocation is proved under interference. The paths that rewrite an existing one write their keys
  one by one, without a guard and outside the process-wide \<open>allocation_lock\<close> (which covers the
  creation alone), and are proved for a single writer.
\<close>

section \<open>Allocation\<close>

definition opt_str :: "string option \<Rightarrow> json" where
  "opt_str x = (case x of None \<Rightarrow> JNull | Some s \<Rightarrow> JStr s)"

definition amt_ip_of :: "string \<Rightarrow> exn + json" where
  "amt_ip_of hostname = map_sum id opt_str (determine_ip_from_hostname (hostname @ ''a'') False)"

text \<open>Old entries may lack the management address.\<close>

definition fill_amt_ip :: "dict \<Rightarrow> exn + dict" where
  "fill_amt_ip d =
     (if map_of d ''amt_ip'' \<noteq> None then Inr d
      else (case str_item d ''hostname'' of
              Inl x \<Rightarrow> Inl x
            | Inr h \<Rightarrow> map_sum id (\<lambda>a. dict_set ''amt_ip'' a d) (amt_ip_of h)))"

text \<open>Both entries of an allocation, one after the other.\<close>

definition put_both :: "'s etcd3 \<Rightarrow> string \<Rightarrow> string \<Rightarrow> dict \<Rightarrow> ('s, unit) py" where
  "put_both e nmac hostname d =
     py_seq (e_put e (BY_MAC @ nmac) (Doc d)) (e_put e (BY_HOSTNAME @ hostname) (Doc d))"

definition change_transport :: "'s etcd3 \<Rightarrow> int \<Rightarrow> string \<Rightarrow> bool \<Rightarrow> dict \<Rightarrow> ('s, dict) py" where
  "change_transport e now nmac via_wg d =
     (if via_wg = otruthy (map_of d ''via_wg'') then py_return d
      else py_bind (py_lift (str_item d ''hostname'')) (\<lambda>h.
           py_bind (py_lift (determine_ip_from_hostname h via_wg)) (\<lambda>new_ip.
           py_bind (py_lift (dict_item d ''ip'')) (\<lambda>_.
             let d' = dict_set ''updated_at'' (JStr (iso_utc now))
                        (dict_set ''via_wg'' (JBool via_wg) (dict_set ''ip'' (opt_str new_ip) d))
             in py_seq (put_both e nmac h d') (py_return d')))))"

definition change_type :: "'s etcd3 \<Rightarrow> int \<Rightarrow> string \<Rightarrow> bool \<Rightarrow> string option \<Rightarrow> dict \<Rightarrow> ('s, dict) py" where
  "change_type e now nmac via_wg node_type d =
     (case node_type of
        None \<Rightarrow> py_return d
      | Some t \<Rightarrow>
          if t = [] \<or> map_of d ''type'' = Some (JStr t) then py_return d
          else py_bind (py_lift (str_item d ''hostname'')) (\<lambda>old_hostname.
               py_bind (get_next_hostname e t) (\<lambda>new_hostname.
               py_bind (py_lift (determine_ip_from_hostname new_hostname via_wg)) (\<lambda>new_ip.
               py_bind (py_lift (amt_ip_of new_hostname)) (\<lambda>new_amt_ip.
                 let d' = dict_set ''updated_at'' (JStr (iso_utc now)) (dict_set ''amt_ip'' new_amt_ip
                            (dict_set ''ip'' (opt_str new_ip) (dict_set ''type'' (JStr t)
                              (dict_set ''hostname'' (JStr new_hostname) d))))
                 in py_seq (e_delete e (BY_HOSTNAME @ old_hostname))
                      (py_seq (put_both e nmac new_hostname d') (py_return d')))))))"

definition update_allocation ::
  "'s etcd3 \<Rightarrow> int \<Rightarrow> string \<Rightarrow> string option \<Rightarrow> bool \<Rightarrow> dict \<Rightarrow> ('s, dict) py" where
  "update_allocation e now nmac node_type via_wg d0 =
     py_bind (py_lift (fill_amt_ip d0)) (\<lambda>d1.
     py_bind (change_transport e now nmac via_wg d1) (\<lambda>d2.
       change_type e now nmac via_wg node_type d2))"

definition new_allocation_doc ::
  "string \<Rightarrow> string \<Rightarrow> json \<Rightarrow> json \<Rightarrow> string \<Rightarrow> bool \<Rightarrow> int \<Rightarrow> dict" where
  "new_allocation_doc hostname machine_type ip amt_ip nmac via_wg now =
     [(''hostname'', JStr hostname), (''type'', JStr machine_type), (''ip'', ip), (''amt_ip'', amt_ip),
      (''mac'', JStr nmac), (''via_wg'', JBool via_wg), (''allocated_at'', JStr (iso_utc now))]"

text \<open>The compare-and-swap loop, with \<open>n\<close> rounds left.\<close>

fun allocation_tries :: "nat \<Rightarrow> 's etcd3 \<Rightarrow> int \<Rightarrow> string \<Rightarrow> string \<Rightarrow> bool \<Rightarrow> ('s, dict) py" where
  "allocation_tries 0 e now nmac machine_type via_wg = py_raise (RuntimeError ''allocation'')"
| "allocation_tries (Suc n) e now nmac machine_type via_wg =
     py_bind (get_next_hostname e machine_type) (\<lambda>hostname.
     py_bind (py_lift (determine_ip_from_hostname hostname via_wg)) (\<lambda>ip.
     py_bind (py_lift (amt_ip_of hostname)) (\<lambda>amt_ip.
       let d = new_allocation_doc hostname machine_type (opt_str ip) amt_ip nmac via_wg now
       in py_bind (e_txn e [VersionZero (BY_MAC @ nmac), VersionZero (BY_HOSTNAME @ hostname)]
                     [OpPut (BY_MAC @ nmac) (Doc d), OpPut (BY_HOSTNAME @ hostname) (Doc d)]) (\<lambda>committed.
            if committed then py_return d
            else py_bind (e_get e (BY_MAC @ nmac)) (\<lambda>r.
              case value_of r of
                Some (b, _) \<Rightarrow> py_lift (loads_dict b)
              | None \<Rightarrow> allocation_tries n e now nmac machine_type via_wg)))))"

text \<open>The part under \<open>allocation_lock\<close>.\<close>

definition create_allocation ::
  "'s etcd3 \<Rightarrow> int \<Rightarrow> string \<Rightarrow> string option \<Rightarrow> bool \<Rightarrow> ('s, dict) py" where
  "create_allocation e now mac node_type via_wg =
     py_bind (e_get e (BY_MAC @ normalize_mac mac)) (\<lambda>r.
       case value_of r of
         Some (b, _) \<Rightarrow> py_lift (loads_dict b)
       | None \<Rightarrow>
           (let machine_type = (case node_type of
                  Some t \<Rightarrow> if t \<noteq> [] then t else determine_type_from_mac mac
                | None \<Rightarrow> determine_type_from_mac mac)
            in allocation_tries 5 e now (normalize_mac mac) machine_type via_wg))"

definition get_or_create_allocation ::
  "'s etcd3 \<Rightarrow> int \<Rightarrow> string \<Rightarrow> string option \<Rightarrow> bool \<Rightarrow> ('s, dict) py" where
  "get_or_create_allocation e now mac node_type via_wg =
     py_seq (e_client e)
       (py_bind (e_get e (BY_MAC @ normalize_mac mac)) (\<lambda>r.
          case value_of r of
            Some (b, _) \<Rightarrow> py_bind (py_lift (loads_dict b)) (\<lambda>d.
              update_allocation e now (normalize_mac mac) node_type via_wg d)
          | None \<Rightarrow> create_allocation e now mac node_type via_wg))"

section \<open>Endpoints\<close>

type_synonym response = "int \<times> dict"

definition error_response :: "int \<Rightarrow> string \<Rightarrow> response" where
  "error_response c msg = (c, [(''error'', JStr msg)])"

definition node_types :: "string list" where
  "node_types = [''storage'', ''compute'', ''macos'', ''nas'', ''nvidia'', ''dev'']"

definition allocation_answer :: "dict \<Rightarrow> string \<Rightarrow> exn + dict" where
  "allocation_answer d mac =
     (case (dict_item d ''hostname'', dict_item d ''type'', dict_item d ''ip'', dict_item d ''amt_ip'') of
        (Inr h, Inr t, Inr ip, Inr amt) \<Rightarrow>
          Inr [(''hostname'', h), (''type'', t), (''ip'', ip), (''amt_ip'', amt), (''mac'', JStr mac),
               (''existing'', JBool True)]
      | _ \<Rightarrow> Inl (KeyError ''allocation''))"

definition allocate_hostname ::
  "'s etcd3 \<Rightarrow> int \<Rightarrow> string option \<Rightarrow> string option \<Rightarrow> ('s, response) py" where
  "allocate_hostname e now mac node_type =
     (case mac of
        None \<Rightarrow> py_return (error_response 400 ''MAC address is required'')
      | Some m \<Rightarrow>
          if m = [] then py_return (error_response 400 ''MAC address is required'')
          else if (case node_type of Some t \<Rightarrow> t \<noteq> [] \<and> t \<notin> set node_types | None \<Rightarrow> False)
          then py_return (error_response 400 ''Invalid type'')
          else py_try
            (py_bind (get_or_create_allocation e now m node_type False) (\<lambda>d.
             py_bind (py_lift (allocation_answer d m)) (\<lambda>body. py_return (200, body))))
            (\<lambda>_. py_return (error_response 500 ''Allocation failed'')))"

text \<open>\<open>HOSTNAME_PARAM_RE\<close>: one to four lower-case letters and one to three digits, or \<open>dhcp-\<close> and one
  to three digits; \<open>$\<close> also matches before a final newline.\<close>

definition is_lower :: "char \<Rightarrow> bool" where
  "is_lower c = (let n = of_char c :: nat in 97 \<le> n \<and> n \<le> 122)"

definition chomp :: "string \<Rightarrow> string" where
  "chomp s = (if endswith s nl then butlast s else s)"

definition digits_1_3 :: "string \<Rightarrow> bool" where
  "digits_1_3 s = (isdigit s \<and> length s \<le> 3)"

definition hostname_param_ok :: "string \<Rightarrow> bool" where
  "hostname_param_ok s =
     (let t = chomp s; ls = takeWhile is_lower t; ds = dropWhile is_lower t
      in (1 \<le> length ls \<and> length ls \<le> 4 \<and> digits_1_3 ds)
         \<or> (startswith t ''dhcp-'' \<and> digits_1_3 (drop 5 t)))"

definition validated_hostname :: "string \<Rightarrow> ('s, response) py \<Rightarrow> ('s, response) py" where
  "validated_hostname hostname view =
     (if hostname_param_ok hostname then view else py_return (error_response 400 ''invalid hostname''))"

section \<open>Listings\<close>

text \<open>A scalar in an f-string or as the key of a JSON object; nested values are not rendered.\<close>

fun fstr :: "json \<Rightarrow> string option" where
  "fstr (JStr s) = Some s"
| "fstr (JInt i) = Some (int_str i)"
| "fstr (JBool b) = Some (if b then ''True'' else ''False'')"
| "fstr JNull = Some ''None''"
| "fstr _ = None"

definition get_fstr :: "dict \<Rightarrow> string \<Rightarrow> string option" where
  "get_fstr d k = Option.bind (map_of d k) fstr"

fun hashable :: "json \<Rightarrow> bool" where
  "hashable (JList _) = False"
| "hashable (JObj _) = False"
| "hashable _ = True"

fun json_key :: "json \<Rightarrow> string" where
  "json_key (JStr s) = s"
| "json_key (JInt i) = int_str i"
| "json_key (JBool b) = (if b then ''true'' else ''false'')"
| "json_key _ = ''null''"

text \<open>\<open>/api/status\<close>: allocations counted by type.\<close>

fun count_types :: "(string \<times> blob) list \<Rightarrow> (json \<times> int) list \<Rightarrow> (json \<times> int) list" where
  "count_types [] counts = counts"
| "count_types ((k, b) # rest) counts =
     (case b of
        Doc d \<Rightarrow>
          (let t = (case map_of d ''type'' of None \<Rightarrow> JStr ''compute'' | Some j \<Rightarrow> j)
           in if hashable t
              then count_types rest
                     (AList.update t ((case map_of counts t of Some n \<Rightarrow> n | None \<Rightarrow> 0) + 1) counts)
              else count_types rest counts)
      | _ \<Rightarrow> count_types rest counts)"

definition status :: "'s etcd3 \<Rightarrow> ('s, response) py" where
  "status e =
     py_bind (py_try (py_seq (e_client e) (py_return True)) (\<lambda>_. py_return False)) (\<lambda>up.
       if \<not> up then py_return (error_response 503 ''etcd connection failed'')
       else py_bind (e_get_prefix e BY_HOSTNAME) (\<lambda>xs.
         py_return (200, map (\<lambda>(t, n). (json_key t, JInt n))
           (count_types xs [(JStr ''storage'', 0), (JStr ''compute'', 0), (JStr ''macos'', 0)]))))"

definition dhcp_host_line :: "dict \<Rightarrow> string option" where
  "dhcp_host_line d =
     (case (get_str d ''mac'', get_fstr d ''hostname'', get_fstr d ''ip'') of
        (Some mac, Some hostname, Some ip) \<Rightarrow>
          Some (''dhcp-host='' @ join '':'' (map (\<lambda>i. take 2 (drop (2 * i) mac)) [0..<6]) @ '','' @ hostname
                @ '','' @ ip @ '',infinite'')
      | _ \<Rightarrow> None)"

definition doc_of :: "blob \<Rightarrow> dict option" where
  "doc_of b = (case b of Doc d \<Rightarrow> Some d | _ \<Rightarrow> None)"

definition lines_text :: "string list \<Rightarrow> string" where
  "lines_text ls = join nl (sort ls) @ nl"

datatype text_page = TextPage int string

definition get_dhcp_config :: "'s etcd3 \<Rightarrow> ('s, text_page) py" where
  "get_dhcp_config e =
     py_bind (py_try (py_seq (e_client e) (py_return True)) (\<lambda>_. py_return False)) (\<lambda>up.
       if \<not> up then py_return (TextPage 503 ''# etcd connection failed'')
       else py_bind (e_get_prefix e BY_HOSTNAME) (\<lambda>xs.
         let ls = List.map_filter (\<lambda>(k, b). Option.bind (doc_of b) dhcp_host_line) xs
         in py_return (TextPage 200 (if ls \<noteq> [] then lines_text ls else ''# No static hosts configured yet'' @ nl))))"

definition host_line :: "string \<Rightarrow> string \<Rightarrow> string" where
  "host_line ip hostname = ip @ '' '' @ hostname @ '' '' @ hostname @ ''.xc''"

text \<open>The lines of one allocation: its own, and its management interface's. An error after the first
  line was added leaves that line in place.\<close>

definition allocation_host_lines :: "dict \<Rightarrow> string list" where
  "allocation_host_lines d =
     (case (get_str d ''hostname'', get_fstr d ''ip'') of
        (Some hostname, Some ip) \<Rightarrow>
          if endswith hostname ''a'' then
            (case determine_ip_from_hostname hostname False of
               Inl _ \<Rightarrow> []
             | Inr (Some _) \<Rightarrow> []
             | Inr None \<Rightarrow> [host_line ip hostname])
          else host_line ip hostname #
            (case determine_ip_from_hostname (hostname @ ''a'') False of
               Inr (Some amt_ip) \<Rightarrow> [host_line amt_ip (hostname @ ''a'')]
             | _ \<Rightarrow> [])
      | _ \<Rightarrow> [])"

definition frontend_host_lines :: "dict \<Rightarrow> string list" where
  "frontend_host_lines d =
     (if otruthy (map_of d ''name'') \<and> otruthy (map_of d ''ip'')
      then (case (get_fstr d ''name'', get_fstr d ''ip'') of
              (Some name, Some ip) \<Rightarrow> [host_line ip name]
            | _ \<Rightarrow> [])
      else [])"

definition FRONTEND :: string where
  "FRONTEND = ''/cluster/nodes/frontend/''"

definition get_hosts :: "'s etcd3 \<Rightarrow> ('s, text_page) py" where
  "get_hosts e =
     py_bind (py_try (py_seq (e_client e) (py_return True)) (\<lambda>_. py_return False)) (\<lambda>up.
       if \<not> up then py_return (TextPage 503 ''# etcd connection failed'')
       else py_bind (e_get_prefix e BY_HOSTNAME) (\<lambda>xs.
            py_bind (e_get_prefix e FRONTEND) (\<lambda>fs.
         py_return (TextPage 200 (lines_text
           (concat (map (\<lambda>(k, b). case doc_of b of Some d \<Rightarrow> allocation_host_lines d | None \<Rightarrow> []) xs)
            @ concat (map (\<lambda>(k, b). case doc_of b of Some d \<Rightarrow> frontend_host_lines d | None \<Rightarrow> []) fs)
            @ [''10.0.0.100 registry.xc'', ''10.0.0.100 admin.xc'', ''10.0.0.100 inference.xc'',
               ''10.0.0.100 auth.xc'']))))))"

section \<open>The operator's mutations\<close>

definition get_allocation :: "'s etcd3 \<Rightarrow> string \<Rightarrow> ('s, dict) py" where
  "get_allocation e hostname =
     py_bind (e_get e (BY_HOSTNAME @ hostname)) (\<lambda>r.
       case value_of r of
         None \<Rightarrow> py_raise (KeyError hostname)
       | Some (b, _) \<Rightarrow> py_lift (loads_dict b))"

definition set_host_disabled :: "'s etcd3 \<Rightarrow> string \<Rightarrow> bool \<Rightarrow> ('s, dict) py" where
  "set_host_disabled e hostname disabled =
     py_seq (e_client e)
       (py_bind (get_allocation e hostname) (\<lambda>d.
          let d' = dict_set ''disabled'' (JBool disabled) d
          in py_seq (e_put e (BY_HOSTNAME @ hostname) (Doc d'))
               (py_bind (py_lift (str_item d' ''mac'')) (\<lambda>m.
                  py_seq (e_put e (BY_MAC @ m) (Doc d')) (py_return d')))))"

definition drain_key :: "string \<Rightarrow> string" where
  "drain_key hostname = ''/cluster/nodes/'' @ hostname @ ''/drain''"

definition set_drain :: "'s etcd3 \<Rightarrow> string \<Rightarrow> bool \<Rightarrow> ('s, unit) py" where
  "set_drain e hostname drain =
     py_seq (e_client e)
       (py_bind (get_allocation e hostname) (\<lambda>_.
          if drain then e_put e (drain_key hostname) (Text ''true'')
          else py_seq (e_delete e (drain_key hostname)) (py_return ())))"

definition is_drained_value :: "(blob \<times> nat) option \<Rightarrow> bool" where
  "is_drained_value r = (case r of Some (Text t, _) \<Rightarrow> t = ''true'' | _ \<Rightarrow> False)"

definition drain_status_target :: "'s etcd3 \<Rightarrow> string \<Rightarrow> ('s, response) py" where
  "drain_status_target e hostname =
     validated_hostname hostname
       (py_try
         (py_seq (e_client e) (py_bind (e_get e (drain_key hostname)) (\<lambda>r.
            py_return (200, [(''hostname'', JStr hostname), (''drained'', JBool (is_drained_value r))]))))
         (\<lambda>_. py_return (error_response 500 ''Failed to check drain status'')))"

text \<open>\<open>lease_manager\<close>: deleting keys, errors skipped; how many existed.\<close>

fun delete_keys :: "'s etcd3 \<Rightarrow> string list \<Rightarrow> nat \<Rightarrow> ('s, nat) py" where
  "delete_keys e [] n = py_return n"
| "delete_keys e (k # ks) n =
     py_bind (py_try (e_delete e k) (\<lambda>_. py_return False)) (\<lambda>found.
       delete_keys e ks (if found then Suc n else n))"

definition delete_by_hostname :: "'s etcd3 \<Rightarrow> string \<Rightarrow> ('s, bool) py" where
  "delete_by_hostname e hostname =
     py_bind (py_try (py_seq (e_client e) (py_return True)) (\<lambda>_. py_return False)) (\<lambda>up.
       if \<not> up then py_return False
       else py_bind (e_get e (BY_HOSTNAME @ hostname)) (\<lambda>r.
         case value_of r of
           None \<Rightarrow> py_return False
         | Some (b, _) \<Rightarrow>
             py_try
               (py_bind (py_lift (loads_dict b)) (\<lambda>d.
                py_bind (py_lift (str_item d ''mac'')) (\<lambda>mac.
                py_bind (py_lift (dict_item d ''ip'')) (\<lambda>_.
                py_bind (delete_keys e [BY_HOSTNAME @ hostname, BY_MAC @ normalize_mac mac,
                           LEASES @ normalize_mac mac] 0) (\<lambda>n.
                  py_return (0 < n))))))
               (\<lambda>_. py_return False)))"

definition delete_by_mac :: "'s etcd3 \<Rightarrow> string \<Rightarrow> ('s, bool) py" where
  "delete_by_mac e mac =
     py_bind (py_try (py_seq (e_client e) (py_return True)) (\<lambda>_. py_return False)) (\<lambda>up.
       if \<not> up then py_return False
       else (let nmac = normalize_mac mac in
         py_bind (e_get e (BY_MAC @ nmac)) (\<lambda>r.
           case value_of r of
             None \<Rightarrow> py_try (e_delete e (LEASES @ nmac)) (\<lambda>_. py_return False)
           | Some (b, _) \<Rightarrow>
               py_try
                 (py_bind (py_lift (loads_dict b)) (\<lambda>d.
                  py_bind (py_lift (str_item d ''hostname'')) (\<lambda>hostname.
                  py_bind (py_lift (dict_item d ''ip'')) (\<lambda>_.
                  py_bind (delete_keys e [BY_HOSTNAME @ hostname, BY_MAC @ nmac, LEASES @ nmac] 0) (\<lambda>n.
                    py_return (0 < n))))))
                 (\<lambda>_. py_return False))))"

text \<open>\<open>ycluster dhcp delete\<close>: a target with a colon, or of twelve characters without separators, is a
  MAC address.\<close>

definition looks_like_mac :: "string \<Rightarrow> bool" where
  "looks_like_mac target =
     (CHR '':'' \<in> set target \<or> length (remove_char (CHR ''-'') (remove_char (CHR '':'') target)) = 12)"

definition delete_target :: "'s etcd3 \<Rightarrow> string \<Rightarrow> ('s, bool) py" where
  "delete_target e target = (if looks_like_mac target then delete_by_mac e target else delete_by_hostname e target)"

section \<open>Creating an allocation under interference\<close>

lemma doc_has_new_allocation: "doc_has (new_allocation_doc h t ip amt nmac wg now) nmac h"
  by (simp add: doc_has_def new_allocation_doc_def)

text \<open>A document is recorded when it stands under both keys of the allocation it describes.\<close>

definition on_record :: "store \<Rightarrow> string \<Rightarrow> string \<Rightarrow> dict \<Rightarrow> bool" where
  "on_record c m h d = (doc_has d m h \<and> holds_doc c (BY_MAC @ m) d \<and> holds_doc c (BY_HOSTNAME @ h) d)"

lemma on_record_owned: "on_record c m h d \<Longrightarrow> owned c m h"
  by (auto simp: on_record_def owned_def)

lemma reg_inv_on_record:
  assumes "reg_inv c" and "c (BY_MAC @ m) = Some (b, n)"
  shows "\<exists>d h. b = Doc d \<and> on_record c m h d"
proof -
  from reg_inv_by_mac [OF assms] obtain d h
    where "b = Doc d" "doc_has d m h" "holds_doc c (BY_HOSTNAME @ h) d" by blast
  with assms(2) show ?thesis by (auto simp: on_record_def holds_doc_def)
qed

context registry_env
begin

lemma wp_next_hostname_env:
  assumes "\<And>h s'. rely (view s) (view s') \<Longrightarrow> Q h s'" and "\<And>x s'. rely (view s) (view s') \<Longrightarrow> E x s'"
  shows "wp (get_next_hostname e t) Q E s"
  unfolding get_next_hostname_def Let_def wp_bind
  by (rule wp_prefix_env) (auto simp: wp_simps intro: assms)

abbreviation allocated :: "string \<Rightarrow> dict \<Rightarrow> 's \<Rightarrow> bool" where
  "allocated nmac d s \<equiv> reg_inv (view s) \<and> (\<exists>h. on_record (view s) nmac h d)"

lemma wp_read_allocation:
  assumes "reg_inv (view s)" and "\<And>s'. reg_inv (view s') \<Longrightarrow> wp m (allocated nmac) reg_kept s'"
  shows "wp (py_bind (e_get e (BY_MAC @ nmac)) (\<lambda>r. case value_of r of
      Some (b, _) \<Rightarrow> py_lift (loads_dict b) | None \<Rightarrow> m)) (allocated nmac) reg_kept s"
  unfolding wp_bind
proof (rule wp_get_env)
  fix s' assume "rely (view s) (view s')"
  with assms(1) have inv: "reg_inv (view s')" by (blast intro: rely_reg)
  show "wp (case value_of (view s' (BY_MAC @ nmac)) of Some (b, _) \<Rightarrow> py_lift (loads_dict b) | None \<Rightarrow> m)
      (allocated nmac) reg_kept s'"
  proof (cases "value_of (view s' (BY_MAC @ nmac))")
    case None
    with assms(2) [OF inv] show ?thesis by simp
  next
    case (Some x)
    obtain b n where x: "x = (b, n)" by (cases x)
    with Some have "view s' (BY_MAC @ nmac) = Some (b, n)" by simp
    from reg_inv_on_record [OF inv this] obtain d h where "b = Doc d" "on_record (view s') nmac h d" by blast
    with inv Some x show ?thesis by (auto simp: wp_simps)
  qed
qed (use assms(1) rely_reg in blast)

lemma wp_allocation_tries:
  assumes "reg_inv (view s)"
  shows "wp (allocation_tries n e now nmac t wg) (allocated nmac) reg_kept s"
  using assms
proof (induction n arbitrary: s)
  case 0
  then show ?case by (simp add: wp_simps)
next
  case (Suc n)
  have txn: "wp (e_txn e [VersionZero (BY_MAC @ nmac), VersionZero (BY_HOSTNAME @ h)]
      [OpPut (BY_MAC @ nmac) (Doc d), OpPut (BY_HOSTNAME @ h) (Doc d)])
     (\<lambda>ok s'. reg_inv (view s') \<and> (ok \<longrightarrow> on_record (view s') nmac h d)) reg_kept s1"
    if inv: "reg_inv (view s1)" and d: "doc_has d nmac h" for s1 h d
  proof (rule wp_txn_env)
    fix c k s' assume r: "rely (view s1) c"
      and cmp: "list_all (cmp_holds c) [VersionZero (BY_MAC @ nmac), VersionZero (BY_HOSTNAME @ h)]"
      and v: "view s' = apply_ops k [OpPut (BY_MAC @ nmac) (Doc d), OpPut (BY_HOSTNAME @ h) (Doc d)] c"
    have "reg_inv (reg_commit c nmac h d k None)"
      by (rule reg_inv_commit [OF rely_reg [OF inv r] d]) (use cmp in auto)
    moreover have "view s' = reg_commit c nmac h d k None"
      using v by (simp add: reg_commit_def Let_def)
    ultimately show "(reg_inv (view s') \<and> (True \<longrightarrow> on_record (view s') nmac h d)) \<and> (\<forall>x. reg_inv (view s'))"
      using d by (auto simp: on_record_def holds_doc_def reg_commit_at)
  qed (use inv rely_reg in blast)
  have round: "wp (py_bind (e_txn e [VersionZero (BY_MAC @ nmac), VersionZero (BY_HOSTNAME @ h)]
      [OpPut (BY_MAC @ nmac) (Doc d), OpPut (BY_HOSTNAME @ h) (Doc d)]) (\<lambda>ok. if ok then py_return d
        else py_bind (e_get e (BY_MAC @ nmac)) (\<lambda>r. case value_of r of Some (b, _) \<Rightarrow> py_lift (loads_dict b)
          | None \<Rightarrow> allocation_tries n e now nmac t wg))) (allocated nmac) reg_kept s1"
    if "reg_inv (view s1)" "doc_has d nmac h" for s1 h d
    unfolding wp_bind [of "e_txn _ _ _"]
    by (rule wp_mono [OF txn [OF that]])
      (use that(2) in \<open>auto simp: wp_return intro!: wp_read_allocation Suc.IH\<close>)
  show ?case
    unfolding allocation_tries.simps wp_bind [of "get_next_hostname _ _"]
    by (rule wp_next_hostname_env)
      (use Suc.prems in \<open>auto simp: wp_bind [of "py_lift _"] wp_lift Let_def
        intro!: round doc_has_new_allocation intro: rely_reg split: sum.splits\<close>)
qed

lemma wp_create_allocation:
  assumes "reg_inv (view s)"
  shows "wp (create_allocation e now mac node_type wg) (allocated (normalize_mac mac)) reg_kept s"
  unfolding create_allocation_def Let_def
  by (rule wp_read_allocation [OF assms]) (rule wp_allocation_tries)

end

section \<open>Free names\<close>

text \<open>The names of a type are spelled canonically: a number after the prefix is positive and in the
  form the allocator prints; host names have no slash.\<close>

definition names_ok :: "store \<Rightarrow> string \<Rightarrow> bool" where
  "names_ok c p = (\<forall>h. c (BY_HOSTNAME @ h) \<noteq> None \<longrightarrow> CHR ''/'' \<notin> set h \<and>
     (\<forall>n. startswith h p \<and> py_int (drop (length p) h) = Some n \<longrightarrow> 1 \<le> n \<and> h = p @ int_str n))"

lemma last_part_hostname: "CHR ''/'' \<notin> set h \<Longrightarrow> last_part (BY_HOSTNAME @ h) = h"
  by (simp add: last_part_def BY_HOSTNAME_def split_on_no_sep split_on_append [of _ "[]", simplified])

text \<open>A key of the list is a canonical name, if its number counts at all.\<close>

definition key_ok :: "string \<Rightarrow> string \<times> blob \<Rightarrow> bool" where
  "key_ok p kb = (blob_true (snd kb) \<and> (\<exists>h. fst kb = BY_HOSTNAME @ h \<and> CHR ''/'' \<notin> set h
      \<and> (\<forall>n. py_int (drop (length p) h) = Some n \<longrightarrow> 1 \<le> n \<and> h = p @ int_str n)))"

lemma existing_numbers_spec:
  assumes "distinct (map fst xs)" and "list_all (key_ok p) xs"
  shows "distinct (existing_numbers p xs) \<and> (\<forall>n. n \<in> set (existing_numbers p xs) \<longleftrightarrow>
    1 \<le> n \<and> BY_HOSTNAME @ p @ int_str n \<in> fst ` set xs)"
  using assms
proof (induction xs)
  case (Cons kb rest)
  obtain k b where kb: "kb = (k, b)" by (cases kb)
  from Cons.prems(2) kb obtain h where h: "k = BY_HOSTNAME @ h" "CHR ''/'' \<notin> set h"
    "\<forall>n. py_int (drop (length p) h) = Some n \<longrightarrow> 1 \<le> n \<and> h = p @ int_str n" "blob_true b"
    by (auto simp: key_ok_def)
  from Cons have IH: "distinct (existing_numbers p rest)" "\<And>n. n \<in> set (existing_numbers p rest) \<longleftrightarrow>
      1 \<le> n \<and> BY_HOSTNAME @ p @ int_str n \<in> fst ` set rest" by auto
  have conv: "py_int (drop (length p) h) = Some n" if "1 \<le> n" "h = p @ int_str n" for n
    using that by (simp add: int_str_def)
  show ?case
  proof (cases "py_int (drop (length p) h)")
    case None
    then have "existing_numbers p (kb # rest) = existing_numbers p rest"
      using h kb by (simp add: last_part_hostname)
    moreover have "BY_HOSTNAME @ p @ int_str n \<noteq> k" if "1 \<le> n" for n
      using conv [OF that] None h(1) by (metis append_same_eq option.distinct(1) same_append_eq)
    ultimately show ?thesis using IH kb by auto
  next
    case (Some n)
    with h(3) have n: "1 \<le> n" "h = p @ int_str n" by auto
    from Some have "existing_numbers p (kb # rest) = n # existing_numbers p rest"
      using h(1,2,4) kb by (simp add: last_part_hostname)
    moreover have "int_str m = int_str n \<longleftrightarrow> m = n" if "1 \<le> m" for m
      using that n(1) by (auto simp: int_str_def)
    moreover have "n \<notin> set (existing_numbers p rest)"
      using Cons.prems(1) IH(2) [of n] n h(1) kb by auto
    ultimately show ?thesis using IH n h(1) kb by auto
  qed
qed simp

lemma next_hostname_free_list:
  assumes inv: "reg_inv c" and ok: "names_ok c p" and xs: "prefix_list c (BY_HOSTNAME @ p) xs"
  shows "c (BY_HOSTNAME @ p @ nat_str (next_num (existing_numbers p xs))) = None"
proof -
  have "key_ok p (k, b)" if kb: "(k, b) \<in> set xs" for k b
  proof -
    from kb have "startswith k (BY_HOSTNAME @ p)" and "\<exists>m. c k = Some (b, m)"
      unfolding prefix_listD [OF xs] by auto
    then obtain t m where k: "k = BY_HOSTNAME @ p @ t" "c (BY_HOSTNAME @ p @ t) = Some (b, m)"
      unfolding startswith_iff by auto
    from reg_inv_by_hostname [OF inv k(2)] obtain d where "b = Doc d" by blast
    then have "blob_true b" by simp
    moreover from ok k(2) have "CHR ''/'' \<notin> set (p @ t) \<and>
      (\<forall>n. startswith (p @ t) p \<and> py_int (drop (length p) (p @ t)) = Some n \<longrightarrow> 1 \<le> n \<and> p @ t = p @ int_str n)"
      unfolding names_ok_def by blast
    ultimately show ?thesis unfolding key_ok_def using k(1) by auto
  qed
  then have "list_all (key_ok p) xs" by (auto simp: list_all_iff)
  from existing_numbers_spec [OF _ this] xs
  have spec: "distinct (existing_numbers p xs)" "\<And>n. n \<in> set (existing_numbers p xs) \<longleftrightarrow>
      1 \<le> n \<and> BY_HOSTNAME @ p @ int_str n \<in> fst ` set xs"
    by (auto simp: prefix_list_def)
  define n where "n = next_num (existing_numbers p xs)"
  from next_num_least [of "existing_numbers p xs"] spec have "int n \<notin> set (existing_numbers p xs)" "1 \<le> n"
    by (auto simp: n_def)
  with spec(2) [of "int n"] have "BY_HOSTNAME @ p @ nat_str n \<notin> fst ` set xs"
    by (simp add: int_str_def)
  moreover have "BY_HOSTNAME @ p @ nat_str n \<in> fst ` set xs"
    if "c (BY_HOSTNAME @ p @ nat_str n) = Some (b, m)" for b m
  proof -
    have "startswith (BY_HOSTNAME @ p @ nat_str n) (BY_HOSTNAME @ p)" by (simp add: startswith_iff)
    with that have "(BY_HOSTNAME @ p @ nat_str n, b) \<in> set xs" unfolding prefix_listD [OF xs] by blast
    then show ?thesis by (rule image_eqI [rotated]) simp
  qed
  ultimately show ?thesis unfolding n_def [symmetric]
    by (cases "c (BY_HOSTNAME @ p @ nat_str n)") auto
qed

section \<open>A single writer\<close>

lemma doc_has_set:
  "k \<noteq> ''mac'' \<Longrightarrow> k \<noteq> ''hostname'' \<Longrightarrow> doc_has (dict_set k v d) m h = doc_has d m h"
  "doc_has (dict_set ''hostname'' (JStr h') d) m h \<longleftrightarrow> map_of d ''mac'' = Some (JStr m) \<and> h' = h"
  by (auto simp: doc_has_def)

text \<open>The answer to a request is the recorded document, with the management address filled in when the record
  lacks one.\<close>

definition doc_served :: "store \<Rightarrow> string \<Rightarrow> string \<Rightarrow> dict \<Rightarrow> bool" where
  "doc_served c m h d = (\<exists>d0. on_record c m h d0 \<and>
     (d = d0 \<or> map_of d0 ''amt_ip'' = None \<and> (\<exists>a. d = dict_set ''amt_ip'' a d0)))"

lemma doc_served_has: "doc_served c m h d \<Longrightarrow> doc_has d m h \<and> owned c m h"
  by (auto simp: doc_served_def on_record_def owned_def doc_has_set)

lemma on_record_served: "on_record c m h d \<Longrightarrow> doc_served c m h d"
  by (auto simp: doc_served_def)

lemma fill_amt_ip_doc_served:
  assumes "on_record c m h d" and "fill_amt_ip d = Inr d'"
  shows "doc_served c m h d' \<and> (\<forall>k. k \<noteq> ''amt_ip'' \<longrightarrow> map_of d' k = map_of d k)"
proof (cases "map_of d ''amt_ip'' = None")
  case False
  with assms show ?thesis by (simp add: fill_amt_ip_def on_record_served)
next
  case True
  with assms have "map_sum id (\<lambda>a. dict_set ''amt_ip'' a d) (amt_ip_of h) = Inr d'"
    by (simp add: fill_amt_ip_def on_record_def doc_has_def str_item_def)
  then obtain a where "d' = dict_set ''amt_ip'' a d" by (cases "amt_ip_of h") auto
  with True assms(1) show ?thesis by (auto simp: doc_served_def)
qed

text \<open>The address that belongs to a host name on a transport, and the address a request may answer: that
  one, unless both the name and the transport are those of the record.\<close>

definition derived_ip :: "string \<Rightarrow> bool \<Rightarrow> dict \<Rightarrow> bool" where
  "derived_ip h wg d = (\<exists>ip. determine_ip_from_hostname h wg = Inr ip \<and> map_of d ''ip'' = Some (opt_str ip))"

lemma new_doc_facts:
  "doc_has (new_allocation_doc h t ip a m wg now) m h"
  "map_of (new_allocation_doc h t ip a m wg now) ''type'' = Some (JStr t)"
  "map_of (new_allocation_doc h t ip a m wg now) ''via_wg'' = Some (JBool wg)"
  "determine_ip_from_hostname h wg = Inr i \<Longrightarrow> derived_ip h wg (new_allocation_doc h t (opt_str i) a m wg now)"
  by (simp_all add: doc_has_def new_allocation_doc_def derived_ip_def)

definition address_ok :: "store \<Rightarrow> string \<Rightarrow> string \<Rightarrow> bool \<Rightarrow> dict \<Rightarrow> bool" where
  "address_ok c m h wg d = (derived_ip h wg d \<or> (\<exists>d0. on_record c m h d0 \<and>
     map_of d ''ip'' = map_of d0 ''ip'' \<and> otruthy (map_of d0 ''via_wg'') = wg))"

lemma names_ok_cong:
  "(\<And>h. c' (BY_HOSTNAME @ h) = None \<longleftrightarrow> c (BY_HOSTNAME @ h) = None) \<Longrightarrow> names_ok c' p = names_ok c p"
  by (simp add: names_ok_def)

context etcd_seq
begin

lemma wp_next_hostname_seq:
  assumes "reg_inv (view s)" and "names_ok (view s) (app_type_prefix t)"
    and "\<And>h s'. view s' = view s \<Longrightarrow> view s (BY_HOSTNAME @ h) = None \<Longrightarrow> Q h s'"
  shows "wp (get_next_hostname e t) Q E s"
  unfolding get_next_hostname_def Let_def wp_bind
  by (rule wp_prefix_seq) (use assms next_hostname_free_list in \<open>auto simp: wp_return\<close>)

lemma wp_put_both_seq:
  assumes "\<And>n1 n2 s'. view s' = (view s)(BY_MAC @ m \<mapsto> (Doc d, n1), BY_HOSTNAME @ h \<mapsto> (Doc d, n2)) \<Longrightarrow> Q () s'"
  shows "wp (put_both e m h d) Q E s"
  unfolding put_both_def wp_seq
  by (rule wp_put_seq, rule wp_put_seq) (use assms in auto)

lemma wp_change_transport_seq:
  assumes inv: "reg_inv (view s)" and own: "owned (view s) m h" and d: "doc_has d m h"
    and same: "wg = otruthy (map_of d ''via_wg'') \<Longrightarrow> Q d s"
    and Q: "\<And>d' s'. reg_inv (view s') \<Longrightarrow> on_record (view s') m h d' \<Longrightarrow> derived_ip h wg d' \<Longrightarrow>
      otruthy (map_of d' ''via_wg'') = wg \<Longrightarrow>
      (\<And>k. view s' (BY_HOSTNAME @ k) = None \<longleftrightarrow> view s (BY_HOSTNAME @ k) = None) \<Longrightarrow> Q d' s'"
    and E: "\<And>x. E x s"
  shows "wp (change_transport e now m wg d) Q E s"
proof (cases "wg = otruthy (map_of d ''via_wg'')")
  case True
  with same show ?thesis by (simp add: change_transport_def wp_return)
next
  case False
  have host: "str_item d ''hostname'' = Inr h" using d by (simp add: doc_has_def)
  from own have some: "view s (BY_HOSTNAME @ h) \<noteq> None" by (auto simp: owned_def holds_doc_def)
  have put: "wp (put_both e m h d') (\<lambda>_. Q d') E s"
    if d': "doc_has d' m h" "derived_ip h wg d'" "otruthy (map_of d' ''via_wg'') = wg" for d'
  proof (rule wp_put_both_seq)
    fix n1 n2 s' assume v: "view s' = (view s)(BY_MAC @ m \<mapsto> (Doc d', n1), BY_HOSTNAME @ h \<mapsto> (Doc d', n2))"
    have "reg_inv (view s') \<and> owned (view s') m h"
      by (rule reg_inv_rewrite [OF inv own d'(1)]) (simp add: v)
    moreover have "on_record (view s') m h d'" using d'(1) by (simp add: v on_record_def holds_doc_def)
    ultimately show "Q d' s'" using d' some by (intro Q) (auto simp: v)
  qed
  show ?thesis
    using False host d
    by (auto simp: change_transport_def wp_bind wp_lift wp_seq wp_return Let_def doc_has_set derived_ip_def
        intro!: put E split: sum.splits)
qed

lemma wp_change_type_seq:
  assumes inv: "reg_inv (view s)" and own: "owned (view s) m h" and d: "doc_has d m h"
    and names: "\<And>t. node_type = Some t \<Longrightarrow> names_ok (view s) (app_type_prefix t)"
    and same: "(\<And>t. node_type = Some t \<Longrightarrow> t \<noteq> [] \<Longrightarrow> map_of d ''type'' = Some (JStr t)) \<Longrightarrow> Q d s"
    and Q: "\<And>t d' h' s'. node_type = Some t \<Longrightarrow> reg_inv (view s') \<Longrightarrow> on_record (view s') m h' d' \<Longrightarrow>
      view s (BY_HOSTNAME @ h') = None \<Longrightarrow> derived_ip h' wg d' \<Longrightarrow> map_of d' ''type'' = Some (JStr t) \<Longrightarrow>
      map_of d' ''via_wg'' = map_of d ''via_wg'' \<Longrightarrow> Q d' s'"
    and E: "\<And>x s'. view s' = view s \<Longrightarrow> E x s'"
  shows "wp (change_type e now m wg node_type d) Q E s"
proof (cases "node_type = None \<or> node_type = Some [] \<or> (\<exists>t. node_type = Some t \<and> map_of d ''type'' = Some (JStr t))")
  case True
  with same show ?thesis by (auto simp: change_type_def wp_return)
next
  case False
  then obtain t where t: "node_type = Some t" "t \<noteq> []" "map_of d ''type'' \<noteq> Some (JStr t)"
    by (cases node_type) auto
  have host: "str_item d ''hostname'' = Inr h" and mac: "map_of d ''mac'' = Some (JStr m)"
    using d by (simp_all add: doc_has_def)
  have rename: "wp (py_seq (e_delete e (BY_HOSTNAME @ h)) (py_seq (put_both e m h' d') (py_return d'))) Q E s1"
    if v: "view s1 = view s" and free: "view s (BY_HOSTNAME @ h') = None" and d': "doc_has d' m h'" "derived_ip h' wg d'"
      "map_of d' ''type'' = Some (JStr t)" "map_of d' ''via_wg'' = map_of d ''via_wg''" for s1 h' d'
    unfolding wp_seq wp_return
  proof (rule wp_delete_seq, rule wp_put_both_seq)
    fix s2 n1 n2 s3 assume v2: "view s2 = (view s1)(BY_HOSTNAME @ h := None)"
      and v3: "view s3 = (view s2)(BY_MAC @ m \<mapsto> (Doc d', n1), BY_HOSTNAME @ h' \<mapsto> (Doc d', n2))"
    have "reg_inv (view s3) \<and> owned (view s3) m h'"
      by (rule reg_inv_rename [OF inv own free d'(1)]) (simp add: v v2 v3)
    moreover have "on_record (view s3) m h' d'" using d'(1) by (simp add: v3 on_record_def holds_doc_def)
    ultimately show "Q d' s3" using Q [OF t(1) _ _ free d'(2,3,4)] by blast
  qed
  from t have eq: "change_type e now m wg node_type d = py_bind (get_next_hostname e t) (\<lambda>new_hostname.
       py_bind (py_lift (determine_ip_from_hostname new_hostname wg)) (\<lambda>new_ip.
       py_bind (py_lift (amt_ip_of new_hostname)) (\<lambda>new_amt_ip.
         let d' = dict_set ''updated_at'' (JStr (iso_utc now)) (dict_set ''amt_ip'' new_amt_ip
                    (dict_set ''ip'' (opt_str new_ip) (dict_set ''type'' (JStr t)
                      (dict_set ''hostname'' (JStr new_hostname) d))))
         in py_seq (e_delete e (BY_HOSTNAME @ h)) (py_seq (put_both e m new_hostname d') (py_return d')))))"
    unfolding change_type_def host py_bind_lift by simp
  show ?thesis
    unfolding eq wp_bind [of "get_next_hostname e t"]
    by (rule wp_next_hostname_seq [OF inv names [OF t(1)]])
      (auto simp: wp_bind [of "py_lift _"] wp_lift Let_def doc_has_set mac derived_ip_def intro!: rename E split: sum.splits)
qed

text \<open>A new allocation, with nobody else at work: what is committed is the document of the request.\<close>

abbreviation fresh_allocation :: "store \<Rightarrow> string \<Rightarrow> string \<Rightarrow> bool \<Rightarrow> dict \<Rightarrow> 's \<Rightarrow> bool" where
  "fresh_allocation c m t wg d s \<equiv> reg_inv (view s) \<and> (\<exists>h. on_record (view s) m h d \<and> c (BY_HOSTNAME @ h) = None \<and>
     derived_ip h wg d \<and> map_of d ''type'' = Some (JStr t) \<and> otruthy (map_of d ''via_wg'') = wg)"

lemma wp_allocation_tries_seq:
  assumes "reg_inv (view s)" and "view s (BY_MAC @ m) = None"
  shows "wp (allocation_tries n e now m t wg) (fresh_allocation (view s) m t wg) (\<lambda>_ s'. reg_inv (view s')) s"
  using assms
proof (induction n arbitrary: s)
  case 0
  then show ?case by (simp add: wp_simps)
next
  case (Suc n)
  let ?Q = "fresh_allocation (view s) m t wg" and ?E = "\<lambda>_ s'. reg_inv (view s')"
  have again: "wp (allocation_tries n e now m t wg) ?Q ?E s1" if "view s1 = view s" for s1
    using Suc.IH [of s1] Suc.prems that by simp
  have reread: "wp (py_bind (e_get e (BY_MAC @ m)) (\<lambda>r. case value_of r of Some (b, _) \<Rightarrow> py_lift (loads_dict b)
      | None \<Rightarrow> allocation_tries n e now m t wg)) ?Q ?E s1" if "view s1 = view s" for s1
    unfolding wp_bind by (rule wp_get_seq) (use that Suc.prems(2) again in auto)
  have round: "wp (py_bind (e_txn e [VersionZero (BY_MAC @ m), VersionZero (BY_HOSTNAME @ h)]
      [OpPut (BY_MAC @ m) (Doc d), OpPut (BY_HOSTNAME @ h) (Doc d)]) (\<lambda>ok. if ok then py_return d
        else py_bind (e_get e (BY_MAC @ m)) (\<lambda>r. case value_of r of Some (b, _) \<Rightarrow> py_lift (loads_dict b)
          | None \<Rightarrow> allocation_tries n e now m t wg))) ?Q ?E s1"
    if v: "view s1 = view s" and d: "doc_has d m h" "derived_ip h wg d" "map_of d ''type'' = Some (JStr t)"
      "otruthy (map_of d ''via_wg'') = wg" for s1 h d
    unfolding wp_bind [of "e_txn _ _ _"]
  proof (rule wp_txn_seq)
    fix k s' assume cmp: "list_all (cmp_holds (view s1)) [VersionZero (BY_MAC @ m), VersionZero (BY_HOSTNAME @ h)]"
      and v': "view s' = apply_ops k [OpPut (BY_MAC @ m) (Doc d), OpPut (BY_HOSTNAME @ h) (Doc d)] (view s1)"
    then have eq: "view s' = reg_commit (view s) m h d k None" by (simp add: v reg_commit_def Let_def)
    have "reg_inv (view s')" unfolding eq
      by (rule reg_inv_commit [OF Suc.prems(1) d(1)]) (use cmp v in auto)
    moreover have "on_record (view s') m h d" using d(1) by (simp add: eq on_record_def holds_doc_def reg_commit_at)
    ultimately show "wp (if True then py_return d else py_bind (e_get e (BY_MAC @ m)) (\<lambda>r. case value_of r of
        Some (b, _) \<Rightarrow> py_lift (loads_dict b) | None \<Rightarrow> allocation_tries n e now m t wg)) ?Q ?E s'"
      using d cmp v by (auto simp: wp_return)
  qed (use v reread in simp)
  show ?case
    unfolding allocation_tries.simps wp_bind [of "get_next_hostname _ _"]
  proof (rule seq.wp_next_hostname_env)
    fix h s1 assume "view s = view s1"
    then have v: "view s1 = view s" by simp
    show "wp (py_bind (py_lift (determine_ip_from_hostname h wg)) (\<lambda>ip. py_bind (py_lift (amt_ip_of h)) (\<lambda>amt_ip.
        let d = new_allocation_doc h t (opt_str ip) amt_ip m wg now
        in py_bind (e_txn e [VersionZero (BY_MAC @ m), VersionZero (BY_HOSTNAME @ h)]
              [OpPut (BY_MAC @ m) (Doc d), OpPut (BY_HOSTNAME @ h) (Doc d)]) (\<lambda>committed. if committed then py_return d
            else py_bind (e_get e (BY_MAC @ m)) (\<lambda>r. case value_of r of Some (b, _) \<Rightarrow> py_lift (loads_dict b)
              | None \<Rightarrow> allocation_tries n e now m t wg))))) ?Q ?E s1"
      unfolding wp_bind [of "py_lift _"] wp_lift Let_def
      using Suc.prems(1) v by (auto intro!: round [OF v] simp: new_doc_facts derived_ip_def [symmetric] split: sum.split)
  qed (use Suc.prems in simp)
qed

definition requested_type :: "string option \<Rightarrow> string \<Rightarrow> string" where
  "requested_type node_type mac = (if node_type = None \<or> node_type = Some [] then determine_type_from_mac mac else the node_type)"

lemma wp_create_allocation_seq:
  assumes "reg_inv (view s)" and "view s (BY_MAC @ normalize_mac mac) = None"
  shows "wp (create_allocation e now mac node_type wg)
    (fresh_allocation (view s) (normalize_mac mac) (requested_type node_type mac) wg) (\<lambda>_ s'. reg_inv (view s')) s"
  unfolding create_allocation_def wp_bind
proof (rule wp_get_seq)
  fix s' assume v: "view s' = view s"
  have "(case node_type of None \<Rightarrow> determine_type_from_mac mac | Some t \<Rightarrow> if t \<noteq> [] then t else determine_type_from_mac mac)
    = requested_type node_type mac" by (simp add: requested_type_def split: option.split)
  then show "wp (case value_of (view s (BY_MAC @ normalize_mac mac)) of Some (b, _) \<Rightarrow> py_lift (loads_dict b)
      | None \<Rightarrow> let machine_type = (case node_type of Some t \<Rightarrow> if t \<noteq> [] then t else determine_type_from_mac mac
                  | None \<Rightarrow> determine_type_from_mac mac)
        in allocation_tries 5 e now (normalize_mac mac) machine_type wg)
     (fresh_allocation (view s) (normalize_mac mac) (requested_type node_type mac) wg) (\<lambda>_ s'. reg_inv (view s')) s'"
    using wp_allocation_tries_seq [of s' "normalize_mac mac" 5 now "requested_type node_type mac" wg] assms v
    by (simp del: allocation_tries.simps)
qed

abbreviation answered :: "store \<Rightarrow> string \<Rightarrow> string option \<Rightarrow> bool \<Rightarrow> dict \<Rightarrow> 's \<Rightarrow> bool" where
  "answered c m node_type wg d s \<equiv> reg_inv (view s) \<and> otruthy (map_of d ''via_wg'') = wg
     \<and> (\<forall>t. node_type = Some t \<longrightarrow> t \<noteq> [] \<longrightarrow> map_of d ''type'' = Some (JStr t))
     \<and> (\<exists>h. doc_served (view s) m h d \<and> address_ok c m h wg d \<and> (owned c m h \<or> c (BY_HOSTNAME @ h) = None))"

lemma wp_update_allocation_seq:
  assumes inv: "reg_inv (view s)" and rec: "on_record (view s) m h d"
    and names: "\<And>t. node_type = Some t \<Longrightarrow> names_ok (view s) (app_type_prefix t)"
  shows "wp (update_allocation e now m node_type wg d) (answered (view s) m node_type wg) (\<lambda>_ s'. reg_inv (view s')) s"
    (is "wp _ ?Q ?E s")
proof -
  from rec have own: "owned (view s) m h" by (rule on_record_owned)
  have step: "wp (change_type e now m wg node_type d2) ?Q ?E s2"
    if 2: "reg_inv (view s2)" "doc_served (view s2) m h d2" "address_ok (view s) m h wg d2" "otruthy (map_of d2 ''via_wg'') = wg"
      "\<And>k. view s2 (BY_HOSTNAME @ k) = None \<longleftrightarrow> view s (BY_HOSTNAME @ k) = None" for d2 s2
  proof (rule wp_change_type_seq [OF 2(1), of m h])
    show "owned (view s2) m h" "doc_has d2 m h" using doc_served_has [OF 2(2)] by simp_all
    show "names_ok (view s2) (app_type_prefix t)" if "node_type = Some t" for t
      using names [OF that] names_ok_cong [of "view s2" "view s"] 2(5) by simp
  qed (use 2 own in \<open>auto simp: address_ok_def dest: on_record_served\<close>)
  have "wp (change_transport e now m wg d1) (\<lambda>d2. wp (change_type e now m wg node_type d2) ?Q ?E) ?E s"
    if "fill_amt_ip d = Inr d1" for d1
  proof -
    from fill_amt_ip_doc_served [OF rec that]
    have 1: "doc_served (view s) m h d1" "\<And>k. k \<noteq> ''amt_ip'' \<Longrightarrow> map_of d1 k = map_of d k" by auto
    show ?thesis
    proof (rule wp_change_transport_seq [OF inv own])
      show "wp (change_type e now m wg node_type d1) ?Q ?E s" if "wg = otruthy (map_of d1 ''via_wg'')"
        by (rule step [OF inv 1(1)]) (use 1(2) that rec in \<open>auto simp: address_ok_def\<close>)
    qed (use 1 inv step doc_served_has in \<open>auto simp: address_ok_def dest: on_record_served\<close>)
  qed
  then show ?thesis
    using inv unfolding update_allocation_def wp_bind [of "py_lift _"] wp_lift wp_bind by (auto split: sum.splits)
qed

lemma wp_get_or_create_seq:
  assumes inv: "reg_inv (view s)"
    and names: "\<And>t. node_type = Some t \<Longrightarrow> names_ok (view s) (app_type_prefix t)"
  shows "wp (get_or_create_allocation e now mac node_type wg)
    (answered (view s) (normalize_mac mac) node_type wg) (\<lambda>_ s'. reg_inv (view s')) s"
    (is "wp _ ?Q ?E s")
  unfolding get_or_create_allocation_def wp_seq wp_bind [of "e_get _ _"]
proof (rule wp_client_seq, rule wp_get_seq)
  let ?m = "normalize_mac mac"
  fix s1 s2 assume v: "view s1 = view s" "view s2 = view s1"
  show "wp (case value_of (view s1 (BY_MAC @ ?m)) of
      Some (b, _) \<Rightarrow> py_bind (py_lift (loads_dict b)) (\<lambda>d. update_allocation e now ?m node_type wg d)
    | None \<Rightarrow> create_allocation e now mac node_type wg) ?Q ?E s2"
  proof (cases "view s (BY_MAC @ ?m)")
    case None
    have "wp (create_allocation e now mac node_type wg) ?Q ?E s2"
      by (rule wp_mono [OF wp_create_allocation_seq])
        (use inv v None in \<open>auto simp: address_ok_def requested_type_def intro!: exI dest: on_record_served\<close>)
    with None v show ?thesis by simp
  next
    case (Some x)
    obtain b n where x: "x = (b, n)" by (cases x)
    with Some have "view s (BY_MAC @ ?m) = Some (b, n)" by simp
    from reg_inv_on_record [OF inv this] obtain d h where "b = Doc d" "on_record (view s) ?m h d" by blast
    with wp_update_allocation_seq [of s2 ?m h d node_type now wg] Some x v inv names show ?thesis
      by (simp add: wp_bind wp_lift)
  qed
qed

end

section \<open>Removal, disabling and draining\<close>

context etcd_seq
begin

lemma wp_up_seq:
  assumes "\<And>s'. view s' = view s \<Longrightarrow> Q True s'"
  shows "wp (py_try (py_seq (e_client e) (py_return True)) (\<lambda>_. py_return False)) Q E s"
  unfolding wp_simps by (rule wp_client_seq) (simp add: assms)

lemma wp_delete_keys_seq:
  assumes "\<And>s'. view s' = fold (\<lambda>k c. c(k := None)) ks (view s) \<Longrightarrow>
    Q (n + length (filter (\<lambda>k. view s k \<noteq> None) ks)) s'" and "distinct ks"
  shows "wp (delete_keys e ks n) Q E s"
  using assms
proof (induction ks arbitrary: n s)
  case Nil
  then show ?case by (simp add: wp_simps)
next
  case (Cons k ks)
  show ?case
    unfolding delete_keys.simps wp_bind wp_try
  proof (rule wp_delete_seq)
    fix s1 assume v: "view s1 = (view s)(k := None)"
    have same: "filter (\<lambda>k. view s1 k \<noteq> None) ks = filter (\<lambda>k. view s k \<noteq> None) ks"
      using Cons.prems(2) v by (intro filter_cong) auto
    show "wp (delete_keys e ks (if view s k \<noteq> None then Suc n else n)) Q E s1"
      by (rule Cons.IH) (use Cons.prems v same in auto)
  qed
qed

lemma wp_delete_by_hostname_seq:
  assumes d: "view s (BY_HOSTNAME @ h) = Some (Doc d, n)" and m: "map_of d ''mac'' = Some (JStr m)" and ip: "map_of d ''ip'' \<noteq> None"
    and Q: "\<And>s'. view s' = (view s)(BY_HOSTNAME @ h := None, BY_MAC @ normalize_mac m := None,
      LEASES @ normalize_mac m := None) \<Longrightarrow> Q True s'"
  shows "wp (delete_by_hostname e h) Q E s"
  unfolding delete_by_hostname_def wp_bind
proof (rule wp_up_seq)
  fix s1 assume v: "view s1 = view s"
  have "wp (e_get e (BY_HOSTNAME @ h)) (\<lambda>r. wp (case value_of r of None \<Rightarrow> py_return False
      | Some (b, _) \<Rightarrow> py_try (py_bind (py_lift (loads_dict b)) (\<lambda>d.
          py_bind (py_lift (str_item d ''mac'')) (\<lambda>mac.
          py_bind (py_lift (dict_item d ''ip'')) (\<lambda>_.
          py_bind (delete_keys e [BY_HOSTNAME @ h, BY_MAC @ normalize_mac mac, LEASES @ normalize_mac mac] 0) (\<lambda>n.
            py_return (0 < n)))))) (\<lambda>_. py_return False)) Q E) E s1"
  proof (rule wp_get_seq)
    fix s2 assume v2: "view s2 = view s1"
    have "wp (delete_keys e [BY_HOSTNAME @ h, BY_MAC @ normalize_mac m, LEASES @ normalize_mac m] 0)
        (\<lambda>n. Q (0 < n)) (\<lambda>_. Q False) s2"
      by (rule wp_delete_keys_seq) (use v v2 d Q in \<open>auto simp: LEASES_def BY_MAC_def BY_HOSTNAME_def\<close>)
    moreover obtain j where "map_of d ''ip'' = Some j" using ip by auto
    ultimately show "wp (case value_of (view s1 (BY_HOSTNAME @ h)) of None \<Rightarrow> py_return False
      | Some (b, _) \<Rightarrow> py_try (py_bind (py_lift (loads_dict b)) (\<lambda>d.
          py_bind (py_lift (str_item d ''mac'')) (\<lambda>mac.
          py_bind (py_lift (dict_item d ''ip'')) (\<lambda>_.
          py_bind (delete_keys e [BY_HOSTNAME @ h, BY_MAC @ normalize_mac mac, LEASES @ normalize_mac mac] 0) (\<lambda>n.
            py_return (0 < n)))))) (\<lambda>_. py_return False)) Q E s2"
      using d v m by (simp add: wp_simps str_item_def dict_item_def)
  qed
  then show "wp (if \<not> True then py_return False
      else py_bind (e_get e (BY_HOSTNAME @ h)) (\<lambda>r. case value_of r of None \<Rightarrow> py_return False
      | Some (b, _) \<Rightarrow> py_try (py_bind (py_lift (loads_dict b)) (\<lambda>d.
          py_bind (py_lift (str_item d ''mac'')) (\<lambda>mac.
          py_bind (py_lift (dict_item d ''ip'')) (\<lambda>_.
          py_bind (delete_keys e [BY_HOSTNAME @ h, BY_MAC @ normalize_mac mac, LEASES @ normalize_mac mac] 0) (\<lambda>n.
            py_return (0 < n)))))) (\<lambda>_. py_return False))) Q E s1"
    by (simp add: wp_bind)
qed

lemma wp_get_allocation_seq:
  assumes "view s (BY_HOSTNAME @ h) = Some (Doc d, n)" and "\<And>s'. view s' = view s \<Longrightarrow> Q d s'"
  shows "wp (get_allocation e h) Q E s"
  unfolding get_allocation_def wp_bind by (rule wp_get_seq) (use assms in \<open>simp add: wp_simps\<close>)

lemma wp_set_disabled_seq:
  assumes d: "view s (BY_HOSTNAME @ h) = Some (Doc d, n)" and m: "map_of d ''mac'' = Some (JStr m)"
    and Q: "\<And>n1 n2 s'. view s' = (view s)(BY_HOSTNAME @ h \<mapsto> (Doc (dict_set ''disabled'' (JBool b) d), n1),
       BY_MAC @ m \<mapsto> (Doc (dict_set ''disabled'' (JBool b) d), n2)) \<Longrightarrow> Q (dict_set ''disabled'' (JBool b) d) s'"
  shows "wp (set_host_disabled e h b) Q E s"
proof -
  have two: "wp (e_put e (BY_HOSTNAME @ h) (Doc d')) (\<lambda>_. wp (e_put e (BY_MAC @ m) (Doc d')) (\<lambda>_. Q d') E) E s1"
    if "d' = dict_set ''disabled'' (JBool b) d" "view s1 = view s" for d' s1
    by (rule wp_put_seq, rule wp_put_seq) (use that Q in auto)
  show ?thesis
    unfolding set_host_disabled_def wp_seq wp_bind Let_def
    by (rule wp_client_seq, rule wp_get_allocation_seq [of _ h d n])
      (use d m two in \<open>auto simp: wp_simps str_item_def\<close>)
qed

lemma wp_set_drain_seq:
  assumes d: "view s (BY_HOSTNAME @ h) = Some (Doc d, n)"
    and Q: "\<And>x s'. view s' = (view s)(drain_key h := x) \<Longrightarrow> is_drained_value x = b \<Longrightarrow> Q () s'"
  shows "wp (set_drain e h b) Q E s"
proof -
  have put: "wp (e_put e (drain_key h) (Text ''true'')) Q E s1" if "view s1 = view s" b for s1
    by (rule wp_put_seq) (use that Q in \<open>auto simp: is_drained_value_def\<close>)
  have del: "wp (e_delete e (drain_key h)) (\<lambda>_. Q ()) E s1" if "view s1 = view s" "\<not> b" for s1
    by (rule wp_delete_seq) (use that Q in \<open>auto simp: is_drained_value_def\<close>)
  show ?thesis
    unfolding set_drain_def wp_seq wp_bind
    by (rule wp_client_seq, rule wp_get_allocation_seq [of _ h d n])
      (use d put del in \<open>auto simp: wp_simps\<close>)
qed

end

text \<open>Host names that pass the validation have no slash and name no registry directory.\<close>

lemma hostname_param_chars: "hostname_param_ok h \<Longrightarrow> c \<in> set h \<Longrightarrow> is_lower c \<or> is_digit c \<or> c = CHR ''-'' \<or> c = CHR 0x0A"
proof -
  assume ok: "hostname_param_ok h" and c: "c \<in> set h"
  define t where "t = chomp h"
  have "c \<in> set t \<or> c = CHR 0x0A"
    using c unfolding t_def chomp_def by (auto simp: endswith_iff split: if_splits)
  moreover have "is_lower c \<or> is_digit c \<or> c = CHR ''-''" if ct: "c \<in> set t"
  proof -
    have "list_all is_digit (dropWhile is_lower t) \<or> startswith t ''dhcp-'' \<and> list_all is_digit (drop 5 t)"
      using ok unfolding hostname_param_ok_def Let_def t_def [symmetric] digits_1_3_def isdigit_def by blast
    then show ?thesis
    proof
      assume "list_all is_digit (dropWhile is_lower t)"
      moreover have "set t = set (takeWhile is_lower t) \<union> set (dropWhile is_lower t)"
        by (metis set_append takeWhile_dropWhile_id)
      ultimately show ?thesis using ct by (auto simp: list_all_iff dest: set_takeWhileD)
    next
      assume "startswith t ''dhcp-'' \<and> list_all is_digit (drop 5 t)"
      then obtain r where "t = ''dhcp-'' @ r" "list_all is_digit r" by (auto simp: startswith_iff)
      with ct show ?thesis by (auto simp: list_all_iff is_lower_def)
    qed
  qed
  ultimately show ?thesis by blast
qed

lemma hostname_param_no_slash: "hostname_param_ok h \<Longrightarrow> CHR ''/'' \<notin> set h"
  using hostname_param_chars [of h "CHR ''/''"] by (auto simp: is_lower_def is_digit_def)

lemma first_component: "c \<notin> set a \<Longrightarrow> c \<notin> set b \<Longrightarrow> a @ c # x = b @ c # y \<Longrightarrow> a = b"
proof (induction a arbitrary: b)
  case Nil
  then show ?case by (cases b) auto
next
  case (Cons z a)
  then show ?case by (cases b) auto
qed

lemma drain_key_outside:
  assumes "hostname_param_ok h"
  shows "outside_registry (drain_key h)"
proof -
  have no: "\<not> hostname_param_ok ''by-mac''" "\<not> hostname_param_ok ''by-hostname''" by code_simp+
  have "h = ''by-mac''" if "h @ ''/drain'' = ''by-mac/'' @ t" for t
    by (rule first_component [of "CHR ''/''" h "''by-mac''" "''drain''" t])
      (use that hostname_param_no_slash [OF assms] in auto)
  moreover have "h = ''by-hostname''" if "h @ ''/drain'' = ''by-hostname/'' @ t" for t
    by (rule first_component [of "CHR ''/''" h "''by-hostname''" "''drain''" t])
      (use that hostname_param_no_slash [OF assms] in auto)
  ultimately show ?thesis
    using no assms by (auto simp: outside_registry_def drain_key_def startswith_iff BY_MAC_def BY_HOSTNAME_def)
qed

section \<open>Properties\<close>

text \<open>C2: creating an allocation through the admin API keeps the registry a one-to-one correspondence
  while DHCP servers and other API instances allocate at the same time and calls fail anywhere; the
  document it returns, every field of it, is the one that the registry at that moment records under
  this MAC and under the host name the document gives.\<close>

theorem admin_allocation_exclusive:
  assumes "registry_env e view rely" and "reg_inv (view s)"
    and "create_allocation e now mac node_type via_wg s = (r, s')"
  shows "reg_inv (view s') \<and>
    (\<forall>d. r = Inr d \<longrightarrow> (\<exists>h. doc_has d (normalize_mac mac) h \<and>
       holds_doc (view s') (BY_MAC @ normalize_mac mac) d \<and> holds_doc (view s') (BY_HOSTNAME @ h) d))"
  using registry_env.wp_create_allocation [OF assms(1,2), of now mac node_type via_wg] assms(3)
  by (auto simp: wp_def on_record_def split: sum.splits)

text \<open>A rival takes \<open>c1\<close> between the listing and the commit.\<close>

definition rival_c1 :: dict where
  "rival_c1 = [(''hostname'', JStr ''c1''), (''mac'', JStr ''bb''), (''ip'', JStr ''10.0.0.51'')]"

definition rival_c1_start :: script where
  "rival_c1_start = \<lparr>s_mem = empty_mem, s_events = [Quiet, Quiet, Foreign ''bb'' ''c1'' rival_c1]\<rparr>"

theorem admin_allocation_exclusive_witness:
  "\<exists>d. fst (create_allocation script_etcd 0 ''aa'' None False rival_c1_start) = Inr d \<and>
     map_of d ''hostname'' = Some (JStr ''c2'') \<and> map_of d ''ip'' = Some (JStr ''10.0.0.52'') \<and>
     holds_doc (script_view (snd (create_allocation script_etcd 0 ''aa'' None False rival_c1_start))) (BY_MAC @ ''aa'') d \<and>
     holds_doc (script_view (snd (create_allocation script_etcd 0 ''aa'' None False rival_c1_start))) (BY_HOSTNAME @ ''c2'') d"
proof -
  let ?run = "create_allocation script_etcd 0 ''aa'' None False rival_c1_start"
  have "reg_inv (script_view rival_c1_start)"
    by (simp add: rival_c1_start_def script_view_def mem_view_def empty_mem_def reg_inv_empty)
  from admin_allocation_exclusive [OF scriptreg.registry_env_axioms this prod.collapse [symmetric]]
  have rec: "\<And>d. fst ?run = Inr d \<Longrightarrow> \<exists>h. doc_has d (normalize_mac ''aa'') h
      \<and> holds_doc (script_view (snd ?run)) (BY_MAC @ normalize_mac ''aa'') d
      \<and> holds_doc (script_view (snd ?run)) (BY_HOSTNAME @ h) d" by blast
  have "(case fst ?run of Inr d \<Rightarrow> map_of d ''hostname'' = Some (JStr ''c2'') \<and> map_of d ''ip'' = Some (JStr ''10.0.0.52'')
     | Inl _ \<Rightarrow> False)" by code_simp
  then obtain d where d: "fst ?run = Inr d" "map_of d ''hostname'' = Some (JStr ''c2'')"
    "map_of d ''ip'' = Some (JStr ''10.0.0.52'')"
    by (auto split: sum.splits)
  moreover have "normalize_mac ''aa'' = ''aa''" by code_simp
  ultimately show ?thesis using rec [OF d(1)] by (auto simp: doc_has_def)
qed


definition c1_doc :: dict where
  "c1_doc = [(''hostname'', JStr ''c1''), (''type'', JStr ''compute''), (''ip'', JStr ''10.0.0.51''), (''mac'', JStr ''aa'')]"

definition c1_store :: mem where
  "c1_store = \<lparr>mem_data = [(BY_MAC @ ''aa'', Doc c1_doc, 1), (BY_HOSTNAME @ ''c1'', Doc c1_doc, 1)], mem_rev = 1\<rparr>"

lemma c1_store_reg: "reg_inv (mem_view c1_store)" "names_ok (mem_view c1_store) ''s''"
  by (auto simp: c1_store_def mem_view_def reg_inv_def holds_doc_def doc_has_def c1_doc_def names_ok_def
      startswith_def split: if_splits)


text \<open>With canonical names the next host name offered for a type names no allocation at all, and
  looking for it writes nothing.\<close>

theorem next_hostname_unused:
  assumes "etcd_seq e view" and "reg_inv (view s)" and "names_ok (view s) (app_type_prefix t)"
    and "get_next_hostname e t s = (r, s')"
  shows "view s' = view s \<and> (\<exists>h. r = Inr h \<and> view s (BY_HOSTNAME @ h) = None)"
proof -
  have "wp (get_next_hostname e t) (\<lambda>h s'. view s' = view s \<and> view s (BY_HOSTNAME @ h) = None) (\<lambda>_ _. False) s"
    by (rule etcd_seq.wp_next_hostname_seq [OF assms(1,2,3)]) simp
  with assms(4) show ?thesis by (auto simp: wp_def split: sum.splits)
qed

theorem next_hostname_unused_witness:
  "\<exists>h. fst (get_next_hostname mem_etcd ''storage'' c1_store) = Inr h \<and> mem_view c1_store (BY_HOSTNAME @ h) = None"
proof -
  have p: "app_type_prefix ''storage'' = ''s''" by code_simp
  show ?thesis
    using next_hostname_unused [OF memkv.etcd_seq_axioms c1_store_reg(1) _ prod.collapse [symmetric], of "''storage''"]
      c1_store_reg(2) p by auto
qed

definition s_doc :: "string \<Rightarrow> string \<Rightarrow> dict" where
  "s_doc h m = [(''hostname'', JStr h), (''type'', JStr ''storage''), (''ip'', JStr ''10.0.0.11''),
     (''amt_ip'', JNull), (''mac'', JStr m)]"

definition clash_store :: mem where
  "clash_store = \<lparr>mem_data = [(BY_MAC @ ''aa'', Doc c1_doc, 1), (BY_HOSTNAME @ ''c1'', Doc c1_doc, 1),
     (BY_MAC @ ''01'', Doc (s_doc ''s1'' ''01''), 1), (BY_HOSTNAME @ ''s1'', Doc (s_doc ''s1'' ''01''), 1),
     (BY_MAC @ ''02'', Doc (s_doc ''s01'' ''02''), 1), (BY_HOSTNAME @ ''s01'', Doc (s_doc ''s01'' ''02''), 1),
     (BY_MAC @ ''03'', Doc (s_doc ''s2'' ''03''), 1), (BY_HOSTNAME @ ''s2'', Doc (s_doc ''s2'' ''03''), 1)],
     mem_rev = 1\<rparr>"

definition names_of :: "mem \<Rightarrow> string list \<Rightarrow> json option list" where
  "names_of s ms = map (\<lambda>m. case map_of (mem_data s) (BY_MAC @ m) of
     Some (Doc d, _) \<Rightarrow> map_of d ''hostname'' | _ \<Rightarrow> None) ms"

text \<open>One misspelled name is enough to lose a node. With \<open>s1\<close>, \<open>s01\<close> and \<open>s2\<close> registered, the next
  storage name is computed as \<open>s2\<close>: a compute node switched to storage takes over the entry of the
  node that holds it, and afterwards two MAC addresses claim the name \<open>s2\<close>.\<close>

theorem retype_takes_used_name:
  "names_of (snd (get_or_create_allocation mem_etcd 0 ''aa'' (Some ''storage'') False clash_store)) [''aa'', ''03'']
   = [Some (JStr ''s2''), Some (JStr ''s2'')]"
  by code_simp

text \<open>Removing a host deletes its two registry entries and its lease, nothing else, and keeps the
  registry a correspondence.\<close>

theorem delete_by_hostname_correct:
  assumes "etcd_seq e view" and "reg_inv (view s)" and "owned (view s) m h" and "normalize_mac m = m"
    and "holds_doc (view s) (BY_HOSTNAME @ h) d" and "map_of d ''ip'' \<noteq> None"
    and "delete_by_hostname e h s = (r, s')"
  shows "r = Inr True \<and> reg_inv (view s') \<and>
    view s' = (view s)(BY_HOSTNAME @ h := None, BY_MAC @ m := None, LEASES @ m := None)"
proof -
  from assms(5) obtain n where n: "view s (BY_HOSTNAME @ h) = Some (Doc d, n)" by (auto simp: holds_doc_def)
  with assms(3) have d: "doc_has d m h" by (auto simp: owned_def holds_doc_def)
  have "wp (delete_by_hostname e h) (\<lambda>b s'. b \<and> view s' = (view s)(BY_HOSTNAME @ h := None, BY_MAC @ m := None,
      LEASES @ m := None)) (\<lambda>_ _. False) s"
    by (rule etcd_seq.wp_delete_by_hostname_seq [OF assms(1) n, of m])
      (use d assms(4,6) in \<open>auto simp: doc_has_def\<close>)
  with assms(7) have run: "r = Inr True" "view s' = (view s)(BY_HOSTNAME @ h := None, BY_MAC @ m := None, LEASES @ m := None)"
    by (auto simp: wp_def split: sum.splits)
  moreover have "reg_inv ((view s)(BY_HOSTNAME @ h := None, BY_MAC @ m := None))"
    by (rule reg_inv_remove [OF assms(2,5) d])
  ultimately show ?thesis by (simp add: reg_inv_outside)
qed

theorem delete_by_hostname_correct_witness:
  "fst (delete_by_hostname mem_etcd ''c1'' c1_store) = Inr True
   \<and> mem_view (snd (delete_by_hostname mem_etcd ''c1'' c1_store)) (BY_MAC @ ''aa'') = None"
proof -
  have own: "owned (mem_view c1_store) ''aa'' ''c1''" "holds_doc (mem_view c1_store) (BY_HOSTNAME @ ''c1'') c1_doc"
    by (auto simp: owned_def holds_doc_def c1_store_def mem_view_def doc_has_def c1_doc_def)
  have "normalize_mac ''aa'' = ''aa''" by code_simp
  moreover have "map_of c1_doc ''ip'' \<noteq> None" by (simp add: c1_doc_def)
  ultimately show ?thesis
    using delete_by_hostname_correct [OF memkv.etcd_seq_axioms c1_store_reg(1) own(1) _ own(2) _ prod.collapse [symmetric]]
    by (simp add: LEASES_def BY_MAC_def)
qed

text \<open>Disabling or enabling a host changes the flag in both of its entries and keeps the registry.\<close>

theorem set_host_disabled_correct:
  assumes "etcd_seq e view" and "reg_inv (view s)" and "holds_doc (view s) (BY_HOSTNAME @ h) d"
    and "set_host_disabled e h b s = (r, s')"
  shows "reg_inv (view s') \<and> r = Inr (dict_set ''disabled'' (JBool b) d) \<and>
    (\<exists>m. map_of d ''mac'' = Some (JStr m) \<and> holds_doc (view s') (BY_MAC @ m) (dict_set ''disabled'' (JBool b) d)
       \<and> holds_doc (view s') (BY_HOSTNAME @ h) (dict_set ''disabled'' (JBool b) d))"
proof -
  from assms(3) obtain n where n: "view s (BY_HOSTNAME @ h) = Some (Doc d, n)" by (auto simp: holds_doc_def)
  from reg_inv_by_hostname [OF assms(2) n] obtain m where m: "doc_has d m h" "holds_doc (view s) (BY_MAC @ m) d" by auto
  then have own: "owned (view s) m h" using assms(3) by (auto simp: owned_def)
  let ?d = "dict_set ''disabled'' (JBool b) d"
  have "wp (set_host_disabled e h b) (\<lambda>x s'. x = ?d \<and> (\<exists>n1 n2. view s' = (view s)(BY_HOSTNAME @ h \<mapsto> (Doc ?d, n1),
      BY_MAC @ m \<mapsto> (Doc ?d, n2)))) (\<lambda>_ _. False) s"
    by (rule etcd_seq.wp_set_disabled_seq [OF assms(1) n]) (use m in \<open>auto simp: doc_has_def\<close>)
  with assms(4) obtain n1 n2 where run: "r = Inr ?d"
    "view s' = (view s)(BY_HOSTNAME @ h \<mapsto> (Doc ?d, n1), BY_MAC @ m \<mapsto> (Doc ?d, n2))"
    by (auto simp: wp_def split: sum.splits)
  have "reg_inv (view s') \<and> owned (view s') m h"
    by (rule reg_inv_rewrite [OF assms(2) own, of ?d]) (use m run in \<open>auto simp: doc_has_def\<close>)
  with run m show ?thesis by (auto simp: holds_doc_def doc_has_def)
qed

theorem set_host_disabled_correct_witness:
  "reg_inv (mem_view (snd (set_host_disabled mem_etcd ''c1'' True c1_store)))
   \<and> holds_doc (mem_view (snd (set_host_disabled mem_etcd ''c1'' True c1_store))) (BY_MAC @ ''aa'')
       (c1_doc @ [(''disabled'', JBool True)])"
proof -
  have h: "holds_doc (mem_view c1_store) (BY_HOSTNAME @ ''c1'') c1_doc"
    by (simp add: holds_doc_def c1_store_def mem_view_def)
  have "dict_set ''disabled'' (JBool True) c1_doc = c1_doc @ [(''disabled'', JBool True)]"
    and "map_of c1_doc ''mac'' = Some (JStr ''aa'')" by (simp_all add: c1_doc_def)
  with set_host_disabled_correct [OF memkv.etcd_seq_axioms c1_store_reg(1) h prod.collapse [symmetric], of True]
  show ?thesis by auto
qed

text \<open>The drain flag reads back: after it is set or cleared for a registered host, the API reports
  exactly that, and the flag's key lies outside the registry, so draining changes no allocation.\<close>

theorem drain_reads_back:
  assumes "etcd_seq e view" and "holds_doc (view s) (BY_HOSTNAME @ h) d" and "hostname_param_ok h"
    and "set_drain e h b s = (r, s1)" and "drain_status_target e h s1 = (r2, s2)"
  shows "r = Inr () \<and> r2 = Inr (200, [(''hostname'', JStr h), (''drained'', JBool b)])
    \<and> (reg_inv (view s) \<longrightarrow> reg_inv (view s1))"
proof -
  from assms(2) obtain n where n: "view s (BY_HOSTNAME @ h) = Some (Doc d, n)" by (auto simp: holds_doc_def)
  have "wp (set_drain e h b) (\<lambda>_ s'. \<exists>x. view s' = (view s)(drain_key h := x) \<and> is_drained_value x = b) (\<lambda>_ _. False) s"
    by (rule etcd_seq.wp_set_drain_seq [OF assms(1) n]) blast
  with assms(4) obtain x where 1: "r = Inr ()" "view s1 = (view s)(drain_key h := x)" "is_drained_value x = b"
    by (auto simp: wp_def split: sum.splits)
  have "wp (py_seq (e_client e) (py_bind (e_get e (drain_key h)) (\<lambda>r. py_return
      (200 :: int, [(''hostname'', JStr h), (''drained'', JBool (is_drained_value r))]))))
     (\<lambda>y _. y = (200, [(''hostname'', JStr h), (''drained'', JBool b)])) (\<lambda>_ _. False) s1"
    unfolding wp_simps
    by (rule etcd_seq.wp_client_seq [OF assms(1)], rule etcd_seq.wp_get_seq [OF assms(1)]) (use 1 in auto)
  then have "wp (drain_status_target e h) (\<lambda>y _. y = (200, [(''hostname'', JStr h), (''drained'', JBool b)])) (\<lambda>_ _. False) s1"
    using assms(3) unfolding drain_status_target_def validated_hostname_def
    by (simp only: if_True wp_try) (erule wp_mono, simp_all)
  with assms(5) have "r2 = Inr (200, [(''hostname'', JStr h), (''drained'', JBool b)])"
    by (auto simp: wp_def split: sum.splits)
  with 1 show ?thesis by (simp add: reg_inv_outside drain_key_outside [OF assms(3)])
qed

theorem drain_reads_back_witness:
  "fst (drain_status_target mem_etcd ''c1'' (snd (set_drain mem_etcd ''c1'' True c1_store)))
     = Inr (200, [(''hostname'', JStr ''c1''), (''drained'', JBool True)])"
proof -
  have "holds_doc (mem_view c1_store) (BY_HOSTNAME @ ''c1'') c1_doc"
    by (simp add: holds_doc_def c1_store_def mem_view_def)
  moreover have "hostname_param_ok ''c1''" by code_simp
  ultimately show ?thesis
    using drain_reads_back [OF memkv.etcd_seq_axioms _ _ prod.collapse [symmetric] prod.collapse [symmetric]] by blast
qed

text \<open>A host name that passes the route validation contains no slash, so the keys built from it stay
  in their directory, and no more than ten characters; anything else is answered with status 400
  before the store is touched.\<close>

theorem validated_hostname_safe:
  "(hostname_param_ok h \<longrightarrow> CHR ''/'' \<notin> set h \<and> length h \<le> 9 + 1)
   \<and> (\<not> hostname_param_ok h \<longrightarrow> validated_hostname h view s = (Inr (error_response 400 ''invalid hostname''), s))"
proof -
  have "length h \<le> 10" if ok: "hostname_param_ok h"
  proof -
    define t where "t = chomp h"
    have "length h \<le> length t + 1" by (cases h rule: rev_cases) (auto simp: t_def chomp_def)
    moreover have "length t \<le> 9"
    proof -
      have "length t = length (takeWhile is_lower t) + length (dropWhile is_lower t)"
        by (metis length_append takeWhile_dropWhile_id)
      then show ?thesis
        using ok unfolding hostname_param_ok_def Let_def t_def [symmetric] digits_1_3_def by auto
    qed
    ultimately show ?thesis by simp
  qed
  then show ?thesis using hostname_param_no_slash by (auto simp: validated_hostname_def py_return_def)
qed

theorem validated_hostname_safe_witness:
  "CHR ''/'' \<notin> set ''dhcp-200'' \<and>
   validated_hostname ''../leader'' (py_return (200, [])) () = (Inr (error_response 400 ''invalid hostname''), ())"
proof -
  have "hostname_param_ok ''dhcp-200''" and "\<not> hostname_param_ok ''../leader''" by code_simp+
  then show ?thesis
    using validated_hostname_safe [of "''dhcp-200''" "py_return (200, [])" "()"]
      validated_hostname_safe [of "''../leader''" "py_return (200, [])" "()"] by blast
qed

end
