(* ===== verification/YWg.thy ===== *)
theory YWg
  imports YAdmin
begin

text \<open>
  WireGuard peers (\<open>utils/wg_config.py\<close>) and their public endpoints (\<open>/api/wg/register\<close> and
  \<open>/api/wg/poll\<close> of \<open>app.py\<close>). A peer record is pending until an operator approves it; its address
  is the one of the node allocation. Parameters of the model: the \<open>wg\<close>, \<open>wg-quick\<close> and \<open>ip\<close> tools
  (\<open>tool\<close>: a command and the text it reads, on the state \<open>kernel\<close> of the host), SHA-256
  (\<open>sha\<close>: the hexadecimal digest) and base64 decoding (\<open>b64\<close>: the decoded length, if it decodes).
  \<open>dry\<close> is the module's \<open>DRY_RUN\<close>. The file \<open>/etc/wireguard/wg0.conf\<close> is \<open>wg_conf\<close>.
\<close>

section \<open>Records\<close>

record ('s, 'h) wg =
  wg_kv :: 's
  wg_conf :: "string option"
  kernel :: 'h

type_synonym 'h tool = "string list \<Rightarrow> string option \<Rightarrow> ('h, string) py"

definition SERVER_KEY :: string where
  "SERVER_KEY = ''/cluster/wg/server''"

definition PEER_PREFIX :: string where
  "PEER_PREFIX = ''/cluster/wg/peers/''"

definition DEFAULT_PORT :: int where
  "DEFAULT_PORT = 51820"

definition SERVER_IP :: string where
  "SERVER_IP = ''10.0.1.1''"

definition WG_SUBNET :: string where
  "WG_SUBNET = ''10.0.1.0/24''"

definition fingerprint :: "(string \<Rightarrow> string) \<Rightarrow> string \<Rightarrow> string" where
  "fingerprint sha pubkey = take 16 (sha pubkey)"

definition parse_endpoint :: "string \<Rightarrow> exn + string" where
  "parse_endpoint s =
     (case rpartition_on (CHR '':'') s of
        (host, True, port_str) \<Rightarrow>
          if host = [] then Inl (ValueError s)
          else (case py_int port_str of
                  None \<Rightarrow> Inl (ValueError s)
                | Some port \<Rightarrow> if 1 \<le> port \<and> port \<le> 65535 then Inr (host @ '':'' @ int_str port)
                               else Inl (ValueError s))
      | _ \<Rightarrow> Inr (s @ '':'' @ int_str DEFAULT_PORT))"

fun parse_endpoints :: "string list \<Rightarrow> exn + string list" where
  "parse_endpoints [] = Inr []"
| "parse_endpoints (s # ss) =
     (case parse_endpoint s of
        Inl x \<Rightarrow> Inl x
      | Inr y \<Rightarrow> (case parse_endpoints ss of Inl x \<Rightarrow> Inl x | Inr ys \<Rightarrow> Inr (y # ys)))"

definition get_server :: "'s etcd3 \<Rightarrow> ('s, dict option) py" where
  "get_server e = get_json e SERVER_KEY"

definition get_node :: "'s etcd3 \<Rightarrow> string \<Rightarrow> ('s, dict option) py" where
  "get_node e hostname = get_json e (BY_HOSTNAME @ hostname)"

definition get_peer :: "'s etcd3 \<Rightarrow> string \<Rightarrow> ('s, dict option) py" where
  "get_peer e hostname = get_json e (PEER_PREFIX @ hostname)"

text \<open>\<open>if not record\<close>: absent or empty.\<close>

definition missing :: "dict option \<Rightarrow> bool" where
  "missing r = (case r of None \<Rightarrow> True | Some d \<Rightarrow> d = [])"

definition put_unless :: "bool \<Rightarrow> 's etcd3 \<Rightarrow> string \<Rightarrow> dict \<Rightarrow> ('s, unit) py" where
  "put_unless dry e k d = (if dry then py_return () else e_put e k (Doc d))"

abbreviation on_wg :: "('s, 'a) py \<Rightarrow> (('s, 'h) wg, 'a) py" where
  "on_wg m \<equiv> py_zoom wg_kv (\<lambda>s w. w\<lparr>wg_kv := s\<rparr>) m"

abbreviation on_kernel :: "('h, 'a) py \<Rightarrow> (('s, 'h) wg, 'a) py" where
  "on_kernel m \<equiv> py_zoom kernel (\<lambda>h w. w\<lparr>kernel := h\<rparr>) m"

definition gen_keypair :: "'h tool \<Rightarrow> ('h, string \<times> string) py" where
  "gen_keypair tool =
     py_bind (tool [''wg'', ''genkey''] None) (\<lambda>out.
       let priv = strip out in
       py_bind (tool [''wg'', ''pubkey''] (Some priv)) (\<lambda>pub. py_return (priv, strip pub)))"

definition or_json :: "json option \<Rightarrow> json \<Rightarrow> json" where
  "or_json x y = (case x of Some j \<Rightarrow> if truthy j then j else y | None \<Rightarrow> y)"

definition init_server ::
  "'s etcd3 \<Rightarrow> 'h tool \<Rightarrow> bool \<Rightarrow> string list \<Rightarrow> int option \<Rightarrow> bool \<Rightarrow> (('s, 'h) wg, dict) py" where
  "init_server e tool dry endpoints port rot =
     py_bind (py_lift (parse_endpoints endpoints)) (\<lambda>normalized.
     py_seq (on_wg (e_client e)) (py_bind (on_wg (get_server e)) (\<lambda>r.
       let existing = (case r of Some d \<Rightarrow> d | None \<Rightarrow> []) in
       py_bind (if rot \<or> map_of existing ''privkey'' = None
                then py_bind (on_kernel (gen_keypair tool)) (\<lambda>(priv, pub).
                       py_return (dict_set ''pubkey'' (JStr pub) (dict_set ''privkey'' (JStr priv) existing)))
                else py_return existing) (\<lambda>d.
         let d' = dict_set ''server_ip'' (JStr SERVER_IP)
                    (dict_set ''endpoints'' (JList (map JStr normalized))
                      (dict_set ''port'' (or_json (map_option JInt port)
                        (or_json (map_of d ''port'') (JInt DEFAULT_PORT))) d))
         in py_seq (on_wg (put_unless dry e SERVER_KEY d')) (py_return d')))))"

section \<open>Peers\<close>

fun collect_peers :: "'s etcd3 \<Rightarrow> (string \<times> blob) list \<Rightarrow> ('s, (string \<times> dict \<times> dict option) list) py" where
  "collect_peers e [] = py_return []"
| "collect_peers e ((k, b) # rest) =
     (if \<not> blob_true b then collect_peers e rest
      else (let hostname = drop (length PEER_PREFIX) k in
        py_bind (py_lift (loads_dict b)) (\<lambda>peer.
        py_bind (get_node e hostname) (\<lambda>node.
        py_bind (collect_peers e rest) (\<lambda>out. py_return ((hostname, peer, node) # out))))))"

definition list_peers :: "'s etcd3 \<Rightarrow> ('s, (string \<times> dict \<times> dict option) list) py" where
  "list_peers e =
     py_seq (e_client e)
       (py_bind (e_get_prefix e PEER_PREFIX) (\<lambda>xs.
        py_bind (collect_peers e xs) (\<lambda>out. py_return (sort_key fst out))))"

definition peer_record :: "(string \<Rightarrow> string) \<Rightarrow> string \<Rightarrow> int \<Rightarrow> dict" where
  "peer_record sha pubkey now =
     [(''pubkey'', JStr pubkey), (''pubkey_sha256'', JStr (fingerprint sha pubkey)), (''status'', JStr ''pending''),
      (''created_at'', JStr (iso_utc now)), (''approved_at'', JNull)]"

definition register_peer ::
  "'s etcd3 \<Rightarrow> (string \<Rightarrow> string) \<Rightarrow> bool \<Rightarrow> int \<Rightarrow> string \<Rightarrow> string \<Rightarrow> ('s, dict) py" where
  "register_peer e sha dry now hostname pubkey =
     py_bind (get_node e hostname) (\<lambda>node.
       if missing node then py_raise (ValueError ''no node allocation'')
       else py_seq (e_client e) (py_bind (get_peer e hostname) (\<lambda>r.
         let store = py_seq (put_unless dry e (PEER_PREFIX @ hostname) (peer_record sha pubkey now))
                       (py_return (peer_record sha pubkey now))
         in if missing r then store
            else (let existing = the r in
              py_bind (py_lift (dict_item existing ''pubkey'')) (\<lambda>k.
                if k = JStr pubkey then py_return existing
                else py_bind (py_lift (dict_item existing ''status'')) (\<lambda>st.
                  if st = JStr ''approved'' then py_raise (ValueError ''already approved'')
                  else store))))))"

definition set_peer_status :: "'s etcd3 \<Rightarrow> bool \<Rightarrow> int \<Rightarrow> string \<Rightarrow> string \<Rightarrow> ('s, dict) py" where
  "set_peer_status e dry now hostname new_status =
     (if new_status \<notin> {''pending'', ''approved'', ''revoked''} then py_raise (ValueError ''invalid status'')
      else py_seq (e_client e) (py_bind (get_peer e hostname) (\<lambda>r.
        if missing r then py_raise (ValueError ''no such peer'')
        else (let p1 = dict_set ''status'' (JStr new_status) (the r);
                  p2 = (if new_status = ''approved'' then dict_set ''approved_at'' (JStr (iso_utc now)) p1 else p1)
              in py_seq (put_unless dry e (PEER_PREFIX @ hostname) p2) (py_return p2)))))"

text \<open>The MAC in the allocation, for the by-mac entry; a value that is no object counts as none.\<close>

definition node_mac :: "(blob \<times> nat) option \<Rightarrow> json option" where
  "node_mac r = (case value_of r of Some (Doc d, _) \<Rightarrow> map_of d ''mac'' | _ \<Rightarrow> None)"

definition delete_peer :: "'s etcd3 \<Rightarrow> bool \<Rightarrow> string \<Rightarrow> ('s, unit) py" where
  "delete_peer e dry hostname =
     py_seq (e_client e) (py_bind (e_get e (BY_HOSTNAME @ hostname)) (\<lambda>r.
       if dry then py_return ()
       else py_seq (e_delete e (PEER_PREFIX @ hostname))
              (py_seq (e_delete e (BY_HOSTNAME @ hostname))
                (case (if otruthy (node_mac r) then Option.bind (node_mac r) fstr else None) of
                   Some mac \<Rightarrow> py_seq (e_delete e (BY_MAC @ mac)) (py_return ())
                 | None \<Rightarrow> py_return ()))))"

section \<open>Rendering\<close>

definition fitem :: "dict \<Rightarrow> string \<Rightarrow> exn + string" where
  "fitem d k = (case dict_item d k of
     Inl x \<Rightarrow> Inl x | Inr j \<Rightarrow> (case fstr j of Some s \<Rightarrow> Inr s | None \<Rightarrow> Inl TypeError))"

definition server_header :: "dict \<Rightarrow> exn + string list" where
  "server_header server =
     (case (fitem server ''privkey'', fitem server ''port'', fitem server ''server_ip'') of
        (Inr k, Inr p, Inr ip) \<Rightarrow>
          Inr [''[Interface]'', ''PrivateKey = '' @ k, ''ListenPort = '' @ p, ''Address = '' @ ip @ ''/24'', []]
      | (Inl x, _, _) \<Rightarrow> Inl x
      | (_, Inl x, _) \<Rightarrow> Inl x
      | (_, _, Inl x) \<Rightarrow> Inl x)"

definition peer_block :: "string \<Rightarrow> string \<Rightarrow> string \<Rightarrow> string list" where
  "peer_block hostname pubkey ip =
     [''# '' @ hostname, ''[Peer]'', ''PublicKey = '' @ pubkey, ''AllowedIPs = '' @ ip @ ''/32'', []]"

fun peer_blocks :: "(string \<times> dict \<times> dict option) list \<Rightarrow> exn + string list" where
  "peer_blocks [] = Inr []"
| "peer_blocks ((hostname, peer, node) # rest) =
     (case dict_item peer ''status'' of
        Inl x \<Rightarrow> Inl x
      | Inr st \<Rightarrow>
          if st \<noteq> JStr ''approved'' \<or> missing node then peer_blocks rest
          else (case (fitem peer ''pubkey'', fitem (the node) ''ip'') of
                  (Inr k, Inr ip) \<Rightarrow>
                    (case peer_blocks rest of Inl x \<Rightarrow> Inl x | Inr ls \<Rightarrow> Inr (peer_block hostname k ip @ ls))
                | (Inl x, _) \<Rightarrow> Inl x
                | (_, Inl x) \<Rightarrow> Inl x))"

definition render_server_config :: "'s etcd3 \<Rightarrow> ('s, string) py" where
  "render_server_config e =
     py_bind (get_server e) (\<lambda>r.
       if missing r then py_raise (RuntimeError ''wg server not initialized'')
       else py_bind (py_lift (server_header (the r))) (\<lambda>hd.
            py_bind (list_peers e) (\<lambda>peers.
            py_bind (py_lift (peer_blocks peers)) (\<lambda>ls. py_return (join nl (hd @ ls))))))"

definition first_endpoint :: "dict \<Rightarrow> exn + string" where
  "first_endpoint server =
     (case map_of server ''endpoints'' of
        Some (JList (x # _)) \<Rightarrow> (case fstr x of Some s \<Rightarrow> Inr s | None \<Rightarrow> Inl TypeError)
      | Some (JStr (c # _)) \<Rightarrow> Inr [c]
      | j \<Rightarrow> if otruthy j then Inl TypeError else Inl (RuntimeError ''no endpoints''))"

definition render_client_config :: "'s etcd3 \<Rightarrow> string \<Rightarrow> ('s, string) py" where
  "render_client_config e hostname =
     py_bind (get_server e) (\<lambda>r.
       if missing r then py_raise (RuntimeError ''wg server not initialized'')
       else py_bind (get_node e hostname) (\<lambda>n.
         if missing n then py_raise (ValueError ''no node allocation'')
         else py_bind (py_lift (first_endpoint (the r))) (\<lambda>endpoint.
              py_bind (py_lift (fitem (the n) ''ip'')) (\<lambda>ip.
              py_bind (py_lift (fitem (the r) ''pubkey'')) (\<lambda>pub.
                py_return (join nl
                  [''[Interface]'', ''PrivateKey = __PRIVATE_KEY__'', ''Address = '' @ ip @ ''/32'', [],
                   ''# server'', ''[Peer]'', ''PublicKey = '' @ pub, ''Endpoint = '' @ endpoint,
                   ''AllowedIPs = 10.0.0.0/24, '' @ WG_SUBNET, ''PersistentKeepalive = 25'', []]))))))"

section \<open>Applying the configuration\<close>

text \<open>The private key lines of the local file, with a key after the equals sign.\<close>

definition conf_privkeys :: "string \<Rightarrow> string list" where
  "conf_privkeys text =
     filter (\<lambda>k. k \<noteq> [])
       (map (\<lambda>l. case partition_on (CHR ''='') l of (_, _, k) \<Rightarrow> strip k)
         (filter (\<lambda>l. startswith (strip l) ''PrivateKey'') (split_on (CHR 0x0A) text)))"

definition local_wg_pubkey :: "'h tool \<Rightarrow> (('s, 'h) wg, string option) py" where
  "local_wg_pubkey tool =
     py_bind (py_get wg_conf) (\<lambda>c.
       case c of
         None \<Rightarrow> py_return None
       | Some text \<Rightarrow>
           (case conf_privkeys text of
              [] \<Rightarrow> py_return None
            | priv # _ \<Rightarrow> py_try
                (py_bind (on_kernel (tool [''wg'', ''pubkey''] (Some priv))) (\<lambda>out. py_return (Some (strip out))))
                (\<lambda>_. py_return None)))"

definition assert_local_is_server :: "'h tool \<Rightarrow> dict \<Rightarrow> (('s, 'h) wg, unit) py" where
  "assert_local_is_server tool server =
     py_bind (local_wg_pubkey tool) (\<lambda>local_pub.
       case local_pub of
         None \<Rightarrow> py_return ()
       | Some pub \<Rightarrow> py_bind (py_lift (dict_item server ''pubkey'')) (\<lambda>k.
           if k \<noteq> JStr pub then py_raise (RuntimeError ''refusing to reconcile'') else py_return ()))"

text \<open>\<open>ip link show wg0\<close> exits with zero: here, the command does not raise.\<close>

definition wg_interface_exists :: "'h tool \<Rightarrow> ('h, bool) py" where
  "wg_interface_exists tool =
     py_try (py_seq (tool [''ip'', ''link'', ''show'', ''wg0''] None) (py_return True)) (\<lambda>_. py_return False)"

definition sync_live :: "'h tool \<Rightarrow> string \<Rightarrow> ('h, unit) py" where
  "sync_live tool conf =
     py_bind (tool [''wg-quick'', ''strip'', ''wg0''] (Some conf)) (\<lambda>stripped.
       py_seq (tool [''wg'', ''syncconf'', ''wg0''] (Some stripped)) (py_return ()))"

definition wg_reconcile ::
  "'s etcd3 \<Rightarrow> 'h tool \<Rightarrow> bool \<Rightarrow> bool \<Rightarrow> bool \<Rightarrow> bool \<Rightarrow> (('s, 'h) wg, unit) py" where
  "wg_reconcile e tool installed dry up down =
     (if \<not> installed then py_return ()
      else py_bind (on_wg (get_server e)) (\<lambda>r.
        if missing r then py_raise (RuntimeError ''wg server not initialized'')
        else py_seq (assert_local_is_server tool (the r))
          (if down
           then py_bind (on_kernel (wg_interface_exists tool)) (\<lambda>there.
                  if there \<and> \<not> dry
                  then py_seq (on_kernel (tool [''wg-quick'', ''down'', ''wg0''] None)) (py_return ())
                  else py_return ())
           else py_bind (on_wg (render_server_config e)) (\<lambda>config.
                py_seq (if dry then py_return () else py_modify (\<lambda>w. w\<lparr>wg_conf := Some config\<rparr>))
                (py_bind (on_kernel (wg_interface_exists tool)) (\<lambda>there.
                  if \<not> there
                  then (if up \<and> \<not> dry
                        then py_seq (on_kernel (tool [''wg-quick'', ''up'', ''wg0''] (Some config))) (py_return ())
                        else py_return ())
                  else if dry then py_return () else on_kernel (sync_live tool config)))))))"

section \<open>Endpoints\<close>

definition wg_register ::
  "'s etcd3 \<Rightarrow> (string \<Rightarrow> string) \<Rightarrow> (string \<Rightarrow> nat option) \<Rightarrow> int \<Rightarrow> dict \<Rightarrow> ('s, response) py" where
  "wg_register e sha b64 now data =
     (let node_type = or_json (map_of data ''type'') (JStr ''compute'') in
      if \<not> otruthy (map_of data ''mac'') \<or> \<not> otruthy (map_of data ''pubkey'')
      then py_return (error_response 400 ''mac and pubkey are required'')
      else if node_type \<notin> JStr ` set node_types then py_return (error_response 400 ''invalid type'')
      else (case map_of data ''pubkey'' of
        Some (JStr pubkey) \<Rightarrow>
          if b64 pubkey \<noteq> Some 32 then py_return (error_response 400 ''invalid pubkey'')
          else (case map_of data ''mac'' of
            Some (JStr mac) \<Rightarrow>
              py_bind (py_try (py_bind (get_or_create_allocation e now mac (the_str node_type) True)
                         (\<lambda>d. py_return (Inr d))) (\<lambda>_. py_return (Inl (error_response 500 ''allocation failed'')))) (\<lambda>a.
                case a of
                  Inl resp \<Rightarrow> py_return resp
                | Inr allocation \<Rightarrow>
                    py_bind (py_try (py_bind (py_lift (str_item allocation ''hostname'')) (\<lambda>h.
                               py_bind (register_peer e sha False now h pubkey) (\<lambda>p. py_return (Inr p))))
                       (\<lambda>x. py_return (Inl (case x of ValueError m \<Rightarrow> error_response 400 m
                              | _ \<Rightarrow> error_response 500 ''registration failed'')))) (\<lambda>b.
                      case b of
                        Inl resp \<Rightarrow> py_return resp
                      | Inr peer \<Rightarrow>
                          py_bind (py_lift (dict_item allocation ''hostname'')) (\<lambda>h.
                          py_bind (py_lift (dict_item allocation ''ip'')) (\<lambda>ip.
                          py_bind (py_lift (dict_item peer ''status'')) (\<lambda>st.
                          py_bind (py_lift (dict_item peer ''pubkey_sha256'')) (\<lambda>fp.
                            py_return (200, [(''hostname'', h), (''ip'', ip), (''status'', st), (''pubkey_sha256'', fp)])))))))
          | _ \<Rightarrow> py_return (error_response 500 ''allocation failed''))
      | _ \<Rightarrow> py_return (error_response 400 ''invalid pubkey'')))"

definition wg_poll :: "'s etcd3 \<Rightarrow> string \<Rightarrow> string option \<Rightarrow> ('s, response) py" where
  "wg_poll e hostname fp =
     validated_hostname hostname
       (case fp of
          None \<Rightarrow> py_return (error_response 400 ''fp query parameter is required'')
        | Some f \<Rightarrow>
            if f = [] then py_return (error_response 400 ''fp query parameter is required'')
            else py_bind (get_peer e hostname) (\<lambda>r.
              if missing r then py_return (error_response 404 ''no such peer'')
              else (let peer = the r in
                if map_of peer ''pubkey_sha256'' \<noteq> Some (JStr f)
                then py_return (error_response 403 ''fingerprint mismatch'')
                else py_bind (py_lift (dict_item peer ''status'')) (\<lambda>st.
                  if st = JStr ''approved''
                  then py_try (py_bind (render_client_config e hostname) (\<lambda>c.
                         py_return (200, [(''status'', st), (''config'', JStr c)])))
                       (\<lambda>_. py_return (error_response 500 ''render failed''))
                  else py_return (200, [(''status'', st)])))))"

section \<open>Frames\<close>

text \<open>The entries outside the registry are those of \<open>c\<close>.\<close>

definition others :: "store \<Rightarrow> store \<Rightarrow> bool" where
  "others c c' = (\<forall>k. outside_registry k \<longrightarrow> c' k = c k)"

lemma others_upd: "\<not> outside_registry k \<Longrightarrow> others c c' \<Longrightarrow> others c (c'(k := x))"
  by (auto simp: others_def)

lemma registry_inside [simp]: "\<not> outside_registry (BY_MAC @ m)" "\<not> outside_registry (BY_HOSTNAME @ h)"
  by (simp_all add: outside_registry_def)

lemma peer_outside [simp]: "outside_registry (PEER_PREFIX @ h)"
  by (simp add: outside_registry_def startswith_iff PEER_PREFIX_def BY_MAC_def BY_HOSTNAME_def)

definition approved_peer :: "store \<Rightarrow> string \<Rightarrow> dict \<Rightarrow> bool" where
  "approved_peer c h d = (holds_doc c (PEER_PREFIX @ h) d \<and> map_of d ''status'' = Some (JStr ''approved''))"

lemma approved_peer_cong: "c (PEER_PREFIX @ h) = c' (PEER_PREFIX @ h) \<Longrightarrow> approved_peer c h d = approved_peer c' h d"
  by (simp add: approved_peer_def holds_doc_def)

context etcd_seq
begin

lemma keeps_others:
  "keeps (\<lambda>s. others c (view s)) (e_client e)"
  "keeps (\<lambda>s. others c (view s)) (e_get e k)"
  "keeps (\<lambda>s. others c (view s)) (e_get_prefix e p)"
  "\<not> outside_registry k \<Longrightarrow> keeps (\<lambda>s. others c (view s)) (e_put e k v)"
  "\<not> outside_registry k \<Longrightarrow> keeps (\<lambda>s. others c (view s)) (e_delete e k)"
  "keeps (\<lambda>s. others c (view s)) (e_txn e cs [OpPut (BY_MAC @ m) v, OpPut (BY_HOSTNAME @ h) v])"
  by (auto intro!: keepsI wp_seq_intros simp: others_upd)

lemma keeps_others_next_hostname: "keeps (\<lambda>s. others c (view s)) (get_next_hostname e t)"
  by (auto simp: get_next_hostname_def Let_def intro!: keeps_intros keeps_others)

lemma keeps_allocation_tries:
  "keeps (\<lambda>s. others c (view s)) (allocation_tries n e now nmac t wg)"
  by (induction n)
    (auto simp: Let_def intro!: keeps_intros keeps_others keeps_others_next_hostname split: option.splits)

lemma keeps_create_allocation:
  "keeps (\<lambda>s. others c (view s)) (create_allocation e now mac node_type wg)"
  by (auto simp: create_allocation_def intro!: keeps_intros keeps_others keeps_allocation_tries split: option.splits)

lemma keeps_update_allocation:
  "keeps (\<lambda>s. others c (view s)) (update_allocation e now nmac node_type wg d)"
  by (auto simp: update_allocation_def change_transport_def change_type_def put_both_def Let_def
      intro!: keeps_intros keeps_others keeps_others_next_hostname split: option.splits)

lemma keeps_get_or_create_allocation:
  "keeps (\<lambda>s. others c (view s)) (get_or_create_allocation e now mac node_type wg)"
  by (auto simp: get_or_create_allocation_def
      intro!: keeps_intros keeps_others keeps_create_allocation keeps_update_allocation split: option.splits)

lemma wp_register_peer:
  assumes "\<And>r s'. (\<forall>k. k \<noteq> PEER_PREFIX @ h \<longrightarrow> view s' k = view s k) \<Longrightarrow>
      (\<forall>d. approved_peer (view s') h d = approved_peer (view s) h d) \<Longrightarrow>
      (dry \<longrightarrow> view s' = view s) \<Longrightarrow>
      map_of r ''pubkey'' = Some (JStr pubkey) \<Longrightarrow> (\<not> dry \<longrightarrow> holds_doc (view s') (PEER_PREFIX @ h) r) \<Longrightarrow> Q r s'"
    and "\<And>x s'. view s' = view s \<Longrightarrow> E x s'"
  shows "wp (register_peer e sha dry now h pubkey) Q E s"
proof -
  let ?new = "peer_record sha pubkey now"
  have store: "wp (py_seq (put_unless dry e (PEER_PREFIX @ h) ?new) (py_return ?new)) Q E s1"
    if v: "view s1 = view s" and na: "\<And>d. \<not> approved_peer (view s) h d" for s1
  proof (cases dry)
    case True
    with v na show ?thesis by (auto simp: put_unless_def wp_simps peer_record_def intro!: assms)
  next
    case False
    have "wp (e_put e (PEER_PREFIX @ h) (Doc ?new)) (\<lambda>_. Q ?new) E s1"
      by (rule wp_put_seq, rule assms(1))
        (use v na False in \<open>auto simp: approved_peer_def holds_doc_def peer_record_def\<close>)
    with False show ?thesis by (simp add: put_unless_def wp_simps)
  qed
  have known: "wp (if missing r then py_seq (put_unless dry e (PEER_PREFIX @ h) ?new) (py_return ?new)
      else (let existing = the r in
        py_bind (py_lift (dict_item existing ''pubkey'')) (\<lambda>k.
          if k = JStr pubkey then py_return existing
          else py_bind (py_lift (dict_item existing ''status'')) (\<lambda>st.
            if st = JStr ''approved'' then py_raise (ValueError ''already approved'')
            else py_seq (put_unless dry e (PEER_PREFIX @ h) ?new) (py_return ?new))))) Q E s1"
    if v: "view s1 = view s" and some: "\<And>d. r = Some d \<Longrightarrow> holds_doc (view s) (PEER_PREFIX @ h) d"
      and none: "r = None \<Longrightarrow> \<not> (\<exists>d. holds_doc (view s) (PEER_PREFIX @ h) d)" for r s1
  proof (cases "missing r")
    case True
    then have "r = None \<or> r = Some []" by (auto simp: missing_def split: option.splits)
    then have "\<not> approved_peer (view s) h d" for d
      using none some by (auto simp: approved_peer_def dest: holds_doc_unique)
    with store [OF v] True show ?thesis by simp
  next
    case False
    then obtain d where d: "r = Some d" by (auto simp: missing_def split: option.splits)
    from some [OF d] have own: "\<And>d'. approved_peer (view s) h d' \<Longrightarrow> d' = d"
      by (auto simp: approved_peer_def dest: holds_doc_unique)
    have "\<not> approved_peer (view s) h d'" if "map_of d ''status'' = Some st" "st \<noteq> JStr ''approved''" for d' st
      using own [of d'] that by (auto simp: approved_peer_def)
    with store [OF v] False d v some [OF d] show ?thesis
      by (auto simp: wp_bind wp_lift wp_return wp_raise intro!: assms split: sum.splits)
  qed
  show ?thesis
    unfolding register_peer_def Let_def get_node_def get_peer_def wp_bind [of "get_json _ _"]
    by (rule wp_get_json_any)
      (auto simp: wp_raise wp_seq wp_bind [of "get_json _ _"]
        intro!: assms(2) wp_client_seq wp_get_json_any known [unfolded Let_def])
qed

end

section \<open>Peers under the operations\<close>

context etcd_seq
begin

lemma keeps_approved_register:
  "keeps (\<lambda>s. \<forall>h d. approved_peer (view s) h d = P h d) (register_peer e sha dry now h pubkey)"
proof (rule keepsI)
  fix s assume I: "\<forall>h d. approved_peer (view s) h d = P h d"
  show "wp (register_peer e sha dry now h pubkey) (\<lambda>_ s. \<forall>h d. approved_peer (view s) h d = P h d)
      (\<lambda>_ s. \<forall>h d. approved_peer (view s) h d = P h d) s"
  proof (rule wp_register_peer)
    fix s' assume f: "\<forall>k. k \<noteq> PEER_PREFIX @ h \<longrightarrow> view s' k = view s k"
      and same: "\<forall>d. approved_peer (view s') h d = approved_peer (view s) h d"
    have "approved_peer (view s') h' d = approved_peer (view s) h' d" for h' d
      using same f approved_peer_cong [of "view s'" h' "view s" d] by (cases "h' = h") auto
    with I show "\<forall>h d. approved_peer (view s') h d = P h d" by simp
  qed (use I in simp)
qed

lemma keeps_approved_allocation:
  "keeps (\<lambda>s. \<forall>h d. approved_peer (view s) h d = P h d) (get_or_create_allocation e now mac node_type wg)"
proof (rule keepsI)
  fix s assume I: "\<forall>h d. approved_peer (view s) h d = P h d"
  have "others (view s) (view s)" by (simp add: others_def)
  from keepsD [OF keeps_get_or_create_allocation this]
  show "wp (get_or_create_allocation e now mac node_type wg) (\<lambda>_ s. \<forall>h d. approved_peer (view s) h d = P h d)
      (\<lambda>_ s. \<forall>h d. approved_peer (view s) h d = P h d) s"
    by (rule wp_mono) (use I in \<open>simp_all add: others_def approved_peer_def holds_doc_def\<close>)
qed

lemma keeps_approved_wg_register:
  "keeps (\<lambda>s. \<forall>h d. approved_peer (view s) h d = P h d) (wg_register e sha b64 now data)"
  unfolding wg_register_def Let_def
  by (auto intro!: keeps_intros keeps_approved_register keeps_approved_allocation
      split: option.splits json.splits sum.splits)

lemma wp_delete_peer:
  assumes n: "view s (BY_HOSTNAME @ h) = Some (Doc d, n)" and m: "map_of d ''mac'' = Some (JStr m)" "m \<noteq> []"
    and Q: "\<And>s'. view s' = (view s)(PEER_PREFIX @ h := None, BY_HOSTNAME @ h := None, BY_MAC @ m := None) \<Longrightarrow> Q () s'"
  shows "wp (delete_peer e False h) Q E s"
proof -
  have mac: "node_mac (Some (Doc d, n)) = Some (JStr m)" using m by (simp add: node_mac_def)
  have del: "wp (e_delete e (PEER_PREFIX @ h)) (\<lambda>_. wp (e_delete e (BY_HOSTNAME @ h))
      (\<lambda>_. wp (e_delete e (BY_MAC @ m)) (\<lambda>_. Q ()) E) E) E s1" if "view s1 = view s" for s1
    by (rule wp_delete_seq, rule wp_delete_seq, rule wp_delete_seq) (use that Q in auto)
  show ?thesis
    unfolding delete_peer_def wp_seq wp_bind
    by (rule wp_client_seq, rule wp_get_seq) (use n mac m(2) del in \<open>simp add: wp_simps\<close>)
qed

lemma keeps_same_reads:
  "keeps (\<lambda>s. view s = c) (e_client e)" "keeps (\<lambda>s. view s = c) (e_get e k)"
  "keeps (\<lambda>s. view s = c) (e_get_prefix e p)" "keeps (\<lambda>s. view s = c) (get_json e k)"
  by (auto simp: get_json_def intro!: keepsI wp_seq_intros simp: wp_simps split: option.splits sum.splits)

lemma keeps_same_render: "keeps (\<lambda>s. view s = c) (render_server_config e)"
proof -
  have "keeps (\<lambda>s. view s = c) (collect_peers e xs)" for xs
    by (induction xs) (auto simp: Let_def get_node_def intro!: keeps_intros keeps_same_reads)
  then show ?thesis
    by (auto simp: render_server_config_def get_server_def list_peers_def intro!: keeps_intros keeps_same_reads)
qed

lemma keeps_same_dry:
  "keeps (\<lambda>s. view s = c) (register_peer e sha True now h pubkey)"
  "keeps (\<lambda>s. view s = c) (set_peer_status e True now h st)"
  "keeps (\<lambda>s. view s = c) (delete_peer e True h)"
  by (auto simp: register_peer_def set_peer_status_def delete_peer_def put_unless_def get_node_def get_peer_def Let_def
      intro!: keeps_intros keeps_same_reads)

text \<open>The store and the configuration file, in the process that runs the command.\<close>

abbreviation untouched :: "store \<Rightarrow> string option \<Rightarrow> ('s, 'h) wg \<Rightarrow> bool" where
  "untouched c f w \<equiv> view (wg_kv w) = c \<and> wg_conf w = f"

lemma keeps_on_wg: "keeps (\<lambda>s. view s = c) m \<Longrightarrow> keeps (untouched c f) (on_wg m)"
  by (rule keeps_zoomI) auto

lemma keeps_on_kernel: "keeps (untouched c f) (on_kernel m)"
  by (rule keeps_zoom) auto

lemma keeps_assert_local: "keeps (untouched c f) (assert_local_is_server tool server)"
  by (auto simp: assert_local_is_server_def local_wg_pubkey_def
      intro!: keeps_intros keeps_on_kernel split: option.splits list.splits)

lemma keeps_reconcile_dry: "keeps (untouched c f) (wg_reconcile e tool installed True up down)"
  unfolding wg_reconcile_def get_server_def
  by (auto intro!: keeps_bind keeps_seq keeps_on_wg keeps_on_kernel keeps_same_reads keeps_same_render keeps_assert_local)

lemma keeps_init_dry: "keeps (untouched c f) (init_server e tool True eps port rot)"
  unfolding init_server_def get_server_def put_unless_def Let_def
  by (auto intro!: keeps_bind keeps_seq keeps_on_wg keeps_on_kernel keeps_same_reads)

end

section \<open>The server's configuration\<close>

lemma distinct_sort_key: "distinct (map f (sort_key k xs)) = distinct (map f xs)"
  by (simp add: distinct_map)

text \<open>Peers and allocations as the program writes them: objects with the fields it reads.\<close>

definition peers_wf :: "store \<Rightarrow> bool" where
  "peers_wf c =
     ((\<forall>k b n. startswith k PEER_PREFIX \<and> c k = Some (b, n) \<longrightarrow>
         (\<exists>d st key. b = Doc d \<and> map_of d ''status'' = Some st \<and> map_of d ''pubkey'' = Some (JStr key)))
    \<and> (\<forall>h b n. c (BY_HOSTNAME @ h) = Some (b, n) \<longrightarrow>
         (\<exists>d ip. b = Doc d \<and> map_of d ''ip'' = Some (JStr ip))))"

definition peer_key :: "store \<Rightarrow> string \<Rightarrow> string" where
  "peer_key c h = (case doc_at c (PEER_PREFIX @ h) of Some d \<Rightarrow> the (get_str d ''pubkey'') | None \<Rightarrow> [])"

definition node_ip :: "store \<Rightarrow> string \<Rightarrow> string" where
  "node_ip c h = (case doc_at c (BY_HOSTNAME @ h) of Some d \<Rightarrow> the (get_str d ''ip'') | None \<Rightarrow> [])"

definition served :: "store \<Rightarrow> string \<Rightarrow> bool" where
  "served c h = ((\<exists>d. approved_peer c h d) \<and> c (BY_HOSTNAME @ h) \<noteq> None)"

text \<open>A row of the listing agrees with the store.\<close>

definition row_ok :: "store \<Rightarrow> string \<times> dict \<times> dict option \<Rightarrow> bool" where
  "row_ok c x = (case x of (h, p, nd) \<Rightarrow>
     doc_at c (PEER_PREFIX @ h) = Some p \<and> nd = doc_at c (BY_HOSTNAME @ h)
     \<and> map_of p ''status'' \<noteq> None \<and> (\<exists>key. map_of p ''pubkey'' = Some (JStr key))
     \<and> (\<forall>d. nd = Some d \<longrightarrow> (\<exists>ip. map_of d ''ip'' = Some (JStr ip)))
     \<and> (c (BY_HOSTNAME @ h) = None \<longleftrightarrow> nd = None))"

lemma peer_blocks_spec:
  assumes "list_all (row_ok c) ps"
  shows "peer_blocks ps = Inr (concat (map (\<lambda>h. peer_block h (peer_key c h) (node_ip c h)) (filter (served c) (map fst ps))))"
  using assms
proof (induction ps)
  case (Cons x ps)
  obtain h p nd where x: "x = (h, p, nd)" by (metis prod.exhaust)
  have IH: "peer_blocks ps = Inr (concat (map (\<lambda>h. peer_block h (peer_key c h) (node_ip c h)) (filter (served c) (map fst ps))))"
    using Cons by simp
  from Cons.prems x have row: "row_ok c (h, p, nd)" by simp
  then obtain st key where h: "doc_at c (PEER_PREFIX @ h) = Some p" "nd = doc_at c (BY_HOSTNAME @ h)"
      "map_of p ''status'' = Some st" "map_of p ''pubkey'' = Some (JStr key)"
    by (auto simp: row_ok_def)
  from row have h2: "\<forall>d. nd = Some d \<longrightarrow> (\<exists>ip. map_of d ''ip'' = Some (JStr ip))" "c (BY_HOSTNAME @ h) = None \<longleftrightarrow> nd = None"
    by (simp_all add: row_ok_def)
  have sv: "served c h \<longleftrightarrow> st = JStr ''approved'' \<and> nd \<noteq> None"
    using h h2(2) doc_at_Some [of c "PEER_PREFIX @ h" p] by (auto simp: served_def approved_peer_def dest: holds_doc_unique)
  show ?case
  proof (cases nd)
    case None
    with x h IH sv show ?thesis by (auto simp: dict_item_def missing_def)
  next
    case (Some d)
    with h2(1) obtain ip where ip: "map_of d ''ip'' = Some (JStr ip)" by blast
    then have "d \<noteq> []" by auto
    with x h IH sv Some ip show ?thesis
      by (auto simp: dict_item_def missing_def fitem_def peer_key_def node_ip_def get_str_def)
  qed
qed simp

context etcd_seq
begin

lemma wp_collect_peers:
  assumes "\<And>k b. (k, b) \<in> set xs \<Longrightarrow> \<exists>d. b = Doc d"
    and "\<And>h b n. view s (BY_HOSTNAME @ h) = Some (b, n) \<Longrightarrow> \<exists>d. b = Doc d"
    and "\<And>s'. view s' = view s \<Longrightarrow> Q (map (\<lambda>(k, b). (drop (length PEER_PREFIX) k, the (doc_of b),
      doc_at (view s) (BY_HOSTNAME @ drop (length PEER_PREFIX) k))) xs) s'"
  shows "wp (collect_peers e xs) Q E s"
  using assms
proof (induction xs arbitrary: s Q)
  case Nil
  then show ?case by (simp add: wp_simps)
next
  case (Cons x xs)
  obtain k b where x: "x = (k, b)" by (cases x)
  with Cons.prems(1) [of k b] obtain d where b: "b = Doc d" by auto
  let ?h = "drop (length PEER_PREFIX) k"
  have node: "wp (get_node e ?h) Q' E s" if Q': "\<And>s'. view s' = view s \<Longrightarrow> Q' (doc_at (view s) (BY_HOSTNAME @ ?h)) s'" for Q'
  proof (cases "view s (BY_HOSTNAME @ ?h)")
    case None
    with Q' show ?thesis unfolding get_node_def by (intro wp_get_json_none) (auto simp: doc_at_def)
  next
    case (Some bn)
    obtain b' n where bn: "bn = (b', n)" by (cases bn)
    with Some Cons.prems(2) obtain d' where "b' = Doc d'" by blast
    with Some bn Q' show ?thesis unfolding get_node_def by (intro wp_get_json_doc) (auto simp: doc_at_def)
  qed
  show ?case
    unfolding x b collect_peers.simps Let_def
    by (simp add: wp_bind wp_lift wp_return)
      (rule node, rule Cons.IH, use Cons.prems x b in \<open>auto simp: doc_of_def\<close>)
qed

lemma wp_list_peers:
  assumes wf: "peers_wf (view s)"
    and Q: "\<And>ps s'. view s' = view s \<Longrightarrow> sorted (map fst ps) \<Longrightarrow> distinct (map fst ps) \<Longrightarrow>
      set ps = {(h, p, nd). doc_at (view s) (PEER_PREFIX @ h) = Some p \<and> nd = doc_at (view s) (BY_HOSTNAME @ h)} \<Longrightarrow> Q ps s'"
  shows "wp (list_peers e) Q E s"
  unfolding list_peers_def wp_seq wp_bind wp_return
proof (rule wp_client_seq, rule wp_prefix_seq)
  fix s1 xs s2 assume v: "view s1 = view s" "view s2 = view s1" and xs: "prefix_list (view s1) PEER_PREFIX xs"
  let ?f = "\<lambda>(k, b). (drop (length PEER_PREFIX) k, the (doc_of b), doc_at (view s2) (BY_HOSTNAME @ drop (length PEER_PREFIX) k))"
  have mem: "(k, b) \<in> set xs \<longleftrightarrow> startswith k PEER_PREFIX \<and> (\<exists>n. view s k = Some (b, n))" for k b
    using prefix_listD [OF xs] v by simp
  have doc: "\<exists>d. b = Doc d" if "(k, b) \<in> set xs" for k b
    using wf that unfolding mem peers_wf_def by blast
  have "set (map ?f xs) = {(h, p, nd). doc_at (view s) (PEER_PREFIX @ h) = Some p \<and> nd = doc_at (view s) (BY_HOSTNAME @ h)}"
  proof (intro set_eqI iffI)
    fix y assume "y \<in> set (map ?f xs)"
    then obtain k b where kb: "(k, b) \<in> set xs" "y = ?f (k, b)" by auto
    with doc obtain d where "b = Doc d" by blast
    with kb mem [of k b] v show "y \<in> {(h, p, nd). doc_at (view s) (PEER_PREFIX @ h) = Some p \<and> nd = doc_at (view s) (BY_HOSTNAME @ h)}"
      by (auto simp: startswith_iff doc_of_def doc_at_def)
  next
    fix y assume "y \<in> {(h, p, nd). doc_at (view s) (PEER_PREFIX @ h) = Some p \<and> nd = doc_at (view s) (BY_HOSTNAME @ h)}"
    then obtain h p where y: "y = (h, p, doc_at (view s) (BY_HOSTNAME @ h))" "doc_at (view s) (PEER_PREFIX @ h) = Some p"
      by auto
    then have "(PEER_PREFIX @ h, Doc p) \<in> set xs" unfolding mem doc_at_Some holds_doc_def by simp
    then show "y \<in> set (map ?f xs)"
      unfolding set_map by (rule rev_image_eqI) (use y v in \<open>simp add: doc_of_def\<close>)
  qed
  moreover have "distinct (map fst (map ?f xs))"
  proof -
    have "map fst (map ?f xs) = map (drop (length PEER_PREFIX)) (map fst xs)" by auto
    moreover have "inj_on (drop (length PEER_PREFIX)) (set (map fst xs))"
    proof (rule inj_onI)
      fix a b assume "a \<in> set (map fst xs)" "b \<in> set (map fst xs)"
        and eq: "drop (length PEER_PREFIX) a = drop (length PEER_PREFIX) b"
      then have "startswith a PEER_PREFIX" "startswith b PEER_PREFIX" using mem by auto
      with eq show "a = b" by (auto simp: startswith_iff)
    qed
    moreover have "distinct (map fst xs)" using xs by (simp add: prefix_list_def)
    ultimately show ?thesis by (metis distinct_map)
  qed
  ultimately have "Q (sort_key fst (map ?f xs)) s'" if "view s' = view s2" for s'
    using that v by (intro Q) (simp_all add: sorted_sort_key distinct_sort_key)
  moreover have "\<exists>d. b = Doc d" if "view s2 (BY_HOSTNAME @ h) = Some (b, n)" for h b n
    using wf that v unfolding peers_wf_def by metis
  ultimately show "wp (collect_peers e xs) (\<lambda>x. Q (sort_key fst x)) E s2"
    using doc by (intro wp_collect_peers)
qed

end

context etcd_seq
begin

lemma wp_render_server:
  assumes wf: "peers_wf (view s)" and srv: "view s SERVER_KEY = Some (Doc server, n)" "server \<noteq> []"
    and hd: "server_header server = Inr hdr"
    and Q: "\<And>hs s'. sorted hs \<Longrightarrow> distinct hs \<Longrightarrow> set hs = {h. served (view s) h} \<Longrightarrow> view s' = view s \<Longrightarrow>
      Q (join nl (hdr @ concat (map (\<lambda>h. peer_block h (peer_key (view s) h) (node_ip (view s) h)) hs))) s'"
  shows "wp (render_server_config e) Q E s"
proof -
  have peers: "wp (list_peers e) (\<lambda>ps. wp (py_bind (py_lift (peer_blocks ps)) (\<lambda>ls. py_return (join nl (hdr @ ls)))) Q E) E s1"
    if v: "view s1 = view s" for s1
  proof (rule wp_list_peers)
    show "peers_wf (view s1)" using wf v by simp
    fix ps s' assume v': "view s' = view s1" and ps: "sorted (map fst ps)" "distinct (map fst ps)"
      "set ps = {(h, p, nd). doc_at (view s1) (PEER_PREFIX @ h) = Some p \<and> nd = doc_at (view s1) (BY_HOSTNAME @ h)}"
    have row: "row_ok (view s) x" if "x \<in> set ps" for x
    proof -
      obtain h p nd where x: "x = (h, p, nd)" by (metis prod.exhaust)
      with that ps(3) v have h: "holds_doc (view s) (PEER_PREFIX @ h) p" "nd = doc_at (view s) (BY_HOSTNAME @ h)"
        by (auto simp: doc_at_Some)
      then obtain n' where "view s (PEER_PREFIX @ h) = Some (Doc p, n')" by (auto simp: holds_doc_def)
      with wf have "map_of p ''status'' \<noteq> None \<and> (\<exists>key. map_of p ''pubkey'' = Some (JStr key))"
        unfolding peers_wf_def by (metis blob.inject(1) option.distinct(1) startswith_append)
      moreover have "(\<forall>d. nd = Some d \<longrightarrow> (\<exists>ip. map_of d ''ip'' = Some (JStr ip))) \<and>
          (view s (BY_HOSTNAME @ h) = None \<longleftrightarrow> nd = None)"
      proof (cases "view s (BY_HOSTNAME @ h)")
        case (Some bn)
        obtain b m where "bn = (b, m)" by (cases bn)
        with Some wf obtain d ip where "b = Doc d" "map_of d ''ip'' = Some (JStr ip)"
          unfolding peers_wf_def by metis
        with Some \<open>bn = (b, m)\<close> h(2) show ?thesis by (auto simp: doc_at_def)
      qed (simp add: h doc_at_def)
      ultimately show ?thesis using x h by (simp add: row_ok_def doc_at_Some)
    qed
    let ?hs = "filter (served (view s)) (map fst ps)"
    have "peer_blocks ps = Inr (concat (map (\<lambda>h. peer_block h (peer_key (view s) h) (node_ip (view s) h)) ?hs))"
      by (rule peer_blocks_spec) (use row in \<open>simp add: list_all_iff\<close>)
    moreover have "set ?hs = {h. served (view s) h}"
      using ps(3) v by (auto simp: served_def approved_peer_def doc_at_Some image_iff)
    moreover have "sorted ?hs" "distinct ?hs" using ps by (simp_all add: sorted_wrt_filter)
    ultimately show "wp (py_bind (py_lift (peer_blocks ps)) (\<lambda>ls. py_return (join nl (hdr @ ls)))) Q E s'"
      using Q v v' by (simp add: wp_bind wp_lift wp_return)
  qed
  show ?thesis
    unfolding render_server_config_def get_server_def wp_bind [of "get_json _ _"]
    by (rule wp_get_json_doc [OF srv(1)])
      (use srv(2) hd peers in \<open>simp add: missing_def wp_bind wp_lift\<close>)
qed

lemma wp_poll_config:
  "wp (wg_poll e h fp)
     (\<lambda>(c, body) s'. view s' = view s \<and> (map_of body ''config'' \<noteq> None \<longrightarrow>
        (\<exists>d f. fp = Some f \<and> approved_peer (view s) h d \<and> map_of d ''pubkey_sha256'' = Some (JStr f))))
     (\<lambda>_ s'. view s' = view s) s"
proof -
  have render: "keeps (\<lambda>s. view s = c) (render_client_config e h)" for c
    by (auto simp: render_client_config_def get_server_def get_node_def intro!: keeps_intros keeps_same_reads)
  have "wp (render_client_config e h) (\<lambda>_ s'. view s' = view s) (\<lambda>_ s'. view s' = view s) s1" if "view s1 = view s" for s1
    by (rule keepsD [OF render that])
  then have answer: "wp (py_try (py_bind (render_client_config e h) (\<lambda>c. py_return (200 :: int, [(''status'', st), (''config'', JStr c)])))
      (\<lambda>_. py_return (500, [(''error'', JStr ''render failed'')])))
     (\<lambda>(c, body) s'. view s' = view s \<and> ((\<exists>y. map_of body ''config'' = Some y) \<longrightarrow> P))
     (\<lambda>_ s'. view s' = view s) s1" if "view s1 = view s" P for s1 st P
    unfolding wp_try wp_bind wp_return
    by (rule wp_mono) (use that in auto)
  show ?thesis
    unfolding wg_poll_def validated_hostname_def Let_def get_peer_def
    by (auto simp: wp_return wp_bind [of "get_json _ _"] error_response_def split: option.splits
        intro!: wp_get_json_any)
      (auto simp: missing_def wp_bind [of "py_lift _"] wp_lift wp_return error_response_def approved_peer_def
        split: option.splits sum.splits intro!: answer)
qed

end

section \<open>Properties\<close>

text \<open>C18: the public registration endpoint can neither approve a peer nor touch an approved one: whatever
  the request, the approved peers and their records are the same after it as before, key included.\<close>

theorem wg_register_cannot_approve:
  assumes "etcd_seq e view" and "wg_register e sha b64 now data s = (r, s')"
  shows "\<forall>h d. approved_peer (view s') h d = approved_peer (view s) h d"
  by (rule keeps_run [OF etcd_seq.keeps_approved_wg_register [OF assms(1)] _ assms(2)]) simp

definition wg_peer :: "string \<Rightarrow> string \<Rightarrow> dict" where
  "wg_peer key st = [(''pubkey'', JStr key), (''pubkey_sha256'', JStr key), (''status'', JStr st)]"

definition wg_store :: mem where
  "wg_store = \<lparr>mem_data = [(BY_MAC @ ''aa'', Doc (c1_doc @ [(''via_wg'', JBool True)]), 1),
     (BY_HOSTNAME @ ''c1'', Doc (c1_doc @ [(''via_wg'', JBool True)]), 1),
     (PEER_PREFIX @ ''c1'', Doc (wg_peer ''old'' ''approved''), 2)], mem_rev = 2\<rparr>"

theorem wg_register_cannot_approve_witness:
  "fst (wg_register mem_etcd id (\<lambda>_. Some 32) 0 [(''mac'', JStr ''aa''), (''pubkey'', JStr ''new'')] wg_store)
     = Inr (error_response 400 ''already approved'') \<and>
   approved_peer (mem_view (snd (wg_register mem_etcd id (\<lambda>_. Some 32) 0
     [(''mac'', JStr ''aa''), (''pubkey'', JStr ''new'')] wg_store))) ''c1'' (wg_peer ''old'' ''approved'')"
proof
  show "fst (wg_register mem_etcd id (\<lambda>_. Some 32) 0 [(''mac'', JStr ''aa''), (''pubkey'', JStr ''new'')] wg_store)
     = Inr (error_response 400 ''already approved'')" by code_simp
  have "approved_peer (mem_view wg_store) ''c1'' (wg_peer ''old'' ''approved'')"
    by (simp add: approved_peer_def holds_doc_def wg_store_def mem_view_def wg_peer_def PEER_PREFIX_def BY_MAC_def BY_HOSTNAME_def)
  then show "approved_peer (mem_view (snd (wg_register mem_etcd id (\<lambda>_. Some 32) 0
     [(''mac'', JStr ''aa''), (''pubkey'', JStr ''new'')] wg_store))) ''c1'' (wg_peer ''old'' ''approved'')"
    using wg_register_cannot_approve [OF memkv.etcd_seq_axioms prod.collapse [symmetric]] by blast
qed

text \<open>A registered key is the one the record holds afterwards, under the host's own entry only; with
  an approved peer and another key the call fails and nothing changes.\<close>

theorem register_peer_pins_key:
  assumes "etcd_seq e view" and "register_peer e sha False now h pubkey s = (r, s')"
  shows "(\<forall>k. k \<noteq> PEER_PREFIX @ h \<longrightarrow> view s' k = view s k) \<and>
    (\<forall>d. approved_peer (view s) h d \<longrightarrow> view s' = view s \<and> (r = Inr d \<and> map_of d ''pubkey'' = Some (JStr pubkey) \<or> isl r)
       \<or> holds_doc (view s') (PEER_PREFIX @ h) d \<and> r = Inr d) \<and>
    (\<forall>p. r = Inr p \<longrightarrow> holds_doc (view s') (PEER_PREFIX @ h) p \<and> map_of p ''pubkey'' = Some (JStr pubkey))"
proof -
  have "wp (register_peer e sha False now h pubkey)
     (\<lambda>p s'. (\<forall>k. k \<noteq> PEER_PREFIX @ h \<longrightarrow> view s' k = view s k) \<and> (\<forall>d. approved_peer (view s') h d = approved_peer (view s) h d)
        \<and> map_of p ''pubkey'' = Some (JStr pubkey) \<and> holds_doc (view s') (PEER_PREFIX @ h) p)
     (\<lambda>_ s'. view s' = view s) s"
    by (rule etcd_seq.wp_register_peer [OF assms(1)]) auto
  with assms(2) consider x where "r = Inl x" "view s' = view s"
    | p where "r = Inr p" "\<forall>k. k \<noteq> PEER_PREFIX @ h \<longrightarrow> view s' k = view s k"
      "\<forall>d. approved_peer (view s') h d = approved_peer (view s) h d"
      "map_of p ''pubkey'' = Some (JStr pubkey)" "holds_doc (view s') (PEER_PREFIX @ h) p"
    by (auto simp: wp_def split: sum.splits)
  then show ?thesis
  proof cases
    case 1
    then show ?thesis by simp
  next
    case 2
    have "d = p" if "approved_peer (view s) h d" for d
      using that 2 by (auto simp: approved_peer_def dest: holds_doc_unique)
    with 2 show ?thesis by auto
  qed
qed

theorem register_peer_pins_key_witness:
  "\<exists>p. fst (register_peer mem_etcd id False 0 ''c1'' ''key'' c1_store) = Inr p \<and> map_of p ''pubkey'' = Some (JStr ''key'')
     \<and> holds_doc (mem_view (snd (register_peer mem_etcd id False 0 ''c1'' ''key'' c1_store))) (PEER_PREFIX @ ''c1'') p"
proof -
  let ?run = "register_peer mem_etcd id False 0 ''c1'' ''key'' c1_store"
  have "(case fst ?run of Inr p \<Rightarrow> True | Inl _ \<Rightarrow> False)" by code_simp
  then obtain p where "fst ?run = Inr p" by (auto split: sum.splits)
  with register_peer_pins_key [OF memkv.etcd_seq_axioms prod.collapse [symmetric]]
  show ?thesis by blast
qed

text \<open>C22: the rendered server configuration lists exactly the approved peers that have a node allocation,
  in order of their names, each with its own key and the address of its allocation; pending and
  revoked peers are not in it.\<close>

theorem server_config_lists_approved:
  assumes "etcd_seq e view" and "peers_wf (view s)" and "holds_doc (view s) SERVER_KEY server" and "server \<noteq> []"
    and "server_header server = Inr hdr" and "render_server_config e s = (r, s')"
  shows "\<exists>hs. sorted hs \<and> distinct hs \<and>
    set hs = {h. (\<exists>d. approved_peer (view s) h d) \<and> view s (BY_HOSTNAME @ h) \<noteq> None} \<and>
    r = Inr (join nl (hdr @ concat (map (\<lambda>h. peer_block h (peer_key (view s) h) (node_ip (view s) h)) hs)))"
proof -
  from assms(3) obtain n where n: "view s SERVER_KEY = Some (Doc server, n)" by (auto simp: holds_doc_def)
  have "wp (render_server_config e) (\<lambda>x _. \<exists>hs. sorted hs \<and> distinct hs \<and> set hs = {h. served (view s) h} \<and>
      x = join nl (hdr @ concat (map (\<lambda>h. peer_block h (peer_key (view s) h) (node_ip (view s) h)) hs))) (\<lambda>_ _. False) s"
    by (rule etcd_seq.wp_render_server [OF assms(1,2) n assms(4,5)]) blast
  with assms(6) show ?thesis by (auto simp: wp_def served_def split: sum.splits)
qed

definition wg_server :: dict where
  "wg_server = [(''privkey'', JStr ''sk''), (''pubkey'', JStr ''pk''), (''port'', JInt 53), (''server_ip'', JStr ''10.0.1.1'')]"

definition wg_full_store :: mem where
  "wg_full_store = wg_store\<lparr>mem_data := mem_data wg_store @ [(SERVER_KEY, Doc wg_server, 1),
     (PEER_PREFIX @ ''c2'', Doc (wg_peer ''k2'' ''pending''), 3)]\<rparr>"

lemma wg_full_view: "mem_view wg_full_store k =
  (if k = BY_MAC @ ''aa'' then Some (Doc (c1_doc @ [(''via_wg'', JBool True)]), 1)
   else if k = BY_HOSTNAME @ ''c1'' then Some (Doc (c1_doc @ [(''via_wg'', JBool True)]), 1)
   else if k = PEER_PREFIX @ ''c1'' then Some (Doc (wg_peer ''old'' ''approved''), 2)
   else if k = SERVER_KEY then Some (Doc wg_server, 1)
   else if k = PEER_PREFIX @ ''c2'' then Some (Doc (wg_peer ''k2'' ''pending''), 3) else None)"
  by (simp add: wg_full_store_def wg_store_def mem_view_def)

lemma wg_keys: "SERVER_KEY \<noteq> PEER_PREFIX @ h" "SERVER_KEY \<noteq> BY_MAC @ m" "SERVER_KEY \<noteq> BY_HOSTNAME @ h"
  "PEER_PREFIX @ h \<noteq> BY_MAC @ m" "PEER_PREFIX @ h \<noteq> BY_HOSTNAME @ h'" "BY_MAC @ m \<noteq> PEER_PREFIX @ h"
  "BY_HOSTNAME @ h' \<noteq> PEER_PREFIX @ h" "PEER_PREFIX @ h \<noteq> SERVER_KEY" "BY_HOSTNAME @ h \<noteq> SERVER_KEY"
  by (simp_all add: SERVER_KEY_def PEER_PREFIX_def BY_MAC_def BY_HOSTNAME_def)

theorem server_config_lists_approved_witness:
  "\<exists>hs. set hs = {''c1''} \<and> distinct hs \<and> fst (render_server_config mem_etcd wg_full_store) =
     Inr (join nl ([''[Interface]'', ''PrivateKey = sk'', ''ListenPort = 53'', ''Address = 10.0.1.1/24'', []]
       @ concat (map (\<lambda>h. peer_block h (peer_key (mem_view wg_full_store) h) (node_ip (mem_view wg_full_store) h)) hs)))"
proof -
  have wf: "peers_wf (mem_view wg_full_store)"
    by (auto simp: peers_wf_def wg_full_view wg_keys startswith_iff wg_peer_def c1_doc_def)
  have srv: "holds_doc (mem_view wg_full_store) SERVER_KEY wg_server"
    by (simp add: holds_doc_def wg_full_view wg_keys)
  have ne: "wg_server \<noteq> []" by (simp add: wg_server_def)
  have hd: "server_header wg_server = Inr [''[Interface]'', ''PrivateKey = sk'', ''ListenPort = 53'', ''Address = 10.0.1.1/24'', []]"
    by code_simp
  have sv: "{h. (\<exists>d. approved_peer (mem_view wg_full_store) h d) \<and> mem_view wg_full_store (BY_HOSTNAME @ h) \<noteq> None} = {''c1''}"
    by (auto simp: approved_peer_def holds_doc_def wg_full_view wg_keys wg_peer_def)
  from server_config_lists_approved [OF memkv.etcd_seq_axioms wf srv ne hd prod.collapse [symmetric]]
  show ?thesis unfolding sv by blast
qed

text \<open>C19: polling hands out a client configuration only for a peer that is approved and whose key
  fingerprint the caller presented, and it changes nothing.\<close>

theorem wg_poll_needs_approval:
  assumes "etcd_seq e view" and "wg_poll e h fp s = (r, s')"
  shows "view s' = view s \<and> (\<forall>c body. r = Inr (c, body) \<and> map_of body ''config'' \<noteq> None \<longrightarrow>
    (\<exists>d f. fp = Some f \<and> approved_peer (view s) h d \<and> map_of d ''pubkey_sha256'' = Some (JStr f)))"
  using etcd_seq.wp_poll_config [OF assms(1), of h fp s] assms(2)
  by (auto simp: wp_def split: sum.splits prod.splits)

theorem wg_poll_needs_approval_witness:
  "fst (wg_poll mem_etcd ''c2'' (Some ''k2'') wg_full_store) = Inr (200, [(''status'', JStr ''pending'')]) \<and>
   mem_view (snd (wg_poll mem_etcd ''c2'' (Some ''k2'') wg_full_store)) = mem_view wg_full_store"
proof
  show "fst (wg_poll mem_etcd ''c2'' (Some ''k2'') wg_full_store) = Inr (200, [(''status'', JStr ''pending'')])" by code_simp
  show "mem_view (snd (wg_poll mem_etcd ''c2'' (Some ''k2'') wg_full_store)) = mem_view wg_full_store"
    using wg_poll_needs_approval [OF memkv.etcd_seq_axioms prod.collapse [symmetric]] by blast
qed

text \<open>Deleting a peer removes its record and both entries of its node, nothing else, and keeps the
  registry a correspondence.\<close>

theorem delete_peer_correct:
  assumes "etcd_seq e view" and "reg_inv (view s)" and "owned (view s) m h" and "m \<noteq> []"
    and "delete_peer e False h s = (r, s')"
  shows "r = Inr () \<and> reg_inv (view s') \<and>
    view s' = (view s)(PEER_PREFIX @ h := None, BY_HOSTNAME @ h := None, BY_MAC @ m := None)"
proof -
  from assms(3) obtain d n where d: "view s (BY_HOSTNAME @ h) = Some (Doc d, n)" "doc_has d m h"
    "holds_doc (view s) (BY_HOSTNAME @ h) d" by (auto simp: owned_def holds_doc_def)
  have "wp (delete_peer e False h) (\<lambda>_ s'. view s' = (view s)(PEER_PREFIX @ h := None, BY_HOSTNAME @ h := None,
      BY_MAC @ m := None)) (\<lambda>_ _. False) s"
    by (rule etcd_seq.wp_delete_peer [OF assms(1) d(1)]) (use d assms(4) in \<open>auto simp: doc_has_def\<close>)
  with assms(5) have run: "r = Inr ()" "view s' = (view s)(PEER_PREFIX @ h := None, BY_HOSTNAME @ h := None, BY_MAC @ m := None)"
    by (auto simp: wp_def split: sum.splits)
  moreover have "reg_inv ((view s)(BY_HOSTNAME @ h := None, BY_MAC @ m := None))"
    by (rule reg_inv_remove [OF assms(2) d(3,2)])
  moreover have "(view s)(PEER_PREFIX @ h := None, BY_HOSTNAME @ h := None, BY_MAC @ m := None) =
      (view s)(BY_HOSTNAME @ h := None, BY_MAC @ m := None, PEER_PREFIX @ h := None)"
    by (auto simp: fun_eq_iff wg_keys)
  ultimately show ?thesis by (simp add: reg_inv_outside)
qed

theorem delete_peer_correct_witness:
  "reg_inv (mem_view (snd (delete_peer mem_etcd False ''c1'' c1_store)))
   \<and> mem_view (snd (delete_peer mem_etcd False ''c1'' c1_store)) (BY_MAC @ ''aa'') = None"
proof -
  have "owned (mem_view c1_store) ''aa'' ''c1''"
    by (auto simp: owned_def holds_doc_def c1_store_def mem_view_def doc_has_def c1_doc_def)
  from delete_peer_correct [OF memkv.etcd_seq_axioms c1_store_reg(1) this _ prod.collapse [symmetric]]
  have "reg_inv (mem_view (snd (delete_peer mem_etcd False ''c1'' c1_store)))"
    and v: "mem_view (snd (delete_peer mem_etcd False ''c1'' c1_store)) = (mem_view c1_store)
      (PEER_PREFIX @ ''c1'' := None, BY_HOSTNAME @ ''c1'' := None, BY_MAC @ ''aa'' := None)"
    by blast+
  then show ?thesis unfolding v by simp
qed

text \<open>With \<open>--dry-run\<close> no WireGuard operation writes: the store is unchanged after registering,
  changing the status of, or deleting a peer, and the store and the configuration file are
  unchanged after initialising the server or reconciling, whatever the tools do.\<close>

theorem dry_run_writes_nothing:
  assumes "etcd_seq e view"
  shows "view (snd (register_peer e sha True now h pubkey s)) = view s
    \<and> view (snd (set_peer_status e True now h st s)) = view s
    \<and> view (snd (delete_peer e True h s)) = view s
    \<and> (let w' = snd (init_server e tool True eps port rot w) in view (wg_kv w') = view (wg_kv w) \<and> wg_conf w' = wg_conf w)
    \<and> (let w' = snd (wg_reconcile e tool installed True up down w) in view (wg_kv w') = view (wg_kv w) \<and> wg_conf w' = wg_conf w)"
proof -
  have "view (wg_kv (snd (init_server e tool True eps port rot w))) = view (wg_kv w)
      \<and> wg_conf (snd (init_server e tool True eps port rot w)) = wg_conf w"
    by (rule keeps_run [OF etcd_seq.keeps_init_dry [OF assms] _ prod.collapse [symmetric]]) simp
  moreover have "view (wg_kv (snd (wg_reconcile e tool installed True up down w))) = view (wg_kv w)
      \<and> wg_conf (snd (wg_reconcile e tool installed True up down w)) = wg_conf w"
    by (rule keeps_run [OF etcd_seq.keeps_reconcile_dry [OF assms] _ prod.collapse [symmetric]]) simp
  ultimately show ?thesis
    using keeps_run [OF etcd_seq.keeps_same_dry(1) [OF assms] refl prod.collapse [symmetric]]
      keeps_run [OF etcd_seq.keeps_same_dry(2) [OF assms] refl prod.collapse [symmetric]]
      keeps_run [OF etcd_seq.keeps_same_dry(3) [OF assms] refl prod.collapse [symmetric]]
    by (simp add: Let_def)
qed

theorem dry_run_writes_nothing_witness:
  "mem_view (snd (register_peer mem_etcd id True 0 ''c1'' ''k'' c1_store)) = mem_view c1_store"
  using dry_run_writes_nothing [OF memkv.etcd_seq_axioms] by blast

end
