(* ===== verification/YVmSchedule.thy ===== *)
theory YVmSchedule
  imports YAdmin
begin

text \<open>
  Scheduled virtual machines: the desired-state records, their evaluation and the GPU capacity
  commitments (\<open>utils/vm_manager.py\<close>), and the scheduling page's endpoints with their access and
  admission control (\<open>app.py\<close>). Instants are UTC, in microseconds; the clock is read once per
  request. Instants are unbounded: the \<open>OverflowError\<close> of a time-zone conversion within a day of
  the ends of the calendar is not modelled. Main results: probing the window starts finds the worst
  capacity violation; an admitted schedule never overcommits a host's pool; nobody but the owner
  and the admins changes a schedule, and non-admins cannot touch \<open>unmanaged\<close>.
\<close>

lemma map_sum_Inr [simp]: "map_sum id f x = Inr y \<longleftrightarrow> (\<exists>z. x = Inr z \<and> y = f z)"
  by (cases x) auto

section \<open>Keys and accessors\<close>

definition VMS_PREFIX :: string where
  "VMS_PREFIX = ''/cluster/vms/''"

definition VM_STATE_PREFIX :: string where
  "VM_STATE_PREFIX = ''/cluster/vm-state/''"

definition VM_DESIRED_PREFIX :: string where
  "VM_DESIRED_PREFIX = ''/cluster/vm-desired/''"

definition VM_GRACE_PREFIX :: string where
  "VM_GRACE_PREFIX = ''/cluster/vm-grace/''"

definition VM_ISSUE_PREFIX :: string where
  "VM_ISSUE_PREFIX = ''/cluster/vm-issue/''"

type_synonym table = "(string \<times> dict) list"

definition vm_get :: "'s etcd3 \<Rightarrow> string \<Rightarrow> ('s, dict option) py" where
  "vm_get e name = get_json e (VMS_PREFIX @ name)"

definition vms_all :: "'s etcd3 \<Rightarrow> ('s, table) py" where
  "vms_all e = all_json e VMS_PREFIX"

definition desired_get :: "'s etcd3 \<Rightarrow> string \<Rightarrow> ('s, dict option) py" where
  "desired_get e name = get_json e (VM_DESIRED_PREFIX @ name)"

definition desired_set :: "'s etcd3 \<Rightarrow> string \<Rightarrow> dict \<Rightarrow> ('s, unit) py" where
  "desired_set e name desired = put_json e (VM_DESIRED_PREFIX @ name) desired"

definition desired_delete :: "'s etcd3 \<Rightarrow> string \<Rightarrow> ('s, unit) py" where
  "desired_delete e name = delete_key e (VM_DESIRED_PREFIX @ name)"

definition desired_all :: "'s etcd3 \<Rightarrow> ('s, table) py" where
  "desired_all e = all_json e VM_DESIRED_PREFIX"

definition grace_get :: "'s etcd3 \<Rightarrow> string \<Rightarrow> ('s, dict option) py" where
  "grace_get e name = get_json e (VM_GRACE_PREFIX @ name)"

definition grace_set :: "'s etcd3 \<Rightarrow> string \<Rightarrow> dict \<Rightarrow> ('s, unit) py" where
  "grace_set e name rec = put_json e (VM_GRACE_PREFIX @ name) rec"

definition grace_delete :: "'s etcd3 \<Rightarrow> string \<Rightarrow> ('s, unit) py" where
  "grace_delete e name = delete_key e (VM_GRACE_PREFIX @ name)"

definition grace_all :: "'s etcd3 \<Rightarrow> ('s, table) py" where
  "grace_all e = all_json e VM_GRACE_PREFIX"

definition issues_all :: "'s etcd3 \<Rightarrow> ('s, table) py" where
  "issues_all e = all_json e VM_ISSUE_PREFIX"

definition state_get :: "'s etcd3 \<Rightarrow> string \<Rightarrow> ('s, dict option) py" where
  "state_get e host = get_json e (VM_STATE_PREFIX @ host)"

definition state_all :: "'s etcd3 \<Rightarrow> ('s, table) py" where
  "state_all e = all_json e VM_STATE_PREFIX"

section \<open>Windows and desired states\<close>

type_synonym window = "int \<times> int"

text \<open>\<open>datetime.fromisoformat(str(x))\<close> with a time zone: text of any other type of value is no
  date, or a date without one.\<close>

definition window_time :: "json option \<Rightarrow> int option" where
  "window_time x =
     (case x of
        Some (JStr s) \<Rightarrow> (case fromisoformat s of Some (Aware t) \<Rightarrow> Some t | _ \<Rightarrow> None)
      | _ \<Rightarrow> None)"

definition parse_window :: "json \<Rightarrow> int option \<Rightarrow> window option" where
  "parse_window w now =
     (case w of
        JObj d \<Rightarrow>
          (case (window_time (map_of d ''start''), window_time (map_of d ''end'')) of
             (Some t0, Some t1) \<Rightarrow>
               if t1 \<le> t0 \<or> (case now of Some t \<Rightarrow> t1 \<le> t | None \<Rightarrow> False) then None
               else Some (t0, t1)
           | _ \<Rightarrow> None)
      | _ \<Rightarrow> None)"

text \<open>What \<open>for w in d.get("windows", [])\<close> iterates over.\<close>

definition iter_windows :: "dict \<Rightarrow> exn + json list" where
  "iter_windows d =
     (case map_of d ''windows'' of
        None \<Rightarrow> Inr []
      | Some (JList ws) \<Rightarrow> Inr ws
      | Some (JStr s) \<Rightarrow> Inr (map (\<lambda>c. JStr [c]) s)
      | Some (JObj f) \<Rightarrow> Inr (map (JStr \<circ> fst) f)
      | Some _ \<Rightarrow> Inl TypeError)"

definition in_window :: "int \<Rightarrow> window \<Rightarrow> bool" where
  "in_window t w = (fst w \<le> t \<and> t < snd w)"

definition desired_on :: "dict \<Rightarrow> int \<Rightarrow> exn + bool" where
  "desired_on desired now =
     (if map_of desired ''mode'' = Some (JStr ''on'') then Inr True
      else if map_of desired ''mode'' = Some (JStr ''schedule'')
      then map_sum id (list_ex (\<lambda>w. case parse_window w None of Some p \<Rightarrow> in_window now p | None \<Rightarrow> False))
             (iter_windows desired)
      else Inr False)"

text \<open>\<open>not d\<close> for a record that may be absent.\<close>

definition no_record :: "dict option \<Rightarrow> bool" where
  "no_record d = (d = None \<or> d = Some [])"

definition mode_is :: "dict option \<Rightarrow> string \<Rightarrow> bool" where
  "mode_is d m = (case d of Some r \<Rightarrow> map_of r ''mode'' = Some (JStr m) | None \<Rightarrow> False)"

definition pending_state :: "dict option \<Rightarrow> json \<Rightarrow> dict option \<Rightarrow> int \<Rightarrow> exn + string option" where
  "pending_state desired live grace now =
     (case desired of
        None \<Rightarrow> Inr None
      | Some d \<Rightarrow>
          if \<not> (mode_is desired ''on'' \<or> mode_is desired ''off'' \<or> mode_is desired ''schedule'') then Inr None
          else (case desired_on d now of
                  Inl x \<Rightarrow> Inl x
                | Inr want_on \<Rightarrow>
                    (let live_on = (live = JStr ''Running'') in
                     Inr (if want_on \<and> \<not> live_on then Some ''start''
                          else if \<not> want_on \<and> (live_on \<or> \<not> no_record grace) then Some ''stop''
                          else None))))"

text \<open>The reason is abstracted to which of the two it is.\<close>

definition desired_conflict :: "dict option \<Rightarrow> string \<Rightarrow> int \<Rightarrow> exn + string option" where
  "desired_conflict desired action now =
     (if no_record desired \<or> mode_is desired ''unmanaged'' then Inr None
      else (case desired_on (the desired) now of
              Inl x \<Rightarrow> Inl x
            | Inr want_on \<Rightarrow>
                Inr (if action = ''stop'' \<and> want_on then Some ''scheduled ON''
                     else if (action = ''start'' \<or> action = ''restart'') \<and> \<not> want_on
                     then Some ''scheduled OFF'' else None)))"

section \<open>GPU commitments\<close>

record commitment =
  c_vm :: string
  c_owner :: "json option"
  c_gpus :: json
  c_mode :: json
  c_windows :: "window list option"

definition desired_of :: "table \<Rightarrow> string \<Rightarrow> dict" where
  "desired_of desireds vm = (case map_of desireds vm of Some d \<Rightarrow> d | None \<Rightarrow> [])"

definition mode_of :: "dict \<Rightarrow> json" where
  "mode_of d = (case map_of d ''mode'' of Some m \<Rightarrow> m | None \<Rightarrow> JStr ''unmanaged'')"

definition live_windows :: "int \<Rightarrow> dict \<Rightarrow> exn + window list" where
  "live_windows now d = map_sum id (List.map_filter (\<lambda>w. parse_window w (Some now))) (iter_windows d)"

text \<open>The body of the loop over the registry: the host and the commitment a VM makes, if any.\<close>

definition commitment_of :: "table \<Rightarrow> int \<Rightarrow> string \<Rightarrow> dict \<Rightarrow> exn + (json \<times> commitment) option" where
  "commitment_of desireds now vm rec =
     (if map_of rec ''type'' = Some (JStr ''container'') then Inr None
      else (case (map_of rec ''gpus'', map_of rec ''host'') of
        (Some gpus, Some host) \<Rightarrow>
          if \<not> truthy gpus \<or> \<not> truthy host then Inr None
          else
            (let d = desired_of desireds vm; mode = mode_of d;
                 commit = (\<lambda>ws. if hashable host
                   then Inr (Some (host, \<lparr>c_vm = vm, c_owner = map_of rec ''owner'', c_gpus = gpus,
                                          c_mode = mode, c_windows = ws\<rparr>))
                   else Inl TypeError)
             in if mode = JStr ''off'' then Inr None
                else if mode = JStr ''schedule'' then
                  (case live_windows now d of
                     Inl x \<Rightarrow> Inl x
                   | Inr ws \<Rightarrow> if ws = [] then Inr None else commit (Some ws))
                else commit None)
      | _ \<Rightarrow> Inr None))"

definition commits_at :: "(json \<times> commitment list) list \<Rightarrow> json \<Rightarrow> commitment list" where
  "commits_at hosts host = (case map_of hosts host of Some cs \<Rightarrow> cs | None \<Rightarrow> [])"

fun add_commitments ::
  "table \<Rightarrow> int \<Rightarrow> table \<Rightarrow> (json \<times> commitment list) list \<Rightarrow> exn + (json \<times> commitment list) list" where
  "add_commitments desireds now [] hosts = Inr hosts"
| "add_commitments desireds now ((vm, rec) # rest) hosts =
     (case commitment_of desireds now vm rec of
        Inl x \<Rightarrow> Inl x
      | Inr None \<Rightarrow> add_commitments desireds now rest hosts
      | Inr (Some (host, c)) \<Rightarrow>
          add_commitments desireds now rest (AList.update host (commits_at hosts host @ [c]) hosts))"

definition gpu_commitments :: "table \<Rightarrow> table \<Rightarrow> int \<Rightarrow> exn + (json \<times> commitment list) list" where
  "gpu_commitments registry desireds now = add_commitments desireds now registry []"

text \<open>A value used as a number.\<close>

fun num_of :: "json \<Rightarrow> exn + int" where
  "num_of (JInt i) = Inr i"
| "num_of (JBool b) = Inr (if b then 1 else 0)"
| "num_of _ = Inl TypeError"

fun sum_gpus :: "commitment list \<Rightarrow> exn + int" where
  "sum_gpus [] = Inr 0"
| "sum_gpus (c # cs) =
     (case num_of (c_gpus c) of
        Inl x \<Rightarrow> Inl x
      | Inr g \<Rightarrow> map_sum id ((+) g) (sum_gpus cs))"

definition active_at :: "int \<Rightarrow> commitment \<Rightarrow> bool" where
  "active_at p c = (case c_windows c of None \<Rightarrow> True | Some ws \<Rightarrow> list_ex (in_window p) ws)"

definition window_starts :: "commitment list \<Rightarrow> int \<Rightarrow> int \<Rightarrow> int list" where
  "window_starts commits lo hi =
     concat (map (\<lambda>c. filter (\<lambda>s. lo < s \<and> s < hi)
       (map fst (case c_windows c of Some ws \<Rightarrow> ws | None \<Rightarrow> []))) commits)"

type_synonym violation = "int \<times> int \<times> commitment list"

fun probe ::
  "commitment list \<Rightarrow> json \<Rightarrow> int \<Rightarrow> int list \<Rightarrow> violation option \<Rightarrow> exn + violation option" where
  "probe commits gpus pool [] worst = Inr worst"
| "probe commits gpus pool (p # ps) worst =
     (let active = filter (active_at p) commits in
      case sum_gpus active of
        Inl x \<Rightarrow> Inl x
      | Inr used \<Rightarrow>
          (case num_of gpus of
             Inl x \<Rightarrow> Inl x
           | Inr g \<Rightarrow>
               (let free = pool - used in
                probe commits gpus pool ps
                  (if free < g \<and> (case worst of None \<Rightarrow> True | Some (_, f, _) \<Rightarrow> free < f)
                   then Some (p, free, active) else worst))))"

definition gpu_conflict ::
  "commitment list \<Rightarrow> json \<Rightarrow> int \<Rightarrow> int \<Rightarrow> int \<Rightarrow> exn + violation option" where
  "gpu_conflict commits gpus pool lo hi = probe commits gpus pool (lo # window_starts commits lo hi) None"

section \<open>The scheduling page\<close>

record auth_headers =
  h_email :: "string option"
  h_groups :: "string option"

definition ADMIN_GROUP :: string where
  "ADMIN_GROUP = ''ycluster-admins''"

definition authentik_identity :: "auth_headers \<Rightarrow> string option \<times> bool" where
  "authentik_identity h =
     (let email = (case h_email h of Some s \<Rightarrow> if s = [] then None else Some s | None \<Rightarrow> None);
          groups = filter (\<lambda>g. g \<noteq> []) (split_on (CHR ''|'') (case h_groups h of Some g \<Rightarrow> g | None \<Rightarrow> []))
      in (email, email = None \<or> ADMIN_GROUP \<in> set groups))"

text \<open>\<open>isinstance(x, int)\<close>.\<close>

definition is_int :: "json option \<Rightarrow> int option" where
  "is_int x = (case x of Some (JInt i) \<Rightarrow> Some i | Some (JBool b) \<Rightarrow> Some (if b then 1 else 0) | _ \<Rightarrow> None)"

text \<open>\<open>p.strftime('%Y-%m-%d %H:%M UTC')\<close>.\<close>

definition strftime_utc :: "int \<Rightarrow> string" where
  "strftime_utc p = iso_date p @ '' '' @ take 5 (iso_hms p) @ '' UTC''"

definition shown :: "json \<Rightarrow> string" where
  "shown j = (case fstr j of Some s \<Rightarrow> s | None \<Rightarrow> [])"

definition conflict_message :: "json \<Rightarrow> json \<Rightarrow> int \<Rightarrow> int \<Rightarrow> violation \<Rightarrow> string" where
  "conflict_message gpus host pool now worst =
     (case worst of (p, free, active) \<Rightarrow>
        ''needs '' @ shown gpus @ '' GPU(s) on '' @ shown host @ '' but only '' @ int_str (max free 0)
        @ '' uncommitted at '' @ (if p = now then ''now'' else strftime_utc p) @ '' (pool '' @ int_str pool
        @ ''; held by '' @ join '', '' (map (\<lambda>c. c_vm c @ '' ('' @ shown (c_gpus c) @ '')'') active) @ '')'')"

definition datetime_max :: int where
  "datetime_max = max_instant - 1"

lemma datetime_max_code [code]: "datetime_max = 315537897599999999"
  by (simp add: datetime_max_def max_instant_def days_before_year_def usec_per_day_def)

text \<open>The ranges a candidate must fit in: \<open>w['start']\<close> and \<open>w['end']\<close> of the normalised windows.\<close>

fun window_ranges :: "json list \<Rightarrow> exn + window list" where
  "window_ranges [] = Inr []"
| "window_ranges (JObj d # ws) =
     (case (str_item d ''start'', str_item d ''end'') of
        (Inr a, Inr b) \<Rightarrow>
          (case (window_time (Some (JStr a)), window_time (Some (JStr b))) of
             (Some lo, Some hi) \<Rightarrow> map_sum id ((#) (lo, hi)) (window_ranges ws)
           | _ \<Rightarrow> Inl (ValueError a))
      | _ \<Rightarrow> Inl (KeyError ''start''))"
| "window_ranges (_ # ws) = Inl TypeError"

fun first_conflict :: "commitment list \<Rightarrow> json \<Rightarrow> int \<Rightarrow> window list \<Rightarrow> exn + violation option" where
  "first_conflict commits gpus pool [] = Inr None"
| "first_conflict commits gpus pool ((lo, hi) # rs) =
     (case gpu_conflict commits gpus pool lo hi of
        Inl x \<Rightarrow> Inl x
      | Inr (Some w) \<Rightarrow> Inr (Some w)
      | Inr None \<Rightarrow> first_conflict commits gpus pool rs)"

definition admission_ranges :: "string \<Rightarrow> int \<Rightarrow> json list \<Rightarrow> exn + window list" where
  "admission_ranges mode now windows =
     (if mode = ''on'' then Inr [(now, datetime_max)] else window_ranges windows)"

text \<open>The part of the check that runs when the host's pool is known.\<close>

definition pool_conflict ::
  "'s etcd3 \<Rightarrow> int \<Rightarrow> string \<Rightarrow> json \<Rightarrow> json \<Rightarrow> string \<Rightarrow> json list \<Rightarrow> int \<Rightarrow> ('s, string option) py" where
  "pool_conflict e now name host gpus mode windows pool =
     py_bind (vms_all e) (\<lambda>registry.
     py_bind (desired_all e) (\<lambda>desireds.
     py_bind (py_lift (gpu_commitments (AList.delete name registry) desireds now)) (\<lambda>hosts.
     py_bind (py_lift (admission_ranges mode now windows)) (\<lambda>ranges.
     py_bind (py_lift (first_conflict (commits_at hosts host) gpus pool ranges)) (\<lambda>worst.
       py_return (map_option (conflict_message gpus host pool now) worst))))))"

definition gpu_admission_error ::
  "'s etcd3 \<Rightarrow> int \<Rightarrow> string \<Rightarrow> dict \<Rightarrow> string \<Rightarrow> json list \<Rightarrow> ('s, string option) py" where
  "gpu_admission_error e now name rec mode windows =
     (case (map_of rec ''host'', map_of rec ''gpus'') of
        (Some host, Some gpus) \<Rightarrow>
          if map_of rec ''type'' = Some (JStr ''container'') \<or> \<not> truthy host \<or> \<not> truthy gpus
             \<or> mode \<noteq> ''on'' \<and> mode \<noteq> ''schedule''
          then py_return None
          else (case host of
            JStr h \<Rightarrow>
              py_bind (state_get e h) (\<lambda>snap.
                case is_int (Option.bind snap (\<lambda>d. map_of d ''gpu_pool'')) of
                  None \<Rightarrow> py_return None
                | Some pool \<Rightarrow> pool_conflict e now name host gpus mode windows pool)
          | _ \<Rightarrow> py_raise TypeError)
      | _ \<Rightarrow> py_return None)"

text \<open>\<open>_parse_windows\<close> of a document's \<open>windows\<close>: the loop, then the sort.\<close>

definition norm_window :: "window \<Rightarrow> json" where
  "norm_window p = JObj [(''start'', JStr (iso_utc_seconds (fst p))), (''end'', JStr (iso_utc_seconds (snd p)))]"

fun norm_windows :: "int \<Rightarrow> json list \<Rightarrow> json list option" where
  "norm_windows now [] = Some []"
| "norm_windows now (JObj d # ws) =
     (case (window_time (map_of d ''start''), window_time (map_of d ''end'')) of
        (Some t0, Some t1) \<Rightarrow>
          if t1 \<le> t0 then None
          else if t1 \<le> now then norm_windows now ws
          else map_option ((#) (norm_window (t0, t1))) (norm_windows now ws)
      | _ \<Rightarrow> None)"
| "norm_windows now (_ # ws) = None"

definition start_of :: "json \<Rightarrow> string" where
  "start_of w = (case w of JObj d \<Rightarrow> (case get_str d ''start'' of Some s \<Rightarrow> s | None \<Rightarrow> []) | _ \<Rightarrow> [])"

definition parse_windows :: "int \<Rightarrow> json \<Rightarrow> json list option" where
  "parse_windows now windows =
     (case windows of
        JList ws \<Rightarrow>
          if 50 < length ws then None else map_option (sort_key start_of) (norm_windows now ws)
      | _ \<Rightarrow> None)"

text \<open>\<open>request.get_json(silent=True) or {}\<close>, then used as a dict.\<close>

definition request_dict :: "json option \<Rightarrow> exn + dict" where
  "request_dict body =
     (case body of
        None \<Rightarrow> Inr []
      | Some j \<Rightarrow> if truthy j then (case j of JObj d \<Rightarrow> Inr d | _ \<Rightarrow> Inl AttributeError) else Inr [])"

definition vm_name_ok :: "string \<Rightarrow> bool" where
  "vm_name_ok s = (s \<noteq> [] \<and> list_all (\<lambda>c. is_lower c \<or> is_digit c \<or> c = CHR ''-'') s)"

text \<open>The lookup of the VM: a failing etcd gives status 503.\<close>

definition lookup_vm :: "'s etcd3 \<Rightarrow> string \<Rightarrow> ('s, response + dict option) py" where
  "lookup_vm e name =
     py_try (py_bind (vm_get e name) (\<lambda>r. py_return (Inr r)))
       (\<lambda>_. py_return (Inl (error_response 503 ''etcd connection failed'')))"

text \<open>The opening both mutating endpoints share: the name is checked, the VM looked up, the caller
  checked against its owner; then the rest runs with the name and the record.\<close>

definition with_owned_vm ::
  "'s etcd3 \<Rightarrow> auth_headers \<Rightarrow> dict \<Rightarrow> (string \<Rightarrow> dict \<Rightarrow> ('s, response) py) \<Rightarrow> ('s, response) py" where
  "with_owned_vm e hdrs data rest =
     (case map_of data ''vm'' of
        None \<Rightarrow> py_return (error_response 404 ''no such VM'')
      | Some (JStr name) \<Rightarrow>
          if \<not> vm_name_ok name then py_return (error_response 404 ''no such VM'')
          else py_bind (lookup_vm e name) (\<lambda>r.
            case r of
              Inl resp \<Rightarrow> py_return resp
            | Inr None \<Rightarrow> py_return (error_response 404 ''no such VM'')
            | Inr (Some rec) \<Rightarrow>
                if rec = [] then py_return (error_response 404 ''no such VM'')
                else if \<not> snd (authentik_identity hdrs)
                        \<and> map_of rec ''owner'' \<noteq> map_option JStr (fst (authentik_identity hdrs))
                then py_return (error_response 403 ''not your VM'')
                else rest name rec)
      | Some _ \<Rightarrow> py_raise TypeError)"

definition schedule_doc :: "auth_headers \<Rightarrow> int \<Rightarrow> string \<Rightarrow> json list \<Rightarrow> dict" where
  "schedule_doc hdrs now mode windows =
     [(''mode'', JStr mode), (''windows'', JList windows),
      (''updated_by'', JStr (case fst (authentik_identity hdrs) of Some m \<Rightarrow> m | None \<Rightarrow> ''internal'')),
      (''updated_at'', JStr (iso_utc_seconds now))]"

definition modes :: "string list" where
  "modes = [''on'', ''off'', ''schedule'', ''unmanaged'']"

text \<open>The admin-only escape hatch: what a non-admin may not do, given the record in force.\<close>

definition unmanaged_error :: "string \<Rightarrow> dict option \<Rightarrow> response option" where
  "unmanaged_error mode cur =
     (if mode = ''unmanaged'' then Some (error_response 403 ''only admins can set a VM unmanaged'')
      else if mode_is cur ''unmanaged'' then Some (error_response 403 ''admin-managed VM'')
      else None)"

definition schedule_windows :: "int \<Rightarrow> dict \<Rightarrow> json list option" where
  "schedule_windows now data =
     parse_windows now (case map_of data ''windows'' of Some w \<Rightarrow> w | None \<Rightarrow> JList [])"

text \<open>From the windows on: validation, admission, the write.\<close>

definition admit_schedule ::
  "'s etcd3 \<Rightarrow> auth_headers \<Rightarrow> int \<Rightarrow> dict \<Rightarrow> string \<Rightarrow> string \<Rightarrow> dict \<Rightarrow> ('s, response) py" where
  "admit_schedule e hdrs now data mode name rec =
     (if mode = ''schedule'' \<and> schedule_windows now data = None
      then py_return (error_response 400 ''invalid windows'')
      else (let windows = (case schedule_windows now data of Some ws \<Rightarrow> ws | None \<Rightarrow> []) in
        py_bind (gpu_admission_error e now name rec mode windows) (\<lambda>conflict.
          if (case conflict of Some msg \<Rightarrow> msg \<noteq> [] | None \<Rightarrow> False)
          then py_return (error_response 409 (the conflict))
          else py_seq (desired_set e name (schedule_doc hdrs now mode windows))
                 (py_return (200, [(''ok'', JBool True), (''mode'', JStr mode)])))))"

definition vm_schedule_set :: "'s etcd3 \<Rightarrow> auth_headers \<Rightarrow> int \<Rightarrow> json option \<Rightarrow> ('s, response) py" where
  "vm_schedule_set e hdrs now body =
     py_bind (py_lift (request_dict body)) (\<lambda>data.
       with_owned_vm e hdrs data (\<lambda>name rec.
         case map_of data ''mode'' of
           Some (JStr mode) \<Rightarrow>
             if mode \<notin> set modes then py_return (error_response 400 ''mode must be on|off|schedule|unmanaged'')
             else if snd (authentik_identity hdrs) then admit_schedule e hdrs now data mode name rec
             else py_bind (desired_get e name) (\<lambda>cur.
               case unmanaged_error mode cur of
                 Some resp \<Rightarrow> py_return resp
               | None \<Rightarrow> admit_schedule e hdrs now data mode name rec)
         | _ \<Rightarrow> py_return (error_response 400 ''mode must be on|off|schedule|unmanaged'')))"

definition vm_schedule_stop_now :: "'s etcd3 \<Rightarrow> auth_headers \<Rightarrow> int \<Rightarrow> json option \<Rightarrow> ('s, response) py" where
  "vm_schedule_stop_now e hdrs now body =
     py_bind (py_lift (request_dict body)) (\<lambda>data.
       with_owned_vm e hdrs data (\<lambda>name rec.
         py_bind (desired_get e name) (\<lambda>desired.
           if no_record desired \<or> mode_is desired ''unmanaged''
           then py_return (error_response 409 ''no pending stop for this VM'')
           else py_bind (py_lift (desired_on (the desired) now)) (\<lambda>want_on.
             if want_on then py_return (error_response 409 ''no pending stop for this VM'')
             else py_seq (grace_set e name [(''warned_at'', JStr (iso_utc_seconds now)), (''immediate'', JBool True)])
                    (py_return (200, [(''ok'', JBool True)]))))))"

text \<open>The page's data. The sampled instances' states and the hosts' pools.\<close>

fun live_instances :: "json list \<Rightarrow> (json \<times> json) list \<Rightarrow> exn + (json \<times> json) list" where
  "live_instances [] live = Inr live"
| "live_instances (JObj d # rest) live =
     (case dict_item d ''name'' of
        Inl x \<Rightarrow> Inl x
      | Inr n \<Rightarrow>
          if hashable n
          then live_instances rest (AList.update n (case map_of d ''status'' of Some j \<Rightarrow> j | None \<Rightarrow> JNull) live)
          else Inl TypeError)"
| "live_instances (_ # rest) live = Inl TypeError"

fun live_states :: "table \<Rightarrow> (json \<times> json) list \<Rightarrow> (string \<times> int) list
    \<Rightarrow> exn + (json \<times> json) list \<times> (string \<times> int) list" where
  "live_states [] live pools = Inr (live, pools)"
| "live_states ((host, snap) # rest) live pools =
     (case (case map_of snap ''instances'' of
              None \<Rightarrow> Inr live
            | Some (JList is) \<Rightarrow> live_instances is live
            | Some _ \<Rightarrow> Inl TypeError) of
        Inl x \<Rightarrow> Inl x
      | Inr live' \<Rightarrow>
          live_states rest live'
            (case is_int (map_of snap ''gpu_pool'') of Some n \<Rightarrow> AList.update host n pools | None \<Rightarrow> pools))"

definition get_or_null :: "dict \<Rightarrow> string \<Rightarrow> json" where
  "get_or_null d k = (case map_of d k of Some j \<Rightarrow> j | None \<Rightarrow> JNull)"

definition doc_or_null :: "dict option \<Rightarrow> json" where
  "doc_or_null d = (case d of Some f \<Rightarrow> JObj f | None \<Rightarrow> JNull)"

definition schedule_row ::
  "int \<Rightarrow> (json \<times> json) list \<Rightarrow> table \<Rightarrow> table \<Rightarrow> table \<Rightarrow> string \<Rightarrow> dict \<Rightarrow> exn + dict" where
  "schedule_row now live desireds issues graces name rec =
     (let desired = map_of desireds name; d = desired_of desireds name;
          state = (case map_of live (JStr name) of Some j \<Rightarrow> j | None \<Rightarrow> JStr ''unknown'')
      in map_sum id (\<lambda>pending.
           [(''vm'', JStr name), (''owner'', get_or_null rec ''owner''), (''host'', get_or_null rec ''host''),
            (''gpus'', get_or_null rec ''gpus''), (''status'', state), (''mode'', mode_of d),
            (''windows'', case map_of d ''windows'' of Some w \<Rightarrow> w | None \<Rightarrow> JList []),
            (''issue'', doc_or_null (map_of issues name)), (''pending'', opt_str pending),
            (''grace'', doc_or_null (map_of graces name)), (''has_desired'', JBool (desired \<noteq> None))])
         (pending_state desired state (map_of graces name) now))"

definition visible :: "auth_headers \<Rightarrow> dict \<Rightarrow> bool" where
  "visible hdrs rec =
     (snd (authentik_identity hdrs) \<or> map_of rec ''owner'' = map_option JStr (fst (authentik_identity hdrs)))"

fun schedule_rows :: "auth_headers \<Rightarrow> (string \<Rightarrow> dict \<Rightarrow> exn + dict) \<Rightarrow> table \<Rightarrow> exn + dict list" where
  "schedule_rows hdrs row [] = Inr []"
| "schedule_rows hdrs row ((name, rec) # rest) =
     (if \<not> visible hdrs rec then schedule_rows hdrs row rest
      else (case row name rec of
              Inl x \<Rightarrow> Inl x
            | Inr r \<Rightarrow> map_sum id ((#) r) (schedule_rows hdrs row rest)))"

definition commitment_json :: "bool \<Rightarrow> commitment \<Rightarrow> json" where
  "commitment_json is_admin c =
     JObj [(''vm'', JStr (c_vm c)), (''gpus'', c_gpus c), (''mode'', c_mode c),
           (''owner'', if is_admin then (case c_owner c of Some j \<Rightarrow> j | None \<Rightarrow> JNull) else JNull),
           (''windows'', case c_windows c of
              None \<Rightarrow> JNull
            | Some ws \<Rightarrow> JList (map (\<lambda>(s, t). JObj [(''start'', JStr (iso_utc s)), (''end'', JStr (iso_utc t))]) ws))]"

definition host_json :: "bool \<Rightarrow> (json \<times> commitment list) list \<Rightarrow> (string \<times> int) list \<Rightarrow> string \<Rightarrow> json" where
  "host_json is_admin commits pools host =
     JObj [(''host'', JStr host), (''pool'', case map_of pools host of Some n \<Rightarrow> JInt n | None \<Rightarrow> JNull),
           (''commitments'', JList (map (commitment_json is_admin) (commits_at commits (JStr host))))]"

definition listed_host :: "(json \<times> commitment list) list \<Rightarrow> (string \<times> int) list \<Rightarrow> string \<Rightarrow> bool" where
  "listed_host commits pools host =
     ((case map_of pools host of Some n \<Rightarrow> n \<noteq> 0 | None \<Rightarrow> False) \<or> commits_at commits (JStr host) \<noteq> [])"

text \<open>\<open>sorted(set(commitments) | set(pools))\<close>: a host name that is no string cannot be sorted
  among strings.\<close>

definition schedule_hosts :: "(json \<times> commitment list) list \<Rightarrow> (string \<times> int) list \<Rightarrow> exn + string list" where
  "schedule_hosts commits pools =
     (if list_all (\<lambda>(h, _). the_str h \<noteq> None) commits
      then Inr (sort (remdups (List.map_filter (the_str \<circ> fst) commits @ map fst pools)))
      else Inl TypeError)"

definition vm_of :: "dict \<Rightarrow> string" where
  "vm_of r = (case get_str r ''vm'' of Some s \<Rightarrow> s | None \<Rightarrow> [])"

definition schedule_body ::
  "auth_headers \<Rightarrow> int \<Rightarrow> table \<Rightarrow> table \<Rightarrow> table \<Rightarrow> table \<Rightarrow> table \<Rightarrow> exn + dict" where
  "schedule_body hdrs now states desireds issues graces registry =
     (case live_states states [] [] of
        Inl x \<Rightarrow> Inl x
      | Inr (live, pools) \<Rightarrow>
        (case schedule_rows hdrs (schedule_row now live desireds issues graces) registry of
           Inl x \<Rightarrow> Inl x
         | Inr rows \<Rightarrow>
           (case gpu_commitments registry desireds now of
              Inl x \<Rightarrow> Inl x
            | Inr commits \<Rightarrow>
              map_sum id (\<lambda>hosts.
                [(''rows'', JList (map JObj (sort_key vm_of rows))),
                 (''hosts'', JList (map (host_json (snd (authentik_identity hdrs)) commits pools)
                               (filter (listed_host commits pools) hosts))),
                 (''email'', opt_str (fst (authentik_identity hdrs))),
                 (''is_admin'', JBool (snd (authentik_identity hdrs))), (''grace_seconds'', JInt 300)])
              (schedule_hosts commits pools))))"

definition vm_schedule_data :: "'s etcd3 \<Rightarrow> auth_headers \<Rightarrow> int \<Rightarrow> ('s, response) py" where
  "vm_schedule_data e hdrs now =
     py_bind (py_try
       (py_bind (state_all e) (\<lambda>states. py_bind (desired_all e) (\<lambda>desireds. py_bind (issues_all e) (\<lambda>issues.
        py_bind (grace_all e) (\<lambda>graces. py_bind (vms_all e) (\<lambda>registry.
          py_return (Some (states, desireds, issues, graces, registry))))))))
       (\<lambda>_. py_return None)) (\<lambda>r.
     case r of
       None \<Rightarrow> py_return (error_response 503 ''etcd connection failed'')
     | Some (states, desireds, issues, graces, registry) \<Rightarrow>
         py_bind (py_lift (schedule_body hdrs now states desireds issues graces registry)) (\<lambda>body.
           py_return (200, body)))"

section \<open>Probing window starts finds the worst violation\<close>

definition num_gpus :: "commitment \<Rightarrow> int" where
  "num_gpus c = (case num_of (c_gpus c) of Inr g \<Rightarrow> g | Inl _ \<Rightarrow> 0)"

definition counted :: "commitment \<Rightarrow> bool" where
  "counted c = (\<not> isl (num_of (c_gpus c)) \<and> 0 \<le> num_gpus c)"

text \<open>The GPUs committed at an instant.\<close>

definition used :: "commitment list \<Rightarrow> int \<Rightarrow> int" where
  "used commits t = sum_list (map num_gpus (filter (active_at t) commits))"

lemma sum_gpus_counted: "list_all counted cs \<Longrightarrow> sum_gpus cs = Inr (sum_list (map num_gpus cs))"
  by (induction cs) (auto simp: counted_def num_gpus_def split: sum.splits)

definition violation_ok :: "commitment list \<Rightarrow> int \<Rightarrow> int \<Rightarrow> violation option \<Rightarrow> bool" where
  "violation_ok commits g pool w =
     (case w of None \<Rightarrow> True
      | Some (q, f, act) \<Rightarrow> f = pool - used commits q \<and> f < g \<and> act = filter (active_at q) commits)"

lemma probe_spec:
  assumes "list_all counted commits" and "num_of gpus = Inr g" and "violation_ok commits g pool worst"
  shows "\<exists>r. probe commits gpus pool ps worst = Inr r \<and> violation_ok commits g pool r
    \<and> (r = None \<longleftrightarrow> worst = None \<and> (\<forall>p \<in> set ps. g \<le> pool - used commits p))
    \<and> (\<forall>q f act. r = Some (q, f, act) \<longrightarrow> (q \<in> set ps \<or> worst = Some (q, f, act))
         \<and> (\<forall>p \<in> set ps. f \<le> pool - used commits p) \<and> (\<forall>q' f' act'. worst = Some (q', f', act') \<longrightarrow> f \<le> f'))"
  using assms(3)
proof (induction ps arbitrary: worst)
  case Nil
  then show ?case by auto
next
  case (Cons p ps)
  have sum: "sum_gpus (filter (active_at p) commits) = Inr (used commits p)"
    using assms(1) by (simp add: sum_gpus_counted used_def list_all_iff)
  let ?w = "if pool - used commits p < g \<and> (case worst of None \<Rightarrow> True | Some (_, f, _) \<Rightarrow> pool - used commits p < f)
      then Some (p, pool - used commits p, filter (active_at p) commits) else worst"
  have step: "probe commits gpus pool (p # ps) worst = probe commits gpus pool ps ?w"
    by (simp add: sum assms(2) Let_def)
  have "violation_ok commits g pool ?w"
    using Cons.prems by (auto simp: violation_ok_def)
  note IH = Cons.IH [OF this]
  show ?case
  proof (cases worst)
    case None
    with IH show ?thesis unfolding step by (fastforce simp: violation_ok_def split: if_splits)
  next
    case (Some w)
    obtain q f act where w: "w = (q, f, act)" by (metis prod_cases3)
    with Some Cons.prems have "f < g" by (simp add: violation_ok_def)
    with IH Some w show ?thesis unfolding step by (fastforce simp: violation_ok_def split: if_splits)
  qed
qed

lemma used_mono:
  assumes "list_all counted commits" and "\<And>c. c \<in> set commits \<Longrightarrow> active_at t c \<Longrightarrow> active_at p c"
  shows "used commits t \<le> used commits p"
  using assms
proof (induction commits)
  case (Cons c cs)
  then have "used cs t \<le> used cs p" and "0 \<le> num_gpus c" by (auto simp: counted_def)
  with Cons.prems(2) [of c] show ?case by (auto simp: used_def)
qed (simp add: used_def)

text \<open>Every instant of the range is dominated by a probed one: the latest start, or \<open>lo\<close>, of the
  windows open at it.\<close>

lemma probed_dominates:
  assumes "list_all counted commits" and "lo \<le> t" and "t < hi"
  shows "\<exists>p \<in> set (lo # window_starts commits lo hi). p \<le> t \<and> used commits t \<le> used commits p"
proof -
  define S where "S = {s \<in> set (window_starts commits lo hi). s \<le> t}"
  define p where "p = Max (insert lo S)"
  have fin: "finite (insert lo S)" by (simp add: S_def)
  then have "p \<in> insert lo S" unfolding p_def by (rule Max_in) simp
  then have p: "p \<in> set (lo # window_starts commits lo hi)" "p \<le> t" "lo \<le> p"
    using assms(2) fin by (auto simp: S_def p_def)
  have "active_at p c" if c: "c \<in> set commits" "active_at t c" for c
  proof (cases "c_windows c")
    case (Some ws)
    with c(2) obtain s e where se: "(s, e) \<in> set ws" "s \<le> t" "t < e"
      by (auto simp: active_at_def list_ex_iff in_window_def)
    have "s \<le> p"
    proof (cases "lo < s")
      case True
      with se c(1) Some assms(3) have "s \<in> S" unfolding S_def window_starts_def by force
      with fin show ?thesis by (simp add: p_def)
    qed (use p in simp)
    with se p show ?thesis using Some by (auto simp: active_at_def list_ex_iff in_window_def intro!: bexI [of _ "(s, e)"])
  qed (simp add: active_at_def)
  with p used_mono [OF assms(1)] show ?thesis by blast
qed

lemma window_starts_range: "p \<in> set (window_starts commits lo hi) \<Longrightarrow> lo < p \<and> p < hi"
  by (auto simp: window_starts_def)

lemma gpu_conflict_spec:
  assumes "list_all counted commits" and "num_of gpus = Inr g"
  shows "\<exists>r. gpu_conflict commits gpus pool lo hi = Inr r \<and> violation_ok commits g pool r
    \<and> (r = None \<longrightarrow> (\<forall>t. lo \<le> t \<and> t < hi \<longrightarrow> used commits t + g \<le> pool))
    \<and> (\<forall>q f act. r = Some (q, f, act) \<longrightarrow> lo \<le> q \<and> (lo < hi \<longrightarrow> q < hi)
         \<and> (\<forall>t. lo \<le> t \<and> t < hi \<longrightarrow> f \<le> pool - used commits t))"
proof -
  have "violation_ok commits g pool None" by (simp add: violation_ok_def)
  from probe_spec [OF assms this, of "lo # window_starts commits lo hi"]
  obtain r where r: "gpu_conflict commits gpus pool lo hi = Inr r" "violation_ok commits g pool r"
    "r = None \<longleftrightarrow> (\<forall>p \<in> set (lo # window_starts commits lo hi). g \<le> pool - used commits p)"
    "\<And>q f act. r = Some (q, f, act) \<Longrightarrow> q \<in> set (lo # window_starts commits lo hi)"
    "\<And>q f act p. r = Some (q, f, act) \<Longrightarrow> p \<in> set (lo # window_starts commits lo hi) \<Longrightarrow> f \<le> pool - used commits p"
    unfolding gpu_conflict_def by blast
  have "used commits t + g \<le> pool" if "r = None" "lo \<le> t" "t < hi" for t
    using that probed_dominates [OF assms(1), of lo t hi] r(3) by fastforce
  moreover have "lo \<le> q \<and> (lo < hi \<longrightarrow> q < hi)" if "r = Some (q, f, act)" for q f act
    using r(4) [OF that] by (auto dest: window_starts_range)
  moreover have "f \<le> pool - used commits t" if "r = Some (q, f, act)" "lo \<le> t" "t < hi" for q f act t
    using that probed_dominates [OF assms(1), of lo t hi] r(5) [OF that(1)] by fastforce
  ultimately show ?thesis using r(1,2) by blast
qed

section \<open>Reading tables\<close>

text \<open>What a scan of a prefix gives: the documents of its direct children.\<close>

definition table_of :: "store \<Rightarrow> string \<Rightarrow> table \<Rightarrow> bool" where
  "table_of c p t = (distinct (map fst t) \<and>
     (\<forall>name d. map_of t name = Some d \<longleftrightarrow> name \<noteq> [] \<and> CHR ''/'' \<notin> set name \<and> holds_doc c (p @ name) d))"

lemma collect_json_spec:
  assumes "collect_json n xs = Inr t"
  shows "set t = {(drop n k, d) | k d. (k, Doc d) \<in> set xs \<and> drop n k \<noteq> [] \<and> CHR ''/'' \<notin> set (drop n k)}
    \<and> map fst t = filter (\<lambda>m. m \<noteq> [] \<and> CHR ''/'' \<notin> set m) (map (drop n \<circ> fst) xs)"
  using assms
proof (induction xs arbitrary: t)
  case (Cons x xs)
  obtain k b where x: "x = (k, b)" by (cases x)
  show ?case
  proof (cases "drop n k = [] \<or> CHR ''/'' \<in> set (drop n k)")
    case True
    with Cons.prems x have "collect_json n xs = Inr t" by (simp add: Let_def)
    from Cons.IH [OF this] True x show ?thesis by auto
  next
    case False
    with Cons.prems x obtain d t' where t: "b = Doc d" "collect_json n xs = Inr t'" "t = (drop n k, d) # t'"
      by (auto simp: Let_def split: sum.splits)
    from Cons.IH [OF t(2)] False x t show ?thesis by auto
  qed
qed simp

lemma collect_json_table:
  assumes "prefix_list c p xs" and "collect_json (length p) xs = Inr t"
  shows "table_of c p t"
proof -
  note s = collect_json_spec [OF assms(2)]
  have pre: "\<exists>m. k = p @ m" if "(k, b) \<in> set xs" for k b
    using that prefix_listD [OF assms(1)] by (simp add: startswith_iff)
  have "inj_on (drop (length p)) (set (map fst xs))"
  proof (rule inj_onI)
    fix a b assume "a \<in> set (map fst xs)" "b \<in> set (map fst xs)" and eq: "drop (length p) a = drop (length p) b"
    then obtain m m' where "a = p @ m" "b = p @ m'" using pre by fastforce
    with eq show "a = b" by simp
  qed
  moreover have "distinct (map fst xs)" using assms(1) by (simp add: prefix_list_def)
  ultimately have "distinct (map (drop (length p)) (map fst xs))" by (simp only: distinct_map)
  with s have dist: "distinct (map fst t)" by simp
  have "(name, d) \<in> set t \<longleftrightarrow> name \<noteq> [] \<and> CHR ''/'' \<notin> set name \<and> holds_doc c (p @ name) d" for name d
  proof
    assume "(name, d) \<in> set t"
    then obtain k where k: "(k, Doc d) \<in> set xs" "name = drop (length p) k" "name \<noteq> []" "CHR ''/'' \<notin> set name"
      using s by auto
    with pre [OF k(1)] prefix_listD [OF assms(1), of k "Doc d"]
    show "name \<noteq> [] \<and> CHR ''/'' \<notin> set name \<and> holds_doc c (p @ name) d" by (auto simp: holds_doc_def)
  next
    assume a: "name \<noteq> [] \<and> CHR ''/'' \<notin> set name \<and> holds_doc c (p @ name) d"
    then have "(p @ name, Doc d) \<in> set xs"
      using prefix_listD [OF assms(1), of "p @ name" "Doc d"] by (auto simp: holds_doc_def)
    with a s show "(name, d) \<in> set t" by fastforce
  qed
  with dist show ?thesis by (simp add: table_of_def)
qed

lemma table_of_unique: "table_of c p t \<Longrightarrow> table_of c p t' \<Longrightarrow> map_of t = map_of t'"
  unfolding table_of_def by (intro ext option.expand) (metis not_None_eq option.sel)+

context etcd_seq
begin

lemma wp_all_json_seq:
  assumes "\<And>t s'. view s' = view s \<Longrightarrow> table_of (view s) p t \<Longrightarrow> Q t s'"
    and "\<And>x s'. view s' = view s \<Longrightarrow> E x s'"
  shows "wp (all_json e p) Q E s"
  unfolding all_json_def wp_simps
proof (rule wp_client_seq, rule wp_prefix_seq)
  fix s1 xs s2 assume v: "view s1 = view s" "view s2 = view s1" and xs: "prefix_list (view s1) p xs"
  show "case collect_json (length p) xs of Inl x \<Rightarrow> E x s2 | Inr t \<Rightarrow> Q t s2"
    using v xs assms collect_json_table [of "view s" p xs] by (auto split: sum.splits)
qed

lemma keeps_same_all_json: "keeps (\<lambda>s. view s = c) (all_json e p)"
  by (auto intro!: keepsI wp_all_json_seq)

end

section \<open>Commitments per host\<close>

definition vm_commit :: "table \<Rightarrow> int \<Rightarrow> json \<Rightarrow> string \<times> dict \<Rightarrow> commitment option" where
  "vm_commit desireds now host x =
     (case commitment_of desireds now (fst x) (snd x) of
        Inr (Some (h, c)) \<Rightarrow> if h = host then Some c else None
      | _ \<Rightarrow> None)"

lemma add_commitments_ok:
  assumes "\<And>x. x \<in> set registry \<Longrightarrow> \<not> isl (commitment_of desireds now (fst x) (snd x))"
  shows "\<exists>hs. add_commitments desireds now registry hosts = Inr hs"
  using assms
proof (induction registry arbitrary: hosts)
  case (Cons x xs)
  obtain vm rec where x: "x = (vm, rec)" by (cases x)
  from Cons.prems [of x] x obtain r where "commitment_of desireds now vm rec = Inr r"
    by (auto simp: isl_def split: sum.splits) (metis sum.exhaust)
  with Cons x show ?case by (auto split: option.splits)
qed simp

lemma add_commitments_isl:
  assumes "add_commitments desireds now registry hosts = Inr hs" and "x \<in> set registry"
  shows "\<not> isl (commitment_of desireds now (fst x) (snd x))"
  using assms
proof (induction registry arbitrary: hosts)
  case (Cons y ys)
  obtain vm rec where y: "y = (vm, rec)" by (cases y)
  with Cons show ?case by (auto split: sum.splits option.splits)
qed simp

lemma add_commitments_at:
  assumes "add_commitments desireds now registry hosts = Inr hs"
  shows "commits_at hs host = commits_at hosts host @ List.map_filter (vm_commit desireds now host) registry"
  using assms
proof (induction registry arbitrary: hosts)
  case (Cons x xs)
  obtain vm rec where x: "x = (vm, rec)" by (cases x)
  with Cons.prems obtain r where r: "commitment_of desireds now vm rec = Inr r"
    by (auto split: sum.splits)
  show ?case
  proof (cases r)
    case None
    with Cons x r show ?thesis by (simp add: vm_commit_def List.map_filter_def)
  next
    case (Some hc)
    obtain h c where hc: "hc = (h, c)" by (cases hc)
    with Cons.prems x r Some have "add_commitments desireds now xs (AList.update h (commits_at hosts h @ [c]) hosts) = Inr hs"
      by simp
    from Cons.IH [OF this] x r Some hc show ?thesis
      by (auto simp: vm_commit_def List.map_filter_def commits_at_def)
  qed
qed (simp add: List.map_filter_def)

text \<open>The load of one VM on a host at an instant; the commitments of a host are the sum.\<close>

definition vm_load :: "table \<Rightarrow> int \<Rightarrow> json \<Rightarrow> int \<Rightarrow> string \<times> dict \<Rightarrow> int" where
  "vm_load desireds now host t x =
     (case vm_commit desireds now host x of Some c \<Rightarrow> if active_at t c then num_gpus c else 0 | None \<Rightarrow> 0)"

lemma used_commitments:
  assumes "gpu_commitments registry desireds now = Inr hs"
  shows "used (commits_at hs host) t = sum_list (map (vm_load desireds now host t) registry)"
proof -
  have "used (List.map_filter (vm_commit desireds now host) xs) t = sum_list (map (vm_load desireds now host t) xs)" for xs
    by (induction xs) (auto simp: used_def vm_load_def List.map_filter_def split: option.splits)
  then show ?thesis
    using add_commitments_at [OF assms [unfolded gpu_commitments_def], of host] by (simp add: commits_at_def)
qed

text \<open>GPU counts are numbers and not negative.\<close>

definition gpus_wf :: "table \<Rightarrow> bool" where
  "gpus_wf registry = list_all (\<lambda>(vm, rec). \<forall>g. map_of rec ''gpus'' = Some g \<longrightarrow> truthy g \<longrightarrow>
     (\<exists>n. num_of g = Inr n \<and> 0 \<le> n)) registry"

lemma vm_commit_Some:
  assumes "vm_commit desireds now host x = Some c"
  shows "map_of (snd x) ''host'' = Some host" and "map_of (snd x) ''gpus'' = Some (c_gpus c)" and "truthy (c_gpus c)"
    and "truthy host" and "map_of (snd x) ''type'' \<noteq> Some (JStr ''container'')"
    and "mode_of (desired_of desireds (fst x)) \<noteq> JStr ''off''"
    and "c_windows c = (if mode_of (desired_of desireds (fst x)) = JStr ''schedule''
      then Some (projr (live_windows now (desired_of desireds (fst x)))) else None)"
  using assms
  by (auto simp: vm_commit_def commitment_of_def Let_def split: sum.splits option.splits if_splits)

lemma counted_commitments:
  assumes "gpus_wf registry" and "gpu_commitments registry desireds now = Inr hs"
  shows "list_all counted (commits_at hs host)"
proof -
  have "counted c" if "x \<in> set registry" "vm_commit desireds now host x = Some c" for x c
    using that(1) assms(1) vm_commit_Some(2,3) [OF that(2)]
    by (fastforce simp: gpus_wf_def list_all_iff counted_def num_gpus_def)
  then show ?thesis
    using add_commitments_at [OF assms(2) [unfolded gpu_commitments_def], of host]
    by (auto simp: commits_at_def list_all_iff List.map_filter_def)
qed

lemma vm_load_nonneg: "gpus_wf registry \<Longrightarrow> x \<in> set registry \<Longrightarrow> 0 \<le> vm_load desireds now host t x"
proof (cases "vm_commit desireds now host x")
  case (Some c)
  assume "gpus_wf registry" "x \<in> set registry"
  with vm_commit_Some(2,3) [OF Some] have "0 \<le> num_gpus c"
    by (fastforce simp: gpus_wf_def list_all_iff num_gpus_def)
  with Some show ?thesis by (simp add: vm_load_def)
qed (simp add: vm_load_def)

text \<open>A commitment depends on the desired record of its own VM only.\<close>

lemma commitment_of_cong:
  assumes "map_of des vm = map_of des' vm"
  shows "commitment_of des now vm rec = commitment_of des' now vm rec"
proof -
  from assms have "desired_of des vm = desired_of des' vm" by (simp add: desired_of_def)
  then show ?thesis unfolding commitment_of_def by (simp only:)
qed

lemma vm_load_cong: "map_of des (fst x) = map_of des' (fst x) \<Longrightarrow> vm_load des now host t x = vm_load des' now host t x"
  using commitment_of_cong [of des "fst x" des' now "snd x"] by (simp add: vm_load_def vm_commit_def)

lemma sum_list_delete:
  fixes f :: "'a \<times> 'b \<Rightarrow> int"
  assumes "distinct (map fst xs)" and "map_of xs k = Some v"
  shows "sum_list (map f xs) = f (k, v) + sum_list (map f (AList.delete k xs))"
  using assms
proof (induction xs)
  case (Cons x xs)
  obtain a b where x: "x = (a, b)" by (cases x)
  show ?case
  proof (cases "a = k")
    case True
    with Cons.prems x show ?thesis by simp
  qed (use Cons x in auto)
qed simp

lemma sum_list_table:
  fixes f :: "'a \<times> 'b \<Rightarrow> int"
  assumes "distinct (map fst xs)" and "distinct (map fst ys)" and "map_of xs = map_of ys"
  shows "sum_list (map f xs) = sum_list (map f ys)"
proof -
  have "set xs = set ys" using assms by (metis map_of_eqI map_of_inject_set)
  with assms show ?thesis
    by (metis distinct_map sum_list_distinct_conv_sum_set)
qed

section \<open>What the endpoints do\<close>

definition admitted :: "store \<Rightarrow> int \<Rightarrow> string \<Rightarrow> dict \<Rightarrow> string \<Rightarrow> json list \<Rightarrow> bool" where
  "admitted c now name rec mode windows =
     ((\<forall>h g snap pool. map_of rec ''host'' = Some (JStr h) \<and> h \<noteq> [] \<and> map_of rec ''gpus'' = Some g \<and> truthy g
        \<and> map_of rec ''type'' \<noteq> Some (JStr ''container'') \<and> (mode = ''on'' \<or> mode = ''schedule'')
        \<and> holds_doc c (VM_STATE_PREFIX @ h) snap \<and> is_int (map_of snap ''gpu_pool'') = Some pool \<longrightarrow>
        (\<exists>registry desireds hosts ranges. table_of c VMS_PREFIX registry \<and> table_of c VM_DESIRED_PREFIX desireds
           \<and> gpu_commitments (AList.delete name registry) desireds now = Inr hosts
           \<and> admission_ranges mode now windows = Inr ranges
           \<and> first_conflict (commits_at hosts (JStr h)) g pool ranges = Inr None))
      \<and> (\<forall>host g. map_of rec ''host'' = Some host \<and> truthy host \<and> map_of rec ''gpus'' = Some g \<and> truthy g
        \<and> map_of rec ''type'' \<noteq> Some (JStr ''container'') \<and> (mode = ''on'' \<or> mode = ''schedule'') \<longrightarrow> the_str host \<noteq> None))"

text \<open>The guards of a successful request.\<close>

definition set_allowed ::
  "store \<Rightarrow> auth_headers \<Rightarrow> int \<Rightarrow> dict \<Rightarrow> string \<Rightarrow> dict \<Rightarrow> string \<Rightarrow> json list \<Rightarrow> bool" where
  "set_allowed c hdrs now data name rec mode windows =
     (map_of data ''vm'' = Some (JStr name) \<and> vm_name_ok name \<and> holds_doc c (VMS_PREFIX @ name) rec \<and> visible hdrs rec
      \<and> map_of data ''mode'' = Some (JStr mode) \<and> mode \<in> set modes
      \<and> (snd (authentik_identity hdrs) \<or> mode \<noteq> ''unmanaged''
           \<and> (\<forall>d. holds_doc c (VM_DESIRED_PREFIX @ name) d \<longrightarrow> map_of d ''mode'' \<noteq> Some (JStr ''unmanaged'')))
      \<and> windows = (case schedule_windows now data of Some ws \<Rightarrow> ws | None \<Rightarrow> [])
      \<and> (mode = ''schedule'' \<longrightarrow> schedule_windows now data = Some windows)
      \<and> admitted c now name rec mode windows)"

context etcd_seq
begin

lemma wp_owned_vm:
  assumes "\<And>code resp s'. code \<noteq> 200 \<Longrightarrow> view s' = view s \<Longrightarrow> Q (code, resp) s'"
    and "\<And>x s'. view s' = view s \<Longrightarrow> E x s'"
    and "\<And>name rec s'. map_of data ''vm'' = Some (JStr name) \<Longrightarrow> vm_name_ok name \<Longrightarrow>
      holds_doc (view s) (VMS_PREFIX @ name) rec \<Longrightarrow> visible hdrs rec \<Longrightarrow> view s' = view s \<Longrightarrow> wp (rest name rec) Q E s'"
  shows "wp (with_owned_vm e hdrs data rest) Q E s"
proof (cases "map_of data ''vm''")
  case (Some j)
  show ?thesis
  proof (cases j)
    case (JStr name)
    show ?thesis
    proof (cases "vm_name_ok name")
      case ok: True
      have "wp (lookup_vm e name)
        (\<lambda>r s'. view s' = view s \<and> (\<forall>resp. r = Inl resp \<longrightarrow> fst resp \<noteq> 200)
           \<and> (\<forall>rec. r = Inr (Some rec) \<longrightarrow> holds_doc (view s) (VMS_PREFIX @ name) rec)) E s"
        unfolding lookup_vm_def vm_get_def wp_simps by (rule wp_get_json_any) (auto simp: wp_simps error_response_def)
      then have "wp (lookup_vm e name) (\<lambda>r. wp (case r of
              Inl resp \<Rightarrow> py_return resp
            | Inr None \<Rightarrow> py_return (error_response 404 ''no such VM'')
            | Inr (Some rec) \<Rightarrow>
                if rec = [] then py_return (error_response 404 ''no such VM'')
                else if \<not> snd (authentik_identity hdrs)
                        \<and> map_of rec ''owner'' \<noteq> map_option JStr (fst (authentik_identity hdrs))
                then py_return (error_response 403 ''not your VM'')
                else rest name rec) Q E) E s"
        by (rule wp_mono)
          (use assms Some JStr ok in \<open>auto simp: wp_simps error_response_def visible_def split: sum.splits option.splits\<close>)
      with Some JStr ok show ?thesis
        by (simp add: with_owned_vm_def wp_bind)
    qed (use assms Some JStr in \<open>simp add: with_owned_vm_def wp_simps error_response_def\<close>)
  qed (use assms Some in \<open>simp_all add: with_owned_vm_def wp_simps error_response_def\<close>)
qed (use assms in \<open>simp add: with_owned_vm_def wp_simps error_response_def\<close>)

lemma wp_pool_conflict:
  assumes "\<And>registry desireds hosts ranges s'. view s' = view s \<Longrightarrow> table_of (view s) VMS_PREFIX registry \<Longrightarrow>
      table_of (view s) VM_DESIRED_PREFIX desireds \<Longrightarrow> gpu_commitments (AList.delete name registry) desireds now = Inr hosts \<Longrightarrow>
      admission_ranges mode now windows = Inr ranges \<Longrightarrow> first_conflict (commits_at hosts host) g pool ranges = Inr None \<Longrightarrow> Q None s'"
    and "\<And>msg s'. view s' = view s \<Longrightarrow> msg \<noteq> [] \<Longrightarrow> Q (Some msg) s'"
    and "\<And>x s'. view s' = view s \<Longrightarrow> E x s'"
  shows "wp (pool_conflict e now name host g mode windows pool) Q E s"
  unfolding pool_conflict_def vms_all_def desired_all_def wp_bind
proof (rule wp_all_json_seq)
  fix registry s1 assume s1: "view s1 = view s" and r: "table_of (view s) VMS_PREFIX registry"
  show "wp (all_json e VM_DESIRED_PREFIX) (\<lambda>desireds. wp (py_lift (gpu_commitments (AList.delete name registry) desireds now))
      (\<lambda>hosts. wp (py_lift (admission_ranges mode now windows)) (\<lambda>ranges. wp (py_lift (first_conflict (commits_at hosts host) g pool ranges))
        (\<lambda>worst. wp (py_return (map_option (conflict_message g host pool now) worst)) Q E) E) E) E) E s1"
  proof (rule wp_all_json_seq)
    fix desireds s2 assume "view s2 = view s1" and "table_of (view s1) VM_DESIRED_PREFIX desireds"
    moreover have "conflict_message g host pool now w \<noteq> []" for w
      by (cases w) (simp add: conflict_message_def)
    ultimately show "wp (py_lift (gpu_commitments (AList.delete name registry) desireds now))
      (\<lambda>hosts. wp (py_lift (admission_ranges mode now windows)) (\<lambda>ranges. wp (py_lift (first_conflict (commits_at hosts host) g pool ranges))
        (\<lambda>worst. wp (py_return (map_option (conflict_message g host pool now) worst)) Q E) E) E) E s2"
      using s1 r assms by (auto simp: wp_lift wp_return map_option_case split: sum.splits option.splits)
  qed (use s1 assms(3) in simp)
qed (use assms(3) in simp)

lemma wp_admission:
  assumes "\<And>s'. view s' = view s \<Longrightarrow> admitted (view s) now name rec mode windows \<Longrightarrow> Q None s'"
    and "\<And>msg s'. view s' = view s \<Longrightarrow> msg \<noteq> [] \<Longrightarrow> Q (Some msg) s'"
    and "\<And>x s'. view s' = view s \<Longrightarrow> E x s'"
  shows "wp (gpu_admission_error e now name rec mode windows) Q E s"
proof (cases "\<exists>h g. map_of rec ''host'' = Some (JStr h) \<and> h \<noteq> [] \<and> map_of rec ''gpus'' = Some g \<and> truthy g
        \<and> map_of rec ''type'' \<noteq> Some (JStr ''container'') \<and> (mode = ''on'' \<or> mode = ''schedule'')")
  case False
  show ?thesis
  proof (cases "\<exists>host g. map_of rec ''host'' = Some host \<and> truthy host \<and> map_of rec ''gpus'' = Some g \<and> truthy g
        \<and> map_of rec ''type'' \<noteq> Some (JStr ''container'') \<and> (mode = ''on'' \<or> mode = ''schedule'')")
    case True
    then obtain host g where h: "map_of rec ''host'' = Some host" "truthy host" "map_of rec ''gpus'' = Some g" "truthy g"
        "map_of rec ''type'' \<noteq> Some (JStr ''container'')" "mode = ''on'' \<or> mode = ''schedule''" by blast
    with False have "\<And>n. host \<noteq> JStr n" by force
    with h assms(3) [OF refl] show ?thesis
      by (cases host) (auto simp: gpu_admission_error_def wp_raise)
  next
    case none: False
    with False have "admitted (view s) now name rec mode windows" unfolding admitted_def by blast
    with none assms(1) show ?thesis
      unfolding gpu_admission_error_def by (auto simp: wp_simps split: option.splits)
  qed
next
  case True
  then obtain h g where rec: "map_of rec ''host'' = Some (JStr h)" "h \<noteq> []" "map_of rec ''gpus'' = Some g" "truthy g"
    "map_of rec ''type'' \<noteq> Some (JStr ''container'')" "mode = ''on'' \<or> mode = ''schedule''" by blast
  have "wp (state_get e h) (\<lambda>snap. wp (case is_int (Option.bind snap (\<lambda>d. map_of d ''gpu_pool'')) of
      None \<Rightarrow> py_return None | Some pool \<Rightarrow> pool_conflict e now name (JStr h) g mode windows pool) Q E) E s"
    unfolding state_get_def
  proof (rule wp_get_json_any)
    fix snap s1 assume s1: "view s1 = view s" and some: "\<And>d. snap = Some d \<Longrightarrow> holds_doc (view s) (VM_STATE_PREFIX @ h) d"
      and none: "snap = None \<Longrightarrow> \<not> (\<exists>d. holds_doc (view s) (VM_STATE_PREFIX @ h) d)"
    have pool: "is_int (map_of d ''gpu_pool'') = is_int (Option.bind snap (\<lambda>d. map_of d ''gpu_pool''))"
      if "holds_doc (view s) (VM_STATE_PREFIX @ h) d" for d
      using that some none by (cases snap) (auto dest: holds_doc_unique)
    show "wp (case is_int (Option.bind snap (\<lambda>d. map_of d ''gpu_pool'')) of None \<Rightarrow> py_return None
      | Some pool \<Rightarrow> pool_conflict e now name (JStr h) g mode windows pool) Q E s1"
    proof (cases "is_int (Option.bind snap (\<lambda>d. map_of d ''gpu_pool''))")
      case None
      with pool have "admitted (view s) now name rec mode windows" using rec by (auto simp: admitted_def)
      with None s1 assms(1) show ?thesis by (simp add: wp_return)
    next
      case (Some p)
      have "wp (pool_conflict e now name (JStr h) g mode windows p) Q E s1"
      proof (rule wp_pool_conflict)
        fix registry desireds hosts ranges s2
        assume a: "view s2 = view s1" "table_of (view s1) VMS_PREFIX registry" "table_of (view s1) VM_DESIRED_PREFIX desireds"
          "gpu_commitments (AList.delete name registry) desireds now = Inr hosts" "admission_ranges mode now windows = Inr ranges"
          "first_conflict (commits_at hosts (JStr h)) g p ranges = Inr None"
        with s1 Some pool rec have "admitted (view s) now name rec mode windows" unfolding admitted_def by fastforce
        with a s1 assms(1) show "Q None s2" by simp
      qed (use s1 assms in auto)
      with Some show ?thesis by simp
    qed
  qed (use assms(3) in simp)
  with rec show ?thesis by (auto simp: gpu_admission_error_def wp_bind)
qed

lemma wp_admit_schedule:
  assumes "\<And>code resp s'. code \<noteq> 200 \<Longrightarrow> view s' = view s \<Longrightarrow> Q (code, resp) s'"
    and "\<And>x s'. view s' = view s \<Longrightarrow> E x s'"
    and "\<And>windows n resp s'. windows = (case schedule_windows now data of Some ws \<Rightarrow> ws | None \<Rightarrow> []) \<Longrightarrow>
      (mode = ''schedule'' \<longrightarrow> schedule_windows now data = Some windows) \<Longrightarrow> admitted (view s) now name rec mode windows \<Longrightarrow>
      view s' = (view s)(VM_DESIRED_PREFIX @ name \<mapsto> (Doc (schedule_doc hdrs now mode windows), n)) \<Longrightarrow> Q (200, resp) s'"
  shows "wp (admit_schedule e hdrs now data mode name rec) Q E s"
proof (cases "mode = ''schedule'' \<and> schedule_windows now data = None")
  case False
  let ?ws = "case schedule_windows now data of Some ws \<Rightarrow> ws | None \<Rightarrow> []"
  have "wp (gpu_admission_error e now name rec mode ?ws) (\<lambda>conflict. wp
      (if (case conflict of Some msg \<Rightarrow> msg \<noteq> [] | None \<Rightarrow> False) then py_return (error_response 409 (the conflict))
       else py_seq (desired_set e name (schedule_doc hdrs now mode ?ws))
                 (py_return (200, [(''ok'', JBool True), (''mode'', JStr mode)]))) Q E) E s"
  proof (rule wp_admission)
    fix s1 assume s1: "view s1 = view s" and adm: "admitted (view s) now name rec mode ?ws"
    have "wp (put_json e (VM_DESIRED_PREFIX @ name) (schedule_doc hdrs now mode ?ws))
      (\<lambda>_. Q (200, [(''ok'', JBool True), (''mode'', JStr mode)])) E s1"
      by (rule wp_put_json_seq, rule assms(3) [of ?ws]) (use s1 adm False in \<open>auto split: option.splits\<close>)
    then show "wp (if (case None of Some msg \<Rightarrow> msg \<noteq> [] | None \<Rightarrow> False) then py_return (error_response 409 (the None))
       else py_seq (desired_set e name (schedule_doc hdrs now mode ?ws))
                 (py_return (200, [(''ok'', JBool True), (''mode'', JStr mode)]))) Q E s1"
      by (simp add: desired_set_def wp_seq wp_return)
  qed (use assms(1,2) in \<open>auto simp: wp_return error_response_def\<close>)
  with False show ?thesis unfolding admit_schedule_def Let_def by (auto simp: wp_bind)
qed (use assms(1) in \<open>simp add: admit_schedule_def wp_simps error_response_def\<close>)

lemma wp_schedule_set:
  assumes "\<And>code resp s'. code \<noteq> 200 \<Longrightarrow> view s' = view s \<Longrightarrow> Q (code, resp) s'"
    and "\<And>x s'. view s' = view s \<Longrightarrow> E x s'"
    and "\<And>data name rec mode windows n resp s'. request_dict body = Inr data \<Longrightarrow>
      set_allowed (view s) hdrs now data name rec mode windows \<Longrightarrow>
      view s' = (view s)(VM_DESIRED_PREFIX @ name \<mapsto> (Doc (schedule_doc hdrs now mode windows), n)) \<Longrightarrow> Q (200, resp) s'"
  shows "wp (vm_schedule_set e hdrs now body) Q E s"
proof (cases "request_dict body")
  case (Inr data)
  have "wp (with_owned_vm e hdrs data (\<lambda>name rec.
         case map_of data ''mode'' of
           Some (JStr mode) \<Rightarrow>
             if mode \<notin> set modes then py_return (error_response 400 ''mode must be on|off|schedule|unmanaged'')
             else if snd (authentik_identity hdrs) then admit_schedule e hdrs now data mode name rec
             else py_bind (desired_get e name) (\<lambda>cur.
               case unmanaged_error mode cur of
                 Some resp \<Rightarrow> py_return resp
               | None \<Rightarrow> admit_schedule e hdrs now data mode name rec)
         | _ \<Rightarrow> py_return (error_response 400 ''mode must be on|off|schedule|unmanaged''))) Q E s"
  proof (rule wp_owned_vm)
    fix name rec s1 assume vm: "map_of data ''vm'' = Some (JStr name)" "vm_name_ok name"
      "holds_doc (view s) (VMS_PREFIX @ name) rec" "visible hdrs rec" and s1: "view s1 = view s"
    have adm: "wp (admit_schedule e hdrs now data mode name rec) Q E s2"
      if "map_of data ''mode'' = Some (JStr mode)" "mode \<in> set modes" "view s2 = view s"
        "snd (authentik_identity hdrs) \<or> mode \<noteq> ''unmanaged''
           \<and> (\<forall>d. holds_doc (view s) (VM_DESIRED_PREFIX @ name) d \<longrightarrow> map_of d ''mode'' \<noteq> Some (JStr ''unmanaged''))"
      for mode s2
      by (rule wp_admit_schedule)
        (use that vm assms(1,2) assms(3) [OF Inr, of name rec mode] in \<open>auto simp: set_allowed_def\<close>)
    have cur: "wp (desired_get e name) (\<lambda>cur. wp (case unmanaged_error mode cur of Some resp \<Rightarrow> py_return resp
          | None \<Rightarrow> admit_schedule e hdrs now data mode name rec) Q E) E s1"
      if "map_of data ''mode'' = Some (JStr mode)" "mode \<in> set modes" for mode
      unfolding desired_get_def
    proof (rule wp_get_json_any)
      fix r s2 assume s2: "view s2 = view s1" and some: "\<And>d. r = Some d \<Longrightarrow> holds_doc (view s1) (VM_DESIRED_PREFIX @ name) d"
        and none: "r = None \<Longrightarrow> \<not> (\<exists>d. holds_doc (view s1) (VM_DESIRED_PREFIX @ name) d)"
      show "wp (case unmanaged_error mode r of Some resp \<Rightarrow> py_return resp
          | None \<Rightarrow> admit_schedule e hdrs now data mode name rec) Q E s2"
      proof (cases "unmanaged_error mode r")
        case None
        then have "mode \<noteq> ''unmanaged''" "\<not> mode_is r ''unmanaged''" by (auto simp: unmanaged_error_def split: if_splits)
        with some none s1 have "mode \<noteq> ''unmanaged''
           \<and> (\<forall>d. holds_doc (view s) (VM_DESIRED_PREFIX @ name) d \<longrightarrow> map_of d ''mode'' \<noteq> Some (JStr ''unmanaged''))"
          by (cases r) (auto simp: mode_is_def dest: holds_doc_unique)
        with None adm [OF that] s1 s2 show ?thesis by simp
      qed (use s1 s2 assms(1) in \<open>auto simp: unmanaged_error_def wp_return error_response_def split: if_splits\<close>)
    qed (use s1 assms(2) in simp)
    show "wp (case map_of data ''mode'' of
           Some (JStr mode) \<Rightarrow>
             if mode \<notin> set modes then py_return (error_response 400 ''mode must be on|off|schedule|unmanaged'')
             else if snd (authentik_identity hdrs) then admit_schedule e hdrs now data mode name rec
             else py_bind (desired_get e name) (\<lambda>cur.
               case unmanaged_error mode cur of
                 Some resp \<Rightarrow> py_return resp
               | None \<Rightarrow> admit_schedule e hdrs now data mode name rec)
         | _ \<Rightarrow> py_return (error_response 400 ''mode must be on|off|schedule|unmanaged'')) Q E s1"
      using adm cur s1 assms(1)
      by (auto simp: wp_return wp_bind error_response_def split: option.splits json.splits)
  qed (use assms(1,2) in auto)
  with Inr show ?thesis by (simp add: vm_schedule_set_def wp_simps)
qed (use assms(2) in \<open>simp add: vm_schedule_set_def wp_simps\<close>)

end

section \<open>Admission keeps every pool\<close>

lemma first_conflict_None:
  "first_conflict commits g pool ranges = Inr None \<Longrightarrow> (lo, hi) \<in> set ranges \<Longrightarrow> gpu_conflict commits g pool lo hi = Inr None"
  by (induction ranges) (auto split: sum.splits option.splits)

lemma parse_window_range:
  "window_ranges ws = Inr ranges \<Longrightarrow> w \<in> set ws \<Longrightarrow> parse_window w now = Some p \<Longrightarrow> p \<in> set ranges"
proof (induction ws arbitrary: ranges)
  case (Cons w0 ws)
  from Cons.prems(1) obtain d where d: "w0 = JObj d" by (cases w0) auto
  with Cons.prems(1) obtain a b lo hi rest where r: "map_of d ''start'' = Some (JStr a)" "map_of d ''end'' = Some (JStr b)"
    "window_time (Some (JStr a)) = Some lo" "window_time (Some (JStr b)) = Some hi"
    "window_ranges ws = Inr rest" "ranges = (lo, hi) # rest"
    by (cases "window_ranges ws") (auto split: sum.splits option.splits)
  show ?case
  proof (cases "w = w0")
    case True
    with Cons.prems(3) d r show ?thesis by (auto simp: parse_window_def split: if_splits)
  next
    case False
    with Cons r show ?thesis by simp
  qed
qed simp

lemma schedule_doc_get [simp]:
  "map_of (schedule_doc hdrs now mode ws) ''mode'' = Some (JStr mode)"
  "map_of (schedule_doc hdrs now mode ws) ''windows'' = Some (JList ws)"
  by (simp_all add: schedule_doc_def)

lemma live_windows_schedule_doc:
  "live_windows now (schedule_doc hdrs now' mode ws) = Inr (List.map_filter (\<lambda>w. parse_window w (Some now)) ws)"
  by (simp add: live_windows_def iter_windows_def)

text \<open>An admitted VM fits beside the commitments of the others whenever it is up.\<close>

lemma admitted_fits:
  assumes adm: "admitted c now name rec mode ws" and des': "desired_of des' name = schedule_doc hdrs now mode ws"
    and tabs: "table_of c VMS_PREFIX registry" "table_of c VM_DESIRED_PREFIX des" and wf: "gpus_wf registry"
    and mode: "mode \<in> set modes" "mode \<noteq> ''unmanaged''"
    and snap: "holds_doc c (VM_STATE_PREFIX @ h) snap" "is_int (map_of snap ''gpu_pool'') = Some pool"
    and rec: "(name, rec) \<in> set registry"
    and c: "vm_commit des' now (JStr h) (name, rec) = Some cm" "active_at t cm" and t: "now \<le> t" "t < datetime_max"
  shows "num_gpus cm + sum_list (map (vm_load des now (JStr h) t) (AList.delete name registry)) \<le> pool"
proof -
  note k = vm_commit_Some [OF c(1), simplified des' fst_conv snd_conv]
  have m: "mode = ''on'' \<or> mode = ''schedule''"
    using mode k(6) by (auto simp: modes_def mode_of_def)
  from k have "h \<noteq> []" by simp
  with adm k m snap obtain registry0 des0 hosts ranges
    where a: "table_of c VMS_PREFIX registry0" "table_of c VM_DESIRED_PREFIX des0"
      "gpu_commitments (AList.delete name registry0) des0 now = Inr hosts"
      "admission_ranges mode now ws = Inr ranges" "first_conflict (commits_at hosts (JStr h)) (c_gpus cm) pool ranges = Inr None"
    unfolding admitted_def by blast
  have reg: "map_of registry0 = map_of registry" and des: "map_of des0 = map_of des"
    by (rule table_of_unique [OF a(1) tabs(1)], rule table_of_unique [OF a(2) tabs(2)])
  have dist: "distinct (map fst registry)" "distinct (map fst registry0)"
    using a(1) tabs by (simp_all add: table_of_def)
  have "set registry0 = set registry"
    using map_of_inject_set [OF dist] reg by simp
  with wf have wf0: "gpus_wf (AList.delete name registry0)"
    by (auto simp: gpus_wf_def list_all_iff AList.delete_eq)
  have "vm_load des0 now (JStr h) t = vm_load des now (JStr h) t"
    by (rule ext, rule vm_load_cong) (simp add: des)
  then have others: "used (commits_at hosts (JStr h)) t = sum_list (map (vm_load des now (JStr h) t) (AList.delete name registry))"
    using sum_list_table [of "AList.delete name registry0" "AList.delete name registry" "vm_load des now (JStr h) t"]
      dist reg used_commitments [OF a(3)] by (simp add: distinct_delete delete_conv')
  obtain g where g: "num_of (c_gpus cm) = Inr g"
    using wf rec k(2,3) by (fastforce simp: gpus_wf_def list_all_iff)
  obtain lo hi where r: "(lo, hi) \<in> set ranges" "lo \<le> t" "t < hi"
  proof (cases "mode = ''on''")
    case True
    with a(4) t that show ?thesis by (auto simp: admission_ranges_def)
  next
    case False
    with m have "mode = ''schedule''" by simp
    with k(7) c(2) obtain lo hi where w: "(lo, hi) \<in> set (List.map_filter (\<lambda>w. parse_window w (Some now)) ws)" "lo \<le> t" "t < hi"
      by (auto simp: active_at_def mode_of_def live_windows_schedule_doc list_ex_iff in_window_def)
    from w(1) obtain wd where "wd \<in> set ws" "parse_window wd (Some now) = Some (lo, hi)"
      by (auto simp: List.map_filter_def)
    with a(4) False parse_window_range [of ws ranges wd "Some now" "(lo, hi)"] that w show ?thesis
      by (simp add: admission_ranges_def)
  qed
  from first_conflict_None [OF a(5) r(1)] have "used (commits_at hosts (JStr h)) t + g \<le> pool"
    using gpu_conflict_spec [OF counted_commitments [OF wf0 a(3)] g, of "JStr h" pool lo hi] r(2,3) by auto
  with others g show ?thesis by (simp add: num_gpus_def)
qed

lemma desired_table_upd:
  assumes "table_of c VM_DESIRED_PREFIX des" and "table_of (c(VM_DESIRED_PREFIX @ name \<mapsto> (Doc d, n))) VM_DESIRED_PREFIX des'"
    and "name \<noteq> []" and "CHR ''/'' \<notin> set name"
  shows "map_of des' = (map_of des)(name \<mapsto> d)"
proof (rule ext)
  fix x
  show "map_of des' x = ((map_of des)(name \<mapsto> d)) x"
  proof (cases "x = name")
    case True
    have "holds_doc (c(VM_DESIRED_PREFIX @ name \<mapsto> (Doc d, n))) (VM_DESIRED_PREFIX @ name) d" by (simp add: holds_doc_def)
    with True assms(2-4) show ?thesis by (simp add: table_of_def)
  next
    case False
    then have "holds_doc (c(VM_DESIRED_PREFIX @ name \<mapsto> (Doc d, n))) (VM_DESIRED_PREFIX @ x) d' = holds_doc c (VM_DESIRED_PREFIX @ x) d'" for d'
      by (simp add: holds_doc_def)
    then have "map_of des' x = Some d' \<longleftrightarrow> map_of des x = Some d'" for d'
      using assms(1,2) by (simp add: table_of_def)
    with False show ?thesis by (metis fun_upd_other not_None_eq)
  qed
qed

lemma vm_name_ok_plain: "vm_name_ok name \<Longrightarrow> name \<noteq> [] \<and> CHR ''/'' \<notin> set name"
  by (auto simp: vm_name_ok_def list_all_iff is_lower_def is_digit_def Let_def)

text \<open>The new record never makes the accounting fail.\<close>

lemma commitment_of_set:
  assumes "admitted c now name rec mode ws" and "mode \<in> set modes" "mode \<noteq> ''unmanaged''"
    and "desired_of des' name = schedule_doc hdrs now mode ws"
  shows "\<not> isl (commitment_of des' now name rec)"
proof -
  have "hashable host" if "map_of rec ''host'' = Some host" "truthy host" "map_of rec ''gpus'' = Some g" "truthy g"
    "map_of rec ''type'' \<noteq> Some (JStr ''container'')" "mode \<noteq> ''off''" for host g
  proof -
    from that(6) assms(2,3) have "mode = ''on'' \<or> mode = ''schedule''" by (auto simp: modes_def)
    with that assms(1) have "the_str host \<noteq> None" unfolding admitted_def by blast
    then show ?thesis by (cases host) auto
  qed
  then show ?thesis
    by (auto simp: commitment_of_def Let_def assms(4) live_windows_schedule_doc mode_of_def split: option.splits)
qed

text \<open>C7: probing the start of the range and the window starts inside it is exact: no conflict is
  reported exactly when the candidate fits at every instant of the range, and a reported conflict is
  a violation of least free capacity, with the VMs that hold the pool then.\<close>

theorem gpu_conflict_exact:
  assumes "list_all counted commits" and "num_of gpus = Inr g" and "lo < hi"
  shows "\<exists>r. gpu_conflict commits gpus pool lo hi = Inr r \<and>
    (r = None \<longleftrightarrow> (\<forall>t. lo \<le> t \<and> t < hi \<longrightarrow> used commits t + g \<le> pool)) \<and>
    (\<forall>q free active. r = Some (q, free, active) \<longrightarrow> lo \<le> q \<and> q < hi \<and> free = pool - used commits q
       \<and> active = filter (active_at q) commits \<and> (\<forall>t. lo \<le> t \<and> t < hi \<longrightarrow> free \<le> pool - used commits t))"
proof -
  from gpu_conflict_spec [OF assms(1,2), of pool lo hi]
  obtain r where r: "gpu_conflict commits gpus pool lo hi = Inr r" "violation_ok commits g pool r"
    "r = None \<Longrightarrow> (\<forall>t. lo \<le> t \<and> t < hi \<longrightarrow> used commits t + g \<le> pool)"
    "\<And>q f act. r = Some (q, f, act) \<Longrightarrow> lo \<le> q \<and> (lo < hi \<longrightarrow> q < hi)"
    "\<And>q f act t. r = Some (q, f, act) \<Longrightarrow> lo \<le> t \<Longrightarrow> t < hi \<Longrightarrow> f \<le> pool - used commits t"
    by blast
  have "\<not> (\<forall>t. lo \<le> t \<and> t < hi \<longrightarrow> used commits t + g \<le> pool)" if "r = Some (q, f, act)" for q f act
    using that r(2) r(4) [OF that] assms(3) by (auto simp: violation_ok_def intro!: exI [of _ q])
  then have "r = None \<longleftrightarrow> (\<forall>t. lo \<le> t \<and> t < hi \<longrightarrow> used commits t + g \<le> pool)"
    using r(3) by (cases r) auto
  with r assms(3) show ?thesis by (auto simp: violation_ok_def)
qed

definition sample_commits :: "commitment list" where
  "sample_commits =
     [\<lparr>c_vm = ''a'', c_owner = None, c_gpus = JInt 2, c_mode = JStr ''on'', c_windows = None\<rparr>,
      \<lparr>c_vm = ''b'', c_owner = None, c_gpus = JInt 3, c_mode = JStr ''schedule'', c_windows = Some [(5, 9), (20, 30)]\<rparr>]"

theorem gpu_conflict_exact_witness:
  "gpu_conflict sample_commits (JInt 4) 8 0 10 = Inr (Some (5, 3, sample_commits)) \<and> 5 \<le> used sample_commits 7
   \<and> gpu_conflict sample_commits (JInt 4) 8 10 20 = Inr None \<and> used sample_commits 15 \<le> 4"
proof -
  have c: "list_all counted sample_commits" by code_simp
  have runs: "gpu_conflict sample_commits (JInt 4) 8 0 10 = Inr (Some (5, 3, sample_commits))"
    "gpu_conflict sample_commits (JInt 4) 8 10 20 = Inr None" by code_simp+
  have "used sample_commits 7 = 5" by code_simp
  moreover have "used sample_commits 15 + 4 \<le> 8"
    using gpu_conflict_exact [OF c num_of.simps(1) [of 4], of 10 20 8] runs(2) by simp
  ultimately show ?thesis using runs by simp
qed

text \<open>C6: a request that sets a VM on, off or to a schedule keeps every host within its pool: if the
  commitments accepted so far fit the host's GPU pool at every instant from now on, so do the
  commitments after the request, at every instant.\<close>

theorem admitted_schedule_fits:
  assumes "etcd_seq e view" and run: "vm_schedule_set e hdrs now body s = (Inr (200, resp), s')"
    and body: "request_dict body = Inr data" "map_of data ''mode'' \<noteq> Some (JStr ''unmanaged'')"
    and tabs: "table_of (view s) VMS_PREFIX registry" "table_of (view s) VM_DESIRED_PREFIX desireds"
      "table_of (view s') VM_DESIRED_PREFIX desireds'"
    and wf: "gpus_wf registry" and before: "gpu_commitments registry desireds now = Inr hosts"
    and pool: "holds_doc (view s) (VM_STATE_PREFIX @ h) snap" "is_int (map_of snap ''gpu_pool'') = Some pool"
    and fits: "\<And>t. now \<le> t \<Longrightarrow> used (commits_at hosts (JStr h)) t \<le> pool"
  shows "\<exists>hosts'. gpu_commitments registry desireds' now = Inr hosts'
    \<and> (\<forall>t. now \<le> t \<and> t < datetime_max \<longrightarrow> used (commits_at hosts' (JStr h)) t \<le> pool)"
proof -
  have "wp (vm_schedule_set e hdrs now body) (\<lambda>r s'. fst r = 200 \<longrightarrow> (\<exists>data name rec mode windows n.
      request_dict body = Inr data \<and> set_allowed (view s) hdrs now data name rec mode windows
      \<and> view s' = (view s)(VM_DESIRED_PREFIX @ name \<mapsto> (Doc (schedule_doc hdrs now mode windows), n)))) (\<lambda>_ _. True) s"
    by (rule etcd_seq.wp_schedule_set [OF assms(1)], simp, simp, blast)
  with run body(1) obtain name rec mode ws n where al: "set_allowed (view s) hdrs now data name rec mode ws"
    and v: "view s' = (view s)(VM_DESIRED_PREFIX @ name \<mapsto> (Doc (schedule_doc hdrs now mode ws), n))"
    by (auto simp: wp_def)
  from al body(2) have mode: "mode \<in> set modes" "mode \<noteq> ''unmanaged''" and adm: "admitted (view s) now name rec mode ws"
    and rec: "holds_doc (view s) (VMS_PREFIX @ name) rec" and nm: "name \<noteq> []" "CHR ''/'' \<notin> set name"
    by (auto simp: set_allowed_def dest: vm_name_ok_plain)
  have des': "map_of desireds' = (map_of desireds)(name \<mapsto> schedule_doc hdrs now mode ws)"
    by (rule desired_table_upd [OF tabs(2) tabs(3) [unfolded v] nm])
  have look: "map_of registry name = Some rec" and dist: "distinct (map fst registry)"
    using tabs(1) rec nm by (simp_all add: table_of_def)
  from look have mem: "(name, rec) \<in> set registry" by (rule map_of_SomeD)
  have doc: "desired_of desireds' name = schedule_doc hdrs now mode ws" by (simp add: desired_of_def des')
  have "\<not> isl (commitment_of desireds' now (fst x) (snd x))" if "x \<in> set registry" for x
  proof (cases "fst x = name")
    case True
    with that mem dist have "snd x = rec" by (metis eq_key_imp_eq_value prod.collapse)
    with True commitment_of_set [OF adm mode doc] show ?thesis by simp
  next
    case False
    with that add_commitments_isl [OF before [unfolded gpu_commitments_def]]
      commitment_of_cong [of desireds' "fst x" desireds] show ?thesis by (simp add: des')
  qed
  then obtain hosts' where after: "gpu_commitments registry desireds' now = Inr hosts'"
    using add_commitments_ok unfolding gpu_commitments_def by blast
  moreover have "used (commits_at hosts' (JStr h)) t \<le> pool" if t: "now \<le> t" "t < datetime_max" for t
  proof -
    let ?rest = "\<lambda>des. sum_list (map (vm_load des now (JStr h) t) (AList.delete name registry))"
    have "?rest desireds' = ?rest desireds"
      by (intro arg_cong [where f = sum_list] map_cong refl vm_load_cong) (auto simp: des' AList.delete_eq)
    then have split': "used (commits_at hosts' (JStr h)) t = vm_load desireds' now (JStr h) t (name, rec) + ?rest desireds"
      using used_commitments [OF after] sum_list_delete [OF dist look] by simp
    have "used (commits_at hosts (JStr h)) t = vm_load desireds now (JStr h) t (name, rec) + ?rest desireds"
      using used_commitments [OF before] sum_list_delete [OF dist look] by simp
    with fits [OF t(1)] vm_load_nonneg [OF wf mem] have rest: "?rest desireds \<le> pool" by (smt (verit))
    show ?thesis
    proof (cases "\<exists>cm. vm_commit desireds' now (JStr h) (name, rec) = Some cm \<and> active_at t cm")
      case True
      then obtain cm where cm: "vm_commit desireds' now (JStr h) (name, rec) = Some cm" "active_at t cm" by blast
      with split' admitted_fits [OF adm doc tabs(1,2) wf mode pool mem cm t] show ?thesis by (simp add: vm_load_def)
    next
      case False
      then have "vm_load desireds' now (JStr h) t (name, rec) = 0" by (auto simp: vm_load_def split: option.splits)
      with split' rest show ?thesis by simp
    qed
  qed
  ultimately show ?thesis by blast
qed

definition vm_rec :: "string \<Rightarrow> dict" where
  "vm_rec owner = [(''owner'', JStr owner), (''host'', JStr ''nv1''), (''gpus'', JInt 2)]"

definition vm_store :: "string \<Rightarrow> mem" where
  "vm_store m = \<lparr>mem_data =
     [(VMS_PREFIX @ ''a'', Doc (vm_rec ''ann''), 1), (VMS_PREFIX @ ''b'', Doc (vm_rec ''bob''), 2),
      (VM_STATE_PREFIX @ ''nv1'', Doc [(''gpu_pool'', JInt 2)], 3),
      (VM_DESIRED_PREFIX @ ''a'', Doc [(''mode'', JStr m)], 4),
      (VM_DESIRED_PREFIX @ ''b'', Doc [(''mode'', JStr ''off'')], 5)], mem_rev = 5\<rparr>"

definition signed_in :: "string \<Rightarrow> auth_headers" where
  "signed_in email = \<lparr>h_email = Some email, h_groups = None\<rparr>"

definition operator :: auth_headers where
  "operator = \<lparr>h_email = None, h_groups = None\<rparr>"

definition set_request :: "string \<Rightarrow> string \<Rightarrow> dict" where
  "set_request vm mode = [(''vm'', JStr vm), (''mode'', JStr mode)]"

lemma mem_table: "all_json mem_etcd p s = (Inr t, s') \<Longrightarrow> table_of (mem_view s) p t"
  by (rule wp_Inr [OF memkv.wp_all_json_seq [where Q = "\<lambda>t s'. table_of (mem_view s) p t" and E = "\<lambda>_ _. True"]]) auto

abbreviation vm_registry :: table where
  "vm_registry \<equiv> [(''a'', vm_rec ''ann''), (''b'', vm_rec ''bob'')]"

theorem admitted_schedule_fits_witness:
  "\<exists>hosts'. gpu_commitments vm_registry
     [(''a'', schedule_doc (signed_in ''ann'') 0 ''on'' []), (''b'', [(''mode'', JStr ''off'')])] 0 = Inr hosts'
     \<and> used (commits_at hosts' (JStr ''nv1'')) 0 \<le> 2"
proof -
  let ?s = "vm_store ''off''"
  let ?run = "vm_schedule_set mem_etcd (signed_in ''ann'') 0 (Some (JObj (set_request ''a'' ''on''))) ?s"
  have run: "?run = (Inr (200, [(''ok'', JBool True), (''mode'', JStr ''on'')]), snd ?run)"
    by (rule prod_eqI) (code_simp, simp)
  have tabs: "table_of (mem_view ?s) VMS_PREFIX vm_registry"
    "table_of (mem_view ?s) VM_DESIRED_PREFIX [(''a'', [(''mode'', JStr ''off'')]), (''b'', [(''mode'', JStr ''off'')])]"
    "table_of (mem_view (snd ?run)) VM_DESIRED_PREFIX
      [(''a'', schedule_doc (signed_in ''ann'') 0 ''on'' []), (''b'', [(''mode'', JStr ''off'')])]"
    by (rule mem_table [OF prod_eqI [OF _ snd_conv [symmetric]]], code_simp)+
  have body: "request_dict (Some (JObj (set_request ''a'' ''on''))) = Inr (set_request ''a'' ''on'')"
    "map_of (set_request ''a'' ''on'') ''mode'' \<noteq> Some (JStr ''unmanaged'')" by code_simp+
  have wf: "gpus_wf vm_registry" by (simp add: gpus_wf_def vm_rec_def)
  have before: "gpu_commitments vm_registry [(''a'', [(''mode'', JStr ''off'')]), (''b'', [(''mode'', JStr ''off'')])] 0 = Inr []"
    by code_simp
  have pool: "holds_doc (mem_view ?s) (VM_STATE_PREFIX @ ''nv1'') [(''gpu_pool'', JInt 2)]"
    "is_int (map_of [(''gpu_pool'', JInt 2)] ''gpu_pool'') = Some 2"
    by (simp_all add: holds_doc_def vm_store_def mem_view_def VM_STATE_PREFIX_def VMS_PREFIX_def is_int_def)
  have "used (commits_at [] (JStr ''nv1'')) t \<le> 2" for t by (simp add: used_def commits_at_def)
  then obtain hosts' where "gpu_commitments vm_registry
      [(''a'', schedule_doc (signed_in ''ann'') 0 ''on'' []), (''b'', [(''mode'', JStr ''off'')])] 0 = Inr hosts'"
    "\<forall>t. 0 \<le> t \<and> t < datetime_max \<longrightarrow> used (commits_at hosts' (JStr ''nv1'')) t \<le> 2"
    using admitted_schedule_fits [OF memkv.etcd_seq_axioms, OF run body tabs wf before pool] by blast
  moreover have "0 < datetime_max" by (simp add: datetime_max_code)
  ultimately show ?thesis by blast
qed

text \<open>An operator who sets a VM \<open>unmanaged\<close> is not checked: with the pool of a host taken by a VM
  that is on, the request is accepted, and the commitments of the host exceed its pool afterwards.\<close>

theorem unmanaged_is_not_admitted:
  "fst (vm_schedule_set mem_etcd operator 0 (Some (JObj (set_request ''b'' ''on''))) (vm_store ''on''))
     = Inr (error_response 409 ''needs 2 GPU(s) on nv1 but only 0 uncommitted at now (pool 2; held by a (2))'')
   \<and> fst (vm_schedule_set mem_etcd operator 0 (Some (JObj (set_request ''b'' ''unmanaged''))) (vm_store ''on''))
     = Inr (200, [(''ok'', JBool True), (''mode'', JStr ''unmanaged'')])
   \<and> (case fst (desired_all mem_etcd (snd (vm_schedule_set mem_etcd operator 0
          (Some (JObj (set_request ''b'' ''unmanaged''))) (vm_store ''on'')))) of
        Inr desireds \<Rightarrow> (case gpu_commitments vm_registry desireds 0 of
          Inr hosts \<Rightarrow> used (commits_at hosts (JStr ''nv1'')) 0 = 4 | Inl _ \<Rightarrow> False) | Inl _ \<Rightarrow> False)"
proof (intro conjI)
  show "fst (vm_schedule_set mem_etcd operator 0 (Some (JObj (set_request ''b'' ''on''))) (vm_store ''on''))
     = Inr (error_response 409 ''needs 2 GPU(s) on nv1 but only 0 uncommitted at now (pool 2; held by a (2))'')"
    by code_simp
  show "fst (vm_schedule_set mem_etcd operator 0 (Some (JObj (set_request ''b'' ''unmanaged''))) (vm_store ''on''))
     = Inr (200, [(''ok'', JBool True), (''mode'', JStr ''unmanaged'')])"
    by code_simp
  show "case fst (desired_all mem_etcd (snd (vm_schedule_set mem_etcd operator 0
          (Some (JObj (set_request ''b'' ''unmanaged''))) (vm_store ''on'')))) of
        Inr desireds \<Rightarrow> (case gpu_commitments vm_registry desireds 0 of
          Inr hosts \<Rightarrow> used (commits_at hosts (JStr ''nv1'')) 0 = 4 | Inl _ \<Rightarrow> False) | Inl _ \<Rightarrow> False"
    by code_simp
qed

text \<open>C20: setting a schedule changes at most the desired record of one VM, which the caller owns unless
  an admin; a non-admin neither sets \<open>unmanaged\<close> nor replaces an \<open>unmanaged\<close> record; and a request
  that changes anything is answered with status 200.\<close>

theorem vm_schedule_access:
  assumes "etcd_seq e view" and "vm_schedule_set e hdrs now body s = (r, s')" and "view s' \<noteq> view s"
  shows "\<exists>name rec mode windows n resp. r = Inr (200, resp) \<and> vm_name_ok name
    \<and> view s' = (view s)(VM_DESIRED_PREFIX @ name \<mapsto> (Doc (schedule_doc hdrs now mode windows), n))
    \<and> holds_doc (view s) (VMS_PREFIX @ name) rec
    \<and> (snd (authentik_identity hdrs)
       \<or> (\<exists>email. fst (authentik_identity hdrs) = Some email \<and> map_of rec ''owner'' = Some (JStr email)
            \<and> mode \<noteq> ''unmanaged''
            \<and> (\<forall>d. holds_doc (view s) (VM_DESIRED_PREFIX @ name) d \<longrightarrow> map_of d ''mode'' \<noteq> Some (JStr ''unmanaged''))))"
proof -
  have "wp (vm_schedule_set e hdrs now body) (\<lambda>r s'. view s' \<noteq> view s \<longrightarrow> fst r = 200 \<and> (\<exists>data name rec mode windows n.
      set_allowed (view s) hdrs now data name rec mode windows
      \<and> view s' = (view s)(VM_DESIRED_PREFIX @ name \<mapsto> (Doc (schedule_doc hdrs now mode windows), n))))
      (\<lambda>_ s'. view s' = view s) s"
    by (rule etcd_seq.wp_schedule_set [OF assms(1)], simp, simp, simp only: fst_conv, blast)
  with assms(2,3) obtain resp data name rec mode windows n where r: "r = Inr (200, resp)"
    and al: "set_allowed (view s) hdrs now data name rec mode windows"
    and v: "view s' = (view s)(VM_DESIRED_PREFIX @ name \<mapsto> (Doc (schedule_doc hdrs now mode windows), n))"
    by (cases r) (auto simp: wp_def)
  have "fst (authentik_identity hdrs) = None \<Longrightarrow> snd (authentik_identity hdrs)"
    by (auto simp: authentik_identity_def Let_def)
  with al have "vm_name_ok name" "holds_doc (view s) (VMS_PREFIX @ name) rec"
    "snd (authentik_identity hdrs)
       \<or> (\<exists>email. fst (authentik_identity hdrs) = Some email \<and> map_of rec ''owner'' = Some (JStr email)
            \<and> mode \<noteq> ''unmanaged''
            \<and> (\<forall>d. holds_doc (view s) (VM_DESIRED_PREFIX @ name) d \<longrightarrow> map_of d ''mode'' \<noteq> Some (JStr ''unmanaged'')))"
    by (auto simp: set_allowed_def visible_def)
  with r v show ?thesis by blast
qed

theorem vm_schedule_access_witness:
  "fst (authentik_identity (signed_in ''ann'')) = Some ''ann''
   \<and> mem_view (snd (vm_schedule_set mem_etcd (signed_in ''bob'') 0 (Some (JObj (set_request ''a'' ''on''))) (vm_store ''off'')))
       = mem_view (vm_store ''off'')
   \<and> (\<exists>name n. mem_view (snd (vm_schedule_set mem_etcd (signed_in ''ann'') 0 (Some (JObj (set_request ''a'' ''on''))) (vm_store ''off'')))
       = (mem_view (vm_store ''off''))(VM_DESIRED_PREFIX @ name \<mapsto> (Doc (schedule_doc (signed_in ''ann'') 0 ''on'' []), n)))"
proof (intro conjI)
  show "fst (authentik_identity (signed_in ''ann'')) = Some ''ann''" by code_simp
  have "snd (vm_schedule_set mem_etcd (signed_in ''bob'') 0 (Some (JObj (set_request ''a'' ''on''))) (vm_store ''off'')) = vm_store ''off''"
    by code_simp
  then show "mem_view (snd (vm_schedule_set mem_etcd (signed_in ''bob'') 0 (Some (JObj (set_request ''a'' ''on''))) (vm_store ''off'')))
       = mem_view (vm_store ''off'')" by simp
  let ?run = "vm_schedule_set mem_etcd (signed_in ''ann'') 0 (Some (JObj (set_request ''a'' ''on''))) (vm_store ''off'')"
  have after: "map_of (mem_data (snd ?run)) ''/cluster/vm-desired/a'' = Some (Doc (schedule_doc (signed_in ''ann'') 0 ''on'' []), 6)"
    by code_simp
  have "map_of (mem_data (vm_store ''off'')) ''/cluster/vm-desired/a'' = Some (Doc [(''mode'', JStr ''off'')], 4)"
    by code_simp
  with after have "mem_view (snd ?run) \<noteq> mem_view (vm_store ''off'')"
    by (auto simp: mem_view_def schedule_doc_def)
  from vm_schedule_access [OF memkv.etcd_seq_axioms, OF prod.collapse [symmetric] this]
  obtain name mode windows n where v: "mem_view (snd ?run) = (mem_view (vm_store ''off''))(VM_DESIRED_PREFIX @ name \<mapsto>
      (Doc (schedule_doc (signed_in ''ann'') 0 mode windows), n))" by blast
  have "VM_DESIRED_PREFIX @ name = ''/cluster/vm-desired/a''"
  proof (rule ccontr)
    assume "VM_DESIRED_PREFIX @ name \<noteq> ''/cluster/vm-desired/a''"
    then have "mem_view (snd ?run) ''/cluster/vm-desired/a'' = mem_view (vm_store ''off'') ''/cluster/vm-desired/a''"
      unfolding v by simp
    with after show False by (simp add: mem_view_def vm_store_def VMS_PREFIX_def VM_DESIRED_PREFIX_def VM_STATE_PREFIX_def schedule_doc_def)
  qed
  with v after have "mode = ''on'' \<and> windows = []"
    by (auto simp: mem_view_def schedule_doc_def)
  with v show "\<exists>name n. mem_view (snd ?run) = (mem_view (vm_store ''off''))(VM_DESIRED_PREFIX @ name \<mapsto>
      (Doc (schedule_doc (signed_in ''ann'') 0 ''on'' []), n))" by blast
qed

section \<open>Stored windows\<close>

definition whole_second :: "int \<Rightarrow> int" where
  "whole_second t = t - t mod 1000000"

lemma parse_norm_window:
  assumes "0 \<le> a" and "a < max_instant" and "0 \<le> b" and "b < max_instant"
  shows "parse_window (norm_window (a, b)) None
    = (if whole_second b \<le> whole_second a then None else Some (whole_second a, whole_second b))"
  using assms by (simp add: parse_window_def norm_window_def window_time_def fromisoformat_iso_utc_seconds whole_second_def)

lemma norm_windows_set:
  assumes "norm_windows now ws = Some out"
  shows "set out = {norm_window (a, b) | w a b. w \<in> set ws \<and> parse_window w None = Some (a, b) \<and> now < b}"
  using assms
proof (induction ws arbitrary: out)
  case (Cons w ws)
  from Cons.prems obtain d where d: "w = JObj d" by (cases w) auto
  with Cons.prems obtain a b where ab: "window_time (map_of d ''start'') = Some a" "window_time (map_of d ''end'') = Some b" "\<not> b \<le> a"
    by (auto split: option.splits if_splits)
  then have pw: "parse_window w None = Some (a, b)" by (simp add: d parse_window_def)
  show ?case
  proof (cases "b \<le> now")
    case True
    with Cons.prems d ab have "norm_windows now ws = Some out" by simp
    from Cons.IH [OF this] True pw show ?thesis by auto
  next
    case False
    with Cons.prems d ab obtain o' where "norm_windows now ws = Some o'" "out = norm_window (a, b) # o'" by auto
    with Cons.IH [of o'] False pw show ?thesis by (auto 4 3) (metis linorder_not_le)
  qed
qed simp

text \<open>C28: the windows stored for a schedule mean what was submitted: at any instant from now on the
  stored record wants the VM up exactly when the instant lies in a submitted window, cut to whole
  seconds; and they are stored in the order of their starts.\<close>

theorem stored_windows_meaning:
  assumes "parse_windows now (JList ws) = Some out" and "now \<le> t"
    and "\<And>w a b. w \<in> set ws \<Longrightarrow> parse_window w None = Some (a, b) \<Longrightarrow> 0 \<le> a \<and> b < max_instant"
  shows "sorted (map start_of out) \<and> desired_on (schedule_doc hdrs now' ''schedule'' out) t
    = Inr (\<exists>w \<in> set ws. \<exists>a b. parse_window w None = Some (a, b) \<and> whole_second a \<le> t \<and> t < whole_second b)"
proof -
  from assms(1) obtain o' where o': "norm_windows now ws = Some o'" "out = sort_key start_of o'"
    by (auto simp: parse_windows_def split: if_splits)
  have lt: "a < b" if "parse_window w None = Some (a, b)" for w a b
    using that by (auto simp: parse_window_def split: json.splits option.splits if_splits)
  have nw: "parse_window (norm_window (a, b)) None
      = (if whole_second b \<le> whole_second a then None else Some (whole_second a, whole_second b))"
    if "w \<in> set ws" "parse_window w None = Some (a, b)" for w a b
    using assms(3) [OF that] lt [OF that(2)] by (intro parse_norm_window) auto
  have "whole_second b \<le> b" for b by (simp add: whole_second_def)
  then have live: "now < b" if "t < whole_second b" for b using that assms(2) by (smt (verit))
  have "(\<exists>w \<in> set out. case parse_window w None of Some p \<Rightarrow> in_window t p | None \<Rightarrow> False)
    \<longleftrightarrow> (\<exists>w \<in> set ws. \<exists>a b. parse_window w None = Some (a, b) \<and> whole_second a \<le> t \<and> t < whole_second b)" (is "?L \<longleftrightarrow> ?R")
  proof
    assume ?L
    then obtain w a b where "w \<in> set ws" "parse_window w None = Some (a, b)"
      "case parse_window (norm_window (a, b)) None of Some p \<Rightarrow> in_window t p | None \<Rightarrow> False"
      using norm_windows_set [OF o'(1)] o'(2) by auto
    with nw show ?R by (fastforce simp: in_window_def split: if_splits)
  next
    assume ?R
    then obtain w a b where w: "w \<in> set ws" "parse_window w None = Some (a, b)" "whole_second a \<le> t" "t < whole_second b" by blast
    with live have "norm_window (a, b) \<in> set out"
      using norm_windows_set [OF o'(1)] o'(2) by auto
    with w nw [OF w(1,2)] show ?L by (auto simp: in_window_def intro!: bexI [of _ "norm_window (a, b)"])
  qed
  moreover have "sorted (map start_of out)" by (simp add: o'(2))
  ultimately show ?thesis by (simp add: desired_on_def iter_windows_def list_ex_iff)
qed

definition sample_window :: json where
  "sample_window = JObj [(''start'', JStr ''0001-01-01T00:00:10+00:00''), (''end'', JStr ''0001-01-01T00:00:20+00:00'')]"

theorem stored_windows_meaning_witness:
  "\<exists>out. parse_windows 0 (JList [sample_window]) = Some out
    \<and> desired_on (schedule_doc operator 0 ''schedule'' out) 15000000 = Inr True
    \<and> desired_on (schedule_doc operator 0 ''schedule'' out) 20000000 = Inr False"
proof -
  have pw: "parse_window sample_window None = Some (10000000, 20000000)" by code_simp
  have out: "parse_windows 0 (JList [sample_window]) = Some [norm_window (10000000, 20000000)]"
    using pw by (auto simp: parse_windows_def parse_window_def sample_window_def split: option.splits if_splits)
  have rng: "0 \<le> a \<and> b < max_instant" if "w \<in> set [sample_window]" "parse_window w None = Some (a, b)" for w a b
    using that pw by (auto simp: max_instant_def days_before_year_def usec_per_day_def)
  from stored_windows_meaning [where t = 15000000 and hdrs = operator and now' = 0, OF out _ rng] stored_windows_meaning [where t = 20000000 and hdrs = operator and now' = 0, OF out _ rng] out pw
  show ?thesis by (simp add: whole_second_def)
qed

section \<open>Stopping now, and what the page shows\<close>

context etcd_seq
begin

lemma wp_stop_now:
  assumes "\<And>code resp s'. code \<noteq> 200 \<Longrightarrow> view s' = view s \<Longrightarrow> Q (code, resp) s'"
    and "\<And>x s'. view s' = view s \<Longrightarrow> E x s'"
    and "\<And>name rec d n resp s'. vm_name_ok name \<Longrightarrow> holds_doc (view s) (VMS_PREFIX @ name) rec \<Longrightarrow> visible hdrs rec \<Longrightarrow>
      holds_doc (view s) (VM_DESIRED_PREFIX @ name) d \<Longrightarrow> map_of d ''mode'' \<noteq> Some (JStr ''unmanaged'') \<Longrightarrow>
      desired_on d now = Inr False \<Longrightarrow> view s' = (view s)(VM_GRACE_PREFIX @ name \<mapsto>
        (Doc [(''warned_at'', JStr (iso_utc_seconds now)), (''immediate'', JBool True)], n)) \<Longrightarrow> Q (200, resp) s'"
  shows "wp (vm_schedule_stop_now e hdrs now body) Q E s"
proof (cases "request_dict body")
  case (Inr data)
  have "wp (with_owned_vm e hdrs data (\<lambda>name rec.
         py_bind (desired_get e name) (\<lambda>desired.
           if no_record desired \<or> mode_is desired ''unmanaged''
           then py_return (error_response 409 ''no pending stop for this VM'')
           else py_bind (py_lift (desired_on (the desired) now)) (\<lambda>want_on.
             if want_on then py_return (error_response 409 ''no pending stop for this VM'')
             else py_seq (grace_set e name [(''warned_at'', JStr (iso_utc_seconds now)), (''immediate'', JBool True)])
                    (py_return (200, [(''ok'', JBool True)])))))) Q E s"
  proof (rule wp_owned_vm)
    fix name rec s1 assume vm: "vm_name_ok name" "holds_doc (view s) (VMS_PREFIX @ name) rec" "visible hdrs rec"
      and s1: "view s1 = view s"
    have put: "wp (grace_set e name [(''warned_at'', JStr (iso_utc_seconds now)), (''immediate'', JBool True)])
        (\<lambda>_. Q (200, [(''ok'', JBool True)])) E s2"
      if "view s2 = view s" "holds_doc (view s) (VM_DESIRED_PREFIX @ name) d" "map_of d ''mode'' \<noteq> Some (JStr ''unmanaged'')"
        "desired_on d now = Inr False" for d s2
      unfolding grace_set_def
      by (rule wp_put_json_seq, rule assms(3) [OF vm that(2-4)]) (use that in simp)
    show "wp (py_bind (desired_get e name) (\<lambda>desired.
           if no_record desired \<or> mode_is desired ''unmanaged''
           then py_return (error_response 409 ''no pending stop for this VM'')
           else py_bind (py_lift (desired_on (the desired) now)) (\<lambda>want_on.
             if want_on then py_return (error_response 409 ''no pending stop for this VM'')
             else py_seq (grace_set e name [(''warned_at'', JStr (iso_utc_seconds now)), (''immediate'', JBool True)])
                    (py_return (200, [(''ok'', JBool True)]))))) Q E s1"
      unfolding desired_get_def wp_bind
      by (rule wp_get_json_any)
        (use s1 put assms(1,2) in \<open>auto simp: wp_simps no_record_def mode_is_def error_response_def split: sum.splits\<close>)
  qed (use assms(1,2) in auto)
  with Inr show ?thesis by (simp add: vm_schedule_stop_now_def wp_simps)
qed (use assms(2) in \<open>simp add: vm_schedule_stop_now_def wp_simps\<close>)

end

text \<open>C24: stopping now writes at most the grace marker of one VM, which the caller owns unless an admin,
  and only when the VM's record is managed and wants it off at this moment.\<close>

theorem stop_now_only_pending:
  assumes "etcd_seq e view" and "vm_schedule_stop_now e hdrs now body s = (r, s')" and "view s' \<noteq> view s"
  shows "\<exists>name rec d n. holds_doc (view s) (VMS_PREFIX @ name) rec \<and> visible hdrs rec
    \<and> holds_doc (view s) (VM_DESIRED_PREFIX @ name) d \<and> map_of d ''mode'' \<noteq> Some (JStr ''unmanaged'')
    \<and> desired_on d now = Inr False
    \<and> view s' = (view s)(VM_GRACE_PREFIX @ name \<mapsto>
        (Doc [(''warned_at'', JStr (iso_utc_seconds now)), (''immediate'', JBool True)], n))"
proof -
  have "wp (vm_schedule_stop_now e hdrs now body) (\<lambda>r s'. view s' \<noteq> view s \<longrightarrow> (\<exists>name rec d n. holds_doc (view s) (VMS_PREFIX @ name) rec
    \<and> visible hdrs rec \<and> holds_doc (view s) (VM_DESIRED_PREFIX @ name) d \<and> map_of d ''mode'' \<noteq> Some (JStr ''unmanaged'')
    \<and> desired_on d now = Inr False \<and> view s' = (view s)(VM_GRACE_PREFIX @ name \<mapsto>
        (Doc [(''warned_at'', JStr (iso_utc_seconds now)), (''immediate'', JBool True)], n)))) (\<lambda>_ s'. view s' = view s) s"
    by (rule etcd_seq.wp_stop_now [OF assms(1)], simp, simp, blast)
  with assms(2,3) show ?thesis by (cases r) (auto simp: wp_def)
qed

theorem stop_now_only_pending_witness:
  "fst (vm_schedule_stop_now mem_etcd (signed_in ''ann'') 0 (Some (JObj [(''vm'', JStr ''a'')])) (vm_store ''on''))
     = Inr (error_response 409 ''no pending stop for this VM'')
   \<and> (\<exists>name n. mem_view (snd (vm_schedule_stop_now mem_etcd (signed_in ''ann'') 0 (Some (JObj [(''vm'', JStr ''a'')])) (vm_store ''off'')))
       = (mem_view (vm_store ''off''))(VM_GRACE_PREFIX @ name \<mapsto>
          (Doc [(''warned_at'', JStr (iso_utc_seconds 0)), (''immediate'', JBool True)], n)))"
proof
  show "fst (vm_schedule_stop_now mem_etcd (signed_in ''ann'') 0 (Some (JObj [(''vm'', JStr ''a'')])) (vm_store ''on''))
     = Inr (error_response 409 ''no pending stop for this VM'')" by code_simp
  let ?run = "vm_schedule_stop_now mem_etcd (signed_in ''ann'') 0 (Some (JObj [(''vm'', JStr ''a'')])) (vm_store ''off'')"
  have "map_of (mem_data (snd ?run)) ''/cluster/vm-grace/a'' \<noteq> None" "map_of (mem_data (vm_store ''off'')) ''/cluster/vm-grace/a'' = None"
    by code_simp+
  then have "mem_view (snd ?run) \<noteq> mem_view (vm_store ''off'')" by (auto simp: mem_view_def)
  from stop_now_only_pending [OF memkv.etcd_seq_axioms, OF prod.collapse [symmetric] this]
  show "\<exists>name n. mem_view (snd ?run) = (mem_view (vm_store ''off''))(VM_GRACE_PREFIX @ name \<mapsto>
          (Doc [(''warned_at'', JStr (iso_utc_seconds 0)), (''immediate'', JBool True)], n))" by blast
qed

lemma schedule_rows_visible:
  assumes "schedule_rows hdrs (schedule_row now live desireds issues graces) registry = Inr rows" and "r \<in> set rows"
  shows "\<exists>name rec. (name, rec) \<in> set registry \<and> visible hdrs rec \<and> map_of r ''vm'' = Some (JStr name)
    \<and> map_of r ''owner'' = Some (get_or_null rec ''owner'')"
  using assms
proof (induction registry arbitrary: rows)
  case (Cons x xs)
  obtain name rec where x: "x = (name, rec)" by (cases x)
  show ?case
  proof (cases "visible hdrs rec")
    case False
    with Cons x show ?thesis by auto
  next
    case True
    with Cons.prems(1) x obtain row rows' where rw: "schedule_row now live desireds issues graces name rec = Inr row"
      "schedule_rows hdrs (schedule_row now live desireds issues graces) xs = Inr rows'" "rows = row # rows'"
      by (auto split: sum.splits)
    show ?thesis
    proof (cases "r = row")
      case True
      from rw(1) have "map_of row ''vm'' = Some (JStr name) \<and> map_of row ''owner'' = Some (get_or_null rec ''owner'')"
        by (auto simp: schedule_row_def Let_def)
      with True \<open>visible hdrs rec\<close> x show ?thesis by auto
    next
      case False
      with Cons.IH [OF rw(2)] Cons.prems(2) rw(3) show ?thesis by auto
    qed
  qed
qed simp

text \<open>C29: the page shows a user who is no admin only rows of VMs they own, and no owner of any
  commitment.\<close>

theorem schedule_page_privacy:
  assumes "schedule_body hdrs now states desireds issues graces registry = Inr body"
    and "\<not> snd (authentik_identity hdrs)"
  shows "\<exists>rows hosts email. map_of body ''rows'' = Some (JList rows) \<and> map_of body ''hosts'' = Some (JList hosts)
    \<and> fst (authentik_identity hdrs) = Some email
    \<and> (\<forall>r \<in> set rows. \<exists>d name rec. r = JObj d \<and> (name, rec) \<in> set registry \<and> map_of d ''vm'' = Some (JStr name)
          \<and> map_of rec ''owner'' = Some (JStr email) \<and> map_of d ''owner'' = Some (JStr email))
    \<and> (\<forall>h \<in> set hosts. \<exists>d cs. h = JObj d \<and> map_of d ''commitments'' = Some (JList cs)
          \<and> (\<forall>c \<in> set cs. \<exists>cd. c = JObj cd \<and> map_of cd ''owner'' = Some JNull))"
proof -
  from assms(2) obtain email where em: "fst (authentik_identity hdrs) = Some email"
    by (auto simp: authentik_identity_def Let_def)
  from assms(1) obtain live pools rows commits hs where b:
    "schedule_rows hdrs (schedule_row now live desireds issues graces) registry = Inr rows"
    "map_of body ''rows'' = Some (JList (map JObj (sort_key vm_of rows)))"
    "map_of body ''hosts'' = Some (JList (map (host_json (snd (authentik_identity hdrs)) commits pools)
                               (filter (listed_host commits pools) hs)))"
    by (auto simp: schedule_body_def split: sum.splits prod.splits)
  have "\<exists>d name rec. r = JObj d \<and> (name, rec) \<in> set registry \<and> map_of d ''vm'' = Some (JStr name)
          \<and> map_of rec ''owner'' = Some (JStr email) \<and> map_of d ''owner'' = Some (JStr email)"
    if "r \<in> set (map JObj (sort_key vm_of rows))" for r
    using that schedule_rows_visible [OF b(1)] assms(2) em
    by (fastforce simp: visible_def get_or_null_def)
  moreover have "\<exists>d cs. h = JObj d \<and> map_of d ''commitments'' = Some (JList cs)
          \<and> (\<forall>c \<in> set cs. \<exists>cd. c = JObj cd \<and> map_of cd ''owner'' = Some JNull)"
    if "h \<in> set (map (host_json (snd (authentik_identity hdrs)) commits pools) (filter (listed_host commits pools) hs))" for h
    using that assms(2) by (auto simp: host_json_def commitment_json_def)
  ultimately show ?thesis using b em by blast
qed

theorem schedule_page_privacy_witness:
  "\<exists>body rows. schedule_body (signed_in ''ann'') 0 [] [] [] [] vm_registry = Inr body \<and> map_of body ''rows'' = Some (JList rows)
     \<and> length rows = 1 \<and> (\<forall>r \<in> set rows. \<exists>d. r = JObj d \<and> map_of d ''owner'' = Some (JStr ''ann''))"
proof -
  let ?b = "schedule_body (signed_in ''ann'') 0 [] [] [] [] vm_registry"
  have "case ?b of Inr body \<Rightarrow> (case map_of body ''rows'' of Some (JList rows) \<Rightarrow> length rows = 1 | _ \<Rightarrow> False) | Inl _ \<Rightarrow> False"
    by code_simp
  then obtain body rows where b: "?b = Inr body" "map_of body ''rows'' = Some (JList rows)" "length rows = 1"
    by (auto split: sum.splits option.splits json.splits)
  have "\<not> snd (authentik_identity (signed_in ''ann''))" "fst (authentik_identity (signed_in ''ann'')) = Some ''ann''" by code_simp+
  with schedule_page_privacy [OF b(1)] b show ?thesis by fastforce
qed

end
