(* ===== verification/YIncus.thy ===== *)
theory YIncus
  imports YVmSchedule
begin

text \<open>
  The Incus host as \<open>utils/vm_manager.py\<close> drives it. The \<open>incus\<close> client, the file system and the clock
  are not part of the sources: they are a record \<open>host\<close> of calls on the state \<open>'w\<close> of the world, which
  also holds etcd. The output of a command is text or, for \<open>--format json\<close>, the array of objects it
  prints. The helpers are modelled in the order of the source: running commands, addresses and pins,
  DNS records, the NAS share, the GPU pool and the attachment of GPUs; what is printed to the terminal
  is left out.

  The locale \<open>incus_env\<close> states what the program relies on: a command is recorded in the trace of
  issued commands and leaves etcd alone, and etcd calls issue no command. The simulated host at the end
  of this theory is an instance.
\<close>

section \<open>The host\<close>

datatype cmd_output = Lines string | Rows "dict list"

record cmd =
  cmd_rc :: int
  cmd_out :: cmd_output
  cmd_err :: string

record 'w host =
  h_name :: string
  h_run :: "string list \<Rightarrow> string option \<Rightarrow> ('w, cmd) py"
  h_now :: "('w, int) py"
  h_ns :: "('w, nat) py"
  h_sleep :: "nat \<Rightarrow> ('w, unit) py"
  h_config :: "('w, string list option) py"
  h_mkdir :: "string \<Rightarrow> ('w, bool) py"
  h_isdir :: "string \<Rightarrow> ('w, bool) py"
  h_listdir :: "string \<Rightarrow> ('w, string list) py"
  h_read :: "string \<Rightarrow> ('w, string option) py"
  h_write :: "string \<Rightarrow> string \<Rightarrow> ('w, bool) py"

fun out_text :: "cmd_output \<Rightarrow> string" where
  "out_text (Lines s) = s"
| "out_text (Rows _) = []"

text \<open>A name in single quotes, as messages have it; the dashes of messages are written as hyphens.\<close>

definition quoted :: "string \<Rightarrow> string" where
  "quoted s = CHR 0x27 # s @ [CHR 0x27]"

definition incus :: "'w host \<Rightarrow> string list \<Rightarrow> bool \<Rightarrow> string option \<Rightarrow> ('w, cmd) py" where
  "incus h args check stdin =
     py_bind (h_run h args stdin) (\<lambda>r.
       if check \<and> cmd_rc r \<noteq> 0
       then py_raise (RuntimeError (''incus '' @ join '' '' args @ '' failed: '' @ strip (cmd_err r)))
       else py_return r)"

text \<open>A command whose failure raises and whose output is not used.\<close>

definition incus_do :: "'w host \<Rightarrow> string list \<Rightarrow> ('w, unit) py" where
  "incus_do h args = py_seq (incus h args True None) (py_return ())"

definition incus_json :: "'w host \<Rightarrow> string list \<Rightarrow> ('w, dict list) py" where
  "incus_json h args =
     py_bind (incus h args True None) (\<lambda>r.
       case cmd_out r of Rows ds \<Rightarrow> py_return ds | Lines _ \<Rightarrow> py_raise JSONDecodeError)"

definition list_all_cmd :: "string list" where
  "list_all_cmd = [''list'', ''--format'', ''json'']"

definition instance_exists :: "'w host \<Rightarrow> string \<Rightarrow> ('w, bool) py" where
  "instance_exists h name =
     py_bind (incus h [''info'', name] False None) (\<lambda>r. py_return (cmd_rc r = 0))"

section \<open>Reading instance records\<close>

fun sfold :: "('a \<Rightarrow> 'b \<Rightarrow> exn + 'b) \<Rightarrow> 'a list \<Rightarrow> 'b \<Rightarrow> exn + 'b" where
  "sfold f [] b = Inr b"
| "sfold f (x # xs) b = (case f x b of Inl e \<Rightarrow> Inl e | Inr b' \<Rightarrow> sfold f xs b')"

text \<open>\<open>x or {}\<close> used as a dict; \<open>x or []\<close> iterated; \<open>.values()\<close>.\<close>

definition or_obj :: "json option \<Rightarrow> exn + dict" where
  "or_obj x =
     (case x of
        None \<Rightarrow> Inr []
      | Some j \<Rightarrow> if \<not> truthy j then Inr [] else (case j of JObj d \<Rightarrow> Inr d | _ \<Rightarrow> Inl AttributeError))"

definition or_list :: "json option \<Rightarrow> exn + json list" where
  "or_list x =
     (case x of
        None \<Rightarrow> Inr []
      | Some j \<Rightarrow> if \<not> truthy j then Inr [] else (case j of JList xs \<Rightarrow> Inr xs | _ \<Rightarrow> Inl TypeError))"

definition as_dict :: "json \<Rightarrow> exn + dict" where
  "as_dict j = (case j of JObj d \<Rightarrow> Inr d | _ \<Rightarrow> Inl AttributeError)"

definition eth0_of :: "dict \<Rightarrow> exn + dict" where
  "eth0_of inst =
     (case or_obj (map_of inst ''expanded_devices'') of
        Inl x \<Rightarrow> Inl x
      | Inr devs \<Rightarrow> or_obj (map_of devs ''eth0''))"

definition add_pinned :: "dict \<Rightarrow> (string \<times> json) list \<Rightarrow> exn + (string \<times> json) list" where
  "add_pinned inst pinned =
     (case eth0_of inst of
        Inl x \<Rightarrow> Inl x
      | Inr eth0 \<Rightarrow>
          (case map_of eth0 ''ipv4.address'' of
             Some ip \<Rightarrow>
               if truthy ip then map_sum id (\<lambda>n. AList.update n ip pinned) (str_item inst ''name'') else Inr pinned
           | None \<Rightarrow> Inr pinned))"

definition pinned_ips :: "'w host \<Rightarrow> ('w, (string \<times> json) list) py" where
  "pinned_ips h = py_bind (incus_json h list_all_cmd) (\<lambda>insts. py_lift (sfold add_pinned insts []))"

definition is_global_inet :: "dict \<Rightarrow> bool" where
  "is_global_inet a = (map_of a ''family'' = Some (JStr ''inet'') \<and> map_of a ''scope'' = Some (JStr ''global''))"

definition add_address :: "json \<Rightarrow> json list \<Rightarrow> exn + json list" where
  "add_address j occupied =
     (case as_dict j of
        Inl x \<Rightarrow> Inl x
      | Inr a \<Rightarrow> if is_global_inet a then map_sum id (\<lambda>ip. ip # occupied) (dict_item a ''address'') else Inr occupied)"

definition iface_addresses :: "json \<Rightarrow> exn + json list" where
  "iface_addresses j = (case as_dict j of Inl x \<Rightarrow> Inl x | Inr iface \<Rightarrow> or_list (map_of iface ''addresses''))"

definition add_iface :: "json \<Rightarrow> json list \<Rightarrow> exn + json list" where
  "add_iface j occupied =
     (case iface_addresses j of Inl x \<Rightarrow> Inl x | Inr as \<Rightarrow> sfold add_address as occupied)"

definition inst_ifaces :: "dict \<Rightarrow> exn + json list" where
  "inst_ifaces inst =
     (case or_obj (map_of inst ''state'') of
        Inl x \<Rightarrow> Inl x
      | Inr st \<Rightarrow> map_sum id (map snd) (or_obj (map_of st ''network'')))"

definition add_live :: "dict \<Rightarrow> json list \<Rightarrow> exn + json list" where
  "add_live inst occupied =
     (case inst_ifaces inst of Inl x \<Rightarrow> Inl x | Inr ifs \<Rightarrow> sfold add_iface ifs occupied)"

definition occupied_ips :: "'w host \<Rightarrow> ('w, json list) py" where
  "occupied_ips h =
     py_bind (pinned_ips h) (\<lambda>pinned.
     py_bind (incus_json h list_all_cmd) (\<lambda>insts. py_lift (sfold add_live insts (map snd pinned))))"

section \<open>Addresses\<close>

definition VM_IP_SUBNET_PREFIX :: string where
  "VM_IP_SUBNET_PREFIX = ''10.100.0''"

definition VM_IP_POOL_START :: nat where
  "VM_IP_POOL_START = 10"

definition VM_IP_POOL_END :: nat where
  "VM_IP_POOL_END = 200"

definition pool_ip :: "nat \<Rightarrow> string" where
  "pool_ip i = VM_IP_SUBNET_PREFIX @ ''.'' @ nat_str i"

definition first_free_ip :: "json list \<Rightarrow> exn + json" where
  "first_free_ip taken =
     (case List.find (\<lambda>i. JStr (pool_ip i) \<notin> set taken) [VM_IP_POOL_START..<VM_IP_POOL_END + 1] of
        Some i \<Rightarrow> Inr (JStr (pool_ip i))
      | None \<Rightarrow> Inl (RuntimeError ''No free IPs''))"

definition pick_from :: "json option \<Rightarrow> json list \<Rightarrow> exn + json" where
  "pick_from prefer taken =
     (case prefer of
        Some p \<Rightarrow> if truthy p \<and> p \<notin> set taken then Inr p else first_free_ip taken
      | None \<Rightarrow> first_free_ip taken)"

definition pick_vm_ip :: "'w host \<Rightarrow> json option \<Rightarrow> json list option \<Rightarrow> ('w, json) py" where
  "pick_vm_ip h prefer taken =
     (case taken of
        None \<Rightarrow> py_bind (occupied_ips h) (\<lambda>t. py_lift (pick_from prefer t))
      | Some t \<Rightarrow> py_lift (pick_from prefer t))"

definition pin_instance_ip :: "'w host \<Rightarrow> string \<Rightarrow> string \<Rightarrow> ('w, unit) py" where
  "pin_instance_ip h name ip =
     py_bind (incus h [''config'', ''device'', ''override'', name, ''eth0'', ''ipv4.address='' @ ip] False None) (\<lambda>ov.
       py_when (cmd_rc ov \<noteq> 0)
         (incus_do h [''config'', ''device'', ''set'', name, ''eth0'', ''ipv4.address='' @ ip]))"

section \<open>DNS records\<close>

definition is_break :: "char \<Rightarrow> bool" where
  "is_break c = (let n = of_char c :: nat in 10 \<le> n \<and> n \<le> 13 \<or> 28 \<le> n \<and> n \<le> 30 \<or> n = 133)"

text \<open>The parts of a text between characters with a property, empty parts left out: \<open>s.split()\<close>, and
  \<open>s.splitlines()\<close> where the code skips empty lines.\<close>

fun words_by :: "(char \<Rightarrow> bool) \<Rightarrow> string \<Rightarrow> string \<Rightarrow> string list" where
  "words_by P [] acc = (if acc = [] then [] else [rev acc])"
| "words_by P (c # cs) acc =
     (if P c then (if acc = [] then words_by P cs [] else rev acc # words_by P cs [])
      else words_by P cs (c # acc))"

definition text_lines :: "string \<Rightarrow> string list" where
  "text_lines s = words_by is_break s []"

definition split_ws :: "string \<Rightarrow> string list" where
  "split_ws s = words_by is_space s []"

definition managed_bridges :: "'w host \<Rightarrow> ('w, string list) py" where
  "managed_bridges h =
     py_bind (incus_json h [''network'', ''list'', ''--format'', ''json'']) (\<lambda>ns.
       py_lift (sfold (\<lambda>n acc.
         if map_of n ''type'' = Some (JStr ''bridge'') \<and> otruthy (map_of n ''managed'')
         then map_sum id (\<lambda>s. acc @ [s]) (str_item n ''name'') else Inr acc) ns []))"

definition bridge_of :: "(string \<times> (string \<times> string) list) list \<Rightarrow> string \<Rightarrow> (string \<times> string) list" where
  "bridge_of bb bridge = (case map_of bb bridge of Some xs \<Rightarrow> xs | None \<Rightarrow> [])"

definition add_bridge ::
  "dict \<Rightarrow> (string \<times> (string \<times> string) list) list \<Rightarrow> exn + (string \<times> (string \<times> string) list) list" where
  "add_bridge inst bb =
     (case eth0_of inst of
        Inl x \<Rightarrow> Inl x
      | Inr eth0 \<Rightarrow>
          if otruthy (map_of eth0 ''ipv4.address'') \<and> otruthy (map_of eth0 ''network'')
          then (case (str_item eth0 ''ipv4.address'', str_item eth0 ''network'', str_item inst ''name'') of
                  (Inr ip, Inr bridge, Inr name) \<Rightarrow> Inr (AList.update bridge (bridge_of bb bridge @ [(name, ip)]) bb)
                | (_, _, Inl x) \<Rightarrow> Inl x
                | _ \<Rightarrow> Inl TypeError)
          else Inr bb)"

definition host_record :: "string \<Rightarrow> string \<times> string \<Rightarrow> string" where
  "host_record domain x =
     ''host-record='' @ fst x @ '','' @ fst x @ ''.'' @ domain @ '','' @ snd x"

definition desired_lines :: "string \<Rightarrow> (string \<times> string) list \<Rightarrow> string list \<Rightarrow> string list" where
  "desired_lines domain pins current =
     filter (\<lambda>l. \<not> startswith l ''host-record='') current @ sort (map (host_record domain) pins)"

definition sync_bridge ::
  "'w host \<Rightarrow> (string \<times> (string \<times> string) list) list \<Rightarrow> string
    \<Rightarrow> (string \<times> string list) list \<Rightarrow> ('w, (string \<times> string list) list) py" where
  "sync_bridge h bb bridge changed =
     py_bind (incus h [''network'', ''get'', bridge, ''dns.domain''] True None) (\<lambda>dom.
     py_bind (incus h [''network'', ''get'', bridge, ''raw.dnsmasq''] True None) (\<lambda>raw.
       let d = strip (out_text (cmd_out dom)); domain = (if d = [] then ''incus'' else d);
           current = text_lines (out_text (cmd_out raw));
           desired = desired_lines domain (bridge_of bb bridge) current
       in if desired \<noteq> current
          then py_seq (incus_do h [''network'', ''set'', bridge, ''raw.dnsmasq'', join nl desired])
                 (py_return (AList.update bridge (sort (map (host_record domain) (bridge_of bb bridge))) changed))
          else py_return changed))"

definition sync_dns_records :: "'w host \<Rightarrow> ('w, (string \<times> string list) list) py" where
  "sync_dns_records h =
     py_bind (incus_json h list_all_cmd) (\<lambda>insts.
     py_bind (py_lift (sfold add_bridge insts [])) (\<lambda>bb.
     py_bind (managed_bridges h) (\<lambda>bridges. py_fold (sync_bridge h bb) bridges [])))"

section \<open>The NAS share\<close>

definition strip_char :: "char \<Rightarrow> string \<Rightarrow> string" where
  "strip_char c s = rev (dropWhile (\<lambda>x. x = c) (rev (dropWhile (\<lambda>x. x = c) s)))"

fun config_lookup :: "string \<Rightarrow> string list \<Rightarrow> string option" where
  "config_lookup wanted [] = None"
| "config_lookup wanted (l # ls) =
     (case partition_on (CHR '':'') l of (key, _, val) \<Rightarrow>
        if strip key = wanted then Some (strip_char (CHR 0x27) (strip_char (CHR 0x22) (strip val)))
        else config_lookup wanted ls)"

definition host_config_value :: "'w host \<Rightarrow> string \<Rightarrow> ('w, string option) py" where
  "host_config_value h wanted =
     py_bind (h_config h) (\<lambda>f. py_return (Option.bind f (config_lookup wanted)))"

definition default_instance_type :: "'w host \<Rightarrow> ('w, string) py" where
  "default_instance_type h =
     py_bind (host_config_value h ''default_instance_type'') (\<lambda>v.
       py_return (if v = Some ''vm'' \<or> v = Some ''container'' then the v else ''vm''))"

definition NAS_HOST_BASE :: string where
  "NAS_HOST_BASE = ''/near1/vm''"

definition NAS_DEVICE :: string where
  "NAS_DEVICE = ''data''"

definition NAS_GUEST_PATH :: string where
  "NAS_GUEST_PATH = ''/data''"

definition ensure_nas_share :: "'w host \<Rightarrow> string \<Rightarrow> ('w, unit) py" where
  "ensure_nas_share h name =
     py_bind (host_config_value h ''vm_nas_share'') (\<lambda>v.
       if v = Some ''false'' then py_return ()
       else (let host_dir = NAS_HOST_BASE @ ''/'' @ name in
         py_bind (h_mkdir h host_dir) (\<lambda>ok.
           if \<not> ok then py_return ()
           else py_bind (incus h [''config'', ''device'', ''list'', name] False None) (\<lambda>have'.
             py_when (NAS_DEVICE \<notin> set (split_ws (out_text (cmd_out have'))))
               (incus_do h [''config'', ''device'', ''add'', name, NAS_DEVICE, ''disk'',
                  ''source='' @ host_dir, ''path='' @ NAS_GUEST_PATH, ''shift=true'', ''required=false''])))))"

definition instance_running :: "'w host \<Rightarrow> string \<Rightarrow> ('w, bool) py" where
  "instance_running h name =
     py_bind (incus h [''list'', name, ''--format'', ''csv'', ''-c'', ''ns''] False None) (\<lambda>r.
       py_return (case List.find (\<lambda>l. fst (partition_on (CHR '','') l) = name) (text_lines (out_text (cmd_out r))) of
         Some l \<Rightarrow> lower (snd (snd (partition_on (CHR '','') l))) = ''running''
       | None \<Rightarrow> False))"

text \<open>Waiting for the guest's agent: \<open>n\<close> bounds the number of probes. \<open>time.sleep(3)\<close> lets at least three
  seconds pass, so the bound \<open>timeout / 3 + 2\<close> of \<open>wait_agent\<close> is never reached while the wall clock is not set
  back (\<open>wait_agent_terminates\<close>); each time it is set back the code may probe longer than that.\<close>

fun wait_probe :: "nat \<Rightarrow> 'w host \<Rightarrow> string \<Rightarrow> int \<Rightarrow> ('w, bool option) py" where
  "wait_probe 0 h name deadline = py_return None"
| "wait_probe (Suc n) h name deadline =
     py_bind (h_now h) (\<lambda>t.
       if deadline \<le> t then py_return (Some False)
       else py_bind (incus h [''exec'', name, ''--'', ''true''] False None) (\<lambda>r.
         if cmd_rc r = 0 then py_return (Some True)
         else py_seq (h_sleep h 3) (wait_probe n h name deadline)))"

definition wait_agent :: "'w host \<Rightarrow> string \<Rightarrow> nat \<Rightarrow> ('w, unit) py" where
  "wait_agent h name timeout =
     py_bind (h_now h) (\<lambda>t.
     py_bind (wait_probe (timeout div 3 + 2) h name (t + int timeout * 1000000)) (\<lambda>r.
       if r = Some True then py_return () else py_raise
         (RuntimeError (quoted name @ '' did not become reachable within '' @ nat_str timeout @ ''s''))))"

text \<open>\<open>_push_file\<close> and \<open>_read_file\<close>; the file's path has a directory part.\<close>

definition dirname :: "string \<Rightarrow> string" where
  "dirname p = fst (rpartition_on (CHR ''/'') p)"

definition push_file :: "'w host \<Rightarrow> string \<Rightarrow> string \<Rightarrow> string \<Rightarrow> string \<Rightarrow> ('w, unit) py" where
  "push_file h inst path content owner =
     py_seq (incus_do h [''exec'', inst, ''--'', ''mkdir'', ''-p'', dirname path])
     (py_bind (h_run h [''file'', ''push'', ''-'', inst @ path, ''--mode'', ''0600''] (Some content)) (\<lambda>r.
       if cmd_rc r \<noteq> 0 then py_raise (RuntimeError (''incus file push to '' @ inst @ path @ '' failed: '' @ strip (cmd_err r)))
       else py_seq (incus_do h [''exec'', inst, ''--'', ''chown'', ''-R'', owner @ '':'' @ owner, dirname path])
              (incus_do h [''exec'', inst, ''--'', ''chmod'', ''700'', dirname path])))"

definition read_file :: "'w host \<Rightarrow> string \<Rightarrow> string \<Rightarrow> ('w, string option) py" where
  "read_file h inst path =
     py_bind (h_run h [''file'', ''pull'', inst @ path, ''-''] None) (\<lambda>r.
       py_return (if cmd_rc r \<noteq> 0 then None else Some (out_text (cmd_out r))))"

section \<open>The GPU pool\<close>

fun gpu_scan :: "'w host \<Rightarrow> string list \<Rightarrow> ('w, string list) py" where
  "gpu_scan h [] = py_return []"
| "gpu_scan h (entry # rest) =
     (let dev = ''/sys/bus/pci/devices/'' @ entry in
      py_bind (h_isdir h dev) (\<lambda>d.
        if \<not> d then gpu_scan h rest
        else py_bind (h_read h (dev @ ''/class'')) (\<lambda>cls.
          case cls of
            None \<Rightarrow> gpu_scan h rest
          | Some c \<Rightarrow>
              if startswith (strip c) ''0x0300''
              then py_bind (gpu_scan h rest) (\<lambda>gs. py_return (entry # gs))
              else gpu_scan h rest)))"

definition gpu_pool :: "'w host \<Rightarrow> ('w, string list) py" where
  "gpu_pool h =
     (let drv = ''/sys/bus/pci/drivers/vfio-pci'' in
      py_bind (h_isdir h drv) (\<lambda>d.
        if \<not> d then py_return []
        else py_bind (h_listdir h drv) (\<lambda>es. gpu_scan h (sort es))))"

definition is_gpu_dev :: "json \<Rightarrow> bool" where
  "is_gpu_dev dev =
     (case dev of JObj d \<Rightarrow> map_of d ''type'' = Some (JStr ''gpu'') \<and> otruthy (map_of d ''pci'') | _ \<Rightarrow> False)"

definition add_assigned_dev :: "json \<Rightarrow> json list \<Rightarrow> exn + json list" where
  "add_assigned_dev dev assigned =
     (case as_dict dev of
        Inl x \<Rightarrow> Inl x
      | Inr d \<Rightarrow> Inr (if is_gpu_dev dev then the (map_of d ''pci'') # assigned else assigned))"

definition add_assigned :: "dict \<Rightarrow> json list \<Rightarrow> exn + json list" where
  "add_assigned inst assigned =
     (case map_of inst ''devices'' of
        None \<Rightarrow> Inr assigned
      | Some (JObj devs) \<Rightarrow> sfold add_assigned_dev (map snd devs) assigned
      | Some _ \<Rightarrow> Inl AttributeError)"

definition assigned_gpus :: "'w host \<Rightarrow> ('w, json list) py" where
  "assigned_gpus h = py_bind (incus_json h list_all_cmd) (\<lambda>insts. py_lift (sfold add_assigned insts []))"

definition free_gpus :: "'w host \<Rightarrow> ('w, string list) py" where
  "free_gpus h =
     py_bind (assigned_gpus h) (\<lambda>assigned.
     py_bind (gpu_pool h) (\<lambda>pool. py_return (filter (\<lambda>g. JStr g \<notin> set assigned) pool)))"

definition is_live_vendor :: "string \<Rightarrow> bool" where
  "is_live_vendor bytes =
     (case bytes of
        b0 # b1 # _ \<Rightarrow> (let vid = of_char b0 + 256 * of_char b1 :: nat in vid \<noteq> 0 \<and> vid \<noteq> 65535)
      | _ \<Rightarrow> False)"

text \<open>The liveness probe: resume the device, read its vendor, restore the power policy; any error of
  these counts as unhealthy, and the policy is restored even when the read fails.\<close>

definition gpu_healthy :: "'w host \<Rightarrow> string \<Rightarrow> ('w, bool) py" where
  "gpu_healthy h pci =
     (let dev = ''/sys/bus/pci/devices/'' @ pci in
      py_bind (h_write h (dev @ ''/power/control'') ''on'') (\<lambda>w.
        if \<not> w then py_return False
        else py_bind (h_read h (dev @ ''/config'')) (\<lambda>vid.
             py_bind (h_write h (dev @ ''/power/control'') ''auto'') (\<lambda>restored.
               py_return (case vid of Some v \<Rightarrow> restored \<and> is_live_vendor (take 2 v) | None \<Rightarrow> False)))))"

fun split_healthy :: "(string \<Rightarrow> ('w, bool) py) \<Rightarrow> string list \<Rightarrow> ('w, string list \<times> string list) py" where
  "split_healthy is_healthy [] = py_return ([], [])"
| "split_healthy is_healthy (g # gs) =
     py_bind (is_healthy g) (\<lambda>ok.
     py_bind (split_healthy is_healthy gs) (\<lambda>(healthy, wedged).
       py_return (if ok then (g # healthy, wedged) else (healthy, g # wedged))))"

definition select_healthy_gpus ::
  "string list \<Rightarrow> nat \<Rightarrow> (string \<Rightarrow> ('w, bool) py) \<Rightarrow> ('w, string list \<times> string list) py" where
  "select_healthy_gpus free n is_healthy =
     py_bind (split_healthy is_healthy free) (\<lambda>(healthy, wedged).
       if length healthy < n
       then py_raise (ValueError (''Only '' @ nat_str (length healthy) @ '' healthy GPU(s) free, requested '' @ nat_str n
         @ (if wedged = [] then [] else ''; '' @ nat_str (length wedged) @ '' free but wedged ('' @ join '', '' wedged @ '')'') @ ''.''))
       else py_return (take n healthy, wedged))"

definition select_free_gpus :: "'w host \<Rightarrow> nat \<Rightarrow> ('w, string list) py" where
  "select_free_gpus h n =
     py_bind (free_gpus h) (\<lambda>free.
     py_bind (select_healthy_gpus free n (gpu_healthy h)) (\<lambda>r. py_return (fst r)))"

definition verify_guest_gpus :: "'w host \<Rightarrow> string \<Rightarrow> ('w, nat) py" where
  "verify_guest_gpus h vm_name =
     py_bind (incus h [''exec'', vm_name, ''--'', ''nvidia-smi'', ''-L''] False None) (\<lambda>r.
       py_return (length (filter (\<lambda>l. startswith l ''GPU '') (text_lines (out_text (cmd_out r))))))"

text \<open>\<open>vm_gpus\<close>: the rows of the listing.\<close>

fun gpu_rows :: "'w host \<Rightarrow> json list \<Rightarrow> string list \<Rightarrow> ('w, (string \<times> string) list) py" where
  "gpu_rows h assigned [] = py_return []"
| "gpu_rows h assigned (g # gs) =
     py_bind (if JStr g \<in> set assigned then py_return ''ASSIGNED''
              else py_bind (gpu_healthy h g) (\<lambda>ok. py_return (if ok then ''free'' else ''WEDGED''))) (\<lambda>st.
     py_bind (gpu_rows h assigned gs) (\<lambda>rows. py_return ((g, st) # rows)))"

definition vm_gpus :: "'w host \<Rightarrow> ('w, (string \<times> string) list) py" where
  "vm_gpus h =
     py_bind (gpu_pool h) (\<lambda>pool.
       if pool = [] then py_return [] else py_bind (assigned_gpus h) (\<lambda>assigned. gpu_rows h assigned pool))"

section \<open>Attaching and releasing GPUs\<close>

definition instance_info :: "'w host \<Rightarrow> string \<Rightarrow> ('w, dict option) py" where
  "instance_info h name =
     py_bind (incus_json h [''list'', name, ''--format'', ''json'']) (\<lambda>insts.
       py_return (List.find (\<lambda>i. map_of i ''name'' = Some (JStr name)) insts))"

definition is_vm :: "dict option \<Rightarrow> bool" where
  "is_vm inst = (case inst of Some i \<Rightarrow> map_of i ''type'' = Some (JStr ''virtual-machine'') | None \<Rightarrow> False)"

definition gpu_dev_names :: "dict \<Rightarrow> string list" where
  "gpu_dev_names devices = sort (remdups (map fst (filter (\<lambda>(n, d). is_gpu_dev d) devices)))"

definition release_gpus :: "'w host \<Rightarrow> string \<Rightarrow> ('w, nat) py" where
  "release_gpus h name =
     py_bind (instance_info h name) (\<lambda>inst.
       if \<not> is_vm inst then py_return 0
       else if map_of (the inst) ''status'' = Some (JStr ''Running'')
       then py_raise (RuntimeError (quoted name @ '' is running - stop it before releasing its GPUs''))
       else py_bind (py_lift (or_obj (map_of (the inst) ''devices''))) (\<lambda>devices.
         py_seq (py_for (gpu_dev_names devices) (\<lambda>dev. incus_do h [''config'', ''device'', ''remove'', name, dev]))
           (py_return (length (gpu_dev_names devices)))))"

text \<open>The first free device name from \<open>gpu<idx>\<close> on; \<open>length names\<close> steps always reach one.\<close>

fun free_index :: "string list \<Rightarrow> nat \<Rightarrow> nat \<Rightarrow> nat" where
  "free_index names idx 0 = idx"
| "free_index names idx (Suc n) = (if ''gpu'' @ nat_str idx \<in> set names then free_index names (Suc idx) n else idx)"

fun attach_gpus :: "'w host \<Rightarrow> string \<Rightarrow> string list \<Rightarrow> nat \<Rightarrow> string list \<Rightarrow> ('w, unit) py" where
  "attach_gpus h name names idx [] = py_return ()"
| "attach_gpus h name names idx (pci # rest) =
     (let i = free_index names idx (length names); dev = ''gpu'' @ nat_str i in
      py_seq (incus_do h [''config'', ''device'', ''add'', name, dev, ''gpu'', ''gputype=physical'', ''pci='' @ pci])
        (attach_gpus h name (dev # names) i rest))"

definition ensure_gpus_attached :: "'w etcd3 \<Rightarrow> 'w host \<Rightarrow> string \<Rightarrow> ('w, unit) py" where
  "ensure_gpus_attached e h name =
     py_bind (instance_info h name) (\<lambda>inst.
       if \<not> is_vm inst then py_return ()
       else py_bind (vm_get e name) (\<lambda>rec.
         let gpus = Option.bind rec (\<lambda>d. map_of d ''gpus'') in
         py_bind (if otruthy gpus then py_lift (num_of (the gpus)) else py_return 0) (\<lambda>want.
         py_bind (py_lift (or_obj (map_of (the inst) ''devices''))) (\<lambda>devices.
           let missing = want - int (length (filter (\<lambda>(n, d). is_gpu_dev d) devices)) in
           if missing \<le> 0 then py_return ()
           else py_bind
             (py_try (select_free_gpus h (nat missing))
               (\<lambda>x. case x of ValueError m \<Rightarrow> py_raise (RuntimeError
                     (quoted name @ '' needs '' @ int_str missing @ '' more GPU(s): '' @ m))
                   | _ \<Rightarrow> py_raise x)) (\<lambda>picked.
             attach_gpus h name (map fst devices) 0 picked)))))"

section \<open>What the program relies on\<close>

locale incus_env = etcd_seq e view for e :: "'w etcd3" and view :: "'w \<Rightarrow> store" +
  fixes h :: "'w host"
    and issued :: "'w \<Rightarrow> string list list"
    and insts :: "'w \<Rightarrow> dict list"
    and clock :: "'w \<Rightarrow> int"
  assumes run_effect: "h_run h args i s = (rc, s') \<Longrightarrow>
      view s' = view s \<and> issued s' = issued s @ [args]"
    and list_rows: "h_run h list_all_cmd None s = (Inr c, s') \<Longrightarrow> cmd_rc c = 0 \<Longrightarrow> cmd_out c = Rows (insts s)"
    and now_effect: "h_now h s = (rt, s') \<Longrightarrow> view s' = view s \<and> issued s' = issued s \<and> insts s' = insts s
      \<and> (\<forall>t. rt = Inr t \<longrightarrow> t = clock s)"
    and ns_effect: "h_ns h s = (rn, s') \<Longrightarrow> view s' = view s \<and> issued s' = issued s"
    and sleep_effect: "h_sleep h n s = (ru, s') \<Longrightarrow> view s' = view s \<and> issued s' = issued s"
    and config_effect: "h_config h s = (ro, s') \<Longrightarrow> view s' = view s \<and> issued s' = issued s"
    and mkdir_effect: "h_mkdir h p s = (rb, s') \<Longrightarrow> view s' = view s \<and> issued s' = issued s"
    and isdir_effect: "h_isdir h p s = (rb, s') \<Longrightarrow> view s' = view s \<and> issued s' = issued s"
    and listdir_effect: "h_listdir h p s = (rl, s') \<Longrightarrow> view s' = view s \<and> issued s' = issued s"
    and read_effect: "h_read h p s = (rf, s') \<Longrightarrow> view s' = view s \<and> issued s' = issued s"
    and write_effect: "h_write h p d s = (rb, s') \<Longrightarrow> view s' = view s \<and> issued s' = issued s"
    and client_issued: "e_client e s = (r0, s') \<Longrightarrow> issued s' = issued s"
    and get_issued: "e_get e k s = (r1, s') \<Longrightarrow> issued s' = issued s"
    and prefix_issued: "e_get_prefix e p s = (r2, s') \<Longrightarrow> issued s' = issued s"
    and put_issued: "e_put e k v s = (r3, s') \<Longrightarrow> issued s' = issued s"
    and delete_issued: "e_delete e k s = (r4, s') \<Longrightarrow> issued s' = issued s"
begin

lemma keepsI_run: "(\<And>s r s'. I s \<Longrightarrow> m s = (r, s') \<Longrightarrow> I s') \<Longrightarrow> keeps I m"
  by (auto simp: keeps_def wp_def split: prod.splits sum.splits)

text \<open>\<open>adds l P\<close>: the commands issued since \<open>l\<close> satisfy \<open>P\<close>. \<open>same_but K c\<close>: etcd differs from \<open>c\<close> at keys in
  \<open>K\<close> at most.\<close>

definition adds :: "string list list \<Rightarrow> (string list \<Rightarrow> bool) \<Rightarrow> 'w \<Rightarrow> bool" where
  "adds l P s = (\<exists>new. issued s = l @ new \<and> list_all P new)"

definition same_but :: "(string \<Rightarrow> bool) \<Rightarrow> store \<Rightarrow> 'w \<Rightarrow> bool" where
  "same_but K c s = (\<forall>k. \<not> K k \<longrightarrow> view s k = c k)"

lemma adds_refl: "issued s = l \<Longrightarrow> adds l P s"
  by (simp add: adds_def)

lemma adds_same: "adds l P s \<Longrightarrow> issued s' = issued s \<Longrightarrow> adds l P s'"
  by (simp add: adds_def)

lemma adds_run: "adds l P s \<Longrightarrow> P args \<Longrightarrow> issued s' = issued s @ [args] \<Longrightarrow> adds l P s'"
  by (auto simp: adds_def)

lemma keeps_adds_run: "P args \<Longrightarrow> keeps (adds l P) (h_run h args i)"
  by (rule keepsI_run) (blast dest: run_effect intro: adds_run)

lemma keeps_adds_quiet:
  "keeps (adds l P) (h_now h)" "keeps (adds l P) (h_ns h)" "keeps (adds l P) (h_sleep h n)" "keeps (adds l P) (h_config h)"
  "keeps (adds l P) (h_mkdir h p)" "keeps (adds l P) (h_isdir h p)" "keeps (adds l P) (h_listdir h p)"
  "keeps (adds l P) (h_read h p)" "keeps (adds l P) (h_write h p d)"
  "keeps (adds l P) (e_client e)" "keeps (adds l P) (e_get e k)" "keeps (adds l P) (e_get_prefix e p)"
  "keeps (adds l P) (e_put e k v)" "keeps (adds l P) (e_delete e k)"
  by (rule keepsI_run; meson now_effect ns_effect sleep_effect config_effect mkdir_effect isdir_effect listdir_effect
    read_effect write_effect client_issued get_issued prefix_issued put_issued delete_issued adds_same)+

lemma keeps_same_host:
  "keeps (same_but K c) (h_run h args i)" "keeps (same_but K c) (h_now h)" "keeps (same_but K c) (h_ns h)"
  "keeps (same_but K c) (h_sleep h n)" "keeps (same_but K c) (h_config h)" "keeps (same_but K c) (h_mkdir h p)"
  "keeps (same_but K c) (h_isdir h p)" "keeps (same_but K c) (h_listdir h p)" "keeps (same_but K c) (h_read h p)"
  "keeps (same_but K c) (h_write h p d)"
  "keeps (same_but K c) (e_client e)" "keeps (same_but K c) (e_get e k)" "keeps (same_but K c) (e_get_prefix e p)"
  unfolding same_but_def
  by (rule keepsI_run; metis run_effect now_effect ns_effect sleep_effect config_effect mkdir_effect isdir_effect
    listdir_effect read_effect write_effect client_view get_view prefix_view)+

lemma keeps_same_put: "K k \<Longrightarrow> keeps (same_but K c) (e_put e k v)"
  unfolding same_but_def by (rule keepsI, rule wp_put_seq) auto

lemma keeps_same_delete: "K k \<Longrightarrow> keeps (same_but K c) (e_delete e k)"
  unfolding same_but_def by (rule keepsI, rule wp_delete_seq) auto

end

section \<open>Calls that change no power state\<close>

text \<open>The commands that change an instance's power state, create or remove it.\<close>

definition power :: "string list \<Rightarrow> bool" where
  "power c = (case c of w # _ \<Rightarrow> w \<in> {''start'', ''stop'', ''restart'', ''delete'', ''init''} | [] \<Rightarrow> False)"

lemma power_simps [simp]:
  "power (w # ws) \<longleftrightarrow> w \<in> {''start'', ''stop'', ''restart'', ''delete'', ''init''}" "\<not> power []"
  by (simp_all add: power_def)

definition allows_others :: "(string list \<Rightarrow> bool) \<Rightarrow> bool" where
  "allows_others P = (\<forall>c. \<not> power c \<longrightarrow> P c)"

context incus_env
begin

text \<open>A property of the state that the host's calls, commands without effect on power, and reads of etcd
  keep; then so do the helpers, which are composed of these.\<close>

definition stable :: "('w \<Rightarrow> bool) \<Rightarrow> bool" where
  "stable I = ((\<forall>args i. \<not> power args \<longrightarrow> keeps I (h_run h args i)) \<and> keeps I (h_now h) \<and> keeps I (h_ns h)
     \<and> (\<forall>n. keeps I (h_sleep h n)) \<and> keeps I (h_config h) \<and> (\<forall>p. keeps I (h_mkdir h p)) \<and> (\<forall>p. keeps I (h_isdir h p))
     \<and> (\<forall>p. keeps I (h_listdir h p)) \<and> (\<forall>p. keeps I (h_read h p)) \<and> (\<forall>p d. keeps I (h_write h p d))
     \<and> keeps I (e_client e) \<and> (\<forall>k. keeps I (e_get e k)) \<and> (\<forall>p. keeps I (e_get_prefix e p)))"

lemma stable_adds: "allows_others P \<Longrightarrow> stable (adds l P)"
  by (simp add: stable_def allows_others_def keeps_adds_run keeps_adds_quiet)

lemma stable_same: "stable (same_but K c)"
  by (simp add: stable_def keeps_same_host)

lemma stable_base:
  assumes "stable I"
  shows "\<not> power args \<Longrightarrow> keeps I (h_run h args i)" "keeps I (h_now h)" "keeps I (h_ns h)" "keeps I (h_sleep h n)"
    "keeps I (h_config h)" "keeps I (h_mkdir h p)" "keeps I (h_isdir h p)" "keeps I (h_listdir h p)" "keeps I (h_read h p)"
    "keeps I (h_write h p d)" "keeps I (e_client e)" "keeps I (e_get e k)" "keeps I (e_get_prefix e p)"
  using assms by (simp_all add: stable_def)

lemma stable_incus:
  assumes "stable I" and "\<not> power args"
  shows "keeps I (incus h args check i)" "keeps I (incus_do h args)" "keeps I (incus_json h args)"
  using assms
  by (auto simp: incus_def incus_do_def incus_json_def intro!: keeps_intros stable_base split: cmd_output.splits)

lemma stable_kv: "stable I \<Longrightarrow> keeps I (get_json e k)" "stable I \<Longrightarrow> keeps I (all_json e p)"
  by (auto simp: get_json_def all_json_def intro!: keeps_intros stable_base split: option.splits)

lemmas stable_intros = keeps_intros stable_base stable_incus stable_kv

lemma stable_nas: "stable I \<Longrightarrow> keeps I (ensure_nas_share h name)"
  by (auto simp: ensure_nas_share_def host_config_value_def Let_def intro!: stable_intros)

lemma stable_info: "stable I \<Longrightarrow> keeps I (instance_info h name)"
  by (auto simp: instance_info_def intro!: stable_intros)

lemma stable_scan: "stable I \<Longrightarrow> keeps I (gpu_scan h es)"
  by (induction es) (auto simp: Let_def intro!: stable_intros split: option.splits)

lemma stable_healthy: "stable I \<Longrightarrow> keeps I (gpu_healthy h g)"
  by (auto simp: gpu_healthy_def Let_def intro!: stable_intros)

lemma keeps_split_healthy: "(\<And>g. keeps I (f g)) \<Longrightarrow> keeps I (split_healthy f gs)"
  by (induction gs) (auto intro!: keeps_intros split: prod.splits)

lemma stable_select: "stable I \<Longrightarrow> keeps I (select_free_gpus h n)"
  by (auto simp: select_free_gpus_def select_healthy_gpus_def free_gpus_def assigned_gpus_def gpu_pool_def list_all_cmd_def Let_def
      intro!: stable_intros keeps_split_healthy stable_healthy stable_scan split: prod.splits)

lemma stable_attach: "stable I \<Longrightarrow> keeps I (attach_gpus h name names idx gs)"
  by (induction gs arbitrary: names idx) (auto simp: Let_def intro!: stable_intros)

lemma stable_ensure_gpus: "stable I \<Longrightarrow> keeps I (ensure_gpus_attached e h name)"
  by (auto simp: ensure_gpus_attached_def vm_get_def Let_def
      intro!: stable_intros stable_info stable_select stable_attach split: exn.splits)

lemma stable_release: "stable I \<Longrightarrow> keeps I (release_gpus h name)"
  by (auto simp: release_gpus_def intro!: stable_intros stable_info)

lemma keeps_adds_do: "P args \<Longrightarrow> keeps (adds l P) (incus_do h args)"
  by (auto simp: incus_do_def incus_def intro!: keeps_intros keeps_adds_run)

lemma keeps_same_do: "keeps (same_but K c) (incus_do h args)"
  by (auto simp: incus_do_def incus_def intro!: keeps_intros keeps_same_host)

lemma keeps_adds_kv: "keeps (adds l P) (put_json e k d)" "keeps (adds l P) (delete_key e k)"
  by (auto simp: put_json_def delete_key_def intro!: keeps_intros keeps_adds_quiet)

lemma keeps_same_kv:
  "K k \<Longrightarrow> keeps (same_but K c) (put_json e k d)" "K k \<Longrightarrow> keeps (same_but K c) (delete_key e k)"
  by (auto simp: put_json_def delete_key_def intro!: keeps_intros keeps_same_host keeps_same_put keeps_same_delete)

text \<open>The trace of commands only grows.\<close>

lemma issued_mono:
  assumes "keeps (adds (issued s) (\<lambda>_. True)) m" and "m s = (r, s')"
  shows "set (issued s) \<subseteq> set (issued s')"
  using keeps_run [OF assms(1) adds_refl [OF refl] assms(2)] by (auto simp: adds_def)

end

section \<open>A simulated host\<close>

text \<open>An in-memory etcd, instances with a status and GPU devices, a file tree and a clock. Commands on
  instances change the instances; other commands succeed and print nothing.\<close>

record sim =
  sim_kv :: mem
  sim_log :: "string list list"
  sim_insts :: "dict list"
  sim_clock :: int
  sim_files :: "(string \<times> string) list"

definition on_sim_kv :: "(mem, 'a) py \<Rightarrow> (sim, 'a) py" where
  "on_sim_kv m = py_zoom sim_kv (\<lambda>k w. w\<lparr>sim_kv := k\<rparr>) m"

definition sim_etcd :: "sim etcd3" where
  "sim_etcd = \<lparr>e_client = on_sim_kv (py_return ()), e_get = (\<lambda>k. on_sim_kv (mem_get k)),
     e_get_prefix = (\<lambda>p. on_sim_kv (mem_get_prefix p)), e_put = (\<lambda>k v. on_sim_kv (mem_put k v)),
     e_delete = (\<lambda>k. on_sim_kv (mem_delete k)), e_txn = (\<lambda>cs ops. on_sim_kv (mem_txn cs ops))\<rparr>"

definition sim_view :: "sim \<Rightarrow> store" where
  "sim_view w = mem_view (sim_kv w)"

definition named :: "string \<Rightarrow> dict \<Rightarrow> bool" where
  "named n i = (map_of i ''name'' = Some (JStr n))"

definition on_inst :: "string \<Rightarrow> (dict \<Rightarrow> dict) \<Rightarrow> sim \<Rightarrow> sim" where
  "on_inst n f w = w\<lparr>sim_insts := map (\<lambda>i. if named n i then f i else i) (sim_insts w)\<rparr>"

definition devices_of :: "dict \<Rightarrow> dict" where
  "devices_of i = (case map_of i ''devices'' of Some (JObj d) \<Rightarrow> d | _ \<Rightarrow> [])"

definition said :: "cmd_output \<Rightarrow> cmd" where
  "said out = \<lparr>cmd_rc = 0, cmd_out = out, cmd_err = []\<rparr>"

text \<open>The answer to a command, and its effect on the instances.\<close>

definition sim_answer :: "string list \<Rightarrow> sim \<Rightarrow> cmd" where
  "sim_answer args w =
     (if args = list_all_cmd then said (Rows (sim_insts w))
      else if length args = 4 \<and> args ! 0 = ''list'' \<and> args ! 3 = ''json'' then said (Rows (filter (named (args ! 1)) (sim_insts w)))
      else if length args = 2 \<and> \<not> list_ex (named (args ! 1)) (sim_insts w)
      then \<lparr>cmd_rc = 1, cmd_out = Lines [], cmd_err = ''not found''\<rparr>
      else if args ! 0 = ''network'' \<and> args ! 1 = ''list'' then said (Rows [])
      else said (Lines []))"

definition sim_effect :: "string list \<Rightarrow> sim \<Rightarrow> sim" where
  "sim_effect args w =
     (if length args = 2 \<and> args ! 0 = ''start'' then on_inst (args ! 1) (AList.update ''status'' (JStr ''Running'')) w
      else if length args = 2 \<and> args ! 0 = ''stop'' then on_inst (args ! 1) (AList.update ''status'' (JStr ''Stopped'')) w
      else if 3 < length args \<and> args ! 0 = ''init'' then
        w\<lparr>sim_insts := sim_insts w @ [[(''name'', JStr (args ! 2)), (''status'', JStr ''Stopped'')]]\<rparr>
      else if length args = 5 \<and> args ! 2 = ''remove'' then
        on_inst (args ! 3) (\<lambda>i. AList.update ''devices'' (JObj (AList.delete (args ! 4) (devices_of i))) i) w
      else if length args = 8 \<and> args ! 2 = ''add'' \<and> args ! 5 = ''gpu'' then
        on_inst (args ! 3) (\<lambda>i. AList.update ''devices''
          (JObj (AList.update (args ! 4) (JObj [(''type'', JStr ''gpu''), (''pci'', JStr (drop 4 (args ! 7)))]) (devices_of i))) i) w
      else w)"

definition sim_run :: "string list \<Rightarrow> string option \<Rightarrow> (sim, cmd) py" where
  "sim_run args stdin w = (Inr (sim_answer args w), (sim_effect args w)\<lparr>sim_log := sim_log w @ [args]\<rparr>)"

definition sim_host :: "sim host" where
  "sim_host = \<lparr>h_name = ''nv1'', h_run = sim_run, h_now = py_get sim_clock, h_ns = py_return 0,
     h_sleep = (\<lambda>n. py_modify (\<lambda>w. w\<lparr>sim_clock := sim_clock w + int n * 1000000\<rparr>)),
     h_config = py_return (Some [''vm_nas_share: false'']), h_mkdir = (\<lambda>_. py_return True),
     h_isdir = (\<lambda>p. py_get (\<lambda>w. list_ex (\<lambda>(f, _). startswith f (p @ ''/'')) (sim_files w))),
     h_listdir = (\<lambda>p. py_get (\<lambda>w. List.map_filter (\<lambda>(f, _). if startswith f (p @ ''/'')
        then Some (drop (length p + 1) f) else None) (sim_files w))),
     h_read = (\<lambda>p. py_get (\<lambda>w. map_of (sim_files w) p)), h_write = (\<lambda>_ _. py_return True)\<rparr>"

lemma on_inst_kv [simp]: "sim_kv (on_inst n f w) = sim_kv w" "sim_clock (on_inst n f w) = sim_clock w"
  by (simp_all add: on_inst_def)

lemma sim_effect_kv [simp]: "sim_kv (sim_effect args w) = sim_kv w" "sim_clock (sim_effect args w) = sim_clock w"
  by (simp_all add: sim_effect_def)

lemma on_sim_kv_log: "on_sim_kv m s = (r, s') \<Longrightarrow> sim_log s' = sim_log s"
  by (auto simp: on_sim_kv_def py_zoom_def split: prod.splits)

lemma on_sim_kv_run: "on_sim_kv m s = (r, s') \<longleftrightarrow> (\<exists>k. m (sim_kv s) = (r, k) \<and> s' = s\<lparr>sim_kv := k\<rparr>)"
  by (auto simp: on_sim_kv_def py_zoom_def split: prod.splits)

lemma fst_on_sim_kv: "fst (on_sim_kv m s) = fst (m (sim_kv s))"
  by (auto simp: on_sim_kv_def py_zoom_def split: prod.splits)

interpretation sim: incus_env sim_etcd sim_view sim_host sim_log sim_insts sim_clock
proof unfold_locales
  show "\<And>p s r s'. e_get_prefix sim_etcd p s = (r, s') \<Longrightarrow>
      sim_view s = sim_view s' \<and> (\<forall>xs. r = Inr xs \<longrightarrow> prefix_list (sim_view s') p xs)"
    by (auto simp: sim_etcd_def on_sim_kv_run sim_view_def mem_get_prefix_def mem_view_def mem_prefix_list)
  show "\<And>cs ops s r s'. e_txn sim_etcd cs ops s = (r, s') \<Longrightarrow>
      \<exists>c n. sim_view s = c \<and>
        (list_all (cmp_holds c) cs \<and> sim_view s' = apply_ops n ops c \<and> (r = Inr True \<or> isl r)
         \<or> sim_view s' = c \<and> (r = Inr False \<and> \<not> list_all (cmp_holds c) cs \<or> isl r))"
    by (auto simp: sim_etcd_def on_sim_kv_run sim_view_def mem_txn_def mem_view_def mem_fold_view split: if_splits)
  show "h_run sim_host args i s = (rc, s') \<Longrightarrow>
      sim_view s' = sim_view s \<and> sim_log s' = sim_log s @ [args]" for args i s rc s'
    by (auto simp: sim_host_def sim_run_def sim_view_def)
  show "h_run sim_host list_all_cmd None s = (Inr c, s') \<Longrightarrow> cmd_rc c = 0 \<Longrightarrow> cmd_out c = Rows (sim_insts s)" for s c s'
    by (auto simp: sim_host_def sim_run_def sim_answer_def said_def)
qed (auto simp: sim_host_def sim_etcd_def sim_view_def mem_view_def on_sim_kv_run fst_on_sim_kv mem_get_def mem_put_def
    mem_delete_def mem_txn_def mem_get_prefix_def py_return_def py_get_def py_modify_def)


section \<open>Waiting for the agent ends\<close>

text \<open>The wall clock of the host is not set back: no command and no reading of the clock turns it back, and a
  sleep of \<open>n\<close> seconds lets at least \<open>n\<close> seconds pass. \<open>time.time()\<close> does not promise this, so it is a
  hypothesis of the bound alone and no law of \<open>incus_env\<close>.\<close>

definition steady_clock :: "'w host \<Rightarrow> ('w \<Rightarrow> int) \<Rightarrow> bool" where
  "steady_clock h clock =
     ((\<forall>args i s. clock s \<le> clock (snd (h_run h args i s)))
      \<and> (\<forall>s. clock s \<le> clock (snd (h_now h s)) \<and> (\<forall>t. fst (h_now h s) = Inr t \<longrightarrow> t = clock s))
      \<and> (\<forall>n s. clock s + int n * 1000000 \<le> clock (snd (h_sleep h n s))))"

lemma wp_steady:
  assumes "steady_clock h clock"
  shows "(\<And>s'. clock s \<le> clock s' \<Longrightarrow> Q (clock s) s') \<Longrightarrow> wp (h_now h) Q (\<lambda>_ _. True) s"
    and "(\<And>c s'. clock s \<le> clock s' \<Longrightarrow> R c s') \<Longrightarrow> wp (h_run h args i) R (\<lambda>_ _. True) s"
    and "(\<And>s'. clock s + int n * 1000000 \<le> clock s' \<Longrightarrow> P () s') \<Longrightarrow> wp (h_sleep h n) P (\<lambda>_ _. True) s"
proof -
  from assms have laws: "\<And>args i s r s'. h_run h args i s = (r, s') \<Longrightarrow> clock s \<le> clock s'"
    "\<And>s r s'. h_now h s = (r, s') \<Longrightarrow> clock s \<le> clock s' \<and> (\<forall>t. r = Inr t \<longrightarrow> t = clock s)"
    "\<And>n s r s'. h_sleep h n s = (r, s') \<Longrightarrow> clock s + int n * 1000000 \<le> clock s'"
    unfolding steady_clock_def by (metis fst_conv snd_conv)+
  show "(\<And>s'. clock s \<le> clock s' \<Longrightarrow> Q (clock s) s') \<Longrightarrow> wp (h_now h) Q (\<lambda>_ _. True) s"
    by (cases "h_now h s") (auto simp: wp_def dest: laws(2) split: sum.splits)
  show "(\<And>c s'. clock s \<le> clock s' \<Longrightarrow> R c s') \<Longrightarrow> wp (h_run h args i) R (\<lambda>_ _. True) s"
    by (cases "h_run h args i s") (auto simp: wp_def dest: laws(1) split: sum.splits)
  show "(\<And>s'. clock s + int n * 1000000 \<le> clock s' \<Longrightarrow> P () s') \<Longrightarrow> wp (h_sleep h n) P (\<lambda>_ _. True) s"
    by (cases "h_sleep h n s") (auto simp: wp_def dest: laws(3) split: sum.splits)
qed

lemma wait_probe_bound:
  assumes "steady_clock h clock"
  shows "deadline \<le> clock s + int n * 3000000 \<Longrightarrow> wp (wait_probe (Suc n) h name deadline) (\<lambda>r _. r \<noteq> None) (\<lambda>_ _. True) s"
proof (induction n arbitrary: s)
  case 0
  then show ?case
    by (simp only: wait_probe.simps wp_bind, intro wp_steady(1) [OF assms]) (simp add: wp_simps del: not_None_eq)
next
  case (Suc n)
  have next_probe: "wp (wait_probe (Suc n) h name deadline) (\<lambda>r _. r \<noteq> None) (\<lambda>_ _. True) s2"
    if "clock s \<le> clock s1" "clock s1 + 3000000 \<le> clock s2" for s1 s2
    using that Suc.prems by (intro Suc.IH) simp
  show ?case
    unfolding wait_probe.simps(2) [of "Suc n"] wp_bind
    by (rule wp_steady(1) [OF assms])
      (auto simp: wp_simps incus_def intro!: wp_steady(2,3) [OF assms] next_probe simp del: wait_probe.simps not_None_eq)
qed

lemma wait_probe_stops:
  assumes "steady_clock h clock" and "deadline \<le> clock s + int timeout * 1000000"
  shows "fst (wait_probe (timeout div 3 + 2) h name deadline s) \<noteq> Inr None"
proof -
  have "timeout \<le> 3 * (timeout div 3 + 1)" by presburger
  then have "int timeout * 1000000 \<le> int (timeout div 3 + 1) * 3000000" by linarith
  with assms(2) have "deadline \<le> clock s + int (timeout div 3 + 1) * 3000000" by linarith
  from wait_probe_bound [OF assms(1) this, of name] show ?thesis
    by (auto simp: wp_def split: prod.splits sum.splits)
qed

lemma wait_probe_more_fuel:
  "fst (wait_probe n h name deadline s) \<noteq> Inr None \<Longrightarrow> wait_probe (n + k) h name deadline s = wait_probe n h name deadline s"
proof (induction n arbitrary: s)
  case 0
  then show ?case by (simp add: py_return_def)
next
  case (Suc n)
  then show ?case
    by (auto simp: py_bind_def py_seq_def split: prod.splits sum.splits)
qed

text \<open>C31: waiting for the guest's agent ends, as long as the wall clock of the host is not set back: from any
  state, \<open>timeout div 3 + 2\<close> rounds are enough, since each round that goes on sleeps three seconds: the loop has
  then found the agent, passed its deadline or failed, and more rounds would change nothing.\<close>

theorem wait_agent_terminates:
  assumes "steady_clock h clock" and "deadline \<le> clock s + int timeout * 1000000"
  shows "fst (wait_probe (timeout div 3 + 2) h name deadline s) \<noteq> Inr None
    \<and> wait_probe (timeout div 3 + 2 + k) h name deadline s = wait_probe (timeout div 3 + 2) h name deadline s"
proof -
  have stops: "fst (wait_probe (timeout div 3 + 2) h name deadline s) \<noteq> Inr None"
    by (rule wait_probe_stops [OF assms])
  with wait_probe_more_fuel [OF stops] show ?thesis by simp
qed

definition empty_sim :: sim where
  "empty_sim = \<lparr>sim_kv = empty_mem, sim_log = [], sim_insts = [], sim_clock = 0, sim_files = []\<rparr>"

text \<open>A guest whose agent answers four seconds after the start: two probes fail before the third one succeeds. And
  one whose agent never answers: the deadline passes.\<close>

definition slow_host :: "int \<Rightarrow> sim host" where
  "slow_host ready = sim_host\<lparr>h_run := (\<lambda>args i w. (Inr \<lparr>cmd_rc = (if sim_clock w < ready then 1 else 0), cmd_out = Lines [], cmd_err = []\<rparr>,
     w\<lparr>sim_log := sim_log w @ [args]\<rparr>))\<rparr>"

lemma slow_host_steady: "steady_clock (slow_host ready) sim_clock"
  by (simp add: steady_clock_def slow_host_def sim_host_def py_get_def py_modify_def)

theorem wait_agent_terminates_witness:
  "wait_probe (7 div 3 + 2 + 5) (slow_host 4000000) ''a'' 7000000 empty_sim = wait_probe (7 div 3 + 2) (slow_host 4000000) ''a'' 7000000 empty_sim
   \<and> fst (wait_probe (7 div 3 + 2) (slow_host 4000000) ''a'' 7000000 empty_sim) = Inr (Some True)
   \<and> length (sim_log (snd (wait_probe (7 div 3 + 2) (slow_host 4000000) ''a'' 7000000 empty_sim))) = 3
   \<and> fst (wait_probe (7 div 3 + 2) (slow_host 9000000) ''a'' 7000000 empty_sim) = Inr (Some False)"
proof -
  have "7000000 \<le> sim_clock empty_sim + int 7 * 1000000" by (simp add: empty_sim_def)
  from wait_agent_terminates [OF slow_host_steady, OF this, of 4000000 "''a''" 5]
  have a: "wait_probe (7 div 3 + 2 + 5) (slow_host 4000000) ''a'' 7000000 empty_sim = wait_probe (7 div 3 + 2) (slow_host 4000000) ''a'' 7000000 empty_sim"
    by blast
  show ?thesis by (intro conjI a) code_simp+
qed

section \<open>The DNS records of a bridge\<close>

lemma words_by_append:
  "list_all (\<lambda>c. \<not> P c) w \<Longrightarrow> P c \<Longrightarrow> rev acc @ w \<noteq> [] \<Longrightarrow>
   words_by P (w @ c # cs) acc = (rev acc @ w) # words_by P cs []"
  by (induction w arbitrary: acc) auto

lemma words_by_end: "list_all (\<lambda>c. \<not> P c) w \<Longrightarrow> rev acc @ w \<noteq> [] \<Longrightarrow> words_by P w acc = [rev acc @ w]"
  by (induction w arbitrary: acc) auto

definition dns_line :: "string \<Rightarrow> bool" where
  "dns_line l = (l \<noteq> [] \<and> list_all (\<lambda>c. \<not> is_break c) l)"

lemma words_by_lines: "list_all (\<lambda>c. \<not> P c) (rev acc) \<Longrightarrow> l \<in> set (words_by P s acc) \<Longrightarrow> l \<noteq> [] \<and> list_all (\<lambda>c. \<not> P c) l"
  by (induction P s acc rule: words_by.induct) (auto split: if_splits)

lemma text_lines_ok: "list_all dns_line (text_lines s)"
  using words_by_lines [of is_break "[]"] by (auto simp: text_lines_def dns_line_def list_all_iff)

lemma text_lines_join: "list_all dns_line ls \<Longrightarrow> text_lines (join nl ls) = ls"
proof (induction ls)
  case (Cons l ls)
  then have l: "list_all (\<lambda>c. \<not> is_break c) l" "l \<noteq> []" and IH: "text_lines (join nl ls) = ls"
    by (simp_all add: dns_line_def)
  show ?case
  proof (cases ls)
    case Nil
    with l show ?thesis by (simp add: text_lines_def words_by_end)
  next
    case (Cons l' ls')
    have "is_break (CHR 0x0A)" by (simp add: is_break_def)
    with l Cons IH show ?thesis
      using words_by_append [of is_break l "CHR 0x0A" "[]" "join nl ls"] by (simp add: text_lines_def)
  qed
qed (simp add: text_lines_def)

lemma host_record_starts: "startswith (host_record domain x) ''host-record=''"
  by (simp add: host_record_def startswith_def)

lemma desired_lines_again: "desired_lines domain pins (desired_lines domain pins current) = desired_lines domain pins current"
  using host_record_starts [of domain] by (simp add: desired_lines_def o_def filter_empty_conv)

text \<open>What the DNS sync writes for a bridge is read back as the lines it wanted, and a second sync with
  the same pins then writes nothing; lines other than host records stay, in order, and the host records are
  one per pin. Names, domain and addresses have no line breaks.\<close>

theorem dns_sync_settles:
  fixes raw :: string
  assumes "list_all (\<lambda>c. \<not> is_break c) domain"
    and "\<And>n ip. (n, ip) \<in> set pins \<Longrightarrow> list_all (\<lambda>c. \<not> is_break c) n \<and> list_all (\<lambda>c. \<not> is_break c) ip"
  defines "desired \<equiv> desired_lines domain pins (text_lines raw)"
  shows "text_lines (join nl desired) = desired \<and> desired_lines domain pins desired = desired
    \<and> filter (\<lambda>l. \<not> startswith l ''host-record='') desired = filter (\<lambda>l. \<not> startswith l ''host-record='') (text_lines raw)
    \<and> filter (\<lambda>l. startswith l ''host-record='') desired = sort (map (host_record domain) pins)"
proof -
  have "dns_line (host_record domain x)" if "x \<in> set pins" for x
    using assms(1) assms(2) [of "fst x" "snd x"] that by (auto simp: host_record_def dns_line_def is_break_def)
  then have "list_all dns_line desired"
    using text_lines_ok [of raw] by (auto simp: desired_def desired_lines_def list_all_iff)
  moreover have "filter (\<lambda>l. \<not> startswith l ''host-record='') (sort (map (host_record domain) pins)) = []"
    "filter (\<lambda>l. startswith l ''host-record='') (sort (map (host_record domain) pins)) = sort (map (host_record domain) pins)"
    using host_record_starts [of domain] by (auto simp: filter_empty_conv filter_id_conv)
  ultimately show ?thesis
    by (simp add: text_lines_join desired_def desired_lines_again) (simp add: desired_lines_def)
qed

theorem dns_sync_settles_witness:
  "text_lines (join nl (desired_lines ''lan'' [(''a'', ''10.100.0.10'')] (text_lines (''server=1'' @ nl @ ''host-record=old'' @ nl))))
     = [''server=1'', ''host-record=a,a.lan,10.100.0.10'']"
proof -
  have "text_lines (''server=1'' @ nl @ ''host-record=old'' @ nl) = [''server=1'', ''host-record=old'']" by code_simp
  moreover have "list_all (\<lambda>c. \<not> is_break c) ''lan'' \<and> list_all (\<lambda>c. \<not> is_break c) ''a'' \<and> list_all (\<lambda>c. \<not> is_break c) ''10.100.0.10''"
    by code_simp
  ultimately show ?thesis
    using dns_sync_settles [of "''lan''" "[(''a'', ''10.100.0.10'')]" "''server=1'' @ nl @ ''host-record=old'' @ nl"]
    by (simp add: desired_lines_def startswith_def host_record_def)
qed

end
