(* ===== verification/YBastion.thy ===== *)
theory YBastion
  imports YIncus
begin

text \<open>
  The users' SSH keys, the ownership of VMs and the access they give (\<open>utils/vm_manager.py\<close>): the key
  registry, the provisioning of a guest with its owner's keys, and the access list of the jump host,
  in which every key is restricted to the VMs its owners own.
\<close>

section \<open>The key registry\<close>

definition USERS_PREFIX :: string where
  "USERS_PREFIX = ''/cluster/users/''"

definition is_upper :: "char \<Rightarrow> bool" where
  "is_upper c = (let n = of_char c :: nat in 65 \<le> n \<and> n \<le> 90)"

text \<open>\<open>_VM_NAME_RE\<close> and \<open>_USER_RE\<close>; \<open>$\<close> also matches before a final newline.\<close>

definition name_char :: "char \<Rightarrow> bool" where
  "name_char c = (is_lower c \<or> is_digit c)"

definition valid_vm_name :: "string \<Rightarrow> bool" where
  "valid_vm_name s =
     (case chomp s of
        [] \<Rightarrow> False
      | c # cs \<Rightarrow> name_char c \<and> length cs \<le> 62 \<and> list_all (\<lambda>x. name_char x \<or> x = CHR ''-'') cs)"

definition user_char :: "char \<Rightarrow> bool" where
  "user_char c = (is_upper c \<or> is_lower c \<or> is_digit c \<or> c \<in> set ''._%+@-'')"

definition valid_user :: "string \<Rightarrow> bool" where
  "valid_user s = (chomp s \<noteq> [] \<and> length (chomp s) \<le> 128 \<and> list_all user_char (chomp s))"

definition user_get :: "'w etcd3 \<Rightarrow> string \<Rightarrow> ('w, dict option) py" where
  "user_get e user = get_json e (USERS_PREFIX @ user)"

definition users_all :: "'w etcd3 \<Rightarrow> ('w, table) py" where
  "users_all e = all_json e USERS_PREFIX"

definition looks_like_key :: "string \<Rightarrow> bool" where
  "looks_like_key k = (startswith k ''ssh-'' \<or> startswith k ''ecdsa-'' \<or> startswith k ''sk-'')"

definition user_add_key :: "'w etcd3 \<Rightarrow> string \<Rightarrow> string \<Rightarrow> ('w, unit) py" where
  "user_add_key e user key0 =
     (if \<not> valid_user user then py_raise (ValueError ''Invalid user'')
      else (let key = strip key0 in
        if \<not> looks_like_key key then py_raise (ValueError ''That does not look like an SSH public key.'')
        else py_bind (user_get e user) (\<lambda>r.
          let rec = (if no_record r then [(''ssh_keys'', JList [])] else the r) in
          case map_of rec ''ssh_keys'' of
            Some (JList ks) \<Rightarrow>
              if JStr key \<in> set ks then py_return ()
              else put_json e (USERS_PREFIX @ user) (dict_set ''ssh_keys'' (JList (ks @ [JStr key])) rec)
          | Some _ \<Rightarrow> py_raise TypeError
          | None \<Rightarrow> py_raise (KeyError ''ssh_keys''))))"

fun contains :: "string \<Rightarrow> string \<Rightarrow> bool" where
  "contains [] p = (p = [])"
| "contains (c # cs) p = (startswith (c # cs) p \<or> contains cs p)"

text \<open>\<open>rec.get("ssh_keys", [])\<close> as a list of strings.\<close>

fun all_strs :: "json list \<Rightarrow> exn + string list" where
  "all_strs [] = Inr []"
| "all_strs (JStr s # xs) = map_sum id ((#) s) (all_strs xs)"
| "all_strs (_ # xs) = Inl AttributeError"

definition keys_of :: "dict \<Rightarrow> exn + string list" where
  "keys_of rec =
     (case map_of rec ''ssh_keys'' of None \<Rightarrow> Inr [] | Some (JList ks) \<Rightarrow> all_strs ks | Some _ \<Rightarrow> Inl TypeError)"

definition user_remove_key :: "'w etcd3 \<Rightarrow> string \<Rightarrow> string \<Rightarrow> ('w, unit) py" where
  "user_remove_key e user pat =
     py_bind (user_get e user) (\<lambda>r.
       if no_record r then py_raise (ValueError ''No such user'')
       else py_bind (py_lift (keys_of (the r))) (\<lambda>ks.
         let kept = filter (\<lambda>k. \<not> contains k pat) ks in
         if kept \<noteq> [] then put_json e (USERS_PREFIX @ user) (dict_set ''ssh_keys'' (JList (map JStr kept)) (the r))
         else delete_key e (USERS_PREFIX @ user)))"

section \<open>Ownership and the jump host's access list\<close>

definition owner_key :: "dict \<Rightarrow> json" where
  "owner_key rec = get_or_null rec ''owner''"

definition vms_owned :: "(json \<times> string list) list \<Rightarrow> json \<Rightarrow> string list" where
  "vms_owned ov owner = (case map_of ov owner of Some ns \<Rightarrow> ns | None \<Rightarrow> [])"

definition add_owner :: "string \<times> dict \<Rightarrow> (json \<times> string list) list \<Rightarrow> exn + (json \<times> string list) list" where
  "add_owner x ov =
     (let o' = owner_key (snd x) in
      if hashable o' then Inr (AList.update o' (vms_owned ov o' @ [fst x]) ov) else Inl TypeError)"

definition group_owners :: "table \<Rightarrow> exn + (json \<times> string list) list" where
  "group_owners registry = sfold add_owner registry []"

definition owner_vms :: "'w etcd3 \<Rightarrow> ('w, (json \<times> string list) list) py" where
  "owner_vms e = py_bind (vms_all e) (\<lambda>registry. py_lift (group_owners registry))"

type_synonym access = "(string \<times> string \<times> string list) list"

text \<open>\<open>key.split(None, 2)\<close>: type and material; without both the entry is skipped.\<close>

definition key_material :: "string \<Rightarrow> string option" where
  "key_material key = (case split_ws key of a # b # _ \<Rightarrow> Some (a @ '' '' @ b) | _ \<Rightarrow> None)"

definition add_key :: "string list \<Rightarrow> string \<Rightarrow> access \<Rightarrow> access" where
  "add_key vmnames key by_key =
     (case key_material key of
        None \<Rightarrow> by_key
      | Some m \<Rightarrow>
          (case map_of by_key m of
             None \<Rightarrow> AList.update m (key, vmnames) by_key
           | Some (k, vms) \<Rightarrow> AList.update m (k, vms @ vmnames) by_key))"

definition add_user :: "(json \<times> string list) list \<Rightarrow> string \<times> dict \<Rightarrow> access \<Rightarrow> exn + access" where
  "add_user ov x by_key =
     (let vmnames = vms_owned ov (JStr (fst x)) in
      if vmnames = [] then Inr by_key
      else map_sum id (\<lambda>ks. fold (add_key vmnames) ks by_key) (keys_of (snd x)))"

definition bastion_access :: "table \<Rightarrow> (json \<times> string list) list \<Rightarrow> exn + access" where
  "bastion_access users ov = sfold (add_user ov) (sort_key fst users) []"

definition permit :: "string \<Rightarrow> string" where
  "permit v = ''permitopen='' @ [CHR 0x22] @ v @ '':22'' @ [CHR 0x22]"

definition access_line :: "string \<times> string list \<Rightarrow> string" where
  "access_line x =
     ''restrict,port-forwarding,'' @ join '','' (map permit (sort (remdups (snd x)))) @ '' '' @ fst x"

definition access_header :: string where
  "access_header = ''# Generated by 'ycluster vm bastion-sync' '' @ [CHR 0xE2, CHR 0x80, CHR 0x94] @ '' do not edit.''"

definition access_lines :: "access \<Rightarrow> string list" where
  "access_lines by_key = map (\<lambda>m. access_line (the (map_of by_key m))) (sort (remdups (map fst by_key)))"

definition bastion_authorized_keys :: "'w etcd3 \<Rightarrow> ('w, string) py" where
  "bastion_authorized_keys e =
     py_bind (users_all e) (\<lambda>users.
     py_bind (owner_vms e) (\<lambda>ov.
     py_bind (py_lift (bastion_access users ov)) (\<lambda>by_key.
       py_return (join nl (access_header # access_lines by_key) @ nl))))"

definition BASTION_CONTAINER :: string where
  "BASTION_CONTAINER = ''bastion''"

definition BASTION_JUMP_USER :: string where
  "BASTION_JUMP_USER = ''jump''"

definition bastion_sync :: "'w etcd3 \<Rightarrow> 'w host \<Rightarrow> ('w, unit) py" where
  "bastion_sync e h =
     py_bind (instance_exists h BASTION_CONTAINER) (\<lambda>ex.
       if \<not> ex then py_return ()
       else py_bind (bastion_authorized_keys e) (\<lambda>content.
         let keys_path = ''/home/'' @ BASTION_JUMP_USER @ ''/.ssh/authorized_keys'' in
         py_bind (read_file h BASTION_CONTAINER keys_path) (\<lambda>existing.
           if existing = Some content then py_return ()
           else push_file h BASTION_CONTAINER keys_path content BASTION_JUMP_USER)))"

section \<open>Provisioning a guest\<close>

definition VM_GUEST_USER :: string where
  "VM_GUEST_USER = ''ubuntu''"

definition guest_login_user :: "'w host \<Rightarrow> string \<Rightarrow> ('w, string) py" where
  "guest_login_user h vm_name =
     py_bind (incus h [''exec'', vm_name, ''--'', ''getent'', ''passwd'', ''1000''] False None) (\<lambda>r.
       let out = out_text (cmd_out r) in
       py_return (if cmd_rc r = 0 \<and> strip out \<noteq> [] then fst (partition_on (CHR '':'') out) else VM_GUEST_USER))"

definition wait_cloud_init :: "'w host \<Rightarrow> string \<Rightarrow> ('w, unit) py" where
  "wait_cloud_init h vm_name =
     py_seq (incus h [''exec'', vm_name, ''--'', ''cloud-init'', ''status'', ''--wait''] False None) (py_return ())"

definition install_sshd_script :: string where
  "install_sshd_script =
     ''export DEBIAN_FRONTEND=noninteractive; apt-get update -qq && apt-get install -y -qq openssh-server''"

definition enable_sshd_script :: string where
  "enable_sshd_script =
     ''systemctl disable --now ssh.socket 2>/dev/null || true; systemctl enable --now ssh.service''"

definition ensure_sshd :: "'w host \<Rightarrow> string \<Rightarrow> nat \<Rightarrow> ('w, unit) py" where
  "ensure_sshd h vm_name agent_timeout =
     py_seq (wait_agent h vm_name agent_timeout)
     (py_seq (wait_cloud_init h vm_name)
     (py_bind (incus h [''exec'', vm_name, ''--'', ''test'', ''-x'', ''/usr/sbin/sshd''] False None) (\<lambda>r.
      py_seq (py_when (cmd_rc r \<noteq> 0) (incus_do h [''exec'', vm_name, ''--'', ''bash'', ''-c'', install_sshd_script]))
        (incus_do h [''exec'', vm_name, ''--'', ''bash'', ''-c'', enable_sshd_script]))))"

definition inject_owner_keys :: "'w host \<Rightarrow> string \<Rightarrow> string list \<Rightarrow> nat \<Rightarrow> ('w, unit) py" where
  "inject_owner_keys h vm_name keys agent_timeout =
     py_seq (wait_agent h vm_name agent_timeout)
     (py_seq (wait_cloud_init h vm_name)
     (py_bind (guest_login_user h vm_name) (\<lambda>guest.
       push_file h vm_name (''/home/'' @ guest @ ''/.ssh/authorized_keys'')
         (concat (map (\<lambda>k. strip k @ nl) keys)) guest)))"

definition sync_vm_keys :: "'w host \<Rightarrow> string list \<Rightarrow> string \<Rightarrow> ('w, unit) py" where
  "sync_vm_keys h keys name =
     py_bind (instance_exists h name) (\<lambda>ex.
       if \<not> ex then py_return ()
       else py_bind (instance_running h name) (\<lambda>up.
         if \<not> up then py_return () else inject_owner_keys h name keys 180))"

definition vm_sync_keys :: "'w etcd3 \<Rightarrow> 'w host \<Rightarrow> string \<Rightarrow> ('w, unit) py" where
  "vm_sync_keys e h user =
     py_bind (user_get e user) (\<lambda>r.
     py_bind (py_lift (keys_of (if no_record r then [] else the r))) (\<lambda>keys.
     py_bind (owner_vms e) (\<lambda>ov.
       py_for (vms_owned ov (JStr user)) (sync_vm_keys h keys))))"

section \<open>Who gets through the jump host\<close>

lemma sfold_Cons_Inr: "sfold f (x # xs) b = Inr r \<longleftrightarrow> (\<exists>b'. f x b = Inr b' \<and> sfold f xs b' = Inr r)"
  by (simp split: sum.splits)

lemma group_owners_acc:
  assumes "sfold add_owner registry ov = Inr ov'"
  shows "vms_owned ov' o' = vms_owned ov o' @ map fst (filter (\<lambda>x. owner_key (snd x) = o') registry)"
  using assms
proof (induction registry arbitrary: ov)
  case (Cons x xs)
  then obtain b where "add_owner x ov = Inr b" "sfold add_owner xs b = Inr ov'"
    unfolding sfold_Cons_Inr by blast
  note b = this
  from b(1) have "vms_owned b o' = vms_owned ov o' @ (if owner_key (snd x) = o' then [fst x] else [])"
    by (auto simp: add_owner_def Let_def vms_owned_def split: if_splits)
  with Cons.IH [OF b(2)] show ?case by simp
qed simp

lemma group_owners_spec:
  "group_owners registry = Inr ov \<Longrightarrow> vms_owned ov o' = map fst (filter (\<lambda>x. owner_key (snd x) = o') registry)"
  using group_owners_acc [of registry "[]" ov o'] by (simp add: group_owners_def vms_owned_def)

definition grants :: "access \<Rightarrow> string \<Rightarrow> string set" where
  "grants by_key m = (case map_of by_key m of Some (k, vms) \<Rightarrow> set vms | None \<Rightarrow> {})"

definition access_ok :: "access \<Rightarrow> bool" where
  "access_ok by_key = (distinct (map fst by_key) \<and> (\<forall>m k vms. map_of by_key m = Some (k, vms) \<longrightarrow> key_material k = Some m))"

lemma access_ok_add_key: "access_ok by_key \<Longrightarrow> access_ok (add_key vms k by_key)"
  by (auto simp: access_ok_def add_key_def distinct_update simp del: map_of_eq_Some_iff split: option.splits prod.splits if_splits)

lemma grants_add_key:
  "grants (add_key vms k by_key) m = grants by_key m \<union> (if key_material k = Some m then set vms else {})"
  by (auto simp: grants_def add_key_def split: option.splits prod.splits)

lemma grants_add_keys:
  "grants (fold (add_key vms) ks by_key) m = grants by_key m \<union> (if \<exists>k \<in> set ks. key_material k = Some m then set vms else {})"
  by (induction ks arbitrary: by_key) (auto simp: grants_add_key)

lemma access_ok_add_keys: "access_ok by_key \<Longrightarrow> access_ok (fold (add_key vms) ks by_key)"
  by (induction ks arbitrary: by_key) (auto simp: access_ok_add_key)

definition user_grants :: "(json \<times> string list) list \<Rightarrow> string \<Rightarrow> string \<times> dict \<Rightarrow> string set" where
  "user_grants ov m x =
     {v \<in> set (vms_owned ov (JStr (fst x))). \<exists>ks. keys_of (snd x) = Inr ks \<and> (\<exists>k \<in> set ks. key_material k = Some m)}"

lemma add_user_spec:
  assumes "add_user ov x by_key = Inr by_key'"
  shows "grants by_key' m = grants by_key m \<union> user_grants ov m x" and "access_ok by_key \<Longrightarrow> access_ok by_key'"
  using assms
  by (auto simp: add_user_def Let_def user_grants_def grants_add_keys access_ok_add_keys split: if_splits)

lemma add_users_spec:
  assumes "sfold (add_user ov) users by_key = Inr by_key'"
  shows "grants by_key' m = grants by_key m \<union> (\<Union>x \<in> set users. user_grants ov m x)"
    and "access_ok by_key \<Longrightarrow> access_ok by_key'"
  using assms
proof (induction users arbitrary: by_key)
  case (Cons x xs)
  {
    case 1
    then obtain b where "add_user ov x by_key = Inr b" "sfold (add_user ov) xs b = Inr by_key'"
      unfolding sfold_Cons_Inr by blast
    with Cons.IH(1) [of b] add_user_spec(1) [of ov x by_key b m] show ?case by auto
  next
    case 2
    then obtain b where "add_user ov x by_key = Inr b" "sfold (add_user ov) xs b = Inr by_key'"
      unfolding sfold_Cons_Inr by blast
    with Cons.IH(2) [of b] add_user_spec(2) [of ov x by_key b] 2 show ?case by auto
  }
qed auto

text \<open>A key opens a VM: some user has the key, and owns the VM.\<close>

definition key_opens :: "store \<Rightarrow> string \<Rightarrow> string \<Rightarrow> bool" where
  "key_opens c m v =
     (\<exists>user rec ks k r. user \<noteq> [] \<and> CHR ''/'' \<notin> set user \<and> holds_doc c (USERS_PREFIX @ user) rec
        \<and> keys_of rec = Inr ks \<and> k \<in> set ks \<and> key_material k = Some m
        \<and> v \<noteq> [] \<and> CHR ''/'' \<notin> set v \<and> holds_doc c (VMS_PREFIX @ v) r \<and> map_of r ''owner'' = Some (JStr user))"

lemma table_of_mem: "table_of c p t \<Longrightarrow> (name, d) \<in> set t \<longleftrightarrow> name \<noteq> [] \<and> CHR ''/'' \<notin> set name \<and> holds_doc c (p @ name) d"
  unfolding table_of_def by (metis map_of_eq_Some_iff)

lemma owner_key_JStr: "owner_key r = JStr u \<longleftrightarrow> map_of r ''owner'' = Some (JStr u)"
  by (auto simp: owner_key_def get_or_null_def split: option.splits)

lemma bastion_access_spec:
  assumes "table_of c USERS_PREFIX users" and "table_of c VMS_PREFIX registry" and "group_owners registry = Inr ov"
    and "bastion_access users ov = Inr by_key"
  shows "access_ok by_key" and "v \<in> grants by_key m \<longleftrightarrow> key_opens c m v"
proof -
  have "access_ok []" by (simp add: access_ok_def)
  with add_users_spec(2) [OF assms(4) [unfolded bastion_access_def]] show "access_ok by_key" .
  have g: "grants by_key m = (\<Union>x \<in> set users. user_grants ov m x)"
    using add_users_spec(1) [OF assms(4) [unfolded bastion_access_def], of m] by (simp add: grants_def)
  have u: "v \<in> user_grants ov m (u, rec) \<longleftrightarrow>
    (\<exists>r. (v, r) \<in> set registry \<and> map_of r ''owner'' = Some (JStr u)) \<and> (\<exists>ks. keys_of rec = Inr ks \<and> (\<exists>k \<in> set ks. key_material k = Some m))"
    for u rec
    by (auto simp: user_grants_def group_owners_spec [OF assms(3)] owner_key_JStr image_iff)
  have "v \<in> grants by_key m \<longleftrightarrow> (\<exists>u rec. (u, rec) \<in> set users \<and> v \<in> user_grants ov m (u, rec))"
    unfolding g by auto
  then show "v \<in> grants by_key m \<longleftrightarrow> key_opens c m v"
    unfolding key_opens_def u table_of_mem [OF assms(1)] table_of_mem [OF assms(2)] by blast
qed

text \<open>C8: the jump host's access list gives each key exactly the VMs of the users that registered it: the
  list has one line per key material, naming the SSH port of precisely the VMs some owner of the key
  owns.\<close>

theorem bastion_grants_exact:
  assumes "etcd_seq e view" and "bastion_authorized_keys e s = (Inr content, s')"
  shows "\<exists>by_key. content = join nl (access_header # access_lines by_key) @ nl \<and> distinct (map fst by_key)
    \<and> (\<forall>m k vms. map_of by_key m = Some (k, vms) \<longrightarrow> key_material k = Some m \<and> (\<forall>v. v \<in> set vms \<longleftrightarrow> key_opens (view s) m v))
    \<and> (\<forall>m v. key_opens (view s) m v \<longrightarrow> map_of by_key m \<noteq> None)"
proof -
  have "wp (bastion_authorized_keys e) (\<lambda>content s'. \<exists>by_key. content = join nl (access_header # access_lines by_key) @ nl
      \<and> access_ok by_key \<and> (\<forall>m v. v \<in> grants by_key m \<longleftrightarrow> key_opens (view s) m v)) (\<lambda>_ _. True) s"
    unfolding bastion_authorized_keys_def users_all_def owner_vms_def vms_all_def wp_bind
  proof (rule etcd_seq.wp_all_json_seq [OF assms(1)])
    fix users s1 assume s1: "view s1 = view s" and u: "table_of (view s) USERS_PREFIX users"
    show "wp (all_json e VMS_PREFIX) (\<lambda>x. wp (py_lift (group_owners x)) (\<lambda>ov. wp (py_lift (bastion_access users ov))
        (\<lambda>by_key. wp (py_return (join nl (access_header # access_lines by_key) @ nl))
          (\<lambda>content s'. \<exists>by_key. content = join nl (access_header # access_lines by_key) @ nl
             \<and> access_ok by_key \<and> (\<forall>m v. v \<in> grants by_key m \<longleftrightarrow> key_opens (view s) m v)) (\<lambda>_ _. True)) (\<lambda>_ _. True)) (\<lambda>_ _. True)) (\<lambda>_ _. True) s1"
      by (rule etcd_seq.wp_all_json_seq [OF assms(1)])
        (use s1 bastion_access_spec [OF u] in \<open>auto simp: wp_lift wp_return split: sum.splits\<close>)
  qed simp
  with assms(2) obtain by_key where b: "content = join nl (access_header # access_lines by_key) @ nl" "access_ok by_key"
    "\<And>m v. v \<in> grants by_key m \<longleftrightarrow> key_opens (view s) m v" by (auto simp: wp_def)
  have "v \<in> set vms \<longleftrightarrow> key_opens (view s) m v" if "map_of by_key m = Some (k, vms)" for m k vms v
    using b(3) [of v m] that by (simp add: grants_def)
  moreover have "map_of by_key m \<noteq> None" if "key_opens (view s) m v" for m v
    using b(3) [of v m] that by (auto simp: grants_def split: option.splits)
  ultimately show ?thesis using b(1,2) unfolding access_ok_def by blast
qed

definition key_store :: mem where
  "key_store = \<lparr>mem_data =
     [(USERS_PREFIX @ ''ann'', Doc [(''ssh_keys'', JList [JStr ''ssh-x AAA ann''])], 1),
      (USERS_PREFIX @ ''bob'', Doc [(''ssh_keys'', JList [JStr ''ssh-x AAA bob'', JStr ''ssh-x BBB''])], 2),
      (VMS_PREFIX @ ''a'', Doc (vm_rec ''ann''), 3), (VMS_PREFIX @ ''b'', Doc (vm_rec ''bob''), 4)], mem_rev = 4\<rparr>"

theorem bastion_grants_exact_witness:
  "\<exists>content by_key vms k. fst (bastion_authorized_keys mem_etcd key_store) = Inr content
     \<and> content = join nl (access_header # access_lines by_key) @ nl
     \<and> map_of by_key ''ssh-x AAA'' = Some (k, vms) \<and> ''a'' \<in> set vms \<and> ''b'' \<in> set vms"
proof -
  let ?run = "bastion_authorized_keys mem_etcd key_store"
  have "case fst ?run of Inr _ \<Rightarrow> True | Inl _ \<Rightarrow> False" by code_simp
  then obtain content where c: "fst ?run = Inr content" by (auto split: sum.splits)
  then have "?run = (Inr content, snd ?run)" by (metis prod.collapse)
  from bastion_grants_exact [OF memkv.etcd_seq_axioms, OF this]
  obtain by_key where b: "content = join nl (access_header # access_lines by_key) @ nl"
    "\<forall>m k vms. map_of by_key m = Some (k, vms) \<longrightarrow> (\<forall>v. v \<in> set vms \<longleftrightarrow> key_opens (mem_view key_store) m v)"
    "\<forall>m v. key_opens (mem_view key_store) m v \<longrightarrow> map_of by_key m \<noteq> None" by blast
  have mat: "key_material ''ssh-x AAA ann'' = Some ''ssh-x AAA''" "key_material ''ssh-x AAA bob'' = Some ''ssh-x AAA''" by code_simp+
  have "key_opens (mem_view key_store) ''ssh-x AAA'' ''a''"
    unfolding key_opens_def
    by (rule exI [of _ "''ann''"], rule exI [of _ "[(''ssh_keys'', JList [JStr ''ssh-x AAA ann''])]"], rule exI [of _ "[''ssh-x AAA ann'']"],
        rule exI [of _ "''ssh-x AAA ann''"], rule exI [of _ "vm_rec ''ann''"])
      (simp add: holds_doc_def mem_view_def key_store_def USERS_PREFIX_def VMS_PREFIX_def keys_of_def mat vm_rec_def)
  moreover have "key_opens (mem_view key_store) ''ssh-x AAA'' ''b''"
    unfolding key_opens_def
    by (rule exI [of _ "''bob''"], rule exI [of _ "[(''ssh_keys'', JList [JStr ''ssh-x AAA bob'', JStr ''ssh-x BBB''])]"],
        rule exI [of _ "[''ssh-x AAA bob'', ''ssh-x BBB'']"], rule exI [of _ "''ssh-x AAA bob''"], rule exI [of _ "vm_rec ''bob''"])
      (simp add: holds_doc_def mem_view_def key_store_def USERS_PREFIX_def VMS_PREFIX_def keys_of_def mat vm_rec_def)
  ultimately show ?thesis using b c by (metis not_None_eq prod.collapse)
qed

end
