(* ===== verification/YVm.thy ===== *)
theory YVm
  imports YBastion
begin

text \<open>
  The life cycle of instances and the reconciler (\<open>utils/vm_manager.py\<close>): usage events, the state
  sampler, launch, resize, stop, start, restart, destroy, the migration that pins addresses, and
  \<open>reconcile\<close>, the tick that converges local instances to their desired power state. Messages to the
  terminal are left out. Main results: the reconciler stops an instance only when its schedule wants it
  off and it was warned long enough ago or told to stop at once, starts only what the schedule wants on,
  touches nothing else, and never loses a due start or stop.
\<close>

section \<open>Events and samples\<close>

definition EVENTS_PREFIX :: string where
  "EVENTS_PREFIX = ''/cluster/vms-events/''"

definition VM_STATE_INTERVAL_S :: int where
  "VM_STATE_INTERVAL_S = 60"

definition event_doc :: "int \<Rightarrow> string \<Rightarrow> string \<Rightarrow> string \<Rightarrow> json \<Rightarrow> json \<Rightarrow> string \<Rightarrow> bool \<Rightarrow> dict" where
  "event_doc now name host event owner gpus initiator billable =
     [(''ts'', JStr (iso_utc_seconds now)), (''vm'', JStr name), (''host'', JStr host), (''event'', JStr event),
      (''owner'', owner), (''gpus'', gpus), (''initiator'', JStr initiator), (''billable'', JBool billable)]"

text \<open>Best effort: a failure to record is swallowed.\<close>

definition record_event ::
  "'w etcd3 \<Rightarrow> 'w host \<Rightarrow> string \<Rightarrow> string \<Rightarrow> json \<Rightarrow> json \<Rightarrow> string \<Rightarrow> bool \<Rightarrow> ('w, unit) py" where
  "record_event e h event name owner gpus initiator billable =
     py_try
       (py_bind (h_now h) (\<lambda>now. py_bind (h_ns h) (\<lambda>ns.
          put_json e (EVENTS_PREFIX @ nat_str ns @ ''-'' @ name)
            (event_doc now name (h_name h) event owner gpus initiator billable))))
       (\<lambda>_. py_return ())"

definition record_event_from_record ::
  "'w etcd3 \<Rightarrow> 'w host \<Rightarrow> string \<Rightarrow> string \<Rightarrow> string \<Rightarrow> bool \<Rightarrow> ('w, unit) py" where
  "record_event_from_record e h event name initiator billable =
     py_bind (vm_get e name) (\<lambda>r.
       let rec = (case r of Some d \<Rightarrow> d | None \<Rightarrow> []) in
       record_event e h event name (get_or_null rec ''owner'') (get_or_null rec ''gpus'') initiator billable)"

definition is_gpu :: "json \<Rightarrow> bool" where
  "is_gpu dev = (case dev of JObj d \<Rightarrow> map_of d ''type'' = Some (JStr ''gpu'') | _ \<Rightarrow> False)"

definition add_sample :: "dict \<Rightarrow> json list \<Rightarrow> exn + json list" where
  "add_sample inst acc =
     (if \<not> otruthy (map_of inst ''name'') \<or> map_of inst ''name'' = Some (JStr BASTION_CONTAINER) then Inr acc
      else (case or_obj (map_of inst ''expanded_devices'') of
              Inl x \<Rightarrow> Inl x
            | Inr devices \<Rightarrow>
                Inr (acc @ [JObj [(''name'', the (map_of inst ''name'')), (''status'', get_or_null inst ''status''),
                   (''type'', get_or_null inst ''type''),
                   (''gpus'', JInt (int (length (filter is_gpu (map snd devices)))))]])))"

definition sample_state :: "'w etcd3 \<Rightarrow> 'w host \<Rightarrow> ('w, unit) py" where
  "sample_state e h =
     py_bind (incus_json h list_all_cmd) (\<lambda>insts.
     py_bind (py_lift (sfold add_sample insts [])) (\<lambda>instances.
     py_bind (h_now h) (\<lambda>now.
     py_bind (gpu_pool h) (\<lambda>pool.
       put_json e (VM_STATE_PREFIX @ h_name h)
         [(''ts'', JStr (iso_utc_seconds now)), (''interval_s'', JInt VM_STATE_INTERVAL_S),
          (''gpu_pool'', JInt (int (length pool))), (''instances'', JList instances)]))))"

section \<open>Lifecycle operations\<close>

definition warn_desired_conflict :: "'w etcd3 \<Rightarrow> 'w host \<Rightarrow> string \<Rightarrow> string \<Rightarrow> ('w, unit) py" where
  "warn_desired_conflict e h name action =
     py_bind (desired_get e name) (\<lambda>desired.
     py_bind (h_now h) (\<lambda>now.
     py_bind (py_lift (desired_conflict desired action now)) (\<lambda>_. py_return ())))"

definition vm_stop :: "'w etcd3 \<Rightarrow> 'w host \<Rightarrow> string \<Rightarrow> bool \<Rightarrow> string \<Rightarrow> bool \<Rightarrow> ('w, unit) py" where
  "vm_stop e h name billable initiator release =
     py_seq (incus_do h [''stop'', name])
     (py_seq (record_event_from_record e h ''stop'' name initiator billable)
     (py_seq (py_when release (py_seq (release_gpus h name) (py_return ())))
       (py_when (initiator = ''cli'') (warn_desired_conflict e h name ''stop''))))"

definition vm_start :: "'w etcd3 \<Rightarrow> 'w host \<Rightarrow> string \<Rightarrow> bool \<Rightarrow> string \<Rightarrow> ('w, unit) py" where
  "vm_start e h name billable initiator =
     py_seq (ensure_nas_share h name)
     (py_seq (ensure_gpus_attached e h name)
     (py_seq (incus_do h [''start'', name])
     (py_seq (record_event_from_record e h ''start'' name initiator billable)
       (py_when (initiator = ''cli'') (warn_desired_conflict e h name ''start'')))))"

definition vm_restart :: "'w etcd3 \<Rightarrow> 'w host \<Rightarrow> string \<Rightarrow> bool \<Rightarrow> string \<Rightarrow> ('w, unit) py" where
  "vm_restart e h name billable initiator =
     py_bind (instance_running h name) (\<lambda>up.
     py_seq (py_when up (incus_do h [''stop'', name]))
     (py_seq (ensure_nas_share h name)
     (py_seq (ensure_gpus_attached e h name)
     (py_seq (incus_do h [''start'', name])
     (py_seq (record_event_from_record e h ''restart'' name initiator billable)
       (py_when (initiator = ''cli'') (warn_desired_conflict e h name ''restart'')))))))"

definition any_running :: "dict list \<Rightarrow> bool" where
  "any_running insts = list_ex (\<lambda>i. map_of i ''status'' = Some (JStr ''Running'')) insts"

definition vm_destroy :: "'w etcd3 \<Rightarrow> 'w host \<Rightarrow> string \<Rightarrow> ('w, unit) py" where
  "vm_destroy e h name =
     py_bind (instance_exists h name) (\<lambda>ex.
     py_seq (py_when ex
       (py_bind (incus_json h [''list'', name, ''--format'', ''json'']) (\<lambda>insts.
        py_seq (py_when (any_running insts) (incus_do h [''stop'', name])) (incus_do h [''delete'', name]))))
     (py_seq (record_event_from_record e h ''destroy'' name ''cli'' False)
     (py_seq (sync_dns_records h)
     (py_seq (delete_key e (VMS_PREFIX @ name))
     (py_seq (desired_delete e name)
     (py_seq (grace_delete e name)
     (py_seq (delete_key e (VM_ISSUE_PREFIX @ name)) (bastion_sync e h))))))))"

definition GPU_VM_AGENT_TIMEOUT :: nat where
  "GPU_VM_AGENT_TIMEOUT = 900"

definition vm_resize :: "'w etcd3 \<Rightarrow> 'w host \<Rightarrow> string \<Rightarrow> string \<Rightarrow> ('w, unit) py" where
  "vm_resize e h name size' =
     (if \<not> valid_vm_name name then py_raise (ValueError ''Invalid VM name'')
      else py_bind (instance_exists h name) (\<lambda>ex.
        if \<not> ex then py_raise (ValueError ''No such VM'')
        else py_bind (incus h [''config'', ''device'', ''override'', name, ''root'', ''size='' @ size'] False None) (\<lambda>ov.
          py_seq (py_when (cmd_rc ov \<noteq> 0) (incus_do h [''config'', ''device'', ''set'', name, ''root'', ''size='' @ size']))
          (py_bind (incus_json h [''list'', name, ''--format'', ''json'']) (\<lambda>insts.
            py_when (any_running insts)
              (py_seq (incus_do h [''restart'', name])
              (py_bind (vm_get e name) (\<lambda>rec.
               py_seq (wait_agent h name (if otruthy (Option.bind rec (\<lambda>d. map_of d ''gpus'')) then GPU_VM_AGENT_TIMEOUT else 180))
                 (wait_cloud_init h name)))))))))"

definition VM_PROFILE :: string where "VM_PROFILE = ''gpu-vm''"

definition CT_PROFILE :: string where "CT_PROFILE = ''gpu-ct''"

definition VM_IMAGE :: string where "VM_IMAGE = ''ubuntu-cuda-vllm''"

definition CT_IMAGE :: string where "CT_IMAGE = ''ubuntu-rocm''"

definition instance_doc :: "string \<Rightarrow> int \<Rightarrow> string \<Rightarrow> string \<Rightarrow> int \<Rightarrow> string \<Rightarrow> dict" where
  "instance_doc owner gpus typ host now state =
     [(''owner'', JStr owner), (''gpus'', JInt gpus), (''type'', JStr typ), (''host'', JStr host),
      (''created'', JStr (iso_utc_seconds now)), (''state'', JStr state)]"

fun add_gpu_devices :: "'w host \<Rightarrow> string \<Rightarrow> nat \<Rightarrow> string list \<Rightarrow> ('w, unit) py" where
  "add_gpu_devices h name i [] = py_return ()"
| "add_gpu_devices h name i (pci # rest) =
     py_seq (incus_do h [''config'', ''device'', ''add'', name, ''gpu'' @ nat_str i, ''gpu'', ''gputype=physical'', ''pci='' @ pci])
       (add_gpu_devices h name (Suc i) rest)"

text \<open>Creating and starting the instance, up to its registration.\<close>

definition create_instance ::
  "'w host \<Rightarrow> string \<Rightarrow> string \<Rightarrow> int \<Rightarrow> string \<Rightarrow> string \<Rightarrow> string \<Rightarrow> ('w, unit) py" where
  "create_instance h name typ gpus cpu mem img =
     py_bind (if typ = ''vm'' \<and> gpus \<noteq> 0 then select_free_gpus h (nat gpus) else py_return []) (\<lambda>picked.
     py_seq (incus_do h ([''init'', img, name] @ (if typ = ''vm'' then [''--vm''] else [])
        @ [''--profile'', if typ = ''vm'' then VM_PROFILE else CT_PROFILE, ''-c'', ''limits.cpu='' @ cpu,
           ''-c'', ''limits.memory='' @ mem]))
     (py_bind (pick_vm_ip h None None) (\<lambda>ip.
      py_seq (pin_instance_ip h name (shown ip))
     (py_seq (sync_dns_records h)
     (py_seq (if typ = ''vm'' then add_gpu_devices h name 0 picked
              else py_when (gpus = 0)
                (py_seq (incus h [''config'', ''device'', ''remove'', name, ''gpu0''] False None) (py_return ())))
     (py_seq (ensure_nas_share h name) (incus_do h [''start'', name])))))))"

definition provision_instance ::
  "'w etcd3 \<Rightarrow> 'w host \<Rightarrow> string \<Rightarrow> string \<Rightarrow> int \<Rightarrow> dict \<Rightarrow> ('w, unit) py" where
  "provision_instance e h name typ gpus user =
     (let timeout = (if typ = ''vm'' \<and> gpus \<noteq> 0 then GPU_VM_AGENT_TIMEOUT else 180) in
      py_seq (ensure_sshd h name timeout)
      (py_seq (py_bind (py_lift (keys_of user)) (\<lambda>keys. inject_owner_keys h name keys timeout))
      (py_seq (bastion_sync e h)
        (py_when (typ = ''vm'' \<and> gpus \<noteq> 0) (py_seq (verify_guest_gpus h name) (py_return ()))))))"

text \<open>Registering the started instance, as provisioning until it is set up.\<close>

definition register_instance ::
  "'w etcd3 \<Rightarrow> 'w host \<Rightarrow> string \<Rightarrow> string \<Rightarrow> int \<Rightarrow> string \<Rightarrow> bool \<Rightarrow> dict \<Rightarrow> ('w, unit) py" where
  "register_instance e h name owner gpus typ billable user =
     py_bind (h_now h) (\<lambda>now.
     py_seq (put_json e (VMS_PREFIX @ name) (instance_doc owner gpus typ (h_name h) now ''provisioning''))
     (py_seq (record_event e h ''launch'' name (JStr owner) (JInt gpus) ''cli'' billable)
     (py_seq (provision_instance e h name typ gpus user)
        (put_json e (VMS_PREFIX @ name) (instance_doc owner gpus typ (h_name h) now ''ready'')))))"

text \<open>\<open>if vm_get(name) or _instance_exists(name)\<close>.\<close>

definition name_taken :: "'w etcd3 \<Rightarrow> 'w host \<Rightarrow> string \<Rightarrow> ('w, bool) py" where
  "name_taken e h name =
     py_bind (vm_get e name) (\<lambda>vm. if no_record vm then instance_exists h name else py_return True)"

definition vm_launch ::
  "'w etcd3 \<Rightarrow> 'w host \<Rightarrow> string \<Rightarrow> string \<Rightarrow> int \<Rightarrow> string \<Rightarrow> string \<Rightarrow> string option \<Rightarrow> string option \<Rightarrow> bool
    \<Rightarrow> ('w, unit) py" where
  "vm_launch e h name owner gpus cpu mem img instance_type billable =
     (if \<not> valid_vm_name name then py_raise (ValueError ''Invalid VM name'')
      else if gpus < 0 then py_raise (ValueError ''--gpus cannot be negative'')
      else py_bind (case instance_type of
          None \<Rightarrow> default_instance_type h
        | Some t \<Rightarrow> if t = ''auto'' then default_instance_type h else py_return t) (\<lambda>typ.
        if typ \<noteq> ''vm'' \<and> typ \<noteq> ''container'' then py_raise (ValueError ''Invalid --type'')
        else py_bind (user_get e owner) (\<lambda>user.
          if no_record user \<or> \<not> otruthy (map_of (the user) ''ssh_keys'') then py_raise (ValueError ''no SSH keys registered'')
          else py_bind (name_taken e h name) (\<lambda>taken.
          if taken then py_raise (ValueError ''already exists'')
          else
            py_seq (create_instance h name typ gpus cpu mem
              (case img of Some i \<Rightarrow> i | None \<Rightarrow> if typ = ''vm'' then VM_IMAGE else CT_IMAGE))
            (register_instance e h name owner gpus typ billable (the user))))))"

text \<open>The rows of \<open>vm_list\<close>: each VM's state as shown.\<close>

definition list_state :: "string \<Rightarrow> (json \<times> json) list \<Rightarrow> string \<Rightarrow> dict \<Rightarrow> json" where
  "list_state local states name rec =
     (if map_of rec ''state'' = Some (JStr ''provisioning'') then JStr ''provisioning''
      else if get_or_null rec ''host'' = JNull \<or> map_of rec ''host'' = Some (JStr local)
      then (case map_of states (JStr name) of Some s \<Rightarrow> s | None \<Rightarrow> JStr ''(absent)'')
      else JStr ''(remote)'')"

definition vm_list :: "'w etcd3 \<Rightarrow> 'w host \<Rightarrow> ('w, (string \<times> json) list) py" where
  "vm_list e h =
     py_bind (vms_all e) (\<lambda>vms.
       if vms = [] then py_return []
       else py_bind (incus_json h list_all_cmd) (\<lambda>insts.
         py_bind (py_lift (sfold (\<lambda>i acc. map_sum id (\<lambda>n. AList.update n
             (case map_of i ''status'' of Some s \<Rightarrow> s | None \<Rightarrow> JStr ''?'') acc) (dict_item i ''name'')) insts [])) (\<lambda>states.
           py_return (map (\<lambda>(n, rec). (n, list_state (h_name h) states n rec)) (sort_key fst vms)))))"

section \<open>Pinning the addresses of existing instances\<close>

fun first_addr :: "json list \<Rightarrow> exn + json option" where
  "first_addr [] = Inr None"
| "first_addr (j # js) =
     (case as_dict j of
        Inl x \<Rightarrow> Inl x
      | Inr a \<Rightarrow> if is_global_inet a then map_sum id Some (dict_item a ''address'') else first_addr js)"

fun live_ip :: "json list \<Rightarrow> json option \<Rightarrow> exn + json option" where
  "live_ip [] ip = Inr ip"
| "live_ip (j # js) ip =
     (case iface_addresses j of
        Inl x \<Rightarrow> Inl x
      | Inr as \<Rightarrow>
          (case first_addr as of
             Inl x \<Rightarrow> Inl x
           | Inr r \<Rightarrow>
               (let ip' = (if r = None then ip else r) in if otruthy ip' then Inr ip' else live_ip js ip')))"

definition add_live_ip :: "dict \<Rightarrow> (string \<times> json option) list \<Rightarrow> exn + (string \<times> json option) list" where
  "add_live_ip inst live =
     (case inst_ifaces inst of
        Inl x \<Rightarrow> Inl x
      | Inr ifs \<Rightarrow>
          (case live_ip ifs None of
             Inl x \<Rightarrow> Inl x
           | Inr ip \<Rightarrow> map_sum id (\<lambda>n. AList.update n ip live) (str_item inst ''name'')))"

definition pin_queue :: "(string \<times> json option) list \<Rightarrow> (string \<times> json) list \<Rightarrow> string list" where
  "pin_queue live pinned =
     (let todo = filter (\<lambda>(n, ip). n \<noteq> BASTION_CONTAINER \<and> map_of pinned n = None) live;
          unique = (\<lambda>(n, ip). otruthy ip \<and> length (filter (\<lambda>(n', ip'). ip' = ip) live) = 1)
      in map fst (filter unique todo) @ map fst (filter (\<lambda>x. \<not> unique x) todo))"

fun pin_all ::
  "'w host \<Rightarrow> (string \<times> json option) list \<Rightarrow> string list \<Rightarrow> json list \<Rightarrow> ('w, (string \<times> json) list) py" where
  "pin_all h live [] taken = py_return []"
| "pin_all h live (name # rest) taken =
     py_bind (py_lift (pick_from (case map_of live name of Some ip \<Rightarrow> ip | None \<Rightarrow> None) taken)) (\<lambda>target.
     py_seq (pin_instance_ip h name (shown target))
     (py_bind (pin_all h live rest (target # taken)) (\<lambda>changes. py_return ((name, target) # changes))))"

definition pin_existing_vms :: "'w host \<Rightarrow> ('w, (string \<times> json) list) py" where
  "pin_existing_vms h =
     py_bind (incus_json h list_all_cmd) (\<lambda>insts.
     py_bind (pinned_ips h) (\<lambda>pinned.
     py_bind (py_lift (sfold add_live_ip insts [])) (\<lambda>live.
     py_bind (pin_all h live (pin_queue live pinned) (map snd pinned)) (\<lambda>changes.
     py_seq (sync_dns_records h) (py_return changes)))))"

section \<open>The reconciler\<close>

definition SCHEDULED_STOP_GRACE_S :: int where
  "SCHEDULED_STOP_GRACE_S = 300"

text \<open>\<open>str(error)\<close>, as far as the messages are modelled.\<close>

fun exn_text :: "exn \<Rightarrow> string" where
  "exn_text (KeyError k) = k"
| "exn_text (ValueError m) = m"
| "exn_text (RuntimeError m) = m"
| "exn_text (ClientError m) = m"
| "exn_text _ = []"

definition issue_doc :: "string \<Rightarrow> exn \<Rightarrow> int \<Rightarrow> dict" where
  "issue_doc op' error now =
     [(''op'', JStr op'), (''error'', JStr (take 300 (exn_text error))), (''at'', JStr (iso_utc_seconds now))]"

text \<open>The names of \<open>issues\<close>, a dict that the tick keeps up to date with etcd.\<close>

definition record_issue :: "'w etcd3 \<Rightarrow> string list \<Rightarrow> string \<Rightarrow> string \<Rightarrow> exn \<Rightarrow> int \<Rightarrow> ('w, string list) py" where
  "record_issue e issues name op' error now =
     py_seq (put_json e (VM_ISSUE_PREFIX @ name) (issue_doc op' error now))
       (py_return (List.insert name issues))"

definition clear_issue :: "'w etcd3 \<Rightarrow> string list \<Rightarrow> string \<Rightarrow> ('w, string list) py" where
  "clear_issue e issues name =
     (if name \<in> set issues
      then py_seq (delete_key e (VM_ISSUE_PREFIX @ name)) (py_return (removeAll name issues))
      else py_return issues)"

record tick =
  t_now :: int
  t_statuses :: "(json \<times> json) list"
  t_graces :: table
  t_desireds :: table

definition add_status :: "dict \<Rightarrow> (json \<times> json) list \<Rightarrow> exn + (json \<times> json) list" where
  "add_status i acc =
     (let n = get_or_null i ''name'' in
      if hashable n then Inr (AList.update n (get_or_null i ''status'') acc) else Inl TypeError)"

definition is_running :: "tick \<Rightarrow> string \<Rightarrow> bool" where
  "is_running tk name = (map_of (t_statuses tk) (JStr name) = Some (JStr ''Running''))"

definition warned_at :: "dict \<Rightarrow> pydt option" where
  "warned_at grace = (case map_of grace ''warned_at'' of Some (JStr s) \<Rightarrow> fromisoformat s | _ \<Rightarrow> None)"

text \<open>Whether the stop of a warned instance is due. A marker without a time zone raises.\<close>

definition stop_due :: "int \<Rightarrow> dict \<Rightarrow> exn + bool" where
  "stop_due now grace =
     (if otruthy (map_of grace ''immediate'') then Inr True
      else (case warned_at grace of
              None \<Rightarrow> Inr True
            | Some (Naive _) \<Rightarrow> Inl TypeError
            | Some (Aware w) \<Rightarrow> Inr (SCHEDULED_STOP_GRACE_S * 1000000 \<le> now - w)))"

definition warn_guest :: "'w host \<Rightarrow> string \<Rightarrow> ('w, unit) py" where
  "warn_guest h name =
     py_seq (incus h [''exec'', name, ''--'', ''sh'', ''-c'',
       ''echo 'YCluster: scheduled shutdown within minutes (save your work)' | wall''] False None) (py_return ())"

definition scheduled_stop :: "'w etcd3 \<Rightarrow> 'w host \<Rightarrow> int \<Rightarrow> string \<Rightarrow> string list \<Rightarrow> ('w, string list) py" where
  "scheduled_stop e h now name issues =
     py_try
       (py_seq (vm_stop e h name False ''scheduler'' False)
       (py_seq (grace_delete e name)
       (py_seq (release_gpus h name) (clear_issue e issues name))))
       (\<lambda>x. record_issue e issues name ''stop'' x now)"

text \<open>An instance that should be off: warn first, stop when due, release the GPUs of one that is already
  stopped.\<close>

definition converge_off :: "'w etcd3 \<Rightarrow> 'w host \<Rightarrow> tick \<Rightarrow> string \<Rightarrow> string list \<Rightarrow> ('w, string list) py" where
  "converge_off e h tk name issues =
     (let grace = map_of (t_graces tk) name in
      if is_running tk name then
        (if no_record grace then
           py_seq (warn_guest h name)
           (py_seq (grace_set e name [(''warned_at'', JStr (iso_utc_seconds (t_now tk)))]) (py_return issues))
         else py_bind (py_lift (stop_due (t_now tk) (the grace))) (\<lambda>due.
           if due then scheduled_stop e h (t_now tk) name issues else py_return issues))
      else py_bind (clear_issue e issues name) (\<lambda>issues'.
        if no_record grace then py_return issues'
        else py_seq (grace_delete e name) (py_seq (release_gpus h name) (py_return issues'))))"

definition reconcile_vm ::
  "'w etcd3 \<Rightarrow> 'w host \<Rightarrow> tick \<Rightarrow> string \<Rightarrow> string list \<times> string list \<Rightarrow> ('w, string list \<times> string list) py" where
  "reconcile_vm e h tk name st =
     (case st of (issues, to_start) \<Rightarrow>
      let desired = map_of (t_desireds tk) name in
      if no_record desired \<or> mode_is desired ''unmanaged''
      then py_bind (clear_issue e issues name) (\<lambda>issues'. py_return (issues', to_start))
      else py_bind (py_lift (desired_on (the desired) (t_now tk))) (\<lambda>want_on.
        if want_on then
          py_seq (py_when (\<not> no_record (map_of (t_graces tk) name)) (grace_delete e name))
            (if is_running tk name
             then py_bind (clear_issue e issues name) (\<lambda>issues'. py_return (issues', to_start))
             else py_return (issues, to_start @ [name]))
        else py_bind (converge_off e h tk name issues) (\<lambda>issues'. py_return (issues', to_start))))"

definition scheduled_start :: "'w etcd3 \<Rightarrow> 'w host \<Rightarrow> int \<Rightarrow> string \<Rightarrow> string list \<Rightarrow> ('w, string list) py" where
  "scheduled_start e h now name issues =
     py_try
       (py_seq (vm_start e h name True ''scheduler'') (clear_issue e issues name))
       (\<lambda>x. record_issue e issues name ''start'' x now)"

definition local_names :: "string \<Rightarrow> table \<Rightarrow> string list" where
  "local_names host registry =
     sort (map fst (filter (\<lambda>(n, rec). map_of rec ''host'' = Some (JStr host)) registry))"

definition dangling :: "string list \<Rightarrow> table \<Rightarrow> string list" where
  "dangling issues registry = sort (remdups (filter (\<lambda>n. map_of registry n = None) issues))"

text \<open>The two passes over the local instances, then the issues of VMs that left the registry.\<close>

definition reconcile_tables :: "'w etcd3 \<Rightarrow> 'w host \<Rightarrow> tick \<Rightarrow> table \<Rightarrow> table \<Rightarrow> ('w, unit) py" where
  "reconcile_tables e h tk issues registry =
     py_bind (py_fold (reconcile_vm e h tk) (local_names (h_name h) registry) (map fst issues, [])) (\<lambda>(issues', to_start).
     py_bind (py_fold (scheduled_start e h (t_now tk)) to_start issues') (\<lambda>issues''.
       py_for (dangling issues'' registry) (\<lambda>n. delete_key e (VM_ISSUE_PREFIX @ n))))"

definition reconcile :: "'w etcd3 \<Rightarrow> 'w host \<Rightarrow> ('w, unit) py" where
  "reconcile e h =
     py_bind (h_now h) (\<lambda>now.
     py_bind (incus_json h list_all_cmd) (\<lambda>insts.
     py_bind (py_lift (sfold add_status insts [])) (\<lambda>statuses.
     py_bind (grace_all e) (\<lambda>graces.
     py_bind (desired_all e) (\<lambda>desireds.
     py_bind (issues_all e) (\<lambda>issues.
     py_bind (vms_all e) (\<lambda>registry.
       reconcile_tables e h \<lparr>t_now = now, t_statuses = statuses, t_graces = graces, t_desireds = desireds\<rparr>
         issues registry)))))))"

section \<open>What a tick may do\<close>

lemma wp_fold_accu:
  assumes "\<And>x b w. x \<in> set xs \<Longrightarrow> J b \<Longrightarrow> I w \<Longrightarrow> wp (f x b) (\<lambda>b' w'. J b' \<and> I w') (\<lambda>_. I) w" and "J b" and "I w"
  shows "wp (py_fold f xs b) (\<lambda>b' w'. J b' \<and> I w') (\<lambda>_. I) w"
  using assms
proof (induction xs arbitrary: b w)
  case Nil
  then show ?case by (simp add: wp_simps)
next
  case (Cons x xs)
  have "wp (f x b) (\<lambda>b' w'. J b' \<and> I w') (\<lambda>_. I) w" using Cons.prems by simp
  then have "wp (f x b) (\<lambda>b'. wp (py_fold f xs b') (\<lambda>b' w'. J b' \<and> I w') (\<lambda>_. I)) (\<lambda>_. I) w"
    by (rule wp_mono) (use Cons in auto)
  then show ?case by (simp add: wp_simps)
qed

text \<open>The keys the reconciler writes.\<close>

definition own_key :: "string \<Rightarrow> bool" where
  "own_key k = (startswith k VM_GRACE_PREFIX \<or> startswith k VM_ISSUE_PREFIX \<or> startswith k EVENTS_PREFIX)"

lemma own_key_simps [simp]: "own_key (VM_GRACE_PREFIX @ n)" "own_key (VM_ISSUE_PREFIX @ n)" "own_key (EVENTS_PREFIX @ n)"
  by (simp_all add: own_key_def)

definition managed :: "tick \<Rightarrow> string \<Rightarrow> bool" where
  "managed tk name = (\<not> no_record (map_of (t_desireds tk) name) \<and> \<not> mode_is (map_of (t_desireds tk) name) ''unmanaged'')"

definition due_stop :: "tick \<Rightarrow> string \<Rightarrow> bool" where
  "due_stop tk name =
     (managed tk name \<and> desired_on (the (map_of (t_desireds tk) name)) (t_now tk) = Inr False \<and> is_running tk name
      \<and> \<not> no_record (map_of (t_graces tk) name) \<and> stop_due (t_now tk) (the (map_of (t_graces tk) name)) = Inr True)"

definition due_start :: "tick \<Rightarrow> string \<Rightarrow> bool" where
  "due_start tk name =
     (managed tk name \<and> desired_on (the (map_of (t_desireds tk) name)) (t_now tk) = Inr True \<and> \<not> is_running tk name)"

context incus_env
begin

definition owned_inv :: "('w \<Rightarrow> bool) \<Rightarrow> bool" where
  "owned_inv I = (stable I \<and> (\<forall>k d. own_key k \<longrightarrow> keeps I (put_json e k d)) \<and> (\<forall>k. own_key k \<longrightarrow> keeps I (delete_key e k)))"

lemma owned_adds: "allows_others P \<Longrightarrow> owned_inv (adds l P)"
  by (simp add: owned_inv_def stable_adds keeps_adds_kv)

lemma owned_same: "owned_inv (same_but own_key c)"
  by (simp add: owned_inv_def stable_same keeps_same_kv)

lemma owned_base:
  assumes "owned_inv I"
  shows "stable I" "own_key k \<Longrightarrow> keeps I (put_json e k d)" "own_key k \<Longrightarrow> keeps I (delete_key e k)"
  using assms by (auto simp: owned_inv_def)

lemma keeps_event: "owned_inv I \<Longrightarrow> keeps I (record_event_from_record e h event name initiator billable)"
  by (auto simp: record_event_from_record_def record_event_def vm_get_def Let_def
      intro!: keeps_intros stable_kv owned_base stable_base split: option.splits)

lemma keeps_clear: "owned_inv I \<Longrightarrow> keeps I (clear_issue e issues name)"
  by (auto simp: clear_issue_def intro!: keeps_intros owned_base)

lemma keeps_record_issue: "owned_inv I \<Longrightarrow> keeps I (record_issue e issues name op' x now)"
  by (auto simp: record_issue_def intro!: keeps_intros owned_base)

lemma keeps_warn: "owned_inv I \<Longrightarrow> keeps I (warn_desired_conflict e h name action)"
  by (auto simp: warn_desired_conflict_def desired_get_def intro!: keeps_intros stable_kv stable_base owned_base)

lemma keeps_scheduled_stop:
  assumes "owned_inv I" and "keeps I (incus_do h [''stop'', name])"
  shows "keeps I (scheduled_stop e h now name issues)"
  using assms
  by (auto simp: scheduled_stop_def vm_stop_def grace_delete_def
      intro!: keeps_intros keeps_event keeps_clear keeps_record_issue keeps_warn owned_base stable_release)

lemma keeps_scheduled_start:
  assumes "owned_inv I" and "keeps I (incus_do h [''start'', name])"
  shows "keeps I (scheduled_start e h now name issues)"
  using assms
  by (auto simp: scheduled_start_def vm_start_def
      intro!: keeps_intros keeps_event keeps_clear keeps_record_issue keeps_warn owned_base stable_nas stable_ensure_gpus)

lemma keeps_converge_off:
  assumes I: "owned_inv I" and "\<not> no_record (map_of (t_graces tk) name) \<Longrightarrow> is_running tk name \<Longrightarrow>
      stop_due (t_now tk) (the (map_of (t_graces tk) name)) = Inr True \<Longrightarrow> keeps I (incus_do h [''stop'', name])"
  shows "keeps I (converge_off e h tk name issues)"
proof -
  have "keeps I (py_bind (py_lift (stop_due (t_now tk) (the (map_of (t_graces tk) name)))) (\<lambda>due.
           if due then scheduled_stop e h (t_now tk) name issues else py_return issues))"
    if "\<not> no_record (map_of (t_graces tk) name)" "is_running tk name"
  proof (cases "stop_due (t_now tk) (the (map_of (t_graces tk) name))")
    case (Inr due)
    with that assms show ?thesis by (cases due) (simp_all add: py_bind_lift keeps_scheduled_stop)
  qed (simp add: py_bind_lift)
  with I show ?thesis
    by (auto simp: converge_off_def warn_guest_def grace_set_def grace_delete_def Let_def
        intro!: keeps_intros keeps_clear owned_base stable_incus stable_release)
qed

lemma wp_reconcile_vm:
  assumes I: "owned_inv I" and stop: "due_stop tk name \<Longrightarrow> keeps I (incus_do h [''stop'', name])"
    and J: "\<And>n. n \<in> set (snd st) \<Longrightarrow> J n" "due_start tk name \<Longrightarrow> J name" and "I s"
  shows "wp (reconcile_vm e h tk name st) (\<lambda>st' s'. (\<forall>n \<in> set (snd st'). J n) \<and> I s') (\<lambda>_. I) s"
proof -
  obtain issues ts where st: "st = (issues, ts)" by (cases st)
  have clear: "wp (clear_issue e issues name) (\<lambda>issues' s'. (\<forall>n \<in> set ts. J n) \<and> I s') (\<lambda>_. I) s1" if "I s1" for s1
    using keepsD [OF keeps_clear [OF I] that] by (rule wp_mono) (use J(1) st in auto)
  show ?thesis
  proof (cases "managed tk name")
    case False
    with clear [OF \<open>I s\<close>] show ?thesis by (auto simp: reconcile_vm_def st managed_def Let_def wp_simps)
  next
    case man: True
    show ?thesis
    proof (cases "desired_on (the (map_of (t_desireds tk) name)) (t_now tk)")
      case (Inl x)
      with man \<open>I s\<close> show ?thesis by (auto simp: reconcile_vm_def st managed_def Let_def wp_simps)
    next
      case (Inr on)
      show ?thesis
      proof (cases on)
        case True
        have "keeps I (py_when (\<not> no_record (map_of (t_graces tk) name)) (grace_delete e name))"
          by (auto simp: grace_delete_def intro!: keeps_when owned_base I)
        from keepsD [OF this \<open>I s\<close>] have "wp (py_when (\<not> no_record (map_of (t_graces tk) name)) (grace_delete e name))
          (\<lambda>_. wp (if is_running tk name
             then py_bind (clear_issue e issues name) (\<lambda>issues'. py_return (issues', ts))
             else py_return (issues, ts @ [name])) (\<lambda>st' s'. (\<forall>n \<in> set (snd st'). J n) \<and> I s') (\<lambda>_. I)) (\<lambda>_. I) s"
          by (rule wp_mono) (use clear J st man Inr True in \<open>auto simp: wp_simps due_start_def\<close>)
        with man Inr True show ?thesis by (auto simp: reconcile_vm_def st managed_def Let_def wp_simps)
      next
        case False
        have "keeps I (converge_off e h tk name issues)"
          by (rule keeps_converge_off [OF I]) (use man Inr False stop in \<open>simp add: due_stop_def\<close>)
        from keepsD [OF this \<open>I s\<close>]
        have "wp (converge_off e h tk name issues) (\<lambda>issues' s'. (\<forall>n \<in> set ts. J n) \<and> I s') (\<lambda>_. I) s"
          by (rule wp_mono) (use J(1) st in auto)
        with man Inr False show ?thesis by (auto simp: reconcile_vm_def st managed_def Let_def wp_simps)
      qed
    qed
  qed
qed

lemma keeps_reconcile_tables:
  assumes I: "owned_inv I"
    and stop: "\<And>n. n \<in> set (local_names (h_name h) registry) \<Longrightarrow> due_stop tk n \<Longrightarrow> keeps I (incus_do h [''stop'', n])"
    and start: "\<And>n. n \<in> set (local_names (h_name h) registry) \<Longrightarrow> due_start tk n \<Longrightarrow> keeps I (incus_do h [''start'', n])"
  shows "keeps I (reconcile_tables e h tk issues registry)"
proof (rule keepsI)
  fix s assume s: "I s"
  let ?names = "local_names (h_name h) registry"
  let ?J = "\<lambda>n. n \<in> set ?names \<and> due_start tk n"
  have "wp (py_fold (reconcile_vm e h tk) ?names (map fst issues, [])) (\<lambda>st s'. (\<forall>n \<in> set (snd st). ?J n) \<and> I s') (\<lambda>_. I) s"
    by (rule wp_fold_accu) (use s stop in \<open>auto intro!: wp_reconcile_vm [OF I]\<close>)
  then have "wp (py_fold (reconcile_vm e h tk) ?names (map fst issues, []))
    (\<lambda>st. wp (case st of (issues', to_start) \<Rightarrow> py_bind (py_fold (scheduled_start e h (t_now tk)) to_start issues') (\<lambda>issues''.
       py_for (dangling issues'' registry) (\<lambda>n. delete_key e (VM_ISSUE_PREFIX @ n)))) (\<lambda>_. I) (\<lambda>_. I)) (\<lambda>_. I) s"
  proof (rule wp_mono)
    fix st :: "string list \<times> string list" and s' assume st: "(\<forall>n \<in> set (snd st). ?J n) \<and> I s'"
    obtain issues' to_start where eq: "st = (issues', to_start)" by (cases st)
    have "keeps I (py_bind (py_fold (scheduled_start e h (t_now tk)) to_start issues') (\<lambda>issues''.
       py_for (dangling issues'' registry) (\<lambda>n. delete_key e (VM_ISSUE_PREFIX @ n))))"
      by (intro keeps_bind keeps_fold keeps_for keeps_scheduled_start [OF I] start owned_base [OF I])
        (use st eq in auto)
    with st eq show "wp (case st of (issues', to_start) \<Rightarrow> py_bind (py_fold (scheduled_start e h (t_now tk)) to_start issues') (\<lambda>issues''.
       py_for (dangling issues'' registry) (\<lambda>n. delete_key e (VM_ISSUE_PREFIX @ n)))) (\<lambda>_. I) (\<lambda>_. I) s'"
      by (auto dest: keepsD)
  qed simp
  then show "wp (reconcile_tables e h tk issues registry) (\<lambda>_. I) (\<lambda>_. I) s"
    by (simp add: reconcile_tables_def wp_bind)
qed

end

text \<open>The status a list of instances gives a name: that of the last instance so named.\<close>

definition status_in :: "dict list \<Rightarrow> string \<Rightarrow> json option" where
  "status_in instances n = map_of (rev (map (\<lambda>i. (get_or_null i ''name'', get_or_null i ''status'')) instances)) (JStr n)"

lemma add_status_spec:
  assumes "sfold add_status instances acc = Inr st"
  shows "map_of st (JStr n) = (case status_in instances n of Some x \<Rightarrow> Some x | None \<Rightarrow> map_of acc (JStr n))"
  using assms
proof (induction instances arbitrary: acc)
  case (Cons i xs)
  then obtain b where b: "add_status i acc = Inr b" "sfold add_status xs b = Inr st"
    unfolding sfold_Cons_Inr by blast
  from b(1) have "b = AList.update (get_or_null i ''name'') (get_or_null i ''status'') acc"
    by (auto simp: add_status_def Let_def split: if_splits)
  with Cons.IH [OF b(2)] show ?case
    by (auto simp: status_in_def map_add_def split: option.splits)
qed (simp add: status_in_def)

context incus_env
begin

definition tick_ok :: "'w \<Rightarrow> tick \<Rightarrow> table \<Rightarrow> table \<Rightarrow> bool" where
  "tick_ok s tk issues registry =
     (t_now tk = clock s \<and> (\<forall>n. map_of (t_statuses tk) (JStr n) = status_in (insts s) n)
      \<and> table_of (view s) VM_GRACE_PREFIX (t_graces tk) \<and> table_of (view s) VM_DESIRED_PREFIX (t_desireds tk)
      \<and> table_of (view s) VM_ISSUE_PREFIX issues \<and> table_of (view s) VMS_PREFIX registry)"

lemma keeps_adds_all_json: "keeps (adds l P) (all_json e p)"
  by (auto simp: all_json_def intro!: keeps_intros keeps_adds_quiet)

lemma adds_none: "adds l (\<lambda>_. False) s \<longleftrightarrow> issued s = l"
  by (auto simp: adds_def list_all_iff)

lemma wp_all_json_issued:
  assumes "\<And>t s'. view s' = view s \<Longrightarrow> issued s' = issued s \<Longrightarrow> table_of (view s) p t \<Longrightarrow> Q t s'"
    and "\<And>x s'. view s' = view s \<Longrightarrow> issued s' = issued s \<Longrightarrow> E x s'"
  shows "wp (all_json e p) Q E s"
proof -
  have "wp (all_json e p) (\<lambda>t s'. view s' = view s \<and> table_of (view s) p t) (\<lambda>_ s'. view s' = view s) s"
    by (rule wp_all_json_seq) auto
  moreover have "wp (all_json e p) (\<lambda>_. adds (issued s) (\<lambda>_. False)) (\<lambda>_. adds (issued s) (\<lambda>_. False)) s"
    by (rule keepsD [OF keeps_adds_all_json adds_refl [OF refl]])
  ultimately show ?thesis
    by (rule wp_mono [OF wp_conj]) (use assms in \<open>auto simp: adds_none\<close>)
qed

lemma wp_incus_list:
  assumes "\<And>s'. view s' = view s \<Longrightarrow> issued s' = issued s @ [list_all_cmd] \<Longrightarrow> Q (insts s) s'"
    and "\<And>x s'. view s' = view s \<Longrightarrow> issued s' = issued s @ [list_all_cmd] \<Longrightarrow> E x s'"
  shows "wp (incus_json h list_all_cmd) Q E s"
proof -
  obtain r s' where run: "h_run h list_all_cmd None s = (r, s')" by (metis surj_pair)
  show ?thesis
  proof (cases r)
    case (Inl x)
    with run run_effect [OF run] assms(2) show ?thesis
      by (simp add: incus_json_def incus_def wp_simps) (simp add: wp_def)
  next
    case (Inr c)
    with run list_rows have "cmd_rc c = 0 \<Longrightarrow> cmd_out c = Rows (insts s)" by blast
    with Inr run run_effect [OF run] assms show ?thesis
      by (simp add: incus_json_def incus_def wp_simps) (simp add: wp_def py_defs split: cmd_output.splits)
  qed
qed

lemma wp_reconcile:
  assumes "\<And>tk issues registry s'. tick_ok s tk issues registry \<Longrightarrow> view s' = view s \<Longrightarrow> issued s' = issued s @ [list_all_cmd] \<Longrightarrow>
      wp (reconcile_tables e h tk issues registry) Q E s'"
    and "\<And>x s'. view s' = view s \<Longrightarrow> issued s' = issued s \<or> issued s' = issued s @ [list_all_cmd] \<Longrightarrow> E x s'"
  shows "wp (reconcile e h) Q E s"
proof -
  have now: "wp (h_now h) Q' E s" if "\<And>s'. view s' = view s \<Longrightarrow> issued s' = issued s \<Longrightarrow> insts s' = insts s \<Longrightarrow> Q' (clock s) s'" for Q'
  proof -
    obtain r s' where run: "h_now h s = (r, s')" by (metis surj_pair)
    with now_effect [OF run] that assms(2) show ?thesis by (cases r) (auto simp: wp_def)
  qed
  show ?thesis
    unfolding reconcile_def wp_bind grace_all_def desired_all_def issues_all_def vms_all_def
  proof (rule now, rule wp_incus_list)
    fix s1 s2 assume s1: "view s1 = view s" "issued s1 = issued s" "insts s1 = insts s"
      and s2: "view s2 = view s1" "issued s2 = issued s1 @ [list_all_cmd]"
    show "wp (py_lift (sfold add_status (insts s1) [])) (\<lambda>statuses. wp (all_json e VM_GRACE_PREFIX) (\<lambda>graces.
        wp (all_json e VM_DESIRED_PREFIX) (\<lambda>desireds. wp (all_json e VM_ISSUE_PREFIX) (\<lambda>issues. wp (all_json e VMS_PREFIX) (\<lambda>registry.
          wp (reconcile_tables e h \<lparr>t_now = clock s, t_statuses = statuses, t_graces = graces, t_desireds = desireds\<rparr> issues registry) Q E)
          E) E) E) E) E s2"
    proof (cases "sfold add_status (insts s1) []")
      case (Inl x)
      with s1 s2 assms(2) show ?thesis by (simp add: wp_lift)
    next
      case (Inr st)
      then have st: "map_of st (JStr n) = status_in (insts s) n" for n
        using add_status_spec [OF Inr] s1(3) by (simp split: option.splits)
      have "wp (all_json e VM_GRACE_PREFIX) (\<lambda>graces.
        wp (all_json e VM_DESIRED_PREFIX) (\<lambda>desireds. wp (all_json e VM_ISSUE_PREFIX) (\<lambda>issues. wp (all_json e VMS_PREFIX) (\<lambda>registry.
          wp (reconcile_tables e h \<lparr>t_now = clock s, t_statuses = st, t_graces = graces, t_desireds = desireds\<rparr> issues registry) Q E)
          E) E) E) E s2"
        by (rule wp_all_json_issued, rule wp_all_json_issued, rule wp_all_json_issued, rule wp_all_json_issued, rule assms(1))
          (use s1 s2 st assms(2) in \<open>auto simp: tick_ok_def\<close>)
      with Inr show ?thesis by (simp add: wp_lift)
    qed
  qed (use assms(2) in auto)
qed

lemma keeps_reconcile:
  assumes "owned_inv I" and "I s"
    and "\<And>s'. view s' = view s \<Longrightarrow> issued s' = issued s \<or> issued s' = issued s @ [list_all_cmd] \<Longrightarrow> I s'"
    and "\<And>tk issues registry n. tick_ok s tk issues registry \<Longrightarrow> n \<in> set (local_names (h_name h) registry) \<Longrightarrow> due_stop tk n
      \<Longrightarrow> keeps I (incus_do h [''stop'', n])"
    and "\<And>tk issues registry n. tick_ok s tk issues registry \<Longrightarrow> n \<in> set (local_names (h_name h) registry) \<Longrightarrow> due_start tk n
      \<Longrightarrow> keeps I (incus_do h [''start'', n])"
  shows "wp (reconcile e h) (\<lambda>_. I) (\<lambda>_. I) s"
  by (rule wp_reconcile, rule keepsD [OF keeps_reconcile_tables [OF assms(1)]]) (use assms in auto)

end

text \<open>When an instance may be stopped or started, in terms of the records and instances at the start of the
  tick.\<close>

definition vm_wants :: "store \<Rightarrow> string \<Rightarrow> int \<Rightarrow> string \<Rightarrow> bool \<Rightarrow> bool" where
  "vm_wants c host now name on =
     (\<exists>rec d. holds_doc c (VMS_PREFIX @ name) rec \<and> map_of rec ''host'' = Some (JStr host)
        \<and> holds_doc c (VM_DESIRED_PREFIX @ name) d \<and> d \<noteq> [] \<and> map_of d ''mode'' \<noteq> Some (JStr ''unmanaged'')
        \<and> desired_on d now = Inr on)"

definition warned_enough :: "store \<Rightarrow> int \<Rightarrow> string \<Rightarrow> bool" where
  "warned_enough c now name =
     (\<exists>g. holds_doc c (VM_GRACE_PREFIX @ name) g \<and> g \<noteq> []
        \<and> (otruthy (map_of g ''immediate'') \<or> warned_at g = None \<or> (\<exists>w. warned_at g = Some (Aware w) \<and> 300000000 \<le> now - w)))"

definition may_power :: "store \<Rightarrow> string \<Rightarrow> int \<Rightarrow> dict list \<Rightarrow> string list \<Rightarrow> bool" where
  "may_power c host now instances cmd =
     (\<exists>n. cmd = [''stop'', n] \<and> vm_wants c host now n False \<and> status_in instances n = Some (JStr ''Running'') \<and> warned_enough c now n
        \<or> cmd = [''start'', n] \<and> vm_wants c host now n True \<and> status_in instances n \<noteq> Some (JStr ''Running''))"

lemma local_names_mem:
  "table_of c VMS_PREFIX registry \<Longrightarrow> n \<in> set (local_names host registry) \<Longrightarrow>
    \<exists>rec. holds_doc c (VMS_PREFIX @ n) rec \<and> map_of rec ''host'' = Some (JStr host)"
  using table_of_mem [of c VMS_PREFIX registry n] by (auto simp: local_names_def)

lemma table_of_lookup: "table_of c p t \<Longrightarrow> map_of t n = Some d \<Longrightarrow> holds_doc c (p @ n) d"
  by (simp add: table_of_def)

context incus_env
begin

lemma tick_wants:
  assumes "tick_ok s tk issues registry" and "n \<in> set (local_names (h_name h) registry)" and "managed tk n"
    and "desired_on (the (map_of (t_desireds tk) n)) (t_now tk) = Inr on"
  shows "vm_wants (view s) (h_name h) (clock s) n on"
proof -
  from assms(3) obtain d where d: "map_of (t_desireds tk) n = Some d" "d \<noteq> []" "map_of d ''mode'' \<noteq> Some (JStr ''unmanaged'')"
    by (auto simp: managed_def no_record_def mode_is_def split: option.splits)
  with assms(1) have "holds_doc (view s) (VM_DESIRED_PREFIX @ n) d" by (auto simp: tick_ok_def intro: table_of_lookup)
  with d assms local_names_mem [of "view s" registry n "h_name h"] show ?thesis
    by (auto simp: vm_wants_def tick_ok_def)
qed

lemma tick_warned:
  assumes "tick_ok s tk issues registry" and "\<not> no_record (map_of (t_graces tk) n)"
    and "stop_due (t_now tk) (the (map_of (t_graces tk) n)) = Inr True"
  shows "warned_enough (view s) (clock s) n"
proof -
  from assms(2) obtain g where g: "map_of (t_graces tk) n = Some g" "g \<noteq> []" by (auto simp: no_record_def)
  with assms(1) have "holds_doc (view s) (VM_GRACE_PREFIX @ n) g" by (auto simp: tick_ok_def intro: table_of_lookup)
  with g assms show ?thesis
    by (auto simp: warned_enough_def stop_due_def SCHEDULED_STOP_GRACE_S_def tick_ok_def split: if_splits option.splits pydt.splits)
qed

lemma tick_may_power:
  assumes "tick_ok s tk issues registry" and "n \<in> set (local_names (h_name h) registry)"
  shows "due_stop tk n \<Longrightarrow> may_power (view s) (h_name h) (clock s) (insts s) [''stop'', n]"
    and "due_start tk n \<Longrightarrow> may_power (view s) (h_name h) (clock s) (insts s) [''start'', n]"
  using tick_wants [OF assms] tick_warned [OF assms(1), of n] assms(1)
  by (auto simp: may_power_def due_stop_def due_start_def is_running_def tick_ok_def)

end

text \<open>C4: a tick of the reconciler changes an instance's power state only when it should: it stops an
  instance only if it is a registered, managed VM of this host that runs although its schedule wants
  it off, and that was warned at least 300 seconds before or marked for an immediate stop; it starts
  only a managed VM of this host that is wanted on and does not run; it stops without force, and
  restarts, creates or deletes nothing. This holds also when the tick fails half-way.\<close>

theorem reconcile_powers_only_when_due:
  assumes "incus_env e view h issued insts clock" and "reconcile e h s = (r, s')"
  shows "\<exists>new. issued s' = issued s @ new
    \<and> (\<forall>c \<in> set new. power c \<longrightarrow> may_power (view s) (h_name h) (clock s) (insts s) c)"
proof -
  let ?P = "\<lambda>c. power c \<longrightarrow> may_power (view s) (h_name h) (clock s) (insts s) c"
  have "allows_others ?P" by (simp add: allows_others_def)
  then have own: "incus_env.owned_inv e h (incus_env.adds issued (issued s) ?P)"
    by (rule incus_env.owned_adds [OF assms(1)])
  have "wp (reconcile e h) (\<lambda>_. incus_env.adds issued (issued s) ?P) (\<lambda>_. incus_env.adds issued (issued s) ?P) s"
    by (rule incus_env.keeps_reconcile [OF assms(1) own])
      (use incus_env.tick_may_power [OF assms(1)] in
        \<open>auto simp: incus_env.adds_def [OF assms(1)] list_all_cmd_def intro!: incus_env.keeps_adds_do [OF assms(1)]\<close>)
  with assms(2) show ?thesis
    by (auto simp: wp_def incus_env.adds_def [OF assms(1)] list_all_iff split: sum.splits)
qed

text \<open>A tick writes only stop-grace markers, issues and usage events: no registration, schedule, user
  or snapshot changes.\<close>

theorem reconcile_writes_own_keys:
  assumes "incus_env e view h issued insts clock" and "reconcile e h s = (r, s')" and "\<not> own_key k"
  shows "view s' k = view s k"
proof -
  let ?I = "incus_env.same_but view own_key (view s)"
  have "wp (reconcile e h) (\<lambda>_. ?I) (\<lambda>_. ?I) s"
    by (rule incus_env.keeps_reconcile [OF assms(1) incus_env.owned_same [OF assms(1)]])
      (auto simp: incus_env.same_but_def [OF assms(1)] intro!: incus_env.keeps_same_do [OF assms(1)])
  with assms(2,3) show ?thesis
    by (auto simp: wp_def incus_env.same_but_def [OF assms(1)] split: sum.splits)
qed

section \<open>No due start or stop is lost\<close>

lemma wp_True [simp]: "wp m (\<lambda>_ _. True) (\<lambda>_ _. True) w"
  by (simp add: wp_def split: prod.splits sum.splits)

text \<open>What one element of a loop establishes and every element keeps holds after the loop.\<close>

lemma wp_fold_kept:
  assumes "\<And>y b w. y \<in> set xs \<Longrightarrow> F b w \<Longrightarrow> wp (f y b) F (\<lambda>_ _. True) w" and "F b w"
  shows "wp (py_fold f xs b) F (\<lambda>_ _. True) w"
  using assms
proof (induction xs arbitrary: b w)
  case (Cons y ys)
  have "wp (f y b) (\<lambda>b'. wp (py_fold f ys b') F (\<lambda>_ _. True)) (\<lambda>_ _. True) w"
    by (rule wp_mono [where Q = F and E = "\<lambda>_ _. True"]) (use Cons in auto)
  then show ?case by (simp add: wp_simps)
qed (simp add: wp_simps)

lemma wp_fold_member:
  fixes f :: "'a \<Rightarrow> 'b \<Rightarrow> ('w, 'b) py" and z :: 'a
  assumes "z \<in> set xs" and "\<And>b w. wp (f z b) F (\<lambda>_ _. True) w"
    and "\<And>y b w. y \<in> set xs \<Longrightarrow> F b w \<Longrightarrow> wp (f y b) F (\<lambda>_ _. True) w"
  shows "wp (py_fold f xs b) F (\<lambda>_ _. True) w"
  using assms
proof (induction xs arbitrary: b w)
  case (Cons y ys b w)
  show ?case
  proof (cases "y = z")
    case True
    have "wp (f y b) (\<lambda>b'. wp (py_fold f ys b') F (\<lambda>_ _. True)) (\<lambda>_ _. True) w"
      by (rule wp_mono [where Q = F and E = "\<lambda>_ _. True"]) (use Cons.prems True in \<open>auto intro!: wp_fold_kept\<close>)
    then show ?thesis by (simp add: wp_simps)
  next
    case False
    have "wp (f y b) (\<lambda>b'. wp (py_fold f ys b') F (\<lambda>_ _. True)) (\<lambda>_ _. True) w"
      by (rule wp_mono [where Q = "\<lambda>_ _. True" and E = "\<lambda>_ _. True"]) (use Cons False in auto)
    then show ?thesis by (simp add: wp_simps)
  qed
qed simp

context incus_env
begin

definition has_issued :: "string list \<Rightarrow> 'w \<Rightarrow> bool" where
  "has_issued c s = (c \<in> set (issued s))"

lemma keeps_issued_run: "keeps (has_issued c) (h_run h args i)"
  by (rule keepsI_run) (auto simp: has_issued_def dest: run_effect)

lemma keeps_issued_do: "keeps (has_issued c) (incus_do h args)"
  by (auto simp: incus_do_def incus_def intro!: keeps_intros keeps_issued_run)

lemma owned_issued: "owned_inv (has_issued c)"
proof -
  have quiet: "keeps (has_issued c) (h_now h)" "keeps (has_issued c) (h_ns h)" "keeps (has_issued c) (h_sleep h n)"
    "keeps (has_issued c) (h_config h)" "keeps (has_issued c) (h_mkdir h p)" "keeps (has_issued c) (h_isdir h p)"
    "keeps (has_issued c) (h_listdir h p)" "keeps (has_issued c) (h_read h p)" "keeps (has_issued c) (h_write h p d)"
    "keeps (has_issued c) (e_client e)" "keeps (has_issued c) (e_get e k)" "keeps (has_issued c) (e_get_prefix e p)"
    "keeps (has_issued c) (e_put e k v)" "keeps (has_issued c) (e_delete e k)" for n p d k v
    unfolding has_issued_def
    by (rule keepsI_run; metis now_effect ns_effect sleep_effect config_effect mkdir_effect isdir_effect listdir_effect
      read_effect write_effect client_issued get_issued prefix_issued put_issued delete_issued)+
  then have "keeps (has_issued c) (put_json e k d)" "keeps (has_issued c) (delete_key e k)" for k d
    by (auto simp: put_json_def delete_key_def intro!: keeps_intros)
  with quiet show ?thesis by (simp add: owned_inv_def stable_def keeps_issued_run)
qed

lemma wp_do_issues:
  "wp (incus_do h args) (\<lambda>_. has_issued args) (\<lambda>_. has_issued args) s"
proof -
  have "wp (h_run h args None) (\<lambda>_. has_issued args) (\<lambda>_. has_issued args) s"
    using run_effect [of args None s] by (auto simp: wp_def has_issued_def split: prod.splits sum.splits)
  then show ?thesis
    unfolding incus_do_def incus_def wp_simps by (rule wp_mono) (auto simp: wp_simps)
qed

lemma wp_then_kept:
  assumes "wp m (\<lambda>_. I) (\<lambda>_. I) s" and "\<And>x. keeps I (f x)"
  shows "wp (py_bind m f) (\<lambda>_. I) (\<lambda>_. I) s"
  unfolding wp_bind using assms(1) by (rule wp_mono) (use assms(2) in \<open>auto dest: keepsD\<close>)

lemma wp_scheduled_stop_issues:
  "wp (scheduled_stop e h now name issues) (\<lambda>_. has_issued [''stop'', name]) (\<lambda>_. has_issued [''stop'', name]) s"
proof -
  let ?I = "has_issued [''stop'', name]"
  note k = keeps_event [OF owned_issued] keeps_clear [OF owned_issued] keeps_record_issue [OF owned_issued]
    keeps_warn [OF owned_issued] owned_base [OF owned_issued] stable_release [OF owned_base(1) [OF owned_issued]]
  have "wp (py_seq (vm_stop e h name False ''scheduler'' False) (py_seq (grace_delete e name)
       (py_seq (release_gpus h name) (clear_issue e issues name)))) (\<lambda>_. ?I) (\<lambda>_. ?I) s"
    unfolding vm_stop_def py_seq_def grace_delete_def
    by (rule wp_then_kept, rule wp_then_kept, rule wp_do_issues) (auto intro!: keeps_intros k)
  then show ?thesis
    unfolding scheduled_stop_def wp_try by (rule wp_mono) (auto dest: keepsD [OF k(3)])
qed

lemma wp_vm_start_issues: "wp (vm_start e h name b i) (\<lambda>_. has_issued [''start'', name]) (\<lambda>_ _. True) s"
proof -
  let ?I = "has_issued [''start'', name]"
  have tail: "wp (py_bind (incus_do h [''start'', name]) (\<lambda>_. py_bind (record_event_from_record e h ''start'' name i b)
       (\<lambda>_. py_when (i = ''cli'') (warn_desired_conflict e h name ''start'')))) (\<lambda>_. ?I) (\<lambda>_. ?I) s'" for s'
    by (rule wp_then_kept [OF wp_do_issues]) (auto intro!: keeps_intros keeps_event keeps_warn owned_issued)
  have tail': "wp (py_bind (incus_do h [''start'', name]) (\<lambda>_. py_bind (record_event_from_record e h ''start'' name i b)
       (\<lambda>_. py_when (i = ''cli'') (warn_desired_conflict e h name ''start'')))) (\<lambda>_. ?I) (\<lambda>_ _. True) s'" for s'
    by (rule wp_mono [OF tail]) auto
  have any: "wp m Q (\<lambda>_ _. True) s'" if "\<And>x s'. Q x s'" for m :: "('w, 'c) py" and Q s'
    using wp_True [of m s'] by (rule wp_mono) (use that in auto)
  show ?thesis
    unfolding vm_start_def py_seq_def wp_bind
    by (rule any, rule any, rule tail' [unfolded wp_bind])
qed

end

context incus_env
begin

lemma keeps_other_issue:
  assumes "y \<noteq> n"
  shows "keeps (same_but (\<lambda>k. k \<noteq> VM_ISSUE_PREFIX @ n) c) (scheduled_start e h now y issues)"
proof -
  let ?I = "same_but (\<lambda>k. k \<noteq> VM_ISSUE_PREFIX @ n) c"
  have ev: "EVENTS_PREFIX @ t \<noteq> VM_ISSUE_PREFIX @ n" for t by (simp add: EVENTS_PREFIX_def VM_ISSUE_PREFIX_def)
  have "keeps ?I (record_event_from_record e h event y i b)" for event i b
    by (auto simp: record_event_from_record_def record_event_def vm_get_def Let_def
        intro!: keeps_intros stable_kv stable_base keeps_same_kv stable_same ev split: option.splits)
  moreover have "keeps ?I (warn_desired_conflict e h y action)" for action
    by (auto simp: warn_desired_conflict_def desired_get_def intro!: keeps_intros stable_kv stable_base stable_same)
  ultimately show ?thesis
    using assms
    by (auto simp: scheduled_start_def vm_start_def clear_issue_def record_issue_def
        intro!: keeps_intros stable_nas stable_ensure_gpus stable_same keeps_same_do keeps_same_kv)
qed

definition start_tried :: "int \<Rightarrow> string \<Rightarrow> 'w \<Rightarrow> bool" where
  "start_tried now n s =
     (has_issued [''start'', n] s \<or> (\<exists>x. holds_doc (view s) (VM_ISSUE_PREFIX @ n) (issue_doc ''start'' x now)))"

lemma wp_scheduled_start_tried: "wp (scheduled_start e h now n issues) (\<lambda>_. start_tried now n) (\<lambda>_ _. True) s"
proof -
  have "wp (record_issue e issues n ''start'' x now) (\<lambda>_. start_tried now n) (\<lambda>_ _. True) s'" for x s'
    unfolding record_issue_def wp_simps
    by (rule wp_put_json_seq) (auto simp: start_tried_def holds_doc_def)
  moreover have "wp (py_seq (vm_start e h n True ''scheduler'') (clear_issue e issues n)) (\<lambda>_. start_tried now n) (\<lambda>_ _. True) s"
  proof -
    have "wp (clear_issue e issues n) (\<lambda>_. has_issued [''start'', n]) (\<lambda>_. has_issued [''start'', n]) s'"
      if "has_issued [''start'', n] s'" for s'
      by (rule keepsD [OF keeps_clear [OF owned_issued] that])
    then have "wp (clear_issue e issues n) (\<lambda>_. start_tried now n) (\<lambda>_ _. True) s'" if "has_issued [''start'', n] s'" for s'
      by (rule wp_mono) (use that in \<open>auto simp: start_tried_def\<close>)
    then show ?thesis
      unfolding wp_seq by (intro wp_mono [OF wp_vm_start_issues]) auto
  qed
  ultimately show ?thesis
    unfolding scheduled_start_def wp_try by (auto elim: wp_mono)
qed

lemma wp_scheduled_start_keeps_tried:
  assumes "start_tried now n s"
  shows "wp (scheduled_start e h now y issues) (\<lambda>_. start_tried now n) (\<lambda>_ _. True) s"
proof (cases "y = n")
  case True
  then show ?thesis using wp_scheduled_start_tried by blast
next
  case False
  from assms show ?thesis
    unfolding start_tried_def
  proof
    assume "has_issued [''start'', n] s"
    from keepsD [OF keeps_scheduled_start [OF owned_issued keeps_issued_do] this]
    show "wp (scheduled_start e h now y issues) (\<lambda>_ s'. has_issued [''start'', n] s'
        \<or> (\<exists>x. holds_doc (view s') (VM_ISSUE_PREFIX @ n) (issue_doc ''start'' x now))) (\<lambda>_ _. True) s"
      by (rule wp_mono) auto
  next
    assume i: "\<exists>x. holds_doc (view s) (VM_ISSUE_PREFIX @ n) (issue_doc ''start'' x now)"
    have "same_but (\<lambda>k. k \<noteq> VM_ISSUE_PREFIX @ n) (view s) s" by (simp add: same_but_def)
    from keepsD [OF keeps_other_issue [OF False] this]
    show "wp (scheduled_start e h now y issues) (\<lambda>_ s'. has_issued [''start'', n] s'
        \<or> (\<exists>x. holds_doc (view s') (VM_ISSUE_PREFIX @ n) (issue_doc ''start'' x now))) (\<lambda>_ _. True) s"
      by (rule wp_mono) (use i in \<open>auto simp: same_but_def holds_doc_def\<close>)
  qed
qed

lemma wp_reconcile_vm_collects:
  "wp (reconcile_vm e h tk y st) (\<lambda>st' _. set (snd st) \<subseteq> set (snd st') \<and> (due_start tk y \<longrightarrow> y \<in> set (snd st'))) (\<lambda>_ _. True) s"
proof -
  obtain issues ts where st: "st = (issues, ts)" by (cases st)
  have any: "wp m Q (\<lambda>_ _. True) s'" if "\<And>x s'. Q x s'" for m :: "('w, 'c) py" and Q s'
    using wp_True [of m s'] by (rule wp_mono) (use that in auto)
  show ?thesis
    unfolding st reconcile_vm_def
    by (auto simp: wp_simps Let_def due_start_def managed_def split: sum.splits intro!: any)
qed

lemma wp_reconcile_vm_stops:
  assumes "due_stop tk n"
  shows "wp (reconcile_vm e h tk n st) (\<lambda>_. has_issued [''stop'', n]) (\<lambda>_ _. True) s"
proof -
  obtain issues ts where st: "st = (issues, ts)" by (cases st)
  have "wp (scheduled_stop e h (t_now tk) n issues) (\<lambda>_. has_issued [''stop'', n]) (\<lambda>_ _. True) s"
    by (rule wp_mono [OF wp_scheduled_stop_issues]) auto
  with assms show ?thesis
    unfolding st reconcile_vm_def
    by (simp add: wp_simps Let_def due_stop_def managed_def converge_off_def)
qed

lemma wp_reconcile_tables_tries:
  assumes "n \<in> set (local_names (h_name h) registry)"
  shows "wp (reconcile_tables e h tk issues registry) (\<lambda>_ s'. (due_stop tk n \<longrightarrow> has_issued [''stop'', n] s')
    \<and> (due_start tk n \<longrightarrow> start_tried (t_now tk) n s')) (\<lambda>_ _. True) s"
proof -
  let ?F = "\<lambda>(st :: string list \<times> string list) s'. (due_stop tk n \<longrightarrow> has_issued [''stop'', n] s') \<and> (due_start tk n \<longrightarrow> n \<in> set (snd st))"
  have "wp (reconcile_vm e h tk n st) ?F (\<lambda>_ _. True) w" for st w
  proof -
    have "due_stop tk n \<Longrightarrow> wp (reconcile_vm e h tk n st) (\<lambda>_. has_issued [''stop'', n]) (\<lambda>_ _. True) w"
      by (rule wp_reconcile_vm_stops)
    then have "wp (reconcile_vm e h tk n st) (\<lambda>_ s'. due_stop tk n \<longrightarrow> has_issued [''stop'', n] s') (\<lambda>_ _. True) w"
      by (cases "due_stop tk n") simp_all
    then show ?thesis by (rule wp_mono [OF wp_conj [OF _ wp_reconcile_vm_collects]]) auto
  qed
  moreover have "wp (reconcile_vm e h tk y st) ?F (\<lambda>_ _. True) w" if "?F st w" for y st w
  proof -
    have "keeps (has_issued [''stop'', n]) (reconcile_vm e h tk y st)"
      by (rule keepsI, rule wp_mono [OF wp_reconcile_vm [OF owned_issued keeps_issued_do, where J = "\<lambda>_. True"]]) auto
    then have "wp (reconcile_vm e h tk y st) (\<lambda>_ s'. due_stop tk n \<longrightarrow> has_issued [''stop'', n] s') (\<lambda>_ _. True) w"
      using that by (cases "due_stop tk n") (auto dest: keepsD elim: wp_mono)
    then show ?thesis
      by (rule wp_mono [OF wp_conj [OF _ wp_reconcile_vm_collects]]) (use that in auto)
  qed
  ultimately have pass1: "wp (py_fold (reconcile_vm e h tk) (local_names (h_name h) registry) (map fst issues, [])) ?F (\<lambda>_ _. True) s"
    by (intro wp_fold_member [OF assms])
  have pass2: "wp (py_fold (scheduled_start e h (t_now tk)) ts is') (\<lambda>_ s'. (due_stop tk n \<longrightarrow> has_issued [''stop'', n] s')
      \<and> (due_start tk n \<longrightarrow> start_tried (t_now tk) n s')) (\<lambda>_ _. True) s1"
    if "due_stop tk n \<longrightarrow> has_issued [''stop'', n] s1" "due_start tk n \<longrightarrow> n \<in> set ts" for ts is' s1
  proof -
    have "keeps (has_issued [''stop'', n]) (py_fold (scheduled_start e h (t_now tk)) ts is')"
      by (intro keeps_fold keeps_scheduled_start owned_issued keeps_issued_do)
    then have "wp (py_fold (scheduled_start e h (t_now tk)) ts is') (\<lambda>_ s'. due_stop tk n \<longrightarrow> has_issued [''stop'', n] s') (\<lambda>_ _. True) s1"
      using that(1) by (cases "due_stop tk n") (auto dest: keepsD elim: wp_mono)
    moreover have "wp (py_fold (scheduled_start e h (t_now tk)) ts is') (\<lambda>_ s'. due_start tk n \<longrightarrow> start_tried (t_now tk) n s') (\<lambda>_ _. True) s1"
      using that(2) wp_fold_member [of n ts "scheduled_start e h (t_now tk)" "\<lambda>_. start_tried (t_now tk) n",
          OF _ wp_scheduled_start_tried wp_scheduled_start_keeps_tried]
      by (cases "due_start tk n") auto
    ultimately show ?thesis by (rule wp_mono [OF wp_conj]) auto
  qed
  have "map_of registry n \<noteq> None"
    using assms unfolding local_names_def map_of_eq_None_iff by (auto simp: rev_image_eqI)
  then have nd: "n \<notin> set (dangling is' registry)" for is' by (auto simp: dangling_def)
  have pass3: "wp (py_for (dangling is' registry) (\<lambda>n. delete_key e (VM_ISSUE_PREFIX @ n)))
      (\<lambda>_ s'. (due_stop tk n \<longrightarrow> has_issued [''stop'', n] s') \<and> (due_start tk n \<longrightarrow> start_tried (t_now tk) n s')) (\<lambda>_ _. True) s2"
    if "(due_stop tk n \<longrightarrow> has_issued [''stop'', n] s2) \<and> (due_start tk n \<longrightarrow> start_tried (t_now tk) n s2)" for is' s2
  proof -
    let ?I = "\<lambda>s'. same_but (\<lambda>k. k \<noteq> VM_ISSUE_PREFIX @ n) (view s2) s'"
    have "keeps ?I (py_for (dangling is' registry) (\<lambda>n. delete_key e (VM_ISSUE_PREFIX @ n)))"
      using nd by (auto intro!: keeps_for keeps_same_kv)
    from keepsD [OF this, of s2]
    have same: "wp (py_for (dangling is' registry) (\<lambda>n. delete_key e (VM_ISSUE_PREFIX @ n))) (\<lambda>_. ?I) (\<lambda>_. ?I) s2"
      by (simp add: same_but_def)
    have "keeps (adds (issued s2) (\<lambda>_. False)) (py_for (dangling is' registry) (\<lambda>n. delete_key e (VM_ISSUE_PREFIX @ n)))"
      by (auto intro!: keeps_for keeps_adds_kv)
    from wp_mono [OF wp_conj [OF same keepsD [OF this adds_refl [OF refl]]]] that show ?thesis
      by (auto simp: adds_none same_but_def start_tried_def has_issued_def holds_doc_def)
  qed
  show ?thesis
    unfolding reconcile_tables_def wp_bind
  proof (rule wp_mono [OF pass1])
    fix st :: "string list \<times> string list" and w
    assume F: "?F st w"
    show "wp (case st of (issues', to_start) \<Rightarrow> py_bind (py_fold (scheduled_start e h (t_now tk)) to_start issues')
        (\<lambda>issues''. py_for (dangling issues'' registry) (\<lambda>n. delete_key e (VM_ISSUE_PREFIX @ n))))
      (\<lambda>_ s'. (due_stop tk n \<longrightarrow> has_issued [''stop'', n] s') \<and> (due_start tk n \<longrightarrow> start_tried (t_now tk) n s')) (\<lambda>_ _. True) w"
      unfolding prod.case_eq_if wp_bind by (rule wp_mono [OF pass2]) (use F pass3 in blast)+
  qed
qed

end

lemma table_of_some:
  "table_of c p t \<Longrightarrow> holds_doc c (p @ n) d \<Longrightarrow> n \<noteq> [] \<Longrightarrow> CHR ''/'' \<notin> set n \<Longrightarrow> map_of t n = Some d"
  by (simp add: table_of_def)

context incus_env
begin

lemma tick_complete:
  assumes tk: "tick_ok s tk issues registry" and n: "n \<noteq> []" "CHR ''/'' \<notin> set n"
    and w: "vm_wants (view s) (h_name h) (clock s) n on"
  shows "n \<in> set (local_names (h_name h) registry)"
    and "\<not> on \<Longrightarrow> status_in (insts s) n = Some (JStr ''Running'') \<Longrightarrow> warned_enough (view s) (clock s) n \<Longrightarrow> due_stop tk n"
    and "on \<Longrightarrow> status_in (insts s) n \<noteq> Some (JStr ''Running'') \<Longrightarrow> due_start tk n"
proof -
  from w obtain rec d where r: "holds_doc (view s) (VMS_PREFIX @ n) rec" "map_of rec ''host'' = Some (JStr (h_name h))"
    "holds_doc (view s) (VM_DESIRED_PREFIX @ n) d" "d \<noteq> []" "map_of d ''mode'' \<noteq> Some (JStr ''unmanaged'')"
    "desired_on d (clock s) = Inr on" by (auto simp: vm_wants_def)
  have reg: "map_of registry n = Some rec" and d: "map_of (t_desireds tk) n = Some d"
    using tk r(1,3) n by (auto simp: tick_ok_def intro: table_of_some)
  show "n \<in> set (local_names (h_name h) registry)"
    using r(2) map_of_SomeD [OF reg] by (simp add: local_names_def) force
  have man: "managed tk n" using d r by (simp add: managed_def no_record_def mode_is_def)
  show "due_stop tk n" if o: "\<not> on" "status_in (insts s) n = Some (JStr ''Running'')" "warned_enough (view s) (clock s) n"
  proof -
    from o(3) obtain g where g: "holds_doc (view s) (VM_GRACE_PREFIX @ n) g" "g \<noteq> []"
      "otruthy (map_of g ''immediate'') \<or> warned_at g = None \<or> (\<exists>w. warned_at g = Some (Aware w) \<and> 300000000 \<le> clock s - w)"
      by (auto simp: warned_enough_def)
    have "map_of (t_graces tk) n = Some g"
      using tk g(1) n by (auto simp: tick_ok_def intro: table_of_some)
    with man d r g o tk show ?thesis
      by (auto simp: due_stop_def tick_ok_def is_running_def no_record_def stop_due_def SCHEDULED_STOP_GRACE_S_def)
  qed
  show "due_start tk n" if "on" "status_in (insts s) n \<noteq> Some (JStr ''Running'')"
    using man d r that tk by (simp add: due_start_def tick_ok_def is_running_def)
qed

end

text \<open>C5: a tick that completes loses no due stop or start: an instance whose stop is due is told to stop,
  and one that is wanted on and does not run is told to start, or its failed start is recorded as an
  issue that is still there when the tick ends, whatever happens to the other instances.\<close>

theorem reconcile_loses_nothing:
  assumes "incus_env e view h issued insts clock" and "reconcile e h s = (Inr (), s')"
    and n: "n \<noteq> []" "CHR ''/'' \<notin> set n" and w: "vm_wants (view s) (h_name h) (clock s) n on"
    and status: "(status_in (insts s) n = Some (JStr ''Running'')) = (\<not> on)"
    and warned: "\<not> on \<longrightarrow> warned_enough (view s) (clock s) n"
  shows "if on then [''start'', n] \<in> set (issued s') \<or> (\<exists>x. holds_doc (view s') (VM_ISSUE_PREFIX @ n) (issue_doc ''start'' x (clock s)))
    else [''stop'', n] \<in> set (issued s')"
proof -
  note env = assms(1)
  let ?G = "\<lambda>s'. if on then incus_env.start_tried view issued (clock s) n s' else [''stop'', n] \<in> set (issued s')"
  have "wp (reconcile e h) (\<lambda>_. ?G) (\<lambda>_ _. True) s"
  proof (rule incus_env.wp_reconcile [OF env])
    fix tk issues registry s1
    assume tk: "incus_env.tick_ok view insts clock s tk issues registry"
    note c = incus_env.tick_complete [OF env tk n w]
    have now: "t_now tk = clock s" using tk by (simp add: incus_env.tick_ok_def [OF env])
    show "wp (reconcile_tables e h tk issues registry) (\<lambda>_. ?G) (\<lambda>_ _. True) s1"
      by (rule wp_mono [OF incus_env.wp_reconcile_tables_tries [OF env c(1)]])
        (use c(2,3) status warned now in \<open>auto simp: incus_env.has_issued_def [OF env]\<close>)
  qed simp
  with assms(2) show ?thesis
    by (auto simp: wp_def incus_env.start_tried_def [OF env] incus_env.has_issued_def [OF env] split: if_splits)
qed

definition sim_inst :: "string \<Rightarrow> string \<Rightarrow> dict \<Rightarrow> dict" where
  "sim_inst name st devices =
     [(''name'', JStr name), (''type'', JStr ''virtual-machine''), (''status'', JStr st), (''devices'', JObj devices)]"

definition vm_on_nv1 :: dict where
  "vm_on_nv1 = [(''owner'', JStr ''ann''), (''host'', JStr ''nv1''), (''gpus'', JInt 0)]"

definition tick_world :: sim where
  "tick_world = \<lparr>sim_kv = \<lparr>mem_data =
      [(VMS_PREFIX @ ''a'', Doc vm_on_nv1, 1), (VMS_PREFIX @ ''b'', Doc vm_on_nv1, 2),
       (VM_DESIRED_PREFIX @ ''a'', Doc [(''mode'', JStr ''off'')], 3),
       (VM_DESIRED_PREFIX @ ''b'', Doc [(''mode'', JStr ''on'')], 4),
       (VM_GRACE_PREFIX @ ''a'', Doc [(''immediate'', JBool True)], 5)], mem_rev = 5\<rparr>,
     sim_log = [],
     sim_insts = [sim_inst ''a'' ''Running'' [],
                  sim_inst ''b'' ''Stopped'' []],
     sim_clock = 0,
     sim_files = []\<rparr>"

lemma tick_outcome:
  "case reconcile sim_etcd sim_host tick_world of (r, w) \<Rightarrow> r = Inr () \<and> [''stop'', ''a''] \<in> set (sim_log w)"
  by code_simp

lemma tick_completes: "fst (reconcile sim_etcd sim_host tick_world) = Inr ()"
  and tick_stops_a: "[''stop'', ''a''] \<in> set (sim_log (snd (reconcile sim_etcd sim_host tick_world)))"
  using tick_outcome by (simp_all add: prod.case_eq_if)

lemma tick_run: "reconcile sim_etcd sim_host tick_world = (Inr (), snd (reconcile sim_etcd sim_host tick_world))"
  unfolding tick_completes [symmetric] prod.collapse ..

lemma sample_tick_wants:
  "vm_wants (sim_view tick_world) (h_name sim_host) (sim_clock tick_world) ''a'' False"
  "vm_wants (sim_view tick_world) (h_name sim_host) (sim_clock tick_world) ''b'' True"
proof -
  have "holds_doc (sim_view tick_world) (VMS_PREFIX @ ''a'') vm_on_nv1" "holds_doc (sim_view tick_world) (VMS_PREFIX @ ''b'') vm_on_nv1"
    "holds_doc (sim_view tick_world) (VM_DESIRED_PREFIX @ ''a'') [(''mode'', JStr ''off'')]"
    "holds_doc (sim_view tick_world) (VM_DESIRED_PREFIX @ ''b'') [(''mode'', JStr ''on'')]"
    by (simp_all add: holds_doc_def sim_view_def mem_view_def tick_world_def VMS_PREFIX_def VM_DESIRED_PREFIX_def)
  then show "vm_wants (sim_view tick_world) (h_name sim_host) (sim_clock tick_world) ''a'' False"
    "vm_wants (sim_view tick_world) (h_name sim_host) (sim_clock tick_world) ''b'' True"
    by (fastforce simp: vm_wants_def sim_host_def vm_on_nv1_def desired_on_def)+
qed

theorem reconcile_loses_nothing_witness:
  "[''stop'', ''a''] \<in> set (sim_log (snd (reconcile sim_etcd sim_host tick_world)))
   \<and> ([''start'', ''b''] \<in> set (sim_log (snd (reconcile sim_etcd sim_host tick_world)))
      \<or> (\<exists>x. holds_doc (sim_view (snd (reconcile sim_etcd sim_host tick_world))) (VM_ISSUE_PREFIX @ ''b'') (issue_doc ''start'' x 0)))"
proof -
  have st: "status_in (sim_insts tick_world) ''a'' = Some (JStr ''Running'')" "status_in (sim_insts tick_world) ''b'' = Some (JStr ''Stopped'')"
    and now: "sim_clock tick_world = 0"
    by code_simp+
  have "holds_doc (sim_view tick_world) (VM_GRACE_PREFIX @ ''a'') [(''immediate'', JBool True)]"
    by (simp add: holds_doc_def sim_view_def mem_view_def tick_world_def VMS_PREFIX_def VM_DESIRED_PREFIX_def VM_GRACE_PREFIX_def)
  then have "warned_enough (sim_view tick_world) (sim_clock tick_world) ''a''"
    unfolding warned_enough_def by (rule exI [of _ "[(''immediate'', JBool True)]", OF conjI]) simp
  with st now show ?thesis
    using reconcile_loses_nothing [OF sim.incus_env_axioms, OF tick_run _ _ sample_tick_wants(1)]
      reconcile_loses_nothing [OF sim.incus_env_axioms, OF tick_run _ _ sample_tick_wants(2)]
    by simp
qed

theorem reconcile_powers_only_when_due_witness:
  "may_power (sim_view tick_world) ''nv1'' 0 (sim_insts tick_world) [''stop'', ''a'']"
proof -
  have "sim_log tick_world = []" "sim_clock tick_world = 0" "h_name sim_host = ''nv1''"
    by (simp_all add: tick_world_def sim_host_def)
  with reconcile_powers_only_when_due [OF sim.incus_env_axioms, OF tick_run] tick_stops_a show ?thesis by fastforce
qed

theorem reconcile_writes_own_keys_witness:
  "sim_view (snd (reconcile sim_etcd sim_host tick_world)) (VMS_PREFIX @ ''a'') = sim_view tick_world (VMS_PREFIX @ ''a'')"
proof -
  have "\<not> own_key (VMS_PREFIX @ ''a'')"
    by (simp add: own_key_def startswith_def VMS_PREFIX_def VM_GRACE_PREFIX_def VM_ISSUE_PREFIX_def EVENTS_PREFIX_def)
  from reconcile_writes_own_keys [OF sim.incus_env_axioms, OF tick_run this] show ?thesis .
qed

end
