(* ===== verification/YVmLife.thy ===== *)
theory YVmLife
  imports YVm
begin

text \<open>
  Correctness of the life-cycle operations of \<open>utils/vm_manager.py\<close> defined in the theory of VMs: what
  \<open>vm_launch\<close> and \<open>vm_destroy\<close> leave in etcd on every outcome and which commands they issue, and which
  addresses \<open>pin_existing_vms\<close> hands out.
\<close>

section \<open>Launching and destroying\<close>

context incus_env
begin

lemma stable_exists: "stable I \<Longrightarrow> keeps I (instance_exists h name)"
  by (auto simp: instance_exists_def intro!: stable_intros)

lemma stable_dns: "stable I \<Longrightarrow> keeps I (sync_dns_records h)"
  by (auto simp: sync_dns_records_def managed_bridges_def sync_bridge_def list_all_cmd_def Let_def intro!: stable_intros)

lemma stable_push: "stable I \<Longrightarrow> keeps I (push_file h inst path content owner)"
  by (auto simp: push_file_def intro!: stable_intros)

lemma stable_probe: "stable I \<Longrightarrow> keeps I (wait_probe n h name deadline)"
  by (induction n) (auto intro!: stable_intros)

lemma stable_wait: "stable I \<Longrightarrow> keeps I (wait_agent h name timeout)"
  by (auto simp: wait_agent_def intro!: stable_intros stable_probe)

lemma stable_bastion_sync: "stable I \<Longrightarrow> keeps I (bastion_sync e h)"
  by (auto simp: bastion_sync_def bastion_authorized_keys_def users_all_def owner_vms_def vms_all_def read_file_def Let_def
      intro!: stable_intros stable_exists stable_push)

lemma stable_provision: "stable I \<Longrightarrow> keeps I (provision_instance e h name typ gpus user)"
  by (auto simp: provision_instance_def ensure_sshd_def inject_owner_keys_def wait_cloud_init_def guest_login_user_def
      verify_guest_gpus_def Let_def intro!: stable_intros stable_wait stable_push stable_bastion_sync)

lemma keeps_same_create: "keeps (same_but K c) (create_instance h name typ gpus cpu mem img)"
proof -
  have gpus: "keeps (same_but K c) (add_gpu_devices h name i gs)" for i gs
    by (induction gs arbitrary: i) (auto intro!: keeps_intros keeps_same_do)
  have pick: "keeps (same_but K c) (pick_vm_ip h None None)"
    by (auto simp: pick_vm_ip_def occupied_ips_def pinned_ips_def list_all_cmd_def intro!: stable_intros stable_same)
  show ?thesis
    by (auto simp: create_instance_def pin_instance_ip_def
        intro!: stable_intros keeps_same_do gpus pick stable_select stable_dns stable_nas stable_same)
qed

text \<open>Steps that leave etcd alone, and the recording of an event.\<close>

lemma wp_quiet:
  assumes "keeps (same_but (\<lambda>_. False) (view s)) m"
    and "\<And>x s'. view s' = view s \<Longrightarrow> Q x s'" and "\<And>x s'. view s' = view s \<Longrightarrow> E x s'"
  shows "wp m Q E s"
proof -
  have "same_but (\<lambda>_. False) (view s) s" by (simp add: same_but_def)
  from keepsD [OF assms(1) this] show ?thesis
    by (rule wp_mono) (auto simp: same_but_def intro!: assms(2,3) ext)
qed

abbreviation event_key :: "string \<Rightarrow> bool" where
  "event_key k \<equiv> startswith k EVENTS_PREFIX"

lemma wp_record_event:
  assumes "\<And>s'. same_but event_key (view s) s' \<Longrightarrow> Q () s'"
  shows "wp (record_event e h event name owner gpus initiator billable) Q E s"
proof -
  have "keeps (same_but event_key (view s)) (py_bind (h_now h) (\<lambda>now. py_bind (h_ns h) (\<lambda>ns.
      put_json e (EVENTS_PREFIX @ nat_str ns @ ''-'' @ name)
        (event_doc now name (h_name h) event owner gpus initiator billable))))"
    by (auto intro!: keeps_intros keeps_same_kv stable_base stable_same)
  from keepsD [OF this, of s] have "wp (py_bind (h_now h) (\<lambda>now. py_bind (h_ns h) (\<lambda>ns.
      put_json e (EVENTS_PREFIX @ nat_str ns @ ''-'' @ name)
        (event_doc now name (h_name h) event owner gpus initiator billable))))
      (\<lambda>_. same_but event_key (view s)) (\<lambda>_. same_but event_key (view s)) s"
    by (simp add: same_but_def)
  then show ?thesis
    unfolding record_event_def wp_try wp_return by (rule wp_mono) (simp_all add: assms)
qed

end

definition launch_failed :: "store \<Rightarrow> store \<Rightarrow> string \<Rightarrow> string \<Rightarrow> int \<Rightarrow> string \<Rightarrow> bool" where
  "launch_failed c c' host owner gpus name =
     (c' (VMS_PREFIX @ name) = c (VMS_PREFIX @ name)
      \<or> (\<exists>typ now. holds_doc c' (VMS_PREFIX @ name) (instance_doc owner gpus typ host now ''provisioning'')))"

definition launch_done :: "store \<Rightarrow> store \<Rightarrow> string \<Rightarrow> string \<Rightarrow> int \<Rightarrow> string \<Rightarrow> bool" where
  "launch_done c c' host owner gpus name =
     ((\<exists>user. holds_doc c (USERS_PREFIX @ owner) user \<and> otruthy (map_of user ''ssh_keys''))
      \<and> \<not> (\<exists>d. d \<noteq> [] \<and> holds_doc c (VMS_PREFIX @ name) d)
      \<and> (\<exists>typ now. holds_doc c' (VMS_PREFIX @ name) (instance_doc owner gpus typ host now ''ready'')))"

lemma not_event_vms: "\<not> startswith (VMS_PREFIX @ n) EVENTS_PREFIX"
  by (simp add: startswith_def VMS_PREFIX_def EVENTS_PREFIX_def)

context incus_env
begin

lemma wp_register_instance:
  assumes "view s = c" and "\<exists>user. holds_doc c (USERS_PREFIX @ owner) user \<and> otruthy (map_of user ''ssh_keys'')"
    and "\<not> (\<exists>d. d \<noteq> [] \<and> holds_doc c (VMS_PREFIX @ name) d)"
  shows "wp (register_instance e h name owner gpus t billable user)
   (\<lambda>_ s'. launch_done c (view s') (h_name h) owner gpus name) (\<lambda>_ s'. launch_failed c (view s') (h_name h) owner gpus name) s"
proof -
  have failed: "launch_failed c (view s2) (h_name h) owner gpus name"
    if "holds_doc (view s2) (VMS_PREFIX @ name) (instance_doc owner gpus t (h_name h) now ''provisioning'')" for s2 now
    using that by (auto simp: launch_failed_def)
  have prov: "wp (py_seq (provision_instance e h name t gpus user)
       (put_json e (VMS_PREFIX @ name) (instance_doc owner gpus t (h_name h) now ''ready'')))
     (\<lambda>_ s'. launch_done c (view s') (h_name h) owner gpus name) (\<lambda>_ s'. launch_failed c (view s') (h_name h) owner gpus name) s1"
    if "holds_doc (view s1) (VMS_PREFIX @ name) (instance_doc owner gpus t (h_name h) now ''provisioning'')" for s1 now
    unfolding wp_seq
    by (rule wp_quiet [OF stable_provision [OF stable_same]], rule wp_put_json_seq)
      (use assms that in \<open>auto simp: launch_done_def failed holds_doc_def\<close>)
  have "wp (put_json e (VMS_PREFIX @ name) (instance_doc owner gpus t (h_name h) now ''provisioning''))
      (\<lambda>_. wp (py_seq (record_event e h ''launch'' name (JStr owner) (JInt gpus) ''cli'' billable)
     (py_seq (provision_instance e h name t gpus user)
        (put_json e (VMS_PREFIX @ name) (instance_doc owner gpus t (h_name h) now ''ready''))))
       (\<lambda>_ s'. launch_done c (view s') (h_name h) owner gpus name) (\<lambda>_ s'. launch_failed c (view s') (h_name h) owner gpus name))
      (\<lambda>_ s'. launch_failed c (view s') (h_name h) owner gpus name) s1" for s1 now
    unfolding wp_seq [of "record_event _ _ _ _ _ _ _ _"]
    by (rule wp_put_json_seq, rule wp_record_event)
      (auto simp: wp_bind wp_lift same_but_def holds_doc_def not_event_vms
        intro!: failed prov [unfolded holds_doc_def] split: sum.splits)
  then show ?thesis
    unfolding register_instance_def wp_bind [of "h_now h"] wp_seq [of "put_json _ _ _"]
    by (intro wp_quiet [OF stable_base(2) [OF stable_same]]) (use assms(1) in \<open>auto simp: launch_failed_def\<close>)
qed

lemma wp_name_taken:
  assumes "view s = c" and "\<And>s'. view s' = c \<Longrightarrow> Q True s'"
    and "\<And>s'. view s' = c \<Longrightarrow> \<not> (\<exists>d. d \<noteq> [] \<and> holds_doc c (VMS_PREFIX @ name) d) \<Longrightarrow> Q False s'"
    and "\<And>x s'. view s' = c \<Longrightarrow> E x s'"
  shows "wp (name_taken e h name) Q E s"
proof -
  have "wp (instance_exists h name) Q E s1"
    if "view s1 = c" "\<not> (\<exists>d. d \<noteq> [] \<and> holds_doc c (VMS_PREFIX @ name) d)" for s1
  proof (rule wp_quiet [OF stable_exists [OF stable_same]])
    fix x s' assume "view s' = view s1"
    with that assms(2,3) show "Q x s'" by (cases x) auto
  qed (use that assms(4) in auto)
  moreover have "\<not> (\<exists>d. d \<noteq> [] \<and> holds_doc c (VMS_PREFIX @ name) d)" if "holds_doc c (VMS_PREFIX @ name) []"
    using that by (auto simp: holds_doc_def)
  ultimately show ?thesis
    unfolding name_taken_def vm_get_def wp_bind
    by (intro wp_get_json_any) (use assms(1,2,4) in \<open>auto simp: no_record_def wp_return\<close>)
qed

lemma wp_vm_launch:
  "wp (vm_launch e h name owner gpus cpu mem img instance_type billable)
     (\<lambda>_ s'. launch_done (view s) (view s') (h_name h) owner gpus name)
     (\<lambda>_ s'. launch_failed (view s) (view s') (h_name h) owner gpus name) s"
proof -
  let ?Q = "\<lambda>_ s'. launch_done (view s) (view s') (h_name h) owner gpus name"
  let ?E = "\<lambda>_ s'. launch_failed (view s) (view s') (h_name h) owner gpus name"
  have failed: "launch_failed (view s) (view s') (h_name h) owner gpus name" if "view s' = view s" for s'
    using that by (simp add: launch_failed_def)
  have kind: "keeps (same_but K c) (case instance_type of
          None \<Rightarrow> default_instance_type h
        | Some t \<Rightarrow> if t = ''auto'' then default_instance_type h else py_return t)" for K c
    by (auto simp: default_instance_type_def host_config_value_def intro!: keeps_intros stable_base stable_same split: option.splits)
  have new: "wp (py_seq (create_instance h name t gpus cpu mem i) (register_instance e h name owner gpus t billable user)) ?Q ?E s1"
    if "view s1 = view s" "holds_doc (view s) (USERS_PREFIX @ owner) user" "otruthy (map_of user ''ssh_keys'')"
      "\<not> (\<exists>d. d \<noteq> [] \<and> holds_doc (view s) (VMS_PREFIX @ name) d)" for t i user s1
    unfolding wp_seq
    by (rule wp_quiet [OF keeps_same_create], rule wp_register_instance) (use that failed in auto)
  let ?body = "\<lambda>t i u. if no_record u \<or> \<not> otruthy (map_of (the u) ''ssh_keys'')
      then py_raise (ValueError ''no SSH keys registered'')
      else py_bind (name_taken e h name) (\<lambda>taken.
        if taken then py_raise (ValueError ''already exists'')
        else py_seq (create_instance h name t gpus cpu mem i) (register_instance e h name owner gpus t billable (the u)))"
  have keyed: "wp (?body t i u) ?Q ?E s1"
    if "view s1 = view s" "\<And>d. u = Some d \<Longrightarrow> holds_doc (view s) (USERS_PREFIX @ owner) d" for u t i s1
  proof (cases "no_record u \<or> \<not> otruthy (map_of (the u) ''ssh_keys'')")
    case False
    then obtain d where "u = Some d" "otruthy (map_of d ''ssh_keys'')" by (auto simp: no_record_def)
    with that False show ?thesis
      by (simp only: if_False wp_bind) (intro wp_name_taken; auto simp: wp_raise intro!: failed new)
  qed (use that failed in \<open>simp add: wp_raise\<close>)
  have body: "wp (py_bind (user_get e owner) (?body t i)) ?Q ?E s1" if "view s1 = view s" for t i s1
    unfolding user_get_def wp_bind [of "get_json _ _"]
    by (rule wp_get_json_any, rule keyed) (use that in \<open>auto intro: failed\<close>)
  show ?thesis
    unfolding vm_launch_def
    by (auto simp: wp_raise failed wp_bind [of "case_option _ _ _"] intro!: wp_quiet [OF kind] body)
qed

lemma keeps_if: "keeps I m \<Longrightarrow> keeps I n \<Longrightarrow> keeps I (if b then m else n)"
  by simp

lemma keeps_same_launch:
  "keeps (same_but (\<lambda>k. k = VMS_PREFIX @ name \<or> event_key k) c) (vm_launch e h name owner gpus cpu mem img instance_type billable)"
  by (auto simp: vm_launch_def register_instance_def record_event_def name_taken_def user_get_def vm_get_def
      default_instance_type_def host_config_value_def
      intro!: keeps_if stable_intros keeps_same_create keeps_same_kv stable_provision stable_exists stable_same split: option.splits)

end

text \<open>C25: a launch registers the VM as ready only when it succeeds, for an owner with keys and under a name
  that had no registration; a launch that fails leaves the registration as it was or marked as
  provisioning; nothing else in etcd changes but the event log.\<close>

theorem launch_registers_when_ready:
  assumes "incus_env e view h issued insts clock"
    and "vm_launch e h name owner gpus cpu mem img instance_type billable s = (r, s')"
  shows "(case r of Inr _ \<Rightarrow> launch_done (view s) (view s') (h_name h) owner gpus name
      | Inl _ \<Rightarrow> launch_failed (view s) (view s') (h_name h) owner gpus name)
    \<and> (\<forall>k. k = VMS_PREFIX @ name \<or> startswith k EVENTS_PREFIX \<or> view s' k = view s k)"
proof -
  have "incus_env.same_but view (\<lambda>k. k = VMS_PREFIX @ name \<or> startswith k EVENTS_PREFIX) (view s) s'"
    using incus_env.keeps_same_launch [OF assms(1)] _ assms(2)
    by (rule keeps_run) (simp add: incus_env.same_but_def [OF assms(1)])
  with incus_env.wp_vm_launch [OF assms(1), of name owner gpus cpu mem img instance_type billable s] assms(2) show ?thesis
    by (auto simp: wp_def incus_env.same_but_def [OF assms(1)] split: sum.splits)
qed


definition gone :: "store \<Rightarrow> string \<Rightarrow> bool" where
  "gone c name = (c (VMS_PREFIX @ name) = None \<and> c (VM_DESIRED_PREFIX @ name) = None \<and> c (VM_GRACE_PREFIX @ name) = None
     \<and> c (VM_ISSUE_PREFIX @ name) = None)"

definition vm_key :: "string \<Rightarrow> string \<Rightarrow> bool" where
  "vm_key name k = (k = VMS_PREFIX @ name \<or> k = VM_DESIRED_PREFIX @ name \<or> k = VM_GRACE_PREFIX @ name \<or> k = VM_ISSUE_PREFIX @ name
     \<or> startswith k EVENTS_PREFIX)"

context incus_env
begin

lemma wp_vm_destroy: "wp (vm_destroy e h name) (\<lambda>_ s'. gone (view s') name) (\<lambda>_ _. True) s"
proof -
  have skip: "wp m Q (\<lambda>_ _. True) s'" if "\<And>x s'. Q x s'" for m :: "('w, 'c) py" and Q s'
    using wp_True [of m s'] by (rule wp_mono) (use that in auto)
  have deletes: "wp (py_seq (delete_key e (VMS_PREFIX @ name)) (py_seq (desired_delete e name) (py_seq (grace_delete e name)
      (py_seq (delete_key e (VM_ISSUE_PREFIX @ name)) (bastion_sync e h))))) (\<lambda>_ s'. gone (view s') name) (\<lambda>_ _. True) s'" for s'
    unfolding wp_seq desired_delete_def grace_delete_def
    by (rule wp_delete_key_seq, rule wp_delete_key_seq, rule wp_delete_key_seq, rule wp_delete_key_seq,
        rule wp_quiet [OF stable_bastion_sync [OF stable_same]])
      (simp_all add: gone_def)
  show ?thesis
    unfolding vm_destroy_def wp_bind [of "instance_exists _ _"] wp_seq [of "py_when _ _"]
      wp_seq [of "record_event_from_record _ _ _ _ _ _"] wp_seq [of "sync_dns_records _"]
    by (rule skip, rule skip, rule skip, rule skip, rule deletes)
qed

lemma keeps_destroy:
  assumes "stable I" and "\<And>k d. vm_key name k \<Longrightarrow> keeps I (put_json e k d)" and "\<And>k. vm_key name k \<Longrightarrow> keeps I (delete_key e k)"
    and "keeps I (incus_do h [''stop'', name])" and "keeps I (incus_do h [''delete'', name])"
  shows "keeps I (vm_destroy e h name)"
  using assms
  by (auto simp: vm_destroy_def record_event_from_record_def record_event_def vm_get_def desired_delete_def grace_delete_def
      vm_key_def Let_def intro!: keeps_if stable_intros stable_exists stable_dns stable_bastion_sync split: option.splits)

end

text \<open>C26: destroying a VM removes its registration, its desired state, its grace marker and its issue, and
  changes nothing else in etcd but the event log; a VM is only ever stopped cleanly before it is deleted:
  the commands that act on instances are a stop and a delete of this VM, without force.\<close>

theorem destroy_removes_every_trace:
  assumes "incus_env e view h issued insts clock" and "vm_destroy e h name s = (r, s')"
  shows "(r = Inr () \<longrightarrow> gone (view s') name) \<and> (\<forall>k. vm_key name k \<or> view s' k = view s k)
    \<and> (\<exists>new. issued s' = issued s @ new \<and> (\<forall>c \<in> set new. power c \<longrightarrow> c = [''stop'', name] \<or> c = [''delete'', name]))"
proof -
  note env = assms(1)
  let ?P = "\<lambda>c. power c \<longrightarrow> c = [''stop'', name] \<or> c = [''delete'', name]"
  have "keeps (incus_env.same_but view (vm_key name) (view s)) (vm_destroy e h name)"
    by (rule incus_env.keeps_destroy [OF env])
      (simp_all add: incus_env.stable_same [OF env] incus_env.keeps_same_kv [OF env] incus_env.keeps_same_do [OF env])
  from keeps_run [OF this _ assms(2)] have "incus_env.same_but view (vm_key name) (view s) s'"
    by (simp add: incus_env.same_but_def [OF env])
  moreover have "keeps (incus_env.adds issued (issued s) ?P) (vm_destroy e h name)"
    by (rule incus_env.keeps_destroy [OF env])
      (simp_all add: incus_env.stable_adds [OF env] allows_others_def incus_env.keeps_adds_kv [OF env] incus_env.keeps_adds_do [OF env])
  from keeps_run [OF this incus_env.adds_refl [OF env refl] assms(2)]
  have "\<exists>new. issued s' = issued s @ new \<and> (\<forall>c \<in> set new. ?P c)"
    by (auto simp: incus_env.adds_def [OF env] list_all_iff)
  moreover have "r = Inr () \<longrightarrow> gone (view s') name"
    using incus_env.wp_vm_destroy [OF env, of name s] assms(2) by (auto simp: wp_def)
  ultimately show ?thesis by (auto simp: incus_env.same_but_def [OF env])
qed

theorem destroy_removes_every_trace_witness:
  "gone (sim_view (snd (vm_destroy sim_etcd sim_host ''a'' tick_world))) ''a''
   \<and> sim_view (snd (vm_destroy sim_etcd sim_host ''a'' tick_world)) (VMS_PREFIX @ ''b'') = sim_view tick_world (VMS_PREFIX @ ''b'')"
proof -
  have "fst (vm_destroy sim_etcd sim_host ''a'' tick_world) = Inr ()" by code_simp
  then have run: "vm_destroy sim_etcd sim_host ''a'' tick_world = (Inr (), snd (vm_destroy sim_etcd sim_host ''a'' tick_world))"
    by (metis prod.collapse)
  have "\<not> vm_key ''a'' (VMS_PREFIX @ ''b'')"
    by (simp add: vm_key_def not_event_vms VMS_PREFIX_def VM_DESIRED_PREFIX_def VM_GRACE_PREFIX_def VM_ISSUE_PREFIX_def EVENTS_PREFIX_def startswith_def)
  then show ?thesis
    using destroy_removes_every_trace [OF sim.incus_env_axioms, OF run] by blast
qed

text \<open>A host with a user who has a key and no instance.\<close>

definition launch_world :: sim where
  "launch_world = \<lparr>sim_kv = \<lparr>mem_data = [(USERS_PREFIX @ ''ann'', Doc [(''ssh_keys'', JList [JStr ''ssh-rsa K'']) ], 1)], mem_rev = 1\<rparr>,
     sim_log = [], sim_insts = [], sim_clock = 0, sim_files = []\<rparr>"

theorem launch_registers_when_ready_witness:
  "\<exists>typ now. holds_doc (sim_view (snd (vm_launch sim_etcd sim_host ''a'' ''ann'' 0 ''2'' ''4GiB'' None (Some ''container'') False launch_world)))
     (VMS_PREFIX @ ''a'') (instance_doc ''ann'' 0 typ ''nv1'' now ''ready'')"
proof -
  let ?run = "vm_launch sim_etcd sim_host ''a'' ''ann'' 0 ''2'' ''4GiB'' None (Some ''container'') False launch_world"
  have "fst ?run = Inr ()" by code_simp
  then have run: "?run = (Inr (), snd ?run)" by (metis prod.collapse)
  have "h_name sim_host = ''nv1''" by (simp add: sim_host_def)
  then show ?thesis
    using launch_registers_when_ready [OF sim.incus_env_axioms, OF run] by (simp add: launch_done_def)
qed

section \<open>Pinning existing instances\<close>

lemma pick_from_fresh: "pick_from prefer taken = Inr ip \<Longrightarrow> ip \<notin> set taken"
  by (auto simp: pick_from_def first_free_ip_def find_Some_iff split: option.splits if_splits)

text \<open>The commands on instance configurations; and the commands that give an instance its address: an override of
  the profile's device, or a setting of the instance's own device when the override is refused. The last one
  succeeded.\<close>

definition config_cmd :: "string list \<Rightarrow> bool" where
  "config_cmd c = (take 1 c = [''config''])"

definition accepted :: "'w host \<Rightarrow> string list \<Rightarrow> bool" where
  "accepted h args = (\<exists>w c w'. h_run h args None w = (Inr c, w') \<and> cmd_rc c = 0)"

definition pin_cmd :: "string \<Rightarrow> string \<Rightarrow> json \<Rightarrow> string list" where
  "pin_cmd verb name ip = [''config'', ''device'', verb, name, ''eth0'', ''ipv4.address='' @ shown ip]"

definition pinned_by :: "'w host \<Rightarrow> string \<times> json \<Rightarrow> string list list \<Rightarrow> bool" where
  "pinned_by h change cs = (case change of (name, ip) \<Rightarrow>
     cs = [pin_cmd ''override'' name ip] \<and> accepted h (pin_cmd ''override'' name ip)
     \<or> cs = [pin_cmd ''override'' name ip, pin_cmd ''set'' name ip] \<and> accepted h (pin_cmd ''set'' name ip))"

lemma pinned_by_config: "pinned_by h change cs \<Longrightarrow> filter config_cmd cs = cs"
  by (auto simp: pinned_by_def config_cmd_def pin_cmd_def split: prod.splits)

lemma filter_config_pins: "list_all2 (pinned_by h) changes ps \<Longrightarrow> filter config_cmd (concat ps) = concat ps"
  by (induction rule: list_all2_induct) (simp_all add: pinned_by_config)

context incus_env
begin

lemma wp_run_accepted:
  assumes "\<And>c s'. issued s' = issued s @ [args] \<Longrightarrow> cmd_rc c = 0 \<longrightarrow> accepted h args \<Longrightarrow> Q c s'"
  shows "wp (h_run h args None) Q (\<lambda>_ _. True) s"
proof -
  obtain r s' where run: "h_run h args None s = (r, s')" by fastforce
  then have "cmd_rc c = 0 \<longrightarrow> accepted h args" if "r = Inr c" for c
    using that by (auto simp: accepted_def)
  with run run_effect [OF run] show ?thesis by (auto simp: wp_def intro!: assms split: sum.splits)
qed

lemma wp_pin_instance_ip:
  "wp (pin_instance_ip h name (shown ip)) (\<lambda>_ s'. \<exists>cs. pinned_by h (name, ip) cs \<and> issued s' = issued s @ cs) (\<lambda>_ _. True) s"
proof -
  have set: "wp (incus_do h (pin_cmd ''set'' name ip)) (\<lambda>_ s'. \<exists>cs. pinned_by h (name, ip) cs \<and> issued s' = issued s @ cs) (\<lambda>_ _. True) s1"
    if "issued s1 = issued s @ [pin_cmd ''override'' name ip]" for s1
    unfolding incus_do_def incus_def wp_seq wp_bind
    by (rule wp_run_accepted) (use that in \<open>auto simp: wp_simps pinned_by_def\<close>)
  have override: "pinned_by h (name, ip) [pin_cmd ''override'' name ip]" if "accepted h (pin_cmd ''override'' name ip)"
    using that by (simp add: pinned_by_def)
  show ?thesis
    unfolding pin_instance_ip_def pin_cmd_def [symmetric] incus_def wp_bind
    by (rule wp_run_accepted) (auto simp: wp_simps py_when_def intro!: set override)
qed

lemma wp_pin_all:
  "wp (pin_all h live names taken) (\<lambda>ch s'. map fst ch = names \<and> distinct (map snd ch) \<and> set (map snd ch) \<inter> set taken = {}
       \<and> (\<exists>ps. list_all2 (pinned_by h) ch ps \<and> issued s' = issued s @ concat ps))
     (\<lambda>_ _. True) s"
proof (induction names arbitrary: taken s)
  case (Cons name names)
  let ?Q = "\<lambda>ch s'. map fst ch = name # names \<and> distinct (map snd ch) \<and> set (map snd ch) \<inter> set taken = {}
       \<and> (\<exists>ps. list_all2 (pinned_by h) ch ps \<and> issued s' = issued s @ concat ps)"
  have later: "wp (py_bind (pin_all h live names (t # taken)) (\<lambda>ch. py_return ((name, t) # ch))) ?Q (\<lambda>_ _. True) s1"
    if "t \<notin> set taken" "pinned_by h (name, t) cs" "issued s1 = issued s @ cs" for t s1 cs
    unfolding wp_bind wp_return
  proof (rule wp_mono [OF Cons.IH])
    fix ch s2 assume "map fst ch = names \<and> distinct (map snd ch) \<and> set (map snd ch) \<inter> set (t # taken) = {}
       \<and> (\<exists>ps. list_all2 (pinned_by h) ch ps \<and> issued s2 = issued s1 @ concat ps)"
    then obtain ps where ps: "map fst ch = names" "distinct (map snd ch)" "set (map snd ch) \<inter> set (t # taken) = {}"
      "list_all2 (pinned_by h) ch ps" "issued s2 = issued s1 @ concat ps" by blast
    then have "list_all2 (pinned_by h) ((name, t) # ch) (cs # ps) \<and> issued s2 = issued s @ concat (cs # ps)"
      using that(2,3) by simp
    with ps(1-3) that(1) show "?Q ((name, t) # ch) s2" by auto
  qed simp
  show ?case
  proof (cases "pick_from (case map_of live name of Some ip \<Rightarrow> ip | None \<Rightarrow> None) taken")
    case (Inr t)
    have "wp (pin_instance_ip h name (shown t))
       (\<lambda>_. wp (py_bind (pin_all h live names (t # taken)) (\<lambda>ch. py_return ((name, t) # ch))) ?Q (\<lambda>_ _. True)) (\<lambda>_ _. True) s"
      by (rule wp_mono [OF wp_pin_instance_ip]) (use later [OF pick_from_fresh [OF Inr]] in auto)
    with Inr show ?thesis by (simp add: py_bind_lift wp_seq)
  qed (simp add: wp_simps)
qed (simp add: wp_simps)

lemma keeps_adds_incus:
  assumes "P args"
  shows "keeps (adds l P) (incus h args check i)" "keeps (adds l P) (incus_json h args)"
  using assms by (auto simp: incus_def incus_json_def intro!: keeps_intros keeps_adds_run split: cmd_output.splits)

lemma keeps_adds_dns: "keeps (adds l (\<lambda>c. \<not> config_cmd c)) (sync_dns_records h)"
  by (auto simp: sync_dns_records_def managed_bridges_def sync_bridge_def list_all_cmd_def config_cmd_def Let_def
      intro!: keeps_intros keeps_adds_incus keeps_adds_do)

lemma keeps_adds_pinned: "keeps (adds l (\<lambda>c. \<not> config_cmd c)) (pinned_ips h)"
  by (auto simp: pinned_ips_def list_all_cmd_def config_cmd_def intro!: keeps_intros keeps_adds_incus)

text \<open>A call that issues no command on configurations leaves the list of those as it is.\<close>

lemma no_config_cmds:
  assumes "keeps (adds (issued s) (\<lambda>c. \<not> config_cmd c)) m" and "m s = (r, s')"
  shows "filter config_cmd (issued s') = filter config_cmd (issued s)"
  using keeps_run [OF assms(1) adds_refl [OF refl] assms(2)] by (auto simp: adds_def list_all_iff)

end

lemma add_live_ip_keys:
  "add_live_ip inst live = Inr live' \<Longrightarrow> distinct (map fst live) \<Longrightarrow> distinct (map fst live')
     \<and> (\<exists>n. str_item inst ''name'' = Inr n \<and> set (map fst live') = insert n (set (map fst live)))"
  by (cases "str_item inst ''name''")
    (auto simp: add_live_ip_def distinct_update dom_update split: sum.splits)

lemma live_keys:
  "sfold add_live_ip insts live = Inr live' \<Longrightarrow> distinct (map fst live) \<Longrightarrow>
   distinct (map fst live') \<and> set (map fst live') = set (map fst live) \<union> {n. \<exists>i \<in> set insts. str_item i ''name'' = Inr n}"
proof (induction insts arbitrary: live)
  case (Cons inst insts)
  from Cons.prems(1) obtain b where b: "add_live_ip inst live = Inr b" "sfold add_live_ip insts b = Inr live'"
    unfolding sfold_Cons_Inr by blast
  from add_live_ip_keys [OF b(1) Cons.prems(2)] Cons.IH [OF b(2)] show ?case by auto
qed simp

lemma distinct_map_partition: "distinct (map f xs) \<Longrightarrow> distinct (map f (filter P xs) @ map f (filter (\<lambda>x. \<not> P x) xs))"
  by (induction xs) auto

lemma pin_queue_keys:
  assumes "distinct (map fst live)"
  shows "distinct (pin_queue live pinned)"
    and "set (pin_queue live pinned) = {n \<in> set (map fst live). n \<noteq> BASTION_CONTAINER \<and> map_of pinned n = None}"
proof -
  let ?todo = "filter (\<lambda>(n, ip). n \<noteq> BASTION_CONTAINER \<and> map_of pinned n = None) live"
  have "distinct (map fst ?todo)" using assms by (rule distinct_map_filter)
  from distinct_map_partition [OF this] show "distinct (pin_queue live pinned)"
    unfolding pin_queue_def Let_def .
  have "set (pin_queue live pinned) = fst ` set ?todo"
    unfolding pin_queue_def Let_def by auto
  then show "set (pin_queue live pinned) = {n \<in> set (map fst live). n \<noteq> BASTION_CONTAINER \<and> map_of pinned n = None}"
    by auto
qed

text \<open>C32: when the migration succeeds, it has pinned exactly the instances that had no pin, the bastion apart, each
  once, to addresses that differ from each other and from every address already pinned: the commands on instance
  configurations that it issued are, for each of them in turn, the one that gives its \<open>eth0\<close> this address, and
  that command succeeded.\<close>

theorem pinned_addresses_distinct:
  assumes env: "incus_env e view h issued insts clock" and run: "pin_existing_vms h s = (Inr changes, s')"
  shows "\<exists>rows pinned s1 s2 ps. incus_json h list_all_cmd s = (Inr rows, s1) \<and> pinned_ips h s1 = (Inr pinned, s2)
    \<and> distinct (map fst changes) \<and> distinct (map snd changes) \<and> set (map snd changes) \<inter> set (map snd pinned) = {}
    \<and> set (map fst changes) = {n. (\<exists>i \<in> set rows. str_item i ''name'' = Inr n) \<and> n \<noteq> BASTION_CONTAINER \<and> map_of pinned n = None}
    \<and> list_all2 (pinned_by h) changes ps \<and> filter config_cmd (issued s') = filter config_cmd (issued s) @ concat ps"
proof -
  from run obtain rows s1 pinned s2 live s3 rd where r: "incus_json h list_all_cmd s = (Inr rows, s1)"
    "pinned_ips h s1 = (Inr pinned, s2)" "sfold add_live_ip rows [] = Inr live"
    "pin_all h live (pin_queue live pinned) (map snd pinned) s2 = (Inr changes, s3)" "sync_dns_records h s3 = (rd, s')"
    by (auto simp: pin_existing_vms_def py_bind_def py_seq_def py_lift_def py_return_def py_raise_def split: prod.splits sum.splits)
  note live = live_keys [OF r(3), simplified]
  have keys: "set (map fst live) = {n. \<exists>i \<in> set rows. str_item i ''name'' = Inr n}"
    using live by auto
  from incus_env.wp_pin_all [OF env, of live "pin_queue live pinned" "map snd pinned" s2] r(4)
  obtain ps where pins: "map fst changes = pin_queue live pinned" "distinct (map snd changes)"
    "set (map snd changes) \<inter> set (map snd pinned) = {}" "list_all2 (pinned_by h) changes ps" "issued s3 = issued s2 @ concat ps"
    by (auto simp: wp_def)
  have list: "\<not> config_cmd list_all_cmd" by (simp add: config_cmd_def list_all_cmd_def)
  have "filter config_cmd (issued s') = filter config_cmd (issued s) @ concat ps"
    using incus_env.no_config_cmds [OF env incus_env.keeps_adds_incus(2) [OF env, where P = "\<lambda>c. \<not> config_cmd c", OF list] r(1)]
      incus_env.no_config_cmds [OF env incus_env.keeps_adds_pinned [OF env] r(2)]
      incus_env.no_config_cmds [OF env incus_env.keeps_adds_dns [OF env] r(5)]
      pins(5) filter_config_pins [OF pins(4)] by simp
  with r(1,2) pins pin_queue_keys [of live pinned] live keys show ?thesis
    by (intro exI [of _ rows] exI [of _ pinned] exI [of _ s1] exI [of _ s2] exI [of _ ps]) simp
qed

text \<open>A host whose bastion holds a leased address without a pin, and a stopped instance.\<close>

definition lease_of :: "string \<Rightarrow> json" where
  "lease_of ip = JObj [(''network'', JObj [(''eth0'', JObj [(''addresses'', JList [JObj
     [(''family'', JStr ''inet''), (''scope'', JStr ''global''), (''address'', JStr ip)]])])])]"

definition pin_world :: sim where
  "pin_world = empty_sim\<lparr>sim_insts :=
     [[(''name'', JStr BASTION_CONTAINER), (''state'', lease_of ''10.100.0.10'')], [(''name'', JStr ''a''), (''state'', JNull)]]\<rparr>"

lemma pin_world_run: "fst (pin_existing_vms sim_host pin_world) = Inr [(''a'', JStr ''10.100.0.10'')]"
  by code_simp

theorem pinned_addresses_distinct_witness:
  "\<exists>rows s1 ps. incus_json sim_host list_all_cmd pin_world = (Inr rows, s1)
     \<and> {''a''} = {n. (\<exists>i \<in> set rows. str_item i ''name'' = Inr n) \<and> n \<noteq> BASTION_CONTAINER
         \<and> (\<exists>pinned s2. pinned_ips sim_host s1 = (Inr pinned, s2) \<and> map_of pinned n = None)}
     \<and> list_all2 (pinned_by sim_host) [(''a'', JStr ''10.100.0.10'')] ps
     \<and> filter config_cmd (sim_log (snd (pin_existing_vms sim_host pin_world))) = concat ps
     \<and> [''config'', ''device'', ''override'', ''a'', ''eth0'', ''ipv4.address=10.100.0.10''] \<in> set (concat ps)"
proof -
  let ?s' = "snd (pin_existing_vms sim_host pin_world)"
  have "pin_existing_vms sim_host pin_world = (Inr [(''a'', JStr ''10.100.0.10'')], ?s')"
    by (metis pin_world_run prod.collapse)
  from pinned_addresses_distinct [OF sim.incus_env_axioms, OF this]
  obtain rows pinned s1 s2 ps where w: "incus_json sim_host list_all_cmd pin_world = (Inr rows, s1)"
    "pinned_ips sim_host s1 = (Inr pinned, s2)" "list_all2 (pinned_by sim_host) [(''a'', JStr ''10.100.0.10'')] ps"
    "{''a''} = {n. (\<exists>i \<in> set rows. str_item i ''name'' = Inr n) \<and> n \<noteq> BASTION_CONTAINER \<and> map_of pinned n = None}"
    "filter config_cmd (sim_log ?s') = filter config_cmd (sim_log pin_world) @ concat ps" by auto
  have "sim_log pin_world = []" by (simp add: pin_world_def empty_sim_def)
  moreover have "filter config_cmd (sim_log ?s') = [[''config'', ''device'', ''override'', ''a'', ''eth0'', ''ipv4.address=10.100.0.10'']]"
    by code_simp
  ultimately have "[''config'', ''device'', ''override'', ''a'', ''eth0'', ''ipv4.address=10.100.0.10''] \<in> set (concat ps)"
    "filter config_cmd (sim_log ?s') = concat ps" using w(5) by simp_all
  with w(1-4) show ?thesis by fastforce
qed

text \<open>The migration looks for free addresses among those not pinned, where a launch looks at the live
  ones too: a stopped instance is pinned to the address the unpinned bastion is using.\<close>

theorem pin_takes_live_address:
  "fst (pin_existing_vms sim_host pin_world) = Inr [(''a'', JStr ''10.100.0.10'')]
   \<and> fst (occupied_ips sim_host pin_world) = Inr [JStr ''10.100.0.10'']
   \<and> fst (pick_vm_ip sim_host None None pin_world) = Inr (JStr ''10.100.0.11'')"
proof -
  have "fst (occupied_ips sim_host pin_world) = Inr [JStr ''10.100.0.10'']"
    "fst (pick_vm_ip sim_host None None pin_world) = Inr (JStr ''10.100.0.11'')"
    by code_simp+
  with pin_world_run show ?thesis by simp
qed

end
