(* ===== verification/YWatch.thy ===== *)
theory YWatch
  imports YVmLife
begin

text \<open>
  The bastion watcher (\<open>bastion_watch\<close> and \<open>_incus_lifecycle_thread\<close> of \<open>utils/vm_manager.py\<close>): the queue
  of users and VMs whose keys are to be pushed again, the callbacks of the two etcd watches and of the
  stream of Incus events that fill it, and the loop that empties it. The callbacks and the loop run in
  threads of their own and take the lock for each access to the queue; a run is a sequence of these
  critical sections in any order. The watches and the event stream themselves are inputs.
\<close>

section \<open>The queue\<close>

text \<open>\<open>dirty_users\<close>, \<open>dirty_vms\<close> and \<open>bastion_dirty\<close>; sets are lists without repetition.\<close>

record watch =
  dirty_users :: "string list"
  dirty_vms :: "string list"
  bastion_dirty :: bool

definition no_watch :: watch where
  "no_watch = \<lparr>dirty_users = [], dirty_vms = [], bastion_dirty = False\<rparr>"

text \<open>A response of an etcd watch: the keys of its events, or an object without events (the client's error),
  on which the callback fails after it has seen nothing.\<close>

datatype watch_response = Events "string list" | Failure

definition event_names :: "string \<Rightarrow> string list \<Rightarrow> string list" where
  "event_names prefix keys = map (drop (length prefix)) (filter (\<lambda>k. startswith k prefix) keys)"

definition set_add :: "string list \<Rightarrow> string list \<Rightarrow> string list" where
  "set_add new old = fold List.insert new old"

definition on_user_event :: "watch_response \<Rightarrow> watch \<Rightarrow> watch" where
  "on_user_event response w =
     (case response of
        Events keys \<Rightarrow> w\<lparr>bastion_dirty := True, dirty_users := set_add (event_names USERS_PREFIX keys) (dirty_users w)\<rparr>
      | Failure \<Rightarrow> w\<lparr>bastion_dirty := True\<rparr>)"

definition on_vm_event :: "watch_response \<Rightarrow> watch \<Rightarrow> watch" where
  "on_vm_event response w =
     (case response of
        Events keys \<Rightarrow> w\<lparr>bastion_dirty := True, dirty_vms := set_add (event_names VMS_PREFIX keys) (dirty_vms w)\<rparr>
      | Failure \<Rightarrow> w\<lparr>bastion_dirty := True\<rparr>)"

definition queue_owner :: "string \<Rightarrow> watch \<Rightarrow> watch" where
  "queue_owner owner w = w\<lparr>dirty_users := List.insert owner (dirty_users w), bastion_dirty := True\<rparr>"

text \<open>The start of a round of the loop: the names found are taken out of the queue.\<close>

definition take_dirty :: "watch \<Rightarrow> (string list \<times> string list) \<times> watch" where
  "take_dirty w = ((dirty_users w, dirty_vms w), w\<lparr>dirty_users := [], dirty_vms := [], bastion_dirty := False\<rparr>)"

section \<open>Events of instances\<close>

text \<open>The owner to queue for one line of the event stream; lines that are not JSON, other actions and other
  sources are skipped, and so is the bastion. An owner that is not text is not in the user registry.\<close>

definition lifecycle_source :: "dict \<Rightarrow> exn + string option" where
  "lifecycle_source ev =
     (case or_obj (map_of ev ''metadata'') of
        Inl x \<Rightarrow> Inl x
      | Inr md \<Rightarrow>
          if map_of md ''action'' \<noteq> Some (JStr ''instance-started'') \<and> map_of md ''action'' \<noteq> Some (JStr ''instance-restarted'')
          then Inr None
          else (case map_of md ''source'' of
                  Some (JStr src) \<Rightarrow>
                    (let parts = split_on (CHR ''/'') (strip_char (CHR ''/'') src) in
                     Inr (if length parts < 3 \<or> parts ! 1 \<noteq> ''instances'' \<or> parts ! 2 = BASTION_CONTAINER then None
                          else Some (parts ! 2)))
                | Some j \<Rightarrow> if truthy j then Inl AttributeError else Inr None
                | None \<Rightarrow> Inr None))"

definition lifecycle_owner :: "'w etcd3 \<Rightarrow> dict \<Rightarrow> ('w, string option) py" where
  "lifecycle_owner e ev =
     py_bind (py_lift (lifecycle_source ev)) (\<lambda>src.
       case src of
         None \<Rightarrow> py_return None
       | Some name \<Rightarrow> py_bind (vm_get e name) (\<lambda>rec.
           py_return (case Option.bind rec (\<lambda>d. map_of d ''owner'') of
             Some (JStr owner) \<Rightarrow> if owner = [] then None else Some owner
           | _ \<Rightarrow> None)))"

section \<open>The loop\<close>

text \<open>The owners of the changed VMs join the users of the round.\<close>

definition add_vm_owner :: "'w etcd3 \<Rightarrow> string \<Rightarrow> string list \<Rightarrow> ('w, string list) py" where
  "add_vm_owner e name users =
     py_bind (vm_get e name) (\<lambda>rec.
       case Option.bind rec (\<lambda>d. map_of d ''owner'') of
         Some (JStr owner) \<Rightarrow> py_return (if owner = [] then users else List.insert owner users)
       | Some j \<Rightarrow> if truthy j then py_raise TypeError else py_return users
       | None \<Rightarrow> py_return users)"

definition round_users :: "'w etcd3 \<Rightarrow> string list \<Rightarrow> string list \<Rightarrow> ('w, string list) py" where
  "round_users e users vms = py_fold (add_vm_owner e) vms users"

definition sync_user :: "'w etcd3 \<Rightarrow> 'w host \<Rightarrow> string \<Rightarrow> ('w, unit) py" where
  "sync_user e h user = py_try (vm_sync_keys e h user) (\<lambda>_. py_return ())"

definition watch_round :: "'w etcd3 \<Rightarrow> 'w host \<Rightarrow> string list \<Rightarrow> string list \<Rightarrow> ('w, unit) py" where
  "watch_round e h users vms =
     py_bind (round_users e users vms) (\<lambda>all_users.
     py_seq (py_try (bastion_sync e h) (\<lambda>_. py_return ()))
       (py_for (sort all_users) (sync_user e h)))"

text \<open>The initial sync. Owners of different types (a VM without owner beside others) do not compare.\<close>

definition sorted_owners :: "json list \<Rightarrow> exn + json list" where
  "sorted_owners owners =
     (case all_strs owners of
        Inr names \<Rightarrow> Inr (map JStr (sort names))
      | Inl _ \<Rightarrow> if length owners \<le> 1 then Inr owners else Inl TypeError)"

definition sync_owner :: "'w etcd3 \<Rightarrow> 'w host \<Rightarrow> json \<Rightarrow> ('w, unit) py" where
  "sync_owner e h owner = (case owner of JStr user \<Rightarrow> sync_user e h user | _ \<Rightarrow> py_return ())"

definition watch_start :: "'w etcd3 \<Rightarrow> 'w host \<Rightarrow> ('w, watch) py" where
  "watch_start e h =
     py_bind (instance_exists h BASTION_CONTAINER) (\<lambda>ex.
       if \<not> ex then py_raise (SystemExit 1)
       else py_seq (bastion_sync e h)
         (py_bind (owner_vms e) (\<lambda>ov.
          py_bind (py_lift (sorted_owners (map fst ov))) (\<lambda>owners.
          py_seq (py_for owners (sync_owner e h)) (py_return no_watch)))))"

section \<open>Runs of the watcher\<close>

text \<open>The critical sections, and a run of them from a queue: what each round took, in order, and the queue
  at the end. A round starts only when the flag is set.\<close>

datatype watch_act =
    UserEvent watch_response
  | VmEvent watch_response
  | Started string
  | Round

fun watch_act_step :: "watch_act \<Rightarrow> watch \<Rightarrow> watch" where
  "watch_act_step (UserEvent r) w = on_user_event r w"
| "watch_act_step (VmEvent r) w = on_vm_event r w"
| "watch_act_step (Started owner) w = queue_owner owner w"
| "watch_act_step Round w = (if bastion_dirty w then snd (take_dirty w) else w)"

inductive watch_reach :: "watch \<Rightarrow> bool" where
  reach_start: "watch_reach no_watch"
| reach_step: "watch_reach w \<Longrightarrow> watch_reach (watch_act_step a w)"

code_pred watch_reach .

fun rounds :: "watch_act list \<Rightarrow> watch \<Rightarrow> (string list \<times> string list) list \<times> watch" where
  "rounds [] w = ([], w)"
| "rounds (Round # acts) w =
     (if bastion_dirty w then (case rounds acts (snd (take_dirty w)) of (js, w') \<Rightarrow> (fst (take_dirty w) # js, w'))
      else rounds acts w)"
| "rounds (a # acts) w = rounds acts (watch_act_step a w)"

section \<open>No change is lost\<close>

fun queued :: "watch_act \<Rightarrow> string list \<times> string list" where
  "queued (UserEvent (Events keys)) = (event_names USERS_PREFIX keys, [])"
| "queued (VmEvent (Events keys)) = ([], event_names VMS_PREFIX keys)"
| "queued (Started owner) = ([owner], [])"
| "queued _ = ([], [])"

definition flagged :: "watch \<Rightarrow> bool" where
  "flagged w = (dirty_users w = [] \<and> dirty_vms w = [] \<or> bastion_dirty w)"

lemma set_set_add [simp]: "set (set_add new old) = set new \<union> set old"
  unfolding set_add_def by (induction new arbitrary: old) auto

lemma flagged_step: "flagged w \<Longrightarrow> flagged (watch_act_step a w)"
  by (cases a)
    (auto simp: flagged_def on_user_event_def on_vm_event_def queue_owner_def take_dirty_def split: watch_response.splits)

lemma watch_reach_flagged: "watch_reach w \<Longrightarrow> flagged w"
  by (induction rule: watch_reach.induct) (auto simp: flagged_step, simp add: flagged_def no_watch_def)

lemma event_step_queues:
  assumes "a \<noteq> Round"
  shows "set (dirty_users (watch_act_step a w)) = set (dirty_users w) \<union> set (fst (queued a))"
    and "set (dirty_vms (watch_act_step a w)) = set (dirty_vms w) \<union> set (snd (queued a))"
    and "rounds (a # acts) w = rounds acts (watch_act_step a w)"
  using assms
  by (cases a; auto simp: on_user_event_def on_vm_event_def queue_owner_def split: watch_response.splits)+

lemma rounds_exact:
  "flagged w \<Longrightarrow> rounds acts w = (js, w') \<Longrightarrow>
     flagged w'
     \<and> (\<Union>j \<in> set js. set (fst j)) \<union> set (dirty_users w') = set (dirty_users w) \<union> (\<Union>a \<in> set acts. set (fst (queued a)))
     \<and> (\<Union>j \<in> set js. set (snd j)) \<union> set (dirty_vms w') = set (dirty_vms w) \<union> (\<Union>a \<in> set acts. set (snd (queued a)))"
proof (induction acts arbitrary: w js)
  case (Cons a acts)
  show ?case
  proof (cases "a = Round")
    case True
    show ?thesis
    proof (cases "bastion_dirty w")
      case dirty: True
      obtain js' where r: "rounds acts (snd (take_dirty w)) = (js', w')" "js = fst (take_dirty w) # js'"
        using Cons.prems(2) True dirty by (auto split: prod.splits)
      have "flagged (snd (take_dirty w))" by (simp add: take_dirty_def flagged_def)
      from Cons.IH [OF this r(1)] r(2) True show ?thesis by (auto simp: take_dirty_def)
    next
      case False
      with Cons True show ?thesis by simp
    qed
  next
    case False
    note step = event_step_queues [OF False]
    from Cons.prems(2) have "rounds acts (watch_act_step a w) = (js, w')" unfolding step(3) .
    from Cons.IH [OF flagged_step [OF Cons.prems(1)] this] show ?thesis
      unfolding step(1,2) by auto
  qed
qed simp

text \<open>C9: the watcher loses no change, whatever the interleaving of callbacks and rounds: from any queue it can
  reach, the users and VMs taken by the rounds of a run, with those still queued at its end, are exactly
  those queued at its start and those its events named; and a queue that is not empty has the flag set,
  so that the loop wakes for it.\<close>

theorem watch_loses_no_change:
  assumes "watch_reach w" and "rounds acts w = (js, w')"
  shows "(\<Union>j \<in> set js. set (fst j)) \<union> set (dirty_users w') = set (dirty_users w) \<union> (\<Union>a \<in> set acts. set (fst (queued a)))
    \<and> (\<Union>j \<in> set js. set (snd j)) \<union> set (dirty_vms w') = set (dirty_vms w) \<union> (\<Union>a \<in> set acts. set (snd (queued a)))
    \<and> (bastion_dirty w' \<or> dirty_users w' = [] \<and> dirty_vms w' = [])"
  using rounds_exact [OF watch_reach_flagged [OF assms(1)] assms(2)] by (auto simp: flagged_def)

theorem watch_loses_no_change_witness:
  "(\<Union>j \<in> set (fst (rounds [UserEvent (Events [USERS_PREFIX @ ''ann'']), Round, Started ''bob''] no_watch)). set (fst j))
     \<union> set (dirty_users (snd (rounds [UserEvent (Events [USERS_PREFIX @ ''ann'']), Round, Started ''bob''] no_watch))) = {''ann'', ''bob''}"
  using watch_loses_no_change [OF reach_start prod.collapse [symmetric],
      of "[UserEvent (Events [USERS_PREFIX @ ''ann'']), Round, Started ''bob'']"]
  by (auto simp: event_names_def no_watch_def)

section \<open>A round reaches the owners of the changed VMs\<close>

definition owner_in :: "store \<Rightarrow> string \<Rightarrow> string \<Rightarrow> bool" where
  "owner_in c v owner = (owner \<noteq> [] \<and> (\<exists>d. holds_doc c (VMS_PREFIX @ v) d \<and> map_of d ''owner'' = Some (JStr owner)))"

lemma owner_in_doc: "holds_doc c (VMS_PREFIX @ v) d \<Longrightarrow> owner_in c v o' \<longleftrightarrow> o' \<noteq> [] \<and> map_of d ''owner'' = Some (JStr o')"
  by (auto simp: owner_in_def dest: holds_doc_unique)

context etcd_seq
begin

lemma wp_add_vm_owner:
  assumes "view s = c"
  shows "wp (add_vm_owner e v users) (\<lambda>r s'. view s' = c \<and> set r = set users \<union> {o'. owner_in c v o'}) (\<lambda>_ _. True) s"
  unfolding add_vm_owner_def vm_get_def wp_bind
proof (rule wp_get_json_any)
  fix r s' assume s': "view s' = view s" and "\<And>d. r = Some d \<Longrightarrow> holds_doc (view s) (VMS_PREFIX @ v) d"
    and "r = None \<Longrightarrow> \<not> (\<exists>d. holds_doc (view s) (VMS_PREFIX @ v) d)"
  with assms have "owner_in c v o' \<longleftrightarrow> o' \<noteq> [] \<and> Option.bind r (\<lambda>d. map_of d ''owner'') = Some (JStr o')" for o'
    by (cases r) (auto simp: owner_in_doc, auto simp: owner_in_def)
  with s' assms show "wp (case Option.bind r (\<lambda>d. map_of d ''owner'') of
         Some (JStr owner) \<Rightarrow> py_return (if owner = [] then users else List.insert owner users)
       | Some j \<Rightarrow> if truthy j then py_raise TypeError else py_return users
       | None \<Rightarrow> py_return users) (\<lambda>r s'. view s' = c \<and> set r = set users \<union> {o'. owner_in c v o'}) (\<lambda>_ _. True) s'"
    by (auto simp: wp_simps split: option.splits json.splits)
qed simp

lemma wp_round_users:
  "view s = c \<Longrightarrow> wp (round_users e users vms)
     (\<lambda>r s'. view s' = c \<and> set r = set users \<union> {o'. \<exists>v \<in> set vms. owner_in c v o'}) (\<lambda>_ _. True) s"
  unfolding round_users_def
proof (induction vms arbitrary: users s)
  case (Cons v vms)
  show ?case
    unfolding wp_fold_Cons
    by (rule wp_mono [OF wp_add_vm_owner [OF Cons.prems]], rule wp_mono [OF Cons.IH]) auto
qed (simp add: wp_simps)

end

text \<open>The users of a round are those queued and the current owners of the VMs queued, no others; finding
  them changes nothing.\<close>

theorem round_reaches_owners:
  assumes "etcd_seq e view" and "round_users e users vms s = (Inr all_users, s')"
  shows "view s' = view s \<and> set all_users = set users \<union> {owner. \<exists>v \<in> set vms. owner_in (view s) v owner}"
  using etcd_seq.wp_round_users [OF assms(1) refl, of users vms s] assms(2) by (simp add: wp_def)

theorem round_reaches_owners_witness:
  "set [''ann'', ''bob''] = set [''bob''] \<union> {owner. \<exists>v \<in> set [''a'']. owner_in (sim_view tick_world) v owner}"
proof -
  have run: "round_users sim_etcd [''bob''] [''a''] tick_world = (Inr [''ann'', ''bob''], tick_world)"
    by code_simp
  from round_reaches_owners [OF sim.etcd_seq_axioms, OF run] show ?thesis by simp
qed

text \<open>A VM without an owner beside a VM that has one stops the watcher at its start: the owners do not
  compare.\<close>

theorem unowned_vm_stops_watcher:
  "sorted_owners [JNull, JStr ''ann''] = Inl TypeError \<and> sorted_owners [JStr ''bob'', JStr ''ann''] = Inr [JStr ''ann'', JStr ''bob'']"
  by code_simp

end
