(* ===== verification/YUsage.thy ===== *)
theory YUsage
  imports YVm
begin

text \<open>
  Usage accounting: the collector that drains the queue of life-cycle events in etcd into the usage
  database and ingests the hosts' state snapshots (\<open>collect-vm-stats.py\<close>). The database is a record of its two
  statements on the state of the world; the locale \<open>usage_env\<close> states what they do: an insert of rows with
  \<open>ON CONFLICT (etcd_key) DO NOTHING\<close> in one transaction.
\<close>

section \<open>Draining events\<close>

record event_row =
  er_key :: string
  er_ts :: json
  er_vm :: json
  er_host :: json
  er_event :: json
  er_owner :: json
  er_gpus :: json
  er_initiator :: json
  er_billable :: bool

definition row_of_event :: "string \<Rightarrow> dict \<Rightarrow> event_row" where
  "row_of_event key d =
     \<lparr>er_key = key, er_ts = get_or_null d ''ts'', er_vm = get_or_null d ''vm'', er_host = get_or_null d ''host'',
      er_event = get_or_null d ''event'', er_owner = get_or_null d ''owner'', er_gpus = get_or_null d ''gpus'',
      er_initiator = get_or_null d ''initiator'', er_billable = otruthy (map_of d ''billable'')\<rparr>"

record sample_row =
  sr_ts :: pydt
  sr_vm :: json
  sr_host :: string
  sr_owner :: json
  sr_gpus :: json
  sr_state :: json
  sr_interval :: json

record 'w usage_db =
  u_connect :: "blob \<Rightarrow> ('w, unit) py"
  u_insert_events :: "event_row list \<Rightarrow> ('w, unit) py"
  u_insert_samples :: "sample_row list \<Rightarrow> ('w, unit) py"

text \<open>Values that are no JSON are dropped from the queue.\<close>

definition scan_event :: "'w etcd3 \<Rightarrow> string \<times> blob \<Rightarrow> (string \<times> blob) list \<Rightarrow> ('w, (string \<times> blob) list) py" where
  "scan_event e x events =
     (if \<not> blob_true (snd x) then py_return events
      else (case snd x of
              Text _ \<Rightarrow> py_seq (e_delete e (fst x)) (py_return events)
            | _ \<Rightarrow> py_return (events @ [x])))"

definition add_event_row :: "string \<times> blob \<Rightarrow> event_row list \<Rightarrow> exn + event_row list" where
  "add_event_row x rows = map_sum id (\<lambda>d. rows @ [row_of_event (fst x) d]) (loads_dict (snd x))"

definition event_rows :: "(string \<times> blob) list \<Rightarrow> exn + event_row list" where
  "event_rows events = sfold add_event_row events []"

definition drain_events :: "'w etcd3 \<Rightarrow> 'w usage_db \<Rightarrow> ('w, nat) py" where
  "drain_events e db =
     py_bind (e_get_prefix e EVENTS_PREFIX) (\<lambda>xs.
     py_bind (py_fold (scan_event e) xs []) (\<lambda>events.
       if events = [] then py_return 0
       else py_bind (py_lift (event_rows events)) (\<lambda>rows.
         py_seq (u_insert_events db rows)
         (py_seq (py_for events (\<lambda>x. py_seq (e_delete e (fst x)) (py_return ())))
           (py_return (length events))))))"

section \<open>Ingesting snapshots\<close>

definition add_registration :: "string \<times> blob \<Rightarrow> (string \<times> blob) list \<Rightarrow> (string \<times> blob) list" where
  "add_registration x vms =
     (case snd x of Text _ \<Rightarrow> vms | _ \<Rightarrow> AList.update (drop (length VMS_PREFIX) (fst x)) (snd x) vms)"

definition vm_registrations :: "'w etcd3 \<Rightarrow> ('w, (string \<times> blob) list) py" where
  "vm_registrations e = py_bind (e_get_prefix e VMS_PREFIX) (\<lambda>xs. py_return (fold add_registration xs []))"

definition SNAPSHOT_MAX_AGE :: int where
  "SNAPSHOT_MAX_AGE = 600000000"

text \<open>The time of a snapshot; \<open>None\<close> for one that is reported as bad and skipped.\<close>

definition snapshot_time :: "blob \<Rightarrow> (dict \<times> pydt) option" where
  "snapshot_time b =
     (case b of
        Doc snap \<Rightarrow> (case map_of snap ''ts'' of
          Some (JStr t) \<Rightarrow> map_option (\<lambda>ts. (snap, ts)) (fromisoformat t)
        | _ \<Rightarrow> None)
      | _ \<Rightarrow> None)"

definition sample_of :: "(string \<times> blob) list \<Rightarrow> string \<Rightarrow> pydt \<Rightarrow> dict \<Rightarrow> dict \<Rightarrow> exn + sample_row" where
  "sample_of vms host ts snap inst =
     (let name = get_or_null inst ''name'';
          rec = (case name of JStr n \<Rightarrow> (case map_of vms n of Some r \<Rightarrow> r | None \<Rightarrow> Doc []) | _ \<Rightarrow> Doc [])
      in if \<not> hashable name then Inl TypeError
         else map_sum id (\<lambda>rec. \<lparr>sr_ts = ts, sr_vm = name, sr_host = host, sr_owner = get_or_null rec ''owner'',
           sr_gpus = (case map_of inst ''gpus'' of Some g \<Rightarrow> g | None \<Rightarrow> JInt 0), sr_state = get_or_null inst ''status'',
           sr_interval = (case map_of snap ''interval_s'' of Some i \<Rightarrow> i | None \<Rightarrow> JInt 120)\<rparr>) (loads_dict rec))"

definition snapshot_insts :: "dict \<Rightarrow> exn + json list" where
  "snapshot_insts snap =
     (case map_of snap ''instances'' of
        None \<Rightarrow> Inr []
      | Some (JList xs) \<Rightarrow> Inr xs
      | Some (JStr t) \<Rightarrow> if t = [] then Inr [] else Inl AttributeError
      | Some (JObj d) \<Rightarrow> if d = [] then Inr [] else Inl AttributeError
      | Some _ \<Rightarrow> Inl TypeError)"

definition add_snapshot :: "(string \<times> blob) list \<Rightarrow> int \<Rightarrow> string \<times> blob \<Rightarrow> sample_row list \<Rightarrow> exn + sample_row list" where
  "add_snapshot vms now x rows =
     (if \<not> blob_true (snd x) then Inr rows
      else (case snapshot_time (snd x) of
              None \<Rightarrow> Inr rows
            | Some (snap, Naive _) \<Rightarrow> Inl TypeError
            | Some (snap, Aware t) \<Rightarrow>
                if SNAPSHOT_MAX_AGE < now - t then Inr rows
                else (case snapshot_insts snap of
                        Inl y \<Rightarrow> Inl y
                      | Inr insts \<Rightarrow> sfold (\<lambda>j acc. case as_dict j of
                            Inl y \<Rightarrow> Inl y
                          | Inr inst \<Rightarrow> map_sum id (\<lambda>r. acc @ [r])
                              (sample_of vms (drop (length VM_STATE_PREFIX) (fst x)) (Aware t) snap inst)) insts rows)))"

definition ingest_snapshots :: "'w etcd3 \<Rightarrow> 'w usage_db \<Rightarrow> int \<Rightarrow> ('w, nat) py" where
  "ingest_snapshots e db now =
     py_bind (vm_registrations e) (\<lambda>vms.
     py_bind (e_get_prefix e VM_STATE_PREFIX) (\<lambda>xs.
     py_bind (py_lift (sfold (add_snapshot vms now) xs [])) (\<lambda>rows.
     py_seq (py_when (rows \<noteq> []) (u_insert_samples db rows)) (py_return (length rows)))))"

definition ETCD_CREDS_KEY :: string where
  "ETCD_CREDS_KEY = ''/cluster/config/usage_stats/db-password''"

definition get_db :: "'w etcd3 \<Rightarrow> 'w usage_db \<Rightarrow> ('w, unit) py" where
  "get_db e db = py_bind (e_get e ETCD_CREDS_KEY) (\<lambda>r. case r of None \<Rightarrow> py_raise AttributeError | Some (password, _) \<Rightarrow> u_connect db password)"

definition collect_stats :: "'w etcd3 \<Rightarrow> 'w usage_db \<Rightarrow> bool \<Rightarrow> int \<Rightarrow> ('w, unit) py" where
  "collect_stats e db is_storage_leader now =
     py_when is_storage_leader
       (py_seq (e_client e) (py_seq (get_db e db) (py_seq (drain_events e db) (py_seq (ingest_snapshots e db now) (py_return ())))))"

section \<open>What the collector relies on\<close>

text \<open>Rows with a key that is there already are skipped, the first of equal keys wins.\<close>

fun insert_rows :: "event_row list \<Rightarrow> event_row list \<Rightarrow> event_row list" where
  "insert_rows [] t = t"
| "insert_rows (r # rs) t = insert_rows rs (if er_key r \<in> er_key ` set t then t else t @ [r])"

locale usage_env = etcd_env e view rely
  for e :: "'w etcd3" and view :: "'w \<Rightarrow> store" and rely :: "store \<Rightarrow> store \<Rightarrow> bool" +
  fixes db :: "'w usage_db"
    and rows_in :: "'w \<Rightarrow> event_row list"
  assumes rely_events: "rely c c' \<Longrightarrow> startswith k EVENTS_PREFIX \<Longrightarrow> c k = Some x \<Longrightarrow> c' k = Some x"
    and insert_effect: "u_insert_events db rows s = (ru, s') \<Longrightarrow>
      rely (view s) (view s') \<and> (rows_in s' = insert_rows rows (rows_in s) \<or> rows_in s' = rows_in s \<and> isl ru)"
    and prefix_rows: "e_get_prefix e p s = (rx, s') \<Longrightarrow> rows_in s' = rows_in s"
    and delete_rows: "e_delete e k s = (rb, s') \<Longrightarrow> rows_in s' = rows_in s"

section \<open>Every event is recorded exactly once\<close>

lemma insert_rows_other: "k \<in> er_key ` set t \<Longrightarrow> filter (\<lambda>r. er_key r = k) (insert_rows rs t) = filter (\<lambda>r. er_key r = k) t"
  by (induction rs t rule: insert_rows.induct) auto

lemma insert_rows_absent: "k \<notin> er_key ` set rs \<Longrightarrow> filter (\<lambda>r. er_key r = k) (insert_rows rs t) = filter (\<lambda>r. er_key r = k) t"
  by (induction rs t rule: insert_rows.induct) auto

lemma insert_rows_new:
  assumes "r \<in> set rs" and "distinct (map er_key rs)" and "er_key r \<notin> er_key ` set t"
  shows "filter (\<lambda>x. er_key x = er_key r) (insert_rows rs t) = [r]"
  using assms
proof (induction rs t rule: insert_rows.induct)
  case (2 x rs t)
  show ?case
  proof (cases "x = r")
    case True
    with 2 have none: "filter (\<lambda>y. er_key y = er_key r) t = []" and "er_key r \<notin> er_key ` set rs"
      by (auto simp: filter_empty_conv) (metis image_eqI)
    with True 2 show ?thesis by (simp add: insert_rows_absent)
  next
    case False
    with 2 have "er_key x \<noteq> er_key r" by (auto simp: image_iff)
    with False 2 show ?thesis by auto
  qed
qed simp

lemma event_rows_Inr:
  assumes "event_rows evs = Inr rows"
  shows "map er_key rows = map fst evs \<and> (\<forall>k d. (k, Doc d) \<in> set evs \<longrightarrow> row_of_event k d \<in> set rows)"
proof -
  have acc: "map er_key rows' = map er_key acc @ map fst evs \<and> set acc \<subseteq> set rows'
      \<and> (\<forall>k d. (k, Doc d) \<in> set evs \<longrightarrow> row_of_event k d \<in> set rows')"
    if "sfold add_event_row evs acc = Inr rows'" for acc rows'
    using that
  proof (induction evs arbitrary: acc)
    case (Cons x evs)
    from Cons.prems obtain b where b: "add_event_row x acc = Inr b" "sfold add_event_row evs b = Inr rows'"
      unfolding sfold_Cons_Inr by blast
    from b(1) obtain d where d: "snd x = Doc d" "b = acc @ [row_of_event (fst x) d]"
      by (cases "snd x") (auto simp: add_event_row_def)
    from Cons.IH [OF b(2)] d show ?case
      by (cases x) (auto simp: row_of_event_def)
  qed simp
  from acc [OF assms [unfolded event_rows_def]] show ?thesis by simp
qed

text \<open>An event is waiting in the queue and not recorded, or recorded exactly once.\<close>

definition waiting :: "string \<Rightarrow> dict \<Rightarrow> store \<Rightarrow> event_row list \<Rightarrow> bool" where
  "waiting k d c t = (holds_doc c k d \<and> k \<notin> er_key ` set t)"

definition counted_once :: "string \<Rightarrow> dict \<Rightarrow> event_row list \<Rightarrow> bool" where
  "counted_once k d t = (filter (\<lambda>r. er_key r = k) t = [row_of_event k d])"

lemma counted_once_insert: "counted_once k d t \<Longrightarrow> counted_once k d (insert_rows rs t)"
proof -
  assume c: "counted_once k d t"
  then have "row_of_event k d \<in> set (filter (\<lambda>r. er_key r = k) t)" by (simp add: counted_once_def)
  then have "k \<in> er_key ` set t" by force
  with c show ?thesis by (simp add: counted_once_def insert_rows_other)
qed

context usage_env
begin

lemma waiting_rely: "rely c c' \<Longrightarrow> startswith k EVENTS_PREFIX \<Longrightarrow> waiting k d c t \<Longrightarrow> waiting k d c' t"
  using rely_events by (fastforce simp: waiting_def holds_doc_def)

lemma keeps_counted:
  "keeps (\<lambda>s. counted_once k d (rows_in s)) (e_get_prefix e p)" "keeps (\<lambda>s. counted_once k d (rows_in s)) (e_delete e k')"
  "keeps (\<lambda>s. counted_once k d (rows_in s)) (u_insert_events db rows)"
  by (auto simp: keeps_def wp_def split: prod.splits sum.splits
      dest: prefix_rows delete_rows insert_effect intro: counted_once_insert) (metis insert_effect counted_once_insert)+

lemma keeps_counted_drain: "keeps (\<lambda>s. counted_once k d (rows_in s)) (drain_events e db)"
  by (auto simp: drain_events_def scan_event_def intro!: keeps_intros keeps_counted split: blob.splits)

lemma wp_delete_waiting:
  assumes "startswith k EVENTS_PREFIX" and "waiting k d (view s) (rows_in s)" and "k' \<noteq> k"
  shows "wp (e_delete e k') (\<lambda>_ s'. waiting k d (view s') (rows_in s')) (\<lambda>_ s'. waiting k d (view s') (rows_in s')) s"
proof -
  obtain r s' where run: "e_delete e k' s = (r, s')" by (metis surj_pair)
  from delete_view [OF run] obtain c where c: "rely (view s) c" "view s' = c(k' := None) \<or> view s' = c" by blast
  have "waiting k d (view s') (rows_in s')"
    using waiting_rely [OF c(1) assms(1,2)] c(2) assms(3) delete_rows [OF run] by (auto simp: waiting_def holds_doc_def)
  with run show ?thesis by (auto simp: wp_def split: sum.splits)
qed

lemma wp_scan_waiting:
  assumes "startswith k EVENTS_PREFIX" and "waiting k d (view s) (rows_in s)" and "distinct (map fst xs)" and "(k, Doc d) \<in> set xs"
  shows "wp (py_fold (scan_event e) xs [])
    (\<lambda>evs s'. waiting k d (view s') (rows_in s') \<and> (k, Doc d) \<in> set evs \<and> distinct (map fst evs))
    (\<lambda>_ s'. waiting k d (view s') (rows_in s')) s"
proof -
  have gen: "wp (py_fold (scan_event e) ys acc)
      (\<lambda>evs s'. waiting k d (view s') (rows_in s') \<and> (k, Doc d) \<in> set evs \<and> distinct (map fst evs))
      (\<lambda>_ s'. waiting k d (view s') (rows_in s')) w"
    if "waiting k d (view w) (rows_in w)" "distinct (map fst (acc @ ys))" "(k, Doc d) \<in> set (acc @ ys)" for ys acc w
    using that
  proof (induction ys arbitrary: acc w)
    case (Cons y ys)
    have skip: "wp (py_fold (scan_event e) ys acc)
        (\<lambda>evs s'. waiting k d (view s') (rows_in s') \<and> (k, Doc d) \<in> set evs \<and> distinct (map fst evs))
        (\<lambda>_ s'. waiting k d (view s') (rows_in s')) w'"
      if "waiting k d (view w') (rows_in w')" "\<not> blob_true (snd y) \<or> (\<exists>t. snd y = Text t)" for w'
      using that Cons.prems(2,3) by (intro Cons.IH) auto
    have take: "wp (py_fold (scan_event e) ys (acc @ [y]))
        (\<lambda>evs s'. waiting k d (view s') (rows_in s') \<and> (k, Doc d) \<in> set evs \<and> distinct (map fst evs))
        (\<lambda>_ s'. waiting k d (view s') (rows_in s')) w"
      using Cons.prems by (intro Cons.IH) auto
    show ?case
    proof (cases "\<exists>t. snd y = Text t \<and> blob_true (snd y)")
      case True
      have "fst y \<noteq> k"
      proof
        assume "fst y = k"
        then have "(k, snd y) \<in> set (acc @ y # ys)" by (cases y) simp
        from eq_key_imp_eq_value [OF Cons.prems(2) this Cons.prems(3)] True show False by auto
      qed
      from wp_delete_waiting [OF assms(1) Cons.prems(1) this] True skip show ?thesis
        by (auto simp: wp_simps scan_event_def [of e y acc] elim!: wp_mono)
    next
      case False
      with skip [OF Cons.prems(1)] take show ?thesis
        by (cases "snd y") (auto simp: wp_simps scan_event_def [of e y acc])
    qed
  qed (simp add: wp_simps)
  from gen [of s "[]" xs] assms show ?thesis by simp
qed

lemma wp_prefix_waiting:
  assumes "startswith k EVENTS_PREFIX" and "waiting k d (view s) (rows_in s)"
    and "\<And>xs s1. waiting k d (view s1) (rows_in s1) \<Longrightarrow> prefix_list (view s1) p xs \<Longrightarrow> Q xs s1"
    and "\<And>x s1. waiting k d (view s1) (rows_in s1) \<Longrightarrow> E x s1"
  shows "wp (e_get_prefix e p) Q E s"
proof -
  obtain r s1 where run: "e_get_prefix e p s = (r, s1)" by (metis surj_pair)
  have "waiting k d (view s1) (rows_in s1)"
    using waiting_rely [OF _ assms(1,2)] prefix_view [OF run] prefix_rows [OF run] by simp
  with run prefix_view [OF run] assms(3,4) show ?thesis by (auto simp: wp_def split: sum.splits)
qed

lemma wp_insert_waiting:
  assumes "startswith k EVENTS_PREFIX" and "waiting k d (view s) (rows_in s)"
    and "event_rows evs = Inr rows" and "(k, Doc d) \<in> set evs" and "distinct (map fst evs)"
  shows "wp (u_insert_events db rows) (\<lambda>_ s'. counted_once k d (rows_in s'))
    (\<lambda>_ s'. waiting k d (view s') (rows_in s') \<or> counted_once k d (rows_in s')) s"
proof -
  obtain r s' where run: "u_insert_events db rows s = (r, s')" by (metis surj_pair)
  note eff = insert_effect [OF run]
  have "counted_once k d (insert_rows rows (rows_in s))"
    using insert_rows_new [of "row_of_event k d" rows "rows_in s"] event_rows_Inr [OF assms(3)] assms(2,4,5)
    by (simp add: counted_once_def waiting_def row_of_event_def)
  moreover have "waiting k d (view s') (rows_in s)"
    using waiting_rely [OF _ assms(1,2)] eff by blast
  ultimately show ?thesis
    using eff run by (auto simp: wp_def split: sum.splits)
qed

lemma wp_drain_waiting:
  assumes k: "startswith k EVENTS_PREFIX" and "waiting k d (view s) (rows_in s)"
  shows "wp (drain_events e db) (\<lambda>_ s'. counted_once k d (rows_in s'))
    (\<lambda>_ s'. waiting k d (view s') (rows_in s') \<or> counted_once k d (rows_in s')) s"
proof -
  let ?Q = "\<lambda>_ s'. counted_once k d (rows_in s')"
  let ?E = "\<lambda>_ s'. waiting k d (view s') (rows_in s') \<or> counted_once k d (rows_in s')"
  have deletes: "wp (py_seq (py_for evs (\<lambda>x. py_seq (e_delete e (fst x)) (py_return ()))) (py_return (length evs))) ?Q ?E s'"
    if "counted_once k d (rows_in s')" for evs :: "(string \<times> blob) list" and s'
  proof -
    have "keeps (\<lambda>s. counted_once k d (rows_in s))
        (py_seq (py_for evs (\<lambda>x. py_seq (e_delete e (fst x)) (py_return ()))) (py_return (length evs)))"
      by (auto intro!: keeps_intros keeps_counted)
    from keepsD [OF this that] show ?thesis by (rule wp_mono) auto
  qed
  have batch: "wp (if evs = [] then py_return 0
       else py_bind (py_lift (event_rows evs)) (\<lambda>rows.
         py_seq (u_insert_events db rows)
         (py_seq (py_for evs (\<lambda>x. py_seq (e_delete e (fst x)) (py_return ()))) (py_return (length evs))))) ?Q ?E s'"
    if "waiting k d (view s') (rows_in s')" "(k, Doc d) \<in> set evs" "distinct (map fst evs)" for evs s'
  proof (cases "event_rows evs")
    case (Inr rows)
    from wp_insert_waiting [OF k that(1) Inr that(2,3)]
    have "wp (u_insert_events db rows) (\<lambda>_. wp (py_seq (py_for evs (\<lambda>x. py_seq (e_delete e (fst x)) (py_return ())))
        (py_return (length evs))) ?Q ?E) ?E s'"
      by (rule wp_mono) (auto intro: deletes)
    with Inr that(2) show ?thesis by (auto simp: py_bind_lift wp_seq [of "u_insert_events _ _"])
  qed (use that in \<open>auto simp: wp_simps\<close>)
  show ?thesis
    unfolding drain_events_def wp_bind [of "e_get_prefix _ _"] wp_bind [of "py_fold _ _ _"]
  proof (rule wp_prefix_waiting [OF assms])
    fix xs s1 assume w: "waiting k d (view s1) (rows_in s1)" and xs: "prefix_list (view s1) EVENTS_PREFIX xs"
    have "(k, Doc d) \<in> set xs" using w k unfolding prefix_listD [OF xs] by (simp add: waiting_def holds_doc_def)
    moreover have "distinct (map fst xs)" using xs by (simp add: prefix_list_def)
    ultimately have "wp (py_fold (scan_event e) xs [])
        (\<lambda>evs s'. waiting k d (view s') (rows_in s') \<and> (k, Doc d) \<in> set evs \<and> distinct (map fst evs))
        (\<lambda>_ s'. waiting k d (view s') (rows_in s')) s1"
      by (intro wp_scan_waiting [OF k w])
    then show "wp (py_fold (scan_event e) xs [])
        (\<lambda>evs. wp (if evs = [] then py_return 0
          else py_bind (py_lift (event_rows evs)) (\<lambda>rows.
            py_seq (u_insert_events db rows)
            (py_seq (py_for evs (\<lambda>x. py_seq (e_delete e (fst x)) (py_return ()))) (py_return (length evs))))) ?Q ?E) ?E s1"
      by (rule wp_mono) (use batch in blast)+
  qed auto
qed

end

section \<open>A collector among writers, with failures\<close>

text \<open>The scripted etcd beside a table: calls may fail or lose their reply, other processes add keys, and an
  insert may fail without effect, as the next entry of a list of outcomes says.\<close>

record usage_sim =
  us_kv :: script
  us_rows :: "event_row list"
  us_faults :: "bool list"

definition on_us :: "(script, 'a) py \<Rightarrow> (usage_sim, 'a) py" where
  "on_us m = py_zoom us_kv (\<lambda>k w. w\<lparr>us_kv := k\<rparr>) m"

definition us_etcd :: "usage_sim etcd3" where
  "us_etcd = \<lparr>e_client = on_us (e_client script_etcd), e_get = (\<lambda>k. on_us (e_get script_etcd k)),
     e_get_prefix = (\<lambda>p. on_us (e_get_prefix script_etcd p)), e_put = (\<lambda>k v. on_us (e_put script_etcd k v)),
     e_delete = (\<lambda>k. on_us (e_delete script_etcd k)), e_txn = (\<lambda>cs ops. on_us (e_txn script_etcd cs ops))\<rparr>"

definition us_view :: "usage_sim \<Rightarrow> store" where
  "us_view w = script_view (us_kv w)"

definition us_insert :: "event_row list \<Rightarrow> (usage_sim, unit) py" where
  "us_insert rows w =
     (case us_faults w of
        True # fs \<Rightarrow> (Inl OSError, w\<lparr>us_faults := fs\<rparr>)
      | _ \<Rightarrow> (Inr (), w\<lparr>us_rows := insert_rows rows (us_rows w), us_faults := tl (us_faults w)\<rparr>))"

definition us_db :: "usage_sim usage_db" where
  "us_db = \<lparr>u_connect = (\<lambda>_. py_return ()), u_insert_events = us_insert, u_insert_samples = (\<lambda>_. py_return ())\<rparr>"

lemma on_us_run: "on_us m s = (r, s') \<longleftrightarrow> (\<exists>k. m (us_kv s) = (r, k) \<and> s' = s\<lparr>us_kv := k\<rparr>)"
  by (auto simp: on_us_def py_zoom_def split: prod.splits)

interpretation collector: usage_env us_etcd us_view grows us_db us_rows
proof
  show "grows c c" for c by (rule scriptreg.rely_refl)
  show "grows a b \<Longrightarrow> grows b c \<Longrightarrow> grows a c" for a b c by (rule scriptreg.rely_trans)
  show "grows c c' \<Longrightarrow> startswith k EVENTS_PREFIX \<Longrightarrow> c k = Some x \<Longrightarrow> c' k = Some x" for c c' k x
    by (cases x) (simp add: grows_def)
  show "u_insert_events us_db rows s = (ru, s') \<Longrightarrow> grows (us_view s) (us_view s')
      \<and> (us_rows s' = insert_rows rows (us_rows s) \<or> us_rows s' = us_rows s \<and> isl ru)" for rows s ru s'
    by (auto simp: us_db_def us_insert_def us_view_def grows_refl split: list.splits bool.splits)
  show "\<exists>c n. grows (us_view s) c \<and> (us_view s' = c(k \<mapsto> (v, n)) \<or> us_view s' = c \<and> isl r)"
    if "e_put us_etcd k v s = (r, s')" for k v s r s'
    using that scriptreg.put_view [of k v "us_kv s" r "us_kv s'"] unfolding us_view_def us_etcd_def by (auto simp: on_us_run)
  show "\<exists>c. grows (us_view s) c \<and> (us_view s' = c(k := None) \<and> (\<forall>b. r = Inr b \<longrightarrow> b = (c k \<noteq> None)) \<or> us_view s' = c \<and> isl r)"
    if "e_delete us_etcd k s = (r, s')" for k s r s'
    using that scriptreg.delete_view [of k "us_kv s" r "us_kv s'"] unfolding us_view_def us_etcd_def by (auto simp: on_us_run)
  show "\<exists>c n. grows (us_view s) c \<and>
      (list_all (cmp_holds c) cs \<and> us_view s' = apply_ops n ops c \<and> (r = Inr True \<or> isl r)
       \<or> us_view s' = c \<and> (r = Inr False \<and> \<not> list_all (cmp_holds c) cs \<or> isl r))"
    if "e_txn us_etcd cs ops s = (r, s')" for cs ops s r s'
    using that scriptreg.txn_view [of cs ops "us_kv s" r "us_kv s'"] unfolding us_view_def us_etcd_def by (auto simp: on_us_run)
qed (auto simp: us_etcd_def on_us_run us_view_def dest: scriptreg.client_view scriptreg.get_view scriptreg.prefix_view)

text \<open>C10: draining the event queue records every event exactly once, among other writers and whatever call
  fails: an event that is waiting, or already recorded once, is so afterwards on every outcome, and a run
  that completes has recorded it.\<close>

theorem drain_exactly_once:
  assumes "usage_env e view rely db rows_in" and "startswith k EVENTS_PREFIX" and "drain_events e db s = (r, s')"
    and "waiting k d (view s) (rows_in s) \<or> counted_once k d (rows_in s)"
  shows "(waiting k d (view s') (rows_in s') \<or> counted_once k d (rows_in s')) \<and> (\<not> isl r \<longrightarrow> counted_once k d (rows_in s'))"
  using assms(4)
proof
  assume "waiting k d (view s) (rows_in s)"
  from usage_env.wp_drain_waiting [OF assms(1,2) this] assms(3) show ?thesis
    by (auto simp: wp_def split: sum.splits)
next
  assume "counted_once k d (rows_in s)"
  from keeps_run [OF usage_env.keeps_counted_drain [OF assms(1)] this assms(3)] show ?thesis by simp
qed

text \<open>The insert of a first run is committed and its deletion fails; a second run completes.\<close>

definition drain_world :: usage_sim where
  "drain_world = \<lparr>us_kv = \<lparr>s_mem = \<lparr>mem_data = [(EVENTS_PREFIX @ ''1-a'', Doc [(''vm'', JStr ''a'')], 1)], mem_rev = 1\<rparr>,
     s_events = [Quiet, Fault]\<rparr>, us_rows = [], us_faults = []\<rparr>"

theorem drain_exactly_once_witness:
  "counted_once (EVENTS_PREFIX @ ''1-a'') [(''vm'', JStr ''a'')]
     (us_rows (snd (drain_events us_etcd us_db (snd (drain_events us_etcd us_db drain_world)))))"
proof -
  let ?k = "EVENTS_PREFIX @ ''1-a''" and ?d = "[(''vm'', JStr ''a'')]"
  let ?s1 = "snd (drain_events us_etcd us_db drain_world)"
  have k: "startswith ?k EVENTS_PREFIX" by simp
  have "waiting ?k ?d (us_view drain_world) (us_rows drain_world)"
    by (simp add: waiting_def holds_doc_def drain_world_def us_view_def script_view_def mem_view_def)
  then have "waiting ?k ?d (us_view ?s1) (us_rows ?s1) \<or> counted_once ?k ?d (us_rows ?s1)"
    using drain_exactly_once [OF collector.usage_env_axioms k, of drain_world "fst (drain_events us_etcd us_db drain_world)" ?s1 ?d]
    by simp
  moreover have "\<not> isl (fst (drain_events us_etcd us_db ?s1))" by code_simp
  ultimately show ?thesis
    using drain_exactly_once [OF collector.usage_env_axioms k, of ?s1 "fst (drain_events us_etcd us_db ?s1)"
        "snd (drain_events us_etcd us_db ?s1)" ?d] by simp
qed

end
