(* ===== verification/YBilling.thy ===== *)
theory YBilling
  imports YUsage
begin

text \<open>
  The assembly of GPU time from life-cycle events (\<open>vm_usage_data\<close> in \<open>app.py\<close>): per VM a state machine
  that opens an interval on launch, start or restart and closes it on stop or destroy, clipped to the
  window of the page. The page reads the events of the window and, per VM, the latest one before it.
  Time is in microseconds times GPUs; the page divides by the microseconds of an hour and rounds.
\<close>

section \<open>Events and accounts\<close>

record usage_event =
  ue_ts :: int
  ue_vm :: string
  ue_event :: string
  ue_owner :: "string option"
  ue_gpus :: "int option"
  ue_billable :: bool

record account =
  ac_owner :: "string option"
  ac_open :: "(int \<times> int option \<times> bool) option"
  ac_billable :: int
  ac_tracked :: int

definition gpus_or_0 :: "int option \<Rightarrow> int" where
  "gpus_or_0 g = (case g of Some n \<Rightarrow> n | None \<Rightarrow> 0)"

text \<open>\<open>accrue\<close>: the open interval, clipped to the window, is added to the account.\<close>

definition accrue :: "int \<Rightarrow> int \<Rightarrow> int \<Rightarrow> account \<Rightarrow> account" where
  "accrue since now until st =
     (case ac_open st of
        None \<Rightarrow> st
      | Some (opened, ev_gpus, ev_billable) \<Rightarrow>
          (let lo = max opened since; hi = min until now in
           if lo < hi
           then (let time = (hi - lo) * gpus_or_0 ev_gpus in
             st\<lparr>ac_tracked := ac_tracked st + time, ac_billable := ac_billable st + (if ev_billable then time else 0)\<rparr>)
           else st))"

definition opens :: "string \<Rightarrow> bool" where
  "opens ev = (ev \<in> {''launch'', ''start'', ''restart''})"

definition closes :: "string \<Rightarrow> bool" where
  "closes ev = (ev \<in> {''stop'', ''destroy''})"

definition new_account :: "string option \<Rightarrow> account" where
  "new_account owner = \<lparr>ac_owner = owner, ac_open = None, ac_billable = 0, ac_tracked = 0\<rparr>"

definition account_event :: "int \<Rightarrow> int \<Rightarrow> usage_event \<Rightarrow> account \<Rightarrow> account" where
  "account_event since now ev st0 =
     (let st = (if ue_owner ev \<noteq> None \<and> ue_owner ev \<noteq> Some [] then st0\<lparr>ac_owner := ue_owner ev\<rparr> else st0) in
      if opens (ue_event ev)
      then (if ac_open st = None then st\<lparr>ac_open := Some (ue_ts ev, ue_gpus ev, ue_billable ev)\<rparr> else st)
      else if closes (ue_event ev)
      then (if ac_open st \<noteq> None then (accrue since now (ue_ts ev) st)\<lparr>ac_open := None\<rparr> else st)
      else st)"

definition account_step :: "int \<Rightarrow> int \<Rightarrow> usage_event \<Rightarrow> (string \<times> account) list \<Rightarrow> (string \<times> account) list" where
  "account_step since now ev per_vm =
     (let st = (case map_of per_vm (ue_vm ev) of Some st \<Rightarrow> st | None \<Rightarrow> new_account (ue_owner ev))
      in AList.update (ue_vm ev) (account_event since now ev st) per_vm)"

definition close_account :: "int \<Rightarrow> int \<Rightarrow> account \<Rightarrow> account" where
  "close_account since now st = (if ac_open st \<noteq> None then accrue since now now st else st)"

definition assemble :: "int \<Rightarrow> int \<Rightarrow> usage_event list \<Rightarrow> (string \<times> account) list" where
  "assemble since now events = map (\<lambda>(vm, st). (vm, close_account since now st)) (fold (account_step since now) events [])"

text \<open>The two queries: per VM the latest event before the window, and the events of the window, both in the
  order of VM and time. Of events with equal times either order is a result of the queries.\<close>

definition pre_events :: "int \<Rightarrow> usage_event list \<Rightarrow> usage_event list" where
  "pre_events since t =
     (let old = filter (\<lambda>ev. ue_ts ev < since) t in
      map (\<lambda>vm. last (sort_key ue_ts (filter (\<lambda>ev. ue_vm ev = vm) old))) (sort (remdups (map ue_vm old))))"

definition window_events :: "int \<Rightarrow> usage_event list \<Rightarrow> usage_event list" where
  "window_events since t = sort_key ue_vm (sort_key ue_ts (filter (\<lambda>ev. since \<le> ue_ts ev) t))"

definition vm_usage :: "int \<Rightarrow> int \<Rightarrow> usage_event list \<Rightarrow> (string \<times> account) list" where
  "vm_usage since now t = assemble since now (pre_events since t @ window_events since t)"

text \<open>The column \<open>current\<close>.\<close>

definition usage_current :: "account option \<Rightarrow> string option \<Rightarrow> string option" where
  "usage_current ev last_state =
     (case Option.bind ev ac_open of
        Some (_, _, b) \<Rightarrow> Some (if b then ''billable'' else ''unbilled'')
      | None \<Rightarrow> if last_state = Some ''Running'' then Some ''untracked'' else None)"

section \<open>One VM at a time\<close>

definition vm_history :: "string \<Rightarrow> usage_event list \<Rightarrow> usage_event list" where
  "vm_history vm t = sort_key ue_ts (filter (\<lambda>ev. ue_vm ev = vm) t)"

definition account_of :: "int \<Rightarrow> int \<Rightarrow> usage_event list \<Rightarrow> account" where
  "account_of since now evs = close_account since now (fold (account_event since now) evs (new_account None))"

text \<open>Accounts up to the owner, which does not matter for the time.\<close>

definition same_time :: "account \<Rightarrow> account \<Rightarrow> bool" where
  "same_time a b = (ac_open a = ac_open b \<and> ac_billable a = ac_billable b \<and> ac_tracked a = ac_tracked b)"

lemma same_time_event: "same_time a b \<Longrightarrow> same_time (account_event since now ev a) (account_event since now ev b)"
  by (auto simp: same_time_def account_event_def accrue_def Let_def split: option.splits prod.splits)

lemma same_time_fold: "same_time a b \<Longrightarrow> same_time (fold (account_event since now) evs a) (fold (account_event since now) evs b)"
  by (induction evs arbitrary: a b) (auto simp: same_time_event)

lemma same_time_close: "same_time a b \<Longrightarrow> same_time (close_account since now a) (close_account since now b)"
  by (auto simp: same_time_def close_account_def accrue_def Let_def split: option.splits prod.splits)

lemma fold_account_step:
  "map_of (fold (account_step since now) evs pv) vm =
     (let mine = filter (\<lambda>ev. ue_vm ev = vm) evs in
      case map_of pv vm of
        Some st \<Rightarrow> Some (fold (account_event since now) mine st)
      | None \<Rightarrow> if mine = [] then None else Some (fold (account_event since now) mine (new_account (ue_owner (hd mine)))))"
  by (induction evs arbitrary: pv) (auto simp: account_step_def Let_def split: option.splits)

lemma assemble_account:
  assumes "ev \<in> set evs" and "ue_vm ev = vm"
  shows "\<exists>st. map_of (assemble since now evs) vm = Some st \<and> same_time st (account_of since now (filter (\<lambda>ev. ue_vm ev = vm) evs))"
proof -
  let ?mine = "filter (\<lambda>ev. ue_vm ev = vm) evs"
  have ne: "?mine \<noteq> []" using assms by (auto simp: filter_empty_conv)
  have "same_time (new_account (ue_owner (hd ?mine))) (new_account None)" by (simp add: same_time_def new_account_def)
  from same_time_close [OF same_time_fold [OF this], of since now since now ?mine] ne show ?thesis
    unfolding assemble_def map_of_map fold_account_step Let_def account_of_def by simp
qed

section \<open>The window is read exactly\<close>

lemma sorted_const: "(\<And>x. x \<in> set xs \<Longrightarrow> f x = c) \<Longrightarrow> sorted (map f xs)"
  by (induction xs) auto

lemma filter_window_events: "filter (\<lambda>ev. ue_vm ev = vm) (window_events since t) = filter (\<lambda>ev. since \<le> ue_ts ev) (vm_history vm t)"
proof -
  let ?new = "sort_key ue_ts (filter (\<lambda>ev. since \<le> ue_ts ev) t)"
  have "sorted (map ue_vm (filter (\<lambda>ev. ue_vm ev = vm) ?new))"
    by (rule sorted_const [of _ _ vm]) simp
  then have "filter (\<lambda>ev. ue_vm ev = vm) (window_events since t) = filter (\<lambda>ev. ue_vm ev = vm) ?new"
    unfolding window_events_def filter_sort by (rule sort_key_id_if_sorted)
  then show ?thesis
    unfolding vm_history_def filter_sort filter_filter by (simp add: conj_commute)
qed

lemma filter_map_indexed:
  assumes "distinct vs" and "\<And>v. v \<in> set vs \<Longrightarrow> f (g v) = v"
  shows "filter (\<lambda>x. f x = v) (map g vs) = (if v \<in> set vs then [g v] else [])"
  using assms by (induction vs) auto

lemma filter_pre_events:
  "filter (\<lambda>ev. ue_vm ev = vm) (pre_events since t) =
     (let old = filter (\<lambda>ev. ue_ts ev < since) (vm_history vm t) in if old = [] then [] else [last old])"
proof -
  let ?old = "filter (\<lambda>ev. ue_ts ev < since) t"
  let ?g = "\<lambda>vm. last (sort_key ue_ts (filter (\<lambda>ev. ue_vm ev = vm) ?old))"
  have "ue_vm (?g v) = v" if "v \<in> set (sort (remdups (map ue_vm ?old)))" for v
  proof -
    have "sort_key ue_ts (filter (\<lambda>ev. ue_vm ev = v) ?old) \<noteq> []"
      using that by (auto simp flip: set_empty simp: filter_empty_conv)
    from last_in_set [OF this] show ?thesis by simp
  qed
  then have "filter (\<lambda>ev. ue_vm ev = vm) (pre_events since t) = (if vm \<in> ue_vm ` set ?old then [?g vm] else [])"
    unfolding pre_events_def Let_def by (subst filter_map_indexed) auto
  moreover have "filter (\<lambda>ev. ue_ts ev < since) (vm_history vm t) = sort_key ue_ts (filter (\<lambda>ev. ue_vm ev = vm) ?old)"
    unfolding vm_history_def filter_sort filter_filter by (simp add: conj_commute)
  moreover have "(sort_key ue_ts (filter (\<lambda>ev. ue_vm ev = vm) ?old) = []) = (vm \<notin> ue_vm ` set ?old)"
    by (auto simp flip: set_empty simp: filter_empty_conv)
  ultimately show ?thesis by (simp add: Let_def)
qed

lemma sorted_split_at: "sorted (map ue_ts evs) \<Longrightarrow> evs = filter (\<lambda>ev. ue_ts ev < since) evs @ filter (\<lambda>ev. since \<le> ue_ts ev) evs"
proof (induction evs)
  case (Cons x evs)
  then have "since \<le> ue_ts x \<Longrightarrow> filter (\<lambda>ev. ue_ts ev < since) evs = []" by (auto simp: filter_empty_conv)
  with Cons show ?case by (cases "since \<le> ue_ts x") auto
qed simp

lemma sorted_history: "sorted (map ue_ts (vm_history vm t))"
  by (simp add: vm_history_def)

text \<open>Equal times and rates: an open interval that started before the window counts from its start.\<close>

definition same_rate :: "int \<Rightarrow> account \<Rightarrow> account \<Rightarrow> bool" where
  "same_rate since a b =
     (ac_billable a = ac_billable b \<and> ac_tracked a = ac_tracked b
      \<and> (case (ac_open a, ac_open b) of
           (None, None) \<Rightarrow> True
         | (Some (s, r), Some (s', r')) \<Rightarrow> r = r' \<and> (s = s' \<or> s \<le> since \<and> s' \<le> since)
         | _ \<Rightarrow> False))"

lemma same_rate_event: "same_rate since a b \<Longrightarrow> same_rate since (account_event since now ev a) (account_event since now ev b)"
  by (auto simp: same_rate_def account_event_def accrue_def Let_def max_def split: option.splits prod.splits if_splits)

lemma same_rate_fold: "same_rate since a b \<Longrightarrow> same_rate since (fold (account_event since now) evs a) (fold (account_event since now) evs b)"
  by (induction evs arbitrary: a b) (auto simp: same_rate_event)

lemma same_rate_close: "same_rate since a b \<Longrightarrow> same_rate since (close_account since now a) (close_account since now b)"
  by (auto simp: same_rate_def close_account_def accrue_def Let_def max_def split: option.splits prod.splits if_splits)

text \<open>Before the window nothing accrues, and only what is open matters.\<close>

definition open_after :: "usage_event list \<Rightarrow> (int \<times> int option \<times> bool) option" where
  "open_after evs = ac_open (fold (account_event 0 0) evs (new_account None))"

definition settled :: "int \<Rightarrow> usage_event list \<Rightarrow> bool" where
  "settled since evs =
     (let old = filter (\<lambda>ev. ue_ts ev < since) evs in
      old = [] \<or> map_option snd (open_after old) = map_option snd (open_after [last old]))"

lemma open_event: "ac_open a = ac_open b \<Longrightarrow> ac_open (account_event s n ev a) = ac_open (account_event s' n' ev b)"
  by (auto simp: account_event_def accrue_def Let_def split: option.splits prod.splits)

lemma open_fold: "ac_open a = ac_open b \<Longrightarrow> ac_open (fold (account_event s n) evs a) = ac_open (fold (account_event s' n') evs b)"
proof (induction evs arbitrary: a b)
  case (Cons ev evs)
  from Cons.IH [OF open_event [OF Cons.prems]] show ?case by simp
qed simp

lemma before_window:
  assumes "\<forall>ev \<in> set evs. ue_ts ev < since" and "\<forall>s r. ac_open a = Some (s, r) \<longrightarrow> s < since"
  shows "ac_tracked (fold (account_event since now) evs a) = ac_tracked a
    \<and> ac_billable (fold (account_event since now) evs a) = ac_billable a
    \<and> (\<forall>s r. ac_open (fold (account_event since now) evs a) = Some (s, r) \<longrightarrow> s < since)"
  using assms
proof (induction evs arbitrary: a)
  case (Cons ev evs)
  have ts: "ue_ts ev < since" and st: "\<forall>s r. ac_open a = Some (s, r) \<longrightarrow> s < since" using Cons.prems by auto
  then have step: "ac_tracked (account_event since now ev a) = ac_tracked a" "ac_billable (account_event since now ev a) = ac_billable a"
    "\<forall>s r. ac_open (account_event since now ev a) = Some (s, r) \<longrightarrow> s < since"
    by (auto simp: account_event_def accrue_def Let_def split: option.splits prod.splits)
  have old: "\<forall>x \<in> set evs. ue_ts x < since" using Cons.prems by simp
  from Cons.IH [OF old step(3)] step(1,2) show ?case by simp
qed simp

lemma settled_same_rate:
  assumes "settled since evs" and old: "old = filter (\<lambda>ev. ue_ts ev < since) evs" "old \<noteq> []"
  shows "same_rate since (fold (account_event since now) old (new_account None)) (fold (account_event since now) [last old] (new_account None))"
proof -
  let ?a = "\<lambda>es. fold (account_event since now) es (new_account None)"
  have before: "\<forall>ev \<in> set old. ue_ts ev < since" "\<forall>ev \<in> set [last old]. ue_ts ev < since"
    using old last_in_set [OF old(2)] by auto
  have none: "\<forall>s r. ac_open (new_account None) = Some (s, r) \<longrightarrow> s < since" by (simp add: new_account_def)
  have opn: "ac_open (?a es) = open_after es" for es unfolding open_after_def by (rule open_fold) simp
  have "map_option snd (open_after old) = map_option snd (open_after [last old])"
    using assms by (simp add: settled_def Let_def)
  then have "map_option snd (ac_open (?a old)) = map_option snd (ac_open (?a [last old]))" unfolding opn .
  moreover have "same_rate since a b"
    if "ac_tracked a = ac_tracked b" "ac_billable a = ac_billable b" "map_option snd (ac_open a) = map_option snd (ac_open b)"
      "\<forall>s r. ac_open a = Some (s, r) \<longrightarrow> s < since" "\<forall>s r. ac_open b = Some (s, r) \<longrightarrow> s < since" for a b
    using that by (cases "ac_open a"; cases "ac_open b") (auto simp: same_rate_def)
  ultimately show ?thesis
    using before_window [OF before(1) none, of now] before_window [OF before(2) none, of now] by (simp del: fold_simps)
qed

definition read_history :: "int \<Rightarrow> usage_event list \<Rightarrow> usage_event list" where
  "read_history since evs =
     (let old = filter (\<lambda>ev. ue_ts ev < since) evs in
      (if old = [] then [] else [last old]) @ filter (\<lambda>ev. since \<le> ue_ts ev) evs)"

lemma vm_usage_account:
  assumes "vm_history vm t \<noteq> []"
  shows "\<exists>st. map_of (vm_usage since now t) vm = Some st \<and> same_time st (account_of since now (read_history since (vm_history vm t)))"
proof -
  let ?evs = "pre_events since t @ window_events since t"
  have mine: "filter (\<lambda>ev. ue_vm ev = vm) ?evs = read_history since (vm_history vm t)"
    by (simp add: filter_window_events filter_pre_events read_history_def Let_def)
  have "read_history since (vm_history vm t) \<noteq> []"
    using assms sorted_split_at [OF sorted_history, of vm t since] by (auto simp: read_history_def Let_def)
  then obtain ev where "ev \<in> set (read_history since (vm_history vm t))" by (meson last_in_set)
  then have "ev \<in> set ?evs" "ue_vm ev = vm" unfolding mine [symmetric] by auto
  from assemble_account [OF this] show ?thesis unfolding vm_usage_def mine .
qed

lemma settled_account:
  assumes "settled since evs" and "sorted (map ue_ts evs)"
  shows "same_rate since (account_of since now evs) (account_of since now (read_history since evs))"
proof -
  let ?old = "filter (\<lambda>ev. ue_ts ev < since) evs" and ?new = "filter (\<lambda>ev. since \<le> ue_ts ev) evs"
  let ?head = "if ?old = [] then [] else [last ?old]"
  have "same_rate since (fold (account_event since now) ?old (new_account None)) (fold (account_event since now) ?head (new_account None))"
  proof (cases "?old = []")
    case True
    then show ?thesis by (simp add: same_rate_def new_account_def)
  next
    case False
    with settled_same_rate [OF assms(1) refl False, of now] show ?thesis by (simp del: fold_simps)
  qed
  from same_rate_close [OF same_rate_fold [OF this], of now now ?new]
  have "same_rate since (account_of since now (?old @ ?new)) (account_of since now (read_history since evs))"
    unfolding account_of_def read_history_def Let_def fold_append comp_def .
  then show ?thesis using sorted_split_at [OF assms(2), of since] by simp
qed

text \<open>C11: the page reads only the events of the window and, per VM, the latest one before it; when that one leaves open the
  same interval (same GPUs, same billing) as the whole history before the window does, the page's billable and
  tracked time and the column \<open>current\<close> are those computed from the complete history of the VM.\<close>

theorem billing_window_exact:
  assumes "vm_history vm t \<noteq> []" and "settled since (vm_history vm t)"
  shows "\<exists>st. map_of (vm_usage since now t) vm = Some st
    \<and> ac_billable st = ac_billable (account_of since now (vm_history vm t))
    \<and> ac_tracked st = ac_tracked (account_of since now (vm_history vm t))
    \<and> usage_current (Some st) state = usage_current (Some (account_of since now (vm_history vm t))) state"
proof -
  from vm_usage_account [OF assms(1)] obtain st where st: "map_of (vm_usage since now t) vm = Some st"
    "same_time st (account_of since now (read_history since (vm_history vm t)))" by metis
  from settled_account [OF assms(2) sorted_history, of now] st show ?thesis
    by (auto simp: same_time_def same_rate_def usage_current_def split: option.splits)
qed

section \<open>Bounds of the billed time\<close>

definition clamp :: "int \<Rightarrow> int \<Rightarrow> int \<Rightarrow> int" where
  "clamp since now x = max since (min x now)"

definition mark :: "int \<Rightarrow> account \<Rightarrow> int" where
  "mark l st = (case ac_open st of None \<Rightarrow> l | Some (s, _) \<Rightarrow> s)"

definition billed_within :: "int \<Rightarrow> int \<Rightarrow> int \<Rightarrow> int \<Rightarrow> account \<Rightarrow> bool" where
  "billed_within G since now l st =
     (0 \<le> ac_billable st \<and> ac_billable st \<le> ac_tracked st
      \<and> ac_tracked st \<le> G * (clamp since now (mark l st) - since)
      \<and> mark l st \<le> l
      \<and> (case ac_open st of None \<Rightarrow> True | Some (_, g, _) \<Rightarrow> 0 \<le> gpus_or_0 g \<and> gpus_or_0 g \<le> G))"

lemma clamp_mono: "x \<le> y \<Longrightarrow> clamp since now x \<le> clamp since now y"
  by (auto simp: clamp_def)

lemma billed_mono:
  assumes "0 \<le> G" "x \<le> y" "a \<le> G * (clamp since now x - since)"
  shows "a \<le> G * (clamp since now y - since)"
proof -
  have "G * (clamp since now x - since) \<le> G * (clamp since now y - since)"
    using assms clamp_mono [OF assms(2), of since now] by (intro mult_left_mono) auto
  with assms(3) show ?thesis by linarith
qed

lemma accrue_within:
  assumes inv: "billed_within G since now l st" and G: "0 \<le> G" and le: "l \<le> until" and opn: "ac_open st = Some (s, g, b)"
  shows "0 \<le> ac_billable (accrue since now until st) \<and> ac_billable (accrue since now until st) \<le> ac_tracked (accrue since now until st)
    \<and> ac_tracked (accrue since now until st) \<le> G * (clamp since now until - since)"
proof (cases "max s since < min until now")
  case True
  let ?d = "min until now - max s since"
  from True have c: "clamp since now until = min until now" "clamp since now s = max s since" by (auto simp: clamp_def)
  have tr: "ac_tracked st \<le> G * (max s since - since)" and g: "0 \<le> gpus_or_0 g" "gpus_or_0 g \<le> G"
    using inv opn c(2) by (auto simp: billed_within_def mark_def)
  have d: "0 \<le> ?d * gpus_or_0 g" using True g by (intro mult_nonneg_nonneg) auto
  have "?d * gpus_or_0 g \<le> ?d * G" using True g by (intro mult_left_mono) auto
  with tr have "ac_tracked st + ?d * gpus_or_0 g \<le> G * (min until now - since)"
    by (simp add: algebra_simps)
  moreover have "0 \<le> ac_billable st" "ac_billable st \<le> ac_tracked st" using inv by (auto simp: billed_within_def)
  ultimately show ?thesis using True opn c d by (simp add: accrue_def Let_def)
next
  case False
  from inv opn le have "ac_tracked st \<le> G * (clamp since now s - since)" "s \<le> until" by (auto simp: billed_within_def mark_def)
  from billed_mono [OF G this(2,1)] False inv opn show ?thesis
    by (auto simp: accrue_def Let_def billed_within_def)
qed

lemma event_within:
  assumes inv: "billed_within G since now l st" and G: "0 \<le> G" and le: "l \<le> ue_ts ev"
    and g: "0 \<le> gpus_or_0 (ue_gpus ev)" "gpus_or_0 (ue_gpus ev) \<le> G"
  shows "billed_within G since now (ue_ts ev) (account_event since now ev st)"
proof (cases "ac_open st")
  case None
  with inv have "ac_tracked st \<le> G * (clamp since now l - since)" by (simp add: billed_within_def mark_def)
  from billed_mono [OF G le this] None inv g show ?thesis
    by (auto simp: billed_within_def mark_def account_event_def Let_def)
next
  case (Some r)
  then obtain s g b where r: "ac_open st = Some (s, g, b)" by (cases r) auto
  let ?st = "if ue_owner ev \<noteq> None \<and> ue_owner ev \<noteq> Some [] then st\<lparr>ac_owner := ue_owner ev\<rparr> else st"
  have inv': "billed_within G since now l ?st" "ac_open ?st = Some (s, g, b)"
    using inv r by (auto simp: billed_within_def mark_def)
  from accrue_within [OF inv'(1) G le inv'(2)] inv' le show ?thesis
    unfolding account_event_def Let_def by (auto simp: billed_within_def mark_def)
qed

lemma fold_within:
  assumes "billed_within G since now l st" and "0 \<le> G" and "sorted (map ue_ts evs)" and "\<forall>ev \<in> set evs. l \<le> ue_ts ev"
    and "\<forall>ev \<in> set evs. 0 \<le> gpus_or_0 (ue_gpus ev) \<and> gpus_or_0 (ue_gpus ev) \<le> G"
  shows "\<exists>l'. billed_within G since now l' (fold (account_event since now) evs st)"
  using assms
proof (induction evs arbitrary: l st)
  case (Cons ev evs)
  from Cons.prems have "billed_within G since now (ue_ts ev) (account_event since now ev st)"
    by (intro event_within [of _ _ _ l]) auto
  from Cons.IH [OF this] Cons.prems show ?case by auto
qed auto

lemma account_within:
  assumes "0 \<le> G" and "since \<le> now" and "sorted (map ue_ts evs)"
    and "\<forall>ev \<in> set evs. 0 \<le> gpus_or_0 (ue_gpus ev) \<and> gpus_or_0 (ue_gpus ev) \<le> G"
  shows "0 \<le> ac_billable (account_of since now evs) \<and> ac_billable (account_of since now evs) \<le> ac_tracked (account_of since now evs)
    \<and> ac_tracked (account_of since now evs) \<le> G * (now - since)"
proof -
  let ?l = "if evs = [] then 0 else ue_ts (hd evs)" and ?st = "fold (account_event since now) evs (new_account None)"
  have "billed_within G since now ?l (new_account None)"
    using assms(1) by (auto simp: billed_within_def mark_def new_account_def clamp_def)
  moreover have "\<forall>ev \<in> set evs. ?l \<le> ue_ts ev" using assms(3) by (cases evs) auto
  ultimately obtain l where inv: "billed_within G since now l ?st" using fold_within assms by blast
  have top: "G * (clamp since now x - since) \<le> G * (now - since)" for x
    using assms(1,2) by (intro mult_left_mono) (auto simp: clamp_def)
  show ?thesis
  proof (cases "ac_open ?st")
    case None
    with inv top [of l] show ?thesis by (auto simp: account_of_def close_account_def billed_within_def mark_def)
  next
    case (Some r)
    then obtain s g b where r: "ac_open ?st = Some (s, g, b)" by (cases r) auto
    have "accrue since now now ?st = accrue since now (max l now) ?st" using r by (simp add: accrue_def)
    with accrue_within [OF inv assms(1) _ r, of "max l now"] r top [of "max l now"] show ?thesis
      by (auto simp: account_of_def close_account_def)
  qed
qed

lemma sorted_read_history:
  assumes "sorted (map ue_ts evs)" shows "sorted (map ue_ts (read_history since evs))"
proof -
  let ?old = "filter (\<lambda>ev. ue_ts ev < since) evs"
  have "?old \<noteq> [] \<Longrightarrow> ue_ts (last ?old) < since" using last_in_set [of ?old] by auto
  with assms show ?thesis by (auto simp: read_history_def Let_def sorted_append sorted_filter intro: order.trans)
qed

lemma set_read_history: "set (read_history since evs) \<subseteq> set evs"
proof -
  let ?old = "filter (\<lambda>ev. ue_ts ev < since) evs"
  have "?old \<noteq> [] \<Longrightarrow> last ?old \<in> set evs" using last_in_set [of ?old] by auto
  then show ?thesis by (auto simp: read_history_def Let_def)
qed

text \<open>The largest number of GPUs that the events of a VM carry.\<close>

definition max_gpus :: "string \<Rightarrow> usage_event list \<Rightarrow> int" where
  "max_gpus vm t = Max ((\<lambda>ev. gpus_or_0 (ue_gpus ev)) ` {ev \<in> set t. ue_vm ev = vm})"

text \<open>C33: when the events of a VM carry no negative number of GPUs, it is billed no more than it is tracked, it is tracked for
  at most the largest number of GPUs in its own events times the length of the window, and no amount is negative, in whatever
  order its events open and close intervals and whatever the events of other VMs are.\<close>

theorem billing_bounds:
  assumes "since \<le> now" and "\<forall>ev \<in> set t. ue_vm ev = vm \<longrightarrow> 0 \<le> gpus_or_0 (ue_gpus ev)" and "vm_history vm t \<noteq> []"
  shows "\<exists>st. map_of (vm_usage since now t) vm = Some st
    \<and> 0 \<le> ac_billable st \<and> ac_billable st \<le> ac_tracked st \<and> ac_tracked st \<le> max_gpus vm t * (now - since)"
proof -
  from vm_usage_account [OF assms(3)] obtain st where st: "map_of (vm_usage since now t) vm = Some st"
    "same_time st (account_of since now (read_history since (vm_history vm t)))" by metis
  have "set (read_history since (vm_history vm t)) \<subseteq> {ev \<in> set t. ue_vm ev = vm}"
    using set_read_history by (fastforce simp: vm_history_def)
  then have own: "\<forall>ev \<in> set (read_history since (vm_history vm t)). 0 \<le> gpus_or_0 (ue_gpus ev) \<and> gpus_or_0 (ue_gpus ev) \<le> max_gpus vm t"
    using assms(2) by (auto simp: max_gpus_def intro!: Max_ge)
  have "hd (vm_history vm t) \<in> set (vm_history vm t)" using assms(3) by simp
  then obtain ev where "ev \<in> set t" "ue_vm ev = vm" by (auto simp: vm_history_def)
  then have "gpus_or_0 (ue_gpus ev) \<le> max_gpus vm t" unfolding max_gpus_def by (intro Max_ge) auto
  moreover have "0 \<le> gpus_or_0 (ue_gpus ev)" using assms(2) \<open>ev \<in> set t\<close> \<open>ue_vm ev = vm\<close> by blast
  ultimately have "0 \<le> max_gpus vm t" by (rule order.trans [rotated])
  from account_within [OF this assms(1) sorted_read_history [OF sorted_history] own] st show ?thesis
    by (auto simp: same_time_def)
qed

section \<open>Examples\<close>

definition usage_row :: "int \<Rightarrow> string \<Rightarrow> int \<Rightarrow> bool \<Rightarrow> usage_event" where
  "usage_row ts ev gpus b = \<lparr>ue_ts = ts, ue_vm = ''vm1'', ue_event = ev, ue_owner = Some ''ann'', ue_gpus = Some gpus, ue_billable = b\<rparr>"

definition usage_table :: "usage_event list" where
  "usage_table = [usage_row 50 ''stop'' 2 False, usage_row 10 ''launch'' 2 True, usage_row 15 ''stop'' 2 False, usage_row 18 ''start'' 2 True]"

definition restarted_table :: "usage_event list" where
  "restarted_table = [usage_row 10 ''launch'' 2 True, usage_row 15 ''restart'' 2 False]"

lemmas billing_eval = usage_table_def restarted_table_def usage_row_def vm_history_def settled_def Let_def open_after_def account_of_def
  account_event_def accrue_def opens_def closes_def new_account_def gpus_or_0_def close_account_def vm_usage_def assemble_def
  pre_events_def window_events_def account_step_def usage_current_def

theorem billing_window_exact_witness:
  "vm_history ''vm1'' usage_table \<noteq> [] \<and> settled 20 (vm_history ''vm1'' usage_table)
   \<and> ac_billable (account_of 20 60 (vm_history ''vm1'' usage_table)) = 60
   \<and> (\<exists>st. map_of (vm_usage 20 60 usage_table) ''vm1'' = Some st \<and> ac_billable st = 60)"
proof -
  have h: "vm_history ''vm1'' usage_table \<noteq> []" by (simp add: billing_eval)
  have s: "settled 20 (vm_history ''vm1'' usage_table)" by (simp add: billing_eval)
  have a: "ac_billable (account_of 20 60 (vm_history ''vm1'' usage_table)) = 60" by (simp add: billing_eval)
  from billing_window_exact [OF h s, of 60 None] h s a show ?thesis by auto
qed

text \<open>A second VM with eight GPUs does not change the bound of the first.\<close>

definition shared_table :: "usage_event list" where
  "shared_table = \<lparr>ue_ts = 12, ue_vm = ''vm2'', ue_event = ''launch'', ue_owner = Some ''bob'', ue_gpus = Some 8, ue_billable = True\<rparr> # usage_table"

lemma max_gpus_shared: "max_gpus ''vm1'' shared_table = 2"
proof -
  have "{ev \<in> set shared_table. ue_vm ev = ''vm1''} = set (filter (\<lambda>ev. ue_vm ev = ''vm1'') shared_table)" by simp
  also have "(\<lambda>ev. gpus_or_0 (ue_gpus ev)) ` \<dots> = {2}"
    by (simp add: shared_table_def usage_table_def usage_row_def gpus_or_0_def)
  finally show ?thesis by (simp add: max_gpus_def)
qed

theorem billing_bounds_witness:
  "\<exists>st. map_of (vm_usage 20 60 shared_table) ''vm1'' = Some st
    \<and> 0 \<le> ac_billable st \<and> ac_billable st \<le> ac_tracked st \<and> ac_tracked st \<le> 2 * (60 - 20)"
proof -
  have own: "\<forall>ev \<in> set shared_table. ue_vm ev = ''vm1'' \<longrightarrow> 0 \<le> gpus_or_0 (ue_gpus ev)"
    by (simp add: shared_table_def usage_table_def usage_row_def gpus_or_0_def)
  have "vm_history ''vm1'' shared_table \<noteq> []" by (simp add: shared_table_def billing_eval)
  from billing_bounds [OF _ own this, of 20 60] show ?thesis by (simp add: max_gpus_shared)
qed

text \<open>The billing of an interval is that of its opening event only while that event, or one that agrees with it, is the
  latest before the window: a restart without billing (the default of the command line) keeps the interval open in
  the full history, and is the opening event when the page reads it first.\<close>

lemma restart_changes_billing:
  "ac_billable (account_of 20 60 (vm_history ''vm1'' restarted_table)) = 80
   \<and> map_option ac_billable (map_of (vm_usage 20 60 restarted_table) ''vm1'') = Some 0
   \<and> \<not> settled 20 (vm_history ''vm1'' restarted_table)"
  by (simp add: billing_eval)

end
