(* ===== verification/YHealth.thy ===== *)
theory YHealth
  imports YVm Complex_Main
begin

text \<open>
  Health of a node (\<open>app.py\<close>, \<open>clock_skew.py\<close>): the checks of the services, the hosts of the registry, the
  virtual addresses, and the report with its overall verdict. Commands, sockets, HTTP, DNS, NTP and
  the certificate parser are calls of the record \<open>node\<close>; any of them may raise. JSON here has no fractions, so
  the numbers of an NTP reply appear in reports only in the text of the message.
\<close>

section \<open>What a node can be asked\<close>

record proc =
  pr_rc :: int
  pr_out :: string
  pr_err :: string

datatype dns_reply = DnsAnswer "string list" | DnsTimeout | DnsNXDOMAIN | DnsNoAnswer

text \<open>The outcome of an HTTP request that \<open>requests\<close> tells apart: a reply with its status, headers and what
  \<open>json()\<close> gives, a timeout, an error of the proxy, another connection error, or another of its exceptions. Other failures are raised.\<close>

datatype http_reply =
    Http int "(string \<times> string) list" "exn + json"
  | HttpTimeout
  | HttpProxyError string
  | HttpConnectionError string
  | HttpOther string

record cert =
  ct_not_after :: int
  ct_subject :: string
  ct_issuer :: string

text \<open>An NTP reply: the offset in seconds and, rounded, in milliseconds as text.\<close>

datatype ntp_reply = NtpReply rat string | NtpException string | NtpNoName

text \<open>\<open>os.path.exists\<close>, \<open>isdir\<close> and \<open>listdir\<close> of a directory.\<close>

datatype dir_access = DirListed | DirAbsent | DirDenied

record 'w node =
  n_name :: string
  n_text :: "exn \<Rightarrow> string"
  n_now :: "('w, int) py"
  n_localnow :: "('w, int) py"
  n_run :: "string list \<Rightarrow> ('w, proc) py"
  n_connect :: "string \<Rightarrow> int \<Rightarrow> ('w, int) py"
  n_resolve :: "string \<Rightarrow> ('w, dns_reply) py"
  n_http :: "string \<Rightarrow> bool \<Rightarrow> ('w, http_reply) py"
  n_cert :: "blob \<Rightarrow> exn + cert"
  n_ntp :: "string \<Rightarrow> ('w, ntp_reply) py"
  n_listdir :: "string \<Rightarrow> ('w, dir_access) py"
  n_loads :: "string \<Rightarrow> exn + json"

record report =
  r_status :: string
  r_details :: json

definition message_only :: "string \<Rightarrow> string \<Rightarrow> report" where
  "message_only st msg = \<lparr>r_status = st, r_details = JObj [(''message'', JStr msg)]\<rparr>"

section \<open>Checks of single services\<close>

definition check_service_status :: "'w node \<Rightarrow> string \<Rightarrow> ('w, bool) py" where
  "check_service_status nd service_name =
     py_try (py_bind (n_run nd [''systemctl'', ''is-active'', service_name]) (\<lambda>r. py_return (strip (pr_out r) = ''active'')))
       (\<lambda>_. py_return False)"

definition check_port_open :: "'w node \<Rightarrow> string \<Rightarrow> int \<Rightarrow> ('w, bool) py" where
  "check_port_open nd h port =
     py_try (py_bind (n_connect nd h port) (\<lambda>r. py_return (r = 0))) (\<lambda>_. py_return False)"

definition check_ceph_status :: "'w node \<Rightarrow> ('w, report) py" where
  "check_ceph_status nd =
     py_try
       (py_bind (n_run nd [''ceph'', ''-n'', ''client.admin-api'', ''-k'', ''/etc/ceph/ceph.client.admin-api.keyring'', ''health'']) (\<lambda>r.
          if pr_rc r = 0
          then (let health_output = strip (pr_out r) in
            py_return \<lparr>r_status = (if contains health_output ''HEALTH_OK'' then ''healthy''
                                   else if contains health_output ''HEALTH_ERR'' then ''unhealthy'' else ''degraded''),
                       r_details = JStr health_output\<rparr>)
          else py_return \<lparr>r_status = ''error'', r_details = JStr (strip (pr_err r))\<rparr>))
       (\<lambda>_. py_return \<lparr>r_status = ''unavailable'', r_details = JStr ''ceph command failed''\<rparr>)"

definition dns_query :: "'w node \<Rightarrow> ('w, bool \<times> string) py" where
  "dns_query nd =
     py_try
       (py_bind (n_resolve nd (n_name nd)) (\<lambda>a. py_return (case a of
          DnsAnswer ips \<Rightarrow>
            if ips \<noteq> [] then (True, ''Local DNS server responding ('' @ n_name nd @ '' -> '' @ join '', '' ips @ '')'')
            else (False, ''Local DNS query for '' @ n_name nd @ '' returned no results'')
        | DnsTimeout \<Rightarrow> (False, ''Local DNS query timeout'')
        | DnsNXDOMAIN \<Rightarrow> (False, ''Local DNS query: domain not found'')
        | DnsNoAnswer \<Rightarrow> (False, ''Local DNS query: no answer''))))
       (\<lambda>x. py_return (False, ''Local DNS query error: '' @ n_text nd x))"

definition check_dns_status :: "'w node \<Rightarrow> ('w, report) py" where
  "check_dns_status nd =
     py_try
       (py_bind (check_service_status nd ''dnsmasq'') (\<lambda>active.
        py_bind (dns_query nd) (\<lambda>(dns_working, dns_details).
          let (st, msg) = (if active \<and> dns_working then (''healthy'', ''Service active, '' @ dns_details)
                           else if active then (''degraded'', ''Service active but '' @ dns_details)
                           else (''unhealthy'', ''Service inactive, '' @ dns_details))
          in py_return \<lparr>r_status = st, r_details = JObj [(''service_active'', JBool active), (''dns_working'', JBool dns_working),
               (''message'', JStr msg)]\<rparr>)))
       (\<lambda>x. py_return \<lparr>r_status = ''error'', r_details = JStr (''DNS check failed: '' @ n_text nd x)\<rparr>)"

definition get_current_node_type :: "'w node \<Rightarrow> string" where
  "get_current_node_type nd =
     (case n_name nd of
        [] \<Rightarrow> ''unknown''
      | c # _ \<Rightarrow> if c = CHR ''s'' then ''storage'' else if c = CHR ''c'' then ''compute''
                 else if c = CHR ''m'' then ''macos'' else ''unknown'')"

definition is_etcd_node :: "'w node \<Rightarrow> bool" where
  "is_etcd_node nd = (get_current_node_type nd = ''storage'')"

definition leader_is :: "'w node \<Rightarrow> (blob \<times> nat) option \<Rightarrow> bool" where
  "leader_is nd r = (case r of Some (Text t, _) \<Rightarrow> t \<noteq> [] \<and> t = n_name nd | _ \<Rightarrow> False)"

definition is_storage_leader :: "'w etcd3 \<Rightarrow> 'w node \<Rightarrow> ('w, bool) py" where
  "is_storage_leader e nd =
     (if \<not> is_etcd_node nd then py_return False
      else py_try (py_seq (e_client e) (py_bind (e_get e ''/cluster/leader/app'') (\<lambda>r. py_return (leader_is nd r))))
             (\<lambda>_. py_return False))"

definition is_dhcp_leader :: "'w etcd3 \<Rightarrow> 'w node \<Rightarrow> ('w, bool) py" where
  "is_dhcp_leader e nd =
     (if \<not> is_etcd_node nd then py_return False
      else py_try (py_seq (e_client e) (py_bind (e_get e ''/cluster/leader/dhcp'') (\<lambda>r. py_return (leader_is nd r))))
             (\<lambda>_. py_return False))"

definition is_node_drained :: "'w etcd3 \<Rightarrow> 'w node \<Rightarrow> ('w, bool) py" where
  "is_node_drained e nd =
     (if \<not> is_etcd_node nd then py_return False
      else py_try (py_seq (e_client e) (py_bind (e_get e (drain_key (n_name nd))) (\<lambda>r. py_return (is_drained_value r))))
             (\<lambda>_. py_return False))"

text \<open>The certificate: whole days left, rounded down.\<close>

definition cert_details :: "string \<Rightarrow> json" where
  "cert_details msg = JObj [(''message'', JStr msg), (''days_until_expiry'', JNull), (''expires_at'', JNull)]"

definition days_until :: "int \<Rightarrow> int \<Rightarrow> int" where
  "days_until expires_at now = (expires_at - now) div usec_per_day"

definition cert_status :: "int \<Rightarrow> string" where
  "cert_status days =
     (if days < 0 then ''expired'' else if days \<le> 7 then ''critical'' else if days \<le> 30 then ''warning'' else ''healthy'')"

definition cert_report :: "cert \<Rightarrow> int \<Rightarrow> report" where
  "cert_report c now =
     (let days = days_until (ct_not_after c) now;
          msg = (if days < 0 then ''Certificate expired '' @ int_str \<bar>days\<bar> @ '' days ago''
                 else ''Certificate expires in '' @ int_str days @ '' days'')
      in \<lparr>r_status = cert_status days, r_details = JObj [(''message'', JStr msg), (''days_until_expiry'', JInt days),
           (''expires_at'', JStr (iso_naive (ct_not_after c))), (''subject'', JStr (ct_subject c)), (''issuer'', JStr (ct_issuer c))]\<rparr>)"

definition check_certificate_expiry :: "'w etcd3 \<Rightarrow> 'w node \<Rightarrow> ('w, report) py" where
  "check_certificate_expiry e nd =
     (if \<not> is_etcd_node nd
      then py_return \<lparr>r_status = ''not_applicable'', r_details = cert_details ''certificate check is core-only (s*)''\<rparr>
      else py_try
        (py_seq (e_client e) (py_bind (e_get e ''/cluster/tls/cert'') (\<lambda>r. case r of
           None \<Rightarrow> py_return \<lparr>r_status = ''not_configured'', r_details = cert_details ''No certificate found in etcd''\<rparr>
         | Some (b, _) \<Rightarrow>
             if \<not> blob_true b
             then py_return \<lparr>r_status = ''not_configured'', r_details = cert_details ''No certificate found in etcd''\<rparr>
             else py_bind (py_lift (n_cert nd b)) (\<lambda>c. py_bind (n_now nd) (\<lambda>now. py_return (cert_report c now))))))
        (\<lambda>x. py_return \<lparr>r_status = ''error'', r_details = cert_details (''Certificate check failed: '' @ n_text nd x)\<rparr>))"

text \<open>Clock skew, in milliseconds. The module \<open>ntplib\<close>, which the check imports before its \<open>try\<close>, is taken to be installed. Of
  the details, the offset appears in the text of the message, and the fractional numbers of the reply (offset, delay) and its stratum and
  precision are left out.\<close>

definition clock_skew_thresholds :: "string \<Rightarrow> rat \<times> rat" where
  "clock_skew_thresholds node_type = (if node_type = ''storage'' then (100, 1000) else (1000, 10000))"

definition classify_clock_offset :: "rat \<Rightarrow> string \<Rightarrow> string" where
  "classify_clock_offset offset_ms node_type =
     (let (warning_ms, critical_ms) = clock_skew_thresholds node_type; magnitude = \<bar>offset_ms\<bar> in
      if critical_ms < magnitude then ''critical'' else if warning_ms < magnitude then ''warning'' else ''healthy'')"

definition check_clock_skew :: "'w node \<Rightarrow> ('w, report) py" where
  "check_clock_skew nd =
     py_try
       (py_bind (n_ntp nd ''10.0.0.254'') (\<lambda>a. py_return (case a of
          NtpReply offset txt \<Rightarrow>
            \<lparr>r_status = classify_clock_offset (offset * 1000) (get_current_node_type nd),
             r_details = JObj [(''ntp_server'', JStr ''10.0.0.254''), (''message'', JStr (''Clock offset: '' @ txt @ ''ms''))]\<rparr>
        | NtpException msg \<Rightarrow> message_only ''error'' (''NTP request failed: '' @ msg)
        | NtpNoName \<Rightarrow> message_only ''error'' ''Could not resolve NTP server 10.0.0.254'')))
       (\<lambda>x. py_return (message_only ''error'' (''Clock skew check failed: '' @ n_text nd x)))"

definition check_docker_daemon :: "'w node \<Rightarrow> ('w, report) py" where
  "check_docker_daemon nd =
     py_try
       (py_bind (check_service_status nd ''docker'') (\<lambda>active.
          py_return \<lparr>r_status = (if active then ''healthy'' else ''unhealthy''),
            r_details = JObj [(''service_active'', JBool active),
              (''message'', JStr (if active then ''Docker service running'' else ''Docker service not running''))]\<rparr>))
       (\<lambda>x. py_return (message_only ''error'' (''Docker check failed: '' @ n_text nd x)))"

text \<open>A request that must be answered with status 200: the reply, or what is reported of its failure.\<close>

definition probe_http :: "'w node \<Rightarrow> string \<Rightarrow> string \<Rightarrow> string \<Rightarrow> ('w, string + (string \<times> string) list \<times> (exn + json)) py" where
  "probe_http nd url what who =
     py_try
       (py_bind (n_http nd url False) (\<lambda>a. py_return (case a of
          Http c hs body \<Rightarrow> if c = 200 then Inr (hs, body) else Inl (what @ '' returned HTTP '' @ int_str c)
        | HttpTimeout \<Rightarrow> Inl (what @ '' timeout'')
        | HttpProxyError _ \<Rightarrow> Inl (who @ '' connection failed'')
        | HttpConnectionError _ \<Rightarrow> Inl (who @ '' connection failed'')
        | HttpOther m \<Rightarrow> Inl (what @ '' failed: '' @ m))))
       (\<lambda>x. py_return (Inl (what @ '' failed: '' @ n_text nd x)))"

text \<open>The registry: the loop over its URLs keeps the last error.\<close>

fun registry_probe :: "'w node \<Rightarrow> string list \<Rightarrow> json \<Rightarrow> ('w, bool \<times> json \<times> json) py" where
  "registry_probe nd [] err = py_return (False, JNull, err)"
| "registry_probe nd (url # urls) err =
     py_bind (probe_http nd url ''Registry health check'' ''Registry'') (\<lambda>a. case a of
       Inr (hs, _) \<Rightarrow> py_return (True, JStr (case map_of hs ''Docker-Distribution-Api-Version'' of Some v \<Rightarrow> v | None \<Rightarrow> ''unknown''), err)
     | Inl msg \<Rightarrow> registry_probe nd urls (JStr msg))"

text \<open>A service that must run on the storage leader and nowhere else, with what is said of each case.\<close>

definition leader_verdict :: "bool \<Rightarrow> bool \<Rightarrow> bool \<Rightarrow> bool \<Rightarrow> string" where
  "leader_verdict lead active port_open healthy =
     (if lead then (if active \<and> port_open \<and> healthy then ''healthy'' else if active \<and> port_open then ''degraded'' else ''unhealthy'')
      else if active \<or> port_open then ''unhealthy'' else ''standby'')"

definition leader_message :: "string \<Rightarrow> string \<Rightarrow> string \<Rightarrow> string \<Rightarrow> json \<Rightarrow> bool \<Rightarrow> bool \<Rightarrow> bool \<Rightarrow> bool \<Rightarrow> string" where
  "leader_message what service version_text not_running err lead active port_open healthy =
     (if lead then (if active \<and> port_open \<and> healthy then what @ '' running and healthy ('' @ version_text @ '')''
                    else if active \<and> port_open then what @ '' running but health check failed: '' @ shown err
                    else if active then service @ '' running but port not accessible: '' @ shown err
                    else not_running)
      else if active \<or> port_open then ''Split-brain: '' @ what @ '' running on non-leader''
      else what @ '' not required (not storage leader)'')"

definition lead_reason :: "bool \<Rightarrow> json" where
  "lead_reason lead = JStr (if lead then ''storage leader'' else ''not storage leader'')"

definition check_docker_registry :: "'w etcd3 \<Rightarrow> 'w node \<Rightarrow> ('w, report) py" where
  "check_docker_registry e nd =
     py_try
       (py_bind (check_service_status nd ''docker-registry'') (\<lambda>active.
        py_bind (check_port_open nd ''localhost'' 5000) (\<lambda>port_open.
        py_bind (if port_open then registry_probe nd [''http://localhost:5000/v2/'', ''http://10.0.0.100:5000/v2/''] JNull
                 else py_return (False, JNull, JNull)) (\<lambda>(healthy, version, err).
        py_bind (is_storage_leader e nd) (\<lambda>lead.
          py_return \<lparr>r_status = leader_verdict lead active port_open healthy,
            r_details = JObj [(''service_active'', JBool active), (''container_running'', JBool False), (''port_open'', JBool port_open),
              (''health_check_passed'', JBool healthy), (''api_version'', version), (''required'', JBool lead), (''reason'', lead_reason lead),
              (''message'', JStr (leader_message ''Registry'' ''Registry'' (''API version '' @ shown version) ''Registry not running''
                 err lead active port_open healthy)),
              (''error'', err)]\<rparr>)))))
       (\<lambda>x. py_return (message_only ''error'' (''Registry check failed: '' @ n_text nd x)))"

fun json_len :: "json \<Rightarrow> int option" where
  "json_len (JStr t) = Some (int (length t))"
| "json_len (JList xs) = Some (int (length xs))"
| "json_len (JObj d) = Some (int (length d))"
| "json_len _ = None"

definition tang_key_count :: "exn + json \<Rightarrow> json" where
  "tang_key_count body =
     (case body of
        Inr (JObj d) \<Rightarrow> (case Option.bind (map_of d ''keys'') json_len of Some n \<Rightarrow> JInt n | None \<Rightarrow> JStr ''unknown'')
      | _ \<Rightarrow> JStr ''unknown'')"

definition check_tang_service :: "'w node \<Rightarrow> ('w, report) py" where
  "check_tang_service nd =
     py_try
       (py_bind (check_service_status nd ''tang-server.service'') (\<lambda>active.
        py_bind (check_port_open nd ''localhost'' 8777) (\<lambda>port_open.
        py_bind (if port_open
                 then py_bind (probe_http nd ''http://localhost:8777/adv'' ''Tang advertisement'' ''Tang'') (\<lambda>a. py_return (case a of
                        Inr (_, body) \<Rightarrow> (True, tang_key_count body, JNull) | Inl msg \<Rightarrow> (False, JNull, JStr msg)))
                 else py_return (False, JNull, JNull)) (\<lambda>(healthy, keys, err).
          let (st, msg) =
            (if active \<and> port_open \<and> healthy then (''healthy'', ''Tang server running and healthy ('' @ shown keys @ '' keys)'')
             else if active \<and> port_open then (''degraded'', ''Tang service running but advertisement failed: '' @ shown err)
             else if active then (''unhealthy'', ''Tang service running but port not accessible: '' @ shown err)
             else (''unhealthy'', ''Tang service not running''))
          in py_return \<lparr>r_status = st, r_details = JObj [(''service_active'', JBool active), (''port_open'', JBool port_open),
               (''advertisement_working'', JBool healthy), (''key_count'', keys), (''message'', JStr msg), (''error'', err)]\<rparr>))))
       (\<lambda>x. py_return (message_only ''error'' (''Tang check failed: '' @ n_text nd x)))"

definition secrets_access :: "'w node \<Rightarrow> bool \<Rightarrow> ('w, bool \<times> json) py" where
  "secrets_access nd is_mounted =
     py_try
       (py_bind (n_listdir nd ''/secrets'') (\<lambda>a. py_return (case a of
          DirListed \<Rightarrow> (True, JNull)
        | DirAbsent \<Rightarrow> (False, JStr ''/secrets directory does not exist'')
        | DirDenied \<Rightarrow> (is_mounted, JNull))))
       (\<lambda>x. py_return (False, JStr (''Error accessing /secrets: '' @ n_text nd x)))"

definition check_secrets_mount :: "'w node \<Rightarrow> ('w, report) py" where
  "check_secrets_mount nd =
     py_try
       (py_bind (n_run nd [''mountpoint'', ''-q'', ''/secrets'']) (\<lambda>r.
        let is_mounted = (pr_rc r = 0) in
        py_bind (if is_mounted
                 then py_try (py_bind (n_run nd [''findmnt'', ''-n'', ''-o'', ''SOURCE,FSTYPE,OPTIONS'', ''/secrets'']) (\<lambda>m.
                        py_return (if pr_rc m = 0 then JStr (strip (pr_out m)) else JNull))) (\<lambda>_. py_return JNull)
                 else py_return JNull) (\<lambda>mount_details.
        py_bind (secrets_access nd is_mounted) (\<lambda>(accessible, err).
          let (st, msg) =
            (if is_mounted \<and> accessible then (''healthy'', ''Secrets volume mounted and accessible'')
             else if is_mounted then (''degraded'', ''Secrets volume mounted but not accessible: '' @ shown err)
             else (''unhealthy'', ''Secrets volume not mounted''))
          in py_return \<lparr>r_status = st, r_details = JObj [(''mounted'', JBool is_mounted), (''accessible'', JBool accessible),
               (''mount_details'', mount_details), (''message'', JStr msg), (''error'', err)]\<rparr>))))
       (\<lambda>x. py_return (message_only ''error'' (''Secrets mount check failed: '' @ n_text nd x)))"

definition webui_version :: "exn + json \<Rightarrow> json" where
  "webui_version body =
     (case body of
        Inr (JObj d) \<Rightarrow> (case map_of d ''version'' of Some v \<Rightarrow> v | None \<Rightarrow> JStr ''unknown'')
      | _ \<Rightarrow> JStr ''unknown'')"

definition check_open_webui :: "'w etcd3 \<Rightarrow> 'w node \<Rightarrow> ('w, report) py" where
  "check_open_webui e nd =
     py_try
       (py_bind (check_service_status nd ''open-webui'') (\<lambda>active.
        py_bind (check_port_open nd ''localhost'' 8380) (\<lambda>port_open.
        py_bind (if port_open
                 then py_bind (probe_http nd ''http://localhost:8380/health'' ''Open-WebUI health check'' ''Open-WebUI'') (\<lambda>a. py_return (case a of
                        Inr (_, body) \<Rightarrow> (True, webui_version body, JNull) | Inl msg \<Rightarrow> (False, JNull, JStr msg)))
                 else py_return (False, JNull, JNull)) (\<lambda>(healthy, version, err).
        py_bind (is_storage_leader e nd) (\<lambda>lead.
          py_return \<lparr>r_status = leader_verdict lead active port_open healthy,
            r_details = JObj [(''service_active'', JBool active), (''port_open'', JBool port_open),
              (''health_check_passed'', JBool healthy), (''version'', version), (''required'', JBool lead), (''reason'', lead_reason lead),
              (''message'', JStr (leader_message ''Open-WebUI'' ''Open-WebUI service'' (''version '' @ shown version) ''Open-WebUI service not running''
                 err lead active port_open healthy)),
              (''error'', err)]\<rparr>)))))
       (\<lambda>x. py_return (message_only ''error'' (''Open-WebUI check failed: '' @ n_text nd x)))"


section \<open>Hosts of the registry\<close>

text \<open>\<open>_STATIC_HOSTNAME_RE\<close>: one to three lower-case letters and digits; the number is the result.\<close>

definition static_number :: "string \<Rightarrow> nat option" where
  "static_number hostname =
     (let t = chomp hostname; ls = takeWhile is_lower t; ds = dropWhile is_lower t
      in if 1 \<le> length ls \<and> length ls \<le> 3 \<and> isdigit ds then Some (digits_val ds) else None)"

record cluster_host =
  ch_hostname :: string
  ch_ip :: json
  ch_type :: json
  ch_disabled :: json

definition host_of_allocation :: "blob \<Rightarrow> cluster_host option" where
  "host_of_allocation b =
     (case b of
        Doc d \<Rightarrow> (case (map_of d ''hostname'', map_of d ''ip'', map_of d ''type'') of
          (Some (JStr h), Some ip, Some t) \<Rightarrow>
            if endswith h ''a'' \<or> static_number h = None then None
            else Some \<lparr>ch_hostname = h, ch_ip = ip, ch_type = t,
                       ch_disabled = (case map_of d ''disabled'' of Some x \<Rightarrow> x | None \<Rightarrow> JBool False)\<rparr>
        | _ \<Rightarrow> None)
      | _ \<Rightarrow> None)"

definition host_number :: "cluster_host \<Rightarrow> nat" where
  "host_number h = (case static_number (ch_hostname h) of Some n \<Rightarrow> n | None \<Rightarrow> 0)"

text \<open>Sorted by type and number; types that are no strings (none the code writes) compare only when all are equal.\<close>

definition sort_hosts :: "cluster_host list \<Rightarrow> exn + cluster_host list" where
  "sort_hosts hosts =
     (if list_all (\<lambda>h. the_str (ch_type h) \<noteq> None) hosts
      then Inr (sort_key (\<lambda>h. the (the_str (ch_type h))) (sort_key host_number hosts))
      else if list_all (\<lambda>h. ch_type h = ch_type (hd hosts)) hosts then Inr (sort_key host_number hosts)
      else Inl TypeError)"

definition get_all_hosts :: "'w etcd3 \<Rightarrow> ('w, cluster_host list) py" where
  "get_all_hosts e =
     py_try
       (py_seq (e_client e) (py_bind (e_get_prefix e BY_HOSTNAME) (\<lambda>xs.
          py_lift (sort_hosts (List.map_filter (\<lambda>(_, b). host_of_allocation b) xs)))))
       (\<lambda>_. py_return [])"

definition is_core :: "cluster_host \<Rightarrow> bool" where
  "is_core h = (ch_type h = JStr ''storage'' \<and> \<not> truthy (ch_disabled h))"

definition get_core_nodes :: "'w etcd3 \<Rightarrow> ('w, string list) py" where
  "get_core_nodes e = py_bind (get_all_hosts e) (\<lambda>hosts. py_return (map ch_hostname (filter is_core hosts)))"

section \<open>Virtual addresses\<close>

record vip =
  v_ip :: string
  v_active :: bool
  v_master :: json
  v_interface :: json
  v_error :: "string option"

definition no_vip :: "string \<Rightarrow> vip" where
  "no_vip ip = \<lparr>v_ip = ip, v_active = False, v_master = JNull, v_interface = JNull, v_error = None\<rparr>"

definition vip_error :: "'w node \<Rightarrow> exn \<Rightarrow> string" where
  "vip_error nd x = (if x = JSONDecodeError then ''JSON parse error: '' @ n_text nd x else n_text nd x)"

definition first_ifname :: "json \<Rightarrow> exn + json" where
  "first_ifname interfaces =
     (case interfaces of
        JList (i # _) \<Rightarrow> map_sum id (\<lambda>d. case map_of d ''ifname'' of Some n \<Rightarrow> n | None \<Rightarrow> JNull) (as_dict i)
      | JObj _ \<Rightarrow> Inl (KeyError ''0'')
      | JStr _ \<Rightarrow> Inl AttributeError
      | _ \<Rightarrow> Inl TypeError)"

definition vip_of_output :: "'w node \<Rightarrow> string \<Rightarrow> json \<Rightarrow> vip" where
  "vip_of_output nd ip interfaces =
     (if truthy interfaces
      then (let v = (no_vip ip)\<lparr>v_active := True, v_master := JStr (n_name nd)\<rparr> in
        case first_ifname interfaces of Inr i \<Rightarrow> v\<lparr>v_interface := i\<rparr> | Inl x \<Rightarrow> v\<lparr>v_error := Some (vip_error nd x)\<rparr>)
      else no_vip ip)"

definition check_vip :: "'w node \<Rightarrow> string \<Rightarrow> ('w, vip) py" where
  "check_vip nd ip =
     py_try
       (py_bind (n_run nd [''ip'', ''-j'', ''addr'', ''show'', ''to'', ip]) (\<lambda>r.
          if pr_rc r = 0 \<and> strip (pr_out r) \<noteq> []
          then py_bind (py_lift (n_loads nd (pr_out r))) (\<lambda>j. py_return (vip_of_output nd ip j))
          else py_return (no_vip ip)))
       (\<lambda>x. py_return ((no_vip ip)\<lparr>v_error := Some (vip_error nd x)\<rparr>))"

definition vip_details :: "vip \<Rightarrow> json" where
  "vip_details v =
     JObj ([(''ip'', JStr (v_ip v)), (''active'', JBool (v_active v)), (''master'', v_master v), (''interface'', v_interface v)]
           @ (case v_error v of Some m \<Rightarrow> [(''error'', JStr m)] | None \<Rightarrow> []))"

definition check_vip_status :: "'w node \<Rightarrow> ('w, vip \<times> vip \<times> bool) py" where
  "check_vip_status nd =
     py_bind (check_vip nd ''10.0.0.254'') (\<lambda>gateway_vip.
     py_bind (check_vip nd ''10.0.0.100'') (\<lambda>storage_vip.
     py_bind (check_service_status nd ''keepalived'') (\<lambda>keepalived. py_return (gateway_vip, storage_vip, keepalived))))"

section \<open>The report of a node\<close>

record health =
  hs_overall :: string
  hs_services :: "(string \<times> report) list"
  hs_storage_leader :: bool
  hs_dhcp_leader :: bool
  hs_drained :: bool

definition new_health :: health where
  "new_health = \<lparr>hs_overall = ''healthy'', hs_services = [], hs_storage_leader = False, hs_dhcp_leader = False, hs_drained = False\<rparr>"

definition set_service :: "string \<Rightarrow> string \<Rightarrow> json \<Rightarrow> health \<Rightarrow> health" where
  "set_service name st details h = h\<lparr>hs_services := AList.update name \<lparr>r_status = st, r_details = details\<rparr> (hs_services h)\<rparr>"

definition unhealthy :: "health \<Rightarrow> health" where
  "unhealthy h = h\<lparr>hs_overall := ''unhealthy''\<rparr>"

definition degraded :: "health \<Rightarrow> health" where
  "degraded h = (if hs_overall h = ''healthy'' then h\<lparr>hs_overall := ''degraded''\<rparr> else h)"

definition not_required :: "string \<Rightarrow> string \<Rightarrow> health \<Rightarrow> health" where
  "not_required name reason h = set_service name ''not_applicable'' (JObj [(''reason'', JStr reason)]) h"

definition health_etcd :: "'w etcd3 \<Rightarrow> 'w node \<Rightarrow> health \<Rightarrow> ('w, health) py" where
  "health_etcd e nd h =
     (if is_etcd_node nd
      then py_try (py_seq (e_client e) (py_seq (e_get e ''/test'') (py_return (set_service ''etcd'' ''healthy'' (JStr ''connected'') h))))
             (\<lambda>x. py_return (unhealthy (set_service ''etcd'' ''unhealthy'' (JStr (n_text nd x)) h)))
      else py_return (not_required ''etcd'' ''admin-api uses etcd only on storage nodes'' h))"

definition health_ceph :: "'w node \<Rightarrow> health \<Rightarrow> ('w, health) py" where
  "health_ceph nd h =
     (if get_current_node_type nd = ''storage''
      then py_bind (check_ceph_status nd) (\<lambda>r.
             let h' = set_service ''ceph'' (r_status r) (r_details r) h in
             py_return (if r_status r \<notin> {''healthy'', ''degraded''} then unhealthy h' else h'))
      else py_return (not_required ''ceph'' ''not required on compute nodes'' h))"

definition port_details :: "bool \<Rightarrow> bool \<Rightarrow> bool \<Rightarrow> string \<Rightarrow> json" where
  "port_details active port_open required reason =
     JObj [(''service_active'', JBool active), (''port_open'', JBool port_open), (''required'', JBool required), (''reason'', JStr reason)]"

text \<open>PostgreSQL, Qdrant and rathole: wanted on the leader (\<open>ok\<close>), a split brain when seen elsewhere.\<close>

definition health_on_leader :: "string \<Rightarrow> bool \<Rightarrow> bool \<Rightarrow> bool \<Rightarrow> bool \<Rightarrow> bool \<Rightarrow> health \<Rightarrow> health" where
  "health_on_leader name lead ok seen active port_open h =
     (if lead
      then (let h' = set_service name (if ok then ''healthy'' else ''unhealthy'') (port_details active port_open True ''storage leader'') h
            in if \<not> ok then unhealthy h' else h')
      else if seen
      then unhealthy (set_service name ''unhealthy'' (port_details active port_open False ''split-brain: running on non-leader'') h)
      else set_service name ''standby'' (port_details active port_open False ''not storage leader'') h)"

definition health_election :: "'w node \<Rightarrow> string \<times> string \<Rightarrow> health \<Rightarrow> ('w, health) py" where
  "health_election nd svc h =
     (if get_current_node_type nd = ''storage''
      then py_bind (check_service_status nd (snd svc)) (\<lambda>active.
             let h' = set_service (fst svc) (if active then ''healthy'' else ''unhealthy'') (JObj [(''service_active'', JBool active)]) h
             in py_return (if \<not> active then unhealthy h' else h'))
      else py_return (not_required (fst svc) ''not required on compute nodes'' h))"

definition dhcp_details :: "bool \<Rightarrow> bool \<Rightarrow> string \<Rightarrow> json" where
  "dhcp_details port_open required reason =
     JObj [(''health_port_open'', JBool port_open), (''required'', JBool required), (''reason'', JStr reason)]"

definition health_dhcp :: "'w etcd3 \<Rightarrow> 'w node \<Rightarrow> health \<Rightarrow> ('w, health) py" where
  "health_dhcp e nd h =
     py_bind (is_dhcp_leader e nd) (\<lambda>lead.
     py_bind (check_port_open nd ''localhost'' 8067) (\<lambda>port_open.
       py_return
         (if lead
          then (let h' = set_service ''dhcp'' (if port_open then ''healthy'' else ''unhealthy'') (dhcp_details port_open True ''dhcp leader'') h
                in if \<not> port_open then unhealthy h' else h')
          else if port_open
          then unhealthy (set_service ''dhcp'' ''unhealthy'' (dhcp_details port_open False ''split-brain: dhcp running on non-leader'') h)
          else set_service ''dhcp'' ''standby'' (dhcp_details port_open False ''not dhcp leader'') h)))"

definition health_dns :: "'w node \<Rightarrow> health \<Rightarrow> ('w, health) py" where
  "health_dns nd h =
     py_bind (check_dns_status nd) (\<lambda>r.
       let h' = set_service ''dns'' (r_status r) (r_details r) h in
       py_return (if r_status r = ''unhealthy'' then unhealthy h' else h'))"

definition squid_probe :: "'w node \<Rightarrow> ('w, bool \<times> json) py" where
  "squid_probe nd =
     py_try
       (py_bind (n_http nd ''http://localhost:12723/api/ping'' True) (\<lambda>a. py_return (case a of
          Http c _ _ \<Rightarrow> if c \<in> {200, 503} then (True, JNull) else (False, JStr (''HTTP '' @ int_str c))
        | HttpProxyError m \<Rightarrow> (False, JStr (''Proxy error: '' @ m))
        | HttpTimeout \<Rightarrow> (False, JStr ''Proxy timeout'')
        | HttpConnectionError m \<Rightarrow> (False, JStr (''Proxy test failed: '' @ m))
        | HttpOther m \<Rightarrow> (False, JStr (''Proxy test failed: '' @ m)))))
       (\<lambda>x. py_return (False, JStr (''Proxy test failed: '' @ n_text nd x)))"

definition health_squid :: "'w node \<Rightarrow> health \<Rightarrow> ('w, health) py" where
  "health_squid nd h =
     py_bind (check_service_status nd ''squid'') (\<lambda>active.
     py_bind (check_port_open nd ''localhost'' 3128) (\<lambda>port_open.
     py_bind (if active \<and> port_open then squid_probe nd else py_return (False, JNull)) (\<lambda>(functional, err).
       let ok = (active \<and> port_open \<and> functional);
           h' = set_service ''squid'' (if ok then ''healthy'' else ''unhealthy'') (JObj [(''service_active'', JBool active),
             (''port_open'', JBool port_open), (''proxy_functional'', JBool functional), (''error'', err)]) h
       in py_return (if \<not> ok then unhealthy h' else h'))))"

definition health_ntp :: "'w node \<Rightarrow> health \<Rightarrow> ('w, health) py" where
  "health_ntp nd h =
     py_bind (check_service_status nd ''ntp'') (\<lambda>ntp.
     py_bind (if ntp then py_return True else check_service_status nd ''chrony'') (\<lambda>active.
       let h' = set_service ''ntp'' (if active then ''healthy'' else ''unhealthy'') (JObj [(''service_active'', JBool active)]) h
       in py_return (if \<not> active then unhealthy h' else h')))"

text \<open>A report whose status is judged by lists of bad and of doubtful values.\<close>

definition judge_report :: "string \<Rightarrow> string set \<Rightarrow> string \<Rightarrow> report \<Rightarrow> health \<Rightarrow> health" where
  "judge_report name bad doubtful r h =
     (let h' = set_service name (r_status r) (r_details r) h in
      if r_status r \<in> bad then unhealthy h' else if r_status r = doubtful then degraded h' else h')"

definition health_keepalived :: "'w etcd3 \<Rightarrow> 'w node \<Rightarrow> health \<Rightarrow> ('w, health) py" where
  "health_keepalived e nd h =
     py_bind (if is_etcd_node nd then py_bind (get_core_nodes e) (\<lambda>ns. py_return (n_name nd \<in> set ns)) else py_return False) (\<lambda>core.
     py_bind (check_service_status nd ''keepalived'') (\<lambda>active.
       py_return
         (if core
          then (let h' = set_service ''keepalived'' (if active then ''healthy'' else ''unhealthy'') (JObj [(''service_active'', JBool active)]) h
                in if \<not> active then unhealthy h' else h')
          else if active
          then unhealthy (set_service ''keepalived'' ''unhealthy'' (JObj [(''service_active'', JBool active),
                 (''reason'', JStr ''split-brain: keepalived running on non-core node'')]) h)
          else set_service ''keepalived'' ''standby'' (JObj [(''service_active'', JBool active), (''reason'', JStr ''not a core node'')]) h)))"

definition health_on_storage :: "'w node \<Rightarrow> string \<Rightarrow> ('w, report) py \<Rightarrow> health \<Rightarrow> ('w, health) py" where
  "health_on_storage nd name check h =
     (if get_current_node_type nd = ''storage''
      then py_bind check (\<lambda>r. py_return (judge_report name {''unhealthy'', ''error''} ''degraded'' r h))
      else py_return (not_required name ''not required on compute nodes'' h))"

definition health_vips :: "'w node \<Rightarrow> health \<Rightarrow> ('w, health) py" where
  "health_vips nd h =
     py_bind (check_vip_status nd) (\<lambda>(gateway_vip, storage_vip, _).
       py_return (set_service ''storage_vip'' (if v_active storage_vip then ''healthy'' else ''standby'') (vip_details storage_vip)
         (set_service ''gateway_vip'' (if v_active gateway_vip then ''healthy'' else ''standby'') (vip_details gateway_vip) h)))"

text \<open>The report in three stretches: the stores and elections (with whether the node is the storage leader), the network, the rest.\<close>

definition health_stores :: "'w etcd3 \<Rightarrow> 'w node \<Rightarrow> ('w, bool \<times> health) py" where
  "health_stores e nd =
     py_bind (health_etcd e nd new_health) (\<lambda>h.
     py_bind (health_ceph nd h) (\<lambda>h.
     py_bind (check_service_status nd ''postgresql@16-main'') (\<lambda>pg.
     py_bind (check_port_open nd ''localhost'' 5432) (\<lambda>pg_port.
     py_bind (is_storage_leader e nd) (\<lambda>lead.
     py_bind (py_return (health_on_leader ''postgresql'' lead (pg \<and> pg_port) (pg \<or> pg_port) pg pg_port h)) (\<lambda>h.
     py_bind (check_service_status nd ''qdrant'') (\<lambda>qd.
     py_bind (check_port_open nd ''localhost'' 6333) (\<lambda>qd_port.
     py_bind (py_return (health_on_leader ''qdrant'' lead (qd \<and> qd_port) (qd \<or> qd_port) qd qd_port h)) (\<lambda>h.
     py_bind (health_election nd (''storage_leader_election'', ''storage-leader-election'') h) (\<lambda>h.
     py_bind (health_election nd (''dhcp_leader_election'', ''dhcp-leader-election'') h) (\<lambda>h.
       py_return (lead, h))))))))))))"

definition health_network :: "'w etcd3 \<Rightarrow> 'w node \<Rightarrow> bool \<Rightarrow> health \<Rightarrow> ('w, health) py" where
  "health_network e nd lead h =
     py_bind (health_dhcp e nd h) (\<lambda>h.
     py_bind (health_dns nd h) (\<lambda>h.
     py_bind (health_squid nd h) (\<lambda>h.
     py_bind (health_ntp nd h) (\<lambda>h.
     py_bind (check_certificate_expiry e nd) (\<lambda>crt.
     py_bind (py_return (judge_report ''tls_certificate'' {''expired'', ''critical''} ''warning'' crt h)) (\<lambda>h.
     py_bind (check_service_status nd ''rathole'') (\<lambda>rh.
     py_bind (check_port_open nd ''localhost'' 2333) (\<lambda>rh_port.
     py_bind (py_return (health_on_leader ''rathole'' lead rh rh rh rh_port h)) (\<lambda>h.
     py_bind (check_clock_skew nd) (\<lambda>skew.
       py_return (judge_report ''clock_skew'' {''critical'', ''error''} ''warning'' skew h)))))))))))"

definition health_platform :: "'w etcd3 \<Rightarrow> 'w node \<Rightarrow> health \<Rightarrow> ('w, health) py" where
  "health_platform e nd h =
     py_bind (health_on_storage nd ''docker_daemon'' (check_docker_daemon nd) h) (\<lambda>h.
     py_bind (check_docker_registry e nd) (\<lambda>reg.
     py_bind (py_return (judge_report ''docker_registry'' {''unhealthy'', ''error''} ''degraded'' reg h)) (\<lambda>h.
     py_bind (health_on_storage nd ''tang'' (check_tang_service nd) h) (\<lambda>h.
     py_bind (health_on_storage nd ''secrets_mount'' (check_secrets_mount nd) h) (\<lambda>h.
     py_bind (check_open_webui e nd) (\<lambda>webui.
     py_bind (py_return (judge_report ''open_webui'' {''unhealthy'', ''error''} ''degraded'' webui h)) (\<lambda>h.
     py_bind (health_vips nd h) (\<lambda>h. health_keepalived e nd h))))))))"

definition get_comprehensive_health :: "'w etcd3 \<Rightarrow> 'w node \<Rightarrow> ('w, health) py" where
  "get_comprehensive_health e nd =
     py_bind (health_stores e nd) (\<lambda>(lead, h).
     py_bind (health_network e nd lead h) (\<lambda>h.
     py_bind (health_platform e nd h) (\<lambda>h.
     py_bind (is_storage_leader e nd) (\<lambda>storage_lead.
     py_bind (is_dhcp_leader e nd) (\<lambda>dhcp_lead.
     py_bind (is_node_drained e nd) (\<lambda>drained.
       py_return (h\<lparr>hs_storage_leader := storage_lead, hs_dhcp_leader := dhcp_lead, hs_drained := drained\<rparr>)))))))"

definition health_endpoint :: "'w etcd3 \<Rightarrow> 'w node \<Rightarrow> ('w, int \<times> health) py" where
  "health_endpoint e nd =
     py_bind (get_comprehensive_health e nd) (\<lambda>h. py_return (if hs_overall h = ''healthy'' then 200 else 503, h))"

section \<open>Every report is complete and its verdict the worst of its services\<close>

text \<open>\<open>sure m\<close>: the call never raises, and what it returns satisfies \<open>P\<close>.\<close>

definition sure :: "('a \<Rightarrow> bool) \<Rightarrow> ('w, 'a) py \<Rightarrow> bool" where
  "sure P m = (\<forall>w. wp m (\<lambda>x _. P x) (\<lambda>_ _. False) w)"

lemma sure_return: "P x \<Longrightarrow> sure P (py_return x)"
  by (simp add: sure_def wp_simps)

lemma sure_bind: "sure R m \<Longrightarrow> (\<And>x. R x \<Longrightarrow> sure P (f x)) \<Longrightarrow> sure P (py_bind m f)"
  unfolding sure_def wp_bind by (blast intro: wp_mono)

lemma sure_mono: "sure P m \<Longrightarrow> (\<And>x. P x \<Longrightarrow> Q x) \<Longrightarrow> sure Q m"
  unfolding sure_def by (blast intro: wp_mono)

lemma sure_if: "(c \<Longrightarrow> sure P m) \<Longrightarrow> (\<not> c \<Longrightarrow> sure P n) \<Longrightarrow> sure P (if c then m else n)"
  by simp

lemma wp_returns: "wp m Q (\<lambda>_ _. False) w \<Longrightarrow> \<exists>x w'. m w = (Inr x, w') \<and> Q x w'"
  by (auto simp: wp_def split: prod.splits sum.splits)

lemma wp_total: "(\<And>x w. Q x w) \<Longrightarrow> (\<And>x w. E x w) \<Longrightarrow> wp m Q E w"
  by (auto simp: wp_def split: prod.splits sum.splits)

text \<open>A call inside \<open>try\<close> may do anything, as long as what it returns is right.\<close>

definition gives :: "('a \<Rightarrow> bool) \<Rightarrow> ('w, 'a) py \<Rightarrow> bool" where
  "gives P m = (\<forall>w. wp m (\<lambda>x _. P x) (\<lambda>_ _. True) w)"

lemma gives_return: "P x \<Longrightarrow> gives P (py_return x)"
  by (simp add: gives_def wp_simps)

lemma gives_bind: "(\<And>x. gives P (f x)) \<Longrightarrow> gives P (py_bind m f)"
  unfolding gives_def wp_bind by (blast intro: wp_total)

lemma gives_seq: "gives P n \<Longrightarrow> gives P (py_seq m n)"
  unfolding gives_def wp_seq by (blast intro: wp_total)

lemma sure_try: "gives P m \<Longrightarrow> (\<And>x. sure P (h x)) \<Longrightarrow> sure P (py_try m h)"
  unfolding sure_def gives_def wp_try by (blast intro: wp_mono)

lemma gives_any: "gives (\<lambda>_. True) m"
  by (simp add: gives_def wp_total)

abbreviation runs :: "('w, 'a) py \<Rightarrow> bool" where
  "runs \<equiv> sure (\<lambda>_. True)"

lemmas sure_rules = sure_return sure_try sure_if gives_return gives_bind gives_seq gives_any

lemma runs_probe: "runs (check_service_status nd s)" "runs (check_port_open nd hst p)" "runs (is_storage_leader e nd)"
    "runs (is_dhcp_leader e nd)" "runs (is_node_drained e nd)" "runs (squid_probe nd)" "runs (get_all_hosts e)" "runs (check_vip nd ip)"
  unfolding check_service_status_def check_port_open_def is_storage_leader_def is_dhcp_leader_def is_node_drained_def squid_probe_def
    get_all_hosts_def check_vip_def
  by (intro sure_rules TrueI)+

lemma runs_bind: "runs m \<Longrightarrow> (\<And>x. sure P (f x)) \<Longrightarrow> sure P (py_bind m f)"
  by (rule sure_bind)

lemma runs_derived: "runs (get_core_nodes e)" "runs (check_vip_status nd)"
  unfolding get_core_nodes_def check_vip_status_def
  by (intro runs_bind runs_probe sure_return TrueI)+

text \<open>How the verdict weighs the status of each service, and the statuses each service can have.\<close>

definition judged_by_report :: "string list" where
  "judged_by_report = [''docker_daemon'', ''docker_registry'', ''tang'', ''secrets_mount'', ''open_webui'']"

definition severity :: "string \<Rightarrow> string \<Rightarrow> nat" where
  "severity name st =
     (if name \<in> {''gateway_vip'', ''storage_vip''} then 0
      else if name = ''ceph'' then (if st \<in> {''unhealthy'', ''error'', ''unavailable''} then 2 else 0)
      else if name = ''tls_certificate'' then (if st \<in> {''expired'', ''critical''} then 2 else if st = ''warning'' then 1 else 0)
      else if name = ''clock_skew'' then (if st \<in> {''critical'', ''error''} then 2 else if st = ''warning'' then 1 else 0)
      else if name \<in> set judged_by_report then (if st \<in> {''unhealthy'', ''error''} then 2 else if st = ''degraded'' then 1 else 0)
      else (if st = ''unhealthy'' then 2 else 0))"

definition statuses :: "string \<Rightarrow> string list" where
  "statuses name =
     (if name = ''ceph'' then [''healthy'', ''degraded'', ''unhealthy'', ''error'', ''unavailable'', ''not_applicable'']
      else if name = ''tls_certificate'' then [''healthy'', ''warning'', ''critical'', ''expired'', ''error'', ''not_configured'', ''not_applicable'']
      else if name = ''clock_skew'' then [''healthy'', ''warning'', ''critical'', ''error'']
      else if name = ''dns'' then [''healthy'', ''degraded'', ''unhealthy'', ''error'']
      else if name \<in> set judged_by_report then [''healthy'', ''degraded'', ''unhealthy'', ''error'', ''standby'', ''not_applicable'']
      else [''healthy'', ''unhealthy'', ''standby'', ''not_applicable''])"

definition worst :: "(string \<times> report) list \<Rightarrow> nat" where
  "worst svcs = fold max (map (\<lambda>(n, r). severity n (r_status r)) svcs) 0"

definition grade :: "nat \<Rightarrow> string" where
  "grade k = (if k = 0 then ''healthy'' else if k = 1 then ''degraded'' else ''unhealthy'')"

definition sound :: "string list \<Rightarrow> health \<Rightarrow> bool" where
  "sound ks h = (map fst (hs_services h) = ks \<and> hs_overall h = grade (worst (hs_services h))
     \<and> (\<forall>(n, r) \<in> set (hs_services h). r_status r \<in> set (statuses n)))"

text \<open>One more service.\<close>

definition weigh :: "nat \<Rightarrow> health \<Rightarrow> health" where
  "weigh k h = (if k = 0 then h else if k = 1 then degraded h else unhealthy h)"

lemma worst_snoc: "worst (xs @ [(n, r)]) = max (severity n (r_status r)) (worst xs)"
  by (simp add: worst_def)

lemma update_fresh: "k \<notin> fst ` set xs \<Longrightarrow> AList.update k v xs = xs @ [(k, v)]"
  by (induction xs) auto

lemma sound_add:
  assumes "sound ks h" and "name \<notin> set ks" and "st \<in> set (statuses name)"
  shows "sound (ks @ [name]) (weigh (severity name st) (set_service name st d h))"
proof -
  have ks: "fst ` set (hs_services h) = set ks" using assms(1) by (metis sound_def list.set_map)
  have new: "hs_services (set_service name st d h) = hs_services h @ [(name, \<lparr>r_status = st, r_details = d\<rparr>)]"
    using assms(2) ks by (simp add: set_service_def update_fresh)
  have keep: "hs_services (weigh k g) = hs_services g" "hs_overall (set_service name st d h) = hs_overall h" for k g
    by (simp_all add: weigh_def degraded_def unhealthy_def set_service_def)
  have "hs_overall (weigh k g) = grade (max k j)" if "hs_overall g = grade j" for k j g
    using that by (auto simp: weigh_def degraded_def unhealthy_def grade_def max_def)
  with assms new keep show ?thesis by (auto simp: sound_def worst_snoc)
qed


lemma sound_parts:
  assumes "sound ks h" and "name \<notin> set ks"
  shows "st \<in> set (statuses name) \<Longrightarrow> severity name st = 0 \<Longrightarrow> sound (ks @ [name]) (set_service name st d h)"
    and "st \<in> set (statuses name) \<Longrightarrow> severity name st = 2 \<Longrightarrow> sound (ks @ [name]) (unhealthy (set_service name st d h))"
    and "st \<in> set (statuses name) \<Longrightarrow> severity name st = 1 \<Longrightarrow> sound (ks @ [name]) (degraded (set_service name st d h))"
    and "''not_applicable'' \<in> set (statuses name) \<Longrightarrow> severity name ''not_applicable'' = 0 \<Longrightarrow> sound (ks @ [name]) (not_required name reason h)"
  using sound_add [OF assms, of st d] sound_add [OF assms, of "''not_applicable''" "JObj [(''reason'', JStr reason)]"]
  by (simp_all add: weigh_def not_required_def)

lemmas status_simps = statuses_def severity_def judged_by_report_def

lemma sure_ceph: "sure (\<lambda>r. r_status r \<in> {''healthy'', ''degraded'', ''unhealthy'', ''error'', ''unavailable''}) (check_ceph_status nd)"
  unfolding check_ceph_status_def Let_def
  by (intro sure_try gives_bind) (auto intro!: gives_return sure_return)

lemma sure_dns: "sure (\<lambda>r. r_status r \<in> set (statuses ''dns'')) (check_dns_status nd)"
  unfolding check_dns_status_def Let_def split_def
  by (intro sure_try gives_bind) (auto simp: statuses_def judged_by_report_def intro!: gives_return sure_return)

lemma cert_status_range: "cert_status days \<in> {''healthy'', ''warning'', ''critical'', ''expired''}"
  by (simp add: cert_status_def)

lemma cert_report_range: "r_status (cert_report c now) \<in> set (statuses ''tls_certificate'')"
  using cert_status_range [of "days_until (ct_not_after c) now"] by (auto simp: cert_report_def Let_def statuses_def)

lemma cert_members: "list_all (\<lambda>st. st \<in> set (statuses ''tls_certificate'')) [''not_applicable'', ''not_configured'', ''error'']"
  by code_simp

lemma sure_certificate: "sure (\<lambda>r. r_status r \<in> set (statuses ''tls_certificate'')) (check_certificate_expiry e nd)"
  unfolding check_certificate_expiry_def
  by (intro sure_if sure_try gives_seq gives_bind)
    (use cert_members cert_report_range in \<open>auto split: option.splits intro!: gives_return sure_return gives_bind\<close>)

lemma sure_clock: "sure (\<lambda>r. r_status r \<in> set (statuses ''clock_skew'')) (check_clock_skew nd)"
  unfolding check_clock_skew_def
  by (intro sure_try gives_bind)
    (auto simp: statuses_def judged_by_report_def message_only_def classify_clock_offset_def Let_def
      split: ntp_reply.splits prod.splits intro!: gives_return sure_return)

lemma sure_report:
  assumes "name \<in> set judged_by_report"
  shows "sure (\<lambda>r. r_status r \<in> set (statuses name)) (check_docker_daemon nd)"
    "sure (\<lambda>r. r_status r \<in> set (statuses name)) (check_docker_registry e nd)"
    "sure (\<lambda>r. r_status r \<in> set (statuses name)) (check_tang_service nd)"
    "sure (\<lambda>r. r_status r \<in> set (statuses name)) (check_secrets_mount nd)"
    "sure (\<lambda>r. r_status r \<in> set (statuses name)) (check_open_webui e nd)"
proof -
  have st: "set (statuses name) = {''healthy'', ''degraded'', ''unhealthy'', ''error'', ''standby'', ''not_applicable''}"
    using assms by (auto simp: statuses_def judged_by_report_def)
  show "sure (\<lambda>r. r_status r \<in> set (statuses name)) (check_docker_daemon nd)"
    unfolding st check_docker_daemon_def
    by (intro sure_try gives_bind) (auto simp: message_only_def intro!: gives_return sure_return)
  show "sure (\<lambda>r. r_status r \<in> set (statuses name)) (check_docker_registry e nd)"
    unfolding st check_docker_registry_def split_def
    by (intro sure_try gives_bind) (auto simp: message_only_def leader_verdict_def intro!: gives_return sure_return)
  show "sure (\<lambda>r. r_status r \<in> set (statuses name)) (check_tang_service nd)"
    unfolding st check_tang_service_def Let_def split_def
    by (intro sure_try gives_bind) (auto simp: message_only_def intro!: gives_return sure_return)
  show "sure (\<lambda>r. r_status r \<in> set (statuses name)) (check_secrets_mount nd)"
    unfolding st check_secrets_mount_def Let_def split_def
    by (intro sure_try gives_bind) (auto simp: message_only_def intro!: gives_return sure_return)
  show "sure (\<lambda>r. r_status r \<in> set (statuses name)) (check_open_webui e nd)"
    unfolding st check_open_webui_def split_def
    by (intro sure_try gives_bind) (auto simp: message_only_def leader_verdict_def intro!: gives_return sure_return)
qed

text \<open>The parts of the report.\<close>

lemma sound_new: "sound [] new_health"
  by (simp add: sound_def new_health_def worst_def grade_def)

text \<open>Services with a yes-or-no verdict, and services judged by the status their check reports.\<close>

definition plain_service :: "string \<Rightarrow> bool" where
  "plain_service name = (severity name ''healthy'' = 0 \<and> severity name ''unhealthy'' = 2 \<and> severity name ''standby'' = 0
     \<and> severity name ''not_applicable'' = 0
     \<and> list_all (\<lambda>st. st \<in> set (statuses name)) [''healthy'', ''unhealthy'', ''standby'', ''not_applicable''])"

definition judged_service :: "string \<Rightarrow> string set \<Rightarrow> string \<Rightarrow> bool" where
  "judged_service name bad doubtful =
     list_all (\<lambda>st. severity name st = (if st \<in> bad then 2 else if st = doubtful then 1 else 0)) (statuses name)"

lemma plain_services:
  "list_all plain_service [''etcd'', ''postgresql'', ''qdrant'', ''storage_leader_election'', ''dhcp_leader_election'', ''dhcp'',
     ''squid'', ''ntp'', ''rathole'', ''keepalived'']"
  by code_simp

lemma judged_services:
  "judged_service ''tls_certificate'' {''expired'', ''critical''} ''warning''"
  "judged_service ''clock_skew'' {''critical'', ''error''} ''warning''"
  "list_all (\<lambda>name. judged_service name {''unhealthy'', ''error''} ''degraded'' \<and> severity name ''not_applicable'' = 0
     \<and> ''not_applicable'' \<in> set (statuses name)) judged_by_report"
  by code_simp+

lemma plain_parts:
  assumes "sound ks h" and "name \<notin> set ks" and "plain_service name"
  shows "sound (ks @ [name]) (set_service name ''healthy'' d h)" "sound (ks @ [name]) (set_service name ''standby'' d h)"
    "sound (ks @ [name]) (unhealthy (set_service name ''unhealthy'' d h))" "sound (ks @ [name]) (not_required name reason h)"
  using assms(3) by (auto simp: plain_service_def intro!: sound_parts [OF assms(1,2)])

lemma sound_on_leader:
  assumes "sound ks h" and "name \<notin> set ks" and "plain_service name"
  shows "sound (ks @ [name]) (health_on_leader name lead ok seen active port_open h)"
  using plain_parts [OF assms] by (simp add: health_on_leader_def Let_def)

lemma runs_if: "runs m \<Longrightarrow> runs n \<Longrightarrow> runs (if c then m else n)"
  by simp

lemma runs_optional: "runs (if c then squid_probe nd else py_return x)" "runs (if c then py_return b else check_service_status nd s)"
    "runs (if c then py_bind (get_core_nodes e) (\<lambda>ns. py_return (f ns)) else py_return y)"
  by (intro runs_if runs_probe runs_bind [OF runs_derived(1)] sure_return TrueI)+

lemma part_etcd:
  assumes "sound ks h" and "''etcd'' \<notin> set ks"
  shows "sure (sound (ks @ [''etcd''])) (health_etcd e nd h)"
  unfolding health_etcd_def
  by (intro sure_if sure_try gives_seq gives_return sure_return plain_parts [OF assms]) (use plain_services in simp_all)

lemma part_ceph:
  assumes "sound ks h" and "''ceph'' \<notin> set ks"
  shows "sure (sound (ks @ [''ceph''])) (health_ceph nd h)"
  unfolding health_ceph_def Let_def
  by (intro sure_if sure_bind [OF sure_ceph] sure_return)
    (auto intro!: sound_parts [OF assms] simp: status_simps)

lemma part_election:
  assumes "sound ks h" and "name \<notin> set ks" and "plain_service name"
  shows "sure (sound (ks @ [name])) (health_election nd (name, unit) h)"
  unfolding health_election_def Let_def fst_conv snd_conv
  by (intro sure_if runs_bind [OF runs_probe(1)] sure_return) (use plain_parts [OF assms] in simp_all)

lemma part_dhcp:
  assumes "sound ks h" and "''dhcp'' \<notin> set ks" and "plain_service ''dhcp''"
  shows "sure (sound (ks @ [''dhcp''])) (health_dhcp e nd h)"
  unfolding health_dhcp_def Let_def
  by (intro runs_bind [OF runs_probe(4)] runs_bind [OF runs_probe(2)] sure_return) (use plain_parts [OF assms] in simp)

lemma part_dns:
  assumes "sound ks h" and "''dns'' \<notin> set ks"
  shows "sure (sound (ks @ [''dns''])) (health_dns nd h)"
  unfolding health_dns_def Let_def
  by (intro sure_bind [OF sure_dns] sure_return) (auto intro!: sound_parts [OF assms] simp: status_simps)

lemma part_squid:
  assumes "sound ks h" and "''squid'' \<notin> set ks" and "plain_service ''squid''"
  shows "sure (sound (ks @ [''squid''])) (health_squid nd h)"
  unfolding health_squid_def Let_def split_def
  by (intro runs_bind [OF runs_probe(1)] runs_bind [OF runs_probe(2)] runs_bind [OF runs_optional(1)] sure_return)
    (use plain_parts [OF assms] in simp)

lemma part_ntp:
  assumes "sound ks h" and "''ntp'' \<notin> set ks" and "plain_service ''ntp''"
  shows "sure (sound (ks @ [''ntp''])) (health_ntp nd h)"
  unfolding health_ntp_def Let_def
  by (intro runs_bind [OF runs_probe(1)] runs_bind [OF runs_optional(2)] sure_return)
    (use plain_parts [OF assms] in simp)

lemma part_judged:
  assumes "sound ks h" and "name \<notin> set ks" and st: "r_status r \<in> set (statuses name)" and "judged_service name bad doubtful"
  shows "sound (ks @ [name]) (judge_report name bad doubtful r h)"
proof -
  have "severity name (r_status r) = (if r_status r \<in> bad then 2 else if r_status r = doubtful then 1 else 0)"
    using assms(4) st by (simp add: judged_service_def list_all_iff)
  then show ?thesis
    using sound_parts(1-3) [OF assms(1,2) st] by (auto simp: judge_report_def Let_def)
qed

lemma part_on_storage:
  assumes "sound ks h" and "name \<notin> set ks" and name: "name \<in> set judged_by_report" and "sure (\<lambda>r. r_status r \<in> set (statuses name)) check"
  shows "sure (sound (ks @ [name])) (health_on_storage nd name check h)"
proof -
  from judged_services(3) name have j: "judged_service name {''unhealthy'', ''error''} ''degraded''" "severity name ''not_applicable'' = 0"
    "''not_applicable'' \<in> set (statuses name)" by (simp_all add: list_all_iff)
  show ?thesis unfolding health_on_storage_def
    by (intro sure_if sure_bind [OF assms(4)] sure_return part_judged [OF assms(1,2) _ j(1)] sound_parts(4) [OF assms(1,2) j(3,2)])
qed

lemma part_vips:
  assumes "sound ks h" and "''gateway_vip'' \<notin> set ks" and "''storage_vip'' \<notin> set ks"
  shows "sure (sound ((ks @ [''gateway_vip'']) @ [''storage_vip''])) (health_vips nd h)"
  unfolding health_vips_def split_def
  by (intro runs_bind [OF runs_derived(2)] sure_return sound_parts(1) sound_parts(1) [OF assms(1,2)])
    (use assms(2,3) in \<open>auto simp: status_simps\<close>)

lemma part_keepalived:
  assumes "sound ks h" and "''keepalived'' \<notin> set ks" and "plain_service ''keepalived''"
  shows "sure (sound (ks @ [''keepalived''])) (health_keepalived e nd h)"
  unfolding health_keepalived_def Let_def
  by (intro runs_bind [OF runs_optional(3)] runs_bind [OF runs_probe(1)] sure_return)
    (use plain_parts [OF assms] in simp)

definition SERVICES :: "string list" where
  "SERVICES = [''etcd'', ''ceph'', ''postgresql'', ''qdrant'', ''storage_leader_election'', ''dhcp_leader_election'', ''dhcp'', ''dns'',
     ''squid'', ''ntp'', ''tls_certificate'', ''rathole'', ''clock_skew'', ''docker_daemon'', ''docker_registry'', ''tang'',
     ''secrets_mount'', ''open_webui'', ''gateway_vip'', ''storage_vip'', ''keepalived'']"

lemma sound_flags: "sound ks (h\<lparr>hs_storage_leader := a, hs_dhcp_leader := b, hs_drained := c\<rparr>) = sound ks h"
  by (simp add: sound_def)

lemma part_on_leader:
  "\<lbrakk>sound ks h; name \<notin> set ks; plain_service name\<rbrakk>
    \<Longrightarrow> sure (sound (ks @ [name])) (py_return (health_on_leader name lead ok seen active port_open h))"
  by (intro sure_return sound_on_leader)

lemma part_judge:
  "\<lbrakk>sound ks h; name \<notin> set ks; r_status r \<in> set (statuses name); judged_service name bad doubtful\<rbrakk>
    \<Longrightarrow> sure (sound (ks @ [name])) (py_return (judge_report name bad doubtful r h))"
  by (intro sure_return part_judged)

lemmas report_steps = sure_bind [OF part_etcd] sure_bind [OF part_ceph] sure_bind [OF part_on_leader] sure_bind [OF part_election]
  sure_bind [OF part_dhcp] sure_bind [OF part_dns] sure_bind [OF part_squid] sure_bind [OF part_ntp] sure_bind [OF part_judge]
  sure_bind [OF part_on_storage] sure_bind [OF part_vips] sure_bind [OF part_keepalived]
  sure_bind [OF sure_certificate] sure_bind [OF sure_clock]
  sure_bind [OF sure_report(2) [where name = "''docker_registry''"]] sure_bind [OF sure_report(5) [where name = "''open_webui''"]]
  runs_bind [OF runs_probe(1)] runs_bind [OF runs_probe(2)] runs_bind [OF runs_probe(3)] runs_bind [OF runs_probe(4)] runs_bind [OF runs_probe(5)]

lemma report_classes:
  "plain_service ''postgresql''" "plain_service ''qdrant''" "plain_service ''storage_leader_election''"
  "plain_service ''dhcp_leader_election''" "plain_service ''dhcp''" "plain_service ''squid''" "plain_service ''ntp''"
  "plain_service ''rathole''" "plain_service ''keepalived''"
  "judged_service ''docker_registry'' {''unhealthy'', ''error''} ''degraded''" "judged_service ''open_webui'' {''unhealthy'', ''error''} ''degraded''"
  "''docker_daemon'' \<in> set judged_by_report" "''tang'' \<in> set judged_by_report" "''secrets_mount'' \<in> set judged_by_report"
  "''docker_registry'' \<in> set judged_by_report" "''open_webui'' \<in> set judged_by_report"
  using plain_services judged_services(3) by (simp_all add: judged_by_report_def)

lemma stores_sound: "sure (\<lambda>r. sound (take 6 SERVICES) (snd r)) (health_stores e nd)"
  unfolding health_stores_def
  by (intro report_steps sure_return) (assumption | rule sound_new report_classes | simp add: SERVICES_def)+

lemma network_sound: "sound (take 6 SERVICES) h \<Longrightarrow> sure (sound (take 13 SERVICES)) (health_network e nd lead h)"
  unfolding health_network_def
  by (intro report_steps sure_mono [OF part_judge])
    (assumption | rule report_classes judged_services(1,2) | simp add: SERVICES_def)+

lemma platform_sound: "sound (take 13 SERVICES) h \<Longrightarrow> sure (sound SERVICES) (health_platform e nd h)"
  unfolding health_platform_def
  by (intro report_steps sure_mono [OF part_keepalived])
    (assumption | rule report_classes sure_report | simp add: SERVICES_def)+

lemma report_sound: "sure (sound SERVICES) (get_comprehensive_health e nd)"
  unfolding get_comprehensive_health_def split_def
  by (intro sure_bind [OF stores_sound] sure_bind [OF network_sound] sure_bind [OF platform_sound] report_steps sure_return)
    (assumption | simp add: sound_flags)+

text \<open>C12: whatever the probes of a node do, its health report is produced, names every service in turn with a status of that
  service's vocabulary, and its overall verdict is the worst weight of its services; the endpoint answers 200 exactly
  when no service weighs anything.\<close>

theorem health_report_total:
  "\<exists>h s'. health_endpoint e nd s = (Inr (if worst (hs_services h) = 0 then 200 else 503, h), s')
     \<and> get_comprehensive_health e nd s = (Inr h, s') \<and> map fst (hs_services h) = SERVICES
     \<and> list_all (\<lambda>(name, r). r_status r \<in> set (statuses name)) (hs_services h)
     \<and> hs_overall h = grade (worst (hs_services h))"
proof -
  have "wp (get_comprehensive_health e nd) (\<lambda>h _. sound SERVICES h) (\<lambda>_ _. False) s"
    using report_sound [of e nd] by (simp add: sure_def)
  from wp_returns [OF this] obtain h s' where "get_comprehensive_health e nd s = (Inr h, s')" "sound SERVICES h" by blast
  then show ?thesis
    by (auto simp: health_endpoint_def sound_def list_all_iff py_bind_def py_return_def grade_def)
qed

end
