(* ===== verification/YCluster.thy ===== *)
theory YCluster
  imports YHealth
begin

text \<open>
  What is made of the health of the nodes (\<open>app.py\<close>): the metrics of a node, the health of all hosts with the
  correction for adhoc nodes, the state of the virtual addresses across the core nodes, leadership, the
  targets given to Prometheus and the status of the cluster.
\<close>

section \<open>Metrics\<close>

definition dq :: string where
  "dq = [CHR 0x22]"

definition metric :: "'w node \<Rightarrow> string \<Rightarrow> (string \<times> string) list \<Rightarrow> string \<Rightarrow> string" where
  "metric nd name labels v =
     name @ ''{'' @ join '','' (map (\<lambda>(k, x). k @ ''='' @ dq @ x @ dq) ((''node'', n_name nd) # labels)) @ ''} '' @ v"

definition service_value :: "string \<Rightarrow> string" where
  "service_value st =
     (if st = ''healthy'' then ''0'' else if st = ''degraded'' then ''1'' else if st = ''unhealthy'' then ''2''
      else if st = ''standby'' then ''3'' else ''2'')"

definition ceph_metric :: "'w node \<Rightarrow> string \<Rightarrow> report \<Rightarrow> string list" where
  "ceph_metric nd service r =
     (if service = ''ceph'' \<and> (case r_details r of JObj _ \<Rightarrow> True | _ \<Rightarrow> False)
      then [metric nd ''ycluster_ceph_health'' [] (if r_details r = JStr ''HEALTH_OK'' then ''1'' else ''0'')]
      else [])"

definition service_metrics :: "'w node \<Rightarrow> string \<times> report \<Rightarrow> string list" where
  "service_metrics nd x =
     metric nd ''ycluster_service_health'' [(''service'', fst x)] (service_value (r_status (snd x))) # ceph_metric nd (fst x) (snd x)"

definition flag :: "bool \<Rightarrow> string" where
  "flag b = (if b then ''1'' else ''0'')"

definition expiry_metric :: "'w node \<Rightarrow> report \<Rightarrow> string list" where
  "expiry_metric nd r =
     (case r_details r of
        JObj d \<Rightarrow> (case map_of d ''days_until_expiry'' of
          Some j \<Rightarrow> if j = JNull then [] else [metric nd ''ycluster_certificate_days_until_expiry'' [] (shown j)]
        | None \<Rightarrow> [])
      | _ \<Rightarrow> [])"

definition prometheus_metrics :: "'w etcd3 \<Rightarrow> 'w node \<Rightarrow> ('w, text_page) py" where
  "prometheus_metrics e nd =
     py_try
       (py_bind (get_comprehensive_health e nd) (\<lambda>h.
        py_bind (check_vip_status nd) (\<lambda>(gateway_vip, storage_vip, _).
        py_bind (check_certificate_expiry e nd) (\<lambda>crt.
          py_return (TextPage 200 (lines_text
            ([metric nd ''ycluster_node_healthy'' [] (flag (hs_overall h = ''healthy''))]
             @ concat (map (service_metrics nd) (hs_services h))
             @ [metric nd ''ycluster_storage_leader'' [] (flag (hs_storage_leader h)),
                metric nd ''ycluster_dhcp_leader'' [] (flag (hs_dhcp_leader h)),
                metric nd ''ycluster_vip_active'' [(''vip'', ''gateway'')] (flag (v_active gateway_vip)),
                metric nd ''ycluster_vip_active'' [(''vip'', ''storage'')] (flag (v_active storage_vip))]
             @ expiry_metric nd crt
             @ [metric nd ''ycluster_node_drained'' [] (flag (hs_drained h))])))))))
       (\<lambda>_. py_return (TextPage 500 (metric nd ''ycluster_metrics_error'' [] ''1'' @ nl)))"

section \<open>The cluster\<close>

definition host_failure :: "string \<Rightarrow> string \<Rightarrow> json" where
  "host_failure overall msg = JObj [(''overall'', JStr overall), (''services'', JObj []), (''error'', JStr msg)]"

definition get_host_health :: "'w node \<Rightarrow> string \<Rightarrow> ('w, json) py" where
  "get_host_health nd host_ip =
     py_try
       (py_bind (n_http nd (''http://'' @ host_ip @ '':12723/api/health'') False) (\<lambda>a. case a of
          Http c _ body \<Rightarrow> if c \<in> {200, 503} then py_lift body else py_return (host_failure ''error'' (''HTTP '' @ int_str c))
        | HttpTimeout \<Rightarrow> py_return (host_failure ''timeout'' ''Request timeout'')
        | HttpProxyError _ \<Rightarrow> py_return (host_failure ''unreachable'' ''Connection failed'')
        | HttpConnectionError _ \<Rightarrow> py_return (host_failure ''unreachable'' ''Connection failed'')
        | HttpOther m \<Rightarrow> py_return (host_failure ''error'' m)))
       (\<lambda>x. py_return (host_failure ''error'' (n_text nd x)))"

definition reports_unhealthy :: "json \<Rightarrow> bool" where
  "reports_unhealthy v = (case v of JObj d \<Rightarrow> map_of d ''status'' = Some (JStr ''unhealthy'') | _ \<Rightarrow> False)"

definition adhoc_etcd :: json where
  "adhoc_etcd = JObj [(''status'', JStr ''not_applicable''),
     (''details'', JObj [(''reason'', JStr ''adhoc nodes are untrusted; no etcd access'')])]"

definition scrub_adhoc_etcd :: "json \<Rightarrow> exn + json" where
  "scrub_adhoc_etcd result =
     (case result of
        JObj d \<Rightarrow> (case map_of d ''services'' of
          Some (JObj services) \<Rightarrow>
            if map_of services ''etcd'' = None then Inr result
            else (let services' = AList.update ''etcd'' adhoc_etcd services; d' = AList.update ''services'' (JObj services') d in
              Inr (JObj (if map_of d ''overall'' = Some (JStr ''unhealthy'') \<and> \<not> list_ex (\<lambda>(_, v). reports_unhealthy v) services'
                         then AList.update ''overall'' (JStr ''healthy'') d' else d')))
        | _ \<Rightarrow> Inr result)
      | _ \<Rightarrow> Inl AttributeError)"

definition disabled_health :: json where
  "disabled_health = JObj [(''status'', JStr ''disabled''), (''services'', JList [])]"

definition add_host_health :: "'w node \<Rightarrow> (string \<Rightarrow> json option) \<Rightarrow> cluster_host \<Rightarrow> (string \<times> json) list \<Rightarrow> ('w, (string \<times> json) list) py" where
  "add_host_health nd types h acc =
     py_bind (get_host_health nd (shown (ch_ip h))) (\<lambda>result.
     py_bind (py_lift (if types (ch_hostname h) = Some (JStr ''adhoc'') then scrub_adhoc_etcd result else Inr result)) (\<lambda>result.
       py_return (AList.update (ch_hostname h) result acc)))"

text \<open>The requests run in a pool of threads; they are independent, and the result is a dictionary.\<close>

definition get_all_host_health :: "'w node \<Rightarrow> cluster_host list \<Rightarrow> ('w, (string \<times> json) list) py" where
  "get_all_host_health nd hosts =
     (let active = filter (\<lambda>h. \<not> truthy (ch_disabled h)) hosts;
          types = map_of (rev (map (\<lambda>h. (ch_hostname h, ch_type h)) hosts));
          acc = fold (\<lambda>h. AList.update (ch_hostname h) disabled_health) (filter (\<lambda>h. truthy (ch_disabled h)) hosts) []
      in py_fold (add_host_health nd types) active acc)"

text \<open>\<open>d.get(k, default)\<close> and \<open>k in d\<close> on a value read from another host.\<close>

definition jget :: "json \<Rightarrow> string \<Rightarrow> json \<Rightarrow> exn + json" where
  "jget j k dflt = map_sum id (\<lambda>d. case map_of d k of Some v \<Rightarrow> v | None \<Rightarrow> dflt) (as_dict j)"

definition json_has :: "json \<Rightarrow> string \<Rightarrow> exn + bool" where
  "json_has j k =
     (case j of
        JObj d \<Rightarrow> Inr (map_of d k \<noteq> None)
      | JList xs \<Rightarrow> Inr (JStr k \<in> set xs)
      | JStr t \<Rightarrow> Inr (contains t k)
      | _ \<Rightarrow> Inl TypeError)"

record vip_info =
  vi_active_on :: json
  vi_master :: json
  vi_interface :: json

definition no_vip_info :: vip_info where
  "no_vip_info = \<lparr>vi_active_on = JNull, vi_master = JNull, vi_interface = JNull\<rparr>"

record keepalived_node =
  kn_hostname :: string
  kn_ip :: json
  kn_active :: json
  kn_status :: string

definition sbind :: "exn + 'a \<Rightarrow> ('a \<Rightarrow> exn + 'b) \<Rightarrow> exn + 'b" where
  "sbind r f = (case r of Inl x \<Rightarrow> Inl x | Inr y \<Rightarrow> f y)"

text \<open>One virtual address in the health data of a host: its details, and whether they say active.\<close>

definition vip_details_in :: "json \<Rightarrow> string \<Rightarrow> exn + json" where
  "vip_details_in data name =
     sbind (jget data ''services'' (JObj [])) (\<lambda>services.
     sbind (jget services name (JObj [])) (\<lambda>service. jget service ''details'' (JObj [])))"

definition vip_is_active :: "json \<Rightarrow> exn + bool" where
  "vip_is_active details =
     (if truthy details then map_sum id truthy (jget details ''active'' (JBool False)) else Inr False)"

definition vip_update :: "json \<Rightarrow> cluster_host \<Rightarrow> vip_info \<Rightarrow> exn + vip_info" where
  "vip_update details core_host v =
     sbind (vip_is_active details) (\<lambda>active.
       if active
       then map_sum id (\<lambda>i. \<lparr>vi_active_on = ch_ip core_host, vi_master = JStr (ch_hostname core_host), vi_interface = i\<rparr>)
              (jget details ''interface'' JNull)
       else Inr v)"

definition keepalived_of :: "json \<Rightarrow> exn + json \<times> string" where
  "keepalived_of data =
     sbind (jget data ''services'' (JObj [])) (\<lambda>services.
     sbind (jget services ''keepalived'' (JObj [])) (\<lambda>svc.
       if truthy svc
       then sbind (jget svc ''details'' (JObj [])) (\<lambda>details.
            map_sum id (\<lambda>act. (act, if truthy act then ''running'' else ''stopped'')) (jget details ''service_active'' (JBool False)))
       else Inr (JBool False, ''no_data'')))"

type_synonym vip_state = "vip_info \<times> vip_info \<times> keepalived_node list"

definition unreachable :: "json \<Rightarrow> exn + bool" where
  "unreachable data =
     sbind (json_has data ''error'') (\<lambda>err.
       if err then Inr True else map_sum id Not (json_has data ''services''))"

definition vip_step :: "cluster_host list \<Rightarrow> (string \<times> json) list \<Rightarrow> string \<Rightarrow> vip_state \<Rightarrow> exn + vip_state" where
  "vip_step all_hosts host_health core_node st =
     (case st of (gateway, storage, nodes) \<Rightarrow>
       (case find (\<lambda>h. ch_hostname h = core_node) all_hosts of
          None \<Rightarrow> Inr (gateway, storage, nodes @ [\<lparr>kn_hostname = core_node, kn_ip = JStr ''unknown'', kn_active = JBool False, kn_status = ''not_allocated''\<rparr>])
        | Some core_host \<Rightarrow>
            (let data = (case map_of host_health core_node of Some d \<Rightarrow> d | None \<Rightarrow> JObj []) in
             sbind (unreachable data) (\<lambda>lost.
               if lost
               then Inr (gateway, storage, nodes @ [\<lparr>kn_hostname = core_node, kn_ip = ch_ip core_host, kn_active = JBool False, kn_status = ''unreachable''\<rparr>])
               else sbind (vip_details_in data ''gateway_vip'') (\<lambda>gd.
                    sbind (vip_update gd core_host gateway) (\<lambda>gateway'.
                    sbind (vip_details_in data ''storage_vip'') (\<lambda>sd.
                    sbind (vip_update sd core_host storage) (\<lambda>storage'.
                    map_sum id (\<lambda>(act, kst). (gateway', storage', nodes @ [\<lparr>kn_hostname = core_node, kn_ip = ch_ip core_host, kn_active = act, kn_status = kst\<rparr>]))
                      (keepalived_of data)))))))))"

definition cluster_vips :: "cluster_host list \<Rightarrow> (string \<times> json) list \<Rightarrow> string list \<Rightarrow> exn + vip_state" where
  "cluster_vips all_hosts host_health core = sfold (vip_step all_hosts host_health) core (no_vip_info, no_vip_info, [])"

definition get_cluster_vip_status :: "'w etcd3 \<Rightarrow> (string \<times> json) list \<Rightarrow> ('w, vip_state) py" where
  "get_cluster_vip_status e host_health =
     py_bind (get_all_hosts e) (\<lambda>all_hosts.
     py_bind (get_core_nodes e) (\<lambda>core. py_lift (cluster_vips all_hosts host_health core)))"

definition leader_entry :: "string \<Rightarrow> (blob \<times> nat) option \<Rightarrow> (string \<times> blob) list" where
  "leader_entry name r = (case r of Some (b, _) \<Rightarrow> if blob_true b then [(name, b)] else [] | None \<Rightarrow> [])"

definition get_leadership_status :: "'w etcd3 \<Rightarrow> ('w, (string \<times> blob) list) py" where
  "get_leadership_status e =
     py_try
       (py_seq (e_client e)
       (py_bind (e_get e ''/cluster/leader/app'') (\<lambda>a.
        py_bind (e_get e ''/cluster/leader/dhcp'') (\<lambda>d.
          py_return (leader_entry ''storage_leader'' a @ leader_entry ''dhcp_leader'' d)))))
       (\<lambda>_. py_return [])"

definition PROMETHEUS_JOB_SPECS :: "(string \<times> int \<times> string list) list" where
  "PROMETHEUS_JOB_SPECS =
     [(''node-exporter'', 9100, [''storage'', ''nvidia'', ''compute'', ''nas'', ''macos'']), (''ycluster-health'', 12723, [''storage'']),
      (''ycluster-dhcp'', 8067, [''storage'']), (''ceph-exporter'', 9283, [''storage''])]"

definition scraped :: "string list \<Rightarrow> cluster_host \<Rightarrow> bool" where
  "scraped types h = (\<not> truthy (ch_disabled h) \<and> ch_type h \<in> JStr ` set types)"

definition scrape_target :: "int \<Rightarrow> cluster_host \<Rightarrow> json" where
  "scrape_target port h =
     JObj [(''targets'', JList [JStr (shown (ch_ip h) @ '':'' @ int_str port)]),
           (''labels'', JObj [(''node'', JStr (ch_hostname h)), (''node_type'', ch_type h)])]"

definition prometheus_targets :: "'w etcd3 \<Rightarrow> string \<Rightarrow> ('w, int \<times> json) py" where
  "prometheus_targets e job =
     (case map_of PROMETHEUS_JOB_SPECS job of
        None \<Rightarrow> py_return (404, JObj [(''error'', JStr (''unknown job: '' @ job))])
      | Some (port, types) \<Rightarrow>
          py_bind (get_all_hosts e) (\<lambda>hosts. py_return (200, JList (map (scrape_target port) (filter (scraped types) hosts)))))"

definition get_inference_status :: "'w node \<Rightarrow> ('w, json) py" where
  "get_inference_status nd =
     py_bind (n_http nd ''http://127.0.0.1:4001/healthz'' False) (\<lambda>a. py_return (case a of
       Http c _ body \<Rightarrow> if c \<noteq> 200 then JNull else (case body of Inr j \<Rightarrow> j | Inl _ \<Rightarrow> JNull)
     | _ \<Rightarrow> JNull))"

record cluster_status =
  cs_hosts :: "cluster_host list"
  cs_host_health :: "(string \<times> json) list"
  cs_leadership :: "(string \<times> blob) list"
  cs_vip_status :: vip_state
  cs_certificate :: report
  cs_inference :: json
  cs_hostname :: string
  cs_timestamp :: string

definition cluster_status_api :: "'w etcd3 \<Rightarrow> 'w node \<Rightarrow> ('w, cluster_status) py" where
  "cluster_status_api e nd =
     py_bind (get_all_hosts e) (\<lambda>hosts.
     py_bind (get_leadership_status e) (\<lambda>leadership.
     py_bind (check_certificate_expiry e nd) (\<lambda>crt.
     py_bind (get_all_host_health nd hosts) (\<lambda>host_health.
     py_bind (get_cluster_vip_status e host_health) (\<lambda>vips.
     py_bind (get_inference_status nd) (\<lambda>inference.
     py_bind (n_localnow nd) (\<lambda>now.
       py_return \<lparr>cs_hosts = hosts, cs_host_health = host_health, cs_leadership = leadership, cs_vip_status = vips,
         cs_certificate = crt, cs_inference = inference, cs_hostname = n_name nd, cs_timestamp = iso_naive now\<rparr>)))))))"

section \<open>What the cluster pages show\<close>

text \<open>The metric on Ceph is written only where there is no Ceph: a storage node reports a text, for which no line is
  emitted, and other nodes a dictionary, which never equals \<open>HEALTH_OK\<close>.\<close>

lemma ceph_metric_says_nothing:
  "sure (\<lambda>r. ceph_metric nd ''ceph'' r = []) (check_ceph_status nd)
   \<and> ceph_metric nd ''ceph'' \<lparr>r_status = ''not_applicable'', r_details = JObj d\<rparr> = [metric nd ''ycluster_ceph_health'' [] ''0'']"
  unfolding check_ceph_status_def Let_def
  by (intro conjI sure_try gives_bind) (auto simp: ceph_metric_def intro!: gives_return sure_return)

lemma sure_try_total: "sure P m \<Longrightarrow> sure P (py_try m h)"
  unfolding sure_def wp_try by (blast intro: wp_mono)

lemma metrics_always_served: "sure (\<lambda>page. \<exists>body. page = TextPage 200 body) (prometheus_metrics e nd)"
  unfolding prometheus_metrics_def split_def
  by (intro sure_try_total sure_bind [OF report_sound] runs_bind [OF runs_derived(2)] sure_bind [OF sure_certificate] sure_return) auto

text \<open>A failure other than \<open>unhealthy\<close> (a critical clock skew, a failed check) is hidden when the self-reported
  etcd status of an adhoc node is dropped, also when that status was fine.\<close>

lemma scrub_hides_failures:
  "scrub_adhoc_etcd (JObj [(''overall'', JStr ''unhealthy''),
     (''services'', JObj [(''etcd'', JObj [(''status'', JStr ''healthy'')]), (''clock_skew'', JObj [(''status'', JStr ''critical'')])])])
   = Inr (JObj [(''overall'', JStr ''healthy''),
     (''services'', JObj [(''etcd'', adhoc_etcd), (''clock_skew'', JObj [(''status'', JStr ''critical'')])])])"
  by (simp add: scrub_adhoc_etcd_def reports_unhealthy_def adhoc_etcd_def)

text \<open>The hosts a store registers.\<close>

definition host_in :: "store \<Rightarrow> cluster_host \<Rightarrow> bool" where
  "host_in c h = (\<exists>k b n. startswith k BY_HOSTNAME \<and> c k = Some (b, n) \<and> host_of_allocation b = Some h)"

lemma set_map_filter_hosts:
  assumes "prefix_list c BY_HOSTNAME xs"
  shows "set (List.map_filter (\<lambda>(_, b). host_of_allocation b) xs) = Collect (host_in c)"
proof -
  have "h \<in> set (List.map_filter (\<lambda>(_, b). host_of_allocation b) xs) \<longleftrightarrow> (\<exists>k b. (k, b) \<in> set xs \<and> host_of_allocation b = Some h)" for h
    by (force simp: List.map_filter_def)
  with prefix_listD [OF assms] show ?thesis by (auto simp: host_in_def)
qed

lemma sort_hosts_set: "sort_hosts hosts = Inr hs \<Longrightarrow> set hs = set hosts"
  by (auto simp: sort_hosts_def split: if_splits)

context etcd_seq
begin

lemma wp_get_all_hosts:
  assumes "\<forall>h. host_in (view s) h \<longrightarrow> the_str (ch_type h) \<noteq> None"
    and Q: "\<And>hosts s'. view s' = view s \<Longrightarrow> set hosts = Collect (host_in (view s)) \<Longrightarrow> Q hosts s'"
  shows "wp (get_all_hosts e) Q E s"
  unfolding get_all_hosts_def wp_simps
proof (rule wp_client_seq, rule wp_prefix_seq)
  fix s1 s2 xs assume v: "view s1 = view s" "view s2 = view s1" and xs: "prefix_list (view s1) BY_HOSTNAME xs"
  let ?hosts = "List.map_filter (\<lambda>(_, b). host_of_allocation b) xs"
  have set: "set ?hosts = Collect (host_in (view s))" using set_map_filter_hosts [OF xs] v by simp
  with assms(1) obtain hs where "sort_hosts ?hosts = Inr hs" by (auto simp: sort_hosts_def list_all_iff)
  with Q [of s2 hs] v set sort_hosts_set [OF this]
  show "case sort_hosts ?hosts of Inl x \<Rightarrow> Q [] s2 | Inr hosts \<Rightarrow> Q hosts s2" by simp
qed

end

text \<open>The targets given to Prometheus for a job are exactly the registered hosts of the job's types that are not disabled,
  so that disabling a host removes it at once; an unknown job is answered 404.\<close>

theorem prometheus_targets_exact:
  assumes "etcd_seq e view" and "\<forall>h. host_in (view s) h \<longrightarrow> the_str (ch_type h) \<noteq> None"
  shows "case map_of PROMETHEUS_JOB_SPECS job of
      None \<Rightarrow> prometheus_targets e job s = (Inr (404, JObj [(''error'', JStr (''unknown job: '' @ job))]), s)
    | Some (port, types) \<Rightarrow> \<exists>ts s'. prometheus_targets e job s = (Inr (200, JList ts), s') \<and> view s' = view s
        \<and> set ts = scrape_target port ` {h. host_in (view s) h \<and> scraped types h}"
proof (cases "map_of PROMETHEUS_JOB_SPECS job")
  case None
  then show ?thesis by (simp add: prometheus_targets_def py_return_def)
next
  case (Some spec)
  obtain port types where spec: "spec = (port, types)" by (cases spec)
  have "wp (prometheus_targets e job) (\<lambda>r s'. view s' = view s \<and> (\<exists>ts. r = (200, JList ts)
      \<and> set ts = scrape_target port ` {h. host_in (view s) h \<and> scraped types h})) (\<lambda>_ _. False) s"
    using Some spec unfolding prometheus_targets_def
    by (auto simp: wp_simps intro!: etcd_seq.wp_get_all_hosts [OF assms])
  then show ?thesis using Some spec
    by (auto simp: wp_def split: prod.splits sum.splits)
qed

text \<open>The virtual address one core node is seen to hold.\<close>

definition vip_seen :: "cluster_host list \<Rightarrow> (string \<times> json) list \<Rightarrow> string \<Rightarrow> string \<Rightarrow> vip_info option" where
  "vip_seen all_hosts host_health name core_node =
     (case find (\<lambda>h. ch_hostname h = core_node) all_hosts of
        None \<Rightarrow> None
      | Some h \<Rightarrow>
          (let data = (case map_of host_health core_node of Some d \<Rightarrow> d | None \<Rightarrow> JObj []) in
           case (unreachable data, vip_details_in data name) of
             (Inr False, Inr details) \<Rightarrow>
               (case (vip_is_active details, jget details ''interface'' JNull) of
                  (Inr True, Inr i) \<Rightarrow> Some \<lparr>vi_active_on = ch_ip h, vi_master = JStr (ch_hostname h), vi_interface = i\<rparr>
                | _ \<Rightarrow> None)
           | _ \<Rightarrow> None))"

lemma vip_update_seen:
  assumes "vip_update details h v = Inr v'"
  shows "v' = (case (vip_is_active details, jget details ''interface'' JNull) of
      (Inr True, Inr i) \<Rightarrow> \<lparr>vi_active_on = ch_ip h, vi_master = JStr (ch_hostname h), vi_interface = i\<rparr> | _ \<Rightarrow> v)"
  using assms by (auto simp: vip_update_def sbind_def split: sum.splits bool.splits if_splits)

lemma sbind_Inr: "sbind r f = Inr y \<longleftrightarrow> (\<exists>x. r = Inr x \<and> f x = Inr y)"
  by (simp add: sbind_def split: sum.splits)

lemma map_sum_id_Inr: "map_sum id f r = Inr y \<longleftrightarrow> (\<exists>x. r = Inr x \<and> y = f x)"
  by (cases r) auto

lemma vip_update_seen_in:
  assumes "find (\<lambda>h. ch_hostname h = n) all_hosts = Some h" and "data = (case map_of host_health n of Some d \<Rightarrow> d | None \<Rightarrow> JObj [])"
    and "unreachable data = Inr False" and "vip_details_in data name = Inr details" and "vip_update details h v = Inr v'"
  shows "v' = (case vip_seen all_hosts host_health name n of Some x \<Rightarrow> x | None \<Rightarrow> v)"
  using vip_update_seen [OF assms(5)] assms(1-4)
  by (simp add: vip_seen_def Let_def split: sum.splits bool.splits)

lemma vip_step_seen:
  assumes "vip_step all_hosts host_health n (g, st, nodes) = Inr (g', st', nodes')"
  shows "g' = (case vip_seen all_hosts host_health ''gateway_vip'' n of Some v \<Rightarrow> v | None \<Rightarrow> g)
    \<and> st' = (case vip_seen all_hosts host_health ''storage_vip'' n of Some v \<Rightarrow> v | None \<Rightarrow> st)
    \<and> map kn_hostname nodes' = map kn_hostname nodes @ [n]"
proof (cases "find (\<lambda>h. ch_hostname h = n) all_hosts")
  case None
  with assms show ?thesis by (auto simp: vip_step_def vip_seen_def)
next
  case (Some h)
  define data where "data = (case map_of host_health n of Some d \<Rightarrow> d | None \<Rightarrow> JObj [])"
  from assms Some obtain lost where lost: "unreachable data = Inr lost"
    unfolding vip_step_def data_def by (auto simp: Let_def sbind_Inr)
  show ?thesis
  proof (cases lost)
    case True
    with assms Some lost show ?thesis unfolding data_def by (auto simp: vip_step_def vip_seen_def Let_def sbind_def)
  next
    case False
    with assms Some lost obtain gd sd where gw: "vip_details_in data ''gateway_vip'' = Inr gd" "vip_update gd h g = Inr g'"
      and sv: "vip_details_in data ''storage_vip'' = Inr sd" "vip_update sd h st = Inr st'" and ns: "map kn_hostname nodes' = map kn_hostname nodes @ [n]"
      unfolding data_def vip_step_def by (auto simp: Let_def sbind_Inr map_sum_id_Inr)
    have "unreachable data = Inr False" using lost False by simp
    note seen = vip_update_seen_in [OF Some data_def this]
    from seen [OF gw] seen [OF sv] ns show ?thesis by simp
  qed
qed

text \<open>The cluster page shows, for each virtual address, the last core node whose health reports it active, with that node's
  address and interface, nothing when no core node does, and lists the keepalived state of every core node.\<close>

theorem vip_shown_is_last_active:
  assumes "cluster_vips all_hosts host_health core = Inr (g, st, nodes)"
  shows "g = last (no_vip_info # List.map_filter (vip_seen all_hosts host_health ''gateway_vip'') core)
    \<and> st = last (no_vip_info # List.map_filter (vip_seen all_hosts host_health ''storage_vip'') core)
    \<and> map kn_hostname nodes = core"
proof -
  have "g = last (g0 # List.map_filter (vip_seen all_hosts host_health ''gateway_vip'') core)
      \<and> st = last (st0 # List.map_filter (vip_seen all_hosts host_health ''storage_vip'') core)
      \<and> map kn_hostname nodes = map kn_hostname nodes0 @ core"
    if "sfold (vip_step all_hosts host_health) core (g0, st0, nodes0) = Inr (g, st, nodes)" for g0 st0 nodes0
    using that
  proof (induction core arbitrary: g0 st0 nodes0)
    case (Cons n core)
    from Cons.prems obtain g1 st1 nodes1 where step: "vip_step all_hosts host_health n (g0, st0, nodes0) = Inr (g1, st1, nodes1)"
      and rest: "sfold (vip_step all_hosts host_health) core (g1, st1, nodes1) = Inr (g, st, nodes)"
      unfolding sfold_Cons_Inr by auto
    from Cons.IH [OF rest] vip_step_seen [OF step] show ?case
      by (auto simp: map_filter_simps split: option.splits)
  qed simp
  from this [of no_vip_info no_vip_info "[]"] assms show ?thesis by (simp add: cluster_vips_def)
qed

section \<open>Examples\<close>

definition hosts_store :: mem where
  "hosts_store = \<lparr>mem_data =
     [(BY_HOSTNAME @ ''s1'', Doc [(''hostname'', JStr ''s1''), (''ip'', JStr ''10.0.0.11''), (''type'', JStr ''storage'')], 1),
      (BY_HOSTNAME @ ''s2'', Doc [(''hostname'', JStr ''s2''), (''ip'', JStr ''10.0.0.12''), (''type'', JStr ''storage''), (''disabled'', JBool True)], 2),
      (BY_HOSTNAME @ ''c1'', Doc [(''hostname'', JStr ''c1''), (''ip'', JStr ''10.0.0.51''), (''type'', JStr ''compute'')], 3)], mem_rev = 3\<rparr>"

lemma hosts_store_types: "host_in (mem_view hosts_store) h \<Longrightarrow> the_str (ch_type h) \<noteq> None"
  by (auto simp: host_in_def hosts_store_def mem_view_def host_of_allocation_def split: if_splits)

theorem prometheus_targets_exact_witness:
  "\<exists>ts s'. prometheus_targets mem_etcd ''ceph-exporter'' hosts_store = (Inr (200, JList ts), s')
     \<and> mem_view s' = mem_view hosts_store
     \<and> set ts = scrape_target 9283 ` {h. host_in (mem_view hosts_store) h \<and> scraped [''storage''] h}"
proof -
  have "map_of PROMETHEUS_JOB_SPECS ''ceph-exporter'' = Some (9283, [''storage''])" by (simp add: PROMETHEUS_JOB_SPECS_def)
  with prometheus_targets_exact [OF memkv.etcd_seq_axioms, of hosts_store "''ceph-exporter''"] hosts_store_types show ?thesis by auto
qed

definition core_host :: "string \<Rightarrow> string \<Rightarrow> cluster_host" where
  "core_host name ip = \<lparr>ch_hostname = name, ch_ip = JStr ip, ch_type = JStr ''storage'', ch_disabled = JBool False\<rparr>"

definition vip_health :: "bool \<Rightarrow> json" where
  "vip_health active = JObj [(''services'', JObj [(''gateway_vip'',
     JObj [(''details'', JObj [(''active'', JBool active), (''interface'', JStr ''eth0'')])])])]"

theorem vip_shown_is_last_active_witness:
  "\<exists>g st nodes. cluster_vips [core_host ''s1'' ''10.0.0.11'', core_host ''s2'' ''10.0.0.12'']
      [(''s1'', vip_health True), (''s2'', vip_health False)] [''s1'', ''s2''] = Inr (g, st, nodes)
    \<and> vi_master g = JStr ''s1'' \<and> st = no_vip_info \<and> map kn_hostname nodes = [''s1'', ''s2'']"
proof -
  let ?hs = "[core_host ''s1'' ''10.0.0.11'', core_host ''s2'' ''10.0.0.12'']"
  let ?hh = "[(''s1'', vip_health True), (''s2'', vip_health False)]"
  have "\<not> isl (cluster_vips ?hs ?hh [''s1'', ''s2''])" by code_simp
  then obtain g st nodes where run: "cluster_vips ?hs ?hh [''s1'', ''s2''] = Inr (g, st, nodes)" by (metis sum.collapse(2) prod.collapse)
  have "vi_master (last (no_vip_info # List.map_filter (vip_seen ?hs ?hh ''gateway_vip'') [''s1'', ''s2''])) = JStr ''s1''" by code_simp
  moreover have "last (no_vip_info # List.map_filter (vip_seen ?hs ?hh ''storage_vip'') [''s1'', ''s2'']) = no_vip_info" by code_simp
  ultimately show ?thesis using vip_shown_is_last_active [OF run] run by auto
qed

end
