(* ===== verification/YGateway.thy ===== *)
theory YGateway
  imports YHealth
begin

text \<open>
  Frontend nodes, the rathole tunnel and the fitness of a node to hold the gateway address
  (\<open>frontend_manager.py\<close>, \<open>rathole_config.py\<close>, \<open>gateway_health.py\<close>). The frontends and the tunnel's
  configuration are documents in etcd; keepalived's track script reads both and probes the frontends over the
  uplink. What the probes would find is the record \<open>uplink\<close>. \<open>ip_address_ok\<close> is the test of
  \<open>ipaddress.ip_address\<close>.
\<close>

section \<open>IP addresses\<close>

definition ipv4_octet_ok :: "string \<Rightarrow> bool" where
  "ipv4_octet_ok t = (isdigit t \<and> length t \<le> 3 \<and> (t = ''0'' \<or> hd t \<noteq> CHR ''0'') \<and> digits_val t \<le> 255)"

definition ipv4_ok :: "string \<Rightarrow> bool" where
  "ipv4_ok t = (let octets = split_on (CHR ''.'') t in length octets = 4 \<and> list_all ipv4_octet_ok octets)"

definition is_hex :: "char \<Rightarrow> bool" where
  "is_hex c = (let n = of_char c :: nat in 48 \<le> n \<and> n \<le> 57 \<or> 65 \<le> n \<and> n \<le> 70 \<or> 97 \<le> n \<and> n \<le> 102)"

definition hextet_ok :: "string \<Rightarrow> bool" where
  "hextet_ok t = (t \<noteq> [] \<and> list_all is_hex t \<and> length t \<le> 4)"

text \<open>The parts of an IPv6 address, an embedded IPv4 address counting as two.\<close>

definition ipv6_parts :: "string \<Rightarrow> string list option" where
  "ipv6_parts t =
     (let parts = split_on (CHR '':'') t in
      if length parts < 3 then None
      else if CHR ''.'' \<in> set (last parts)
      then (if ipv4_ok (last parts) then Some (butlast parts @ [''0'', ''0'']) else None)
      else Some parts)"

definition empty_between :: "string list \<Rightarrow> nat list" where
  "empty_between parts = filter (\<lambda>i. parts ! i = []) [1..<length parts - 1]"

definition ipv6_parts_ok :: "string list \<Rightarrow> bool" where
  "ipv6_parts_ok parts =
     (length parts \<le> 9 \<and>
      (case empty_between parts of
         [] \<Rightarrow> length parts = 8 \<and> list_all hextet_ok parts
       | [i] \<Rightarrow>
           (let lo0 = length parts - i - 1;
                hi = (if hd parts = [] then i - 1 else i);
                lo = (if last parts = [] then lo0 - 1 else lo0)
            in (hd parts = [] \<longrightarrow> hi = 0) \<and> (last parts = [] \<longrightarrow> lo = 0) \<and> hi + lo < 8
               \<and> list_all hextet_ok (take hi parts) \<and> list_all hextet_ok (drop (length parts - lo) parts))
       | _ \<Rightarrow> False))"

definition ipv6_ok :: "string \<Rightarrow> bool" where
  "ipv6_ok t =
     (case partition_on (CHR ''%'') t of (addr, sep, scope) \<Rightarrow>
        (\<not> sep \<or> scope \<noteq> [] \<and> CHR ''%'' \<notin> set scope)
        \<and> (case ipv6_parts addr of Some parts \<Rightarrow> ipv6_parts_ok parts | None \<Rightarrow> False))"

definition ip_address_ok :: "string \<Rightarrow> bool" where
  "ip_address_ok t = (CHR ''/'' \<notin> set t \<and> (ipv4_ok t \<or> ipv6_ok t))"

section \<open>Frontends\<close>

definition FRONTEND_PREFIX :: string where
  "FRONTEND_PREFIX = ''/cluster/nodes/frontend''"

definition frontend_key :: "string \<Rightarrow> string" where
  "frontend_key name = FRONTEND_PREFIX @ ''/'' @ name"

fun frontend_of :: "blob \<Rightarrow> json list" where
  "frontend_of (Doc d) = [JObj d]"
| "frontend_of (DocList xs) = [JList xs]"
| "frontend_of (Text _) = []"

definition get_frontend_nodes :: "'w etcd3 \<Rightarrow> ('w, json list) py" where
  "get_frontend_nodes e =
     py_bind (e_get_prefix e FRONTEND_PREFIX) (\<lambda>xs. py_return (concat (map (\<lambda>(_, b). frontend_of b) xs)))"

definition present :: "(blob \<times> nat) option \<Rightarrow> bool" where
  "present r = (case r of Some (b, _) \<Rightarrow> blob_true b | None \<Rightarrow> False)"

definition frontend_doc :: "string \<Rightarrow> string \<Rightarrow> string option \<Rightarrow> int \<Rightarrow> dict" where
  "frontend_doc name address description now =
     [(''name'', JStr name), (if ip_address_ok address then ''ip'' else ''hostname'', JStr address), (''type'', JStr ''frontend''),
      (''added'', JStr (iso_naive now))]
     @ (case description of Some d \<Rightarrow> if d = [] then [] else [(''description'', JStr d)] | None \<Rightarrow> [])"

definition add_frontend_node :: "'w etcd3 \<Rightarrow> int \<Rightarrow> string \<Rightarrow> string \<Rightarrow> string option \<Rightarrow> ('w, bool) py" where
  "add_frontend_node e now name address description =
     py_seq (e_client e)
     (py_bind (e_get e (frontend_key name)) (\<lambda>existing.
       if present existing then py_return False
       else py_seq (e_put e (frontend_key name) (Doc (frontend_doc name address description now))) (py_return True)))"

definition delete_frontend_node :: "'w etcd3 \<Rightarrow> string \<Rightarrow> ('w, bool) py" where
  "delete_frontend_node e name =
     py_seq (e_client e)
     (py_bind (e_get e (frontend_key name)) (\<lambda>existing.
       if \<not> present existing then py_return False
       else py_seq (e_delete e (frontend_key name)) (py_return True)))"

section \<open>The rathole tunnel\<close>

definition RATHOLE_KEY :: string where
  "RATHOLE_KEY = ''/cluster/nodes/rathole/config''"

definition validate_host_port :: "string \<Rightarrow> exn + unit" where
  "validate_host_port remote_addr =
     (case rpartition_on (CHR '':'') remote_addr of (host, sep, port_str) \<Rightarrow>
        if \<not> sep then Inl (ValueError (''Invalid format: '' @ quoted remote_addr @ ''. Must be host:port''))
        else if host = [] then Inl (ValueError (''Invalid format: '' @ quoted remote_addr @ ''. Host cannot be empty''))
        else (case py_int port_str of
                None \<Rightarrow> Inl (ValueError (''Invalid port: '' @ quoted port_str @ ''. Must be a number''))
              | Some port \<Rightarrow>
                  if 1 \<le> port \<and> port \<le> 65535 then Inr ()
                  else Inl (ValueError (''Invalid port: '' @ int_str port @ ''. Must be 1-65535''))))"

definition given :: "string option \<Rightarrow> bool" where
  "given x = (case x of Some t \<Rightarrow> t \<noteq> [] | None \<Rightarrow> False)"

definition set_rathole_config :: "'w etcd3 \<Rightarrow> string option \<Rightarrow> string option \<Rightarrow> ('w, unit) py" where
  "set_rathole_config e remote_addr token =
     py_seq (py_lift (if given remote_addr then validate_host_port (the remote_addr) else Inr ()))
     (py_seq (e_client e)
     (py_bind (if given remote_addr \<and> given token then py_return []
               else py_bind (e_get e RATHOLE_KEY) (\<lambda>r. case r of
                      Some (b, _) \<Rightarrow> if blob_true b then py_lift (loads_dict b) else py_return []
                    | None \<Rightarrow> py_return [])) (\<lambda>config.
       let config = (if given remote_addr then dict_set ''remote_addr'' (JStr (the remote_addr)) config else config);
           config = (if given token then dict_set ''token'' (JStr (the token)) config else config)
       in if \<not> otruthy (map_of config ''remote_addr'') \<or> \<not> otruthy (map_of config ''token'') then py_raise (SystemExit 1)
          else e_put e RATHOLE_KEY (Doc config))))"

definition core_index :: "string \<Rightarrow> nat option" where
  "core_index hostname =
     (let t = chomp hostname in if startswith t ''s'' \<and> isdigit (tl t) then Some (digits_val (tl t)) else None)"

text \<open>The template file and jinja2 are the parameter \<open>render\<close>.\<close>

definition generate_config :: "'w etcd3 \<Rightarrow> string \<Rightarrow> (json \<Rightarrow> json \<Rightarrow> nat \<Rightarrow> exn + string) \<Rightarrow> ('w, string) py" where
  "generate_config e hostname render =
     py_seq (e_client e)
     (py_bind (e_get e RATHOLE_KEY) (\<lambda>r. case r of
        None \<Rightarrow> py_raise (SystemExit 1)
      | Some (b, _) \<Rightarrow>
          if \<not> blob_true b then py_raise (SystemExit 1)
          else py_bind (py_lift (loads_dict b)) (\<lambda>config.
            if \<not> otruthy (map_of config ''remote_addr'') \<or> \<not> otruthy (map_of config ''token'') then py_raise (SystemExit 1)
            else (case core_index hostname of
                    None \<Rightarrow> py_raise (SystemExit 1)
                  | Some idx \<Rightarrow> py_try (py_lift (render (the (map_of config ''remote_addr'')) (the (map_of config ''token'')) idx))
                      (\<lambda>_. py_raise (SystemExit 1))))))"

definition delete_rathole_config :: "'w etcd3 \<Rightarrow> ('w, bool) py" where
  "delete_rathole_config e = py_seq (e_client e) (e_delete e RATHOLE_KEY)"

section \<open>Health of the gateway\<close>

definition DEFAULT_RATHOLE_PORT :: int where
  "DEFAULT_RATHOLE_PORT = 2333"

definition port_of_addr :: "string \<Rightarrow> int" where
  "port_of_addr addr =
     (case rpartition_on (CHR '':'') addr of (host, sep, port) \<Rightarrow>
        if sep \<and> host \<noteq> [] \<and> isdigit port then int (digits_val port) else DEFAULT_RATHOLE_PORT)"

definition parse_rathole_port :: "(blob \<times> nat) option \<Rightarrow> exn + int" where
  "parse_rathole_port r =
     (case r of
        None \<Rightarrow> Inr DEFAULT_RATHOLE_PORT
      | Some (Text _, _) \<Rightarrow> Inr DEFAULT_RATHOLE_PORT
      | Some (DocList _, _) \<Rightarrow> Inl AttributeError
      | Some (Doc d, _) \<Rightarrow> (case map_of d ''remote_addr'' of
          None \<Rightarrow> Inr (port_of_addr [])
        | Some (JStr addr) \<Rightarrow> Inr (port_of_addr addr)
        | Some _ \<Rightarrow> Inl AttributeError))"

definition add_probe_ip :: "json \<Rightarrow> json list \<Rightarrow> exn + json list" where
  "add_probe_ip n ips = map_sum id (\<lambda>d. if otruthy (map_of d ''ip'') then ips @ [the (map_of d ''ip'')] else ips) (as_dict n)"

definition frontend_probe_ips :: "json list \<Rightarrow> exn + json list" where
  "frontend_probe_ips nodes = sfold add_probe_ip nodes []"

record uplink =
  u_carrier :: "string \<Rightarrow> string option"
  u_connect :: "string \<Rightarrow> string \<Rightarrow> int \<Rightarrow> exn + unit"
  u_route :: "string \<Rightarrow> string"
  u_ping :: "string \<Rightarrow> string \<Rightarrow> int"
  u_late :: bool
  u_text :: "exn \<Rightarrow> string"

definition carrier_up :: "uplink \<Rightarrow> string \<Rightarrow> bool" where
  "carrier_up u iface = (case u_carrier u iface of Some t \<Rightarrow> strip t = ''1'' | None \<Rightarrow> False)"

text \<open>Binding the socket and connecting it may raise; only \<open>OSError\<close> (of which \<open>ConnectionError\<close> is a kind) is caught. A port
  above 65535, for one, raises \<open>OverflowError\<close>, which passes through.\<close>

definition os_error :: "exn \<Rightarrow> bool" where
  "os_error x = (x = OSError \<or> x = ConnectionError)"

definition tcp_reachable :: "uplink \<Rightarrow> string \<Rightarrow> json \<Rightarrow> int \<Rightarrow> exn + bool" where
  "tcp_reachable u iface ip port =
     (case ip of
        JStr a \<Rightarrow> (case u_connect u iface a port of
            Inr _ \<Rightarrow> Inr True
          | Inl x \<Rightarrow> if os_error x then Inr False else Inl x)
      | _ \<Rightarrow> Inl TypeError)"

definition next_hop :: "string list \<Rightarrow> exn + string option" where
  "next_hop out =
     (case dropWhile (\<lambda>w. w \<noteq> ''via'') out of
        [] \<Rightarrow> Inr None
      | [_] \<Rightarrow> Inl IndexError
      | _ # hop # _ \<Rightarrow> Inr (Some hop))"

definition next_hop_reachable :: "uplink \<Rightarrow> string \<Rightarrow> exn + bool" where
  "next_hop_reachable u iface =
     map_sum id (\<lambda>h. case h of None \<Rightarrow> False | Some hop \<Rightarrow> u_ping u iface hop = 0) (next_hop (split_ws (u_route u iface)))"

text \<open>The read runs in a thread; when it is not done in time or raises, \<open>RuntimeError\<close> is raised.\<close>

definition read_targets :: "'w etcd3 \<Rightarrow> uplink \<Rightarrow> ('w, json list \<times> int) py" where
  "read_targets e u =
     (if u_late u then py_raise (RuntimeError ''etcd read timed out after 3.0s'')
      else py_try
        (py_seq (e_client e)
        (py_bind (get_frontend_nodes e) (\<lambda>nodes.
         py_bind (e_get e RATHOLE_KEY) (\<lambda>cfg.
         py_bind (py_lift (frontend_probe_ips nodes)) (\<lambda>ips.
         py_bind (py_lift (parse_rathole_port cfg)) (\<lambda>port. py_return (ips, port)))))))
        (\<lambda>x. py_raise (RuntimeError (u_text u x))))"

fun first_reachable :: "uplink \<Rightarrow> string \<Rightarrow> int \<Rightarrow> json list \<Rightarrow> exn + json option" where
  "first_reachable u iface port [] = Inr None"
| "first_reachable u iface port (ip # ips) =
     (case tcp_reachable u iface ip port of
        Inl x \<Rightarrow> Inl x
      | Inr True \<Rightarrow> Inr (Some ip)
      | Inr False \<Rightarrow> first_reachable u iface port ips)"

definition fall_back :: "uplink \<Rightarrow> string \<Rightarrow> string \<Rightarrow> string \<Rightarrow> exn + bool \<times> string" where
  "fall_back u iface good bad =
     map_sum id (\<lambda>up. if up then (True, ''next hop reachable via '' @ iface @ '' '' @ good) else (False, bad)) (next_hop_reachable u iface)"

definition probe_frontends :: "uplink \<Rightarrow> string \<Rightarrow> json list \<Rightarrow> int \<Rightarrow> exn + bool \<times> string" where
  "probe_frontends u iface ips port =
     (if ips = []
      then fall_back u iface ''(no frontends configured)'' (''no frontends configured and next hop unreachable via '' @ iface)
      else map_sum id (\<lambda>r. case r of
             Some ip \<Rightarrow> (True, ''reached frontend '' @ shown ip @ '':'' @ int_str port @ '' via '' @ iface)
           | None \<Rightarrow> (False, ''no frontend reachable via '' @ iface @ '' ('' @ nat_str (length ips) @ '' tried)''))
             (first_reachable u iface port ips))"

definition check_gateway :: "'w etcd3 \<Rightarrow> uplink \<Rightarrow> string \<Rightarrow> ('w, bool \<times> string) py" where
  "check_gateway e u iface =
     (if \<not> carrier_up u iface then py_return (False, ''uplink '' @ iface @ '' absent or no carrier'')
      else py_bind (py_try (py_bind (read_targets e u) (\<lambda>t. py_return (Inr t))) (\<lambda>x. py_return (Inl x))) (\<lambda>t. case t of
             Inl x \<Rightarrow> py_lift (fall_back u iface (''(etcd unavailable: '' @ u_text u x @ '')'')
                        (''etcd unavailable and next hop unreachable via '' @ iface @ '': '' @ u_text u x))
           | Inr (ips, port) \<Rightarrow> py_lift (probe_frontends u iface ips port)))"

definition gateway_exit :: "'w etcd3 \<Rightarrow> uplink \<Rightarrow> string list \<Rightarrow> ('w, int) py" where
  "gateway_exit e u argv =
     (case argv of
        [] \<Rightarrow> py_return 2
      | iface # _ \<Rightarrow> py_bind (check_gateway e u iface) (\<lambda>r. py_return (if fst r then 0 else 1)))"


section \<open>When a node may hold the gateway\<close>

text \<open>The addresses to probe that a store holds, and stores whose frontends are documents with textual addresses.\<close>

definition probe_set :: "store \<Rightarrow> string set" where
  "probe_set c = {a. a \<noteq> [] \<and> (\<exists>k d n. startswith k FRONTEND_PREFIX \<and> c k = Some (Doc d, n) \<and> map_of d ''ip'' = Some (JStr a))}"

definition frontends_wf :: "store \<Rightarrow> bool" where
  "frontends_wf c = (\<forall>k b n. startswith k FRONTEND_PREFIX \<longrightarrow> c k = Some (b, n) \<longrightarrow>
     (case b of Doc d \<Rightarrow> (\<forall>j. map_of d ''ip'' = Some j \<longrightarrow> the_str j \<noteq> None) | DocList _ \<Rightarrow> False | Text _ \<Rightarrow> True))"

lemma otruthy_str: "(\<forall>j. x = Some j \<longrightarrow> the_str j \<noteq> None) \<Longrightarrow> otruthy x \<longleftrightarrow> (\<exists>a. x = Some (JStr a) \<and> a \<noteq> [])"
  by (cases x; cases "the x") (auto simp: otruthy_def)

lemma add_probe_ips:
  assumes "\<forall>n \<in> set nodes. \<exists>d. n = JObj d \<and> (\<forall>j. map_of d ''ip'' = Some j \<longrightarrow> the_str j \<noteq> None)"
  shows "\<exists>ips. sfold add_probe_ip nodes (map JStr acc) = Inr (map JStr ips)
    \<and> set ips = set acc \<union> {a. a \<noteq> [] \<and> (\<exists>d. JObj d \<in> set nodes \<and> map_of d ''ip'' = Some (JStr a))}"
  using assms
proof (induction nodes arbitrary: acc)
  case Nil
  then show ?case by auto
next
  case (Cons n nodes)
  from Cons.prems obtain d where n: "n = JObj d" and d: "\<forall>j. map_of d ''ip'' = Some j \<longrightarrow> the_str j \<noteq> None" by auto
  have rest: "\<forall>n \<in> set nodes. \<exists>d. n = JObj d \<and> (\<forall>j. map_of d ''ip'' = Some j \<longrightarrow> the_str j \<noteq> None)" using Cons.prems by simp
  show ?case
  proof (cases "otruthy (map_of d ''ip'')")
    case True
    then obtain a where a: "map_of d ''ip'' = Some (JStr a)" "a \<noteq> []" unfolding otruthy_str [OF d] by blast
    then have "sfold add_probe_ip (n # nodes) (map JStr acc) = sfold add_probe_ip nodes (map JStr (acc @ [a]))"
      using n True by (simp add: add_probe_ip_def as_dict_def)
    with Cons.IH [OF rest, of "acc @ [a]"] obtain ips where "sfold add_probe_ip (n # nodes) (map JStr acc) = Inr (map JStr ips)"
      "set ips = set (acc @ [a]) \<union> {a. a \<noteq> [] \<and> (\<exists>d. JObj d \<in> set nodes \<and> map_of d ''ip'' = Some (JStr a))}" by auto
    with n a show ?thesis by (intro exI [of _ ips]) auto
  next
    case False
    then have "sfold add_probe_ip (n # nodes) (map JStr acc) = sfold add_probe_ip nodes (map JStr acc)"
      using n by (simp add: add_probe_ip_def as_dict_def)
    moreover have "\<not> (\<exists>a. map_of d ''ip'' = Some (JStr a) \<and> a \<noteq> [])" using False unfolding otruthy_str [OF d] .
    ultimately show ?thesis using Cons.IH [OF rest, of acc] n by (elim exE) (intro exI, auto)
  qed
qed

lemma first_reachable_strs:
  "case first_reachable u iface port (map JStr ips) of
     Inl x \<Rightarrow> \<not> os_error x \<and> (\<exists>a \<in> set ips. u_connect u iface a port = Inl x)
   | Inr (Some _) \<Rightarrow> \<exists>a \<in> set ips. u_connect u iface a port = Inr ()
   | Inr None \<Rightarrow> \<forall>a \<in> set ips. u_connect u iface a port \<noteq> Inr ()"
  by (induction ips) (auto simp: tcp_reachable_def split: sum.splits option.splits)

context etcd_seq
begin

lemma wp_read_targets:
  assumes "frontends_wf (view s)" and port: "parse_rathole_port (view s RATHOLE_KEY) = Inr port" and "\<not> u_late u"
    and Q: "\<And>ips s'. view s' = view s \<Longrightarrow> set ips = probe_set (view s) \<Longrightarrow> Q (map JStr ips, port) s'"
  shows "wp (read_targets e u) Q E s"
  unfolding read_targets_def get_frontend_nodes_def wp_simps if_not_P [OF assms(3)]
proof (rule wp_client_seq, rule wp_prefix_seq, rule wp_get_seq)
  fix s1 s2 s3 xs assume v: "view s1 = view s" "view s2 = view s1" "view s3 = view s2" and xs: "prefix_list (view s1) FRONTEND_PREFIX xs"
  let ?nodes = "concat (map (\<lambda>(_, b). frontend_of b) xs)"
  have mem: "n \<in> set ?nodes \<longleftrightarrow> (\<exists>k b m. startswith k FRONTEND_PREFIX \<and> view s k = Some (b, m) \<and> n \<in> set (frontend_of b))" for n
    using prefix_listD [OF xs] v by fastforce
  have "\<forall>n \<in> set ?nodes. \<exists>d. n = JObj d \<and> (\<forall>j. map_of d ''ip'' = Some j \<longrightarrow> the_str j \<noteq> None)"
  proof
    fix n assume "n \<in> set ?nodes"
    then obtain k b m where k: "startswith k FRONTEND_PREFIX" "view s k = Some (b, m)" and n: "n \<in> set (frontend_of b)" unfolding mem by blast
    from assms(1) k have "case b of Doc d \<Rightarrow> (\<forall>j. map_of d ''ip'' = Some j \<longrightarrow> the_str j \<noteq> None) | DocList _ \<Rightarrow> False | Text _ \<Rightarrow> True"
      unfolding frontends_wf_def by blast
    with n show "\<exists>d. n = JObj d \<and> (\<forall>j. map_of d ''ip'' = Some j \<longrightarrow> the_str j \<noteq> None)" by (cases b) auto
  qed
  from add_probe_ips [OF this, of "[]"] obtain ips where ips: "frontend_probe_ips ?nodes = Inr (map JStr ips)"
    "set ips = {a. a \<noteq> [] \<and> (\<exists>d. JObj d \<in> set ?nodes \<and> map_of d ''ip'' = Some (JStr a))}"
    by (auto simp: frontend_probe_ips_def)
  have "JObj d \<in> set (frontend_of b) \<longleftrightarrow> b = Doc d" for d b by (cases b) auto
  then have "set ips = probe_set (view s)" unfolding ips(2) mem probe_set_def by auto
  with Q [of s3 ips] v ips(1) port
  show "case frontend_probe_ips ?nodes of Inl x \<Rightarrow> E (RuntimeError (u_text u x)) s3
     | Inr ips \<Rightarrow> case parse_rathole_port (view s2 RATHOLE_KEY) of Inl x \<Rightarrow> E (RuntimeError (u_text u x)) s3 | Inr port \<Rightarrow> Q (ips, port) s3"
    by simp
qed

end

text \<open>C13: with a reachable etcd, the track script lets a node hold the gateway exactly when the uplink has carrier and some
  configured frontend answers on the port of the tunnel's configuration; with no frontend configured, or when the
  read of etcd is late, the next hop decides instead. It fails only with what connecting to a frontend raised
  other than an \<open>OSError\<close>. The store is left as it was.\<close>

theorem gateway_healthy_iff:
  assumes "etcd_seq e view" and "frontends_wf (view s)" and "parse_rathole_port (view s RATHOLE_KEY) = Inr port"
    and hop: "next_hop_reachable u iface = Inr up"
  shows "\<exists>r s'. check_gateway e u iface s = (r, s') \<and> view s' = view s
    \<and> (case r of
         Inr (ok, msg) \<Rightarrow> ok = (carrier_up u iface
           \<and> (if u_late u \<or> probe_set (view s) = {} then up else \<exists>a \<in> probe_set (view s). u_connect u iface a port = Inr ()))
       | Inl x \<Rightarrow> carrier_up u iface \<and> \<not> u_late u \<and> \<not> os_error x \<and> (\<exists>a \<in> probe_set (view s). u_connect u iface a port = Inl x))"
proof -
  let ?ok = "carrier_up u iface
    \<and> (if u_late u \<or> probe_set (view s) = {} then up else \<exists>a \<in> probe_set (view s). u_connect u iface a port = Inr ())"
  let ?E = "\<lambda>x s'. view s' = view s \<and> carrier_up u iface \<and> \<not> u_late u \<and> \<not> os_error x \<and> (\<exists>a \<in> probe_set (view s). u_connect u iface a port = Inl x)"
  have "wp (check_gateway e u iface) (\<lambda>r s'. view s' = view s \<and> fst r = ?ok) ?E s"
  proof (cases "\<not> carrier_up u iface \<or> u_late u")
    case True
    then show ?thesis
      using hop by (auto simp: check_gateway_def wp_simps read_targets_def fall_back_def)
  next
    case False
    have probe: "case probe_frontends u iface (map JStr ips) port of Inl x \<Rightarrow> ?E x s' | Inr r \<Rightarrow> view s' = view s \<and> fst r = ?ok"
      if "view s' = view s" "set ips = probe_set (view s)" for ips s'
      using first_reachable_strs [where ips = ips and u = u and iface = iface and port = port] that False hop
      by (auto simp: probe_frontends_def fall_back_def split: sum.splits option.splits)
    from False have c: "\<not> \<not> carrier_up u iface" and l: "\<not> u_late u" by auto
    show ?thesis unfolding check_gateway_def if_not_P [OF c] wp_simps
      by (rule etcd_seq.wp_read_targets [OF assms(1-3) l]) (use probe in \<open>simp add: wp_simps\<close>)
  qed
  moreover obtain r s' where run: "check_gateway e u iface s = (r, s')" by fastforce
  ultimately have ends: "case r of Inl x \<Rightarrow> ?E x s' | Inr v \<Rightarrow> view s' = view s \<and> fst v = ?ok"
    by (simp only: wp_def prod.case)
  show ?thesis
  proof (cases r)
    case (Inl x)
    from ends [unfolded Inl sum.case] run Inl show ?thesis by (intro exI [of _ "Inl x"] exI [of _ s']) (auto simp only: sum.case)
  next
    case (Inr v)
    from ends [unfolded Inr sum.case] run Inr show ?thesis
      by (intro exI [of _ "Inr v"] exI [of _ s']) (simp only: sum.case split_def)
  qed
qed

text \<open>A failing etcd alone never takes the gateway from a node whose uplink and next hop are up.\<close>

lemma etcd_failure_keeps_gateway:
  assumes "carrier_up u iface" and "next_hop_reachable u iface = Inr True" and "isl (fst (read_targets e u s))"
  shows "\<exists>msg s'. check_gateway e u iface s = (Inr (True, msg), s')"
proof -
  from assms(3) obtain x s1 where "read_targets e u s = (Inl x, s1)" by (cases "read_targets e u s") (auto simp: isl_def)
  with assms(1,2) show ?thesis
    by (simp add: check_gateway_def py_defs fall_back_def)
qed

section \<open>The tunnel's port\<close>

lemma py_bind_return: "py_bind (py_return x) f = f x"
  by (simp add: py_defs)

lemma rpartition_snoc: "c \<notin> set p \<Longrightarrow> rpartition_on c (h @ c # p) = (h, True, p)"
  by (auto simp: rpartition_on_def takeWhile_append dropWhile_append takeWhile_eq_all_conv [THEN iffD2])

text \<open>A configuration set for a host and a port written in digits is stored with the token, the port is in range, and it is
  the port the gateway check probes.\<close>

theorem rathole_port_roundtrip:
  assumes "etcd_seq e view" and "host \<noteq> []" and "token \<noteq> []" and "isdigit port"
    and run: "set_rathole_config e (Some (host @ '':'' @ port)) (Some token) s = (r, s')"
  shows "if digits_val port \<in> {1..65535}
    then r = Inr () \<and> parse_rathole_port (view s' RATHOLE_KEY) = Inr (int (digits_val port))
      \<and> map_option fst (view s' RATHOLE_KEY) = Some (Doc [(''remote_addr'', JStr (host @ '':'' @ port)), (''token'', JStr token)])
    else isl r \<and> s' = s"
proof -
  have "CHR '':'' \<notin> set port" using assms(4) by (auto simp: isdigit_def list_all_iff is_digit_def)
  then have rp: "rpartition_on (CHR '':'') (host @ CHR '':'' # port) = (host, True, port)" by (simp add: rpartition_snoc)
  have int: "py_int port = Some (int (digits_val port))" using assms(4) by (simp add: py_int_digits isdigit_def)
  show ?thesis
  proof (cases "digits_val port \<in> {1..65535}")
    case True
    let ?doc = "[(''remote_addr'', JStr (host @ '':'' @ port)), (''token'', JStr token)]"
    have "validate_host_port (host @ CHR '':'' # port) = Inr ()"
      using True assms(2) by (simp add: validate_host_port_def rp int)
    then have "set_rathole_config e (Some (host @ '':'' @ port)) (Some token) = py_seq (e_client e) (e_put e RATHOLE_KEY (Doc ?doc))"
      using assms(3) by (simp add: set_rathole_config_def given_def py_seq_def py_bind_lift py_bind_return otruthy_def Let_def)
    then have "wp (set_rathole_config e (Some (host @ '':'' @ port)) (Some token))
        (\<lambda>_ s'. \<exists>n. view s' = (view s)(RATHOLE_KEY \<mapsto> (Doc ?doc, n))) (\<lambda>_ _. False) s"
      by (auto simp: wp_simps intro!: etcd_seq.wp_client_seq [OF assms(1)] etcd_seq.wp_put_seq [OF assms(1)])
    with run True assms(2,4) show ?thesis
      by (auto simp: wp_def parse_rathole_port_def port_of_addr_def rp split: sum.splits)
  next
    case False
    then obtain x where "validate_host_port (host @ CHR '':'' # port) = Inl x"
      using assms(2) by (auto simp: validate_host_port_def rp int)
    with run have "r = Inl x \<and> s' = s" by (simp add: set_rathole_config_def given_def py_defs)
    with False show ?thesis by simp
  qed
qed

text \<open>A port that \<open>int\<close> accepts but \<open>isdigit\<close> does not passes the validation, and the gateway check probes the default port.\<close>

lemma gateway_probes_other_port:
  "validate_host_port ''f.example:+80'' = Inr () \<and> port_of_addr ''f.example:+80'' = 2333"
  by code_simp

section \<open>Adding and deleting frontends\<close>

text \<open>Adding a frontend never replaces one that is registered, writes its own key only, and deleting it restores the store; of an
  address exactly one of \<open>ip\<close> and \<open>hostname\<close> is recorded.\<close>

theorem frontend_add_delete:
  assumes "etcd_seq e view" and "add_frontend_node e now name address description s = (r, s')"
  shows "if present (view s (frontend_key name)) then r = Inr False \<and> view s' = view s
    else r = Inr True
      \<and> (\<exists>n. view s' = (view s)(frontend_key name \<mapsto> (Doc (frontend_doc name address description now), n)))
      \<and> map_of (frontend_doc name address description now) (if ip_address_ok address then ''ip'' else ''hostname'') = Some (JStr address)
      \<and> (\<exists>s''. delete_frontend_node e name s' = (Inr True, s'') \<and> view s'' = (view s)(frontend_key name := None))"
proof -
  note intros = etcd_seq.wp_client_seq [OF assms(1)] etcd_seq.wp_get_seq [OF assms(1)] etcd_seq.wp_put_seq [OF assms(1)]
    etcd_seq.wp_delete_seq [OF assms(1)]
  let ?k = "frontend_key name" and ?doc = "frontend_doc name address description now"
  have add: "wp (add_frontend_node e now name address description)
      (\<lambda>r s'. r = (\<not> present (view s ?k)) \<and> (if present (view s ?k) then view s' = view s else \<exists>n. view s' = (view s)(?k \<mapsto> (Doc ?doc, n))))
      (\<lambda>_ _. False) s"
    unfolding add_frontend_node_def wp_simps by (intro intros) (auto simp: wp_simps intro!: intros)
  have del: "\<exists>s''. delete_frontend_node e name s' = (Inr True, s'') \<and> view s'' = (view s)(?k := None)"
    if "view s' = (view s)(?k \<mapsto> (Doc ?doc, n))" for n
  proof -
    have "wp (delete_frontend_node e name) (\<lambda>r s''. r \<and> view s'' = (view s)(?k := None)) (\<lambda>_ _. False) s'"
      unfolding delete_frontend_node_def wp_simps by (intro intros) (use that in \<open>auto simp: wp_simps present_def intro!: intros\<close>)
    then show ?thesis by (auto simp: wp_def split: prod.splits sum.splits)
  qed
  have "map_of ?doc (if ip_address_ok address then ''ip'' else ''hostname'') = Some (JStr address)" by (simp add: frontend_doc_def)
  with add assms(2) del show ?thesis by (auto simp: wp_def split: sum.splits)
qed

section \<open>Examples\<close>

definition gateway_store :: mem where
  "gateway_store = \<lparr>mem_data =
     [(frontend_key ''f1'', Doc [(''name'', JStr ''f1''), (''ip'', JStr ''192.0.2.1'')], 1),
      (frontend_key ''f2'', Doc [(''name'', JStr ''f2''), (''hostname'', JStr ''f2.example'')], 2),
      (RATHOLE_KEY, Doc [(''remote_addr'', JStr ''f1.example:2400''), (''token'', JStr ''t'')], 3)], mem_rev = 3\<rparr>"

definition one_frontend :: uplink where
  "one_frontend = \<lparr>u_carrier = (\<lambda>i. Some (''1'' @ nl)), u_connect = (\<lambda>i a p. if a = ''192.0.2.1'' \<and> p = 2400 then Inr () else Inl ConnectionError),
     u_route = (\<lambda>i. ''default via 192.0.2.254''), u_ping = (\<lambda>i h. 1), u_late = False, u_text = (\<lambda>_. [])\<rparr>"

theorem gateway_healthy_iff_witness:
  "carrier_up one_frontend ''eth1'' \<and> ''192.0.2.1'' \<in> probe_set (mem_view gateway_store)
   \<and> (\<exists>msg s'. check_gateway mem_etcd one_frontend ''eth1'' gateway_store = (Inr (True, msg), s'))"
proof -
  have wf: "frontends_wf (mem_view gateway_store)"
    by (auto simp: frontends_wf_def gateway_store_def mem_view_def RATHOLE_KEY_def frontend_key_def FRONTEND_PREFIX_def split: if_splits)
  have port: "parse_rathole_port (mem_view gateway_store RATHOLE_KEY) = Inr 2400" by code_simp
  have hop: "next_hop_reachable one_frontend ''eth1'' = Inr False" by code_simp
  have up: "carrier_up one_frontend ''eth1''" "\<not> u_late one_frontend" "u_connect one_frontend ''eth1'' ''192.0.2.1'' 2400 = Inr ()"
    by code_simp+
  have only: "\<not> os_error x \<Longrightarrow> u_connect one_frontend ''eth1'' a p \<noteq> Inl x" for x a p by (auto simp: one_frontend_def os_error_def)
  have ip: "''192.0.2.1'' \<in> probe_set (mem_view gateway_store)"
    by (auto simp: probe_set_def gateway_store_def mem_view_def frontend_key_def FRONTEND_PREFIX_def RATHOLE_KEY_def startswith_def intro!: exI [of _ "frontend_key ''f1''"])
  from gateway_healthy_iff [OF memkv.etcd_seq_axioms wf port hop] obtain r s'
    where run: "check_gateway mem_etcd one_frontend ''eth1'' gateway_store = (r, s')" and verdict: "case r of
         Inr (ok, msg) \<Rightarrow> ok = (carrier_up one_frontend ''eth1'' \<and> (if u_late one_frontend \<or> probe_set (mem_view gateway_store) = {} then False
           else \<exists>a \<in> probe_set (mem_view gateway_store). u_connect one_frontend ''eth1'' a 2400 = Inr ()))
       | Inl x \<Rightarrow> carrier_up one_frontend ''eth1'' \<and> \<not> u_late one_frontend \<and> \<not> os_error x
           \<and> (\<exists>a \<in> probe_set (mem_view gateway_store). u_connect one_frontend ''eth1'' a 2400 = Inl x)" by blast
  from verdict only obtain ok msg where r: "r = Inr (ok, msg)" by (cases r) auto
  with verdict up ip have ok by auto
  with run r up(1) ip show ?thesis by auto
qed

theorem rathole_port_roundtrip_witness:
  "map_option fst (mem_view (snd (set_rathole_config mem_etcd (Some ''f1.example:2400'') (Some ''t'') empty_mem)) RATHOLE_KEY)
     = Some (Doc [(''remote_addr'', JStr ''f1.example:2400''), (''token'', JStr ''t'')])"
proof -
  have p: "digits_val ''2400'' = 2400" "isdigit ''2400''" by code_simp+
  show ?thesis
    using rathole_port_roundtrip [OF memkv.etcd_seq_axioms, of "''f1.example''" "''t''" "''2400''" empty_mem, OF _ _ p(2) prod.collapse [symmetric]] p
    by simp
qed

theorem frontend_add_delete_witness:
  "\<exists>s''. delete_frontend_node mem_etcd ''f3'' (snd (add_frontend_node mem_etcd 0 ''f3'' ''192.0.2.3'' None gateway_store)) = (Inr True, s'')
     \<and> mem_view s'' = (mem_view gateway_store)(frontend_key ''f3'' := None)"
proof -
  have "\<not> present (mem_view gateway_store (frontend_key ''f3''))" by code_simp
  then show ?thesis
    using frontend_add_delete [OF memkv.etcd_seq_axioms prod.collapse [symmetric], where now = 0 and name = "''f3''" and address = "''192.0.2.3''"
        and description = None and s = gateway_store] by simp
qed

end
