(* ===== verification/YTls.thy ===== *)
theory YTls
  imports YHealth
begin

text \<open>
  The public domain and its certificate (\<open>https_config.py\<close>, \<open>tls_config.py\<close>, \<open>certbot_manager.py\<close>,
  \<open>fetch_tls_certs.py\<close>): domain, aliases and e-mail in etcd, the certificate and private key in etcd and in the
  files of nginx, and the runs of certbot that obtain, renew and revoke it. Files, temporary files, commands and
  the template engine are the record \<open>box\<close>; the locale \<open>tls_env\<close> says what the proofs use of them.
\<close>

section \<open>What the manager runs on\<close>

record 'w box =
  bx_tempfile :: "string \<Rightarrow> string \<Rightarrow> ('w, string) py"
  bx_mkdtemp :: "('w, string) py"
  bx_rmtree :: "string \<Rightarrow> ('w, unit) py"
  bx_unlink :: "string \<Rightarrow> ('w, unit) py"
  bx_read :: "string \<Rightarrow> ('w, string option) py"
  bx_write :: "string \<Rightarrow> string \<Rightarrow> ('w, unit) py"
  bx_chmod :: "string \<Rightarrow> string \<Rightarrow> ('w, unit) py"
  bx_mkdir :: "string \<Rightarrow> ('w, unit) py"
  bx_run :: "string list \<Rightarrow> string \<Rightarrow> ('w, int) py"
  bx_templates :: "('w, (string \<times> string) list option) py"
  bx_render :: "string \<Rightarrow> string \<Rightarrow> bool \<Rightarrow> exn + string"
  bx_text :: "blob \<Rightarrow> string"

text \<open>A template is listed by the name of its site and its file, which \<open>bx_render\<close> reads and fills in.\<close>

definition get_value :: "'w etcd3 \<Rightarrow> string \<Rightarrow> ('w, blob option) py" where
  "get_value e k = py_bind (e_get e k) (\<lambda>r. py_return (case r of Some (b, _) \<Rightarrow> if blob_true b then Some b else None | None \<Rightarrow> None))"

section \<open>Domain, aliases and e-mail\<close>

definition DOMAIN_KEY :: string where
  "DOMAIN_KEY = ''/cluster/https/domain''"

definition ALIASES_KEY :: string where
  "ALIASES_KEY = ''/cluster/https/aliases''"

definition EMAIL_KEY :: string where
  "EMAIL_KEY = ''/cluster/https/email''"

record https_config =
  hc_domain :: "string option"
  hc_aliases :: json
  hc_email :: "string option"

fun loads_aliases :: "blob option \<Rightarrow> json" where
  "loads_aliases (Some (Doc d)) = JObj d"
| "loads_aliases (Some (DocList xs)) = JList xs"
| "loads_aliases _ = JList []"

definition get_https_config :: "'w etcd3 \<Rightarrow> 'w box \<Rightarrow> ('w, https_config) py" where
  "get_https_config e b =
     py_seq (e_client e)
     (py_bind (get_value e DOMAIN_KEY) (\<lambda>domain_value.
      py_bind (get_value e ALIASES_KEY) (\<lambda>aliases_value.
      py_bind (get_value e EMAIL_KEY) (\<lambda>email_value.
        py_return \<lparr>hc_domain = map_option (\<lambda>v. strip (bx_text b v)) domain_value, hc_aliases = loads_aliases aliases_value,
          hc_email = map_option (\<lambda>v. strip (bx_text b v)) email_value\<rparr>))))"

definition set_domain :: "'w etcd3 \<Rightarrow> string \<Rightarrow> ('w, unit) py" where
  "set_domain e domain = py_seq (e_client e) (e_put e DOMAIN_KEY (Text domain))"

definition set_email :: "'w etcd3 \<Rightarrow> string \<Rightarrow> ('w, unit) py" where
  "set_email e email = py_seq (e_client e) (e_put e EMAIL_KEY (Text email))"

text \<open>The aliases are changed with list methods, which a dictionary does not have.\<close>

definition add_alias :: "'w etcd3 \<Rightarrow> string \<Rightarrow> ('w, unit) py" where
  "add_alias e alias =
     py_seq (e_client e)
     (py_bind (get_value e ALIASES_KEY) (\<lambda>v. case loads_aliases v of
        JList xs \<Rightarrow> if JStr alias \<notin> set xs then e_put e ALIASES_KEY (DocList (xs @ [JStr alias])) else py_return ()
      | JObj d \<Rightarrow> if map_of d alias = None then py_raise AttributeError else py_return ()
      | _ \<Rightarrow> py_raise TypeError))"

definition remove_alias :: "'w etcd3 \<Rightarrow> string \<Rightarrow> ('w, unit) py" where
  "remove_alias e alias =
     py_seq (e_client e)
     (py_bind (get_value e ALIASES_KEY) (\<lambda>v. case loads_aliases v of
        JList xs \<Rightarrow> if JStr alias \<in> set xs then e_put e ALIASES_KEY (DocList (remove1 (JStr alias) xs)) else py_return ()
      | JObj d \<Rightarrow> if map_of d alias \<noteq> None then py_raise AttributeError else py_return ()
      | _ \<Rightarrow> py_raise TypeError))"

fun iterated :: "json \<Rightarrow> json list" where
  "iterated (JList xs) = xs"
| "iterated (JObj d) = map (JStr \<circ> fst) d"
| "iterated _ = []"

definition https_get_all_domains :: "'w etcd3 \<Rightarrow> 'w box \<Rightarrow> ('w, json list) py" where
  "https_get_all_domains e b =
     py_bind (get_https_config e b) (\<lambda>c.
       py_return ((case hc_domain c of Some d \<Rightarrow> [JStr d] | None \<Rightarrow> []) @ iterated (hc_aliases c)))"

text \<open>The result says which message is printed.\<close>

definition count_deleted :: "'w etcd3 \<Rightarrow> string \<Rightarrow> nat \<Rightarrow> ('w, nat) py" where
  "count_deleted e k n = py_bind (e_delete e k) (\<lambda>gone. py_return (if gone then Suc n else n))"

definition delete_https_config :: "'w etcd3 \<Rightarrow> ('w, bool) py" where
  "delete_https_config e =
     py_seq (e_client e)
     (py_bind (py_fold (count_deleted e) [DOMAIN_KEY, ALIASES_KEY, EMAIL_KEY] 0) (\<lambda>n. py_return (0 < n)))"

section \<open>Certificate and key in etcd\<close>

definition CERT_KEY :: string where
  "CERT_KEY = ''/cluster/tls/cert''"

definition KEY_KEY :: string where
  "KEY_KEY = ''/cluster/tls/key''"

definition COMMON_NAME_KEY :: string where
  "COMMON_NAME_KEY = ''/cluster/tls/common_name''"

definition set_tls_cert :: "'w etcd3 \<Rightarrow> string \<Rightarrow> string \<Rightarrow> ('w, unit) py" where
  "set_tls_cert e cert_pem key_pem =
     py_seq (e_client e) (py_seq (e_put e CERT_KEY (Text cert_pem)) (e_put e KEY_KEY (Text key_pem)))"

definition delete_tls_cert :: "'w etcd3 \<Rightarrow> ('w, bool) py" where
  "delete_tls_cert e =
     py_seq (e_client e)
     (py_bind (e_delete e CERT_KEY) (\<lambda>c. py_bind (e_delete e KEY_KEY) (\<lambda>k. py_return (c \<or> k))))"

definition get_common_name_from_etcd :: "'w etcd3 \<Rightarrow> 'w box \<Rightarrow> ('w, string option) py" where
  "get_common_name_from_etcd e b =
     py_try (py_seq (e_client e) (py_bind (get_value e COMMON_NAME_KEY) (\<lambda>v. py_return (map_option (\<lambda>x. strip (bx_text b x)) v))))
       (\<lambda>_. py_return None)"

definition set_common_name_in_etcd :: "'w etcd3 \<Rightarrow> string \<Rightarrow> ('w, unit) py" where
  "set_common_name_in_etcd e common_name = py_seq (e_client e) (e_put e COMMON_NAME_KEY (Text common_name))"

text \<open>The generator of key and certificate (the cryptography package) is a parameter.\<close>

definition generate_and_store_cert ::
  "'w etcd3 \<Rightarrow> 'w box \<Rightarrow> (string \<Rightarrow> string list \<Rightarrow> ('w, string \<times> string) py) \<Rightarrow> string option \<Rightarrow> string list \<Rightarrow> ('w, unit) py" where
  "generate_and_store_cert e b generate common_name san_list =
     py_bind (if common_name = None \<or> common_name = Some [] then get_common_name_from_etcd e b else py_return common_name) (\<lambda>cn.
       let name = (case cn of Some t \<Rightarrow> if t = [] then ''cluster.local'' else t | None \<Rightarrow> ''cluster.local'') in
       py_bind (generate name san_list) (\<lambda>(cert_pem, key_pem).
         py_seq (set_tls_cert e cert_pem key_pem) (set_common_name_in_etcd e name)))"

section \<open>Fetching the certificate\<close>

definition NGINX_CERT :: string where
  "NGINX_CERT = ''/etc/nginx/ssl/cert.pem''"

definition NGINX_KEY :: string where
  "NGINX_KEY = ''/etc/nginx/ssl/key.pem''"

definition fetch_tls_certs :: "'w etcd3 \<Rightarrow> 'w box \<Rightarrow> ('w, bool) py" where
  "fetch_tls_certs e b =
     py_seq (py_try (e_client e) (\<lambda>_. py_raise (SystemExit 1)))
     (py_bind (get_value e CERT_KEY) (\<lambda>cert_value.
      py_bind (get_value e KEY_KEY) (\<lambda>key_value. case (cert_value, key_value) of
        (Some certv, Some keyv) \<Rightarrow>
          (let cert_content = bx_text b certv; key_content = bx_text b keyv in
           py_bind (bx_read b NGINX_CERT) (\<lambda>old_cert.
           py_bind (bx_read b NGINX_KEY) (\<lambda>old_key.
             let cert_changed = (old_cert \<noteq> Some cert_content); key_changed = (old_key \<noteq> Some key_content) in
             py_seq (py_when cert_changed (bx_write b NGINX_CERT cert_content))
             (py_seq (py_when key_changed (bx_write b NGINX_KEY key_content))
               (py_return (cert_changed \<or> key_changed))))))
      | _ \<Rightarrow> py_raise (SystemExit 1))))"

section \<open>Certbot\<close>

definition write_tls_key_to_temp :: "'w etcd3 \<Rightarrow> 'w box \<Rightarrow> ('w, string option) py" where
  "write_tls_key_to_temp e b =
     py_seq (e_client e)
     (py_bind (get_value e KEY_KEY) (\<lambda>key_value. case key_value of
        None \<Rightarrow> py_return None
      | Some v \<Rightarrow>
          py_bind (bx_tempfile b ''.pem'' (bx_text b v)) (\<lambda>name.
            py_seq (bx_chmod b name ''600'') (py_return (Some name)))))"

definition write_tls_key_to_nginx :: "'w etcd3 \<Rightarrow> 'w box \<Rightarrow> ('w, unit) py" where
  "write_tls_key_to_nginx e b =
     py_seq (e_client e)
     (py_bind (get_value e KEY_KEY) (\<lambda>key_value. case key_value of
        None \<Rightarrow> py_return ()
      | Some v \<Rightarrow>
          py_seq (bx_mkdir b ''/etc/nginx/ssl'')
          (py_seq (bx_write b NGINX_KEY (bx_text b v))
          (bx_chmod b NGINX_KEY ''600''))))"

definition csr_config :: "string list \<Rightarrow> string" where
  "csr_config domains =
     ''[req]'' @ nl @ ''distinguished_name = req_distinguished_name'' @ nl @ ''req_extensions = v3_req'' @ nl @ nl
     @ ''[req_distinguished_name]'' @ nl @ nl @ ''[v3_req]'' @ nl @ ''subjectAltName = @alt_names'' @ nl @ nl @ ''[alt_names]'' @ nl
     @ concat (map (\<lambda>(i, d). ''DNS.'' @ nat_str i @ '' = '' @ d @ nl) (List.enumerate 1 domains))"

text \<open>A command run with \<open>check=True\<close>.\<close>

definition run_checked :: "'w box \<Rightarrow> string list \<Rightarrow> string \<Rightarrow> ('w, unit) py" where
  "run_checked b cmd input = py_bind (bx_run b cmd input) (\<lambda>rc. if rc = 0 then py_return () else py_raise (CalledProcessError rc))"

text \<open>\<open>except subprocess.CalledProcessError\<close>: other exceptions pass.\<close>

definition on_failure :: "('w, 'a) py \<Rightarrow> ('w, 'a) py \<Rightarrow> ('w, 'a) py" where
  "on_failure m h = py_try m (\<lambda>x. case x of CalledProcessError _ \<Rightarrow> h | _ \<Rightarrow> py_raise x)"

definition joinable :: "json list \<Rightarrow> exn + string list" where
  "joinable domains = map_sum (\<lambda>_. TypeError) id (all_strs domains)"

definition csr_command :: "string \<Rightarrow> string \<Rightarrow> string \<Rightarrow> string list" where
  "csr_command key_path csr primary_domain =
     [''openssl'', ''req'', ''-new'', ''-key'', key_path, ''-out'', csr, ''-subj'', ''/CN='' @ primary_domain, ''-config'', ''/dev/stdin'']"

definition generate_csr :: "'w box \<Rightarrow> string \<Rightarrow> json list \<Rightarrow> ('w, string option) py" where
  "generate_csr b key_path domains =
     py_bind (py_lift (case domains of [] \<Rightarrow> Inl IndexError | d # _ \<Rightarrow> Inr (shown d))) (\<lambda>primary_domain.
     py_bind (bx_tempfile b ''.csr'' []) (\<lambda>csr.
       on_failure
         (py_bind (py_lift (joinable domains)) (\<lambda>ds.
            py_seq (run_checked b (csr_command key_path csr primary_domain) (csr_config ds)) (py_return (Some csr))))
         (py_seq (py_ignore (bx_unlink b csr)) (py_return None))))"

definition site_instance :: "string \<Rightarrow> string option" where
  "site_instance site_name = (if CHR ''_'' \<in> set site_name then Some (last (split_on (CHR ''_'') site_name)) else None)"

definition discover_nginx_templates :: "'w box \<Rightarrow> ('w, (string \<times> string) list) py" where
  "discover_nginx_templates b = py_bind (bx_templates b) (\<lambda>ts. py_return (case ts of Some xs \<Rightarrow> xs | None \<Rightarrow> []))"

definition discover_nginx_instance_subdomains :: "'w box \<Rightarrow> ('w, string list) py" where
  "discover_nginx_instance_subdomains b =
     py_bind (discover_nginx_templates b) (\<lambda>sites.
       py_return (fold (\<lambda>(site, _) acc. case site_instance site of
          Some i \<Rightarrow> if i \<in> set acc then acc else acc @ [i] | None \<Rightarrow> acc) sites []))"

definition add_domain :: "string \<Rightarrow> string list \<Rightarrow> string list" where
  "add_domain d ds = (if d \<in> set ds then ds else ds @ [d])"

definition get_all_domains :: "'w box \<Rightarrow> https_config \<Rightarrow> ('w, json list) py" where
  "get_all_domains b c =
     py_bind (case hc_domain c of
        None \<Rightarrow> py_return []
      | Some primary \<Rightarrow> py_bind (discover_nginx_instance_subdomains b) (\<lambda>instances.
          py_return (fold (\<lambda>i. add_domain (i @ ''.'' @ primary)) instances [primary, ''admin.'' @ primary]))) (\<lambda>ds.
       py_return (map JStr ds @ iterated (hc_aliases c)))"

definition site_path :: "string \<Rightarrow> string" where
  "site_path site_name = ''/etc/nginx/sites-available/'' @ site_name"

definition update_site :: "'w box \<Rightarrow> string \<Rightarrow> bool \<Rightarrow> string \<times> string \<Rightarrow> nat \<Rightarrow> ('w, nat) py" where
  "update_site b primary_domain use_tls site n =
     py_try
       (let path = site_path (fst site);
            site_domain = (case site_instance (fst site) of Some i \<Rightarrow> i @ ''.'' @ primary_domain | None \<Rightarrow> primary_domain)
        in py_bind (py_lift (bx_render b (snd site) site_domain use_tls)) (\<lambda>updated.
           py_bind (bx_read b path) (\<lambda>existing.
             if existing = Some updated then py_return n
             else py_seq (bx_write b path updated) (py_return (Suc n)))))
       (\<lambda>_. py_return n)"

definition update_sites :: "'w box \<Rightarrow> string \<Rightarrow> bool \<Rightarrow> ('w, bool) py" where
  "update_sites b primary_domain use_tls =
     py_bind (discover_nginx_templates b) (\<lambda>sites.
       if sites = [] then py_return False
       else py_bind (py_fold (update_site b primary_domain use_tls) sites 0) (\<lambda>updated_count.
         if updated_count = 0 then py_return True
         else py_bind (bx_run b [''nginx'', ''-t''] []) (\<lambda>rc.
           if rc \<noteq> 0 then py_return False
           else py_bind (bx_run b [''systemctl'', ''reload'', ''nginx''] []) (\<lambda>rc. py_return (rc = 0)))))"

definition update_nginx_configs :: "'w etcd3 \<Rightarrow> 'w box \<Rightarrow> bool \<Rightarrow> ('w, bool) py" where
  "update_nginx_configs e b local_mode =
     (if local_mode then update_sites b ''localhost'' False
      else py_bind (get_https_config e b) (\<lambda>c. case hc_domain c of
             None \<Rightarrow> py_return False
           | Some primary_domain \<Rightarrow> update_sites b primary_domain True))"

definition ensure_nginx_cert_from_etcd :: "'w etcd3 \<Rightarrow> 'w box \<Rightarrow> ('w, bool) py" where
  "ensure_nginx_cert_from_etcd e b =
     py_seq (e_client e)
     (py_bind (get_value e CERT_KEY) (\<lambda>cert_value. case cert_value of
        None \<Rightarrow> py_return False
      | Some v \<Rightarrow>
          py_seq (bx_mkdir b ''/etc/nginx/ssl'')
          (py_bind (bx_read b NGINX_CERT) (\<lambda>existing.
             py_seq (py_when (existing = None) (py_seq (bx_write b NGINX_CERT (bx_text b v)) (bx_chmod b NGINX_CERT ''644'')))
               (py_return True)))))"

definition fetch_timer :: "'w box \<Rightarrow> string \<Rightarrow> ('w, unit) py" where
  "fetch_timer b action = py_ignore (bx_run b [''systemctl'', action, ''fetch-tls-certs.timer''] [])"

text \<open>The new certificate, with the chain when there is one, goes to etcd and nginx while the timer is stopped.\<close>

definition store_certificate :: "'w etcd3 \<Rightarrow> 'w box \<Rightarrow> ('w, unit) py \<Rightarrow> string \<Rightarrow> ('w, unit) py" where
  "store_certificate e b connect fullchain =
     py_seq (fetch_timer b ''stop'')
       (py_finally
         (py_seq connect
         (py_seq (e_put e CERT_KEY (Text fullchain))
         (py_seq (write_tls_key_to_nginx e b)
         (py_seq (bx_mkdir b ''/etc/nginx/ssl'')
         (py_seq (bx_write b NGINX_CERT fullchain) (bx_chmod b NGINX_CERT ''644''))))))
         (fetch_timer b ''start''))"

definition fullchain_of :: "'w box \<Rightarrow> string \<Rightarrow> string \<Rightarrow> ('w, string) py" where
  "fullchain_of b cert_content chain_path =
     py_bind (bx_read b chain_path) (\<lambda>chain. py_return (case chain of Some t \<Rightarrow> cert_content @ t | None \<Rightarrow> cert_content))"

definition obtain_options :: "string option \<Rightarrow> bool \<Rightarrow> bool \<Rightarrow> string option \<Rightarrow> string list" where
  "obtain_options email test_cert non_interactive server =
     (if non_interactive then [''--non-interactive''] else [])
     @ (case email of Some m \<Rightarrow> if m = [] then [''--register-unsafely-without-email''] else [''--email'', m]
        | None \<Rightarrow> [''--register-unsafely-without-email''])
     @ (if test_cert then [''--test-cert''] else [])
     @ (case server of Some u \<Rightarrow> if u = [] then [] else [''--server'', u] | None \<Rightarrow> [])"

definition obtain_command :: "string \<Rightarrow> string \<Rightarrow> string \<Rightarrow> string option \<Rightarrow> bool \<Rightarrow> bool \<Rightarrow> string option \<Rightarrow> string list" where
  "obtain_command csr_path cert_path chain_path email test_cert non_interactive server =
     [''certbot'', ''certonly'', ''--csr'', csr_path, ''--webroot'', ''-w'', ''/var/www/html'', ''--agree-tos'', ''--no-eff-email'',
      ''--cert-path'', cert_path, ''--chain-path'', chain_path] @ obtain_options email test_cert non_interactive server"

definition renew_command :: "string \<Rightarrow> string \<Rightarrow> string \<Rightarrow> bool \<Rightarrow> string list" where
  "renew_command csr_path cert_path chain_path non_interactive =
     [''certbot'', ''certonly'', ''--csr'', csr_path, ''--webroot'', ''-w'', ''/var/www/html'', ''--force-renewal'',
      ''--cert-path'', cert_path, ''--chain-path'', chain_path]
     @ (if non_interactive then [''--non-interactive''] else [])"

definition clean_up :: "'w box \<Rightarrow> string \<Rightarrow> string \<Rightarrow> string \<Rightarrow> ('w, unit) py" where
  "clean_up b key_path csr_path temp_dir =
     py_seq (py_ignore (bx_unlink b key_path)) (py_seq (py_ignore (bx_unlink b csr_path)) (py_ignore (bx_rmtree b temp_dir)))"

text \<open>From the key in a temporary file to the temporary directory of certbot, and what is done in it (\<open>body\<close>).\<close>

definition with_csr :: "'w etcd3 \<Rightarrow> 'w box \<Rightarrow> json list \<Rightarrow> (string \<Rightarrow> string \<Rightarrow> ('w, bool) py) \<Rightarrow> ('w, bool) py" where
  "with_csr e b domains body =
     py_bind (write_tls_key_to_temp e b) (\<lambda>k. case k of
       None \<Rightarrow> py_return False
     | Some key_path \<Rightarrow>
         py_bind (generate_csr b key_path domains) (\<lambda>c. case c of
           None \<Rightarrow> py_seq (py_ignore (bx_unlink b key_path)) (py_return False)
         | Some csr_path \<Rightarrow>
             py_seq (ensure_nginx_cert_from_etcd e b)
             (py_bind (bx_mkdtemp b) (\<lambda>temp_dir.
               py_finally (on_failure (body csr_path temp_dir) (py_return False)) (clean_up b key_path csr_path temp_dir)))))"

definition obtain_body :: "'w etcd3 \<Rightarrow> 'w box \<Rightarrow> string option \<Rightarrow> bool \<Rightarrow> bool \<Rightarrow> string option \<Rightarrow> string \<Rightarrow> string \<Rightarrow> ('w, bool) py" where
  "obtain_body e b email test_cert non_interactive server csr_path temp_dir =
     (let cert_path = temp_dir @ ''/cert.pem''; chain_path = temp_dir @ ''/chain.pem'' in
      py_seq (run_checked b (obtain_command csr_path cert_path chain_path email test_cert non_interactive server) [])
      (py_bind (bx_read b cert_path) (\<lambda>c. case c of
         None \<Rightarrow> py_return False
       | Some cert_content \<Rightarrow>
           py_bind (fullchain_of b cert_content chain_path) (\<lambda>fullchain.
             py_seq (store_certificate e b (e_client e) fullchain) (py_seq (update_nginx_configs e b False) (py_return True))))))"

definition obtain_certificate :: "'w etcd3 \<Rightarrow> 'w box \<Rightarrow> bool \<Rightarrow> bool \<Rightarrow> string option \<Rightarrow> ('w, bool) py" where
  "obtain_certificate e b test_cert non_interactive server =
     py_bind (get_https_config e b) (\<lambda>c.
     py_bind (get_all_domains b c) (\<lambda>domains.
       if domains = [] \<or> hc_domain c = None then py_return False
       else py_bind (bx_run b [''systemctl'', ''is-active'', ''--quiet'', ''rathole''] []) (\<lambda>rc.
         if rc \<noteq> 0 then py_return False
         else py_seq (py_lift (joinable domains))
                (with_csr e b domains (obtain_body e b (hc_email c) test_cert non_interactive server)))))"

definition renew_body :: "'w etcd3 \<Rightarrow> 'w box \<Rightarrow> bool \<Rightarrow> string \<Rightarrow> string \<Rightarrow> ('w, bool) py" where
  "renew_body e b non_interactive csr_path temp_dir =
     (let cert_path = temp_dir @ ''/cert.pem''; chain_path = temp_dir @ ''/chain.pem'' in
      py_bind (bx_run b (renew_command csr_path cert_path chain_path non_interactive) []) (\<lambda>rc.
        if rc = 0
        then py_bind (bx_read b cert_path) (\<lambda>c. case c of
               None \<Rightarrow> py_return True
             | Some cert_content \<Rightarrow>
                 py_bind (fullchain_of b cert_content chain_path) (\<lambda>fullchain.
                   py_seq (store_certificate e b (py_return ()) fullchain) (py_seq (update_nginx_configs e b False) (py_return True))))
        else py_return True))"

definition renew_certificates :: "'w etcd3 \<Rightarrow> 'w box \<Rightarrow> bool \<Rightarrow> ('w, bool) py" where
  "renew_certificates e b non_interactive =
     py_bind (get_https_config e b) (\<lambda>c.
       if hc_domain c = None then py_return False
       else py_bind (get_all_domains b c) (\<lambda>domains.
         py_seq (e_client e)
         (py_bind (get_value e CERT_KEY) (\<lambda>cert_value. case cert_value of
            None \<Rightarrow> py_return False
          | Some _ \<Rightarrow> with_csr e b domains (renew_body e b non_interactive)))))"

text \<open>The time is the output of the command \<open>date\<close>.\<close>

definition store_cert_info :: "'w etcd3 \<Rightarrow> ('w, string) py \<Rightarrow> string \<Rightarrow> json list \<Rightarrow> ('w, unit) py" where
  "store_cert_info e date primary_domain domains =
     py_ignore
       (py_seq (e_client e)
       (py_bind date (\<lambda>now.
         e_put e ''/cluster/https/certificate_info'' (Doc
           [(''primary_domain'', JStr primary_domain), (''domains'', JList domains),
            (''cert_path'', JStr (''/etc/letsencrypt/live/'' @ primary_domain @ ''/fullchain.pem'')),
            (''key_path'', JStr (''/etc/letsencrypt/live/'' @ primary_domain @ ''/privkey.pem'')),
            (''nginx_cert_path'', JStr NGINX_CERT), (''nginx_key_path'', JStr NGINX_KEY),
            (''updated_at'', JStr (strip now))]))))"

definition revoke_certificate :: "'w etcd3 \<Rightarrow> 'w box \<Rightarrow> ('w, bool) py" where
  "revoke_certificate e b =
     py_try
       (py_seq (e_client e)
       (py_bind (get_value e CERT_KEY) (\<lambda>cert_value. case cert_value of
          None \<Rightarrow> py_return False
        | Some v \<Rightarrow>
            py_bind (bx_tempfile b ''.pem'' (bx_text b v)) (\<lambda>temp_cert.
              py_finally
                (py_seq (run_checked b [''certbot'', ''revoke'', ''--cert-path'', temp_cert] [])
                (py_seq (e_delete e CERT_KEY) (py_return True)))
                (py_ignore (bx_unlink b temp_cert))))))
       (\<lambda>_. py_return False)"

definition delete_certificate :: "'w etcd3 \<Rightarrow> 'w box \<Rightarrow> ('w, bool) py" where
  "delete_certificate e b =
     py_try
       (py_seq (e_client e)
       (py_seq (e_delete e CERT_KEY)
       (py_bind (bx_read b NGINX_CERT) (\<lambda>c.
         py_seq (py_when (c \<noteq> None) (bx_unlink b NGINX_CERT)) (py_return True)))))
       (\<lambda>_. py_return False)"


section \<open>What is relied on\<close>

text \<open>The files a command writes, of those that matter here: the arguments of its output options.\<close>

fun out_args :: "string list \<Rightarrow> string set" where
  "out_args (f # p # rest) =
     (if f \<in> {''-out'', ''--cert-path'', ''--chain-path''} then insert p (out_args rest) else out_args (p # rest))"
| "out_args _ = {}"

definition tmp :: "string \<Rightarrow> bool" where
  "tmp p = startswith p ''/tmp/''"

definition nginx_file :: "string \<Rightarrow> bool" where
  "nginx_file p = startswith p ''/etc/nginx/''"

definition under :: "string \<Rightarrow> string \<Rightarrow> bool" where
  "under dir p = startswith p (dir @ ''/'')"

text \<open>Four things are observed: what etcd holds (\<open>view\<close>), the files (\<open>disk\<close>), whether the last command given to systemd
  for the fetch timer was its start (\<open>timer\<close>), and the paths whose removal has been tried and has raised (\<open>stuck\<close>). A removal
  that raises may have left the file or not; nothing is said of what a failing \<open>systemctl\<close> does.\<close>

locale tls_env = etcd_env e view "(=)"
  for e :: "'w etcd3" and view :: "'w \<Rightarrow> store" +
  fixes b :: "'w box"
    and disk :: "'w \<Rightarrow> string \<Rightarrow> string option"
    and timer :: "'w \<Rightarrow> bool"
    and stuck :: "'w \<Rightarrow> string set"
  assumes etcd_box: "leaves (\<lambda>w. (disk w, timer w, stuck w)) (e_client e)" "leaves (\<lambda>w. (disk w, timer w, stuck w)) (e_get e k)"
      "leaves (\<lambda>w. (disk w, timer w, stuck w)) (e_put e k v)" "leaves (\<lambda>w. (disk w, timer w, stuck w)) (e_delete e k)"
    and quiet: "leaves (\<lambda>w. (view w, disk w, timer w, stuck w)) (bx_mkdtemp b)" "leaves (\<lambda>w. (view w, disk w, timer w, stuck w)) (bx_read b t)"
      "leaves (\<lambda>w. (view w, disk w, timer w, stuck w)) (bx_chmod b t x)" "leaves (\<lambda>w. (view w, disk w, timer w, stuck w)) (bx_mkdir b t)"
      "leaves (\<lambda>w. (view w, disk w, timer w, stuck w)) (bx_templates b)"
    and files_only: "leaves (\<lambda>w. (view w, timer w)) (bx_tempfile b t x)" "leaves (\<lambda>w. (view w, timer w)) (bx_rmtree b t)"
      "leaves (\<lambda>w. (view w, timer w)) (bx_unlink b t)" "leaves (\<lambda>w. (view w, timer w)) (bx_write b t x)"
    and no_removal: "leaves stuck (bx_tempfile b t x)" "leaves stuck (bx_write b t x)" "leaves stuck (bx_run b cmd x)"
    and run_view: "leaves view (bx_run b cmd x)"
    and run_timer: "timer (snd (bx_run b cmd x s)) = (cmd = [''systemctl'', ''start'', ''fetch-tls-certs.timer'']
        \<or> cmd \<noteq> [''systemctl'', ''stop'', ''fetch-tls-certs.timer''] \<and> timer s)"
    and run_disk: "tmp p \<or> nginx_file p \<Longrightarrow> p \<notin> out_args cmd \<Longrightarrow> disk (snd (bx_run b cmd x s)) p = disk s p"
    and tempfile_disk: "bx_tempfile b t x s = (r, s') \<Longrightarrow>
        (case r of Inr p \<Rightarrow> tmp p \<and> disk s p = None \<and> disk s' = (disk s)(p \<mapsto> x) | Inl _ \<Rightarrow> disk s' = disk s)"
    and mkdtemp_fresh: "bx_mkdtemp b s = (Inr d, s') \<Longrightarrow> tmp d \<and> (\<forall>p. under d p \<longrightarrow> disk s p = None)"
    and rmtree_disk: "bx_rmtree b t s = (ru, s') \<Longrightarrow> stuck s' = stuck s \<union> (if isl ru then {p. under t p} else {})
        \<and> (\<forall>p. disk s' p = disk s p \<and> (under t p \<longrightarrow> isl ru) \<or> under t p \<and> disk s' p = None)"
    and unlink_disk: "bx_unlink b t s = (ru, s') \<Longrightarrow> stuck s' = stuck s \<union> (if isl ru then {t} else {})
        \<and> (\<forall>p. disk s' p = disk s p \<and> (p = t \<longrightarrow> isl ru) \<or> p = t \<and> disk s' p = None)"
    and read_value: "bx_read b t s = (Inr found, s') \<Longrightarrow> found = disk s t"
    and write_disk: "bx_write b t x s = (res, s') \<Longrightarrow> (\<forall>p. p \<noteq> t \<longrightarrow> disk s' p = disk s p) \<and> (\<not> isl res \<longrightarrow> disk s' t = Some x)"
    and site_names: "bx_templates b s = (Inr (Some sites), s') \<Longrightarrow> site \<in> set sites \<Longrightarrow> CHR ''/'' \<notin> set (fst site)"
    and text_plain: "bx_text b (Text x) = x"
begin

text \<open>Calls that change nothing the proofs look at.\<close>

abbreviation on :: "(store \<Rightarrow> (string \<Rightarrow> string option) \<Rightarrow> bool \<Rightarrow> string set \<Rightarrow> bool) \<Rightarrow> 'w \<Rightarrow> bool" where
  "on J w \<equiv> J (view w) (disk w) (timer w) (stuck w)"

lemma keeps_on_quiet: "leaves (\<lambda>w. (view w, disk w, timer w, stuck w)) m \<Longrightarrow> keeps (on J) m"
  by (rule keepsI, erule wp_leaves) auto

lemma client_quiet: "leaves (\<lambda>w. (view w, disk w, timer w, stuck w)) (e_client e)"
  unfolding leaves_def
proof
  fix s obtain r s' where "e_client e s = (r, s')" by (cases "e_client e s")
  with client_view [OF this] etcd_box(1) [unfolded leaves_def, rule_format, of s]
  show "(view (snd (e_client e s)), disk (snd (e_client e s)), timer (snd (e_client e s)), stuck (snd (e_client e s))) = (view s, disk s, timer s, stuck s)" by simp
qed

lemma get_quiet: "leaves (\<lambda>w. (view w, disk w, timer w, stuck w)) (e_get e k)"
  unfolding leaves_def
proof
  fix s obtain r s' where "e_get e k s = (r, s')" by (cases "e_get e k s")
  with conjunct1 [OF get_view [OF this]] etcd_box(2) [unfolded leaves_def, rule_format, of k s]
  show "(view (snd (e_get e k s)), disk (snd (e_get e k s)), timer (snd (e_get e k s)), stuck (snd (e_get e k s))) = (view s, disk s, timer s, stuck s)" by simp
qed

lemmas keeps_on = keeps_on_quiet [OF client_quiet] keeps_on_quiet [OF get_quiet] quiet [THEN keeps_on_quiet]

lemma keeps_get_value: "keeps (on J) (get_value e k)"
  unfolding get_value_def by (intro keeps_intros keeps_on keeps_simple)

end

section \<open>Etcd and the timer\<close>

lemma keeps_on_failure: "keeps I m \<Longrightarrow> keeps I h \<Longrightarrow> keeps I (on_failure m h)"
  unfolding on_failure_def by (intro keeps_try) (auto split: exn.splits)

lemmas keeps_calls = keeps_intros keeps_simple keeps_finally keeps_ignore keeps_on_failure

context tls_env
begin

abbreviation vt :: "(store \<Rightarrow> bool \<Rightarrow> bool) \<Rightarrow> 'w \<Rightarrow> bool" where
  "vt L \<equiv> on (\<lambda>v d t k. L v t)"

lemma keeps_vt_files: "leaves (\<lambda>w. (view w, timer w)) m \<Longrightarrow> keeps (vt L) m"
  by (rule keepsI, erule wp_leaves) auto

definition timer_command :: "string list \<Rightarrow> bool" where
  "timer_command cmd = (cmd \<in> {[''systemctl'', ''start'', ''fetch-tls-certs.timer''], [''systemctl'', ''stop'', ''fetch-tls-certs.timer'']})"

lemma keeps_vt_run: "\<not> timer_command cmd \<Longrightarrow> keeps (vt L) (bx_run b cmd x)"
  by (rule keeps_vt_files) (use run_view run_timer in \<open>auto simp: leaves_def timer_command_def\<close>)

lemmas keeps_vt = keeps_calls keeps_on keeps_get_value files_only [THEN keeps_vt_files] keeps_vt_run

lemma keeps_vt_run_checked: "\<not> timer_command cmd \<Longrightarrow> keeps (vt L) (run_checked b cmd x)"
  unfolding run_checked_def by (auto intro!: keeps_bind keeps_vt_run)

lemma keeps_vt_https: "keeps (on J) (get_https_config e b)"
  unfolding get_https_config_def by (intro keeps_calls keeps_on keeps_get_value)

lemma keeps_vt_domains: "keeps (on J) (discover_nginx_templates b)" "keeps (on J) (get_all_domains b c)"
  unfolding get_all_domains_def discover_nginx_instance_subdomains_def discover_nginx_templates_def
  by (auto intro!: keeps_calls keeps_on split: option.splits)

lemma keeps_vt_key: "keeps (vt L) (write_tls_key_to_temp e b)" "keeps (vt L) (write_tls_key_to_nginx e b)"
  unfolding write_tls_key_to_temp_def write_tls_key_to_nginx_def
  by (auto intro!: keeps_vt split: option.splits)

lemma keeps_vt_ensure: "keeps (vt L) (ensure_nginx_cert_from_etcd e b)"
  unfolding ensure_nginx_cert_from_etcd_def by (auto intro!: keeps_vt split: option.splits)

lemma keeps_vt_csr: "keeps (vt L) (generate_csr b key_path domains)"
  unfolding generate_csr_def by (intro keeps_vt keeps_vt_run_checked) (simp add: timer_command_def csr_command_def)

lemma keeps_vt_update: "keeps (vt L) (update_nginx_configs e b local_mode)"
  unfolding update_nginx_configs_def update_sites_def update_site_def Let_def
  by (auto intro!: keeps_vt keeps_vt_https keeps_vt_domains simp: timer_command_def split: option.splits)

lemma keeps_vt_clean: "keeps (vt L) (clean_up b k c d)"
  unfolding clean_up_def by (intro keeps_vt)

text \<open>Nothing but the certificate changes in etcd, and the timer is on again after the certificate is stored.\<close>

lemma put_cert_view:
  "keeps (on (\<lambda>v d t k. (\<exists>x. v = c(CERT_KEY := x)) \<and> P t)) (e_put e CERT_KEY y)"
proof (rule keepsI)
  fix s assume s: "(\<exists>x. view s = c(CERT_KEY := x)) \<and> P (timer s)"
  obtain r s' where run: "e_put e CERT_KEY y s = (r, s')" by (metis surj_pair)
  then have "timer s' = timer s" using etcd_box(3) [of CERT_KEY y] unfolding leaves_def by (metis prod.inject snd_conv)
  moreover have "\<exists>x. view s' = c(CERT_KEY := x)" using put_view [OF run] s by (metis fun_upd_upd)
  ultimately show "wp (e_put e CERT_KEY y) (\<lambda>_. on (\<lambda>v d t k. (\<exists>x. v = c(CERT_KEY := x)) \<and> P t))
      (\<lambda>_. on (\<lambda>v d t k. (\<exists>x. v = c(CERT_KEY := x)) \<and> P t)) s"
    using run s by (simp add: wp_def split: sum.splits)
qed

lemma keeps_store:
  assumes "\<And>J. keeps (on J) connect"
  shows "keeps (vt (\<lambda>v t. (\<exists>x. v = c(CERT_KEY := x)) \<and> t)) (store_certificate e b connect fullchain)"
proof (rule keepsI)
  let ?V = "on (\<lambda>v d t k. (\<exists>x. v = c(CERT_KEY := x)) \<and> True)" and ?VT = "on (\<lambda>v d t k. (\<exists>x. v = c(CERT_KEY := x)) \<and> t)"
  fix s assume s: "?VT s"
  have stop: "wp (fetch_timer b ''stop'') (\<lambda>_. ?V) (\<lambda>_ _. False) s"
    unfolding fetch_timer_def wp_ignore using s by (intro wp_leaves [OF run_view]) auto
  have start: "wp (fetch_timer b ''start'') (\<lambda>_. ?VT) E w" if "?V w" for w E
  proof -
    have t: "timer (snd (bx_run b [''systemctl'', ''start'', ''fetch-tls-certs.timer''] [] w))"
      using run_timer [of "[''systemctl'', ''start'', ''fetch-tls-certs.timer'']"] by simp
    have v: "view (snd (bx_run b [''systemctl'', ''start'', ''fetch-tls-certs.timer''] [] w)) = view w"
      using run_view by (simp add: leaves_def)
    show ?thesis unfolding fetch_timer_def wp_ignore
      using t v that by (cases "bx_run b [''systemctl'', ''start'', ''fetch-tls-certs.timer''] [] w") (auto simp: wp_def split: sum.splits)
  qed
  have body: "keeps ?V (py_seq connect (py_seq (e_put e CERT_KEY (Text fullchain)) (py_seq (write_tls_key_to_nginx e b)
      (py_seq (bx_mkdir b ''/etc/nginx/ssl'') (py_seq (bx_write b NGINX_CERT fullchain) (bx_chmod b NGINX_CERT ''644''))))))"
    by (intro keeps_vt put_cert_view keeps_vt_key assms)
  show "wp (store_certificate e b connect fullchain) (\<lambda>_. ?VT) (\<lambda>_. ?VT) s"
    unfolding store_certificate_def wp_seq [of "fetch_timer _ _"] wp_finally
    by (rule wp_mono [OF stop], rule wp_mono [OF keepsD [OF body]]) (auto intro: start)
qed

end

context tls_env
begin

definition only_cert :: "store \<Rightarrow> 'w \<Rightarrow> bool" where
  "only_cert c = vt (\<lambda>v t. (\<exists>x. v = c(CERT_KEY := x)) \<and> t)"

lemma keeps_only_cert_bodies:
  "keeps (only_cert c) (obtain_body e b email test_cert non_interactive server csr dir)"
  "keeps (only_cert c) (renew_body e b non_interactive csr dir)"
  unfolding only_cert_def obtain_body_def renew_body_def fullchain_of_def Let_def
  by (auto intro!: keeps_vt keeps_vt_run_checked keeps_store keeps_vt_update simp: timer_command_def obtain_command_def renew_command_def
      split: option.splits)

lemma keeps_only_cert_csr:
  assumes "\<And>csr dir. keeps (only_cert c) (body csr dir)"
  shows "keeps (only_cert c) (with_csr e b domains body)"
  using assms unfolding only_cert_def with_csr_def
  by (auto intro!: keeps_vt keeps_vt_key keeps_vt_csr keeps_vt_ensure keeps_vt_clean split: option.splits)

lemma keeps_only_cert: "keeps (only_cert c) (obtain_certificate e b test_cert non_interactive server)"
    "keeps (only_cert c) (renew_certificates e b non_interactive)"
proof -
  note csr = keeps_only_cert_csr [OF keeps_only_cert_bodies(1), unfolded only_cert_def] keeps_only_cert_csr [OF keeps_only_cert_bodies(2), unfolded only_cert_def]
  show "keeps (only_cert c) (obtain_certificate e b test_cert non_interactive server)"
    unfolding obtain_certificate_def only_cert_def
    by (auto intro!: keeps_vt keeps_vt_https keeps_vt_domains csr simp: timer_command_def)
  show "keeps (only_cert c) (renew_certificates e b non_interactive)"
    unfolding renew_certificates_def only_cert_def
    by (auto intro!: keeps_vt keeps_vt_https keeps_vt_domains csr simp: timer_command_def split: option.splits)
qed

end

section \<open>Temporary files\<close>

context tls_env
begin

definition tmp_same :: "(string \<Rightarrow> bool) \<Rightarrow> (string \<Rightarrow> string option) \<Rightarrow> 'w \<Rightarrow> bool" where
  "tmp_same X d0 w = (stuck w = {} \<and> (\<forall>p. tmp p \<longrightarrow> \<not> X p \<longrightarrow> disk w p = d0 p))"

lemma tmp_same_on: "tmp_same X d0 = on (\<lambda>v d t k. k = {} \<and> (\<forall>p. tmp p \<longrightarrow> \<not> X p \<longrightarrow> d p = d0 p))"
  by (simp add: tmp_same_def fun_eq_iff)

lemma keeps_tmp_write: "\<not> tmp q \<Longrightarrow> keeps (tmp_same X d0) (bx_write b q x)"
proof (rule keepsI)
  fix s assume "\<not> tmp q" "tmp_same X d0 s"
  moreover obtain r s' where run: "bx_write b q x s = (r, s')" by (cases "bx_write b q x s")
  ultimately have "tmp_same X d0 s'" using write_disk [OF run] leavesD [OF no_removal(2) run] unfolding tmp_same_def by metis
  with run show "wp (bx_write b q x) (\<lambda>_. tmp_same X d0) (\<lambda>_. tmp_same X d0) s" by (simp add: wp_def split: sum.splits)
qed

lemma keeps_tmp_run: "(\<And>p. tmp p \<Longrightarrow> p \<in> out_args cmd \<Longrightarrow> X p) \<Longrightarrow> keeps (tmp_same X d0) (bx_run b cmd x)"
proof (rule keepsI)
  fix s assume X: "\<And>p. tmp p \<Longrightarrow> p \<in> out_args cmd \<Longrightarrow> X p" and s: "tmp_same X d0 s"
  obtain r s' where run: "bx_run b cmd x s = (r, s')" by (cases "bx_run b cmd x s")
  have "disk s' p = disk s p" if "tmp p" "\<not> X p" for p
    using run_disk [of p cmd x s] X that run by auto
  then have "tmp_same X d0 s'" using s leavesD [OF no_removal(3) run] by (simp add: tmp_same_def)
  with run show "wp (bx_run b cmd x) (\<lambda>_. tmp_same X d0) (\<lambda>_. tmp_same X d0) s" by (simp add: wp_def split: sum.splits)
qed

lemma keeps_tmp_etcd: "keeps (tmp_same X d0) (e_put e k v)" "keeps (tmp_same X d0) (e_delete e k)"
  unfolding tmp_same_def by (rule keepsI, rule wp_leaves [OF etcd_box(3)] wp_leaves [OF etcd_box(4)]; simp)+

lemmas keeps_tmp_on = keeps_on [where J = "\<lambda>v d t k. k = {} \<and> (\<forall>p. tmp p \<longrightarrow> \<not> X p \<longrightarrow> d p = d0 p)" for X d0, folded tmp_same_on]
  keeps_get_value [where J = "\<lambda>v d t k. k = {} \<and> (\<forall>p. tmp p \<longrightarrow> \<not> X p \<longrightarrow> d p = d0 p)" for X d0, folded tmp_same_on]
  keeps_vt_https [where J = "\<lambda>v d t k. k = {} \<and> (\<forall>p. tmp p \<longrightarrow> \<not> X p \<longrightarrow> d p = d0 p)" for X d0, folded tmp_same_on]
  keeps_vt_domains [where J = "\<lambda>v d t k. k = {} \<and> (\<forall>p. tmp p \<longrightarrow> \<not> X p \<longrightarrow> d p = d0 p)" for X d0, folded tmp_same_on]

lemma not_tmp: "\<not> tmp NGINX_CERT" "\<not> tmp NGINX_KEY" "\<not> tmp (site_path n)"
  by (simp_all add: tmp_def NGINX_CERT_def NGINX_KEY_def site_path_def startswith_def)

lemma keeps_tmp_plain_run: "(\<And>p. p \<in> out_args cmd \<Longrightarrow> \<not> tmp p) \<Longrightarrow> keeps (tmp_same X d0) (bx_run b cmd x)"
  by (rule keeps_tmp_run) blast

lemma keeps_tmp_nginx:
  "keeps (tmp_same X d0) (ensure_nginx_cert_from_etcd e b)" "keeps (tmp_same X d0) (update_site b domain tls site n)"
  "keeps (tmp_same X d0) (fetch_timer b action)" "keeps (tmp_same X d0) (write_tls_key_to_nginx e b)"
  unfolding ensure_nginx_cert_from_etcd_def update_site_def fetch_timer_def write_tls_key_to_nginx_def Let_def
  by (auto intro!: keeps_calls keeps_tmp_on keeps_tmp_write not_tmp keeps_tmp_plain_run simp: tmp_def startswith_def
      split: option.splits if_splits)

lemma keeps_tmp_update: "keeps (tmp_same X d0) (update_nginx_configs e b local_mode)"
  unfolding update_nginx_configs_def update_sites_def
  by (auto intro!: keeps_calls keeps_tmp_on keeps_tmp_nginx keeps_tmp_plain_run split: option.splits)

lemma keeps_tmp_store:
  assumes "keeps (tmp_same X d0) connect"
  shows "keeps (tmp_same X d0) (store_certificate e b connect fullchain)"
  unfolding store_certificate_def
  by (intro keeps_calls assms keeps_tmp_nginx keeps_tmp_on keeps_tmp_write not_tmp keeps_tmp_etcd)

text \<open>Inside the temporary directory of certbot.\<close>

lemma out_options: "p \<in> out_args (obtain_options email test_cert non_interactive server) \<Longrightarrow> \<not> tmp p"
  by (cases email; cases server; cases test_cert; cases non_interactive)
    (auto simp: obtain_options_def tmp_def startswith_def split: if_splits)

lemma out_obtain:
  "p \<in> out_args (obtain_command csr (dir @ ''/cert.pem'') (dir @ ''/chain.pem'') email test_cert non_interactive server) \<Longrightarrow> tmp p
    \<Longrightarrow> under dir p"
  using out_options [of p email test_cert non_interactive server]
  by (cases "csr \<in> {''-out'', ''--cert-path'', ''--chain-path''}") (auto simp: obtain_command_def under_def tmp_def startswith_def)

lemma out_renew:
  "p \<in> out_args (renew_command csr (dir @ ''/cert.pem'') (dir @ ''/chain.pem'') non_interactive) \<Longrightarrow> tmp p \<Longrightarrow> under dir p"
  by (cases "csr \<in> {''-out'', ''--cert-path'', ''--chain-path''}") (auto simp: renew_command_def under_def tmp_def startswith_def split: if_splits)

lemma keeps_tmp_bodies:
  "keeps (tmp_same (under dir) d0) (obtain_body e b email test_cert non_interactive server csr dir)"
  "keeps (tmp_same (under dir) d0) (renew_body e b non_interactive csr dir)"
  unfolding obtain_body_def renew_body_def run_checked_def fullchain_of_def Let_def
  by (auto intro!: keeps_calls keeps_tmp_on keeps_tmp_update keeps_tmp_store keeps_tmp_run split: option.splits dest: out_obtain out_renew)

end

context tls_env
begin

lemma wp_unlink:
  assumes "\<And>w'. stuck w \<subseteq> stuck w' \<Longrightarrow> \<forall>p. p \<noteq> q \<longrightarrow> disk w' p = disk w p \<Longrightarrow> disk w' q = None \<or> q \<in> stuck w' \<Longrightarrow> Q () w'"
  shows "wp (py_ignore (bx_unlink b q)) Q E w"
proof -
  obtain r w' where run: "bx_unlink b q w = (r, w')" by fastforce
  have "Q () w'" by (rule assms) (use unlink_disk [OF run] in auto)
  with run show ?thesis unfolding wp_ignore by (simp add: wp_def split: sum.splits)
qed

lemma wp_rmtree:
  assumes "\<And>w'. stuck w \<subseteq> stuck w' \<Longrightarrow> \<forall>p. \<not> under q p \<longrightarrow> disk w' p = disk w p \<Longrightarrow>
    \<forall>p. under q p \<longrightarrow> disk w' p = None \<or> p \<in> stuck w' \<Longrightarrow> Q () w'"
  shows "wp (py_ignore (bx_rmtree b q)) Q E w"
proof -
  obtain r w' where run: "bx_rmtree b q w = (r, w')" by fastforce
  have "Q () w'" by (rule assms) (use rmtree_disk [OF run] in auto)
  with run show ?thesis unfolding wp_ignore by (simp add: wp_def split: sum.splits)
qed

lemma wp_tempfile:
  assumes "\<And>p w'. tmp p \<Longrightarrow> disk w p = None \<Longrightarrow> disk w' = (disk w)(p \<mapsto> x) \<Longrightarrow> stuck w' = stuck w \<Longrightarrow> Q p w'"
  shows "wp (bx_tempfile b t x) Q (\<lambda>_ _. True) w"
proof -
  obtain r w' where run: "bx_tempfile b t x w = (r, w')" by fastforce
  with tempfile_disk [OF run] leavesD [OF no_removal(1) run] assms show ?thesis by (auto simp: wp_def split: sum.splits)
qed

text \<open>After the clean-up each of its files is gone, or its removal has raised.\<close>

lemma wp_clean_up:
  assumes "\<And>w'. stuck w \<subseteq> stuck w' \<Longrightarrow> \<forall>p. \<not> (under dir p \<or> p = csr \<or> p = key) \<longrightarrow> disk w' p = disk w p \<Longrightarrow>
    \<forall>p. under dir p \<or> p = csr \<or> p = key \<longrightarrow> disk w' p = None \<or> p \<in> stuck w' \<Longrightarrow> Q () w'"
  shows "wp (clean_up b key csr dir) Q E w"
  unfolding clean_up_def wp_seq
proof (rule wp_unlink, rule wp_unlink, rule wp_rmtree, rule assms)
  fix w1 w2 w3
  assume k: "stuck w \<subseteq> stuck w1" "stuck w1 \<subseteq> stuck w2" "stuck w2 \<subseteq> stuck w3"
    and d1: "\<forall>p. p \<noteq> key \<longrightarrow> disk w1 p = disk w p" "disk w1 key = None \<or> key \<in> stuck w1"
    and d2: "\<forall>p. p \<noteq> csr \<longrightarrow> disk w2 p = disk w1 p" "disk w2 csr = None \<or> csr \<in> stuck w2"
    and d3: "\<forall>p. \<not> under dir p \<longrightarrow> disk w3 p = disk w2 p" "\<forall>p. under dir p \<longrightarrow> disk w3 p = None \<or> p \<in> stuck w3"
  from k show "stuck w \<subseteq> stuck w3" by blast
  from d1(1) d2(1) d3(1) show "\<forall>p. \<not> (under dir p \<or> p = csr \<or> p = key) \<longrightarrow> disk w3 p = disk w p" by simp
  from k d1(2) d2 d3 show "\<forall>p. under dir p \<or> p = csr \<or> p = key \<longrightarrow> disk w3 p = None \<or> p \<in> stuck w3" by (metis subsetD)
qed

text \<open>The key of the cluster in a temporary file, then the request for a certificate.\<close>

definition key_only :: "string \<Rightarrow> (string \<Rightarrow> string option) \<Rightarrow> 'w \<Rightarrow> bool" where
  "key_only key d0 w = (tmp key \<and> d0 key = None \<and> tmp_same (\<lambda>p. p = key) d0 w)"

definition key_and_csr :: "string \<Rightarrow> string \<Rightarrow> (string \<Rightarrow> string option) \<Rightarrow> 'w \<Rightarrow> bool" where
  "key_and_csr key csr d0 w = (tmp key \<and> tmp csr \<and> d0 key = None \<and> d0 csr = None \<and> tmp_same (\<lambda>p. p = key \<or> p = csr) d0 w)"

definition key_left :: "string \<Rightarrow> (string \<Rightarrow> string option) \<Rightarrow> 'w \<Rightarrow> bool" where
  "key_left key d0 w = (tmp key \<and> d0 key = None \<and> (\<forall>p. tmp p \<longrightarrow> p \<noteq> key \<longrightarrow> disk w p = d0 p \<or> p \<in> stuck w))"

lemma wp_key_to_temp:
  "wp (write_tls_key_to_temp e b) (\<lambda>k w. case k of None \<Rightarrow> tmp_same (\<lambda>_. False) (disk s) w | Some key \<Rightarrow> key_only key (disk s) w) (\<lambda>_ _. True) s"
  if "stuck s = {}"
proof -
  let ?Q = "\<lambda>k w. case k of None \<Rightarrow> tmp_same (\<lambda>_. False) (disk s) w | Some key \<Rightarrow> key_only key (disk s) w"
  have store: "wp (bx_tempfile b ''.pem'' c) (\<lambda>name. wp (bx_chmod b name ''600'') (\<lambda>_. ?Q (Some name)) (\<lambda>_ _. True)) (\<lambda>_ _. True) w"
    if "disk w = disk s" "stuck w = {}" for w c
    by (rule wp_tempfile, rule wp_leaves [OF quiet(3)]) (use that in \<open>auto simp: key_only_def tmp_same_def\<close>)
  show ?thesis
    unfolding write_tls_key_to_temp_def get_value_def wp_simps
  proof (rule wp_leaves [OF client_quiet]; (rule wp_leaves [OF get_quiet])?)
    fix x s1 y s2
    assume "(view s1, disk s1, timer s1, stuck s1) = (view s, disk s, timer s, stuck s)" "(view s2, disk s2, timer s2, stuck s2) = (view s1, disk s1, timer s1, stuck s1)"
    then have d: "disk s2 = disk s" and k: "stuck s2 = {}" using \<open>stuck s = {}\<close> by simp_all
    show "wp (case case y of None \<Rightarrow> None | Some (b, _) \<Rightarrow> if blob_true b then Some b else None of
         None \<Rightarrow> py_return None
       | Some v \<Rightarrow> py_bind (bx_tempfile b ''.pem'' (bx_text b v)) (\<lambda>name. py_seq (bx_chmod b name ''600'') (py_return (Some name))))
       ?Q (\<lambda>_ _. True) s2"
      using store [OF d k] d k by (auto simp: wp_simps tmp_same_def split: option.splits)
  qed auto
qed

end

context tls_env
begin

lemma out_openssl: "tmp key \<Longrightarrow> out_args (csr_command key csr d) = {csr}"
  by (auto simp: csr_command_def tmp_def startswith_def)

lemma keeps_openssl:
  assumes "tmp key" shows "keeps (key_and_csr key csr d0) (run_checked b (csr_command key csr dn) x)"
proof -
  have "keeps (tmp_same (\<lambda>p. p = key \<or> p = csr) d0) (run_checked b (csr_command key csr dn) x)"
    unfolding run_checked_def by (auto intro!: keeps_bind keeps_tmp_run simp: out_openssl [OF assms])
  then show ?thesis
    by (auto simp: key_and_csr_def [abs_def] keeps_def intro: wp_mono)
qed

lemma wp_csr:
  assumes "key_only key d0 s"
  shows "wp (generate_csr b key domains)
    (\<lambda>c w. case c of None \<Rightarrow> key_left key d0 w | Some csr \<Rightarrow> key_and_csr key csr d0 w) (\<lambda>_ _. True) s"
  (is "wp _ ?Q _ _")
proof -
  have key: "tmp key" "d0 key = None" using assms by (auto simp: key_only_def)
  have clean: "wp (py_ignore (bx_unlink b csr)) (\<lambda>_. ?Q None) (\<lambda>_ _. True) w" if "key_and_csr key csr d0 w" for csr w
    by (rule wp_unlink) (use that key in \<open>simp add: key_and_csr_def key_left_def tmp_same_def, metis\<close>)
  have fail: "wp (case x of CalledProcessError n \<Rightarrow> py_seq (py_ignore (bx_unlink b csr)) (py_return None) | _ \<Rightarrow> py_raise x)
      ?Q (\<lambda>_ _. True) w" if "key_and_csr key csr d0 w" for x csr w
    using clean [OF that] by (auto simp: wp_simps split: exn.splits)
  have run: "wp (on_failure (py_bind (py_lift (joinable domains)) (\<lambda>ds.
        py_seq (run_checked b (csr_command key csr dn) (csr_config ds)) (py_return (Some csr))))
      (py_seq (py_ignore (bx_unlink b csr)) (py_return None))) ?Q (\<lambda>_ _. True) w"
    if B: "key_and_csr key csr d0 w" for csr dn w
    unfolding on_failure_def wp_simps
    by (cases "joinable domains") (auto simp: B fail intro!: wp_mono [OF keepsD [OF keeps_openssl [OF key(1)] B]])
  have "wp (bx_tempfile b ''.csr'' []) (\<lambda>csr. key_and_csr key csr d0) (\<lambda>_ _. True) s"
    by (rule wp_tempfile) (use assms in \<open>auto simp: key_only_def key_and_csr_def tmp_same_def\<close>)
  from wp_mono [OF this run] show ?thesis
    unfolding generate_csr_def wp_bind [of "py_lift _"] wp_bind [of "bx_tempfile b _ _"] wp_lift by (cases domains) auto
qed

lemma wp_with_csr_tmp:
  assumes body: "\<And>csr dir d0. keeps (tmp_same (under dir) d0) (body csr dir)" and s: "stuck s = {}" "\<forall>p. tmp p \<longrightarrow> disk s p = d0 p"
  shows "wp (with_csr e b domains body) (\<lambda>_ w. \<forall>p. tmp p \<longrightarrow> disk w p = d0 p \<or> p \<in> stuck w) (\<lambda>_ _. True) s"
  (is "wp _ (\<lambda>_. ?C) _ _")
proof -
  have certbot: "wp (py_finally (on_failure (body csr dir) (py_return False)) (clean_up b key csr dir)) (\<lambda>_. ?C) (\<lambda>_ _. True) w"
    if B: "key_and_csr key csr d0 w" and dir: "\<forall>p. under dir p \<longrightarrow> disk w p = None" for key csr dir w
  proof -
    have "keeps (tmp_same (under dir) (disk w)) (on_failure (body csr dir) (py_return False))"
      by (intro keeps_on_failure body keeps_simple)
    moreover have "tmp_same (under dir) (disk w) w" using B by (simp add: tmp_same_def key_and_csr_def)
    ultimately have "wp (on_failure (body csr dir) (py_return False)) (\<lambda>_. tmp_same (under dir) (disk w)) (\<lambda>_. tmp_same (under dir) (disk w)) w"
      by (rule keepsD)
    moreover have "wp (clean_up b key csr dir) (\<lambda>_. ?C) (\<lambda>_ _. True) w1" if "tmp_same (under dir) (disk w) w1" for w1
    proof (rule wp_clean_up)
      fix w2 assume k: "stuck w1 \<subseteq> stuck w2" and w2: "\<forall>p. \<not> (under dir p \<or> p = csr \<or> p = key) \<longrightarrow> disk w2 p = disk w1 p"
        "\<forall>p. under dir p \<or> p = csr \<or> p = key \<longrightarrow> disk w2 p = None \<or> p \<in> stuck w2"
      show "?C w2"
      proof (intro allI impI)
        fix p assume p: "tmp p"
        from B have old: "p = key \<or> p = csr \<or> disk w p = d0 p" "d0 key = None" "d0 csr = None"
          using p by (auto simp: key_and_csr_def tmp_same_def)
        show "disk w2 p = d0 p \<or> p \<in> stuck w2"
        proof (cases "under dir p \<or> p = csr \<or> p = key")
          case True
          with w2(2) old dir show ?thesis by metis
        next
          case False
          with w2(1) old that p show ?thesis by (auto simp: tmp_same_def)
        qed
      qed
    qed
    ultimately show ?thesis unfolding wp_finally by (elim wp_mono) (auto elim: wp_mono)
  qed
  have dir: "wp (bx_mkdtemp b) (\<lambda>dir. wp (py_finally (on_failure (body csr dir) (py_return False)) (clean_up b key csr dir)) (\<lambda>_. ?C) (\<lambda>_ _. True))
      (\<lambda>_ _. True) w" if B: "key_and_csr key csr d0 w" for key csr w
  proof (rule wp_leaves [OF quiet(1)])
    fix dir w' assume run: "(view w', disk w', timer w', stuck w') = (view w, disk w, timer w, stuck w)" "bx_mkdtemp b w = (Inr dir, w')"
    then have "\<forall>p. under dir p \<longrightarrow> disk w' p = None" using mkdtemp_fresh [OF run(2)] by simp
    moreover have "key_and_csr key csr d0 w'" using B run(1) by (simp add: key_and_csr_def tmp_same_def)
    ultimately show "wp (py_finally (on_failure (body csr dir) (py_return False)) (clean_up b key csr dir)) (\<lambda>_. ?C) (\<lambda>_ _. True) w'"
      by (intro certbot)
  qed simp
  have ensure: "wp (ensure_nginx_cert_from_etcd e b) (\<lambda>_. key_and_csr key csr d0) (\<lambda>_ _. True) w" if "key_and_csr key csr d0 w" for key csr w
    using wp_mono [OF keepsD [OF keeps_tmp_nginx(1) [of "\<lambda>p. p = key \<or> p = csr" d0]], of w "\<lambda>_. key_and_csr key csr d0" "\<lambda>_ _. True"] that
    by (auto simp: key_and_csr_def)
  have None: "wp (py_ignore (bx_unlink b key)) (\<lambda>_. ?C) (\<lambda>_ _. True) w" if "key_left key d0 w" for key w
    by (rule wp_unlink) (use that in \<open>simp add: key_left_def, metis subsetD\<close>)
  have rest: "wp (generate_csr b key domains) (\<lambda>c. wp (case c of
           None \<Rightarrow> py_seq (py_ignore (bx_unlink b key)) (py_return False)
         | Some csr \<Rightarrow> py_seq (ensure_nginx_cert_from_etcd e b) (py_bind (bx_mkdtemp b) (\<lambda>dir.
               py_finally (on_failure (body csr dir) (py_return False)) (clean_up b key csr dir)))) (\<lambda>_. ?C) (\<lambda>_ _. True)) (\<lambda>_ _. True) w"
    if "key_only key d0 w" for key w
    by (rule wp_mono [OF wp_csr [OF that]])
      (auto simp: wp_seq wp_bind wp_return split: option.splits intro: None intro!: wp_mono [OF ensure] dir)
  have start: "wp (write_tls_key_to_temp e b) (\<lambda>k w. case k of None \<Rightarrow> ?C w | Some key \<Rightarrow> key_only key d0 w) (\<lambda>_ _. True) s"
    by (rule wp_mono [OF wp_key_to_temp [OF s(1)]]) (use s in \<open>auto simp: tmp_same_def key_only_def split: option.splits\<close>)
  show ?thesis unfolding with_csr_def wp_bind [of "write_tls_key_to_temp e b"]
    by (rule wp_mono [OF start]) (auto simp: wp_bind wp_return split: option.splits intro: rest [unfolded wp_bind])
qed

end

section \<open>What is served is what is stored\<close>

text \<open>nginx has the certificate of etcd, and the key of etcd when there is one.\<close>

definition synced :: "'w box \<Rightarrow> store \<Rightarrow> (string \<Rightarrow> string option) \<Rightarrow> bool" where
  "synced b v d = ((\<exists>t n. v CERT_KEY = Some (Text t, n) \<and> d NGINX_CERT = Some t)
     \<and> (\<forall>k n. v KEY_KEY = Some (k, n) \<longrightarrow> blob_true k \<longrightarrow> d NGINX_KEY = Some (bx_text b k)))"

context tls_env
begin

definition pub :: "'w \<Rightarrow> bool" where
  "pub = on (\<lambda>v d t k. synced b v d)"

lemmas keeps_pub_on = keeps_on [where J = "\<lambda>v d t k. synced b v d", folded pub_def] keeps_vt_https [where J = "\<lambda>v d t k. synced b v d", folded pub_def]
  keeps_vt_domains [where J = "\<lambda>v d t k. synced b v d", folded pub_def]

lemma nginx_names: "nginx_file NGINX_CERT" "nginx_file NGINX_KEY" "site_path n \<noteq> NGINX_CERT" "site_path n \<noteq> NGINX_KEY"
  by (simp_all add: nginx_file_def NGINX_CERT_def NGINX_KEY_def site_path_def startswith_def)

lemma keeps_pub_run: "out_args cmd = {} \<Longrightarrow> keeps pub (bx_run b cmd x)"
proof (rule keepsI)
  fix s assume cmd: "out_args cmd = {}" and s: "pub s"
  obtain r s' where run: "bx_run b cmd x s = (r, s')" by (cases "bx_run b cmd x s")
  have "disk s' NGINX_CERT = disk s NGINX_CERT" "disk s' NGINX_KEY = disk s NGINX_KEY" "view s' = view s"
    using run_disk [of NGINX_CERT cmd x s] run_disk [of NGINX_KEY cmd x s] leavesD [OF run_view run] nginx_names cmd run by simp_all
  then have "pub s'" using s by (simp add: pub_def synced_def)
  with run show "wp (bx_run b cmd x) (\<lambda>_. pub) (\<lambda>_. pub) s" by (simp add: wp_def split: sum.splits)
qed

lemma keeps_pub_site: "keeps pub (bx_write b (site_path n) x)"
proof (rule keepsI)
  fix s assume s: "pub s"
  obtain r s' where run: "bx_write b (site_path n) x s = (r, s')" by (cases "bx_write b (site_path n) x s")
  have "disk s' NGINX_CERT = disk s NGINX_CERT" "disk s' NGINX_KEY = disk s NGINX_KEY" "view s' = view s"
    using write_disk [OF run] nginx_names(3,4) [symmetric] leavesD [OF files_only(4) run] by simp_all
  then have "pub s'" using s by (simp add: pub_def synced_def)
  with run show "wp (bx_write b (site_path n) x) (\<lambda>_. pub) (\<lambda>_. pub) s" by (simp add: wp_def split: sum.splits)
qed

lemma keeps_pub_timer: "keeps pub (fetch_timer b ''start'')"
  unfolding fetch_timer_def by (intro keeps_calls keeps_pub_run) simp

lemma keeps_pub_update: "keeps pub (update_nginx_configs e b local_mode)"
  unfolding update_nginx_configs_def update_sites_def update_site_def Let_def
  by (auto intro!: keeps_calls keeps_pub_on keeps_pub_site keeps_pub_run split: option.splits)


lemma wp_write_nginx_key:
  "wp (write_tls_key_to_nginx e b) (\<lambda>_ w. view w = view s \<and> (\<forall>k n. view s KEY_KEY = Some (k, n) \<longrightarrow> blob_true k \<longrightarrow> disk w NGINX_KEY = Some (bx_text b k)))
     (\<lambda>_ _. True) s" (is "wp _ (\<lambda>_. ?Q) _ _")
proof -
  have chmod: "wp (bx_chmod b NGINX_KEY ''600'') (\<lambda>_. ?Q) (\<lambda>_ _. True) w" if "?Q w" for w
    by (rule wp_leaves [OF quiet(3)]) (use that in auto)
  have put: "wp (bx_write b NGINX_KEY (bx_text b k)) (\<lambda>_. ?Q) (\<lambda>_ _. True) w" if "view w = view s" "view s KEY_KEY = Some (k, n)" for w k n
    using that write_disk [of NGINX_KEY "bx_text b k" w] leavesD [OF files_only(4), of NGINX_KEY "bx_text b k" w]
    by (auto simp: wp_def split: prod.splits sum.splits)
  have key: "wp (py_seq (bx_mkdir b ''/etc/nginx/ssl'') (py_seq (bx_write b NGINX_KEY (bx_text b k))
      (bx_chmod b NGINX_KEY ''600''))) (\<lambda>_. ?Q) (\<lambda>_ _. True) w"
    if "view w = view s" "view s KEY_KEY = Some (k, n)" for w k n
    unfolding wp_seq wp_return
    by (rule wp_leaves [OF quiet(4)], rule wp_mono [OF put [OF _ that(2)]], use that in simp, erule chmod) simp_all
  show ?thesis unfolding write_tls_key_to_nginx_def get_value_def wp_seq [of "e_client e"] wp_bind [of "e_get e _"] wp_bind [of "py_bind _ _"] wp_return
  proof (rule wp_leaves [OF client_quiet], rule wp_get_env)
    fix x s1 s2 assume "(view s1, disk s1, timer s1, stuck s1) = (view s, disk s, timer s, stuck s)" "view s1 = view s2"
    then have v: "view s2 = view s" by simp
    show "wp (case case view s2 KEY_KEY of None \<Rightarrow> None | Some (b, uu) \<Rightarrow> if blob_true b then Some b else None of None \<Rightarrow> py_return ()
         | Some v \<Rightarrow> py_seq (bx_mkdir b ''/etc/nginx/ssl'') (py_seq (bx_write b NGINX_KEY (bx_text b v))
             (bx_chmod b NGINX_KEY ''600''))) (\<lambda>_. ?Q) (\<lambda>_ _. True) s2"
      using key [OF v] v by (auto simp: wp_return split: option.splits)
  qed auto
qed

lemma wp_store_certificate:
  assumes connect: "\<And>J. keeps (on J) connect"
  shows "wp (store_certificate e b connect fullchain) (\<lambda>_. pub) (\<lambda>_ _. True) s"
proof -
  let ?P = "\<lambda>w. \<exists>n. view w CERT_KEY = Some (Text fullchain, n)"
  let ?K = "\<lambda>w. ?P w \<and> (\<forall>k n. view w KEY_KEY = Some (k, n) \<longrightarrow> blob_true k \<longrightarrow> disk w NGINX_KEY = Some (bx_text b k))"
  have put: "wp (e_put e CERT_KEY (Text fullchain)) (\<lambda>_. ?P) (\<lambda>_ _. True) w" for w
    by (rule wp_put_env) auto
  have key: "wp (write_tls_key_to_nginx e b) (\<lambda>_. ?K) (\<lambda>_ _. True) w" if "?P w" for w
    by (rule wp_mono [OF wp_write_nginx_key [of w]]) (use that in auto)
  have mkdir: "wp (bx_mkdir b ''/etc/nginx/ssl'') (\<lambda>_. ?K) (\<lambda>_ _. True) w" if "?K w" for w
    by (rule wp_leaves [OF quiet(4)]) (use that in auto)
  have cert: "wp (bx_write b NGINX_CERT fullchain) (\<lambda>_. pub) (\<lambda>_ _. True) w" if "?K w" for w
    using that write_disk [of NGINX_CERT fullchain w] leavesD [OF files_only(4), of NGINX_CERT fullchain w]
    by (auto simp: wp_def pub_def synced_def NGINX_CERT_def NGINX_KEY_def split: prod.splits sum.splits)
  have chmod: "wp (bx_chmod b NGINX_CERT ''644'') (\<lambda>_. pub) (\<lambda>_ _. True) w" if "pub w" for w
    by (rule wp_mono [OF keepsD [OF keeps_pub_on(5) that]]) auto
  have start: "wp (fetch_timer b ''start'') (\<lambda>_. pub) (\<lambda>_ _. True) w" if "pub w" for w
    by (rule wp_mono [OF keepsD [OF keeps_pub_timer that]]) auto
  have any: "wp m (\<lambda>_ _. True) (\<lambda>_ _. True) w" for m :: "('w, 'x) py" and w by (auto simp: wp_def split: prod.splits sum.splits)
  have body: "wp (py_seq connect (py_seq (e_put e CERT_KEY (Text fullchain)) (py_seq (write_tls_key_to_nginx e b)
      (py_seq (bx_mkdir b ''/etc/nginx/ssl'') (py_seq (bx_write b NGINX_CERT fullchain) (bx_chmod b NGINX_CERT ''644'')))))) (\<lambda>_. pub) (\<lambda>_ _. True) w" for w
    unfolding wp_seq
    by (rule wp_mono [OF any], rule wp_mono [OF put], rule wp_mono [OF key], assumption, rule wp_mono [OF mkdir], assumption,
        rule wp_mono [OF cert], assumption, rule chmod) auto
  show ?thesis unfolding store_certificate_def wp_seq [of "fetch_timer _ _"] wp_finally
    by (rule wp_mono [OF any], rule wp_mono [OF body], rule start) (auto intro: wp_mono [OF any])
qed

end

context tls_env
begin

text \<open>A run that reports success has installed the certificate; a renewal may also have left etcd alone.\<close>

definition success :: "bool \<Rightarrow> store \<Rightarrow> bool \<Rightarrow> 'w \<Rightarrow> bool" where
  "success stale c ok w = (ok \<longrightarrow> pub w \<or> stale \<and> view w = c)"

lemma success_False [simp]: "success stale c False w"
  by (simp add: success_def)

lemma wp_whatever: "(\<And>x w. Q x w) \<Longrightarrow> wp m Q (\<lambda>_ _. True) s"
  by (auto simp: wp_def split: prod.splits sum.splits)

lemma wp_installed:
  assumes "\<And>J. keeps (on J) connect"
  shows "wp (py_seq (store_certificate e b connect fullchain) (py_seq (update_nginx_configs e b False) (py_return True))) (success stale c) (\<lambda>_ _. True) s"
  unfolding wp_seq wp_return
  by (rule wp_mono [OF wp_store_certificate], rule assms, erule wp_mono [OF keepsD [OF keeps_pub_update]])
    (auto simp: success_def)

lemma wp_obtain_body: "wp (obtain_body e b email test_cert non_interactive server csr dir) (success stale c) (\<lambda>_ _. True) s"
proof -
  have chain: "wp (bx_read b q) (\<lambda>x. wp (py_seq (store_certificate e b (e_client e) (f x)) (py_seq (update_nginx_configs e b False) (py_return True)))
      (success stale c) (\<lambda>_ _. True)) (\<lambda>_ _. True) w" for q f w
    by (rule wp_whatever, rule wp_installed, rule keeps_on(1))
  show ?thesis
    unfolding obtain_body_def fullchain_of_def Let_def wp_bind wp_seq [of "run_checked _ _ _"] wp_return
    by (rule wp_whatever, rule wp_whatever) (auto simp: wp_return wp_bind chain split: option.splits)
qed

lemma wp_renew_body:
  assumes "view s = c"
  shows "wp (renew_body e b non_interactive csr dir) (success True c) (\<lambda>_ _. True) s"
proof -
  have same: "wp (bx_run b cmd x) (\<lambda>_ w. view w = c) (\<lambda>_ _. True) w" if "view w = c" for cmd x w
    by (rule wp_leaves [OF run_view]) (use that in auto)
  have read: "wp (bx_read b t) (\<lambda>_ w. view w = c) (\<lambda>_ _. True) w" if "view w = c" for t w
    by (rule wp_leaves [OF quiet(2)]) (use that in auto)
  have stored: "wp (py_seq (store_certificate e b (py_return ()) f) (py_seq (update_nginx_configs e b False) (py_return True)))
      (success True c') (\<lambda>_ _. True) w" for f w c'
    by (rule wp_installed) (intro keeps_simple)
  have got: "wp (bx_read b t) (\<lambda>r. wp (case r of None \<Rightarrow> py_return True
      | Some cert \<Rightarrow> py_bind (fullchain_of b cert q) (\<lambda>g. py_seq (store_certificate e b (py_return ()) g)
          (py_seq (update_nginx_configs e b False) (py_return True)))) (success True c) (\<lambda>_ _. True)) (\<lambda>_ _. True) w" if "view w = c" for t q w
    by (rule wp_mono [OF read [OF that]])
      (auto simp: wp_return fullchain_of_def wp_bind success_def [of True c True] split: option.splits intro!: wp_whatever [where m = "bx_read b q"] stored)
  show ?thesis
    unfolding renew_body_def Let_def wp_bind [of "bx_run b _ _"]
    by (rule wp_mono [OF same [OF assms]]) (auto simp: wp_return success_def [of True c True] wp_bind [of "bx_read b _"] got)
qed

lemma under_tmp: "tmp dir \<Longrightarrow> under dir p \<Longrightarrow> tmp p"
  by (auto simp: tmp_def under_def startswith_iff)

lemma keeps_success_clean:
  assumes "tmp key" "tmp csr" "tmp dir" "success stale c ok w"
  shows "wp (clean_up b key csr dir) (\<lambda>_. success stale c ok) E w"
proof -
  have "keeps (vt (\<lambda>v t. v = view w)) (clean_up b key csr dir)" by (rule keeps_vt_clean)
  then have view: "wp (clean_up b key csr dir) (\<lambda>_ w'. view w' = view w) (\<lambda>_ w'. view w' = view w) w"
    by (rule keepsD) simp
  have neq: "p \<noteq> key" "p \<noteq> csr" "\<not> under dir p" if "\<not> tmp p" for p
    using that assms(1-3) under_tmp by blast+
  have "wp (clean_up b key csr dir) (\<lambda>_ w'. disk w' NGINX_CERT = disk w NGINX_CERT \<and> disk w' NGINX_KEY = disk w NGINX_KEY) (\<lambda>_ _. False) w"
    by (rule wp_clean_up) (simp add: neq not_tmp)
  with view show ?thesis
    using assms(4) by (auto simp: wp_def success_def pub_def synced_def split: prod.splits sum.splits)
qed

lemma wp_with_csr_success:
  assumes body: "\<And>csr dir w. view w = c \<Longrightarrow> wp (body csr dir) (success stale c) (\<lambda>_ _. True) w" and s: "view s = c" "stuck s = {}"
  shows "wp (with_csr e b domains body) (success stale c) (\<lambda>_ _. True) s"
proof -
  have frame: "wp m Q (\<lambda>_ _. True) w" if "keeps (vt (\<lambda>v t. v = c)) m" "wp m (\<lambda>x w. view w = c \<longrightarrow> Q x w) (\<lambda>_ _. True) w" "view w = c"
    for m :: "('w, 'x) py" and Q w
    using keepsD [OF that(1), of w] that(2,3) by (auto simp: wp_def split: prod.splits sum.splits)
  have certbot: "wp (py_finally (on_failure (body csr dir) (py_return False)) (clean_up b key csr dir)) (success stale c) (\<lambda>_ _. True) w"
    if "tmp key" "tmp csr" "tmp dir" "view w = c" for key csr dir w
    unfolding wp_finally on_failure_def wp_try
    by (rule wp_mono [OF body [OF that(4)]], erule keeps_success_clean [OF that(1-3)])
      (auto simp: wp_return wp_raise split: exn.splits intro!: wp_clean_up keeps_success_clean that)
  have dir: "wp (bx_mkdtemp b) (\<lambda>dir. wp (py_finally (on_failure (body csr dir) (py_return False)) (clean_up b key csr dir)) (success stale c) (\<lambda>_ _. True))
      (\<lambda>_ _. True) w" if "tmp key" "tmp csr" "view w = c" for key csr w
    by (rule wp_leaves [OF quiet(1)], rule certbot [OF that(1,2)]) (use that(3) mkdtemp_fresh in auto)
  have ensure: "wp (ensure_nginx_cert_from_etcd e b) (\<lambda>_ w. view w = c) (\<lambda>_ _. True) w" if "view w = c" for w
    by (rule wp_mono [OF keepsD [OF keeps_vt_ensure [where L = "\<lambda>v t. v = c"]]]) (use that in auto)
  have csr: "wp (generate_csr b key domains) (\<lambda>r. wp (case r of
           None \<Rightarrow> py_seq (py_ignore (bx_unlink b key)) (py_return False)
         | Some csr \<Rightarrow> py_seq (ensure_nginx_cert_from_etcd e b) (py_bind (bx_mkdtemp b) (\<lambda>dir.
               py_finally (on_failure (body csr dir) (py_return False)) (clean_up b key csr dir)))) (success stale c) (\<lambda>_ _. True)) (\<lambda>_ _. True) w"
    if "key_only key (disk s) w" "view w = c" for key w
  proof (rule frame [OF keeps_vt_csr _ that(2)], rule wp_mono [OF wp_csr [OF that(1)]])
    fix r w' assume w': "case r of None \<Rightarrow> key_left key (disk s) w' | Some csr \<Rightarrow> key_and_csr key csr (disk s) w'"
    show "view w' = c \<longrightarrow> wp (case r of
           None \<Rightarrow> py_seq (py_ignore (bx_unlink b key)) (py_return False)
         | Some csr \<Rightarrow> py_seq (ensure_nginx_cert_from_etcd e b) (py_bind (bx_mkdtemp b) (\<lambda>dir.
               py_finally (on_failure (body csr dir) (py_return False)) (clean_up b key csr dir)))) (success stale c) (\<lambda>_ _. True) w'"
    proof (cases r)
      case None then show ?thesis by (simp add: wp_seq wp_return wp_whatever)
    next
      case (Some csr)
      with w' have "tmp key" "tmp csr" by (simp_all add: key_and_csr_def)
      from wp_mono [OF ensure dir [OF this]] Some show ?thesis by (simp add: wp_seq wp_bind)
    qed
  qed simp
  have key: "view w = c \<longrightarrow> wp (case k of None \<Rightarrow> py_return False | Some key \<Rightarrow> py_bind (generate_csr b key domains) (\<lambda>r. case r of
           None \<Rightarrow> py_seq (py_ignore (bx_unlink b key)) (py_return False)
         | Some csr \<Rightarrow> py_seq (ensure_nginx_cert_from_etcd e b) (py_bind (bx_mkdtemp b) (\<lambda>dir.
               py_finally (on_failure (body csr dir) (py_return False)) (clean_up b key csr dir))))) (success stale c) (\<lambda>_ _. True) w"
    if "case k of None \<Rightarrow> tmp_same (\<lambda>_. False) (disk s) w | Some key \<Rightarrow> key_only key (disk s) w" for k w
    using that csr by (cases k) (simp_all add: wp_return wp_bind)
  show ?thesis unfolding with_csr_def wp_bind [of "write_tls_key_to_temp e b"]
    by (rule frame [OF keeps_vt_key(1) _ s(1)], rule wp_mono [OF wp_key_to_temp [OF s(2)] key]) auto
qed

end

context tls_env
begin

lemma keeps_run_wp:
  assumes "keeps (on J) m" and "on J s" and "\<And>x w. on J w \<Longrightarrow> Q x w"
  shows "wp m Q (\<lambda>_ _. True) s"
  by (rule wp_mono [OF keepsD [OF assms(1,2)]]) (auto intro: assms(3))

text \<open>From a run of the whole command to its outcome.\<close>

lemma wp_obtain:
  assumes csr: "\<And>domains email w. view w = view s \<Longrightarrow> stuck w = stuck s \<Longrightarrow> \<forall>p. tmp p \<longrightarrow> disk w p = disk s p \<Longrightarrow>
      wp (with_csr e b domains (obtain_body e b email test_cert non_interactive server)) Q (\<lambda>_ _. True) w"
    and none: "\<And>w. \<forall>p. tmp p \<longrightarrow> disk w p = disk s p \<Longrightarrow> Q False w"
  shows "wp (obtain_certificate e b test_cert non_interactive server) Q (\<lambda>_ _. True) s"
proof -
  let ?J = "on (\<lambda>v d t k. v = view s \<and> k = stuck s \<and> (\<forall>p. tmp p \<longrightarrow> d p = disk s p))"
  have run: "wp (bx_run b [''systemctl'', ''is-active'', ''--quiet'', ''rathole''] []) (\<lambda>_. ?J) (\<lambda>_ _. True) w" if J: "?J w" for w
    by (rule wp_leaves [OF run_view])
      (use J run_disk [of _ "[''systemctl'', ''is-active'', ''--quiet'', ''rathole'']" "[]" w] leavesD [OF no_removal(3)] in \<open>auto split: if_splits\<close>)
  have rest: "wp (bx_run b [''systemctl'', ''is-active'', ''--quiet'', ''rathole''] []) (\<lambda>rc. wp (if rc \<noteq> 0 then py_return False
      else py_seq (py_lift (joinable domains)) (with_csr e b domains (obtain_body e b email test_cert non_interactive server))) Q (\<lambda>_ _. True))
      (\<lambda>_ _. True) w" if "?J w" for domains email w
    by (rule wp_mono [OF run [OF that]]) (auto simp: wp_return wp_seq wp_lift none csr split: sum.splits)
  show ?thesis unfolding obtain_certificate_def wp_bind [of "get_https_config e b"] wp_bind [of "get_all_domains _ _"]
    by (rule keeps_run_wp [OF keeps_vt_https, of "\<lambda>v d t k. v = view s \<and> k = stuck s \<and> (\<forall>p. tmp p \<longrightarrow> d p = disk s p)"], simp,
        rule keeps_run_wp [OF keeps_vt_domains(2)], assumption)
      (use rest in \<open>auto simp: wp_return wp_bind [of "bx_run _ _ _"] none\<close>)
qed

lemma wp_renew:
  assumes csr: "\<And>domains w. view w = view s \<Longrightarrow> stuck w = stuck s \<Longrightarrow> \<forall>p. tmp p \<longrightarrow> disk w p = disk s p \<Longrightarrow>
      wp (with_csr e b domains (renew_body e b non_interactive)) Q (\<lambda>_ _. True) w"
    and none: "\<And>w. \<forall>p. tmp p \<longrightarrow> disk w p = disk s p \<Longrightarrow> Q False w"
  shows "wp (renew_certificates e b non_interactive) Q (\<lambda>_ _. True) s"
proof -
  let ?j = "\<lambda>v d (t::bool) k. v = view s \<and> k = stuck s \<and> (\<forall>p. tmp p \<longrightarrow> d p = disk s p)"
  have rest: "wp (py_seq (e_client e) (py_bind (get_value e CERT_KEY) (\<lambda>v. case v of None \<Rightarrow> py_return False
      | Some _ \<Rightarrow> with_csr e b domains (renew_body e b non_interactive)))) Q (\<lambda>_ _. True) w" if "on ?j w" for domains w
    unfolding wp_seq wp_bind
    by (rule keeps_run_wp [OF keeps_on(1)], rule that, rule keeps_run_wp [OF keeps_get_value], assumption)
      (auto simp: wp_return none csr split: option.splits)
  have domains: "wp (get_all_domains b c) (\<lambda>domains. wp (py_seq (e_client e) (py_bind (get_value e CERT_KEY) (\<lambda>v. case v of None \<Rightarrow> py_return False
      | Some _ \<Rightarrow> with_csr e b domains (renew_body e b non_interactive)))) Q (\<lambda>_ _. True)) (\<lambda>_ _. True) w" if "on ?j w" for c w
    by (rule keeps_run_wp [OF keeps_vt_domains(2)], rule that, rule rest)
  show ?thesis unfolding renew_certificates_def wp_bind [of "get_https_config e b"]
    by (rule keeps_run_wp [OF keeps_vt_https, of ?j]) (use domains in \<open>auto simp: wp_return wp_bind [of "get_all_domains _ _"] none\<close>)
qed

end

section \<open>A machine with certbot\<close>

record tbox =
  tb_kv :: mem
  tb_files :: "(string \<times> string) list"
  tb_timer :: bool
  tb_ca :: "string option"
  tb_stuck :: "string list"

abbreviation tb_etcd :: "tbox etcd3" where
  "tb_etcd \<equiv> zoom_etcd tb_kv (\<lambda>k w. w\<lparr>tb_kv := k\<rparr>)"

abbreviation tb_view :: "tbox \<Rightarrow> store" where
  "tb_view \<equiv> \<lambda>w. mem_view (tb_kv w)"

definition tb_disk :: "tbox \<Rightarrow> string \<Rightarrow> string option" where
  "tb_disk w = map_of (tb_files w)"

definition on_files :: "((string \<times> string) list \<Rightarrow> (string \<times> string) list) \<Rightarrow> tbox \<Rightarrow> tbox" where
  "on_files f w = w\<lparr>tb_files := f (tb_files w)\<rparr>"

text \<open>A name longer than every file's is free, as file and as directory.\<close>

definition tb_fresh :: "tbox \<Rightarrow> string \<Rightarrow> string" where
  "tb_fresh w suffix = ''/tmp/'' @ replicate (sum_list (map (length \<circ> fst) (tb_files w))) (CHR ''x'') @ suffix"

definition tb_outputs :: "string list \<Rightarrow> string \<Rightarrow> (string \<times> string) list \<Rightarrow> (string \<times> string) list" where
  "tb_outputs cmd t fs = fold (\<lambda>p. AList.update p t) (filter (\<lambda>p. p \<in> out_args cmd) cmd) fs"

text \<open>certbot fails when no authority answers.\<close>

definition tb_run :: "string list \<Rightarrow> string \<Rightarrow> (tbox, int) py" where
  "tb_run cmd inp w =
     (if cmd = [''systemctl'', ''start'', ''fetch-tls-certs.timer''] then (Inr 0, w\<lparr>tb_timer := True\<rparr>)
      else if cmd = [''systemctl'', ''stop'', ''fetch-tls-certs.timer''] then (Inr 0, w\<lparr>tb_timer := False\<rparr>)
      else if take 1 cmd = [''openssl''] then (Inr 0, on_files (tb_outputs cmd ''CSR'') w)
      else if take 1 cmd = [''certbot''] then
        (case tb_ca w of Some t \<Rightarrow> (Inr 0, on_files (tb_outputs cmd t) w) | None \<Rightarrow> (Inr 1, w))
      else (Inr 0, w))"

fun tb_text :: "blob \<Rightarrow> string" where
  "tb_text (Text x) = x"
| "tb_text _ = ''{}''"

text \<open>A file whose name ends in \<open>.stuck\<close> cannot be removed.\<close>

definition tb_unlink :: "string \<Rightarrow> (tbox, unit) py" where
  "tb_unlink p w = (if p \<in> set (tb_stuck w) \<or> endswith p ''.stuck'' then (Inl OSError, w\<lparr>tb_stuck := p # tb_stuck w\<rparr>)
     else (Inr (), on_files (AList.delete p) w))"

definition tb_box :: "tbox box" where
  "tb_box = \<lparr>bx_tempfile = (\<lambda>t x w. (Inr (tb_fresh w t), on_files (AList.update (tb_fresh w t) x) w)),
     bx_mkdtemp = (\<lambda>w. (Inr (tb_fresh w []), w)), bx_rmtree = (\<lambda>d. py_modify (on_files (filter (\<lambda>f. \<not> under d (fst f))))),
     bx_unlink = tb_unlink, bx_read = (\<lambda>p. py_get (\<lambda>w. tb_disk w p)),
     bx_write = (\<lambda>p x. py_modify (on_files (AList.update p x))), bx_chmod = (\<lambda>_ _. py_return ()), bx_mkdir = (\<lambda>_. py_return ()),
     bx_run = tb_run, bx_templates = py_return (Some [(''grafana'', ''server'')]), bx_render = (\<lambda>t d tls. Inr (t @ '' '' @ d)), bx_text = tb_text\<rparr>"

lemma on_files_simps [simp]: "tb_kv (on_files f w) = tb_kv w" "tb_files (on_files f w) = f (tb_files w)" "tb_timer (on_files f w) = tb_timer w"
  "tb_stuck (on_files f w) = tb_stuck w"
  by (simp_all add: on_files_def)

lemma tb_outputs_frame: "p \<notin> out_args cmd \<Longrightarrow> map_of (tb_outputs cmd t fs) p = map_of fs p"
proof -
  have "map_of (fold (\<lambda>p. AList.update p t) ps fs) p = map_of fs p" if "p \<notin> set ps" for ps
    using that by (induction ps arbitrary: fs) (auto simp: update_conv')
  then show "p \<notin> out_args cmd \<Longrightarrow> map_of (tb_outputs cmd t fs) p = map_of fs p" by (simp add: tb_outputs_def)
qed

lemma tb_longer: "p \<in> set (map fst (tb_files w)) \<Longrightarrow> length p < length (tb_fresh w t)"
proof -
  assume "p \<in> set (map fst (tb_files w))"
  then have "length p \<le> sum_list (map (length \<circ> fst) (tb_files w))"
    by (auto intro!: member_le_sum_list simp: image_iff) force
  then show ?thesis by (simp add: tb_fresh_def)
qed

lemma tb_fresh_free: "tb_disk w (tb_fresh w t) = None" "under (tb_fresh w t) p \<Longrightarrow> tb_disk w p = None"
  using tb_longer [of "tb_fresh w t" w t] tb_longer [of p w t]
  by (auto simp: tb_disk_def map_of_eq_None_iff under_def startswith_iff) force+

lemma tb_tmp: "tmp (tb_fresh w t)"
  by (simp add: tmp_def tb_fresh_def startswith_def)

interpretation tbkv: mem_part tb_kv "\<lambda>k w. w\<lparr>tb_kv := k\<rparr>"
  by unfold_locales simp

interpretation tbx: tls_env tb_etcd tb_view tb_box tb_disk tb_timer "\<lambda>w. set (tb_stuck w)"
proof unfold_locales
  show "leaves tb_view (bx_run tb_box cmd x)" for cmd x
    by (auto simp: leaves_def tb_box_def tb_run_def split: option.splits)
  show "tb_timer (snd (bx_run tb_box cmd x s)) = (cmd = [''systemctl'', ''start'', ''fetch-tls-certs.timer'']
      \<or> cmd \<noteq> [''systemctl'', ''stop'', ''fetch-tls-certs.timer''] \<and> tb_timer s)" for cmd x s
    by (simp add: tb_box_def tb_run_def split: option.splits)
  show "leaves (\<lambda>w. set (tb_stuck w)) (bx_run tb_box cmd x)" for cmd x
    by (auto simp: leaves_def tb_box_def tb_run_def split: option.splits)
  show "bx_unlink tb_box t s = (ru, s') \<Longrightarrow> set (tb_stuck s') = set (tb_stuck s) \<union> (if isl ru then {t} else {})
      \<and> (\<forall>p. tb_disk s' p = tb_disk s p \<and> (p = t \<longrightarrow> isl ru) \<or> p = t \<and> tb_disk s' p = None)" for t s ru s'
    by (auto simp: tb_box_def tb_unlink_def tb_disk_def delete_conv' split: if_splits)
  show "tmp p \<or> nginx_file p \<Longrightarrow> p \<notin> out_args cmd \<Longrightarrow> tb_disk (snd (bx_run tb_box cmd x s)) p = tb_disk s p" for p cmd x s
    by (auto simp: tb_box_def tb_run_def tb_disk_def tb_outputs_frame split: option.splits)
  show "bx_mkdtemp tb_box s = (Inr d, s') \<Longrightarrow> tmp d \<and> (\<forall>p. under d p \<longrightarrow> tb_disk s p = None)" for s d s'
    using tb_fresh_free(2) [of s "[]"] by (auto simp: tb_box_def tb_tmp)
  show "bx_tempfile tb_box t x s = (r, s') \<Longrightarrow> (case r of Inr p \<Rightarrow> tmp p \<and> tb_disk s p = None \<and> tb_disk s' = (tb_disk s)(p \<mapsto> x)
      | Inl _ \<Rightarrow> tb_disk s' = tb_disk s)" for t x s r s'
    using tb_fresh_free(1) [of s t] by (auto simp: tb_box_def tb_tmp tb_disk_def update_conv)
  show "bx_rmtree tb_box t s = (ru, s') \<Longrightarrow> set (tb_stuck s') = set (tb_stuck s) \<union> (if isl ru then {p. under t p} else {})
      \<and> (\<forall>p. tb_disk s' p = tb_disk s p \<and> (under t p \<longrightarrow> isl ru) \<or> under t p \<and> tb_disk s' p = None)" for t s ru s'
  proof -
    have "map_of (filter (\<lambda>f. \<not> under t (fst f)) fs) p = (if under t p then None else map_of fs p)" for fs :: "(string \<times> string) list" and p
      by (induction fs) auto
    then show "bx_rmtree tb_box t s = (ru, s') \<Longrightarrow> ?thesis" by (auto simp: tb_box_def tb_disk_def py_modify_def split: if_splits)
  qed
qed (auto simp: leaves_zoom_etcd tb_disk_def, auto simp: leaves_def tb_box_def tb_unlink_def tb_disk_def py_return_def py_get_def py_modify_def update_conv' delete_conv')

section \<open>Obtaining and renewing\<close>

context tls_env
begin

lemma outcome:
  assumes "keeps (only_cert (view s)) m" and "wp m (\<lambda>_ w. \<forall>p. tmp p \<longrightarrow> disk w p = disk s p \<or> p \<in> stuck w) (\<lambda>_ _. True) s"
    and "wp m (success stale (view s)) (\<lambda>_ _. True) s" and "timer s" and "m s = (r, s')"
  shows "(\<exists>x. view s' = (view s)(CERT_KEY := x)) \<and> timer s' \<and> (\<not> isl r \<longrightarrow> (\<forall>p. tmp p \<longrightarrow> disk s' p = disk s p \<or> p \<in> stuck s'))
    \<and> (r = Inr True \<longrightarrow> synced b (view s') (disk s') \<or> stale \<and> view s' = view s)"
proof -
  have "only_cert (view s) s" using \<open>timer s\<close> by (simp add: only_cert_def) (metis fun_upd_triv)
  from keepsD [OF assms(1) this] have "only_cert (view s) s'" using assms(5) by (simp add: wp_def split: sum.splits)
  then show ?thesis using assms(2,3,5) by (auto simp: only_cert_def wp_def success_def pub_def split: sum.splits)
qed

end

text \<open>C14: Obtaining a certificate changes nothing in etcd but the certificate, and after it the last thing asked of the fetch
  timer is to start, however it ends and whichever calls fail. When it returns, every file it made in the temporary directory
  (the private key above all) is gone or its removal was tried and refused, and no other file there was changed; when it reports
  success, nginx has the certificate that etcd has, and the private key that etcd has.\<close>

theorem certificate_obtained:
  assumes env: "tls_env e view b disk timer stuck" and "timer s" and none: "stuck s = {}" and run: "obtain_certificate e b test_cert non_interactive server s = (r, s')"
  shows "(\<exists>x. view s' = (view s)(CERT_KEY := x)) \<and> timer s'
    \<and> (\<not> isl r \<longrightarrow> (\<forall>p. tmp p \<longrightarrow> disk s' p = disk s p \<or> p \<in> stuck s'))
    \<and> (r = Inr True \<longrightarrow> synced b (view s') (disk s'))"
proof -
  have tmp: "wp (obtain_certificate e b test_cert non_interactive server) (\<lambda>_ w. \<forall>p. tmp p \<longrightarrow> disk w p = disk s p \<or> p \<in> stuck w) (\<lambda>_ _. True) s"
    by (rule tls_env.wp_obtain [OF env], rule tls_env.wp_with_csr_tmp [OF env tls_env.keeps_tmp_bodies(1) [OF env]]) (simp_all add: none)
  have "wp (obtain_certificate e b test_cert non_interactive server) (tls_env.success view b disk False (view s)) (\<lambda>_ _. True) s"
    by (rule tls_env.wp_obtain [OF env], rule tls_env.wp_with_csr_success [OF env tls_env.wp_obtain_body [OF env]])
      (simp_all add: tls_env.success_def [OF env] none)
  from tls_env.outcome [OF env tls_env.keeps_only_cert(1) [OF env] tmp this assms(2) run] show ?thesis by simp
qed

text \<open>Renewing keeps the same promises; when it reports success, nginx has what etcd has, or etcd was left alone.\<close>

theorem certificate_renewed:
  assumes env: "tls_env e view b disk timer stuck" and "timer s" and none: "stuck s = {}" and run: "renew_certificates e b non_interactive s = (r, s')"
  shows "(\<exists>x. view s' = (view s)(CERT_KEY := x)) \<and> timer s'
    \<and> (\<not> isl r \<longrightarrow> (\<forall>p. tmp p \<longrightarrow> disk s' p = disk s p \<or> p \<in> stuck s'))
    \<and> (r = Inr True \<longrightarrow> synced b (view s') (disk s') \<or> view s' = view s)"
proof -
  have tmp: "wp (renew_certificates e b non_interactive) (\<lambda>_ w. \<forall>p. tmp p \<longrightarrow> disk w p = disk s p \<or> p \<in> stuck w) (\<lambda>_ _. True) s"
    by (rule tls_env.wp_renew [OF env], rule tls_env.wp_with_csr_tmp [OF env tls_env.keeps_tmp_bodies(2) [OF env]]) (simp_all add: none)
  have "wp (renew_certificates e b non_interactive) (tls_env.success view b disk True (view s)) (\<lambda>_ _. True) s"
    by (rule tls_env.wp_renew [OF env], rule tls_env.wp_with_csr_success [OF env tls_env.wp_renew_body [OF env]])
      (simp_all add: tls_env.success_def [OF env] none)
  from tls_env.outcome [OF env tls_env.keeps_only_cert(2) [OF env] tmp this assms(2) run] show ?thesis by simp
qed

definition tb_world :: tbox where
  "tb_world = \<lparr>tb_kv = \<lparr>mem_data = [(DOMAIN_KEY, (Text ''x.org'', 1)), (KEY_KEY, (Text ''KEY'', 2)), (CERT_KEY, (Text ''OLD'', 3))], mem_rev = 3\<rparr>,
     tb_files = [(''/tmp/a'', ''b'')], tb_timer = True, tb_ca = Some ''NEW'', tb_stuck = []\<rparr>"

theorem certificate_obtained_witness:
  "fst (obtain_certificate tb_etcd tb_box False True None tb_world) = Inr True
   \<and> synced tb_box (tb_view (snd (obtain_certificate tb_etcd tb_box False True None tb_world))) (tb_disk (snd (obtain_certificate tb_etcd tb_box False True None tb_world)))
   \<and> tb_timer (snd (obtain_certificate tb_etcd tb_box False True None tb_world))
   \<and> tb_stuck (snd (obtain_certificate tb_etcd tb_box False True None tb_world)) = []
   \<and> tb_disk (snd (obtain_certificate tb_etcd tb_box False True None tb_world)) ''/tmp/a'' = Some ''b''"
proof -
  let ?w = "snd (obtain_certificate tb_etcd tb_box False True None tb_world)"
  have ok: "fst (obtain_certificate tb_etcd tb_box False True None tb_world) = Inr True" by code_simp
  have w: "tb_timer tb_world" "set (tb_stuck tb_world) = {}" by (simp_all add: tb_world_def)
  have "tmp ''/tmp/a''" "tb_disk tb_world ''/tmp/a'' = Some ''b''" "tb_stuck ?w = []" by code_simp+
  with certificate_obtained [OF tbx.tls_env_axioms w prod.collapse [symmetric], of False True None] ok show ?thesis
    by (metis empty_iff isl_def list.set(1) sum.disc(2))
qed

theorem certificate_renewed_witness:
  "fst (renew_certificates tb_etcd tb_box True tb_world) = Inr True
   \<and> tb_disk (snd (renew_certificates tb_etcd tb_box True tb_world)) ''/tmp/a'' = Some ''b''"
proof -
  let ?w = "snd (renew_certificates tb_etcd tb_box True tb_world)"
  have ok: "fst (renew_certificates tb_etcd tb_box True tb_world) = Inr True" by code_simp
  have w: "tb_timer tb_world" "set (tb_stuck tb_world) = {}" by (simp_all add: tb_world_def)
  have "tmp ''/tmp/a''" "tb_disk tb_world ''/tmp/a'' = Some ''b''" "tb_stuck ?w = []" by code_simp+
  with certificate_renewed [OF tbx.tls_env_axioms w prod.collapse [symmetric], of True] ok show ?thesis
    by (metis empty_iff isl_def list.set(1) sum.disc(2))
qed

section \<open>Findings\<close>

text \<open>When certbot fails, the renewal reports success all the same.\<close>

definition tb_refused :: tbox where
  "tb_refused = tb_world\<lparr>tb_ca := None\<rparr>"

theorem failed_renewal_reports_success:
  "fst (renew_certificates tb_etcd tb_box True tb_refused) = Inr True
   \<and> map_of (mem_data (tb_kv (snd (renew_certificates tb_etcd tb_box True tb_refused)))) CERT_KEY = Some (Text ''OLD'', 3)"
  by code_simp

text \<open>What runs between the temporary key file and the block that removes it may raise: the private key stays behind.\<close>

definition tb_denied :: "tbox box" where
  "tb_denied = tb_box\<lparr>bx_mkdir := \<lambda>_. py_raise OSError\<rparr>"

theorem key_left_behind:
  "isl (fst (obtain_certificate tb_etcd tb_denied False True None tb_world))
   \<and> tb_disk (snd (obtain_certificate tb_etcd tb_denied False True None tb_world)) ''/tmp/xxxxxx.pem'' = Some ''KEY''"
  by code_simp

end
