(* ===== verification/YInventory.thy ===== *)
theory YInventory
  imports YAdmin
begin

text \<open>
  The inventory: hardware facts and asset records of the nodes in etcd (\<open>utils/inventory.py\<close>) and the Ansible plugin
  that turns the node registry into hosts and groups (\<open>inventory_plugins/etcd_nodes.py\<close>). Ansible's inventory object is
  a record of the calls the plugin makes; the locale \<open>ansible_env\<close> states what is relied on. Warnings are left out.
\<close>

section \<open>Hardware facts and asset records\<close>

definition HARDWARE_PREFIX :: string where
  "HARDWARE_PREFIX = ''/cluster/nodes/hardware/''"

definition ASSET_PREFIX :: string where
  "ASSET_PREFIX = ''/cluster/nodes/asset/''"

definition NODE_PREFIX :: string where
  "NODE_PREFIX = ''/cluster/nodes/by-hostname/''"

fun loads_json :: "blob \<Rightarrow> exn + json" where
  "loads_json (Doc d) = Inr (JObj d)"
| "loads_json (DocList xs) = Inr (JList xs)"
| "loads_json (Text _) = Inl JSONDecodeError"

definition get_hardware :: "'w etcd3 \<Rightarrow> string \<Rightarrow> ('w, json option) py" where
  "get_hardware e hostname =
     py_seq (e_client e)
     (py_bind (e_get e (HARDWARE_PREFIX @ hostname)) (\<lambda>r. case r of
        None \<Rightarrow> py_return None
      | Some (b, _) \<Rightarrow> py_lift (map_sum id Some (loads_json b))))"

definition put_hardware :: "'w etcd3 \<Rightarrow> string \<Rightarrow> dict \<Rightarrow> ('w, unit) py" where
  "put_hardware e hostname data = py_seq (e_client e) (e_put e (HARDWARE_PREFIX @ hostname) (Doc data))"

definition get_asset :: "'w etcd3 \<Rightarrow> string \<Rightarrow> ('w, json) py" where
  "get_asset e hostname =
     py_seq (e_client e)
     (py_bind (e_get e (ASSET_PREFIX @ hostname)) (\<lambda>r. case r of
        None \<Rightarrow> py_return (JObj [])
      | Some (b, _) \<Rightarrow> py_lift (loads_json b)))"

definition dict_update :: "dict \<Rightarrow> dict \<Rightarrow> dict" where
  "dict_update d new = fold (\<lambda>(k, v). AList.update k v) new d"

definition put_asset :: "'w etcd3 \<Rightarrow> string \<Rightarrow> string \<Rightarrow> dict \<Rightarrow> ('w, dict) py" where
  "put_asset e now hostname data =
     py_bind (get_asset e hostname) (\<lambda>existing. case existing of
       JObj d \<Rightarrow>
         (let merged = AList.update ''updated_at'' (JStr now) (dict_update d data) in
          py_seq (e_client e) (py_seq (e_put e (ASSET_PREFIX @ hostname) (Doc merged)) (py_return merged)))
     | _ \<Rightarrow> py_raise AttributeError)"

record inv_node =
  n_allocation :: "dict option"
  n_hardware :: "json option"
  n_asset :: json

definition no_node :: inv_node where
  "no_node = \<lparr>n_allocation = None, n_hardware = None, n_asset = JObj []\<rparr>"

type_synonym inv_nodes = "(string \<times> inv_node) list"

text \<open>One entry of each of the three listings; an entry that cannot be used is passed over.\<close>

definition gather_allocation :: "string \<times> blob \<Rightarrow> inv_nodes \<Rightarrow> inv_nodes" where
  "gather_allocation x nodes =
     (case loads_dict (snd x) of
        Inl _ \<Rightarrow> nodes
      | Inr alloc \<Rightarrow> (case map_of alloc ''hostname'' of
            Some (JStr h) \<Rightarrow> if h \<noteq> [] \<and> \<not> startswith h ''dhcp-'' then AList.update h (no_node\<lparr>n_allocation := Some alloc\<rparr>) nodes else nodes
          | _ \<Rightarrow> nodes))"

definition overlay :: "string \<Rightarrow> (json \<Rightarrow> inv_node \<Rightarrow> inv_node) \<Rightarrow> string \<times> blob \<Rightarrow> inv_nodes \<Rightarrow> inv_nodes" where
  "overlay prefix put x nodes =
     (case loads_json (snd x) of
        Inl _ \<Rightarrow> nodes
      | Inr j \<Rightarrow>
          (let hostname = drop (length prefix) (fst x) in
           AList.update hostname (put j (case map_of nodes hostname of Some n \<Rightarrow> n | None \<Rightarrow> no_node)) nodes))"

definition list_all_nodes :: "'w etcd3 \<Rightarrow> ('w, inv_nodes) py" where
  "list_all_nodes e =
     py_seq (e_client e)
     (py_bind (e_get_prefix e NODE_PREFIX) (\<lambda>allocs.
      py_bind (e_get_prefix e HARDWARE_PREFIX) (\<lambda>hws.
      py_bind (e_get_prefix e ASSET_PREFIX) (\<lambda>assets.
        py_return
          (fold (overlay ASSET_PREFIX (\<lambda>j n. n\<lparr>n_asset := j\<rparr>)) assets
          (fold (overlay HARDWARE_PREFIX (\<lambda>j n. n\<lparr>n_hardware := Some j\<rparr>)) hws
          (fold gather_allocation allocs [])))))))"

section \<open>Where the plugin finds etcd\<close>

definition env_line :: "string \<Rightarrow> (string \<times> string) list \<Rightarrow> (string \<times> string) list" where
  "env_line raw src =
     (let line = strip raw in
      if line \<noteq> [] \<and> \<not> startswith line ''#'' \<and> CHR ''='' \<in> set line
      then AList.update (takeWhile (\<lambda>c. c \<noteq> CHR ''='') line) (drop 1 (dropWhile (\<lambda>c. c \<noteq> CHR ''='') line)) src
      else src)"

definition etcd_source :: "string list option \<Rightarrow> (string \<times> string) list \<Rightarrow> (string \<times> string) list" where
  "etcd_source file environ =
     fold (\<lambda>(k, v). AList.update k v) (filter (\<lambda>x. startswith (fst x) ''ETCD'') environ)
       (case file of Some ls \<Rightarrow> fold env_line ls [] | None \<Rightarrow> [])"

definition or_config :: "string option \<Rightarrow> json option \<Rightarrow> json option" where
  "or_config x y = (case x of Some v \<Rightarrow> if v \<noteq> [] then Some (JStr v) else y | None \<Rightarrow> y)"

definition config_hosts :: "dict \<Rightarrow> json" where
  "config_hosts config =
     (case map_of config ''etcd_hosts'' of
        Some j \<Rightarrow> if truthy j then j else JList [JStr ''localhost:2379'']
      | None \<Rightarrow> JList [JStr ''localhost:2379''])"

definition resolve_etcd_connection :: "string list option \<Rightarrow> (string \<times> string) list \<Rightarrow> dict \<Rightarrow> json \<times> dict" where
  "resolve_etcd_connection file environ config =
     (let src = etcd_source file environ;
          hosts = (case map_of src ''ETCD_HOSTS'' of
              Some hs \<Rightarrow> if hs \<noteq> [] then JList (map JStr (filter (\<lambda>h. h \<noteq> []) (split_on (CHR '','') hs))) else config_hosts config
            | None \<Rightarrow> config_hosts config);
          ca = or_config (map_of src ''ETCD_CACERT'') (map_of config ''ca_cert'');
          cert = or_config (map_of src ''ETCD_CERT'') (map_of config ''cert_cert'');
          key = or_config (map_of src ''ETCD_KEY'') (map_of config ''cert_key'')
      in (hosts, (if otruthy ca then [(''ca_cert'', the ca)] else [])
                 @ (if otruthy cert \<and> otruthy key then [(''cert_cert'', the cert), (''cert_key'', the key)] else [])))"

text \<open>The hosts are tried in turn; one that is not a text fails like one that does not answer.\<close>

fun host_items :: "json \<Rightarrow> exn + string list" where
  "host_items (JList xs) = Inr (List.map_filter the_str xs)"
| "host_items (JObj d) = Inr (map fst d)"
| "host_items (JStr s) = Inr (map (\<lambda>c. [c]) s)"
| "host_items _ = Inl TypeError"

section \<open>The plugin\<close>

record 'w ansible =
  i_add_group :: "string \<Rightarrow> ('w, unit) py"
  i_add_host :: "json \<Rightarrow> ('w, unit) py"
  i_set_variable :: "json \<Rightarrow> string \<Rightarrow> json \<Rightarrow> ('w, unit) py"
  i_add_child :: "string \<Rightarrow> json \<Rightarrow> ('w, unit) py"
  i_has_group :: "string \<Rightarrow> ('w, bool) py"
  i_members :: "('w, string list list) py"

definition base_groups :: "string list" where
  "base_groups = [''storage'', ''compute'', ''core'', ''etcd'', ''frontend'', ''nas'', ''nvidia'', ''adhoc'', ''all_nodes'', ''managed'']"

definition create_groups :: "'w ansible \<Rightarrow> ('w, unit) py" where
  "create_groups i =
     py_seq (py_for base_groups (i_add_group i))
     (py_for [(''compute'', ''nvidia''), (''managed'', ''storage''), (''managed'', ''compute''), (''managed'', ''adhoc''), (''managed'', ''nas'')]
       (\<lambda>(g, c). i_add_child i g (JStr c)))"

text \<open>\<open>url.split('://')[1].split(':')[0]\<close>; a URL without a scheme ends the enumeration.\<close>

fun after_scheme :: "string \<Rightarrow> string option" where
  "after_scheme [] = None"
| "after_scheme (c # cs) = (if startswith (c # cs) ''://'' then Some (drop 2 cs) else after_scheme cs)"

fun member_hosts :: "string list \<Rightarrow> string list" where
  "member_hosts [] = []"
| "member_hosts (url # urls) =
     (case after_scheme url of None \<Rightarrow> [] | Some rest \<Rightarrow> takeWhile (\<lambda>c. c \<noteq> CHR '':'') rest # member_hosts urls)"

definition etcd_members :: "'w ansible \<Rightarrow> ('w, string list) py" where
  "etcd_members i = py_try (py_bind (i_members i) (\<lambda>ms. py_return (member_hosts (concat ms)))) (\<lambda>_. py_return [])"

definition storage_leader :: "'w etcd3 \<Rightarrow> (blob \<Rightarrow> string) \<Rightarrow> ('w, string option) py" where
  "storage_leader e decode = py_bind (e_get e ''/cluster/leader/app'') (\<lambda>r. py_return (case r of
       Some (b, _) \<Rightarrow> if blob_true b then Some (strip (decode b)) else None | None \<Rightarrow> None))"

definition type_group :: "json \<Rightarrow> string" where
  "type_group node_type =
     (case node_type of
        JStr t \<Rightarrow> if t \<in> {''storage'', ''compute'', ''macos'', ''nas'', ''nvidia'', ''adhoc''} then t else ''other''
      | _ \<Rightarrow> ''other'')"

definition add_to_type :: "'w ansible \<Rightarrow> json \<Rightarrow> string \<Rightarrow> ('w, unit) py" where
  "add_to_type i node_type hostname =
     (let g = type_group node_type in
      if g \<in> {''macos'', ''other''}
      then py_bind (i_has_group i g) (\<lambda>there. py_seq (py_when (\<not> there) (i_add_group i g)) (i_add_child i g (JStr hostname)))
      else i_add_child i g (JStr hostname))"

definition core_name :: "string \<Rightarrow> bool" where
  "core_name h = (startswith h ''s'' \<and> isdigit (drop 1 h))"

definition add_node :: "'w ansible \<Rightarrow> string list \<Rightarrow> string option \<Rightarrow> string \<Rightarrow> json \<Rightarrow> json \<Rightarrow> json \<Rightarrow> ('w, unit) py" where
  "add_node i members leader hostname ip node_type mac =
     py_seq (i_add_host i (JStr hostname))
     (py_seq (i_set_variable i (JStr hostname) ''ansible_host'' ip)
     (py_seq (i_set_variable i (JStr hostname) ''mac_address'' mac)
     (py_seq (i_set_variable i (JStr hostname) ''node_type'' node_type)
     (py_seq (i_set_variable i (JStr hostname) ''storage_leader'' (JBool (Some hostname = leader)))
     (py_seq (i_add_child i ''all_nodes'' (JStr hostname))
     (py_seq (add_to_type i node_type hostname)
     (py_seq (py_when (core_name hostname) (i_add_child i ''core'' (JStr hostname)))
       (if \<not> hashable ip then py_raise TypeError
        else py_when (ip \<in> set (map JStr members)) (i_add_child i ''etcd'' (JStr hostname))))))))))"

definition str_attr :: "json \<Rightarrow> exn + string" where
  "str_attr j = (case j of JStr s \<Rightarrow> Inr s | _ \<Rightarrow> Inl AttributeError)"

definition targeted :: "string \<Rightarrow> dict \<Rightarrow> bool" where
  "targeted hostname allocation =
     (\<not> endswith hostname ''a'' \<and> \<not> startswith hostname ''dhcp-'' \<and> \<not> otruthy (map_of allocation ''disabled''))"

definition add_allocation :: "'w ansible \<Rightarrow> string list \<Rightarrow> string option \<Rightarrow> string \<times> blob \<Rightarrow> ('w, unit) py" where
  "add_allocation i members leader x =
     (if \<not> blob_true (snd x) then py_return ()
      else py_ignore
        (py_bind (py_lift (loads_dict (snd x))) (\<lambda>allocation.
         py_bind (py_lift (dict_item allocation ''hostname'')) (\<lambda>h.
         py_bind (py_lift (dict_item allocation ''ip'')) (\<lambda>ip.
         py_bind (py_lift (dict_item allocation ''type'')) (\<lambda>node_type.
         py_bind (py_lift (dict_item allocation ''mac'')) (\<lambda>mac.
         py_bind (py_lift (str_attr h)) (\<lambda>hostname.
           if targeted hostname allocation then add_node i members leader hostname ip node_type mac else py_return ()))))))))"

definition frontend_vars :: "dict \<Rightarrow> dict" where
  "frontend_vars d = filter (\<lambda>x. fst x \<notin> {''name'', ''ip'', ''hostname''}) d"

definition add_frontend :: "'w ansible \<Rightarrow> string \<times> blob \<Rightarrow> ('w, unit) py" where
  "add_frontend i x =
     (if \<not> blob_true (snd x) then py_return ()
      else py_ignore
        (py_bind (py_lift (loads_dict (snd x))) (\<lambda>d.
           let name = map_of d ''name'';
               address = (if otruthy (map_of d ''ip'') then map_of d ''ip'' else map_of d ''hostname'') in
           if otruthy name \<and> otruthy address
           then py_seq (i_add_host i (the name))
               (py_seq (i_set_variable i (the name) ''ansible_host'' (the address))
               (py_seq (i_set_variable i (the name) ''node_type'' (JStr ''frontend''))
               (py_seq (py_for (frontend_vars d) (\<lambda>(k, v). i_set_variable i (the name) k v))
               (py_seq (i_set_variable i (the name) ''storage_leader'' (JBool False))
                 (i_add_child i ''frontend'' (the name))))))
           else py_return ())))"

definition populate :: "'w etcd3 \<Rightarrow> 'w ansible \<Rightarrow> (blob \<Rightarrow> string) \<Rightarrow> string \<Rightarrow> ('w, unit) py" where
  "populate e i decode prefix =
     py_seq (create_groups i)
     (py_bind (etcd_members i) (\<lambda>members.
      py_bind (storage_leader e decode) (\<lambda>leader.
      py_bind (e_get_prefix e (prefix @ ''/by-hostname/'')) (\<lambda>allocs.
      py_seq (py_for allocs (add_allocation i members leader))
      (py_bind (e_get_prefix e (prefix @ ''/frontend'')) (\<lambda>fronts.
        py_for fronts (add_frontend i)))))))"

definition inventory_parse ::
  "'w etcd3 \<Rightarrow> 'w ansible \<Rightarrow> (blob \<Rightarrow> string) \<Rightarrow> (dict \<Rightarrow> string \<Rightarrow> int \<Rightarrow> ('w, unit) py) \<Rightarrow> string list option \<Rightarrow> (string \<times> string) list \<Rightarrow> dict
    \<Rightarrow> string \<Rightarrow> ('w, unit) py" where
  "inventory_parse e i decode connect file environ config prefix =
     (let (hosts, tls_kwargs) = resolve_etcd_connection file environ config in
      py_bind (py_lift (host_items hosts)) (\<lambda>items.
      py_bind (try_hosts (connect tls_kwargs) items) (\<lambda>c. case c of
        None \<Rightarrow> py_return ()
      | Some _ \<Rightarrow> populate e i decode prefix)))"


section \<open>What the plugin relies on\<close>

locale ansible_env = etcd_env e view "(=)"
  for e :: "'w etcd3" and view :: "'w \<Rightarrow> store" +
  fixes i :: "'w ansible"
    and groups :: "'w \<Rightarrow> string set"
    and hosts :: "'w \<Rightarrow> string set"
    and kids :: "'w \<Rightarrow> (string \<times> json) list"
  assumes etcd_inventory: "leaves (\<lambda>w. (groups w, hosts w, kids w)) (e_get e k)" "leaves (\<lambda>w. (groups w, hosts w, kids w)) (e_get_prefix e k)"
    and members_leaves: "leaves (\<lambda>w. (view w, groups w, hosts w, kids w)) (i_members i)"
    and group_call: "i_add_group i g s = (r, s') \<Longrightarrow> r = Inr () \<and> view s' = view s \<and> groups s' = insert g (groups s) \<and> hosts s' = hosts s \<and> kids s' = kids s"
    and host_call: "i_add_host i n s = (r, s') \<Longrightarrow> view s' = view s \<and> groups s' = groups s \<and> kids s' = kids s
      \<and> (case n of JStr h \<Rightarrow> if h = [] then isl r \<and> hosts s' = hosts s else r = Inr () \<and> hosts s' = insert h (hosts s)
          | _ \<Rightarrow> isl r \<and> hosts s' = hosts s)"
    and variable_call: "i_set_variable i n x v s = (r, s') \<Longrightarrow> view s' = view s \<and> groups s' = groups s \<and> hosts s' = hosts s \<and> kids s' = kids s
      \<and> (\<forall>h. n = JStr h \<longrightarrow> h \<in> hosts s \<longrightarrow> r = Inr ())"
    and child_call: "i_add_child i g n s = (r, s') \<Longrightarrow> view s' = view s \<and> groups s' = groups s \<and> hosts s' = hosts s
      \<and> (\<forall>h. n = JStr h \<longrightarrow> g \<in> groups s \<longrightarrow> h \<in> hosts s \<union> groups s \<longrightarrow> r = Inr () \<and> kids s' = kids s @ [(g, n)])"
    and has_group_call: "i_has_group i g s = (there, s') \<Longrightarrow> view s' = view s \<and> groups s' = groups s \<and> hosts s' = hosts s \<and> kids s' = kids s
      \<and> there = Inr (g \<in> groups s)"
begin

text \<open>The state the proofs follow: etcd, groups, hosts and the children added.\<close>

definition at :: "store \<Rightarrow> string set \<Rightarrow> string set \<Rightarrow> (string \<times> json) set \<Rightarrow> 'w \<Rightarrow> bool" where
  "at v G H K w = (view w = v \<and> groups w = G \<and> hosts w = H \<and> set (kids w) = K)"

lemma wp_group: "at v G H K s \<Longrightarrow> (\<And>w. at v (insert g G) H K w \<Longrightarrow> Q () w) \<Longrightarrow> wp (i_add_group i g) Q E s"
  by (cases "i_add_group i g s") (auto simp: wp_def at_def dest: group_call)

lemma wp_host: "at v G H K s \<Longrightarrow> h \<noteq> [] \<Longrightarrow> (\<And>w. at v G (insert h H) K w \<Longrightarrow> Q () w) \<Longrightarrow> wp (i_add_host i (JStr h)) Q E s"
  by (cases "i_add_host i (JStr h) s") (auto simp: wp_def at_def dest: host_call)

lemma wp_no_host:
  "at v G H K s \<Longrightarrow> \<forall>h. n = JStr h \<longrightarrow> h = [] \<Longrightarrow> (\<And>x w. at v G H K w \<Longrightarrow> E x w) \<Longrightarrow> wp (i_add_host i n) Q E s"
  by (cases "i_add_host i n s"; cases n) (auto simp: wp_def at_def dest: host_call split: sum.splits)

lemma wp_variable: "at v G H K s \<Longrightarrow> h \<in> H \<Longrightarrow> (\<And>w. at v G H K w \<Longrightarrow> Q () w) \<Longrightarrow> wp (i_set_variable i (JStr h) x y) Q E s"
  by (cases "i_set_variable i (JStr h) x y s") (auto simp: wp_def at_def dest: variable_call)

lemma wp_child:
  "at v G H K s \<Longrightarrow> g \<in> G \<Longrightarrow> h \<in> H \<union> G \<Longrightarrow> (\<And>w. at v G H (insert (g, JStr h) K) w \<Longrightarrow> Q () w) \<Longrightarrow> wp (i_add_child i g (JStr h)) Q E s"
  by (cases "i_add_child i g (JStr h) s") (auto simp: wp_def at_def dest: child_call)

lemma wp_has_group: "at v G H K s \<Longrightarrow> (\<And>w. at v G H K w \<Longrightarrow> Q (g \<in> G) w) \<Longrightarrow> wp (i_has_group i g) Q E s"
  by (cases "i_has_group i g s") (auto simp: wp_def at_def dest: has_group_call)

end

section \<open>Hosts and groups\<close>

text \<open>The groups a node belongs to.\<close>

definition node_groups :: "string list \<Rightarrow> string \<Rightarrow> json \<Rightarrow> json \<Rightarrow> string set" where
  "node_groups members hostname ip node_type =
     {''all_nodes'', type_group node_type} \<union> (if core_name hostname then {''core''} else {})
     \<union> (if ip \<in> set (map JStr members) then {''etcd''} else {})"

text \<open>What a document of the registry gives Ansible.\<close>

fun alloc_kids :: "string list \<Rightarrow> blob \<Rightarrow> (string \<times> json) set" where
  "alloc_kids members (Doc d) =
     (case (map_of d ''hostname'', map_of d ''ip'', map_of d ''type'', map_of d ''mac'') of
        (Some (JStr h), Some ip, Some node_type, Some _) \<Rightarrow>
          if h \<noteq> [] \<and> targeted h d then (\<lambda>g. (g, JStr h)) ` node_groups members h ip node_type else {}
      | _ \<Rightarrow> {})"
| "alloc_kids members _ = {}"

fun front_kids :: "blob \<Rightarrow> (string \<times> json) set" where
  "front_kids (Doc d) =
     (case map_of d ''name'' of
        Some (JStr n) \<Rightarrow> if n \<noteq> [] \<and> (otruthy (map_of d ''ip'') \<or> otruthy (map_of d ''hostname'')) then {(''frontend'', JStr n)} else {}
      | _ \<Rightarrow> {})"
| "front_kids _ = {}"

context ansible_env
begin

definition grown :: "store \<Rightarrow> (string \<times> json) set \<Rightarrow> 'w \<Rightarrow> bool" where
  "grown v K w = (\<exists>G H. set base_groups \<subseteq> G \<and> at v G H K w)"

lemma grownI: "at v G H K w \<Longrightarrow> set base_groups \<subseteq> G \<Longrightarrow> K = K' \<Longrightarrow> grown v K' w"
  by (auto simp: grown_def)

lemma wp_type:
  assumes "at v G H K s" "set base_groups \<subseteq> G" "h \<in> H"
    and "\<And>w G'. at v G' H (insert (type_group t, JStr h) K) w \<Longrightarrow> set base_groups \<subseteq> G' \<Longrightarrow> Q () w"
  shows "wp (add_to_type i t h) Q E s"
proof (cases "type_group t \<in> {''macos'', ''other''}")
  case True
  have child: "wp (i_add_child i (type_group t) (JStr h)) Q E w" if "at v (insert (type_group t) G) H K w" for w
    by (rule wp_child [OF that]) (use assms in auto)
  have "wp (py_when (\<not> there) (i_add_group i (type_group t))) (\<lambda>_. wp (i_add_child i (type_group t) (JStr h)) Q E) E w"
    if "at v G H K w" "there = (type_group t \<in> G)" for w there
    using that by (auto simp: wp_when insert_absorb intro: wp_group [OF that(1)] child)
  then show ?thesis unfolding add_to_type_def Let_def
    using True by (auto simp: wp_bind wp_seq intro: wp_has_group [OF assms(1)])
next
  case False
  then have "type_group t \<in> G" using assms(2) by (auto simp: type_group_def base_groups_def split: json.splits if_splits)
  then show ?thesis using False assms by (auto simp: add_to_type_def intro: wp_child [OF assms(1)])
qed

lemma wp_add_node:
  assumes s: "at v G H K s" "set base_groups \<subseteq> G" and h: "h \<noteq> []"
  shows "wp (add_node i members leader h ip t mac) (\<lambda>_. grown v (K \<union> (\<lambda>g. (g, JStr h)) ` node_groups members h ip t))
      (\<lambda>_. grown v (K \<union> (\<lambda>g. (g, JStr h)) ` node_groups members h ip t)) s"
proof -
  let ?H = "insert h H" and ?J = "JStr h" and ?N = "K \<union> (\<lambda>g. (g, JStr h)) ` node_groups members h ip t"
  have etcd: "wp (if \<not> hashable ip then py_raise TypeError else py_when (ip \<in> set (map JStr members)) (i_add_child i ''etcd'' ?J))
      (\<lambda>_. grown v ?N) (\<lambda>_. grown v ?N) w"
    if "at v G' ?H K' w" "set base_groups \<subseteq> G'"
      "K' = K \<union> (\<lambda>g. (g, ?J)) ` ({''all_nodes'', type_group t} \<union> (if core_name h then {''core''} else {}))" for G' K' w
  proof (cases "ip \<in> set (map JStr members)")
    case True
    then have "hashable ip" by auto
    have "''etcd'' \<in> G'" using that(2) by (auto simp: base_groups_def)
    then have "wp (i_add_child i ''etcd'' ?J) (\<lambda>_. grown v ?N) (\<lambda>_. grown v ?N) w"
      by (rule wp_child [OF that(1)]) (use that(2,3) True in \<open>auto simp: node_groups_def intro: grownI\<close>)
    then show ?thesis using True \<open>hashable ip\<close> by (simp add: wp_when)
  next
    case False
    then have "grown v ?N w" using that by (auto simp: node_groups_def intro: grownI)
    then show ?thesis using False by (simp add: wp_when wp_raise)
  qed
  have core: "wp (py_when (core_name h) (i_add_child i ''core'' ?J)) (\<lambda>_. wp (if \<not> hashable ip then py_raise TypeError
      else py_when (ip \<in> set (map JStr members)) (i_add_child i ''etcd'' ?J)) (\<lambda>_. grown v ?N) (\<lambda>_. grown v ?N)) (\<lambda>_. grown v ?N) w"
    if w: "at v G' ?H (insert (type_group t, ?J) (insert (''all_nodes'', ?J) K)) w" "set base_groups \<subseteq> G'" for G' w
  proof (cases "core_name h")
    case True
    have "''core'' \<in> G'" using w(2) by (auto simp: base_groups_def)
    then have "wp (i_add_child i ''core'' ?J) (\<lambda>_. wp (if \<not> hashable ip then py_raise TypeError
        else py_when (ip \<in> set (map JStr members)) (i_add_child i ''etcd'' ?J)) (\<lambda>_. grown v ?N) (\<lambda>_. grown v ?N)) (\<lambda>_. grown v ?N) w"
      by (rule wp_child [OF w(1)]) (simp, erule etcd [OF _ w(2)], use True in auto)
    with True show ?thesis by (simp add: wp_when)
  next
    case False
    then have "wp (if \<not> hashable ip then py_raise TypeError else py_when (ip \<in> set (map JStr members)) (i_add_child i ''etcd'' ?J))
        (\<lambda>_. grown v ?N) (\<lambda>_. grown v ?N) w" by (intro etcd [OF w]) auto
    with False show ?thesis by (simp add: wp_when)
  qed
  show ?thesis
    unfolding add_node_def wp_seq
    by (rule wp_host [OF s(1) h], (erule wp_variable, simp)+, erule wp_child, use s(2) in \<open>simp add: base_groups_def\<close>, simp,
        erule wp_type, rule s(2), simp, rule core)
qed

lemma wp_allocation:
  assumes "grown v K s"
  shows "wp (add_allocation i members leader (k, b)) (\<lambda>_. grown v (K \<union> alloc_kids members b)) E s"
proof (cases b)
  case (Doc d)
  obtain G H where s: "set base_groups \<subseteq> G" "at v G H K s" using assms by (auto simp: grown_def)
  have empty: "wp (add_node i members leader [] ip t mac) (\<lambda>_. grown v K) (\<lambda>_. grown v K) s" for ip t mac
    unfolding add_node_def wp_seq by (rule wp_no_host [OF s(2)]) (use s(1) in \<open>auto intro: grownI\<close>)
  show ?thesis
    unfolding add_allocation_def wp_ignore wp_bind wp_lift Doc
    using assms wp_add_node [OF s(2,1)] empty
    by (auto simp: wp_simps dict_item_def str_attr_def split: option.splits json.splits)
qed (use assms in \<open>auto simp: add_allocation_def wp_simps\<close>)

end

context ansible_env
begin

lemma wp_for_grown:
  assumes "\<And>x K s. grown v K s \<Longrightarrow> wp (f x) (\<lambda>_. grown v (K \<union> F x)) E s" and "grown v K s"
  shows "wp (py_for xs f) (\<lambda>_. grown v (K \<union> \<Union> (F ` set xs))) E s"
  using assms(2)
proof (induction xs arbitrary: K s)
  case (Cons x xs)
  show ?case unfolding wp_for_Cons
    by (rule wp_mono [OF assms(1) [OF Cons.prems]]) (use Cons.IH [of "K \<union> F x"] in \<open>auto simp: Un_assoc\<close>)
qed (simp add: wp_simps)

lemma wp_for_variables:
  assumes "at v G H K s" "h \<in> H" "\<And>w. at v G H K w \<Longrightarrow> Q () w"
  shows "wp (py_for vs (\<lambda>(k, x). i_set_variable i (JStr h) k x)) Q E s"
  using assms(1) by (induction vs arbitrary: s) (auto simp: wp_simps intro: assms(3) wp_variable [OF _ assms(2)])

lemma wp_frontend:
  assumes "grown v K s" shows "wp (add_frontend i (k, b)) (\<lambda>_. grown v (K \<union> front_kids b)) E s"
proof (cases b)
  case (Doc d)
  obtain G H where s: "set base_groups \<subseteq> G" "at v G H K s" using assms by (auto simp: grown_def)
  let ?call = "\<lambda>n a. py_seq (i_add_host i n) (py_seq (i_set_variable i n ''ansible_host'' a)
      (py_seq (i_set_variable i n ''node_type'' (JStr ''frontend'')) (py_seq (py_for (frontend_vars d) (\<lambda>(k, x). i_set_variable i n k x))
      (py_seq (i_set_variable i n ''storage_leader'' (JBool False)) (i_add_child i ''frontend'' n)))))"
  have no: "wp (?call n a) (\<lambda>_. Q) (\<lambda>_. grown v K) s" if "\<forall>h. n = JStr h \<longrightarrow> h = []" for n a Q
    unfolding wp_seq by (rule wp_no_host [OF s(2) that]) (use s(1) in \<open>auto intro: grownI\<close>)
  have yes: "wp (?call (JStr h) a) (\<lambda>_. grown v (insert (''frontend'', JStr h) K)) E' s" if "h \<noteq> []" for h a E'
    unfolding wp_seq
    by (rule wp_host [OF s(2) that], (erule wp_variable, simp)+, erule wp_for_variables, simp, erule wp_variable, simp, erule wp_child)
      (use s(1) in \<open>auto simp: base_groups_def intro!: grownI\<close>)
  let ?address = "if otruthy (map_of d ''ip'') then map_of d ''ip'' else map_of d ''hostname''"
  have body: "wp (if otruthy (map_of d ''name'') \<and> otruthy ?address then ?call (the (map_of d ''name'')) (the ?address) else py_return ())
      (\<lambda>_. grown v (K \<union> front_kids b)) (\<lambda>_. grown v (K \<union> front_kids b)) s"
  proof (cases "otruthy (map_of d ''name'') \<and> otruthy ?address")
    case True
    then obtain j where name: "map_of d ''name'' = Some j" and j: "truthy j" by (auto simp: otruthy_def split: option.splits)
    show ?thesis
    proof (cases "\<exists>h. j = JStr h")
      case True
      then obtain h where h: "j = JStr h" by blast
      then have "K \<union> front_kids b = insert (''frontend'', JStr h) K" "h \<noteq> []"
        using Doc name j \<open>otruthy (map_of d ''name'') \<and> otruthy ?address\<close> by (auto split: if_splits)
      with yes [of h] h name \<open>otruthy (map_of d ''name'') \<and> otruthy ?address\<close> show ?thesis by simp
    next
      case False
      then have "K \<union> front_kids b = K" using Doc name by (auto split: json.splits)
      with no [of j] False name \<open>otruthy (map_of d ''name'') \<and> otruthy ?address\<close> show ?thesis by simp
    qed
  next
    case False
    then have "K \<union> front_kids b = K" using Doc by (auto simp: otruthy_def split: option.splits json.splits if_splits)
    with False assms show ?thesis by (simp only: if_False wp_return)
  qed
  show ?thesis
    unfolding add_frontend_def snd_conv Doc wp_ignore wp_bind wp_lift
    using body Doc by (simp add: wp_simps Let_def)
qed (use assms in \<open>auto simp: add_frontend_def wp_simps\<close>)

end

text \<open>The members in the answer of etcd: the host part of a peer URL (between the first \<open>://\<close> and the next colon), as long as
  every URL before it has a scheme; no member when etcd cannot tell.\<close>

definition url_host :: "string \<Rightarrow> string \<Rightarrow> bool" where
  "url_host url a = (\<exists>x rest. url = x @ ''://'' @ a @ rest \<and> CHR '':'' \<notin> set a \<and> (rest = [] \<or> hd rest = CHR '':'')
     \<and> (\<forall>x' y'. url = x' @ ''://'' @ y' \<longrightarrow> length x \<le> length x'))"

definition member_of :: "exn + string list list \<Rightarrow> string \<Rightarrow> bool" where
  "member_of reply a = (\<exists>ms before url after. reply = Inr ms \<and> concat ms = before @ url # after
     \<and> (\<forall>u \<in> set before. \<exists>x y. u = x @ ''://'' @ y) \<and> url_host url a)"

lemma after_scheme_None: "after_scheme u = None \<longleftrightarrow> \<not> (\<exists>x y. u = x @ ''://'' @ y)"
proof (induction u)
  case (Cons c cs)
  have "(\<exists>x y. c # cs = x @ ''://'' @ y) \<longleftrightarrow> startswith (c # cs) ''://'' \<or> (\<exists>x y. cs = x @ ''://'' @ y)"
    unfolding startswith_iff by (auto simp: Cons_eq_append_conv)
  with Cons show ?case by simp
qed simp

lemma after_scheme_first:
  "after_scheme u = Some rest \<Longrightarrow> \<exists>x. u = x @ ''://'' @ rest \<and> (\<forall>x' y'. u = x' @ ''://'' @ y' \<longrightarrow> length x \<le> length x')"
proof (induction u)
  case (Cons c cs)
  show ?case
  proof (cases "startswith (c # cs) ''://''")
    case True
    with Cons.prems show ?thesis by (intro exI [of _ "[]"]) (auto simp: startswith_iff)
  next
    case False
    with Cons.prems have "after_scheme cs = Some rest" by simp
    from Cons.IH [OF this] obtain x where x: "cs = x @ ''://'' @ rest" "\<And>x' y'. cs = x' @ ''://'' @ y' \<Longrightarrow> length x \<le> length x'" by blast
    have "length (c # x) \<le> length x'" if "c # cs = x' @ ''://'' @ y'" for x' y'
      using that False x(2) by (cases x') (auto simp: startswith_iff)
    with x(1) show ?thesis by (intro exI [of _ "c # x"]) auto
  qed
qed simp

lemma takeWhile_host: "takeWhile (\<lambda>c. c \<noteq> k) t = a \<longleftrightarrow> k \<notin> set a \<and> (\<exists>rest. t = a @ rest \<and> (rest = [] \<or> hd rest = k))"
proof
  assume a: "takeWhile (\<lambda>c. c \<noteq> k) t = a"
  then have "k \<notin> set a" by (auto dest: set_takeWhileD)
  moreover have "t = a @ dropWhile (\<lambda>c. c \<noteq> k) t" using a takeWhile_dropWhile_id [of "\<lambda>c. c \<noteq> k" t] by simp
  moreover have "dropWhile (\<lambda>c. c \<noteq> k) t = [] \<or> hd (dropWhile (\<lambda>c. c \<noteq> k) t) = k"
    using hd_dropWhile [of "\<lambda>c. c \<noteq> k" t] by blast
  ultimately show "k \<notin> set a \<and> (\<exists>rest. t = a @ rest \<and> (rest = [] \<or> hd rest = k))" by blast
next
  assume "k \<notin> set a \<and> (\<exists>rest. t = a @ rest \<and> (rest = [] \<or> hd rest = k))"
  then obtain rest where "k \<notin> set a" "t = a @ rest" "rest = [] \<or> hd rest = k" by blast
  then show "takeWhile (\<lambda>c. c \<noteq> k) t = a"
    by (cases rest) (auto simp: takeWhile_append takeWhile_eq_all_conv [THEN iffD2])
qed

lemma url_host_iff: "url_host u a \<longleftrightarrow> (\<exists>rest. after_scheme u = Some rest \<and> takeWhile (\<lambda>c. c \<noteq> CHR '':'') rest = a)"
proof (cases "after_scheme u")
  case None
  then have "\<not> url_host u a" unfolding url_host_def after_scheme_None by blast
  with None show ?thesis by simp
next
  case (Some t)
  from after_scheme_first [OF Some] obtain x where x: "u = x @ ''://'' @ t" "\<And>x' y'. u = x' @ ''://'' @ y' \<Longrightarrow> length x \<le> length x'" by blast
  have "url_host u a \<longleftrightarrow> CHR '':'' \<notin> set a \<and> (\<exists>rest. t = a @ rest \<and> (rest = [] \<or> hd rest = CHR '':''))" (is "_ = ?R")
  proof (intro iffI)
    assume "url_host u a"
    then obtain x' rest where h: "u = x' @ ''://'' @ a @ rest" "CHR '':'' \<notin> set a" "rest = [] \<or> hd rest = CHR '':''"
      "\<And>x1 y1. u = x1 @ ''://'' @ y1 \<Longrightarrow> length x' \<le> length x1" unfolding url_host_def by blast
    have "length x' = length x" using x(2) [OF h(1)] h(4) [OF x(1)] by simp
    with x(1) h(1) have "t = a @ rest" by (simp add: append_eq_append_conv)
    with h(2,3) show ?R by blast
  next
    assume ?R
    then obtain rest where "CHR '':'' \<notin> set a" "t = a @ rest" "rest = [] \<or> hd rest = CHR '':''" by blast
    with x show "url_host u a" unfolding url_host_def by (intro exI [of _ x] exI [of _ rest]) simp
  qed
  with Some show ?thesis unfolding takeWhile_host by simp
qed

lemma member_hosts_iff:
  "a \<in> set (member_hosts us) \<longleftrightarrow> (\<exists>before url after. us = before @ url # after \<and> (\<forall>u \<in> set before. \<exists>x y. u = x @ ''://'' @ y) \<and> url_host url a)"
proof (induction us)
  case (Cons u us)
  have "(\<exists>before url after. u # us = before @ url # after \<and> (\<forall>u \<in> set before. \<exists>x y. u = x @ ''://'' @ y) \<and> url_host url a)
    \<longleftrightarrow> url_host u a \<or> (\<exists>x y. u = x @ ''://'' @ y)
      \<and> (\<exists>before url after. us = before @ url # after \<and> (\<forall>u \<in> set before. \<exists>x y. u = x @ ''://'' @ y) \<and> url_host url a)" (is "?L \<longleftrightarrow> ?R")
  proof
    assume ?L
    then obtain b url af where b: "u # us = b @ url # af" "\<forall>u \<in> set b. \<exists>x y. u = x @ ''://'' @ y" "url_host url a" by blast
    then show ?R by (cases b) auto
  next
    assume R: ?R
    show ?L
    proof (cases "url_host u a")
      case True
      then show ?thesis by (intro exI [of _ "[]"] exI [of _ u] exI [of _ us]) simp
    next
      case False
      with R obtain b url af where "us = b @ url # af" "\<forall>u \<in> set (u # b). \<exists>x y. u = x @ ''://'' @ y" "url_host url a" by auto
      then show ?thesis by (intro exI [of _ "u # b"] exI [of _ url] exI [of _ af]) simp
    qed
  qed
  moreover have "a \<in> set (member_hosts (u # us)) \<longleftrightarrow> url_host u a \<or> (\<exists>x y. u = x @ ''://'' @ y) \<and> a \<in> set (member_hosts us)"
    using after_scheme_None [of u] by (cases "after_scheme u") (auto simp: url_host_iff)
  ultimately show ?case using Cons.IH by simp
qed simp

definition subgroups :: "(string \<times> json) set" where
  "subgroups = {(''compute'', JStr ''nvidia''), (''managed'', JStr ''storage''), (''managed'', JStr ''compute''),
     (''managed'', JStr ''adhoc''), (''managed'', JStr ''nas'')}"

context ansible_env
begin

lemma wp_for_groups:
  "at v G H K s \<Longrightarrow> wp (py_for gs (i_add_group i)) (\<lambda>_. at v (G \<union> set gs) H K) E s"
proof (induction gs arbitrary: G s)
  case (Cons g gs)
  show ?case unfolding wp_for_Cons
    by (rule wp_group [OF Cons.prems]) (use Cons.IH [of "insert g G"] in simp)
qed (simp add: wp_simps)

lemma wp_create_groups:
  assumes "at v G H K s" shows "wp (create_groups i) (\<lambda>_. grown v (K \<union> subgroups)) E s"
proof -
  have child: "wp (case x of (g, c) \<Rightarrow> i_add_child i g (JStr c)) (\<lambda>_. grown v (K \<union> {case x of (g, c) \<Rightarrow> (g, JStr c)})) E w"
    if old: "grown v K w" and ends: "fst x \<in> set base_groups" "snd x \<in> set base_groups" for K x w
  proof -
    obtain G H where w: "set base_groups \<subseteq> G" "at v G H K w" using old by (auto simp: grown_def)
    obtain g c where x: "x = (g, c)" by (cases x)
    have "wp (i_add_child i g (JStr c)) (\<lambda>_. grown v (insert (g, JStr c) K)) E w"
      by (rule wp_child [OF w(2)]) (use ends w(1) x in \<open>auto intro: grownI\<close>)
    then show ?thesis by (simp add: x)
  qed
  have kids: "wp (py_for xs (\<lambda>(g, c). i_add_child i g (JStr c))) (\<lambda>_. grown v (K \<union> (\<lambda>(g, c). (g, JStr c)) ` set xs)) E w"
    if "grown v K w" "\<forall>x \<in> set xs. fst x \<in> set base_groups \<and> snd x \<in> set base_groups" for K xs w
    using that
  proof (induction xs arbitrary: K w)
    case (Cons x xs)
    show ?case unfolding wp_for_Cons
      by (rule wp_mono [OF child [OF Cons.prems(1)]]) (use Cons.IH [of "K \<union> {case x of (g, c) \<Rightarrow> (g, JStr c)}"] Cons.prems in auto)
  qed (simp add: wp_simps)
  show ?thesis unfolding create_groups_def wp_seq
    by (rule wp_mono [OF wp_for_groups [OF assms]], drule grownI [OF _ _ refl], simp, rule wp_mono [OF kids], assumption)
      (auto simp: base_groups_def subgroups_def)
qed

lemma wp_members:
  assumes "grown v K s"
  shows "wp (etcd_members i) (\<lambda>ms w. grown v K w \<and> (\<forall>a. a \<in> set ms \<longleftrightarrow> member_of (fst (i_members i s)) a)) E s"
proof -
  obtain rm s1 where run: "i_members i s = (rm, s1)" by fastforce
  with assms leavesD [OF members_leaves run] have "grown v K s1" by (simp add: grown_def at_def)
  with run show ?thesis
    unfolding etcd_members_def wp_try wp_bind wp_return by (cases rm) (simp_all add: wp_def member_of_def member_hosts_iff wp_return)
qed

lemma wp_leader: "grown v K s \<Longrightarrow> wp (storage_leader e decode) (\<lambda>_. grown v K) (\<lambda>_ _. True) s"
  unfolding storage_leader_def wp_bind wp_return
  by (cases "e_get e ''/cluster/leader/app'' s")
    (use leavesD [OF etcd_inventory(1)] in \<open>fastforce simp: wp_def grown_def at_def dest: get_view split: sum.splits\<close>)

lemma wp_listing: "grown v K s \<Longrightarrow> wp (e_get_prefix e p) (\<lambda>xs w. grown v K w \<and> prefix_list v p xs) (\<lambda>_ _. True) s"
  by (cases "e_get_prefix e p s")
    (use leavesD [OF etcd_inventory(2)] in \<open>fastforce simp: wp_def grown_def at_def dest: prefix_view split: sum.splits\<close>)

lemma wp_populate_nodes:
  assumes "grown v K s"
  shows "wp (py_bind (etcd_members i) (\<lambda>members. py_bind (storage_leader e decode) (\<lambda>leader.
      py_bind (e_get_prefix e (prefix @ ''/by-hostname/'')) (\<lambda>allocs. py_seq (py_for allocs (add_allocation i members leader))
      (py_bind (e_get_prefix e (prefix @ ''/frontend'')) (\<lambda>fronts. py_for fronts (add_frontend i)))))))
    (\<lambda>_ w. \<exists>members. (\<forall>a. a \<in> set members \<longleftrightarrow> member_of (fst (i_members i s)) a) \<and> grown v (K
      \<union> \<Union> {alloc_kids members b |k b n. startswith k (prefix @ ''/by-hostname/'') \<and> v k = Some (b, n)}
      \<union> \<Union> {front_kids b |k b n. startswith k (prefix @ ''/frontend'') \<and> v k = Some (b, n)}) w) (\<lambda>_ _. True) s"
proof -
  have union: "\<Union> ((\<lambda>x. F (snd x)) ` set xs) = \<Union> {F b |k b n. startswith k p \<and> v k = Some (b, n)}" if "prefix_list v p xs"
    for F :: "blob \<Rightarrow> (string \<times> json) set" and xs p
    using prefix_listD [OF that] by (auto simp: Bex_def) (metis, metis snd_conv)
  have allocs: "wp (py_for xs (add_allocation i members leader)) (\<lambda>_. grown v (K \<union> \<Union> ((\<lambda>x. alloc_kids members (snd x)) ` set xs))) (\<lambda>_ _. True) w"
    if "grown v K w" for xs members leader K w
    by (rule wp_for_grown [OF _ that]) (metis prod.collapse wp_allocation)
  have fronts: "wp (py_for xs (add_frontend i)) (\<lambda>_. grown v (K \<union> \<Union> ((\<lambda>x. front_kids (snd x)) ` set xs))) (\<lambda>_ _. True) w"
    if "grown v K w" for xs K w
    by (rule wp_for_grown [OF _ that]) (metis prod.collapse wp_frontend)
  show ?thesis
    unfolding wp_seq wp_bind
    by (rule wp_mono [OF wp_members [OF assms]], elim conjE, rule wp_mono [OF wp_leader], assumption,
        rule wp_mono [OF wp_listing], assumption, elim conjE, rule wp_mono [OF allocs], assumption, rule wp_mono [OF wp_listing], assumption,
        elim conjE, rule wp_mono [OF fronts], assumption) (auto simp: union)
qed

text \<open>The members are those that etcd tells right after the groups are created.\<close>

lemma populate_run:
  assumes s: "at v G H K s" and run: "populate e i decode prefix s = (Inr (), s')"
  shows "\<exists>members. (\<forall>a. a \<in> set members \<longleftrightarrow> member_of (fst (i_members i (snd (create_groups i s)))) a) \<and> grown v (K \<union> subgroups
      \<union> \<Union> {alloc_kids members b |k b n. startswith k (prefix @ ''/by-hostname/'') \<and> v k = Some (b, n)}
      \<union> \<Union> {front_kids b |k b n. startswith k (prefix @ ''/frontend'') \<and> v k = Some (b, n)}) s'"
proof -
  obtain r0 s0 where created: "create_groups i s = (r0, s0)" by fastforce
  with wp_create_groups [OF s, of "\<lambda>_ _. False"] have g: "r0 = Inr ()" "grown v (K \<union> subgroups) s0"
    by (auto simp: wp_def split: sum.splits)
  from wp_populate_nodes [OF g(2), of decode prefix] run show ?thesis
    unfolding populate_def py_seq_def [of "create_groups i"] py_bind_def [of "create_groups i"] created g(1) by (simp add: wp_def)
qed

lemma wp_try_hosts:
  assumes "\<And>h p. leaves (\<lambda>w. (view w, groups w, hosts w, kids w)) (connect h p)" and "at v G H K s"
  shows "wp (try_hosts connect items) (\<lambda>_. at v G H K) (\<lambda>_ _. False) s"
  using assms(2)
proof (induction items arbitrary: s)
  case (Cons hp items)
  have "wp (connect h p) (\<lambda>_. at v G H K) (\<lambda>_. wp (try_hosts connect items) (\<lambda>_. at v G H K) (\<lambda>_ _. False)) s" for h p
  proof (rule wp_leaves [OF assms(1)])
    fix x s' assume "(view s', groups s', hosts s', kids s') = (view s, groups s, hosts s, kids s)"
    with Cons.prems have "at v G H K s'" by (simp add: at_def)
    then show "at v G H K s'" "wp (try_hosts connect items) (\<lambda>_. at v G H K) (\<lambda>_ _. False) s'" by (simp_all add: Cons.IH)
  qed
  with Cons show ?case by (auto simp: wp_simps split: option.splits prod.splits)
qed (simp add: wp_simps)

end

section \<open>An inventory in memory\<close>

record aworld =
  aw_kv :: mem
  aw_groups :: "string list"
  aw_hosts :: "string list"
  aw_kids :: "(string \<times> json) list"

abbreviation aw_etcd :: "aworld etcd3" where
  "aw_etcd \<equiv> zoom_etcd aw_kv (\<lambda>k w. w\<lparr>aw_kv := k\<rparr>)"

abbreviation aw_view :: "aworld \<Rightarrow> store" where
  "aw_view \<equiv> \<lambda>w. mem_view (aw_kv w)"

fun aw_add_host :: "json \<Rightarrow> (aworld, unit) py" where
  "aw_add_host (JStr (c # cs)) = py_modify (\<lambda>w. w\<lparr>aw_hosts := (c # cs) # aw_hosts w\<rparr>)"
| "aw_add_host _ = py_raise TypeError"

definition aw_known :: "aworld \<Rightarrow> json \<Rightarrow> bool" where
  "aw_known w n = (n \<in> set (map JStr (aw_hosts w @ aw_groups w)))"

definition aw_inv :: "aworld ansible" where
  "aw_inv = \<lparr>i_add_group = (\<lambda>g. py_modify (\<lambda>w. w\<lparr>aw_groups := g # aw_groups w\<rparr>)), i_add_host = aw_add_host,
     i_set_variable = (\<lambda>n k v w. if aw_known w n then (Inr (), w) else (Inl (KeyError k), w)),
     i_add_child = (\<lambda>g n w. if g \<in> set (aw_groups w) \<and> aw_known w n then (Inr (), w\<lparr>aw_kids := aw_kids w @ [(g, n)]\<rparr>) else (Inl (KeyError g), w)),
     i_has_group = (\<lambda>g. py_get (\<lambda>w. g \<in> set (aw_groups w))), i_members = py_return [[''http://10.0.0.11:2380'']]\<rparr>"

interpretation awkv: mem_part aw_kv "\<lambda>k w. w\<lparr>aw_kv := k\<rparr>"
  by unfold_locales simp

interpretation awi: ansible_env aw_etcd aw_view aw_inv "\<lambda>w. set (aw_groups w)" "\<lambda>w. set (aw_hosts w)" aw_kids
proof unfold_locales
  show "i_add_host aw_inv n s = (r, s') \<Longrightarrow> aw_view s' = aw_view s \<and> set (aw_groups s') = set (aw_groups s) \<and> aw_kids s' = aw_kids s
      \<and> (case n of JStr h \<Rightarrow> if h = [] then isl r \<and> set (aw_hosts s') = set (aw_hosts s) else r = Inr () \<and> set (aw_hosts s') = insert h (set (aw_hosts s))
          | _ \<Rightarrow> isl r \<and> set (aw_hosts s') = set (aw_hosts s))" for n s r s'
    by (cases n rule: aw_add_host.cases) (auto simp: aw_inv_def py_modify_def py_raise_def)
qed (auto simp: leaves_zoom_etcd, auto simp: leaves_def aw_inv_def aw_known_def py_return_def py_get_def py_modify_def split: if_splits)

section \<open>The groups are those of the registry\<close>

lemma alloc_kids_iff:
  "x \<in> alloc_kids members b \<longleftrightarrow> (\<exists>d g h ip t. b = Doc d \<and> x = (g, JStr h) \<and> map_of d ''hostname'' = Some (JStr h)
      \<and> map_of d ''ip'' = Some ip \<and> map_of d ''type'' = Some t \<and> map_of d ''mac'' \<noteq> None \<and> h \<noteq> [] \<and> targeted h d \<and> g \<in> node_groups members h ip t)"
  by (cases b) (auto split: option.splits json.splits)

lemma front_kids_iff:
  "x \<in> front_kids b \<longleftrightarrow> (\<exists>d h. b = Doc d \<and> x = (''frontend'', JStr h) \<and> map_of d ''name'' = Some (JStr h) \<and> h \<noteq> []
      \<and> (otruthy (map_of d ''ip'') \<or> otruthy (map_of d ''hostname'')))"
  by (cases b) (auto split: option.splits json.splits)

text \<open>The groups a host belongs to, as a table over the type of its document, its name and whether its address is a member's.\<close>

definition typed_groups :: "(string \<times> string) set" where
  "typed_groups = {(''storage'', ''storage''), (''compute'', ''compute''), (''macos'', ''macos''), (''nas'', ''nas''),
     (''nvidia'', ''nvidia''), (''adhoc'', ''adhoc'')}"

definition belongs :: "(string \<Rightarrow> bool) \<Rightarrow> string \<Rightarrow> json \<Rightarrow> json \<Rightarrow> string \<Rightarrow> bool" where
  "belongs member h ip t g = (g = ''all_nodes''
     \<or> (\<exists>ty. t = JStr ty \<and> (ty, g) \<in> typed_groups)
     \<or> g = ''other'' \<and> \<not> (\<exists>ty g'. t = JStr ty \<and> (ty, g') \<in> typed_groups)
     \<or> g = ''core'' \<and> (\<exists>ds. h = CHR ''s'' # ds \<and> ds \<noteq> [] \<and> list_all is_digit ds)
     \<or> g = ''etcd'' \<and> (\<exists>a. ip = JStr a \<and> member a))"

lemma type_group_table:
  "g = type_group t \<longleftrightarrow> (\<exists>ty. t = JStr ty \<and> (ty, g) \<in> typed_groups) \<or> g = ''other'' \<and> \<not> (\<exists>ty g'. t = JStr ty \<and> (ty, g') \<in> typed_groups)"
proof (cases t)
  case (JStr ty)
  then show ?thesis by (auto simp: type_group_def typed_groups_def)
qed (auto simp: type_group_def)

lemma core_name_iff: "core_name h \<longleftrightarrow> (\<exists>ds. h = CHR ''s'' # ds \<and> ds \<noteq> [] \<and> list_all is_digit ds)"
  by (auto simp: core_name_def startswith_iff isdigit_def)

lemma node_groups_iff:
  assumes "\<forall>a. a \<in> set members \<longleftrightarrow> member a"
  shows "g \<in> node_groups members h ip t \<longleftrightarrow> belongs member h ip t g"
proof -
  have "g \<in> node_groups members h ip t \<longleftrightarrow> g = ''all_nodes'' \<or> g = type_group t \<or> g = ''core'' \<and> core_name h
      \<or> g = ''etcd'' \<and> (\<exists>a. ip = JStr a \<and> member a)"
    by (auto simp: node_groups_def image_iff assms)
  then show ?thesis unfolding belongs_def core_name_iff type_group_table by blast
qed

lemma populate_groups:
  assumes env: "ansible_env e view i groups hosts kids" and run: "populate e i decode prefix s = (Inr (), s')"
  shows "(\<forall>g h. (g, JStr h) \<in> set (kids s') \<longleftrightarrow> (g, JStr h) \<in> set (kids s) \<or> (g, JStr h) \<in> subgroups
    \<or> (\<exists>k d n ip t. startswith k (prefix @ ''/by-hostname/'') \<and> view s k = Some (Doc d, n) \<and> map_of d ''hostname'' = Some (JStr h)
         \<and> map_of d ''ip'' = Some ip \<and> map_of d ''type'' = Some t \<and> map_of d ''mac'' \<noteq> None \<and> h \<noteq> []
         \<and> \<not> endswith h ''a'' \<and> \<not> startswith h ''dhcp-'' \<and> \<not> otruthy (map_of d ''disabled'')
         \<and> belongs (member_of (fst (i_members i (snd (create_groups i s))))) h ip t g)
    \<or> g = ''frontend'' \<and> (\<exists>k d n. startswith k (prefix @ ''/frontend'') \<and> view s k = Some (Doc d, n) \<and> map_of d ''name'' = Some (JStr h)
         \<and> h \<noteq> [] \<and> (otruthy (map_of d ''ip'') \<or> otruthy (map_of d ''hostname''))))"
proof -
  let ?member = "member_of (fst (i_members i (snd (create_groups i s))))"
  have "ansible_env.at view groups hosts kids (view s) (groups s) (hosts s) (set (kids s)) s" by (simp add: ansible_env.at_def [OF env])
  from ansible_env.populate_run [OF env this run] obtain members where members: "\<forall>a. a \<in> set members \<longleftrightarrow> ?member a" and
    "set (kids s') = set (kids s) \<union> subgroups
      \<union> \<Union> {alloc_kids members b |k b n. startswith k (prefix @ ''/by-hostname/'') \<and> view s k = Some (b, n)}
      \<union> \<Union> {front_kids b |k b n. startswith k (prefix @ ''/frontend'') \<and> view s k = Some (b, n)}"
    by (auto simp: ansible_env.grown_def [OF env] ansible_env.at_def [OF env])
  moreover have mem: "x \<in> \<Union> {F b |k b n. startswith k p \<and> view s k = Some (b, n)} \<longleftrightarrow> (\<exists>k b n. startswith k p \<and> view s k = Some (b, n) \<and> x \<in> F b)"
    for x :: "string \<times> json" and F :: "blob \<Rightarrow> (string \<times> json) set" and p by blast
  ultimately have "(g, JStr h) \<in> set (kids s') \<longleftrightarrow> (g, JStr h) \<in> set (kids s) \<or> (g, JStr h) \<in> subgroups
      \<or> (\<exists>k b n. startswith k (prefix @ ''/by-hostname/'') \<and> view s k = Some (b, n) \<and> (g, JStr h) \<in> alloc_kids members b)
      \<or> (\<exists>k b n. startswith k (prefix @ ''/frontend'') \<and> view s k = Some (b, n) \<and> (g, JStr h) \<in> front_kids b)" for g h
    by (simp only: Un_iff mem disj_assoc)
  moreover have "(\<exists>k b n. startswith k p \<and> view s k = Some (b, n) \<and> (g, JStr h) \<in> alloc_kids members b)
      \<longleftrightarrow> (\<exists>k d n ip t. startswith k p \<and> view s k = Some (Doc d, n) \<and> map_of d ''hostname'' = Some (JStr h)
         \<and> map_of d ''ip'' = Some ip \<and> map_of d ''type'' = Some t \<and> map_of d ''mac'' \<noteq> None \<and> h \<noteq> []
         \<and> \<not> endswith h ''a'' \<and> \<not> startswith h ''dhcp-'' \<and> \<not> otruthy (map_of d ''disabled'') \<and> belongs ?member h ip t g)" for p g h
    unfolding alloc_kids_iff targeted_def node_groups_iff [OF members] by blast
  moreover have "(\<exists>k b n. startswith k p \<and> view s k = Some (b, n) \<and> (g, JStr h) \<in> front_kids b)
      \<longleftrightarrow> g = ''frontend'' \<and> (\<exists>k d n. startswith k p \<and> view s k = Some (Doc d, n) \<and> map_of d ''name'' = Some (JStr h)
         \<and> h \<noteq> [] \<and> (otruthy (map_of d ''ip'') \<or> otruthy (map_of d ''hostname'')))" for p g h
    unfolding front_kids_iff by blast
  ultimately show ?thesis by (intro allI) simp
qed

text \<open>C37: The plugin tries the configured etcd hosts. When none answers it returns and changes nothing. Otherwise, when it returns,
  the children of Ansible's groups are those there were, the fixed subgroups, each host whose registry document has name,
  address, type and MAC and that is neither an AMT interface nor a DHCP guest nor disabled, in \<open>all_nodes\<close> and the group of its
  type, in \<open>core\<close> when it is named s<n> and in \<open>etcd\<close> when its address is that of a member in etcd's answer, and each frontend
  with a name and an address, in \<open>frontend\<close>. Nothing else is targeted.\<close>

theorem inventory_groups_exact:
  assumes env: "ansible_env e view i groups hosts kids"
    and connect: "\<And>kw h p. leaves (\<lambda>w. (view w, groups w, hosts w, kids w)) (connect kw h p)"
    and run: "inventory_parse e i decode connect file environ config prefix s = (Inr (), s')"
  shows "\<exists>items c w. host_items (fst (resolve_etcd_connection file environ config)) = Inr items
    \<and> try_hosts (connect (snd (resolve_etcd_connection file environ config))) items s = (Inr c, w)
    \<and> (if c = None then s' = w \<and> set (kids s') = set (kids s) else (\<forall>g h. (g, JStr h) \<in> set (kids s') \<longleftrightarrow> (g, JStr h) \<in> set (kids s) \<or> (g, JStr h) \<in> subgroups
    \<or> (\<exists>k d n ip t. startswith k (prefix @ ''/by-hostname/'') \<and> view s k = Some (Doc d, n) \<and> map_of d ''hostname'' = Some (JStr h)
         \<and> map_of d ''ip'' = Some ip \<and> map_of d ''type'' = Some t \<and> map_of d ''mac'' \<noteq> None \<and> h \<noteq> []
         \<and> \<not> endswith h ''a'' \<and> \<not> startswith h ''dhcp-'' \<and> \<not> otruthy (map_of d ''disabled'')
         \<and> belongs (member_of (fst (i_members i (snd (create_groups i w))))) h ip t g)
    \<or> g = ''frontend'' \<and> (\<exists>k d n. startswith k (prefix @ ''/frontend'') \<and> view s k = Some (Doc d, n) \<and> map_of d ''name'' = Some (JStr h)
         \<and> h \<noteq> [] \<and> (otruthy (map_of d ''ip'') \<or> otruthy (map_of d ''hostname'')))))"
proof -
  obtain hs kw where conn: "resolve_etcd_connection file environ config = (hs, kw)" by fastforce
  from run have parse: "py_bind (py_lift (host_items hs)) (\<lambda>items. py_bind (try_hosts (connect kw) items)
      (\<lambda>c. case c of None \<Rightarrow> py_return () | Some _ \<Rightarrow> populate e i decode prefix)) s = (Inr (), s')"
    by (simp add: inventory_parse_def conn)
  then obtain items where items: "host_items hs = Inr items" by (cases "host_items hs") (auto simp: py_defs)
  with parse have rest: "py_bind (try_hosts (connect kw) items)
      (\<lambda>c. case c of None \<Rightarrow> py_return () | Some _ \<Rightarrow> populate e i decode prefix) s = (Inr (), s')"
    by (simp add: py_bind_lift)
  have at: "ansible_env.at view groups hosts kids (view s) (groups s) (hosts s) (set (kids s)) s" by (simp add: ansible_env.at_def [OF env])
  have "wp (try_hosts (connect kw) items) (\<lambda>_. ansible_env.at view groups hosts kids (view s) (groups s) (hosts s) (set (kids s))) (\<lambda>_ _. False) s"
    by (rule ansible_env.wp_try_hosts [OF env connect at])
  then obtain c w where w: "try_hosts (connect kw) items s = (Inr c, w)"
    and same: "view w = view s" "set (kids w) = set (kids s)"
    unfolding wp_def by (cases "try_hosts (connect kw) items s") (auto simp: wp_def ansible_env.at_def [OF env] split: sum.splits)
  have "if c = None then s' = w \<and> set (kids s') = set (kids s) else (\<forall>g h. (g, JStr h) \<in> set (kids s') \<longleftrightarrow> (g, JStr h) \<in> set (kids s) \<or> (g, JStr h) \<in> subgroups
    \<or> (\<exists>k d n ip t. startswith k (prefix @ ''/by-hostname/'') \<and> view s k = Some (Doc d, n) \<and> map_of d ''hostname'' = Some (JStr h)
         \<and> map_of d ''ip'' = Some ip \<and> map_of d ''type'' = Some t \<and> map_of d ''mac'' \<noteq> None \<and> h \<noteq> []
         \<and> \<not> endswith h ''a'' \<and> \<not> startswith h ''dhcp-'' \<and> \<not> otruthy (map_of d ''disabled'')
         \<and> belongs (member_of (fst (i_members i (snd (create_groups i w))))) h ip t g)
    \<or> g = ''frontend'' \<and> (\<exists>k d n. startswith k (prefix @ ''/frontend'') \<and> view s k = Some (Doc d, n) \<and> map_of d ''name'' = Some (JStr h)
         \<and> h \<noteq> [] \<and> (otruthy (map_of d ''ip'') \<or> otruthy (map_of d ''hostname''))))"
  proof (cases c)
    case None
    with rest w same show ?thesis by (simp add: py_bind_def py_return_def)
  next
    case (Some x)
    with rest w have "populate e i decode prefix w = (Inr (), s')" by (simp add: py_bind_def)
    from populate_groups [OF env this] Some show ?thesis unfolding same by simp
  qed
  with conn items w show ?thesis by simp
qed

definition aw_world :: aworld where
  "aw_world = \<lparr>aw_kv = \<lparr>mem_data =
       [(''/cluster/nodes/by-hostname/c1'', (Doc [(''hostname'', JStr ''c1''), (''ip'', JStr ''10.0.0.51''), (''type'', JStr ''compute''), (''mac'', JStr ''2''), (''disabled'', JBool True)], 2)),
        (''/cluster/nodes/by-hostname/s1'', (Doc [(''hostname'', JStr ''s1''), (''ip'', JStr ''10.0.0.11''), (''type'', JStr ''storage''), (''mac'', JStr ''1'')], 1))], mem_rev = 2\<rparr>,
     aw_groups = [], aw_hosts = [], aw_kids = []\<rparr>"

definition aw_connect :: "dict \<Rightarrow> string \<Rightarrow> int \<Rightarrow> (aworld, unit) py" where
  "aw_connect kw h p = (if h = ''10.0.0.12'' then py_return () else py_raise ConnectionError)"

definition aw_run :: "(exn + unit) \<times> aworld" where
  "aw_run = inventory_parse aw_etcd aw_inv (\<lambda>_. []) aw_connect None [(''ETCD_HOSTS'', ''10.0.0.11:2379,10.0.0.12:2379'')] [] ''/cluster/nodes'' aw_world"

theorem inventory_groups_exact_witness:
  "fst aw_run = Inr () \<and> (''core'', JStr ''s1'') \<in> set (aw_kids (snd aw_run)) \<and> (''etcd'', JStr ''s1'') \<in> set (aw_kids (snd aw_run))"
proof -
  let ?kw = "snd (resolve_etcd_connection None [(''ETCD_HOSTS'', ''10.0.0.11:2379,10.0.0.12:2379'')] [])"
  have ok: "fst aw_run = Inr ()" by code_simp
  then have run: "inventory_parse aw_etcd aw_inv (\<lambda>_. []) aw_connect None [(''ETCD_HOSTS'', ''10.0.0.11:2379,10.0.0.12:2379'')] []
      ''/cluster/nodes'' aw_world = (Inr (), snd aw_run)"
    by (simp add: aw_run_def prod_eq_iff)
  have quiet: "leaves (\<lambda>w. (aw_view w, set (aw_groups w), set (aw_hosts w), aw_kids w)) (aw_connect kw h p)" for kw h p
    by (simp add: leaves_def aw_connect_def py_return_def py_raise_def)
  have hosts: "host_items (fst (resolve_etcd_connection None [(''ETCD_HOSTS'', ''10.0.0.11:2379,10.0.0.12:2379'')] []))
      = Inr [''10.0.0.11:2379'', ''10.0.0.12:2379'']" by code_simp
  have tried: "try_hosts (aw_connect ?kw) [''10.0.0.11:2379'', ''10.0.0.12:2379''] aw_world = (Inr (Some ()), aw_world)"
    by (simp add: aw_connect_def py_defs parse_host_port_def) code_simp
  have doc: "aw_view aw_world ''/cluster/nodes/by-hostname/s1'' =
      Some (Doc [(''hostname'', JStr ''s1''), (''ip'', JStr ''10.0.0.11''), (''type'', JStr ''storage''), (''mac'', JStr ''1'')], 1)" by code_simp
  have key: "startswith ''/cluster/nodes/by-hostname/s1'' (''/cluster/nodes'' @ ''/by-hostname/'')"
    "\<not> endswith ''s1'' ''a''" "\<not> startswith ''s1'' ''dhcp-''" by code_simp+
  have "''10.0.0.11'' \<in> set (member_hosts (concat [[''http://10.0.0.11:2380'']]))" by code_simp
  then have "member_of (fst (i_members aw_inv (snd (create_groups aw_inv aw_world)))) ''10.0.0.11''"
    unfolding member_hosts_iff by (simp add: aw_inv_def py_return_def member_of_def)
  then have groups: "belongs (member_of (fst (i_members aw_inv (snd (create_groups aw_inv aw_world))))) ''s1'' (JStr ''10.0.0.11'') (JStr ''storage'') ''core''"
    "belongs (member_of (fst (i_members aw_inv (snd (create_groups aw_inv aw_world))))) ''s1'' (JStr ''10.0.0.11'') (JStr ''storage'') ''etcd''"
    by (simp_all add: belongs_def is_digit_def)
  note exact = inventory_groups_exact [OF awi.ansible_env_axioms quiet run, unfolded hosts]
  have "(g, JStr ''s1'') \<in> set (aw_kids (snd aw_run))"
    if "belongs (member_of (fst (i_members aw_inv (snd (create_groups aw_inv aw_world))))) ''s1'' (JStr ''10.0.0.11'') (JStr ''storage'') g" for g
    using exact that doc key tried by (fastforce simp: otruthy_def)
  with ok groups show ?thesis by blast
qed

section \<open>Every node is listed with its own facts\<close>

text \<open>What a listing has for a host.\<close>

definition listed :: "store \<Rightarrow> string \<Rightarrow> json option" where
  "listed c k = (case c k of Some (b, _) \<Rightarrow> (case loads_json b of Inr j \<Rightarrow> Some j | Inl _ \<Rightarrow> None) | None \<Rightarrow> None)"

lemma overlay_lookup:
  assumes "distinct (map fst xs)" "\<forall>x \<in> set xs. startswith (fst x) p"
  shows "map_of (fold (overlay p put) xs nodes) h =
    (case map_of xs (p @ h) of
       Some b \<Rightarrow> (case loads_json b of Inr j \<Rightarrow> Some (put j (case map_of nodes h of Some n \<Rightarrow> n | None \<Rightarrow> no_node)) | Inl _ \<Rightarrow> map_of nodes h)
     | None \<Rightarrow> map_of nodes h)"
  using assms
proof (induction xs arbitrary: nodes)
  case (Cons x xs)
  obtain k b where x: "x = (k, b)" by (cases x)
  from Cons.prems(2) x obtain t where k: "k = p @ t" by (auto simp: startswith_iff)
  have fresh: "map_of xs (p @ t) = None" using Cons.prems(1) by (auto simp: x k map_of_eq_None_iff)
  have IH: "map_of (fold (overlay p put) xs nodes') h =
    (case map_of xs (p @ h) of
       Some b \<Rightarrow> (case loads_json b of Inr j \<Rightarrow> Some (put j (case map_of nodes' h of Some n \<Rightarrow> n | None \<Rightarrow> no_node)) | Inl _ \<Rightarrow> map_of nodes' h)
     | None \<Rightarrow> map_of nodes' h)" for nodes'
    using Cons.IH Cons.prems by simp
  have "overlay p put x nodes = (case loads_json b of Inl _ \<Rightarrow> nodes
      | Inr j \<Rightarrow> AList.update t (put j (case map_of nodes t of Some n \<Rightarrow> n | None \<Rightarrow> no_node)) nodes)"
    by (simp add: x k overlay_def split: sum.splits)
  then show ?case
    using fresh by (cases "t = h"; cases "loads_json b") (simp_all add: x k IH update_conv' split: option.split sum.split)
qed simp

lemma listing_lookup: "prefix_list c p xs \<Longrightarrow> map_of xs (p @ h) = map_option fst (c (p @ h))"
proof -
  assume l: "prefix_list c p xs"
  then have d: "distinct (map fst xs)" by (simp add: prefix_list_def)
  show ?thesis
  proof (cases "c (p @ h)")
    case None
    then show ?thesis using prefix_listD [OF l, of "p @ h"] by (auto simp: map_of_eq_None_iff)
  next
    case (Some v)
    then have "(p @ h, fst v) \<in> set xs" using prefix_listD [OF l, of "p @ h"] by (cases v) simp
    then show ?thesis using d Some by simp
  qed
qed

lemma gather_lookup:
  "map_of (fold gather_allocation xs nodes) h = Some n \<Longrightarrow>
     map_of nodes h = Some n \<or> (\<exists>k d. (k, Doc d) \<in> set xs \<and> map_of d ''hostname'' = Some (JStr h) \<and> h \<noteq> [] \<and> \<not> startswith h ''dhcp-''
       \<and> n = no_node\<lparr>n_allocation := Some d\<rparr>)"
proof (induction xs arbitrary: nodes)
  case (Cons x xs)
  obtain k b where x: "x = (k, b)" by (cases x)
  from Cons.IH [of "gather_allocation x nodes"] Cons.prems
  have "map_of (gather_allocation x nodes) h = Some n
      \<or> (\<exists>k d. (k, Doc d) \<in> set xs \<and> map_of d ''hostname'' = Some (JStr h) \<and> h \<noteq> [] \<and> \<not> startswith h ''dhcp-''
       \<and> n = no_node\<lparr>n_allocation := Some d\<rparr>)" by simp
  then show ?case
    by (cases b) (auto simp: x gather_allocation_def update_conv' split: option.splits json.splits if_splits)
qed simp

lemma gather_complete:
  "map_of nodes h \<noteq> None \<or> (\<exists>x d. x \<in> set xs \<and> snd x = Doc d \<and> map_of d ''hostname'' = Some (JStr h) \<and> h \<noteq> [] \<and> \<not> startswith h ''dhcp-'')
    \<Longrightarrow> map_of (fold gather_allocation xs nodes) h \<noteq> None"
proof (induction xs arbitrary: nodes)
  case (Cons x xs)
  have "map_of nodes h \<noteq> None \<Longrightarrow> map_of (gather_allocation x nodes) h \<noteq> None"
    by (auto simp: gather_allocation_def update_conv' split: sum.splits option.splits json.splits)
  moreover have "snd x = Doc d \<Longrightarrow> map_of d ''hostname'' = Some (JStr h) \<Longrightarrow> h \<noteq> [] \<Longrightarrow> \<not> startswith h ''dhcp-''
      \<Longrightarrow> map_of (gather_allocation x nodes) h \<noteq> None" for d
    by (auto simp: gather_allocation_def update_conv')
  ultimately show ?case using Cons.IH [of "gather_allocation x nodes"] Cons.prems by auto
qed simp

text \<open>The inventory lists a node when it is allocated under that name (and is no DHCP guest), or hardware facts or an
  asset record are stored for it; it shows the facts and the record stored under its name, and an allocation of that name.\<close>

theorem nodes_listed_with_facts:
  assumes env: "etcd_env e view (=)" and run: "list_all_nodes e s = (Inr nodes, s')"
  shows "(map_of nodes h \<noteq> None \<longleftrightarrow> listed (view s) (HARDWARE_PREFIX @ h) \<noteq> None \<or> listed (view s) (ASSET_PREFIX @ h) \<noteq> None
      \<or> h \<noteq> [] \<and> \<not> startswith h ''dhcp-'' \<and> (\<exists>k d n. startswith k NODE_PREFIX \<and> view s k = Some (Doc d, n) \<and> map_of d ''hostname'' = Some (JStr h)))
    \<and> (\<forall>node. map_of nodes h = Some node \<longrightarrow> n_hardware node = listed (view s) (HARDWARE_PREFIX @ h)
      \<and> n_asset node = (case listed (view s) (ASSET_PREFIX @ h) of Some j \<Rightarrow> j | None \<Rightarrow> JObj [])
      \<and> (\<forall>d. n_allocation node = Some d \<longrightarrow> map_of d ''hostname'' = Some (JStr h)))"
proof -
  let ?W = "\<lambda>hws assets allocs. fold (overlay ASSET_PREFIX (\<lambda>j n. n\<lparr>n_asset := j\<rparr>)) assets
      (fold (overlay HARDWARE_PREFIX (\<lambda>j n. n\<lparr>n_hardware := Some j\<rparr>)) hws (fold gather_allocation allocs []))"
  have "wp (list_all_nodes e) (\<lambda>nodes _. \<exists>allocs hws assets. prefix_list (view s) NODE_PREFIX allocs \<and> prefix_list (view s) HARDWARE_PREFIX hws
      \<and> prefix_list (view s) ASSET_PREFIX assets \<and> nodes = ?W hws assets allocs) (\<lambda>_ _. True) s"
    unfolding list_all_nodes_def wp_seq wp_bind wp_return
    by (rule etcd_env.wp_client_env [OF env], (rule etcd_env.wp_prefix_env [OF env])+) auto
  with run obtain allocs hws assets where lists: "prefix_list (view s) NODE_PREFIX allocs" "prefix_list (view s) HARDWARE_PREFIX hws"
      "prefix_list (view s) ASSET_PREFIX assets" and nodes: "nodes = ?W hws assets allocs" by (auto simp: wp_def)
  let ?a = "map_of (fold gather_allocation allocs []) h"
  have keys: "distinct (map fst xs)" "\<forall>x \<in> set xs. startswith (fst x) p" if "prefix_list (view s) p xs" for p xs
    using that by (auto simp: prefix_list_def)
  have found: "map_of nodes h = (case listed (view s) (ASSET_PREFIX @ h) of
      Some j \<Rightarrow> Some ((case (case listed (view s) (HARDWARE_PREFIX @ h) of Some j \<Rightarrow> Some ((case ?a of Some n \<Rightarrow> n | None \<Rightarrow> no_node)\<lparr>n_hardware := Some j\<rparr>) | None \<Rightarrow> ?a)
        of Some n \<Rightarrow> n | None \<Rightarrow> no_node)\<lparr>n_asset := j\<rparr>)
    | None \<Rightarrow> (case listed (view s) (HARDWARE_PREFIX @ h) of Some j \<Rightarrow> Some ((case ?a of Some n \<Rightarrow> n | None \<Rightarrow> no_node)\<lparr>n_hardware := Some j\<rparr>) | None \<Rightarrow> ?a))"
    unfolding nodes overlay_lookup [OF keys [OF lists(3)]] overlay_lookup [OF keys [OF lists(2)]] listing_lookup [OF lists(2)] listing_lookup [OF lists(3)]
    by (auto simp: listed_def split: option.splits sum.splits)
  have some: "?a = Some n \<Longrightarrow> \<exists>k d m. startswith k NODE_PREFIX \<and> view s k = Some (Doc d, m) \<and> map_of d ''hostname'' = Some (JStr h) \<and> h \<noteq> []
      \<and> \<not> startswith h ''dhcp-'' \<and> n = no_node\<lparr>n_allocation := Some d\<rparr>" for n
    using gather_lookup [of allocs "[]" h n] prefix_listD [OF lists(1)] by fastforce
  have none: "?a \<noteq> None \<longleftrightarrow> h \<noteq> [] \<and> \<not> startswith h ''dhcp-''
      \<and> (\<exists>k d n. startswith k NODE_PREFIX \<and> view s k = Some (Doc d, n) \<and> map_of d ''hostname'' = Some (JStr h))"
    using some gather_complete [of "[]" h allocs] prefix_listD [OF lists(1)] by fastforce
  show ?thesis using some none unfolding found by (auto simp: no_node_def split: option.splits)
qed

theorem nodes_listed_with_facts_witness:
  "\<exists>nodes s'. list_all_nodes aw_etcd aw_world = (Inr nodes, s') \<and> (map_of nodes ''s1'' \<noteq> None)"
proof -
  obtain r s' where run: "list_all_nodes aw_etcd aw_world = (r, s')" by (cases "list_all_nodes aw_etcd aw_world")
  moreover have "\<not> isl (fst (list_all_nodes aw_etcd aw_world))" by code_simp
  ultimately obtain nodes where r: "r = Inr nodes" by (cases r) auto
  have doc: "aw_view aw_world ''/cluster/nodes/by-hostname/s1'' =
      Some (Doc [(''hostname'', JStr ''s1''), (''ip'', JStr ''10.0.0.11''), (''type'', JStr ''storage''), (''mac'', JStr ''1'')], 1)" by code_simp
  have key: "startswith ''/cluster/nodes/by-hostname/s1'' NODE_PREFIX" "\<not> startswith ''s1'' ''dhcp-''" by code_simp+
  have "\<exists>k d n. startswith k NODE_PREFIX \<and> aw_view aw_world k = Some (Doc d, n) \<and> map_of d ''hostname'' = Some (JStr ''s1'')"
    by (intro exI conjI, rule key(1), rule doc, simp)
  with conjunct1 [OF nodes_listed_with_facts [OF awkv.part.etcd_env_axioms run [unfolded r], of "''s1''"]] key(2)
  have "map_of nodes ''s1'' \<noteq> None" by blast
  with run r show ?thesis by blast
qed

end
