(* ===== verification/YBackup.thy ===== *)
theory YBackup
  imports Complex_Main YJson
begin

text \<open>
  Backup freshness and verified restores as metrics (\<open>utils/backup_status.py\<close>). Times are rational numbers of seconds;
  the directory listing, the clock and the files are parameters.
\<close>

section \<open>Ages and results\<close>

definition COMPONENTS :: "string list" where
  "COMPONENTS = [''postgres'', ''qdrant'', ''etcd'']"

definition newest_age_seconds :: "rat list \<Rightarrow> rat \<Rightarrow> rat option" where
  "newest_age_seconds mtimes now = (case mtimes of [] \<Rightarrow> None | m # ms \<Rightarrow> Some (max 0 (now - fold max ms m)))"

text \<open>An entry is its name, whether it is a file, and its time of modification; no listing is a missing directory.\<close>

definition component_age :: "(string \<Rightarrow> ('w, (string \<times> bool \<times> rat) list option) py) \<Rightarrow> string \<Rightarrow> rat \<Rightarrow> string \<Rightarrow> ('w, rat option) py" where
  "component_age scandir encrypted_dir now component =
     py_bind (scandir (encrypted_dir @ ''/'' @ component)) (\<lambda>listing.
       py_return (newest_age_seconds
         (case listing of None \<Rightarrow> []
          | Some entries \<Rightarrow> map (snd \<circ> snd) (filter (\<lambda>(name, is_file, _). endswith name ''.age'' \<and> is_file) entries)) now))"

definition scan_ages :: "(string \<Rightarrow> ('w, (string \<times> bool \<times> rat) list option) py) \<Rightarrow> string \<Rightarrow> rat \<Rightarrow> ('w, (string \<times> rat option) list) py" where
  "scan_ages scandir encrypted_dir now =
     py_fold (\<lambda>c ages. py_bind (component_age scandir encrypted_dir now c) (\<lambda>a. py_return (AList.update c a ages))) COMPONENTS []"

definition parse_result :: "string \<Rightarrow> (string \<times> bool option) list \<Rightarrow> exn + (string \<times> bool option) list" where
  "parse_result item results =
     (case partition_on (CHR ''='') item of (component, _, v) \<Rightarrow>
        if v = ''skip'' then Inr (AList.update component None results)
        else if v \<in> {''0'', ''1''} then Inr (AList.update component (Some (v = ''1'')) results)
        else Inl (ValueError item))"

fun parse_results :: "string list \<Rightarrow> (string \<times> bool option) list \<Rightarrow> exn + (string \<times> bool option) list" where
  "parse_results [] results = Inr results"
| "parse_results (item # items) results = (case parse_result item results of Inl x \<Rightarrow> Inl x | Inr r \<Rightarrow> parse_results items r)"

section \<open>The metrics\<close>

definition success_line :: "string \<Rightarrow> bool \<Rightarrow> string" where
  "success_line component ok = ''ycluster_backup_restore_success{component='' @ [CHR 0x22] @ component @ [CHR 0x22] @ ''} '' @ (if ok then ''1'' else ''0'')"

definition age_line :: "string \<Rightarrow> rat \<Rightarrow> string" where
  "age_line component age = ''ycluster_backup_age_seconds{component='' @ [CHR 0x22] @ component @ [CHR 0x22] @ ''} '' @ int_str \<lfloor>age\<rfloor>"

definition metric_lines :: "rat \<Rightarrow> (string \<times> rat option) list \<Rightarrow> (string \<times> bool option) list \<Rightarrow> string list" where
  "metric_lines now ages results =
     [''# HELP ycluster_backup_restore_success Last verify-restore loaded cleanly (1=ok, 0=failed)'',
      ''# TYPE ycluster_backup_restore_success gauge'']
     @ concat (map (\<lambda>c. case map_of results c of Some (Some ok) \<Rightarrow> [success_line c ok] | _ \<Rightarrow> []) COMPONENTS)
     @ [''# HELP ycluster_backup_restore_timestamp_seconds Unix time of the last verify-restore run'',
        ''# TYPE ycluster_backup_restore_timestamp_seconds gauge'',
        ''ycluster_backup_restore_timestamp_seconds '' @ int_str \<lfloor>now\<rfloor>,
        ''# HELP ycluster_backup_age_seconds Age of the newest encrypted backup per component'',
        ''# TYPE ycluster_backup_age_seconds gauge'']
     @ concat (map (\<lambda>c. case map_of ages c of Some (Some age) \<Rightarrow> [age_line c age] | _ \<Rightarrow> []) COMPONENTS)"

definition render_metrics :: "rat \<Rightarrow> (string \<times> rat option) list \<Rightarrow> (string \<times> bool option) list \<Rightarrow> string" where
  "render_metrics now ages results = join nl (metric_lines now ages results) @ nl"

text \<open>A file is written beside the target and then put in its place.\<close>

definition write_atomic :: "(string \<Rightarrow> string \<Rightarrow> ('w, unit) py) \<Rightarrow> (string \<Rightarrow> string \<Rightarrow> ('w, unit) py) \<Rightarrow> string \<Rightarrow> string \<Rightarrow> ('w, unit) py" where
  "write_atomic write_file replace path contents =
     py_seq (write_file (path @ ''.tmp'') contents) (replace (path @ ''.tmp'') path)"

definition backup_main ::
  "('w, rat) py \<Rightarrow> (string \<Rightarrow> ('w, (string \<times> bool \<times> rat) list option) py) \<Rightarrow> (string \<Rightarrow> string \<Rightarrow> ('w, unit) py)
    \<Rightarrow> (string \<Rightarrow> string \<Rightarrow> ('w, unit) py) \<Rightarrow> string \<Rightarrow> string \<Rightarrow> string list \<Rightarrow> ('w, nat) py" where
  "backup_main clock scandir write_file replace encrypted_dir out items =
     py_bind clock (\<lambda>now.
       case parse_results items [] of
         Inl _ \<Rightarrow> py_return 2
       | Inr results \<Rightarrow>
           py_bind (scan_ages scandir encrypted_dir now) (\<lambda>ages.
             py_seq (write_atomic write_file replace out (render_metrics now ages results)) (py_return 0)))"

section \<open>A failed restore is exported\<close>

definition item_component :: "string \<Rightarrow> string" where
  "item_component item = takeWhile (\<lambda>c. c \<noteq> CHR ''='') item"

lemma partition_item:
  assumes "partition_on (CHR ''='') item = (c, sep, v)" shows "c = item_component item \<and> (v = [] \<or> item = c @ ''='' @ v)"
proof (cases "dropWhile (\<lambda>x. x \<noteq> CHR ''='') item")
  case Nil
  then have "item_component item = item" unfolding item_component_def by (metis append_Nil2 takeWhile_dropWhile_id)
  then show ?thesis using assms unfolding partition_on_def Nil by simp
next
  case (Cons x rest)
  then have "x = CHR ''=''" using hd_dropWhile [of "\<lambda>x. x \<noteq> CHR ''=''" item] by simp
  moreover have "item = item_component item @ x # rest" unfolding item_component_def by (metis Cons takeWhile_dropWhile_id)
  moreover have "c = item_component item" "v = rest" using assms by (simp_all add: partition_on_def item_component_def Cons)
  ultimately show ?thesis by simp
qed

lemma parse_result_lookup:
  assumes "parse_result item results = Inr r"
  shows "map_of r c = Some (Some False) \<longleftrightarrow> (if item_component item = c then item = c @ ''=0'' else map_of results c = Some (Some False))"
proof -
  obtain d sep v where p: "partition_on (CHR ''='') item = (d, sep, v)" by (cases "partition_on (CHR ''='') item")
  then have d: "d = item_component item" "v = [] \<or> item = d @ ''='' @ v" by (auto dest: partition_item)
  then have "v \<noteq> [] \<Longrightarrow> item = d @ ''=0'' \<longleftrightarrow> v = ''0''" by (metis append_Cons append_Nil append_same_eq same_append_eq list.inject)
  with assms show ?thesis unfolding d(1) [symmetric] by (auto simp: parse_result_def p update_conv' split: if_splits)
qed

lemma parse_results_lookup:
  assumes "parse_results items results = Inr r"
  shows "map_of r c = Some (Some False) \<longleftrightarrow>
    (if filter (\<lambda>i. item_component i = c) items = [] then map_of results c = Some (Some False)
     else last (filter (\<lambda>i. item_component i = c) items) = c @ ''=0'')"
  using assms
proof (induction items arbitrary: results)
  case (Cons i items)
  then obtain r1 where step: "parse_result i results = Inr r1" and rest: "parse_results items r1 = Inr r" by (auto split: sum.splits)
  show ?case using Cons.IH [OF rest] parse_result_lookup [OF step, of c] by auto
qed simp

lemma success_line_inject: "success_line c ok = success_line d ok' \<longleftrightarrow> c = d \<and> ok = ok'"
  by (cases ok; cases ok') (simp_all add: success_line_def)

lemma success_line_apart: "success_line c ok \<noteq> CHR ''#'' # t" "success_line c ok \<noteq> ''ycluster_backup_restore_timestamp_seconds '' @ t"
    "success_line c ok \<noteq> age_line d a"
  by (simp_all add: success_line_def age_line_def)

text \<open>When the results of the restores are accepted, the metrics say of a component that its restore failed exactly when
  the last result given for it is 0: a later result replaces an earlier one, and a component that was skipped or not
  given has no such line.\<close>

theorem failed_restore_exported:
  assumes "parse_results items [] = Inr results" and "c \<in> set COMPONENTS"
  shows "success_line c False \<in> set (metric_lines now ages results) \<longleftrightarrow>
    (\<exists>xs. filter (\<lambda>i. item_component i = c) items = xs @ [c @ ''=0''])"
proof -
  have "success_line c False \<in> set (metric_lines now ages results) \<longleftrightarrow> map_of results c = Some (Some False)"
    using assms(2) success_line_apart(2) [unfolded append_Cons append_Nil]
    by (auto simp: metric_lines_def success_line_inject success_line_apart split: option.splits intro!: bexI [of _ c])
  also have "\<dots> \<longleftrightarrow> (\<exists>xs. filter (\<lambda>i. item_component i = c) items = xs @ [c @ ''=0''])"
    unfolding parse_results_lookup [OF assms(1)]
    by (cases "filter (\<lambda>i. item_component i = c) items" rule: rev_cases) auto
  finally show ?thesis .
qed

theorem failed_restore_exported_witness:
  "success_line ''etcd'' False \<in> set (metric_lines 0 [] [(''etcd'', Some False), (''qdrant'', None)])"
proof -
  have items: "parse_results [''etcd=1'', ''qdrant=skip'', ''etcd=0''] [] = Inr [(''etcd'', Some False), (''qdrant'', None)]" by code_simp
  have "filter (\<lambda>i. item_component i = ''etcd'') [''etcd=1'', ''qdrant=skip'', ''etcd=0''] = [''etcd=1''] @ [''etcd'' @ ''=0'']" by code_simp
  then show ?thesis using failed_restore_exported [OF items, of "''etcd''" 0 "[]"] by (auto simp: COMPONENTS_def)
qed

end
