(* ===== verification/YHeartbeat.thy ===== *)
theory YHeartbeat
  imports YCluster
begin

text \<open>
  The heartbeat (\<open>scripts/cluster-heartbeat.py\<close>): the health of the cluster as the storage leader sees it is gathered from
  the admin API, judged, and posted to a monitoring service, to the failure address when it is critical. The
  requests, the clock and the text of an exception are the record \<open>beat\<close>; the locale \<open>beat_env\<close> follows the addresses
  posted to. A number or a text in the message is printed as Python does, a list or an object as nothing.
\<close>

section \<open>Gathering\<close>

record 'w beat =
  hb_name :: string
  hb_now :: "('w, string) py"
  hb_get :: "string \<Rightarrow> ('w, int \<times> (exn + json)) py"
  hb_post :: "string \<Rightarrow> string \<Rightarrow> ('w, int) py"
  hb_text :: "exn \<Rightarrow> string"
  hb_decode :: "blob \<Rightarrow> string"

definition HEALTHCHECKS_KEY :: string where
  "HEALTHCHECKS_KEY = ''/cluster/healthchecks/url''"

definition get_healthchecks_url :: "'w etcd3 \<Rightarrow> 'w beat \<Rightarrow> ('w, string option) py" where
  "get_healthchecks_url e b =
     py_try
       (py_seq (e_client e) (py_bind (e_get e HEALTHCHECKS_KEY) (\<lambda>r. py_return (case r of
          Some (v, _) \<Rightarrow> if blob_true v then Some (hb_decode b v) else None
        | None \<Rightarrow> None))))
       (\<lambda>_. py_return None)"

text \<open>The data gathered is a dictionary that keeps what was set before an exception.\<close>

definition hset :: "string \<Rightarrow> json \<Rightarrow> (dict, unit) py" where
  "hset k v = py_modify (AList.update k v)"

definition set_from :: "json \<Rightarrow> string \<Rightarrow> string \<Rightarrow> json \<Rightarrow> (dict, unit) py" where
  "set_from j field k dflt = py_bind (py_lift (jget j field dflt)) (hset k)"

definition take_local :: "int \<times> (exn + json) \<Rightarrow> (dict, unit) py" where
  "take_local reply =
     py_when (fst reply \<in> {200, 503})
       (py_bind (py_lift (snd reply)) (\<lambda>local_health.
          py_seq (set_from local_health ''services'' ''services'' (JObj []))
          (py_seq (set_from local_health ''overall'' ''overall'' (JStr ''unknown''))
          (py_seq (set_from local_health ''storage_leader'' ''storage_leader'' (JBool False))
            (set_from local_health ''dhcp_leader'' ''dhcp_leader'' (JBool False))))))"

definition items_of :: "json \<Rightarrow> exn + dict" where
  "items_of j = as_dict j"

definition bad_status :: "json \<Rightarrow> bool" where
  "bad_status v = (case v of JObj d \<Rightarrow> map_of d ''status'' \<in> {Some (JStr ''unhealthy''), Some (JStr ''error''), Some (JStr ''degraded'')} | _ \<Rightarrow> False)"

record tally =
  t_healthy :: nat
  t_unhealthy :: "string list"
  t_unreachable :: "string list"

definition no_nodes :: tally where
  "no_nodes = \<lparr>t_healthy = 0, t_unhealthy = [], t_unreachable = []\<rparr>"

text \<open>\<open>re.match(r'^s\d+$', hostname)\<close>: the dollar also matches before a final newline.\<close>

definition core_match :: "string \<Rightarrow> bool" where
  "core_match h = (let t = (if endswith h nl then butlast h else h) in startswith t ''s'' \<and> isdigit (drop 1 t))"

definition node_status :: "json \<Rightarrow> exn + json" where
  "node_status node_health =
     sbind (jget node_health ''overall'' JNull) (\<lambda>overall.
       if truthy overall then Inr overall else jget node_health ''status'' (JStr []))"

definition only_clock :: "string \<Rightarrow> json \<Rightarrow> exn + bool" where
  "only_clock hostname node_health =
     sbind (jget node_health ''services'' (JObj [])) (\<lambda>services.
     sbind (items_of services) (\<lambda>d.
       let bad = map fst (filter (\<lambda>x. bad_status (snd x)) d) in
       Inr (\<not> core_match hostname \<and> bad \<noteq> [] \<and> list_all (\<lambda>svc. svc = ''clock_skew'') bad)))"

definition tally_node :: "string \<times> json \<Rightarrow> tally \<Rightarrow> exn + tally" where
  "tally_node x t =
     sbind (node_status (snd x)) (\<lambda>st.
       if st = JStr ''disabled'' then Inr t
       else if st = JStr ''healthy'' then Inr (t\<lparr>t_healthy := Suc (t_healthy t)\<rparr>)
       else if st \<in> {JStr ''timeout'', JStr ''unreachable''} then Inr (t\<lparr>t_unreachable := t_unreachable t @ [fst x]\<rparr>)
       else sbind (only_clock (fst x) (snd x)) (\<lambda>ignored.
         Inr (if ignored then t\<lparr>t_healthy := Suc (t_healthy t)\<rparr> else t\<lparr>t_unhealthy := t_unhealthy t @ [fst x]\<rparr>)))"

fun tally_nodes :: "dict \<Rightarrow> tally \<Rightarrow> exn + tally" where
  "tally_nodes [] t = Inr t"
| "tally_nodes (x # xs) t = sbind (tally_node x t) (tally_nodes xs)"

definition nodes_doc :: "tally \<Rightarrow> json" where
  "nodes_doc t = JObj
     [(''healthy'', JInt (int (t_healthy t))), (''unhealthy'', JInt (int (length (t_unhealthy t)))),
      (''unreachable'', JInt (int (length (t_unreachable t)))),
      (''total'', JInt (int (t_healthy t + length (t_unhealthy t) + length (t_unreachable t)))),
      (''unhealthy_names'', JList (map JStr (t_unhealthy t))), (''unreachable_names'', JList (map JStr (t_unreachable t)))]"

fun failed_service :: "string \<times> json \<Rightarrow> string list" where
  "failed_service (svc, JObj d) =
     (case map_of d ''status'' of
        Some (JStr st) \<Rightarrow> if st \<in> {''unhealthy'', ''error'', ''degraded''} then [svc @ ''('' @ st @ '')''] else []
      | _ \<Rightarrow> [])"
| "failed_service _ = []"

definition failed_of :: "json \<Rightarrow> exn + string list" where
  "failed_of node_health =
     sbind (jget node_health ''services'' (JObj [])) (\<lambda>services.
     sbind (items_of services) (\<lambda>d. Inr (concat (map failed_service d))))"

fun failures :: "dict \<Rightarrow> string list \<Rightarrow> exn + dict" where
  "failures host_health [] = Inr []"
| "failures host_health (n # ns) =
     sbind (failed_of (case map_of host_health n of Some h \<Rightarrow> h | None \<Rightarrow> JObj [])) (\<lambda>failed.
     sbind (failures host_health ns) (\<lambda>rest.
       Inr (if failed = [] then rest else (n, JList (map JStr failed)) # rest)))"

definition take_cluster :: "string \<Rightarrow> int \<times> (exn + json) \<Rightarrow> (dict, unit) py" where
  "take_cluster name reply =
     py_when (fst reply = 200)
       (py_bind (py_lift (snd reply)) (\<lambda>cluster_status.
        py_bind (py_lift (sbind (jget cluster_status ''hostHealth'' (JObj [])) items_of)) (\<lambda>host_health.
        py_bind (py_lift (tally_nodes host_health no_nodes)) (\<lambda>t.
        py_seq (hset ''nodes'' (nodes_doc t))
        (py_bind (py_lift (failures host_health (t_unhealthy t @ t_unreachable t))) (\<lambda>by_node.
        py_seq (py_when (by_node \<noteq> []) (hset ''unhealthy_services_by_node'' (JObj by_node)))
        (py_seq (set_from (case map_of host_health name of Some h \<Rightarrow> h | None \<Rightarrow> JObj []) ''services'' ''local_services'' (JObj []))
        (py_seq (set_from cluster_status ''leadership'' ''leadership'' (JObj []))
        (py_seq (set_from cluster_status ''vipStatus'' ''vip_status'' (JObj []))
        (py_bind (py_lift (jget cluster_status ''certificateStatus'' (JObj []))) (\<lambda>cert_status.
          py_when (truthy cert_status)
            (py_bind (py_lift (jget cert_status ''status'' JNull)) (\<lambda>st.
             py_bind (py_lift (sbind (jget cert_status ''details'' (JObj [])) (\<lambda>d. jget d ''days_until_expiry'' JNull))) (\<lambda>days.
               hset ''certificate'' (JObj [(''status'', st), (''days_until_expiry'', days)])))))))))))))))"

definition gather :: "('w, int \<times> (exn + json)) py \<Rightarrow> (int \<times> (exn + json) \<Rightarrow> (dict, unit) py) \<Rightarrow> dict \<Rightarrow> ('w, exn option \<times> dict) py" where
  "gather request use d =
     py_try (py_bind request (\<lambda>reply. py_return (case use reply d of (Inr _, d') \<Rightarrow> (None, d') | (Inl x, d') \<Rightarrow> (Some x, d'))))
       (\<lambda>x. py_return (Some x, d))"

definition LOCAL_URL :: string where
  "LOCAL_URL = ''http://localhost:12723/api/health''"

definition CLUSTER_URL :: string where
  "CLUSTER_URL = ''http://localhost:12723/api/cluster-status''"

definition new_data :: "'w beat \<Rightarrow> string \<Rightarrow> dict" where
  "new_data b now = [(''timestamp'', JStr now), (''hostname'', JStr (hb_name b)), (''services'', JObj []), (''nodes'', JObj []), (''overall'', JStr ''healthy'')]"

definition get_cluster_health :: "'w beat \<Rightarrow> ('w, dict) py" where
  "get_cluster_health b =
     py_bind (hb_now b) (\<lambda>now.
     py_bind (gather (hb_get b LOCAL_URL) take_local (new_data b now)) (\<lambda>(failed, d).
       let d = (case failed of None \<Rightarrow> d
         | Some x \<Rightarrow> AList.update ''overall'' (JStr ''error'') (AList.update ''error'' (JStr (''Failed to get local health: '' @ hb_text b x)) d)) in
     py_bind (gather (hb_get b CLUSTER_URL) (take_cluster (hb_name b)) d) (\<lambda>(failed, d).
       py_return (case failed of None \<Rightarrow> d
         | Some x \<Rightarrow> AList.update ''cluster_error'' (JStr (''Failed to get cluster status: '' @ hb_text b x)) d))))"

section \<open>The verdict\<close>

definition dget :: "dict \<Rightarrow> string \<Rightarrow> json" where
  "dget d k = (case map_of d k of Some v \<Rightarrow> v | None \<Rightarrow> JObj [])"

definition count_of :: "dict \<Rightarrow> string \<Rightarrow> exn + int" where
  "count_of d k = sbind (jget (dget d ''nodes'') k (JInt 0)) (\<lambda>j. case j of JInt n \<Rightarrow> Inr n | _ \<Rightarrow> Inl TypeError)"

definition cert_is :: "dict \<Rightarrow> string list \<Rightarrow> exn + bool" where
  "cert_is d ws = sbind (jget (dget d ''certificate'') ''status'' JNull) (\<lambda>j. Inr (j \<in> set (map JStr ws)))"

definition service_down :: "dict \<Rightarrow> string \<Rightarrow> exn + bool" where
  "service_down d name =
     sbind (json_has (dget d ''services'') name) (\<lambda>there.
       if \<not> there then Inr False
       else (case dget d ''services'' of
          JObj services \<Rightarrow> sbind (jget (the (map_of services name)) ''status'' JNull) (\<lambda>j. Inr (j = JStr ''unhealthy''))
        | _ \<Rightarrow> Inl TypeError))"

definition critical_conditions :: "dict \<Rightarrow> exn + bool list" where
  "critical_conditions d =
     sbind (count_of d ''unreachable'') (\<lambda>unreachable.
     sbind (cert_is d [''expired'', ''critical'']) (\<lambda>cert.
     sbind (service_down d ''etcd'') (\<lambda>etcd.
     sbind (service_down d ''ceph'') (\<lambda>ceph.
       Inr [map_of d ''overall'' = Some (JStr ''unhealthy''), 1 < unreachable, cert, etcd, ceph]))))"

definition warning_conditions :: "dict \<Rightarrow> exn + bool list" where
  "warning_conditions d =
     sbind (count_of d ''unhealthy'') (\<lambda>unhealthy.
     sbind (count_of d ''unreachable'') (\<lambda>unreachable.
     sbind (cert_is d [''warning'']) (\<lambda>cert.
       Inr [map_of d ''overall'' = Some (JStr ''degraded''), 0 < unhealthy, unreachable = 1, cert])))"

definition determine_health_status :: "dict \<Rightarrow> exn + nat \<times> string" where
  "determine_health_status d =
     sbind (critical_conditions d) (\<lambda>critical.
     sbind (warning_conditions d) (\<lambda>warning.
       Inr (if True \<in> set critical then (2, ''critical'') else if True \<in> set warning then (1, ''warning'') else (0, ''healthy''))))"

section \<open>The message\<close>

definition upper :: "string \<Rightarrow> string" where
  "upper s = map (\<lambda>c. let n = of_char c :: nat in if 97 \<le> n \<and> n \<le> 122 then char_of (n - 32) else c) s"

definition joined :: "json \<Rightarrow> exn + string" where
  "joined j = (case j of JList xs \<Rightarrow> map_sum (\<lambda>_. TypeError) (join '', '') (all_strs xs) | JStr t \<Rightarrow> Inr (join '', '' (map (\<lambda>c. [c]) t))
     | JObj d \<Rightarrow> Inr (join '', '' (map fst d)) | _ \<Rightarrow> Inl TypeError)"

definition names_line :: "json \<Rightarrow> string \<Rightarrow> string \<Rightarrow> exn + string list" where
  "names_line nodes k title =
     sbind (jget nodes k JNull) (\<lambda>names. if truthy names then sbind (joined names) (\<lambda>t. Inr [title @ t]) else Inr [])"

definition node_lines :: "json \<Rightarrow> exn + string list" where
  "node_lines nodes =
     (if \<not> truthy nodes then Inr []
      else sbind (jget nodes ''healthy'' (JInt 0)) (\<lambda>healthy.
           sbind (jget nodes ''total'' (JInt 0)) (\<lambda>total.
           sbind (names_line nodes ''unhealthy_names'' ''  Unhealthy: '') (\<lambda>unhealthy.
           sbind (names_line nodes ''unreachable_names'' ''  Unreachable: '') (\<lambda>unreachable.
             Inr ([''Nodes: '' @ shown healthy @ ''/'' @ shown total @ '' healthy''] @ unhealthy @ unreachable))))))"

fun service_lines :: "dict \<Rightarrow> exn + string list" where
  "service_lines [] = Inr []"
| "service_lines ((hostname, services) # rest) =
     sbind (joined services) (\<lambda>t. sbind (service_lines rest) (\<lambda>ls. Inr ((''  '' @ hostname @ '': '' @ t) # ls)))"

definition leader_lines :: "json \<Rightarrow> exn + string list" where
  "leader_lines leadership =
     (if \<not> truthy leadership then Inr []
      else sbind (jget leadership ''storage_leader'' (JStr ''none'')) (\<lambda>storage.
           sbind (jget leadership ''dhcp_leader'' (JStr ''none'')) (\<lambda>dhcp.
             Inr [''Leadership: Storage: '' @ shown storage @ '' DHCP: '' @ shown dhcp])))"

definition vip_lines :: "json \<Rightarrow> exn + string list" where
  "vip_lines vip_status =
     (if \<not> truthy vip_status then Inr []
      else sbind (jget vip_status ''gateway_vip'' (JObj [])) (\<lambda>gateway_vip.
           sbind (jget vip_status ''storage_vip'' (JObj [])) (\<lambda>storage_vip.
           sbind (jget gateway_vip ''master_hostname'' JNull) (\<lambda>g.
           sbind (jget storage_vip ''master_hostname'' JNull) (\<lambda>st.
             Inr [''VIPs: Gateway: '' @ shown g @ ''  Storage: '' @ shown st])))))"

definition cert_lines :: "json \<Rightarrow> exn + string list" where
  "cert_lines cert =
     (if \<not> truthy cert then Inr []
      else sbind (jget cert ''days_until_expiry'' JNull) (\<lambda>days.
        Inr (if days = JNull then [] else [''Certificate expires in '' @ shown days @ '' days''])))"

definition is_down :: "json \<Rightarrow> bool" where
  "is_down v = (case v of JObj d \<Rightarrow> map_of d ''status'' \<in> {Some (JStr ''unhealthy''), Some (JStr ''error'')} | _ \<Rightarrow> False)"

definition down_lines :: "json \<Rightarrow> exn + string list" where
  "down_lines services =
     sbind (items_of services) (\<lambda>d.
       let down = map fst (filter (\<lambda>x. is_down (snd x)) d) in
       Inr (if down = [] then [] else [''Unhealthy Services: '' @ join '', '' down]))"

definition local_lines :: "json \<Rightarrow> exn + string list" where
  "local_lines local_services =
     (if \<not> truthy local_services then Inr []
      else sbind (items_of local_services) (\<lambda>d.
        let failed = concat (map failed_service d) in
        Inr (if failed = [] then [] else [''  Failed: '' @ join '', '' failed])))"

definition error_lines :: "dict \<Rightarrow> string list" where
  "error_lines d =
     (case map_of d ''error'' of Some j \<Rightarrow> [nl @ ''Error: '' @ shown j] | None \<Rightarrow> [])
     @ (case map_of d ''cluster_error'' of Some j \<Rightarrow> [nl @ ''Cluster Error: '' @ shown j] | None \<Rightarrow> [])"

definition format_health_message :: "dict \<Rightarrow> string \<Rightarrow> exn + string" where
  "format_health_message d st =
     sbind (dict_item d ''timestamp'') (\<lambda>time.
     sbind (dict_item d ''hostname'') (\<lambda>name.
     sbind (node_lines (dget d ''nodes'')) (\<lambda>nodes.
     sbind (if truthy (dget d ''unhealthy_services_by_node'') then sbind (items_of (dget d ''unhealthy_services_by_node'')) service_lines else Inr []) (\<lambda>by_node.
     sbind (leader_lines (dget d ''leadership'')) (\<lambda>leadership.
     sbind (vip_lines (dget d ''vip_status'')) (\<lambda>vips.
     sbind (cert_lines (dget d ''certificate'')) (\<lambda>cert.
     sbind (down_lines (dget d ''services'')) (\<lambda>down.
     sbind (local_lines (dget d ''local_services'')) (\<lambda>failed.
       Inr (join nl ([''Cluster Status: '' @ upper st, ''Time: '' @ shown time, ''Reporting Node: '' @ shown name]
         @ nodes @ by_node @ leadership @ vips @ cert @ down @ failed @ error_lines d)))))))))))"

section \<open>Sending\<close>

definition beat_once :: "'w beat \<Rightarrow> string \<Rightarrow> ('w, bool) py" where
  "beat_once b url =
     py_bind (get_cluster_health b) (\<lambda>d.
     py_bind (py_lift (determine_health_status d)) (\<lambda>(exit_code, st).
     py_bind (py_lift (format_health_message d st)) (\<lambda>message.
     py_bind (hb_post b (if exit_code \<in> {0, 1} then url else url @ ''/fail'') message) (\<lambda>code. py_return (code = 200)))))"

definition send_heartbeat :: "'w etcd3 \<Rightarrow> 'w beat \<Rightarrow> ('w, bool) py" where
  "send_heartbeat e b =
     py_bind (get_healthchecks_url e b) (\<lambda>u. case u of
       None \<Rightarrow> py_return False
     | Some url \<Rightarrow>
         if url = [] then py_return False
         else py_try (beat_once b url)
           (\<lambda>x. py_seq (py_ignore (hb_post b (url @ ''/fail'') (''Heartbeat script error: '' @ hb_text b x))) (py_return False)))"

definition heartbeat_main :: "'w etcd3 \<Rightarrow> 'w beat \<Rightarrow> ('w, unit) py" where
  "heartbeat_main e b = py_bind (send_heartbeat e b) (\<lambda>ok. py_raise (SystemExit (if ok then 0 else 1)))"


section \<open>What is posted\<close>

text \<open>The address of the monitoring service that a heartbeat finds: none when a call of etcd fails or nothing is configured.\<close>

definition configured_url :: "'w etcd3 \<Rightarrow> ('w \<Rightarrow> store) \<Rightarrow> 'w beat \<Rightarrow> 'w \<Rightarrow> string option" where
  "configured_url e view b s =
     (let s1 = snd (e_client e s); s2 = snd (e_get e HEALTHCHECKS_KEY s1) in
      if isl (fst (e_client e s)) \<or> isl (fst (e_get e HEALTHCHECKS_KEY s1)) then None
      else (case view s2 HEALTHCHECKS_KEY of
          Some (v, _) \<Rightarrow> if blob_true v then Some (hb_decode b v) else None
        | None \<Rightarrow> None))"

text \<open>Calls of etcd may fail and other clients may write at the same time; of the requests only the posts that are tried are
  observed.\<close>

locale beat_env = etcd_env e view rely
  for e :: "'w etcd3" and view :: "'w \<Rightarrow> store" and rely :: "store \<Rightarrow> store \<Rightarrow> bool" +
  fixes b :: "'w beat"
    and posts :: "'w \<Rightarrow> string list"
  assumes etcd_posts: "leaves posts (e_client e)" "leaves posts (e_get e k)"
    and request_posts: "leaves posts (hb_now b)" "leaves posts (hb_get b u)"
    and post_call: "posts (snd (hb_post b u m s)) = posts s @ [u]"
begin

text \<open>The address is the one etcd holds when it is read; a failing call of etcd counts as no address.\<close>

lemma url_run:
  "\<exists>w. get_healthchecks_url e b s = (Inr (configured_url e view b s), w) \<and> posts w = posts s"
proof -
  obtain rc s1 where client: "e_client e s = (rc, s1)" by fastforce
  obtain rg s2 where read: "e_get e HEALTHCHECKS_KEY s1 = (rg, s2)" by fastforce
  have p: "posts s1 = posts s" "posts s2 = posts s1" using leavesD [OF etcd_posts(1) client] leavesD [OF etcd_posts(2) read] by simp_all
  have val: "x = view s2 HEALTHCHECKS_KEY" if "rg = Inr x" for x using get_view [OF read] that by simp
  show ?thesis
  proof (cases rc)
    case (Inl x)
    with client p show ?thesis by (simp add: get_healthchecks_url_def configured_url_def py_defs)
  next
    case (Inr u)
    with client read p val show ?thesis
      by (cases rg) (auto simp: get_healthchecks_url_def configured_url_def py_defs split: option.splits)
  qed
qed

lemma wp_post: "(\<And>r w. posts w = posts s @ [u] \<Longrightarrow> Q r w) \<Longrightarrow> (\<And>x w. posts w = posts s @ [u] \<Longrightarrow> E x w) \<Longrightarrow> wp (hb_post b u m) Q E s"
  using post_call [of u m s] by (auto simp: wp_def split: prod.splits sum.splits)

end

text \<open>The second request leaves what the first found on the verdict of the node.\<close>

lemma keeps_hset: "k \<noteq> j \<Longrightarrow> keeps (\<lambda>d. map_of d j = x) (hset k v)"
  by (simp add: hset_def keeps_def wp_modify update_conv')

lemma keeps_set_from: "k \<noteq> j \<Longrightarrow> keeps (\<lambda>d. map_of d j = x) (set_from c f k v)"
  unfolding set_from_def by (intro keeps_intros keeps_simple keeps_hset)

lemma keeps_take_cluster: "keeps (\<lambda>d. map_of d ''overall'' = x) (take_cluster name reply)"
  unfolding take_cluster_def by (intro keeps_intros keeps_simple keeps_hset keeps_set_from) simp_all

lemma take_local_overall:
  assumes "c \<in> {200, 503}" shows "\<exists>d'. take_local (c, Inr (JObj j)) d = (Inr (), d')
    \<and> map_of d' ''overall'' = Some (case map_of j ''overall'' of Some v \<Rightarrow> v | None \<Rightarrow> JStr ''unknown'')"
  using assms by (auto simp: take_local_def set_from_def hset_def jget_def as_dict_def py_defs update_conv')

lemma determine_unhealthy:
  assumes "map_of d ''overall'' = Some (JStr ''unhealthy'')" "determine_health_status d = Inr (code, st)" shows "code = 2"
  using assms by (auto simp: determine_health_status_def critical_conditions_def sbind_def split: sum.splits)

lemma gather_kept:
  assumes "keeps I m" "I d" shows "I (snd (case m d of (Inr _, d') \<Rightarrow> (None, d') | (Inl x, d') \<Rightarrow> (Some x, d')))"
  using keepsD [OF assms] by (auto simp: wp_def split: prod.splits sum.splits)

context beat_env
begin

lemma wp_gather:
  assumes "\<And>r w. posts w = posts s \<Longrightarrow> hb_get b u s = (Inr r, w) \<Longrightarrow> Q (case use r d of (Inr _, d') \<Rightarrow> (None, d') | (Inl x, d') \<Rightarrow> (Some x, d')) w"
    and "\<And>x w. posts w = posts s \<Longrightarrow> hb_get b u s = (Inl x, w) \<Longrightarrow> Q (Some x, d) w"
  shows "wp (gather (hb_get b u) use d) Q E s"
  unfolding gather_def wp_try wp_bind wp_return
  using assms leavesD [OF request_posts(2), of u s] by (auto simp: wp_def split: prod.splits sum.splits)

lemma wp_health_unhealthy:
  assumes "\<And>s. \<exists>w. hb_get b LOCAL_URL s = (Inr (c, Inr (JObj j)), w)" "c \<in> {200, 503}" "map_of j ''overall'' = Some (JStr ''unhealthy'')"
  shows "wp (get_cluster_health b) (\<lambda>d w. map_of d ''overall'' = Some (JStr ''unhealthy'') \<and> posts w = posts s) (\<lambda>_ w. posts w = posts s) s"
proof -
  let ?U = "\<lambda>d. map_of d ''overall'' = Some (JStr ''unhealthy'')"
  have cluster: "wp (gather (hb_get b CLUSTER_URL) (take_cluster n) d) (\<lambda>x w'. ?U (snd x) \<and> posts w' = posts w) E w" if "?U d" for n d w E
  proof (rule wp_gather)
    fix r w' assume "posts w' = posts w"
    with gather_kept [where I = ?U, OF keeps_take_cluster [of _ n r] that]
    show "?U (snd (case take_cluster n r d of (Inr _, d') \<Rightarrow> (None, d') | (Inl x, d') \<Rightarrow> (Some x, d'))) \<and> posts w' = posts w" by simp
  qed (use that in simp)
  have loc: "wp (gather (hb_get b LOCAL_URL) take_local d) (\<lambda>x w'. fst x = None \<and> ?U (snd x) \<and> posts w' = posts w) E w" for d w E
  proof (rule wp_gather)
    fix r w' assume "posts w' = posts w" "hb_get b LOCAL_URL w = (Inr r, w')"
    moreover from this assms(1) [of w] have "r = (c, Inr (JObj j))" by auto
    moreover obtain d' where "take_local (c, Inr (JObj j)) d = (Inr (), d')" "?U d'"
      using take_local_overall [OF assms(2), of j d] assms(3) by auto
    ultimately show "fst (case take_local r d of (Inr _, d') \<Rightarrow> (None, d') | (Inl x, d') \<Rightarrow> (Some x, d')) = None
        \<and> ?U (snd (case take_local r d of (Inr _, d') \<Rightarrow> (None, d') | (Inl x, d') \<Rightarrow> (Some x, d'))) \<and> posts w' = posts w"
      by simp
  next
    fix x w' assume "hb_get b LOCAL_URL w = (Inl x, w')"
    with assms(1) [of w] show "fst (Some x, d) = None \<and> ?U (snd (Some x, d)) \<and> posts w' = posts w" by auto
  qed
  show ?thesis unfolding get_cluster_health_def wp_bind Let_def
  proof (rule wp_leaves [OF request_posts(1)])
    fix now s1 assume s1: "posts s1 = posts s"
    show "wp (gather (hb_get b LOCAL_URL) take_local (new_data b now)) (\<lambda>x. wp (case x of (failed, d) \<Rightarrow>
        py_bind (gather (hb_get b CLUSTER_URL) (take_cluster (hb_name b)) (case failed of None \<Rightarrow> d
          | Some x \<Rightarrow> AList.update ''overall'' (JStr ''error'') (AList.update ''error'' (JStr (''Failed to get local health: '' @ hb_text b x)) d)))
         (\<lambda>(failed, d). py_return (case failed of None \<Rightarrow> d
          | Some x \<Rightarrow> AList.update ''cluster_error'' (JStr (''Failed to get cluster status: '' @ hb_text b x)) d)))
        (\<lambda>d w. ?U d \<and> posts w = posts s) (\<lambda>_ w. posts w = posts s)) (\<lambda>_ w. posts w = posts s) s1"
      by (rule wp_mono [OF loc])
        (auto simp: wp_bind wp_return s1 update_conv' split: prod.splits option.splits intro!: wp_mono [OF cluster])
  qed simp
qed

lemma wp_beat_unhealthy:
  assumes "\<And>s. \<exists>w. hb_get b LOCAL_URL s = (Inr (c, Inr (JObj j)), w)" "c \<in> {200, 503}" "map_of j ''overall'' = Some (JStr ''unhealthy'')"
  shows "wp (beat_once b url) (\<lambda>_ w. posts w = posts s @ [url @ ''/fail'']) (\<lambda>_ w. posts w \<in> {posts s, posts s @ [url @ ''/fail'']}) s"
  unfolding beat_once_def wp_bind wp_lift
  by (rule wp_mono [OF wp_health_unhealthy [OF assms]])
    (auto simp: wp_bind wp_lift wp_return dest: determine_unhealthy split: sum.splits prod.splits intro!: wp_post)

end

text \<open>C39: When the health API of the node calls it unhealthy and the heartbeat finds the address of the monitoring service (no call
  of etcd fails and an address is configured), it reports a failure and nothing else: whatever the other requests return, and
  also when an exception ends the attempt, every post goes to the failure address and at least one is tried. When it finds no
  address, nothing is posted and the heartbeat reports that it failed.\<close>

theorem unhealthy_raises_alarm:
  assumes env: "beat_env e view rely b posts"
    and local: "\<And>s. \<exists>w. hb_get b LOCAL_URL s = (Inr (c, Inr (JObj j)), w)" "c \<in> {200, 503}" "map_of j ''overall'' = Some (JStr ''unhealthy'')"
    and run: "send_heartbeat e b s = (r, s')"
  shows "if configured_url e view b s \<in> {None, Some []} then posts s' = posts s \<and> r = Inr False
    else \<exists>alarms. posts s' = posts s @ alarms \<and> set alarms = {the (configured_url e view b s) @ ''/fail''}"
proof -
  from beat_env.url_run [OF env, of s] obtain w where read: "get_healthchecks_url e b s = (Inr (configured_url e view b s), w)"
    and w: "posts w = posts s" by blast
  show ?thesis
  proof (cases "configured_url e view b s \<in> {None, Some []}")
    case True
    with run read w show ?thesis by (auto simp: send_heartbeat_def py_bind_def py_return_def)
  next
    case False
    then obtain url where url: "configured_url e view b s = Some url" "url \<noteq> []" by auto
    let ?f = "url @ ''/fail''"
    let ?A = "\<lambda>w. posts w \<in> {posts s @ [?f], posts s @ [?f, ?f]}"
    have again: "wp (py_ignore (hb_post b ?f m)) (\<lambda>_. ?A) (\<lambda>_. ?A) w" if "posts w \<in> {posts s, posts s @ [?f]}" for m w
      unfolding wp_ignore by (rule beat_env.wp_post [OF env]) (use that in auto)
    have "wp (py_try (beat_once b url)
        (\<lambda>x. py_seq (py_ignore (hb_post b ?f (''Heartbeat script error: '' @ hb_text b x))) (py_return False))) (\<lambda>_. ?A) (\<lambda>_. ?A) w"
      using w again by (auto simp: wp_try wp_seq wp_return intro!: wp_mono [OF beat_env.wp_beat_unhealthy [OF env local]])
    moreover have "py_try (beat_once b url)
        (\<lambda>x. py_seq (py_ignore (hb_post b ?f (''Heartbeat script error: '' @ hb_text b x))) (py_return False)) w = (r, s')"
      using run read url by (simp add: send_heartbeat_def py_bind_def [of "get_healthchecks_url e b"])
    ultimately have "?A s'" by (simp add: wp_def split: sum.splits)
    then show ?thesis using url False by fastforce
  qed
qed

section \<open>A heartbeat in memory\<close>

record hbworld =
  hw_kv :: mem
  hw_posts :: "string list"

abbreviation hw_etcd :: "hbworld etcd3" where
  "hw_etcd \<equiv> zoom_etcd hw_kv (\<lambda>k w. w\<lparr>hw_kv := k\<rparr>)"

abbreviation hw_view :: "hbworld \<Rightarrow> store" where
  "hw_view \<equiv> \<lambda>w. mem_view (hw_kv w)"

fun hw_text :: "blob \<Rightarrow> string" where
  "hw_text (Text t) = t"
| "hw_text _ = ''{}''"

definition hw_beat :: "exn + int \<times> (exn + json) \<Rightarrow> exn + int \<times> (exn + json) \<Rightarrow> hbworld beat" where
  "hw_beat node cluster = \<lparr>hb_name = ''s1'', hb_now = py_return ''2025-01-01T00:00:00'', hb_get = (\<lambda>u. py_lift (if u = LOCAL_URL then node else cluster)),
     hb_post = (\<lambda>u m. py_seq (py_modify (\<lambda>w. w\<lparr>hw_posts := hw_posts w @ [u]\<rparr>)) (py_return 200)), hb_text = (\<lambda>_. ''refused''), hb_decode = hw_text\<rparr>"

interpretation hwkv: mem_part hw_kv "\<lambda>k w. w\<lparr>hw_kv := k\<rparr>"
  by unfold_locales simp

interpretation hws: beat_env hw_etcd hw_view "(=)" "hw_beat node cluster" hw_posts for node cluster
  by unfold_locales (auto simp: leaves_zoom_etcd, auto simp: leaves_def hw_beat_def py_defs split: sum.splits)

definition hw_world :: hbworld where
  "hw_world = \<lparr>hw_kv = \<lparr>mem_data = [(HEALTHCHECKS_KEY, (Text ''https://hc/1'', 1))], mem_rev = 1\<rparr>, hw_posts = []\<rparr>"

definition hw_sick :: "hbworld beat" where
  "hw_sick = hw_beat (Inr (503, Inr (JObj [(''overall'', JStr ''unhealthy'')]))) (Inl TypeError)"

theorem unhealthy_raises_alarm_witness:
  "\<exists>alarms. hw_posts (snd (send_heartbeat hw_etcd hw_sick hw_world)) = alarms \<and> set alarms = {''https://hc/1/fail''}"
proof -
  have url: "configured_url hw_etcd hw_view hw_sick hw_world = Some ''https://hc/1''" "hw_posts hw_world = []" by code_simp+
  have node: "\<exists>w. hb_get hw_sick LOCAL_URL s = (Inr (503, Inr (JObj [(''overall'', JStr ''unhealthy'')])), w)" for s
    by (simp add: hw_sick_def hw_beat_def py_defs)
  have "beat_env hw_etcd hw_view (=) hw_sick hw_posts" unfolding hw_sick_def by (rule hws.beat_env_axioms)
  from unhealthy_raises_alarm [OF this node _ _ prod.collapse [symmetric], of hw_world] url show ?thesis by simp
qed

section \<open>Every node is counted once\<close>

lemma tally_step:
  assumes "tally_node x a = Inr a'"
  shows "\<exists>st. node_status (snd x) = Inr st
    \<and> (st = JStr ''disabled'' \<and> a' = a \<or> st = JStr ''healthy'' \<and> a' = a\<lparr>t_healthy := Suc (t_healthy a)\<rparr>
       \<or> st = JStr ''timeout'' \<and> a' = a\<lparr>t_unreachable := t_unreachable a @ [fst x]\<rparr>
       \<or> st = JStr ''unreachable'' \<and> a' = a\<lparr>t_unreachable := t_unreachable a @ [fst x]\<rparr>
       \<or> st \<noteq> JStr ''disabled'' \<and> st \<noteq> JStr ''healthy'' \<and> st \<noteq> JStr ''timeout'' \<and> st \<noteq> JStr ''unreachable''
         \<and> only_clock (fst x) (snd x) = Inr True \<and> a' = a\<lparr>t_healthy := Suc (t_healthy a)\<rparr>
       \<or> st \<noteq> JStr ''disabled'' \<and> st \<noteq> JStr ''healthy'' \<and> st \<noteq> JStr ''timeout'' \<and> st \<noteq> JStr ''unreachable''
         \<and> only_clock (fst x) (snd x) = Inr False \<and> a' = a\<lparr>t_unhealthy := t_unhealthy a @ [fst x]\<rparr>)"
  using assms by (cases "node_status (snd x)"; cases "only_clock (fst x) (snd x)") (auto simp: tally_node_def sbind_def split: if_splits)

text \<open>The counts of the report add up to the nodes that are not disabled; the names are those of the nodes that did not
  answer, and of those in trouble of which not only the clock of a node without storage is to blame.\<close>

theorem nodes_counted_once:
  assumes "tally_nodes host_health no_nodes = Inr t"
  shows "t_healthy t + length (t_unhealthy t) + length (t_unreachable t) = length (filter (\<lambda>x. node_status (snd x) \<noteq> Inr (JStr ''disabled'')) host_health)
    \<and> t_unreachable t = map fst (filter (\<lambda>x. node_status (snd x) \<in> {Inr (JStr ''timeout''), Inr (JStr ''unreachable'')}) host_health)
    \<and> t_unhealthy t = map fst (filter (\<lambda>x. node_status (snd x) \<notin> Inr ` JStr ` {''disabled'', ''healthy'', ''timeout'', ''unreachable''}
         \<and> only_clock (fst x) (snd x) = Inr False) host_health)"
proof -
  have "t_healthy t + length (t_unhealthy t) + length (t_unreachable t)
      = t_healthy a + length (t_unhealthy a) + length (t_unreachable a) + length (filter (\<lambda>x. node_status (snd x) \<noteq> Inr (JStr ''disabled'')) host_health)
    \<and> t_unreachable t = t_unreachable a @ map fst (filter (\<lambda>x. node_status (snd x) \<in> {Inr (JStr ''timeout''), Inr (JStr ''unreachable'')}) host_health)
    \<and> t_unhealthy t = t_unhealthy a @ map fst (filter (\<lambda>x. node_status (snd x) \<notin> Inr ` JStr ` {''disabled'', ''healthy'', ''timeout'', ''unreachable''}
         \<and> only_clock (fst x) (snd x) = Inr False) host_health)" if "tally_nodes host_health a = Inr t" for a
    using that
  proof (induction host_health arbitrary: a)
    case (Cons x xs)
    then obtain a' where step: "tally_node x a = Inr a'" and rest: "tally_nodes xs a' = Inr t" by (auto simp: sbind_def split: sum.splits)
    from tally_step [OF step] Cons.IH [OF rest] show ?case
      by (elim exE conjE disjE; simp add: image_iff)
  qed simp
  from this [OF assms] show ?thesis unfolding no_nodes_def tally.select_convs list.size(3) append_Nil add_0_left .
qed

section \<open>Findings\<close>

text \<open>When neither request is answered, the verdict is healthy and the post goes to the success address.\<close>

theorem outage_reported_healthy:
  "fst (send_heartbeat hw_etcd (hw_beat (Inl ConnectionError) (Inl ConnectionError)) hw_world) = Inr True
   \<and> hw_posts (snd (send_heartbeat hw_etcd (hw_beat (Inl ConnectionError) (Inl ConnectionError)) hw_world)) = [''https://hc/1'']"
  by code_simp

end
