(* ===== verification/YUsers.thy ===== *)
theory YUsers
  imports YCluster
begin

text \<open>
  Accounts at the identity provider (\<open>utils/authentik_manager.py\<close> and the endpoints \<open>/admin/users/data\<close> and
  \<open>/admin/users/action\<close> of \<open>app.py\<close>): invitations, password links, the admin group, and the import of the accounts of
  Open-WebUI. The provider and its database, the database of Open-WebUI, the clock, the environment and the text of an
  exception are the record \<open>idp\<close>; the locale \<open>idp_env\<close> states what is relied on. A key of the provider is printed into
  a path if it is a text or a number.
\<close>

section \<open>The provider\<close>

text \<open>A row of the table of accounts in the provider's database, an account of Open-WebUI, and the calls. An \<open>UPDATE\<close> is
  given by its condition and by what it sets, which may use the time of the database.\<close>

record login =
  lg_username :: string
  lg_password :: "string option"
  lg_changed :: "int option"

record owui_account =
  oa_email :: string
  oa_name :: "string option"
  oa_password :: "string option"
  oa_active :: bool

record 'w idp =
  id_environ :: "string \<Rightarrow> string option"
  id_now :: "('w, int) py"
  id_call :: "string \<Rightarrow> string \<Rightarrow> string \<Rightarrow> (string \<times> string) list \<Rightarrow> json option \<Rightarrow> ('w, int \<times> string \<times> (exn + json)) py"
  id_owui :: "('w, owui_account list) py"
  id_begin :: "('w, unit) py"
  id_update :: "(login \<Rightarrow> bool) \<Rightarrow> (int \<Rightarrow> login \<Rightarrow> login) \<Rightarrow> ('w, nat) py"
  id_commit :: "('w, unit) py"
  id_rollback :: "('w, unit) py"
  id_decode :: "blob \<Rightarrow> string"
  id_text :: "exn \<Rightarrow> string"

definition ENROLLMENT_FLOW_SLUG :: string where
  "ENROLLMENT_FLOW_SLUG = ''enrollment-invitation''"

definition TOKEN_ETCD_KEY :: string where
  "TOKEN_ETCD_KEY = ''/cluster/config/authentik/bootstrap-token''"

definition rstrip_slash :: "string \<Rightarrow> string" where
  "rstrip_slash s = rev (dropWhile (\<lambda>c. c = CHR ''/'') (rev s))"

definition base_url :: "'w idp \<Rightarrow> string" where
  "base_url i = rstrip_slash (case id_environ i ''YC_AUTHENTIK_URL'' of Some u \<Rightarrow> u | None \<Rightarrow> ''http://auth.xc'')"

text \<open>A value of etcd that has to be there: the external domain and the token.\<close>

definition required_value :: "'w etcd3 \<Rightarrow> 'w idp \<Rightarrow> string \<Rightarrow> string \<Rightarrow> ('w, string) py" where
  "required_value e i key msg =
     py_seq (e_client e) (py_bind (e_get e key) (\<lambda>r. case r of
       Some (v, _) \<Rightarrow> if blob_true v then py_return (strip (id_decode i v)) else py_raise (RuntimeError msg)
     | None \<Rightarrow> py_raise (RuntimeError msg)))"

definition link_base_url :: "'w etcd3 \<Rightarrow> 'w idp \<Rightarrow> ('w, string) py" where
  "link_base_url e i =
     (case id_environ i ''YC_AUTHENTIK_LINK_URL'' of
        Some override \<Rightarrow> if override \<noteq> [] then py_return (rstrip_slash override)
          else py_bind (required_value e i ''/cluster/https/domain'' ''no external domain configured'') (\<lambda>d. py_return (''https://auth.'' @ d))
      | None \<Rightarrow> py_bind (required_value e i ''/cluster/https/domain'' ''no external domain configured'') (\<lambda>d. py_return (''https://auth.'' @ d)))"

definition api_token :: "'w etcd3 \<Rightarrow> 'w idp \<Rightarrow> ('w, string) py" where
  "api_token e i = required_value e i TOKEN_ETCD_KEY (''No authentik API token at '' @ TOKEN_ETCD_KEY)"

record session =
  ss_base :: string
  ss_token :: string

definition AuthentikAPI :: "'w etcd3 \<Rightarrow> 'w idp \<Rightarrow> ('w, session) py" where
  "AuthentikAPI e i = py_bind (api_token e i) (\<lambda>t. py_return \<lparr>ss_base = base_url i @ ''/api/v3'', ss_token = t\<rparr>)"

definition api_request :: "'w idp \<Rightarrow> session \<Rightarrow> string \<Rightarrow> string \<Rightarrow> (string \<times> string) list \<Rightarrow> json option \<Rightarrow> ('w, json) py" where
  "api_request i api method path params body =
     py_bind (id_call i (ss_token api) method (ss_base api @ path) params body) (\<lambda>(code, answer, parsed).
       if 400 \<le> code
       then py_raise (RuntimeError (''authentik API '' @ method @ '' '' @ path @ '': '' @ int_str code @ '' '' @ answer))
       else if answer \<noteq> [] then py_lift parsed else py_return JNull)"

definition api_get :: "'w idp \<Rightarrow> session \<Rightarrow> string \<Rightarrow> (string \<times> string) list \<Rightarrow> ('w, json) py" where
  "api_get i api path params = api_request i api ''GET'' path params None"

definition api_post :: "'w idp \<Rightarrow> session \<Rightarrow> string \<Rightarrow> dict \<Rightarrow> ('w, json) py" where
  "api_post i api path body = api_request i api ''POST'' path [] (Some (JObj body))"

text \<open>\<open>j[k]\<close>, \<open>j[0]\<close> and \<open>for x in j\<close> on a value of a reply.\<close>

definition jitem :: "json \<Rightarrow> string \<Rightarrow> exn + json" where
  "jitem j k = (case j of JObj d \<Rightarrow> dict_item d k | _ \<Rightarrow> Inl TypeError)"

fun jfirst :: "json \<Rightarrow> exn + json" where
  "jfirst (JList (x # _)) = Inr x"
| "jfirst (JList []) = Inl IndexError"
| "jfirst (JStr (c # _)) = Inr (JStr [c])"
| "jfirst (JStr []) = Inl IndexError"
| "jfirst (JObj _) = Inl (KeyError ''0'')"
| "jfirst _ = Inl TypeError"

fun jiter :: "json \<Rightarrow> exn + json list" where
  "jiter (JList xs) = Inr xs"
| "jiter (JObj d) = Inr (map (JStr \<circ> fst) d)"
| "jiter (JStr s) = Inr (map (\<lambda>c. JStr [c]) s)"
| "jiter _ = Inl TypeError"

definition api_results :: "'w idp \<Rightarrow> session \<Rightarrow> string \<Rightarrow> (string \<times> string) list \<Rightarrow> ('w, json) py" where
  "api_results i api path params = py_bind (api_get i api path params) (\<lambda>j. py_lift (jitem j ''results''))"

definition flow_pk :: "'w idp \<Rightarrow> session \<Rightarrow> string \<Rightarrow> ('w, json) py" where
  "flow_pk i api slug =
     py_bind (api_results i api ''/flows/instances/'' [(''slug'', slug)]) (\<lambda>flows.
       if \<not> truthy flows then py_raise (RuntimeError (''flow '' @ slug @ '' not found''))
       else py_lift (sbind (jfirst flows) (\<lambda>f. jitem f ''pk'')))"

definition get_user :: "'w idp \<Rightarrow> session \<Rightarrow> string \<Rightarrow> ('w, json) py" where
  "get_user i api email =
     py_bind (api_results i api ''/core/users/'' [(''username'', email)]) (\<lambda>users.
       if \<not> truthy users then py_raise (RuntimeError (''no account for '' @ email)) else py_lift (jfirst users))"

section \<open>Operations\<close>

definition authentik_add_user :: "'w etcd3 \<Rightarrow> 'w idp \<Rightarrow> string \<Rightarrow> string option \<Rightarrow> bool \<Rightarrow> ('w, dict) py" where
  "authentik_add_user e i email name active =
     py_bind (AuthentikAPI e i) (\<lambda>api.
     py_bind (api_post i api ''/core/users/''
       [(''username'', JStr email), (''email'', JStr email),
        (''name'', JStr (case name of Some n \<Rightarrow> if n \<noteq> [] then n else email | None \<Rightarrow> email)),
        (''type'', JStr ''internal''), (''is_active'', JBool active)]) (\<lambda>user.
     py_bind (py_lift (jitem user ''pk'')) (\<lambda>pk. py_return [(''email'', JStr email), (''pk'', pk)])))"

text \<open>The condition and the effect of the \<open>UPDATE\<close> of the import.\<close>

definition unset_password :: "string option \<Rightarrow> bool" where
  "unset_password p = (case p of None \<Rightarrow> True | Some t \<Rightarrow> t = [] \<or> startswith t ''!'')"

definition import_where :: "string \<Rightarrow> login \<Rightarrow> bool" where
  "import_where email r = (lg_username r = email \<and> unset_password (lg_password r))"

definition import_set :: "string \<Rightarrow> int \<Rightarrow> login \<Rightarrow> login" where
  "import_set pw_hash now r = r\<lparr>lg_password := Some (''bcrypt$'' @ pw_hash), lg_changed := Some now\<rparr>"

definition import_result :: "string \<Rightarrow> string \<Rightarrow> string \<Rightarrow> json" where
  "import_result email action detail = JObj [(''email'', JStr email), (''action'', JStr action), (''detail'', JStr detail)]"

definition import_account :: "'w etcd3 \<Rightarrow> 'w idp \<Rightarrow> bool \<Rightarrow> json list \<Rightarrow> owui_account \<Rightarrow> json list \<Rightarrow> ('w, json list) py" where
  "import_account e i dry_run existing a results =
     (let email = oa_email a; pw_hash = (case oa_password a of Some h \<Rightarrow> h | None \<Rightarrow> []); created = JStr email \<notin> set existing in
      if \<not> startswith pw_hash ''$2'' then py_return (results @ [import_result email ''skipped'' ''no bcrypt hash in Open-WebUI''])
      else if dry_run
      then py_return (results @ [import_result email ''would-import'' (if created then ''new account'' else ''existing account'')])
      else
        py_seq (py_when created (py_seq (authentik_add_user e i email (oa_name a) (oa_active a)) (py_return ())))
        (py_bind (id_update i (import_where email) (import_set pw_hash)) (\<lambda>rowcount.
          py_return (results @ [if rowcount \<noteq> 0 then import_result email ''imported'' (if created then ''created account'' else [])
            else import_result email ''kept'' ''password already set in authentik'']))))"

fun usernames :: "json list \<Rightarrow> exn + json list" where
  "usernames [] = Inr []"
| "usernames (u # us) =
     sbind (jitem u ''username'') (\<lambda>n. if hashable n then map_sum id ((#) n) (usernames us) else Inl TypeError)"

definition import_owui_users :: "'w etcd3 \<Rightarrow> 'w idp \<Rightarrow> bool \<Rightarrow> ('w, json list) py" where
  "import_owui_users e i dry_run =
     py_bind (AuthentikAPI e i) (\<lambda>api.
     py_bind (api_results i api ''/core/users/'' [(''page_size'', ''500'')]) (\<lambda>users.
     py_bind (py_lift (sbind (jiter users) usernames)) (\<lambda>existing.
     py_bind (id_owui i) (\<lambda>accounts.
     py_seq (id_begin i)
     (py_bind (py_try (py_fold (import_account e i dry_run existing) accounts [])
        (\<lambda>x. py_seq (id_rollback i) (py_raise x))) (\<lambda>results.
      py_seq (id_commit i) (py_return results)))))))"

definition invitation_name :: "string \<Rightarrow> string" where
  "invitation_name email = ''invite-'' @ concat (map (\<lambda>c. if c = CHR ''@'' then ''-at-'' else if c = CHR ''.'' then ''-'' else [c]) email)"

definition invitation_doc :: "string \<Rightarrow> json option \<Rightarrow> json \<Rightarrow> int \<Rightarrow> int \<Rightarrow> dict" where
  "invitation_doc email name flow now days =
     [(''name'', JStr (invitation_name email)), (''flow'', flow), (''single_use'', JBool True),
      (''expires'', JStr (iso_utc (now + days * 86400000000))),
      (''fixed_data'', JObj [(''username'', JStr email), (''email'', JStr email),
         (''name'', case name of Some n \<Rightarrow> if truthy n then n else JStr email | None \<Rightarrow> JStr email)])]"

definition flow_link :: "string \<Rightarrow> json \<Rightarrow> string" where
  "flow_link base pk = base @ ''/if/flow/'' @ ENROLLMENT_FLOW_SLUG @ ''/?itoken='' @ shown pk"

definition invite_user :: "'w etcd3 \<Rightarrow> 'w idp \<Rightarrow> string \<Rightarrow> json option \<Rightarrow> int \<Rightarrow> ('w, string) py" where
  "invite_user e i email name days =
     py_bind (AuthentikAPI e i) (\<lambda>api.
     py_bind (api_results i api ''/core/users/'' [(''username'', email)]) (\<lambda>existing.
       if truthy existing then py_raise (RuntimeError (''account '' @ email @ '' already exists''))
       else
         py_bind (flow_pk i api ENROLLMENT_FLOW_SLUG) (\<lambda>flow.
         py_bind (id_now i) (\<lambda>now.
         py_bind (api_post i api ''/stages/invitation/invitations/'' (invitation_doc email name flow now days)) (\<lambda>invitation.
         py_bind (link_base_url e i) (\<lambda>base.
         py_bind (py_lift (jitem invitation ''pk'')) (\<lambda>pk. py_return (flow_link base pk))))))))"

text \<open>The listing of accounts, sorted by address.\<close>

fun group_names :: "json list \<Rightarrow> exn + json list" where
  "group_names [] = Inr []"
| "group_names (g # gs) = sbind (jget g ''name'' JNull) (\<lambda>n. map_sum id ((#) n) (group_names gs))"

definition user_row :: "json \<Rightarrow> exn + dict option" where
  "user_row u =
     sbind (jitem u ''type'') (\<lambda>kind.
     if kind \<notin> {JStr ''internal'', JStr ''external''} then Inr None
     else
       sbind (jget u ''groups_obj'' JNull) (\<lambda>groups.
       sbind (if truthy groups then jiter groups else Inr []) (\<lambda>gs.
       sbind (group_names gs) (\<lambda>names.
       sbind (jitem u ''email'') (\<lambda>mail.
       sbind (if truthy mail then Inr mail else jitem u ''username'') (\<lambda>email.
       sbind (jitem u ''name'') (\<lambda>name.
       sbind (jitem u ''is_active'') (\<lambda>active.
       sbind (jitem u ''last_login'') (\<lambda>last_login.
         Inr (Some [(''email'', email), (''name'', name), (''type'', kind), (''active'', JBool (truthy active)),
           (''last_login'', last_login), (''is_admin'', JBool (JStr ADMIN_GROUP \<in> set names))]))))))))))"

fun user_rows :: "json list \<Rightarrow> exn + dict list" where
  "user_rows [] = Inr []"
| "user_rows (u # us) =
     sbind (user_row u) (\<lambda>r. map_sum id (\<lambda>rs. case r of Some d \<Rightarrow> d # rs | None \<Rightarrow> rs) (user_rows us))"

definition row_email :: "dict \<Rightarrow> string" where
  "row_email r = (case map_of r ''email'' of Some (JStr m) \<Rightarrow> m | _ \<Rightarrow> [])"

definition sort_rows :: "dict list \<Rightarrow> exn + dict list" where
  "sort_rows rows =
     (if length rows \<le> 1 then Inr rows
      else if list_all (\<lambda>r. map_of r ''email'' = Some (JStr (row_email r))) rows then Inr (sort_key row_email rows)
      else Inl TypeError)"

definition users_data :: "'w etcd3 \<Rightarrow> 'w idp \<Rightarrow> ('w, dict list) py" where
  "users_data e i =
     py_bind (AuthentikAPI e i) (\<lambda>api.
     py_bind (api_results i api ''/core/users/'' [(''page_size'', ''500'')]) (\<lambda>users.
       py_lift (sbind (jiter users) (\<lambda>us. sbind (user_rows us) sort_rows))))"

text \<open>The data an invitation is bound to: \<open>inv.get('fixed_data') or {}\<close>, used as a dict.\<close>

definition fixed_data :: "json \<Rightarrow> exn + dict" where
  "fixed_data entry = sbind (jget entry ''fixed_data'' JNull) (\<lambda>fixed. as_dict (if truthy fixed then fixed else JObj []))"

fun invitation_rows :: "string \<Rightarrow> json list \<Rightarrow> exn + dict list" where
  "invitation_rows base [] = Inr []"
| "invitation_rows base (entry # entries) =
     sbind (fixed_data entry) (\<lambda>fixed.
     sbind (jitem entry ''name'') (\<lambda>name.
     sbind (jitem entry ''expires'') (\<lambda>expires.
     sbind (jitem entry ''pk'') (\<lambda>pk.
       map_sum id ((#) [(''email'', case map_of fixed ''email'' of Some m \<Rightarrow> m | None \<Rightarrow> name), (''expires'', expires),
         (''url'', JStr (flow_link base pk))]) (invitation_rows base entries)))))"

definition invitations_data :: "'w etcd3 \<Rightarrow> 'w idp \<Rightarrow> ('w, dict list) py" where
  "invitations_data e i =
     py_bind (AuthentikAPI e i) (\<lambda>api.
     py_bind (api_results i api ''/stages/invitation/invitations/'' [(''page_size'', ''500'')]) (\<lambda>invitations.
     py_bind (link_base_url e i) (\<lambda>base. py_lift (sbind (jiter invitations) (invitation_rows base)))))"

definition set_admin :: "'w etcd3 \<Rightarrow> 'w idp \<Rightarrow> string \<Rightarrow> bool \<Rightarrow> ('w, string) py" where
  "set_admin e i email remove =
     py_bind (AuthentikAPI e i) (\<lambda>api.
     py_bind (get_user i api email) (\<lambda>user.
     py_bind (api_results i api ''/core/groups/'' [(''name'', ADMIN_GROUP)]) (\<lambda>groups.
       if \<not> truthy groups then py_raise (RuntimeError (''group '' @ ADMIN_GROUP @ '' not found''))
       else
         py_bind (py_lift (sbind (jfirst groups) (\<lambda>g. jitem g ''pk''))) (\<lambda>group.
         py_bind (py_lift (jitem user ''pk'')) (\<lambda>pk.
         py_seq (api_post i api (''/core/groups/'' @ shown group @ ''/'' @ (if remove then ''remove_user'' else ''add_user'') @ ''/'') [(''pk'', pk)])
           (py_return ((if remove then ''removed '' else ''added '') @ email @ (if remove then '' from '' else '' to '') @ ADMIN_GROUP)))))))"

text \<open>\<open>link.split('/if/', 1)[1]\<close>.\<close>

fun after_part :: "string \<Rightarrow> string \<Rightarrow> exn + string" where
  "after_part p [] = Inl IndexError"
| "after_part p (c # cs) = (if startswith (c # cs) p then Inr (drop (length p) (c # cs)) else after_part p cs)"

definition recovery_link :: "'w etcd3 \<Rightarrow> 'w idp \<Rightarrow> string \<Rightarrow> ('w, string) py" where
  "recovery_link e i email =
     py_bind (AuthentikAPI e i) (\<lambda>api.
     py_bind (get_user i api email) (\<lambda>user.
     py_bind (py_lift (jitem user ''pk'')) (\<lambda>pk.
     py_bind (api_post i api (''/core/users/'' @ shown pk @ ''/recovery/'') []) (\<lambda>result.
     py_bind (py_lift (jitem result ''link'')) (\<lambda>link.
     py_bind (link_base_url e i) (\<lambda>base.
       py_lift (case link of JStr l \<Rightarrow> map_sum id (\<lambda>r. base @ ''/if/'' @ r) (after_part ''/if/'' l) | _ \<Rightarrow> Inl AttributeError)))))))"

fun invitations_for :: "string \<Rightarrow> json list \<Rightarrow> exn + json list" where
  "invitations_for email [] = Inr []"
| "invitations_for email (entry # entries) =
     sbind (fixed_data entry) (\<lambda>fixed.
       map_sum id (\<lambda>rest. if map_of fixed ''email'' = Some (JStr email) then entry # rest else rest) (invitations_for email entries))"

definition revoke_one :: "'w idp \<Rightarrow> session \<Rightarrow> json \<Rightarrow> ('w, unit) py" where
  "revoke_one i api entry =
     py_bind (py_lift (jitem entry ''pk'')) (\<lambda>pk.
     py_seq (api_request i api ''DELETE'' (''/stages/invitation/invitations/'' @ shown pk @ ''/'') [] None) (py_return ()))"

definition revoke_invitation :: "'w etcd3 \<Rightarrow> 'w idp \<Rightarrow> string \<Rightarrow> ('w, nat) py" where
  "revoke_invitation e i email =
     py_bind (AuthentikAPI e i) (\<lambda>api.
     py_bind (api_results i api ''/stages/invitation/invitations/'' [(''page_size'', ''500'')]) (\<lambda>invitations.
     py_bind (py_lift (sbind (jiter invitations) (invitations_for email))) (\<lambda>matched.
     py_seq (py_for matched (revoke_one i api)) (py_return (length matched)))))"

section \<open>The endpoints\<close>

definition users_data_view :: "'w etcd3 \<Rightarrow> 'w idp \<Rightarrow> auth_headers \<Rightarrow> ('w, response) py" where
  "users_data_view e i hdrs =
     (if \<not> snd (authentik_identity hdrs) then py_return (error_response 403 ''admin only'')
      else py_try
        (py_bind (users_data e i) (\<lambda>users.
         py_bind (invitations_data e i) (\<lambda>invitations.
           py_return (200, [(''users'', JList (map JObj users)), (''invitations'', JList (map JObj invitations))]))))
        (\<lambda>x. py_return (error_response 502 (id_text i x))))"

text \<open>\<open>re.fullmatch(r'[^@\s]+@[^@\s]+\.[^@\s]+', email)\<close>.\<close>

definition email_ok :: "string \<Rightarrow> bool" where
  "email_ok s =
     (list_all (\<lambda>c. \<not> is_space c) s \<and>
      (case split_on (CHR ''@'') s of
         [a, r] \<Rightarrow> a \<noteq> [] \<and> list_ex (\<lambda>k. r ! k = CHR ''.'') [1..<length r - 1]
       | _ \<Rightarrow> False))"

text \<open>\<open>int(x)\<close> of a value of the request.\<close>

fun json_int :: "json \<Rightarrow> exn + int" where
  "json_int (JInt n) = Inr n"
| "json_int (JBool v) = Inr (if v then 1 else 0)"
| "json_int (JStr s) = (case py_int s of Some n \<Rightarrow> Inr n | None \<Rightarrow> Inl (ValueError s))"
| "json_int _ = Inl TypeError"

definition invite_days :: "dict \<Rightarrow> exn + int" where
  "invite_days data = map_sum id (\<lambda>n. max 1 (min 90 n)) (json_int (if otruthy (map_of data ''days'') then the (map_of data ''days'') else JInt 7))"

definition request_email :: "dict \<Rightarrow> exn + string" where
  "request_email data =
     (case map_of data ''email'' of
        Some j \<Rightarrow> if truthy j then map_sum id strip (case j of JStr s \<Rightarrow> Inr s | _ \<Rightarrow> Inl AttributeError) else Inr []
      | None \<Rightarrow> Inr [])"

definition do_action :: "'w etcd3 \<Rightarrow> 'w idp \<Rightarrow> dict \<Rightarrow> string \<Rightarrow> ('w, response) py" where
  "do_action e i data email =
     (let action = map_of data ''action'' in
      if action = Some (JStr ''invite'')
      then py_bind (py_lift (invite_days data)) (\<lambda>days.
           py_bind (invite_user e i email (if otruthy (map_of data ''name'') then map_of data ''name'' else None) days) (\<lambda>url.
             py_return (200, [(''ok'', JBool True), (''url'', JStr url)])))
      else if action = Some (JStr ''uninvite'')
      then py_bind (revoke_invitation e i email) (\<lambda>count.
             py_return (200, [(''ok'', JBool True), (''message'', JStr (''revoked '' @ nat_str count @ '' invitation(s)''))]))
      else if action = Some (JStr ''recovery'')
      then py_bind (recovery_link e i email) (\<lambda>url. py_return (200, [(''ok'', JBool True), (''url'', JStr url)]))
      else if action \<in> {Some (JStr ''admin_add''), Some (JStr ''admin_remove'')}
      then py_bind (set_admin e i email (action = Some (JStr ''admin_remove''))) (\<lambda>msg.
             py_return (200, [(''ok'', JBool True), (''message'', JStr msg)]))
      else py_return (error_response 400 ''unknown action''))"

definition users_action :: "'w etcd3 \<Rightarrow> 'w idp \<Rightarrow> auth_headers \<Rightarrow> dict \<Rightarrow> ('w, response) py" where
  "users_action e i hdrs data =
     (if \<not> snd (authentik_identity hdrs) then py_return (error_response 403 ''admin only'')
      else py_bind (py_lift (request_email data)) (\<lambda>email.
        if \<not> email_ok email then py_return (error_response 400 ''invalid email'')
        else py_try (do_action e i data email) (\<lambda>x. py_return (error_response 400 (id_text i x)))))"

section \<open>What is relied on\<close>

text \<open>The requests an action may make besides reading: \<open>owner\<close> is the name of the account a key stands for, \<open>group_of\<close>
  that of a group, and \<open>invitee\<close> the address an invitation is bound to.\<close>

definition concerns ::
  "string \<Rightarrow> (json \<Rightarrow> string option) \<Rightarrow> (json \<Rightarrow> string option) \<Rightarrow> (json \<Rightarrow> string option) \<Rightarrow> string \<Rightarrow> string
    \<Rightarrow> string \<times> string \<times> json option \<Rightarrow> bool" where
  "concerns base owner group_of invitee action email req =
     (action = ''invite'' \<and> (\<exists>name flow now days. 1 \<le> days \<and> days \<le> 90
        \<and> req = (''POST'', base @ ''/stages/invitation/invitations/'', Some (JObj (invitation_doc email name flow now days))))
      \<or> action = ''uninvite'' \<and> (\<exists>p. invitee p = Some email
        \<and> req = (''DELETE'', base @ ''/stages/invitation/invitations/'' @ shown p @ ''/'', None))
      \<or> action = ''recovery'' \<and> (\<exists>p. owner p = Some email
        \<and> req = (''POST'', base @ ''/core/users/'' @ shown p @ ''/recovery/'', Some (JObj [])))
      \<or> action = ''admin_add'' \<and> (\<exists>g p. group_of g = Some ADMIN_GROUP \<and> owner p = Some email
        \<and> req = (''POST'', base @ ''/core/groups/'' @ shown g @ ''/add_user/'', Some (JObj [(''pk'', p)])))
      \<or> action = ''admin_remove'' \<and> (\<exists>g p. group_of g = Some ADMIN_GROUP \<and> owner p = Some email
        \<and> req = (''POST'', base @ ''/core/groups/'' @ shown g @ ''/remove_user/'', Some (JObj [(''pk'', p)]))))"

text \<open>What a reply says about the keys in it: \<open>entries\<close> are its results.\<close>

definition reply_entries :: "(int \<times> string \<times> (exn + json)) \<Rightarrow> dict set" where
  "reply_entries r =
     (case r of (code, _, Inr (JObj d)) \<Rightarrow>
        (case map_of d ''results'' of Some (JList xs) \<Rightarrow> if code < 400 then {x. JObj x \<in> set xs} else {} | _ \<Rightarrow> {})
      | _ \<Rightarrow> {})"

locale idp_env =
  fixes e :: "'w etcd3"
    and i :: "'w idp"
    and sent :: "'w \<Rightarrow> (string \<times> string \<times> json option) list"
    and stored :: "'w \<Rightarrow> login list"
    and table :: "'w \<Rightarrow> login list"
    and owner :: "json \<Rightarrow> string option"
    and group_of :: "json \<Rightarrow> string option"
    and invitee :: "json \<Rightarrow> string option"
  assumes quiet: "leaves (\<lambda>w. (sent w, stored w, table w)) (e_client e)" "leaves (\<lambda>w. (sent w, stored w, table w)) (e_get e k)"
      "leaves (\<lambda>w. (sent w, stored w, table w)) (id_now i)" "leaves (\<lambda>w. (sent w, stored w, table w)) (id_owui i)"
      "leaves (\<lambda>w. (sent w, stored w, table w)) (id_call i t ''GET'' u ps b)"
    and call_sent: "m \<noteq> ''GET'' \<Longrightarrow> sent (snd (id_call i t m u ps b s)) = sent s @ [(m, u, b)]"
    and call_rows: "u = base_url i @ ''/api/v3/core/users/'' \<Longrightarrow>
        \<exists>new. stored (snd (id_call i t ''POST'' u ps b s)) = stored s @ new \<and> table (snd (id_call i t ''POST'' u ps b s)) = table s @ new"
    and database_sent: "leaves sent (id_begin i)" "leaves sent (id_update i P f)" "leaves sent (id_commit i)" "leaves sent (id_rollback i)"
    and not_committed: "leaves stored (id_begin i)" "leaves stored (id_update i P f)" "leaves stored (id_rollback i)"
    and begin_table: "id_begin i s = (Inr z, s') \<Longrightarrow> table s' = stored s"
    and update_table: "id_update i P f s = (r, s') \<Longrightarrow>
        (case r of Inr n \<Rightarrow> \<exists>now. table s' = map (\<lambda>l. if P l then f now l else l) (table s) \<and> n = length (filter P (table s))
         | Inl _ \<Rightarrow> table s' = table s)"
    and commit_stored: "id_commit i s = (q, s') \<Longrightarrow> stored s' = table s \<or> stored s' = stored s \<and> isl q"
    and account_key: "id_call i t ''GET'' (base_url i @ ''/api/v3/core/users/'') [(''username'', name)] None s = (Inr y, s')
        \<Longrightarrow> x \<in> reply_entries y \<Longrightarrow> map_of x ''pk'' = Some p \<Longrightarrow> owner p = Some name"
    and group_key: "id_call i t ''GET'' (base_url i @ ''/api/v3/core/groups/'') [(''name'', name)] None s = (Inr y, s')
        \<Longrightarrow> x \<in> reply_entries y \<Longrightarrow> map_of x ''pk'' = Some p \<Longrightarrow> group_of p = Some name"
    and invitation_key: "id_call i t ''GET'' (base_url i @ ''/api/v3/stages/invitation/invitations/'') [(''page_size'', ''500'')] None s = (Inr y, s')
        \<Longrightarrow> x \<in> reply_entries y \<Longrightarrow> map_of x ''pk'' = Some p \<Longrightarrow> fixed_data (JObj x) = Inr fixed
        \<Longrightarrow> map_of fixed ''email'' = Some (JStr name) \<Longrightarrow> invitee p = Some name"
begin

abbreviation obs :: "'w \<Rightarrow> (string \<times> string \<times> json option) list \<times> login list \<times> login list" where
  "obs w \<equiv> (sent w, stored w, table w)"

lemma keeps_obs: "leaves obs m \<Longrightarrow> keeps (\<lambda>w. J (obs w)) m"
  by (rule keepsI, erule wp_leaves) auto

lemmas keeps_quiet = quiet [THEN keeps_obs]

lemma keeps_required: "keeps (\<lambda>w. J (obs w)) (required_value e i k msg)"
  unfolding required_value_def by (intro keeps_intros keeps_quiet) (auto split: option.splits)

lemma keeps_link: "keeps (\<lambda>w. J (obs w)) (link_base_url e i)"
  unfolding link_base_url_def by (auto split: option.splits intro!: keeps_intros keeps_required)

lemma wp_session: "J (obs s) \<Longrightarrow> wp (AuthentikAPI e i) (\<lambda>api w. ss_base api = base_url i @ ''/api/v3'' \<and> J (obs w)) (\<lambda>_ w. J (obs w)) s"
  unfolding AuthentikAPI_def api_token_def wp_bind wp_return
  by (rule wp_mono [OF keepsD [OF keeps_required]]) auto

lemma keeps_session: "keeps (\<lambda>w. J (obs w)) (AuthentikAPI e i)"
  by (rule keepsI, rule wp_mono [OF wp_session]) auto

lemma keeps_read: "keeps (\<lambda>w. J (obs w)) (api_get i api path params)" "keeps (\<lambda>w. J (obs w)) (api_results i api path params)"
  "keeps (\<lambda>w. J (obs w)) (flow_pk i api slug)"
proof -
  show get: "keeps (\<lambda>w. J (obs w)) (api_get i api path params)" for path params
    unfolding api_get_def api_request_def by (intro keeps_intros keeps_quiet) (auto split: prod.splits)
  show results: "keeps (\<lambda>w. J (obs w)) (api_results i api path params)" for path params
    unfolding api_results_def by (intro keeps_intros get) simp
  show "keeps (\<lambda>w. J (obs w)) (flow_pk i api slug)"
    unfolding flow_pk_def by (intro keeps_bind results) simp
qed

text \<open>The results of a reading request that returns are those of a reply, and its keys mean what the reply says.\<close>

lemma wp_results:
  assumes "J (obs s)"
    and "\<And>t y x. (\<exists>s s'. id_call i t ''GET'' (ss_base api @ path) params None s = (Inr y, s')) \<Longrightarrow> x \<in> reply_entries y \<Longrightarrow> D x"
  shows "wp (api_results i api path params) (\<lambda>r w. J (obs w) \<and> (\<forall>xs x. r = JList xs \<longrightarrow> JObj x \<in> set xs \<longrightarrow> D x)) (\<lambda>_ w. J (obs w)) s"
  unfolding api_results_def api_get_def api_request_def wp_bind
proof (rule wp_leaves [OF quiet(5)])
  fix y s' assume s': "obs s' = obs s" and call: "id_call i (ss_token api) ''GET'' (ss_base api @ path) params None s = (Inr y, s')"
  obtain code answer parsed where y: "y = (code, answer, parsed)" by (cases y) auto
  have D: "D x" if "parsed = Inr (JObj d)" "map_of d ''results'' = Some (JList xs)" "code < 400" "JObj x \<in> set xs" for d xs x
    using assms(2) [of "ss_token api" y x] call that by (fastforce simp: reply_entries_def y)
  show "wp (case y of (code, answer, parsed) \<Rightarrow> if 400 \<le> code
        then py_raise (RuntimeError (''authentik API '' @ ''GET'' @ '' '' @ path @ '': '' @ int_str code @ '' '' @ answer))
        else if answer \<noteq> [] then py_lift parsed else py_return JNull)
      (\<lambda>x. wp (py_lift (jitem x ''results'')) (\<lambda>r w. J (obs w) \<and> (\<forall>xs x. r = JList xs \<longrightarrow> JObj x \<in> set xs \<longrightarrow> D x)) (\<lambda>_ w. J (obs w)))
      (\<lambda>_ w. J (obs w)) s'"
    using assms(1) s' D by (auto simp: y wp_raise wp_lift wp_return jitem_def split: sum.splits json.splits)
qed (use assms(1) in simp)

end

section \<open>Requests made by an action\<close>

definition only :: "(string \<times> string \<times> json option \<Rightarrow> bool) \<Rightarrow> (string \<times> string \<times> json option) list
    \<Rightarrow> (string \<times> string \<times> json option) list \<times> login list \<times> login list \<Rightarrow> bool" where
  "only R before o' = (\<exists>new. fst o' = before @ new \<and> (\<forall>r\<in>set new. R r))"

lemma wp_bindI:
  assumes "wp m P F s" "\<And>x w. P x w \<Longrightarrow> wp (f x) Q E w" "\<And>x w. F x w \<Longrightarrow> E x w"
  shows "wp (py_bind m f) Q E s"
  unfolding wp_bind by (rule wp_mono [OF assms])

lemma wp_bind_liftI: "(\<And>x. r = Inr x \<Longrightarrow> wp (f x) Q E s) \<Longrightarrow> (\<And>x. E x s) \<Longrightarrow> wp (py_bind (py_lift r) f) Q E s"
  by (cases r) (simp_all add: wp_bind wp_lift)

lemma wp_refuseI: "(c \<Longrightarrow> E x s) \<Longrightarrow> (\<not> c \<Longrightarrow> wp m Q E s) \<Longrightarrow> wp (if c then py_raise x else m) Q E s"
  by (simp add: wp_raise)

context idp_env
begin

lemma only_here: "only R (sent s) (obs s)"
  by (simp add: only_def)

lemma only_sent: "only R before (obs s) \<Longrightarrow> sent s' = sent s @ [r] \<Longrightarrow> R r \<Longrightarrow> only R before (obs s')"
  unfolding only_def fst_conv by (elim exE conjE, rule_tac x = "new @ [r]" in exI) simp

lemma wp_change:
  assumes "only R before (obs s)" "R (method, ss_base api @ path, body)" "method \<noteq> ''GET''"
  shows "wp (api_request i api method path params body) (\<lambda>_ w. only R before (obs w)) (\<lambda>_ w. only R before (obs w)) s"
proof -
  have "wp (id_call i (ss_token api) method (ss_base api @ path) params body) (\<lambda>_ w. only R before (obs w)) (\<lambda>_ w. only R before (obs w)) s"
    using only_sent [OF assms(1) call_sent [OF assms(3)] assms(2), of "ss_token api" params]
    by (auto simp: wp_def split: prod.splits sum.splits)
  then show ?thesis unfolding api_request_def wp_bind
    by (rule wp_mono) (auto simp: wp_raise wp_lift wp_return split: prod.splits sum.splits)
qed

lemma keeps_only: "keeps (\<lambda>w. only R before (obs w)) (AuthentikAPI e i)" "keeps (\<lambda>w. only R before (obs w)) (link_base_url e i)"
  "keeps (\<lambda>w. only R before (obs w)) (api_results i api path params)" "keeps (\<lambda>w. only R before (obs w)) (flow_pk i api slug)"
  "keeps (\<lambda>w. only R before (obs w)) (id_now i)"
  by (rule keeps_session keeps_link keeps_read keeps_quiet)+

lemma wp_only_session: "only R before (obs s)
  \<Longrightarrow> wp (AuthentikAPI e i) (\<lambda>api w. ss_base api = base_url i @ ''/api/v3'' \<and> only R before (obs w)) (\<lambda>_ w. only R before (obs w)) s"
  by (rule wp_session)

text \<open>The keys of accounts, of groups and of invitations.\<close>

lemma wp_keys:
  assumes "only R before (obs s)" "ss_base api = base_url i @ ''/api/v3''"
  shows "wp (api_results i api ''/core/users/'' [(''username'', name)])
      (\<lambda>r w. only R before (obs w) \<and> (\<forall>xs x. r = JList xs \<longrightarrow> JObj x \<in> set xs \<longrightarrow> (\<forall>p. map_of x ''pk'' = Some p \<longrightarrow> owner p = Some name)))
      (\<lambda>_ w. only R before (obs w)) s"
    and "wp (api_results i api ''/core/groups/'' [(''name'', name)])
      (\<lambda>r w. only R before (obs w) \<and> (\<forall>xs x. r = JList xs \<longrightarrow> JObj x \<in> set xs \<longrightarrow> (\<forall>p. map_of x ''pk'' = Some p \<longrightarrow> group_of p = Some name)))
      (\<lambda>_ w. only R before (obs w)) s"
    and "wp (api_results i api ''/stages/invitation/invitations/'' [(''page_size'', ''500'')])
      (\<lambda>r w. only R before (obs w) \<and> (\<forall>xs x. r = JList xs \<longrightarrow> JObj x \<in> set xs \<longrightarrow> (\<forall>p fixed m. map_of x ''pk'' = Some p \<longrightarrow>
         fixed_data (JObj x) = Inr fixed \<longrightarrow> map_of fixed ''email'' = Some (JStr m) \<longrightarrow> invitee p = Some m)))
      (\<lambda>_ w. only R before (obs w)) s"
  by (rule wp_results [where J = "only R before", OF assms(1)], use account_key group_key invitation_key in \<open>force simp: assms(2)\<close>)+

lemma first_key: "jfirst r = Inr u \<Longrightarrow> jitem u ''pk'' = Inr p \<Longrightarrow> \<forall>xs x. r = JList xs \<longrightarrow> JObj x \<in> set xs \<longrightarrow> (\<forall>p. map_of x ''pk'' = Some p \<longrightarrow> D p) \<Longrightarrow> D p"
  by (cases r rule: jfirst.cases) (auto simp: jitem_def split: json.splits)

lemma wp_user:
  assumes "only R before (obs s)" "ss_base api = base_url i @ ''/api/v3''"
  shows "wp (get_user i api email) (\<lambda>u w. only R before (obs w) \<and> (\<forall>p. jitem u ''pk'' = Inr p \<longrightarrow> owner p = Some email)) (\<lambda>_ w. only R before (obs w)) s"
  unfolding get_user_def
  by (rule wp_bindI [OF wp_keys(1) [OF assms]])
    (auto simp: wp_raise wp_lift split: sum.splits dest: first_key [where D = "\<lambda>p. owner p = Some email"])

lemma wp_recovery:
  assumes "only R before (obs s)" "\<And>p. owner p = Some email \<Longrightarrow> R (''POST'', base_url i @ ''/api/v3'' @ ''/core/users/'' @ shown p @ ''/recovery/'', Some (JObj []))"
  shows "wp (recovery_link e i email) (\<lambda>_ w. only R before (obs w)) (\<lambda>_ w. only R before (obs w)) s"
proof -
  have rest: "keeps (\<lambda>w. only R before (obs w)) (py_bind (py_lift (jitem result ''link'')) (\<lambda>link. py_bind (link_base_url e i) (\<lambda>base.
       py_lift (case link of JStr l \<Rightarrow> map_sum id (\<lambda>r. base @ ''/if/'' @ r) (after_part ''/if/'' l) | _ \<Rightarrow> Inl AttributeError))))" for result
    by (intro keeps_bind keeps_only keeps_simple)
  have post: "wp (py_bind (api_post i api (''/core/users/'' @ shown p @ ''/recovery/'') []) g) (\<lambda>_ w. only R before (obs w)) (\<lambda>_ w. only R before (obs w)) w"
    if "owner p = Some email" "ss_base api = base_url i @ ''/api/v3''" "only R before (obs w)" "\<And>x. keeps (\<lambda>w. only R before (obs w)) (g x)" for api p g w
    unfolding api_post_def by (rule wp_bindI [OF wp_change [OF that(3)]]) (use that assms(2) in \<open>auto dest: keepsD\<close>)
  show ?thesis unfolding recovery_link_def
    by (rule wp_bindI [OF wp_only_session [OF assms(1)]], elim conjE, rule wp_bindI [OF wp_user], assumption+, elim conjE,
        rule wp_bind_liftI, rule post) (use rest in auto)
qed

lemma wp_set_admin:
  assumes "only R before (obs s)" "\<And>g p. group_of g = Some ADMIN_GROUP \<Longrightarrow> owner p = Some email
    \<Longrightarrow> R (''POST'', base_url i @ ''/api/v3'' @ ''/core/groups/'' @ shown g @ ''/'' @ (if remove then ''remove_user'' else ''add_user'') @ ''/'', Some (JObj [(''pk'', p)]))"
  shows "wp (set_admin e i email remove) (\<lambda>_ w. only R before (obs w)) (\<lambda>_ w. only R before (obs w)) s"
proof -
  have post: "wp (py_seq (api_post i api (''/core/groups/'' @ shown g @ ''/'' @ (if remove then ''remove_user'' else ''add_user'') @ ''/'') [(''pk'', p)]) (py_return z))
      (\<lambda>_ w. only R before (obs w)) (\<lambda>_ w. only R before (obs w)) w"
    if "group_of g = Some ADMIN_GROUP" "owner p = Some email" "ss_base api = base_url i @ ''/api/v3''" "only R before (obs w)" for api g p z w
    unfolding wp_seq wp_return api_post_def by (rule wp_change [OF that(4)]) (use that assms(2) in auto)
  have group: "group_of g = Some ADMIN_GROUP" if "sbind (jfirst r) (\<lambda>g. jitem g ''pk'') = Inr g"
    "\<forall>xs x. r = JList xs \<longrightarrow> JObj x \<in> set xs \<longrightarrow> (\<forall>p. map_of x ''pk'' = Some p \<longrightarrow> group_of p = Some ADMIN_GROUP)" for r g
    using first_key [of r _ g "\<lambda>p. group_of p = Some ADMIN_GROUP"] that by (auto simp: sbind_def split: sum.splits)
  show ?thesis unfolding set_admin_def
    by (rule wp_bindI [OF wp_only_session [OF assms(1)]], elim conjE, rule wp_bindI [OF wp_user], assumption+, elim conjE,
        rule wp_bindI [OF wp_keys(2)], assumption+, elim conjE, rule wp_refuseI, assumption, rule wp_bind_liftI, rule wp_bind_liftI, rule post)
      (use group in auto)
qed

lemma wp_invite:
  assumes "only R before (obs s)" "\<And>flow now. R (''POST'', base_url i @ ''/api/v3'' @ ''/stages/invitation/invitations/'', Some (JObj (invitation_doc email name flow now days)))"
  shows "wp (invite_user e i email name days) (\<lambda>_ w. only R before (obs w)) (\<lambda>_ w. only R before (obs w)) s"
proof -
  have post: "keeps (\<lambda>w. only R before (obs w)) (api_post i api ''/stages/invitation/invitations/'' (invitation_doc email name flow now days))"
    if "ss_base api = base_url i @ ''/api/v3''" for api flow now
    unfolding api_post_def by (rule keepsI, rule wp_change) (use that assms(2) in auto)
  have "keeps (\<lambda>w. only R before (obs w)) (py_bind (api_results i api ''/core/users/'' [(''username'', email)]) (\<lambda>existing.
       if truthy existing then py_raise (RuntimeError (''account '' @ email @ '' already exists''))
       else py_bind (flow_pk i api ENROLLMENT_FLOW_SLUG) (\<lambda>flow. py_bind (id_now i) (\<lambda>now.
         py_bind (api_post i api ''/stages/invitation/invitations/'' (invitation_doc email name flow now days)) (\<lambda>invitation.
         py_bind (link_base_url e i) (\<lambda>base. py_bind (py_lift (jitem invitation ''pk'')) (\<lambda>pk. py_return (flow_link base pk))))))))"
    if "ss_base api = base_url i @ ''/api/v3''" for api
    using post [OF that] by (auto intro!: keeps_bind keeps_only)
  then show ?thesis unfolding invite_user_def
    by (intro wp_bindI [OF wp_only_session [OF assms(1)]]) (auto dest: keepsD)
qed

lemma invitations_matched:
  assumes "invitations_for email es = Inr ms" "entry \<in> set ms"
  shows "entry \<in> set es \<and> (\<exists>fixed. fixed_data entry = Inr fixed \<and> map_of fixed ''email'' = Some (JStr email))"
  using assms
  by (induction email es arbitrary: ms rule: invitations_for.induct) (auto simp: sbind_def split: sum.splits if_splits)

lemma wp_revoke:
  assumes "only R before (obs s)" "\<And>p. invitee p = Some email \<Longrightarrow> R (''DELETE'', base_url i @ ''/api/v3'' @ ''/stages/invitation/invitations/'' @ shown p @ ''/'', None)"
  shows "wp (revoke_invitation e i email) (\<lambda>_ w. only R before (obs w)) (\<lambda>_ w. only R before (obs w)) s"
proof -
  have one: "keeps (\<lambda>w. only R before (obs w)) (revoke_one i api entry)"
    if "ss_base api = base_url i @ ''/api/v3''" "\<And>p. jitem entry ''pk'' = Inr p \<Longrightarrow> invitee p = Some email" for api entry
  proof (rule keepsI)
    fix w assume "only R before (obs w)"
    then show "wp (revoke_one i api entry) (\<lambda>_ w. only R before (obs w)) (\<lambda>_ w. only R before (obs w)) w"
      unfolding revoke_one_def using that assms(2)
      by (auto simp: wp_bind wp_seq wp_return wp_lift split: sum.splits intro!: wp_change)
  qed
  have each: "keeps (\<lambda>w. only R before (obs w)) (py_seq (py_for ms (revoke_one i api)) (py_return n))"
    if "sbind (jiter r) (invitations_for email) = Inr ms" "ss_base api = base_url i @ ''/api/v3''"
      "\<forall>xs x. r = JList xs \<longrightarrow> JObj x \<in> set xs \<longrightarrow> (\<forall>p fixed m. map_of x ''pk'' = Some p \<longrightarrow>
         fixed_data (JObj x) = Inr fixed \<longrightarrow> map_of fixed ''email'' = Some (JStr m) \<longrightarrow> invitee p = Some m)" for r ms api n
  proof (intro keeps_seq keeps_for one keeps_simple that(2))
    fix entry p assume "entry \<in> set ms" "jitem entry ''pk'' = Inr p"
    with that(1) obtain es where es: "jiter r = Inr es" "invitations_for email es = Inr ms" by (auto simp: sbind_def split: sum.splits)
    from invitations_matched [OF es(2) \<open>entry \<in> set ms\<close>] \<open>jitem entry ''pk'' = Inr p\<close> es(1) that(3)
    show "invitee p = Some email" by (cases r) (auto simp: jitem_def split: json.splits)
  qed
  show ?thesis unfolding revoke_invitation_def
    by (rule wp_bindI [OF wp_only_session [OF assms(1)]], elim conjE, rule wp_bindI [OF wp_keys(3)], assumption+, elim conjE)
      (auto simp: wp_bind [of "py_lift _"] wp_lift split: sum.splits intro!: keepsD [OF each])
qed

end

lemma invite_days_range: "invite_days data = Inr days \<Longrightarrow> 1 \<le> days \<and> days \<le> 90"
  by (auto simp: invite_days_def map_sum_def split: sum.splits)

context idp_env
begin

lemma wp_action:
  assumes "only R before (obs s)"
    and "\<And>action q. map_of data ''action'' = Some (JStr action)
      \<Longrightarrow> concerns (base_url i @ ''/api/v3'') owner group_of invitee action email q \<Longrightarrow> R q"
  shows "wp (do_action e i data email) (\<lambda>_ w. only R before (obs w)) (\<lambda>_ w. only R before (obs w)) s"
proof -
  let ?a = "map_of data ''action''"
  consider (invite) "?a = Some (JStr ''invite'')" | (uninvite) "?a = Some (JStr ''uninvite'')" | (recovery) "?a = Some (JStr ''recovery'')"
    | (add) "?a = Some (JStr ''admin_add'')" | (remove) "?a = Some (JStr ''admin_remove'')"
    | (unknown) "?a \<notin> Some ` JStr ` {''invite'', ''uninvite'', ''recovery'', ''admin_add'', ''admin_remove''}" by blast
  then show ?thesis
  proof cases
    case invite
    have R: "R (''POST'', base_url i @ ''/api/v3'' @ ''/stages/invitation/invitations/'', Some (JObj (invitation_doc email name flow now days)))"
      if "invite_days data = Inr days" for name flow now days
      by (rule assms(2) [OF invite]) (use invite_days_range [OF that] in \<open>auto simp: concerns_def\<close>)
    show ?thesis unfolding do_action_def Let_def invite
      by (simp only: if_True simp_thms, rule wp_bind_liftI, unfold wp_bind wp_return, rule wp_mono [OF wp_invite [OF assms(1)]])
        (use R assms(1) in auto)
  next
    case uninvite
    show ?thesis unfolding do_action_def Let_def
      by (simp add: uninvite wp_bind wp_return, rule wp_mono [OF wp_revoke [OF assms(1)]], rule assms(2) [OF uninvite], auto simp: concerns_def)
  next
    case recovery
    show ?thesis unfolding do_action_def Let_def
      by (simp add: recovery wp_bind wp_return, rule wp_mono [OF wp_recovery [OF assms(1)]], rule assms(2) [OF recovery], auto simp: concerns_def)
  next
    case add
    show ?thesis unfolding do_action_def Let_def
      by (simp add: add wp_bind wp_return, rule wp_mono [OF wp_set_admin [OF assms(1)]], rule assms(2) [OF add], auto simp: concerns_def)
  next
    case remove
    show ?thesis unfolding do_action_def Let_def
      by (simp add: remove wp_bind wp_return, rule wp_mono [OF wp_set_admin [OF assms(1)]], rule assms(2) [OF remove], auto simp: concerns_def)
  next
    case unknown
    then show ?thesis using assms(1) by (auto simp: do_action_def Let_def wp_return)
  qed
qed

end

text \<open>C35: Whoever calls the account page, the provider is only asked to change what the request names. A caller who is not
  an admin is refused before anything is called. Otherwise every request made that is not a reading one belongs to the action
  and to the address of the request, which is well formed: an invitation bound to the address that ends within 90 days,
  the removal of an invitation bound to it, a password link for the account of that name, or its membership in the
  admin group.\<close>

theorem users_action_scope:
  assumes env: "idp_env e i sent stored table owner group_of invitee" and run: "users_action e i hdrs data s = (r, s')"
  shows "(\<not> snd (authentik_identity hdrs) \<longrightarrow> r = Inr (error_response 403 ''admin only'') \<and> s' = s)
    \<and> (\<exists>new. sent s' = sent s @ new \<and> (\<forall>q\<in>set new. \<exists>action email. map_of data ''action'' = Some (JStr action)
        \<and> request_email data = Inr email \<and> email_ok email \<and> concerns (base_url i @ ''/api/v3'') owner group_of invitee action email q))"
proof -
  let ?R = "\<lambda>q. \<exists>action email. map_of data ''action'' = Some (JStr action) \<and> request_email data = Inr email \<and> email_ok email
    \<and> concerns (base_url i @ ''/api/v3'') owner group_of invitee action email q"
  let ?I = "\<lambda>w. only ?R (sent s) (sent w, stored w, table w)"
  have start: "?I s" by (simp add: only_def)
  have "wp (do_action e i data email) (\<lambda>_. ?I) (\<lambda>_. ?I) s" if "request_email data = Inr email" "email_ok email" for email
    by (rule idp_env.wp_action [OF env start]) (use that in auto)
  then have "wp (users_action e i hdrs data) (\<lambda>_. ?I) (\<lambda>_. ?I) s"
    unfolding users_action_def wp_if wp_bind wp_lift wp_return wp_try using start by (auto split: sum.splits)
  then have "?I s'" using run by (auto simp: wp_def split: sum.splits)
  with run show ?thesis by (auto simp: only_def users_action_def py_return_def)
qed

section \<open>The import keeps passwords\<close>

text \<open>What may become of a row: it stays, or, when it had no usable password, it gets the hash of the account of the same
  name. Rows may be added after the old ones.\<close>

definition kept :: "owui_account set \<Rightarrow> login \<Rightarrow> login \<Rightarrow> bool" where
  "kept A l l' = (l' = l \<or> unset_password (lg_password l)
     \<and> (\<exists>a\<in>A. \<exists>h now. oa_email a = lg_username l \<and> oa_password a = Some h \<and> startswith h ''$2'' \<and> l' = import_set h now l))"

definition rows_kept :: "owui_account set \<Rightarrow> login list \<Rightarrow> login list \<Rightarrow> bool" where
  "rows_kept A rows rows' = (\<exists>old new. rows' = old @ new \<and> list_all2 (kept A) rows old)"

lemma kept_update:
  assumes "kept A l l'" "a \<in> A" "oa_password a = Some h" "startswith h ''$2''"
  shows "kept A l (if import_where (oa_email a) l' then import_set h now l' else l')"
proof (cases "l' = l")
  case True
  then show ?thesis using assms(2-4) by (auto simp: kept_def import_where_def)
next
  case False
  then have "\<not> unset_password (lg_password l')" using assms(1)
    by (auto simp: kept_def import_set_def unset_password_def startswith_def)
  with assms(1) show ?thesis by (simp add: import_where_def)
qed

lemma rows_kept_refl: "rows_kept A rows rows"
  unfolding rows_kept_def by (intro exI [of _ rows] exI [of _ "[]"]) (simp add: list_all2_refl kept_def)

lemma rows_kept_append: "rows_kept A rows rows' \<Longrightarrow> rows_kept A rows (rows' @ new)"
  by (auto simp: rows_kept_def) (metis append.assoc)

lemma rows_kept_update:
  assumes "rows_kept A rows rows'" "a \<in> A" "oa_password a = Some h" "startswith h ''$2''"
  shows "rows_kept A rows (map (\<lambda>l. if import_where (oa_email a) l then import_set h now l else l) rows')"
proof -
  obtain old new where rows': "rows' = old @ new" and old: "list_all2 (kept A) rows old" using assms(1) by (auto simp: rows_kept_def)
  have "list_all2 (kept A) rows (map (\<lambda>l. if import_where (oa_email a) l then import_set h now l else l) old)"
    unfolding list_all2_map2 by (rule list_all2_mono [OF old]) (rule kept_update [OF _ assms(2-4)])
  then show ?thesis unfolding rows_kept_def rows' map_append by blast
qed

context idp_env
begin

abbreviation safe :: "owui_account set \<Rightarrow> login list \<Rightarrow> 'w \<Rightarrow> bool" where
  "safe A rows w \<equiv> rows_kept A rows (stored w) \<and> rows_kept A rows (table w)"

lemma keeps_safe_call: "u = base_url i @ ''/api/v3/core/users/'' \<Longrightarrow> keeps (safe A rows) (id_call i t ''POST'' u ps b)"
proof (rule keepsI)
  fix w assume u: "u = base_url i @ ''/api/v3/core/users/''" and "safe A rows w"
  with call_rows [OF u, of t ps b w] have "safe A rows (snd (id_call i t ''POST'' u ps b w))" by (auto intro: rows_kept_append)
  then show "wp (id_call i t ''POST'' u ps b) (\<lambda>_. safe A rows) (\<lambda>_. safe A rows) w" by (auto simp: wp_def split: prod.splits sum.splits)
qed

lemma wp_safe_session: "safe A rows s
  \<Longrightarrow> wp (AuthentikAPI e i) (\<lambda>api w. ss_base api = base_url i @ ''/api/v3'' \<and> safe A rows w) (\<lambda>_. safe A rows) s"
  using wp_session [of "\<lambda>(_, st, tb). rows_kept A rows st \<and> rows_kept A rows tb" s] by simp

lemma keeps_safe_add_user: "keeps (safe A rows) (authentik_add_user e i email name active)"
proof (rule keepsI)
  fix w assume "safe A rows w"
  have post: "keeps (safe A rows) (api_post i api ''/core/users/'' body)" if "ss_base api = base_url i @ ''/api/v3''" for api body
    unfolding api_post_def api_request_def by (intro keeps_intros keeps_safe_call) (auto simp: that split: prod.splits)
  show "wp (authentik_add_user e i email name active) (\<lambda>_. safe A rows) (\<lambda>_. safe A rows) w"
    unfolding authentik_add_user_def
    by (rule wp_bindI [OF wp_safe_session [OF \<open>safe A rows w\<close>]], rule keepsD, intro keeps_intros post) auto
qed

lemma keeps_safe_update:
  assumes "a \<in> A" "oa_password a = Some h" "startswith h ''$2''"
  shows "keeps (safe A rows) (id_update i (import_where (oa_email a)) (import_set h))"
proof (rule keepsI)
  fix w assume w: "safe A rows w"
  obtain r w' where run: "id_update i (import_where (oa_email a)) (import_set h) w = (r, w')" by (metis surj_pair)
  have "safe A rows w'"
    using update_table [OF run] leavesD [OF not_committed(2) run] w rows_kept_update [OF _ assms, of rows "table w"]
    by (auto split: sum.splits)
  then show "wp (id_update i (import_where (oa_email a)) (import_set h)) (\<lambda>_. safe A rows) (\<lambda>_. safe A rows) w"
    by (simp add: wp_def run split: sum.splits)
qed

lemma keeps_safe_account: "a \<in> A \<Longrightarrow> keeps (safe A rows) (import_account e i dry_run existing a results)"
  unfolding import_account_def Let_def
  by (auto split: option.splits simp: startswith_def [of "[]"] intro!: keeps_intros keeps_safe_add_user keeps_safe_update)

lemma wp_begin:
  assumes "rows_kept A rows (stored s)" "\<And>w. safe A rows w \<Longrightarrow> sent w = sent s \<Longrightarrow> stored w = stored s \<Longrightarrow> table w = stored s \<Longrightarrow> Q () w"
    "\<And>x w. stored w = stored s \<Longrightarrow> sent w = sent s \<Longrightarrow> E x w"
  shows "wp (id_begin i) Q E s"
proof -
  obtain r w where run: "id_begin i s = (r, w)" by (metis surj_pair)
  note same = leavesD [OF not_committed(1) run] leavesD [OF database_sent(1) run]
  show ?thesis using same begin_table [of s _ w] run assms by (cases r) (auto simp: wp_def)
qed

lemma wp_commit:
  assumes "\<And>x w. stored w \<in> {stored s, table s} \<Longrightarrow> sent w = sent s \<Longrightarrow> Q x w" "\<And>x w. stored w \<in> {stored s, table s} \<Longrightarrow> sent w = sent s \<Longrightarrow> E x w"
  shows "wp (id_commit i) Q E s"
proof -
  obtain r w where run: "id_commit i s = (r, w)" by (metis surj_pair)
  show ?thesis using leavesD [OF database_sent(3) run] commit_stored [OF run] run assms by (cases r) (auto simp: wp_def)
qed

lemma keeps_rollback: "keeps (\<lambda>w. J (sent w) (stored w)) (id_rollback i)"
  by (rule keepsI, rule wp_leaves [of "\<lambda>w. (sent w, stored w)"])
    (use database_sent(4) not_committed(3) in \<open>auto simp: leaves_def\<close>)

text \<open>The import as a whole, for what it promises (\<open>J\<close> of requests and stored rows) and what its loop keeps (\<open>I\<close>).\<close>

lemma wp_import:
  assumes owui: "\<And>s xs s'. id_owui i s = (Inr xs, s') \<Longrightarrow> set xs \<subseteq> A"
    and start: "J (sent s) (stored s)" "rows_kept A rows (stored s)"
    and loop: "\<And>a existing results. a \<in> A \<Longrightarrow> keeps I (import_account e i dry_run existing a results)"
    and enter: "\<And>w. safe A rows w \<Longrightarrow> sent w = sent s \<Longrightarrow> stored w = stored s \<Longrightarrow> table w = stored s \<Longrightarrow> I w"
    and leave: "\<And>w. I w \<Longrightarrow> J (sent w) (stored w) \<and> J (sent w) (table w)"
  shows "wp (import_owui_users e i dry_run) (\<lambda>_ w. J (sent w) (stored w)) (\<lambda>_ w. J (sent w) (stored w)) s"
proof -
  let ?S = "\<lambda>w. sent w = sent s \<and> stored w = stored s"
  have quiet': "keeps ?S (AuthentikAPI e i)" "keeps ?S (api_results i api path ps)" "keeps ?S (id_owui i)" for api path ps
    using keeps_session [of "\<lambda>(q, st, _). q = sent s \<and> st = stored s"] keeps_read(2) [of "\<lambda>(q, st, _). q = sent s \<and> st = stored s"]
      keeps_quiet(4) [of "\<lambda>(q, st, _). q = sent s \<and> st = stored s"] by simp_all
  have body: "wp (py_bind (py_try (py_fold (import_account e i dry_run existing) accounts [])
        (\<lambda>x. py_seq (id_rollback i) (py_raise x))) (\<lambda>results. py_seq (id_commit i) (py_return results)))
      (\<lambda>_ w. J (sent w) (stored w)) (\<lambda>_ w. J (sent w) (stored w)) w" if "set accounts \<subseteq> A" "I w" for existing accounts w
  proof -
    have fold: "keeps I (py_fold (import_account e i dry_run existing) accounts [])" using that(1) by (intro keeps_fold loop) auto
    have undo: "wp (id_rollback i) (\<lambda>_ w. J (sent w) (stored w)) (\<lambda>_ w. J (sent w) (stored w)) w" if "I w" for w
      using keepsD [OF keeps_rollback [of J], of w] leave [OF that] by simp
    show ?thesis unfolding wp_bind wp_try wp_seq wp_return wp_raise
      by (rule wp_mono [OF keepsD [OF fold that(2)]]) (use leave undo in \<open>auto intro!: wp_commit\<close>)
  qed
  have owui': "wp (id_owui i) (\<lambda>xs w. set xs \<subseteq> A \<and> ?S w) (\<lambda>_. ?S) w" if "?S w" for w
    using keepsD [OF quiet'(3) that] owui [of w] by (auto simp: wp_def split: prod.splits sum.splits)
  have database: "wp (py_seq (id_begin i) (py_bind (py_try (py_fold (import_account e i dry_run existing) accounts [])
        (\<lambda>x. py_seq (id_rollback i) (py_raise x))) (\<lambda>results. py_seq (id_commit i) (py_return results))))
      (\<lambda>_ w. J (sent w) (stored w)) (\<lambda>_ w. J (sent w) (stored w)) w" if "set accounts \<subseteq> A" "?S w" for existing accounts w
    unfolding wp_seq [of "id_begin i"] by (rule wp_begin [of A rows]) (use start that body [OF that(1)] enter in auto)
  show ?thesis unfolding import_owui_users_def
    by (rule wp_bindI [OF keepsD [OF quiet'(1)]], simp, rule wp_bindI [OF keepsD [OF quiet'(2)]], assumption,
        rule wp_bind_liftI, rule wp_bindI [OF owui'], assumption, rule database) (use start in auto)
qed

end

text \<open>C36: The import never replaces a password that is set. Whatever fails on the way, every account the provider had before
  is still there, unchanged or, when it had no usable password, with the bcrypt hash that Open-WebUI has for the
  same address. A dry run changes no account and makes no changing request.\<close>

theorem import_never_overwrites:
  assumes env: "idp_env e i sent stored table owner group_of invitee"
    and owui: "\<And>s xs s'. id_owui i s = (Inr xs, s') \<Longrightarrow> set xs \<subseteq> A"
    and run: "import_owui_users e i dry_run s = (r, s')"
  shows "rows_kept A (stored s) (stored s') \<and> (dry_run \<longrightarrow> stored s' = stored s \<and> sent s' = sent s)"
proof -
  have "wp (import_owui_users e i dry_run) (\<lambda>_ w. rows_kept A (stored s) (stored w)) (\<lambda>_ w. rows_kept A (stored s) (stored w)) s"
    by (rule idp_env.wp_import [OF env owui, where J = "\<lambda>_ st. rows_kept A (stored s) st"
          and I = "\<lambda>w. rows_kept A (stored s) (stored w) \<and> rows_kept A (stored s) (table w)"])
      (use rows_kept_refl idp_env.keeps_safe_account [OF env] in auto)
  then have 1: "rows_kept A (stored s) (stored s')" using run by (auto simp: wp_def split: sum.splits)
  have "wp (import_owui_users e i True) (\<lambda>_ w. stored w = stored s \<and> sent w = sent s) (\<lambda>_ w. stored w = stored s \<and> sent w = sent s) s"
    by (rule idp_env.wp_import [OF env owui, where J = "\<lambda>q st. st = stored s \<and> q = sent s" and rows = "stored s"
          and I = "\<lambda>w. sent w = sent s \<and> stored w = stored s \<and> table w = stored s"])
      (use rows_kept_refl in \<open>auto simp: import_account_def Let_def\<close>)
  then have "dry_run \<longrightarrow> stored s' = stored s \<and> sent s' = sent s" using run by (auto simp: wp_def split: sum.splits)
  with 1 show ?thesis by simp
qed

section \<open>A provider in memory\<close>

text \<open>The key of an account, of a group and of an invitation is its name.\<close>

record idworld =
  iw_kv :: mem
  iw_sent :: "(string \<times> string \<times> json option) list"
  iw_stored :: "login list"
  iw_table :: "login list"
  iw_invited :: "string list"

abbreviation iw_etcd :: "idworld etcd3" where
  "iw_etcd \<equiv> zoom_etcd iw_kv (\<lambda>k w. w\<lparr>iw_kv := k\<rparr>)"

definition iw_list :: "string list \<Rightarrow> int \<times> string \<times> (exn + json)" where
  "iw_list names = (200, ''ok'', Inr (JObj [(''results'', JList (map (\<lambda>n. JObj
     [(''pk'', JStr n), (''username'', JStr n), (''fixed_data'', JObj [(''email'', JStr n)])]) names))]))"

definition iw_read :: "idworld \<Rightarrow> string \<Rightarrow> (string \<times> string) list \<Rightarrow> int \<times> string \<times> (exn + json)" where
  "iw_read w u ps =
     (if u = ''http://auth.xc/api/v3/core/users/''
      then iw_list (filter (\<lambda>n. case map_of ps ''username'' of Some m \<Rightarrow> n = m | None \<Rightarrow> True) (map lg_username (iw_stored w)))
      else if u = ''http://auth.xc/api/v3/stages/invitation/invitations/'' then iw_list (iw_invited w)
      else iw_list (map snd ps))"

definition iw_new :: "string \<Rightarrow> json option \<Rightarrow> login list" where
  "iw_new u b =
     (if u = ''http://auth.xc/api/v3/core/users/''
      then (case b of Some (JObj d) \<Rightarrow> [\<lparr>lg_username = (case get_str d ''username'' of Some n \<Rightarrow> n | None \<Rightarrow> []), lg_password = Some ''!'', lg_changed = None\<rparr>]
        | _ \<Rightarrow> [])
      else [])"

definition iw_call :: "string \<Rightarrow> string \<Rightarrow> string \<Rightarrow> (string \<times> string) list \<Rightarrow> json option \<Rightarrow> (idworld, int \<times> string \<times> (exn + json)) py" where
  "iw_call t m u ps b =
     (if m = ''GET'' then py_get (\<lambda>w. iw_read w u ps)
      else py_seq (py_modify (\<lambda>w. w\<lparr>iw_sent := iw_sent w @ [(m, u, b)], iw_stored := iw_stored w @ iw_new u b, iw_table := iw_table w @ iw_new u b\<rparr>))
        (py_return (200, ''ok'', Inr (JObj [(''pk'', JStr ''p1''), (''link'', JStr ''http://auth.xc/if/flow/r/?t=1'')]))))"

definition iw_update :: "(login \<Rightarrow> bool) \<Rightarrow> (int \<Rightarrow> login \<Rightarrow> login) \<Rightarrow> (idworld, nat) py" where
  "iw_update P f = py_bind (py_get (\<lambda>w. length (filter P (iw_table w)))) (\<lambda>n.
     py_seq (py_modify (\<lambda>w. w\<lparr>iw_table := map (\<lambda>l. if P l then f 5 l else l) (iw_table w)\<rparr>)) (py_return n))"

definition iw_idp :: "owui_account list \<Rightarrow> idworld idp" where
  "iw_idp accounts = \<lparr>id_environ = (\<lambda>_. None), id_now = py_return 0, id_call = iw_call, id_owui = py_return accounts,
     id_begin = py_modify (\<lambda>w. w\<lparr>iw_table := iw_stored w\<rparr>), id_update = iw_update,
     id_commit = py_modify (\<lambda>w. w\<lparr>iw_stored := iw_table w\<rparr>), id_rollback = py_modify (\<lambda>w. w\<lparr>iw_table := iw_stored w\<rparr>),
     id_decode = (\<lambda>v. case v of Text t \<Rightarrow> t | _ \<Rightarrow> ''{}''), id_text = (\<lambda>x. case x of RuntimeError m \<Rightarrow> m | _ \<Rightarrow> ''error'')\<rparr>"

lemma iw_keys: "x \<in> reply_entries (iw_list names) \<Longrightarrow> map_of x ''pk'' = Some p
  \<Longrightarrow> \<exists>n. n \<in> set names \<and> p = JStr n \<and> fixed_data (JObj x) = Inr [(''email'', JStr n)]"
  by (auto simp: reply_entries_def iw_list_def fixed_data_def jget_def as_dict_def sbind_def)

interpretation iws: idp_env iw_etcd "iw_idp accounts" iw_sent iw_stored iw_table the_str the_str the_str for accounts
proof
  let ?i = "iw_idp accounts"
  have base: "base_url ?i = ''http://auth.xc''" by (simp add: base_url_def iw_idp_def rstrip_slash_def)
  have call: "id_call ?i t ''GET'' u ps None s = (Inr y, s') \<longleftrightarrow> y = iw_read s u ps \<and> s' = s" for t u ps s y s'
    by (auto simp: iw_idp_def iw_call_def py_defs)
  show "the_str p = Some name" if "id_call ?i t ''GET'' (base_url ?i @ ''/api/v3/core/users/'') [(''username'', name)] None s = (Inr y, s')"
    "x \<in> reply_entries y" "map_of x ''pk'' = Some p" for t name s y s' x p
    using that by (auto simp: call base iw_read_def dest!: iw_keys)
  show "the_str p = Some name" if "id_call ?i t ''GET'' (base_url ?i @ ''/api/v3/core/groups/'') [(''name'', name)] None s = (Inr y, s')"
    "x \<in> reply_entries y" "map_of x ''pk'' = Some p" for t name s y s' x p
    using that by (auto simp: call base iw_read_def dest!: iw_keys)
  show "the_str p = Some name" if "id_call ?i t ''GET'' (base_url ?i @ ''/api/v3/stages/invitation/invitations/'') [(''page_size'', ''500'')] None s = (Inr y, s')"
    "x \<in> reply_entries y" "map_of x ''pk'' = Some p" "fixed_data (JObj x) = Inr fixed" "map_of fixed ''email'' = Some (JStr name)" for t name s y s' x p fixed
    using that by (auto simp: call base iw_read_def dest!: iw_keys)
qed (auto simp: leaves_zoom_etcd, auto simp: iw_idp_def leaves_def iw_call_def iw_update_def py_defs)

definition iw_world :: idworld where
  "iw_world = \<lparr>iw_kv = \<lparr>mem_data = [(TOKEN_ETCD_KEY, (Text ''t'', 1))], mem_rev = 1\<rparr>, iw_sent = [],
     iw_stored = [\<lparr>lg_username = ''a@x.org'', lg_password = Some ''argon2$1'', lg_changed = Some 1\<rparr>,
       \<lparr>lg_username = ''b@x.org'', lg_password = Some ''!u'', lg_changed = None\<rparr>], iw_table = [], iw_invited = [''c@x.org'', ''d@x.org'']\<rparr>"

definition iw_accounts :: "owui_account list" where
  "iw_accounts = map (\<lambda>m. \<lparr>oa_email = m, oa_name = None, oa_password = Some ''$2b$9'', oa_active = True\<rparr>) [''a@x.org'', ''b@x.org'', ''n@x.org'']"

text \<open>An admin revokes the invitation of \<open>d@x.org\<close>.\<close>

definition iw_revoke :: dict where
  "iw_revoke = [(''action'', JStr ''uninvite''), (''email'', JStr '' d@x.org'')]"

definition iw_admin :: auth_headers where
  "iw_admin = \<lparr>h_email = Some ''root@x.org'', h_groups = Some ''users|ycluster-admins''\<rparr>"

theorem users_action_scope_witness:
  "iw_sent (snd (users_action iw_etcd (iw_idp []) iw_admin iw_revoke iw_world))
     = [(''DELETE'', ''http://auth.xc/api/v3/stages/invitation/invitations/d@x.org/'', None)]
   \<and> (\<exists>action email. map_of iw_revoke ''action'' = Some (JStr action) \<and> request_email iw_revoke = Inr email \<and> email_ok email
         \<and> concerns ''http://auth.xc/api/v3'' the_str the_str the_str action email
             (''DELETE'', ''http://auth.xc/api/v3/stages/invitation/invitations/d@x.org/'', None))"
proof
  show sent: "iw_sent (snd (users_action iw_etcd (iw_idp []) iw_admin iw_revoke iw_world))
     = [(''DELETE'', ''http://auth.xc/api/v3/stages/invitation/invitations/d@x.org/'', None)]" by code_simp
  have here: "base_url (iw_idp []) @ ''/api/v3'' = ''http://auth.xc/api/v3''" "iw_sent iw_world = []" by code_simp+
  from conjunct2 [OF users_action_scope [OF iws.idp_env_axioms [of "[]"] prod.collapse [symmetric], of iw_admin iw_revoke iw_world]]
  show "\<exists>action email. map_of iw_revoke ''action'' = Some (JStr action) \<and> request_email iw_revoke = Inr email \<and> email_ok email
         \<and> concerns ''http://auth.xc/api/v3'' the_str the_str the_str action email
             (''DELETE'', ''http://auth.xc/api/v3/stages/invitation/invitations/d@x.org/'', None)"
    unfolding here sent by auto
qed

theorem import_never_overwrites_witness:
  "map lg_password (iw_stored (snd (import_owui_users iw_etcd (iw_idp iw_accounts) False iw_world)))
     = [Some ''argon2$1'', Some ''bcrypt$$2b$9'', Some ''bcrypt$$2b$9'']
   \<and> rows_kept (set iw_accounts) (iw_stored iw_world) (iw_stored (snd (import_owui_users iw_etcd (iw_idp iw_accounts) False iw_world)))"
proof
  show "map lg_password (iw_stored (snd (import_owui_users iw_etcd (iw_idp iw_accounts) False iw_world)))
     = [Some ''argon2$1'', Some ''bcrypt$$2b$9'', Some ''bcrypt$$2b$9'']" by code_simp
  show "rows_kept (set iw_accounts) (iw_stored iw_world) (iw_stored (snd (import_owui_users iw_etcd (iw_idp iw_accounts) False iw_world)))"
    by (rule conjunct1 [OF import_never_overwrites [OF iws.idp_env_axioms _ prod.collapse [symmetric]]]) (simp add: iw_idp_def py_return_def)
qed

section \<open>Findings\<close>

text \<open>Without an external domain an invitation is issued, and the answer is an error: the base of the link is looked up after
  the request.\<close>

theorem invitation_issued_on_error:
  "fst (users_action iw_etcd (iw_idp []) iw_admin [(''action'', JStr ''invite''), (''email'', JStr ''e@x.org'')] iw_world)
     = Inr (error_response 400 ''no external domain configured'')
   \<and> map fst (iw_sent (snd (users_action iw_etcd (iw_idp []) iw_admin [(''action'', JStr ''invite''), (''email'', JStr ''e@x.org'')] iw_world)))
     = [''POST'']"
  by code_simp

end
