(* ===== verification/YInstall.thy ===== *)
theory YInstall
  imports YUsers YInventory YDhcp "HOL-Library.Product_Lexorder"
begin

text \<open>
  The rest of the admin API that answers from the registry (\<open>app.py\<close>): what a machine that installs itself is given
  (\<open>/autoinstall/user-data\<close>, \<open>/bootstrap/<node_type>\<close>), the listings of allocations and of the inventory, and the export
  of the inventory as CSV. Files, the neighbour table, the environment and the template engine are the record
  \<open>installer\<close>; the locale \<open>install_env\<close> states that they do not touch etcd. The text of an exception in an answer is
  left out.
\<close>

section \<open>Installing a machine\<close>

record 'w installer =
  in_environ :: "string \<Rightarrow> string option"
  in_neigh :: "string \<Rightarrow> ('w, exn + json) py"
  in_read :: "string \<Rightarrow> ('w, string) py"
  in_render :: "string \<Rightarrow> dict \<Rightarrow> exn + string"
  in_decode :: "blob \<Rightarrow> string"

record interfaces =
  if_cluster :: string
  if_uplink :: string
  if_amt :: string

definition default_interfaces :: "(string \<times> string \<times> interfaces) list" where
  "default_interfaces =
     [(''storage'', ''STORAGE'', \<lparr>if_cluster = ''enp2s0f0np0'', if_uplink = ''enp87s0'', if_amt = ''enp89s0''\<rparr>),
      (''compute'', ''COMPUTE'', \<lparr>if_cluster = ''enp1s0f0'', if_uplink = ''enp1s0f1'', if_amt = ''enp1s0f2''\<rparr>),
      (''macos'', ''MACOS'', \<lparr>if_cluster = ''en0'', if_uplink = ''en1'', if_amt = ''en2''\<rparr>),
      (''unknown'', ''UNKNOWN'', \<lparr>if_cluster = ''en*'', if_uplink = [], if_amt = []\<rparr>)]"

definition override_interfaces :: "string \<Rightarrow> interfaces" where
  "override_interfaces v =
     (let parts = split_on (CHR '':'') v; part = (\<lambda>n. if n < length parts then parts ! n else []) in
      \<lparr>if_cluster = part 0, if_uplink = part 1, if_amt = part 2\<rparr>)"

definition NODE_TYPE_INTERFACES :: "(string \<Rightarrow> string option) \<Rightarrow> (string \<times> interfaces) list" where
  "NODE_TYPE_INTERFACES env =
     map (\<lambda>(t, upper, ifs). (t, case env (''NODE_INTERFACES_'' @ upper) of
       Some v \<Rightarrow> if v \<noteq> [] then override_interfaces v else ifs | None \<Rightarrow> ifs)) default_interfaces"

text \<open>The first lease with the address of the client, and the first usable entry of the neighbour table.\<close>

fun lease_mac :: "string \<Rightarrow> (string \<times> blob) list \<Rightarrow> exn + json option" where
  "lease_mac ip [] = Inr None"
| "lease_mac ip ((k, v) # rest) =
     (if \<not> blob_true v then lease_mac ip rest
      else (case loads_json v of
        Inl _ \<Rightarrow> lease_mac ip rest
      | Inr j \<Rightarrow> sbind (jget j ''ip'' JNull) (\<lambda>a.
          if a = JStr ip then map_sum id Some (jget j ''mac'' JNull) else lease_mac ip rest)))"

definition mac_shaped :: "json \<Rightarrow> bool" where
  "mac_shaped j = (case j of JStr m \<Rightarrow> length m = 17 \<and> length (filter (\<lambda>c. c = CHR '':'') m) = 5 | _ \<Rightarrow> False)"

fun neighbor_mac :: "string \<Rightarrow> json list \<Rightarrow> json" where
  "neighbor_mac ip [] = JNull"
| "neighbor_mac ip (n # ns) =
     (case n of
        JObj d \<Rightarrow> if map_of d ''dst'' = Some (JStr ip) \<and> map_of d ''lladdr'' \<noteq> None \<and> mac_shaped (the (map_of d ''lladdr''))
          then the (map_of d ''lladdr'') else neighbor_mac ip ns
      | _ \<Rightarrow> JNull)"

definition get_mac_from_ip :: "'w etcd3 \<Rightarrow> 'w installer \<Rightarrow> string option \<Rightarrow> ('w, json) py" where
  "get_mac_from_ip e i client_ip =
     (case client_ip of
        None \<Rightarrow> py_return JNull
      | Some ip \<Rightarrow>
          if ip = [] then py_return JNull
          else py_seq (e_client e) (py_bind (e_get_prefix e LEASES) (\<lambda>leases.
            py_bind (py_lift (lease_mac ip leases)) (\<lambda>found. case found of
              Some m \<Rightarrow> py_return m
            | None \<Rightarrow> py_try (py_bind (in_neigh i ip) (\<lambda>out. py_bind (py_lift out) (\<lambda>neighbors.
                py_bind (py_lift (jiter neighbors)) (\<lambda>ns. py_return (neighbor_mac ip ns)))))
                (\<lambda>_. py_return JNull)))))"

text \<open>The password of the user \<open>ubuntu\<close>.\<close>

fun shadow_password :: "string list \<Rightarrow> string option" where
  "shadow_password [] = None"
| "shadow_password (l # ls) =
     (case split_on (CHR '':'') (strip l) of
        u # p # _ \<Rightarrow> if u = ''ubuntu'' then Some p else shadow_password ls
      | _ \<Rightarrow> shadow_password ls)"

definition from_shadow :: "'w installer \<Rightarrow> ('w, string) py" where
  "from_shadow i =
     py_bind (py_try (in_read i ''/etc/shadow'') (\<lambda>_. py_raise (RuntimeError ''Cannot read ubuntu password from /etc/shadow''))) (\<lambda>txt.
       case shadow_password (split_on (CHR 0x0A) txt) of
         Some p \<Rightarrow> if p \<noteq> [] then py_return p else py_raise (RuntimeError ''Ubuntu user not found in /etc/shadow'')
       | None \<Rightarrow> py_raise (RuntimeError ''Ubuntu user not found in /etc/shadow''))"

definition ubuntu_password :: "'w installer \<Rightarrow> ('w, string) py" where
  "ubuntu_password i =
     (case in_environ i ''UBUNTU_PASSWORD_HASH'' of
        Some p \<Rightarrow> if p \<noteq> [] then py_return p else from_shadow i
      | None \<Rightarrow> from_shadow i)"

definition SSH_KEY_PATH :: string where
  "SSH_KEY_PATH = ''/opt/bootstrap-files/ansible_ssh_key.pub''"

definition interfaces_for :: "'w installer \<Rightarrow> json \<Rightarrow> exn + interfaces" where
  "interfaces_for i node_type =
     (if \<not> hashable node_type then Inl TypeError
      else let table = NODE_TYPE_INTERFACES (in_environ i) in
        Inr (case node_type of
          JStr t \<Rightarrow> (case map_of table t of Some ifs \<Rightarrow> ifs | None \<Rightarrow> the (map_of table ''unknown''))
        | _ \<Rightarrow> the (map_of table ''unknown'')))"

definition user_data_vars :: "json \<Rightarrow> json \<Rightarrow> json \<Rightarrow> json \<Rightarrow> interfaces \<Rightarrow> string \<Rightarrow> string \<Rightarrow> dict" where
  "user_data_vars node_type hostname ip amt_ip ifs ssh_key password =
     [(''node_type'', node_type), (''hostname'', hostname), (''ip_address'', ip), (''amt_ip_address'', amt_ip),
      (''cluster_interface'', JStr (if_cluster ifs)), (''uplink_interface'', JStr (if_uplink ifs)), (''amt_interface'', JStr (if_amt ifs)),
      (''ssh_key_content'', JStr ssh_key), (''ubuntu_password'', JStr password), (''proxy_url'', JStr ''http://10.0.0.254:3128'')]"

definition render_user_data :: "'w installer \<Rightarrow> dict \<Rightarrow> ('w, int \<times> string) py" where
  "render_user_data i d =
     py_bind (py_lift (dict_item d ''type'')) (\<lambda>node_type.
     py_bind (py_lift (dict_item d ''hostname'')) (\<lambda>hostname.
     py_bind (py_lift (dict_item d ''ip'')) (\<lambda>ip.
     py_bind (py_lift (dict_item d ''amt_ip'')) (\<lambda>amt_ip.
     py_bind (py_lift (interfaces_for i node_type)) (\<lambda>ifs.
     py_bind (in_read i SSH_KEY_PATH) (\<lambda>key.
     py_bind (ubuntu_password i) (\<lambda>password.
     py_bind (in_read i ''templates/user-data.j2'') (\<lambda>template.
     py_bind (py_lift (in_render i template (user_data_vars node_type hostname ip amt_ip ifs (strip key) password))) (\<lambda>content.
       py_return (200, content))))))))))"

definition query_mac :: "string \<Rightarrow> string" where
  "query_mac m = map (\<lambda>c. if c = CHR ''-'' then CHR '':'' else c) (lower m)"

definition serve_user_data :: "'w etcd3 \<Rightarrow> 'w installer \<Rightarrow> int \<Rightarrow> string option \<Rightarrow> string option \<Rightarrow> ('w, int \<times> string) py" where
  "serve_user_data e i now mac_arg client_ip =
     py_bind (case mac_arg of
         Some m \<Rightarrow> if m \<noteq> [] then py_return (JStr (query_mac m)) else get_mac_from_ip e i client_ip
       | None \<Rightarrow> get_mac_from_ip e i client_ip) (\<lambda>mac.
       if \<not> truthy mac then py_return (400, ''MAC address not found for client IP '' @ (case client_ip of Some ip \<Rightarrow> ip | None \<Rightarrow> ''None''))
       else (case mac of
         JStr m \<Rightarrow> py_bind (get_or_create_allocation e now m None False) (render_user_data i)
       | _ \<Rightarrow> py_raise AttributeError))"

section \<open>Bootstrap scripts\<close>

definition BOOTSTRAP_TEMPLATES :: "(string \<times> string) list" where
  "BOOTSTRAP_TEMPLATES =
     [(''macos'', ''templates/macos-bootstrap.sh.j2''), (''nas'', ''templates/nas-bootstrap.sh.j2''),
      (''nvidia'', ''templates/nvidia-bootstrap.sh.j2''), (''wg'', ''templates/wg-bootstrap.sh.j2''),
      (''wg-macos'', ''templates/wg-macos-bootstrap.sh.j2'')]"

definition PUBLIC_BOOTSTRAP_TYPES :: "string list" where
  "PUBLIC_BOOTSTRAP_TYPES = [''wg'', ''wg-macos'']"

text \<open>The address a script is to call: \<open>Inl\<close> is the answer that ends the request.\<close>

definition bootstrap_server :: "'w etcd3 \<Rightarrow> 'w installer \<Rightarrow> string \<Rightarrow> string \<Rightarrow> ('w, response + string) py" where
  "bootstrap_server e i request_host node_type =
     (if node_type \<in> set PUBLIC_BOOTSTRAP_TYPES
      then py_bind (py_try (py_seq (e_client e) (py_bind (e_get e ''/cluster/https/domain'') (\<lambda>r. py_return (Inr r))))
               (\<lambda>_. py_return (Inl (error_response 503 ''etcd lookup failed'')))) (\<lambda>r. case r of
             Inl resp \<Rightarrow> py_return (Inl resp)
           | Inr (Some (v, _)) \<Rightarrow>
               if blob_true v then py_return (Inr (''https://admin.'' @ strip (in_decode i v)))
               else py_return (Inl (error_response 503 (node_type @ '' bootstrap requires /cluster/https/domain'')))
           | Inr None \<Rightarrow> py_return (Inl (error_response 503 (node_type @ '' bootstrap requires /cluster/https/domain''))))
      else py_return (Inr (''http://'' @ request_host)))"

definition serve_bootstrap :: "'w etcd3 \<Rightarrow> 'w installer \<Rightarrow> string \<Rightarrow> string \<Rightarrow> ('w, response + string) py" where
  "serve_bootstrap e i request_host node_type =
     (case map_of BOOTSTRAP_TEMPLATES node_type of
        None \<Rightarrow> py_return (Inl (404, [(''error'', JStr (''Unknown bootstrap type: '' @ node_type)),
            (''available'', JList (map (JStr \<circ> fst) BOOTSTRAP_TEMPLATES))]))
      | Some path \<Rightarrow>
          py_bind (bootstrap_server e i request_host node_type) (\<lambda>r. case r of
            Inl resp \<Rightarrow> py_return (Inl resp)
          | Inr api_server \<Rightarrow>
              py_bind (in_read i SSH_KEY_PATH) (\<lambda>key.
              py_bind (in_read i path) (\<lambda>template.
              py_bind (py_lift (in_render i template [(''api_server'', JStr api_server), (''ssh_key_content'', JStr (strip key))])) (\<lambda>content.
                py_return (Inr (if endswith content nl then content else content @ nl)))))))"

section \<open>Listings\<close>

definition allocation_row :: "string \<times> blob \<Rightarrow> dict option" where
  "allocation_row x =
     (if blob_true (snd x) then
        (case loads_dict (snd x) of
           Inr d \<Rightarrow>
             (case (map_of d ''mac'', map_of d ''hostname'', map_of d ''type'', map_of d ''ip'') of
                (Some mac, Some hostname, Some node_type, Some ip) \<Rightarrow>
                  Some [(''mac'', mac), (''hostname'', hostname), (''type'', node_type), (''ip'', ip),
                    (''allocated_at'', case map_of d ''allocated_at'' of Some t \<Rightarrow> t | None \<Rightarrow> JInt 0),
                    (''disabled'', case map_of d ''disabled'' of Some t \<Rightarrow> t | None \<Rightarrow> JBool False)]
              | _ \<Rightarrow> None)
         | Inl _ \<Rightarrow> None)
      else None)"

text \<open>The key of the sort: the type and the number in the name. Types that are not texts are taken to be comparable only when equal.\<close>

definition row_str :: "string \<Rightarrow> dict \<Rightarrow> string" where
  "row_str k r = (case map_of r k of Some (JStr t) \<Rightarrow> t | _ \<Rightarrow> [])"

definition row_number :: "dict \<Rightarrow> int" where
  "row_number r = (let n = drop 1 (row_str ''hostname'' r) in if isdigit n then int (digits_val n) else 0)"

definition sort_allocations :: "dict list \<Rightarrow> exn + dict list" where
  "sort_allocations rows =
     (if list_ex (\<lambda>r. map_of r ''hostname'' \<noteq> Some (JStr (row_str ''hostname'' r))) rows then Inl TypeError
      else if list_all (\<lambda>r. map_of r ''type'' = Some (JStr (row_str ''type'' r))) rows
        \<or> list_all (\<lambda>r. map_of r ''type'' = map_of (hd rows) ''type'') rows
      then Inr (sort_key (\<lambda>r. (row_str ''type'' r, row_number r)) rows)
      else Inl TypeError)"

definition allocations :: "'w etcd3 \<Rightarrow> ('w, response + dict list) py" where
  "allocations e =
     py_bind (py_try (py_seq (e_client e) (py_return True)) (\<lambda>_. py_return False)) (\<lambda>up.
       if \<not> up then py_return (Inl (error_response 503 ''etcd connection failed''))
       else py_bind (e_get_prefix e BY_HOSTNAME) (\<lambda>xs.
         py_bind (py_lift (sort_allocations (List.map_filter allocation_row xs))) (\<lambda>rows. py_return (Inr rows))))"

definition drain_status :: "'w etcd3 \<Rightarrow> string \<Rightarrow> ('w, response) py" where
  "drain_status e hostname =
     py_try
       (py_seq (e_client e) (py_bind (e_get e (drain_key hostname)) (\<lambda>r.
          py_return (200, [(''hostname'', JStr hostname), (''drained'', JBool (is_drained_value r))]))))
       (\<lambda>_. py_return (error_response 500 ''Failed to check drain status''))"

text \<open>Answers that are any JSON value.\<close>

type_synonym json_page = "int \<times> json"

definition error_page :: "int \<Rightarrow> string \<Rightarrow> json_page" where
  "error_page c msg = (c, JObj [(''error'', JStr msg)])"

definition valid_host_page :: "string \<Rightarrow> ('w, json_page) py \<Rightarrow> ('w, json_page) py" where
  "valid_host_page hostname view = (if hostname_param_ok hostname then view else py_return (error_page 400 ''invalid hostname''))"

definition inventory_get_hardware :: "'w etcd3 \<Rightarrow> string \<Rightarrow> ('w, json_page) py" where
  "inventory_get_hardware e hostname =
     valid_host_page hostname
       (py_try (py_bind (get_hardware e hostname) (\<lambda>r. py_return (case r of
           None \<Rightarrow> error_page 404 (''No hardware data for '' @ hostname)
         | Some j \<Rightarrow> (200, j))))
         (\<lambda>_. py_return (error_page 500 [])))"

definition inventory_get_asset :: "'w etcd3 \<Rightarrow> string \<Rightarrow> ('w, json_page) py" where
  "inventory_get_asset e hostname =
     valid_host_page hostname
       (py_try (py_bind (get_asset e hostname) (\<lambda>j. py_return (200, j))) (\<lambda>_. py_return (error_page 500 [])))"

definition node_alloc :: "inv_node \<Rightarrow> dict" where
  "node_alloc n = (case n_allocation n of Some d \<Rightarrow> d | None \<Rightarrow> [])"

definition node_name :: "inv_node \<Rightarrow> string" where
  "node_name n = (case map_of (node_alloc n) ''hostname'' of Some (JStr h) \<Rightarrow> h | _ \<Rightarrow> [])"

definition inventory_row :: "inv_node \<Rightarrow> json" where
  "inventory_row n =
     (let field = (\<lambda>k. case map_of (node_alloc n) k of Some j \<Rightarrow> j | None \<Rightarrow> JNull) in
      JObj [(''hostname'', field ''hostname''), (''type'', field ''type''), (''ip'', field ''ip''),
        (''hardware'', case n_hardware n of Some j \<Rightarrow> j | None \<Rightarrow> JNull), (''asset'', n_asset n)])"

definition inventory_list :: "'w etcd3 \<Rightarrow> ('w, json_page) py" where
  "inventory_list e =
     py_try (py_bind (list_all_nodes e) (\<lambda>nodes.
         py_return (200, JList (map inventory_row (sort_key node_name (map snd nodes))))))
       (\<lambda>_. py_return (error_page 500 []))"

section \<open>The export as CSV\<close>

definition csv_fieldnames :: "string list" where
  "csv_fieldnames =
     [''hostname'', ''type'', ''ip'', ''product'', ''serial'', ''bios_version'', ''cpu'', ''ram_gb'', ''disks'', ''gpus'', ''nics'', ''os'', ''kernel'',
      ''vendor'', ''purchased_at'', ''warranty_expires'', ''cost'', ''cost_currency'', ''location'', ''notes'', ''hw_collected_at'', ''asset_updated_at'']"

text \<open>What \<open>csv.DictWriter\<close> makes of a value, a field and a row: \<open>None\<close> is empty, and a field with a comma, a quote or
  a line break is quoted.\<close>

definition csv_text :: "json \<Rightarrow> string" where
  "csv_text j = (if j = JNull then [] else shown j)"

definition csv_special :: "char \<Rightarrow> bool" where
  "csv_special c = (c \<in> {CHR '','', CHR 0x22, CHR 0x0D, CHR 0x0A})"

definition csv_field :: "string \<Rightarrow> string" where
  "csv_field v =
     (if list_ex csv_special v
      then [CHR 0x22] @ concat (map (\<lambda>c. if c = CHR 0x22 then [CHR 0x22, CHR 0x22] else [c]) v) @ [CHR 0x22]
      else v)"

definition csv_row :: "string list \<Rightarrow> string" where
  "csv_row cells = join '','' (map csv_field cells) @ [CHR 0x0D, CHR 0x0A]"

text \<open>The parts of a cell that lists disks, graphics cards or interfaces.\<close>

fun joined_parts :: "(json \<Rightarrow> exn + string) \<Rightarrow> json list \<Rightarrow> exn + string list" where
  "joined_parts f [] = Inr []"
| "joined_parts f (x # xs) = sbind (f x) (\<lambda>t. map_sum id ((#) t) (joined_parts f xs))"

definition cell_list :: "dict \<Rightarrow> string \<Rightarrow> (json \<Rightarrow> exn + string) \<Rightarrow> exn + string" where
  "cell_list hw k f =
     sbind (case map_of hw k of Some j \<Rightarrow> if truthy j then jiter j else Inr [] | None \<Rightarrow> Inr []) (\<lambda>xs.
       map_sum id (join ''; '') (joined_parts f xs))"

definition disk_text :: "json \<Rightarrow> exn + string" where
  "disk_text d =
     sbind (jitem d ''name'') (\<lambda>n. sbind (jitem d ''size'') (\<lambda>s. sbind (jitem d ''type'') (\<lambda>t.
       Inr (shown n @ '' '' @ shown s @ '' '' @ shown t))))"

definition gpu_text :: "json \<Rightarrow> exn + string" where
  "gpu_text g =
     sbind (jget g ''model'' JNull) (\<lambda>m. sbind (if truthy m then Inr m else jget g ''vendor'' (JStr ''?'')) (\<lambda>t.
       case t of JStr s \<Rightarrow> Inr s | _ \<Rightarrow> Inl TypeError))"

definition nic_text :: "json \<Rightarrow> exn + string" where
  "nic_text n =
     sbind (jitem n ''name'') (\<lambda>name. sbind (jget n ''speed'' JNull) (\<lambda>speed.
       Inr (shown name @ (if truthy speed then '' '' @ shown speed else []))))"

definition short_time :: "dict \<Rightarrow> string \<Rightarrow> exn + string" where
  "short_time d k =
     (case map_of d k of
        Some j \<Rightarrow> if truthy j then (case j of JStr t \<Rightarrow> Inr (take 19 t) | _ \<Rightarrow> Inl TypeError) else Inr []
      | None \<Rightarrow> Inr [])"

definition or_dict :: "json option \<Rightarrow> exn + dict" where
  "or_dict x = (if otruthy x then as_dict (the x) else Inr [])"

definition csv_cells :: "inv_node \<Rightarrow> exn + string list" where
  "csv_cells n =
     sbind (or_dict (n_hardware n)) (\<lambda>hw.
     sbind (cell_list hw ''disks'' disk_text) (\<lambda>disks.
     sbind (cell_list hw ''gpus'' gpu_text) (\<lambda>gpus.
     sbind (cell_list hw ''nics'' nic_text) (\<lambda>nics.
     sbind (or_dict (Some (n_asset n))) (\<lambda>asset.
     sbind (short_time hw ''collected_at'') (\<lambda>collected.
     sbind (short_time asset ''updated_at'') (\<lambda>updated.
       let cell = (\<lambda>d k. case map_of d k of Some j \<Rightarrow> csv_text j | None \<Rightarrow> []) in
       Inr (map (cell (node_alloc n)) [''hostname'', ''type'', ''ip'']
         @ map (cell hw) [''product'', ''serial'', ''bios_version'', ''cpu'', ''ram_gb'']
         @ [disks, gpus, nics] @ map (cell hw) [''os'', ''kernel'']
         @ map (cell asset) [''vendor'', ''purchased_at'', ''warranty_expires'', ''cost'']
         @ [case map_of asset ''cost_currency'' of Some j \<Rightarrow> csv_text j | None \<Rightarrow> ''EUR'']
         @ map (cell asset) [''location'', ''notes''] @ [collected, updated]))))))))"

fun csv_table :: "inv_node list \<Rightarrow> exn + string list list" where
  "csv_table [] = Inr []"
| "csv_table (n # ns) = sbind (csv_cells n) (\<lambda>c. map_sum id ((#) c) (csv_table ns))"

definition inventory_export_csv :: "'w etcd3 \<Rightarrow> ('w, json_page + string) py" where
  "inventory_export_csv e =
     py_try (py_bind (list_all_nodes e) (\<lambda>nodes.
         py_bind (py_lift (csv_table (sort_key node_name (map snd nodes)))) (\<lambda>rows.
           py_return (Inr (concat (map csv_row (csv_fieldnames # rows)))))))
       (\<lambda>_. py_return (Inl (error_page 500 [])))"

section \<open>The export can be read back\<close>

text \<open>A reader of comma-separated values: a field is quoted or ends before a comma or a carriage return; a row of \<open>n\<close>
  fields ends with the two characters of a line end. \<open>fuel\<close> bounds the rows.\<close>

fun read_quoted :: "string \<Rightarrow> string \<times> string" where
  "read_quoted [] = ([], [])"
| "read_quoted [c] = (if c = CHR 0x22 then ([], []) else ([c], []))"
| "read_quoted (c # d # r) =
     (if c \<noteq> CHR 0x22 then (case read_quoted (d # r) of (v, rest) \<Rightarrow> (c # v, rest))
      else if d = CHR 0x22 then (case read_quoted r of (v, rest) \<Rightarrow> (d # v, rest))
      else ([], d # r))"

definition read_field :: "string \<Rightarrow> string \<times> string" where
  "read_field s =
     (case s of
        c # r \<Rightarrow> if c = CHR 0x22 then read_quoted r else (takeWhile (\<lambda>c. \<not> csv_special c) s, dropWhile (\<lambda>c. \<not> csv_special c) s)
      | [] \<Rightarrow> ([], []))"

fun read_fields :: "nat \<Rightarrow> string \<Rightarrow> (string list \<times> string) option" where
  "read_fields 0 s = None"
| "read_fields (Suc n) s =
     (case read_field s of (v, rest) \<Rightarrow>
        if n = 0 then (if take 2 rest = [CHR 0x0D, CHR 0x0A] then Some ([v], drop 2 rest) else None)
        else (case rest of
                c # r \<Rightarrow> if c = CHR '','' then map_option (\<lambda>(vs, rest). (v # vs, rest)) (read_fields n r) else None
              | [] \<Rightarrow> None))"

fun read_csv :: "nat \<Rightarrow> nat \<Rightarrow> string \<Rightarrow> string list list option" where
  "read_csv fuel n [] = Some []"
| "read_csv 0 n (c # s) = None"
| "read_csv (Suc fuel) n (c # s) =
     (case read_fields n (c # s) of
        Some (row, rest) \<Rightarrow> map_option ((#) row) (read_csv fuel n rest)
      | None \<Rightarrow> None)"

lemma read_quoted_field:
  assumes "c \<noteq> CHR 0x22"
  shows "read_quoted (concat (map (\<lambda>c. if c = CHR 0x22 then [CHR 0x22, CHR 0x22] else [c]) v) @ CHR 0x22 # c # r) = (v, c # r)"
proof (induction v)
  case (Cons x v)
  obtain y ys where "concat (map (\<lambda>c. if c = CHR 0x22 then [CHR 0x22, CHR 0x22] else [c]) v) @ CHR 0x22 # c # r = y # ys"
    by (cases "concat (map (\<lambda>c. if c = CHR 0x22 then [CHR 0x22, CHR 0x22] else [c]) v)") auto
  with Cons show ?case by auto
qed (simp add: assms)

lemma read_field_back:
  assumes "c \<in> {CHR '','', CHR 0x0D}"
  shows "read_field (csv_field v @ c # r) = (v, c # r)"
proof (cases "list_ex csv_special v")
  case True
  with assms show ?thesis by (simp add: read_field_def csv_field_def) (use read_quoted_field [of c v r] in auto)
next
  case False
  then have plain: "\<forall>x\<in>set v. \<not> csv_special x" by (auto simp: list_ex_iff)
  have c: "csv_special c" using assms by (auto simp: csv_special_def)
  have "takeWhile (\<lambda>c. \<not> csv_special c) (v @ c # r) = v" "dropWhile (\<lambda>c. \<not> csv_special c) (v @ c # r) = c # r"
    using plain c by (simp_all add: takeWhile_append dropWhile_append)
  with False plain c assms show ?thesis
    by (cases v) (auto simp: read_field_def csv_field_def csv_special_def)
qed

lemma read_fields_back: "vs \<noteq> [] \<Longrightarrow> read_fields (length vs) (csv_row vs @ rest) = Some (vs, rest)"
proof (induction vs)
  case (Cons v vs)
  show ?case
  proof (cases vs)
    case Nil
    then show ?thesis using read_field_back [of "CHR 0x0D" v "CHR 0x0A # rest"] by (simp add: csv_row_def)
  next
    case (Cons w ws)
    then have "csv_row (v # vs) @ rest = csv_field v @ CHR '','' # csv_row vs @ rest" by (simp add: csv_row_def)
    with Cons.IH show ?thesis using read_field_back [of "CHR '',''" v "csv_row vs @ rest"] Cons by simp
  qed
qed simp

lemma csv_row_Cons: "\<exists>c s. csv_row vs = c # s"
  by (cases "csv_row vs") (auto simp: csv_row_def)

lemma read_csv_back:
  assumes "\<And>row. row \<in> set rows \<Longrightarrow> length row = n" "0 < n" "length rows \<le> fuel"
  shows "read_csv fuel n (concat (map csv_row rows)) = Some rows"
  using assms(1,3)
proof (induction rows arbitrary: fuel)
  case (Cons row rows)
  then obtain fuel' where fuel: "fuel = Suc fuel'" by (cases fuel) auto
  from Cons.prems assms(2) have "read_fields n (csv_row row @ concat (map csv_row rows)) = Some (row, concat (map csv_row rows))"
    using read_fields_back [of row] by auto
  with Cons fuel csv_row_Cons [of row] show ?case by auto
qed simp

lemma csv_table_width: "csv_table ns = Inr rows \<Longrightarrow> row \<in> set rows \<Longrightarrow> length row = length csv_fieldnames"
  by (induction ns arbitrary: rows) (auto simp: sbind_Inr csv_cells_def csv_fieldnames_def Let_def map_sum_def split: sum.splits)

text \<open>C38: The exported inventory can be read back: a reader of comma-separated values gets the header and, for every node in
  the order of the host names, exactly the cells made of its records, whatever commas, quotes and line breaks are in
  them.\<close>

theorem inventory_csv_roundtrip:
  assumes "inventory_export_csv e s = (Inr (Inr content), s')"
  shows "\<exists>nodes rows. list_all_nodes e s = (Inr nodes, s') \<and> csv_table (sort_key node_name (map snd nodes)) = Inr rows
    \<and> read_csv (Suc (length nodes)) (length csv_fieldnames) content = Some (csv_fieldnames # rows)"
proof -
  from assms obtain nodes rows where nodes: "list_all_nodes e s = (Inr nodes, s')"
    and rows: "csv_table (sort_key node_name (map snd nodes)) = Inr rows" "content = concat (map csv_row (csv_fieldnames # rows))"
    by (auto simp: inventory_export_csv_def py_defs split: prod.splits sum.splits)
  have "length rows = length nodes"
  proof -
    have "length rs = length ns" if "csv_table ns = Inr rs" for ns rs
      using that by (induction ns arbitrary: rs) (auto simp: sbind_Inr map_sum_def split: sum.splits)
    from this [OF rows(1)] show ?thesis by simp
  qed
  then have "read_csv (Suc (length nodes)) (length csv_fieldnames) content = Some (csv_fieldnames # rows)"
    unfolding rows(2) by (intro read_csv_back) (use csv_table_width [OF rows(1)] in \<open>auto simp: csv_fieldnames_def\<close>)
  with nodes rows(1) show ?thesis by blast
qed

section \<open>A machine is installed under its own name\<close>

text \<open>Where the MAC address of a client comes from: a lease with its address or the neighbour table.\<close>

definition mac_known :: "store \<Rightarrow> 'w installer \<Rightarrow> string option \<Rightarrow> json \<Rightarrow> bool" where
  "mac_known c i client_ip m = (\<exists>ip. client_ip = Some ip
     \<and> ((\<exists>k lease n. startswith k LEASES \<and> c k = Some (Doc lease, n) \<and> map_of lease ''ip'' = Some (JStr ip) \<and> map_of lease ''mac'' = Some m)
        \<or> (\<exists>w w' table ns entry. in_neigh i ip w = (Inr (Inr table), w') \<and> jiter table = Inr ns \<and> JObj entry \<in> set ns
             \<and> map_of entry ''dst'' = Some (JStr ip) \<and> map_of entry ''lladdr'' = Some m)))"

definition client_mac :: "store \<Rightarrow> 'w installer \<Rightarrow> string option \<Rightarrow> string option \<Rightarrow> string \<Rightarrow> bool" where
  "client_mac c i mac_arg client_ip m =
     (if mac_arg \<noteq> None \<and> mac_arg \<noteq> Some [] then m = query_mac (the mac_arg) else mac_known c i client_ip (JStr m))"

lemma lease_mac_found:
  "lease_mac ip xs = Inr (Some m) \<Longrightarrow> \<exists>k lease. (k, Doc lease) \<in> set xs \<and> map_of lease ''ip'' = Some (JStr ip) \<and> (m = JNull \<or> map_of lease ''mac'' = Some m)"
proof (induction ip xs rule: lease_mac.induct)
  case (2 ip k v rest)
  show ?case
  proof (cases v)
    case (Doc d)
    show ?thesis
    proof (cases "map_of d ''ip'' = Some (JStr ip)")
      case True
      with 2(4) Doc show ?thesis by (intro exI [of _ k] exI [of _ d]) (auto simp: sbind_def jget_def as_dict_def split: option.splits)
    next
      case False
      with 2(4) Doc have "lease_mac ip rest = Inr (Some m)" by (auto simp: sbind_def jget_def as_dict_def split: option.splits)
      moreover from False have "(case map_of d ''ip'' of Some j \<Rightarrow> j | None \<Rightarrow> JNull) \<noteq> JStr ip" by (cases "map_of d ''ip''") auto
      ultimately show ?thesis using 2(3) [of "JObj d" "case map_of d ''ip'' of Some j \<Rightarrow> j | None \<Rightarrow> JNull"] Doc by auto
    qed
  qed (use 2 in \<open>auto simp: sbind_def jget_def as_dict_def split: if_splits\<close>)
qed simp

lemma neighbor_mac_entry:
  "truthy (neighbor_mac ip ns) \<Longrightarrow>
     \<exists>entry. JObj entry \<in> set ns \<and> map_of entry ''dst'' = Some (JStr ip) \<and> map_of entry ''lladdr'' = Some (neighbor_mac ip ns)"
  by (induction ns) (auto split: json.splits if_splits)

locale install_env = etcd_seq e view
  for e :: "'w etcd3" and view :: "'w \<Rightarrow> store" +
  fixes i :: "'w installer"
  assumes reads: "leaves view (in_neigh i ip)" "leaves view (in_read i path)"
begin

lemma wp_neighbors:
  assumes "view w = c" "ip \<noteq> []"
  shows "wp (py_try (py_bind (in_neigh i ip) (\<lambda>out. py_bind (py_lift out) (\<lambda>neighbors.
      py_bind (py_lift (jiter neighbors)) (\<lambda>ns. py_return (neighbor_mac ip ns))))) (\<lambda>_. py_return JNull))
    (\<lambda>m w. view w = c \<and> (truthy m \<longrightarrow> mac_known c i (Some ip) m)) E w"
proof -
  obtain r w' where run: "in_neigh i ip w = (r, w')" by fastforce
  moreover have "view (snd (in_neigh i ip w)) = view w" using reads(1) by (simp add: leaves_def)
  ultimately have v: "view w' = c" using assms(1) by simp
  have "mac_known c i (Some ip) (neighbor_mac ip ns)"
    if "r = Inr (Inr table)" "jiter table = Inr ns" "truthy (neighbor_mac ip ns)" for table ns
  proof -
    from neighbor_mac_entry [OF that(3)] obtain entry where "JObj entry \<in> set ns" "map_of entry ''dst'' = Some (JStr ip)"
      "map_of entry ''lladdr'' = Some (neighbor_mac ip ns)" by blast
    with run that(1,2) show ?thesis unfolding mac_known_def by (intro exI [of _ ip] conjI disjI2 refl
        exI [of _ w] exI [of _ w'] exI [of _ table] exI [of _ ns] exI [of _ entry]) simp_all
  qed
  with v run show ?thesis
    by (auto simp: wp_def py_try_def py_bind_def py_lift_def py_return_def py_raise_def split: sum.splits)
qed

lemma wp_mac:
  "wp (get_mac_from_ip e i client_ip) (\<lambda>m w. view w = view s \<and> (truthy m \<longrightarrow> mac_known (view s) i client_ip m)) (\<lambda>_ w. view w = view s) s"
proof (cases "client_ip = None \<or> client_ip = Some []")
  case True
  then show ?thesis by (auto simp: get_mac_from_ip_def wp_return)
next
  case False
  then obtain ip where ip: "client_ip = Some ip" "ip \<noteq> []" by auto
  have found: "mac_known (view s) i (Some ip) m" if "prefix_list (view s) LEASES xs" "lease_mac ip xs = Inr (Some m)" "truthy m" for xs m
    using lease_mac_found [OF that(2)] prefix_listD [OF that(1)] that(3) by (auto simp: mac_known_def)
  show ?thesis unfolding get_mac_from_ip_def ip option.case wp_if wp_seq wp_bind [of "e_get_prefix e _"]
    by (simp only: ip(2) if_False, rule wp_client_seq, rule wp_prefix_seq, rule wp_bind_liftI)
      (use found in \<open>auto simp: wp_return ip(2) intro!: wp_neighbors split: option.splits\<close>)
qed

text \<open>The answer is the template with the host name of the allocation.\<close>

definition rendered :: "dict \<Rightarrow> string \<Rightarrow> bool" where
  "rendered d content = (\<exists>w w' template vars. in_read i ''templates/user-data.j2'' w = (Inr template, w')
     \<and> in_render i template vars = Inr content \<and> map_of vars ''hostname'' = map_of d ''hostname''
     \<and> map_of vars ''ip_address'' = map_of d ''ip'' \<and> map_of vars ''node_type'' = map_of d ''type'')"

lemma wp_render_template:
  assumes "view w = c" and "map_of d ''hostname'' = Some hostname" "map_of d ''ip'' = Some ip" "map_of d ''type'' = Some node_type"
  shows "wp (py_bind (in_read i ''templates/user-data.j2'') (\<lambda>template.
      py_bind (py_lift (in_render i template (user_data_vars node_type hostname ip amt_ip ifs key password))) (\<lambda>content. py_return (200, content))))
    (\<lambda>r w. view w = c \<and> fst r = (200::int) \<and> rendered d (snd r)) (\<lambda>_ w. view w = c) w"
proof -
  obtain r w' where run: "in_read i ''templates/user-data.j2'' w = (r, w')" by fastforce
  moreover have "view (snd (in_read i ''templates/user-data.j2'' w)) = view w" using reads(2) by (simp add: leaves_def)
  ultimately have v: "view w' = c" using assms(1) by simp
  have "rendered d content" if "r = Inr template"
    "in_render i template (user_data_vars node_type hostname ip amt_ip ifs key password) = Inr content" for template content
    unfolding rendered_def using run that assms(2-)
    by (intro exI [of _ w] exI [of _ w'] exI [of _ template]
        exI [of _ "user_data_vars node_type hostname ip amt_ip ifs key password"]) (simp add: user_data_vars_def)
  with v run show ?thesis
    by (auto simp: wp_def py_bind_def py_lift_def py_return_def py_raise_def split: sum.splits)
qed

lemma keeps_read_view: "keeps (\<lambda>w. view w = c) (in_read i path)" "keeps (\<lambda>w. view w = c) (ubuntu_password i)"
proof -
  show read: "keeps (\<lambda>w. view w = c) (in_read i path)" for path by (rule keepsI, rule wp_leaves [OF reads(2)]) auto
  have "keeps (\<lambda>w. view w = c) (from_shadow i)"
    unfolding from_shadow_def by (intro keeps_bind keeps_try read) (auto split: option.splits)
  then show "keeps (\<lambda>w. view w = c) (ubuntu_password i)"
    unfolding ubuntu_password_def by (auto split: option.splits)
qed

lemma wp_render:
  assumes "view s = c"
  shows "wp (render_user_data i d) (\<lambda>r w. view w = c \<and> fst r = 200 \<and> rendered d (snd r)) (\<lambda>_ w. view w = c) s"
  unfolding render_user_data_def
  by (rule wp_bind_liftI, rule wp_bind_liftI, rule wp_bind_liftI, rule wp_bind_liftI, rule wp_bind_liftI, rule wp_bindI [OF keepsD [OF keeps_read_view(1)]],
      rule assms, rule wp_bindI [OF keepsD [OF keeps_read_view(2)]], assumption, rule wp_render_template)
    (use assms in auto)

lemma wp_source:
  "wp (case mac_arg of Some m \<Rightarrow> if m \<noteq> [] then py_return (JStr (query_mac m)) else get_mac_from_ip e i client_ip | None \<Rightarrow> get_mac_from_ip e i client_ip)
    (\<lambda>j w. view w = view s \<and> (\<forall>m. j = JStr m \<longrightarrow> truthy j \<longrightarrow> client_mac (view s) i mac_arg client_ip m)) (\<lambda>_ w. view w = view s) s"
proof (cases "mac_arg \<noteq> None \<and> mac_arg \<noteq> Some []")
  case True
  then obtain m where "mac_arg = Some m" "m \<noteq> []" by (cases mac_arg) auto
  then show ?thesis by (simp add: wp_return client_mac_def)
next
  case False
  then have "(case mac_arg of Some m \<Rightarrow> if m \<noteq> [] then py_return (JStr (query_mac m)) else get_mac_from_ip e i client_ip | None \<Rightarrow> get_mac_from_ip e i client_ip)
    = get_mac_from_ip e i client_ip" by auto
  moreover have "wp (get_mac_from_ip e i client_ip) (\<lambda>j w. view w = view s \<and> (\<forall>m. j = JStr m \<longrightarrow> truthy j \<longrightarrow> client_mac (view s) i mac_arg client_ip m)) (\<lambda>_ w. view w = view s) s"
    by (rule wp_mono [OF wp_mac]) (use False in \<open>auto simp: client_mac_def\<close>)
  ultimately show ?thesis by simp
qed

abbreviation installed :: "'w \<Rightarrow> string option \<Rightarrow> string option \<Rightarrow> string \<Rightarrow> 'w \<Rightarrow> bool" where
  "installed s mac_arg client_ip content w \<equiv> (\<exists>m h d. client_mac (view s) i mac_arg client_ip m
     \<and> doc_served (view w) (normalize_mac m) h d \<and> rendered d content)"

lemma wp_serve:
  assumes "reg_inv (view s)"
  shows "wp (serve_user_data e i now mac_arg client_ip)
    (\<lambda>r w. reg_inv (view w) \<and> (fst r = 200 \<longrightarrow> installed s mac_arg client_ip (snd r) w)) (\<lambda>_ w. reg_inv (view w)) s" (is "wp _ ?Q ?E s")
proof -
  have rest: "wp (py_bind (get_or_create_allocation e now m None False) (render_user_data i)) ?Q ?E w"
    if w: "view w = view s" and m: "client_mac (view s) i mac_arg client_ip m" for m w
  proof (rule wp_bindI [OF wp_get_or_create_seq [of w None now m False]])
    fix d w1 assume a: "answered (view w) (normalize_mac m) None False d w1"
    then obtain h where h: "doc_served (view w1) (normalize_mac m) h d" by blast
    show "wp (render_user_data i d) ?Q ?E w1"
    proof (rule wp_mono [OF wp_render [OF refl]])
      fix x :: "int \<times> string" and w2 assume x: "view w2 = view w1 \<and> fst x = 200 \<and> rendered d (snd x)"
      with m h have "installed s mac_arg client_ip (snd x) w2" by auto
      with x a show "?Q x w2" by simp
    qed (use a in simp)
  qed (use assms w in auto)
  show ?thesis unfolding serve_user_data_def
  proof (rule wp_bindI [OF wp_source])
    fix j w assume j: "view w = view s \<and> (\<forall>m. j = JStr m \<longrightarrow> truthy j \<longrightarrow> client_mac (view s) i mac_arg client_ip m)"
    show "wp (if \<not> truthy j then py_return (400, ''MAC address not found for client IP '' @ (case client_ip of Some ip \<Rightarrow> ip | None \<Rightarrow> ''None''))
        else (case j of JStr m \<Rightarrow> py_bind (get_or_create_allocation e now m None False) (render_user_data i) | _ \<Rightarrow> py_raise AttributeError)) ?Q ?E w"
    proof (cases "truthy j")
      case True
      then show ?thesis using rest [of w] j assms by (cases j) (simp_all add: wp_raise)
    next
      case False
      then show ?thesis using j assms by (simp add: wp_return)
    qed
  qed (use assms in simp)
qed

end

text \<open>C17: A machine that asks for its installation data is installed under its own name. Whatever happens the registry stays a
  correspondence; when the data is served, it is the template read from \<open>templates/user-data.j2\<close>, rendered with the host name,
  address and type of the allocation that the registry then records for the MAC address of the machine: the address in the query,
  that of a lease with the client's address, or that of an entry of the neighbour table for the client's address.\<close>

theorem installer_serves_own_name:
  assumes env: "install_env e view i" and "reg_inv (view s)" and run: "serve_user_data e i now mac_arg client_ip s = (r, s')"
  shows "reg_inv (view s') \<and> (\<forall>content. r = Inr (200, content) \<longrightarrow> (\<exists>m h d. client_mac (view s) i mac_arg client_ip m
      \<and> doc_served (view s') (normalize_mac m) h d
      \<and> (\<exists>w w' template vars. in_read i ''templates/user-data.j2'' w = (Inr template, w') \<and> in_render i template vars = Inr content
           \<and> map_of vars ''hostname'' = Some (JStr h) \<and> map_of vars ''ip_address'' = map_of d ''ip'' \<and> map_of vars ''node_type'' = map_of d ''type'')))"
proof -
  note end_state = install_env.wp_serve [OF env assms(2), of now mac_arg client_ip, unfolded wp_def run]
  have "reg_inv (view s')" using end_state by (cases r) auto
  moreover have "\<exists>m h d. client_mac (view s) i mac_arg client_ip m \<and> doc_served (view s') (normalize_mac m) h d
      \<and> (\<exists>w w' template vars. in_read i ''templates/user-data.j2'' w = (Inr template, w') \<and> in_render i template vars = Inr content
           \<and> map_of vars ''hostname'' = Some (JStr h) \<and> map_of vars ''ip_address'' = map_of d ''ip'' \<and> map_of vars ''node_type'' = map_of d ''type'')"
    if "r = Inr (200, content)" for content
  proof -
    from end_state that obtain m h d where m: "client_mac (view s) i mac_arg client_ip m" "doc_served (view s') (normalize_mac m) h d"
      and d: "install_env.rendered i d content" by auto
    from doc_served_has [OF m(2)] have "map_of d ''hostname'' = Some (JStr h)" by (simp add: doc_has_def)
    with d m show ?thesis unfolding install_env.rendered_def [OF env] by (metis (no_types))
  qed
  ultimately show ?thesis by blast
qed

text \<open>An installer over the in-memory store, whose template is \<open>name\<close> followed by the host name. The neighbour table has
  two machines.\<close>

definition two_neighbors :: json where
  "two_neighbors = JList [JObj [(''dst'', JStr ''10.0.0.201''), (''lladdr'', JStr ''02:00:00:00:00:0a'')],
     JObj [(''dst'', JStr ''10.0.0.202''), (''lladdr'', JStr ''02:00:00:00:00:0b'')]]"

definition mem_installer :: "mem installer" where
  "mem_installer = \<lparr>in_environ = (\<lambda>v. if v = ''UBUNTU_PASSWORD_HASH'' then Some ''$6$x'' else None), in_neigh = (\<lambda>ip. py_return (Inr two_neighbors)),
     in_read = (\<lambda>path. py_return path), in_render = (\<lambda>template vars. Inr (''name '' @ row_str ''hostname'' vars)), in_decode = (\<lambda>_. [])\<rparr>"

interpretation minst: install_env mem_etcd mem_view mem_installer
  by unfold_locales (simp_all add: mem_installer_def leaves_def py_return_def)

text \<open>The machine with the first address has a lease and is registered; the second one is only in the neighbour table.\<close>

definition first_doc :: dict where
  "first_doc = [(''hostname'', JStr ''c1''), (''type'', JStr ''compute''), (''ip'', JStr ''10.0.0.51''), (''amt_ip'', JNull), (''mac'', JStr ''02000000000a'')]"

definition leased :: mem where
  "leased = \<lparr>mem_data = [(LEASES @ ''02000000000a'', Doc [(''ip'', JStr ''10.0.0.201''), (''mac'', JStr ''02:00:00:00:00:0a'')], 1),
     (BY_MAC @ ''02000000000a'', Doc first_doc, 1), (BY_HOSTNAME @ ''c1'', Doc first_doc, 1)], mem_rev = 1\<rparr>"

theorem installer_serves_own_name_witness:
  "fst (serve_user_data mem_etcd mem_installer 0 None (Some ''10.0.0.202'') leased) = Inr (200, ''name c2'')
   \<and> (\<exists>m h d. client_mac (mem_view leased) mem_installer None (Some ''10.0.0.202'') m
        \<and> doc_served (mem_view (snd (serve_user_data mem_etcd mem_installer 0 None (Some ''10.0.0.202'') leased))) (normalize_mac m) h d)
   \<and> reg_inv (mem_view (snd (serve_user_data mem_etcd mem_installer 0 None (Some ''10.0.0.202'') leased)))"
proof -
  have run: "fst (serve_user_data mem_etcd mem_installer 0 None (Some ''10.0.0.202'') leased) = Inr (200, ''name c2'')" by code_simp
  have "reg_inv (mem_view leased)"
    by (auto simp: reg_inv_def leased_def mem_view_def BY_MAC_def BY_HOSTNAME_def LEASES_def holds_doc_def doc_has_def first_doc_def)
  from installer_serves_own_name [OF minst.install_env_axioms this prod.collapse [symmetric], of 0 None "Some ''10.0.0.202''"] run
  show ?thesis by blast
qed

definition stocked :: mem where
  "stocked = \<lparr>mem_data = [(NODE_PREFIX @ ''s1'', Doc [(''hostname'', JStr ''s1''), (''type'', JStr ''storage''), (''ip'', JStr ''10.0.0.11'')], 1),
     (ASSET_PREFIX @ ''s1'', Doc [(''notes'', JStr (''a, '' @ [CHR 0x22] @ ''b'' @ [CHR 0x0A]))], 2)], mem_rev = 2\<rparr>"

definition exported :: string where
  "exported = (case fst (inventory_export_csv mem_etcd stocked) of Inr (Inr content) \<Rightarrow> content | _ \<Rightarrow> [])"

theorem inventory_csv_roundtrip_witness:
  "\<exists>rows. map hd rows = [''s1''] \<and> read_csv 2 (length csv_fieldnames) exported = Some (csv_fieldnames # rows)"
proof -
  have "(case fst (inventory_export_csv mem_etcd stocked) of Inr (Inr _) \<Rightarrow> True | _ \<Rightarrow> False)" by code_simp
  then have "inventory_export_csv mem_etcd stocked = (Inr (Inr exported), snd (inventory_export_csv mem_etcd stocked))"
    by (auto simp: exported_def prod_eq_iff split: sum.splits)
  from inventory_csv_roundtrip [OF this] obtain nodes rows where nodes: "list_all_nodes mem_etcd stocked = (Inr nodes, snd (inventory_export_csv mem_etcd stocked))"
    and rows: "csv_table (sort_key node_name (map snd nodes)) = Inr rows" "read_csv (Suc (length nodes)) (length csv_fieldnames) exported = Some (csv_fieldnames # rows)"
    by blast
  have "(case fst (list_all_nodes mem_etcd stocked) of Inr ns \<Rightarrow> length ns = 1 \<and> (case csv_table (sort_key node_name (map snd ns)) of Inr rs \<Rightarrow> map hd rs = [''s1''] | _ \<Rightarrow> False) | _ \<Rightarrow> False)"
    by code_simp
  with nodes rows show ?thesis by (auto simp: numeral_2_eq_2)
qed

end
