(* ===== verification/YProxyAuth.thy ===== *)
theory YProxyAuth
  imports YEtcd
begin

text \<open>
  The validator of API tokens in front of the inference gateway (\<open>app/files/local-ai-proxy-auth.py\<close>): a bearer token is the
  master key of the cluster, read from etcd once and then kept, or the key of a user of Open-WebUI. The database of
  Open-WebUI is the record \<open>owui\<close> of the calls made, and the locale \<open>auth_env\<close> states what its query returns; an error of
  the database is a \<open>ConnectionError\<close>.
\<close>

section \<open>The validator\<close>

record owui_user =
  ou_email :: "string option"
  ou_role :: "string option"
  ou_groups :: "string list"

record 'w owui =
  ow_connect :: "('w, unit) py"
  ow_closed :: "'w \<Rightarrow> bool"
  ow_select :: "string \<Rightarrow> ('w, owui_user option) py"
  ow_close :: "('w, unit) py"
  ow_decode :: "blob \<Rightarrow> string"

text \<open>The process: the master key once it was read, whether there is a connection, and what is outside.\<close>

record 'w validator =
  vs_master :: "string option"
  vs_pg :: bool
  vs_net :: 'w

datatype verdict = Denied | Granted string string

definition MASTER_KEY_ETCD_PATH :: string where
  "MASTER_KEY_ETCD_PATH = ''/cluster/config/inference/master-key''"

definition outside :: "('w, 'a) py \<Rightarrow> ('w validator, 'a) py" where
  "outside m = py_zoom vs_net (\<lambda>n s. s\<lparr>vs_net := n\<rparr>) m"

definition get_master_key :: "'w etcd3 \<Rightarrow> 'w owui \<Rightarrow> ('w validator, string option) py" where
  "get_master_key e o' =
     py_bind (py_get vs_master) (\<lambda>known. case known of
       Some k \<Rightarrow> py_return (Some k)
     | None \<Rightarrow>
         py_bind (outside (py_seq (e_client e) (e_get e MASTER_KEY_ETCD_PATH))) (\<lambda>r.
           py_seq (case r of
               Some (v, _) \<Rightarrow> py_when (blob_true v) (py_modify (\<lambda>s. s\<lparr>vs_master := Some (strip (ow_decode o' v))\<rparr>))
             | None \<Rightarrow> py_return ())
             (py_get vs_master)))"

definition get_pg :: "'w owui \<Rightarrow> ('w validator, unit) py" where
  "get_pg o' =
     py_bind (py_get (\<lambda>s. \<not> vs_pg s \<or> ow_closed o' (vs_net s))) (\<lambda>gone.
       py_when gone (py_seq (outside (ow_connect o')) (py_modify (\<lambda>s. s\<lparr>vs_pg := True\<rparr>))))"

definition user_groups :: "owui_user \<Rightarrow> string list" where
  "user_groups u = ou_groups u @ (if ou_role u = Some ''admin'' then [''admin''] else [])"

definition drop_pg :: "'w owui \<Rightarrow> ('w validator, unit) py" where
  "drop_pg o' =
     py_bind (py_get vs_pg) (\<lambda>open_pg.
       py_seq (py_ignore (py_when open_pg (outside (ow_close o')))) (py_modify (\<lambda>s. s\<lparr>vs_pg := False\<rparr>)))"

definition lookup_openwebui_user :: "'w owui \<Rightarrow> string \<Rightarrow> ('w validator, string option \<times> string list) py" where
  "lookup_openwebui_user o' api_key =
     py_try
       (py_seq (get_pg o') (py_bind (outside (ow_select o' api_key)) (\<lambda>row. py_return (case row of
          None \<Rightarrow> (None, [])
        | Some u \<Rightarrow> (ou_email u, user_groups u)))))
       (\<lambda>x. if x = ConnectionError then py_seq (drop_pg o') (py_return (None, [])) else py_raise x)"

definition bearer_token :: "string \<Rightarrow> string option" where
  "bearer_token header =
     (if startswith (lower header) ''bearer '' then
        (let token = strip (drop 7 header) in if token \<noteq> [] then Some token else None)
      else None)"

definition auth :: "'w etcd3 \<Rightarrow> 'w owui \<Rightarrow> string \<Rightarrow> ('w validator, verdict) py" where
  "auth e o' header =
     (case bearer_token header of
        None \<Rightarrow> py_return Denied
      | Some token \<Rightarrow>
          py_bind (get_master_key e o') (\<lambda>master.
            if (case master of Some k \<Rightarrow> k \<noteq> [] \<and> token = k | None \<Rightarrow> False) then py_return (Granted ''root'' [])
            else py_bind (lookup_openwebui_user o' token) (\<lambda>(email, groups). case email of
                Some m \<Rightarrow> py_return (if m \<noteq> [] then Granted m (join '','' groups) else Denied)
              | None \<Rightarrow> py_return Denied)))"

section \<open>What is relied on\<close>

locale auth_env = etcd_env e view "(=)"
  for e :: "'w etcd3" and view :: "'w \<Rightarrow> store" +
  fixes o' :: "'w owui"
    and users :: "'w \<Rightarrow> string \<Rightarrow> owui_user option"
  assumes etcd_users: "leaves users (e_client e)" "leaves users (e_get e k)"
    and database: "leaves (\<lambda>w. (view w, users w)) (ow_connect o')" "leaves (\<lambda>w. (view w, users w)) (ow_select o' k)"
      "leaves (\<lambda>w. (view w, users w)) (ow_close o')"
    and select_row: "ow_select o' k s = (Inr r, s') \<Longrightarrow> r = users s k"
begin

text \<open>The master key in etcd.\<close>

definition stored_key :: "'w \<Rightarrow> string option" where
  "stored_key w = (case view w MASTER_KEY_ETCD_PATH of
     Some (v, _) \<Rightarrow> if blob_true v then Some (strip (ow_decode o' v)) else None | None \<Rightarrow> None)"

abbreviation seen :: "'w validator \<Rightarrow> (string \<Rightarrow> owui_user option) \<times> store" where
  "seen s \<equiv> (users (vs_net s), view (vs_net s))"

text \<open>What a request leaves: users and store as they were, and a key that was kept or is the stored one.\<close>

definition after :: "'w validator \<Rightarrow> 'w validator \<Rightarrow> bool" where
  "after s w = (seen w = seen s \<and> (vs_master w = vs_master s \<or> vs_master s = None \<and> vs_master w = stored_key (vs_net s)))"

lemma after_refl: "after s s"
  by (simp add: after_def)

lemma keeps_outside:
  assumes "leaves (\<lambda>w. (view w, users w)) m"
  shows "keeps (after s) (outside m)"
  unfolding outside_def keeps_def wp_zoom
  by (intro allI impI, rule wp_leaves [OF assms]) (auto simp: after_def)

lemma wp_key_read: "wp (outside (py_seq (e_client e) (e_get e MASTER_KEY_ETCD_PATH)))
    (\<lambda>r w. r = view (vs_net s) MASTER_KEY_ETCD_PATH \<and> seen w = seen s \<and> vs_master w = vs_master s)
    (\<lambda>_ w. seen w = seen s \<and> vs_master w = vs_master s) s"
proof -
  have client: "wp (e_client e) (\<lambda>_ w. view w = c \<and> users w = u) (\<lambda>_ w. view w = c \<and> users w = u) n" if "view n = c" "users n = u" for n c u
    using client_view [of n] leavesD [OF etcd_users(1), of n] that by (auto simp: wp_def split: prod.splits sum.splits)
  have get: "wp (e_get e k) (\<lambda>r w. r = c k \<and> view w = c \<and> users w = u) (\<lambda>_ w. view w = c \<and> users w = u) n" if "view n = c" "users n = u" for n c u k
    using get_view [of k n] leavesD [OF etcd_users(2), of k n] that by (auto simp: wp_def split: prod.splits sum.splits)
  show ?thesis unfolding outside_def wp_zoom wp_seq
    by (rule wp_mono [OF client [OF refl refl]], rule wp_mono [OF get]) auto
qed

lemma wp_master:
  "wp (get_master_key e o') (\<lambda>k w. after s w \<and> (k = vs_master s \<or> vs_master s = None \<and> k = stored_key (vs_net s))) (\<lambda>_ w. after s w) s"
proof (cases "vs_master s")
  case (Some k)
  then show ?thesis by (simp add: get_master_key_def wp_bind wp_get wp_return after_def)
next
  case None
  show ?thesis unfolding get_master_key_def wp_bind [of "py_get _"] wp_get None option.case
    unfolding wp_bind
    by (rule wp_mono [OF wp_key_read])
      (auto simp: wp_seq wp_when wp_modify wp_return wp_get after_def stored_key_def None split: option.splits)
qed

lemma keeps_get_pg: "keeps (after s) (get_pg o')"
  unfolding get_pg_def
  by (intro keeps_bind keeps_when keeps_seq keeps_outside database keeps_modify) (auto simp: after_def)

lemma keeps_drop_pg: "keeps (after s) (drop_pg o')"
  unfolding drop_pg_def
  by (intro keeps_bind keeps_when keeps_seq keeps_outside database keeps_modify keeps_ignore) (auto simp: after_def)

lemma wp_lookup:
  assumes "after s w"
  shows "wp (lookup_openwebui_user o' token)
    (\<lambda>r w. after s w \<and> (\<forall>m. fst r = Some m \<longrightarrow> (\<exists>u. users (vs_net s) token = Some u \<and> ou_email u = Some m \<and> snd r = user_groups u)))
    (\<lambda>_. after s) w"
proof -
  have select: "wp (outside (ow_select o' token)) (\<lambda>r w. after s w \<and> r = users (vs_net s) token) (\<lambda>_. after s) w" if "after s w" for w
    unfolding outside_def wp_zoom
    by (rule wp_leaves [OF database(2)]) (use that in \<open>auto simp: after_def dest: select_row\<close>)
  show ?thesis unfolding lookup_openwebui_user_def wp_try wp_seq [of "get_pg o'"]
    by (rule wp_mono [OF keepsD [OF keeps_get_pg assms]], unfold wp_bind, rule wp_mono [OF select])
      (auto simp: wp_return wp_raise wp_seq split: option.splits intro!: wp_mono [OF keepsD [OF keeps_drop_pg]])
qed

text \<open>Whom a verdict may name.\<close>

definition entitled :: "'w validator \<Rightarrow> string \<Rightarrow> verdict \<Rightarrow> bool" where
  "entitled s header v =
     (\<forall>u g. v = Granted u g \<longrightarrow> (\<exists>token. bearer_token header = Some token \<and>
        (u = ''root'' \<and> g = [] \<and> token \<noteq> [] \<and> (vs_master s = Some token \<or> vs_master s = None \<and> stored_key (vs_net s) = Some token)
         \<or> (\<exists>row. users (vs_net s) token = Some row \<and> ou_email row = Some u \<and> u \<noteq> [] \<and> g = join '','' (user_groups row)))))"

lemma wp_auth: "wp (auth e o' header) (\<lambda>v w. after s w \<and> entitled s header v) (\<lambda>_. after s) s"
proof (cases "bearer_token header")
  case None
  then show ?thesis by (simp add: auth_def wp_return after_refl entitled_def)
next
  case (Some token)
  have lookup: "wp (py_bind (lookup_openwebui_user o' token) (\<lambda>(email, groups). case email of
        Some m \<Rightarrow> py_return (if m \<noteq> [] then Granted m (join '','' groups) else Denied) | None \<Rightarrow> py_return Denied))
      (\<lambda>v w. after s w \<and> entitled s header v) (\<lambda>_. after s) w" if "after s w" for w
    unfolding wp_bind
    by (rule wp_mono [OF wp_lookup [OF that]]) (auto simp: wp_return entitled_def Some split: prod.splits option.splits)
  show ?thesis unfolding auth_def Some option.case wp_bind [of "get_master_key e o'"]
  proof (rule wp_mono [OF wp_master])
    fix k w assume k: "after s w \<and> (k = vs_master s \<or> vs_master s = None \<and> k = stored_key (vs_net s))"
    show "wp (if (case k of Some k \<Rightarrow> k \<noteq> [] \<and> token = k | None \<Rightarrow> False) then py_return (Granted ''root'' [])
        else py_bind (lookup_openwebui_user o' token) (\<lambda>(email, groups). case email of
          Some m \<Rightarrow> py_return (if m \<noteq> [] then Granted m (join '','' groups) else Denied) | None \<Rightarrow> py_return Denied))
      (\<lambda>v w. after s w \<and> entitled s header v) (\<lambda>_. after s) w"
      using k lookup [of w] by (auto simp: wp_return entitled_def Some split: option.splits)
  qed
qed

end

section \<open>The service over time\<close>

text \<open>Requests are answered one after the other; between them anything outside may change. \<open>past\<close> collects the states the
  outside had.\<close>

inductive serving :: "'w etcd3 \<Rightarrow> 'w owui \<Rightarrow> 'w validator \<Rightarrow> 'w set \<Rightarrow> bool" for e o' where
  serving_start: "vs_master s = None \<Longrightarrow> serving e o' s {vs_net s}"
| serving_request: "serving e o' s past \<Longrightarrow> auth e o' header s = (r, s') \<Longrightarrow> serving e o' s' (insert (vs_net s') past)"
| serving_change: "serving e o' s past \<Longrightarrow> serving e o' (s\<lparr>vs_net := n\<rparr>) (insert n past)"

inductive_cases serving_cases: "serving e o' s past"

context auth_env
begin

lemma kept_key_was_stored: "serving e o' s past \<Longrightarrow> vs_net s \<in> past \<and> (\<forall>k. vs_master s = Some k \<longrightarrow> (\<exists>w\<in>past. stored_key w = Some k))"
proof (induction rule: serving.induct)
  case (serving_request s past header r s')
  have "after s s'" using wp_auth [of header s] serving_request.hyps by (auto simp: wp_def split: sum.splits)
  with serving_request.IH show ?case by (auto simp: after_def)
qed auto

end

text \<open>C34: The inference gateway is told the caller is root only for a token that was the master key in etcd at some moment since
  the service started, and otherwise names the user to whom Open-WebUI gave exactly this key, with that user's groups; whatever
  changes between requests and whatever call fails.\<close>

theorem gateway_token_checked:
  assumes env: "auth_env e view o' users" and "serving e o' s past" and run: "auth e o' header s = (Inr (Granted u g), s')"
  shows "\<exists>token. bearer_token header = Some token \<and>
     (u = ''root'' \<and> g = [] \<and> (\<exists>w\<in>past. \<exists>v n. view w MASTER_KEY_ETCD_PATH = Some (v, n) \<and> strip (ow_decode o' v) = token)
      \<or> (\<exists>row. users (vs_net s) token = Some row \<and> ou_email row = Some u \<and> u \<noteq> [] \<and> g = join '','' (user_groups row)))"
proof -
  have "auth_env.entitled view o' users s header (Granted u g)" using auth_env.wp_auth [OF env, of header s] run by (simp add: wp_def)
  then obtain token where token: "bearer_token header = Some token"
    and alt: "u = ''root'' \<and> g = [] \<and> token \<noteq> [] \<and> (vs_master s = Some token \<or> vs_master s = None \<and> auth_env.stored_key view o' (vs_net s) = Some token)
      \<or> (\<exists>row. users (vs_net s) token = Some row \<and> ou_email row = Some u \<and> u \<noteq> [] \<and> g = join '','' (user_groups row))"
    by (auto simp: auth_env.entitled_def [OF env])
  have stored: "\<exists>v n. view w MASTER_KEY_ETCD_PATH = Some (v, n) \<and> strip (ow_decode o' v) = k" if "auth_env.stored_key view o' w = Some k" for w k
    using that by (auto simp: auth_env.stored_key_def [OF env] split: option.splits if_splits)
  from auth_env.kept_key_was_stored [OF env assms(2)]
  have "\<exists>w\<in>past. auth_env.stored_key view o' w = Some token" if "vs_master s = Some token \<or> vs_master s = None \<and> auth_env.stored_key view o' (vs_net s) = Some token"
    using that by blast
  with alt token stored show ?thesis by blast
qed

section \<open>A validator in memory\<close>

record avworld =
  av_kv :: mem
  av_users :: "(string \<times> owui_user) list"

abbreviation av_etcd :: "avworld etcd3" where
  "av_etcd \<equiv> zoom_etcd av_kv (\<lambda>k w. w\<lparr>av_kv := k\<rparr>)"

abbreviation av_view :: "avworld \<Rightarrow> store" where
  "av_view \<equiv> \<lambda>w. mem_view (av_kv w)"

definition av_owui :: "avworld owui" where
  "av_owui = \<lparr>ow_connect = py_return (), ow_closed = (\<lambda>_. False), ow_select = (\<lambda>k. py_get (\<lambda>w. map_of (av_users w) k)), ow_close = py_return (),
     ow_decode = (\<lambda>v. case v of Text t \<Rightarrow> t | _ \<Rightarrow> ''{}'')\<rparr>"

interpretation avkv: mem_part av_kv "\<lambda>k w. w\<lparr>av_kv := k\<rparr>"
  by unfold_locales simp

interpretation avs: auth_env av_etcd av_view av_owui "\<lambda>w. map_of (av_users w)"
  by unfold_locales (auto simp: leaves_zoom_etcd, auto simp: leaves_def av_owui_def py_defs)

definition av_world :: avworld where
  "av_world = \<lparr>av_kv = \<lparr>mem_data = [(MASTER_KEY_ETCD_PATH, (Text ''mk'', 1))], mem_rev = 1\<rparr>,
     av_users = [(''sk-1'', \<lparr>ou_email = Some ''a@x.org'', ou_role = Some ''user'', ou_groups = [''staff'', ''x,admin'']\<rparr>)]\<rparr>"

definition av_start :: "avworld validator" where
  "av_start = \<lparr>vs_master = None, vs_pg = False, vs_net = av_world\<rparr>"

theorem gateway_token_checked_witness:
  "fst (auth av_etcd av_owui ''Bearer mk'' av_start) = Inr (Granted ''root'' [])
   \<and> (\<exists>w\<in>{av_world}. \<exists>v n. av_view w MASTER_KEY_ETCD_PATH = Some (v, n) \<and> strip (ow_decode av_owui v) = ''mk'')"
proof -
  have run: "fst (auth av_etcd av_owui ''Bearer mk'' av_start) = Inr (Granted ''root'' [])"
    and others: "bearer_token ''Bearer mk'' = Some ''mk''" "map_of (av_users (vs_net av_start)) ''mk'' = None" by code_simp+
  have "serving av_etcd av_owui av_start {av_world}"
    using serving_start [of av_start av_etcd av_owui] by (simp add: av_start_def)
  from gateway_token_checked [OF avs.auth_env_axioms this, of "''Bearer mk''" "''root''" "[]" "snd (auth av_etcd av_owui ''Bearer mk'' av_start)"]
  show ?thesis using run others by (auto simp: prod_eq_iff)
qed

section \<open>Findings\<close>

text \<open>A master key that was read once is accepted after it was removed from etcd.\<close>

theorem removed_master_key_accepted:
  "fst (auth av_etcd av_owui ''Bearer mk'' ((snd (auth av_etcd av_owui ''Bearer mk'' av_start))\<lparr>vs_net := av_world\<lparr>av_kv := \<lparr>mem_data = [], mem_rev = 2\<rparr>\<rparr>\<rparr>))
     = Inr (Granted ''root'' [])"
  by code_simp

text \<open>The groups are joined with commas, so the name of a group can read as another group: a user who is no admin appears with
  the group that marks admins.\<close>

theorem group_name_reads_as_admin:
  "fst (auth av_etcd av_owui ''bearer sk-1'' av_start) = Inr (Granted ''a@x.org'' ''staff,x,admin'')
   \<and> ''admin'' \<in> set (split_on (CHR '','') ''staff,x,admin'')"
  by code_simp

end
