(* ===== verification/YMonitor.thy ===== *)
theory YMonitor
  imports YUsers
begin

text \<open>
  Two services of the monitoring role: the handler of alerts (\<open>monitoring/files/ntfy-webhook.py\<close>), which forwards what
  Alertmanager posts as notifications, and the writer of the probe targets (\<open>monitoring/files/update-blackbox-targets.py\<close>).
  Requests, the routing table and files are the records \<open>notifier\<close> and \<open>prober\<close>; the locales \<open>notify_env\<close> and \<open>probe_env\<close>
  state what is relied on. Log lines are left out.
\<close>

section \<open>Alerts\<close>

record notice =
  nt_title :: string
  nt_message :: string
  nt_priority :: string
  nt_tags :: string

text \<open>A query to Prometheus, whose error statuses are exceptions, and a post to ntfy, where \<open>ConnectionError\<close> stands for the
  exceptions of the request.\<close>

record 'w notifier =
  nf_query :: "string \<Rightarrow> ('w, json) py"
  nf_post :: "notice \<Rightarrow> ('w, unit) py"
  nf_text :: "exn \<Rightarrow> string"

fun nodes_of :: "json list \<Rightarrow> exn + json list" where
  "nodes_of [] = Inr []"
| "nodes_of (r # rs) =
     sbind (jget r ''metric'' (JObj [])) (\<lambda>metric.
     sbind (jget metric ''blackbox_node'' JNull) (\<lambda>n.
       map_sum id (\<lambda>ns. if truthy n then n # ns else ns) (nodes_of rs)))"

definition nodes_in_answer :: "json \<Rightarrow> exn + json list" where
  "nodes_in_answer data =
     sbind (jget data ''status'' JNull) (\<lambda>st.
       if st \<noteq> JStr ''success'' then Inr []
       else
         sbind (jget data ''data'' (JObj [])) (\<lambda>d.
         sbind (jget d ''result'' JNull) (\<lambda>result.
           if \<not> truthy result then Inr [] else sbind (jiter result) nodes_of)))"

definition probe_query :: "json \<Rightarrow> json \<Rightarrow> string" where
  "probe_query domain target =
     ''probe_success{job='' @ [CHR 0x22] @ ''https-domain'' @ [CHR 0x22] @ '',domain='' @ [CHR 0x22] @ shown domain @ [CHR 0x22]
     @ '',instance='' @ [CHR 0x22] @ shown target @ [CHR 0x22] @ ''}''"

definition query_blackbox_nodes :: "'w notifier \<Rightarrow> json \<Rightarrow> json \<Rightarrow> ('w, json list) py" where
  "query_blackbox_nodes f domain target =
     py_try (py_bind (nf_query f (probe_query domain target)) (\<lambda>data. py_lift (nodes_in_answer data))) (\<lambda>_. py_return [])"

text \<open>\<open>datetime.fromisoformat(t).strftime(...)\<close>: the date and the time as written, without regard to the offset.\<close>

definition wall_clock :: "string \<Rightarrow> int option" where
  "wall_clock t =
     (case (fromisoformat t, fromisoformat (take 10 t @ takeWhile (\<lambda>c. \<not> is_tz_start c) (drop 10 t))) of
        (Some _, Some (Naive w)) \<Rightarrow> Some w
      | _ \<Rightarrow> None)"

definition replace_z :: "string \<Rightarrow> string" where
  "replace_z t = concat (map (\<lambda>c. if c = CHR ''Z'' then ''+00:00'' else [c]) t)"

definition alert_time :: "json \<Rightarrow> string" where
  "alert_time field =
     (if \<not> truthy field then ''Unknown time''
      else (case field of
        JStr t \<Rightarrow> (case wall_clock (replace_z t) of Some w \<Rightarrow> iso_date w @ '' '' @ iso_hms w @ '' UTC'' | None \<Rightarrow> t)
      | _ \<Rightarrow> shown field))"

definition blackbox_info :: "'w notifier \<Rightarrow> json \<Rightarrow> json \<Rightarrow> ('w, string) py" where
  "blackbox_info f domain target =
     (if truthy domain \<and> truthy target
      then py_bind (query_blackbox_nodes f domain target) (\<lambda>nodes.
             if nodes \<noteq> []
             then py_lift (sbind (all_strs nodes) (\<lambda>ns. Inr (nl @ ''Blackbox nodes: '' @ join '', '' ns)))
             else py_return (nl @ ''Blackbox nodes: (query failed or no data)''))
      else py_return [])"

definition severity_marks :: "json \<Rightarrow> string \<times> string \<times> string" where
  "severity_marks sev =
     (if sev = JStr ''critical'' then (''[CRITICAL] '', ''urgent'', ''rotating_light'')
      else if sev = JStr ''warning'' then (''[WARNING] '', ''default'', ''warning'')
      else (''[INFO] '', ''low'', ''information_source''))"

definition firing_note :: "json \<Rightarrow> json \<Rightarrow> json \<Rightarrow> json \<Rightarrow> string \<Rightarrow> string \<Rightarrow> exn + notice" where
  "firing_note sev node summary description time info =
     (case severity_marks sev of (mark, priority, tags) \<Rightarrow>
      (case description of
         JStr descr \<Rightarrow> Inr \<lparr>nt_title = mark @ shown summary,
           nt_message = join nl ([''Alert started at '' @ time] @ (if truthy node then [''Node: '' @ shown node] else [])
             @ [''Severity: '' @ shown sev, [], descr] @ (if info \<noteq> [] then [info] else [])),
           nt_priority = priority, nt_tags = tags\<rparr>
       | _ \<Rightarrow> Inl TypeError))"

definition resolved_note :: "json \<Rightarrow> json \<Rightarrow> string \<Rightarrow> string \<Rightarrow> notice" where
  "resolved_note summary description time info =
     \<lparr>nt_title = ''[RESOLVED] '' @ shown summary, nt_message = ''Alert resolved at '' @ time @ nl @ nl @ shown description @ info,
      nt_priority = ''default'', nt_tags = ''white_check_mark''\<rparr>"

definition format_alert_message :: "'w notifier \<Rightarrow> json \<Rightarrow> ('w, notice) py" where
  "format_alert_message f alert =
     py_bind (py_lift (jget alert ''status'' (JStr ''unknown''))) (\<lambda>st.
     py_bind (py_lift (jget alert ''labels'' (JObj []))) (\<lambda>labels.
     py_bind (py_lift (jget alert ''annotations'' (JObj []))) (\<lambda>annotations.
     py_bind (py_lift (jget labels ''alertname'' (JStr ''Unknown Alert''))) (\<lambda>alertname.
     py_bind (py_lift (jget labels ''severity'' (JStr ''info''))) (\<lambda>sev.
     py_bind (py_lift (jget labels ''node'' JNull)) (\<lambda>node.
     py_bind (py_lift (jget annotations ''summary'' (JStr (shown alertname @ (if truthy node then '' on '' @ shown node else []))))) (\<lambda>summary.
     py_bind (py_lift (jget annotations ''description'' (JStr ''No description available''))) (\<lambda>description.
     py_bind (py_lift (jget alert (if st = JStr ''resolved'' then ''endsAt'' else ''startsAt'') (JStr []))) (\<lambda>field.
     py_bind (py_lift (jget labels ''domain'' JNull)) (\<lambda>domain.
     py_bind (py_lift (jget labels ''instance'' JNull)) (\<lambda>target.
     py_bind (blackbox_info f domain target) (\<lambda>info.
       py_lift (if st = JStr ''resolved'' then Inr (resolved_note summary description (alert_time field) info)
         else firing_note sev node summary description (alert_time field) info)))))))))))))"

definition send_to_ntfy :: "'w notifier \<Rightarrow> notice \<Rightarrow> ('w, bool) py" where
  "send_to_ntfy f n = py_try (py_seq (nf_post f n) (py_return True)) (\<lambda>x. if x = ConnectionError then py_return False else py_raise x)"

definition handle_alert :: "'w notifier \<Rightarrow> json \<Rightarrow> nat \<Rightarrow> ('w, nat) py" where
  "handle_alert f alert success_count =
     py_try (py_bind (format_alert_message f alert) (\<lambda>n. py_bind (send_to_ntfy f n) (\<lambda>ok.
         py_return (if ok then Suc success_count else success_count))))
       (\<lambda>_. py_return success_count)"

definition webhook_answer :: "nat \<Rightarrow> nat \<Rightarrow> response" where
  "webhook_answer alerts success_count =
     (if 0 < alerts \<and> success_count = 0
      then (503, [(''error'', JStr ''Failed to send any notifications''), (''processed'', JInt (int alerts)), (''sent'', JInt 0)])
      else (200, [(''status'', JStr ''success''), (''processed'', JInt (int alerts)), (''sent'', JInt (int success_count))]))"

definition webhook :: "'w notifier \<Rightarrow> exn + json \<Rightarrow> ('w, response) py" where
  "webhook f posted =
     py_try
       (py_bind (py_lift posted) (\<lambda>data.
          if \<not> truthy data then py_return (error_response 400 ''No JSON data received'')
          else
            py_bind (py_lift (jget data ''alerts'' (JList []))) (\<lambda>listed.
            py_bind (py_lift (jiter listed)) (\<lambda>alerts.
            py_bind (py_fold (handle_alert f) alerts 0) (\<lambda>success_count.
              py_return (webhook_answer (length alerts) success_count))))))
       (\<lambda>x. py_return (error_response 500 (nf_text f x)))"

text \<open>What is relied on: queries to Prometheus post nothing. The posts made are recorded with whether they returned, that is whether
  ntfy acknowledged them with a status that is no error. Nothing is said of what became of a post that did not return: one that
  timed out may have been delivered.\<close>

locale notify_env =
  fixes f :: "'w notifier"
    and posts :: "'w \<Rightarrow> (notice \<times> bool) list"
  assumes query_quiet: "leaves posts (nf_query f q)"
    and post_made: "nf_post f n s = (r, s') \<Longrightarrow> posts s' = posts s @ [(n, \<not> isl r)]"

text \<open>What became of an alert: it could not be formatted, or the notification it gives was posted, and acknowledged or not.\<close>

type_synonym fate = "(notice \<times> bool) option"

definition handled :: "'w notifier \<Rightarrow> json \<Rightarrow> fate \<Rightarrow> bool" where
  "handled f alert t =
     (\<exists>x w w'. format_alert_message f alert w = (x, w') \<and> (case t of None \<Rightarrow> isl x | Some (n, _) \<Rightarrow> x = Inr n))"

definition made :: "fate list \<Rightarrow> (notice \<times> bool) list" where
  "made ts = concat (map (\<lambda>t. case t of None \<Rightarrow> [] | Some p \<Rightarrow> [p]) ts)"

definition acknowledged :: "fate list \<Rightarrow> nat" where
  "acknowledged ts = length (filter snd (made ts))"

lemma made_simps [simp]: "made [] = []" "made (None # ts) = made ts" "made (Some p # ts) = p # made ts"
  by (simp_all add: made_def)

lemma acknowledged_simps [simp]: "acknowledged [] = 0" "acknowledged (None # ts) = acknowledged ts"
  "acknowledged (Some p # ts) = (if snd p then Suc (acknowledged ts) else acknowledged ts)"
  by (simp_all add: acknowledged_def)

lemma attempts_Cons: "made (t # ts) = made [t] @ made ts" "acknowledged (t # ts) = acknowledged [t] + acknowledged ts"
  by (cases t; simp)+

text \<open>The alerts of a request, or \<open>None\<close> when it holds nothing that can be gone through.\<close>

definition alerts_in :: "exn + json \<Rightarrow> json list option" where
  "alerts_in posted =
     (case posted of Inl _ \<Rightarrow> None
      | Inr data \<Rightarrow>
          if \<not> truthy data then None
          else (case sbind (jget data ''alerts'' (JList [])) jiter of Inl _ \<Rightarrow> None | Inr alerts \<Rightarrow> Some alerts))"

text \<open>The status and the two counts of an answer.\<close>

definition answer_counts :: "response \<Rightarrow> int \<Rightarrow> nat \<Rightarrow> nat \<Rightarrow> bool" where
  "answer_counts a code processed sent \<longleftrightarrow> fst a = code \<and> map_of (snd a) ''processed'' = Some (JInt (int processed))
     \<and> map_of (snd a) ''sent'' = Some (JInt (int sent))"

lemma webhook_answer_counts: "answer_counts (webhook_answer n k) (if n \<noteq> 0 \<and> k = 0 then 503 else 200) n k"
  by (auto simp: answer_counts_def webhook_answer_def)

context notify_env
begin

lemma keeps_format: "keeps (\<lambda>w. posts w = p) (format_alert_message f alert)"
proof -
  have query: "keeps (\<lambda>w. posts w = p) (nf_query f q)" for q by (rule keepsI, rule wp_leaves [OF query_quiet]) auto
  have "keeps (\<lambda>w. posts w = p) (blackbox_info f domain target)" for domain target
    unfolding blackbox_info_def query_blackbox_nodes_def by (auto intro!: keeps_bind keeps_try query)
  then show ?thesis unfolding format_alert_message_def by (intro keeps_bind keeps_simple)
qed

lemma wp_format:
  assumes "posts s = p"
  shows "wp (format_alert_message f alert)
    (\<lambda>n w. posts w = p \<and> (\<forall>ok. handled f alert (Some (n, ok)))) (\<lambda>_ w. posts w = p \<and> handled f alert None) s"
proof -
  obtain x w' where run: "format_alert_message f alert s = (x, w')" by (metis surj_pair)
  then have "x = Inr n \<Longrightarrow> handled f alert (Some (n, ok))" "isl x \<Longrightarrow> handled f alert None" for n ok
    by (auto simp: handled_def)
  then show ?thesis using keepsD [OF keeps_format assms, of alert] run by (auto simp: wp_def split: sum.splits)
qed

lemma wp_send: "posts s = p \<Longrightarrow> wp (send_to_ntfy f n) (\<lambda>ok w. posts w = p @ [(n, ok)]) (\<lambda>_ w. posts w = p @ [(n, False)]) s"
  unfolding send_to_ntfy_def wp_try wp_seq wp_return
  using post_made [of n s] by (auto simp: wp_def py_return_def py_raise_def split: prod.splits sum.splits)

lemma wp_handle:
  assumes "posts s = p"
  shows "wp (handle_alert f alert k) (\<lambda>k' w. \<exists>t. handled f alert t \<and> posts w = p @ made [t] \<and> k' = k + acknowledged [t]) E s"
proof -
  let ?Q = "\<lambda>k' w. \<exists>t. handled f alert t \<and> posts w = p @ made [t] \<and> k' = k + acknowledged [t]"
  have tried: "?Q (if ok then Suc k else k) w" if "handled f alert (Some (n, ok))" "posts w = p @ [(n, ok)]" for n ok w
    using that by (intro exI [of _ "Some (n, ok)"]) simp
  have unformatted: "?Q k w" if "handled f alert None" "posts w = p" for w
    using that by (intro exI [of _ None]) simp
  show ?thesis unfolding handle_alert_def wp_try wp_return
  proof (rule wp_bindI [OF wp_format [OF assms]])
    fix n w assume w: "posts w = p \<and> (\<forall>ok. handled f alert (Some (n, ok)))"
    then show "wp (py_bind (send_to_ntfy f n) (\<lambda>ok. py_return (if ok then Suc k else k))) ?Q (\<lambda>_. ?Q k) w"
      unfolding wp_bind wp_return using tried [of n False] by (intro wp_mono [OF wp_send]) (auto intro: tried)
  qed (use unformatted in auto)
qed

lemma wp_alerts:
  "posts s = p \<Longrightarrow> wp (py_fold (handle_alert f) alerts k)
     (\<lambda>k' w. \<exists>ts. list_all2 (handled f) alerts ts \<and> posts w = p @ made ts \<and> k' = k + acknowledged ts) E s"
proof (induction alerts arbitrary: k s p)
  case Nil
  then show ?case by (auto simp: wp_return)
next
  case (Cons a as)
  show ?case unfolding wp_fold_Cons
  proof (rule wp_mono [OF wp_handle [OF Cons.prems]])
    fix k' w assume "\<exists>t. handled f a t \<and> posts w = p @ made [t] \<and> k' = k + acknowledged [t]"
    then obtain t where t: "handled f a t" "posts w = p @ made [t]" "k' = k + acknowledged [t]" by blast
    show "wp (py_fold (handle_alert f) as k')
        (\<lambda>k' w. \<exists>ts. list_all2 (handled f) (a # as) ts \<and> posts w = p @ made ts \<and> k' = k + acknowledged ts) E w"
    proof (rule wp_mono [OF Cons.IH [OF t(2)]])
      fix l v assume "\<exists>ts. list_all2 (handled f) as ts \<and> posts v = (p @ made [t]) @ made ts \<and> l = k' + acknowledged ts"
      then obtain ts where "list_all2 (handled f) as ts" "posts v = (p @ made [t]) @ made ts" "l = k' + acknowledged ts" by blast
      with t show "\<exists>ts. list_all2 (handled f) (a # as) ts \<and> posts v = p @ made ts \<and> l = k + acknowledged ts"
        by (intro exI [of _ "t # ts"]) (simp add: attempts_Cons [of t ts])
    qed
  qed auto
qed

end

text \<open>What the handler owes for a request: an error and no post when it cannot be read; otherwise every alert is handled once and in
  order, and the answer gives the number of alerts and of acknowledged posts, and is an error only when there was an alert and no
  post was acknowledged.\<close>

definition answer_due :: "'w notifier \<Rightarrow> exn + json \<Rightarrow> response \<Rightarrow> (notice \<times> bool) list \<Rightarrow> bool" where
  "answer_due f posted a new \<longleftrightarrow>
     (case alerts_in posted of
        None \<Rightarrow> fst a \<in> {400, 500} \<and> new = []
      | Some alerts \<Rightarrow> \<exists>ts. list_all2 (handled f) alerts ts \<and> new = made ts
          \<and> answer_counts a (if alerts \<noteq> [] \<and> acknowledged ts = 0 then 503 else 200) (length alerts) (acknowledged ts))"

context notify_env
begin

lemma wp_webhook: "wp (webhook f posted) (\<lambda>a w. \<exists>new. posts w = posts s @ new \<and> answer_due f posted a new) (\<lambda>_ _. False) s"
proof -
  let ?Q = "\<lambda>a w. \<exists>new. posts w = posts s @ new \<and> answer_due f posted a new"
  let ?E = "\<lambda>x. wp (py_return (error_response 500 (nf_text f x))) ?Q (\<lambda>_ _. False)"
  have early: "?Q (error_response c msg) s" if "alerts_in posted = None" "c \<in> {400, 500}" for c msg
    using that by (auto simp: answer_due_def error_response_def)
  have loop: "wp (py_bind (py_fold (handle_alert f) alerts 0) (\<lambda>k. py_return (webhook_answer (length alerts) k))) ?Q ?E s"
    if alerts: "alerts_in posted = Some alerts" for alerts
  proof -
    have "?Q (webhook_answer (length alerts) k) w"
      if "list_all2 (handled f) alerts ts" "posts w = posts s @ made ts" "k = 0 + acknowledged ts" for k w ts
      using that webhook_answer_counts [of "length alerts" k]
      by (intro exI [of _ "made ts"]) (auto simp: answer_due_def alerts intro!: exI [of _ ts] split del: if_split)
    then show ?thesis unfolding wp_bind wp_return by (intro wp_mono [OF wp_alerts [OF refl]]) blast+
  qed
  show ?thesis
  proof (cases posted)
    case (Inl x)
    then show ?thesis using early [of 500] by (simp add: webhook_def wp_try wp_bind wp_lift wp_return alerts_in_def)
  next
    case (Inr data)
    have "wp (py_bind (py_lift (jget data ''alerts'' (JList []))) (\<lambda>listed. py_bind (py_lift (jiter listed)) (\<lambda>alerts.
        py_bind (py_fold (handle_alert f) alerts 0) (\<lambda>k. py_return (webhook_answer (length alerts) k))))) ?Q ?E s" if "truthy data"
      using that Inr early [of 500] loop
      by (cases "jget data ''alerts'' (JList [])"; simp add: wp_bind wp_lift wp_return alerts_in_def sbind_def split: sum.splits)
    then show ?thesis using early [of 400] Inr
      by (cases "truthy data") (simp_all add: webhook_def wp_try wp_bind wp_lift wp_return alerts_in_def)
  qed
qed

end

text \<open>C40: The handler always answers. A request without alerts that can be gone through is answered 400 or 500 and nothing is
  posted. Otherwise each alert is handled once, in order: the notification it formats to is posted, or nothing if it cannot be
  formatted. The answer gives the number of alerts and the number of posts ntfy acknowledged, and it is an error, which makes
  Alertmanager try again, exactly when there was an alert and no post was acknowledged. Nothing is assumed about posts that failed,
  which may have been delivered.\<close>

theorem retry_only_when_none_acknowledged:
  assumes env: "notify_env f posts" and run: "webhook f posted s = (r, s')"
  shows "\<exists>a new. r = Inr a \<and> posts s' = posts s @ new \<and> answer_due f posted a new"
  using notify_env.wp_webhook [OF env, of posted s] run by (auto simp: wp_def split: sum.splits)

text \<open>A handler for which a post with one title times out after it was delivered: the posts and what was delivered. A batch of two
  alerts of which the second times out is answered 200, with one acknowledged and two delivered.\<close>

definition mem_notifier :: "((notice \<times> bool) list \<times> notice list) notifier" where
  "mem_notifier = \<lparr>nf_query = (\<lambda>_. py_raise ConnectionError),
     nf_post = (\<lambda>n. let ok = nt_title n \<noteq> ''[INFO] down'' in
        py_seq (py_modify (\<lambda>(ps, ns). (ps @ [(n, ok)], ns @ [n]))) (if ok then py_return () else py_raise ConnectionError)),
     nf_text = (\<lambda>_. ''error'')\<rparr>"

interpretation mnt: notify_env mem_notifier fst
  by unfold_locales (auto simp: mem_notifier_def leaves_def py_defs Let_def split: if_splits)

definition disk_alert :: json where
  "disk_alert = JObj [(''status'', JStr ''firing''), (''labels'', JObj [(''severity'', JStr ''critical'')]),
     (''annotations'', JObj [(''summary'', JStr ''disk full'')]), (''startsAt'', JStr ''0001-01-01T12:00:00+02:00'')]"

definition down_alert :: json where
  "down_alert = JObj [(''annotations'', JObj [(''summary'', JStr ''down'')])]"

definition batch :: "json list \<Rightarrow> json" where
  "batch alerts = JObj [(''alerts'', JList alerts)]"

theorem retry_only_when_none_acknowledged_witness:
  "map snd (fst (snd (webhook mem_notifier (Inr (batch [disk_alert, down_alert])) ([], [])))) = [True, False]
   \<and> (\<exists>a new. fst (webhook mem_notifier (Inr (batch [disk_alert, down_alert])) ([], [])) = Inr a
        \<and> fst (snd (webhook mem_notifier (Inr (batch [disk_alert, down_alert])) ([], []))) = new
        \<and> answer_due mem_notifier (Inr (batch [disk_alert, down_alert])) a new)"
proof
  show "map snd (fst (snd (webhook mem_notifier (Inr (batch [disk_alert, down_alert])) ([], [])))) = [True, False]" by code_simp
  from retry_only_when_none_acknowledged [OF mnt.notify_env_axioms prod.collapse [symmetric], of "Inr (batch [disk_alert, down_alert])" "([], [])"]
  show "\<exists>a new. fst (webhook mem_notifier (Inr (batch [disk_alert, down_alert])) ([], [])) = Inr a
      \<and> fst (snd (webhook mem_notifier (Inr (batch [disk_alert, down_alert])) ([], []))) = new
      \<and> answer_due mem_notifier (Inr (batch [disk_alert, down_alert])) a new" by simp
qed

text \<open>The retry of a request whose only post timed out after it was delivered delivers the notification again.\<close>

theorem timed_out_alert_repeated:
  "fst (fst (map_prod projr id (webhook mem_notifier (Inr (batch [down_alert])) ([], [])))) = 503
   \<and> map nt_title (snd (snd (webhook mem_notifier (Inr (batch [down_alert])) (snd (webhook mem_notifier (Inr (batch [down_alert])) ([], []))))))
       = [''[INFO] down'', ''[INFO] down'']"
  by code_simp

text \<open>The time in a notification is the clock of the sender's zone but is called UTC: 12:00 at two hours east of Greenwich is
  10:00 UTC.\<close>

theorem alert_time_zone_dropped:
  "alert_time (JStr ''0001-01-01T12:00:00+02:00'') = ''0001-01-01 12:00:00 UTC''
   \<and> fromisoformat ''0001-01-01T12:00:00+02:00'' = fromisoformat ''0001-01-01T10:00:00+00:00''"
  by code_simp

section \<open>Probe targets\<close>

datatype payload = Targets "json list" | Metrics string

text \<open>The routing table as \<open>ip -j route\<close> prints it, temporary files next to their destination, the atomic move, the owner
  and the mode, and reading a JSON file (\<open>None\<close> when there is none).\<close>

record 'w prober =
  pb_node :: string
  pb_routes :: "('w, int \<times> (exn + json)) py"
  pb_tempfile :: "payload \<Rightarrow> ('w, string) py"
  pb_move :: "string \<Rightarrow> string \<Rightarrow> ('w, unit) py"
  pb_permit :: "string \<Rightarrow> ('w, unit) py"
  pb_load :: "string \<Rightarrow> ('w, json list option) py"
  pb_decode :: "blob \<Rightarrow> string"

definition TARGETS_FILE :: string where
  "TARGETS_FILE = ''/etc/prometheus/blackbox-targets.json''"

definition METRICS_FILE :: string where
  "METRICS_FILE = ''/var/lib/prometheus/node-exporter/uplink.prom''"

definition route_found :: "int \<times> (exn + json) \<Rightarrow> bool" where
  "route_found r = (fst r = 0 \<and> (case snd r of Inr (JList (JObj _ # _)) \<Rightarrow> True | _ \<Rightarrow> False))"

definition has_internet_uplink :: "'w prober \<Rightarrow> ('w, bool) py" where
  "has_internet_uplink p = py_try (py_bind (pb_routes p) (\<lambda>r. py_return (route_found r))) (\<lambda>_. py_return False)"

definition get_targets_count :: "'w prober \<Rightarrow> ('w, nat) py" where
  "get_targets_count p =
     py_try (py_bind (pb_load p TARGETS_FILE) (\<lambda>r. py_return (case r of Some ts \<Rightarrow> length ts | None \<Rightarrow> 0))) (\<lambda>_. py_return 0)"

definition uplink_metrics :: "string \<Rightarrow> bool \<Rightarrow> nat \<Rightarrow> string" where
  "uplink_metrics node up n =
     (let label = ''{node='' @ [CHR 0x22] @ node @ [CHR 0x22] @ ''} '' in
      ''# HELP ycluster_uplink_status Internet uplink availability (1=available, 0=unavailable)'' @ nl
      @ ''# TYPE ycluster_uplink_status gauge'' @ nl
      @ ''ycluster_uplink_status'' @ label @ (if up then ''1'' else ''0'') @ nl @ nl
      @ ''# HELP ycluster_blackbox_targets_count Number of blackbox targets configured'' @ nl
      @ ''# TYPE ycluster_blackbox_targets_count gauge'' @ nl
      @ ''ycluster_blackbox_targets_count'' @ label @ nat_str n @ nl)"

definition write_file :: "'w prober \<Rightarrow> string \<Rightarrow> payload \<Rightarrow> ('w, unit) py" where
  "write_file p path content =
     py_bind (pb_tempfile p content) (\<lambda>tmp_path. py_seq (pb_move p tmp_path path) (pb_permit p path))"

definition write_uplink_metrics :: "'w prober \<Rightarrow> ('w, unit) py" where
  "write_uplink_metrics p =
     py_ignore (py_bind (has_internet_uplink p) (\<lambda>up. py_bind (get_targets_count p) (\<lambda>n.
       write_file p METRICS_FILE (Metrics (uplink_metrics (pb_node p) up n)))))"

definition get_https_domain :: "'w etcd3 \<Rightarrow> 'w prober \<Rightarrow> ('w, string option) py" where
  "get_https_domain e p =
     py_try (py_seq (e_client e) (py_bind (e_get e ''/cluster/https/domain'') (\<lambda>r. py_return (case r of
         Some (v, _) \<Rightarrow> if blob_true v then Some (strip (pb_decode p v)) else None
       | None \<Rightarrow> None))))
       (\<lambda>_. py_return None)"

record exporter =
  ex_address :: string
  ex_node :: json
  ex_type :: string

definition frontend_exporter :: "string \<times> blob \<Rightarrow> exporter list" where
  "frontend_exporter x =
     (if \<not> blob_true (snd x) then []
      else (case loads_dict (snd x) of
        Inl _ \<Rightarrow> []
      | Inr d \<Rightarrow>
          (let name = map_of d ''name''; address = (if otruthy (map_of d ''ip'') then map_of d ''ip'' else map_of d ''hostname'') in
           if otruthy name \<and> otruthy address
           then [\<lparr>ex_address = shown (the address) @ '':9115'', ex_node = the name, ex_type = ''frontend''\<rparr>] else [])))"

definition local_exporter :: "'w prober \<Rightarrow> exporter" where
  "local_exporter p = \<lparr>ex_address = ''localhost:9115'', ex_node = JStr (pb_node p), ex_type = ''core''\<rparr>"

definition get_blackbox_exporters :: "'w etcd3 \<Rightarrow> 'w prober \<Rightarrow> ('w, exporter list) py" where
  "get_blackbox_exporters e p =
     py_bind (py_try (py_seq (e_client e) (py_bind (e_get_prefix e ''/cluster/nodes/frontend'') (\<lambda>xs. py_return (concat (map frontend_exporter xs)))))
        (\<lambda>_. py_return [])) (\<lambda>fronts. py_return (local_exporter p # fronts))"

record probe_spec =
  ps_url :: string
  ps_module :: string
  ps_name :: string

definition get_probe_specs :: "string \<Rightarrow> probe_spec list" where
  "get_probe_specs domain =
     [\<lparr>ps_url = ''https://'' @ domain, ps_module = ''http_2xx'', ps_name = ''root''\<rparr>,
      \<lparr>ps_url = ''https://'' @ domain @ ''/v1/models'', ps_module = ''http_401'', ps_name = ''inference-models''\<rparr>,
      \<lparr>ps_url = ''https://admin.'' @ domain @ ''/api/ping'', ps_module = ''http_ping'', ps_name = ''admin-ping''\<rparr>]"

definition probe_target :: "string \<Rightarrow> exporter \<Rightarrow> probe_spec \<Rightarrow> json" where
  "probe_target domain x spec =
     JObj [(''targets'', JList [JStr (ex_address x)]),
       (''labels'', JObj [(''job'', JStr ''https-domain''), (''domain'', JStr domain), (''blackbox_node'', ex_node x), (''node_type'', JStr (ex_type x)),
          (''module'', JStr (ps_module spec)), (''probe_name'', JStr (ps_name spec)), (''__param_target'', JStr (ps_url spec))])]"

definition target_matrix :: "bool \<Rightarrow> string option \<Rightarrow> exporter list \<Rightarrow> json list" where
  "target_matrix up domain exporters =
     (if \<not> up then []
      else (case domain of
        Some d \<Rightarrow> if d \<noteq> [] then concat (map (\<lambda>x. map (probe_target d x) (get_probe_specs d)) exporters) else []
      | None \<Rightarrow> []))"

definition update_blackbox_targets :: "'w etcd3 \<Rightarrow> 'w prober \<Rightarrow> ('w, bool) py" where
  "update_blackbox_targets e p =
     py_bind (get_https_domain e p) (\<lambda>domain.
     py_bind (get_blackbox_exporters e p) (\<lambda>exporters.
     py_bind (has_internet_uplink p) (\<lambda>up.
       py_try
         (py_seq (write_file p TARGETS_FILE (Targets (target_matrix up domain exporters)))
         (py_seq (has_internet_uplink p)
         (py_seq (write_uplink_metrics p)
           (py_return True))))
         (\<lambda>_. py_return False))))"

locale probe_env = etcd_seq e view
  for e :: "'w etcd3" and view :: "'w \<Rightarrow> store" +
  fixes p :: "'w prober"
    and content :: "'w \<Rightarrow> string \<Rightarrow> payload option"
    and up :: bool
  assumes etcd_file: "leaves content (e_client e)" "leaves content (e_get e k)" "leaves content (e_get_prefix e k)"
    and quiet: "leaves (\<lambda>w. (view w, content w)) (pb_routes p)" "leaves (\<lambda>w. (view w, content w)) (pb_load p k)"
      "leaves (\<lambda>w. (view w, content w)) (pb_permit p k)"
    and route: "pb_routes p s = (r, s') \<Longrightarrow> (case r of Inr x \<Rightarrow> route_found x | Inl _ \<Rightarrow> False) = up"
    and tempfile: "pb_tempfile p c s = (t, s') \<Longrightarrow> view s' = view s \<and> content s' TARGETS_FILE = content s TARGETS_FILE
        \<and> (\<forall>path. t = Inr path \<longrightarrow> path \<noteq> TARGETS_FILE \<and> content s' path = Some c)"
    and move: "pb_move p a b s = (m, s') \<Longrightarrow> view s' = view s \<and> content s' b = (if isl m then content s b else content s a)
        \<and> (TARGETS_FILE \<notin> {a, b} \<longrightarrow> content s' TARGETS_FILE = content s TARGETS_FILE)"
begin

lemma keeps_quiet: "keeps (\<lambda>w. J (view w) (content w TARGETS_FILE)) (pb_routes p)" "keeps (\<lambda>w. J (view w) (content w TARGETS_FILE)) (pb_load p k)"
  "keeps (\<lambda>w. J (view w) (content w TARGETS_FILE)) (pb_permit p k)"
  by (rule keepsI, rule wp_leaves [OF quiet(1)], auto) (rule keepsI, rule wp_leaves [OF quiet(2)], auto, rule keepsI, rule wp_leaves [OF quiet(3)], auto)

lemma keeps_uplink: "keeps (\<lambda>w. J (view w) (content w TARGETS_FILE)) (has_internet_uplink p)"
  unfolding has_internet_uplink_def by (intro keeps_try keeps_bind keeps_quiet keeps_simple)

lemma wp_uplink: "J (view s) (content s TARGETS_FILE) \<Longrightarrow> wp (has_internet_uplink p) (\<lambda>r w. r = up \<and> J (view w) (content w TARGETS_FILE)) E s"
proof -
  assume J: "J (view s) (content s TARGETS_FILE)"
  obtain r s' where run: "pb_routes p s = (r, s')" by (metis surj_pair)
  have "view s' = view s" "content s' = content s" using leavesD [OF quiet(1) run] by auto
  with route [OF run] J run show ?thesis
    by (cases r) (auto simp: has_internet_uplink_def wp_def py_defs)
qed

lemma wp_write:
  "wp (write_file p TARGETS_FILE c) (\<lambda>_ w. view w = view s \<and> content w TARGETS_FILE = Some c)
    (\<lambda>_ w. content w TARGETS_FILE \<in> {content s TARGETS_FILE, Some c}) s"
proof -
  have permit: "wp (pb_permit p TARGETS_FILE) (\<lambda>_ w. view w = view s \<and> content w TARGETS_FILE = Some c)
      (\<lambda>_ w. content w TARGETS_FILE = content s TARGETS_FILE \<or> content w TARGETS_FILE = Some c) w" if "view w = view s" "content w TARGETS_FILE = Some c" for w
    by (rule wp_leaves [OF quiet(3)]) (use that in auto)
  have moved: "wp (pb_move p a TARGETS_FILE) (\<lambda>_ w. view w = view s \<and> content w TARGETS_FILE = Some c)
      (\<lambda>_ w. content w TARGETS_FILE = content s TARGETS_FILE) w" if "view w = view s" "content w TARGETS_FILE = content s TARGETS_FILE" "content w a = Some c" for a w
    using move [of a TARGETS_FILE w] that by (auto simp: wp_def split: prod.splits sum.splits)
  have temp: "wp (pb_tempfile p c) (\<lambda>a w. view w = view s \<and> content w TARGETS_FILE = content s TARGETS_FILE \<and> content w a = Some c)
      (\<lambda>_ w. content w TARGETS_FILE = content s TARGETS_FILE) s"
    using tempfile [of c s] by (auto simp: wp_def split: prod.splits sum.splits)
  show ?thesis unfolding write_file_def
    by (rule wp_bindI [OF temp], unfold wp_seq, rule wp_mono [OF moved]) (auto intro: permit)
qed

lemma keeps_metrics: "keeps (\<lambda>w. content w TARGETS_FILE = x) (write_uplink_metrics p)"
proof -
  have temp: "wp (pb_tempfile p c) (\<lambda>a w. a \<noteq> TARGETS_FILE \<and> content w TARGETS_FILE = x) (\<lambda>_ w. content w TARGETS_FILE = x) w" if "content w TARGETS_FILE = x" for c w
    using tempfile [of c w] that by (auto simp: wp_def split: prod.splits sum.splits)
  have other: "METRICS_FILE \<noteq> TARGETS_FILE" by (simp add: METRICS_FILE_def TARGETS_FILE_def)
  have move: "wp (pb_move p a METRICS_FILE) (\<lambda>_ w. content w TARGETS_FILE = x) (\<lambda>_ w. content w TARGETS_FILE = x) w"
    if "a \<noteq> TARGETS_FILE" "content w TARGETS_FILE = x" for a w
    using move [of a METRICS_FILE w] that other by (auto simp: wp_def split: prod.splits sum.splits)
  have "keeps (\<lambda>w. content w TARGETS_FILE = x) (write_file p METRICS_FILE c)" for c
    unfolding write_file_def
  proof (rule keepsI, rule wp_bindI [OF temp])
    fix a w assume a: "a \<noteq> TARGETS_FILE \<and> content w TARGETS_FILE = x"
    show "wp (py_seq (pb_move p a METRICS_FILE) (pb_permit p METRICS_FILE)) (\<lambda>_ w. content w TARGETS_FILE = x) (\<lambda>_ w. content w TARGETS_FILE = x) w"
      unfolding wp_seq by (rule wp_mono [OF move]) (use a keepsD [OF keeps_quiet(3) [of "\<lambda>_ y. y = x"]] in auto)
  qed
  moreover have "keeps (\<lambda>w. content w TARGETS_FILE = x) (get_targets_count p)"
    unfolding get_targets_count_def by (intro keeps_try keeps_bind keeps_quiet(2) [of "\<lambda>_ y. y = x"]) simp_all
  ultimately show ?thesis
    unfolding write_uplink_metrics_def by (intro keeps_ignore keeps_bind keeps_uplink [of "\<lambda>_ y. y = x"])
qed

lemma wp_domain:
  "wp (get_https_domain e p) (\<lambda>d w. view w = view s \<and> content w = content s
      \<and> d = (case view s ''/cluster/https/domain'' of Some (v, _) \<Rightarrow> if blob_true v then Some (strip (pb_decode p v)) else None | None \<Rightarrow> None)) E s"
proof -
  have client: "wp (e_client e) (\<lambda>_ w. view w = view s \<and> content w = content s) F s" for F
    using wp_client_seq [of s "\<lambda>_ w. view w = view s" F] leavesD [OF etcd_file(1), of s] by (auto simp: wp_def split: prod.splits sum.splits)
  have get: "wp (e_get e k) (\<lambda>r w. r = view s k \<and> view w = view s \<and> content w = content s) F w" if "view w = view s" "content w = content s" for k w F
    using wp_get_seq [of w "\<lambda>r v. r = view s k \<and> view v = view s" k F] leavesD [OF etcd_file(2), of k w] that by (auto simp: wp_def split: prod.splits sum.splits)
  show ?thesis unfolding get_https_domain_def wp_try wp_seq wp_bind wp_return
    by (rule wp_mono [OF client], rule wp_mono [OF get]) auto
qed

lemma wp_exporters:
  "wp (get_blackbox_exporters e p) (\<lambda>xs w. view w = view s \<and> content w = content s
      \<and> (\<exists>listed. prefix_list (view s) ''/cluster/nodes/frontend'' listed \<and> xs = local_exporter p # concat (map frontend_exporter listed))) E s"
proof -
  have client: "wp (e_client e) (\<lambda>_ w. view w = view s \<and> content w = content s) F s" for F
    using wp_client_seq [of s "\<lambda>_ w. view w = view s" F] leavesD [OF etcd_file(1), of s] by (auto simp: wp_def split: prod.splits sum.splits)
  have list: "wp (e_get_prefix e k) (\<lambda>r w. prefix_list (view s) k r \<and> view w = view s \<and> content w = content s) F w" if "view w = view s" "content w = content s" for k w F
    using wp_prefix_seq [of w k "\<lambda>r v. prefix_list (view s) k r \<and> view v = view s" F] leavesD [OF etcd_file(3), of k w] that
    by (auto simp: wp_def split: prod.splits sum.splits)
  show ?thesis unfolding get_blackbox_exporters_def wp_try wp_seq wp_bind wp_return
    by (rule wp_mono [OF client], rule wp_mono [OF list]) auto
qed

end

text \<open>The exporters: the node itself and every frontend with a name and an address.\<close>

definition exporter_of :: "store \<Rightarrow> 'w prober \<Rightarrow> exporter \<Rightarrow> bool" where
  "exporter_of c p x = (x = local_exporter p \<or> (\<exists>k v n. startswith k ''/cluster/nodes/frontend'' \<and> c k = Some (v, n) \<and> x \<in> set (frontend_exporter (k, v))))"

definition target_wanted :: "bool \<Rightarrow> store \<Rightarrow> 'w prober \<Rightarrow> json \<Rightarrow> bool" where
  "target_wanted up c p t = (up \<and> (\<exists>v n. c ''/cluster/https/domain'' = Some (v, n) \<and> blob_true v \<and> strip (pb_decode p v) \<noteq> []
     \<and> (\<exists>x spec. exporter_of c p x \<and> spec \<in> set (get_probe_specs (strip (pb_decode p v))) \<and> t = probe_target (strip (pb_decode p v)) x spec)))"

lemma matrix_wanted:
  assumes "prefix_list c ''/cluster/nodes/frontend'' listed"
    and "d = (case c ''/cluster/https/domain'' of Some (v, _) \<Rightarrow> if blob_true v then Some (strip (pb_decode p v)) else None | None \<Rightarrow> None)"
  shows "t \<in> set (target_matrix up d (local_exporter p # concat (map frontend_exporter listed))) \<longleftrightarrow> target_wanted up c p t"
proof -
  let ?xs = "local_exporter p # concat (map frontend_exporter listed)"
  have xs: "x \<in> set ?xs \<longleftrightarrow> exporter_of c p x" for x
    using prefix_listD [OF assms(1)] by (force simp: exporter_of_def)
  have "t \<in> set (target_matrix up d ?xs) \<longleftrightarrow> up \<and> (\<exists>n. d = Some n \<and> n \<noteq> [] \<and> (\<exists>x\<in>set ?xs. \<exists>spec\<in>set (get_probe_specs n). t = probe_target n x spec))"
    by (cases d) (auto simp: target_matrix_def image_iff)
  also have "\<dots> \<longleftrightarrow> target_wanted up c p t" unfolding Bex_def xs target_wanted_def assms(2) by (auto split: option.splits)
  finally show ?thesis .
qed

context probe_env
begin

definition replaced :: "payload option \<Rightarrow> store \<Rightarrow> bool \<Rightarrow> payload option \<Rightarrow> bool" where
  "replaced old c ok now = (\<exists>ts. now \<in> {old, Some (Targets ts)} \<and> (ok \<longrightarrow> now = Some (Targets ts)) \<and> (\<forall>t. t \<in> set ts \<longleftrightarrow> target_wanted up c p t))"

lemma wp_store_targets:
  assumes "\<And>t. t \<in> set ts \<longleftrightarrow> target_wanted up c p t" "content s TARGETS_FILE = old"
  shows "wp (py_try (py_seq (write_file p TARGETS_FILE (Targets ts)) (py_seq (has_internet_uplink p) (py_seq (write_uplink_metrics p) (py_return True))))
      (\<lambda>_. py_return False)) (\<lambda>ok w. replaced old c ok (content w TARGETS_FILE)) E s"
proof -
  have fits: "replaced old c ok now" if "now \<in> {old, Some (Targets ts)}" "ok \<longrightarrow> now = Some (Targets ts)" for ok now
    unfolding replaced_def using assms(1) that by blast
  have rest: "keeps (\<lambda>w. content w TARGETS_FILE = Some (Targets ts)) (py_seq (has_internet_uplink p) (py_seq (write_uplink_metrics p) (py_return True)))"
    by (intro keeps_seq keeps_uplink [of "\<lambda>_ y. y = Some (Targets ts)"] keeps_metrics keeps_simple)
  show ?thesis unfolding wp_try wp_seq [of "write_file p _ _"]
  proof (rule wp_mono [OF wp_write])
    fix w assume "view w = view s \<and> content w TARGETS_FILE = Some (Targets ts)"
    then show "wp (py_seq (has_internet_uplink p) (py_seq (write_uplink_metrics p) (py_return True))) (\<lambda>ok w. replaced old c ok (content w TARGETS_FILE))
        (\<lambda>e. wp (py_return False) (\<lambda>ok w. replaced old c ok (content w TARGETS_FILE)) E) w"
      by (intro wp_mono [OF keepsD [OF rest]]) (auto simp: wp_return intro: fits)
  qed (use assms(2) fits in \<open>auto simp: wp_return\<close>)
qed

lemma wp_update: "wp (update_blackbox_targets e p) (\<lambda>ok w. replaced (content s TARGETS_FILE) (view s) ok (content w TARGETS_FILE)) (\<lambda>_ _. False) s"
  unfolding update_blackbox_targets_def
proof (rule wp_bindI [OF wp_domain])
  fix d w assume w: "view w = view s \<and> content w = content s \<and> d = (case view s ''/cluster/https/domain'' of
      Some (v, _) \<Rightarrow> if blob_true v then Some (strip (pb_decode p v)) else None | None \<Rightarrow> None)"
  show "wp (py_bind (get_blackbox_exporters e p) (\<lambda>exporters. py_bind (has_internet_uplink p) (\<lambda>up.
       py_try (py_seq (write_file p TARGETS_FILE (Targets (target_matrix up d exporters)))
         (py_seq (has_internet_uplink p) (py_seq (write_uplink_metrics p) (py_return True)))) (\<lambda>_. py_return False))))
     (\<lambda>ok w. replaced (content s TARGETS_FILE) (view s) ok (content w TARGETS_FILE)) (\<lambda>_ _. False) w"
  proof (rule wp_bindI [OF wp_exporters], elim conjE exE, rule wp_bindI [OF wp_uplink [of "\<lambda>v y. y = content s TARGETS_FILE"]])
    fix xs w1 listed u w2
    assume "content w1 = content w" "prefix_list (view w) ''/cluster/nodes/frontend'' listed"
      "xs = local_exporter p # concat (map frontend_exporter listed)" "u = up \<and> content w2 TARGETS_FILE = content s TARGETS_FILE"
    then show "wp (py_try (py_seq (write_file p TARGETS_FILE (Targets (target_matrix u d xs)))
         (py_seq (has_internet_uplink p) (py_seq (write_uplink_metrics p) (py_return True)))) (\<lambda>_. py_return False))
       (\<lambda>ok w. replaced (content s TARGETS_FILE) (view s) ok (content w TARGETS_FILE)) (\<lambda>_ _. False) w2"
      using w by (intro wp_store_targets) (auto simp only: matrix_wanted)
  qed (use w in auto)
qed simp

end

text \<open>The file of probe targets is replaced as a whole: afterwards it is the old one or the new one, and the new one when the
  update reports success. The new one has, with an uplink and a domain, exactly the targets that pair the node itself or a
  registered frontend with one of the three probes of the domain, and none otherwise.\<close>

theorem blackbox_targets_exact:
  assumes env: "probe_env e view p content up" and run: "update_blackbox_targets e p s = (r, s')"
  shows "\<exists>ok ts. r = Inr ok \<and> content s' TARGETS_FILE \<in> {content s TARGETS_FILE, Some (Targets ts)}
    \<and> (ok \<longrightarrow> content s' TARGETS_FILE = Some (Targets ts)) \<and> (\<forall>t. t \<in> set ts \<longleftrightarrow> target_wanted up (view s) p t)"
  using probe_env.wp_update [OF env, of s] run by (auto simp: wp_def probe_env.replaced_def [OF env] split: sum.splits)

section \<open>A prober in memory\<close>

record pworld =
  pw_kv :: mem
  pw_files :: "(string \<times> payload) list"

abbreviation pw_etcd :: "pworld etcd3" where
  "pw_etcd \<equiv> zoom_etcd pw_kv (\<lambda>k w. w\<lparr>pw_kv := k\<rparr>)"

abbreviation pw_view :: "pworld \<Rightarrow> store" where
  "pw_view \<equiv> \<lambda>w. mem_view (pw_kv w)"

definition pw_prober :: "pworld prober" where
  "pw_prober = \<lparr>pb_node = ''s1'', pb_routes = py_return (0, Inr (JList [JObj [(''dev'', JStr ''eth0'')]])),
     pb_tempfile = (\<lambda>c. py_seq (py_modify (\<lambda>w. w\<lparr>pw_files := AList.update ''tmp'' c (pw_files w)\<rparr>)) (py_return ''tmp'')),
     pb_move = (\<lambda>a b. py_modify (\<lambda>w. case map_of (pw_files w) a of
        Some c \<Rightarrow> w\<lparr>pw_files := AList.update b c (pw_files w)\<rparr> | None \<Rightarrow> w\<lparr>pw_files := AList.delete b (pw_files w)\<rparr>)),
     pb_permit = (\<lambda>_. py_return ()),
     pb_load = (\<lambda>path. py_get (\<lambda>w. case map_of (pw_files w) path of Some (Targets ts) \<Rightarrow> Some ts | _ \<Rightarrow> None)),
     pb_decode = (\<lambda>v. case v of Text t \<Rightarrow> t | _ \<Rightarrow> ''{}'')\<rparr>"

interpretation pwkv: mem_part pw_kv "\<lambda>k w. w\<lparr>pw_kv := k\<rparr>"
  by unfold_locales simp

interpretation pws: probe_env pw_etcd pw_view pw_prober "\<lambda>w. map_of (pw_files w)" True
  by unfold_locales (auto simp: leaves_zoom_etcd, auto simp: leaves_def pw_prober_def py_defs route_found_def TARGETS_FILE_def split: option.splits)

definition pw_world :: pworld where
  "pw_world = \<lparr>pw_kv = \<lparr>mem_data = [(''/cluster/https/domain'', (Text ''x.org'', 1)),
     (''/cluster/nodes/frontend/f1'', (Doc [(''name'', JStr ''f1''), (''ip'', JStr ''192.0.2.1'')], 2))], mem_rev = 2\<rparr>, pw_files = []\<rparr>"

theorem blackbox_targets_exact_witness:
  "\<exists>ts. map_of (pw_files (snd (update_blackbox_targets pw_etcd pw_prober pw_world))) TARGETS_FILE = Some (Targets ts) \<and> length ts = 6
     \<and> (\<forall>t. t \<in> set ts \<longleftrightarrow> target_wanted True (pw_view pw_world) pw_prober t)"
proof -
  let ?run = "update_blackbox_targets pw_etcd pw_prober pw_world"
  have ok: "fst ?run = Inr True" by code_simp
  have six: "(case map_of (pw_files (snd ?run)) TARGETS_FILE of Some (Targets ts) \<Rightarrow> length ts = 6 | _ \<Rightarrow> False)" by code_simp
  from blackbox_targets_exact [OF pws.probe_env_axioms prod.collapse [symmetric], of pw_world] ok
  obtain ts where "map_of (pw_files (snd ?run)) TARGETS_FILE = Some (Targets ts)" "\<forall>t. t \<in> set ts \<longleftrightarrow> target_wanted True (pw_view pw_world) pw_prober t"
    by auto
  with six show ?thesis by auto
qed

end
