(* ===== verification/YMacHealth.thy ===== *)
theory YMacHealth
  imports YHealth
begin

text \<open>
  The health service of the macOS nodes (\<open>macos/files/health-service.py\<close>), which has its own copies of the checks. Commands,
  connections and NTP are the record \<open>node\<close> of YHealth; the resolver, the load averages and the number of processors are
  added by the record \<open>mac\<close>, with the printing of a percentage. Fractions in the details of a report and the constant
  fields of the answer are left out.
\<close>

record 'w mac =
  mc_node :: "'w node"
  mc_addrinfo :: "string \<Rightarrow> ('w, unit) py"
  mc_loadavg :: "('w, rat) py"
  mc_cpu_count :: "nat option"
  mc_percent :: "rat \<Rightarrow> string"

section \<open>The checks\<close>

definition mac_service_status :: "'w mac \<Rightarrow> string \<Rightarrow> ('w, bool) py" where
  "mac_service_status m service_name =
     py_try (py_bind (n_run (mc_node m) [''launchctl'', ''list'', service_name]) (\<lambda>r.
         py_return (pr_rc r = 0 \<and> contains (pr_out r) service_name)))
       (\<lambda>_. py_return False)"

definition after_colon :: "string \<Rightarrow> string" where
  "after_colon line = strip (drop 1 (dropWhile (\<lambda>c. c \<noteq> CHR '':'') line))"

definition time_server :: "proc \<Rightarrow> string" where
  "time_server r =
     (if pr_rc r = 0 \<and> pr_out r \<noteq> []
      then (case filter (\<lambda>l. contains l ''Network Time Server:'') (split_on (CHR 0x0A) (strip (pr_out r))) of
              l # _ \<Rightarrow> after_colon l
            | [] \<Rightarrow> ''unknown'')
      else ''unknown'')"

definition ntp_sync :: "'w mac \<Rightarrow> string \<Rightarrow> ('w, bool \<times> json) py" where
  "ntp_sync m server =
     (if server \<noteq> [] \<and> server \<noteq> ''unknown''
      then py_try (py_bind (n_run (mc_node m) [''sntp'', server]) (\<lambda>r.
             py_return (pr_rc r = 0, if pr_rc r = 0 then JNull else JStr (strip (pr_err r)))))
           (\<lambda>x. py_return (False, JStr (''NTP sync test failed: '' @ n_text (mc_node m) x)))
      else py_return (False, JNull))"

definition check_ntp_status :: "'w mac \<Rightarrow> ('w, report) py" where
  "check_ntp_status m =
     py_try
       (py_bind (n_run (mc_node m) [''systemsetup'', ''-getnetworktimeserver'']) (\<lambda>server_result.
        py_bind (n_run (mc_node m) [''systemsetup'', ''-getusingnetworktime'']) (\<lambda>auto_result.
          let configured = (pr_rc server_result = 0);
              auto_time = (pr_rc auto_result = 0 \<and> contains (pr_out auto_result) ''On'');
              server = time_server server_result in
          py_bind (ntp_sync m server) (\<lambda>(working, err).
            let (st, msg) =
              (if configured \<and> auto_time \<and> working then (''healthy'', ''NTP configured and syncing with '' @ server)
               else if configured \<and> auto_time then (''degraded'', ''NTP configured but sync test failed: '' @ shown err)
               else (''unhealthy'', ''NTP not properly configured''))
            in py_return \<lparr>r_status = st, r_details = JObj [(''ntp_server'', JStr server), (''auto_time_enabled'', JBool auto_time),
                 (''sync_working'', JBool working), (''message'', JStr msg), (''error'', err)]\<rparr>))))
       (\<lambda>x. py_return (message_only ''error'' (''NTP check failed: '' @ n_text (mc_node m) x)))"

definition resolves :: "'w mac \<Rightarrow> string \<Rightarrow> ('w, bool \<times> json) py" where
  "resolves m name =
     py_try (py_seq (mc_addrinfo m name) (py_return (True, JNull))) (\<lambda>x. py_return (False, JStr (n_text (mc_node m) x)))"

definition mac_dns_status :: "'w mac \<Rightarrow> ('w, report) py" where
  "mac_dns_status m =
     py_try
       (py_bind (resolves m ''s1.xc'') (\<lambda>(cluster_ok, cluster_err).
        py_bind (resolves m ''example.com'') (\<lambda>(public_ok, public_err).
          let (st, msg) =
            (if cluster_ok \<and> public_ok then (''healthy'', ''DNS resolving (cluster + public)'')
             else if cluster_ok then (''degraded'', ''Cluster DNS ok but public resolution failed: '' @ shown public_err)
             else (''unhealthy'', ''Cluster .xc resolution failed: '' @ shown cluster_err))
          in py_return \<lparr>r_status = st, r_details = JObj [(''cluster_resolves'', JBool cluster_ok), (''public_resolves'', JBool public_ok),
               (''message'', JStr msg)]\<rparr>)))
       (\<lambda>x. py_return (message_only ''error'' (''DNS check failed: '' @ n_text (mc_node m) x)))"

definition cluster_services :: "(string \<times> string \<times> int) list" where
  "cluster_services = [(''gateway'', ''10.0.0.254'', 80), (''storage'', ''10.0.0.100'', 5000), (''dns'', ''10.0.0.254'', 53)]"

definition reach :: "'w mac \<Rightarrow> string \<times> string \<times> int \<Rightarrow> dict \<times> bool \<Rightarrow> ('w, dict \<times> bool) py" where
  "reach m service acc =
     (case service of (name, host_ip, port) \<Rightarrow>
        py_bind (check_port_open (mc_node m) host_ip port) (\<lambda>ok.
          py_return (fst acc @ [(name, JObj [(''host'', JStr host_ip), (''port'', JInt port), (''reachable'', JBool ok)])], snd acc \<and> ok)))"

definition check_network_connectivity :: "'w mac \<Rightarrow> ('w, report) py" where
  "check_network_connectivity m =
     py_bind (py_fold (reach m) cluster_services ([], True)) (\<lambda>(reached, ok).
       py_return \<lparr>r_status = (if ok then ''healthy'' else ''degraded''),
         r_details = JObj [(''services'', JObj reached),
           (''message'', JStr (if ok then ''All cluster services reachable'' else ''Some cluster services unreachable''))]\<rparr>)"

definition rstrip_percent :: "string \<Rightarrow> string" where
  "rstrip_percent s = rev (dropWhile (\<lambda>c. c = CHR ''%'') (rev s))"

definition disk_report :: "string list \<Rightarrow> exn + report" where
  "disk_report cols =
     (case py_int (rstrip_percent (cols ! 4)) of
        None \<Rightarrow> Inl (ValueError (cols ! 4))
      | Some pct \<Rightarrow>
          (let (st, msg) = (if 95 \<le> pct then (''critical'', ''Disk space critical: '') else if 85 \<le> pct then (''warning'', ''Disk space low: '')
                            else (''healthy'', ''Disk space OK: '')) in
           Inr \<lparr>r_status = st, r_details = JObj [(''size'', JStr (cols ! 1)), (''used'', JStr (cols ! 2)), (''available'', JStr (cols ! 3)),
             (''capacity_percent'', JInt pct), (''message'', JStr (msg @ int_str pct @ ''% used''))]\<rparr>))"

definition check_disk_space :: "'w mac \<Rightarrow> ('w, report) py" where
  "check_disk_space m =
     py_try
       (py_bind (n_run (mc_node m) [''df'', ''-h'', ''/'']) (\<lambda>r.
          let lines = split_on (CHR 0x0A) (strip (pr_out r)) in
          if pr_rc r = 0 \<and> 2 \<le> length lines \<and> 5 \<le> length (split_ws (lines ! 1))
          then py_lift (disk_report (split_ws (lines ! 1)))
          else py_return (message_only ''error'' ''Could not parse disk usage'')))
       (\<lambda>x. py_return (message_only ''error'' (''Disk space check failed: '' @ n_text (mc_node m) x)))"

definition check_system_load :: "'w mac \<Rightarrow> ('w, report) py" where
  "check_system_load m =
     py_try
       (py_bind (mc_loadavg m) (\<lambda>load.
          let cpus = (case mc_cpu_count m of Some n \<Rightarrow> if n = 0 then 1 else n | None \<Rightarrow> 1);
              pct = load / of_nat cpus * 100;
              (st, msg) = (if 90 \<le> pct then (''critical'', ''System load critical: '') else if 70 \<le> pct then (''warning'', ''System load high: '')
                           else (''healthy'', ''System load OK: ''))
          in py_return \<lparr>r_status = st, r_details = JObj [(''cpu_count'', JInt (int cpus)), (''message'', JStr (msg @ mc_percent m pct @ ''%''))]\<rparr>))
       (\<lambda>x. py_return (message_only ''error'' (''System load check failed: '' @ n_text (mc_node m) x)))"

definition mac_clock_status :: "rat \<Rightarrow> string" where
  "mac_clock_status offset_ms = (if 10000 < \<bar>offset_ms\<bar> then ''critical'' else if 1000 < \<bar>offset_ms\<bar> then ''warning'' else ''healthy'')"

definition mac_clock_skew :: "'w mac \<Rightarrow> ('w, report) py" where
  "mac_clock_skew m =
     py_try
       (py_bind (n_ntp (mc_node m) ''10.0.0.254'') (\<lambda>a. py_return (case a of
          NtpReply offset txt \<Rightarrow>
            \<lparr>r_status = mac_clock_status (offset * 1000),
             r_details = JObj [(''ntp_server'', JStr ''10.0.0.254''), (''message'', JStr (''Clock offset: '' @ txt @ ''ms''))]\<rparr>
        | NtpException msg \<Rightarrow> message_only ''error'' (''NTP request failed: '' @ msg)
        | NtpNoName \<Rightarrow> message_only ''error'' ''Could not resolve NTP server 10.0.0.254'')))
       (\<lambda>x. py_return (message_only ''error'' (''Clock skew check failed: '' @ n_text (mc_node m) x)))"

section \<open>The verdict\<close>

record mac_health =
  mh_overall :: string
  mh_services :: "(string \<times> report) list"

definition judge :: "string \<Rightarrow> string set \<Rightarrow> string set \<Rightarrow> report \<Rightarrow> mac_health \<Rightarrow> mac_health" where
  "judge name bad poor r h =
     (let h' = h\<lparr>mh_services := mh_services h @ [(name, r)]\<rparr> in
      if r_status r \<in> bad then h'\<lparr>mh_overall := ''unhealthy''\<rparr>
      else if r_status r \<in> poor \<and> mh_overall h' = ''healthy'' then h'\<lparr>mh_overall := ''degraded''\<rparr>
      else h')"

definition mac_checks :: "'w mac \<Rightarrow> (string \<times> string set \<times> string set \<times> ('w, report) py) list" where
  "mac_checks m =
     [(''ntp'', {''unhealthy'', ''critical''}, {''degraded'', ''warning''}, check_ntp_status m),
      (''dns'', {''unhealthy'', ''critical''}, {''degraded'', ''warning''}, mac_dns_status m),
      (''network_connectivity'', {''unhealthy'', ''critical''}, {''degraded'', ''warning''}, check_network_connectivity m),
      (''disk_space'', {''critical''}, {''warning''}, check_disk_space m),
      (''system_load'', {''critical''}, {''warning''}, check_system_load m),
      (''clock_skew'', {''critical'', ''error''}, {''warning''}, mac_clock_skew m)]"

definition mac_health_view :: "'w mac \<Rightarrow> ('w, int \<times> mac_health) py" where
  "mac_health_view m =
     py_bind (py_fold (\<lambda>(name, bad, poor, check) h. py_bind check (\<lambda>r. py_return (judge name bad poor r h)))
       (mac_checks m) \<lparr>mh_overall = ''healthy'', mh_services = []\<rparr>) (\<lambda>h.
       py_return (if mh_overall h = ''healthy'' then 200 else 503, h))"

text \<open>The clock of a macOS node is judged by the band that \<open>clock_skew.py\<close> has for nodes without storage.\<close>

theorem mac_clock_in_sync:
  assumes "node_type \<noteq> ''storage''"
  shows "mac_clock_status offset_ms = classify_clock_offset offset_ms node_type"
  using assms by (simp add: mac_clock_status_def classify_clock_offset_def clock_skew_thresholds_def Let_def)

theorem mac_clock_in_sync_witness: "mac_clock_status (- 1500) = classify_clock_offset (- 1500) ''macos'' \<and> mac_clock_status (- 1500) = ''warning''"
  using mac_clock_in_sync [of "''macos''" "- 1500"] by (simp add: mac_clock_status_def)

text \<open>The checks that cannot fail: each gives a report whatever its calls do.\<close>

lemma sure_port: "sure (\<lambda>_. True) (check_port_open nd h port)"
  unfolding check_port_open_def by (intro sure_try gives_bind) (auto intro: gives_return sure_return)

lemma sure_reach: "sure (\<lambda>_. True) (py_fold (reach m) services acc)"
proof (induction services arbitrary: acc)
  case (Cons x xs)
  have "sure (\<lambda>_. True) (reach m x acc)"
    unfolding reach_def by (auto split: prod.splits intro!: sure_bind [OF sure_port] sure_return)
  then show ?case unfolding py_fold.simps by (rule sure_bind) (rule Cons.IH)
qed (simp add: sure_return)

lemma sure_check:
  assumes "\<And>x. gives (\<lambda>_. True) (f x)"
  shows "sure (\<lambda>_. True) (py_try (py_bind m f) (\<lambda>x. py_return (g x)))"
  by (intro sure_try gives_bind assms sure_return) simp

lemma sure_mac_checks:
  "sure (\<lambda>_. True) (check_ntp_status m)" "sure (\<lambda>_. True) (mac_dns_status m)" "sure (\<lambda>_. True) (check_network_connectivity m)"
  "sure (\<lambda>_. True) (check_disk_space m)" "sure (\<lambda>_. True) (check_system_load m)" "sure (\<lambda>_. True) (mac_clock_skew m)"
proof -
  show "sure (\<lambda>_. True) (check_network_connectivity m)"
    unfolding check_network_connectivity_def by (rule sure_bind [OF sure_reach]) (auto intro: sure_return split: prod.splits)
qed (unfold check_ntp_status_def mac_dns_status_def check_disk_space_def check_system_load_def mac_clock_skew_def,
    (rule sure_check, rule gives_any)+)

definition mac_severity :: "string \<Rightarrow> string \<Rightarrow> nat" where
  "mac_severity name st =
     (if st = ''critical'' \<or> name = ''clock_skew'' \<and> st = ''error'' \<or> name \<in> {''ntp'', ''dns'', ''network_connectivity''} \<and> st = ''unhealthy'' then 2
      else if st = ''warning'' \<or> name \<in> {''ntp'', ''dns'', ''network_connectivity''} \<and> st = ''degraded'' then 1 else 0)"

definition mac_worst :: "(string \<times> report) list \<Rightarrow> nat" where
  "mac_worst svcs = fold max (map (\<lambda>(n, r). mac_severity n (r_status r)) svcs) 0"

definition mac_sound :: "string list \<Rightarrow> mac_health \<Rightarrow> bool" where
  "mac_sound ks h = (map fst (mh_services h) = ks \<and> mh_overall h = grade (mac_worst (mh_services h)))"

lemma judge_sound:
  assumes "mac_sound ks h" "\<And>st. mac_severity name st = (if st \<in> bad then 2 else if st \<in> poor then 1 else 0)"
  shows "mac_sound (ks @ [name]) (judge name bad poor r h)"
proof -
  have new: "mac_worst (mh_services h @ [(name, r)]) = max (mac_severity name (r_status r)) (mac_worst (mh_services h))" by (simp add: mac_worst_def)
  have "mh_overall (judge name bad poor r h) = grade (max (mac_severity name (r_status r)) (mac_worst (mh_services h)))"
    using assms(1) unfolding assms(2) by (auto simp: mac_sound_def judge_def Let_def grade_def max_def)
  then show ?thesis using assms(1) new by (auto simp: mac_sound_def judge_def Let_def)
qed

lemma sure_judged:
  assumes "\<And>name bad poor check. (name, bad, poor, check) \<in> set cs \<Longrightarrow>
      sure (\<lambda>_. True) check \<and> (\<forall>st. mac_severity name st = (if st \<in> bad then 2 else if st \<in> poor then 1 else 0))"
    and "mac_sound ks h"
  shows "sure (mac_sound (ks @ map fst cs)) (py_fold (\<lambda>(name, bad, poor, check) h. py_bind check (\<lambda>r. py_return (judge name bad poor r h))) cs h)"
  using assms
proof (induction cs arbitrary: ks h)
  case (Cons c cs)
  obtain name bad poor check where c: "c = (name, bad, poor, check)" by (cases c) auto
  have this_check: "sure (\<lambda>_. True) check \<and> (\<forall>st. mac_severity name st = (if st \<in> bad then 2 else if st \<in> poor then 1 else 0))"
    by (rule Cons.prems(1)) (simp add: c)
  then have "sure (mac_sound (ks @ [name])) (py_bind check (\<lambda>r. py_return (judge name bad poor r h)))"
    by (intro sure_bind [of "\<lambda>_. True"] sure_return judge_sound [OF Cons.prems(2)]) simp_all
  moreover have "sure (mac_sound (ks @ map fst (c # cs))) (py_fold (\<lambda>(name, bad, poor, check) h. py_bind check (\<lambda>r. py_return (judge name bad poor r h))) cs h')"
    if "mac_sound (ks @ [name]) h'" for h'
    using Cons.IH [OF Cons.prems(1) that] by (simp add: c)
  ultimately show ?case unfolding py_fold.simps c prod.case by (rule sure_bind)
qed (auto intro: sure_return)

text \<open>The service always answers, with a report of each check in order; the verdict is that of the worst report, and the
  answer is 200 exactly when it is healthy.\<close>

theorem mac_verdict_is_worst:
  "\<exists>code h w'. mac_health_view m w = (Inr (code, h), w')
     \<and> map fst (mh_services h) = [''ntp'', ''dns'', ''network_connectivity'', ''disk_space'', ''system_load'', ''clock_skew'']
     \<and> mh_overall h = grade (mac_worst (mh_services h)) \<and> code = (if mh_overall h = ''healthy'' then 200 else 503)"
proof -
  have "sure (mac_sound ([] @ map fst (mac_checks m))) (py_fold (\<lambda>(name, bad, poor, check) h. py_bind check (\<lambda>r. py_return (judge name bad poor r h)))
      (mac_checks m) \<lparr>mh_overall = ''healthy'', mh_services = []\<rparr>)"
    by (rule sure_judged) (auto simp: mac_checks_def sure_mac_checks mac_severity_def mac_sound_def mac_worst_def grade_def)
  then have "sure (\<lambda>(code, h). mac_sound (map fst (mac_checks m)) h \<and> code = (if mh_overall h = ''healthy'' then 200 else 503)) (mac_health_view m)"
    unfolding mac_health_view_def by (auto intro!: sure_bind sure_return)
  then have all: "wp (mac_health_view m) (\<lambda>x _. case x of (code, h) \<Rightarrow> mac_sound (map fst (mac_checks m)) h \<and> code = (if mh_overall h = ''healthy'' then 200 else 503)) (\<lambda>_ _. False) w"
    by (simp add: sure_def)
  obtain r w' where run: "mac_health_view m w = (r, w')" by (metis surj_pair)
  with all obtain code h where r: "r = Inr (code, h)" and h: "mac_sound (map fst (mac_checks m)) h" "code = (if mh_overall h = ''healthy'' then 200 else 503)"
    by (cases r) (auto simp: wp_def)
  have "map fst (mac_checks m) = [''ntp'', ''dns'', ''network_connectivity'', ''disk_space'', ''system_load'', ''clock_skew'']" by (simp add: mac_checks_def)
  with run r h show ?thesis unfolding mac_sound_def by metis
qed

section \<open>Findings\<close>

text \<open>A node of which neither the time configuration nor the disk nor the load can be read is healthy: only the clock check
  counts an error.\<close>

definition blind_node :: "unit node" where
  "blind_node = \<lparr>n_name = ''m1'', n_text = (\<lambda>_. ''refused''), n_now = py_return 0, n_localnow = py_return 0, n_run = (\<lambda>_. py_raise OSError),
     n_connect = (\<lambda>_ _. py_return 0), n_resolve = (\<lambda>_. py_return DnsTimeout), n_http = (\<lambda>_ _. py_return HttpTimeout), n_cert = (\<lambda>_. Inl OSError),
     n_ntp = (\<lambda>_. py_return (NtpReply 0 ''0'')), n_listdir = (\<lambda>_. py_return DirAbsent), n_loads = (\<lambda>_. Inl JSONDecodeError)\<rparr>"

definition blind_mac :: "unit mac" where
  "blind_mac = \<lparr>mc_node = blind_node, mc_addrinfo = (\<lambda>_. py_return ()), mc_loadavg = py_raise OSError, mc_cpu_count = Some 8, mc_percent = (\<lambda>_. [])\<rparr>"

theorem unreadable_mac_is_healthy:
  "map_sum id (\<lambda>(code, h). (code, mh_overall h, map (r_status \<circ> snd) (mh_services h))) (fst (mac_health_view blind_mac ()))
     = Inr (200, ''healthy'', [''error'', ''healthy'', ''healthy'', ''error'', ''error'', ''healthy''])"
  by code_simp

end
