(* ===== verification/YCa.thy ===== *)
theory YCa
  imports YGateway
begin

text \<open>
  The certificate authority of the cluster (\<open>utils/ca_manager.py\<close>): its own certificate, the certificates it issues to
  servers, their list and their removal. Keys are the numbers of key pairs; the library of certificates, the clock and the file
  system are the record \<open>cabox\<close>, and the locale \<open>ca_env\<close> states what is relied on of them.
\<close>

section \<open>Certificates and files\<close>

datatype san = IPAddress string | DNSName string

type_synonym x509_name = "(string \<times> string) list"

record x509 =
  x_subject :: x509_name
  x_issuer :: x509_name
  x_public :: nat
  x_serial :: nat
  x_not_before :: int
  x_not_after :: int
  x_ca :: bool
  x_usage :: "string list"
  x_extended :: "string list"
  x_san :: "san list option"
  x_signer :: nat

datatype pem = CertPem x509 | KeyPem nat | OtherPem

record 'w cabox =
  cb_exists :: "string \<Rightarrow> ('w, bool) py"
  cb_makedirs :: "string \<Rightarrow> ('w, unit) py"
  cb_keygen :: "nat \<Rightarrow> ('w, nat) py"
  cb_serial :: "('w, nat) py"
  cb_utcnow :: "('w, int) py"
  cb_sign :: "x509 \<Rightarrow> ('w, x509) py"
  cb_read :: "string \<Rightarrow> ('w, pem) py"
  cb_write :: "string \<Rightarrow> pem \<Rightarrow> ('w, unit) py"
  cb_chmod :: "string \<Rightarrow> nat \<Rightarrow> ('w, unit) py"
  cb_remove :: "string \<Rightarrow> ('w, unit) py"
  cb_glob :: "('w, string list) py"
  cb_date :: "int \<Rightarrow> string"
  cb_san_text :: "san \<Rightarrow> string"
  cb_text :: "exn \<Rightarrow> string"

definition CA_BASE_PATH :: string where
  "CA_BASE_PATH = ''/etc/ycluster/ca''"

definition CA_CERT_PATH :: string where
  "CA_CERT_PATH = CA_BASE_PATH @ ''/ca.crt''"

definition CA_KEY_PATH :: string where
  "CA_KEY_PATH = CA_BASE_PATH @ ''/ca.key''"

definition CERTS_PATH :: string where
  "CERTS_PATH = CA_BASE_PATH @ ''/certs''"

definition REISSUE_THRESHOLD :: int where
  "REISSUE_THRESHOLD = 30 * usec_per_day"

definition get_server_cert_paths :: "string \<Rightarrow> string \<times> string" where
  "get_server_cert_paths hostname = (CERTS_PATH @ ''/'' @ hostname @ ''.crt'', CERTS_PATH @ ''/'' @ hostname @ ''.key'')"

definition ensure_ca_directory :: "'w cabox \<Rightarrow> ('w, unit) py" where
  "ensure_ca_directory b = py_seq (cb_makedirs b CA_BASE_PATH) (cb_makedirs b CERTS_PATH)"

definition require_ca_key :: "'w cabox \<Rightarrow> ('w, unit) py" where
  "require_ca_key b =
     py_bind (cb_exists b CA_KEY_PATH) (\<lambda>has. if has then py_return () else py_raise (RuntimeError ''Cluster CA key not found''))"

text \<open>\<open>A or B\<close> of two calls: the second is made when the first says no.\<close>

definition py_or :: "('w, bool) py \<Rightarrow> ('w, bool) py \<Rightarrow> ('w, bool) py" where
  "py_or a b = py_bind a (\<lambda>x. if x then py_return True else b)"

definition py_and :: "('w, bool) py \<Rightarrow> ('w, bool) py \<Rightarrow> ('w, bool) py" where
  "py_and a b = py_bind a (\<lambda>x. if x then b else py_return False)"

section \<open>The authority\<close>

definition ca_name :: x509_name where
  "ca_name = [(''COUNTRY_NAME'', ''US''), (''STATE_OR_PROVINCE_NAME'', ''Local''), (''LOCALITY_NAME'', ''Local''), (''ORGANIZATION_NAME'', ''YCluster''),
     (''ORGANIZATIONAL_UNIT_NAME'', ''Certificate Authority''), (''COMMON_NAME'', ''YCluster CA'')]"

definition ca_certificate :: "nat \<Rightarrow> nat \<Rightarrow> int \<Rightarrow> int \<Rightarrow> x509" where
  "ca_certificate key serial t0 t1 =
     \<lparr>x_subject = ca_name, x_issuer = ca_name, x_public = key, x_serial = serial, x_not_before = t0, x_not_after = t1 + 3650 * usec_per_day, x_ca = True,
      x_usage = [''key_cert_sign'', ''crl_sign''], x_extended = [], x_san = None, x_signer = key\<rparr>"

text \<open>A certificate and its key are written, then protected.\<close>

definition write_pair :: "'w cabox \<Rightarrow> string \<Rightarrow> string \<Rightarrow> x509 \<Rightarrow> nat \<Rightarrow> ('w, unit) py" where
  "write_pair b cert_path key_path c key =
     py_seq (cb_write b cert_path (CertPem c))
     (py_seq (cb_write b key_path (KeyPem key))
     (py_seq (cb_chmod b key_path 384)
       (cb_chmod b cert_path 420)))"

definition generate_ca :: "'w cabox \<Rightarrow> ('w, x509 \<times> nat) py" where
  "generate_ca b =
     py_bind (py_or (cb_exists b CA_CERT_PATH) (cb_exists b CA_KEY_PATH)) (\<lambda>present.
       if present then py_raise (RuntimeError ''CA already exists; refusing to overwrite'')
       else
         py_seq (ensure_ca_directory b)
         (py_bind (cb_keygen b 4096) (\<lambda>ca_key.
          py_bind (cb_serial b) (\<lambda>serial.
          py_bind (cb_utcnow b) (\<lambda>t0.
          py_bind (cb_utcnow b) (\<lambda>t1.
          py_bind (cb_sign b (ca_certificate ca_key serial t0 t1)) (\<lambda>ca_cert.
          py_seq (write_pair b CA_CERT_PATH CA_KEY_PATH ca_cert ca_key) (py_return (ca_cert, ca_key)))))))))"

fun load_cert :: "pem \<Rightarrow> exn + x509" where
  "load_cert (CertPem c) = Inr c"
| "load_cert _ = Inl (ValueError ''certificate'')"

fun load_key :: "pem \<Rightarrow> exn + nat" where
  "load_key (KeyPem k) = Inr k"
| "load_key _ = Inl (ValueError ''key'')"

definition load_ca :: "'w cabox \<Rightarrow> ('w, x509 \<times> nat) py" where
  "load_ca b =
     py_bind (py_and (cb_exists b CA_CERT_PATH) (cb_exists b CA_KEY_PATH)) (\<lambda>present.
       if \<not> present then py_raise (RuntimeError ''CA certificate or key not found'')
       else
         py_bind (cb_read b CA_CERT_PATH) (\<lambda>c. py_bind (py_lift (load_cert c)) (\<lambda>ca_cert.
         py_bind (cb_read b CA_KEY_PATH) (\<lambda>k. py_bind (py_lift (load_key k)) (\<lambda>ca_key.
           py_return (ca_cert, ca_key))))))"

section \<open>Certificates of servers\<close>

definition existing_cert_valid :: "'w cabox \<Rightarrow> string \<Rightarrow> x509 \<Rightarrow> ('w, bool) py" where
  "existing_cert_valid b cert_file ca_cert =
     py_bind (cb_exists b cert_file) (\<lambda>present.
       if \<not> present then py_return False
       else py_bind (py_try (py_bind (cb_read b cert_file) (\<lambda>c. py_bind (py_lift (load_cert c)) (\<lambda>c. py_return (Some c)))) (\<lambda>_. py_return None)) (\<lambda>found.
         case found of
           None \<Rightarrow> py_return False
         | Some c \<Rightarrow>
             if x_issuer c \<noteq> x_subject ca_cert then py_return False
             else py_bind (cb_utcnow b) (\<lambda>now. py_return (REISSUE_THRESHOLD < x_not_after c - now))))"

definition san_name :: "string \<Rightarrow> san" where
  "san_name t = (if ip_address_ok t then IPAddress t else DNSName t)"

definition san_names :: "string \<Rightarrow> string list option \<Rightarrow> string list" where
  "san_names hostname san_list = (case san_list of Some l \<Rightarrow> l | None \<Rightarrow> [hostname])"

definition server_certificate :: "string \<Rightarrow> string list \<Rightarrow> x509 \<Rightarrow> nat \<Rightarrow> nat \<Rightarrow> nat \<Rightarrow> int \<Rightarrow> int \<Rightarrow> x509" where
  "server_certificate hostname sans ca_cert ca_key key serial t0 t1 =
     \<lparr>x_subject = [(''COUNTRY_NAME'', ''US''), (''STATE_OR_PROVINCE_NAME'', ''Local''), (''LOCALITY_NAME'', ''Local''), (''ORGANIZATION_NAME'', ''YCluster''),
        (''COMMON_NAME'', hostname)],
      x_issuer = x_subject ca_cert, x_public = key, x_serial = serial, x_not_before = t0, x_not_after = t1 + 365 * usec_per_day, x_ca = False,
      x_usage = [''digital_signature'', ''key_encipherment'', ''key_agreement''], x_extended = [''SERVER_AUTH'', ''CLIENT_AUTH''],
      x_san = Some (map san_name sans), x_signer = ca_key\<rparr>"

definition generate_server_cert :: "'w cabox \<Rightarrow> string \<Rightarrow> string list option \<Rightarrow> ('w, x509 \<times> nat option) py" where
  "generate_server_cert b hostname san_list =
     py_seq (require_ca_key b)
     (py_seq (ensure_ca_directory b)
     (py_bind (load_ca b) (\<lambda>(ca_cert, ca_key).
      let (cert_file, key_file) = get_server_cert_paths hostname in
      py_bind (py_and (existing_cert_valid b cert_file ca_cert) (cb_exists b key_file)) (\<lambda>current.
        if current
        then py_bind (cb_read b cert_file) (\<lambda>c. py_bind (py_lift (load_cert c)) (\<lambda>server_cert. py_return (server_cert, None)))
        else
          py_bind (cb_keygen b 2048) (\<lambda>server_key.
          py_bind (cb_serial b) (\<lambda>serial.
          py_bind (cb_utcnow b) (\<lambda>t0.
          py_bind (cb_utcnow b) (\<lambda>t1.
          py_bind (cb_sign b (server_certificate hostname (san_names hostname san_list) ca_cert ca_key server_key serial t0 t1)) (\<lambda>server_cert.
          py_seq (write_pair b cert_file key_file server_cert server_key) (py_return (server_cert, Some server_key)))))))))))"

definition remove_file :: "'w cabox \<Rightarrow> string \<Rightarrow> ('w, bool) py" where
  "remove_file b path = py_bind (cb_exists b path) (\<lambda>present. py_seq (py_when present (cb_remove b path)) (py_return present))"

definition ca_revoke_certificate :: "'w cabox \<Rightarrow> string \<Rightarrow> ('w, bool) py" where
  "ca_revoke_certificate b hostname =
     py_seq (require_ca_key b)
     (case get_server_cert_paths hostname of (cert_file, key_file) \<Rightarrow>
        py_bind (remove_file b cert_file) (\<lambda>cert_gone. py_bind (remove_file b key_file) (\<lambda>key_gone. py_return (cert_gone \<or> key_gone))))"

section \<open>What is shown\<close>

definition get_ca_info :: "'w cabox \<Rightarrow> ('w, bool) py" where
  "get_ca_info b = py_try (py_seq (load_ca b) (py_return True)) (\<lambda>_. py_return False)"

definition path_stem :: "string \<Rightarrow> string" where
  "path_stem name = (if length name \<le> 4 then name else take (length name - 4) name)"

definition common_name :: "x509 \<Rightarrow> string" where
  "common_name c = (case map_of (x_subject c) ''COMMON_NAME'' of Some n \<Rightarrow> n | None \<Rightarrow> ''None'')"

definition shown_certificate :: "'w cabox \<Rightarrow> string \<Rightarrow> x509 \<Rightarrow> string list" where
  "shown_certificate b hostname c =
     [''  '' @ hostname @ '':'', ''    Subject: '' @ common_name c, ''    Valid from: '' @ cb_date b (x_not_before c),
      ''    Valid until: '' @ cb_date b (x_not_after c)]
     @ (case x_san c of Some names \<Rightarrow> [''    SAN: '' @ join '', '' (map (cb_san_text b) names)] | None \<Rightarrow> [])"

text \<open>The local variable \<open>hostname\<close> keeps its value from one file to the next; it has none before the first assignment, and
  reading it then raises inside the handler, which ends the list.\<close>

definition list_certificate :: "'w cabox \<Rightarrow> string \<Rightarrow> string list \<times> string option \<Rightarrow> ('w, string list \<times> string option) py" where
  "list_certificate b name acc =
     (case acc of (out, hostname) \<Rightarrow>
        py_try (py_bind (cb_read b (CERTS_PATH @ ''/'' @ name)) (\<lambda>c. py_bind (py_lift (load_cert c)) (\<lambda>cert.
            py_return (out @ shown_certificate b (path_stem name) cert, Some (path_stem name)))))
          (\<lambda>x. case hostname of
             None \<Rightarrow> py_raise (RuntimeError ''UnboundLocalError'')
           | Some h \<Rightarrow> py_return (out @ [''  '' @ h @ '': Error reading certificate - '' @ cb_text b x], hostname)))"

definition list_certificates :: "'w cabox \<Rightarrow> ('w, string list) py" where
  "list_certificates b =
     py_bind (cb_exists b CERTS_PATH) (\<lambda>present.
       if \<not> present then py_return [''No certificates directory found'']
       else py_bind (cb_glob b) (\<lambda>cert_files.
         if cert_files = [] then py_return [''No certificates found'']
         else py_bind (py_fold (list_certificate b) (sort cert_files) ([''Generated certificates:''], None)) (\<lambda>(out, _). py_return out)))"

section \<open>The commands\<close>

definition ca_command :: "('w, 'a) py \<Rightarrow> ('w, unit) py" where
  "ca_command m = py_try (py_seq m (py_return ())) (\<lambda>_. py_raise (SystemExit 1))"

definition ca_generate :: "'w cabox \<Rightarrow> ('w, unit) py" where
  "ca_generate b = ca_command (generate_ca b)"

definition ca_info :: "'w cabox \<Rightarrow> ('w, unit) py" where
  "ca_info b = py_bind (get_ca_info b) (\<lambda>ok. if ok then py_return () else py_raise (SystemExit 1))"

definition ca_generate_server :: "'w cabox \<Rightarrow> string \<Rightarrow> string list option \<Rightarrow> ('w, unit) py" where
  "ca_generate_server b hostname sans = ca_command (generate_server_cert b hostname sans)"

definition ca_list :: "'w cabox \<Rightarrow> ('w, unit) py" where
  "ca_list b = py_seq (list_certificates b) (py_return ())"

definition ca_revoke :: "'w cabox \<Rightarrow> string \<Rightarrow> ('w, unit) py" where
  "ca_revoke b hostname = ca_command (ca_revoke_certificate b hostname)"

section \<open>What is relied on\<close>

text \<open>A path is plain when none of its parts is empty or refers to a directory above.\<close>

definition plain_path :: "string \<Rightarrow> bool" where
  "plain_path p = (\<forall>c\<in>set (split_on (CHR ''/'') (drop 1 p)). c \<noteq> [] \<and> c \<noteq> ''.'' \<and> c \<noteq> ''..'')"

lemma plain_server_paths:
  assumes "CHR ''/'' \<notin> set hostname"
  shows "plain_path (fst (get_server_cert_paths hostname))" "plain_path (snd (get_server_cert_paths hostname))"
  using assms by (auto simp: plain_path_def get_server_cert_paths_def CERTS_PATH_def CA_BASE_PATH_def split_on_no_sep)

lemma ca_paths: "plain_path CA_CERT_PATH" "plain_path CA_KEY_PATH" "CA_CERT_PATH \<noteq> CA_KEY_PATH"
  by (simp_all add: plain_path_def CA_CERT_PATH_def CA_KEY_PATH_def CA_BASE_PATH_def)

lemma server_paths_apart:
  "fst (get_server_cert_paths hostname) \<noteq> snd (get_server_cert_paths hostname)"
  "CA_CERT_PATH \<notin> {fst (get_server_cert_paths hostname), snd (get_server_cert_paths hostname)}"
  "CA_KEY_PATH \<notin> {fst (get_server_cert_paths hostname), snd (get_server_cert_paths hostname)}"
  by (simp_all add: get_server_cert_paths_def CERTS_PATH_def CA_CERT_PATH_def CA_KEY_PATH_def CA_BASE_PATH_def)

definition untouched_but :: "string set \<Rightarrow> (string \<Rightarrow> pem option) \<Rightarrow> (string \<Rightarrow> pem option) \<Rightarrow> bool" where
  "untouched_but X d d' = (\<forall>q. plain_path q \<longrightarrow> q \<notin> X \<longrightarrow> d' q = d q)"

definition server_files :: "string \<Rightarrow> string set" where
  "server_files hostname = {fst (get_server_cert_paths hostname), snd (get_server_cert_paths hostname)}"

text \<open>What a call returns: a certificate under the name of the authority, which is in its file. With a key, both are new: the
  authority has signed them for the names asked for, and the key is in its file; without a key nothing was written.\<close>

definition certified :: "(string \<Rightarrow> pem option) \<Rightarrow> (string \<Rightarrow> pem option) \<Rightarrow> string \<Rightarrow> string list option \<Rightarrow> x509 \<times> nat option \<Rightarrow> bool" where
  "certified d d' hostname san_list r =
     (\<exists>ca ca_key. d CA_CERT_PATH = Some (CertPem ca) \<and> d CA_KEY_PATH = Some (KeyPem ca_key) \<and> x_issuer (fst r) = x_subject ca
        \<and> d' (fst (get_server_cert_paths hostname)) = Some (CertPem (fst r))
        \<and> (case snd r of
             None \<Rightarrow> d' = d
           | Some key \<Rightarrow> x_public (fst r) = key \<and> x_signer (fst r) = ca_key \<and> \<not> x_ca (fst r)
               \<and> x_san (fst r) = Some (map san_name (san_names hostname san_list)) \<and> d' (snd (get_server_cert_paths hostname)) = Some (KeyPem key)))"

locale ca_env =
  fixes b :: "'w cabox"
    and disk :: "'w \<Rightarrow> string \<Rightarrow> pem option"
  assumes quiet: "leaves disk (cb_exists b p)" "leaves disk (cb_makedirs b p)" "leaves disk (cb_keygen b n)" "leaves disk (cb_serial b)"
      "leaves disk (cb_utcnow b)" "leaves disk (cb_read b p)" "leaves disk (cb_chmod b p n)" "leaves disk (cb_sign b x)"
    and exists_file: "cb_exists b p s = (Inr seen, s') \<Longrightarrow> plain_path p \<Longrightarrow> disk s p \<noteq> None \<Longrightarrow> seen"
    and read_file: "cb_read b p s = (Inr c, s') \<Longrightarrow> disk s p = Some c"
    and signs: "cb_sign b x s = (Inr x', s') \<Longrightarrow> x'\<lparr>x_not_before := x_not_before x, x_not_after := x_not_after x\<rparr> = x"
    and write_file: "cb_write b p c s = (r, s') \<Longrightarrow> plain_path p \<Longrightarrow>
      (\<forall>q. plain_path q \<longrightarrow> q \<noteq> p \<longrightarrow> disk s' q = disk s q) \<and> (\<not> isl r \<longrightarrow> disk s' p = Some c)"
    and remove_at: "cb_remove b p s = (r, s') \<Longrightarrow> plain_path p \<Longrightarrow>
      (\<forall>q. plain_path q \<longrightarrow> q \<noteq> p \<longrightarrow> disk s' q = disk s q) \<and> (\<not> isl r \<longrightarrow> disk s' p = None)"
begin

lemma untouched_step:
  "untouched_but X d d1 \<Longrightarrow> \<forall>q. plain_path q \<longrightarrow> q \<noteq> p \<longrightarrow> d2 q = d1 q \<Longrightarrow> p \<in> X \<Longrightarrow> untouched_but X d d2"
  unfolding untouched_but_def by metis

lemma wp_save:
  assumes "untouched_but X d (disk s)" "plain_path p" "p \<in> X"
    and "\<And>s'. untouched_but X d (disk s') \<Longrightarrow> disk s' p = Some c \<Longrightarrow> \<forall>q. plain_path q \<longrightarrow> q \<noteq> p \<longrightarrow> disk s' q = disk s q \<Longrightarrow> Q () s'"
    and "\<And>x s'. untouched_but X d (disk s') \<Longrightarrow> E x s'"
  shows "wp (cb_write b p c) Q E s"
  using assms(4,5) write_file [of p c s, OF _ assms(2)] untouched_step [OF assms(1) _ assms(3)]
  by (auto simp: wp_def split: prod.splits sum.splits)

lemma wp_pair:
  assumes "untouched_but X d (disk s)" "plain_path cert" "plain_path key" "cert \<noteq> key" "{cert, key} \<subseteq> X"
  shows "wp (write_pair b cert key c k) (\<lambda>_ w. untouched_but X d (disk w) \<and> disk w cert = Some (CertPem c) \<and> disk w key = Some (KeyPem k))
      (\<lambda>_ w. untouched_but X d (disk w)) s"
proof -
  let ?I = "\<lambda>w. untouched_but X d (disk w) \<and> disk w cert = Some (CertPem c) \<and> disk w key = Some (KeyPem k)"
  have protect: "wp (cb_chmod b p n) (\<lambda>_. ?I) (\<lambda>_ w. untouched_but X d (disk w)) w" if "?I w" for p n w
    by (rule wp_leaves [OF quiet(7)]) (use that in auto)
  have both: "wp (py_seq (cb_chmod b key 384) (cb_chmod b cert 420)) (\<lambda>_. ?I) (\<lambda>_ w. untouched_but X d (disk w)) w" if "?I w" for w
    unfolding wp_seq by (rule wp_mono [OF protect [OF that]]) (auto intro!: protect)
  show ?thesis unfolding write_pair_def wp_seq [of "cb_write _ _ _"]
    by (rule wp_save [OF assms(1,2)], use assms(5) in simp, rule wp_save, assumption, rule assms(3), use assms(5) in simp)
      (use assms(2,4) both in auto)
qed

lemma keeps_disk: "leaves disk m \<Longrightarrow> keeps (\<lambda>w. disk w = d) m"
  by (rule keepsI, erule wp_leaves) auto

lemmas keeps_quiet = quiet [THEN keeps_disk]

lemma keeps_guards: "keeps (\<lambda>w. disk w = d) (require_ca_key b)" "keeps (\<lambda>w. disk w = d) (ensure_ca_directory b)"
  unfolding require_ca_key_def ensure_ca_directory_def by (auto intro!: keeps_intros keeps_quiet)

lemma keeps_present: "keeps (\<lambda>w. disk w = d) (py_and (cb_exists b p) (cb_exists b q))"
  unfolding py_and_def by (auto intro!: keeps_intros keeps_quiet)

text \<open>A step that does not write, on files \<open>d\<close>.\<close>

lemma wp_look:
  assumes "keeps (\<lambda>w. disk w = d) m" "disk s = d" "\<And>x s'. m s = (Inr x, s') \<Longrightarrow> disk s' = d \<Longrightarrow> wp (f x) Q E s'"
    "\<And>x s'. disk s' = d \<Longrightarrow> E x s'"
  shows "wp (py_bind m f) Q E s"
  using assms(3,4) keeps_run [OF assms(1,2)] by (auto simp: wp_bind wp_def split: prod.splits sum.splits)

lemma wp_cert:
  assumes "disk s = d" "\<And>c s'. d p = Some (CertPem c) \<Longrightarrow> disk s' = d \<Longrightarrow> wp (f c) Q E s'" "\<And>x s'. disk s' = d \<Longrightarrow> E x s'"
  shows "wp (py_bind (cb_read b p) (\<lambda>t. py_bind (py_lift (load_cert t)) f)) Q E s"
proof (rule wp_look [OF keeps_quiet(6) assms(1)])
  fix t s' assume "cb_read b p s = (Inr t, s')" and s': "disk s' = d"
  then have "d p = Some t" using read_file [of p s t s'] assms(1) by simp
  with s' assms(2,3) show "wp (py_bind (py_lift (load_cert t)) f) Q E s'" by (cases t) (auto simp: py_bind_lift wp_lift)
qed (rule assms(3))

lemma wp_load_ca:
  assumes "disk s = d"
  shows "wp (load_ca b) (\<lambda>(ca, key) w. disk w = d \<and> d CA_CERT_PATH = Some (CertPem ca) \<and> d CA_KEY_PATH = Some (KeyPem key)) (\<lambda>_ w. disk w = d) s"
proof -
  let ?G = "\<lambda>(ca, key) w. disk w = d \<and> d CA_CERT_PATH = Some (CertPem ca) \<and> d CA_KEY_PATH = Some (KeyPem key)"
  have key: "wp (py_bind (cb_read b CA_KEY_PATH) (\<lambda>k. py_bind (py_lift (load_key k)) (\<lambda>ca_key. py_return (ca, ca_key)))) ?G (\<lambda>_ w. disk w = d) w"
    if "d CA_CERT_PATH = Some (CertPem ca)" "disk w = d" for ca w
  proof (rule wp_look [OF keeps_quiet(6) that(2)])
    fix k s' assume "cb_read b CA_KEY_PATH w = (Inr k, s')" and s': "disk s' = d"
    then have "d CA_KEY_PATH = Some k" using read_file [of _ w k s'] that(2) by simp
    with s' that(1) show "wp (py_bind (py_lift (load_key k)) (\<lambda>ca_key. py_return (ca, ca_key))) ?G (\<lambda>_ w. disk w = d) s'"
      by (cases k) (auto simp: py_bind_lift wp_lift wp_return)
  qed
  have "wp (py_bind (cb_read b CA_CERT_PATH) (\<lambda>c. py_bind (py_lift (load_cert c)) (\<lambda>ca_cert.
      py_bind (cb_read b CA_KEY_PATH) (\<lambda>k. py_bind (py_lift (load_key k)) (\<lambda>ca_key. py_return (ca_cert, ca_key)))))) ?G (\<lambda>_ w. disk w = d) w"
    if "disk w = d" for w
    by (rule wp_cert [OF that key])
  then show ?thesis unfolding load_ca_def
    by (intro wp_look [OF keeps_present assms]) (simp_all add: wp_raise split: if_split)
qed

lemma wp_sign:
  assumes "disk s = d" "\<And>c s'. c\<lparr>x_not_before := x_not_before x, x_not_after := x_not_after x\<rparr> = x \<Longrightarrow> disk s' = d \<Longrightarrow> wp (f c) Q E s'"
    "\<And>y s'. disk s' = d \<Longrightarrow> E y s'"
  shows "wp (py_bind (cb_sign b x) f) Q E s"
  by (rule wp_look [OF keeps_quiet(8) assms(1)]) (use assms(2,3) signs in auto)

lemma untouched_same: "untouched_but X d d"
  by (simp add: untouched_but_def)

lemma signed_fields: "c\<lparr>x_not_before := t, x_not_after := u\<rparr> = x \<Longrightarrow>
  x_issuer c = x_issuer x \<and> x_subject c = x_subject x \<and> x_public c = x_public x \<and> x_signer c = x_signer x \<and> x_san c = x_san x \<and> x_ca c = x_ca x"
  by auto

lemma wp_valid:
  assumes "disk s = d"
  shows "wp (py_and (existing_cert_valid b cert ca) (cb_exists b key))
      (\<lambda>current w. disk w = d \<and> (current \<longrightarrow> (\<exists>c. d cert = Some (CertPem c) \<and> x_issuer c = x_subject ca))) (\<lambda>_ w. disk w = d) s"
proof -
  let ?R = "\<lambda>current w. disk w = d \<and> (current \<longrightarrow> (\<exists>c. d cert = Some (CertPem c) \<and> x_issuer c = x_subject ca))" and ?E = "\<lambda>_ w. disk w = d"
  have load: "wp (py_try (py_bind (cb_read b cert) (\<lambda>c. py_bind (py_lift (load_cert c)) (\<lambda>c. py_return (Some c)))) (\<lambda>_. py_return None))
      (\<lambda>found w. disk w = d \<and> (\<forall>c. found = Some c \<longrightarrow> d cert = Some (CertPem c))) ?E w" if "disk w = d" for w
    unfolding wp_try wp_return by (rule wp_cert [OF that]) (simp_all add: wp_return)
  have "wp (existing_cert_valid b cert ca) ?R ?E s"
    unfolding existing_cert_valid_def wp_bind [of "py_try _ _"]
    by (rule wp_look [OF keeps_quiet(1) assms]; (simp add: wp_return wp_bind [of "py_try _ _"] split: if_split)?)
      (auto simp: wp_return split: option.splits intro!: wp_mono [OF load] wp_look [OF keeps_quiet(5)])
  then show ?thesis unfolding py_and_def wp_bind
    by (rule wp_mono) (auto simp: wp_return intro!: wp_leaves [OF quiet(1)])
qed

lemma wp_server_cert:
  assumes plain: "CHR ''/'' \<notin> set hostname"
  shows "wp (generate_server_cert b hostname san_list)
      (\<lambda>r w. certified (disk s) (disk w) hostname san_list r \<and> untouched_but (server_files hostname) (disk s) (disk w))
      (\<lambda>_ w. untouched_but (server_files hostname) (disk s) (disk w)) s"
proof -
  let ?d = "disk s"
  obtain cert key where paths: "get_server_cert_paths hostname = (cert, key)" by (cases "get_server_cert_paths hostname")
  have apart: "plain_path cert" "plain_path key" "cert \<noteq> key" "server_files hostname = {cert, key}"
    using plain_server_paths [OF plain] server_paths_apart [of hostname] by (simp_all add: paths server_files_def)
  let ?Q = "\<lambda>r w. certified ?d (disk w) hostname san_list r \<and> untouched_but (server_files hostname) ?d (disk w)"
  let ?E = "\<lambda>_ w. untouched_but (server_files hostname) ?d (disk w)"
  have new: "wp (py_seq (write_pair b cert key c k) (py_return (c, Some k))) ?Q ?E w"
    if "c\<lparr>x_not_before := t, x_not_after := u\<rparr> = server_certificate hostname (san_names hostname san_list) ca ca_key k serial t' u'"
      "?d CA_CERT_PATH = Some (CertPem ca)" "?d CA_KEY_PATH = Some (KeyPem ca_key)" "disk w = ?d" for c k t u t' u' ca ca_key serial w
    unfolding wp_seq wp_return
    by (rule wp_mono [OF wp_pair [where d = ?d, OF _ apart(1-3)]])
      (use that(2-4) signed_fields [OF that(1)] in \<open>auto simp: untouched_same apart(4) certified_def paths server_certificate_def\<close>)
  have kept: "wp (py_bind (cb_read b cert) (\<lambda>c. py_bind (py_lift (load_cert c)) (\<lambda>server_cert. py_return (server_cert, None)))) ?Q ?E w"
    if "disk w = ?d" "?d CA_CERT_PATH = Some (CertPem ca)" "?d CA_KEY_PATH = Some (KeyPem ca_key)" "?d cert = Some (CertPem c)" "x_issuer c = x_subject ca" for c ca ca_key w
    by (rule wp_cert [OF that(1)]) (use that in \<open>auto simp: wp_return certified_def paths untouched_same\<close>)
  have made: "wp (py_bind (cb_keygen b 2048) (\<lambda>server_key. py_bind (cb_serial b) (\<lambda>serial. py_bind (cb_utcnow b) (\<lambda>t0. py_bind (cb_utcnow b) (\<lambda>t1.
      py_bind (cb_sign b (server_certificate hostname (san_names hostname san_list) ca ca_key server_key serial t0 t1)) (\<lambda>server_cert.
      py_seq (write_pair b cert key server_cert server_key) (py_return (server_cert, Some server_key)))))))) ?Q ?E w"
    if "disk w = ?d" "?d CA_CERT_PATH = Some (CertPem ca)" "?d CA_KEY_PATH = Some (KeyPem ca_key)" for ca ca_key w
    by (rule wp_look [OF keeps_quiet(3) that(1)], rule wp_look [OF keeps_quiet(4)], assumption, rule wp_look [OF keeps_quiet(5)], assumption,
        rule wp_look [OF keeps_quiet(5)], assumption, rule wp_sign, assumption, rule new)
      (auto simp: that(2,3) untouched_same)
  have issue: "wp (py_bind (py_and (existing_cert_valid b cert ca) (cb_exists b key)) (\<lambda>current. if current then m else n)) ?Q ?E w"
    if "disk w = ?d" "\<And>w c. disk w = ?d \<Longrightarrow> ?d cert = Some (CertPem c) \<Longrightarrow> x_issuer c = x_subject ca \<Longrightarrow> wp m ?Q ?E w" "\<And>w. disk w = ?d \<Longrightarrow> wp n ?Q ?E w" for ca m n w
    unfolding wp_bind by (rule wp_mono [OF wp_valid [OF that(1)]]) (use that in \<open>auto simp: untouched_same\<close>)
  show ?thesis
    unfolding generate_server_cert_def py_seq_def [of "require_ca_key b"] py_seq_def [of "ensure_ca_directory b"] paths Let_def prod.case wp_bind [of "load_ca b"]
    by (rule wp_look [OF keeps_guards(1) refl], rule wp_look [OF keeps_guards(2)], assumption, unfold wp_bind [of "load_ca b"], rule wp_mono [OF wp_load_ca], assumption)
      (auto simp: untouched_same intro!: issue kept made)
qed

lemma wp_absent:
  assumes "disk s = d"
  shows "wp (py_or (cb_exists b CA_CERT_PATH) (cb_exists b CA_KEY_PATH))
      (\<lambda>present w. disk w = d \<and> (\<not> present \<longrightarrow> d CA_CERT_PATH = None \<and> d CA_KEY_PATH = None)) (\<lambda>_ w. disk w = d) s"
proof -
  have see: "wp (cb_exists b p) (\<lambda>present w. disk w = d \<and> (\<not> present \<longrightarrow> d p = None)) (\<lambda>_ w. disk w = d) w" if "disk w = d" "plain_path p" for p w
  proof (rule wp_leaves [OF quiet(1)])
    fix present w' assume same: "disk w' = disk w" and run: "cb_exists b p w = (Inr present, w')"
    have "d p = None" if "\<not> present" using exists_file [OF run \<open>plain_path p\<close>] that \<open>disk w = d\<close> by blast
    then show "disk w' = d \<and> (\<not> present \<longrightarrow> d p = None)" using same \<open>disk w = d\<close> by simp
  qed (use that in simp)
  show ?thesis unfolding py_or_def wp_bind
    by (rule wp_mono [OF see [OF assms ca_paths(1)]]) (auto simp: wp_return intro!: wp_mono [OF see [OF _ ca_paths(2)]])
qed

lemma wp_generate_ca:
  "wp (generate_ca b)
     (\<lambda>(ca, key) w. disk s CA_CERT_PATH = None \<and> disk s CA_KEY_PATH = None \<and> untouched_but {CA_CERT_PATH, CA_KEY_PATH} (disk s) (disk w)
        \<and> disk w CA_CERT_PATH = Some (CertPem ca) \<and> disk w CA_KEY_PATH = Some (KeyPem key) \<and> x_ca ca \<and> x_public ca = key \<and> x_signer ca = key)
     (\<lambda>_ w. untouched_but {CA_CERT_PATH, CA_KEY_PATH} (disk s) (disk w)
        \<and> (disk w = disk s \<or> disk s CA_CERT_PATH = None \<and> disk s CA_KEY_PATH = None)) s"
  (is "wp _ ?Q ?E s")
proof -
  have new: "wp (py_seq (write_pair b CA_CERT_PATH CA_KEY_PATH c k) (py_return (c, k))) ?Q ?E w"
    if "c\<lparr>x_not_before := t, x_not_after := u\<rparr> = ca_certificate k serial t' u'" "disk w = disk s" "disk s CA_CERT_PATH = None \<and> disk s CA_KEY_PATH = None"
    for c k t u t' u' serial w
    unfolding wp_seq wp_return
    by (rule wp_mono [OF wp_pair [where d = "disk s", OF _ ca_paths]])
      (use that(2,3) signed_fields [OF that(1)] in \<open>auto simp: untouched_same ca_certificate_def\<close>)
  have made: "wp (py_seq (ensure_ca_directory b) (py_bind (cb_keygen b 4096) (\<lambda>ca_key. py_bind (cb_serial b) (\<lambda>serial. py_bind (cb_utcnow b) (\<lambda>t0.
      py_bind (cb_utcnow b) (\<lambda>t1. py_bind (cb_sign b (ca_certificate ca_key serial t0 t1)) (\<lambda>ca_cert.
      py_seq (write_pair b CA_CERT_PATH CA_KEY_PATH ca_cert ca_key) (py_return (ca_cert, ca_key))))))))) ?Q ?E w"
    if "disk w = disk s" "disk s CA_CERT_PATH = None \<and> disk s CA_KEY_PATH = None" for w
    unfolding py_seq_def [of "ensure_ca_directory b"]
    by (rule wp_look [OF keeps_guards(2) that(1)], rule wp_look [OF keeps_quiet(3)], assumption, rule wp_look [OF keeps_quiet(4)], assumption,
        rule wp_look [OF keeps_quiet(5)], assumption, rule wp_look [OF keeps_quiet(5)], assumption, rule wp_sign, assumption, rule new)
      (auto simp: that(2) untouched_same)
  show ?thesis unfolding generate_ca_def wp_bind [of "py_or _ _"]
    by (rule wp_mono [OF wp_absent [OF refl]], split if_split, intro conjI impI) (simp add: wp_raise untouched_same, rule made, simp_all add: untouched_same)
qed

lemma wp_remove_file:
  assumes "untouched_but X d (disk s)" "plain_path p" "p \<in> X" "\<And>q. q \<in> Y \<Longrightarrow> plain_path q \<and> disk s q = None"
  shows "wp (remove_file b p) (\<lambda>_ w. untouched_but X d (disk w) \<and> (\<forall>q\<in>insert p Y. disk w q = None)) (\<lambda>_ w. untouched_but X d (disk w)) s"
proof -
  let ?D = "\<lambda>w. untouched_but X d (disk w) \<and> (\<forall>q\<in>insert p Y. disk w q = None)"
  have gone: "wp (cb_remove b p) (\<lambda>_. ?D) (\<lambda>_ w. untouched_but X d (disk w)) w" if "disk w = disk s" for w
  proof -
    obtain r w' where run: "cb_remove b p w = (r, w')" by (metis surj_pair)
    from remove_at [OF this assms(2)] have same: "\<forall>q. plain_path q \<longrightarrow> q \<noteq> p \<longrightarrow> disk w' q = disk s q" and off: "\<not> isl r \<longrightarrow> disk w' p = None"
      by (simp_all add: that)
    have "untouched_but X d (disk w')" by (rule untouched_step [OF assms(1) same assms(3)])
    moreover have "disk w' q = None" if "\<not> isl r" "q \<in> insert p Y" for q
      using that off same assms(4) by (cases "q = p") auto
    ultimately show ?thesis using run by (auto simp: wp_def split: sum.splits)
  qed
  show ?thesis unfolding remove_file_def
  proof (rule wp_look [OF keeps_quiet(1) refl])
    fix present w assume "cb_exists b p s = (Inr present, w)" and w: "disk w = disk s"
    then have "present \<or> disk s p = None" using exists_file [of p s present w] assms(2) by blast
    then show "wp (py_seq (py_when present (cb_remove b p)) (py_return present)) (\<lambda>_. ?D) (\<lambda>_ w. untouched_but X d (disk w)) w"
      using assms(1,4) w by (auto simp: wp_seq wp_when wp_return intro!: wp_mono [OF gone])
  qed (use assms(1) in simp)
qed

lemma wp_revoke_certificate:
  assumes plain: "CHR ''/'' \<notin> set hostname"
  shows "wp (ca_revoke_certificate b hostname)
     (\<lambda>_ w. untouched_but (server_files hostname) (disk s) (disk w) \<and> (\<forall>p\<in>server_files hostname. disk w p = None))
     (\<lambda>_ w. untouched_but (server_files hostname) (disk s) (disk w)) s"
proof -
  obtain cert key where paths: "get_server_cert_paths hostname = (cert, key)" by (cases "get_server_cert_paths hostname")
  have apart: "plain_path cert" "plain_path key" "server_files hostname = {cert, key}"
    using plain_server_paths [OF plain] by (simp_all add: paths server_files_def)
  have second: "wp (py_bind (remove_file b key) (\<lambda>y. py_return (x \<or> y))) (\<lambda>_ w. untouched_but {cert, key} (disk s) (disk w) \<and> disk w cert = None \<and> disk w key = None)
      (\<lambda>_ w. untouched_but {cert, key} (disk s) (disk w)) w" if "untouched_but {cert, key} (disk s) (disk w)" "disk w cert = None" for x w
    unfolding wp_bind wp_return
    by (rule wp_mono [OF wp_remove_file [where Y = "{cert}", OF that(1) apart(2)]]) (use that(2) apart(1) in auto)
  show ?thesis unfolding ca_revoke_certificate_def py_seq_def [of "require_ca_key b"] paths prod.case apart(3)
  proof (rule wp_look [OF keeps_guards(1) refl])
    fix w :: 'w assume "disk w = disk s"
    then show "wp (py_bind (remove_file b cert) (\<lambda>x. py_bind (remove_file b key) (\<lambda>y. py_return (x \<or> y))))
        (\<lambda>_ w. untouched_but {cert, key} (disk s) (disk w) \<and> (\<forall>p\<in>{cert, key}. disk w p = None)) (\<lambda>_ w. untouched_but {cert, key} (disk s) (disk w)) w"
      unfolding wp_bind [of "remove_file b cert"]
      by (intro wp_mono [OF wp_remove_file [where Y = "{}" and X = "{cert, key}" and d = "disk s", OF _ apart(1)]])
        (auto simp: untouched_same intro!: second)
  qed (simp add: untouched_same)
qed

end

text \<open>C30: A call that returns gives a certificate under the authority's name that is in its file: one with a key is new, signed
  by the authority's key for the names asked for, and its key is in the file beside it; one without a key was there. However the
  call ends, no file but these two is touched, so the authority's own are as before.\<close>

theorem server_certificate_sound:
  assumes "ca_env b disk" "CHR ''/'' \<notin> set hostname" "generate_server_cert b hostname san_list s = (r, s')"
  shows "untouched_but (server_files hostname) (disk s) (disk s') \<and> disk s' CA_CERT_PATH = disk s CA_CERT_PATH \<and> disk s' CA_KEY_PATH = disk s CA_KEY_PATH
     \<and> (\<forall>c. r = Inr c \<longrightarrow> certified (disk s) (disk s') hostname san_list c)"
proof -
  have u: "untouched_but (server_files hostname) (disk s) (disk s')" and c: "\<forall>c. r = Inr c \<longrightarrow> certified (disk s) (disk s') hostname san_list c"
    using ca_env.wp_server_cert [OF assms(1,2), of san_list s] assms(3) by (auto simp: wp_def split: sum.splits)
  moreover have "disk s' CA_CERT_PATH = disk s CA_CERT_PATH" "disk s' CA_KEY_PATH = disk s CA_KEY_PATH"
    using u ca_paths(1,2) server_paths_apart(2,3) [of hostname] by (simp_all add: untouched_but_def server_files_def)
  ultimately show ?thesis by simp
qed

text \<open>An authority that is there, even half of it, is left as it is and the call fails; a call that returns has made both
  files, of a certificate signed with its own key.\<close>

theorem authority_never_overwritten:
  assumes "ca_env b disk" "generate_ca b s = (r, s')"
  shows "(disk s CA_CERT_PATH \<noteq> None \<or> disk s CA_KEY_PATH \<noteq> None \<longrightarrow> isl r \<and> disk s' = disk s)
     \<and> (\<forall>ca key. r = Inr (ca, key) \<longrightarrow> disk s' CA_CERT_PATH = Some (CertPem ca) \<and> disk s' CA_KEY_PATH = Some (KeyPem key)
          \<and> x_ca ca \<and> x_public ca = key \<and> x_signer ca = key)"
  using ca_env.wp_generate_ca [OF assms(1), of s] assms(2) by (auto simp: wp_def split: sum.splits)

text \<open>A revoked certificate is gone with its key, and the authority is not.\<close>

theorem revoked_is_gone:
  assumes "ca_env b disk" "CHR ''/'' \<notin> set hostname" "ca_revoke_certificate b hostname s = (r, s')"
  shows "untouched_but (server_files hostname) (disk s) (disk s') \<and> (\<not> isl r \<longrightarrow> (\<forall>p\<in>server_files hostname. disk s' p = None))"
  using ca_env.wp_revoke_certificate [OF assms(1,2), of s] assms(3) by (auto simp: wp_def split: sum.splits)

section \<open>A disk in memory\<close>

text \<open>Files in an association list; the clock stands still and keys are counted. Writing one of the given paths fails.\<close>

record cadisk =
  cd_files :: "(string \<times> pem) list"
  cd_next :: nat
  cd_now :: int

definition cd_box :: "string list \<Rightarrow> cadisk cabox" where
  "cd_box stuck = \<lparr>cb_exists = (\<lambda>p. py_get (\<lambda>w. p = CERTS_PATH \<or> map_of (cd_files w) p \<noteq> None)), cb_makedirs = (\<lambda>_. py_return ()),
     cb_keygen = (\<lambda>_. py_bind (py_get cd_next) (\<lambda>n. py_seq (py_modify (\<lambda>w. w\<lparr>cd_next := Suc n\<rparr>)) (py_return n))),
     cb_serial = py_return 7, cb_utcnow = py_get cd_now, cb_sign = py_return,
     cb_read = (\<lambda>p. py_bind (py_get (\<lambda>w. map_of (cd_files w) p)) (\<lambda>x. case x of Some c \<Rightarrow> py_return c | None \<Rightarrow> py_raise OSError)),
     cb_write = (\<lambda>p c. if p \<in> set stuck then py_raise OSError else py_modify (\<lambda>w. w\<lparr>cd_files := AList.update p c (cd_files w)\<rparr>)),
     cb_chmod = (\<lambda>_ _. py_return ()), cb_remove = (\<lambda>p. py_modify (\<lambda>w. w\<lparr>cd_files := AList.delete p (cd_files w)\<rparr>)),
     cb_glob = py_get (\<lambda>w. concat (map (\<lambda>(p, _). if startswith p (CERTS_PATH @ ''/'') \<and> endswith p ''.crt'' then [drop (length CERTS_PATH + 1) p] else [])
       (cd_files w))),
     cb_date = (\<lambda>_. ''date''), cb_san_text = (\<lambda>x. case x of IPAddress a \<Rightarrow> a | DNSName n \<Rightarrow> n), cb_text = (\<lambda>_. ''bad certificate'')\<rparr>"

interpretation cds: ca_env "cd_box stuck" "\<lambda>w. map_of (cd_files w)" for stuck
  by unfold_locales (auto simp: cd_box_def leaves_def py_defs update_conv' delete_conv' split: option.splits if_splits)

definition cd_start :: cadisk where
  "cd_start = \<lparr>cd_files = [], cd_next = 1, cd_now = 0\<rparr>"

text \<open>A new cluster: the authority, then a certificate for a server by name and address.\<close>

definition cd_ready :: cadisk where
  "cd_ready = snd (generate_ca (cd_box []) cd_start)"

definition cd_issue :: "string list \<Rightarrow> string list \<Rightarrow> cadisk \<Rightarrow> (exn + x509 \<times> nat option) \<times> cadisk" where
  "cd_issue stuck sans = generate_server_cert (cd_box stuck) ''s1.xc'' (Some sans)"

theorem server_certificate_sound_witness:
  "map_sum id (\<lambda>(c, k). (x_san c, x_public c, x_signer c, k)) (fst (cd_issue [] [''s1.xc'', ''10.0.0.11''] cd_ready))
     = Inr (Some [DNSName ''s1.xc'', IPAddress ''10.0.0.11''], 2, 1, Some 2)
   \<and> untouched_but (server_files ''s1.xc'') (map_of (cd_files cd_ready)) (map_of (cd_files (snd (cd_issue [] [''s1.xc'', ''10.0.0.11''] cd_ready))))"
proof
  show "map_sum id (\<lambda>(c, k). (x_san c, x_public c, x_signer c, k)) (fst (cd_issue [] [''s1.xc'', ''10.0.0.11''] cd_ready))
     = Inr (Some [DNSName ''s1.xc'', IPAddress ''10.0.0.11''], 2, 1, Some 2)" by code_simp
  show "untouched_but (server_files ''s1.xc'') (map_of (cd_files cd_ready)) (map_of (cd_files (snd (cd_issue [] [''s1.xc'', ''10.0.0.11''] cd_ready))))"
    unfolding cd_issue_def
    by (rule conjunct1 [OF server_certificate_sound [OF cds.ca_env_axioms _ prod.collapse [symmetric]]]) simp
qed

theorem authority_never_overwritten_witness:
  "isl (fst (generate_ca (cd_box []) cd_ready)) \<and> map_of (cd_files (snd (generate_ca (cd_box []) cd_ready))) = map_of (cd_files cd_ready)"
proof -
  have "map_of (cd_files cd_ready) CA_CERT_PATH \<noteq> None" by code_simp
  with conjunct1 [OF authority_never_overwritten [OF cds.ca_env_axioms [of "[]"] prod.collapse [symmetric], of cd_ready]] show ?thesis by blast
qed

theorem revoked_is_gone_witness:
  "map_of (cd_files (snd (cd_issue [] [] cd_ready))) (snd (get_server_cert_paths ''s1.xc'')) = Some (KeyPem 2)
   \<and> map_of (cd_files (snd (ca_revoke_certificate (cd_box []) ''s1.xc'' (snd (cd_issue [] [] cd_ready))))) (snd (get_server_cert_paths ''s1.xc'')) = None"
proof
  show "map_of (cd_files (snd (cd_issue [] [] cd_ready))) (snd (get_server_cert_paths ''s1.xc'')) = Some (KeyPem 2)" by code_simp
  have "\<not> isl (fst (ca_revoke_certificate (cd_box []) ''s1.xc'' (snd (cd_issue [] [] cd_ready))))" by code_simp
  with conjunct2 [OF revoked_is_gone [OF cds.ca_env_axioms [of "[]"] _ prod.collapse [symmetric], of "''s1.xc''" "snd (cd_issue [] [] cd_ready)"]]
  show "map_of (cd_files (snd (ca_revoke_certificate (cd_box []) ''s1.xc'' (snd (cd_issue [] [] cd_ready))))) (snd (get_server_cert_paths ''s1.xc'')) = None"
    by (simp add: server_files_def)
qed

section \<open>Findings\<close>

text \<open>A certificate that is still valid is returned whatever names are asked for.\<close>

theorem new_names_ignored:
  "map_sum id (\<lambda>(c, k). (x_san c, k)) (fst (cd_issue [] [''s1.xc'', ''10.0.0.11''] (snd (cd_issue [] [''s1.xc''] cd_ready))))
     = Inr (Some [DNSName ''s1.xc''], None)"
  by code_simp

text \<open>A renewal whose key cannot be written leaves the new certificate beside the old key, and the next call takes the pair
  for a valid one.\<close>

definition cd_renewed :: cadisk where
  "cd_renewed = snd (cd_issue [snd (get_server_cert_paths ''s1.xc'')] [''s1.xc''] ((snd (cd_issue [] [''s1.xc''] cd_ready))\<lparr>cd_now := 340 * usec_per_day\<rparr>))"

theorem mismatched_pair_accepted:
  "map_sum id (\<lambda>(c, k). (x_public c, k)) (fst (cd_issue [] [''s1.xc''] cd_renewed)) = Inr (3, None)
   \<and> map_of (cd_files (snd (cd_issue [] [''s1.xc''] cd_renewed))) (snd (get_server_cert_paths ''s1.xc'')) = Some (KeyPem 2)"
  by code_simp

text \<open>An unreadable certificate is listed under the name of the one before it, and ends the list when it is the first.\<close>

definition cd_spoilt :: "string \<Rightarrow> cadisk" where
  "cd_spoilt name = (snd (cd_issue [] [''s1.xc''] cd_ready))\<lparr>cd_files := AList.update (CERTS_PATH @ ''/'' @ name) OtherPem (cd_files (snd (cd_issue [] [''s1.xc''] cd_ready)))\<rparr>"

theorem unreadable_listed_as_another:
  "map_sum id last (fst (list_certificates (cd_box []) (cd_spoilt ''s2.xc.crt''))) = Inr ''  s1.xc: Error reading certificate - bad certificate''
   \<and> fst (list_certificates (cd_box []) (cd_spoilt ''a.crt'')) = Inl (RuntimeError ''UnboundLocalError'')"
  by code_simp

end
