(* ===== verification/YBackupCli.thy ===== *)
theory YBackupCli
  imports YHealth
begin

text \<open>
  The recipients and destinations of backups (\<open>cli/backup.py\<close>): documents in etcd that the commands add, remove, show, list
  and switch on and off. Every failure of a command ends it with status 1, after a message that is left out here; what it prints
  otherwise is its result.
\<close>

section \<open>The commands\<close>

definition RECIPIENTS :: string where
  "RECIPIENTS = ''/cluster/backup/recipients/''"

definition DESTINATIONS :: string where
  "DESTINATIONS = ''/cluster/backup/destinations/''"

datatype printout = AsJson "dict list" | AsText "string list"

definition or_exit :: "('w, 'a) py \<Rightarrow> ('w, 'a) py" where
  "or_exit m = py_try m (\<lambda>_. py_raise (SystemExit 1))"

definition or_na :: "dict \<Rightarrow> string \<Rightarrow> json" where
  "or_na d k = (case map_of d k of Some v \<Rightarrow> v | None \<Rightarrow> JStr ''N/A'')"

definition enabled_in :: "dict \<Rightarrow> json" where
  "enabled_in d = (case map_of d ''enabled'' of Some v \<Rightarrow> v | None \<Rightarrow> JBool True)"

text \<open>Values that are not JSON are passed over; a document that is not an object ends the command.\<close>

fun backup_entries :: "(string \<Rightarrow> dict \<Rightarrow> dict) \<Rightarrow> (string \<times> blob) list \<Rightarrow> exn + dict list" where
  "backup_entries info [] = Inr []"
| "backup_entries info ((k, b) # rest) =
     (case loads_dict b of
        Inr d \<Rightarrow> map_sum id (\<lambda>xs. info (last_part k) d # xs) (backup_entries info rest)
      | Inl JSONDecodeError \<Rightarrow> backup_entries info rest
      | Inl x \<Rightarrow> Inl x)"

definition recipient_info :: "string \<Rightarrow> dict \<Rightarrow> dict" where
  "recipient_info name d =
     [(''name'', JStr name), (''public_key'', or_na d ''public_key''), (''created_at'', or_na d ''created_at'')]
     @ (if otruthy (map_of d ''description'') then [(''description'', the (map_of d ''description''))] else [])"

definition item :: "dict \<Rightarrow> string \<Rightarrow> string" where
  "item d k = (case map_of d k of Some v \<Rightarrow> shown v | None \<Rightarrow> [])"

definition recipient_lines :: "dict \<Rightarrow> string list" where
  "recipient_lines r =
     [''Name: '' @ item r ''name'', ''  Public Key: '' @ item r ''public_key'']
     @ (if map_of r ''description'' \<noteq> None then [''  Description: '' @ item r ''description''] else [])
     @ [''  Added: '' @ item r ''created_at'', []]"

definition backup_recipients_list :: "'w etcd3 \<Rightarrow> bool \<Rightarrow> ('w, printout) py" where
  "backup_recipients_list e json =
     or_exit (py_seq (e_client e) (py_bind (e_get_prefix e RECIPIENTS) (\<lambda>xs. py_bind (py_lift (backup_entries recipient_info xs)) (\<lambda>recipients.
       py_return (if json then AsJson recipients
         else if recipients = [] then AsText [''No backup encryption recipients configured.'']
         else AsText ([''Backup Encryption Recipients:'', replicate 50 (CHR ''-'')] @ concat (map recipient_lines recipients)))))))"

text \<open>An entry is added only where there is none, and removed only where there is one.\<close>

definition add_entry :: "'w etcd3 \<Rightarrow> string \<Rightarrow> dict \<Rightarrow> ('w, unit) py" where
  "add_entry e key d =
     py_bind (e_get e key) (\<lambda>existing. if existing \<noteq> None then py_raise (SystemExit 1) else e_put e key (Doc d))"

definition remove_entry :: "'w etcd3 \<Rightarrow> string \<Rightarrow> ('w, unit) py" where
  "remove_entry e key =
     or_exit (py_seq (e_client e) (py_bind (e_get e key) (\<lambda>existing.
       if existing = None then py_raise (SystemExit 1) else py_seq (e_delete e key) (py_return ()))))"

definition recipient_doc :: "int \<Rightarrow> string \<Rightarrow> string option \<Rightarrow> dict" where
  "recipient_doc now public_key description =
     [(''public_key'', JStr public_key), (''created_at'', JStr (iso_naive now @ ''Z''))]
     @ (case description of Some t \<Rightarrow> if t = [] then [] else [(''description'', JStr t)] | None \<Rightarrow> [])"

definition backup_recipients_add :: "'w etcd3 \<Rightarrow> int \<Rightarrow> string \<Rightarrow> string \<Rightarrow> string option \<Rightarrow> ('w, unit) py" where
  "backup_recipients_add e now name public_key description =
     or_exit (if \<not> startswith public_key ''age1'' then py_raise (SystemExit 1)
       else py_seq (e_client e) (add_entry e (RECIPIENTS @ name) (recipient_doc now public_key description)))"

definition backup_recipients_remove :: "'w etcd3 \<Rightarrow> string \<Rightarrow> ('w, unit) py" where
  "backup_recipients_remove e name = remove_entry e (RECIPIENTS @ name)"

text \<open>The document of an entry; there is none, or it is no object: the command ends.\<close>

definition entry :: "'w etcd3 \<Rightarrow> string \<Rightarrow> ('w, dict) py" where
  "entry e key = py_seq (e_client e) (py_bind (e_get e key) (\<lambda>r. case r of
     None \<Rightarrow> py_raise (SystemExit 1) | Some (b, _) \<Rightarrow> py_lift (loads_dict b)))"

definition backup_recipients_show :: "'w etcd3 \<Rightarrow> string \<Rightarrow> ('w, string list) py" where
  "backup_recipients_show e name =
     or_exit (py_bind (entry e (RECIPIENTS @ name)) (\<lambda>d. py_return
       ([''Recipient: '' @ name, replicate 30 (CHR ''-''), ''Public Key: '' @ shown (or_na d ''public_key'')]
        @ (if otruthy (map_of d ''description'') then [''Description: '' @ item d ''description''] else [])
        @ [''Added: '' @ shown (or_na d ''created_at'')])))"

definition destination_info :: "string \<Rightarrow> dict \<Rightarrow> dict" where
  "destination_info name d =
     [(''name'', JStr name), (''url'', or_na d ''url''), (''enabled'', enabled_in d), (''created_at'', or_na d ''created_at'')]"

definition enabled_text :: "json \<Rightarrow> string" where
  "enabled_text v = (if truthy v then ''ENABLED'' else ''DISABLED'')"

definition destination_lines :: "dict \<Rightarrow> string list" where
  "destination_lines r =
     [''Name: '' @ item r ''name'' @ '' ('' @ enabled_text (enabled_in r) @ '')'', ''  URL: '' @ item r ''url'', ''  Added: '' @ item r ''created_at'', []]"

definition backup_destinations_list :: "'w etcd3 \<Rightarrow> bool \<Rightarrow> ('w, printout) py" where
  "backup_destinations_list e json =
     or_exit (py_seq (e_client e) (py_bind (e_get_prefix e DESTINATIONS) (\<lambda>xs. py_bind (py_lift (backup_entries destination_info xs)) (\<lambda>destinations.
       py_return (if json then AsJson destinations
         else if destinations = [] then AsText [''No backup rsync destinations configured.'']
         else AsText ([''Backup Rsync Destinations:'', replicate 50 (CHR ''-'')] @ concat (map destination_lines destinations)))))))"

definition destination_doc :: "int \<Rightarrow> string \<Rightarrow> bool \<Rightarrow> dict" where
  "destination_doc now url enabled = [(''url'', JStr url), (''enabled'', JBool enabled), (''created_at'', JStr (iso_naive now @ ''Z''))]"

text \<open>The option \<open>--enabled\<close> is on whether it is given or not, so only \<open>--disabled\<close> counts.\<close>

definition backup_destinations_add :: "'w etcd3 \<Rightarrow> int \<Rightarrow> string \<Rightarrow> string \<Rightarrow> bool \<Rightarrow> bool \<Rightarrow> ('w, unit) py" where
  "backup_destinations_add e now name url enabled disabled =
     or_exit (py_seq (e_client e) (add_entry e (DESTINATIONS @ name) (destination_doc now url (if disabled then False else enabled))))"

definition backup_destinations_remove :: "'w etcd3 \<Rightarrow> string \<Rightarrow> ('w, unit) py" where
  "backup_destinations_remove e name = remove_entry e (DESTINATIONS @ name)"

definition backup_destinations_show :: "'w etcd3 \<Rightarrow> string \<Rightarrow> ('w, string list) py" where
  "backup_destinations_show e name =
     or_exit (py_bind (entry e (DESTINATIONS @ name)) (\<lambda>d. py_return
       [''Destination: '' @ name @ '' ('' @ enabled_text (enabled_in d) @ '')'', replicate 30 (CHR ''-''), ''URL: '' @ shown (or_na d ''url''),
        ''Added: '' @ shown (or_na d ''created_at'')]))"

definition switch_destination :: "'w etcd3 \<Rightarrow> string \<Rightarrow> bool \<Rightarrow> ('w, unit) py" where
  "switch_destination e name on' =
     or_exit (py_bind (entry e (DESTINATIONS @ name)) (\<lambda>d. e_put e (DESTINATIONS @ name) (Doc (dict_set ''enabled'' (JBool on') d))))"

definition backup_destinations_enable :: "'w etcd3 \<Rightarrow> string \<Rightarrow> ('w, unit) py" where
  "backup_destinations_enable e name = switch_destination e name True"

definition backup_destinations_disable :: "'w etcd3 \<Rightarrow> string \<Rightarrow> ('w, unit) py" where
  "backup_destinations_disable e name = switch_destination e name False"

section \<open>The configuration as a map\<close>

text \<open>What the commands keep: a map of names to documents. A command of the abstract configuration fails or gives the next one.\<close>

definition entries_of :: "string \<Rightarrow> store \<Rightarrow> string \<Rightarrow> dict option" where
  "entries_of p c name = (case c (p @ name) of Some (Doc d, _) \<Rightarrow> Some d | _ \<Rightarrow> None)"

definition objects_only :: "string \<Rightarrow> store \<Rightarrow> bool" where
  "objects_only p c = (\<forall>name. c (p @ name) = None \<or> entries_of p c name \<noteq> None)"

datatype backup_command =
    AddRecipient string string "string option"
  | RemoveRecipient string
  | AddDestination string string bool
  | RemoveDestination string
  | EnableDestination string
  | DisableDestination string

fun run_command :: "'w etcd3 \<Rightarrow> int \<Rightarrow> backup_command \<Rightarrow> ('w, unit) py" where
  "run_command e now (AddRecipient n k t) = backup_recipients_add e now n k t"
| "run_command e now (RemoveRecipient n) = backup_recipients_remove e n"
| "run_command e now (AddDestination n u off) = backup_destinations_add e now n u True off"
| "run_command e now (RemoveDestination n) = backup_destinations_remove e n"
| "run_command e now (EnableDestination n) = backup_destinations_enable e n"
| "run_command e now (DisableDestination n) = backup_destinations_disable e n"

type_synonym backup_config = "(string \<Rightarrow> dict option) \<times> (string \<Rightarrow> dict option)"

definition insert_new :: "string \<Rightarrow> dict \<Rightarrow> (string \<Rightarrow> dict option) \<Rightarrow> (string \<Rightarrow> dict option) option" where
  "insert_new n d m = (if m n = None then Some (m(n \<mapsto> d)) else None)"

definition drop_old :: "string \<Rightarrow> (string \<Rightarrow> dict option) \<Rightarrow> (string \<Rightarrow> dict option) option" where
  "drop_old n m = (if m n = None then None else Some (m(n := None)))"

definition switch :: "string \<Rightarrow> bool \<Rightarrow> (string \<Rightarrow> dict option) \<Rightarrow> (string \<Rightarrow> dict option) option" where
  "switch n b m = (case m n of None \<Rightarrow> None | Some d \<Rightarrow> Some (m(n \<mapsto> dict_set ''enabled'' (JBool b) d)))"

fun config_step :: "int \<Rightarrow> backup_command \<Rightarrow> backup_config \<Rightarrow> backup_config option" where
  "config_step now (AddRecipient n k t) (rs, ds) = (if startswith k ''age1'' then map_option (\<lambda>m. (m, ds)) (insert_new n (recipient_doc now k t) rs) else None)"
| "config_step now (RemoveRecipient n) (rs, ds) = map_option (\<lambda>m. (m, ds)) (drop_old n rs)"
| "config_step now (AddDestination n u off) (rs, ds) = map_option (\<lambda>m. (rs, m)) (insert_new n (destination_doc now u (\<not> off)) ds)"
| "config_step now (RemoveDestination n) (rs, ds) = map_option (\<lambda>m. (rs, m)) (drop_old n ds)"
| "config_step now (EnableDestination n) (rs, ds) = map_option (\<lambda>m. (rs, m)) (switch n True ds)"
| "config_step now (DisableDestination n) (rs, ds) = map_option (\<lambda>m. (rs, m)) (switch n False ds)"

definition config_of :: "store \<Rightarrow> backup_config" where
  "config_of c = (entries_of RECIPIENTS c, entries_of DESTINATIONS c)"

lemma entries_put: "entries_of p (c(p @ n \<mapsto> (Doc d, v))) = (entries_of p c)(n \<mapsto> d)"
  by (auto simp: entries_of_def fun_eq_iff)

lemma entries_delete: "entries_of p (c(p @ n := None)) = (entries_of p c)(n := None)"
  by (auto simp: entries_of_def fun_eq_iff)

lemma objects_entry: "objects_only p c \<Longrightarrow> entries_of p c n = None \<longleftrightarrow> c (p @ n) = None"
  by (auto simp: objects_only_def entries_of_def)

lemma objects_put: "objects_only p c \<Longrightarrow> objects_only p (c(k \<mapsto> (Doc d, v)))" "objects_only p c \<Longrightarrow> objects_only p (c(k := None))"
  by (auto simp: objects_only_def entries_of_def)

text \<open>The store a command leaves is that of the abstract step, or the one it found when there is none.\<close>

definition refines :: "string \<Rightarrow> store \<Rightarrow> (string \<Rightarrow> dict option) option \<Rightarrow> (store \<Rightarrow> bool)" where
  "refines p c m c' = (case m of None \<Rightarrow> False | Some m' \<Rightarrow> entries_of p c' = m' \<and> objects_only p c' \<and> (\<forall>k. \<not> startswith k p \<longrightarrow> c' k = c k))"

lemma startswith_app [simp]: "startswith (p @ n) p"
  by (simp add: startswith_def)

definition stepped :: "int \<Rightarrow> backup_command \<Rightarrow> store \<Rightarrow> store \<Rightarrow> bool" where
  "stepped now cmd c c' = (config_step now cmd (config_of c) = Some (config_of c') \<and> objects_only RECIPIENTS c' \<and> objects_only DESTINATIONS c')"

lemma outside: "\<forall>k. \<not> startswith k p \<longrightarrow> c' k = c k \<Longrightarrow> (\<And>a. \<not> startswith (q @ a) p) \<Longrightarrow> entries_of q c' = entries_of q c \<and> (objects_only q c \<longrightarrow> objects_only q c')"
  by (auto simp: entries_of_def objects_only_def fun_eq_iff)

lemma not_under: "\<not> startswith (RECIPIENTS @ a) DESTINATIONS" "\<not> startswith (DESTINATIONS @ a) RECIPIENTS"
  by (simp_all add: startswith_def RECIPIENTS_def DESTINATIONS_def)

lemma refines_recipients:
  assumes "refines RECIPIENTS c m c'" "objects_only DESTINATIONS c"
    and "config_step now cmd (config_of c) = map_option (\<lambda>m. (m, entries_of DESTINATIONS c)) m"
  shows "stepped now cmd c c'"
  using assms outside [of RECIPIENTS c' c, OF _ not_under(2)] by (auto simp: refines_def stepped_def config_of_def split: option.splits)

lemma refines_destinations:
  assumes "refines DESTINATIONS c m c'" "objects_only RECIPIENTS c"
    and "config_step now cmd (config_of c) = map_option (\<lambda>m. (entries_of RECIPIENTS c, m)) m"
  shows "stepped now cmd c c'"
  using assms outside [of DESTINATIONS c' c, OF _ not_under(1)] by (auto simp: refines_def stepped_def config_of_def split: option.splits)

context etcd_seq
begin

lemma wp_add_entry:
  assumes "objects_only p (view s)"
  shows "wp (add_entry e (p @ n) d) (\<lambda>_ w. refines p (view s) (insert_new n d (entries_of p (view s))) (view w))
     (\<lambda>_ w. view w = view s \<and> insert_new n d (entries_of p (view s)) = None) s"
  unfolding add_entry_def wp_bind
  by (rule wp_get_seq)
    (auto simp: wp_raise refines_def insert_new_def objects_entry [OF assms] entries_put assms objects_put intro!: wp_put_seq)

lemma wp_remove_entry:
  assumes "objects_only p (view s)"
  shows "wp (remove_entry e (p @ n)) (\<lambda>_ w. refines p (view s) (drop_old n (entries_of p (view s))) (view w))
     (\<lambda>x w. x = SystemExit 1 \<and> view w = view s \<and> drop_old n (entries_of p (view s)) = None) s"
  unfolding remove_entry_def or_exit_def wp_try wp_seq wp_bind wp_raise
  by (rule wp_client_seq, rule wp_get_seq)
    (auto simp: wp_raise wp_return wp_seq refines_def drop_old_def objects_entry [OF assms] entries_delete assms objects_put intro!: wp_delete_seq)

lemma wp_entry:
  assumes "\<And>d v s'. view s k = Some (Doc d, v) \<Longrightarrow> view s' = view s \<Longrightarrow> Q d s'" "\<And>x s'. (\<nexists>d v. view s k = Some (Doc d, v)) \<Longrightarrow> view s' = view s \<Longrightarrow> E x s'"
  shows "wp (entry e k) Q E s"
  unfolding entry_def wp_seq wp_bind
  by (rule wp_client_seq, rule wp_get_seq) (auto simp: wp_raise wp_lift split: option.splits sum.splits intro!: assms)

lemma wp_switch:
  assumes "objects_only DESTINATIONS (view s)"
  shows "wp (switch_destination e n b) (\<lambda>_ w. refines DESTINATIONS (view s) (switch n b (entries_of DESTINATIONS (view s))) (view w))
     (\<lambda>x w. x = SystemExit 1 \<and> view w = view s \<and> switch n b (entries_of DESTINATIONS (view s)) = None) s"
  unfolding switch_destination_def or_exit_def wp_try wp_bind wp_raise
  by (rule wp_entry)
    (auto simp: refines_def switch_def entries_put objects_put assms split: option.splits intro!: wp_put_seq, auto simp: entries_of_def split: option.splits blob.splits)

lemma wp_added:
  assumes "objects_only p (view s)"
  shows "wp (or_exit (py_seq (e_client e) (add_entry e (p @ n) d))) (\<lambda>_ w. refines p (view s) (insert_new n d (entries_of p (view s))) (view w))
     (\<lambda>x w. x = SystemExit 1 \<and> view w = view s \<and> insert_new n d (entries_of p (view s)) = None) s"
proof -
  have "wp (add_entry e (p @ n) d) (\<lambda>_ w. refines p (view s) (insert_new n d (entries_of p (view s))) (view w))
     (\<lambda>_ w. view w = view s \<and> insert_new n d (entries_of p (view s)) = None) s'" if "view s' = view s" for s'
    using wp_add_entry [of p s' n d] assms by (simp add: that)
  then show ?thesis unfolding or_exit_def wp_try wp_seq wp_raise by (intro wp_client_seq) simp
qed

lemma wp_command:
  assumes "objects_only RECIPIENTS (view s)" "objects_only DESTINATIONS (view s)"
  shows "wp (run_command e now cmd) (\<lambda>_ w. stepped now cmd (view s) (view w))
     (\<lambda>x w. x = SystemExit 1 \<and> view w = view s \<and> config_step now cmd (config_of (view s)) = None) s"
proof (cases cmd)
  case (AddRecipient n k t)
  show ?thesis
  proof (cases "startswith k ''age1''")
    case True
    with AddRecipient show ?thesis
      by (auto simp: backup_recipients_add_def config_of_def intro!: wp_mono [OF wp_added [OF assms(1)]] refines_recipients [OF _ assms(2)])
  next
    case False
    with AddRecipient show ?thesis by (simp add: backup_recipients_add_def or_exit_def wp_try wp_raise config_of_def)
  qed
next
  case (RemoveRecipient n)
  then show ?thesis
    by (auto simp: backup_recipients_remove_def config_of_def intro!: wp_mono [OF wp_remove_entry [OF assms(1)]] refines_recipients [OF _ assms(2)])
next
  case (AddDestination n u off)
  then show ?thesis
    by (auto simp: backup_destinations_add_def config_of_def intro!: wp_mono [OF wp_added [OF assms(2)]] refines_destinations [OF _ assms(1)])
next
  case (RemoveDestination n)
  then show ?thesis
    by (auto simp: backup_destinations_remove_def config_of_def intro!: wp_mono [OF wp_remove_entry [OF assms(2)]] refines_destinations [OF _ assms(1)])
qed (auto simp: backup_destinations_enable_def backup_destinations_disable_def config_of_def
    intro!: wp_mono [OF wp_switch [OF assms(2)]] refines_destinations [OF _ assms(1)])

end

text \<open>Commands one after the other; one that fails leaves the configuration as it is.\<close>

primrec run_commands :: "'w etcd3 \<Rightarrow> (int \<times> backup_command) list \<Rightarrow> ('w, unit) py" where
  "run_commands e [] = py_return ()"
| "run_commands e (x # xs) = py_seq (py_ignore (run_command e (fst x) (snd x))) (run_commands e xs)"

definition config_next :: "int \<times> backup_command \<Rightarrow> backup_config \<Rightarrow> backup_config" where
  "config_next x m = (case config_step (fst x) (snd x) m of Some m' \<Rightarrow> m' | None \<Rightarrow> m)"

text \<open>The commands implement the abstract configuration: one that returns has made its step, one that fails ends with status 1,
  has no step and changes nothing.\<close>

theorem backup_command_refines:
  assumes "etcd_seq e view" "objects_only RECIPIENTS (view s)" "objects_only DESTINATIONS (view s)" "run_command e now cmd s = (r, s')"
  shows "case config_step now cmd (config_of (view s)) of
       None \<Rightarrow> r = Inl (SystemExit 1) \<and> view s' = view s
     | Some m \<Rightarrow> r = Inr () \<and> config_of (view s') = m \<and> objects_only RECIPIENTS (view s') \<and> objects_only DESTINATIONS (view s')"
  using etcd_seq.wp_command [OF assms(1-3), of now cmd] assms(4)
  by (auto simp: wp_def stepped_def split: sum.splits option.splits)

text \<open>C27: After any commands the configuration is that of the abstract steps, which add only what is new, remove and switch only what is
  there, and leave it as it is where they fail.\<close>

theorem backup_commands_refine:
  assumes "etcd_seq e view" "objects_only RECIPIENTS (view s)" "objects_only DESTINATIONS (view s)"
  shows "config_of (view (snd (run_commands e cmds s))) = fold config_next cmds (config_of (view s))"
  using assms(2,3)
proof (induction cmds arbitrary: s)
  case (Cons x cmds)
  obtain r s1 where run: "run_command e (fst x) (snd x) s = (r, s1)" by (metis surj_pair)
  then have first: "run_commands e (x # cmds) s = run_commands e cmds s1"
    by (cases r) (simp_all add: py_defs py_ignore_def)
  from backup_command_refines [OF assms(1) Cons.prems run]
  have "config_of (view s1) = config_next x (config_of (view s))" "objects_only RECIPIENTS (view s1)" "objects_only DESTINATIONS (view s1)"
    using Cons.prems by (auto simp: config_next_def split: option.splits)
  with Cons.IH [of s1] show ?case unfolding first by simp
qed (simp add: py_return_def)

lemma backup_entries_objects:
  "(\<And>k b. (k, b) \<in> set xs \<Longrightarrow> \<exists>d. b = Doc d) \<Longrightarrow> backup_entries info xs = Inr (map (\<lambda>(k, b). info (last_part k) (case b of Doc d \<Rightarrow> d | _ \<Rightarrow> [])) xs)"
proof (induction xs)
  case (Cons x xs)
  obtain k b where x: "x = (k, b)" by (cases x)
  with Cons.prems obtain d where "b = Doc d" by auto
  moreover have "\<exists>d. b = Doc d" if "(k, b) \<in> set xs" for k b using Cons.prems that by (meson list.set_intros(2))
  ultimately show ?case using x Cons.IH by simp
qed simp

lemma startswith_split: "startswith k p \<Longrightarrow> p @ drop (length p) k = k"
  by (metis startswith_def append_take_drop_id)

lemma append_le_append: "p @ a \<le> p @ b \<longleftrightarrow> a \<le> (b :: string)"
  by (induction p) simp_all

lemma sorted_suffixes: "sorted (map fst xs) \<Longrightarrow> \<forall>x\<in>set xs. startswith (fst x) p \<Longrightarrow> sorted (map (\<lambda>x. drop (length p) (fst x)) xs)"
proof (induction xs)
  case (Cons x xs)
  have "drop (length p) (fst x) \<le> drop (length p) (fst y)" if "y \<in> set xs" for y
    using Cons.prems that append_le_append [of p "drop (length p) (fst x)" "drop (length p) (fst y)"] by (auto simp: startswith_split)
  with Cons show ?case by auto
qed simp

lemma prefix_names:
  assumes "prefix_list c p xs" "objects_only p c"
  shows "\<exists>names. sorted names \<and> distinct names \<and> set names = dom (entries_of p c)
    \<and> backup_entries info xs = Inr (map (\<lambda>n. info (last_part (p @ n)) (the (entries_of p c n))) names)"
proof -
  let ?names = "map (\<lambda>x. drop (length p) (fst x)) xs"
  have mem: "(k, b) \<in> set xs \<longleftrightarrow> startswith k p \<and> (\<exists>n. c k = Some (b, n))" for k b using assms(1) by (auto simp: prefix_list_def)
  have doc: "\<exists>d. b = Doc d \<and> entries_of p c (drop (length p) k) = Some d" if "(k, b) \<in> set xs" for k b
    using that assms(2) [unfolded objects_only_def, rule_format, of "drop (length p) k"]
    by (cases b) (auto simp: mem entries_of_def startswith_split)
  have "sorted ?names" by (rule sorted_suffixes) (use assms(1) in \<open>auto simp: prefix_list_def\<close>)
  moreover have "distinct ?names"
  proof -
    have "inj_on (\<lambda>x. drop (length p) (fst x)) (set xs)"
      using assms(1) by (intro inj_onI) (metis (no_types, lifting) distinct_map inj_onD mem prefix_list_def prod.collapse startswith_split)
    with assms(1) show ?thesis by (simp add: prefix_list_def distinct_map)
  qed
  moreover have "set ?names = dom (entries_of p c)"
  proof (intro set_eqI iffI)
    fix n assume "n \<in> set ?names"
    then show "n \<in> dom (entries_of p c)" using doc by force
  next
    fix n assume "n \<in> dom (entries_of p c)"
    then obtain d v where "c (p @ n) = Some (Doc d, v)" by (auto simp: entries_of_def split: option.splits blob.splits)
    then have "(p @ n, Doc d) \<in> set xs" by (simp add: mem)
    then show "n \<in> set ?names" by force
  qed
  moreover have "backup_entries info xs = Inr (map (\<lambda>n. info (last_part (p @ n)) (the (entries_of p c n))) ?names)"
  proof -
    have "(case x of (k, b) \<Rightarrow> info (last_part k) (case b of Doc d \<Rightarrow> d | _ \<Rightarrow> []))
        = info (last_part (p @ drop (length p) (fst x))) (the (entries_of p c (drop (length p) (fst x))))" if "x \<in> set xs" for x
      using doc [of "fst x" "snd x"] mem [of "fst x" "snd x"] that by (cases x) (auto simp: startswith_split)
    moreover have "backup_entries info xs = Inr (map (\<lambda>(k, b). info (last_part k) (case b of Doc d \<Rightarrow> d | _ \<Rightarrow> [])) xs)"
      by (rule backup_entries_objects) (use doc in blast)
    ultimately show ?thesis by (simp add: comp_def)
  qed
  ultimately show ?thesis by blast
qed

text \<open>The list of destinations shows each entry of the map once, in the order of the names.\<close>

theorem destinations_listed:
  assumes "etcd_seq e view" "objects_only DESTINATIONS (view s)"
  shows "\<exists>names s'. backup_destinations_list e True s
        = (Inr (AsJson (map (\<lambda>n. destination_info (last_part (DESTINATIONS @ n)) (the (entries_of DESTINATIONS (view s) n))) names)), s')
     \<and> view s' = view s \<and> sorted names \<and> distinct names \<and> set names = dom (entries_of DESTINATIONS (view s))"
proof -
  let ?R = "\<lambda>x w. view w = view s \<and> (\<exists>names. x = AsJson (map (\<lambda>n. destination_info (last_part (DESTINATIONS @ n)) (the (entries_of DESTINATIONS (view s) n))) names)
     \<and> sorted names \<and> distinct names \<and> set names = dom (entries_of DESTINATIONS (view s)))"
  have "wp (backup_destinations_list e True) ?R (\<lambda>_ _. False) s"
    unfolding backup_destinations_list_def or_exit_def wp_try wp_seq wp_bind wp_raise
  proof (rule etcd_seq.wp_client_seq [OF assms(1)], rule etcd_seq.wp_prefix_seq [OF assms(1)])
    fix s1 s2 xs assume "view s1 = view s" "view s2 = view s1" "prefix_list (view s1) DESTINATIONS xs"
    with prefix_names [OF _ assms(2), of xs destination_info]
    show "wp (py_lift (backup_entries destination_info xs)) (\<lambda>x. wp (py_return (if True then AsJson x else if x = [] then AsText [''No backup rsync destinations configured.'']
        else AsText ([''Backup Rsync Destinations:'', replicate 50 (CHR ''-'')] @ concat (map destination_lines x)))) ?R (\<lambda>_ _. False)) (\<lambda>_ _. False) s2"
      by (auto simp: wp_lift wp_return)
  qed
  from wp_returns [OF this] show ?thesis by blast
qed

section \<open>Witnesses\<close>

definition bk_commands :: "(int \<times> backup_command) list" where
  "bk_commands = [(0, AddDestination ''nas'' ''nas:/b'' False), (0, AddDestination ''nas'' ''evil:/b'' False), (0, DisableDestination ''nas''),
     (0, AddRecipient ''ops'' ''age1xyz'' None), (0, AddRecipient ''bad'' ''ssh-rsa'' None), (0, RemoveRecipient ''gone'')]"

lemma bk_empty: "objects_only p (mem_view \<lparr>mem_data = [], mem_rev = 0\<rparr>)"
  by (simp add: objects_only_def mem_view_def)

theorem backup_command_refines_witness:
  "fst (run_command mem_etcd 0 (RemoveRecipient ''gone'') \<lparr>mem_data = [], mem_rev = 0\<rparr>) = Inl (SystemExit 1)"
proof -
  have "config_step 0 (RemoveRecipient ''gone'') (config_of (mem_view \<lparr>mem_data = [], mem_rev = 0\<rparr>)) = None"
    by (simp add: config_of_def drop_old_def entries_of_def mem_view_def)
  with backup_command_refines [OF memkv.etcd_seq_axioms bk_empty bk_empty prod.collapse [symmetric], of 0 "RemoveRecipient ''gone''"] show ?thesis by simp
qed

theorem backup_commands_refine_witness:
  "map_option (\<lambda>d. map_of d ''url'') (snd (config_of (mem_view (snd (run_commands mem_etcd bk_commands \<lparr>mem_data = [], mem_rev = 0\<rparr>)))) ''nas'')
     = Some (Some (JStr ''nas:/b''))
   \<and> config_of (mem_view (snd (run_commands mem_etcd bk_commands \<lparr>mem_data = [], mem_rev = 0\<rparr>)))
     = fold config_next bk_commands (config_of (mem_view \<lparr>mem_data = [], mem_rev = 0\<rparr>))"
proof
  show "map_option (\<lambda>d. map_of d ''url'') (snd (config_of (mem_view (snd (run_commands mem_etcd bk_commands \<lparr>mem_data = [], mem_rev = 0\<rparr>)))) ''nas'')
     = Some (Some (JStr ''nas:/b''))" by code_simp
  show "config_of (mem_view (snd (run_commands mem_etcd bk_commands \<lparr>mem_data = [], mem_rev = 0\<rparr>)))
     = fold config_next bk_commands (config_of (mem_view \<lparr>mem_data = [], mem_rev = 0\<rparr>))"
    by (rule backup_commands_refine [OF memkv.etcd_seq_axioms bk_empty bk_empty])
qed

theorem destinations_listed_witness:
  "\<exists>names s'. backup_destinations_list mem_etcd True \<lparr>mem_data = [], mem_rev = 0\<rparr>
      = (Inr (AsJson (map (\<lambda>n. destination_info (last_part (DESTINATIONS @ n)) (the (entries_of DESTINATIONS (mem_view \<lparr>mem_data = [], mem_rev = 0\<rparr>) n))) names)), s')"
  using destinations_listed [OF memkv.etcd_seq_axioms bk_empty] by blast

section \<open>Findings\<close>

text \<open>An entry whose name has a slash is listed under the part after it, a name the other commands do not find.\<close>

definition bk_slash :: mem where
  "bk_slash = snd (run_commands mem_etcd [(0, AddDestination ''site/nas'' ''nas:/b'' False)] \<lparr>mem_data = [], mem_rev = 0\<rparr>)"

theorem slash_name_listed_short:
  "map_sum id (\<lambda>x. case x of AsJson ds \<Rightarrow> map (\<lambda>d. map_of d ''name'') ds | AsText _ \<Rightarrow> []) (fst (backup_destinations_list mem_etcd True bk_slash)) = Inr [Some (JStr ''nas'')]
   \<and> fst (backup_destinations_remove mem_etcd ''nas'' bk_slash) = Inl (SystemExit 1)"
  by code_simp

end
