(* ===== verification/YSensors.thy ===== *)
theory YSensors
  imports YHealth
begin

text \<open>
  The collectors of temperatures and of the GPUs inside VMs (\<open>node-temps-collector.py\<close>, \<open>vm-gpu-collector.py\<close>). They run tools,
  read what these print and replace a file of metrics as a whole. Tools, the serial ports of cooling controllers, the reading and
  printing of numbers and the files are the record \<open>sensors\<close>; the locale \<open>sensor_env\<close> states what is relied on.
\<close>

section \<open>Numbers and tools\<close>

datatype pyfloat = Fin rat | PosInf | NegInf | NaN

fun pf_le :: "pyfloat \<Rightarrow> rat \<Rightarrow> bool" where
  "pf_le (Fin x) y = (x \<le> y)"
| "pf_le NegInf _ = True"
| "pf_le _ _ = False"

fun pf_lt :: "pyfloat \<Rightarrow> rat \<Rightarrow> bool" where
  "pf_lt (Fin x) y = (x < y)"
| "pf_lt NegInf _ = True"
| "pf_lt _ _ = False"

fun pf_gt :: "pyfloat \<Rightarrow> rat \<Rightarrow> bool" where
  "pf_gt (Fin x) y = (x > y)"
| "pf_gt PosInf _ = True"
| "pf_gt _ _ = False"

fun pf_scale :: "rat \<Rightarrow> pyfloat \<Rightarrow> pyfloat" where
  "pf_scale k (Fin x) = Fin (x * k)"
| "pf_scale k v = v"

datatype ran = Ran proc | NotFound | TimedOut

record 'w sensors =
  sn_run :: "string list \<Rightarrow> ('w, ran) py"
  sn_float :: "string \<Rightarrow> pyfloat option"
  sn_print :: "pyfloat \<Rightarrow> string"
  sn_loads :: "string \<Rightarrow> exn + json"
  sn_pyserial :: bool
  sn_glob :: "string \<Rightarrow> ('w, string list) py"
  sn_open :: "string \<Rightarrow> ('w, unit) py"
  sn_query :: "string \<Rightarrow> string \<Rightarrow> ('w, string) py"
  sn_sleep :: "('w, unit) py"
  sn_mkstemp :: "string \<Rightarrow> string \<Rightarrow> ('w, string) py"
  sn_write :: "string \<Rightarrow> string \<Rightarrow> ('w, unit) py"
  sn_chmod :: "string \<Rightarrow> nat \<Rightarrow> ('w, unit) py"
  sn_rename :: "string \<Rightarrow> string \<Rightarrow> ('w, unit) py"
  sn_unlink :: "string \<Rightarrow> ('w, unit) py"

section \<open>The chassis\<close>

definition has_part :: "string \<Rightarrow> string list \<Rightarrow> bool" where
  "has_part t ps = list_ex (contains (lower t) \<circ> lower) ps"

text \<open>\<open>CPU.*X\<close> is found when \<open>X\<close> comes after the first \<open>CPU\<close>.\<close>

fun rest_after :: "string \<Rightarrow> string \<Rightarrow> string option" where
  "rest_after t p = (if startswith t p then Some (drop (length p) t) else case t of [] \<Rightarrow> None | _ # r \<Rightarrow> rest_after r p)"

definition part_then :: "string \<Rightarrow> string \<Rightarrow> string \<Rightarrow> bool" where
  "part_then t p q = (case rest_after (lower t) (lower p) of Some r \<Rightarrow> contains r (lower q) | None \<Rightarrow> False)"

definition pcie_temp :: "string \<Rightarrow> bool" where
  "pcie_temp t =
     (startswith (lower t) ''pcie'' \<and>
      (let r = drop 4 t in r \<noteq> [] \<and> is_digit (hd r) \<and> startswith (lower (dropWhile is_space (dropWhile is_digit r))) ''temp''))"

definition role_for :: "string \<Rightarrow> string" where
  "role_for sensor =
     (if has_part sensor [''INLET'', ''INTAKE'', ''AMBIENT'', ''AIR_TEMP''] then ''ambient''
      else if has_part sensor [''GPU_TEMP''] \<or> pcie_temp sensor then ''gpu''
      else if part_then sensor ''CPU'' ''TEMP'' \<or> part_then sensor ''CPU'' ''Package'' then ''cpu''
      else if has_part sensor [''DIMM''] then ''memory''
      else if has_part sensor [''PSU''] then ''psu''
      else if has_part sensor [''HDD'', ''NVME'', ''SSD'', ''M2_''] then ''disk''
      else ''other'')"

text \<open>The number of \<open>20 degrees C\<close>: an optional sign, digits, an optional fraction.\<close>

definition degrees :: "string \<Rightarrow> string option" where
  "degrees t =
     (let sign = (if startswith t ''-'' then ''-'' else []);
          r0 = drop (length sign) t;
          whole = takeWhile is_digit r0;
          r1 = dropWhile is_digit r0;
          frac = (if startswith r1 ''.'' \<and> takeWhile is_digit (tl r1) \<noteq> [] then ''.'' @ takeWhile is_digit (tl r1) else []);
          r2 = dropWhile is_space (drop (length frac) r1)
      in if whole \<noteq> [] \<and> startswith r2 ''degrees'' \<and> startswith (dropWhile is_space (drop 7 r2)) ''C'' then Some (sign @ whole @ frac) else None)"

definition ipmi_reading :: "'w sensors \<Rightarrow> string \<Rightarrow> (string \<times> string \<times> pyfloat) list" where
  "ipmi_reading m line =
     (case map strip (split_on (CHR ''|'') line) of
        name # _ # st # _ # reading # _ \<Rightarrow>
          if st \<in> {''ns'', ''na''} then []
          else (case degrees reading of
                  None \<Rightarrow> []
                | Some t \<Rightarrow> (case sn_float m t of Some v \<Rightarrow> [(name, role_for name, v)] | None \<Rightarrow> []))
      | _ \<Rightarrow> [])"

definition collect_ipmi :: "'w sensors \<Rightarrow> ('w, (string \<times> string \<times> pyfloat) list) py" where
  "collect_ipmi m =
     py_bind (sn_run m [''ipmitool'', ''sdr'', ''type'', ''Temperature'']) (\<lambda>r. py_return
       (case r of
          Ran p \<Rightarrow> if pr_rc p \<noteq> 0 then [] else concat (map (ipmi_reading m) (text_lines (pr_out p)))
        | _ \<Rightarrow> []))"

section \<open>GPUs\<close>

record gpu =
  g_index :: string
  g_bus :: string
  g_name :: string
  g_temp :: pyfloat
  g_util :: pyfloat
  g_util_mem :: pyfloat
  g_used :: pyfloat
  g_total :: pyfloat
  g_power :: pyfloat

definition floats :: "'w sensors \<Rightarrow> string list \<Rightarrow> pyfloat list option" where
  "floats m ts = those (map (sn_float m) ts)"

definition gpu_row :: "'w sensors \<Rightarrow> string \<Rightarrow> gpu list" where
  "gpu_row m line =
     (let parts = map strip (split_on (CHR '','') line) in
      if length parts \<noteq> 9 then []
      else (case floats m (drop 3 parts) of
              Some [t, u, um, mu, mt, p] \<Rightarrow>
                [\<lparr>g_index = parts ! 0, g_bus = parts ! 1, g_name = parts ! 2, g_temp = t, g_util = u, g_util_mem = um, g_used = mu, g_total = mt, g_power = p\<rparr>]
            | _ \<Rightarrow> []))"

definition NVIDIA_QUERY :: string where
  "NVIDIA_QUERY = ''index,pci.bus_id,name,temperature.gpu,utilization.gpu,utilization.memory,memory.used,memory.total,power.draw''"

definition collect_nvidia :: "'w sensors \<Rightarrow> ('w, gpu list) py" where
  "collect_nvidia m =
     py_bind (sn_run m [''nvidia-smi'', ''--query-gpu='' @ NVIDIA_QUERY, ''--format=csv,noheader,nounits'']) (\<lambda>r. py_return
       (case r of
          Ran p \<Rightarrow> if pr_rc p \<noteq> 0 then [] else concat (map (gpu_row m) (text_lines (pr_out p)))
        | _ \<Rightarrow> []))"

section \<open>The cooling controller\<close>

definition COMINO_FIELDS :: "string list" where
  "COMINO_FIELDS = [''TOT'', ''CUR'', ''ALARM'', ''ERROR'', ''V'', ''T0'', ''T1'', ''T2'', ''T3'', ''T4'', ''T5'', ''RH'', ''CH1'', ''CH2'', ''CH3'', ''CH4'',
     ''CH5'', ''CH6'', ''CH7'', ''CH8'', ''FLOW'', ''LEVEL_ERR'', ''MB_PS_ON'', ''FLOW_PPM'']"

definition COMINO_TEMP_MAP :: "(string \<times> string \<times> string) list" where
  "COMINO_TEMP_MAP = [(''T0'', ''comino_controller_mcu'', ''other''), (''T1'', ''comino_coolant_inlet'', ''coolant''),
     (''T2'', ''comino_coolant_outlet'', ''coolant''), (''T3'', ''comino_air_inlet'', ''ambient''),
     (''T4'', ''comino_air_outlet'', ''exhaust''), (''T5'', ''comino_board_i2c'', ''other'')]"

text \<open>Fans and pumps are numbered in the order of their channels; the modes are compared without regard to case.\<close>

fun channel_labels :: "nat \<Rightarrow> nat \<Rightarrow> nat \<Rightarrow> string list \<Rightarrow> (string \<times> string) list" where
  "channel_labels i fans pumps (install # _ # mode # rest) =
     (let ch = ''CH'' @ nat_str i; m = lower (strip mode) in
      if strip install = ''0'' \<or> m = ''off'' then channel_labels (Suc i) fans pumps rest
      else if m = ''fan'' then (ch, ''fan '' @ nat_str (Suc fans)) # channel_labels (Suc i) (Suc fans) pumps rest
      else if m = ''pump'' then (ch, ''pump '' @ nat_str (Suc pumps)) # channel_labels (Suc i) fans (Suc pumps) rest
      else (ch, ch @ '' ('' @ (if m = [] then ''?'' else m) @ '')'') # channel_labels (Suc i) fans pumps rest)"
| "channel_labels i fans pumps _ = []"

definition comino_channel_labels :: "'w sensors \<Rightarrow> string \<Rightarrow> ('w, (string \<times> string) list) py" where
  "comino_channel_labels m dev =
     py_bind (sn_query m dev '':get_channel_value'') (\<lambda>t.
       let raw = split_on (CHR '';'') t in py_return (if length raw \<noteq> 24 then [] else channel_labels 1 0 0 raw))"

definition parse_comino_data :: "string \<Rightarrow> (string \<times> string) list option" where
  "parse_comino_data line =
     (let parts = split_on (CHR '';'') line in if length parts \<noteq> length COMINO_FIELDS then None else Some (zip COMINO_FIELDS parts))"

primrec comino_reader :: "'w sensors \<Rightarrow> string \<Rightarrow> nat \<Rightarrow> ('w, (string \<times> (string \<times> string) list) option) py" where
  "comino_reader m dev 0 = py_return None"
| "comino_reader m dev (Suc n) =
     py_bind (py_try
       (py_seq (sn_open m dev)
       (py_bind (comino_channel_labels m dev) (\<lambda>labels. py_bind (sn_query m dev '':get_data'') (\<lambda>line. py_return (Some (line, labels))))))
       (\<lambda>x. if x = OSError then py_seq (sn_sleep m) (py_return None) else py_raise x)) (\<lambda>r.
     case r of Some y \<Rightarrow> py_return (Some y) | None \<Rightarrow> comino_reader m dev n)"

primrec select_comino_device ::
  "(string \<Rightarrow> ('w, (string \<times> (string \<times> string) list) option) py) \<Rightarrow> string list
    \<Rightarrow> ('w, (string \<times> (string \<times> string) list \<times> (string \<times> string) list) option) py" where
  "select_comino_device reader [] = py_return None"
| "select_comino_device reader (dev # devs) =
     py_bind (reader dev) (\<lambda>res. case res of
       None \<Rightarrow> select_comino_device reader devs
     | Some (line, labels) \<Rightarrow> (case parse_comino_data line of
         Some d \<Rightarrow> py_return (Some (dev, d, labels))
       | None \<Rightarrow> select_comino_device reader devs))"

definition comino_value :: "'w sensors \<Rightarrow> (string \<times> string) list \<Rightarrow> string \<Rightarrow> pyfloat option" where
  "comino_value m d k = (case map_of d k of Some t \<Rightarrow> sn_float m (map (\<lambda>c. if c = CHR '','' then CHR ''.'' else c) t) | None \<Rightarrow> None)"

definition comino_temps :: "'w sensors \<Rightarrow> (string \<times> string) list \<Rightarrow> (string \<times> string \<times> pyfloat) list" where
  "comino_temps m d =
     concat (map (\<lambda>(k, sensor, role). case comino_value m d k of
       Some v \<Rightarrow> if pf_le v 0 \<or> pf_gt v 150 then [] else [(sensor, role, v)] | None \<Rightarrow> []) COMINO_TEMP_MAP)"

definition comino_fans :: "'w sensors \<Rightarrow> (string \<times> string) list \<Rightarrow> (string \<times> string) list \<Rightarrow> (string \<times> string \<times> pyfloat) list" where
  "comino_fans m d labels =
     concat (map (\<lambda>(ch, name). case comino_value m d ch of Some v \<Rightarrow> if pf_lt v 0 then [] else [(ch, name, v)] | None \<Rightarrow> []) labels)"

definition collect_comino :: "'w sensors \<Rightarrow> ('w, (string \<times> string \<times> pyfloat) list \<times> (string \<times> string \<times> pyfloat) list) py" where
  "collect_comino m =
     (if \<not> sn_pyserial m then py_return ([], [])
      else py_bind (sn_glob m ''/dev/ttyACM*'') (\<lambda>devs.
        py_bind (select_comino_device (\<lambda>dev. comino_reader m dev 5) (sort devs)) (\<lambda>selected. py_return
          (case selected of None \<Rightarrow> ([], []) | Some (_, d, labels) \<Rightarrow> (comino_temps m d, comino_fans m d labels)))))"

section \<open>Metrics\<close>

definition esc :: "string \<Rightarrow> string" where
  "esc v = concat (map (\<lambda>c. if c = CHR 0x5C then [CHR 0x5C, CHR 0x5C] else if c = CHR 0x22 then [CHR 0x5C, CHR 0x22] else [c]) v)"

text \<open>A line of a metric: its labels, whose values are escaped (a role has nothing to escape), and its value.\<close>

definition label :: "string \<times> string \<Rightarrow> string" where
  "label l = fst l @ ''='' @ [CHR 0x22] @ esc (snd l) @ [CHR 0x22]"

definition prom_metric :: "'w sensors \<Rightarrow> string \<Rightarrow> (string \<times> string) list \<Rightarrow> pyfloat \<Rightarrow> string" where
  "prom_metric m name labels v = name @ ''{'' @ join '','' (map label labels) @ ''} '' @ sn_print m v"

definition heading :: "string \<Rightarrow> string \<Rightarrow> string list" where
  "heading name help = [''# HELP '' @ name @ '' '' @ help, ''# TYPE '' @ name @ '' gauge'']"

lemma role_plain: "esc (role_for sensor) = role_for sensor"
  by (simp add: role_for_def esc_def)

definition gpu_labels :: "gpu \<Rightarrow> (string \<times> string) list" where
  "gpu_labels g = [(''index'', g_index g), (''pci_bus_id'', g_bus g), (''name'', g_name g)]"

definition gpu_metric :: "'w sensors \<Rightarrow> gpu list \<Rightarrow> string \<Rightarrow> string \<Rightarrow> (gpu \<Rightarrow> pyfloat) \<Rightarrow> string list" where
  "gpu_metric m gpus name help f = heading name help @ map (\<lambda>g. prom_metric m name (gpu_labels g) (f g)) gpus"

definition sensor_metric :: "'w sensors \<Rightarrow> string \<Rightarrow> string \<Rightarrow> string \<Rightarrow> string \<Rightarrow> (string \<times> string \<times> pyfloat) list \<Rightarrow> string list" where
  "sensor_metric m name help k1 k2 xs = heading name help @ map (\<lambda>(a, b, v). prom_metric m name [(k1, a), (k2, b)] v) xs"

definition MIB :: rat where
  "MIB = 1024 * 1024"

definition temps_lines ::
  "'w sensors \<Rightarrow> (string \<times> string \<times> pyfloat) list \<Rightarrow> gpu list \<Rightarrow> (string \<times> string \<times> pyfloat) list \<Rightarrow> (string \<times> string \<times> pyfloat) list \<Rightarrow> string list" where
  "temps_lines m ipmi gpus ctemps cfans =
     sensor_metric m ''node_ipmi_temperature_celsius'' ''Chassis temperature sensor reading via IPMI.'' ''sensor'' ''role'' ipmi
     @ gpu_metric m gpus ''node_gpu_temperature_celsius'' ''GPU temperature via nvidia-smi (host-visible GPUs only).'' g_temp
     @ gpu_metric m gpus ''node_gpu_utilization_percent'' ''GPU compute utilization percent (host-visible GPUs).'' g_util
     @ gpu_metric m gpus ''node_gpu_memory_utilization_percent'' ''GPU memory-bandwidth utilization percent.'' g_util_mem
     @ gpu_metric m gpus ''node_gpu_memory_used_bytes'' ''GPU memory used in bytes.'' (pf_scale MIB \<circ> g_used)
     @ gpu_metric m gpus ''node_gpu_memory_total_bytes'' ''GPU memory total in bytes.'' (pf_scale MIB \<circ> g_total)
     @ gpu_metric m gpus ''node_gpu_power_watts'' ''GPU power draw in watts.'' g_power
     @ sensor_metric m ''node_comino_temperature_celsius'' ''Temperature from a Comino RM cooling controller.'' ''sensor'' ''role'' ctemps
     @ sensor_metric m ''node_comino_fan_rpm'' ''Fan/pump tachometer from a Comino RM cooling controller.'' ''channel'' ''name'' cfans"

definition body :: "string list \<Rightarrow> string" where
  "body lines = join nl lines @ nl"

definition EXPORTER_DIR :: string where
  "EXPORTER_DIR = ''/var/lib/prometheus/node-exporter''"

definition TEMPS_OUT :: string where
  "TEMPS_OUT = EXPORTER_DIR @ ''/temps.prom''"

definition VM_GPU_OUT :: string where
  "VM_GPU_OUT = EXPORTER_DIR @ ''/vm_gpu.prom''"

text \<open>The file is written beside its target and then put in its place; what fails in between is cleaned up.\<close>

definition replace_metrics :: "'w sensors \<Rightarrow> string \<Rightarrow> string \<Rightarrow> string \<Rightarrow> ('w, unit) py" where
  "replace_metrics m prefix out contents =
     py_bind (sn_mkstemp m prefix ''.prom'') (\<lambda>tmp.
       py_try (py_seq (sn_write m tmp contents) (py_seq (sn_chmod m tmp 420) (sn_rename m tmp out)))
         (\<lambda>x. py_seq (py_try (sn_unlink m tmp) (\<lambda>y. if y = OSError then py_return () else py_raise y)) (py_raise x)))"

definition write_prom ::
  "'w sensors \<Rightarrow> (string \<times> string \<times> pyfloat) list \<Rightarrow> gpu list \<Rightarrow> (string \<times> string \<times> pyfloat) list \<Rightarrow> (string \<times> string \<times> pyfloat) list \<Rightarrow> ('w, unit) py" where
  "write_prom m ipmi gpus ctemps cfans = replace_metrics m ''.temps.'' TEMPS_OUT (body (temps_lines m ipmi gpus ctemps cfans))"

definition temps_main :: "'w sensors \<Rightarrow> ('w, int) py" where
  "temps_main m =
     py_bind (collect_ipmi m) (\<lambda>ipmi. py_bind (collect_nvidia m) (\<lambda>gpus. py_bind (collect_comino m) (\<lambda>(ctemps, cfans).
       py_seq (write_prom m ipmi gpus ctemps cfans) (py_return 0))))"

section \<open>GPUs inside VMs\<close>

definition running_name :: "json \<Rightarrow> exn + json list" where
  "running_name v =
     (case v of
        JObj d \<Rightarrow> if map_of d ''status'' = Some (JStr ''Running'') then map_sum id (\<lambda>n. [n]) (dict_item d ''name'') else Inr []
      | _ \<Rightarrow> Inl AttributeError)"

fun running_names :: "json \<Rightarrow> exn + json list" where
  "running_names (JList xs) = map_sum id concat (sfold (\<lambda>v acc. map_sum id (\<lambda>ns. acc @ [ns]) (running_name v)) xs [])"
| "running_names (JObj d) = (if d = [] then Inr [] else Inl AttributeError)"
| "running_names (JStr t) = (if t = [] then Inr [] else Inl AttributeError)"
| "running_names _ = Inl TypeError"

definition list_running_vms :: "'w sensors \<Rightarrow> ('w, json list) py" where
  "list_running_vms m =
     py_bind (sn_run m [''incus'', ''list'', ''--format=json'', ''type=virtual-machine'']) (\<lambda>r.
       case r of
         Ran p \<Rightarrow>
           if pr_rc p \<noteq> 0 then py_return []
           else (case sn_loads m (pr_out p) of
                   Inl x \<Rightarrow> if x = JSONDecodeError then py_return [] else py_raise x
                 | Inr j \<Rightarrow> py_lift (running_names j))
       | _ \<Rightarrow> py_return [])"

text \<open>The columns of the query inside a VM are in another order.\<close>

definition NVIDIA_SMI_QUERY :: string where
  "NVIDIA_SMI_QUERY = ''index,pci.bus_id,name,utilization.gpu,utilization.memory,memory.used,memory.total,temperature.gpu,power.draw''"

definition vm_gpu_row :: "'w sensors \<Rightarrow> string \<Rightarrow> gpu list" where
  "vm_gpu_row m line =
     (let parts = map strip (split_on (CHR '','') line) in
      if length parts \<noteq> 9 then []
      else (case floats m (drop 3 parts) of
              Some [u, um, mu, mt, t, p] \<Rightarrow>
                [\<lparr>g_index = parts ! 0, g_bus = parts ! 1, g_name = parts ! 2, g_temp = t, g_util = u, g_util_mem = um, g_used = mu, g_total = mt, g_power = p\<rparr>]
            | _ \<Rightarrow> []))"

definition vm_command :: "string \<Rightarrow> string list" where
  "vm_command vm = [''incus'', ''exec'', vm, ''--'', ''nvidia-smi'', ''--query-gpu='' @ NVIDIA_SMI_QUERY, ''--format=csv,noheader,nounits'']"

definition vm_gpus_in :: "'w sensors \<Rightarrow> ran \<Rightarrow> gpu list" where
  "vm_gpus_in m r =
     (case r of Ran p \<Rightarrow> if pr_rc p \<noteq> 0 then [] else concat (map (vm_gpu_row m) (text_lines (pr_out p))) | _ \<Rightarrow> [])"

definition query_vm :: "'w sensors \<Rightarrow> json \<Rightarrow> ('w, gpu list) py" where
  "query_vm m vm = (case vm of JStr n \<Rightarrow> py_bind (sn_run m (vm_command n)) (\<lambda>r. py_return (vm_gpus_in m r)) | _ \<Rightarrow> py_raise TypeError)"

definition vm_metric :: "'w sensors \<Rightarrow> (string \<times> gpu) list \<Rightarrow> string \<Rightarrow> string \<Rightarrow> (gpu \<Rightarrow> pyfloat) \<Rightarrow> string list" where
  "vm_metric m samples name help f = heading name help @ map (\<lambda>(vm, g). prom_metric m name ((''vm'', vm) # gpu_labels g) (f g)) samples"

definition vm_gpu_lines :: "'w sensors \<Rightarrow> (string \<times> gpu) list \<Rightarrow> string list" where
  "vm_gpu_lines m samples =
     vm_metric m samples ''node_vm_gpu_utilization_percent'' ''GPU compute utilization percent from nvidia-smi inside a VM.'' g_util
     @ vm_metric m samples ''node_vm_gpu_memory_utilization_percent'' ''GPU memory-bandwidth utilization percent from nvidia-smi inside a VM.'' g_util_mem
     @ vm_metric m samples ''node_vm_gpu_memory_used_bytes'' ''GPU memory used in bytes (from nvidia-smi MiB * 2^20).'' (pf_scale MIB \<circ> g_used)
     @ vm_metric m samples ''node_vm_gpu_memory_total_bytes'' ''GPU memory total in bytes.'' (pf_scale MIB \<circ> g_total)
     @ vm_metric m samples ''node_vm_gpu_temperature_celsius'' ''GPU temperature in celsius (from nvidia-smi inside a VM).'' g_temp
     @ vm_metric m samples ''node_vm_gpu_power_watts'' ''GPU power draw in watts.'' g_power"

definition vm_samples :: "'w sensors \<Rightarrow> json \<Rightarrow> (string \<times> gpu) list \<Rightarrow> ('w, (string \<times> gpu) list) py" where
  "vm_samples m vm acc = py_bind (query_vm m vm) (\<lambda>gpus. py_return (acc @ map (Pair (case vm of JStr n \<Rightarrow> n | _ \<Rightarrow> [])) gpus))"

definition vm_gpu_main :: "'w sensors \<Rightarrow> ('w, int) py" where
  "vm_gpu_main m =
     py_bind (list_running_vms m) (\<lambda>vms. py_bind (py_fold (vm_samples m) vms []) (\<lambda>samples.
       py_seq (replace_metrics m ''.vm_gpu.'' VM_GPU_OUT (body (vm_gpu_lines m samples))) (py_return 0)))"

section \<open>Lines read back\<close>

text \<open>A reader of the exposition format: a label value ends at the first quote that is not escaped.\<close>

fun read_label :: "string \<Rightarrow> (string \<times> string) option" where
  "read_label [] = None"
| "read_label (c # r) =
     (if c = CHR 0x22 then Some ([], r)
      else if c = CHR 0x5C then (case r of [] \<Rightarrow> None | d # r' \<Rightarrow> map_option (apfst (Cons d)) (read_label r'))
      else map_option (apfst (Cons c)) (read_label r))"

lemma read_label_esc: "read_label (esc v @ CHR 0x22 # rest) = Some (v, rest)"
  by (induction v) (auto simp: esc_def)

lemma read_label_shorter: "read_label t = Some (v, r) \<Longrightarrow> length r < length t"
  by (induction t arbitrary: v r rule: read_label.induct) (auto split: if_splits list.splits, fastforce+)

function read_labels :: "string \<Rightarrow> ((string \<times> string) list \<times> string) option" where
  "read_labels t =
     (case dropWhile (\<lambda>c. c \<noteq> CHR ''='') t of
        _ # _ # r \<Rightarrow> (case read_label r of
          Some (v, c # r') \<Rightarrow>
            if c = CHR '','' then map_option (apfst (Cons (takeWhile (\<lambda>c. c \<noteq> CHR ''='') t, v))) (read_labels r')
            else if c = CHR ''}'' then Some ([(takeWhile (\<lambda>c. c \<noteq> CHR ''='') t, v)], r') else None
        | _ \<Rightarrow> None)
      | _ \<Rightarrow> None)"
  by pat_completeness auto
termination
proof (relation "measure length", goal_cases)
  case (2 t x xs y r b v c r')
  have "length (dropWhile (\<lambda>c. c \<noteq> CHR ''='') t) \<le> length t" by (rule length_dropWhile_le)
  with 2 show ?case by (auto dest!: read_label_shorter)
qed simp

definition read_metric :: "string \<Rightarrow> (string \<times> (string \<times> string) list \<times> string) option" where
  "read_metric line =
     (case dropWhile (\<lambda>c. c \<noteq> CHR ''{'') line of
        _ # r \<Rightarrow> (case read_labels r of Some (ls, _ # v) \<Rightarrow> Some (takeWhile (\<lambda>c. c \<noteq> CHR ''{'') line, ls, v) | _ \<Rightarrow> None)
      | [] \<Rightarrow> None)"

declare read_labels.simps [simp del]

lemma cut_at: "x \<notin> set k \<Longrightarrow> takeWhile (\<lambda>c. c \<noteq> x) (k @ x # r) = k" "x \<notin> set k \<Longrightarrow> dropWhile (\<lambda>c. c \<noteq> x) (k @ x # r) = x # r"
  by (induction k) auto

lemma read_labels_step:
  assumes "CHR ''='' \<notin> set k"
  shows "read_labels (label (k, v) @ c # rest) =
    (if c = CHR '','' then map_option (apfst (Cons (k, v))) (read_labels rest) else if c = CHR ''}'' then Some ([(k, v)], rest) else None)"
proof -
  let ?t = "label (k, v) @ c # rest"
  have t: "?t = k @ CHR ''='' # CHR 0x22 # esc v @ CHR 0x22 # c # rest" by (simp add: label_def)
  have parts: "takeWhile (\<lambda>c. c \<noteq> CHR ''='') ?t = k" "dropWhile (\<lambda>c. c \<noteq> CHR ''='') ?t = CHR ''='' # CHR 0x22 # esc v @ CHR 0x22 # c # rest"
    unfolding t by (rule cut_at(1) [OF assms], rule cut_at(2) [OF assms])
  show ?thesis unfolding read_labels.simps [of ?t] parts by (simp add: read_label_esc)
qed

lemma read_labels_join:
  "ls \<noteq> [] \<Longrightarrow> \<forall>l\<in>set ls. CHR ''='' \<notin> set (fst l) \<Longrightarrow> read_labels (join '','' (map label ls) @ CHR ''}'' # rest) = Some (ls, rest)"
proof (induction ls rule: list_nonempty_induct)
  case (single l)
  then show ?case using read_labels_step [of "fst l" "snd l" "CHR ''}''" rest] by simp
next
  case (cons l ls)
  then have "join '','' (map label (l # ls)) @ CHR ''}'' # rest = label (fst l, snd l) @ CHR '','' # (join '','' (map label ls) @ CHR ''}'' # rest)"
    by (cases ls) auto
  then show ?case using read_labels_step [of "fst l" "snd l" "CHR '',''"] cons by simp
qed

text \<open>A line of metrics reads back as its name, its labels and its value, whatever quotes and backslashes the labels hold: two sensors
  never become one.\<close>

theorem metric_reads_back:
  assumes "CHR ''{'' \<notin> set name" "labels \<noteq> []" "\<forall>l\<in>set labels. CHR ''='' \<notin> set (fst l)"
  shows "read_metric (prom_metric m name labels v) = Some (name, labels, sn_print m v)"
proof -
  let ?rest = "join '','' (map label labels) @ CHR ''}'' # CHR '' '' # sn_print m v"
  have line: "prom_metric m name labels v = name @ CHR ''{'' # ?rest" by (simp add: prom_metric_def)
  have "takeWhile (\<lambda>c. c \<noteq> CHR ''{'') (name @ CHR ''{'' # ?rest) = name" "dropWhile (\<lambda>c. c \<noteq> CHR ''{'') (name @ CHR ''{'' # ?rest) = CHR ''{'' # ?rest"
    by (rule cut_at(1) [OF assms(1)], rule cut_at(2) [OF assms(1)])
  then show ?thesis unfolding line read_metric_def using read_labels_join [OF assms(2,3)] by simp
qed

section \<open>What is relied on\<close>

text \<open>All files but the target and temporary ones are as before.\<close>

definition same_but_tmp :: "string \<Rightarrow> (string \<Rightarrow> string option) \<Rightarrow> string \<Rightarrow> (string \<Rightarrow> string option) \<Rightarrow> bool" where
  "same_but_tmp p d out d' = (\<forall>q. q \<noteq> out \<longrightarrow> \<not> startswith q (EXPORTER_DIR @ ''/'' @ p) \<longrightarrow> d' q = d q)"

locale sensor_env =
  fixes m :: "'w sensors"
    and disk :: "'w \<Rightarrow> string \<Rightarrow> string option"
  assumes quiet: "leaves disk (sn_run m cmd)" "leaves disk (sn_glob m p)" "leaves disk (sn_open m p)" "leaves disk (sn_query m p q)"
      "leaves disk (sn_sleep m)" "leaves disk (sn_chmod m p n)"
    and mkstemp: "sn_mkstemp m p x s = (r, s') \<Longrightarrow>
      (case r of Inr t \<Rightarrow> startswith t (EXPORTER_DIR @ ''/'' @ p) \<and> (\<forall>q. q \<noteq> t \<longrightarrow> disk s' q = disk s q) | Inl _ \<Rightarrow> disk s' = disk s)"
    and writes: "sn_write m t c s = (r', s') \<Longrightarrow> (\<forall>q. q \<noteq> t \<longrightarrow> disk s' q = disk s q) \<and> (\<not> isl r' \<longrightarrow> disk s' t = Some c)"
    and renames: "sn_rename m t u s = (r', s') \<Longrightarrow> disk s' = (if isl r' then disk s else (disk s)(t := None, u := disk s t))"
    and unlinks: "sn_unlink m t s = (r', s') \<Longrightarrow> (\<forall>q. q \<noteq> t \<longrightarrow> disk s' q = disk s q)"
begin

lemma same_tmp_step:
  assumes "same_but_tmp p d out (disk w)" "startswith t (EXPORTER_DIR @ ''/'' @ p)" "\<forall>q. q \<noteq> t \<longrightarrow> disk w' q = disk w q"
  shows "same_but_tmp p d out (disk w')"
  using assms unfolding same_but_tmp_def by metis

lemma wp_replace:
  assumes "\<not> startswith out (EXPORTER_DIR @ ''/'' @ p)"
  shows "wp (replace_metrics m p out c) (\<lambda>_ w. disk w out = Some c \<and> same_but_tmp p (disk s) out (disk w))
     (\<lambda>_ w. disk w out = disk s out \<and> same_but_tmp p (disk s) out (disk w)) s"
proof -
  let ?E = "\<lambda>w. disk w out = disk s out \<and> same_but_tmp p (disk s) out (disk w)" and ?Q = "\<lambda>w. disk w out = Some c \<and> same_but_tmp p (disk s) out (disk w)"
  have steps: "wp (py_try (py_seq (sn_write m t c) (py_seq (sn_chmod m t 420) (sn_rename m t out)))
      (\<lambda>x. py_seq (py_try (sn_unlink m t) (\<lambda>y. if y = OSError then py_return () else py_raise y)) (py_raise x))) (\<lambda>_. ?Q) (\<lambda>_. ?E) w"
    if t: "startswith t (EXPORTER_DIR @ ''/'' @ p)" and w: "?E w" for t w
  proof -
    have out: "out \<noteq> t" using assms t by auto
    have clean: "wp (py_seq (py_try (sn_unlink m t) (\<lambda>y. if y = OSError then py_return () else py_raise y)) (py_raise x)) (\<lambda>_. ?Q) (\<lambda>_. ?E) w'" if "?E w'" for x w'
    proof -
      have "wp (sn_unlink m t) (\<lambda>_. ?E) (\<lambda>_. ?E) w'"
        using unlinks [of t w'] that out same_tmp_step [OF _ t, of "disk s" out w'] by (auto simp: wp_def split: prod.splits sum.splits)
      then show ?thesis unfolding wp_seq wp_try wp_raise by (rule wp_mono) (auto simp: wp_return wp_raise)
    qed
    have wr: "wp (sn_write m t c) (\<lambda>_ w'. ?E w' \<and> disk w' t = Some c) (\<lambda>_. ?E) w"
      using writes [of t c w] w out same_tmp_step [OF _ t, of "disk s" out w] by (auto simp: wp_def split: prod.splits sum.splits)
    have ch: "wp (sn_chmod m t 420) (\<lambda>_ w'. ?E w' \<and> disk w' t = Some c) (\<lambda>_. ?E) w'" if "?E w' \<and> disk w' t = Some c" for w'
      by (rule wp_leaves [OF quiet(6)]) (use that in \<open>auto simp: same_but_tmp_def\<close>)
    have rn: "wp (sn_rename m t out) (\<lambda>_. ?Q) (\<lambda>_. ?E) w'" if "?E w' \<and> disk w' t = Some c" for w'
      using renames [of t out w'] that t by (auto simp: wp_def same_but_tmp_def split: prod.splits sum.splits)
    have "wp (py_seq (sn_write m t c) (py_seq (sn_chmod m t 420) (sn_rename m t out))) (\<lambda>_. ?Q) (\<lambda>_. ?E) w"
      unfolding wp_seq by (rule wp_mono [OF wr], rule wp_mono [OF ch], assumption, erule rn)
    then show ?thesis unfolding wp_try by (rule wp_mono) (blast intro: clean)+
  qed
  have "wp (sn_mkstemp m p ''.prom'') (\<lambda>t w. startswith t (EXPORTER_DIR @ ''/'' @ p) \<and> ?E w) (\<lambda>_. ?E) s"
  proof -
    obtain r s' where run: "sn_mkstemp m p ''.prom'' s = (r, s')" by (metis surj_pair)
    have here: "same_but_tmp p (disk s) out (disk s)" by (simp add: same_but_tmp_def)
    show ?thesis
    proof (cases r)
      case (Inr t)
      with mkstemp [OF run] have t: "startswith t (EXPORTER_DIR @ ''/'' @ p)" and same: "\<forall>q. q \<noteq> t \<longrightarrow> disk s' q = disk s q" by simp_all
      with same_tmp_step [OF here t same] assms run Inr show ?thesis by (auto simp: wp_def)
    qed (use mkstemp [OF run] run in \<open>simp add: wp_def same_but_tmp_def\<close>)
  qed
  then show ?thesis unfolding replace_metrics_def wp_bind by (rule wp_mono) (auto intro!: steps)
qed

lemma keeps_still: "leaves disk c \<Longrightarrow> keeps (\<lambda>w. disk w = d) c"
  by (rule keepsI, erule wp_leaves) auto

lemmas keeps_tools = quiet [THEN keeps_still]

lemma keeps_reader: "keeps (\<lambda>w. disk w = d) (comino_reader m dev n)"
  by (induction n) (auto simp: comino_channel_labels_def Let_def intro!: keeps_intros keeps_tools split: option.splits)

lemma keeps_select: "keeps (\<lambda>w. disk w = d) (select_comino_device (\<lambda>dev. comino_reader m dev n) devs)"
  by (induction devs) (auto intro!: keeps_intros keeps_reader split: option.splits)

lemma keeps_collect:
  "keeps (\<lambda>w. disk w = d) (collect_ipmi m)" "keeps (\<lambda>w. disk w = d) (collect_nvidia m)" "keeps (\<lambda>w. disk w = d) (collect_comino m)"
  unfolding collect_ipmi_def collect_nvidia_def collect_comino_def by (auto intro!: keeps_intros keeps_tools keeps_select)

lemma wp_read:
  assumes "keeps (\<lambda>w. disk w = d) c" "disk s = d" "\<And>x s'. c s = (Inr x, s') \<Longrightarrow> disk s' = d \<Longrightarrow> wp (f x) Q E s'" "\<And>x s'. disk s' = d \<Longrightarrow> E x s'"
  shows "wp (py_bind c f) Q E s"
  using assms(3,4) keeps_run [OF assms(1,2)] by (auto simp: wp_bind wp_def split: prod.splits sum.splits)

lemma wp_publish:
  assumes "disk s = d" "\<not> startswith out (EXPORTER_DIR @ ''/'' @ p)"
  shows "wp (py_seq (replace_metrics m p out c) (py_return 0)) (\<lambda>r w. r = (0 :: int) \<and> disk w out = Some c \<and> same_but_tmp p d out (disk w))
     (\<lambda>_ w. disk w out = d out \<and> same_but_tmp p d out (disk w)) s"
  unfolding wp_seq wp_return by (rule wp_mono [OF wp_replace [OF assms(2)]]) (simp_all add: assms(1))

lemma outs_apart: "\<not> startswith TEMPS_OUT (EXPORTER_DIR @ ''/'' @ ''.temps.'')" "\<not> startswith VM_GPU_OUT (EXPORTER_DIR @ ''/'' @ ''.vm_gpu.'')"
  by (simp_all add: startswith_def TEMPS_OUT_def VM_GPU_OUT_def EXPORTER_DIR_def)

lemma same_here: "disk w = d \<Longrightarrow> same_but_tmp p d out (disk w)"
  by (simp add: same_but_tmp_def)

lemma wp_temps_main:
  "wp (temps_main m)
     (\<lambda>r w. r = 0 \<and> (\<exists>ipmi gpus temps fans. disk w TEMPS_OUT = Some (body (temps_lines m ipmi gpus temps fans))) \<and> same_but_tmp ''.temps.'' (disk s) TEMPS_OUT (disk w))
     (\<lambda>_ w. disk w TEMPS_OUT = disk s TEMPS_OUT \<and> same_but_tmp ''.temps.'' (disk s) TEMPS_OUT (disk w)) s"
  unfolding temps_main_def write_prom_def
  by (rule wp_read [OF keeps_collect(1) refl], rule wp_read [OF keeps_collect(2)], assumption, rule wp_read [OF keeps_collect(3)], assumption, unfold split_beta)
    (auto simp: same_here intro!: wp_mono [OF wp_publish [OF _ outs_apart(1)]])

lemma wp_vm_samples:
  assumes run: "\<And>cmd s. \<exists>s'. sn_run m cmd s = (Inr (f cmd), s')" and "disk s = d"
  shows "wp (py_fold (vm_samples m) (map JStr names) acc)
     (\<lambda>r w. disk w = d \<and> r = acc @ concat (map (\<lambda>n. map (Pair n) (vm_gpus_in m (f (vm_command n)))) names)) (\<lambda>_ _. False) s"
  using assms(2)
proof (induction names arbitrary: acc s)
  case (Cons n names)
  obtain s' where s': "sn_run m (vm_command n) s = (Inr (f (vm_command n)), s')" using run by blast
  then have "disk s' = d" using leavesD [OF quiet(1)] Cons.prems by metis
  moreover have "py_fold (vm_samples m) (map JStr (n # names)) acc s
      = py_fold (vm_samples m) (map JStr names) (acc @ map (Pair n) (vm_gpus_in m (f (vm_command n)))) s'"
    using s' by (simp add: vm_samples_def query_vm_def py_defs)
  ultimately show ?case using Cons.IH [of s' "acc @ map (Pair n) (vm_gpus_in m (f (vm_command n)))"] by (simp add: wp_def)
qed (simp add: wp_return)

lemma wp_vm_gpu_main:
  assumes run: "\<And>cmd s. \<exists>s'. sn_run m cmd s = (Inr (f cmd), s')"
    and vms: "f [''incus'', ''list'', ''--format=json'', ''type=virtual-machine''] = Ran p" "pr_rc p = 0" "sn_loads m (pr_out p) = Inr j"
      "running_names j = Inr (map JStr names)"
  shows "wp (vm_gpu_main m)
     (\<lambda>r w. r = 0 \<and> disk w VM_GPU_OUT = Some (body (vm_gpu_lines m (concat (map (\<lambda>n. map (Pair n) (vm_gpus_in m (f (vm_command n)))) names))))
        \<and> same_but_tmp ''.vm_gpu.'' (disk s) VM_GPU_OUT (disk w))
     (\<lambda>_ w. disk w VM_GPU_OUT = disk s VM_GPU_OUT \<and> same_but_tmp ''.vm_gpu.'' (disk s) VM_GPU_OUT (disk w)) s"
proof -
  obtain s' where s': "sn_run m [''incus'', ''list'', ''--format=json'', ''type=virtual-machine''] s = (Inr (Ran p), s')" using run vms(1) by metis
  then have d: "disk s' = disk s" using leavesD [OF quiet(1)] by metis
  have list: "list_running_vms m s = (Inr (map JStr names), s')" using s' vms by (simp add: list_running_vms_def py_defs)
  have "wp (py_bind (py_fold (vm_samples m) (map JStr names) []) (\<lambda>samples.
       py_seq (replace_metrics m ''.vm_gpu.'' VM_GPU_OUT (body (vm_gpu_lines m samples))) (py_return 0)))
     (\<lambda>r w. r = (0 :: int) \<and> disk w VM_GPU_OUT = Some (body (vm_gpu_lines m (concat (map (\<lambda>n. map (Pair n) (vm_gpus_in m (f (vm_command n)))) names))))
        \<and> same_but_tmp ''.vm_gpu.'' (disk s) VM_GPU_OUT (disk w))
     (\<lambda>_ w. disk w VM_GPU_OUT = disk s VM_GPU_OUT \<and> same_but_tmp ''.vm_gpu.'' (disk s) VM_GPU_OUT (disk w)) s'"
    unfolding wp_bind by (rule wp_mono [OF wp_vm_samples [OF run d]]) (auto intro!: wp_mono [OF wp_publish [OF _ outs_apart(2)]])
  then show ?thesis unfolding vm_gpu_main_def using list by (simp add: wp_def py_bind_def)
qed

end

text \<open>A run of the temperature collector that returns has replaced the file by a complete one; one that fails leaves the old file.
  No file is touched but this one and temporary ones.\<close>

theorem temps_replaced_whole:
  assumes "sensor_env m disk" "temps_main m s = (r, s')"
  shows "same_but_tmp ''.temps.'' (disk s) TEMPS_OUT (disk s')
     \<and> (if isl r then disk s' TEMPS_OUT = disk s TEMPS_OUT
        else \<exists>ipmi gpus temps fans. disk s' TEMPS_OUT = Some (body (temps_lines m ipmi gpus temps fans)))"
  using sensor_env.wp_temps_main [OF assms(1), of s] assms(2) by (auto simp: wp_def split: sum.splits)

text \<open>With tools that answer as \<open>f\<close> says, the collector for VMs publishes what each running VM answered, whatever the others did:
  one that hangs, fails or has no GPU adds nothing and stops nothing.\<close>

theorem vm_gpus_published:
  assumes "sensor_env m disk" "\<And>cmd s. \<exists>s'. sn_run m cmd s = (Inr (f cmd), s')"
    and "f [''incus'', ''list'', ''--format=json'', ''type=virtual-machine''] = Ran p" "pr_rc p = 0" "sn_loads m (pr_out p) = Inr j"
      "running_names j = Inr (map JStr names)"
    and "vm_gpu_main m s = (r, s')"
  shows "same_but_tmp ''.vm_gpu.'' (disk s) VM_GPU_OUT (disk s')
     \<and> disk s' VM_GPU_OUT = (if isl r then disk s VM_GPU_OUT
          else Some (body (vm_gpu_lines m (concat (map (\<lambda>n. map (Pair n) (vm_gpus_in m (f (vm_command n)))) names)))))"
  using sensor_env.wp_vm_gpu_main [OF assms(1-6), of s] assms(7) by (auto simp: wp_def split: sum.splits)

section \<open>A machine in memory\<close>

type_synonym snfiles = "(string \<times> string) list"

definition sn_reads :: "string \<Rightarrow> pyfloat option" where
  "sn_reads t = map_option (Fin \<circ> of_int) (py_int t)"

definition sn_prints :: "pyfloat \<Rightarrow> string" where
  "sn_prints v = (case v of Fin _ \<Rightarrow> ''1.0'' | PosInf \<Rightarrow> ''inf'' | NegInf \<Rightarrow> ''-inf'' | NaN \<Rightarrow> ''nan'')"

text \<open>VM \<open>a\<close> hangs, VM \<open>b\<close> answers with one GPU; renaming fails when asked to.\<close>

definition sn_answer :: "string list \<Rightarrow> ran" where
  "sn_answer cmd =
     (if cmd = [''incus'', ''list'', ''--format=json'', ''type=virtual-machine''] then Ran \<lparr>pr_rc = 0, pr_out = ''ab'', pr_err = []\<rparr>
      else if cmd = vm_command ''a'' then TimedOut
      else if cmd = vm_command ''b'' then Ran \<lparr>pr_rc = 0, pr_out = ''0, 01:00.0, GPU, 50, 10, 2, 4, 61, 300'', pr_err = []\<rparr>
      else NotFound)"

definition sn_machine :: "bool \<Rightarrow> snfiles sensors" where
  "sn_machine stuck = \<lparr>sn_run = (\<lambda>cmd. py_return (sn_answer cmd)), sn_float = sn_reads, sn_print = sn_prints,
     sn_loads = (\<lambda>t. Inr (JList (map (\<lambda>c. JObj [(''name'', JStr [c]), (''status'', JStr ''Running'')]) t))), sn_pyserial = False,
     sn_glob = (\<lambda>_. py_return []), sn_open = (\<lambda>_. py_raise OSError), sn_query = (\<lambda>_ _. py_raise OSError), sn_sleep = py_return (),
     sn_mkstemp = (\<lambda>p x. py_return (EXPORTER_DIR @ ''/'' @ p @ ''1'' @ x)), sn_write = (\<lambda>t c. py_modify (AList.update t c)),
     sn_chmod = (\<lambda>_ _. py_return ()),
     sn_rename = (\<lambda>t u. if stuck then py_raise OSError else py_modify (\<lambda>d. case map_of d t of
        Some c \<Rightarrow> AList.update u c (AList.delete t d) | None \<Rightarrow> AList.delete u (AList.delete t d))),
     sn_unlink = (\<lambda>t. py_modify (AList.delete t))\<rparr>"

interpretation snm: sensor_env "sn_machine stuck" map_of for stuck
  by (unfold_locales; cases stuck) (auto simp: sn_machine_def leaves_def py_defs update_conv' delete_conv' startswith_def fun_eq_iff split: option.splits)

theorem metric_reads_back_witness:
  "read_metric (prom_metric (sn_machine False) ''t'' [(''sensor'', [CHR 0x22, CHR 0x5C, CHR ''}''])] (Fin 1)) = Some (''t'', [(''sensor'', [CHR 0x22, CHR 0x5C, CHR ''}''])], ''1.0'')"
proof -
  have "sn_print (sn_machine False) (Fin 1) = ''1.0''" by code_simp
  with metric_reads_back [of "''t''" "[(''sensor'', [CHR 0x22, CHR 0x5C, CHR ''}''])]" "sn_machine False" "Fin 1"] show ?thesis by simp
qed

theorem temps_replaced_whole_witness:
  "fst (temps_main (sn_machine True) [(TEMPS_OUT, ''old'')]) = Inl OSError \<and> map_of (snd (temps_main (sn_machine True) [(TEMPS_OUT, ''old'')])) TEMPS_OUT = Some ''old''"
proof -
  have r: "fst (temps_main (sn_machine True) [(TEMPS_OUT, ''old'')]) = Inl OSError" by code_simp
  with conjunct2 [OF temps_replaced_whole [OF snm.sensor_env_axioms [of True] prod.collapse [symmetric], of "[(TEMPS_OUT, ''old'')]"]] show ?thesis by simp
qed

theorem vm_gpus_published_witness:
  "fst (vm_gpu_main (sn_machine False) []) = Inr 0
   \<and> map_of (snd (vm_gpu_main (sn_machine False) [])) VM_GPU_OUT
     = Some (body (vm_gpu_lines (sn_machine False) [(''b'', \<lparr>g_index = ''0'', g_bus = ''01:00.0'', g_name = ''GPU'', g_temp = Fin 61, g_util = Fin 50, g_util_mem = Fin 10,
         g_used = Fin 2, g_total = Fin 4, g_power = Fin 300\<rparr>)]))"
proof -
  let ?m = "sn_machine False"
  have r: "fst (vm_gpu_main ?m []) = Inr 0" by code_simp
  have run: "\<exists>s'. sn_run ?m cmd s = (Inr (sn_answer cmd), s')" for cmd s by (simp add: sn_machine_def py_return_def)
  have gpus: "concat (map (\<lambda>n. map (Pair n) (vm_gpus_in ?m (sn_answer (vm_command n)))) [''a'', ''b''])
      = [(''b'', \<lparr>g_index = ''0'', g_bus = ''01:00.0'', g_name = ''GPU'', g_temp = Fin 61, g_util = Fin 50, g_util_mem = Fin 10, g_used = Fin 2, g_total = Fin 4, g_power = Fin 300\<rparr>)]"
    by code_simp
  have listed: "sn_loads ?m ''ab'' = Inr (JList (map (\<lambda>c. JObj [(''name'', JStr [c]), (''status'', JStr ''Running'')]) ''ab''))" by (simp add: sn_machine_def)
  have names: "running_names (JList (map (\<lambda>c. JObj [(''name'', JStr [c]), (''status'', JStr ''Running'')]) ''ab'')) = Inr (map JStr [''a'', ''b''])" by code_simp
  have "sn_answer [''incus'', ''list'', ''--format=json'', ''type=virtual-machine''] = Ran \<lparr>pr_rc = 0, pr_out = ''ab'', pr_err = []\<rparr>" by (simp add: sn_answer_def)
  from conjunct2 [OF vm_gpus_published [OF snm.sensor_env_axioms [of False] run this _ _ names prod.collapse [symmetric], of "[]"]] r listed
  show ?thesis unfolding gpus by simp
qed

end
