(* ===== verification/YNode.thy ===== *)
theory YNode
  imports YHealth
begin

text \<open>
  Two programs that run on a node: its own registration in etcd (\<open>populate_local_node.py\<close>) and the refresh of the DNS hosts
  (\<open>update_dhcp_hosts.py\<close>). What they run, read and write is the record \<open>local\<close>; the locale \<open>hosts_env\<close> states what the refresh
  relies on: the files, and the hosts that dnsmasq has loaded.
\<close>

section \<open>Registration of the node\<close>

record 'w local =
  lo_hostname :: string
  lo_now :: "('w, int) py"
  lo_run :: "string list \<Rightarrow> ('w, proc) py"
  lo_read :: "string \<Rightarrow> ('w, string) py"
  lo_fetch :: "string \<Rightarrow> ('w, int \<times> string) py"
  lo_mktemp :: "('w, string) py"
  lo_write :: "string \<Rightarrow> string \<Rightarrow> ('w, unit) py"
  lo_chmod :: "string \<Rightarrow> nat \<Rightarrow> ('w, unit) py"
  lo_exists :: "string \<Rightarrow> ('w, bool) py"
  lo_equal :: "string \<Rightarrow> string \<Rightarrow> ('w, bool) py"
  lo_cp :: "string \<Rightarrow> string \<Rightarrow> ('w, unit) py"
  lo_reload :: "('w, unit) py"
  lo_unlink :: "string \<Rightarrow> ('w, unit) py"

text \<open>The word after \<open>dev\<close>, when there is one.\<close>

definition dev_of :: "string list \<Rightarrow> string option" where
  "dev_of parts = (case dropWhile (\<lambda>w. w \<noteq> ''dev'') parts of _ # i # _ \<Rightarrow> Some i | _ \<Rightarrow> None)"

definition rstrip_colon :: "string \<Rightarrow> string" where
  "rstrip_colon t = rev (dropWhile (\<lambda>c. c = CHR '':'') (rev t))"

fun first_iface :: "string list \<Rightarrow> string option" where
  "first_iface [] = None"
| "first_iface (line # rest) =
     (if contains line ''10.''
      then (case split_ws line of
              _ # w # _ \<Rightarrow> if rstrip_colon w \<noteq> ''lo'' then Some (rstrip_colon w) else first_iface rest
            | _ \<Rightarrow> first_iface rest)
      else first_iface rest)"

definition get_primary_interface :: "'w local \<Rightarrow> ('w, string option) py" where
  "get_primary_interface l =
     py_bind (lo_run l [''ip'', ''route'', ''show'', ''default'']) (\<lambda>r.
       case dev_of (split_ws (pr_out r)) of
         Some i \<Rightarrow> py_return (Some i)
       | None \<Rightarrow> py_bind (lo_run l [''ip'', ''-4'', ''-o'', ''addr'', ''show'']) (\<lambda>r. py_return (first_iface (split_on (CHR 0x0A) (pr_out r)))))"

text \<open>The first address of the interface: the second word of the line, up to its slash.\<close>

definition inet_of :: "string list \<Rightarrow> exn + string option" where
  "inet_of lines =
     (case filter (\<lambda>l. contains l ''inet '') lines of
        [] \<Rightarrow> Inr None
      | l # _ \<Rightarrow> (case split_ws l of _ # a # _ \<Rightarrow> Inr (Some (hd (split_on (CHR ''/'') a))) | _ \<Rightarrow> Inl IndexError))"

definition local_node_type :: "string \<Rightarrow> string" where
  "local_node_type hostname =
     (case hostname of
        [] \<Rightarrow> ''unknown''
      | c # _ \<Rightarrow> if c = CHR ''s'' then ''storage'' else if c = CHR ''c'' then ''compute'' else if c = CHR ''m'' then ''macos'' else ''unknown'')"

definition local_mac :: "string \<Rightarrow> string" where
  "local_mac t = remove_char (CHR '':'') (lower (strip t))"

definition node_info :: "string \<Rightarrow> string \<Rightarrow> string \<Rightarrow> int \<Rightarrow> dict" where
  "node_info hostname mac ip now =
     [(''hostname'', JStr hostname), (''mac'', JStr mac), (''ip'', JStr ip), (''type'', JStr (local_node_type hostname)), (''allocated_at'', JStr (iso_utc now))]"

definition network_info :: "'w local \<Rightarrow> ('w, string \<times> string) py" where
  "network_info l =
     py_bind (get_primary_interface l) (\<lambda>i. case i of
       None \<Rightarrow> py_raise (RuntimeError ''Could not determine network interface'')
     | Some iface \<Rightarrow>
         if iface = [] then py_raise (RuntimeError ''Could not determine network interface'')
         else py_bind (lo_read l (''/sys/class/net/'' @ iface @ ''/address'')) (\<lambda>mac.
           py_bind (lo_run l [''ip'', ''-4'', ''addr'', ''show'', iface]) (\<lambda>r.
           py_bind (py_lift (inet_of (split_on (CHR 0x0A) (pr_out r)))) (\<lambda>ip. case ip of
             None \<Rightarrow> py_raise (RuntimeError ''Could not get IP address'')
           | Some a \<Rightarrow> if a = [] then py_raise (RuntimeError ''Could not get IP address'') else py_return (local_mac mac, a)))))"

definition get_local_info :: "'w local \<Rightarrow> ('w, dict \<times> string) py" where
  "get_local_info l =
     py_bind (py_try (network_info l) (\<lambda>_. py_raise (SystemExit 1))) (\<lambda>(mac, ip).
       py_bind (lo_now l) (\<lambda>now. py_return (node_info (lo_hostname l) mac ip now, mac)))"

definition populate_local_node :: "'w etcd3 \<Rightarrow> 'w local \<Rightarrow> ('w, unit) py" where
  "populate_local_node e l =
     py_try
       (py_seq (e_client e)
       (py_bind (get_local_info l) (\<lambda>(info, mac).
        py_bind (e_get e (BY_HOSTNAME @ lo_hostname l)) (\<lambda>existing.
        py_seq (py_when (existing = None) (e_put e (BY_HOSTNAME @ lo_hostname l) (Doc info)))
          (e_put e (BY_MAC @ mac) (Doc info))))))
       (\<lambda>_. py_raise (SystemExit 1))"

section \<open>The DNS hosts\<close>

definition HOSTS_FILE :: string where
  "HOSTS_FILE = ''/etc/static-hosts''"

definition install_hosts :: "'w local \<Rightarrow> string \<Rightarrow> ('w, unit) py" where
  "install_hosts l tmp =
     py_bind (lo_exists l HOSTS_FILE) (\<lambda>there.
     py_bind (if there then lo_equal l tmp HOSTS_FILE else py_return False) (\<lambda>same.
       if \<not> there \<or> \<not> same then py_seq (lo_cp l tmp HOSTS_FILE) (lo_reload l) else py_return ()))"

definition update_dhcp_hosts :: "'w local \<Rightarrow> ('w, unit) py" where
  "update_dhcp_hosts l =
     py_try
       (py_bind (lo_fetch l ''http://localhost:12723/api/hosts'') (\<lambda>(code, body).
          if 400 \<le> code \<and> code < 600 then py_raise ConnectionError
          else if strip body = [] then py_return ()
          else py_bind (lo_mktemp l) (\<lambda>tmp.
            py_seq (lo_write l tmp body)
            (py_seq (lo_chmod l tmp 420)
              (py_finally (install_hosts l tmp) (lo_unlink l tmp))))))
       (\<lambda>_. py_raise (SystemExit 1))"

section \<open>What a registration does\<close>

text \<open>The registry after it: the new document under the MAC address, and under the host name where there was none.\<close>

definition registered :: "store \<Rightarrow> string \<Rightarrow> string \<Rightarrow> dict \<Rightarrow> store \<Rightarrow> bool" where
  "registered c h m d c' =
     (doc_has d m h \<and> holds_doc c' (BY_MAC @ m) d \<and> (if c (BY_HOSTNAME @ h) = None then holds_doc c' (BY_HOSTNAME @ h) d else c' (BY_HOSTNAME @ h) = c (BY_HOSTNAME @ h))
        \<and> (\<forall>k. k \<notin> {BY_MAC @ m, BY_HOSTNAME @ h} \<longrightarrow> c' k = c k))"

lemma registered_fresh:
  assumes "reg_inv c" "registered c h m d c'" "c (BY_HOSTNAME @ h) = None" "c (BY_MAC @ m) = None"
  shows "reg_inv c'"
proof -
  let ?new = "\<lambda>k. k = BY_MAC @ m \<or> k = BY_HOSTNAME @ h"
  have d: "doc_has d m h" "holds_doc c' (BY_MAC @ m) d" "holds_doc c' (BY_HOSTNAME @ h) d" using assms(2,3) by (simp_all add: registered_def)
  have same: "holds_doc c' k x \<longleftrightarrow> holds_doc c k x" "c' k = c k" if "\<not> ?new k" for k x
    using assms(2) that by (auto simp: registered_def holds_doc_def)
  have old: "\<not> ?new k" if "holds_doc c k x" for k x using assms(3,4) that by (auto simp: holds_doc_def)
  show ?thesis
  proof (rule reg_invI)
    fix m' x assume x: "c' (BY_MAC @ m') = Some x"
    show "\<exists>d h. holds_doc c' (BY_MAC @ m') d \<and> doc_has d m' h \<and> holds_doc c' (BY_HOSTNAME @ h) d"
    proof (cases "m' = m")
      case False
      then have "c (BY_MAC @ m') = Some x" using x same(2) [of "BY_MAC @ m'"] by simp
      with assms(1) obtain d0 h0 where "holds_doc c (BY_MAC @ m') d0" "doc_has d0 m' h0" "holds_doc c (BY_HOSTNAME @ h0) d0"
        unfolding reg_inv_def by blast
      with same(1) old show ?thesis by blast
    qed (use d in blast)
  next
    fix h' x assume x: "c' (BY_HOSTNAME @ h') = Some x"
    show "\<exists>d m. holds_doc c' (BY_HOSTNAME @ h') d \<and> doc_has d m h' \<and> holds_doc c' (BY_MAC @ m) d"
    proof (cases "h' = h")
      case False
      then have "c (BY_HOSTNAME @ h') = Some x" using x same(2) [of "BY_HOSTNAME @ h'"] by simp
      with assms(1) obtain d0 m0 where "holds_doc c (BY_HOSTNAME @ h') d0" "doc_has d0 m0 h'" "holds_doc c (BY_MAC @ m0) d0"
        unfolding reg_inv_def by blast
      with same(1) old show ?thesis by blast
    qed (use d in blast)
  qed
qed

locale local_env = etcd_seq e view for e :: "'w etcd3" and view :: "'w \<Rightarrow> store" +
  fixes l :: "'w local"
  assumes local_quiet: "leaves view (lo_now l)" "leaves view (lo_run l cmd)" "leaves view (lo_read l p)"
begin

lemma keeps_view: "leaves view c \<Longrightarrow> keeps (\<lambda>w. view w = d) c"
  by (rule keepsI, erule wp_leaves) auto

lemma keeps_local_info: "keeps (\<lambda>w. view w = d) (network_info l)" "keeps (\<lambda>w. view w = d) (get_local_info l)"
proof -
  show net: "keeps (\<lambda>w. view w = d) (network_info l)"
    unfolding network_info_def get_primary_interface_def by (auto intro!: keeps_intros local_quiet [THEN keeps_view] split: option.splits)
  show "keeps (\<lambda>w. view w = d) (get_local_info l)"
    unfolding get_local_info_def by (auto intro!: keeps_intros local_quiet [THEN keeps_view] net split: prod.splits)
qed

lemma wp_local_info:
  assumes "\<And>d m s'. view s' = view s \<Longrightarrow> doc_has d m (lo_hostname l) \<Longrightarrow> Q (d, m) s'" "\<And>x s'. view s' = view s \<Longrightarrow> E x s'"
  shows "wp (get_local_info l) Q E s"
proof -
  obtain r s' where run: "get_local_info l s = (r, s')" by (metis surj_pair)
  have "view s' = view s" by (rule keeps_run [OF keeps_local_info(2) refl run])
  moreover have "doc_has d m (lo_hostname l)" if "r = Inr (d, m)" for d m
    using run that by (auto simp: get_local_info_def py_defs node_info_def doc_has_def split: prod.splits sum.splits)
  ultimately show ?thesis using assms run by (cases r) (auto simp: wp_def)
qed

lemma wp_populate:
  "wp (populate_local_node e l) (\<lambda>_ w. \<exists>m d. registered (view s) (lo_hostname l) m d (view w)) (\<lambda>x w. x = SystemExit 1 \<and> view w = view s) s"
proof -
  let ?h = "BY_HOSTNAME @ lo_hostname l"
  have stored: "wp (py_seq (py_when (x = None) (e_put e ?h (Doc d))) (e_put e (BY_MAC @ m) (Doc d)))
      (\<lambda>_ w. \<exists>m d. registered (view s) (lo_hostname l) m d (view w)) E w"
    if "view w = view s" "x = view s ?h" "doc_has d m (lo_hostname l)" for x d m w E
  proof (cases "x = None")
    case True
    with that show ?thesis unfolding wp_seq wp_when
      by simp (rule wp_put_seq, rule wp_put_seq, rule exI [of _ m], rule exI [of _ d], auto simp: registered_def holds_doc_def)
  next
    case False
    have "wp (e_put e (BY_MAC @ m) (Doc d)) (\<lambda>_ w. \<exists>m d. registered (view s) (lo_hostname l) m d (view w)) E w"
      by (rule wp_put_seq, rule exI [of _ m], rule exI [of _ d]) (use that False in \<open>auto simp: registered_def holds_doc_def\<close>)
    with False show ?thesis by (auto simp: wp_seq wp_when)
  qed
  show ?thesis unfolding populate_local_node_def wp_try wp_seq [of "e_client e"] wp_bind wp_raise
    by (rule wp_client_seq, rule wp_local_info) (auto simp: wp_bind intro!: wp_get_seq stored)
qed

end

locale hosts_env =
  fixes l :: "'w local"
    and disk :: "'w \<Rightarrow> string \<Rightarrow> string option"
    and loaded :: "'w \<Rightarrow> string option"
  assumes still: "leaves (\<lambda>w. (disk w, loaded w)) (lo_fetch l u)" "leaves (\<lambda>w. (disk w, loaded w)) (lo_exists l p)"
      "leaves (\<lambda>w. (disk w, loaded w)) (lo_equal l p q)" "leaves (\<lambda>w. (disk w, loaded w)) (lo_chmod l p n)"
    and files_only: "leaves loaded (lo_mktemp l)" "leaves loaded (lo_write l p c)" "leaves loaded (lo_cp l p q)" "leaves loaded (lo_unlink l p)"
    and mktemp_new: "lo_mktemp l s = (Inr t, s') \<Longrightarrow> disk s t = None \<and> t \<noteq> HOSTS_FILE \<and> disk s' = (disk s)(t \<mapsto> [])"
    and write_at: "lo_write l t c s = (Inr y, s') \<Longrightarrow> disk s' = (disk s)(t \<mapsto> c)"
    and exists_at: "lo_exists l p s = (Inr b, s') \<Longrightarrow> b = (disk s p \<noteq> None)"
    and equal_at: "lo_equal l p q s = (Inr b, s') \<Longrightarrow> b = (disk s p = disk s q)"
    and copies: "lo_cp l p q s = (Inr y, s') \<Longrightarrow> disk s' = (disk s)(q := disk s p)"
    and reloads: "lo_reload l s = (Inr y, s') \<Longrightarrow> disk s' = disk s \<and> loaded s' = disk s HOSTS_FILE"
    and unlink_at: "lo_unlink l p s = (Inr y, s') \<Longrightarrow> disk s' = (disk s)(p := None)"
begin

lemma wp_on_return: "(\<And>x s'. m s = (Inr x, s') \<Longrightarrow> Q x s') \<Longrightarrow> wp m Q (\<lambda>_ _. True) s"
  by (auto simp: wp_def split: prod.splits sum.splits)

lemma wp_install:
  assumes "disk s t = Some c" "t \<noteq> HOSTS_FILE"
  shows "wp (install_hosts l t) (\<lambda>_ w. disk w = (disk s)(HOSTS_FILE \<mapsto> c) \<and> loaded w = (if disk s HOSTS_FILE = Some c then loaded s else Some c)) (\<lambda>_ _. True) s"
  (is "wp _ ?Q _ s")
proof -
  have new: "wp (py_seq (lo_cp l t HOSTS_FILE) (lo_reload l)) ?Q (\<lambda>_ _. True) w" if "disk w = disk s" "loaded w = loaded s" "disk s HOSTS_FILE \<noteq> Some c" for w
    unfolding wp_seq by (rule wp_on_return, rule wp_on_return) (use that assms in \<open>auto dest!: copies reloads\<close>)
  have kept: "?Q () w" if "disk w = disk s" "loaded w = loaded s" "disk s HOSTS_FILE = Some c" for w
    using that by auto
  show ?thesis unfolding install_hosts_def wp_bind
  proof (rule wp_on_return)
    fix there s1 assume there: "lo_exists l HOSTS_FILE s = (Inr there, s1)"
    have s1: "disk s1 = disk s" "loaded s1 = loaded s" using leavesD [OF still(2) there] by simp_all
    show "wp (if there then lo_equal l t HOSTS_FILE else py_return False)
        (\<lambda>same. wp (if \<not> there \<or> \<not> same then py_seq (lo_cp l t HOSTS_FILE) (lo_reload l) else py_return ()) ?Q (\<lambda>_ _. True)) (\<lambda>_ _. True) s1"
    proof (cases there)
      case False
      with exists_at [OF there] s1 new [of s1] show ?thesis by (simp add: wp_return)
    next
      case True
      have "wp (lo_equal l t HOSTS_FILE) (\<lambda>same. wp (if \<not> there \<or> \<not> same then py_seq (lo_cp l t HOSTS_FILE) (lo_reload l) else py_return ()) ?Q (\<lambda>_ _. True))
          (\<lambda>_ _. True) s1"
      proof (rule wp_on_return)
        fix same s2 assume eq: "lo_equal l t HOSTS_FILE s1 = (Inr same, s2)"
        have "disk s2 = disk s" "loaded s2 = loaded s" using leavesD [OF still(3) eq] s1 by simp_all
        with equal_at [OF eq] s1 assms(1) True new [of s2] kept [of s2]
        show "wp (if \<not> there \<or> \<not> same then py_seq (lo_cp l t HOSTS_FILE) (lo_reload l) else py_return ()) ?Q (\<lambda>_ _. True) s2"
          by (auto simp: wp_return)
      qed
      with True show ?thesis by simp
    qed
  qed
qed

lemma wp_update_hosts:
  assumes fetch: "lo_fetch l ''http://localhost:12723/api/hosts'' s = (Inr (code, body), s0)"
  shows "wp (update_dhcp_hosts l)
     (\<lambda>_ w. \<not> (400 \<le> code \<and> code < 600) \<and>
       (if strip body = [] then disk w = disk s \<and> loaded w = loaded s
        else disk w = (disk s)(HOSTS_FILE \<mapsto> body) \<and> loaded w = (if disk s HOSTS_FILE = Some body then loaded s else Some body)))
     (\<lambda>x _. x = SystemExit 1) s" (is "wp _ ?Q _ s")
proof -
  have s0: "disk s0 = disk s" "loaded s0 = loaded s" using leavesD [OF still(1) fetch] by simp_all
  have written: "wp (py_seq (lo_write l t body) (py_seq (lo_chmod l t 420) (py_finally (install_hosts l t) (lo_unlink l t))))
      (\<lambda>_ w. disk w = (disk s)(HOSTS_FILE \<mapsto> body) \<and> loaded w = (if disk s HOSTS_FILE = Some body then loaded s else Some body)) (\<lambda>_ _. True) s1"
    if t: "disk s t = None" "t \<noteq> HOSTS_FILE" "disk s1 = (disk s)(t \<mapsto> [])" "loaded s1 = loaded s" for t s1
    unfolding wp_seq
  proof (rule wp_on_return, rule wp_on_return)
    fix y s2 z s3 assume wr: "lo_write l t body s1 = (Inr y, s2)" and ch: "lo_chmod l t 420 s2 = (Inr z, s3)"
    have s3: "disk s3 = (disk s)(t \<mapsto> body)" "loaded s3 = loaded s"
      using write_at [OF wr] leavesD [OF files_only(2) wr] leavesD [OF still(4) ch] t(3,4) by simp_all
    have gone: "wp (lo_unlink l t) (\<lambda>_ w. disk w = (disk s)(HOSTS_FILE \<mapsto> body) \<and> loaded w = (if disk s HOSTS_FILE = Some body then loaded s else Some body)) (\<lambda>_ _. True) w"
      if "disk w = (disk s3)(HOSTS_FILE \<mapsto> body)" "loaded w = (if disk s3 HOSTS_FILE = Some body then loaded s3 else Some body)" for w
    proof (rule wp_on_return)
      fix u w' assume un: "lo_unlink l t w = (Inr u, w')"
      from unlink_at [OF un] leavesD [OF files_only(4) un] that s3 t(1,2)
      show "disk w' = (disk s)(HOSTS_FILE \<mapsto> body) \<and> loaded w' = (if disk s HOSTS_FILE = Some body then loaded s else Some body)"
        by (auto simp: fun_eq_iff)
    qed
    have inst: "wp (install_hosts l t) (\<lambda>_ w. disk w = (disk s3)(HOSTS_FILE \<mapsto> body)
        \<and> loaded w = (if disk s3 HOSTS_FILE = Some body then loaded s3 else Some body)) (\<lambda>_ _. True) s3"
      by (rule wp_install) (use s3 t(2) in simp_all)
    show "wp (py_finally (install_hosts l t) (lo_unlink l t))
        (\<lambda>_ w. disk w = (disk s)(HOSTS_FILE \<mapsto> body) \<and> loaded w = (if disk s HOSTS_FILE = Some body then loaded s else Some body)) (\<lambda>_ _. True) s3"
      unfolding wp_finally by (rule wp_mono [OF inst]) (blast intro: gone, simp add: wp_total)
  qed
  have "wp (lo_mktemp l) (\<lambda>t s1. wp (py_seq (lo_write l t body) (py_seq (lo_chmod l t 420) (py_finally (install_hosts l t) (lo_unlink l t))))
      (\<lambda>_ w. disk w = (disk s)(HOSTS_FILE \<mapsto> body) \<and> loaded w = (if disk s HOSTS_FILE = Some body then loaded s else Some body)) (\<lambda>_ _. True) s1) (\<lambda>_ _. True) s0"
    by (rule wp_on_return, rule written) (use s0 leavesD [OF files_only(1)] in \<open>auto dest!: mktemp_new\<close>)
  then show ?thesis unfolding update_dhcp_hosts_def wp_try wp_bind wp_raise
    using fetch s0 by (simp add: wp_def [of "lo_fetch l _"] wp_raise wp_return wp_bind)
qed

end

text \<open>A registration that returns has written the node under its MAC address, and under its host name where the name was free; nothing
  else changes, and of a node that was unknown the registry stays a correspondence. One that fails ends with status 1 and has
  changed nothing.\<close>

theorem node_registered:
  assumes "local_env e view l" "reg_inv (view s)" "populate_local_node e l s = (r, s')"
  shows "if isl r then r = Inl (SystemExit 1) \<and> view s' = view s
     else \<exists>m d. registered (view s) (lo_hostname l) m d (view s')
       \<and> (view s (BY_HOSTNAME @ lo_hostname l) = None \<and> view s (BY_MAC @ m) = None \<longrightarrow> reg_inv (view s'))"
  using local_env.wp_populate [OF assms(1), of s] assms(3) registered_fresh [OF assms(2)] by (auto simp: wp_def split: sum.splits)

text \<open>A refresh that returns has the answer of the API in the hosts file, unless the answer is blank; dnsmasq has loaded it when it is
  new, no temporary file is left, and no other file has changed. Every failure ends with status 1.\<close>

theorem hosts_refreshed:
  assumes "hosts_env l disk loaded" "lo_fetch l ''http://localhost:12723/api/hosts'' s = (Inr (code, body), s0)" "update_dhcp_hosts l s = (r, s')"
  shows "if isl r then r = Inl (SystemExit 1)
     else if strip body = [] then disk s' = disk s \<and> loaded s' = loaded s
     else disk s' = (disk s)(HOSTS_FILE \<mapsto> body) \<and> loaded s' = (if disk s HOSTS_FILE = Some body then loaded s else Some body)"
  using hosts_env.wp_update_hosts [OF assms(1,2)] assms(3) by (auto simp: wp_def split: sum.splits if_splits)

section \<open>A node in memory\<close>

record nworld =
  nw_kv :: mem
  nw_files :: "(string \<times> string) list"
  nw_loaded :: "string option"
  nw_broken :: bool

abbreviation nw_etcd :: "nworld etcd3" where
  "nw_etcd \<equiv> zoom_etcd nw_kv (\<lambda>k w. w\<lparr>nw_kv := k\<rparr>)"

definition nw_put :: "string \<Rightarrow> string \<Rightarrow> (nworld, unit) py" where
  "nw_put p c = py_modify (\<lambda>w. w\<lparr>nw_files := AList.update p c (nw_files w)\<rparr>)"

text \<open>A node of the given name and MAC address; the API answers \<open>body\<close>; dnsmasq does not reload while it is broken.\<close>

definition nw_local :: "string \<Rightarrow> string \<Rightarrow> string \<Rightarrow> nworld local" where
  "nw_local hostname mac body = \<lparr>lo_hostname = hostname, lo_now = py_return 0,
     lo_run = (\<lambda>cmd. py_return \<lparr>pr_rc = 0, pr_out = (if cmd = [''ip'', ''route'', ''show'', ''default''] then ''default via 10.0.0.254 dev eth0 proto dhcp''
        else ''    inet 10.0.0.11/24 scope global eth0''), pr_err = []\<rparr>),
     lo_read = (\<lambda>_. py_return mac), lo_fetch = (\<lambda>_. py_return (200, body)),
     lo_mktemp = (\<lambda>w. if map_of (nw_files w) ''/tmp/t'' = None then py_seq (nw_put ''/tmp/t'' []) (py_return ''/tmp/t'') w else py_raise OSError w),
     lo_write = nw_put, lo_chmod = (\<lambda>_ _. py_return ()), lo_exists = (\<lambda>p. py_get (\<lambda>w. map_of (nw_files w) p \<noteq> None)),
     lo_equal = (\<lambda>p q. py_get (\<lambda>w. map_of (nw_files w) p = map_of (nw_files w) q)),
     lo_cp = (\<lambda>p q w. case map_of (nw_files w) p of Some c \<Rightarrow> nw_put q c w | None \<Rightarrow> py_raise (CalledProcessError 1) w),
     lo_reload = (\<lambda>w. if nw_broken w then py_raise (CalledProcessError 1) w else py_modify (\<lambda>w. w\<lparr>nw_loaded := map_of (nw_files w) HOSTS_FILE\<rparr>) w),
     lo_unlink = (\<lambda>p. py_modify (\<lambda>w. w\<lparr>nw_files := AList.delete p (nw_files w)\<rparr>))\<rparr>"

interpretation nwm: mem_part nw_kv "\<lambda>k w. w\<lparr>nw_kv := k\<rparr>"
  by unfold_locales simp

interpretation nwl: local_env nw_etcd "\<lambda>w. mem_view (nw_kv w)" "nw_local h mac body" for h mac body
  by unfold_locales (simp_all add: nw_local_def leaves_def py_return_def)

interpretation nwh: hosts_env "nw_local h mac body" "\<lambda>w. map_of (nw_files w)" nw_loaded for h mac body
  by unfold_locales
    (auto simp: nw_local_def nw_put_def leaves_def py_defs update_conv' delete_conv' HOSTS_FILE_def split: option.splits if_splits)

definition nw_start :: nworld where
  "nw_start = \<lparr>nw_kv = \<lparr>mem_data = [], mem_rev = 0\<rparr>, nw_files = [], nw_loaded = None, nw_broken = False\<rparr>"

theorem node_registered_witness:
  "doc_at (mem_view (nw_kv (snd (populate_local_node nw_etcd (nw_local ''s1'' ''AA:BB:CC:00:11:22'' []) nw_start)))) (BY_MAC @ ''aabbcc001122'')
     = Some (node_info ''s1'' ''aabbcc001122'' ''10.0.0.11'' 0)
   \<and> (\<exists>m d. registered (mem_view (nw_kv nw_start)) ''s1'' m d (mem_view (nw_kv (snd (populate_local_node nw_etcd (nw_local ''s1'' ''AA:BB:CC:00:11:22'' []) nw_start)))))"
proof
  let ?l = "nw_local ''s1'' ''AA:BB:CC:00:11:22'' []"
  show "doc_at (mem_view (nw_kv (snd (populate_local_node nw_etcd ?l nw_start)))) (BY_MAC @ ''aabbcc001122'') = Some (node_info ''s1'' ''aabbcc001122'' ''10.0.0.11'' 0)"
    by code_simp
  have "\<not> isl (fst (populate_local_node nw_etcd ?l nw_start))" by code_simp
  moreover have "reg_inv (mem_view (nw_kv nw_start))" by (simp add: nw_start_def mem_view_def reg_inv_def)
  moreover have "lo_hostname ?l = ''s1''" by (simp add: nw_local_def)
  ultimately show "\<exists>m d. registered (mem_view (nw_kv nw_start)) ''s1'' m d (mem_view (nw_kv (snd (populate_local_node nw_etcd ?l nw_start))))"
    using node_registered [OF nwl.local_env_axioms [of "''s1''" "''AA:BB:CC:00:11:22''" "[]"] _ prod.collapse [symmetric], of nw_start] by auto
qed

theorem hosts_refreshed_witness:
  "map_of (nw_files (snd (update_dhcp_hosts (nw_local ''s1'' [] ''10.0.0.11 s1'') nw_start))) = [HOSTS_FILE \<mapsto> ''10.0.0.11 s1'']
   \<and> nw_loaded (snd (update_dhcp_hosts (nw_local ''s1'' [] ''10.0.0.11 s1'') nw_start)) = Some ''10.0.0.11 s1''"
proof -
  let ?l = "nw_local ''s1'' [] ''10.0.0.11 s1''"
  have r: "fst (update_dhcp_hosts ?l nw_start) = Inr ()" "strip ''10.0.0.11 s1'' \<noteq> []" by code_simp+
  have "lo_fetch ?l ''http://localhost:12723/api/hosts'' nw_start = (Inr (200, ''10.0.0.11 s1''), nw_start)" by (simp add: nw_local_def py_return_def)
  from hosts_refreshed [OF nwh.hosts_env_axioms this prod.collapse [symmetric]] r show ?thesis by (simp add: nw_start_def)
qed

section \<open>Findings\<close>

text \<open>Registering a node again writes a fresh document under its MAC address only: what an admin had stored about the node, here that it
  is disabled, is lost in one of the two copies.\<close>

definition nw_disabled :: nworld where
  "nw_disabled = nw_start\<lparr>nw_kv := \<lparr>mem_data = map (\<lambda>k. (k, Doc (node_info ''s1'' ''aabbcc001122'' ''10.0.0.11'' 0 @ [(''disabled'', JBool True)]), 1))
     [BY_MAC @ ''aabbcc001122'', BY_HOSTNAME @ ''s1''], mem_rev = 1\<rparr>\<rparr>"

theorem registering_again_splits_node:
  "let c = mem_view (nw_kv (snd (populate_local_node nw_etcd (nw_local ''s1'' ''AA:BB:CC:00:11:22'' []) nw_disabled))) in
     map (\<lambda>k. map_option (\<lambda>d. map_of d ''disabled'') (doc_at c k)) [BY_HOSTNAME @ ''s1'', BY_MAC @ ''aabbcc001122''] = [Some (Some (JBool True)), Some None]"
  by code_simp

text \<open>A machine with the name of another is registered beside it: two MAC addresses hold one name, and the name belongs to the first.\<close>

theorem name_registered_twice:
  "let c = mem_view (nw_kv (snd (populate_local_node nw_etcd (nw_local ''s1'' ''DD:EE:FF:00:11:22'' []) nw_disabled))) in
     map (\<lambda>k. map_option (\<lambda>d. (map_of d ''hostname'', map_of d ''mac'')) (doc_at c k)) [BY_MAC @ ''aabbcc001122'', BY_MAC @ ''ddeeff001122'', BY_HOSTNAME @ ''s1'']
     = [Some (Some (JStr ''s1''), Some (JStr ''aabbcc001122'')), Some (Some (JStr ''s1''), Some (JStr ''ddeeff001122'')),
        Some (Some (JStr ''s1''), Some (JStr ''aabbcc001122''))]"
  by code_simp

text \<open>The types given here are not those of the DHCP server.\<close>

theorem local_types_differ:
  "map local_node_type [''nv1'', ''nas1'', ''x1''] = [''unknown'', ''unknown'', ''unknown'']
   \<and> map determine_type_from_hostname [''nv1'', ''nas1'', ''x1''] = [''nvidia'', ''nas'', ''adhoc'']"
  by code_simp

text \<open>A reload that fails is not tried again: the next refresh finds the file unchanged and reports success, while dnsmasq still has
  the old hosts.\<close>

definition nw_failed :: nworld where
  "nw_failed = snd (update_dhcp_hosts (nw_local ''s1'' [] ''10.0.0.12 s2'') (nw_start\<lparr>nw_loaded := Some ''old'', nw_broken := True\<rparr>))"

theorem failed_reload_forgotten:
  "fst (update_dhcp_hosts (nw_local ''s1'' [] ''10.0.0.12 s2'') (nw_failed\<lparr>nw_broken := False\<rparr>)) = Inr ()
   \<and> nw_loaded (snd (update_dhcp_hosts (nw_local ''s1'' [] ''10.0.0.12 s2'') (nw_failed\<lparr>nw_broken := False\<rparr>))) = Some ''old''"
  by code_simp

end
