(* ===== verification/YCheck.thy ===== *)
theory YCheck
  imports "HOL-Library.Multiset" YCluster
begin

text \<open>
  The compact cluster check (\<open>check_cluster.py\<close>): it asks every etcd member, the admin API behind the storage address, and the DHCP
  and DNS servers of the nodes, prints a line for each part and lists the problems. Commands, requests and resolvers are the record
  \<open>checks\<close>, with the printing of a value and the order in which probes that run at the same time end. The detailed output, which
  prints the same findings, is left out.
\<close>

section \<open>What is asked\<close>

record etcd_status =
  es_leader :: nat
  es_members :: "(nat \<times> string list) list"

datatype http_answer = HttpBody int string | HttpCode int string | UrlFailed string | SocketTimeout

datatype dns_answer = DnsIp string | DnsNone | DnsNoServers string | DnsFailed string

record 'w checks =
  ck_etcdctl :: "('w, proc) py"
  ck_loads :: "string \<Rightarrow> exn + json"
  ck_etcd :: "string \<Rightarrow> int \<Rightarrow> ('w, etcd_status) py"
  ck_http :: "string \<Rightarrow> ('w, http_answer) py"
  ck_dnspython :: bool
  ck_dns :: "json \<Rightarrow> string \<Rightarrow> ('w, dns_answer) py"
  ck_done :: "nat \<Rightarrow> nat list"
  ck_str :: "json \<Rightarrow> string"
  ck_text :: "exn \<Rightarrow> string"

text \<open>Iterating a value of JSON; \<open>x in v\<close> for a string \<open>x\<close>.\<close>

fun iter_json :: "json \<Rightarrow> exn + json list" where
  "iter_json (JList xs) = Inr xs"
| "iter_json (JObj d) = Inr (map (JStr \<circ> fst) d)"
| "iter_json (JStr t) = Inr (map (\<lambda>c. JStr [c]) t)"
| "iter_json _ = Inl TypeError"

fun in_json :: "string \<Rightarrow> json \<Rightarrow> exn + bool" where
  "in_json x (JStr t) = Inr (contains t x)"
| "in_json x (JList xs) = Inr (JStr x \<in> set xs)"
| "in_json x (JObj d) = Inr (map_of d x \<noteq> None)"
| "in_json x _ = Inl TypeError"

section \<open>etcd\<close>

text \<open>\<open>url.split('://', 1)[1]\<close>.\<close>

fun url_rest :: "string \<Rightarrow> string list" where
  "url_rest [] = []"
| "url_rest (c # cs) = (if startswith (c # cs) ''://'' then [drop 3 (c # cs)] else url_rest cs)"

fun first_url :: "json list \<Rightarrow> exn + string list" where
  "first_url [] = Inr []"
| "first_url (u # us) =
     sbind (in_json ''://'' u) (\<lambda>found.
       if \<not> found then first_url us
       else (case u of JStr t \<Rightarrow> Inr (url_rest t) | _ \<Rightarrow> Inl AttributeError))"

definition member_url :: "json \<Rightarrow> exn + string list" where
  "member_url member = sbind (jget member ''clientURLs'' (JList [])) (\<lambda>urls. sbind (iter_json urls) first_url)"

definition member_urls :: "json \<Rightarrow> exn + string list" where
  "member_urls j =
     sbind (jget j ''members'' (JList [])) (\<lambda>members. sbind (iter_json members)
       (\<lambda>ms. sfold (\<lambda>m acc. map_sum id (\<lambda>us. acc @ us) (member_url m)) ms []))"

definition get_cluster_members :: "'w checks \<Rightarrow> string \<Rightarrow> ('w, string list) py" where
  "get_cluster_members k initial_host =
     py_try
       (py_bind (ck_etcdctl k) (\<lambda>r.
          if pr_rc r = 0
          then py_bind (py_lift (sbind (ck_loads k (pr_out r)) member_urls)) (\<lambda>ms. py_return (if ms = [] then [initial_host] else ms))
          else py_return [initial_host]))
       (\<lambda>_. py_return [initial_host])"

record etcd_result =
  er_host :: string
  er_healthy :: bool
  er_error :: string
  er_leader :: bool

text \<open>The number of the member that answers: the first whose addresses name the host. Number 0 counts as none.\<close>

definition current_member :: "string \<Rightarrow> (nat \<times> string list) list \<Rightarrow> nat" where
  "current_member host ms = (case filter (\<lambda>(i, urls). i \<noteq> 0 \<and> list_ex (\<lambda>u. contains u host) urls) ms of (i, _) # _ \<Rightarrow> i | [] \<Rightarrow> 0)"

definition check_etcd_host :: "'w checks \<Rightarrow> string \<Rightarrow> ('w, etcd_result) py" where
  "check_etcd_host k host_port =
     py_try
       (case split_on (CHR '':'') host_port of
          [host, port] \<Rightarrow> (case py_int port of
            Some p \<Rightarrow> py_bind (ck_etcd k host p) (\<lambda>st.
              let cur = current_member host (es_members st) in
              py_return \<lparr>er_host = host_port, er_healthy = True, er_error = [], er_leader = (cur \<noteq> 0 \<and> cur = es_leader st)\<rparr>)
          | None \<Rightarrow> py_raise (ValueError port))
        | _ \<Rightarrow> py_raise (ValueError host_port))
       (\<lambda>x. py_return \<lparr>er_host = host_port, er_healthy = False, er_error = ck_text k x, er_leader = False\<rparr>)"

text \<open>The nodes of the registry; values that are not JSON are passed over, and a failing read gives none.\<close>

fun node_values :: "blob \<Rightarrow> json list" where
  "node_values (Doc d) = [JObj d]"
| "node_values (DocList xs) = [JList xs]"
| "node_values (Text _) = []"

definition get_all_nodes :: "'w etcd3 \<Rightarrow> ('w, json list) py" where
  "get_all_nodes e =
     py_try (py_bind (e_get_prefix e BY_HOSTNAME) (\<lambda>xs. py_return (concat (map (node_values \<circ> snd) xs)))) (\<lambda>_. py_return [])"

section \<open>DHCP, DNS and the API\<close>

definition or_else :: "dict \<Rightarrow> string \<Rightarrow> string \<Rightarrow> json" where
  "or_else d key t = (case map_of d key of Some v \<Rightarrow> v | None \<Rightarrow> JStr t)"

definition check_dhcp_service_on_host :: "'w checks \<Rightarrow> string \<Rightarrow> ('w, bool \<times> string) py" where
  "check_dhcp_service_on_host k host_ip =
     py_try
       (py_bind (ck_http k (''http://'' @ host_ip @ '':8067/health'')) (\<lambda>a. case a of
          HttpBody code reply \<Rightarrow> py_bind (py_lift (sbind (ck_loads k reply) as_dict)) (\<lambda>d.
            py_return (if code = 200 \<and> map_of d ''status'' = Some (JStr ''healthy'') then (True, [])
              else (False, ''DHCP server unhealthy: '' @ ck_str k (or_else d ''status'' (''HTTP '' @ int_str code)))))
        | HttpCode code reason \<Rightarrow> py_return (False,
            if code = 404 then ''Health endpoint not found (DHCP server may not be running)'' else ''HTTP error '' @ int_str code @ '': '' @ reason)
        | UrlFailed reason \<Rightarrow> py_return (False, ''Connection failed: '' @ reason)
        | SocketTimeout \<Rightarrow> py_return (False, ''Health endpoint timeout'')))
       (\<lambda>x. py_return (False, ''Unexpected error: '' @ ck_text k x))"

record dns_result =
  dn_running :: bool
  dn_working :: bool
  dn_error :: "string option"

definition dns_down :: dns_result where
  "dns_down = \<lparr>dn_running = False, dn_working = False, dn_error = None\<rparr>"

definition dns_bad :: "string \<Rightarrow> dns_result" where
  "dns_bad msg = \<lparr>dn_running = True, dn_working = False, dn_error = Some msg\<rparr>"

definition amt_result :: "string \<Rightarrow> dns_answer \<Rightarrow> dns_result" where
  "amt_result amt a =
     (case a of
        DnsIp ip \<Rightarrow> if startswith ip ''10.10.10.'' then \<lparr>dn_running = True, dn_working = True, dn_error = None\<rparr>
          else dns_bad (''AMT hostname '' @ amt @ '' resolved to wrong subnet: '' @ ip @ '' (expected 10.10.10.x)'')
      | DnsNone \<Rightarrow> dns_bad (''AMT hostname '' @ amt @ '' not found in DNS'')
      | DnsNoServers t \<Rightarrow> dns_bad (''AMT DNS query failed: '' @ t)
      | DnsFailed t \<Rightarrow> dns_bad (''AMT DNS query failed: '' @ t))"

definition check_dnsmasq_service_on_host :: "'w checks \<Rightarrow> json \<Rightarrow> string \<Rightarrow> ('w, dns_result) py" where
  "check_dnsmasq_service_on_host k host_ip hostname =
     (if \<not> ck_dnspython k then py_return dns_down
      else py_try
        (py_bind (ck_dns k host_ip hostname) (\<lambda>a. case a of
           DnsIp _ \<Rightarrow>
             if endswith hostname ''a'' then py_return \<lparr>dn_running = True, dn_working = True, dn_error = None\<rparr>
             else py_try (py_bind (ck_dns k host_ip (hostname @ ''a'')) (\<lambda>a. py_return (amt_result (hostname @ ''a'') a)))
                    (\<lambda>x. py_return (dns_bad (''AMT DNS query failed: '' @ ck_text k x)))
         | DnsNone \<Rightarrow> py_return (dns_bad (''Hostname '' @ hostname @ '' not found in DNS''))
         | _ \<Rightarrow> py_return dns_down))
        (\<lambda>_. py_return dns_down))"

definition fetch_cluster_status :: "'w checks \<Rightarrow> ('w, json) py" where
  "fetch_cluster_status k =
     py_try
       (py_bind (ck_http k ''http://10.0.0.100:12723/api/cluster-status'') (\<lambda>a. case a of
          HttpBody _ reply \<Rightarrow> py_lift (ck_loads k reply)
        | HttpCode _ reason \<Rightarrow> py_raise (RuntimeError reason)
        | UrlFailed reason \<Rightarrow> py_raise (RuntimeError reason)
        | SocketTimeout \<Rightarrow> py_raise (RuntimeError ''timed out'')))
       (\<lambda>x. py_return (JObj [(''_error'', JStr (ck_text k x))]))"

section \<open>The report\<close>

definition dict_or_empty :: "json option \<Rightarrow> dict" where
  "dict_or_empty v = (case v of Some (JObj d) \<Rightarrow> d | _ \<Rightarrow> [])"

definition svc_status_str :: "'w checks \<Rightarrow> json \<Rightarrow> json" where
  "svc_status_str k details =
     (case details of
        JObj d \<Rightarrow> (case map_of d ''message'' of
          Some msg \<Rightarrow> msg
        | None \<Rightarrow>
            (let parts = (if otruthy (map_of d ''service_active'') then [''active''] else []) @ (if otruthy (map_of d ''port_open'') then [''port open''] else [])
             in JStr (if parts \<noteq> [] then join '', '' parts else ck_str k details)))
      | _ \<Rightarrow> JStr (if truthy details then ck_str k details else []))"

type_synonym report_part = "string list \<times> string list"

definition etcd_part :: "etcd_result list \<Rightarrow> report_part" where
  "etcd_part rs =
     (let good = filter er_healthy rs; bad = filter (Not \<circ> er_healthy) rs; total = nat_str (length rs) in
      if bad \<noteq> [] then ([''  etcd           '' @ nat_str (length good) @ ''/'' @ total @ '' healthy''], map (\<lambda>r. ''  etcd '' @ er_host r @ '': '' @ er_error r) bad)
      else ([''  etcd           '' @ total @ ''/'' @ total @ '' healthy, leader ''
             @ (case filter er_leader good of r # _ \<Rightarrow> er_host r | [] \<Rightarrow> ''?'')], []))"

definition vip_part :: "'w checks \<Rightarrow> dict \<Rightarrow> report_part" where
  "vip_part k cs =
     (let err = map_of cs ''_error''; info = dict_or_empty (map_of cs ''vipStatus'');
          gw = dict_or_empty (map_of info ''gateway_vip''); sv = dict_or_empty (map_of info ''storage_vip'');
          gw_host = or_else gw ''master_hostname'' ''?''; sv_host = or_else sv ''master_hostname'' ''?'' in
      if otruthy err
      then ([''  vip            unknown (storage VIP unreachable)''], [''  vip: storage VIP (10.0.0.100) unreachable: '' @ ck_str k (the err)])
      else ([''  vip            gateway '' @ ck_str k gw_host @ '' ('' @ ck_str k (or_else gw ''ip'' ''?'') @ ''), storage '' @ ck_str k sv_host
               @ '' ('' @ ck_str k (or_else sv ''ip'' ''?'') @ '')''],
            (if gw_host = JStr ''?'' then [''  vip: gateway VIP has no master''] else [])
            @ (if sv_host = JStr ''?'' then [''  vip: storage VIP has no master''] else [])))"

text \<open>The services of the leader; its name is used as a key.\<close>

definition leader_services :: "dict \<Rightarrow> json option \<Rightarrow> exn + dict" where
  "leader_services cs leader =
     (if \<not> otruthy leader then Inr []
      else (case the leader of
              JStr n \<Rightarrow> Inr (dict_or_empty (map_of (dict_or_empty (map_of (dict_or_empty (map_of cs ''hostHealth'')) n)) ''services''))
            | JList _ \<Rightarrow> Inl TypeError
            | JObj _ \<Rightarrow> Inl TypeError
            | _ \<Rightarrow> Inr []))"

definition ceph_part :: "'w checks \<Rightarrow> dict \<Rightarrow> report_part" where
  "ceph_part k services =
     (let svc = dict_or_empty (map_of services ''ceph''); st = or_else svc ''status'' ''unknown''; detail = ck_str k (svc_status_str k (or_else svc ''details'' [])) in
      if st = JStr ''healthy'' then ([''  ceph           '' @ detail], [])
      else ([''  ceph           '' @ ck_str k st @ '': '' @ detail], [''  ceph: '' @ ck_str k st @ '' - '' @ detail]))"

definition service_part :: "'w checks \<Rightarrow> dict \<Rightarrow> string \<Rightarrow> string \<times> string \<Rightarrow> report_part" where
  "service_part k services leader nl' =
     (let svc = dict_or_empty (map_of services (fst nl')); st = or_else svc ''status'' ''unknown''; detail = svc_status_str k (or_else svc ''details'' []) in
      if st = JStr ''healthy'' then ([snd nl' @ '' ok''], [])
      else ([snd nl' @ '' '' @ ck_str k st],
            [''  storage: '' @ fst nl' @ '' '' @ ck_str k st @ '' on '' @ leader @ (if truthy detail then '' - '' @ ck_str k detail else [])]))"

definition STORAGE_SERVICES :: "(string \<times> string) list" where
  "STORAGE_SERVICES = [(''postgresql'', ''pg''), (''qdrant'', ''qdrant''), (''docker_registry'', ''registry'')]"

definition storage_part :: "'w checks \<Rightarrow> dict \<Rightarrow> exn + report_part" where
  "storage_part k cs =
     (let leader = map_of (dict_or_empty (map_of cs ''leadership'')) ''storage_leader'' in
      sbind (leader_services cs leader) (\<lambda>services.
        if otruthy (map_of cs ''_error'')
        then Inr ([''  ceph           unknown (storage VIP unreachable)'', ''  storage        unknown (storage VIP unreachable)''], [])
        else if \<not> otruthy leader
        then Inr ([''  ceph           unknown (no storage leader)'', ''  storage        no leader''], [''  storage: no storage leader detected''])
        else
          (let ceph = ceph_part k services; parts = map (service_part k services (ck_str k (the leader))) STORAGE_SERVICES in
           Inr (fst ceph @ [''  storage        leader '' @ ck_str k (the leader) @ '', '' @ join '', '' (concat (map fst parts))], snd ceph @ concat (map snd parts)))))"

text \<open>The results of the nodes, with their host names.\<close>

definition dhcp_part :: "'w checks \<Rightarrow> (dict \<times> bool) list \<Rightarrow> report_part" where
  "dhcp_part k rs =
     (let ip = (\<lambda>n. ck_str k (or_else n ''ip'' [])) in
      case filter snd rs of
        [] \<Rightarrow> ([''  dhcp           no servers running''], [''  dhcp: no DHCP servers running in cluster''])
      | [(n, _)] \<Rightarrow> ([''  dhcp           ok, leader '' @ ck_str k (case map_of n ''hostname'' of Some h \<Rightarrow> h | None \<Rightarrow> JStr (ip n)) @ '' ('' @ ip n @ '')''], [])
      | up \<Rightarrow> ([''  dhcp           '' @ nat_str (length up) @ '' servers running (split brain?)''],
                [''  dhcp: multiple servers running: '' @ join '', '' (map (ip \<circ> fst) up)]))"

definition dns_problem :: "string \<times> dns_result \<Rightarrow> string list" where
  "dns_problem r =
     (if dn_running (snd r) \<and> dn_working (snd r) then []
      else if dn_running (snd r) then [''  dns '' @ fst r @ '': '' @ (case dn_error (snd r) of Some t \<Rightarrow> t | None \<Rightarrow> ''resolution failed'')]
      else [''  dns '' @ fst r @ '': not running''])"

definition dns_part :: "(string \<times> dns_result) list \<Rightarrow> report_part" where
  "dns_part rs =
     (let warn = concat (map dns_problem rs) in
      ([''  dns            '' @ nat_str (length rs - length warn) @ ''/'' @ nat_str (length rs) @ '' core nodes ok''], warn))"

section \<open>The nodes that are asked\<close>

definition node_hostname :: "dict \<Rightarrow> exn + string" where
  "node_hostname n = (case map_of n ''hostname'' of None \<Rightarrow> Inr [] | Some (JStr h) \<Rightarrow> Inr h | Some _ \<Rightarrow> Inl AttributeError)"

definition keep_node :: "json \<Rightarrow> (dict \<times> string) list \<Rightarrow> exn + (dict \<times> string) list" where
  "keep_node n acc =
     sbind (as_dict n) (\<lambda>d.
       if \<not> otruthy (map_of d ''ip'') then Inr acc
       else map_sum id (\<lambda>h. if endswith h ''a'' then acc else acc @ [(d, h)]) (node_hostname d))"

definition count_visible :: "json \<Rightarrow> nat \<Rightarrow> exn + nat" where
  "count_visible n i = sbind (as_dict n) (\<lambda>d. map_sum id (\<lambda>h. if endswith h ''a'' then i else Suc i) (node_hostname d))"

definition core_host_name :: "string \<Rightarrow> bool" where
  "core_host_name h = (let t = chomp h in startswith t ''s'' \<and> isdigit (tl t))"

definition in_order :: "'w checks \<Rightarrow> 'a list \<Rightarrow> 'a list" where
  "in_order k rs = map (nth rs) (ck_done k (length rs))"

definition probe_dhcp :: "'w checks \<Rightarrow> dict \<times> string \<Rightarrow> (dict \<times> bool) list \<Rightarrow> ('w, (dict \<times> bool) list) py" where
  "probe_dhcp k n acc = py_bind (check_dhcp_service_on_host k (ck_str k (or_else (fst n) ''ip'' []))) (\<lambda>r. py_return (acc @ [(fst n, fst r)]))"

definition probe_dns :: "'w checks \<Rightarrow> dict \<times> string \<Rightarrow> (string \<times> dns_result) list \<Rightarrow> ('w, (string \<times> dns_result) list) py" where
  "probe_dns k n acc =
     py_bind (check_dnsmasq_service_on_host k (or_else (fst n) ''ip'' []) (snd n)) (\<lambda>r. py_return (acc @ [(snd n, r)]))"

text \<open>The facts the check collects, and what it makes of them. It prints each part as soon as it is known.\<close>

record facts =
  fa_etcd :: "etcd_result list"
  fa_nodes :: "json list"
  fa_status :: dict
  fa_dhcp :: "(dict \<times> bool) list"
  fa_dns :: "(string \<times> dns_result) list"

definition collect_facts :: "'w etcd3 \<Rightarrow> 'w checks \<Rightarrow> string \<Rightarrow> ('w, facts) py" where
  "collect_facts e k initial_host =
     py_bind (get_cluster_members k initial_host) (\<lambda>hosts.
     py_bind (py_fold (\<lambda>h rs. py_bind (check_etcd_host k h) (\<lambda>r. py_return (rs @ [r]))) hosts []) (\<lambda>etcd_results.
     py_bind (py_try (py_seq (e_client e) (py_return True)) (\<lambda>_. py_return False)) (\<lambda>client.
     py_bind (if client then get_all_nodes e else py_return []) (\<lambda>nodes.
     py_bind (py_lift (sfold keep_node nodes [])) (\<lambda>asked.
     py_bind (fetch_cluster_status k) (\<lambda>answer. py_bind (py_lift (as_dict answer)) (\<lambda>cs.
     py_bind (py_fold (probe_dhcp k) asked []) (\<lambda>dhcp.
     py_bind (py_fold (probe_dns k) (filter (core_host_name \<circ> snd) asked) []) (\<lambda>dns.
       py_return \<lparr>fa_etcd = etcd_results, fa_nodes = nodes, fa_status = cs, fa_dhcp = dhcp, fa_dns = dns\<rparr>)))))))))"

definition compact_report :: "'w checks \<Rightarrow> facts \<Rightarrow> exn + report_part" where
  "compact_report k f =
     sbind (storage_part k (fa_status f)) (\<lambda>storage. sbind (sfold count_visible (fa_nodes f) 0) (\<lambda>visible.
       let parts = [etcd_part (fa_etcd f), vip_part k (fa_status f), storage, dhcp_part k (in_order k (fa_dhcp f)), dns_part (in_order k (fa_dns f))];
           problems = concat (map snd parts)
       in Inr (''Cluster Health'' # concat (map fst parts) @ [''  nodes          '' @ nat_str visible @ '' registered'']
            @ (if problems \<noteq> [] then (nl @ ''Problems:'') # problems else [nl @ ''No problems detected.'']), problems)))"

definition run_compact :: "'w etcd3 \<Rightarrow> 'w checks \<Rightarrow> string \<Rightarrow> ('w, report_part) py" where
  "run_compact e k initial_host = py_bind (collect_facts e k initial_host) (\<lambda>f. py_lift (compact_report k f))"

section \<open>When nothing is reported\<close>

text \<open>The specification, on what was collected in whatever order.\<close>

definition master_known :: "dict \<Rightarrow> string \<Rightarrow> bool" where
  "master_known cs vip = (\<exists>v. map_of (dict_or_empty (map_of (dict_or_empty (map_of cs ''vipStatus'')) vip)) ''master_hostname'' = Some v \<and> v \<noteq> JStr ''?'')"

definition leader_well :: "dict \<Rightarrow> bool" where
  "leader_well cs =
     (\<exists>leader services. map_of (dict_or_empty (map_of cs ''leadership'')) ''storage_leader'' = Some leader \<and> truthy leader \<and> leader_services cs (Some leader) = Inr services
        \<and> (\<forall>n\<in>{''ceph'', ''postgresql'', ''qdrant'', ''docker_registry''}. map_of (dict_or_empty (map_of services n)) ''status'' = Some (JStr ''healthy'')))"

definition all_well :: "facts \<Rightarrow> bool" where
  "all_well f =
     ((\<forall>r\<in>set (fa_etcd f). er_healthy r) \<and> \<not> otruthy (map_of (fa_status f) ''_error'')
      \<and> master_known (fa_status f) ''gateway_vip'' \<and> master_known (fa_status f) ''storage_vip'' \<and> leader_well (fa_status f)
      \<and> length (filter snd (fa_dhcp f)) = 1 \<and> (\<forall>r\<in>set (fa_dns f). dn_running (snd r) \<and> dn_working (snd r)))"

lemma or_else_known: "or_else d key ''?'' \<noteq> JStr ''?'' \<longleftrightarrow> (\<exists>v. map_of d key = Some v \<and> v \<noteq> JStr ''?'')"
  by (auto simp: or_else_def split: option.splits)

lemma or_else_healthy: "or_else d ''status'' ''unknown'' = JStr ''healthy'' \<longleftrightarrow> map_of d ''status'' = Some (JStr ''healthy'')"
  by (auto simp: or_else_def split: option.splits)

lemma etcd_quiet: "snd (etcd_part rs) = [] \<longleftrightarrow> (\<forall>r\<in>set rs. er_healthy r)"
  by (auto simp: etcd_part_def Let_def filter_empty_conv)

lemma vip_quiet: "snd (vip_part k cs) = [] \<longleftrightarrow> \<not> otruthy (map_of cs ''_error'') \<and> master_known cs ''gateway_vip'' \<and> master_known cs ''storage_vip''"
  unfolding master_known_def or_else_known [symmetric] by (simp add: vip_part_def Let_def)

lemma ceph_quiet: "snd (ceph_part k services) = [] \<longleftrightarrow> map_of (dict_or_empty (map_of services ''ceph'')) ''status'' = Some (JStr ''healthy'')"
  by (simp add: ceph_part_def Let_def or_else_healthy)

lemma service_quiet: "snd (service_part k services leader x) = [] \<longleftrightarrow> map_of (dict_or_empty (map_of services (fst x))) ''status'' = Some (JStr ''healthy'')"
  by (simp add: service_part_def Let_def or_else_healthy)

lemma storage_quiet:
  assumes "storage_part k cs = Inr st" "\<not> otruthy (map_of cs ''_error'')"
  shows "snd st = [] \<longleftrightarrow> leader_well cs"
proof -
  let ?leader = "map_of (dict_or_empty (map_of cs ''leadership'')) ''storage_leader''"
  show ?thesis
  proof (cases "otruthy ?leader")
    case True
    then obtain l where l: "?leader = Some l" "truthy l" by (cases ?leader) (auto simp: otruthy_def)
    with assms obtain services where sv: "leader_services cs (Some l) = Inr services" by (auto simp: storage_part_def sbind_def Let_def split: sum.splits)
    with assms l True have "snd st = snd (ceph_part k services) @ concat (map snd (map (service_part k services (ck_str k l)) STORAGE_SERVICES))"
      by (auto simp: storage_part_def sbind_def Let_def)
    then show ?thesis using l sv by (simp add: leader_well_def ceph_quiet service_quiet STORAGE_SERVICES_def)
  next
    case False
    with assms have "snd st \<noteq> []" by (auto simp: storage_part_def sbind_def Let_def split: sum.splits)
    with False show ?thesis by (auto simp: leader_well_def otruthy_def)
  qed
qed

lemma dhcp_quiet: "snd (dhcp_part k rs) = [] \<longleftrightarrow> length (filter snd rs) = 1"
  by (auto simp: dhcp_part_def Let_def split: list.splits)

lemma dns_problem_Nil: "dns_problem r = [] \<longleftrightarrow> dn_running (snd r) \<and> dn_working (snd r)"
  by (simp add: dns_problem_def)

lemma dns_quiet: "snd (dns_part rs) = [] \<longleftrightarrow> (\<forall>r\<in>set rs. dn_running (snd r) \<and> dn_working (snd r))"
  by (simp only: dns_part_def Let_def snd_conv concat_eq_Nil_conv set_map ball_simps dns_problem_Nil)

lemma in_order_mset: "mset (ck_done k (length rs)) = mset [0..<length rs] \<Longrightarrow> mset (in_order k rs) = mset rs"
  unfolding in_order_def by (metis map_nth mset_map)

text \<open>No problem is reported exactly when every etcd member is healthy, the API answers and names a master of both addresses and a
  storage leader whose services are healthy, one DHCP server runs, and the DNS of every core node works, in whatever order the
  probes end; the last line says so.\<close>

theorem no_problem_iff_all_well:
  assumes "run_compact e k host s = (Inr (out, problems), s')" "\<And>n. mset (ck_done k n) = mset [0..<n]"
  shows "\<exists>f. collect_facts e k host s = (Inr f, s') \<and> (problems = [] \<longleftrightarrow> all_well f) \<and> last out = (if problems = [] then nl @ ''No problems detected.'' else last problems)"
proof -
  from assms(1) obtain f where f: "collect_facts e k host s = (Inr f, s')" "compact_report k f = Inr (out, problems)"
    by (auto simp: run_compact_def py_defs split: prod.splits sum.splits)
  then obtain st where st: "storage_part k (fa_status f) = Inr st"
    and problems: "problems = snd (etcd_part (fa_etcd f)) @ snd (vip_part k (fa_status f)) @ snd st @ snd (dhcp_part k (in_order k (fa_dhcp f))) @ snd (dns_part (in_order k (fa_dns f)))"
    and out: "last out = (if problems = [] then nl @ ''No problems detected.'' else last problems)"
    by (auto simp: compact_report_def sbind_def Let_def split: sum.splits if_splits)
  have dhcp: "length (filter snd (in_order k (fa_dhcp f))) = length (filter snd (fa_dhcp f))"
    using in_order_mset [of k "fa_dhcp f", OF assms(2)] by (metis mset_filter size_mset)
  have dns: "set (in_order k (fa_dns f)) = set (fa_dns f)" using in_order_mset [of k "fa_dns f", OF assms(2)] by (metis set_mset_mset)
  have "problems = [] \<longleftrightarrow> all_well f"
    unfolding problems all_well_def append_is_Nil_conv etcd_quiet vip_quiet dhcp_quiet dns_quiet dhcp dns using storage_quiet [OF st] by blast
  with f(1) out show ?thesis by blast
qed

section \<open>A cluster in memory\<close>

text \<open>Two nodes, of which \<open>s1\<close> serves DHCP; the admin API gives the masters of the addresses.\<close>

definition ck_status :: "json \<Rightarrow> json" where
  "ck_status master =
     JObj [(''vipStatus'', JObj (map (\<lambda>v. (v, JObj [(''ip'', JStr ''10.0.0.254''), (''master_hostname'', master)])) [''gateway_vip'', ''storage_vip''])),
       (''leadership'', JObj [(''storage_leader'', JStr ''s1'')]),
       (''hostHealth'', JObj [(''s1'', JObj [(''services'', JObj (map (\<lambda>n. (n, JObj [(''status'', JStr ''healthy''), (''details'', JObj [(''message'', JStr ''fine'')])]))
          [''ceph'', ''postgresql'', ''qdrant'', ''docker_registry'']))])])]"

definition ck_cluster :: "json \<Rightarrow> mem checks" where
  "ck_cluster master = \<lparr>ck_etcdctl = py_return \<lparr>pr_rc = 1, pr_out = [], pr_err = []\<rparr>,
     ck_loads = (\<lambda>t. Inr (if t = ''dhcp'' then JObj [(''status'', JStr ''healthy'')] else ck_status master)),
     ck_etcd = (\<lambda>_ _. py_return \<lparr>es_leader = 1, es_members = [(1, [''https://10.0.0.11:2379''])]\<rparr>),
     ck_http = (\<lambda>u. py_return (if u = ''http://10.0.0.11:8067/health'' then HttpBody 200 ''dhcp''
        else if u = ''http://10.0.0.100:12723/api/cluster-status'' then HttpBody 200 ''status'' else UrlFailed ''refused'')),
     ck_dnspython = True, ck_dns = (\<lambda>_ n. py_return (DnsIp (if endswith n ''a'' then ''10.10.10.11'' else ''10.0.0.11''))),
     ck_done = (\<lambda>n. rev [0..<n]), ck_str = shown, ck_text = (\<lambda>_. ''error'')\<rparr>"

definition ck_store :: mem where
  "ck_store = \<lparr>mem_data = map (\<lambda>(h, a). (BY_HOSTNAME @ h, Doc [(''hostname'', JStr h), (''ip'', JStr a)], 1)) [(''s1'', ''10.0.0.11''), (''c1'', ''10.0.0.51'')], mem_rev = 1\<rparr>"

definition ck_run :: "json \<Rightarrow> (exn + report_part) \<times> mem" where
  "ck_run master = run_compact mem_etcd (ck_cluster master) ''10.0.0.11:2379'' ck_store"

theorem no_problem_iff_all_well_witness:
  "\<exists>out f. fst (ck_run (JStr ''s1'')) = Inr (out, []) \<and> fst (collect_facts mem_etcd (ck_cluster (JStr ''s1'')) ''10.0.0.11:2379'' ck_store) = Inr f \<and> all_well f"
proof -
  have "map_sum id snd (fst (ck_run (JStr ''s1''))) = Inr []" by code_simp
  then obtain out where out: "fst (ck_run (JStr ''s1'')) = Inr (out, [])" by (cases "fst (ck_run (JStr ''s1''))") auto
  have "mset (ck_done (ck_cluster (JStr ''s1'')) n) = mset [0..<n]" for n by (simp add: ck_cluster_def)
  moreover have "run_compact mem_etcd (ck_cluster (JStr ''s1'')) ''10.0.0.11:2379'' ck_store = (Inr (out, []), snd (ck_run (JStr ''s1'')))"
    using out by (simp add: ck_run_def prod_eq_iff)
  ultimately show ?thesis using no_problem_iff_all_well [of mem_etcd "ck_cluster (JStr ''s1'')" "''10.0.0.11:2379''" ck_store out "[]"] out by fastforce
qed

section \<open>Findings\<close>

text \<open>The API names the master of an address in every answer, \<open>null\<close> where there is none; the check looks for a missing name, so addresses
  without a master are no problem to it.\<close>

theorem masterless_vip_unreported:
  "map_sum id (\<lambda>(out, problems). (out ! 2, problems)) (fst (ck_run JNull)) = Inr (''  vip            gateway None (10.0.0.254), storage None (10.0.0.254)'', [])"
  by code_simp

text \<open>Without etcd no node is known, so none is asked, and the check reports that no DHCP server runs.\<close>

definition ck_no_etcd :: "mem etcd3" where
  "ck_no_etcd = mem_etcd\<lparr>e_client := py_raise ConnectionError\<rparr>"

theorem dhcp_blamed_for_etcd:
  "map_sum id snd (fst (run_compact ck_no_etcd (ck_cluster (JStr ''s1'')) ''10.0.0.11:2379'' ck_store)) = Inr [''  dhcp: no DHCP servers running in cluster'']"
  by code_simp

end
