(* ===== verification/Spec2Isabelle.thy ===== *)
theory Spec2Isabelle
  imports YPrelude YJson YTime YEtcd YNaming YRegistry YAlloc YDhcp YAdmin YWg YVmSchedule YIncus YBastion YVm YVmLife YWatch YUsage YBilling YHealth YCluster YGateway YTls YInventory YBackup YHeartbeat YUsers YInstall YProxyAuth YMonitor YMacHealth YCa YBackupCli YSensors YNode YCheck
begin

text \<open>
  \<^bold>\<open>YCluster's control plane\<close>

  YCluster runs a small cluster of machines. Its control plane is a set of Python programs that share one etcd
  store: a DHCP server that names and addresses the machines, an admin API and its page, a manager of virtual
  machines on Incus hosts with a reconciler that runs on every host, an SSH bastion, WireGuard peers, a public
  gateway with its frontends, tunnel and certificate, health checks, monitoring services, a token validator in front
  of the inference gateway, account management at an identity provider, and a collector of usage that feeds billing.
  The programs meet in etcd: the allocator of the DHCP server and that of the admin API write the same node
  registry with transactions; the scheduling page writes desired states that the reconciler applies; the
  reconciler writes events that the collector drains into a database, from which the admin API bills; health and
  Prometheus targets are computed from the node registry, and so are the inventory of Ansible and what an installing
  machine is given.

  \<^bold>\<open>Conventions\<close>

  A Python function with effects is a function of the world, \<open>('w, 'a) py = 'w \<Rightarrow> (exn + 'a) \<times> 'w\<close> (YPrelude):
  every exception the sources raise, catch or let pass is a value of \<open>exn\<close>, and the world after an exception is
  kept. \<open>py_bind\<close>, \<open>py_try\<close>, \<open>py_finally\<close>, \<open>py_for\<close> and \<open>py_fold\<close> are sequencing, handlers and loops; proofs go
  by the weakest precondition \<open>wp m Q E\<close> (\<open>Q\<close> on return, \<open>E\<close> on an exception) with the collection \<open>wp_simps\<close>, and
  by \<open>keeps I m\<close> for invariants that hold on both. JSON documents are the datatype \<open>json\<close>, dicts are association
  lists in insertion order, a value in etcd is a \<open>blob\<close> (YJson). Instants are microseconds (YTime: ISO parsing and
  printing, weekdays, proleptic Gregorian calendar). Python integers are unbounded, so \<open>int\<close>; addresses are kept
  as text and converted where the code does.

  What is outside the sources is a parameter, a record of the calls the code makes, and a locale states what is
  relied on: \<open>etcd3\<close> with \<open>etcd_env\<close> (other clients may write between two calls, as the relation \<open>rely\<close>
  allows, and any call may fail before or after taking effect) and \<open>etcd_seq\<close> (one client, no failure), \<open>host\<close>
  with \<open>incus_env\<close> (the incus client, files and the clock of a VM host, of which it does not say that it only goes forward), \<open>usage_db\<close> with \<open>usage_env\<close> (the usage
  database), \<open>box\<close> with \<open>tls_env\<close> (files, temporary files and commands of the certificate manager, any of which may fail; it
  records the last command given to the timer and the removals that were refused), \<open>registry_env\<close>
  (\<open>etcd_env\<close> whose other clients keep the registry sound), \<open>ansible\<close> with \<open>ansible_env\<close> (Ansible's inventory object), \<open>beat\<close>
  with \<open>beat_env\<close> (the requests of the heartbeat, on an \<open>etcd_env\<close> whose calls may fail), \<open>idp\<close> with \<open>idp_env\<close> (the identity provider and its database), \<open>installer\<close>
  with \<open>install_env\<close> (files and templates), \<open>cabox\<close> with \<open>ca_env\<close> (files and certificates of the authority), \<open>sensors\<close> with
  \<open>sensor_env\<close> and \<open>local\<close> with \<open>local_env\<close> and \<open>hosts_env\<close> (tools and files of a node), \<open>owui\<close> with \<open>auth_env\<close> (the database of API keys), \<open>notifier\<close> with \<open>notify_env\<close>
  (posts and whether they were acknowledged, nothing of what a failed one did) and \<open>prober\<close> with \<open>probe_env\<close> (the monitoring services). Each is interpreted on executable definitions: the
  in-memory client \<open>mem_etcd\<close> modelled on \<open>tests/fake_etcd.py\<close> (\<open>memkv\<close>; \<open>mem_part\<close> makes it a part of a larger world), a
  client whose calls are interleaved with scripted writes of others (\<open>scriptreg\<close>), a simulated Incus host (\<open>sim\<close>), a collector
  among writers with failing calls (\<open>collector\<close>), a machine with certbot (\<open>tbx\<close>), an inventory (\<open>awi\<close>), a heartbeat (\<open>hws\<close>), a
  provider (\<open>iws\<close>), an installer (\<open>minst\<close>), a validator (\<open>avs\<close>), a notifier (\<open>mnt\<close>), a prober (\<open>pws\<close>), the disk of an authority (\<open>cds\<close>) and
  nodes (\<open>snm\<close>, \<open>nwl\<close>, \<open>nwh\<close>). Witnesses run the
  model on these.

  \<^bold>\<open>Components\<close>

  \<^item> YEtcd: \<open>common/etcd_utils.py\<close> and the JSON helpers of \<open>utils/vm_manager.py\<close>.
  \<^item> YNaming: names, types and addresses (both copies, \<open>utils/dhcp_server.py\<close> and \<open>app.py\<close>).
  \<^item> YRegistry: the abstract specification of the node registry: \<open>reg_inv\<close> (the by-mac and by-hostname entries
    describe one assignment of names to MACs in which no name and no MAC is used twice; it says nothing of addresses, which are
    C16's and C21's) and \<open>grows\<close>, the interference allowed.
  \<^item> YAlloc, YDhcp: the DHCP server. The allocator keeps \<open>reg_inv\<close> whatever the others do (C1), answers a known
    machine with what it has (C23) and finds free dynamic addresses (C21); the server as a state machine over
    packets keeps the registry (C3) and the lease table (\<open>lease_table_invariant\<close>), a reply carries the lease (C15), cleanup removes exactly the
    expired leases (\<open>cleanup_removes_expired\<close>).
  \<^item> YAdmin: the allocation and host endpoints of \<open>app.py\<close>, \<open>host_state.py\<close> and \<open>lease_manager.py\<close> (C2, C16).
  \<^item> YInstall: installation data, bootstrap scripts and listings of \<open>app.py\<close>: a machine is installed under the name the
    registry has for it (C17), and the CSV export of the inventory reads back (C38).
  \<^item> YInventory: \<open>inventory.py\<close> and the Ansible plugin \<open>etcd_nodes.py\<close>: the groups are exactly those of the registry and of the members etcd
    names, and nothing changes when no etcd host answers (C37).
  \<^item> YWg: \<open>wg_config.py\<close> and its public endpoints: registering can neither approve a peer nor replace an approved
    key, a poll answers only approved peers, the server configuration lists exactly them (C18, C19, C22).
  \<^item> YVmSchedule: desired states, windows and GPU admission of \<open>vm_manager.py\<close> and the schedule endpoints of
    \<open>app.py\<close>: the probe of finitely many instants decides the conflict over the whole range (C7), an admitted
    schedule fits the GPUs at every instant of it (C6), access, privacy and round trip of the page (C20, C24, C28,
    C29).
  \<^item> YIncus, YVm, YVmLife: the Incus host, the life cycle of VMs and the reconciler: power is switched only when due
    (C4), what is due is done or its failure recorded (C5), what is written (\<open>reconcile_writes_own_keys\<close>), launch and destroy on every
    path (C25, C26), the pins set are those reported, to distinct addresses (C32), waiting ends (C31), the DNS lines settle (\<open>dns_sync_settles\<close>).
  \<^item> YBastion, YWatch: keys, ownership and the access list, which refines the relation of who may reach what (C8);
    the watcher's queue as a transition relation on interleavings of callbacks and rounds (C9).
  \<^item> YUsage, YBilling: \<open>collect-vm-stats.py\<close> records each event once (C10); the time billed for a window equals that
    of the complete history (C11) and is bounded (C33).
  \<^item> YHealth, YCluster: the health report of a node and what the cluster makes of it (C12; \<open>prometheus_targets_exact\<close>,
    \<open>vip_shown_is_last_active\<close>). YHeartbeat: \<open>cluster-heartbeat.py\<close>, an unhealthy node raises the alarm when the address of the alarm is found (C39) and every node
    is counted once. YMacHealth: \<open>macos/files/health-service.py\<close> (\<open>mac_verdict_is_worst\<close>, and the same band of clock offsets as
    \<open>clock_skew.py\<close>, \<open>mac_clock_in_sync\<close>). YBackup: \<open>backup_status.py\<close> (\<open>failed_restore_exported\<close>).
  \<^item> YBackupCli: \<open>cli/backup.py\<close>: the commands implement an abstract map of recipients and destinations (C27,
    \<open>destinations_listed\<close>).
  \<^item> YNode: \<open>populate_local_node.py\<close>, which writes the registry without the allocators' transactions (\<open>node_registered\<close>), and
    \<open>update_dhcp_hosts.py\<close> (\<open>hosts_refreshed\<close>).
  \<^item> YCheck: \<open>check_cluster.py\<close>: no problem is reported exactly when all is well, in whatever order the probes end
    (\<open>no_problem_iff_all_well\<close>); its probes are the record \<open>checks\<close>.
  \<^item> YSensors: \<open>node-temps-collector.py\<close>, \<open>vm-gpu-collector.py\<close>: the metrics are replaced as a whole (\<open>temps_replaced_whole\<close>), a VM
    that hangs hides no other (\<open>vm_gpus_published\<close>), a line reads back as its labels (\<open>metric_reads_back\<close>).
  \<^item> YGateway: \<open>frontend_manager.py\<close>, \<open>rathole_config.py\<close>, \<open>gateway_health.py\<close> (C13).
  \<^item> YTls: \<open>https_config.py\<close>, \<open>tls_config.py\<close>, \<open>fetch_tls_certs.py\<close>, \<open>certbot_manager.py\<close> (C14).
  \<^item> YCa: \<open>ca_manager.py\<close>: what a server is issued is signed by the authority and matches its key (C30), the authority is
    never overwritten (\<open>authority_never_overwritten\<close>), what is revoked is gone (\<open>revoked_is_gone\<close>).
  \<^item> YUsers: \<open>authentik_manager.py\<close> and the account page: only what a request names is changed (C35), the import of
    accounts never replaces a password (C36).
  \<^item> YProxyAuth: \<open>local-ai-proxy-auth.py\<close>, requests interleaved with changes outside as a step relation (C34).
  \<^item> YMonitor: \<open>ntfy-webhook.py\<close>, whose answer is an error only when no post was acknowledged (C40), and \<open>update-blackbox-targets.py\<close> (\<open>blackbox_targets_exact\<close>).

  \<^bold>\<open>Bounds\<close>

  The loops of the sources that retry are bounded there, and the model has their bounds: three and five tries of a
  transaction (an allocation that loses every race is an error value, not a stuck state), the retries of a
  connection. Waiting for the agent of a guest (\<open>wait_probe\<close>) has fuel, and C31 shows that timeout / 3 + 2 rounds
  reach the deadline as long as the clock of the host is not set back (\<open>steady_clock\<close>). The searches for a free number or address run over finite lists and
  end by recursion on them. The endless loops of the services (DHCP receive loop, watcher, reconciler timer) are modelled by their
  body and by sequences of steps; the theorems hold for every finite sequence.

  \<^bold>\<open>Findings\<close>

  Where the code does not do what it means to, a theorem shows it on a concrete input, in the section Findings of
  the theory; among them the tenth macOS node that gets the address of the storage VIP, a pin that takes a live
  address, a restart that changes what was billed, a failed renewal reported as success, a private key left in
  the temporary directory, an outage that the heartbeat reports as healthy, an invitation that is issued although the
  answer is an error, a master key that is accepted after its removal, the time of an alert that is called UTC in
  whatever zone it is, a notification that is delivered again when its post timed out, a certificate kept beside the key of another, a macOS node that is healthy when it cannot be
  read, a node whose two registry entries part when it registers again, a reload of dnsmasq that is never retried, and a virtual
  address without a master that the cluster check does not report.

  \<^bold>\<open>Not modelled\<close>

  Pages and the content of templates, the collection of hardware facts, command lines that parse arguments and print
  (among them the detailed cluster check), the exporter of ZFS pools and the collector of model statistics, the byte loop on serial ports,
  applications that serve third-party models, and the Ansible roles.
  Threads appear as interleavings of their critical sections, sockets, processes and databases as the parameters
  above; SQL is stated as the effect of its statements. Text values in etcd that are JSON but neither object nor list
  are not distinguished from other text. Floating-point rounding of the usage page is left out. A list or an object
  printed into a message is printed as nothing. The module \<open>ntplib\<close> is taken to be installed, and of an NTP reply only the offset
  is reported.
\<close>

end
